(* ===== verification/Roam_Prelude.thy ===== *)
theory Roam_Prelude
  imports Main "HOL-Library.Word" "HOL-Library.List_Lexorder" "HOL-Library.Option_ord"
begin

text \<open>
  Shared vocabulary of the development: the machine types of the Rust sources, results with an
  error side, the state-and-error sequencing that the question mark operator performs, integers
  at their width with checked and saturating arithmetic, big-endian byte encodings, mutexes that
  can be poisoned, and the two locales that every stateful component is run through.

  Conventions.  A Rust \<^verbatim>\<open>Result<T, E>\<close> is a sum with the error on the left.  A method that takes
  \<^verbatim>\<open>&mut self\<close> returns the new state paired with its result, so that a mutation made before an
  early return is visible in the model.  A Rust \<^verbatim>\<open>String\<close> is a list of UTF-8 bytes (\<open>char\<close> is a
  byte in HOL), so \<open>length\<close> is Rust's \<^verbatim>\<open>len\<close>.  Protobuf enum fields arrive as \<^verbatim>\<open>i32\<close> and are
  never computed with; they and the signed pointer coordinates are \<open>int\<close>.
\<close>

named_theorems limits \<open>constants of protocol_limits.rs and of the modules that use them\<close>
named_theorems res_simps \<open>evaluation of result and state combinators\<close>
named_theorems machine_steps \<open>step functions unfolded when a component is run\<close>

section \<open>Machine types\<close>

type_synonym u8 = "8 word"
type_synonym u16 = "16 word"
type_synonym u32 = "32 word"
type_synonym u64 = "64 word"
type_synonym i32 = int
type_synonym bytes = "u8 list"

definition as_bytes :: "string \<Rightarrow> bytes" where
  "as_bytes s = map (\<lambda>c. word_of_nat (of_char c)) s"

lemma length_as_bytes [simp]: "length (as_bytes s) = length s"
  by (simp add: as_bytes_def)

lemma as_bytes_Nil [simp]: "as_bytes [] = []"
  by (simp add: as_bytes_def)

section \<open>Results\<close>

definition bind_res :: "'e + 'a \<Rightarrow> ('a \<Rightarrow> 'e + 'b) \<Rightarrow> 'e + 'b" where
  "bind_res r k = (case r of Inl e \<Rightarrow> Inl e | Inr x \<Rightarrow> k x)"

definition map_err :: "('e \<Rightarrow> 'f) \<Rightarrow> 'e + 'a \<Rightarrow> 'f + 'a" where
  "map_err f r = (case r of Inl e \<Rightarrow> Inl (f e) | Inr x \<Rightarrow> Inr x)"

definition ok_or :: "'e \<Rightarrow> 'a option \<Rightarrow> 'e + 'a" where
  "ok_or e v = (case v of None \<Rightarrow> Inl e | Some x \<Rightarrow> Inr x)"

definition ensure :: "'e \<Rightarrow> bool \<Rightarrow> 'e + unit" where
  "ensure e b = (if b then Inr () else Inl e)"

definition is_ok :: "'e + 'a \<Rightarrow> bool" where
  "is_ok r = (case r of Inl _ \<Rightarrow> False | Inr _ \<Rightarrow> True)"

text \<open>\<open>a.and(b)\<close> on two results without values: the first error wins.\<close>

definition and_res :: "'e + unit \<Rightarrow> 'e + unit \<Rightarrow> 'e + unit" where
  "and_res a b = (case a of Inl e \<Rightarrow> Inl e | Inr _ \<Rightarrow> b)"

text \<open>A body that is a sequence of checks, each followed by the question mark operator.\<close>

primrec all_ok :: "('e + unit) list \<Rightarrow> 'e + unit" where
  "all_ok [] = Inr ()"
| "all_ok (r # rs) = (case r of Inl e \<Rightarrow> Inl e | Inr _ \<Rightarrow> all_ok rs)"

lemma bind_res_simps [simp, res_simps]:
  "bind_res (Inl e) k = Inl e" "bind_res (Inr x) k = k x"
  by (simp_all add: bind_res_def)

lemma bind_res_Inr: "bind_res r k = Inr y \<longleftrightarrow> (\<exists>x. r = Inr x \<and> k x = Inr y)"
  by (cases r) auto

lemma bind_res_Inl: "bind_res r k = Inl e \<longleftrightarrow> r = Inl e \<or> (\<exists>x. r = Inr x \<and> k x = Inl e)"
  by (cases r) auto

lemma map_err_simps [simp, res_simps]:
  "map_err f (Inl e) = Inl (f e)" "map_err f (Inr x) = Inr x"
  by (simp_all add: map_err_def)

lemma map_err_Inr [simp]: "map_err f r = Inr x \<longleftrightarrow> r = Inr x"
  by (cases r) auto

lemma ok_or_simps [simp, res_simps]:
  "ok_or e None = Inl e" "ok_or e (Some x) = Inr x"
  by (simp_all add: ok_or_def)

lemma ok_or_Inr [simp]: "ok_or e v = Inr x \<longleftrightarrow> v = Some x"
  by (cases v) auto

lemma ok_or_Inl [simp]: "ok_or e v = Inl e' \<longleftrightarrow> v = None \<and> e' = e"
  by (cases v) auto

lemma ensure_Inr [simp]: "ensure e b = Inr u \<longleftrightarrow> b"
  by (cases u) (simp add: ensure_def)

lemma ensure_Inl [simp]: "ensure e b = Inl e' \<longleftrightarrow> \<not> b \<and> e' = e"
  by (auto simp: ensure_def)

lemma is_ok_simps [simp, res_simps]: "\<not> is_ok (Inl e)" "is_ok (Inr x)"
  by (simp_all add: is_ok_def)

lemma and_res_simps [simp, res_simps]:
  "and_res (Inl e) b = Inl e" "and_res (Inr u) b = b"
  by (simp_all add: and_res_def)

lemma all_ok_Inr: "all_ok rs = Inr u \<longleftrightarrow> (\<forall>r \<in> set rs. r = Inr ())"
  by (induction rs) (auto split: sum.splits)

lemma all_ok_append: "all_ok (rs @ ts) = bind_res (all_ok rs) (\<lambda>_. all_ok ts)"
  by (induction rs) (auto split: sum.splits)

section \<open>State and error\<close>

definition sbind ::
  "'s \<times> ('e + 'a) \<Rightarrow> ('s \<Rightarrow> 'a \<Rightarrow> 's \<times> ('e + 'b)) \<Rightarrow> 's \<times> ('e + 'b)" where
  "sbind m k = (case m of (s, r) \<Rightarrow> (case r of Inl e \<Rightarrow> (s, Inl e) | Inr x \<Rightarrow> k s x))"

definition smap_err :: "('e \<Rightarrow> 'f) \<Rightarrow> 's \<times> ('e + 'a) \<Rightarrow> 's \<times> ('f + 'a)" where
  "smap_err f m = (fst m, map_err f (snd m))"

lemma sbind_simps [simp, res_simps]:
  "sbind (s, Inl e) k = (s, Inl e)" "sbind (s, Inr x) k = k s x"
  by (simp_all add: sbind_def)

lemma smap_err_simps [simp, res_simps]: "smap_err f (s, r) = (s, map_err f r)"
  by (simp add: smap_err_def)

lemma fst_smap_err [simp]: "fst (smap_err f m) = fst m"
  by (simp add: smap_err_def)

lemma sbind_Inr:
  "sbind m k = (t, Inr y) \<longleftrightarrow> (\<exists>s x. m = (s, Inr x) \<and> k s x = (t, Inr y))"
  by (cases m; cases "snd m") auto

text \<open>The workhorse of the preservation proofs: a property kept by both halves is kept.\<close>

lemma fst_sbind_preserved:
  assumes "P (fst m)"
    and "\<And>s x. m = (s, Inr x) \<Longrightarrow> P s \<Longrightarrow> P (fst (k s x))"
  shows "P (fst (sbind m k))"
  using assms by (cases m; cases "snd m") auto

section \<open>Mutexes\<close>

text \<open>A lock attempt fails exactly when an earlier holder panicked.\<close>

datatype 'a mutex = Healthy (locked_value: 'a) | Poisoned (locked_value: 'a)

definition lock_or :: "'e \<Rightarrow> 'a mutex \<Rightarrow> 'e + 'a" where
  "lock_or e m = (case m of Healthy x \<Rightarrow> Inr x | Poisoned _ \<Rightarrow> Inl e)"

lemma lock_or_simps [simp, res_simps]:
  "lock_or e (Healthy x) = Inr x" "lock_or e (Poisoned x) = Inl e"
  by (simp_all add: lock_or_def)

lemma lock_or_Inr [simp]: "lock_or e m = Inr x \<longleftrightarrow> m = Healthy x"
  by (cases m) auto

lemma lock_or_Inl: "lock_or e m = Inl e' \<longleftrightarrow> e' = e \<and> (\<exists>x. m = Poisoned x)"
  by (cases m) auto

section \<open>Arithmetic at width\<close>

definition checked_add :: "'a::len word \<Rightarrow> 'a word \<Rightarrow> 'a word option" where
  "checked_add a b = (if unat a + unat b < 2 ^ LENGTH('a) then Some (a + b) else None)"

definition checked_sub :: "'a::len word \<Rightarrow> 'a word \<Rightarrow> 'a word option" where
  "checked_sub a b = (if b \<le> a then Some (a - b) else None)"

definition saturating_add :: "'a::len word \<Rightarrow> 'a word \<Rightarrow> 'a word" where
  "saturating_add a b = (if unat a + unat b < 2 ^ LENGTH('a) then a + b else - 1)"

definition saturating_sub :: "'a::len word \<Rightarrow> 'a word \<Rightarrow> 'a word" where
  "saturating_sub a b = (if b \<le> a then a - b else 0)"

text \<open>\<^verbatim>\<open>usize\<close> has 64 bits on every supported target.\<close>

definition checked_add_usize :: "nat \<Rightarrow> nat \<Rightarrow> nat option" where
  "checked_add_usize a b = (if a + b < 2 ^ 64 then Some (a + b) else None)"

lemma unat_lt2p: "unat w < 2 ^ LENGTH('a)" for w :: "'a::len word"
  by (rule unsigned_less)

lemma unat_inject: "unat a = unat b \<longleftrightarrow> a = b"
  by (auto intro: unsigned_word_eqI)

lemma unat_add_no_overflow:
  "unat a + unat b < 2 ^ LENGTH('a) \<Longrightarrow> unat (a + b) = unat a + unat (b :: 'a::len word)"
  by (simp add: unat_word_ariths)

lemma checked_add_Some:
  "checked_add a b = Some c \<Longrightarrow> unat c = unat a + unat b"
  by (auto simp: checked_add_def unat_add_no_overflow split: if_splits)

lemma checked_add_mono: "checked_add a b = Some c \<Longrightarrow> a \<le> c"
  by (auto simp: word_le_nat_alt dest: checked_add_Some)

lemma checked_add_strict: "checked_add a b = Some c \<Longrightarrow> b \<noteq> 0 \<Longrightarrow> a < c"
  by (auto simp: word_less_nat_alt unat_gt_0 dest: checked_add_Some)

lemma checked_sub_Some: "checked_sub a b = Some c \<longleftrightarrow> b \<le> a \<and> c = a - b"
  by (auto simp: checked_sub_def)

lemma unat_checked_sub: "checked_sub a b = Some c \<Longrightarrow> unat c = unat a - unat b"
  by (auto simp: checked_sub_Some unat_sub)

lemma unat_saturating_add:
  "unat (saturating_add a b) = min (unat a + unat b) (2 ^ LENGTH('a) - 1)"
  for a b :: "'a::len word"
  by (auto simp: saturating_add_def unat_add_no_overflow unsigned_minus_1_eq_mask mask_eq_exp_minus_1)

lemma saturating_add_ge: "a \<le> saturating_add a b"
  using unat_lt2p [of a]
  by (simp add: word_le_nat_alt unat_saturating_add Suc_le_eq [symmetric] le_diff_conv2)

lemma unat_saturating_sub: "unat (saturating_sub a b) = unat a - unat b"
  by (auto simp: saturating_sub_def word_le_nat_alt unat_sub not_le)

lemma saturating_add_mono: "a \<le> b \<Longrightarrow> saturating_add a c \<le> saturating_add b c"
  by (simp add: word_le_nat_alt unat_saturating_add min_def)

section \<open>Big-endian bytes\<close>

text \<open>\<^verbatim>\<open>to_be_bytes\<close> and \<^verbatim>\<open>from_be_bytes\<close>, at the number of bytes of the integer type.\<close>

primrec be_bytes :: "nat \<Rightarrow> nat \<Rightarrow> bytes" where
  "be_bytes 0 v = []"
| "be_bytes (Suc n) v = be_bytes n (v div 256) @ [word_of_nat v]"

definition be_value :: "bytes \<Rightarrow> nat" where
  "be_value bs = foldl (\<lambda>acc b. 256 * acc + unat b) 0 bs"

definition u16_to_be :: "u16 \<Rightarrow> bytes" where
  "u16_to_be w = be_bytes 2 (unat w)"

definition u32_to_be :: "u32 \<Rightarrow> bytes" where
  "u32_to_be w = be_bytes 4 (unat w)"

definition u64_to_be :: "u64 \<Rightarrow> bytes" where
  "u64_to_be w = be_bytes 8 (unat w)"

lemma length_be_bytes [simp]: "length (be_bytes n v) = n"
  by (induction n arbitrary: v) auto

lemma be_bytes_numeral:
  "be_bytes (numeral k) v = be_bytes (pred_numeral k) (v div 256) @ [word_of_nat v]"
  by (simp only: numeral_eq_Suc [of k] be_bytes.simps)

lemma be_value_Nil [simp]: "be_value [] = 0"
  by (simp add: be_value_def)

lemma be_value_snoc [simp]: "be_value (bs @ [b]) = 256 * be_value bs + unat b"
  by (simp add: be_value_def)

lemma unat_byte [simp]: "unat (word_of_nat v :: u8) = v mod 256"
  by (simp add: unat_of_nat take_bit_eq_mod)

lemma be_value_be_bytes: "be_value (be_bytes n v) = v mod 256 ^ n"
proof (induction n arbitrary: v)
  case 0
  then show ?case by simp
next
  case (Suc n)
  have "256 * (v div 256 mod 256 ^ n) + v mod 256 = v mod (256 * 256 ^ n)"
    by (simp add: mod_mult2_eq)
  with Suc show ?case by simp
qed

lemma be_value_bound: "be_value bs < 256 ^ length bs"
proof (induction bs rule: rev_induct)
  case Nil
  then show ?case by simp
next
  case (snoc b bs)
  have "unat b < 256" using unat_lt2p [of b] by simp
  moreover have "256 * be_value bs + 256 \<le> 256 * 256 ^ length bs"
    using snoc by (simp add: Suc_le_eq [symmetric] del: Suc_le_eq)
  ultimately show ?case by simp
qed

lemma be_bytes_be_value: "be_bytes (length bs) (be_value bs) = bs"
proof (induction bs rule: rev_induct)
  case Nil
  then show ?case by simp
next
  case (snoc b bs)
  have b: "unat b < 256" using unat_lt2p [of b] by simp
  then have "(256 * be_value bs + unat b) div 256 = be_value bs" by simp
  moreover have "(word_of_nat (256 * be_value bs + unat b) :: u8) = b"
    using b by (subst unat_inject [symmetric], subst unat_byte) simp
  ultimately show ?case using snoc by simp
qed

lemma length_to_be [simp]:
  "length (u16_to_be a) = 2" "length (u32_to_be b) = 4" "length (u64_to_be c) = 8"
  by (simp_all add: u16_to_be_def u32_to_be_def u64_to_be_def)

lemma be_value_to_be [simp]:
  "be_value (u16_to_be a) = unat a" "be_value (u32_to_be b) = unat b"
  "be_value (u64_to_be c) = unat c"
  using unat_lt2p [of a] unat_lt2p [of b] unat_lt2p [of c]
  by (simp_all add: u16_to_be_def u32_to_be_def u64_to_be_def be_value_be_bytes)

lemma be_bytes_inject:
  "v < 256 ^ n \<Longrightarrow> w < 256 ^ n \<Longrightarrow> be_bytes n v = be_bytes n w \<longleftrightarrow> v = w"
  by (metis be_value_be_bytes mod_less)

lemma to_be_inject [simp]:
  "u16_to_be a = u16_to_be a' \<longleftrightarrow> a = a'" "u32_to_be b = u32_to_be b' \<longleftrightarrow> b = b'"
  "u64_to_be c = u64_to_be c' \<longleftrightarrow> c = c'"
  by (metis be_value_to_be(1) unat_inject, metis be_value_to_be(2) unat_inject,
      metis be_value_to_be(3) unat_inject)

section \<open>Canonical codecs\<close>

text \<open>
  A byte format is canonical when the decoder accepts exactly what the encoder produces: then no
  two values share an encoding, and no value has two.
\<close>

locale canonical_codec =
  fixes enc :: "'a \<Rightarrow> 'e + 'b"
    and accepts :: "'b \<Rightarrow> 'a \<Rightarrow> bool"
  assumes accepts_iff: "accepts b a \<longleftrightarrow> enc a = Inr b"
    and accepts_functional: "accepts b a \<Longrightarrow> accepts b a' \<Longrightarrow> a' = a"
begin

lemma enc_inject: "enc a = Inr b \<Longrightarrow> enc a' = Inr b \<Longrightarrow> a' = a"
  by (meson accepts_functional accepts_iff)

lemma one_encoding: "accepts b a \<Longrightarrow> accepts b' a \<Longrightarrow> b' = b"
  by (simp add: accepts_iff)

end

section \<open>Runs of a component\<close>

text \<open>
  A component is driven by a sequence of operations; a run collects the results.  The locale
  says that one step keeps an invariant and gives that every run does.  Its extension adds a
  quantity that no step decreases, which is how sequence numbers, generations and revisions
  are shown never to go back.
\<close>

primrec run_steps :: "('s \<Rightarrow> 'o \<Rightarrow> 's \<times> 'r) \<Rightarrow> 's \<Rightarrow> 'o list \<Rightarrow> 's \<times> 'r list" where
  "run_steps step s [] = (s, [])"
| "run_steps step s (a # as) =
     (let (t, r) = step s a; (u, rs) = run_steps step t as in (u, r # rs))"

lemma fst_run_steps_Cons:
  "fst (run_steps step s (a # as)) = fst (run_steps step (fst (step s a)) as)"
  by (simp add: split_def Let_def)

lemma fst_run_steps_append:
  "fst (run_steps step s (as @ bs)) = fst (run_steps step (fst (run_steps step s as)) bs)"
  by (induction as arbitrary: s) (simp_all add: split_def Let_def)

lemma length_run_steps: "length (snd (run_steps step s as)) = length as"
  by (induction as arbitrary: s) (simp_all add: split_def Let_def)

locale machine =
  fixes step :: "'s \<Rightarrow> 'o \<Rightarrow> 's \<times> 'r"
    and inv :: "'s \<Rightarrow> bool"
  assumes step_inv: "inv s \<Longrightarrow> inv (fst (step s a))"
begin

lemma run_inv: "inv s \<Longrightarrow> inv (fst (run_steps step s as))"
proof (induction as arbitrary: s)
  case Nil
  then show ?case by simp
next
  case (Cons a as)
  from Cons.prems have "inv (fst (step s a))" by (rule step_inv)
  then show ?case by (simp only: fst_run_steps_Cons Cons.IH)
qed

end

locale monotone_machine = machine step inv
  for step :: "'s \<Rightarrow> 'o \<Rightarrow> 's \<times> 'r" and inv :: "'s \<Rightarrow> bool" +
  fixes rank :: "'s \<Rightarrow> 'k::preorder"
  assumes step_rank: "inv s \<Longrightarrow> rank s \<le> rank (fst (step s a))"
begin

lemma run_rank: "inv s \<Longrightarrow> rank s \<le> rank (fst (run_steps step s as))"
proof (induction as arbitrary: s)
  case Nil
  then show ?case by simp
next
  case (Cons a as)
  have "rank s \<le> rank (fst (step s a))" using Cons.prems by (rule step_rank)
  also have "\<dots> \<le> rank (fst (run_steps step (fst (step s a)) as))"
    using Cons.prems by (intro Cons.IH step_inv)
  finally show ?case by (simp only: fst_run_steps_Cons)
qed

end

end
