(* ===== verification/Wire_Enums.thy ===== *)
theory Wire_Enums
  imports Roam_Prelude
begin

text \<open>
  The constants of \<^verbatim>\<open>gen/rust/src/protocol_limits.rs\<close> and the enumerations of the wire protocol
  (\<^verbatim>\<open>gen/rust/src/generated/roammand.v1.rs\<close>), each with the conversion from the \<^verbatim>\<open>i32\<close> of the wire
  and back.  The locale \<open>wire_enum\<close> is what the validators and handlers use of such a conversion;
  it is interpreted for every enumeration.
\<close>

section \<open>Protocol limits\<close>

definition PROTOCOL_MAJOR_VERSION :: "u32" where
  [limits]: "PROTOCOL_MAJOR_VERSION = 1"

definition MINIMUM_PROTOCOL_MINOR_VERSION :: "u32" where
  [limits]: "MINIMUM_PROTOCOL_MINOR_VERSION = 0"

definition PAIRING_RENDEZVOUS_LIFETIME_MS :: "u64" where
  [limits]: "PAIRING_RENDEZVOUS_LIFETIME_MS = 120000"

definition MAX_SIGNALING_ENVELOPE_BYTES :: "nat" where
  [limits]: "MAX_SIGNALING_ENVELOPE_BYTES = 262144"

definition MAX_OPAQUE_SIGNALING_ENVELOPE_BYTES :: "nat" where
  [limits]: "MAX_OPAQUE_SIGNALING_ENVELOPE_BYTES = 262144"

definition MAX_SIGNALING_SERVICE_FRAME_BYTES :: "nat" where
  [limits]: "MAX_SIGNALING_SERVICE_FRAME_BYTES = 263168"

definition MAX_RELIABLE_INPUT_ENVELOPE_BYTES :: "nat" where
  [limits]: "MAX_RELIABLE_INPUT_ENVELOPE_BYTES = 16384"

definition MAX_POINTER_FAST_ENVELOPE_BYTES :: "nat" where
  [limits]: "MAX_POINTER_FAST_ENVELOPE_BYTES = 256"

definition MAX_LOCAL_IPC_FRAME_BYTES :: "nat" where
  [limits]: "MAX_LOCAL_IPC_FRAME_BYTES = 65536"

definition MAX_PRIVILEGED_BRIDGE_FRAME_BYTES :: "nat" where
  [limits]: "MAX_PRIVILEGED_BRIDGE_FRAME_BYTES = 262144"

definition MAX_HOST_AUTHORIZATION_SNAPSHOT_BYTES :: "nat" where
  [limits]: "MAX_HOST_AUTHORIZATION_SNAPSHOT_BYTES = 1048576"

definition MAX_CONTROLLER_GRANTS :: "nat" where
  [limits]: "MAX_CONTROLLER_GRANTS = 256"

definition MAX_TRUSTED_HOSTS :: "nat" where
  [limits]: "MAX_TRUSTED_HOSTS = 256"

definition MAX_TRUSTED_HOST_SNAPSHOT_BYTES :: "nat" where
  [limits]: "MAX_TRUSTED_HOST_SNAPSHOT_BYTES = 1048576"

definition MAX_PAIRING_CIPHERTEXT_BYTES :: "nat" where
  [limits]: "MAX_PAIRING_CIPHERTEXT_BYTES = 65536"

definition MAX_PRIVILEGED_ICE_SERVERS :: "nat" where
  [limits]: "MAX_PRIVILEGED_ICE_SERVERS = 8"

definition MAX_PRIVILEGED_ICE_URLS_PER_SERVER :: "nat" where
  [limits]: "MAX_PRIVILEGED_ICE_URLS_PER_SERVER = 16"

definition MAX_DEVICE_NAME_UTF8_BYTES :: "nat" where
  [limits]: "MAX_DEVICE_NAME_UTF8_BYTES = 128"

definition MAX_REQUEST_ID_UTF8_BYTES :: "nat" where
  [limits]: "MAX_REQUEST_ID_UTF8_BYTES = 64"

definition MAX_MESSAGE_KEY_UTF8_BYTES :: "nat" where
  [limits]: "MAX_MESSAGE_KEY_UTF8_BYTES = 128"

definition MAX_SIGNALING_ENDPOINT_UTF8_BYTES :: "nat" where
  [limits]: "MAX_SIGNALING_ENDPOINT_UTF8_BYTES = 2048"

definition MAX_SDP_UTF8_BYTES :: "nat" where
  [limits]: "MAX_SDP_UTF8_BYTES = 131072"

definition MAX_ICE_CANDIDATE_UTF8_BYTES :: "nat" where
  [limits]: "MAX_ICE_CANDIDATE_UTF8_BYTES = 4096"

definition MAX_SDP_MID_UTF8_BYTES :: "nat" where
  [limits]: "MAX_SDP_MID_UTF8_BYTES = 64"

definition MAX_TEXT_INPUT_UTF8_BYTES :: "nat" where
  [limits]: "MAX_TEXT_INPUT_UTF8_BYTES = 4096"

definition MAX_ERROR_DETAIL_UTF8_BYTES :: "nat" where
  [limits]: "MAX_ERROR_DETAIL_UTF8_BYTES = 256"

definition DEVICE_ID_BYTES :: "nat" where
  [limits]: "DEVICE_ID_BYTES = 32"

definition PUBLIC_KEY_BYTES :: "nat" where
  [limits]: "PUBLIC_KEY_BYTES = 32"

definition RENDEZVOUS_ID_BYTES :: "nat" where
  [limits]: "RENDEZVOUS_ID_BYTES = 16"

definition SESSION_ID_BYTES :: "nat" where
  [limits]: "SESSION_ID_BYTES = 16"

definition NONCE_OR_HASH_BYTES :: "nat" where
  [limits]: "NONCE_OR_HASH_BYTES = 32"

definition SIGNATURE_BYTES :: "nat" where
  [limits]: "SIGNATURE_BYTES = 64"

definition DESKTOP_PAIRING_CODE_BYTES :: "nat" where
  [limits]: "DESKTOP_PAIRING_CODE_BYTES = 8"

definition LOCAL_IPC_TOKEN_BYTES :: "nat" where
  [limits]: "LOCAL_IPC_TOKEN_BYTES = 32"

definition AGENT_INSTANCE_ID_BYTES :: "nat" where
  [limits]: "AGENT_INSTANCE_ID_BYTES = 16"

definition PRIVILEGED_BRIDGE_INSTANCE_ID_BYTES :: "nat" where
  [limits]: "PRIVILEGED_BRIDGE_INSTANCE_ID_BYTES = 16"

definition PRIVILEGED_BRIDGE_NONCE_BYTES :: "nat" where
  [limits]: "PRIVILEGED_BRIDGE_NONCE_BYTES = 32"

definition PRIVILEGED_BRIDGE_PROOF_BYTES :: "nat" where
  [limits]: "PRIVILEGED_BRIDGE_PROOF_BYTES = 32"

definition PRIVILEGED_LEASE_ID_BYTES :: "nat" where
  [limits]: "PRIVILEGED_LEASE_ID_BYTES = 16"

definition EXECUTABLE_SHA256_BYTES :: "nat" where
  [limits]: "EXECUTABLE_SHA256_BYTES = 32"

definition PAIRING_SAS_WORD_COUNT :: "nat" where
  [limits]: "PAIRING_SAS_WORD_COUNT = 4"

section \<open>Enumerations\<close>

datatype device_platform =
    DevicePlatform_Unspecified
  | DevicePlatform_Ios
  | DevicePlatform_Android
  | DevicePlatform_Windows
  | DevicePlatform_Macos

definition device_platform_of :: "i32 \<Rightarrow> device_platform option" where
  "device_platform_of v = map_of [
     (0, DevicePlatform_Unspecified),
     (1, DevicePlatform_Ios),
     (2, DevicePlatform_Android),
     (3, DevicePlatform_Windows),
     (4, DevicePlatform_Macos)] v"

primrec device_platform_code :: "device_platform \<Rightarrow> i32" where
  "device_platform_code DevicePlatform_Unspecified = 0"
| "device_platform_code DevicePlatform_Ios = 1"
| "device_platform_code DevicePlatform_Android = 2"
| "device_platform_code DevicePlatform_Windows = 3"
| "device_platform_code DevicePlatform_Macos = 4"

datatype public_key_algorithm =
    PublicKeyAlgorithm_Unspecified
  | PublicKeyAlgorithm_Ed25519

definition public_key_algorithm_of :: "i32 \<Rightarrow> public_key_algorithm option" where
  "public_key_algorithm_of v = map_of [
     (0, PublicKeyAlgorithm_Unspecified),
     (1, PublicKeyAlgorithm_Ed25519)] v"

primrec public_key_algorithm_code :: "public_key_algorithm \<Rightarrow> i32" where
  "public_key_algorithm_code PublicKeyAlgorithm_Unspecified = 0"
| "public_key_algorithm_code PublicKeyAlgorithm_Ed25519 = 1"

datatype session_permission =
    SessionPermission_Unspecified
  | SessionPermission_ViewScreen
  | SessionPermission_ControlInput

definition session_permission_of :: "i32 \<Rightarrow> session_permission option" where
  "session_permission_of v = map_of [
     (0, SessionPermission_Unspecified),
     (1, SessionPermission_ViewScreen),
     (2, SessionPermission_ControlInput)] v"

primrec session_permission_code :: "session_permission \<Rightarrow> i32" where
  "session_permission_code SessionPermission_Unspecified = 0"
| "session_permission_code SessionPermission_ViewScreen = 1"
| "session_permission_code SessionPermission_ControlInput = 2"

datatype error_code =
    ErrorCode_Unspecified
  | ErrorCode_PairingCodeExpired
  | ErrorCode_PairingRateLimited
  | ErrorCode_PairingRejected
  | ErrorCode_DeviceOffline
  | ErrorCode_DeviceBusy
  | ErrorCode_AuthInvalid
  | ErrorCode_AuthRevoked
  | ErrorCode_SessionReplayed
  | ErrorCode_IceFailed
  | ErrorCode_TurnUnavailable
  | ErrorCode_CodecNegotiationFailed
  | ErrorCode_CapturePermissionRequired
  | ErrorCode_InputPermissionRequired
  | ErrorCode_CaptureFailed
  | ErrorCode_InputInjectionFailed
  | ErrorCode_AppMovedToBackground
  | ErrorCode_InvalidRequest
  | ErrorCode_ProtocolUnsupported
  | ErrorCode_MessageTooLarge
  | ErrorCode_ServerUnavailable
  | ErrorCode_PrivilegedBridgeUnavailable
  | ErrorCode_PrivilegedClientUntrusted
  | ErrorCode_PrivilegedLeaseExpired
  | ErrorCode_SecureAttentionUnavailable
  | ErrorCode_LocalEmergencyStop

definition error_code_of :: "i32 \<Rightarrow> error_code option" where
  "error_code_of v = map_of [
     (0, ErrorCode_Unspecified),
     (1, ErrorCode_PairingCodeExpired),
     (2, ErrorCode_PairingRateLimited),
     (3, ErrorCode_PairingRejected),
     (4, ErrorCode_DeviceOffline),
     (5, ErrorCode_DeviceBusy),
     (6, ErrorCode_AuthInvalid),
     (7, ErrorCode_AuthRevoked),
     (8, ErrorCode_SessionReplayed),
     (9, ErrorCode_IceFailed),
     (10, ErrorCode_TurnUnavailable),
     (11, ErrorCode_CodecNegotiationFailed),
     (12, ErrorCode_CapturePermissionRequired),
     (13, ErrorCode_InputPermissionRequired),
     (14, ErrorCode_CaptureFailed),
     (15, ErrorCode_InputInjectionFailed),
     (16, ErrorCode_AppMovedToBackground),
     (17, ErrorCode_InvalidRequest),
     (18, ErrorCode_ProtocolUnsupported),
     (19, ErrorCode_MessageTooLarge),
     (20, ErrorCode_ServerUnavailable),
     (21, ErrorCode_PrivilegedBridgeUnavailable),
     (22, ErrorCode_PrivilegedClientUntrusted),
     (23, ErrorCode_PrivilegedLeaseExpired),
     (24, ErrorCode_SecureAttentionUnavailable),
     (25, ErrorCode_LocalEmergencyStop)] v"

primrec error_code_code :: "error_code \<Rightarrow> i32" where
  "error_code_code ErrorCode_Unspecified = 0"
| "error_code_code ErrorCode_PairingCodeExpired = 1"
| "error_code_code ErrorCode_PairingRateLimited = 2"
| "error_code_code ErrorCode_PairingRejected = 3"
| "error_code_code ErrorCode_DeviceOffline = 4"
| "error_code_code ErrorCode_DeviceBusy = 5"
| "error_code_code ErrorCode_AuthInvalid = 6"
| "error_code_code ErrorCode_AuthRevoked = 7"
| "error_code_code ErrorCode_SessionReplayed = 8"
| "error_code_code ErrorCode_IceFailed = 9"
| "error_code_code ErrorCode_TurnUnavailable = 10"
| "error_code_code ErrorCode_CodecNegotiationFailed = 11"
| "error_code_code ErrorCode_CapturePermissionRequired = 12"
| "error_code_code ErrorCode_InputPermissionRequired = 13"
| "error_code_code ErrorCode_CaptureFailed = 14"
| "error_code_code ErrorCode_InputInjectionFailed = 15"
| "error_code_code ErrorCode_AppMovedToBackground = 16"
| "error_code_code ErrorCode_InvalidRequest = 17"
| "error_code_code ErrorCode_ProtocolUnsupported = 18"
| "error_code_code ErrorCode_MessageTooLarge = 19"
| "error_code_code ErrorCode_ServerUnavailable = 20"
| "error_code_code ErrorCode_PrivilegedBridgeUnavailable = 21"
| "error_code_code ErrorCode_PrivilegedClientUntrusted = 22"
| "error_code_code ErrorCode_PrivilegedLeaseExpired = 23"
| "error_code_code ErrorCode_SecureAttentionUnavailable = 24"
| "error_code_code ErrorCode_LocalEmergencyStop = 25"

datatype capability =
    Capability_Unspecified
  | Capability_QrPairing
  | Capability_DesktopCodePairing
  | Capability_PairingSas
  | Capability_SessionAuthEd25519
  | Capability_WebrtcH264
  | Capability_WebrtcVp8
  | Capability_IceRestart
  | Capability_InputReliable
  | Capability_PointerFast

definition capability_of :: "i32 \<Rightarrow> capability option" where
  "capability_of v = map_of [
     (0, Capability_Unspecified),
     (1, Capability_QrPairing),
     (2, Capability_DesktopCodePairing),
     (3, Capability_PairingSas),
     (4, Capability_SessionAuthEd25519),
     (5, Capability_WebrtcH264),
     (6, Capability_WebrtcVp8),
     (7, Capability_IceRestart),
     (8, Capability_InputReliable),
     (9, Capability_PointerFast)] v"

primrec capability_code :: "capability \<Rightarrow> i32" where
  "capability_code Capability_Unspecified = 0"
| "capability_code Capability_QrPairing = 1"
| "capability_code Capability_DesktopCodePairing = 2"
| "capability_code Capability_PairingSas = 3"
| "capability_code Capability_SessionAuthEd25519 = 4"
| "capability_code Capability_WebrtcH264 = 5"
| "capability_code Capability_WebrtcVp8 = 6"
| "capability_code Capability_IceRestart = 7"
| "capability_code Capability_InputReliable = 8"
| "capability_code Capability_PointerFast = 9"

datatype pointer_button =
    PointerButton_Unspecified
  | PointerButton_Left
  | PointerButton_Right
  | PointerButton_Middle

definition pointer_button_of :: "i32 \<Rightarrow> pointer_button option" where
  "pointer_button_of v = map_of [
     (0, PointerButton_Unspecified),
     (1, PointerButton_Left),
     (2, PointerButton_Right),
     (3, PointerButton_Middle)] v"

primrec pointer_button_code :: "pointer_button \<Rightarrow> i32" where
  "pointer_button_code PointerButton_Unspecified = 0"
| "pointer_button_code PointerButton_Left = 1"
| "pointer_button_code PointerButton_Right = 2"
| "pointer_button_code PointerButton_Middle = 3"

datatype button_action =
    ButtonAction_Unspecified
  | ButtonAction_Down
  | ButtonAction_Up
  | ButtonAction_Click
  | ButtonAction_DoubleClick

definition button_action_of :: "i32 \<Rightarrow> button_action option" where
  "button_action_of v = map_of [
     (0, ButtonAction_Unspecified),
     (1, ButtonAction_Down),
     (2, ButtonAction_Up),
     (3, ButtonAction_Click),
     (4, ButtonAction_DoubleClick)] v"

primrec button_action_code :: "button_action \<Rightarrow> i32" where
  "button_action_code ButtonAction_Unspecified = 0"
| "button_action_code ButtonAction_Down = 1"
| "button_action_code ButtonAction_Up = 2"
| "button_action_code ButtonAction_Click = 3"
| "button_action_code ButtonAction_DoubleClick = 4"

datatype keyboard_action =
    KeyboardAction_Unspecified
  | KeyboardAction_Down
  | KeyboardAction_Up

definition keyboard_action_of :: "i32 \<Rightarrow> keyboard_action option" where
  "keyboard_action_of v = map_of [
     (0, KeyboardAction_Unspecified),
     (1, KeyboardAction_Down),
     (2, KeyboardAction_Up)] v"

primrec keyboard_action_code :: "keyboard_action \<Rightarrow> i32" where
  "keyboard_action_code KeyboardAction_Unspecified = 0"
| "keyboard_action_code KeyboardAction_Down = 1"
| "keyboard_action_code KeyboardAction_Up = 2"

datatype session_control_action =
    SessionControlAction_Unspecified
  | SessionControlAction_Close
  | SessionControlAction_EmergencyStop

definition session_control_action_of :: "i32 \<Rightarrow> session_control_action option" where
  "session_control_action_of v = map_of [
     (0, SessionControlAction_Unspecified),
     (1, SessionControlAction_Close),
     (2, SessionControlAction_EmergencyStop)] v"

primrec session_control_action_code :: "session_control_action \<Rightarrow> i32" where
  "session_control_action_code SessionControlAction_Unspecified = 0"
| "session_control_action_code SessionControlAction_Close = 1"
| "session_control_action_code SessionControlAction_EmergencyStop = 2"

datatype pairing_decision_status =
    PairingDecisionStatus_Unspecified
  | PairingDecisionStatus_Pending
  | PairingDecisionStatus_Accepted
  | PairingDecisionStatus_Rejected
  | PairingDecisionStatus_Expired

definition pairing_decision_status_of :: "i32 \<Rightarrow> pairing_decision_status option" where
  "pairing_decision_status_of v = map_of [
     (0, PairingDecisionStatus_Unspecified),
     (1, PairingDecisionStatus_Pending),
     (2, PairingDecisionStatus_Accepted),
     (3, PairingDecisionStatus_Rejected),
     (4, PairingDecisionStatus_Expired)] v"

primrec pairing_decision_status_code :: "pairing_decision_status \<Rightarrow> i32" where
  "pairing_decision_status_code PairingDecisionStatus_Unspecified = 0"
| "pairing_decision_status_code PairingDecisionStatus_Pending = 1"
| "pairing_decision_status_code PairingDecisionStatus_Accepted = 2"
| "pairing_decision_status_code PairingDecisionStatus_Rejected = 3"
| "pairing_decision_status_code PairingDecisionStatus_Expired = 4"

datatype pairing_direction =
    PairingDirection_Unspecified
  | PairingDirection_ControllerToHost
  | PairingDirection_HostToController

definition pairing_direction_of :: "i32 \<Rightarrow> pairing_direction option" where
  "pairing_direction_of v = map_of [
     (0, PairingDirection_Unspecified),
     (1, PairingDirection_ControllerToHost),
     (2, PairingDirection_HostToController)] v"

primrec pairing_direction_code :: "pairing_direction \<Rightarrow> i32" where
  "pairing_direction_code PairingDirection_Unspecified = 0"
| "pairing_direction_code PairingDirection_ControllerToHost = 1"
| "pairing_direction_code PairingDirection_HostToController = 2"

datatype pairing_identity_role =
    PairingIdentityRole_Unspecified
  | PairingIdentityRole_Controller
  | PairingIdentityRole_Host

definition pairing_identity_role_of :: "i32 \<Rightarrow> pairing_identity_role option" where
  "pairing_identity_role_of v = map_of [
     (0, PairingIdentityRole_Unspecified),
     (1, PairingIdentityRole_Controller),
     (2, PairingIdentityRole_Host)] v"

primrec pairing_identity_role_code :: "pairing_identity_role \<Rightarrow> i32" where
  "pairing_identity_role_code PairingIdentityRole_Unspecified = 0"
| "pairing_identity_role_code PairingIdentityRole_Controller = 1"
| "pairing_identity_role_code PairingIdentityRole_Host = 2"

datatype pairing_invitation_kind =
    PairingInvitationKind_Unspecified
  | PairingInvitationKind_Qr
  | PairingInvitationKind_DesktopCode

definition pairing_invitation_kind_of :: "i32 \<Rightarrow> pairing_invitation_kind option" where
  "pairing_invitation_kind_of v = map_of [
     (0, PairingInvitationKind_Unspecified),
     (1, PairingInvitationKind_Qr),
     (2, PairingInvitationKind_DesktopCode)] v"

primrec pairing_invitation_kind_code :: "pairing_invitation_kind \<Rightarrow> i32" where
  "pairing_invitation_kind_code PairingInvitationKind_Unspecified = 0"
| "pairing_invitation_kind_code PairingInvitationKind_Qr = 1"
| "pairing_invitation_kind_code PairingInvitationKind_DesktopCode = 2"

datatype host_pairing_state =
    HostPairingState_Unspecified
  | HostPairingState_Idle
  | HostPairingState_Creating
  | HostPairingState_Inviting
  | HostPairingState_VerifyingController
  | HostPairingState_WaitingLocalDecision
  | HostPairingState_Accepted
  | HostPairingState_Rejected
  | HostPairingState_Expired
  | HostPairingState_Cancelled
  | HostPairingState_Failed

definition host_pairing_state_of :: "i32 \<Rightarrow> host_pairing_state option" where
  "host_pairing_state_of v = map_of [
     (0, HostPairingState_Unspecified),
     (1, HostPairingState_Idle),
     (2, HostPairingState_Creating),
     (3, HostPairingState_Inviting),
     (4, HostPairingState_VerifyingController),
     (5, HostPairingState_WaitingLocalDecision),
     (6, HostPairingState_Accepted),
     (7, HostPairingState_Rejected),
     (8, HostPairingState_Expired),
     (9, HostPairingState_Cancelled),
     (10, HostPairingState_Failed)] v"

primrec host_pairing_state_code :: "host_pairing_state \<Rightarrow> i32" where
  "host_pairing_state_code HostPairingState_Unspecified = 0"
| "host_pairing_state_code HostPairingState_Idle = 1"
| "host_pairing_state_code HostPairingState_Creating = 2"
| "host_pairing_state_code HostPairingState_Inviting = 3"
| "host_pairing_state_code HostPairingState_VerifyingController = 4"
| "host_pairing_state_code HostPairingState_WaitingLocalDecision = 5"
| "host_pairing_state_code HostPairingState_Accepted = 6"
| "host_pairing_state_code HostPairingState_Rejected = 7"
| "host_pairing_state_code HostPairingState_Expired = 8"
| "host_pairing_state_code HostPairingState_Cancelled = 9"
| "host_pairing_state_code HostPairingState_Failed = 10"

datatype session_description_type =
    SessionDescriptionType_Unspecified
  | SessionDescriptionType_Offer
  | SessionDescriptionType_Answer

definition session_description_type_of :: "i32 \<Rightarrow> session_description_type option" where
  "session_description_type_of v = map_of [
     (0, SessionDescriptionType_Unspecified),
     (1, SessionDescriptionType_Offer),
     (2, SessionDescriptionType_Answer)] v"

primrec session_description_type_code :: "session_description_type \<Rightarrow> i32" where
  "session_description_type_code SessionDescriptionType_Unspecified = 0"
| "session_description_type_code SessionDescriptionType_Offer = 1"
| "session_description_type_code SessionDescriptionType_Answer = 2"

datatype privileged_bridge_state =
    PrivilegedBridgeState_Unspecified
  | PrivilegedBridgeState_NotInstalled
  | PrivilegedBridgeState_ApprovalRequired
  | PrivilegedBridgeState_PermissionRequired
  | PrivilegedBridgeState_UserSessionOnly
  | PrivilegedBridgeState_Ready
  | PrivilegedBridgeState_Transitioning
  | PrivilegedBridgeState_Controlled
  | PrivilegedBridgeState_Failed

definition privileged_bridge_state_of :: "i32 \<Rightarrow> privileged_bridge_state option" where
  "privileged_bridge_state_of v = map_of [
     (0, PrivilegedBridgeState_Unspecified),
     (1, PrivilegedBridgeState_NotInstalled),
     (2, PrivilegedBridgeState_ApprovalRequired),
     (3, PrivilegedBridgeState_PermissionRequired),
     (4, PrivilegedBridgeState_UserSessionOnly),
     (5, PrivilegedBridgeState_Ready),
     (6, PrivilegedBridgeState_Transitioning),
     (7, PrivilegedBridgeState_Controlled),
     (8, PrivilegedBridgeState_Failed)] v"

primrec privileged_bridge_state_code :: "privileged_bridge_state \<Rightarrow> i32" where
  "privileged_bridge_state_code PrivilegedBridgeState_Unspecified = 0"
| "privileged_bridge_state_code PrivilegedBridgeState_NotInstalled = 1"
| "privileged_bridge_state_code PrivilegedBridgeState_ApprovalRequired = 2"
| "privileged_bridge_state_code PrivilegedBridgeState_PermissionRequired = 3"
| "privileged_bridge_state_code PrivilegedBridgeState_UserSessionOnly = 4"
| "privileged_bridge_state_code PrivilegedBridgeState_Ready = 5"
| "privileged_bridge_state_code PrivilegedBridgeState_Transitioning = 6"
| "privileged_bridge_state_code PrivilegedBridgeState_Controlled = 7"
| "privileged_bridge_state_code PrivilegedBridgeState_Failed = 8"

datatype interactive_desktop_kind =
    InteractiveDesktopKind_Unspecified
  | InteractiveDesktopKind_Normal
  | InteractiveDesktopKind_LockedLogin
  | InteractiveDesktopKind_Secure
  | InteractiveDesktopKind_Unavailable

definition interactive_desktop_kind_of :: "i32 \<Rightarrow> interactive_desktop_kind option" where
  "interactive_desktop_kind_of v = map_of [
     (0, InteractiveDesktopKind_Unspecified),
     (1, InteractiveDesktopKind_Normal),
     (2, InteractiveDesktopKind_LockedLogin),
     (3, InteractiveDesktopKind_Secure),
     (4, InteractiveDesktopKind_Unavailable)] v"

primrec interactive_desktop_kind_code :: "interactive_desktop_kind \<Rightarrow> i32" where
  "interactive_desktop_kind_code InteractiveDesktopKind_Unspecified = 0"
| "interactive_desktop_kind_code InteractiveDesktopKind_Normal = 1"
| "interactive_desktop_kind_code InteractiveDesktopKind_LockedLogin = 2"
| "interactive_desktop_kind_code InteractiveDesktopKind_Secure = 3"
| "interactive_desktop_kind_code InteractiveDesktopKind_Unavailable = 4"

datatype privileged_bridge_role =
    PrivilegedBridgeRole_Unspecified
  | PrivilegedBridgeRole_HostAgent
  | PrivilegedBridgeRole_SessionHelper

definition privileged_bridge_role_of :: "i32 \<Rightarrow> privileged_bridge_role option" where
  "privileged_bridge_role_of v = map_of [
     (0, PrivilegedBridgeRole_Unspecified),
     (1, PrivilegedBridgeRole_HostAgent),
     (2, PrivilegedBridgeRole_SessionHelper)] v"

primrec privileged_bridge_role_code :: "privileged_bridge_role \<Rightarrow> i32" where
  "privileged_bridge_role_code PrivilegedBridgeRole_Unspecified = 0"
| "privileged_bridge_role_code PrivilegedBridgeRole_HostAgent = 1"
| "privileged_bridge_role_code PrivilegedBridgeRole_SessionHelper = 2"

datatype privileged_ice_transport_policy =
    PrivilegedIceTransportPolicy_Unspecified
  | PrivilegedIceTransportPolicy_All
  | PrivilegedIceTransportPolicy_Relay

definition privileged_ice_transport_policy_of :: "i32 \<Rightarrow> privileged_ice_transport_policy option" where
  "privileged_ice_transport_policy_of v = map_of [
     (0, PrivilegedIceTransportPolicy_Unspecified),
     (1, PrivilegedIceTransportPolicy_All),
     (2, PrivilegedIceTransportPolicy_Relay)] v"

primrec privileged_ice_transport_policy_code :: "privileged_ice_transport_policy \<Rightarrow> i32" where
  "privileged_ice_transport_policy_code PrivilegedIceTransportPolicy_Unspecified = 0"
| "privileged_ice_transport_policy_code PrivilegedIceTransportPolicy_All = 1"
| "privileged_ice_transport_policy_code PrivilegedIceTransportPolicy_Relay = 2"

datatype privileged_peer_state =
    PrivilegedPeerState_Unspecified
  | PrivilegedPeerState_New
  | PrivilegedPeerState_Negotiating
  | PrivilegedPeerState_Connected
  | PrivilegedPeerState_Disconnected
  | PrivilegedPeerState_Failed
  | PrivilegedPeerState_Closed

definition privileged_peer_state_of :: "i32 \<Rightarrow> privileged_peer_state option" where
  "privileged_peer_state_of v = map_of [
     (0, PrivilegedPeerState_Unspecified),
     (1, PrivilegedPeerState_New),
     (2, PrivilegedPeerState_Negotiating),
     (3, PrivilegedPeerState_Connected),
     (4, PrivilegedPeerState_Disconnected),
     (5, PrivilegedPeerState_Failed),
     (6, PrivilegedPeerState_Closed)] v"

primrec privileged_peer_state_code :: "privileged_peer_state \<Rightarrow> i32" where
  "privileged_peer_state_code PrivilegedPeerState_Unspecified = 0"
| "privileged_peer_state_code PrivilegedPeerState_New = 1"
| "privileged_peer_state_code PrivilegedPeerState_Negotiating = 2"
| "privileged_peer_state_code PrivilegedPeerState_Connected = 3"
| "privileged_peer_state_code PrivilegedPeerState_Disconnected = 4"
| "privileged_peer_state_code PrivilegedPeerState_Failed = 5"
| "privileged_peer_state_code PrivilegedPeerState_Closed = 6"

datatype session_state =
    SessionState_Unspecified
  | SessionState_Idle
  | SessionState_Signaling
  | SessionState_Authenticating
  | SessionState_Connecting
  | SessionState_Connected
  | SessionState_Reconnecting
  | SessionState_Failed
  | SessionState_Closing

definition session_state_of :: "i32 \<Rightarrow> session_state option" where
  "session_state_of v = map_of [
     (0, SessionState_Unspecified),
     (1, SessionState_Idle),
     (2, SessionState_Signaling),
     (3, SessionState_Authenticating),
     (4, SessionState_Connecting),
     (5, SessionState_Connected),
     (6, SessionState_Reconnecting),
     (7, SessionState_Failed),
     (8, SessionState_Closing)] v"

primrec session_state_code :: "session_state \<Rightarrow> i32" where
  "session_state_code SessionState_Unspecified = 0"
| "session_state_code SessionState_Idle = 1"
| "session_state_code SessionState_Signaling = 2"
| "session_state_code SessionState_Authenticating = 3"
| "session_state_code SessionState_Connecting = 4"
| "session_state_code SessionState_Connected = 5"
| "session_state_code SessionState_Reconnecting = 6"
| "session_state_code SessionState_Failed = 7"
| "session_state_code SessionState_Closing = 8"

datatype pairing_rendezvous_kind =
    PairingRendezvousKind_Unspecified
  | PairingRendezvousKind_Qr
  | PairingRendezvousKind_DesktopCode

definition pairing_rendezvous_kind_of :: "i32 \<Rightarrow> pairing_rendezvous_kind option" where
  "pairing_rendezvous_kind_of v = map_of [
     (0, PairingRendezvousKind_Unspecified),
     (1, PairingRendezvousKind_Qr),
     (2, PairingRendezvousKind_DesktopCode)] v"

primrec pairing_rendezvous_kind_code :: "pairing_rendezvous_kind \<Rightarrow> i32" where
  "pairing_rendezvous_kind_code PairingRendezvousKind_Unspecified = 0"
| "pairing_rendezvous_kind_code PairingRendezvousKind_Qr = 1"
| "pairing_rendezvous_kind_code PairingRendezvousKind_DesktopCode = 2"

datatype pairing_rendezvous_completion =
    PairingRendezvousCompletion_Unspecified
  | PairingRendezvousCompletion_Succeeded
  | PairingRendezvousCompletion_Rejected
  | PairingRendezvousCompletion_Expired
  | PairingRendezvousCompletion_Disconnected

definition pairing_rendezvous_completion_of :: "i32 \<Rightarrow> pairing_rendezvous_completion option" where
  "pairing_rendezvous_completion_of v = map_of [
     (0, PairingRendezvousCompletion_Unspecified),
     (1, PairingRendezvousCompletion_Succeeded),
     (2, PairingRendezvousCompletion_Rejected),
     (3, PairingRendezvousCompletion_Expired),
     (4, PairingRendezvousCompletion_Disconnected)] v"

primrec pairing_rendezvous_completion_code :: "pairing_rendezvous_completion \<Rightarrow> i32" where
  "pairing_rendezvous_completion_code PairingRendezvousCompletion_Unspecified = 0"
| "pairing_rendezvous_completion_code PairingRendezvousCompletion_Succeeded = 1"
| "pairing_rendezvous_completion_code PairingRendezvousCompletion_Rejected = 2"
| "pairing_rendezvous_completion_code PairingRendezvousCompletion_Expired = 3"
| "pairing_rendezvous_completion_code PairingRendezvousCompletion_Disconnected = 4"

section \<open>The conversion contract\<close>

locale wire_enum =
  fixes of_i32 :: "i32 \<Rightarrow> 'c option"
    and to_i32 :: "'c \<Rightarrow> i32"
  assumes of_to: "of_i32 (to_i32 c) = Some c"
    and to_of: "of_i32 v = Some c \<Longrightarrow> to_i32 c = v"
begin

lemma of_eq_Some [simp]: "of_i32 v = Some c \<longleftrightarrow> v = to_i32 c"
  by (auto simp: of_to dest: to_of)

lemma code_inject: "to_i32 c = to_i32 d \<longleftrightarrow> c = d"
  by (metis of_to option.inject)

lemma unknown_iff: "of_i32 v = None \<longleftrightarrow> v \<notin> range to_i32"
  by (metis image_iff not_Some_eq of_eq_Some rangeI)

end

interpretation device_platform: wire_enum device_platform_of device_platform_code
  by unfold_locales (case_tac c, simp_all add: device_platform_of_def, auto split: if_splits)

interpretation public_key_algorithm: wire_enum public_key_algorithm_of public_key_algorithm_code
  by unfold_locales (case_tac c, simp_all add: public_key_algorithm_of_def, auto split: if_splits)

interpretation session_permission: wire_enum session_permission_of session_permission_code
  by unfold_locales (case_tac c, simp_all add: session_permission_of_def, auto split: if_splits)

interpretation error_code: wire_enum error_code_of error_code_code
  by unfold_locales (case_tac c, simp_all add: error_code_of_def, auto split: if_splits)

interpretation capability: wire_enum capability_of capability_code
  by unfold_locales (case_tac c, simp_all add: capability_of_def, auto split: if_splits)

interpretation pointer_button: wire_enum pointer_button_of pointer_button_code
  by unfold_locales (case_tac c, simp_all add: pointer_button_of_def, auto split: if_splits)

interpretation button_action: wire_enum button_action_of button_action_code
  by unfold_locales (case_tac c, simp_all add: button_action_of_def, auto split: if_splits)

interpretation keyboard_action: wire_enum keyboard_action_of keyboard_action_code
  by unfold_locales (case_tac c, simp_all add: keyboard_action_of_def, auto split: if_splits)

interpretation session_control_action: wire_enum session_control_action_of session_control_action_code
  by unfold_locales (case_tac c, simp_all add: session_control_action_of_def, auto split: if_splits)

interpretation pairing_decision_status: wire_enum pairing_decision_status_of pairing_decision_status_code
  by unfold_locales (case_tac c, simp_all add: pairing_decision_status_of_def, auto split: if_splits)

interpretation pairing_direction: wire_enum pairing_direction_of pairing_direction_code
  by unfold_locales (case_tac c, simp_all add: pairing_direction_of_def, auto split: if_splits)

interpretation pairing_identity_role: wire_enum pairing_identity_role_of pairing_identity_role_code
  by unfold_locales (case_tac c, simp_all add: pairing_identity_role_of_def, auto split: if_splits)

interpretation pairing_invitation_kind: wire_enum pairing_invitation_kind_of pairing_invitation_kind_code
  by unfold_locales (case_tac c, simp_all add: pairing_invitation_kind_of_def, auto split: if_splits)

interpretation host_pairing_state: wire_enum host_pairing_state_of host_pairing_state_code
  by unfold_locales (case_tac c, simp_all add: host_pairing_state_of_def, auto split: if_splits)

interpretation session_description_type: wire_enum session_description_type_of session_description_type_code
  by unfold_locales (case_tac c, simp_all add: session_description_type_of_def, auto split: if_splits)

interpretation privileged_bridge_state: wire_enum privileged_bridge_state_of privileged_bridge_state_code
  by unfold_locales (case_tac c, simp_all add: privileged_bridge_state_of_def, auto split: if_splits)

interpretation interactive_desktop_kind: wire_enum interactive_desktop_kind_of interactive_desktop_kind_code
  by unfold_locales (case_tac c, simp_all add: interactive_desktop_kind_of_def, auto split: if_splits)

interpretation privileged_bridge_role: wire_enum privileged_bridge_role_of privileged_bridge_role_code
  by unfold_locales (case_tac c, simp_all add: privileged_bridge_role_of_def, auto split: if_splits)

interpretation privileged_ice_transport_policy: wire_enum privileged_ice_transport_policy_of privileged_ice_transport_policy_code
  by unfold_locales (case_tac c, simp_all add: privileged_ice_transport_policy_of_def, auto split: if_splits)

interpretation privileged_peer_state: wire_enum privileged_peer_state_of privileged_peer_state_code
  by unfold_locales (case_tac c, simp_all add: privileged_peer_state_of_def, auto split: if_splits)

interpretation session_state: wire_enum session_state_of session_state_code
  by unfold_locales (case_tac c, simp_all add: session_state_of_def, auto split: if_splits)

interpretation pairing_rendezvous_kind: wire_enum pairing_rendezvous_kind_of pairing_rendezvous_kind_code
  by unfold_locales (case_tac c, simp_all add: pairing_rendezvous_kind_of_def, auto split: if_splits)

interpretation pairing_rendezvous_completion: wire_enum pairing_rendezvous_completion_of pairing_rendezvous_completion_code
  by unfold_locales (case_tac c, simp_all add: pairing_rendezvous_completion_of_def, auto split: if_splits)

end
