(* ===== verification/Wire_Messages.thy ===== *)
theory Wire_Messages
  imports Wire_Enums
begin

text \<open>
  The messages of the wire protocol (\<^verbatim>\<open>gen/rust/src/generated/roammand.v1.rs\<close>) that the modelled
  components exchange: one record per message, one datatype per oneof.  Field names carry a
  prefix made of the initials of the message, since two records of one theory cannot share a
  field name.
\<close>

record protocol_version =
  pv_major :: "u32"
  pv_minor :: "u32"

record capability_negotiation =
  cn_protocol_version :: "protocol_version option"
  cn_required_capabilities :: "i32 list"
  cn_optional_capabilities :: "i32 list"

record device_identity =
  di_device_id :: "bytes"
  di_public_key_algorithm :: "i32"
  di_public_key :: "bytes"
  di_display_name :: "string"
  di_platform :: "i32"

record qr_pairing_rendezvous =
  qpr_rendezvous_id :: "bytes"
  qpr_host_identity :: "device_identity option"
  qpr_host_public_key_fingerprint_sha256 :: "bytes"
  qpr_host_ephemeral_public_key :: "bytes"
  qpr_signaling_endpoint :: "string"
  qpr_issued_at_unix_ms :: "u64"
  qpr_expires_at_unix_ms :: "u64"

record desktop_pairing_rendezvous =
  dpr_rendezvous_id :: "bytes"
  dpr_pairing_code :: "string"
  dpr_host_identity :: "device_identity option"
  dpr_host_ephemeral_public_key :: "bytes"
  dpr_issued_at_unix_ms :: "u64"
  dpr_expires_at_unix_ms :: "u64"

record pairing_hello =
  ph_rendezvous_id :: "bytes"
  ph_identity :: "device_identity option"
  ph_ephemeral_public_key :: "bytes"

record pairing_confirmation_data =
  pcd_controller_device_id :: "bytes"
  pcd_host_device_id :: "bytes"
  pcd_rendezvous_id :: "bytes"
  pcd_controller_identity_public_key :: "bytes"
  pcd_host_identity_public_key :: "bytes"
  pcd_controller_ephemeral_public_key :: "bytes"
  pcd_host_ephemeral_public_key :: "bytes"
  pcd_transcript_sha256 :: "bytes"

record controller_grant =
  cg_grant_id :: "bytes"
  cg_host_device_id :: "bytes"
  cg_controller :: "device_identity option"
  cg_created_at_unix_ms :: "u64"
  cg_permissions :: "i32 list"

record pairing_decision =
  pd_status :: "i32"
  pd_controller :: "device_identity option"
  pd_confirmation :: "pairing_confirmation_data option"
  pd_grant :: "controller_grant option"

record host_pairing_invitation =
  hpi_protocol_version :: "protocol_version option"
  hpi_kind :: "i32"
  hpi_rendezvous_id :: "bytes"
  hpi_host_identity :: "device_identity option"
  hpi_host_public_key_fingerprint_sha256 :: "bytes"
  hpi_host_ephemeral_public_key :: "bytes"
  hpi_signaling_endpoint :: "string"
  hpi_pairing_code :: "string"
  hpi_issued_at_unix_ms :: "u64"
  hpi_expires_at_unix_ms :: "u64"

record controller_pairing_hello =
  cph_rendezvous_id :: "bytes"
  cph_identity :: "device_identity option"
  cph_ephemeral_public_key :: "bytes"
  cph_transcript_sha256 :: "bytes"
  cph_signature :: "bytes"

record encrypted_pairing_envelope =
  epe_protocol_version :: "protocol_version option"
  epe_rendezvous_id :: "bytes"
  epe_direction :: "i32"
  epe_sequence :: "u64"
  epe_ciphertext :: "bytes"

datatype pairing_message_payload =
    PairingMessage_QrRendezvous "qr_pairing_rendezvous"
  | PairingMessage_DesktopRendezvous "desktop_pairing_rendezvous"
  | PairingMessage_Hello "pairing_hello"
  | PairingMessage_Confirmation "pairing_confirmation_data"
  | PairingMessage_Decision "pairing_decision"
  | PairingMessage_HostInvitation "host_pairing_invitation"
  | PairingMessage_ControllerHello "controller_pairing_hello"
  | PairingMessage_EncryptedEnvelope "encrypted_pairing_envelope"

record pairing_message =
  pm_payload :: "pairing_message_payload option"

record session_offer_authentication =
  soa_controller_device_id :: "bytes"
  soa_host_device_id :: "bytes"
  soa_session_id :: "bytes"
  soa_nonce :: "bytes"
  soa_issued_at_unix_ms :: "u64"
  soa_expires_at_unix_ms :: "u64"
  soa_requested_permissions :: "i32 list"
  soa_offer_sha256 :: "bytes"
  soa_controller_dtls_fingerprint_sha256 :: "bytes"
  soa_signature :: "bytes"

record session_answer_authentication =
  saa_controller_device_id :: "bytes"
  saa_host_device_id :: "bytes"
  saa_session_id :: "bytes"
  saa_nonce :: "bytes"
  saa_issued_at_unix_ms :: "u64"
  saa_expires_at_unix_ms :: "u64"
  saa_requested_permissions :: "i32 list"
  saa_offer_sha256 :: "bytes"
  saa_controller_dtls_fingerprint_sha256 :: "bytes"
  saa_answer_sha256 :: "bytes"
  saa_host_dtls_fingerprint_sha256 :: "bytes"
  saa_signature :: "bytes"

record session_reconnect_authentication =
  sra_controller_device_id :: "bytes"
  sra_host_device_id :: "bytes"
  sra_session_id :: "bytes"
  sra_nonce :: "bytes"
  sra_issued_at_unix_ms :: "u64"
  sra_expires_at_unix_ms :: "u64"
  sra_requested_permissions :: "i32 list"
  sra_offer_sha256 :: "bytes"
  sra_controller_dtls_fingerprint_sha256 :: "bytes"
  sra_answer_sha256 :: "bytes"
  sra_host_dtls_fingerprint_sha256 :: "bytes"
  sra_reconnect_generation :: "u32"
  sra_signature :: "bytes"

datatype session_authentication_payload =
    SessionAuthentication_Offer "session_offer_authentication"
  | SessionAuthentication_Answer "session_answer_authentication"
  | SessionAuthentication_Reconnect "session_reconnect_authentication"

record session_authentication =
  sau_payload :: "session_authentication_payload option"

record web_rtc_session_description =
  wrsd_type :: "i32"
  wrsd_sdp :: "string"
  wrsd_dtls_fingerprint_sha256 :: "bytes"

record ice_candidate =
  ic_candidate :: "string"
  ic_sdp_mid :: "string"
  ic_sdp_m_line_index :: "u32"

datatype end_of_candidates = EndOfCandidates

datatype web_rtc_negotiation_payload =
    WebRtcNegotiation_Description "web_rtc_session_description"
  | WebRtcNegotiation_IceCandidate "ice_candidate"
  | WebRtcNegotiation_EndOfCandidates "end_of_candidates"

record web_rtc_negotiation =
  wrn_session_id :: "bytes"
  wrn_payload :: "web_rtc_negotiation_payload option"

record retry_after_details =
  rad_retry_after_ms :: "u64"

record permission_details =
  pd2_permission :: "string"

record codec_details =
  cd_supported_codecs :: "string list"

record transport_details =
  td_transport :: "string"

datatype unified_error_details =
    UnifiedError_RetryAfter "retry_after_details"
  | UnifiedError_Permission "permission_details"
  | UnifiedError_Codec "codec_details"
  | UnifiedError_Transport "transport_details"

record unified_error =
  ue_code :: "i32"
  ue_message_key :: "string"
  ue_retryable :: "bool"
  ue_request_id :: "string"
  ue_details :: "unified_error_details option"

record session_status =
  sst_session_id :: "bytes"
  sst_state :: "i32"
  sst_error :: "unified_error option"

datatype signaling_envelope_payload =
    SignalingEnvelope_CapabilityNegotiation "capability_negotiation"
  | SignalingEnvelope_Pairing "pairing_message"
  | SignalingEnvelope_SessionAuthentication "session_authentication"
  | SignalingEnvelope_WebrtcNegotiation "web_rtc_negotiation"
  | SignalingEnvelope_SessionStatus "session_status"
  | SignalingEnvelope_Error "unified_error"

record signaling_envelope =
  se_protocol_version :: "protocol_version option"
  se_sender_device_id :: "bytes"
  se_recipient_device_id :: "bytes"
  se_request_id :: "string"
  se_sent_at_unix_ms :: "u64"
  se_payload :: "signaling_envelope_payload option"

record pointer_button_event =
  pbe_button :: "i32"
  pbe_action :: "i32"
  pbe_x :: "i32"
  pbe_y :: "i32"

record keyboard_event =
  ke_action :: "i32"
  ke_usb_hid_usage :: "u32"
  ke_modifier_bits :: "u32"

record text_input_event =
  tie_text :: "string"

record session_control_event =
  sce_action :: "i32"

datatype release_all_input = ReleaseAllInput

datatype reliable_input_envelope_event =
    ReliableInputEnvelope_PointerButton "pointer_button_event"
  | ReliableInputEnvelope_Keyboard "keyboard_event"
  | ReliableInputEnvelope_Text "text_input_event"
  | ReliableInputEnvelope_SessionControl "session_control_event"
  | ReliableInputEnvelope_ReleaseAllInput "release_all_input"

record reliable_input_envelope =
  rie_protocol_version :: "protocol_version option"
  rie_session_id :: "bytes"
  rie_sequence :: "u64"
  rie_event :: "reliable_input_envelope_event option"

record pointer_move_event =
  pme_x :: "i32"
  pme_y :: "i32"
  pme_pressed_button_bits :: "u32"

record pointer_scroll_event =
  pse_delta_x :: "i32"
  pse_delta_y :: "i32"

datatype pointer_fast_envelope_event =
    PointerFastEnvelope_Move "pointer_move_event"
  | PointerFastEnvelope_Scroll "pointer_scroll_event"

record pointer_fast_envelope =
  pfe_protocol_version :: "protocol_version option"
  pfe_session_id :: "bytes"
  pfe_sequence :: "u64"
  pfe_event :: "pointer_fast_envelope_event option"

record privileged_bridge_authenticate =
  pba_role :: "i32"
  pba_client_nonce :: "bytes"
  pba_client_proof :: "bytes"
  pba_executable_sha256 :: "bytes"
  pba_os_session_id :: "u64"

record privileged_session_descriptor =
  psd_platform :: "i32"
  psd_os_session_id :: "u64"
  psd_desktop_kind :: "i32"
  psd_generation :: "u64"

record register_privileged_helper_request =
  rphr_session :: "privileged_session_descriptor option"

record acquire_privileged_lease_request =
  aplr_session_id :: "bytes"
  aplr_generation :: "u64"
  aplr_permissions :: "i32 list"
  aplr_controller_display_name :: "string"

record renew_privileged_lease_request =
  rplr_lease_id :: "bytes"
  rplr_generation :: "u64"

record release_privileged_lease_request =
  rplr2_lease_id :: "bytes"
  rplr2_generation :: "u64"

record privileged_ice_server =
  pis_urls :: "string list"
  pis_username :: "string"
  pis_credential :: "string"

record privileged_peer_configuration =
  ppc_ice_transport_policy :: "i32"
  ppc_ice_servers :: "privileged_ice_server list"

record start_privileged_peer_request =
  sppr_lease_id :: "bytes"
  sppr_generation :: "u64"
  sppr_configuration :: "privileged_peer_configuration option"
  sppr_offer :: "web_rtc_session_description option"
  sppr_controller_display_name :: "string"

record restart_privileged_peer_request =
  rppr_lease_id :: "bytes"
  rppr_generation :: "u64"
  rppr_configuration :: "privileged_peer_configuration option"
  rppr_offer :: "web_rtc_session_description option"
  rppr_controller_display_name :: "string"

record add_privileged_ice_candidate_request =
  apicr_lease_id :: "bytes"
  apicr_generation :: "u64"
  apicr_candidate :: "ice_candidate option"

record send_secure_attention_request =
  ssar_lease_id :: "bytes"
  ssar_generation :: "u64"

datatype privileged_input_command_input =
    PrivilegedInputCommand_PointerButton "pointer_button_event"
  | PrivilegedInputCommand_Keyboard "keyboard_event"
  | PrivilegedInputCommand_Text "text_input_event"
  | PrivilegedInputCommand_PointerMove "pointer_move_event"
  | PrivilegedInputCommand_PointerScroll "pointer_scroll_event"
  | PrivilegedInputCommand_ReleaseAll "release_all_input"

record privileged_input_command =
  pic_lease_id :: "bytes"
  pic_generation :: "u64"
  pic_input :: "privileged_input_command_input option"

record close_privileged_peer_request =
  cppr_lease_id :: "bytes"
  cppr_generation :: "u64"

datatype privileged_bridge_client_frame_payload =
    PrivilegedBridgeClientFrame_Authenticate "privileged_bridge_authenticate"
  | PrivilegedBridgeClientFrame_RegisterHelper "register_privileged_helper_request"
  | PrivilegedBridgeClientFrame_AcquireLease "acquire_privileged_lease_request"
  | PrivilegedBridgeClientFrame_RenewLease "renew_privileged_lease_request"
  | PrivilegedBridgeClientFrame_ReleaseLease "release_privileged_lease_request"
  | PrivilegedBridgeClientFrame_StartPeer "start_privileged_peer_request"
  | PrivilegedBridgeClientFrame_RestartPeer "restart_privileged_peer_request"
  | PrivilegedBridgeClientFrame_AddIceCandidate "add_privileged_ice_candidate_request"
  | PrivilegedBridgeClientFrame_SendSecureAttention "send_secure_attention_request"
  | PrivilegedBridgeClientFrame_InputCommand "privileged_input_command"
  | PrivilegedBridgeClientFrame_ClosePeer "close_privileged_peer_request"

record privileged_bridge_client_frame =
  pbcf_protocol_version :: "protocol_version option"
  pbcf_request_id :: "string"
  pbcf_sequence :: "u64"
  pbcf_payload :: "privileged_bridge_client_frame_payload option"

record privileged_bridge_challenge =
  pbc_broker_instance_id :: "bytes"
  pbc_server_nonce :: "bytes"

record privileged_bridge_authenticated =
  pbad_server_proof :: "bytes"

record privileged_helper_registered =
  phr_session :: "privileged_session_descriptor option"

record privileged_bridge_status_snapshot =
  pbss_state :: "i32"
  pbss_interactive_session :: "privileged_session_descriptor option"
  pbss_helper_connected :: "bool"
  pbss_active_controller_display_name :: "string"
  pbss_error :: "unified_error option"

record privileged_lease =
  please_lease_id :: "bytes"
  please_generation :: "u64"
  please_issued_at_unix_ms :: "u64"
  please_expires_at_unix_ms :: "u64"
  please_session_id :: "bytes"
  please_permissions :: "i32 list"
  please_controller_display_name :: "string"

record privileged_peer_answer =
  ppa_lease_id :: "bytes"
  ppa_generation :: "u64"
  ppa_answer :: "web_rtc_session_description option"

record privileged_local_ice_candidate =
  plic_lease_id :: "bytes"
  plic_generation :: "u64"
  plic_candidate :: "ice_candidate option"

record privileged_peer_state_changed =
  ppsc_lease_id :: "bytes"
  ppsc_generation :: "u64"
  ppsc_state :: "i32"

record privileged_reliable_input_event =
  prie_lease_id :: "bytes"
  prie_generation :: "u64"
  prie_encoded_envelope :: "bytes"

record privileged_fast_pointer_event =
  pfpe_lease_id :: "bytes"
  pfpe_generation :: "u64"
  pfpe_encoded_envelope :: "bytes"

record privileged_command_accepted =
  pca_lease_id :: "bytes"
  pca_generation :: "u64"

datatype privileged_bridge_server_frame_payload =
    PrivilegedBridgeServerFrame_Challenge "privileged_bridge_challenge"
  | PrivilegedBridgeServerFrame_Authenticated "privileged_bridge_authenticated"
  | PrivilegedBridgeServerFrame_HelperRegistered "privileged_helper_registered"
  | PrivilegedBridgeServerFrame_Status "privileged_bridge_status_snapshot"
  | PrivilegedBridgeServerFrame_Lease "privileged_lease"
  | PrivilegedBridgeServerFrame_PeerAnswer "privileged_peer_answer"
  | PrivilegedBridgeServerFrame_LocalIceCandidate "privileged_local_ice_candidate"
  | PrivilegedBridgeServerFrame_PeerStateChanged "privileged_peer_state_changed"
  | PrivilegedBridgeServerFrame_ReliableInput "privileged_reliable_input_event"
  | PrivilegedBridgeServerFrame_FastPointer "privileged_fast_pointer_event"
  | PrivilegedBridgeServerFrame_CommandAccepted "privileged_command_accepted"
  | PrivilegedBridgeServerFrame_Error "unified_error"

record privileged_bridge_server_frame =
  pbsf_protocol_version :: "protocol_version option"
  pbsf_request_id :: "string"
  pbsf_sequence :: "u64"
  pbsf_payload :: "privileged_bridge_server_frame_payload option"

record local_ipc_authenticate =
  lia_client_nonce :: "bytes"
  lia_client_proof :: "bytes"

datatype get_host_status_request = GetHostStatusRequest

datatype list_controller_grants_request = ListControllerGrantsRequest

record create_controller_grant_request =
  ccgr_controller :: "device_identity option"
  ccgr_permissions :: "i32 list"

record sign_canonical_transcript_request =
  sctr_canonical_transcript :: "bytes"

record revoke_controller_grant_request =
  rcgr_grant_id :: "bytes"

record sign_session_offer_request =
  ssor_canonical_transcript :: "bytes"

datatype get_remote_session_status_request = GetRemoteSessionStatusRequest

record start_host_qr_pairing_request =
  shqpr_signaling_endpoint :: "string"

record start_host_desktop_code_pairing_request =
  shdcpr_signaling_endpoint :: "string"

record cancel_host_pairing_request =
  chpr_rendezvous_id :: "bytes"

datatype get_host_pairing_status_request = GetHostPairingStatusRequest

record accept_host_pairing_request =
  ahpr_rendezvous_id :: "bytes"
  ahpr_controller_device_id :: "bytes"

record reject_host_pairing_request =
  rhpr_rendezvous_id :: "bytes"
  rhpr_controller_device_id :: "bytes"

record sign_pairing_transcript_request =
  sptr_canonical_transcript :: "bytes"
  sptr_role :: "i32"

datatype emergency_stop_remote_session_request = EmergencyStopRemoteSessionRequest

datatype local_ipc_client_frame_payload =
    LocalIpcClientFrame_Authenticate "local_ipc_authenticate"
  | LocalIpcClientFrame_GetHostStatus "get_host_status_request"
  | LocalIpcClientFrame_ListControllerGrants "list_controller_grants_request"
  | LocalIpcClientFrame_CreateControllerGrant "create_controller_grant_request"
  | LocalIpcClientFrame_SignCanonicalTranscript "sign_canonical_transcript_request"
  | LocalIpcClientFrame_RevokeControllerGrant "revoke_controller_grant_request"
  | LocalIpcClientFrame_SignSessionOffer "sign_session_offer_request"
  | LocalIpcClientFrame_GetRemoteSessionStatus "get_remote_session_status_request"
  | LocalIpcClientFrame_StartHostQrPairing "start_host_qr_pairing_request"
  | LocalIpcClientFrame_StartHostDesktopCodePairing "start_host_desktop_code_pairing_request"
  | LocalIpcClientFrame_CancelHostPairing "cancel_host_pairing_request"
  | LocalIpcClientFrame_GetHostPairingStatus "get_host_pairing_status_request"
  | LocalIpcClientFrame_AcceptHostPairing "accept_host_pairing_request"
  | LocalIpcClientFrame_RejectHostPairing "reject_host_pairing_request"
  | LocalIpcClientFrame_SignPairingTranscript "sign_pairing_transcript_request"
  | LocalIpcClientFrame_EmergencyStopRemoteSession "emergency_stop_remote_session_request"

record local_ipc_client_frame =
  licf_protocol_version :: "protocol_version option"
  licf_request_id :: "string"
  licf_payload :: "local_ipc_client_frame_payload option"

record local_ipc_challenge =
  lic_agent_instance_id :: "bytes"
  lic_server_nonce :: "bytes"

record local_ipc_authenticated =
  liad_server_proof :: "bytes"

record host_status =
  hs_identity :: "device_identity option"
  hs_agent_instance_id :: "bytes"
  hs_agent_started_at_unix_ms :: "u64"
  hs_controller_grant_count :: "u32"
  hs_privileged_bridge :: "privileged_bridge_status_snapshot option"

record controller_grant_view =
  cgv_grant :: "controller_grant option"
  cgv_last_successful_connection_at_unix_ms :: "u64"

record controller_grant_list =
  cgl_grants :: "controller_grant_view list"

record controller_grant_created =
  cgc_grant :: "controller_grant_view option"

record canonical_transcript_signature =
  cts_host_device_id :: "bytes"
  cts_host_public_key :: "bytes"
  cts_signature :: "bytes"
  cts_transcript_sha256 :: "bytes"

record controller_grant_revoked =
  cgr_grant_id :: "bytes"
  cgr_terminated_session_count :: "u32"

record session_offer_signature =
  sosig_controller_device_id :: "bytes"
  sosig_controller_public_key :: "bytes"
  sosig_signature :: "bytes"
  sosig_transcript_sha256 :: "bytes"

record remote_session_status_snapshot =
  rsss_session_status :: "session_status option"
  rsss_controller_device_id :: "bytes"

record session_terminated_event =
  ste_session_id :: "bytes"
  ste_controller_device_id :: "bytes"
  ste_reason :: "i32"

record host_pairing_status_snapshot =
  hpss_state :: "i32"
  hpss_revision :: "u64"
  hpss_invitation :: "host_pairing_invitation option"
  hpss_pending_controller :: "device_identity option"
  hpss_pending_controller_fingerprint_sha256 :: "bytes"
  hpss_sas_words :: "string list"
  hpss_expires_at_unix_ms :: "u64"
  hpss_error :: "unified_error option"

record pairing_transcript_signature =
  pts_role :: "i32"
  pts_signer_device_id :: "bytes"
  pts_signer_public_key :: "bytes"
  pts_signature :: "bytes"
  pts_transcript_sha256 :: "bytes"

record host_pairing_state_changed_event =
  hpsce_status :: "host_pairing_status_snapshot option"

record emergency_stop_remote_session_result =
  esrsr2_terminated_session_count :: "u32"

datatype local_ipc_server_frame_payload =
    LocalIpcServerFrame_Challenge "local_ipc_challenge"
  | LocalIpcServerFrame_Authenticated "local_ipc_authenticated"
  | LocalIpcServerFrame_HostStatus "host_status"
  | LocalIpcServerFrame_ControllerGrantList "controller_grant_list"
  | LocalIpcServerFrame_ControllerGrantCreated "controller_grant_created"
  | LocalIpcServerFrame_CanonicalTranscriptSignature "canonical_transcript_signature"
  | LocalIpcServerFrame_ControllerGrantRevoked "controller_grant_revoked"
  | LocalIpcServerFrame_SessionOfferSignature "session_offer_signature"
  | LocalIpcServerFrame_RemoteSessionStatus "remote_session_status_snapshot"
  | LocalIpcServerFrame_SessionTerminated "session_terminated_event"
  | LocalIpcServerFrame_Error "unified_error"
  | LocalIpcServerFrame_HostPairingStatus "host_pairing_status_snapshot"
  | LocalIpcServerFrame_PairingTranscriptSignature "pairing_transcript_signature"
  | LocalIpcServerFrame_HostPairingStateChanged "host_pairing_state_changed_event"
  | LocalIpcServerFrame_EmergencyStopRemoteSessionResult "emergency_stop_remote_session_result"

record local_ipc_server_frame =
  lisf_protocol_version :: "protocol_version option"
  lisf_request_id :: "string"
  lisf_payload :: "local_ipc_server_frame_payload option"

record host_authorization_snapshot =
  has_host_device_id :: "bytes"
  has_grants :: "controller_grant_view list"

record host_pairing_proof =
  hpp_confirmation :: "pairing_confirmation_data option"
  hpp_host_signature :: "bytes"
  hpp_expires_at_unix_ms :: "u64"

record controller_pairing_ready =
  cpr_transcript_sha256 :: "bytes"

record pairing_final_decision =
  pfd_status :: "i32"
  pfd_transcript_sha256 :: "bytes"
  pfd_grant :: "controller_grant option"

datatype pairing_plaintext_payload =
    PairingPlaintext_HostProof "host_pairing_proof"
  | PairingPlaintext_ControllerReady "controller_pairing_ready"
  | PairingPlaintext_FinalDecision "pairing_final_decision"

record pairing_plaintext =
  pp_payload :: "pairing_plaintext_payload option"

record register_device =
  rd_device_id :: "bytes"

datatype heartbeat = Heartbeat

record presence_query =
  pq_device_id :: "bytes"

record create_pairing_rendezvous =
  cpr2_rendezvous_id :: "bytes"
  cpr2_kind :: "i32"
  cpr2_pairing_code :: "string"

datatype join_pairing_rendezvous_lookup =
    JoinPairingRendezvous_RendezvousId "bytes"
  | JoinPairingRendezvous_PairingCode "string"

record join_pairing_rendezvous =
  jpr_lookup :: "join_pairing_rendezvous_lookup option"

record relay_pairing_envelope =
  rpe_rendezvous_id :: "bytes"
  rpe_opaque_envelope :: "bytes"

record complete_pairing_rendezvous =
  cpr3_rendezvous_id :: "bytes"
  cpr3_completion :: "i32"

record relay_session_envelope =
  rse_recipient_device_id :: "bytes"
  rse_opaque_envelope :: "bytes"

datatype signaling_client_frame_payload =
    SignalingClientFrame_Register "register_device"
  | SignalingClientFrame_Heartbeat "heartbeat"
  | SignalingClientFrame_PresenceQuery "presence_query"
  | SignalingClientFrame_CreateRendezvous "create_pairing_rendezvous"
  | SignalingClientFrame_JoinRendezvous "join_pairing_rendezvous"
  | SignalingClientFrame_RelayPairing "relay_pairing_envelope"
  | SignalingClientFrame_CompleteRendezvous "complete_pairing_rendezvous"
  | SignalingClientFrame_RelaySession "relay_session_envelope"

record signaling_client_frame =
  scf_protocol_version :: "protocol_version option"
  scf_request_id :: "string"
  scf_payload :: "signaling_client_frame_payload option"

record registration_accepted =
  ra_device_id :: "bytes"
  ra_presence_expires_at_unix_ms :: "u64"

record heartbeat_acknowledged =
  ha_server_time_unix_ms :: "u64"
  ha_presence_expires_at_unix_ms :: "u64"

record presence_result =
  pr_device_id :: "bytes"
  pr_online :: "bool"

record pairing_rendezvous_created =
  prc_rendezvous_id :: "bytes"
  prc_kind :: "i32"
  prc_expires_at_unix_ms :: "u64"

record pairing_rendezvous_joined =
  prj_rendezvous_id :: "bytes"
  prj_peer_device_id :: "bytes"
  prj_expires_at_unix_ms :: "u64"

record routed_pairing_envelope =
  rpe2_rendezvous_id :: "bytes"
  rpe2_sender_device_id :: "bytes"
  rpe2_opaque_envelope :: "bytes"

record pairing_rendezvous_closed =
  prc2_rendezvous_id :: "bytes"
  prc2_completion :: "i32"

record routed_session_envelope =
  rse2_sender_device_id :: "bytes"
  rse2_opaque_envelope :: "bytes"

datatype signaling_server_frame_payload =
    SignalingServerFrame_Registered "registration_accepted"
  | SignalingServerFrame_HeartbeatAcknowledged "heartbeat_acknowledged"
  | SignalingServerFrame_PresenceResult "presence_result"
  | SignalingServerFrame_RendezvousCreated "pairing_rendezvous_created"
  | SignalingServerFrame_RendezvousJoined "pairing_rendezvous_joined"
  | SignalingServerFrame_RoutedPairing "routed_pairing_envelope"
  | SignalingServerFrame_RendezvousClosed "pairing_rendezvous_closed"
  | SignalingServerFrame_RoutedSession "routed_session_envelope"
  | SignalingServerFrame_Error "unified_error"

record signaling_server_frame =
  ssf_protocol_version :: "protocol_version option"
  ssf_request_id :: "string"
  ssf_payload :: "signaling_server_frame_payload option"

end
