(* ===== verification/Grant_Store.thy ===== *)
theory Grant_Store
  imports Wire_Messages
begin

text \<open>
  Persistence of Controller grants, \<^verbatim>\<open>crates/host-agent/src/grant_store.rs\<close>, with the part of
  \<^verbatim>\<open>crates/host-platform/src/restricted_fs.rs\<close> that decides what a failed write leaves behind.
  The protobuf codec and SHA-256 are outside the repository and are arguments; the outcomes of
  the operating system calls are arguments too.

  The trait \<^verbatim>\<open>GrantStore\<close> is the record \<open>grant_store_ops\<close>, and what a client may rely on is a pair of
  locales: a store may have written the new snapshot although it reported an error; an
  atomic store may not.
\<close>

section \<open>Private files\<close>

datatype restricted_fs_error =
    RestrictedFsError_SymbolicLink
  | RestrictedFsError_NotDirectory
  | RestrictedFsError_NotRegularFile
  | RestrictedFsError_FileTooLarge
  | RestrictedFsError_InvalidPath
  | RestrictedFsError_Io

text \<open>
  \<^verbatim>\<open>atomic_write_private\<close> writes a temporary file, renames it over the target, then restricts its
  permissions and synchronises the directory.  A failure comes either before the rename took
  effect or after it; the temporary file is removed in both cases.
\<close>

datatype write_outcome =
    WriteSucceeded
  | WriteFailedBeforeRename restricted_fs_error
  | WriteFailedAfterRename restricted_fs_error

fun atomic_write_private ::
  "bytes option \<Rightarrow> bytes \<Rightarrow> write_outcome \<Rightarrow> bytes option \<times> (restricted_fs_error + unit)" where
  "atomic_write_private file contents WriteSucceeded = (Some contents, Inr ())"
| "atomic_write_private file contents (WriteFailedBeforeRename e) = (file, Inl e)"
| "atomic_write_private file contents (WriteFailedAfterRename e) = (Some contents, Inl e)"

definition read_private_file ::
  "bytes option \<Rightarrow> nat \<Rightarrow> restricted_fs_error option \<Rightarrow> restricted_fs_error + bytes" where
  "read_private_file file maximum_bytes fault =
     (case fault of
        Some e \<Rightarrow> Inl e
      | None \<Rightarrow>
          (case file of
             None \<Rightarrow> Inl RestrictedFsError_Io
           | Some contents \<Rightarrow>
               if length contents > maximum_bytes then Inl RestrictedFsError_FileTooLarge
               else Inr contents))"

section \<open>The snapshot envelope\<close>

definition SNAPSHOT_MAGIC :: bytes where
  "SNAPSHOT_MAGIC = [80, 82, 68, 71]"

definition SNAPSHOT_VERSION :: u16 where
  "SNAPSHOT_VERSION = 1"

definition MAGIC_OFFSET :: nat where
  [limits]: "MAGIC_OFFSET = 0"

definition VERSION_OFFSET :: nat where
  [limits]: "VERSION_OFFSET = 4"

definition LENGTH_OFFSET :: nat where
  [limits]: "LENGTH_OFFSET = 6"

definition CHECKSUM_OFFSET :: nat where
  [limits]: "CHECKSUM_OFFSET = 10"

definition CHECKSUM_BYTES :: nat where
  [limits]: "CHECKSUM_BYTES = 32"

definition ENVELOPE_HEADER_BYTES :: nat where
  [limits]: "ENVELOPE_HEADER_BYTES = CHECKSUM_OFFSET + CHECKSUM_BYTES"

definition MAX_ENVELOPE_BYTES :: nat where
  [limits]: "MAX_ENVELOPE_BYTES = ENVELOPE_HEADER_BYTES + MAX_HOST_AUTHORIZATION_SNAPSHOT_BYTES"

datatype grant_store_error =
    GrantStoreError_Io
  | GrantStoreError_SnapshotTooLarge
  | GrantStoreError_InvalidEnvelope
  | GrantStoreError_UnsupportedVersion
  | GrantStoreError_ChecksumMismatch
  | GrantStoreError_InvalidPayload
  | GrantStoreError_HostMismatch
  | GrantStoreError_InjectedFailure

definition slice :: "nat \<Rightarrow> nat \<Rightarrow> bytes \<Rightarrow> bytes" where
  "slice i j bs = take (j - i) (drop i bs)"

definition decode_envelope ::
  "(bytes \<Rightarrow> bytes) \<Rightarrow> (bytes \<Rightarrow> host_authorization_snapshot option) \<Rightarrow> bytes \<Rightarrow> bytes
    \<Rightarrow> grant_store_error + controller_grant_view list" where
  "decode_envelope sha256 decode envelope expected_host_device_id =
     (if length envelope < ENVELOPE_HEADER_BYTES then Inl GrantStoreError_InvalidEnvelope
      else if slice MAGIC_OFFSET VERSION_OFFSET envelope \<noteq> SNAPSHOT_MAGIC
        then Inl GrantStoreError_InvalidEnvelope
      else if (word_of_nat (be_value (slice VERSION_OFFSET LENGTH_OFFSET envelope)) :: u16) \<noteq> SNAPSHOT_VERSION
        then Inl GrantStoreError_UnsupportedVersion
      else
        let payload_length =
          unat (word_of_nat (be_value (slice LENGTH_OFFSET CHECKSUM_OFFSET envelope)) :: u32)
        in if payload_length > MAX_HOST_AUTHORIZATION_SNAPSHOT_BYTES
             then Inl GrantStoreError_SnapshotTooLarge
           else if length envelope \<noteq> ENVELOPE_HEADER_BYTES + payload_length
             then Inl GrantStoreError_InvalidEnvelope
           else
             let expected_checksum = slice CHECKSUM_OFFSET ENVELOPE_HEADER_BYTES envelope;
                 payload = drop ENVELOPE_HEADER_BYTES envelope
             in if sha256 payload \<noteq> expected_checksum then Inl GrantStoreError_ChecksumMismatch
                else bind_res (ok_or GrantStoreError_InvalidPayload (decode payload)) (\<lambda>snapshot.
                  if has_host_device_id snapshot \<noteq> expected_host_device_id
                  then Inl GrantStoreError_HostMismatch
                  else Inr (has_grants snapshot)))"

fun map_read_error :: "restricted_fs_error \<Rightarrow> grant_store_error" where
  "map_read_error RestrictedFsError_FileTooLarge = GrantStoreError_SnapshotTooLarge"
| "map_read_error _ = GrantStoreError_Io"

section \<open>File store\<close>

record file_grant_store =
  fgs_file :: "bytes option"

text \<open>\<open>exists_fails\<close> is the error of \<^verbatim>\<open>try_exists\<close>.\<close>

definition file_load ::
  "(bytes \<Rightarrow> bytes) \<Rightarrow> (bytes \<Rightarrow> host_authorization_snapshot option) \<Rightarrow> bool \<Rightarrow> restricted_fs_error option
    \<Rightarrow> file_grant_store \<Rightarrow> bytes \<Rightarrow> grant_store_error + controller_grant_view list" where
  "file_load sha256 decode exists_fails fault store host_device_id =
     (if exists_fails then Inl GrantStoreError_Io
      else if fgs_file store = None then Inr []
      else bind_res (map_err map_read_error (read_private_file (fgs_file store) MAX_ENVELOPE_BYTES fault))
        (\<lambda>envelope. decode_envelope sha256 decode envelope host_device_id))"

definition file_persist ::
  "(bytes \<Rightarrow> bytes) \<Rightarrow> (host_authorization_snapshot \<Rightarrow> bytes) \<Rightarrow> write_outcome \<Rightarrow> file_grant_store
    \<Rightarrow> bytes \<Rightarrow> controller_grant_view list \<Rightarrow> file_grant_store \<times> (grant_store_error + unit)" where
  "file_persist sha256 encode outcome store host_device_id grants =
     (let payload = encode \<lparr>has_host_device_id = host_device_id, has_grants = grants\<rparr>
      in if length payload > MAX_HOST_AUTHORIZATION_SNAPSHOT_BYTES
           then (store, Inl GrantStoreError_SnapshotTooLarge)
         else if length payload > 4294967295 then (store, Inl GrantStoreError_SnapshotTooLarge)
         else
           let envelope = SNAPSHOT_MAGIC @ u16_to_be SNAPSHOT_VERSION
                 @ u32_to_be (word_of_nat (length payload)) @ sha256 payload @ payload;
               (file, r) = atomic_write_private (fgs_file store) envelope outcome
           in (store\<lparr>fgs_file := file\<rparr>, map_err (\<lambda>_. GrantStoreError_Io) r))"

section \<open>Memory store\<close>

record memory_grant_store =
  mgs_snapshot :: "host_authorization_snapshot option mutex"
  mgs_fail_next_persist :: bool

definition memory_grant_store_new :: memory_grant_store where
  "memory_grant_store_new = \<lparr>mgs_snapshot = Healthy None, mgs_fail_next_persist = False\<rparr>"

definition fail_next_persist :: "memory_grant_store \<Rightarrow> memory_grant_store" where
  "fail_next_persist store = store\<lparr>mgs_fail_next_persist := True\<rparr>"

definition memory_load ::
  "memory_grant_store \<Rightarrow> bytes \<Rightarrow> grant_store_error + controller_grant_view list" where
  "memory_load store host_device_id =
     bind_res (lock_or GrantStoreError_Io (mgs_snapshot store)) (\<lambda>snapshot.
       case snapshot of
         None \<Rightarrow> Inr []
       | Some value \<Rightarrow>
           if has_host_device_id value = host_device_id then Inr (has_grants value)
           else Inl GrantStoreError_HostMismatch)"

definition memory_persist ::
  "(host_authorization_snapshot \<Rightarrow> nat) \<Rightarrow> memory_grant_store \<Rightarrow> bytes \<Rightarrow> controller_grant_view list
    \<Rightarrow> memory_grant_store \<times> (grant_store_error + unit)" where
  "memory_persist encoded_len store host_device_id grants =
     (let store' = store\<lparr>mgs_fail_next_persist := False\<rparr> in
      if mgs_fail_next_persist store then (store', Inl GrantStoreError_InjectedFailure)
      else let snapshot = \<lparr>has_host_device_id = host_device_id, has_grants = grants\<rparr> in
        if encoded_len snapshot > MAX_HOST_AUTHORIZATION_SNAPSHOT_BYTES
          then (store', Inl GrantStoreError_SnapshotTooLarge)
        else case mgs_snapshot store of
          Poisoned _ \<Rightarrow> (store', Inl GrantStoreError_Io)
        | Healthy _ \<Rightarrow> (store'\<lparr>mgs_snapshot := Healthy (Some snapshot)\<rparr>, Inr ()))"

section \<open>The store interface\<close>

record 's grant_store_ops =
  store_load :: "'s \<Rightarrow> bytes \<Rightarrow> grant_store_error + controller_grant_view list"
  store_persist :: "'s \<Rightarrow> bytes \<Rightarrow> controller_grant_view list \<Rightarrow> 's \<times> (grant_store_error + unit)"

text \<open>
  What the registry may rely on.  A successful persist is what the next load returns; after
  a failed one the next load returns what it returned before, or the new snapshot.
\<close>

locale grant_store =
  fixes ops :: "'s grant_store_ops"
  assumes persist_ok: "store_persist ops s h gs = (s', Inr u) \<Longrightarrow> store_load ops s' h = Inr gs"
    and persist_failed: "store_persist ops s h gs = (s', Inl e) \<Longrightarrow>
      store_load ops s' h = store_load ops s h \<or> store_load ops s' h = Inr gs"
begin

text \<open>A chain of snapshots: the store holds the last one whose persist succeeded, or a later one.\<close>

primrec persist_all :: "'s \<Rightarrow> bytes \<Rightarrow> controller_grant_view list list
    \<Rightarrow> 's \<times> (grant_store_error + unit) list" where
  "persist_all s h [] = (s, [])"
| "persist_all s h (gs # rest) =
     (let (s', r) = store_persist ops s h gs; (s'', rs) = persist_all s' h rest in (s'', r # rs))"

lemma load_after_persists:
  "store_load ops s h = Inr gs0 \<Longrightarrow>
     \<exists>gs \<in> set (gs0 # snaps). store_load ops (fst (persist_all s h snaps)) h = Inr gs"
proof (induction snaps arbitrary: s gs0)
  case Nil
  then show ?case by simp
next
  case (Cons gs snaps)
  obtain s' r where p: "store_persist ops s h gs = (s', r)" by fastforce
  have "store_load ops s' h = Inr gs0 \<or> store_load ops s' h = Inr gs"
    using p Cons.prems persist_ok persist_failed by (cases r) fastforce+
  then show ?case
    using Cons.IH [of s' gs0] Cons.IH [of s' gs] p by (auto simp: split_def Let_def)
qed

end

locale atomic_grant_store = grant_store ops
  for ops :: "'s grant_store_ops" +
  assumes persist_atomic: "store_persist ops s h gs = (s', Inl e) \<Longrightarrow>
    store_load ops s' h = store_load ops s h"

definition memory_store :: "(host_authorization_snapshot \<Rightarrow> nat) \<Rightarrow> memory_grant_store grant_store_ops" where
  "memory_store encoded_len = \<lparr>store_load = memory_load, store_persist = memory_persist encoded_len\<rparr>"

text \<open>
  The state of the file store is the file together with what the operating system will make of the writes to come, one outcome for each
  call of \<^verbatim>\<open>persist\<close>; once the list is used up every write succeeds.
\<close>

definition file_store ::
  "(bytes \<Rightarrow> bytes) \<Rightarrow> (host_authorization_snapshot \<Rightarrow> bytes) \<Rightarrow> (bytes \<Rightarrow> host_authorization_snapshot option)
    \<Rightarrow> (file_grant_store \<times> write_outcome list) grant_store_ops" where
  "file_store sha encode decode =
     \<lparr>store_load = (\<lambda>(store, _). file_load sha decode False None store),
      store_persist = (\<lambda>(store, outcomes) host_device_id grants.
        let (store', r) = file_persist sha encode (case outcomes of [] \<Rightarrow> WriteSucceeded | out # _ \<Rightarrow> out)
              store host_device_id grants
        in ((store', tl outcomes), r))\<rparr>"

interpretation memory: atomic_grant_store "memory_store encoded_len" for encoded_len
  by unfold_locales
    (auto simp: memory_store_def memory_persist_def memory_load_def Let_def
      split: if_splits mutex.splits option.splits)

section \<open>The envelope is canonical\<close>

definition envelope_bytes :: "(bytes \<Rightarrow> bytes) \<Rightarrow> bytes \<Rightarrow> bytes" where
  "envelope_bytes sha256 payload = SNAPSHOT_MAGIC @ u16_to_be SNAPSHOT_VERSION
     @ u32_to_be (word_of_nat (length payload)) @ sha256 payload @ payload"

text \<open>What the development relies on of SHA-256 here: a digest has 32 bytes.\<close>

definition digest_length :: "(bytes \<Rightarrow> bytes) \<Rightarrow> bool" where
  "digest_length sha256 \<longleftrightarrow> (\<forall>x. length (sha256 x) = 32)"

lemma envelope_split:
  assumes "42 \<le> length e"
  shows "e = slice 0 4 e @ slice 4 6 e @ slice 6 10 e @ slice 10 42 e @ drop 42 e"
proof -
  have "drop i e = slice i j e @ drop j e" if "i \<le> j" for i j
    using that by (metis append_take_drop_id drop_drop le_add_diff_inverse2 slice_def)
  from this [of 0 4] this [of 4 6] this [of 6 10] this [of 10 42] show ?thesis by simp
qed

lemma length_slice: "j \<le> length e \<Longrightarrow> length (slice i j e) = j - i"
  by (simp add: slice_def)

lemma to_be_of_slice:
  "length b = 2 \<Longrightarrow> u16_to_be (word_of_nat (be_value b)) = b"
  "length c = 4 \<Longrightarrow> u32_to_be (word_of_nat (be_value c)) = c"
  using be_value_bound [of b] be_bytes_be_value [of b] be_value_bound [of c] be_bytes_be_value [of c]
  by (simp_all add: u16_to_be_def u32_to_be_def unsigned_of_nat take_bit_eq_mod)

lemma decode_envelope_iff:
  assumes sha: "digest_length sha256"
  shows "decode_envelope sha256 decode e h = Inr gs \<longleftrightarrow>
    (\<exists>payload. e = envelope_bytes sha256 payload \<and> length payload \<le> MAX_HOST_AUTHORIZATION_SNAPSHOT_BYTES
       \<and> decode payload = Some \<lparr>has_host_device_id = h, has_grants = gs\<rparr>)" (is "?L \<longleftrightarrow> ?R")
proof
  assume ?L
  define len :: u32 where "len = word_of_nat (be_value (slice 6 10 e))"
  define payload where "payload = drop 42 e"
  from \<open>?L\<close> obtain snap where
    *: "42 \<le> length e" "slice 0 4 e = SNAPSHOT_MAGIC"
      "(word_of_nat (be_value (slice 4 6 e)) :: u16) = SNAPSHOT_VERSION"
      "unat len \<le> MAX_HOST_AUTHORIZATION_SNAPSHOT_BYTES" "length e = 42 + unat len"
      "slice 10 42 e = sha256 payload" "decode payload = Some snap"
      "has_host_device_id snap = h" "has_grants snap = gs"
    by (auto simp: decode_envelope_def Let_def len_def payload_def limits bind_res_Inr not_less
        split: if_splits)
  have len: "length payload = unat len" using *(5) by (simp add: payload_def)
  have "u16_to_be SNAPSHOT_VERSION = slice 4 6 e"
    using *(1,3) to_be_of_slice(1) [of "slice 4 6 e"] by (simp add: length_slice)
  moreover have "u32_to_be (word_of_nat (length payload)) = slice 6 10 e"
    using *(1) to_be_of_slice(2) [of "slice 6 10 e"] len by (simp add: length_slice len_def)
  ultimately have "e = envelope_bytes sha256 payload"
    using envelope_split [OF *(1)] *(2,6) by (simp add: envelope_bytes_def payload_def)
  moreover have "snap = \<lparr>has_host_device_id = h, has_grants = gs\<rparr>"
    using *(8,9) by (cases snap) simp
  ultimately show ?R using *(4,7) len by auto
next
  assume ?R
  then obtain payload where p: "e = envelope_bytes sha256 payload"
    "length payload \<le> MAX_HOST_AUTHORIZATION_SNAPSHOT_BYTES"
    "decode payload = Some \<lparr>has_host_device_id = h, has_grants = gs\<rparr>" by blast
  have m: "length SNAPSHOT_MAGIC = 4" by (simp add: SNAPSHOT_MAGIC_def)
  have s: "length (sha256 payload) = 32" using sha by (simp add: digest_length_def)
  have lenw: "unat (word_of_nat (length payload) :: u32) = length payload"
    using p(2) by (simp add: limits unsigned_of_nat take_bit_eq_mod)
  have parts: "slice 0 4 e = SNAPSHOT_MAGIC" "slice 4 6 e = u16_to_be SNAPSHOT_VERSION"
    "slice 6 10 e = u32_to_be (word_of_nat (length payload))" "slice 10 42 e = sha256 payload"
    "drop 42 e = payload" "length e = 42 + length payload"
    using m s by (simp_all add: p(1) envelope_bytes_def slice_def)
  show ?L
    using p(2,3) parts lenw
    by (simp add: decode_envelope_def limits bind_res_Inr)
qed

section \<open>The file store meets the interface\<close>

text \<open>What the development relies on of the protobuf codec: decoding inverts encoding for every snapshot that fits into a file.\<close>

definition snapshot_codec ::
  "(host_authorization_snapshot \<Rightarrow> bytes) \<Rightarrow> (bytes \<Rightarrow> host_authorization_snapshot option) \<Rightarrow> bool" where
  "snapshot_codec encode decode \<longleftrightarrow>
     (\<forall>s. length (encode s) \<le> MAX_HOST_AUTHORIZATION_SNAPSHOT_BYTES \<longrightarrow> decode (encode s) = Some s)"

lemma length_envelope_bytes:
  "digest_length sha256 \<Longrightarrow> length (envelope_bytes sha256 p) = 42 + length p"
  by (simp add: envelope_bytes_def digest_length_def SNAPSHOT_MAGIC_def)

lemma load_envelope:
  assumes "digest_length sha256"
    and "decode (encode \<lparr>has_host_device_id = h, has_grants = gs\<rparr>) = Some \<lparr>has_host_device_id = h, has_grants = gs\<rparr>"
    and "length (encode \<lparr>has_host_device_id = h, has_grants = gs\<rparr>) \<le> MAX_HOST_AUTHORIZATION_SNAPSHOT_BYTES"
    and "fgs_file s = Some (envelope_bytes sha256 (encode \<lparr>has_host_device_id = h, has_grants = gs\<rparr>))"
  shows "file_load sha256 decode False None s h = Inr gs"
proof -
  have "decode_envelope sha256 decode
      (envelope_bytes sha256 (encode \<lparr>has_host_device_id = h, has_grants = gs\<rparr>)) h = Inr gs"
    using assms decode_envelope_iff [OF assms(1)] by auto
  then show ?thesis
    using assms by (simp add: file_load_def read_private_file_def length_envelope_bytes limits)
qed

lemma file_persist_cases:
  obtains (too_large) "file_persist sha256 encode out s h gs = (s, Inl GrantStoreError_SnapshotTooLarge)"
  | (ok) "out = WriteSucceeded" "file_persist sha256 encode out s h gs =
      (s\<lparr>fgs_file := Some (envelope_bytes sha256 (encode \<lparr>has_host_device_id = h, has_grants = gs\<rparr>))\<rparr>, Inr ())"
      "length (encode \<lparr>has_host_device_id = h, has_grants = gs\<rparr>) \<le> MAX_HOST_AUTHORIZATION_SNAPSHOT_BYTES"
  | (before) e where "out = WriteFailedBeforeRename e"
      "file_persist sha256 encode out s h gs = (s, Inl GrantStoreError_Io)"
  | (after) e where "out = WriteFailedAfterRename e" "file_persist sha256 encode out s h gs =
      (s\<lparr>fgs_file := Some (envelope_bytes sha256 (encode \<lparr>has_host_device_id = h, has_grants = gs\<rparr>))\<rparr>,
       Inl GrantStoreError_Io)"
      "length (encode \<lparr>has_host_device_id = h, has_grants = gs\<rparr>) \<le> MAX_HOST_AUTHORIZATION_SNAPSHOT_BYTES"
proof (cases "length (encode \<lparr>has_host_device_id = h, has_grants = gs\<rparr>) \<le> MAX_HOST_AUTHORIZATION_SNAPSHOT_BYTES")
  case True
  show ?thesis
  proof (cases out)
    case WriteSucceeded
    with True ok show ?thesis by (simp add: file_persist_def Let_def envelope_bytes_def limits)
  next
    case (WriteFailedBeforeRename e)
    with True before show ?thesis by (simp add: file_persist_def Let_def limits)
  next
    case (WriteFailedAfterRename e)
    with True after show ?thesis by (simp add: file_persist_def Let_def envelope_bytes_def limits)
  qed
next
  case False
  with too_large show ?thesis by (simp add: file_persist_def Let_def)
qed

lemma file_store_load [simp]: "store_load (file_store sha encode decode) s = file_load sha decode False None (fst s)"
  by (simp add: file_store_def split_def)

lemma file_store_persist:
  assumes "digest_length sha" "snapshot_codec encode decode"
    and "store_persist (file_store sha encode decode) (f, outs) h gs = (s', r)"
  obtains (ok) "r = Inr ()" "file_load sha decode False None (fst s') h = Inr gs"
  | (unchanged) e where "r = Inl e" "fst s' = f"
  | (renamed) e rest where "outs = WriteFailedAfterRename e # rest" "r = Inl GrantStoreError_Io"
      "file_load sha decode False None (fst s') h = Inr gs"
      "store_persist (file_store sha encode decode) (f, []) h gs = ((fst s', []), Inr ())"
proof -
  note load = load_envelope [of sha decode encode h gs, OF assms(1)]
  have codec: "length (encode s) \<le> MAX_HOST_AUTHORIZATION_SNAPSHOT_BYTES \<Longrightarrow> decode (encode s) = Some s" for s
    using assms(2) by (simp add: snapshot_codec_def)
  show thesis
  proof (cases rule: file_persist_cases [of sha encode "case outs of [] \<Rightarrow> WriteSucceeded | out # _ \<Rightarrow> out" f h gs])
    case too_large
    then show thesis using assms(3) unchanged by (auto simp: file_store_def)
  next
    case ok
    then show thesis using assms(3) codec load that(1) by (auto simp: file_store_def)
  next
    case (before e)
    then show thesis using assms(3) unchanged by (auto simp: file_store_def)
  next
    case (after e)
    then obtain rest where "outs = WriteFailedAfterRename e # rest" by (auto split: list.splits)
    moreover have "file_persist sha encode WriteSucceeded f h gs
        = (f\<lparr>fgs_file := Some (envelope_bytes sha (encode \<lparr>has_host_device_id = h, has_grants = gs\<rparr>))\<rparr>, Inr ())"
      using after(3) by (simp add: file_persist_def Let_def envelope_bytes_def limits)
    ultimately show thesis using assms(3) after codec load renamed by (auto simp: file_store_def)
  qed
qed

lemma file_store_is_grant_store:
  assumes "digest_length sha" "snapshot_codec encode decode"
  shows "grant_store (file_store sha encode decode)"
proof
  fix s :: "file_grant_store \<times> write_outcome list" and h gs s' u
  assume "store_persist (file_store sha encode decode) s h gs = (s', Inr u)"
  then have "store_persist (file_store sha encode decode) (fst s, snd s) h gs = (s', Inr u)" by simp
  then show "store_load (file_store sha encode decode) s' h = Inr gs"
    by (rule file_store_persist [OF assms]) auto
next
  fix s :: "file_grant_store \<times> write_outcome list" and h gs s' e
  assume "store_persist (file_store sha encode decode) s h gs = (s', Inl e)"
  then have "store_persist (file_store sha encode decode) (fst s, snd s) h gs = (s', Inl e)" by simp
  then show "store_load (file_store sha encode decode) s' h = store_load (file_store sha encode decode) s h
      \<or> store_load (file_store sha encode decode) s' h = Inr gs"
    by (rule file_store_persist [OF assms]) auto
qed

section \<open>Properties\<close>

text \<open>
  A damaged snapshot is never read: loading yields grants exactly when the file is the envelope of a
  payload of at most 1 MiB, with the right magic, version, length and checksum, that decodes to a
  snapshot of this very Host.  Anything else, including every truncation and every trailing byte, is refused.
\<close>

theorem snapshot_envelope_canonical:
  assumes "digest_length sha256"
  shows "file_load sha256 decode False None s h = Inr gs \<longleftrightarrow>
    (fgs_file s = None \<and> gs = [])
    \<or> (\<exists>payload. fgs_file s = Some (SNAPSHOT_MAGIC @ u16_to_be 1 @ u32_to_be (word_of_nat (length payload))
           @ sha256 payload @ payload)
         \<and> length payload \<le> 1048576 \<and> decode payload = Some \<lparr>has_host_device_id = h, has_grants = gs\<rparr>)"
proof (cases "fgs_file s")
  case None
  then show ?thesis by (auto simp: file_load_def)
next
  case (Some e)
  have "file_load sha256 decode False None s h = Inr gs \<longleftrightarrow>
      length e \<le> MAX_ENVELOPE_BYTES \<and> decode_envelope sha256 decode e h = Inr gs"
    using Some by (auto simp: file_load_def read_private_file_def)
  also have "\<dots> \<longleftrightarrow> (\<exists>payload. e = envelope_bytes sha256 payload \<and> length payload \<le> 1048576
      \<and> decode payload = Some \<lparr>has_host_device_id = h, has_grants = gs\<rparr>)"
    unfolding decode_envelope_iff [OF assms]
    by (auto simp: length_envelope_bytes [OF assms] limits)
  finally show ?thesis
    using Some by (simp add: envelope_bytes_def SNAPSHOT_VERSION_def)
qed

theorem snapshot_envelope_canonical_witness:
  "file_load (\<lambda>_. replicate 32 9) (\<lambda>_. Some \<lparr>has_host_device_id = [1], has_grants = []\<rparr>) False None
     \<lparr>fgs_file = Some (SNAPSHOT_MAGIC @ u16_to_be 1 @ u32_to_be 2 @ replicate 32 9 @ [5, 6])\<rparr> [1] = Inr []"
proof -
  have "digest_length (\<lambda>_. replicate 32 9)" by (simp add: digest_length_def)
  from snapshot_envelope_canonical [OF this] show ?thesis
    by (auto intro!: exI [of _ "[5, 6]"])
qed

text \<open>
  C40. Persisting to a file is all or nothing, and its failures are bounded.  After success the grants can
  be loaded back for the same Host and for no other; after a failure the store answers exactly as
  before, unless the failure came after the rename, when the new snapshot is already in place.
\<close>

theorem file_persist_outcomes:
  assumes "digest_length sha256"
    and "decode (encode \<lparr>has_host_device_id = h, has_grants = gs\<rparr>) = Some \<lparr>has_host_device_id = h, has_grants = gs\<rparr>"
    and "file_persist sha256 encode out s h gs = (s', r)"
  shows "(case r of
       Inr _ \<Rightarrow> file_load sha256 decode False None s' h = Inr gs
         \<and> (h' \<noteq> h \<longrightarrow> file_load sha256 decode False None s' h' = Inl GrantStoreError_HostMismatch)
     | Inl _ \<Rightarrow> file_load sha256 decode False None s' h' = file_load sha256 decode False None s h'
         \<or> (\<exists>e. out = WriteFailedAfterRename e) \<and> file_load sha256 decode False None s' h = Inr gs)"
proof (cases rule: file_persist_cases [of sha256 encode out s h gs])
  case ok
  let ?p = "encode \<lparr>has_host_device_id = h, has_grants = gs\<rparr>"
  have own: "file_load sha256 decode False None s' h = Inr gs"
    using ok assms(3) load_envelope [of sha256 decode encode h gs, OF assms(1,2) ok(3)] by auto
  have "file_load sha256 decode False None s' h' = Inl GrantStoreError_HostMismatch" if "h' \<noteq> h"
  proof -
    have "decode_envelope sha256 decode (envelope_bytes sha256 ?p) h = Inr gs"
      using assms(2) ok(3) decode_envelope_iff [OF assms(1)] by blast
    then have "decode_envelope sha256 decode (envelope_bytes sha256 ?p) h' = Inl GrantStoreError_HostMismatch"
      using that by (auto simp: decode_envelope_def Let_def bind_res_Inr split: if_splits)
    then show ?thesis
      using ok assms(3) by (auto simp: file_load_def read_private_file_def length_envelope_bytes [OF assms(1)] limits)
  qed
  with own ok assms(3) show ?thesis by auto
next
  case (after e)
  then show ?thesis using assms(3) load_envelope [of sha256 decode encode h gs, OF assms(1,2) after(3)] by auto
qed (use assms(3) in auto)

definition example_snapshot :: host_authorization_snapshot where
  "example_snapshot = \<lparr>has_host_device_id = [1], has_grants = []\<rparr>"

theorem file_persist_outcomes_witness:
  "snd (file_persist (\<lambda>_. replicate 32 9) (\<lambda>_. [0]) (WriteFailedAfterRename RestrictedFsError_Io)
      \<lparr>fgs_file = Some []\<rparr> [1] []) = Inl GrantStoreError_Io
   \<and> file_load (\<lambda>_. replicate 32 9) (\<lambda>_. Some example_snapshot) False None
      (fst (file_persist (\<lambda>_. replicate 32 9) (\<lambda>_. [0]) (WriteFailedAfterRename RestrictedFsError_Io)
        \<lparr>fgs_file = Some []\<rparr> [1] [])) [1] = Inr []"
proof -
  define r where "r = file_persist (\<lambda>_. replicate 32 9) (\<lambda>_. [0]) (WriteFailedAfterRename RestrictedFsError_Io)
      \<lparr>fgs_file = Some []\<rparr> [1] []"
  have sha: "digest_length (\<lambda>_. replicate 32 9)" by (simp add: digest_length_def)
  have err: "snd r = Inl GrantStoreError_Io" by (simp add: r_def file_persist_def limits)
  have old: "file_load (\<lambda>_. replicate 32 9) (\<lambda>_. Some example_snapshot) False None \<lparr>fgs_file = Some []\<rparr> [1]
      = Inl GrantStoreError_InvalidEnvelope"
    by (simp add: file_load_def read_private_file_def decode_envelope_def limits)
  have "file_load (\<lambda>_. replicate 32 9) (\<lambda>_. Some example_snapshot) False None (fst r) [1] \<noteq> Inl GrantStoreError_InvalidEnvelope"
    by (simp add: r_def file_persist_def file_load_def read_private_file_def decode_envelope_def limits
        slice_def SNAPSHOT_MAGIC_def SNAPSHOT_VERSION_def u16_to_be_def u32_to_be_def be_bytes_numeral be_value_def
        example_snapshot_def bind_res_def Let_def)
  moreover have p: "file_persist (\<lambda>_. replicate 32 9) (\<lambda>_. [0]) (WriteFailedAfterRename RestrictedFsError_Io)
      \<lparr>fgs_file = Some []\<rparr> [1] [] = (fst r, snd r)" by (simp add: r_def)
  moreover have c: "(\<lambda>_. Some example_snapshot) ((\<lambda>_. [0 :: u8]) \<lparr>has_host_device_id = [1], has_grants = []\<rparr>)
      = Some \<lparr>has_host_device_id = [1], has_grants = []\<rparr>" by (simp add: example_snapshot_def)
  ultimately have "file_load (\<lambda>_. replicate 32 9) (\<lambda>_. Some example_snapshot) False None (fst r) [1] = Inr []"
    using file_persist_outcomes [OF sha c p, of "[1]"] err old by auto
  with err show ?thesis by (simp add: r_def)
qed

end
