(* ===== verification/Validation.thy ===== *)
theory Validation
  imports Wire_Messages
begin

text \<open>
  The validators at the wire boundary, \<^verbatim>\<open>gen/rust/src/validation.rs\<close>.  A body that is a sequence of
  checks, each followed by the question mark operator, is a list given to \<^const>\<open>all_ok\<close>.  The
  protobuf decoder belongs to a package outside the repository and is an argument: it returns
  nothing for bytes it rejects.

  The second half gives each validator a declarative reading: which values it lets through,
  without the order of the checks and without the error values.
\<close>

named_theorems accepted \<open>what each validator lets through\<close>

section \<open>Primitive checks\<close>

datatype validation_error =
    ValidationError_MessageTooLarge
  | ValidationError_InvalidProtocolVersion
  | ValidationError_MissingPayload
  | ValidationError_InvalidLength
  | ValidationError_InvalidEnum
  | ValidationError_InvalidState
  | ValidationError_InvalidUtf8Length
  | ValidationError_InvalidLifetime
  | ValidationError_DuplicateValue

type_synonym validation = "validation_error + unit"

definition validate_protocol_version :: "protocol_version option \<Rightarrow> validation" where
  "validate_protocol_version version =
     bind_res (ok_or ValidationError_InvalidProtocolVersion version) (\<lambda>v.
       if pv_major v \<noteq> PROTOCOL_MAJOR_VERSION
         \<or> checked_sub (pv_minor v) MINIMUM_PROTOCOL_MINOR_VERSION = None
       then Inl ValidationError_InvalidProtocolVersion else Inr ())"

definition validate_nonzero_enum :: "('c \<Rightarrow> i32) \<Rightarrow> 'c option \<Rightarrow> validation" where
  "validate_nonzero_enum code value =
     bind_res (ok_or ValidationError_InvalidEnum value) (\<lambda>v.
       if code v = 0 then Inl ValidationError_InvalidEnum else Inr ())"

definition validate_rendezvous_lifetime :: "u64 \<Rightarrow> u64 \<Rightarrow> validation" where
  "validate_rendezvous_lifetime issued_at expires_at =
     bind_res (ok_or ValidationError_InvalidLifetime (checked_sub expires_at issued_at)) (\<lambda>lifetime.
       if lifetime > PAIRING_RENDEZVOUS_LIFETIME_MS
       then Inl ValidationError_InvalidLifetime else Inr ())"

definition validate_encoded_length :: "bytes \<Rightarrow> nat \<Rightarrow> validation" where
  "validate_encoded_length encoded maximum =
     (if length encoded > maximum then Inl ValidationError_MessageTooLarge else Inr ())"

definition validate_length :: "bytes \<Rightarrow> nat \<Rightarrow> validation" where
  "validate_length value expected =
     (if length value \<noteq> expected then Inl ValidationError_InvalidLength else Inr ())"

definition validate_utf8_length :: "string \<Rightarrow> nat \<Rightarrow> validation" where
  "validate_utf8_length value maximum =
     (if length value > maximum then Inl ValidationError_InvalidUtf8Length else Inr ())"

definition validate_nonempty_utf8_length :: "string \<Rightarrow> nat \<Rightarrow> validation" where
  "validate_nonempty_utf8_length value maximum =
     (if value = [] then Inl ValidationError_InvalidLength else validate_utf8_length value maximum)"

definition validate_generation :: "u64 \<Rightarrow> validation" where
  "validate_generation generation =
     (if generation = 0 then Inl ValidationError_InvalidState else Inr ())"

text \<open>The loop over enumeration values with the set of values already seen.\<close>

fun validate_enum_loop :: "(i32 \<Rightarrow> validation) \<Rightarrow> i32 set \<Rightarrow> i32 list \<Rightarrow> validation" where
  "validate_enum_loop check seen [] = Inr ()"
| "validate_enum_loop check seen (value # rest) =
     bind_res (check value) (\<lambda>_.
       if value \<in> seen then Inl ValidationError_DuplicateValue
       else validate_enum_loop check (insert value seen) rest)"

definition validate_permissions :: "i32 list \<Rightarrow> validation" where
  "validate_permissions permissions =
     validate_enum_loop (\<lambda>v. validate_nonzero_enum session_permission_code (session_permission_of v))
       {} permissions"

section \<open>Messages\<close>

definition validate_device_identity :: "device_identity \<Rightarrow> validation" where
  "validate_device_identity identity = all_ok
     [validate_length (di_device_id identity) DEVICE_ID_BYTES,
      validate_length (di_public_key identity) PUBLIC_KEY_BYTES,
      ensure ValidationError_InvalidEnum
        (public_key_algorithm_of (di_public_key_algorithm identity) = Some PublicKeyAlgorithm_Ed25519),
      validate_nonzero_enum device_platform_code (device_platform_of (di_platform identity)),
      validate_utf8_length (di_display_name identity) MAX_DEVICE_NAME_UTF8_BYTES]"

fun validate_error_details :: "unified_error_details \<Rightarrow> validation" where
  "validate_error_details (UnifiedError_RetryAfter _) = Inr ()"
| "validate_error_details (UnifiedError_Permission value) =
     validate_utf8_length (pd2_permission value) MAX_ERROR_DETAIL_UTF8_BYTES"
| "validate_error_details (UnifiedError_Codec value) =
     all_ok (map (\<lambda>codec. validate_utf8_length codec MAX_ERROR_DETAIL_UTF8_BYTES)
       (cd_supported_codecs value))"
| "validate_error_details (UnifiedError_Transport value) =
     validate_utf8_length (td_transport value) MAX_ERROR_DETAIL_UTF8_BYTES"

definition validate_unified_error :: "unified_error \<Rightarrow> validation" where
  "validate_unified_error error = all_ok
     [validate_nonzero_enum error_code_code (error_code_of (ue_code error)),
      validate_utf8_length (ue_message_key error) MAX_MESSAGE_KEY_UTF8_BYTES,
      validate_utf8_length (ue_request_id error) MAX_REQUEST_ID_UTF8_BYTES,
      case ue_details error of None \<Rightarrow> Inr () | Some details \<Rightarrow> validate_error_details details]"

definition validate_privileged_session_descriptor :: "privileged_session_descriptor \<Rightarrow> validation" where
  "validate_privileged_session_descriptor descriptor =
     bind_res (ok_or ValidationError_InvalidEnum (device_platform_of (psd_platform descriptor)))
       (\<lambda>platform. all_ok
         [ensure ValidationError_InvalidEnum
            (platform = DevicePlatform_Windows \<or> platform = DevicePlatform_Macos),
          validate_nonzero_enum interactive_desktop_kind_code
            (interactive_desktop_kind_of (psd_desktop_kind descriptor)),
          ensure ValidationError_InvalidState
            (\<not> (psd_os_session_id descriptor = 0 \<or> psd_generation descriptor = 0))])"

definition validate_privileged_lease_ref :: "bytes \<Rightarrow> u64 \<Rightarrow> validation" where
  "validate_privileged_lease_ref lease_id generation = all_ok
     [validate_length lease_id PRIVILEGED_LEASE_ID_BYTES, validate_generation generation]"

definition validate_privileged_lease :: "privileged_lease \<Rightarrow> validation" where
  "validate_privileged_lease value = all_ok
     [validate_privileged_lease_ref (please_lease_id value) (please_generation value),
      validate_length (please_session_id value) SESSION_ID_BYTES,
      validate_permissions (please_permissions value),
      validate_nonempty_utf8_length (please_controller_display_name value) MAX_DEVICE_NAME_UTF8_BYTES,
      ensure ValidationError_InvalidLifetime
        (\<not> please_expires_at_unix_ms value \<le> please_issued_at_unix_ms value)]"

definition validate_ice_server :: "privileged_ice_server \<Rightarrow> validation" where
  "validate_ice_server server = all_ok
     ([ensure ValidationError_InvalidLength
         (\<not> (pis_urls server = [] \<or> length (pis_urls server) > MAX_PRIVILEGED_ICE_URLS_PER_SERVER))]
      @ map (\<lambda>url. validate_nonempty_utf8_length url MAX_SIGNALING_ENDPOINT_UTF8_BYTES) (pis_urls server)
      @ [validate_utf8_length (pis_username server) MAX_ERROR_DETAIL_UTF8_BYTES,
         validate_utf8_length (pis_credential server) MAX_ERROR_DETAIL_UTF8_BYTES])"

definition validate_privileged_peer_configuration :: "privileged_peer_configuration \<Rightarrow> validation" where
  "validate_privileged_peer_configuration configuration = all_ok
     ([validate_nonzero_enum privileged_ice_transport_policy_code
         (privileged_ice_transport_policy_of (ppc_ice_transport_policy configuration)),
       ensure ValidationError_InvalidLength
         (\<not> length (ppc_ice_servers configuration) > MAX_PRIVILEGED_ICE_SERVERS)]
      @ map validate_ice_server (ppc_ice_servers configuration))"

definition validate_session_description ::
  "web_rtc_session_description \<Rightarrow> session_description_type \<Rightarrow> validation" where
  "validate_session_description description expected_type = all_ok
     [ensure ValidationError_InvalidState
        (session_description_type_of (wrsd_type description) = Some expected_type),
      validate_nonempty_utf8_length (wrsd_sdp description) MAX_SDP_UTF8_BYTES,
      validate_length (wrsd_dtls_fingerprint_sha256 description) NONCE_OR_HASH_BYTES]"

definition validate_ice_candidate :: "ice_candidate \<Rightarrow> validation" where
  "validate_ice_candidate candidate = all_ok
     [validate_nonempty_utf8_length (ic_candidate candidate) MAX_ICE_CANDIDATE_UTF8_BYTES,
      validate_utf8_length (ic_sdp_mid candidate) MAX_SDP_MID_UTF8_BYTES]"

definition validate_privileged_peer_request ::
  "bytes \<Rightarrow> u64 \<Rightarrow> privileged_peer_configuration option \<Rightarrow> web_rtc_session_description option
    \<Rightarrow> string \<Rightarrow> validation" where
  "validate_privileged_peer_request lease_id generation configuration offer controller_display_name = all_ok
     [validate_privileged_lease_ref lease_id generation,
      bind_res (ok_or ValidationError_MissingPayload configuration) validate_privileged_peer_configuration,
      validate_nonempty_utf8_length controller_display_name MAX_DEVICE_NAME_UTF8_BYTES,
      bind_res (ok_or ValidationError_MissingPayload offer)
        (\<lambda>d. validate_session_description d SessionDescriptionType_Offer)]"

fun validate_command_input :: "privileged_input_command_input \<Rightarrow> validation" where
  "validate_command_input (PrivilegedInputCommand_PointerButton value) = all_ok
     [validate_nonzero_enum pointer_button_code (pointer_button_of (pbe_button value)),
      validate_nonzero_enum button_action_code (button_action_of (pbe_action value))]"
| "validate_command_input (PrivilegedInputCommand_Keyboard value) =
     validate_nonzero_enum keyboard_action_code (keyboard_action_of (ke_action value))"
| "validate_command_input (PrivilegedInputCommand_Text value) =
     validate_utf8_length (tie_text value) MAX_TEXT_INPUT_UTF8_BYTES"
| "validate_command_input (PrivilegedInputCommand_PointerMove _) = Inr ()"
| "validate_command_input (PrivilegedInputCommand_PointerScroll _) = Inr ()"
| "validate_command_input (PrivilegedInputCommand_ReleaseAll _) = Inr ()"

definition validate_privileged_input_command :: "privileged_input_command \<Rightarrow> validation" where
  "validate_privileged_input_command command = all_ok
     [validate_privileged_lease_ref (pic_lease_id command) (pic_generation command),
      bind_res (ok_or ValidationError_MissingPayload (pic_input command)) validate_command_input]"

section \<open>Status snapshots\<close>

definition validate_privileged_bridge_status_snapshot ::
  "privileged_bridge_status_snapshot \<Rightarrow> validation" where
  "validate_privileged_bridge_status_snapshot snapshot =
     bind_res (ok_or ValidationError_InvalidEnum (privileged_bridge_state_of (pbss_state snapshot))) (\<lambda>state.
     if state = PrivilegedBridgeState_Unspecified then Inl ValidationError_InvalidEnum
     else bind_res (validate_utf8_length (pbss_active_controller_display_name snapshot)
       MAX_DEVICE_NAME_UTF8_BYTES) (\<lambda>_.
     if state \<in> {PrivilegedBridgeState_NotInstalled, PrivilegedBridgeState_ApprovalRequired,
         PrivilegedBridgeState_PermissionRequired, PrivilegedBridgeState_UserSessionOnly} then
       ensure ValidationError_InvalidState
         (\<not> (pbss_interactive_session snapshot \<noteq> None \<or> pbss_helper_connected snapshot
            \<or> pbss_active_controller_display_name snapshot \<noteq> [] \<or> pbss_error snapshot \<noteq> None))
     else if state = PrivilegedBridgeState_Ready then all_ok
       [bind_res (ok_or ValidationError_MissingPayload (pbss_interactive_session snapshot))
          validate_privileged_session_descriptor,
        ensure ValidationError_InvalidState
          (\<not> (\<not> pbss_helper_connected snapshot \<or> pbss_active_controller_display_name snapshot \<noteq> []
             \<or> pbss_error snapshot \<noteq> None))]
     else if state = PrivilegedBridgeState_Transitioning then all_ok
       [case pbss_interactive_session snapshot of
          None \<Rightarrow> Inr () | Some session \<Rightarrow> validate_privileged_session_descriptor session,
        ensure ValidationError_InvalidState (\<not> pbss_error snapshot \<noteq> None)]
     else if state = PrivilegedBridgeState_Controlled then all_ok
       [bind_res (ok_or ValidationError_MissingPayload (pbss_interactive_session snapshot))
          validate_privileged_session_descriptor,
        ensure ValidationError_InvalidState
          (\<not> (\<not> pbss_helper_connected snapshot \<or> pbss_active_controller_display_name snapshot = []
             \<or> pbss_error snapshot \<noteq> None))]
     else if state = PrivilegedBridgeState_Failed then all_ok
       [ensure ValidationError_InvalidState
          (\<not> (pbss_helper_connected snapshot \<or> pbss_active_controller_display_name snapshot \<noteq> [])),
        bind_res (ok_or ValidationError_MissingPayload (pbss_error snapshot)) validate_unified_error]
     else Inl ValidationError_InvalidEnum))"

definition validate_session_status :: "session_status \<Rightarrow> validation" where
  "validate_session_status status =
     (if sst_session_id status \<noteq> [] \<and> length (sst_session_id status) \<noteq> SESSION_ID_BYTES
      then Inl ValidationError_InvalidLength
      else bind_res (ok_or ValidationError_InvalidEnum (session_state_of (sst_state status))) (\<lambda>state.
        case state of
          SessionState_Unspecified \<Rightarrow> Inl ValidationError_InvalidEnum
        | SessionState_Idle \<Rightarrow>
            ensure ValidationError_InvalidState
              (\<not> (sst_session_id status \<noteq> [] \<or> sst_error status \<noteq> None))
        | SessionState_Failed \<Rightarrow> all_ok
            [validate_length (sst_session_id status) SESSION_ID_BYTES,
             bind_res (ok_or ValidationError_InvalidState (sst_error status)) validate_unified_error]
        | _ \<Rightarrow> all_ok
            [validate_length (sst_session_id status) SESSION_ID_BYTES,
             ensure ValidationError_InvalidState (\<not> sst_error status \<noteq> None)]))"

definition validate_remote_session_status_snapshot :: "remote_session_status_snapshot \<Rightarrow> validation" where
  "validate_remote_session_status_snapshot snapshot =
     bind_res (ok_or ValidationError_MissingPayload (rsss_session_status snapshot)) (\<lambda>status.
     bind_res (validate_session_status status) (\<lambda>_.
     bind_res (ok_or ValidationError_InvalidEnum (session_state_of (sst_state status))) (\<lambda>state.
     if state = SessionState_Idle then
       (if rsss_controller_device_id snapshot = [] then Inr () else Inl ValidationError_InvalidState)
     else validate_length (rsss_controller_device_id snapshot) DEVICE_ID_BYTES)))"

section \<open>Privileged bridge frames\<close>

definition validate_privileged_bridge_frame_header ::
  "protocol_version option \<Rightarrow> string \<Rightarrow> u64 \<Rightarrow> validation" where
  "validate_privileged_bridge_frame_header version request_id sequence = all_ok
     [validate_protocol_version version,
      validate_utf8_length request_id MAX_REQUEST_ID_UTF8_BYTES,
      ensure ValidationError_InvalidState (sequence \<noteq> 0)]"

fun validate_privileged_bridge_client_payload :: "privileged_bridge_client_frame_payload \<Rightarrow> validation" where
  "validate_privileged_bridge_client_payload (PrivilegedBridgeClientFrame_Authenticate value) = all_ok
     [validate_nonzero_enum privileged_bridge_role_code (privileged_bridge_role_of (pba_role value)),
      validate_length (pba_client_nonce value) PRIVILEGED_BRIDGE_NONCE_BYTES,
      validate_length (pba_client_proof value) PRIVILEGED_BRIDGE_PROOF_BYTES,
      validate_length (pba_executable_sha256 value) EXECUTABLE_SHA256_BYTES,
      ensure ValidationError_InvalidState (pba_os_session_id value \<noteq> 0)]"
| "validate_privileged_bridge_client_payload (PrivilegedBridgeClientFrame_RegisterHelper value) =
     bind_res (ok_or ValidationError_MissingPayload (rphr_session value))
       validate_privileged_session_descriptor"
| "validate_privileged_bridge_client_payload (PrivilegedBridgeClientFrame_AcquireLease value) = all_ok
     [validate_length (aplr_session_id value) SESSION_ID_BYTES,
      validate_generation (aplr_generation value),
      validate_permissions (aplr_permissions value),
      validate_nonempty_utf8_length (aplr_controller_display_name value) MAX_DEVICE_NAME_UTF8_BYTES]"
| "validate_privileged_bridge_client_payload (PrivilegedBridgeClientFrame_RenewLease value) =
     validate_privileged_lease_ref (rplr_lease_id value) (rplr_generation value)"
| "validate_privileged_bridge_client_payload (PrivilegedBridgeClientFrame_ReleaseLease value) =
     validate_privileged_lease_ref (rplr2_lease_id value) (rplr2_generation value)"
| "validate_privileged_bridge_client_payload (PrivilegedBridgeClientFrame_StartPeer value) =
     validate_privileged_peer_request (sppr_lease_id value) (sppr_generation value)
       (sppr_configuration value) (sppr_offer value) (sppr_controller_display_name value)"
| "validate_privileged_bridge_client_payload (PrivilegedBridgeClientFrame_RestartPeer value) =
     validate_privileged_peer_request (rppr_lease_id value) (rppr_generation value)
       (rppr_configuration value) (rppr_offer value) (rppr_controller_display_name value)"
| "validate_privileged_bridge_client_payload (PrivilegedBridgeClientFrame_AddIceCandidate value) = all_ok
     [validate_privileged_lease_ref (apicr_lease_id value) (apicr_generation value),
      bind_res (ok_or ValidationError_MissingPayload (apicr_candidate value)) validate_ice_candidate]"
| "validate_privileged_bridge_client_payload (PrivilegedBridgeClientFrame_SendSecureAttention value) =
     validate_privileged_lease_ref (ssar_lease_id value) (ssar_generation value)"
| "validate_privileged_bridge_client_payload (PrivilegedBridgeClientFrame_InputCommand value) =
     validate_privileged_input_command value"
| "validate_privileged_bridge_client_payload (PrivilegedBridgeClientFrame_ClosePeer value) =
     validate_privileged_lease_ref (cppr_lease_id value) (cppr_generation value)"

fun validate_privileged_bridge_server_payload :: "privileged_bridge_server_frame_payload \<Rightarrow> validation" where
  "validate_privileged_bridge_server_payload (PrivilegedBridgeServerFrame_Challenge value) = all_ok
     [validate_length (pbc_broker_instance_id value) PRIVILEGED_BRIDGE_INSTANCE_ID_BYTES,
      validate_length (pbc_server_nonce value) PRIVILEGED_BRIDGE_NONCE_BYTES]"
| "validate_privileged_bridge_server_payload (PrivilegedBridgeServerFrame_Authenticated value) =
     validate_length (pbad_server_proof value) PRIVILEGED_BRIDGE_PROOF_BYTES"
| "validate_privileged_bridge_server_payload (PrivilegedBridgeServerFrame_HelperRegistered value) =
     bind_res (ok_or ValidationError_MissingPayload (phr_session value))
       validate_privileged_session_descriptor"
| "validate_privileged_bridge_server_payload (PrivilegedBridgeServerFrame_Status value) =
     validate_privileged_bridge_status_snapshot value"
| "validate_privileged_bridge_server_payload (PrivilegedBridgeServerFrame_Lease value) =
     validate_privileged_lease value"
| "validate_privileged_bridge_server_payload (PrivilegedBridgeServerFrame_PeerAnswer value) = all_ok
     [validate_privileged_lease_ref (ppa_lease_id value) (ppa_generation value),
      bind_res (ok_or ValidationError_MissingPayload (ppa_answer value))
        (\<lambda>d. validate_session_description d SessionDescriptionType_Answer)]"
| "validate_privileged_bridge_server_payload (PrivilegedBridgeServerFrame_LocalIceCandidate value) = all_ok
     [validate_privileged_lease_ref (plic_lease_id value) (plic_generation value),
      bind_res (ok_or ValidationError_MissingPayload (plic_candidate value)) validate_ice_candidate]"
| "validate_privileged_bridge_server_payload (PrivilegedBridgeServerFrame_PeerStateChanged value) = all_ok
     [validate_privileged_lease_ref (ppsc_lease_id value) (ppsc_generation value),
      validate_nonzero_enum privileged_peer_state_code (privileged_peer_state_of (ppsc_state value))]"
| "validate_privileged_bridge_server_payload (PrivilegedBridgeServerFrame_ReliableInput value) = all_ok
     [validate_privileged_lease_ref (prie_lease_id value) (prie_generation value),
      validate_encoded_length (prie_encoded_envelope value) MAX_RELIABLE_INPUT_ENVELOPE_BYTES,
      ensure ValidationError_InvalidLength (prie_encoded_envelope value \<noteq> [])]"
| "validate_privileged_bridge_server_payload (PrivilegedBridgeServerFrame_FastPointer value) = all_ok
     [validate_privileged_lease_ref (pfpe_lease_id value) (pfpe_generation value),
      validate_encoded_length (pfpe_encoded_envelope value) MAX_POINTER_FAST_ENVELOPE_BYTES,
      ensure ValidationError_InvalidLength (pfpe_encoded_envelope value \<noteq> [])]"
| "validate_privileged_bridge_server_payload (PrivilegedBridgeServerFrame_CommandAccepted value) =
     validate_privileged_lease_ref (pca_lease_id value) (pca_generation value)"
| "validate_privileged_bridge_server_payload (PrivilegedBridgeServerFrame_Error value) =
     validate_unified_error value"

definition decode_and_validate_privileged_bridge_client_frame ::
  "(bytes \<Rightarrow> privileged_bridge_client_frame option) \<Rightarrow> bytes
    \<Rightarrow> validation_error + privileged_bridge_client_frame" where
  "decode_and_validate_privileged_bridge_client_frame decode encoded =
     bind_res (validate_encoded_length encoded MAX_PRIVILEGED_BRIDGE_FRAME_BYTES) (\<lambda>_.
     bind_res (ok_or ValidationError_InvalidLength (decode encoded)) (\<lambda>frame.
     bind_res (validate_privileged_bridge_frame_header (pbcf_protocol_version frame)
       (pbcf_request_id frame) (pbcf_sequence frame)) (\<lambda>_.
     bind_res (ok_or ValidationError_MissingPayload (pbcf_payload frame)) (\<lambda>payload.
     bind_res (validate_privileged_bridge_client_payload payload) (\<lambda>_. Inr frame)))))"

definition decode_and_validate_privileged_bridge_server_frame ::
  "(bytes \<Rightarrow> privileged_bridge_server_frame option) \<Rightarrow> bytes
    \<Rightarrow> validation_error + privileged_bridge_server_frame" where
  "decode_and_validate_privileged_bridge_server_frame decode encoded =
     bind_res (validate_encoded_length encoded MAX_PRIVILEGED_BRIDGE_FRAME_BYTES) (\<lambda>_.
     bind_res (ok_or ValidationError_InvalidLength (decode encoded)) (\<lambda>frame.
     bind_res (validate_privileged_bridge_frame_header (pbsf_protocol_version frame)
       (pbsf_request_id frame) (pbsf_sequence frame)) (\<lambda>_.
     bind_res (ok_or ValidationError_MissingPayload (pbsf_payload frame)) (\<lambda>payload.
     bind_res (validate_privileged_bridge_server_payload payload) (\<lambda>_. Inr frame)))))"

section \<open>Signaling envelopes\<close>

definition validate_capability_negotiation :: "capability_negotiation \<Rightarrow> validation" where
  "validate_capability_negotiation negotiation = all_ok
     [validate_protocol_version (cn_protocol_version negotiation),
      validate_enum_loop (\<lambda>v. validate_nonzero_enum capability_code (capability_of v)) {}
        (cn_required_capabilities negotiation @ cn_optional_capabilities negotiation)]"

definition is_pairing_code_byte :: "char \<Rightarrow> bool" where
  "is_pairing_code_byte c \<longleftrightarrow> (65 \<le> (of_char c :: nat) \<and> (of_char c :: nat) \<le> 90)
     \<or> (50 \<le> (of_char c :: nat) \<and> (of_char c :: nat) \<le> 55)"

definition validate_desktop_pairing_code :: "string \<Rightarrow> validation" where
  "validate_desktop_pairing_code code =
     (if length code \<noteq> DESKTOP_PAIRING_CODE_BYTES then Inl ValidationError_InvalidLength
      else if \<not> list_all is_pairing_code_byte code then Inl ValidationError_InvalidState
      else Inr ())"

definition validate_pairing_confirmation :: "pairing_confirmation_data \<Rightarrow> validation" where
  "validate_pairing_confirmation value = all_ok
     [validate_length (pcd_controller_device_id value) DEVICE_ID_BYTES,
      validate_length (pcd_host_device_id value) DEVICE_ID_BYTES,
      validate_length (pcd_rendezvous_id value) RENDEZVOUS_ID_BYTES,
      validate_length (pcd_controller_identity_public_key value) PUBLIC_KEY_BYTES,
      validate_length (pcd_host_identity_public_key value) PUBLIC_KEY_BYTES,
      validate_length (pcd_controller_ephemeral_public_key value) PUBLIC_KEY_BYTES,
      validate_length (pcd_host_ephemeral_public_key value) PUBLIC_KEY_BYTES,
      validate_length (pcd_transcript_sha256 value) NONCE_OR_HASH_BYTES]"

definition validate_controller_grant :: "controller_grant \<Rightarrow> validation" where
  "validate_controller_grant grant = all_ok
     [validate_length (cg_grant_id grant) RENDEZVOUS_ID_BYTES,
      validate_length (cg_host_device_id grant) DEVICE_ID_BYTES,
      bind_res (ok_or ValidationError_MissingPayload (cg_controller grant)) validate_device_identity,
      validate_permissions (cg_permissions grant)]"

definition validate_host_pairing_invitation :: "host_pairing_invitation \<Rightarrow> validation" where
  "validate_host_pairing_invitation invitation =
     bind_res (validate_protocol_version (hpi_protocol_version invitation)) (\<lambda>_.
     bind_res (ok_or ValidationError_InvalidEnum (pairing_invitation_kind_of (hpi_kind invitation))) (\<lambda>kind.
     all_ok
       [validate_nonzero_enum pairing_invitation_kind_code (pairing_invitation_kind_of (hpi_kind invitation)),
        validate_length (hpi_rendezvous_id invitation) RENDEZVOUS_ID_BYTES,
        bind_res (ok_or ValidationError_MissingPayload (hpi_host_identity invitation)) validate_device_identity,
        validate_length (hpi_host_public_key_fingerprint_sha256 invitation) NONCE_OR_HASH_BYTES,
        validate_length (hpi_host_ephemeral_public_key invitation) PUBLIC_KEY_BYTES,
        validate_utf8_length (hpi_signaling_endpoint invitation) MAX_SIGNALING_ENDPOINT_UTF8_BYTES,
        if kind = PairingInvitationKind_Qr \<and> hpi_pairing_code invitation = [] then Inr ()
        else if kind = PairingInvitationKind_DesktopCode
          then validate_desktop_pairing_code (hpi_pairing_code invitation)
        else Inl ValidationError_InvalidState,
        validate_rendezvous_lifetime (hpi_issued_at_unix_ms invitation) (hpi_expires_at_unix_ms invitation)]))"

definition validate_controller_pairing_hello :: "controller_pairing_hello \<Rightarrow> validation" where
  "validate_controller_pairing_hello hello = all_ok
     [validate_length (cph_rendezvous_id hello) RENDEZVOUS_ID_BYTES,
      bind_res (ok_or ValidationError_MissingPayload (cph_identity hello)) validate_device_identity,
      validate_length (cph_ephemeral_public_key hello) PUBLIC_KEY_BYTES,
      validate_length (cph_transcript_sha256 hello) NONCE_OR_HASH_BYTES,
      validate_length (cph_signature hello) SIGNATURE_BYTES]"

definition validate_encrypted_pairing_envelope :: "encrypted_pairing_envelope \<Rightarrow> validation" where
  "validate_encrypted_pairing_envelope envelope = all_ok
     [validate_protocol_version (epe_protocol_version envelope),
      validate_length (epe_rendezvous_id envelope) RENDEZVOUS_ID_BYTES,
      validate_nonzero_enum pairing_direction_code (pairing_direction_of (epe_direction envelope)),
      ensure ValidationError_InvalidLength
        (\<not> (epe_sequence envelope = 0 \<or> epe_ciphertext envelope = []
           \<or> length (epe_ciphertext envelope) > MAX_PAIRING_CIPHERTEXT_BYTES))]"

fun validate_pairing_payload :: "pairing_message_payload \<Rightarrow> validation" where
  "validate_pairing_payload (PairingMessage_QrRendezvous value) = all_ok
     [validate_length (qpr_rendezvous_id value) RENDEZVOUS_ID_BYTES,
      bind_res (ok_or ValidationError_MissingPayload (qpr_host_identity value)) validate_device_identity,
      validate_length (qpr_host_public_key_fingerprint_sha256 value) NONCE_OR_HASH_BYTES,
      validate_length (qpr_host_ephemeral_public_key value) PUBLIC_KEY_BYTES,
      validate_utf8_length (qpr_signaling_endpoint value) MAX_SIGNALING_ENDPOINT_UTF8_BYTES,
      validate_rendezvous_lifetime (qpr_issued_at_unix_ms value) (qpr_expires_at_unix_ms value)]"
| "validate_pairing_payload (PairingMessage_DesktopRendezvous value) = all_ok
     [validate_length (dpr_rendezvous_id value) RENDEZVOUS_ID_BYTES,
      ensure ValidationError_InvalidLength (length (dpr_pairing_code value) = DESKTOP_PAIRING_CODE_BYTES),
      ensure ValidationError_InvalidState (list_all is_pairing_code_byte (dpr_pairing_code value)),
      bind_res (ok_or ValidationError_MissingPayload (dpr_host_identity value)) validate_device_identity,
      validate_length (dpr_host_ephemeral_public_key value) PUBLIC_KEY_BYTES,
      validate_rendezvous_lifetime (dpr_issued_at_unix_ms value) (dpr_expires_at_unix_ms value)]"
| "validate_pairing_payload (PairingMessage_Hello value) = all_ok
     [validate_length (ph_rendezvous_id value) RENDEZVOUS_ID_BYTES,
      bind_res (ok_or ValidationError_MissingPayload (ph_identity value)) validate_device_identity,
      validate_length (ph_ephemeral_public_key value) PUBLIC_KEY_BYTES]"
| "validate_pairing_payload (PairingMessage_Confirmation value) = validate_pairing_confirmation value"
| "validate_pairing_payload (PairingMessage_Decision value) = all_ok
     [validate_nonzero_enum pairing_decision_status_code (pairing_decision_status_of (pd_status value)),
      case pd_controller value of None \<Rightarrow> Inr () | Some identity \<Rightarrow> validate_device_identity identity,
      case pd_confirmation value of None \<Rightarrow> Inr () | Some c \<Rightarrow> validate_pairing_confirmation c,
      case pd_grant value of None \<Rightarrow> Inr () | Some grant \<Rightarrow> validate_controller_grant grant]"
| "validate_pairing_payload (PairingMessage_HostInvitation value) = validate_host_pairing_invitation value"
| "validate_pairing_payload (PairingMessage_ControllerHello value) = validate_controller_pairing_hello value"
| "validate_pairing_payload (PairingMessage_EncryptedEnvelope value) =
     validate_encrypted_pairing_envelope value"

definition validate_pairing_message :: "pairing_message \<Rightarrow> validation" where
  "validate_pairing_message message =
     bind_res (ok_or ValidationError_MissingPayload (pm_payload message)) validate_pairing_payload"

definition validate_session_auth_base ::
  "bytes \<Rightarrow> bytes \<Rightarrow> bytes \<Rightarrow> bytes \<Rightarrow> u64 \<Rightarrow> u64 \<Rightarrow> i32 list \<Rightarrow> bytes \<Rightarrow> bytes \<Rightarrow> bytes
    \<Rightarrow> validation" where
  "validate_session_auth_base controller_device_id host_device_id session_id nonce issued_at expires_at
     permissions offer_hash controller_fingerprint signature = all_ok
     [validate_length controller_device_id DEVICE_ID_BYTES,
      validate_length host_device_id DEVICE_ID_BYTES,
      validate_length session_id SESSION_ID_BYTES,
      validate_length nonce NONCE_OR_HASH_BYTES,
      validate_length offer_hash NONCE_OR_HASH_BYTES,
      validate_length controller_fingerprint NONCE_OR_HASH_BYTES,
      validate_length signature SIGNATURE_BYTES,
      validate_permissions permissions,
      ensure ValidationError_InvalidLifetime (\<not> expires_at < issued_at)]"

fun validate_session_auth_payload :: "session_authentication_payload \<Rightarrow> validation" where
  "validate_session_auth_payload (SessionAuthentication_Offer value) =
     validate_session_auth_base (soa_controller_device_id value) (soa_host_device_id value)
       (soa_session_id value) (soa_nonce value) (soa_issued_at_unix_ms value)
       (soa_expires_at_unix_ms value) (soa_requested_permissions value) (soa_offer_sha256 value)
       (soa_controller_dtls_fingerprint_sha256 value) (soa_signature value)"
| "validate_session_auth_payload (SessionAuthentication_Answer value) = all_ok
     [validate_session_auth_base (saa_controller_device_id value) (saa_host_device_id value)
       (saa_session_id value) (saa_nonce value) (saa_issued_at_unix_ms value)
       (saa_expires_at_unix_ms value) (saa_requested_permissions value) (saa_offer_sha256 value)
       (saa_controller_dtls_fingerprint_sha256 value) (saa_signature value),
      validate_length (saa_answer_sha256 value) NONCE_OR_HASH_BYTES,
      validate_length (saa_host_dtls_fingerprint_sha256 value) NONCE_OR_HASH_BYTES]"
| "validate_session_auth_payload (SessionAuthentication_Reconnect value) = all_ok
     [validate_session_auth_base (sra_controller_device_id value) (sra_host_device_id value)
       (sra_session_id value) (sra_nonce value) (sra_issued_at_unix_ms value)
       (sra_expires_at_unix_ms value) (sra_requested_permissions value) (sra_offer_sha256 value)
       (sra_controller_dtls_fingerprint_sha256 value) (sra_signature value),
      validate_length (sra_answer_sha256 value) NONCE_OR_HASH_BYTES,
      validate_length (sra_host_dtls_fingerprint_sha256 value) NONCE_OR_HASH_BYTES]"

definition validate_session_authentication :: "session_authentication \<Rightarrow> validation" where
  "validate_session_authentication authentication =
     bind_res (ok_or ValidationError_MissingPayload (sau_payload authentication))
       validate_session_auth_payload"

fun validate_webrtc_payload :: "web_rtc_negotiation_payload \<Rightarrow> validation" where
  "validate_webrtc_payload (WebRtcNegotiation_Description value) = all_ok
     [validate_length (wrsd_dtls_fingerprint_sha256 value) NONCE_OR_HASH_BYTES,
      validate_nonzero_enum session_description_type_code (session_description_type_of (wrsd_type value)),
      validate_utf8_length (wrsd_sdp value) MAX_SDP_UTF8_BYTES]"
| "validate_webrtc_payload (WebRtcNegotiation_IceCandidate value) = all_ok
     [validate_utf8_length (ic_candidate value) MAX_ICE_CANDIDATE_UTF8_BYTES,
      validate_utf8_length (ic_sdp_mid value) MAX_SDP_MID_UTF8_BYTES]"
| "validate_webrtc_payload (WebRtcNegotiation_EndOfCandidates _) = Inr ()"

definition validate_webrtc_negotiation :: "web_rtc_negotiation \<Rightarrow> validation" where
  "validate_webrtc_negotiation negotiation =
     bind_res (ok_or ValidationError_MissingPayload (wrn_payload negotiation)) (\<lambda>payload. all_ok
       [validate_length (wrn_session_id negotiation) SESSION_ID_BYTES,
        validate_webrtc_payload payload])"

fun validate_signaling_payload :: "signaling_envelope_payload \<Rightarrow> validation" where
  "validate_signaling_payload (SignalingEnvelope_CapabilityNegotiation value) =
     validate_capability_negotiation value"
| "validate_signaling_payload (SignalingEnvelope_Pairing value) = validate_pairing_message value"
| "validate_signaling_payload (SignalingEnvelope_SessionAuthentication value) =
     validate_session_authentication value"
| "validate_signaling_payload (SignalingEnvelope_WebrtcNegotiation value) =
     validate_webrtc_negotiation value"
| "validate_signaling_payload (SignalingEnvelope_SessionStatus value) = validate_session_status value"
| "validate_signaling_payload (SignalingEnvelope_Error value) = validate_unified_error value"

definition validate_signaling_envelope :: "signaling_envelope \<Rightarrow> validation" where
  "validate_signaling_envelope envelope =
     bind_res (validate_protocol_version (se_protocol_version envelope)) (\<lambda>_.
     bind_res (ok_or ValidationError_MissingPayload (se_payload envelope)) (\<lambda>payload. all_ok
       [validate_length (se_sender_device_id envelope) DEVICE_ID_BYTES,
        validate_length (se_recipient_device_id envelope) DEVICE_ID_BYTES,
        validate_utf8_length (se_request_id envelope) MAX_REQUEST_ID_UTF8_BYTES,
        validate_signaling_payload payload]))"

definition decode_and_validate_signaling_envelope ::
  "(bytes \<Rightarrow> signaling_envelope option) \<Rightarrow> bytes \<Rightarrow> validation_error + signaling_envelope" where
  "decode_and_validate_signaling_envelope decode encoded =
     bind_res (validate_encoded_length encoded MAX_SIGNALING_ENVELOPE_BYTES) (\<lambda>_.
     bind_res (ok_or ValidationError_InvalidLength (decode encoded)) (\<lambda>envelope.
     bind_res (validate_signaling_envelope envelope) (\<lambda>_. Inr envelope)))"

section \<open>Input envelopes\<close>

fun validate_reliable_event :: "reliable_input_envelope_event \<Rightarrow> validation" where
  "validate_reliable_event (ReliableInputEnvelope_PointerButton value) = all_ok
     [validate_nonzero_enum pointer_button_code (pointer_button_of (pbe_button value)),
      validate_nonzero_enum button_action_code (button_action_of (pbe_action value))]"
| "validate_reliable_event (ReliableInputEnvelope_Keyboard value) =
     validate_nonzero_enum keyboard_action_code (keyboard_action_of (ke_action value))"
| "validate_reliable_event (ReliableInputEnvelope_Text value) =
     validate_utf8_length (tie_text value) MAX_TEXT_INPUT_UTF8_BYTES"
| "validate_reliable_event (ReliableInputEnvelope_SessionControl value) =
     validate_nonzero_enum session_control_action_code (session_control_action_of (sce_action value))"
| "validate_reliable_event (ReliableInputEnvelope_ReleaseAllInput _) = Inr ()"

definition decode_and_validate_reliable_input_envelope ::
  "(bytes \<Rightarrow> reliable_input_envelope option) \<Rightarrow> bytes \<Rightarrow> validation_error + reliable_input_envelope" where
  "decode_and_validate_reliable_input_envelope decode encoded =
     bind_res (validate_encoded_length encoded MAX_RELIABLE_INPUT_ENVELOPE_BYTES) (\<lambda>_.
     bind_res (ok_or ValidationError_InvalidLength (decode encoded)) (\<lambda>envelope.
     bind_res (validate_protocol_version (rie_protocol_version envelope)) (\<lambda>_.
     bind_res (ok_or ValidationError_MissingPayload (rie_event envelope)) (\<lambda>event.
     bind_res (validate_length (rie_session_id envelope) SESSION_ID_BYTES) (\<lambda>_.
     bind_res (validate_reliable_event event) (\<lambda>_. Inr envelope))))))"

definition decode_and_validate_pointer_fast_envelope ::
  "(bytes \<Rightarrow> pointer_fast_envelope option) \<Rightarrow> bytes \<Rightarrow> validation_error + pointer_fast_envelope" where
  "decode_and_validate_pointer_fast_envelope decode encoded =
     bind_res (validate_encoded_length encoded MAX_POINTER_FAST_ENVELOPE_BYTES) (\<lambda>_.
     bind_res (ok_or ValidationError_InvalidLength (decode encoded)) (\<lambda>envelope.
     bind_res (validate_protocol_version (pfe_protocol_version envelope)) (\<lambda>_.
     bind_res (ok_or ValidationError_MissingPayload (pfe_event envelope)) (\<lambda>_.
     bind_res (validate_length (pfe_session_id envelope) SESSION_ID_BYTES) (\<lambda>_. Inr envelope)))))"

section \<open>What the validators let through\<close>

declare all_ok.simps [simp del]

lemma all_ok_simps [accepted]:
  "all_ok [] = Inr u \<longleftrightarrow> True"
  "all_ok (r # rs) = Inr u \<longleftrightarrow> r = Inr () \<and> all_ok rs = Inr ()"
  by (auto simp: all_ok.simps split: sum.splits)

lemma all_ok_map [accepted]: "all_ok (map f xs) = Inr u \<longleftrightarrow> (\<forall>x \<in> set xs. f x = Inr ())"
  by (auto simp: all_ok_Inr)

lemma all_ok_append_iff [accepted]: "all_ok (rs @ ts) = Inr u \<longleftrightarrow> all_ok rs = Inr () \<and> all_ok ts = Inr ()"
  by (auto simp: all_ok_Inr)

lemma option_check [accepted]:
  "bind_res (ok_or e v) f = Inr u \<longleftrightarrow> (\<exists>x. v = Some x \<and> f x = Inr u)"
  by (cases v) auto

definition version_ok :: "protocol_version option \<Rightarrow> bool" where
  "version_ok v \<longleftrightarrow> (\<exists>w. v = Some w \<and> pv_major w = 1)"

lemma validate_primitives [accepted]:
  "validate_encoded_length bs n = Inr u \<longleftrightarrow> length bs \<le> n"
  "validate_length bs n = Inr u \<longleftrightarrow> length bs = n"
  "validate_utf8_length s n = Inr u \<longleftrightarrow> length s \<le> n"
  "validate_nonempty_utf8_length s n = Inr u \<longleftrightarrow> s \<noteq> [] \<and> length s \<le> n"
  "validate_generation g = Inr u \<longleftrightarrow> g \<noteq> 0"
  "validate_protocol_version v = Inr u \<longleftrightarrow> version_ok v"
  by (auto simp: validate_encoded_length_def validate_length_def validate_utf8_length_def version_ok_def
      validate_nonempty_utf8_length_def validate_generation_def validate_protocol_version_def
      checked_sub_def limits option_check split: if_splits)

lemma validate_rendezvous_lifetime_iff [accepted]:
  "validate_rendezvous_lifetime i e = Inr u \<longleftrightarrow> i \<le> e \<and> e - i \<le> PAIRING_RENDEZVOUS_LIFETIME_MS"
  by (auto simp: validate_rendezvous_lifetime_def checked_sub_def not_less)

context wire_enum
begin

lemma nonzero_iff [accepted]:
  "validate_nonzero_enum to_i32 (of_i32 v) = Inr u \<longleftrightarrow> v \<in> range to_i32 - {0}"
  by (auto simp: validate_nonzero_enum_def option_check)

end

lemma validate_enum_loop_iff:
  "validate_enum_loop check seen vs = Inr u \<longleftrightarrow>
     (\<forall>v \<in> set vs. check v = Inr ()) \<and> distinct vs \<and> set vs \<inter> seen = {}"
proof (induction vs arbitrary: seen)
  case Nil
  then show ?case by simp
next
  case (Cons v vs)
  then show ?case by (cases "check v") auto
qed

lemma validate_permissions_iff [accepted]:
  "validate_permissions ps = Inr u \<longleftrightarrow> distinct ps \<and> set ps \<subseteq> {1, 2}"
proof -
  have univ: "(UNIV :: session_permission set) = {SessionPermission_Unspecified,
      SessionPermission_ViewScreen, SessionPermission_ControlInput}"
    using session_permission.exhaust by auto
  have "range session_permission_code - {0} = {1, 2}" unfolding univ by auto
  then show ?thesis
    by (auto simp: validate_permissions_def validate_enum_loop_iff session_permission.nonzero_iff
        simp del: Diff_iff)
qed

definition identity_ok :: "device_identity \<Rightarrow> bool" where
  "identity_ok d \<longleftrightarrow> length (di_device_id d) = 32 \<and> length (di_public_key d) = 32
     \<and> di_public_key_algorithm d = public_key_algorithm_code PublicKeyAlgorithm_Ed25519
     \<and> di_platform d \<in> range device_platform_code - {0} \<and> length (di_display_name d) \<le> 128"

lemma validate_device_identity_iff [accepted]: "validate_device_identity d = Inr u \<longleftrightarrow> identity_ok d"
  by (auto simp: validate_device_identity_def accepted identity_ok_def limits)

definition lease_ref_ok :: "bytes \<Rightarrow> u64 \<Rightarrow> bool" where
  "lease_ref_ok i g \<longleftrightarrow> length i = 16 \<and> g \<noteq> 0"

lemma validate_privileged_lease_ref_iff [accepted]:
  "validate_privileged_lease_ref i g = Inr u \<longleftrightarrow> lease_ref_ok i g"
  by (auto simp: validate_privileged_lease_ref_def accepted lease_ref_ok_def limits)

definition descriptor_ok :: "privileged_session_descriptor \<Rightarrow> bool" where
  "descriptor_ok d \<longleftrightarrow>
     psd_platform d \<in> {device_platform_code DevicePlatform_Windows, device_platform_code DevicePlatform_Macos}
     \<and> psd_desktop_kind d \<in> range interactive_desktop_kind_code - {0}
     \<and> psd_os_session_id d \<noteq> 0 \<and> psd_generation d \<noteq> 0"

lemma validate_descriptor_iff [accepted]:
  "validate_privileged_session_descriptor d = Inr u \<longleftrightarrow> descriptor_ok d"
  by (auto simp: validate_privileged_session_descriptor_def accepted descriptor_ok_def
      device_platform.code_inject simp del: device_platform_code.simps)

definition auth_base_ok ::
  "bytes \<Rightarrow> bytes \<Rightarrow> bytes \<Rightarrow> bytes \<Rightarrow> u64 \<Rightarrow> u64 \<Rightarrow> i32 list \<Rightarrow> bytes \<Rightarrow> bytes \<Rightarrow> bytes \<Rightarrow> bool" where
  "auth_base_ok c h s n i e ps oh fp sig \<longleftrightarrow> length c = 32 \<and> length h = 32 \<and> length s = 16 \<and> length n = 32
     \<and> length oh = 32 \<and> length fp = 32 \<and> length sig = 64 \<and> distinct ps \<and> set ps \<subseteq> {1, 2} \<and> i \<le> e"

lemma validate_session_auth_base_iff [accepted]:
  "validate_session_auth_base c h s n i e ps oh fp sig = Inr u \<longleftrightarrow> auth_base_ok c h s n i e ps oh fp sig"
  by (auto simp: validate_session_auth_base_def accepted auth_base_ok_def limits not_less)

definition status_fields_ok :: "session_status \<Rightarrow> session_state \<Rightarrow> bool" where
  "status_fields_ok st state \<longleftrightarrow> state \<noteq> SessionState_Unspecified
     \<and> (if state = SessionState_Idle then sst_session_id st = [] \<and> sst_error st = None
        else length (sst_session_id st) = 16
          \<and> (if state = SessionState_Failed
             then (\<exists>e. sst_error st = Some e \<and> validate_unified_error e = Inr ())
             else sst_error st = None))"

lemma validate_session_status_iff:
  "validate_session_status st = Inr u \<longleftrightarrow>
     (\<exists>state. sst_state st = session_state_code state \<and> status_fields_ok st state)"
proof (cases "session_state_of (sst_state st)")
  case None
  then have "validate_session_status st \<noteq> Inr u"
    by (simp add: validate_session_status_def)
  with None show ?thesis by (auto simp: session_state.unknown_iff image_iff)
next
  case (Some state)
  have "validate_session_status st = Inr () \<longleftrightarrow> status_fields_ok st state"
    unfolding validate_session_status_def Some
    by (cases state) (auto simp: accepted limits status_fields_ok_def)
  then show ?thesis
    using Some by (auto simp: session_state.code_inject simp del: session_state_code.simps)
qed

section \<open>Properties\<close>

text \<open>
  A remote-session status that is published is bound to its peer exactly when a session
  exists: idle shows no session, no controller and no error; every other state names a 16-byte session and a
  32-byte controller; only a failed session carries an error, and it must.
\<close>

theorem remote_status_consistent:
  "validate_remote_session_status_snapshot s = Inr () \<longleftrightarrow>
     (\<exists>st state. rsss_session_status s = Some st \<and> sst_state st = session_state_code state
        \<and> state \<noteq> SessionState_Unspecified
        \<and> (if state = SessionState_Idle
           then sst_session_id st = [] \<and> rsss_controller_device_id s = [] \<and> sst_error st = None
           else length (sst_session_id st) = 16 \<and> length (rsss_controller_device_id s) = 32
             \<and> (if state = SessionState_Failed
                then (\<exists>e. sst_error st = Some e \<and> validate_unified_error e = Inr ())
                else sst_error st = None)))"
proof (cases "rsss_session_status s")
  case None
  then show ?thesis by (simp add: validate_remote_session_status_snapshot_def)
next
  case (Some st)
  have "validate_remote_session_status_snapshot s = Inr () \<longleftrightarrow>
      validate_session_status st = Inr ()
      \<and> (\<exists>state. sst_state st = session_state_code state
          \<and> (if state = SessionState_Idle then rsss_controller_device_id s = []
             else length (rsss_controller_device_id s) = 32))"
    using Some
    by (auto simp: validate_remote_session_status_snapshot_def bind_res_Inr accepted limits
        simp del: session_state_code.simps split: if_splits)
  also have "\<dots> \<longleftrightarrow> (\<exists>state. sst_state st = session_state_code state \<and> status_fields_ok st state
      \<and> (if state = SessionState_Idle then rsss_controller_device_id s = []
         else length (rsss_controller_device_id s) = 32))"
    using validate_session_status_iff [of st "()"] session_state.code_inject by metis
  finally have main: "validate_remote_session_status_snapshot s = Inr () \<longleftrightarrow> \<dots>" .
  show ?thesis
    unfolding main Some option.inject
    by (simp add: status_fields_ok_def del: session_state_code.simps cong: conj_cong if_cong)
      (intro iff_exI, auto simp del: session_state_code.simps)
qed

text \<open>
  Only well-formed session authentication crosses the signaling boundary: an accepted envelope is
  what the protobuf decoder returned for a message of at most 256 KiB in the supported protocol version, with
  32-byte endpoints, and an offer inside it has every field of its signed transcript at the
  required length, no repeated or unknown permission and no negative lifetime.
\<close>

theorem signaling_offer_boundary:
  assumes "decode_and_validate_signaling_envelope decode bs = Inr env"
    and "se_payload env = Some (SignalingEnvelope_SessionAuthentication
           \<lparr>sau_payload = Some (SessionAuthentication_Offer a)\<rparr>)"
  shows "decode bs = Some env \<and> length bs \<le> 262144 \<and> version_ok (se_protocol_version env)
    \<and> length (se_sender_device_id env) = 32 \<and> length (se_recipient_device_id env) = 32
    \<and> length (soa_controller_device_id a) = 32 \<and> length (soa_host_device_id a) = 32
    \<and> length (soa_session_id a) = 16 \<and> length (soa_nonce a) = 32 \<and> length (soa_offer_sha256 a) = 32
    \<and> length (soa_controller_dtls_fingerprint_sha256 a) = 32 \<and> length (soa_signature a) = 64
    \<and> distinct (soa_requested_permissions a) \<and> set (soa_requested_permissions a) \<subseteq> {1, 2}
    \<and> soa_issued_at_unix_ms a \<le> soa_expires_at_unix_ms a"
  using assms
  by (auto simp: decode_and_validate_signaling_envelope_def validate_signaling_envelope_def
      validate_session_authentication_def bind_res_Inr accepted auth_base_ok_def limits)

definition example_offer :: session_offer_authentication where
  "example_offer = \<lparr>soa_controller_device_id = replicate 32 1, soa_host_device_id = replicate 32 2,
     soa_session_id = replicate 16 3, soa_nonce = replicate 32 4, soa_issued_at_unix_ms = 1000,
     soa_expires_at_unix_ms = 21000, soa_requested_permissions = [1, 2],
     soa_offer_sha256 = replicate 32 5, soa_controller_dtls_fingerprint_sha256 = replicate 32 6,
     soa_signature = replicate 64 7\<rparr>"

definition example_envelope :: signaling_envelope where
  "example_envelope = \<lparr>se_protocol_version = Some \<lparr>pv_major = 1, pv_minor = 0\<rparr>,
     se_sender_device_id = replicate 32 1, se_recipient_device_id = replicate 32 2,
     se_request_id = ''r'', se_sent_at_unix_ms = 1000,
     se_payload = Some (SignalingEnvelope_SessionAuthentication
       \<lparr>sau_payload = Some (SessionAuthentication_Offer example_offer)\<rparr>)\<rparr>"

theorem signaling_offer_boundary_witness:
  "decode_and_validate_signaling_envelope (\<lambda>_. Some example_envelope) [1] = Inr example_envelope
   \<and> set (soa_requested_permissions example_offer) \<subseteq> {1, 2}"
proof -
  have ok: "decode_and_validate_signaling_envelope (\<lambda>_. Some example_envelope) [1] = Inr example_envelope"
    by (simp add: decode_and_validate_signaling_envelope_def validate_signaling_envelope_def bind_res_Inr
        validate_session_authentication_def accepted auth_base_ok_def example_envelope_def example_offer_def
        version_ok_def limits)
  have payload: "se_payload example_envelope = Some (SignalingEnvelope_SessionAuthentication
      \<lparr>sau_payload = Some (SessionAuthentication_Offer example_offer)\<rparr>)"
    by (simp add: example_envelope_def)
  from signaling_offer_boundary [OF ok payload] ok show ?thesis by blast
qed

end
