(* ===== verification/Transcript.thy ===== *)
theory Transcript
  imports Wire_Messages
begin

text \<open>
  Canonical Transcript V1, \<^verbatim>\<open>gen/rust/src/canonical_transcript.rs\<close>, the byte strings that are signed,
  and the device identifier of \<^verbatim>\<open>gen/rust/src/identity_derivation.rs\<close>.  SHA-256 belongs to a
  package outside the repository; where it is used it is an argument.
\<close>

section \<open>Format\<close>

definition MAGIC :: bytes where
  "MAGIC = [80, 82, 68, 84]"

definition VERSION :: u16 where
  "VERSION = 1"

definition HEADER_LENGTH :: nat where
  [limits]: "HEADER_LENGTH = 10"

definition FIELD_HEADER_LENGTH :: nat where
  [limits]: "FIELD_HEADER_LENGTH = 6"

definition MAX_FIELDS :: nat where
  [limits]: "MAX_FIELDS = 16"

definition MAX_FIELD_LENGTH :: nat where
  [limits]: "MAX_FIELD_LENGTH = 1024"

definition MAX_TRANSCRIPT_LENGTH :: nat where
  [limits]: "MAX_TRANSCRIPT_LENGTH = 4096"

datatype transcript_purpose =
    TranscriptPurpose_PairingSas
  | TranscriptPurpose_SessionOffer
  | TranscriptPurpose_SessionAnswer
  | TranscriptPurpose_SessionReconnect

primrec purpose_code :: "transcript_purpose \<Rightarrow> u16" where
  "purpose_code TranscriptPurpose_PairingSas = 1"
| "purpose_code TranscriptPurpose_SessionOffer = 2"
| "purpose_code TranscriptPurpose_SessionAnswer = 3"
| "purpose_code TranscriptPurpose_SessionReconnect = 4"

record transcript_field =
  tf_tag :: u16
  tf_value :: bytes

record canonical_transcript =
  ct_purpose :: transcript_purpose
  ct_fields :: "transcript_field list"

datatype transcript_error =
    TranscriptError_InvalidMagic
  | TranscriptError_UnknownVersion
  | TranscriptError_UnknownPurpose
  | TranscriptError_TooManyFields
  | TranscriptError_DuplicateField
  | TranscriptError_FieldOrder
  | TranscriptError_FieldTooLong
  | TranscriptError_TranscriptTooLong
  | TranscriptError_UnknownField
  | TranscriptError_MissingField
  | TranscriptError_InvalidFieldLength
  | TranscriptError_Truncated
  | TranscriptError_TrailingBytes

definition transcript_purpose_try_from :: "u16 \<Rightarrow> transcript_error + transcript_purpose" where
  "transcript_purpose_try_from value =
     (if value = 1 then Inr TranscriptPurpose_PairingSas
      else if value = 2 then Inr TranscriptPurpose_SessionOffer
      else if value = 3 then Inr TranscriptPurpose_SessionAnswer
      else if value = 4 then Inr TranscriptPurpose_SessionReconnect
      else Inl TranscriptError_UnknownPurpose)"

primrec required_tags :: "transcript_purpose \<Rightarrow> u16 list" where
  "required_tags TranscriptPurpose_PairingSas = [1, 2, 3, 4, 5, 6, 7]"
| "required_tags TranscriptPurpose_SessionOffer = [1, 2, 8, 9, 10, 11, 12, 13, 14]"
| "required_tags TranscriptPurpose_SessionAnswer = [1, 2, 8, 9, 10, 11, 12, 13, 14, 15, 16]"
| "required_tags TranscriptPurpose_SessionReconnect = [1, 2, 8, 9, 10, 11, 12, 13, 14, 15, 16, 17]"

definition field_length :: "u16 \<Rightarrow> nat" where
  "field_length tag =
     (if tag = 3 \<or> tag = 8 then 16
      else if tag = 10 \<or> tag = 11 then 8
      else if tag = 12 \<or> tag = 17 then 4
      else 32)"

section \<open>Field validation\<close>

fun validate_field_loop ::
  "u16 list \<Rightarrow> u16 option \<Rightarrow> transcript_field list \<Rightarrow> transcript_error + unit" where
  "validate_field_loop required previous_tag [] = Inr ()"
| "validate_field_loop required previous_tag (field # rest) =
     (if previous_tag = Some (tf_tag field) then Inl TranscriptError_DuplicateField
      else if (case previous_tag of None \<Rightarrow> False | Some previous \<Rightarrow> tf_tag field < previous)
        then Inl TranscriptError_FieldOrder
      else if length (tf_value field) > MAX_FIELD_LENGTH then Inl TranscriptError_FieldTooLong
      else if tf_tag field \<notin> set required then Inl TranscriptError_UnknownField
      else if length (tf_value field) \<noteq> field_length (tf_tag field)
        then Inl TranscriptError_InvalidFieldLength
      else validate_field_loop required (Some (tf_tag field)) rest)"

definition validate_fields ::
  "transcript_purpose \<Rightarrow> transcript_field list \<Rightarrow> transcript_error + unit" where
  "validate_fields purpose flds =
     (if length flds > MAX_FIELDS then Inl TranscriptError_TooManyFields
      else
        let required = required_tags purpose in
        bind_res (validate_field_loop required None flds) (\<lambda>_.
        if length flds < length required then Inl TranscriptError_MissingField
        else if length flds > length required then Inl TranscriptError_UnknownField
        else if list_ex (\<lambda>(field, required_tag). tf_tag field \<noteq> required_tag) (zip flds required)
          then Inl TranscriptError_MissingField
        else Inr ()))"

section \<open>Encoder\<close>

definition field_bytes :: "transcript_field \<Rightarrow> bytes" where
  "field_bytes field = u16_to_be (tf_tag field)
     @ u32_to_be (word_of_nat (length (tf_value field))) @ tf_value field"

fun encode_fields :: "transcript_field list \<Rightarrow> transcript_error + bytes" where
  "encode_fields [] = Inr []"
| "encode_fields (field # rest) =
     (if length (tf_value field) > 4294967295 then Inl TranscriptError_FieldTooLong
      else bind_res (encode_fields rest) (\<lambda>tail. Inr (field_bytes field @ tail)))"

definition transcript_encode :: "canonical_transcript \<Rightarrow> transcript_error + bytes" where
  "transcript_encode transcript =
     bind_res (validate_fields (ct_purpose transcript) (ct_fields transcript)) (\<lambda>_.
     let encoded_length = foldl (\<lambda>len field. len + FIELD_HEADER_LENGTH + length (tf_value field))
           HEADER_LENGTH (ct_fields transcript)
     in if encoded_length > MAX_TRANSCRIPT_LENGTH then Inl TranscriptError_TranscriptTooLong
        else if length (ct_fields transcript) > 65535 then Inl TranscriptError_TooManyFields
        else bind_res (encode_fields (ct_fields transcript)) (\<lambda>body.
          Inr (MAGIC @ u16_to_be VERSION @ u16_to_be (purpose_code (ct_purpose transcript))
            @ u16_to_be (word_of_nat (length (ct_fields transcript))) @ body)))"

section \<open>Decoder\<close>

record reader =
  rd_bytes :: bytes
  rd_offset :: nat

definition reader_new :: "bytes \<Rightarrow> reader" where
  "reader_new bs = \<lparr>rd_bytes = bs, rd_offset = 0\<rparr>"

definition read_exact :: "reader \<Rightarrow> nat \<Rightarrow> transcript_error + bytes \<times> reader" where
  "read_exact r n =
     (case checked_add_usize (rd_offset r) n of
        None \<Rightarrow> Inl TranscriptError_Truncated
      | Some end_offset \<Rightarrow>
          if end_offset \<le> length (rd_bytes r)
          then Inr (take (end_offset - rd_offset r) (drop (rd_offset r) (rd_bytes r)),
                    r\<lparr>rd_offset := end_offset\<rparr>)
          else Inl TranscriptError_Truncated)"

definition read_u16 :: "reader \<Rightarrow> transcript_error + u16 \<times> reader" where
  "read_u16 r = bind_res (read_exact r 2) (\<lambda>(bs, r'). Inr (word_of_nat (be_value bs), r'))"

definition read_u32 :: "reader \<Rightarrow> transcript_error + u32 \<times> reader" where
  "read_u32 r = bind_res (read_exact r 4) (\<lambda>(bs, r'). Inr (word_of_nat (be_value bs), r'))"

definition is_finished :: "reader \<Rightarrow> bool" where
  "is_finished r \<longleftrightarrow> rd_offset r = length (rd_bytes r)"

fun decode_fields ::
  "nat \<Rightarrow> u16 option \<Rightarrow> reader \<Rightarrow> transcript_error + transcript_field list \<times> reader" where
  "decode_fields 0 previous_tag r = Inr ([], r)"
| "decode_fields (Suc n) previous_tag r =
     bind_res (read_u16 r) (\<lambda>(tag, r1).
     if previous_tag = Some tag then Inl TranscriptError_DuplicateField
     else if (case previous_tag of None \<Rightarrow> False | Some previous \<Rightarrow> tag < previous)
       then Inl TranscriptError_FieldOrder
     else bind_res (read_u32 r1) (\<lambda>(len, r2).
       if unat len > MAX_FIELD_LENGTH then Inl TranscriptError_FieldTooLong
       else bind_res (read_exact r2 (unat len)) (\<lambda>(value, r3).
         bind_res (decode_fields n (Some tag) r3) (\<lambda>(flds, r4).
           Inr (\<lparr>tf_tag = tag, tf_value = value\<rparr> # flds, r4)))))"

definition transcript_decode :: "bytes \<Rightarrow> transcript_error + canonical_transcript" where
  "transcript_decode bs =
     (if length bs > MAX_TRANSCRIPT_LENGTH then Inl TranscriptError_TranscriptTooLong
      else
        bind_res (read_exact (reader_new bs) (length MAGIC)) (\<lambda>(magic, r1).
        if magic \<noteq> MAGIC then Inl TranscriptError_InvalidMagic else
        bind_res (read_u16 r1) (\<lambda>(version, r2).
        if version \<noteq> VERSION then Inl TranscriptError_UnknownVersion else
        bind_res (read_u16 r2) (\<lambda>(code, r3).
        bind_res (transcript_purpose_try_from code) (\<lambda>purpose.
        bind_res (read_u16 r3) (\<lambda>(field_count, r4).
        if unat field_count > MAX_FIELDS then Inl TranscriptError_TooManyFields else
        bind_res (decode_fields (unat field_count) None r4) (\<lambda>(flds, r5).
        if \<not> is_finished r5 then Inl TranscriptError_TrailingBytes else
        bind_res (validate_fields purpose flds) (\<lambda>_.
        Inr \<lparr>ct_purpose = purpose, ct_fields = flds\<rparr>))))))))"

section \<open>Device identifiers\<close>

definition IDENTITY_DERIVATION_DOMAIN :: bytes where
  "IDENTITY_DERIVATION_DOMAIN = as_bytes ''personal-remote-device-id-v1''"

definition ED25519_ALGORITHM :: u16 where
  "ED25519_ALGORITHM = 1"

definition ED25519_PUBLIC_KEY_BYTES :: nat where
  [limits]: "ED25519_PUBLIC_KEY_BYTES = 32"

datatype identity_derivation_error = InvalidPublicKeyLength

definition derive_device_id_v1 :: "(bytes \<Rightarrow> bytes) \<Rightarrow> bytes \<Rightarrow> identity_derivation_error + bytes" where
  "derive_device_id_v1 sha256 public_key =
     (if length public_key \<noteq> ED25519_PUBLIC_KEY_BYTES then Inl InvalidPublicKeyLength
      else Inr (sha256 (IDENTITY_DERIVATION_DOMAIN @ [0] @ u16_to_be ED25519_ALGORITHM @ public_key)))"

section \<open>What the validator accepts\<close>

text \<open>
  Fields pass exactly when their tags are the required list of the purpose and every value has
  the length of its tag: order, duplicates, unknown and missing fields are all excluded by that.
\<close>

definition fields_ok :: "transcript_purpose \<Rightarrow> transcript_field list \<Rightarrow> bool" where
  "fields_ok purpose flds \<longleftrightarrow> map tf_tag flds = required_tags purpose
     \<and> (\<forall>f \<in> set flds. length (tf_value f) = field_length (tf_tag f))"

lemma required_tags_facts:
  "sorted_wrt (<) (required_tags p)" "length (required_tags p) \<le> 12"
  by (cases p; simp)+

lemma field_length_le: "field_length t \<le> 32"
  by (simp add: field_length_def)

lemma validate_field_loop_iff:
  "validate_field_loop required prev flds = Inr () \<longleftrightarrow>
     sorted_wrt (<) (case_option [] (\<lambda>t. [t]) prev @ map tf_tag flds)
     \<and> (\<forall>f \<in> set flds. tf_tag f \<in> set required \<and> length (tf_value f) = field_length (tf_tag f))"
proof (induction flds arbitrary: prev)
  case Nil
  then show ?case by (cases prev) auto
next
  case (Cons f flds)
  have short: "length (tf_value f) = field_length (tf_tag f) \<Longrightarrow> length (tf_value f) \<le> MAX_FIELD_LENGTH"
    using field_length_le [of "tf_tag f"] by (simp add: limits)
  show ?case
  proof (cases prev)
    case None
    then show ?thesis using Cons.IH [of "Some (tf_tag f)"] short by (auto simp: not_less)
  next
    case (Some t)
    have "t < tf_tag f \<Longrightarrow> (\<forall>y \<in> tf_tag ` set flds. tf_tag f < y) \<Longrightarrow> (\<forall>y \<in> tf_tag ` set flds. t < y)"
      by (meson less_trans)
    with Some show ?thesis
      using Cons.IH [of "Some (tf_tag f)"] short by (auto simp: not_less)
  qed
qed

lemma list_ex_zip_tags:
  "length flds = length ts \<Longrightarrow>
     list_ex (\<lambda>(f, t). tf_tag f \<noteq> t) (zip flds ts) \<longleftrightarrow> map tf_tag flds \<noteq> ts"
  by (induction flds ts rule: list_induct2) auto

lemma validate_fields_iff: "validate_fields p flds = Inr () \<longleftrightarrow> fields_ok p flds"
proof
  assume "validate_fields p flds = Inr ()"
  then show "fields_ok p flds"
    by (auto simp: validate_fields_def Let_def bind_res_Inr validate_field_loop_iff fields_ok_def
        list_ex_zip_tags not_less split: if_splits)
next
  assume ok: "fields_ok p flds"
  then have tags: "map tf_tag flds = required_tags p" by (simp add: fields_ok_def)
  then have len: "length flds = length (required_tags p)" by (metis length_map)
  have "validate_field_loop (required_tags p) None flds = Inr ()"
    using ok required_tags_facts(1) [of p]
    by (auto simp: validate_field_loop_iff fields_ok_def simp flip: tags)
  then show "validate_fields p flds = Inr ()"
    using required_tags_facts(2) [of p] len tags
    by (simp add: validate_fields_def Let_def list_ex_zip_tags limits)
qed

section \<open>What the encoder produces\<close>

definition transcript_bytes :: "transcript_purpose \<Rightarrow> transcript_field list \<Rightarrow> bytes" where
  "transcript_bytes p flds = MAGIC @ u16_to_be VERSION @ u16_to_be (purpose_code p)
     @ u16_to_be (word_of_nat (length flds)) @ concat (map field_bytes flds)"

lemma length_field_bytes [simp]: "length (field_bytes f) = 6 + length (tf_value f)"
  by (simp add: field_bytes_def)

lemma encoded_length:
  "foldl (\<lambda>len f. len + FIELD_HEADER_LENGTH + length (tf_value f)) n flds
     = n + length (concat (map field_bytes flds))"
  by (induction flds arbitrary: n) (simp_all add: limits)

lemma encode_fields_ok:
  "\<forall>f \<in> set flds. length (tf_value f) \<le> 32 \<Longrightarrow>
     encode_fields flds = Inr (concat (map field_bytes flds))"
  by (induction flds) auto

lemma fields_ok_short: "fields_ok p flds \<Longrightarrow> \<forall>f \<in> set flds. length (tf_value f) \<le> 32"
  using field_length_le by (auto simp: fields_ok_def)

lemma fields_ok_count: "fields_ok p flds \<Longrightarrow> length flds \<le> 12"
  using required_tags_facts(2) [of p] by (metis fields_ok_def length_map)

lemma concat_length_le:
  "\<forall>f \<in> set flds. length (tf_value f) \<le> 32 \<Longrightarrow>
     length (concat (map field_bytes flds)) \<le> 38 * length flds"
  by (induction flds) auto

lemma transcript_encode_iff:
  "transcript_encode t = Inr bs \<longleftrightarrow>
     fields_ok (ct_purpose t) (ct_fields t) \<and> bs = transcript_bytes (ct_purpose t) (ct_fields t)"
proof (cases "fields_ok (ct_purpose t) (ct_fields t)")
  case True
  have "length (concat (map field_bytes (ct_fields t))) \<le> 38 * 12"
    using concat_length_le [OF fields_ok_short [OF True]] fields_ok_count [OF True]
    by (meson le_trans mult_le_mono2)
  then have "\<not> foldl (\<lambda>len f. len + FIELD_HEADER_LENGTH + length (tf_value f)) HEADER_LENGTH
      (ct_fields t) > MAX_TRANSCRIPT_LENGTH"
    unfolding encoded_length by (simp add: limits)
  then show ?thesis
    using True fields_ok_count [OF True]
    by (auto simp: transcript_encode_def validate_fields_iff [THEN iffD2]
        encode_fields_ok [OF fields_ok_short [OF True]] transcript_bytes_def)
next
  case False
  then show ?thesis
    by (auto simp: transcript_encode_def bind_res_Inr validate_fields_iff)
qed

lemma length_transcript_bytes:
  "fields_ok p flds \<Longrightarrow> length (transcript_bytes p flds) \<le> MAX_TRANSCRIPT_LENGTH"
  using concat_length_le [OF fields_ok_short, of p flds] fields_ok_count [of p flds]
  by (simp add: transcript_bytes_def MAGIC_def limits)

section \<open>What the decoder accepts\<close>

text \<open>A reader as the bytes it has not read yet.\<close>

definition unread :: "reader \<Rightarrow> bytes" where
  "unread r = drop (rd_offset r) (rd_bytes r)"

definition reader_ok :: "reader \<Rightarrow> bool" where
  "reader_ok r \<longleftrightarrow> rd_offset r \<le> length (rd_bytes r) \<and> length (rd_bytes r) < 2 ^ 64"

definition advances :: "reader \<Rightarrow> bytes \<Rightarrow> reader \<Rightarrow> bool" where
  "advances r v r' \<longleftrightarrow> unread r = v @ unread r' \<and> reader_ok r' \<and> rd_bytes r' = rd_bytes r"

lemma read_exact_iff:
  assumes "reader_ok r"
  shows "read_exact r n = Inr (v, r') \<longleftrightarrow> length v = n \<and> advances r v r'"
proof
  assume "read_exact r n = Inr (v, r')"
  then show "length v = n \<and> advances r v r'"
    using assms
    by (auto simp: read_exact_def checked_add_usize_def advances_def unread_def reader_ok_def add.commute
        drop_drop [symmetric] simp del: drop_drop split: if_splits)
next
  assume R: "length v = n \<and> advances r v r'"
  then have eq: "drop (rd_offset r) (rd_bytes r) = v @ drop (rd_offset r') (rd_bytes r)"
    and le: "rd_offset r' \<le> length (rd_bytes r)" and len: "length v = n" and b: "rd_bytes r' = rd_bytes r"
    by (auto simp: advances_def unread_def reader_ok_def)
  have "length (rd_bytes r) - rd_offset r = n + (length (rd_bytes r) - rd_offset r')"
    using arg_cong [OF eq, of length] len by simp
  then have off: "rd_offset r' = rd_offset r + n"
    using assms le unfolding reader_ok_def by arith
  then have "r' = r\<lparr>rd_offset := rd_offset r + n\<rparr>" using b by (cases r'; cases r) simp
  moreover have "take n (drop (rd_offset r) (rd_bytes r)) = v" using eq len by simp
  ultimately show "read_exact r n = Inr (v, r')"
    using assms le off by (simp add: read_exact_def checked_add_usize_def reader_ok_def)
qed

lemma advances_ok: "advances r v r' \<Longrightarrow> reader_ok r'"
  by (simp add: advances_def)

lemma be_value_word16: "length bs = 2 \<Longrightarrow> u16_to_be (word_of_nat (be_value bs)) = bs"
  using be_value_bound [of bs] be_bytes_be_value [of bs]
  by (simp add: u16_to_be_def unsigned_of_nat take_bit_eq_mod)

lemma be_value_word32: "length bs = 4 \<Longrightarrow> u32_to_be (word_of_nat (be_value bs)) = bs"
  using be_value_bound [of bs] be_bytes_be_value [of bs]
  by (simp add: u32_to_be_def unsigned_of_nat take_bit_eq_mod)

lemma read_u16_iff:
  assumes "reader_ok r"
  shows "read_u16 r = Inr (w, r') \<longleftrightarrow> advances r (u16_to_be w) r'"
  using read_exact_iff [OF assms, of 2] be_value_word16
  by (force simp: read_u16_def bind_res_Inr)

lemma read_u32_iff:
  assumes "reader_ok r"
  shows "read_u32 r = Inr (w, r') \<longleftrightarrow> advances r (u32_to_be w) r'"
  using read_exact_iff [OF assms, of 4] be_value_word32
  by (force simp: read_u32_def bind_res_Inr)

lemma advances_trans: "advances r v r1 \<Longrightarrow> advances r1 w r2 \<Longrightarrow> advances r (v @ w) r2"
  by (simp add: advances_def)

lemma advances_split:
  assumes "advances r (v @ w) r2" "reader_ok r"
  obtains r1 where "advances r v r1" "advances r1 w r2"
proof
  let ?r1 = "r\<lparr>rd_offset := rd_offset r + length v\<rparr>"
  have eq: "drop (rd_offset r) (rd_bytes r) = v @ w @ unread r2"
    using assms(1) by (simp add: advances_def unread_def)
  then have un: "unread ?r1 = w @ unread r2"
    by (simp add: unread_def add.commute flip: drop_drop)
  have "length v \<le> length (drop (rd_offset r) (rd_bytes r))" unfolding eq by simp
  then have "reader_ok ?r1" using assms(2) by (auto simp: reader_ok_def)
  with un eq show "advances r v ?r1" by (simp add: advances_def) (simp add: unread_def)
  show "advances ?r1 w r2" using assms(1) un by (simp add: advances_def)
qed

definition ascending_after :: "u16 option \<Rightarrow> transcript_field list \<Rightarrow> bool" where
  "ascending_after prev flds \<longleftrightarrow> sorted_wrt (<) (case_option [] (\<lambda>t. [t]) prev @ map tf_tag flds)"

lemma ascending_after_Cons:
  "ascending_after prev (f # flds) \<longleftrightarrow>
     (case prev of None \<Rightarrow> True | Some t \<Rightarrow> t < tf_tag f) \<and> ascending_after (Some (tf_tag f)) flds"
  by (cases prev) (auto simp: ascending_after_def intro: less_trans)

lemma decode_fields_sound:
  "reader_ok r \<Longrightarrow> decode_fields n prev r = Inr (flds, r') \<Longrightarrow>
     length flds = n \<and> advances r (concat (map field_bytes flds)) r'"
proof (induction n arbitrary: prev r flds)
  case 0
  then show ?case by (simp add: advances_def)
next
  case (Suc n)
  from Suc.prems(2) obtain tag r1 len r2 val r3 rest where
    reads: "read_u16 r = Inr (tag, r1)" "read_u32 r1 = Inr (len, r2)"
      "read_exact r2 (unat len) = Inr (val, r3)" "decode_fields n (Some tag) r3 = Inr (rest, r')"
      "flds = \<lparr>tf_tag = tag, tf_value = val\<rparr> # rest"
    by (auto simp: bind_res_Inr split: prod.splits if_splits)
  note a1 = reads(1) [unfolded read_u16_iff [OF Suc.prems(1)]]
  note a2 = reads(2) [unfolded read_u32_iff [OF advances_ok [OF a1]]]
  have a3: "length val = unat len" "advances r2 val r3"
    using reads(3) read_exact_iff [OF advances_ok [OF a2]] by auto
  have ih: "length rest = n" "advances r3 (concat (map field_bytes rest)) r'"
    using Suc.IH [OF advances_ok [OF a3(2)] reads(4)] by auto
  have "u32_to_be (word_of_nat (length val)) = u32_to_be len" using a3(1) by simp
  then show ?case
    using advances_trans [OF a1 advances_trans [OF a2 advances_trans [OF a3(2) ih(2)]]] ih(1) reads(5)
    by (simp add: field_bytes_def [of "\<lparr>tf_tag = tag, tf_value = val\<rparr>"])
qed

lemma decode_fields_complete:
  "reader_ok r \<Longrightarrow> advances r (concat (map field_bytes flds)) r' \<Longrightarrow> ascending_after prev flds
    \<Longrightarrow> \<forall>f \<in> set flds. length (tf_value f) \<le> MAX_FIELD_LENGTH
    \<Longrightarrow> decode_fields (length flds) prev r = Inr (flds, r')"
proof (induction flds arbitrary: prev r)
  case Nil
  have "r' = r"
    using Nil.prems(1,2) read_exact_iff [of r 0 "[]" r] read_exact_iff [of r 0 "[]" r']
    by (simp add: advances_def)
  then show ?case by simp
next
  case (Cons f flds)
  let ?len = "word_of_nat (length (tf_value f)) :: u32"
  have short: "length (tf_value f) \<le> 1024" using Cons.prems(4) by (simp add: limits)
  then have len: "unat ?len = length (tf_value f)"
    by (simp add: unsigned_of_nat take_bit_eq_mod)
  obtain r1 r2 r3 where
    a1: "advances r (u16_to_be (tf_tag f)) r1" and a2: "advances r1 (u32_to_be ?len) r2"
    and a3: "advances r2 (tf_value f) r3" and a4: "advances r3 (concat (map field_bytes flds)) r'"
    using Cons.prems(1,2) by (auto simp: field_bytes_def [of f] elim!: advances_split dest: advances_ok)
  have reads: "read_u16 r = Inr (tf_tag f, r1)" "read_u32 r1 = Inr (?len, r2)"
    "read_exact r2 (unat ?len) = Inr (tf_value f, r3)"
    using a1 a2 a3 len Cons.prems(1) advances_ok [OF a1] advances_ok [OF a2]
    by (simp_all add: read_u16_iff read_u32_iff read_exact_iff)
  have asc: "ascending_after (Some (tf_tag f)) flds" "prev \<noteq> Some (tf_tag f)"
    "\<not> (case prev of None \<Rightarrow> False | Some t \<Rightarrow> tf_tag f < t)"
    using Cons.prems(3) by (auto simp: ascending_after_Cons split: option.splits)
  have rest: "decode_fields (length flds) (Some (tf_tag f)) r3 = Inr (flds, r')"
    using Cons.IH [OF advances_ok [OF a3] a4 asc(1)] Cons.prems(4) by simp
  have "\<not> unat ?len > MAX_FIELD_LENGTH" using short by (simp only: len) (simp add: limits)
  then show ?case
    using asc(2,3) by (simp add: reads rest)
qed

lemma purpose_try_from_iff: "transcript_purpose_try_from w = Inr p \<longleftrightarrow> w = purpose_code p"
  by (cases p) (auto simp: transcript_purpose_try_from_def)

lemma advances_new: "length bs \<le> MAX_TRANSCRIPT_LENGTH \<Longrightarrow> reader_ok (reader_new bs)"
  by (simp add: reader_ok_def reader_new_def limits)

lemma decode_sound:
  assumes "transcript_decode bs = Inr t"
  shows "transcript_encode t = Inr bs"
proof -
  from assms obtain magic r1 version r2 code r3 purpose cnt r4 flds r5 where
    len: "length bs \<le> MAX_TRANSCRIPT_LENGTH"
    and reads: "read_exact (reader_new bs) (length MAGIC) = Inr (MAGIC, r1)" "read_u16 r1 = Inr (VERSION, r2)"
      "read_u16 r2 = Inr (code, r3)" "transcript_purpose_try_from code = Inr purpose"
      "read_u16 r3 = Inr (cnt, r4)" "decode_fields (unat cnt) None r4 = Inr (flds, r5)"
    and fin: "is_finished r5" and valid: "validate_fields purpose flds = Inr ()"
    and t: "t = \<lparr>ct_purpose = purpose, ct_fields = flds\<rparr>"
    by (auto simp: transcript_decode_def bind_res_Inr not_less split: prod.splits if_splits)
  have a1: "advances (reader_new bs) MAGIC r1"
    using reads(1) read_exact_iff [OF advances_new [OF len]] by blast
  note a2 = reads(2) [unfolded read_u16_iff [OF advances_ok [OF a1]]]
  note a3 = reads(3) [unfolded read_u16_iff [OF advances_ok [OF a2]]]
  note a4 = reads(5) [unfolded read_u16_iff [OF advances_ok [OF a3]]]
  have a5: "length flds = unat cnt" "advances r4 (concat (map field_bytes flds)) r5"
    using decode_fields_sound [OF advances_ok [OF a4] reads(6)] by auto
  have cnt: "word_of_nat (length flds) = cnt" and code: "purpose_code purpose = code"
    using a5(1) reads(4) by (simp_all add: purpose_try_from_iff)
  have "advances (reader_new bs) (transcript_bytes purpose flds) r5"
    unfolding transcript_bytes_def cnt code
    by (rule advances_trans [OF a1 advances_trans [OF a2 advances_trans [OF a3 advances_trans [OF a4 a5(2)]]]])
  then have "unread (reader_new bs) = transcript_bytes purpose flds @ unread r5"
    by (simp add: advances_def)
  moreover have "unread r5 = []" using fin by (simp add: unread_def is_finished_def)
  ultimately have "bs = transcript_bytes purpose flds" by (simp add: unread_def reader_new_def)
  then show ?thesis
    using valid t by (simp add: transcript_encode_iff validate_fields_iff)
qed

lemma decode_complete:
  assumes "transcript_encode t = Inr bs"
  shows "transcript_decode bs = Inr t"
proof -
  define p where "p = ct_purpose t"
  define flds where "flds = ct_fields t"
  have ok: "fields_ok p flds" and bs: "bs = transcript_bytes p flds"
    using assms by (auto simp: transcript_encode_iff p_def flds_def)
  have len: "length bs \<le> MAX_TRANSCRIPT_LENGTH" using length_transcript_bytes [OF ok] bs by simp
  let ?last = "\<lparr>rd_bytes = bs, rd_offset = length bs\<rparr>"
  have "advances (reader_new bs) (transcript_bytes p flds) ?last"
    using len bs by (simp add: advances_def unread_def reader_new_def reader_ok_def limits)
  then obtain r1 r2 r3 r4 where
    a: "advances (reader_new bs) MAGIC r1" "advances r1 (u16_to_be VERSION) r2"
      "advances r2 (u16_to_be (purpose_code p)) r3"
      "advances r3 (u16_to_be (word_of_nat (length flds))) r4"
      "advances r4 (concat (map field_bytes flds)) ?last"
    using advances_new [OF len]
    by (auto simp: transcript_bytes_def elim!: advances_split dest: advances_ok)
  note oks = advances_ok [OF a(1)] advances_ok [OF a(2)] advances_ok [OF a(3)] advances_ok [OF a(4)]
  have cnt: "unat (word_of_nat (length flds) :: u16) = length flds"
    using fields_ok_count [OF ok] by (simp add: unsigned_of_nat take_bit_eq_mod)
  have "\<forall>f \<in> set flds. length (tf_value f) \<le> MAX_FIELD_LENGTH"
    using fields_ok_short [OF ok] by (auto simp: limits)
  moreover have "ascending_after None flds"
    using ok required_tags_facts(1) [of p] by (simp add: ascending_after_def fields_ok_def)
  ultimately have d: "decode_fields (length flds) None r4 = Inr (flds, ?last)"
    using decode_fields_complete [OF oks(4) a(5)] by blast
  have r: "read_exact (reader_new bs) (length MAGIC) = Inr (MAGIC, r1)" "read_u16 r1 = Inr (VERSION, r2)"
    "read_u16 r2 = Inr (purpose_code p, r3)" "read_u16 r3 = Inr (word_of_nat (length flds), r4)"
    using a advances_new [OF len] oks by (simp_all add: read_exact_iff read_u16_iff)
  have "transcript_decode bs = Inr \<lparr>ct_purpose = p, ct_fields = flds\<rparr>"
    using len d r cnt ok fields_ok_count [OF ok]
    by (simp add: transcript_decode_def purpose_try_from_iff [THEN iffD2] is_finished_def
        validate_fields_iff [THEN iffD2] limits)
  then show ?thesis by (simp add: p_def flds_def)
qed

interpretation transcript: canonical_codec transcript_encode "\<lambda>bs t. transcript_decode bs = Inr t"
proof
  show "transcript_decode bs = Inr t \<longleftrightarrow> transcript_encode t = Inr bs" for bs t
    using decode_sound decode_complete by blast
qed simp

section \<open>Properties\<close>

text \<open>
  C29. The transcript format is canonical: decoding accepts a byte string as a transcript exactly
  when encoding that transcript gives these bytes, and encoding succeeds exactly when the tags of the
  fields are the required ones of the purpose, in order, each with the length of its tag.  No transcript has
  two encodings and no bytes decode to two transcripts, so a signature over the bytes is a
  signature over the purpose and every field.
\<close>

theorem transcript_canonical:
  "(transcript_decode bs = Inr t \<longleftrightarrow> transcript_encode t = Inr bs)
   \<and> ((\<exists>bs. transcript_encode t = Inr bs) \<longleftrightarrow>
        map tf_tag (ct_fields t) = required_tags (ct_purpose t)
        \<and> list_all (\<lambda>f. length (tf_value f) = field_length (tf_tag f)) (ct_fields t))
   \<and> \<not> (transcript_encode t = Inr bs \<and> transcript_encode t' = Inr bs \<and> t' \<noteq> t)"
proof (intro conjI)
  show "transcript_decode bs = Inr t \<longleftrightarrow> transcript_encode t = Inr bs"
    by (rule transcript.accepts_iff)
  show "\<not> (transcript_encode t = Inr bs \<and> transcript_encode t' = Inr bs \<and> t' \<noteq> t)"
    using transcript.enc_inject by blast
qed (simp add: transcript_encode_iff fields_ok_def list_all_iff)

end
