(* ===== verification/Ordered_Map.thy ===== *)
theory Ordered_Map
  imports Roam_Prelude
begin

text \<open>
  Rust's \<^verbatim>\<open>BTreeMap\<close>, as the sources use it: lookup, insertion that replaces an equal key,
  removal, filtering, and iteration in ascending key order.  The model is an association list
  that is strictly ascending in its keys, so iterating is reading the list.  The interface that
  the registries rely on is the locale \<open>key_map\<close>; it is interpreted on this model.
\<close>

section \<open>The model\<close>

type_synonym ('k, 'v) btree = "('k \<times> 'v) list"

definition bt_empty :: "('k, 'v) btree" where
  "bt_empty = []"

definition bt_get :: "('k::linorder, 'v) btree \<Rightarrow> 'k \<Rightarrow> 'v option" where
  "bt_get m k = map_of m k"

definition bt_remove :: "'k::linorder \<Rightarrow> ('k, 'v) btree \<Rightarrow> ('k, 'v) btree" where
  "bt_remove k m = filter (\<lambda>p. fst p \<noteq> k) m"

definition bt_insert :: "'k::linorder \<Rightarrow> 'v \<Rightarrow> ('k, 'v) btree \<Rightarrow> ('k, 'v) btree" where
  "bt_insert k v m = insort_key fst (k, v) (bt_remove k m)"

definition bt_retain :: "('k \<Rightarrow> 'v \<Rightarrow> bool) \<Rightarrow> ('k, 'v) btree \<Rightarrow> ('k, 'v) btree" where
  "bt_retain p m = filter (\<lambda>kv. p (fst kv) (snd kv)) m"

definition bt_values :: "('k, 'v) btree \<Rightarrow> 'v list" where
  "bt_values m = map snd m"

definition bt_ok :: "('k::linorder, 'v) btree \<Rightarrow> bool" where
  "bt_ok m \<longleftrightarrow> sorted (map fst m) \<and> distinct (map fst m)"

lemmas bt_defs = bt_empty_def bt_get_def bt_remove_def bt_insert_def bt_retain_def bt_values_def

section \<open>Laws\<close>

lemma set_bt_insert: "set (bt_insert k v m) = insert (k, v) (set (bt_remove k m))"
  by (simp add: bt_insert_def set_insort_key)

lemma bt_ok_empty [simp, intro]: "bt_ok bt_empty"
  by (simp add: bt_ok_def bt_empty_def)

lemma bt_ok_filter: "bt_ok m \<Longrightarrow> bt_ok (filter p m)"
  by (auto simp: bt_ok_def sorted_filter distinct_map_filter)

lemma bt_ok_remove [simp, intro]: "bt_ok m \<Longrightarrow> bt_ok (bt_remove k m)"
  by (simp add: bt_remove_def bt_ok_filter)

lemma bt_ok_retain [simp, intro]: "bt_ok m \<Longrightarrow> bt_ok (bt_retain p m)"
  by (simp add: bt_retain_def bt_ok_filter)

lemma fst_bt_remove: "k \<notin> fst ` set (bt_remove k m)"
  by (auto simp: bt_remove_def)

lemma bt_ok_insert [simp, intro]: "bt_ok m \<Longrightarrow> bt_ok (bt_insert k v m)"
  using bt_ok_remove [of m k] fst_bt_remove [of k m]
  by (simp add: bt_ok_def bt_insert_def sorted_insort_key distinct_insort_key)

lemma bt_get_empty [simp]: "bt_get bt_empty k = None"
  by (simp add: bt_get_def bt_empty_def)

lemma bt_get_Some_iff: "bt_ok m \<Longrightarrow> bt_get m k = Some v \<longleftrightarrow> (k, v) \<in> set m"
  by (simp add: bt_ok_def bt_get_def)

lemma bt_get_eqI:
  "bt_ok m \<Longrightarrow> bt_ok m' \<Longrightarrow> (\<And>v. (k, v) \<in> set m \<longleftrightarrow> (k', v) \<in> set m')
    \<Longrightarrow> bt_get m k = bt_get m' k'"
  by (metis bt_get_Some_iff not_Some_eq)

lemma bt_get_remove:
  "bt_get (bt_remove k m) k' = (if k' = k then None else bt_get m k')"
  by (induction m) (auto simp: bt_get_def bt_remove_def)

lemma bt_get_insert:
  assumes "bt_ok m"
  shows "bt_get (bt_insert k v m) k' = (if k' = k then Some v else bt_get m k')"
proof (cases "k' = k")
  case True
  then show ?thesis
    using assms by (simp add: bt_get_Some_iff set_bt_insert)
next
  case False
  with assms have "bt_get (bt_insert k v m) k' = bt_get m k'"
    by (intro bt_get_eqI) (auto simp: set_bt_insert bt_remove_def)
  with False show ?thesis by simp
qed

lemma bt_get_retain_Some:
  "bt_ok m \<Longrightarrow> bt_get (bt_retain p m) k = Some v \<longleftrightarrow> bt_get m k = Some v \<and> p k v"
  by (simp only: bt_get_Some_iff bt_ok_retain) (auto simp: bt_retain_def)

lemma bt_get_retain:
  "bt_ok m \<Longrightarrow> bt_get (bt_retain p m) k =
    (case bt_get m k of None \<Rightarrow> None | Some v \<Rightarrow> if p k v then Some v else None)"
  by (cases "bt_get (bt_retain p m) k"; cases "bt_get m k")
    (auto simp: bt_get_retain_Some dest: bt_get_retain_Some [THEN iffD2, OF _ conjI])

lemma bt_keys: "bt_ok m \<Longrightarrow> fst ` set m = {k. bt_get m k \<noteq> None}"
  by (force simp: bt_get_Some_iff)

lemma length_bt: "bt_ok m \<Longrightarrow> length m = card {k. bt_get m k \<noteq> None}"
  by (metis bt_keys bt_ok_def distinct_card length_map list.set_map)

lemma length_bt_remove:
  "bt_ok m \<Longrightarrow> length (bt_remove k m) = (if bt_get m k = None then length m else length m - 1)"
proof -
  assume ok: "bt_ok m"
  let ?K = "{k. bt_get m k \<noteq> None}"
  have fin: "finite ?K" using bt_keys [OF ok] by (metis List.finite_set finite_imageI)
  have "{k'. bt_get (bt_remove k m) k' \<noteq> None} = ?K - {k}"
    by (auto simp: bt_get_remove)
  then have "length (bt_remove k m) = card (?K - {k})"
    using ok by (simp add: length_bt)
  with fin ok show ?thesis by (simp add: length_bt card_Diff_singleton_if)
qed

lemma length_bt_insert:
  "bt_ok m \<Longrightarrow> length (bt_insert k v m) = (if bt_get m k = None then Suc (length m) else length m)"
proof -
  assume ok: "bt_ok m"
  have "bt_get m k \<noteq> None \<Longrightarrow> length m > 0" by (cases m) (simp_all add: bt_get_def)
  then show ?thesis
    by (simp add: bt_insert_def length_bt_remove [OF ok])
qed

lemma length_bt_retain: "length (bt_retain p m) \<le> length m"
  by (simp add: bt_retain_def)

lemma set_bt_values: "bt_ok m \<Longrightarrow> set (bt_values m) = {v. \<exists>k. bt_get m k = Some v}"
  by (force simp: bt_values_def bt_get_Some_iff)

text \<open>Two maps in order with the same lookups are the same list.\<close>

lemma bt_eqI:
  assumes ok: "bt_ok m" "bt_ok m'" and same: "\<And>k. bt_get m k = bt_get m' k"
  shows "m = m'"
proof (rule map_sorted_distinct_set_unique)
  show "inj_on fst (set m \<union> set m')"
    using ok same by (auto simp: inj_on_def bt_get_Some_iff [symmetric])
  show "set m = set m'"
    using ok same by (auto simp: bt_get_Some_iff [symmetric])
qed (use ok in \<open>auto simp: bt_ok_def\<close>)

section \<open>The interface\<close>

text \<open>
  What a registry may assume of its map.  The lemmas proved here are about bounded maps: an
  insertion guarded by a capacity test keeps the bound, and the number of entries never grows
  by anything else.
\<close>

locale key_map =
  fixes empty :: "'m"
    and get :: "'m \<Rightarrow> 'k \<Rightarrow> 'v option"
    and insert :: "'k \<Rightarrow> 'v \<Rightarrow> 'm \<Rightarrow> 'm"
    and remove :: "'k \<Rightarrow> 'm \<Rightarrow> 'm"
    and count :: "'m \<Rightarrow> nat"
    and ok :: "'m \<Rightarrow> bool"
  assumes get_empty: "get empty k = None"
    and get_insert: "ok m \<Longrightarrow> get (insert k v m) k' = (if k' = k then Some v else get m k')"
    and get_remove: "ok m \<Longrightarrow> get (remove k m) k' = (if k' = k then None else get m k')"
    and count_insert: "ok m \<Longrightarrow> count (insert k v m) =
      (if get m k = None then Suc (count m) else count m)"
    and count_remove: "ok m \<Longrightarrow> count (remove k m) =
      (if get m k = None then count m else count m - 1)"
    and ok_empty: "ok empty"
    and ok_insert: "ok m \<Longrightarrow> ok (insert k v m)"
    and ok_remove: "ok m \<Longrightarrow> ok (remove k m)"
begin

definition bounded :: "nat \<Rightarrow> 'm \<Rightarrow> bool" where
  "bounded n m \<longleftrightarrow> ok m \<and> count m \<le> n"

lemma bounded_insert_guarded: "bounded n m \<Longrightarrow> count m < n \<Longrightarrow> bounded n (insert k v m)"
  by (auto simp: bounded_def count_insert ok_insert)

lemma bounded_overwrite: "bounded n m \<Longrightarrow> get m k \<noteq> None \<Longrightarrow> bounded n (insert k v m)"
  by (auto simp: bounded_def count_insert ok_insert)

lemma bounded_remove: "bounded n m \<Longrightarrow> bounded n (remove k m)"
  by (auto simp: bounded_def count_remove ok_remove)

lemma insert_remove_get: "ok m \<Longrightarrow> get m k = None \<Longrightarrow> get (remove k (insert k v m)) = get m"
  by (rule ext) (simp add: get_remove get_insert ok_insert)

end

interpretation bt: key_map bt_empty bt_get bt_insert bt_remove length bt_ok
  by unfold_locales
    (simp_all add: bt_get_insert bt_get_remove length_bt_insert length_bt_remove)

end
