(* ===== verification/Authorization.thy ===== *)
theory Authorization
  imports Grant_Store Validation Transcript Ordered_Map
begin

text \<open>
  The registry of one-way Controller grants, \<^verbatim>\<open>crates/host-agent/src/authorization.rs\<close>.  Every
  change is persisted first and applied to the map in memory only if that succeeded.  SHA-256,
  Ed25519 and the random generator are outside the repository; they come in through the record
  \<open>crypto\<close> and through the draws that \<^verbatim>\<open>getrandom::fill\<close> returns, one per attempt.
\<close>

section \<open>Data\<close>

record crypto =
  sha256 :: "bytes \<Rightarrow> bytes"
  verifying_key_ok :: "bytes \<Rightarrow> bool"
  ed25519_verify :: "bytes \<Rightarrow> bytes \<Rightarrow> bytes \<Rightarrow> bool"

definition GRANT_ID_BYTES :: nat where
  [limits]: "GRANT_ID_BYTES = 16"

definition GRANT_ID_GENERATION_ATTEMPTS :: nat where
  [limits]: "GRANT_ID_GENERATION_ATTEMPTS = 16"

datatype authorization_error =
    AuthorizationError_Store grant_store_error
  | AuthorizationError_InvalidHostIdentity
  | AuthorizationError_InvalidStoredGrant
  | AuthorizationError_DuplicateGrantId
  | AuthorizationError_DuplicateController
  | AuthorizationError_InvalidController
  | AuthorizationError_SelfGrant
  | AuthorizationError_InvalidPermissions
  | AuthorizationError_GrantConflict
  | AuthorizationError_GrantLimit
  | AuthorizationError_RandomGeneration
  | AuthorizationError_GrantNotFound

record 's authorization_registry =
  ar_host_device_id :: bytes
  ar_store :: 's
  ar_grants :: "(bytes, controller_grant_view) btree"

section \<open>Validation of grants\<close>

definition validate_controller :: "crypto \<Rightarrow> device_identity \<Rightarrow> authorization_error + unit" where
  "validate_controller c controller =
     bind_res (map_err (\<lambda>_. AuthorizationError_InvalidController) (validate_device_identity controller)) (\<lambda>_.
     if length (di_public_key controller) \<noteq> 32 then Inl AuthorizationError_InvalidController
     else if \<not> verifying_key_ok c (di_public_key controller) then Inl AuthorizationError_InvalidController
     else bind_res (map_err (\<lambda>_. AuthorizationError_InvalidController)
         (derive_device_id_v1 (sha256 c) (di_public_key controller))) (\<lambda>derived.
       if di_device_id controller \<noteq> derived then Inl AuthorizationError_InvalidController else Inr ()))"

text \<open>The set that the loop collects is a \<^verbatim>\<open>BTreeSet\<close>: an ascending list.\<close>

fun permission_loop :: "i32 list \<Rightarrow> i32 list \<Rightarrow> authorization_error + i32 list" where
  "permission_loop normalized [] = Inr normalized"
| "permission_loop normalized (value # rest) =
     bind_res (ok_or AuthorizationError_InvalidPermissions (session_permission_of value)) (\<lambda>permission.
       if permission = SessionPermission_Unspecified \<or> value \<in> set normalized
       then Inl AuthorizationError_InvalidPermissions
       else permission_loop (insort value normalized) rest)"

definition normalize_stored_permissions :: "i32 list \<Rightarrow> authorization_error + i32 list" where
  "normalize_stored_permissions permissions =
     (if permissions = [] then Inl AuthorizationError_InvalidPermissions
      else bind_res (permission_loop [] permissions) (\<lambda>normalized.
        if session_permission_code SessionPermission_ControlInput \<in> set normalized
          \<and> session_permission_code SessionPermission_ViewScreen \<notin> set normalized
        then Inl AuthorizationError_InvalidPermissions else Inr normalized))"

definition normalize_permissions :: "session_permission list \<Rightarrow> authorization_error + i32 list" where
  "normalize_permissions permissions =
     normalize_stored_permissions (map session_permission_code permissions)"

definition controller_device_id_for :: "controller_grant_view \<Rightarrow> bytes option" where
  "controller_device_id_for view =
     Option.bind (cgv_grant view) (\<lambda>grant. map_option di_device_id (cg_controller grant))"

definition validate_stored_grant ::
  "crypto \<Rightarrow> controller_grant_view \<Rightarrow> bytes \<Rightarrow> authorization_error + bytes" where
  "validate_stored_grant c view expected_host_device_id =
     bind_res (ok_or AuthorizationError_InvalidStoredGrant (cgv_grant view)) (\<lambda>grant.
     if length (cg_grant_id grant) \<noteq> GRANT_ID_BYTES \<or> cg_host_device_id grant \<noteq> expected_host_device_id
     then Inl AuthorizationError_InvalidStoredGrant
     else bind_res (ok_or AuthorizationError_InvalidStoredGrant (cg_controller grant)) (\<lambda>controller.
       bind_res (map_err (\<lambda>_. AuthorizationError_InvalidStoredGrant) (validate_controller c controller)) (\<lambda>_.
       if di_device_id controller = expected_host_device_id then Inl AuthorizationError_InvalidStoredGrant
       else bind_res (map_err (\<lambda>_. AuthorizationError_InvalidStoredGrant)
           (normalize_stored_permissions (cg_permissions grant))) (\<lambda>normalized.
         if normalized \<noteq> cg_permissions grant then Inl AuthorizationError_InvalidStoredGrant
         else Inr (di_device_id controller)))))"

definition sort_grants :: "controller_grant_view list \<Rightarrow> controller_grant_view list" where
  "sort_grants grants = sort_key controller_device_id_for grants"

section \<open>Registry operations\<close>

fun load_loop ::
  "crypto \<Rightarrow> bytes \<Rightarrow> bytes set \<Rightarrow> (bytes, controller_grant_view) btree \<Rightarrow> controller_grant_view list
    \<Rightarrow> authorization_error + (bytes, controller_grant_view) btree" where
  "load_loop c host grant_ids grants [] = Inr grants"
| "load_loop c host grant_ids grants (view # rest) =
     bind_res (validate_stored_grant c view host) (\<lambda>controller_id.
     bind_res (ok_or AuthorizationError_InvalidStoredGrant (cgv_grant view)) (\<lambda>grant.
       if cg_grant_id grant \<in> grant_ids then Inl AuthorizationError_DuplicateGrantId
       else if bt_get grants controller_id \<noteq> None then Inl AuthorizationError_DuplicateController
       else load_loop c host (insert (cg_grant_id grant) grant_ids)
         (bt_insert controller_id view grants) rest))"

definition authorization_load ::
  "crypto \<Rightarrow> 's grant_store_ops \<Rightarrow> bytes \<Rightarrow> 's \<Rightarrow> authorization_error + 's authorization_registry" where
  "authorization_load c ops host_device_id store =
     (if length host_device_id \<noteq> DEVICE_ID_BYTES then Inl AuthorizationError_InvalidHostIdentity
      else bind_res (map_err AuthorizationError_Store (store_load ops store host_device_id)) (\<lambda>loaded.
        if length loaded > MAX_CONTROLLER_GRANTS then Inl AuthorizationError_InvalidStoredGrant
        else bind_res (load_loop c host_device_id {} bt_empty loaded) (\<lambda>grants.
          Inr \<lparr>ar_host_device_id = host_device_id, ar_store = store, ar_grants = grants\<rparr>)))"

definition list_controller_grants :: "'s authorization_registry \<Rightarrow> controller_grant_view list" where
  "list_controller_grants r = bt_values (ar_grants r)"

definition controller_grant_of :: "'s authorization_registry \<Rightarrow> bytes \<Rightarrow> controller_grant_view option" where
  "controller_grant_of r controller_device_id = bt_get (ar_grants r) controller_device_id"

definition has_grant_id :: "bytes \<Rightarrow> controller_grant_view \<Rightarrow> bool" where
  "has_grant_id grant_id view \<longleftrightarrow>
     (case cgv_grant view of None \<Rightarrow> False | Some grant \<Rightarrow> cg_grant_id grant = grant_id)"

text \<open>
  The loop of \<^verbatim>\<open>generate_grant_id\<close>; \<open>draw i\<close> is what the generator fills the 16-byte array with at
  attempt \<open>i\<close>, read as one number.
\<close>

fun grant_id_loop ::
  "controller_grant_view list \<Rightarrow> (nat \<Rightarrow> 128 word option) \<Rightarrow> nat \<Rightarrow> nat \<Rightarrow> authorization_error + bytes" where
  "grant_id_loop views draw i 0 = Inl AuthorizationError_RandomGeneration"
| "grant_id_loop views draw i (Suc n) =
     bind_res (ok_or AuthorizationError_RandomGeneration (draw i)) (\<lambda>filled.
       let grant_id = be_bytes GRANT_ID_BYTES (unat filled)
       in if \<not> list_ex (has_grant_id grant_id) views then Inr grant_id
          else grant_id_loop views draw (Suc i) n)"

definition generate_grant_id ::
  "'s authorization_registry \<Rightarrow> (nat \<Rightarrow> 128 word option) \<Rightarrow> authorization_error + bytes" where
  "generate_grant_id r draw =
     grant_id_loop (bt_values (ar_grants r)) draw 0 GRANT_ID_GENERATION_ATTEMPTS"

text \<open>Persist, then change the map: the common tail of the three mutating operations.\<close>

definition persist_then ::
  "'s grant_store_ops \<Rightarrow> 's authorization_registry \<Rightarrow> controller_grant_view list
    \<Rightarrow> ('s authorization_registry \<Rightarrow> 's authorization_registry \<times> (authorization_error + 'a))
    \<Rightarrow> 's authorization_registry \<times> (authorization_error + 'a)" where
  "persist_then ops r snapshot k =
     (let (store, res) = store_persist ops (ar_store r) (ar_host_device_id r) snapshot;
          r' = r\<lparr>ar_store := store\<rparr>
      in case res of Inl e \<Rightarrow> (r', Inl (AuthorizationError_Store e)) | Inr _ \<Rightarrow> k r')"

definition create_controller_grant ::
  "crypto \<Rightarrow> 's grant_store_ops \<Rightarrow> (nat \<Rightarrow> 128 word option) \<Rightarrow> 's authorization_registry \<Rightarrow> device_identity
    \<Rightarrow> session_permission list \<Rightarrow> u64
    \<Rightarrow> 's authorization_registry \<times> (authorization_error + controller_grant_view)" where
  "create_controller_grant c ops draw r controller permissions created_at_unix_ms =
     (case validate_controller c controller of
        Inl e \<Rightarrow> (r, Inl e)
      | Inr _ \<Rightarrow>
      if di_device_id controller = ar_host_device_id r then (r, Inl AuthorizationError_SelfGrant)
      else case normalize_permissions permissions of
        Inl e \<Rightarrow> (r, Inl e)
      | Inr normalized_permissions \<Rightarrow>
      (case bt_get (ar_grants r) (di_device_id controller) of
         Some existing \<Rightarrow>
           (case cgv_grant existing of
              None \<Rightarrow> (r, Inl AuthorizationError_InvalidStoredGrant)
            | Some existing_grant \<Rightarrow>
                if cg_controller existing_grant = Some controller
                  \<and> cg_permissions existing_grant = normalized_permissions
                then (r, Inr existing)
                else (r, Inl AuthorizationError_GrantConflict))
       | None \<Rightarrow>
           if length (ar_grants r) \<ge> MAX_CONTROLLER_GRANTS then (r, Inl AuthorizationError_GrantLimit)
           else case generate_grant_id r draw of
             Inl e \<Rightarrow> (r, Inl e)
           | Inr grant_id \<Rightarrow>
               let view = \<lparr>cgv_grant = Some \<lparr>cg_grant_id = grant_id,
                       cg_host_device_id = ar_host_device_id r, cg_controller = Some controller,
                       cg_created_at_unix_ms = created_at_unix_ms,
                       cg_permissions = normalized_permissions\<rparr>,
                     cgv_last_successful_connection_at_unix_ms = 0\<rparr>
               in persist_then ops r (sort_grants (list_controller_grants r @ [view])) (\<lambda>r'.
                    (r'\<lparr>ar_grants := bt_insert (di_device_id controller) view (ar_grants r')\<rparr>, Inr view))))"

text \<open>Replace the first element with the property, if there is one.\<close>

fun replace_first :: "('a \<Rightarrow> bool) \<Rightarrow> 'a \<Rightarrow> 'a list \<Rightarrow> 'a list option" where
  "replace_first p y [] = None"
| "replace_first p y (x # xs) =
     (if p x then Some (y # xs) else map_option (\<lambda>ys. x # ys) (replace_first p y xs))"

definition record_authenticated_session ::
  "'s grant_store_ops \<Rightarrow> 's authorization_registry \<Rightarrow> bytes \<Rightarrow> u64
    \<Rightarrow> 's authorization_registry \<times> (authorization_error + controller_grant_view)" where
  "record_authenticated_session ops r controller_device_id authenticated_at_unix_ms =
     (case bt_get (ar_grants r) controller_device_id of
        None \<Rightarrow> (r, Inl AuthorizationError_GrantNotFound)
      | Some existing \<Rightarrow>
          if authenticated_at_unix_ms \<le> cgv_last_successful_connection_at_unix_ms existing
          then (r, Inr existing)
          else
            let updated = existing\<lparr>cgv_last_successful_connection_at_unix_ms := authenticated_at_unix_ms\<rparr>
            in case replace_first (\<lambda>view. controller_device_id_for view = Some controller_device_id)
                      updated (list_controller_grants r) of
                 None \<Rightarrow> (r, Inl AuthorizationError_InvalidStoredGrant)
               | Some next_grants \<Rightarrow>
                   persist_then ops r next_grants (\<lambda>r'.
                     (r'\<lparr>ar_grants := bt_insert controller_device_id updated (ar_grants r')\<rparr>, Inr updated)))"

definition revoke_controller_grant ::
  "'s grant_store_ops \<Rightarrow> 's authorization_registry \<Rightarrow> bytes
    \<Rightarrow> 's authorization_registry \<times> (authorization_error + controller_grant_view)" where
  "revoke_controller_grant ops r grant_id =
     (case find (\<lambda>(controller_id, view). has_grant_id grant_id view) (ar_grants r) of
        None \<Rightarrow> (r, Inl AuthorizationError_GrantNotFound)
      | Some (controller_id, _) \<Rightarrow>
          persist_then ops r
            (filter (\<lambda>view. controller_device_id_for view \<noteq> Some controller_id) (list_controller_grants r))
            (\<lambda>r'. case bt_get (ar_grants r') controller_id of
                None \<Rightarrow> (r', Inl AuthorizationError_InvalidStoredGrant)
              | Some view \<Rightarrow> (r'\<lparr>ar_grants := bt_remove controller_id (ar_grants r')\<rparr>, Inr view)))"

section \<open>Permissions in normal form\<close>

lemma permission_known: "(\<exists>p. session_permission_of v = Some p \<and> p \<noteq> SessionPermission_Unspecified) \<longleftrightarrow> v \<in> {1, 2}"
  by (auto simp: session_permission_of_def split: if_splits)

lemma permission_loop_iff:
  "sorted acc \<Longrightarrow> distinct acc \<Longrightarrow>
     permission_loop acc vs = Inr n \<longleftrightarrow> set vs \<subseteq> {1, 2} \<and> distinct vs \<and> set vs \<inter> set acc = {}
       \<and> n = sorted_list_of_set (set acc \<union> set vs)"
proof (induction vs arbitrary: acc)
  case Nil
  then show ?case by (auto simp: sorted_list_of_set.idem_if_sorted_distinct)
next
  case (Cons v vs)
  show ?case
  proof (cases "v \<in> {1, 2} \<and> v \<notin> set acc")
    case True
    then obtain p where p: "session_permission_of v = Some p" "p \<noteq> SessionPermission_Unspecified"
      using permission_known [of v] by blast
    have "permission_loop acc (v # vs) = permission_loop (insort v acc) vs"
      using True p by (simp del: session_permission.of_eq_Some)
    then show ?thesis
      using Cons.IH [of "insort v acc"] Cons.prems True
      by (auto simp: sorted_insort distinct_insort set_insort_key)
  next
    case False
    then have "\<not> (\<exists>p. session_permission_of v = Some p \<and> p \<noteq> SessionPermission_Unspecified \<and> v \<notin> set acc)"
      using permission_known [of v] by blast
    then have "permission_loop acc (v # vs) \<noteq> Inr n"
      by (cases "session_permission_of v") (auto simp del: session_permission.of_eq_Some)
    with False show ?thesis by auto
  qed
qed

lemma normalize_stored_iff:
  "normalize_stored_permissions ps = Inr n \<longleftrightarrow> ps \<noteq> [] \<and> distinct ps \<and> set ps \<subseteq> {1, 2}
     \<and> (2 \<in> set ps \<longrightarrow> 1 \<in> set ps) \<and> n = sorted_list_of_set (set ps)"
  by (auto simp: normalize_stored_permissions_def bind_res_Inr permission_loop_iff)

lemma normalize_stored_idem:
  "normalize_stored_permissions ps = Inr n \<Longrightarrow> normalize_stored_permissions n = Inr n"
  by (auto simp: normalize_stored_iff)

section \<open>Well-formed registries\<close>

definition grant_id_of :: "controller_grant_view \<Rightarrow> bytes option" where
  "grant_id_of view = map_option cg_grant_id (cgv_grant view)"

definition grants_ok :: "crypto \<Rightarrow> bytes \<Rightarrow> (bytes, controller_grant_view) btree \<Rightarrow> bool" where
  "grants_ok c host m \<longleftrightarrow> bt_ok m \<and> length m \<le> MAX_CONTROLLER_GRANTS
     \<and> (\<forall>k v. bt_get m k = Some v \<longrightarrow> validate_stored_grant c v host = Inr k)
     \<and> (\<forall>k v k' v'. bt_get m k = Some v \<longrightarrow> bt_get m k' = Some v' \<longrightarrow> grant_id_of v = grant_id_of v' \<longrightarrow> k = k')"

lemma validate_stored_grant_iff:
  "validate_stored_grant c v host = Inr k \<longleftrightarrow>
     (\<exists>g d. cgv_grant v = Some g \<and> cg_controller g = Some d \<and> length (cg_grant_id g) = 16
        \<and> cg_host_device_id g = host \<and> validate_controller c d = Inr () \<and> di_device_id d = k \<and> k \<noteq> host
        \<and> normalize_stored_permissions (cg_permissions g) = Inr (cg_permissions g))"
  by (cases "cgv_grant v") (auto simp: validate_stored_grant_def bind_res_Inr limits split: if_splits)

lemma stored_controller_id: "validate_stored_grant c v host = Inr k \<Longrightarrow> controller_device_id_for v = Some k"
  by (auto simp: validate_stored_grant_iff controller_device_id_for_def)

lemma bt_get_in_set: "bt_ok m \<Longrightarrow> (k, v) \<in> set m \<Longrightarrow> bt_get m k = Some v"
  by (simp add: bt_get_Some_iff)

lemma bt_insert_last:
  assumes "bt_ok (m @ [(k, v)])"
  shows "bt_insert k v m = m @ [(k, v)]"
proof (rule bt_eqI)
  have m: "bt_ok m" using assms by (auto simp: bt_ok_def sorted_append)
  show "bt_ok (bt_insert k v m)" using m by simp
  have "bt_get m k = None" using assms m by (auto simp: bt_ok_def bt_get_def map_of_eq_None_iff)
  then show "bt_get (bt_insert k v m) k' = bt_get (m @ [(k, v)]) k'" for k'
    by (auto simp: bt_get_insert [OF m]) (auto simp: bt_get_def map_add_def split: option.splits)
qed (rule assms)

text \<open>Reading back the values of a well-formed map rebuilds the map.\<close>

lemma load_loop_rebuild:
  "bt_ok (acc @ kvs) \<Longrightarrow> \<forall>(k, v) \<in> set kvs. validate_stored_grant c v host = Inr k
    \<Longrightarrow> distinct (map (grant_id_of \<circ> snd) kvs) \<Longrightarrow> \<forall>(k, v) \<in> set kvs. the (grant_id_of v) \<notin> ids
    \<Longrightarrow> load_loop c host ids acc (map snd kvs) = Inr (acc @ kvs)"
proof (induction kvs arbitrary: acc ids)
  case Nil
  then show ?case by simp
next
  case (Cons kv kvs)
  obtain k v where kv: "kv = (k, v)" by fastforce
  have valid: "validate_stored_grant c v host = Inr k" using Cons.prems(2) kv by simp
  then obtain g where g: "cgv_grant v = Some g" by (auto simp: validate_stored_grant_iff)
  have acc: "bt_ok (acc @ [(k, v)])" using Cons.prems(1) kv by (auto simp: bt_ok_def sorted_append)
  then have fresh: "bt_get acc k = None"
    by (auto simp: bt_ok_def bt_get_def map_of_eq_None_iff)
  have rest: "the (grant_id_of v') \<noteq> cg_grant_id g" if "(k', v') \<in> set kvs" for k' v'
  proof -
    have "grant_id_of v' \<noteq> grant_id_of v" using Cons.prems(3) kv that by force
    moreover have "validate_stored_grant c v' host = Inr k'" using Cons.prems(2) that by auto
    then obtain g' where "cgv_grant v' = Some g'" by (auto simp: validate_stored_grant_iff)
    ultimately show ?thesis using g by (simp add: grant_id_of_def)
  qed
  have "load_loop c host (insert (cg_grant_id g) ids) (acc @ [(k, v)]) (map snd kvs) = Inr ((acc @ [(k, v)]) @ kvs)"
    using Cons.prems kv rest by (intro Cons.IH) auto
  then show ?case
    using valid g fresh Cons.prems(4) kv bt_insert_last [OF acc] by (auto simp: grant_id_of_def)
qed

lemma grants_ok_set:
  assumes "grants_ok c host m"
  shows "\<forall>(k, v) \<in> set m. validate_stored_grant c v host = Inr k" "distinct (map (grant_id_of \<circ> snd) m)"
proof -
  have m: "bt_ok m" using assms by (simp add: grants_ok_def)
  then show "\<forall>(k, v) \<in> set m. validate_stored_grant c v host = Inr k"
    using assms by (auto simp: grants_ok_def bt_get_in_set)
  have "distinct (map fst m)" using m by (simp add: bt_ok_def)
  then have "distinct m" by (simp add: distinct_map)
  moreover have "inj_on (grant_id_of \<circ> snd) (set m)"
  proof (rule inj_onI)
    fix x y
    assume xy: "x \<in> set m" "y \<in> set m" "(grant_id_of \<circ> snd) x = (grant_id_of \<circ> snd) y"
    have "bt_get m (fst x) = Some (snd x)" "bt_get m (fst y) = Some (snd y)"
      using xy m by (simp_all add: bt_get_in_set)
    moreover from this have "fst x = fst y" using assms xy(3) by (auto simp: grants_ok_def)
    ultimately show "x = y" by (metis option.inject prod.collapse)
  qed
  ultimately show "distinct (map (grant_id_of \<circ> snd) m)" by (simp add: distinct_map)
qed

lemma load_loop_values:
  "grants_ok c host m \<Longrightarrow> load_loop c host {} bt_empty (bt_values m) = Inr m"
  using load_loop_rebuild [of "[]" m c host "{}"] grants_ok_set [of c host m]
  by (simp add: bt_values_def bt_empty_def grants_ok_def)

text \<open>Whatever loads is well formed.\<close>

lemma load_loop_sound:
  assumes "load_loop c host ids acc vs = Inr m" "bt_ok acc"
    and "\<forall>k v. bt_get acc k = Some v \<longrightarrow> validate_stored_grant c v host = Inr k \<and> the (grant_id_of v) \<in> ids"
    and "\<forall>k v k' v'. bt_get acc k = Some v \<longrightarrow> bt_get acc k' = Some v' \<longrightarrow> grant_id_of v = grant_id_of v' \<longrightarrow> k = k'"
  shows "bt_ok m \<and> length m = length acc + length vs
    \<and> (\<forall>k v. bt_get m k = Some v \<longrightarrow> validate_stored_grant c v host = Inr k)
    \<and> (\<forall>k v k' v'. bt_get m k = Some v \<longrightarrow> bt_get m k' = Some v' \<longrightarrow> grant_id_of v = grant_id_of v' \<longrightarrow> k = k')"
  using assms
proof (induction vs arbitrary: ids acc)
  case Nil
  then show ?case by auto
next
  case (Cons view vs)
  from Cons.prems(1) obtain k g where
    step: "validate_stored_grant c view host = Inr k" "cgv_grant view = Some g" "cg_grant_id g \<notin> ids"
      "bt_get acc k = None"
      "load_loop c host (insert (cg_grant_id g) ids) (bt_insert k view acc) vs = Inr m"
    by (auto simp: bind_res_Inr split: if_splits)
  have gid: "grant_id_of view = Some (cg_grant_id g)" using step(2) by (simp add: grant_id_of_def)
  have new: "grant_id_of v \<noteq> grant_id_of view" if "bt_get acc k' = Some v" for k' v
    using Cons.prems(3) that step(3) gid by force
  have "bt_ok m \<and> length m = length (bt_insert k view acc) + length vs
    \<and> (\<forall>k v. bt_get m k = Some v \<longrightarrow> validate_stored_grant c v host = Inr k)
    \<and> (\<forall>k v k' v'. bt_get m k = Some v \<longrightarrow> bt_get m k' = Some v' \<longrightarrow> grant_id_of v = grant_id_of v' \<longrightarrow> k = k')"
  proof (rule Cons.IH [OF step(5)])
    show "bt_ok (bt_insert k view acc)" using Cons.prems(2) by simp
    show "\<forall>k' v. bt_get (bt_insert k view acc) k' = Some v \<longrightarrow>
        validate_stored_grant c v host = Inr k' \<and> the (grant_id_of v) \<in> insert (cg_grant_id g) ids"
      using Cons.prems(3) step(1) gid by (auto simp: bt_get_insert [OF Cons.prems(2)])
    show "\<forall>k1 v1 k2 v2. bt_get (bt_insert k view acc) k1 = Some v1 \<longrightarrow>
        bt_get (bt_insert k view acc) k2 = Some v2 \<longrightarrow> grant_id_of v1 = grant_id_of v2 \<longrightarrow> k1 = k2"
      using Cons.prems(4) new by (auto simp: bt_get_insert [OF Cons.prems(2)]) metis+
  qed
  then show ?case using step(4) by (simp add: length_bt_insert [OF Cons.prems(2)])
qed

lemma authorization_load_ok:
  assumes "authorization_load c ops host store = Inr r"
  shows "ar_host_device_id r = host \<and> ar_store r = store \<and> length host = 32 \<and> grants_ok c host (ar_grants r)"
proof -
  from assms obtain vs m where
    step: "length vs \<le> MAX_CONTROLLER_GRANTS" "load_loop c host {} bt_empty vs = Inr m" "length host = 32"
      "r = \<lparr>ar_host_device_id = host, ar_store = store, ar_grants = m\<rparr>"
    by (auto simp: authorization_load_def bind_res_Inr not_less DEVICE_ID_BYTES_def split: if_splits)
  have "bt_ok m \<and> length m = length vs
    \<and> (\<forall>k v. bt_get m k = Some v \<longrightarrow> validate_stored_grant c v host = Inr k)
    \<and> (\<forall>k v k' v'. bt_get m k = Some v \<longrightarrow> bt_get m k' = Some v' \<longrightarrow> grant_id_of v = grant_id_of v' \<longrightarrow> k = k')"
    using load_loop_sound [OF step(2)] by (simp add: bt_empty_def [symmetric])
  with step show ?thesis by (simp add: grants_ok_def)
qed

section \<open>Snapshots of changed maps\<close>

definition ids_ok :: "(bytes, controller_grant_view) btree \<Rightarrow> bool" where
  "ids_ok m \<longleftrightarrow> bt_ok m \<and> (\<forall>(k, v) \<in> set m. controller_device_id_for v = Some k)"

lemma ids_ok_grants: "grants_ok c host m \<Longrightarrow> ids_ok m"
  using grants_ok_set(1) [of c host m] by (auto simp: ids_ok_def grants_ok_def stored_controller_id)

lemma values_ids: "ids_ok m \<Longrightarrow> map controller_device_id_for (bt_values m) = map Some (map fst m)"
  by (auto simp: ids_ok_def bt_values_def)

lemma values_sorted_distinct:
  assumes "ids_ok m"
  shows "sorted (map controller_device_id_for (bt_values m))"
    "distinct (map controller_device_id_for (bt_values m))"
  unfolding values_ids [OF assms] using assms
  by (auto simp: ids_ok_def bt_ok_def sorted_map distinct_map inj_on_def)

lemma ids_ok_insert: "ids_ok m \<Longrightarrow> controller_device_id_for v = Some k \<Longrightarrow> ids_ok (bt_insert k v m)"
  by (auto simp: ids_ok_def set_bt_insert bt_remove_def)

lemma sort_grants_insert:
  assumes m: "ids_ok m" and v: "controller_device_id_for v = Some k" and fresh: "bt_get m k = None"
  shows "sort_grants (bt_values m @ [v]) = bt_values (bt_insert k v m)"
proof (rule map_sorted_distinct_set_unique [of controller_device_id_for])
  note mi = ids_ok_insert [OF m v]
  have ok: "bt_ok m" using m by (simp add: ids_ok_def)
  have set_eq: "set (bt_values (bt_insert k v m)) = insert v (set (bt_values m))"
    using fresh by (auto simp: set_bt_values bt_get_insert ok split: if_splits)
      (metis option.distinct(1) option.inject)+
  show "set (sort_grants (bt_values m @ [v])) = set (bt_values (bt_insert k v m))"
    by (simp add: sort_grants_def set_eq)
  have "distinct (map controller_device_id_for (bt_values (bt_insert k v m)))"
    using values_sorted_distinct(2) [OF mi] .
  then show "inj_on controller_device_id_for
      (set (sort_grants (bt_values m @ [v])) \<union> set (bt_values (bt_insert k v m)))"
    by (simp add: sort_grants_def distinct_map set_eq)
  show "sorted (map controller_device_id_for (sort_grants (bt_values m @ [v])))"
    by (simp add: sort_grants_def)
  have "Some k \<notin> set (map controller_device_id_for (bt_values m))"
    unfolding values_ids [OF m] using fresh by (auto simp: bt_get_def map_of_eq_None_iff)
  then have "distinct (map controller_device_id_for (bt_values m @ [v]))"
    using values_sorted_distinct(2) [OF m] v by simp
  then show "distinct (map controller_device_id_for (sort_grants (bt_values m @ [v])))"
    by (simp only: sort_grants_def distinct_map distinct_sort set_sort)
qed (use values_sorted_distinct [OF ids_ok_insert [OF m v]] in auto)

lemma bt_overwrite:
  assumes "bt_ok m" "bt_get m k \<noteq> None"
  shows "bt_insert k y m = map (\<lambda>p. if fst p = k then (k, y) else p) m"
proof (rule bt_eqI)
  let ?m = "map (\<lambda>p. if fst p = k then (k, y) else p) m"
  have "map fst ?m = map fst m" by auto
  then show "bt_ok ?m" using assms(1) unfolding bt_ok_def by (simp only:)
  have "map_of (map (\<lambda>p. if fst p = k then (k, y) else p) n) k'
      = (if k' = k then map_option (\<lambda>_. y) (map_of n k) else map_of n k')" for n k'
    by (induction n) auto
  then have "map_of ?m k' = (if k' = k then Some y else map_of m k')" for k'
    using assms(2) by (auto simp: bt_get_def)
  then show "bt_get (bt_insert k y m) k' = bt_get ?m k'" for k'
    by (simp add: bt_get_insert [OF assms(1)]) (simp add: bt_get_def)
qed (simp add: assms(1))

lemma replace_first_values:
  assumes "ids_ok m" "bt_get m k = Some old"
  shows "replace_first (\<lambda>v. controller_device_id_for v = Some k) y (bt_values m) = Some (bt_values (bt_insert k y m))"
proof -
  have "\<lbrakk>distinct (map fst n); \<forall>(k, v) \<in> set n. controller_device_id_for v = Some k; k \<in> fst ` set n\<rbrakk>
    \<Longrightarrow> replace_first (\<lambda>v. controller_device_id_for v = Some k) y (map snd n)
      = Some (map snd (map (\<lambda>p. if fst p = k then (k, y) else p) n))" for n
  proof (induction n)
    case Nil
    then show ?case by simp
  next
    case (Cons p n)
    show ?case
    proof (cases "fst p = k")
      case True
      then have "k \<notin> fst ` set n" using Cons.prems(1) by auto
      then have "map (\<lambda>p. if fst p = k then (k, y) else p) n = n" by (intro map_idI) auto
      then show ?thesis using True Cons.prems(2) by (auto simp: split_def)
    next
      case False
      then show ?thesis using Cons by (auto simp: split_def)
    qed
  qed
  from this [of m] show ?thesis
    using assms by (simp add: bt_overwrite ids_ok_def bt_values_def bt_ok_def)
      (metis bt_get_def map_of_eq_None_iff option.distinct(1))
qed

lemma filter_values_remove:
  "ids_ok m \<Longrightarrow> filter (\<lambda>v. controller_device_id_for v \<noteq> Some k) (bt_values m) = bt_values (bt_remove k m)"
proof -
  have "\<forall>(k, v) \<in> set n. controller_device_id_for v = Some k \<Longrightarrow>
    filter (\<lambda>v. controller_device_id_for v \<noteq> Some k) (map snd n) = map snd (filter (\<lambda>p. fst p \<noteq> k) n)" for n
    by (induction n) auto
  then show "ids_ok m \<Longrightarrow> ?thesis" by (simp add: ids_ok_def bt_values_def bt_remove_def)
qed

lemma grants_ok_insert:
  assumes "grants_ok c host m" "validate_stored_grant c v host = Inr k"
    and "\<And>k' v'. bt_get m k' = Some v' \<Longrightarrow> k' \<noteq> k \<Longrightarrow> grant_id_of v' \<noteq> grant_id_of v"
    and "bt_get m k \<noteq> None \<or> length m < MAX_CONTROLLER_GRANTS"
  shows "grants_ok c host (bt_insert k v m)"
proof -
  have ok: "bt_ok m" using assms(1) by (simp add: grants_ok_def)
  show ?thesis
    unfolding grants_ok_def
  proof (intro conjI)
    show "length (bt_insert k v m) \<le> MAX_CONTROLLER_GRANTS"
      using assms(1,4) by (auto simp: length_bt_insert [OF ok] grants_ok_def)
    show "\<forall>k' v'. bt_get (bt_insert k v m) k' = Some v' \<longrightarrow> validate_stored_grant c v' host = Inr k'"
      using assms(1,2) by (auto simp: bt_get_insert [OF ok] grants_ok_def)
    show "\<forall>k1 v1 k2 v2. bt_get (bt_insert k v m) k1 = Some v1 \<longrightarrow> bt_get (bt_insert k v m) k2 = Some v2
        \<longrightarrow> grant_id_of v1 = grant_id_of v2 \<longrightarrow> k1 = k2"
      using assms(1,3) unfolding bt_get_insert [OF ok] grants_ok_def by (metis option.inject)
  qed (simp add: ok)
qed

lemma grants_ok_remove: "grants_ok c host m \<Longrightarrow> grants_ok c host (bt_remove k m)"
  by (auto simp: grants_ok_def bt_get_remove length_bt_remove split: if_splits)

section \<open>The registry and its store\<close>

text \<open>
  The registry is synchronised when loading from its store, as a restarted agent would, gives
  this very registry.
\<close>

definition synced :: "crypto \<Rightarrow> 's grant_store_ops \<Rightarrow> 's authorization_registry \<Rightarrow> bool" where
  "synced c ops r \<longleftrightarrow> authorization_load c ops (ar_host_device_id r) (ar_store r) = Inr r"

lemma synced_load:
  assumes "authorization_load c ops host store = Inr r"
  shows "synced c ops r"
proof -
  have "ar_host_device_id r = host" "ar_store r = store"
    using authorization_load_ok [OF assms] by simp_all
  then show ?thesis unfolding synced_def using assms by (simp only:)
qed

lemma synced_ok: "synced c ops r \<Longrightarrow> length (ar_host_device_id r) = 32 \<and> grants_ok c (ar_host_device_id r) (ar_grants r)"
  unfolding synced_def by (drule authorization_load_ok) simp

datatype auth_op =
    CreateGrant device_identity "session_permission list" u64 "nat \<Rightarrow> 128 word option"
  | RecordSession bytes u64
  | RevokeGrant bytes

fun auth_step ::
  "crypto \<Rightarrow> 's grant_store_ops \<Rightarrow> 's authorization_registry \<Rightarrow> auth_op
    \<Rightarrow> 's authorization_registry \<times> (authorization_error + controller_grant_view)" where
  "auth_step c ops r (CreateGrant d ps t draw) = create_controller_grant c ops draw r d ps t"
| "auth_step c ops r (RecordSession d t) = record_authenticated_session ops r d t"
| "auth_step c ops r (RevokeGrant i) = revoke_controller_grant ops r i"

text \<open>
  Whatever the store holds, each operation either leaves the registry alone, or persists the values of a well-formed map
  and installs that map.
\<close>

definition registry_plan ::
  "crypto \<Rightarrow> 's grant_store_ops \<Rightarrow> 's authorization_registry
    \<Rightarrow> ('s authorization_registry \<Rightarrow> 's authorization_registry \<times> (authorization_error + controller_grant_view)) \<Rightarrow> bool" where
  "registry_plan c ops r f \<longleftrightarrow>
     (\<exists>res. \<forall>st. f (r\<lparr>ar_store := st\<rparr>) = (r\<lparr>ar_store := st\<rparr>, res))
     \<or> (\<exists>m x. grants_ok c (ar_host_device_id r) m
          \<and> (\<forall>st. f (r\<lparr>ar_store := st\<rparr>) =
               persist_then ops (r\<lparr>ar_store := st\<rparr>) (bt_values m) (\<lambda>r'. (r'\<lparr>ar_grants := m\<rparr>, Inr x))))"

definition registry_change ::
  "crypto \<Rightarrow> 's grant_store_ops \<Rightarrow> 's authorization_registry
    \<Rightarrow> 's authorization_registry \<times> (authorization_error + controller_grant_view) \<Rightarrow> bool" where
  "registry_change c ops r out \<longleftrightarrow> fst out = r
     \<or> (\<exists>m x. grants_ok c (ar_host_device_id r) m
          \<and> out = persist_then ops r (bt_values m) (\<lambda>r'. (r'\<lparr>ar_grants := m\<rparr>, Inr x)))"

lemma generate_grant_id_fresh:
  assumes "generate_grant_id r draw = Inr i"
  shows "length i = 16 \<and> \<not> list_ex (has_grant_id i) (bt_values (ar_grants r))"
proof -
  have "grant_id_loop vs draw j n = Inr i \<Longrightarrow> length i = 16 \<and> \<not> list_ex (has_grant_id i) vs" for vs j n
    by (induction n arbitrary: j) (auto simp: bind_res_Inr Let_def GRANT_ID_BYTES_def split: if_splits)
  then show ?thesis using assms by (simp add: generate_grant_id_def)
qed

lemma has_grant_id_iff: "has_grant_id i v \<longleftrightarrow> grant_id_of v = Some i"
  by (auto simp: has_grant_id_def grant_id_of_def split: option.splits)

lemma plan_change: "registry_plan c ops r f \<Longrightarrow> registry_change c ops r (f r)"
  unfolding registry_plan_def registry_change_def
  by (erule disjE; elim exE conjE; drule spec [of _ "ar_store r"]) auto

lemma plan_persists:
  assumes "grants_ok c (ar_host_device_id r) m"
    and "\<And>st. f (r\<lparr>ar_store := st\<rparr>) =
      persist_then ops (r\<lparr>ar_store := st\<rparr>) (bt_values m) (\<lambda>r'. (r'\<lparr>ar_grants := m\<rparr>, Inr x))"
  shows "registry_plan c ops r f"
  unfolding registry_plan_def using assms by blast

lemma store_irrelevant [simp]:
  "generate_grant_id (r\<lparr>ar_store := st\<rparr>) draw = generate_grant_id r draw"
  "list_controller_grants (r\<lparr>ar_store := st\<rparr>) = list_controller_grants r"
  by (simp_all add: generate_grant_id_def list_controller_grants_def)

lemma plan_create:
  assumes "grants_ok c (ar_host_device_id r) (ar_grants r)"
  shows "registry_plan c ops r (\<lambda>r. create_controller_grant c ops draw r d ps t)"
proof (cases "\<exists>n i. validate_controller c d = Inr () \<and> di_device_id d \<noteq> ar_host_device_id r \<and> normalize_permissions ps = Inr n
    \<and> bt_get (ar_grants r) (di_device_id d) = None \<and> length (ar_grants r) < MAX_CONTROLLER_GRANTS
    \<and> generate_grant_id r draw = Inr i")
  case False
  then have "create_controller_grant c ops draw (r\<lparr>ar_store := st\<rparr>) d ps t
      = (r\<lparr>ar_store := st\<rparr>, snd (create_controller_grant c ops draw r d ps t))" for st
    by (auto simp: create_controller_grant_def not_le split: sum.splits if_splits option.splits)
  then show ?thesis by (auto simp: registry_plan_def)
next
  case True
  let ?m = "ar_grants r" and ?h = "ar_host_device_id r"
  from True obtain n i where
    step: "validate_controller c d = Inr ()" "di_device_id d \<noteq> ?h" "normalize_permissions ps = Inr n"
      "bt_get ?m (di_device_id d) = None" "length ?m < MAX_CONTROLLER_GRANTS"
      "generate_grant_id r draw = Inr i"
    by blast
  define v where "v = \<lparr>cgv_grant = Some \<lparr>cg_grant_id = i, cg_host_device_id = ?h, cg_controller = Some d,
      cg_created_at_unix_ms = t, cg_permissions = n\<rparr>, cgv_last_successful_connection_at_unix_ms = 0\<rparr>"
  have valid: "validate_stored_grant c v ?h = Inr (di_device_id d)"
    using step generate_grant_id_fresh [OF step(6)] normalize_stored_idem
    by (auto simp: validate_stored_grant_iff v_def normalize_permissions_def)
  have fresh: "grant_id_of v' \<noteq> grant_id_of v" if "bt_get ?m k' = Some v'" for k' v'
  proof -
    have "v' \<in> set (bt_values ?m)"
      using that assms by (auto simp: set_bt_values grants_ok_def)
    then show ?thesis
      using generate_grant_id_fresh [OF step(6)]
      by (auto simp: list_ex_iff has_grant_id_iff v_def) (auto simp: grant_id_of_def)
  qed
  have ok: "grants_ok c ?h (bt_insert (di_device_id d) v ?m)"
    using assms valid fresh step(5) by (intro grants_ok_insert) auto
  have snap: "sort_grants (list_controller_grants r @ [v]) = bt_values (bt_insert (di_device_id d) v ?m)"
    unfolding list_controller_grants_def
    using assms valid step(4) by (intro sort_grants_insert) (auto intro: ids_ok_grants stored_controller_id)
  have "create_controller_grant c ops draw (r\<lparr>ar_store := st\<rparr>) d ps t =
      persist_then ops (r\<lparr>ar_store := st\<rparr>) (bt_values (bt_insert (di_device_id d) v ?m))
        (\<lambda>r'. (r'\<lparr>ar_grants := bt_insert (di_device_id d) v ?m\<rparr>, Inr v))" for st
    using step snap by (simp add: create_controller_grant_def v_def [symmetric] not_le persist_then_def Let_def
        split: prod.splits sum.splits)
  then show ?thesis by (rule plan_persists [OF ok])
qed

lemma plan_record:
  assumes "grants_ok c (ar_host_device_id r) (ar_grants r)"
  shows "registry_plan c ops r (\<lambda>r. record_authenticated_session ops r d t)"
proof (cases "\<exists>old. bt_get (ar_grants r) d = Some old \<and> \<not> t \<le> cgv_last_successful_connection_at_unix_ms old")
  case False
  then have "record_authenticated_session ops (r\<lparr>ar_store := st\<rparr>) d t
      = (r\<lparr>ar_store := st\<rparr>, snd (record_authenticated_session ops r d t))" for st
    by (auto simp: record_authenticated_session_def split: option.splits)
  then show ?thesis by (auto simp: registry_plan_def)
next
  case True
  then obtain old where Some: "bt_get (ar_grants r) d = Some old" "\<not> t \<le> cgv_last_successful_connection_at_unix_ms old" by blast
  let ?m = "ar_grants r" and ?v = "old\<lparr>cgv_last_successful_connection_at_unix_ms := t\<rparr>"
  have valid: "validate_stored_grant c ?v (ar_host_device_id r) = Inr d"
    using assms Some by (auto simp: grants_ok_def validate_stored_grant_def)
  have gid: "grant_id_of ?v = grant_id_of old" by (simp add: grant_id_of_def)
  have ok: "grants_ok c (ar_host_device_id r) (bt_insert d ?v ?m)"
  proof (rule grants_ok_insert [OF assms valid])
    show "grant_id_of v' \<noteq> grant_id_of ?v" if "bt_get ?m k' = Some v'" "k' \<noteq> d" for k' v'
      using assms Some that unfolding gid grants_ok_def by metis
  qed (simp add: Some)
  have rep: "replace_first (\<lambda>v. controller_device_id_for v = Some d) ?v (list_controller_grants r)
      = Some (bt_values (bt_insert d ?v ?m))"
    unfolding list_controller_grants_def using assms Some by (intro replace_first_values ids_ok_grants)
  have "record_authenticated_session ops (r\<lparr>ar_store := st\<rparr>) d t
      = persist_then ops (r\<lparr>ar_store := st\<rparr>) (bt_values (bt_insert d ?v ?m))
        (\<lambda>r'. (r'\<lparr>ar_grants := bt_insert d ?v ?m\<rparr>, Inr ?v))" for st
    using Some rep by (simp add: record_authenticated_session_def Let_def persist_then_def split: prod.splits sum.splits)
  then show ?thesis by (rule plan_persists [OF ok])
qed

lemma plan_revoke:
  assumes "grants_ok c (ar_host_device_id r) (ar_grants r)"
  shows "registry_plan c ops r (\<lambda>r. revoke_controller_grant ops r i)"
proof (cases "find (\<lambda>(k, v). has_grant_id i v) (ar_grants r)")
  case None
  then show ?thesis by (simp add: registry_plan_def revoke_controller_grant_def)
next
  case (Some kv)
  obtain k v where kv: "kv = (k, v)" by fastforce
  let ?m = "ar_grants r"
  have get: "bt_get ?m k = Some v"
    using Some kv assms by (auto simp: find_Some_iff grants_ok_def intro!: bt_get_in_set)
      (metis nth_mem)
  have snap: "filter (\<lambda>v. controller_device_id_for v \<noteq> Some k) (list_controller_grants r) = bt_values (bt_remove k ?m)"
    unfolding list_controller_grants_def using assms by (intro filter_values_remove ids_ok_grants)
  have "revoke_controller_grant ops (r\<lparr>ar_store := st\<rparr>) i
      = persist_then ops (r\<lparr>ar_store := st\<rparr>) (bt_values (bt_remove k ?m)) (\<lambda>r'. (r'\<lparr>ar_grants := bt_remove k ?m\<rparr>, Inr v))" for st
    using Some kv snap get by (simp add: revoke_controller_grant_def persist_then_def Let_def split: prod.splits sum.splits)
  then show ?thesis by (rule plan_persists [OF grants_ok_remove [OF assms]])
qed

lemma plan_step:
  "grants_ok c (ar_host_device_id r) (ar_grants r) \<Longrightarrow> registry_plan c ops r (\<lambda>r. auth_step c ops r a)"
  by (cases a) (simp_all add: plan_create plan_record plan_revoke)

lemmas change_create = plan_change [OF plan_create]
  and change_record = plan_change [OF plan_record]
  and change_revoke = plan_change [OF plan_revoke]
  and change_step = plan_change [OF plan_step]

context grant_store
begin

lemma reload_persisted:
  assumes "store_persist ops s host (bt_values m) = (s', Inr u)" "grants_ok c host m" "length host = 32"
  shows "authorization_load c ops host s' = Inr \<lparr>ar_host_device_id = host, ar_store = s', ar_grants = m\<rparr>"
  using persist_ok [OF assms(1)] load_loop_values [OF assms(2)] assms(2,3)
  by (simp add: authorization_load_def grants_ok_def limits bt_values_def)

end

context atomic_grant_store
begin

lemma reload_failed:
  assumes "store_persist ops s host gs = (s', Inl e)" "authorization_load c ops host s = Inr r"
  shows "authorization_load c ops host s' = Inr (r\<lparr>ar_store := s'\<rparr>)"
  using persist_atomic [OF assms(1)] assms(2)
  by (auto simp: authorization_load_def bind_res_Inr split: if_splits)

lemma synced_change:
  assumes "synced c ops r" "registry_change c ops r out"
  shows "synced c ops (fst out)"
proof (cases "fst out = r")
  case True
  then show ?thesis using assms(1) by simp
next
  case False
  then obtain m x where m: "grants_ok c (ar_host_device_id r) m"
    "out = persist_then ops r (bt_values m) (\<lambda>r'. (r'\<lparr>ar_grants := m\<rparr>, Inr x))"
    using assms(2) by (auto simp: registry_change_def)
  obtain s' res where p: "store_persist ops (ar_store r) (ar_host_device_id r) (bt_values m) = (s', res)"
    by fastforce
  show ?thesis
  proof (cases res)
    case (Inl e)
    then show ?thesis
      using m(2) p reload_failed [OF p [unfolded Inl] assms(1) [unfolded synced_def]]
      by (simp add: persist_then_def synced_def)
  next
    case (Inr u)
    have "r\<lparr>ar_store := s', ar_grants := m\<rparr>
        = \<lparr>ar_host_device_id = ar_host_device_id r, ar_store = s', ar_grants = m\<rparr>"
      by (cases r) simp
    then show ?thesis
      using m(2) p Inr reload_persisted [OF p [unfolded Inr] m(1)] synced_ok [OF assms(1)]
      by (simp add: persist_then_def synced_def)
  qed
qed

end

sublocale atomic_grant_store \<subseteq> registry: machine "auth_step c ops" "synced c ops" for c
proof
  fix r a
  assume s: "synced c ops r"
  then have "registry_change c ops r (auth_step c ops r a)"
    using synced_ok [OF s] by (intro change_step) simp
  with s show "synced c ops (fst (auth_step c ops r a))" by (rule synced_change)
qed

section \<open>Effect of each operation on lookups\<close>

lemma persist_then_grants:
  "persist_then ops r snap (\<lambda>r'. (r'\<lparr>ar_grants := m\<rparr>, Inr x)) = (r', res) \<Longrightarrow>
     (case res of Inl _ \<Rightarrow> ar_grants r' = ar_grants r | Inr y \<Rightarrow> y = x \<and> ar_grants r' = m)
     \<and> ar_host_device_id r' = ar_host_device_id r"
  by (auto simp: persist_then_def Let_def split: prod.splits sum.splits)

lemma revoke_effect:
  assumes ok: "grants_ok c (ar_host_device_id r) (ar_grants r)"
    and rev: "revoke_controller_grant ops r i = (r', Inr view)"
  shows "\<exists>d. controller_device_id_for view = Some d \<and> has_grant_id i view
    \<and> controller_grant_of r d = Some view
    \<and> (\<forall>k. controller_grant_of r' k = (if k = d then None else controller_grant_of r k))"
proof -
  have m: "bt_ok (ar_grants r)" using ok by (simp add: grants_ok_def)
  from rev obtain k v where f: "find (\<lambda>(k, v). has_grant_id i v) (ar_grants r) = Some (k, v)"
    by (auto simp: revoke_controller_grant_def split: option.splits)
  then have kv: "bt_get (ar_grants r) k = Some v" "has_grant_id i v"
    using m by (auto simp: find_Some_iff intro!: bt_get_in_set) (metis nth_mem)
  have "view = v" "ar_grants r' = bt_remove k (ar_grants r)"
    using rev f kv(1)
    by (auto simp: revoke_controller_grant_def persist_then_def Let_def split: prod.splits sum.splits)
  moreover have "controller_device_id_for v = Some k"
    using ok kv(1) by (auto simp: grants_ok_def intro: stored_controller_id)
  ultimately show ?thesis
    using kv by (auto simp: controller_grant_of_def bt_get_remove)
qed

lemma create_effect:
  assumes "grants_ok c (ar_host_device_id r) (ar_grants r)"
    and "create_controller_grant c ops draw r d ps t = (r', Inr view)"
  shows "\<exists>g n. cgv_grant view = Some g \<and> cg_controller g = Some d \<and> cg_host_device_id g = ar_host_device_id r
      \<and> normalize_permissions ps = Inr n \<and> cg_permissions g = n \<and> di_device_id d \<noteq> ar_host_device_id r
      \<and> validate_controller c d = Inr ()
      \<and> ar_host_device_id r' = ar_host_device_id r
      \<and> (\<forall>k. controller_grant_of r' k = (if k = di_device_id d then Some view else controller_grant_of r k))"
proof -
  have m: "bt_ok (ar_grants r)" using assms(1) by (simp add: grants_ok_def)
  have valid: "validate_controller c d = Inr ()" "di_device_id d \<noteq> ar_host_device_id r"
    using assms(2) by (auto simp: create_controller_grant_def split: sum.splits if_splits)
  then obtain n where n: "normalize_permissions ps = Inr n"
    using assms(2) by (auto simp: create_controller_grant_def split: sum.splits if_splits)
  show ?thesis
  proof (cases "bt_get (ar_grants r) (di_device_id d)")
    case (Some old)
    then have "validate_stored_grant c old (ar_host_device_id r) = Inr (di_device_id d)"
      using assms(1) by (simp add: grants_ok_def)
    then obtain g where g: "cgv_grant old = Some g" "cg_host_device_id g = ar_host_device_id r"
      by (auto simp: validate_stored_grant_iff)
    then have "view = old" "r' = r" "cg_controller g = Some d" "cg_permissions g = n"
      using assms(2) valid n Some by (auto simp: create_controller_grant_def split: if_splits)
    with g valid n Some show ?thesis by (auto simp: controller_grant_of_def)
  next
    case None
    then obtain i where "view = \<lparr>cgv_grant = Some \<lparr>cg_grant_id = i, cg_host_device_id = ar_host_device_id r,
          cg_controller = Some d, cg_created_at_unix_ms = t, cg_permissions = n\<rparr>,
        cgv_last_successful_connection_at_unix_ms = 0\<rparr>"
      and "ar_grants r' = bt_insert (di_device_id d) view (ar_grants r)"
      and "ar_host_device_id r' = ar_host_device_id r"
      using assms(2) valid n
      by (auto simp: create_controller_grant_def persist_then_def Let_def
          split: sum.splits if_splits prod.splits)
    with valid n show ?thesis by (auto simp: controller_grant_of_def bt_get_insert [OF m])
  qed
qed

lemma create_idempotent:
  assumes "validate_controller c d = Inr ()" "di_device_id d \<noteq> ar_host_device_id r"
    and "normalize_permissions ps = Inr n" "controller_grant_of r (di_device_id d) = Some view"
    and "cgv_grant view = Some g" "cg_controller g = Some d" "cg_permissions g = n"
  shows "create_controller_grant c ops draw r d ps t = (r, Inr view)"
  using assms by (simp add: create_controller_grant_def controller_grant_of_def)

context atomic_grant_store
begin

lemma run_synced: "synced c ops r \<Longrightarrow> synced c ops (fst (run_steps (auth_step c ops) r as))"
  by (rule registry.run_inv)

end

text \<open>With the store of the tests a failed persist is never found by a later load, so the registry is always what a restart loads.\<close>

lemma memory_registry_synced:
  assumes "authorization_load c (memory_store n) host store = Inr r0"
  shows "synced c (memory_store n) (fst (run_steps (auth_step c (memory_store n)) r0 as))"
  using synced_load [OF assms] by (rule memory.run_synced)

section \<open>The registry on the file store\<close>

lemma scripted_reload:
  assumes "authorization_load c (file_store sha encode decode) h s = Inr r" "fst s' = fst s"
  shows "authorization_load c (file_store sha encode decode) h s' = Inr (r\<lparr>ar_store := s'\<rparr>)"
  using assms by (auto simp: authorization_load_def bind_res_Inr split: if_splits)

text \<open>What an operation does to a registry whose file may be one write ahead.\<close>

lemma scripted_auth_step:
  assumes sha: "digest_length sha" and codec: "snapshot_codec encode decode"
    and ops: "ops = file_store sha encode decode"
    and ok: "grants_ok c (ar_host_device_id r) (ar_grants r)" "length (ar_host_device_id r) = 32"
    and load: "authorization_load c ops (ar_host_device_id r) (ar_store r) = Inr (r\<lparr>ar_grants := m\<rparr>)"
    and step: "auth_step c ops r a = (r', res)"
  shows "ar_host_device_id r' = ar_host_device_id r \<and> grants_ok c (ar_host_device_id r) (ar_grants r')
    \<and> (\<exists>m'. authorization_load c ops (ar_host_device_id r) (ar_store r') = Inr (r'\<lparr>ar_grants := m'\<rparr>)
         \<and> (m' = ar_grants r' \<or> m' = m \<and> ar_grants r' = ar_grants r
            \<or> (\<exists>f e rest. ar_store r = (f, WriteFailedAfterRename e # rest)
                 \<and> res = Inl (AuthorizationError_Store GrantStoreError_Io) \<and> ar_grants r' = ar_grants r
                 \<and> m' = ar_grants (fst (auth_step c ops (r\<lparr>ar_store := (f, [])\<rparr>) a)))))"
  using plan_step [OF ok(1), of ops a, unfolded registry_plan_def]
proof (elim disjE exE conjE)
  fix res'
  assume "\<forall>st. auth_step c ops (r\<lparr>ar_store := st\<rparr>) a = (r\<lparr>ar_store := st\<rparr>, res')"
  from spec [OF this, of "ar_store r"] step have "r' = r" by simp
  then show ?thesis using ok load by blast
next
  fix n x
  assume n: "grants_ok c (ar_host_device_id r) n"
    and plan: "\<forall>st. auth_step c ops (r\<lparr>ar_store := st\<rparr>) a =
      persist_then ops (r\<lparr>ar_store := st\<rparr>) (bt_values n) (\<lambda>r'. (r'\<lparr>ar_grants := n\<rparr>, Inr x))"
  obtain f outs where st: "ar_store r = (f, outs)" by fastforce
  have upd: "r\<lparr>ar_store := (f, outs)\<rparr> = r" using st by (cases r) simp
  obtain s' pr where p: "store_persist ops (f, outs) (ar_host_device_id r) (bt_values n) = (s', pr)" by fastforce
  have out: "(r', res) = (case pr of Inl e \<Rightarrow> (r\<lparr>ar_store := s'\<rparr>, Inl (AuthorizationError_Store e))
      | Inr _ \<Rightarrow> (r\<lparr>ar_store := s', ar_grants := n\<rparr>, Inr x))"
    using spec [OF plan, of "ar_store r"] st p step upd by (simp add: persist_then_def Let_def)
  have new: "authorization_load c ops (ar_host_device_id r) s' = Inr (r\<lparr>ar_store := s', ar_grants := n\<rparr>)"
    if "file_load sha decode False None (fst s') (ar_host_device_id r) = Inr (bt_values n)"
    using load_loop_values [OF n] n ok(2) that
    by (cases r) (simp add: authorization_load_def ops grants_ok_def limits bt_values_def)
  from p [unfolded ops] show ?thesis
  proof (rule file_store_persist [OF sha codec])
    assume "pr = Inr ()" "file_load sha decode False None (fst s') (ar_host_device_id r) = Inr (bt_values n)"
    then show ?thesis using out new n by auto
  next
    fix e
    assume "pr = Inl e" "fst s' = f"
    then show ?thesis
      using out ok scripted_reload [OF load [unfolded ops], of s'] st by (auto simp: ops intro!: exI [of _ m])
  next
    fix e rest
    assume *: "outs = WriteFailedAfterRename e # rest" "pr = Inl GrantStoreError_Io"
      "file_load sha decode False None (fst s') (ar_host_device_id r) = Inr (bt_values n)"
      "store_persist (file_store sha encode decode) (f, []) (ar_host_device_id r) (bt_values n)
        = ((fst s', []), Inr ())"
    have "ar_grants (fst (auth_step c ops (r\<lparr>ar_store := (f, [])\<rparr>) a)) = n"
      using spec [OF plan, of "(f, [])"] *(4) by (simp add: persist_then_def ops)
    then show ?thesis using out ok new [OF *(3)] st * by (auto intro!: exI [of _ n])
  qed
qed

lemma scripted_run:
  assumes sha: "digest_length sha" and codec: "snapshot_codec encode decode"
    and ops: "ops = file_store sha encode decode"
    and load: "authorization_load c ops host store = Inr r0"
  defines "run \<equiv> \<lambda>xs. fst (run_steps (auth_step c ops) r0 xs)"
  shows "ar_host_device_id (run as) = host \<and> grants_ok c host (ar_grants (run as))
    \<and> (\<exists>m. authorization_load c ops host (ar_store (run as)) = Inr ((run as)\<lparr>ar_grants := m\<rparr>)
         \<and> (m = ar_grants (run as)
            \<or> (\<exists>xs a ys f e rest. as = xs @ a # ys \<and> ar_store (run xs) = (f, WriteFailedAfterRename e # rest)
                 \<and> snd (auth_step c ops (run xs) a) = Inl (AuthorizationError_Store GrantStoreError_Io)
                 \<and> ar_grants (run as) = ar_grants (run xs)
                 \<and> m = ar_grants (fst (auth_step c ops ((run xs)\<lparr>ar_store := (f, [])\<rparr>) a)))))"
proof (induction as rule: rev_induct)
  case Nil
  have "run [] = r0" by (simp add: run_def)
  then show ?case using authorization_load_ok [OF load] load by (auto intro!: exI [of _ "ar_grants r0"])
next
  case (snoc a as)
  have host: "length host = 32" using authorization_load_ok [OF load] by simp
  from snoc.IH obtain m where
    ih: "ar_host_device_id (run as) = host" "grants_ok c host (ar_grants (run as))"
      "authorization_load c ops host (ar_store (run as)) = Inr ((run as)\<lparr>ar_grants := m\<rparr>)"
      "m = ar_grants (run as) \<or> (\<exists>xs b ys f e rest. as = xs @ b # ys \<and> ar_store (run xs) = (f, WriteFailedAfterRename e # rest)
         \<and> snd (auth_step c ops (run xs) b) = Inl (AuthorizationError_Store GrantStoreError_Io)
         \<and> ar_grants (run as) = ar_grants (run xs)
         \<and> m = ar_grants (fst (auth_step c ops ((run xs)\<lparr>ar_store := (f, [])\<rparr>) b)))" by blast
  obtain r' res where step: "auth_step c ops (run as) a = (r', res)" by fastforce
  have run': "run (as @ [a]) = r'" using step by (simp add: run_def fst_run_steps_append split_def)
  from scripted_auth_step [OF sha codec ops _ _ _ step, of m] ih(1-3) host obtain m' where
    *: "ar_host_device_id r' = host" "grants_ok c host (ar_grants r')"
      "authorization_load c ops host (ar_store r') = Inr (r'\<lparr>ar_grants := m'\<rparr>)"
    and m': "m' = ar_grants r' \<or> m' = m \<and> ar_grants r' = ar_grants (run as)
      \<or> (\<exists>f e rest. ar_store (run as) = (f, WriteFailedAfterRename e # rest)
           \<and> res = Inl (AuthorizationError_Store GrantStoreError_Io) \<and> ar_grants r' = ar_grants (run as)
           \<and> m' = ar_grants (fst (auth_step c ops ((run as)\<lparr>ar_store := (f, [])\<rparr>) a)))"
    by auto
  have "m' = ar_grants r' \<or> (\<exists>xs b ys f e rest. as @ [a] = xs @ b # ys \<and> ar_store (run xs) = (f, WriteFailedAfterRename e # rest)
      \<and> snd (auth_step c ops (run xs) b) = Inl (AuthorizationError_Store GrantStoreError_Io)
      \<and> ar_grants r' = ar_grants (run xs)
      \<and> m' = ar_grants (fst (auth_step c ops ((run xs)\<lparr>ar_store := (f, [])\<rparr>) b)))"
    using m'
  proof (elim disjE conjE exE)
    fix f e rest
    assume "ar_store (run as) = (f, WriteFailedAfterRename e # rest)"
      "res = Inl (AuthorizationError_Store GrantStoreError_Io)" "ar_grants r' = ar_grants (run as)"
      "m' = ar_grants (fst (auth_step c ops ((run as)\<lparr>ar_store := (f, [])\<rparr>) a))"
    then show ?thesis using step by (intro disjI2 exI [of _ as] exI [of _ a] exI [of _ "[]"] exI) auto
  next
    assume keep: "m' = m" "ar_grants r' = ar_grants (run as)"
    have "as @ [a] = xs @ b # ys @ [a]" if "as = xs @ b # ys" for xs b ys using that by simp
    then show ?thesis unfolding keep using ih(4) by blast
  qed simp
  with * show ?case unfolding run' by blast
qed

text \<open>Each persist uses up one outcome of the file system.\<close>

lemma tl_subset: "set (tl xs) \<subseteq> set xs"
  by (cases xs) auto

lemma scripted_outcomes:
  assumes "grants_ok c (ar_host_device_id r) (ar_grants r)"
  shows "set (snd (ar_store (fst (auth_step c (file_store sha encode decode) r a)))) \<subseteq> set (snd (ar_store r))"
proof -
  have "snd (fst (store_persist (file_store sha encode decode) s h gs)) = tl (snd s)" for s h gs
    by (simp add: file_store_def split_def Let_def)
  then have sub: "set (snd (ar_store (fst (persist_then (file_store sha encode decode) r gs
      (\<lambda>r'. (r'\<lparr>ar_grants := m\<rparr>, Inr x)))))) \<subseteq> set (snd (ar_store r))" for gs m and x :: controller_grant_view
    by (auto simp: persist_then_def split_def Let_def dest!: tl_subset [THEN subsetD] split: sum.splits)
  from plan_change [OF plan_step [OF assms, of "file_store sha encode decode" a]] show ?thesis
    unfolding registry_change_def by (elim disjE exE conjE) (simp_all add: sub)
qed

lemma scripted_run_outcomes:
  assumes "digest_length sha" "snapshot_codec encode decode"
    and load: "authorization_load c (file_store sha encode decode) host store = Inr r0"
  shows "set (snd (ar_store (fst (run_steps (auth_step c (file_store sha encode decode)) r0 as)))) \<subseteq> set (snd store)"
proof (induction as rule: rev_induct)
  case Nil
  then show ?case using authorization_load_ok [OF load] by simp
next
  case (snoc a as)
  let ?r = "fst (run_steps (auth_step c (file_store sha encode decode)) r0 as)"
  have "grants_ok c (ar_host_device_id ?r) (ar_grants ?r)" using scripted_run [OF assms(1,2) refl load, of as] by simp
  from subset_trans [OF scripted_outcomes [OF this] snoc.IH] show ?case by (simp add: fst_run_steps_append split_def Let_def)
qed

section \<open>Examples\<close>

definition example_crypto :: crypto where
  "example_crypto = \<lparr>sha256 = (\<lambda>_. replicate 32 7), verifying_key_ok = (\<lambda>_. True),
     ed25519_verify = (\<lambda>_ _ _. True)\<rparr>"

definition example_host :: bytes where
  "example_host = replicate 32 2"

definition example_controller :: device_identity where
  "example_controller = \<lparr>di_device_id = replicate 32 7, di_public_key_algorithm = 1,
     di_public_key = replicate 32 1, di_display_name = ''phone'', di_platform = 1\<rparr>"

definition example_view :: controller_grant_view where
  "example_view = \<lparr>cgv_grant = Some \<lparr>cg_grant_id = replicate 16 0, cg_host_device_id = example_host,
       cg_controller = Some example_controller, cg_created_at_unix_ms = 5, cg_permissions = [1, 2]\<rparr>,
     cgv_last_successful_connection_at_unix_ms = 0\<rparr>"

lemma example_controller_valid: "validate_controller example_crypto example_controller = Inr ()"
proof -
  have "identity_ok example_controller"
    by (simp add: identity_ok_def example_controller_def range_eqI [of _ _ DevicePlatform_Ios])
  then have "validate_device_identity example_controller = Inr ()" by (simp add: validate_device_identity_iff)
  then show ?thesis
    by (simp add: validate_controller_def derive_device_id_v1_def example_controller_def example_crypto_def limits)
qed

lemma example_view_valid: "validate_stored_grant example_crypto example_view example_host = Inr (replicate 32 7)"
proof -
  have "normalize_stored_permissions [1, 2] = Inr [1, 2]" by (simp add: normalize_stored_iff)
  then show ?thesis
    using example_controller_valid
    by (auto simp: validate_stored_grant_iff example_view_def example_host_def)
      (auto simp: example_controller_def)
qed

lemma example_registry_load:
  assumes "store_load ops s example_host = Inr [example_view]"
  shows "authorization_load example_crypto ops example_host s
    = Inr \<lparr>ar_host_device_id = example_host, ar_store = s, ar_grants = [(replicate 32 7, example_view)]\<rparr>"
proof -
  have "cgv_grant example_view \<noteq> None" by (simp add: example_view_def)
  then show ?thesis
    using assms example_view_valid
    by (auto simp: authorization_load_def example_host_def limits bt_insert_def bt_remove_def bt_empty_def bt_get_def)
qed

definition example_encode :: "host_authorization_snapshot \<Rightarrow> bytes" where
  "example_encode s = (if s = \<lparr>has_host_device_id = example_host, has_grants = [example_view]\<rparr> then [1]
     else replicate (Suc MAX_HOST_AUTHORIZATION_SNAPSHOT_BYTES) 0)"

definition example_decode :: "bytes \<Rightarrow> host_authorization_snapshot option" where
  "example_decode bs = (if bs = [1] then Some \<lparr>has_host_device_id = example_host, has_grants = [example_view]\<rparr> else None)"

definition example_file_ops :: "(file_grant_store \<times> write_outcome list) grant_store_ops" where
  "example_file_ops = file_store (\<lambda>_. replicate 32 9) example_encode example_decode"

lemma example_codec: "digest_length (\<lambda>_. replicate 32 9)" "snapshot_codec example_encode example_decode"
proof -
  have "replicate (Suc MAX_HOST_AUTHORIZATION_SNAPSHOT_BYTES) (0 :: u8) \<noteq> [1]"
    by (rule notI, drule arg_cong [of _ _ length]) (simp add: limits)
  then show "snapshot_codec example_encode example_decode"
    by (auto simp: snapshot_codec_def example_encode_def example_decode_def simp del: replicate_Suc)
qed (simp add: digest_length_def)

lemma example_file_load:
  "authorization_load example_crypto example_file_ops example_host (\<lparr>fgs_file = None\<rparr>, outs)
     = Inr \<lparr>ar_host_device_id = example_host, ar_store = (\<lparr>fgs_file = None\<rparr>, outs), ar_grants = []\<rparr>"
  by (simp add: authorization_load_def example_file_ops_def file_load_def example_host_def limits bt_empty_def)

lemma example_file_create:
  defines "r0 \<equiv> \<lparr>ar_host_device_id = example_host, ar_store = (\<lparr>fgs_file = None\<rparr>, [WriteFailedAfterRename RestrictedFsError_Io]),
      ar_grants = []\<rparr>"
  shows "\<exists>f. auth_step example_crypto example_file_ops r0
      (CreateGrant example_controller [SessionPermission_ViewScreen, SessionPermission_ControlInput] 5 (\<lambda>_. Some 0))
    = (r0\<lparr>ar_store := (f, [])\<rparr>, Inl (AuthorizationError_Store GrantStoreError_Io))"
proof -
  have "normalize_permissions [SessionPermission_ViewScreen, SessionPermission_ControlInput] = Inr [1, 2]"
    by (simp add: normalize_permissions_def normalize_stored_iff)
  moreover have "generate_grant_id r0 (\<lambda>_. Some 0) = Inr (replicate 16 0)"
  proof -
    have "be_bytes n 0 = replicate n 0" for n by (induction n) (simp_all add: replicate_append_same)
    moreover have "(16 :: nat) = Suc 15" by simp
    ultimately have "grant_id_loop [] (\<lambda>_. Some 0) 0 16 = Inr (replicate 16 0)"
      by (simp only: grant_id_loop.simps) (simp add: GRANT_ID_BYTES_def)
    then show ?thesis
      by (simp only: generate_grant_id_def r0_def GRANT_ID_GENERATION_ATTEMPTS_def) (simp add: bt_values_def)
  qed
  moreover have "di_device_id example_controller \<noteq> example_host" by (simp add: example_controller_def example_host_def)
  moreover have "sort_grants [example_view] = [example_view]" by (simp add: sort_grants_def)
  ultimately show ?thesis
    using example_controller_valid
    by (simp add: create_controller_grant_def r0_def bt_get_def limits list_controller_grants_def bt_values_def
       example_view_def [symmetric] persist_then_def example_file_ops_def file_store_def file_persist_def Let_def
       example_encode_def)
qed

section \<open>Properties\<close>

text \<open>
  C18. What a restarted Host agent finds in its file.  After any sequence of grant creations, session records and revocations on the file
  store, in which any write may fail before or after the rename, loading succeeds.  It gives exactly the registry that was in memory, unless
  the write of one of those operations failed after its rename; then that operation reported a store error, the grants in memory are still
  those from before it, and the restarted registry holds exactly the grants the operation would have left had its write succeeded.
  Either way at most 256 grants are held, each of them valid for this Host.
\<close>

theorem registry_survives_restart:
  assumes "digest_length sha" "snapshot_codec encode decode"
    and "ops = file_store sha encode decode"
    and "authorization_load c ops host (file, outcomes) = Inr r0"
    and "r = fst (run_steps (auth_step c ops) r0 as)"
  shows "\<exists>restarted. authorization_load c ops host (ar_store r) = Inr restarted
    \<and> (\<forall>s \<in> {r, restarted}. ar_host_device_id s = host \<and> length (list_controller_grants s) \<le> 256
         \<and> (\<forall>k v. controller_grant_of s k = Some v \<longrightarrow> validate_stored_grant c v host = Inr k))
    \<and> (restarted = r
       \<or> (\<exists>xs a ys before f e rest. as = xs @ a # ys \<and> before = fst (run_steps (auth_step c ops) r0 xs)
            \<and> ar_store before = (f, WriteFailedAfterRename e # rest) \<and> WriteFailedAfterRename e \<in> set outcomes
            \<and> snd (auth_step c ops before a) = Inl (AuthorizationError_Store GrantStoreError_Io)
            \<and> ar_grants r = ar_grants before
            \<and> restarted = r\<lparr>ar_grants := ar_grants (fst (auth_step c ops (before\<lparr>ar_store := (f, [])\<rparr>) a))\<rparr>))"
proof -
  let ?run = "\<lambda>xs. fst (run_steps (auth_step c ops) r0 xs)"
  from scripted_run [OF assms(1-4), of as] obtain m where
    r: "ar_host_device_id r = host" "grants_ok c host (ar_grants r)"
      "authorization_load c ops host (ar_store r) = Inr (r\<lparr>ar_grants := m\<rparr>)"
    and m: "m = ar_grants r \<or> (\<exists>xs a ys f e rest. as = xs @ a # ys \<and> ar_store (?run xs) = (f, WriteFailedAfterRename e # rest)
      \<and> snd (auth_step c ops (?run xs) a) = Inl (AuthorizationError_Store GrantStoreError_Io)
      \<and> ar_grants r = ar_grants (?run xs) \<and> m = ar_grants (fst (auth_step c ops ((?run xs)\<lparr>ar_store := (f, [])\<rparr>) a)))"
    unfolding assms(5) by blast
  have used: "WriteFailedAfterRename e \<in> set outcomes" if "ar_store (?run xs) = (f, WriteFailedAfterRename e # rest)" for xs f e rest
    using scripted_run_outcomes [OF assms(1,2) assms(4) [unfolded assms(3)], of xs] that unfolding assms(3) by auto
  have "grants_ok c host m" using authorization_load_ok [OF r(3)] by simp
  with r(1,2) have "\<forall>s \<in> {r, r\<lparr>ar_grants := m\<rparr>}. ar_host_device_id s = host \<and> length (list_controller_grants s) \<le> 256
      \<and> (\<forall>k v. controller_grant_of s k = Some v \<longrightarrow> validate_stored_grant c v host = Inr k)"
    by (simp add: grants_ok_def list_controller_grants_def bt_values_def controller_grant_of_def limits)
  moreover have "r\<lparr>ar_grants := m\<rparr> = r \<or> (\<exists>xs a ys before f e rest. as = xs @ a # ys \<and> before = ?run xs
      \<and> ar_store before = (f, WriteFailedAfterRename e # rest) \<and> WriteFailedAfterRename e \<in> set outcomes
      \<and> snd (auth_step c ops before a) = Inl (AuthorizationError_Store GrantStoreError_Io) \<and> ar_grants r = ar_grants before
      \<and> r\<lparr>ar_grants := m\<rparr> = r\<lparr>ar_grants := ar_grants (fst (auth_step c ops (before\<lparr>ar_store := (f, [])\<rparr>) a))\<rparr>)"
    using m
  proof (elim disjE exE conjE)
    fix xs a ys f e rest
    assume *: "as = xs @ a # ys" "ar_store (?run xs) = (f, WriteFailedAfterRename e # rest)"
      "snd (auth_step c ops (?run xs) a) = Inl (AuthorizationError_Store GrantStoreError_Io)"
      "ar_grants r = ar_grants (?run xs)" "m = ar_grants (fst (auth_step c ops ((?run xs)\<lparr>ar_store := (f, [])\<rparr>) a))"
    show ?thesis
      unfolding *(5)
      by (rule disjI2, intro exI [of _ xs] exI [of _ a] exI [of _ ys] exI [of _ "?run xs"] exI [of _ f] exI [of _ e]
          exI [of _ rest] conjI * refl used [OF *(2)])
  qed simp
  ultimately show ?thesis using r(3) by blast
qed

theorem registry_survives_restart_witness:
  "\<exists>r restarted. fst (run_steps (auth_step example_crypto example_file_ops)
       \<lparr>ar_host_device_id = example_host, ar_store = (\<lparr>fgs_file = None\<rparr>, [WriteFailedAfterRename RestrictedFsError_Io]), ar_grants = []\<rparr>
       [CreateGrant example_controller [SessionPermission_ViewScreen, SessionPermission_ControlInput] 5 (\<lambda>_. Some 0)]) = r
     \<and> ar_grants r = [] \<and> authorization_load example_crypto example_file_ops example_host (ar_store r) = Inr restarted
     \<and> length (list_controller_grants restarted) \<le> 256"
proof -
  let ?r0 = "\<lparr>ar_host_device_id = example_host, ar_store = (\<lparr>fgs_file = None\<rparr>, [WriteFailedAfterRename RestrictedFsError_Io]),
      ar_grants = []\<rparr>"
  let ?as = "[CreateGrant example_controller [SessionPermission_ViewScreen, SessionPermission_ControlInput] 5 (\<lambda>_. Some 0)]"
  have "ar_grants (fst (run_steps (auth_step example_crypto example_file_ops) ?r0 ?as)) = []"
    using example_file_create by (auto simp del: auth_step.simps)
  with registry_survives_restart [OF example_codec example_file_ops_def example_file_load refl,
      of "[WriteFailedAfterRename RestrictedFsError_Io]" ?as]
  show ?thesis by blast
qed

text \<open>
  A grant is what was asked for, for nobody else, and asking twice is asking once.  When a
  grant is created, or returned, the view stored for that Controller names exactly this verified identity and
  this Host and the requested permissions in normal form; the Controller is not the Host itself; every other Controller's grant is as
  before; and repeating the request, with any clock and any random source, returns the same view and leaves the
  registry as it is.
\<close>

theorem grant_creation_exact:
  assumes "synced c ops r"
    and "create_controller_grant c ops draw r d ps t = (r', Inr view)"
  shows "controller_grant_of r' (di_device_id d) = Some view
    \<and> (\<exists>g. cgv_grant view = Some g \<and> cg_controller g = Some d \<and> cg_host_device_id g = ar_host_device_id r
         \<and> normalize_permissions ps = Inr (cg_permissions g))
    \<and> di_device_id d \<noteq> ar_host_device_id r
    \<and> derive_device_id_v1 (sha256 c) (di_public_key d) = Inr (di_device_id d)
    \<and> (\<forall>k. k \<noteq> di_device_id d \<longrightarrow> controller_grant_of r' k = controller_grant_of r k)
    \<and> create_controller_grant c ops draw' r' d ps t' = (r', Inr view)"
proof -
  have ok: "grants_ok c (ar_host_device_id r) (ar_grants r)" using synced_ok [OF assms(1)] by simp
  from create_effect [OF ok assms(2)] obtain g n where
    e: "cgv_grant view = Some g" "cg_controller g = Some d" "cg_host_device_id g = ar_host_device_id r"
      "normalize_permissions ps = Inr n" "cg_permissions g = n" "di_device_id d \<noteq> ar_host_device_id r"
      "validate_controller c d = Inr ()" "ar_host_device_id r' = ar_host_device_id r"
      "\<And>k. controller_grant_of r' k = (if k = di_device_id d then Some view else controller_grant_of r k)"
    by auto
  have "create_controller_grant c ops draw' r' d ps t' = (r', Inr view)"
    using e by (intro create_idempotent) auto
  moreover have "derive_device_id_v1 (sha256 c) (di_public_key d) = Inr (di_device_id d)"
    using e(7) by (auto simp: validate_controller_def bind_res_Inr split: if_splits)
  ultimately show ?thesis using e by auto
qed

definition example_registry :: "memory_grant_store authorization_registry" where
  "example_registry = \<lparr>ar_host_device_id = example_host, ar_store = memory_grant_store_new\<lparr>mgs_snapshot :=
     Healthy (Some \<lparr>has_host_device_id = example_host, has_grants = [example_view]\<rparr>)\<rparr>,
     ar_grants = [(replicate 32 7, example_view)]\<rparr>"

lemma example_registry_synced: "synced example_crypto (memory_store (\<lambda>_. 0)) example_registry"
  using example_registry_load [of "memory_store (\<lambda>_. 0)" "ar_store example_registry"]
  by (simp add: synced_def example_registry_def memory_store_def memory_load_def)

lemma example_create:
  "create_controller_grant example_crypto (memory_store (\<lambda>_. 0)) draw example_registry example_controller
     [SessionPermission_ControlInput, SessionPermission_ViewScreen] 9 = (example_registry, Inr example_view)"
proof (rule create_idempotent [OF example_controller_valid])
  show "normalize_permissions [SessionPermission_ControlInput, SessionPermission_ViewScreen] = Inr [1, 2]"
    by (simp add: normalize_permissions_def normalize_stored_iff)
  show "cgv_grant example_view = Some \<lparr>cg_grant_id = replicate 16 0, cg_host_device_id = example_host,
      cg_controller = Some example_controller, cg_created_at_unix_ms = 5, cg_permissions = [1, 2]\<rparr>"
    by (simp add: example_view_def)
qed (simp_all add: example_registry_def controller_grant_of_def bt_get_def example_controller_def example_host_def)

theorem grant_creation_exact_witness:
  "controller_grant_of example_registry (replicate 32 7) = Some example_view
   \<and> create_controller_grant example_crypto (memory_store (\<lambda>_. 0)) (\<lambda>_. None) example_registry example_controller
       [SessionPermission_ControlInput, SessionPermission_ViewScreen] 11 = (example_registry, Inr example_view)"
  using grant_creation_exact [OF example_registry_synced example_create [of "\<lambda>_. Some 1"], of "\<lambda>_. None" 11]
  by (simp add: example_controller_def)

text \<open>
  Revocation is exact and is reported honestly.  When a revocation succeeds, the grant with that
  identifier is gone and every other grant is untouched; when it fails, for whatever reason, no grant in memory has
  changed.
\<close>

theorem revocation_exact:
  assumes "synced c ops r"
    and "revoke_controller_grant ops r i = (r', res)"
  shows "case res of
      Inr view \<Rightarrow> (\<exists>d. controller_device_id_for view = Some d \<and> has_grant_id i view
        \<and> controller_grant_of r d = Some view
        \<and> (\<forall>k. controller_grant_of r' k = (if k = d then None else controller_grant_of r k)))
    | Inl _ \<Rightarrow> controller_grant_of r' = controller_grant_of r"
proof (cases res)
  case (Inr view)
  have ok: "grants_ok c (ar_host_device_id r) (ar_grants r)" using synced_ok [OF assms(1)] by simp
  show ?thesis using revoke_effect [OF ok, of ops i r' view] assms(2) Inr by simp
next
  case (Inl e)
  have "ar_grants r' = ar_grants r"
    using assms(2) Inl
    by (auto simp: revoke_controller_grant_def persist_then_def Let_def
        split: option.splits prod.splits sum.splits)
  then show ?thesis using Inl by (auto simp: controller_grant_of_def)
qed

theorem revocation_exact_witness:
  "case snd (revoke_controller_grant (memory_store (\<lambda>_. 0)) example_registry (replicate 16 0)) of
     Inl _ \<Rightarrow> False
   | Inr view \<Rightarrow> (\<exists>d. controller_device_id_for view = Some d
       \<and> controller_grant_of (fst (revoke_controller_grant (memory_store (\<lambda>_. 0)) example_registry (replicate 16 0))) d = None)"
proof -
  define out where "out = revoke_controller_grant (memory_store (\<lambda>_. 0)) example_registry (replicate 16 0)"
  have ok: "is_ok (snd out)"
    by (simp add: out_def revoke_controller_grant_def example_registry_def has_grant_id_def example_view_def
        persist_then_def memory_store_def memory_persist_def memory_grant_store_new_def limits bt_get_def)
  have "revoke_controller_grant (memory_store (\<lambda>_. 0)) example_registry (replicate 16 0) = (fst out, snd out)"
    by (simp add: out_def)
  from revocation_exact [OF example_registry_synced this] ok show ?thesis
    unfolding out_def [symmetric] by (auto split: sum.splits)
qed

end
