(* ===== verification/Session_Auth.thy ===== *)
theory Session_Auth
  imports Authorization
begin

text \<open>
  Authentication of session offers, \<^verbatim>\<open>crates/host-agent/src/session_auth.rs\<close>: the verifier that
  checks every binding of an offer before a peer connection exists, with its replay cache, and
  the three signed transcripts.
\<close>

section \<open>Data\<close>

definition SESSION_AUTH_MAX_LIFETIME_MS :: u64 where
  [limits]: "SESSION_AUTH_MAX_LIFETIME_MS = 30000"

definition SESSION_AUTH_FUTURE_SKEW_MS :: u64 where
  [limits]: "SESSION_AUTH_FUTURE_SKEW_MS = 10000"

definition MAX_REPLAY_CACHE_ENTRIES :: nat where
  [limits]: "MAX_REPLAY_CACHE_ENTRIES = 1024"

datatype session_authentication_error =
    SessionAuthenticationError_InvalidHostIdentity
  | SessionAuthenticationError_InvalidOffer
  | SessionAuthenticationError_HostMismatch
  | SessionAuthenticationError_NotYetValid
  | SessionAuthenticationError_Expired
  | SessionAuthenticationError_LifetimeTooLong
  | SessionAuthenticationError_InvalidPermissions
  | SessionAuthenticationError_ControllerNotAuthorized
  | SessionAuthenticationError_PermissionDenied
  | SessionAuthenticationError_OfferHashMismatch
  | SessionAuthenticationError_FingerprintMismatch
  | SessionAuthenticationError_InvalidSignature
  | SessionAuthenticationError_Replay
  | SessionAuthenticationError_ReplayCacheFull
  | SessionAuthenticationError_InvalidTranscript

record verified_session_offer =
  vso_controller :: device_identity
  vso_session_id :: bytes
  vso_permissions :: "session_permission list"

record offer_verifier =
  ov_host_device_id :: bytes
  ov_used_nonces :: "(bytes, u64) btree"

definition offer_verifier_new :: "bytes \<Rightarrow> session_authentication_error + offer_verifier" where
  "offer_verifier_new host_device_id =
     (if length host_device_id \<noteq> DEVICE_ID_BYTES then Inl SessionAuthenticationError_InvalidHostIdentity
      else Inr \<lparr>ov_host_device_id = host_device_id, ov_used_nonces = bt_empty\<rparr>)"

section \<open>Checks\<close>

definition validate_fixed_fields :: "session_offer_authentication \<Rightarrow> session_authentication_error + unit" where
  "validate_fixed_fields a =
     (if length (soa_controller_device_id a) \<noteq> DEVICE_ID_BYTES
        \<or> length (soa_host_device_id a) \<noteq> DEVICE_ID_BYTES
        \<or> length (soa_session_id a) \<noteq> SESSION_ID_BYTES
        \<or> length (soa_nonce a) \<noteq> NONCE_OR_HASH_BYTES
        \<or> length (soa_offer_sha256 a) \<noteq> NONCE_OR_HASH_BYTES
        \<or> length (soa_controller_dtls_fingerprint_sha256 a) \<noteq> NONCE_OR_HASH_BYTES
        \<or> length (soa_signature a) \<noteq> SIGNATURE_BYTES
      then Inl SessionAuthenticationError_InvalidOffer else Inr ())"

definition validate_time ::
  "session_offer_authentication \<Rightarrow> u64 \<Rightarrow> session_authentication_error + unit" where
  "validate_time a now_unix_ms =
     bind_res (ok_or SessionAuthenticationError_Expired
       (checked_sub (soa_expires_at_unix_ms a) (soa_issued_at_unix_ms a))) (\<lambda>lifetime.
     if lifetime > SESSION_AUTH_MAX_LIFETIME_MS then Inl SessionAuthenticationError_LifetimeTooLong
     else if soa_issued_at_unix_ms a > saturating_add now_unix_ms SESSION_AUTH_FUTURE_SKEW_MS
       then Inl SessionAuthenticationError_NotYetValid
     else if soa_expires_at_unix_ms a < now_unix_ms then Inl SessionAuthenticationError_Expired
     else Inr ())"

fun session_permission_loop ::
  "i32 option \<Rightarrow> i32 list \<Rightarrow> session_authentication_error + session_permission list" where
  "session_permission_loop previous [] = Inr []"
| "session_permission_loop previous (value # rest) =
     bind_res (ok_or SessionAuthenticationError_InvalidPermissions (session_permission_of value)) (\<lambda>permission.
     if permission = SessionPermission_Unspecified
       \<or> (case previous of None \<Rightarrow> False | Some p \<Rightarrow> value \<le> p)
     then Inl SessionAuthenticationError_InvalidPermissions
     else bind_res (session_permission_loop (Some value) rest) (\<lambda>permissions.
       Inr (permission # permissions)))"

definition normalize_session_permissions ::
  "i32 list \<Rightarrow> session_authentication_error + session_permission list" where
  "normalize_session_permissions values =
     (if values = [] then Inl SessionAuthenticationError_InvalidPermissions
      else bind_res (session_permission_loop None values) (\<lambda>permissions.
        if SessionPermission_ControlInput \<in> set permissions \<and> SessionPermission_ViewScreen \<notin> set permissions
        then Inl SessionAuthenticationError_InvalidPermissions else Inr permissions))"

definition permission_bits :: "i32 list \<Rightarrow> session_authentication_error + u32" where
  "permission_bits values =
     bind_res (normalize_session_permissions values) (\<lambda>permissions.
       Inr (foldl (\<lambda>bits permission. or bits (word_of_int (session_permission_code permission))) 0 permissions))"

definition verify_signature ::
  "crypto \<Rightarrow> device_identity \<Rightarrow> bytes \<Rightarrow> bytes \<Rightarrow> session_authentication_error + unit" where
  "verify_signature c controller transcript signature =
     (if length (di_public_key controller) \<noteq> 32 then Inl SessionAuthenticationError_InvalidSignature
      else if \<not> verifying_key_ok c (di_public_key controller) then Inl SessionAuthenticationError_InvalidSignature
      else if length signature \<noteq> 64 then Inl SessionAuthenticationError_InvalidSignature
      else if \<not> ed25519_verify c (di_public_key controller) transcript signature
        then Inl SessionAuthenticationError_InvalidSignature
      else Inr ())"

definition nonce_key :: "session_offer_authentication \<Rightarrow> bytes" where
  "nonce_key a = soa_controller_device_id a @ soa_nonce a"

section \<open>Signed transcripts\<close>

definition transcript_field_of :: "u16 \<Rightarrow> bytes \<Rightarrow> transcript_field" where
  "transcript_field_of tag value = \<lparr>tf_tag = tag, tf_value = value\<rparr>"

definition map_transcript_error :: "transcript_error \<Rightarrow> session_authentication_error" where
  "map_transcript_error e = SessionAuthenticationError_InvalidTranscript"

definition offer_transcript :: "session_offer_authentication \<Rightarrow> u32 \<Rightarrow> canonical_transcript" where
  "offer_transcript a bits =
       \<lparr>ct_purpose = TranscriptPurpose_SessionOffer, ct_fields =
         [transcript_field_of 1 (soa_controller_device_id a),
          transcript_field_of 2 (soa_host_device_id a),
          transcript_field_of 8 (soa_session_id a),
          transcript_field_of 9 (soa_nonce a),
          transcript_field_of 10 (u64_to_be (soa_issued_at_unix_ms a)),
          transcript_field_of 11 (u64_to_be (soa_expires_at_unix_ms a)),
          transcript_field_of 12 (u32_to_be bits),
          transcript_field_of 13 (soa_offer_sha256 a),
          transcript_field_of 14 (soa_controller_dtls_fingerprint_sha256 a)]\<rparr>"

definition encode_session_offer_transcript ::
  "session_offer_authentication \<Rightarrow> session_authentication_error + bytes" where
  "encode_session_offer_transcript a =
     bind_res (permission_bits (soa_requested_permissions a)) (\<lambda>bits.
     map_err map_transcript_error (transcript_encode (offer_transcript a bits)))"

definition answer_transcript :: "session_answer_authentication \<Rightarrow> u32 \<Rightarrow> canonical_transcript" where
  "answer_transcript a bits =
       \<lparr>ct_purpose = TranscriptPurpose_SessionAnswer, ct_fields =
         [transcript_field_of 1 (saa_controller_device_id a),
          transcript_field_of 2 (saa_host_device_id a),
          transcript_field_of 8 (saa_session_id a),
          transcript_field_of 9 (saa_nonce a),
          transcript_field_of 10 (u64_to_be (saa_issued_at_unix_ms a)),
          transcript_field_of 11 (u64_to_be (saa_expires_at_unix_ms a)),
          transcript_field_of 12 (u32_to_be bits),
          transcript_field_of 13 (saa_offer_sha256 a),
          transcript_field_of 14 (saa_controller_dtls_fingerprint_sha256 a),
          transcript_field_of 15 (saa_answer_sha256 a),
          transcript_field_of 16 (saa_host_dtls_fingerprint_sha256 a)]\<rparr>"

definition encode_session_answer_transcript ::
  "session_answer_authentication \<Rightarrow> session_authentication_error + bytes" where
  "encode_session_answer_transcript a =
     bind_res (permission_bits (saa_requested_permissions a)) (\<lambda>bits.
     map_err map_transcript_error (transcript_encode (answer_transcript a bits)))"

definition reconnect_transcript :: "session_reconnect_authentication \<Rightarrow> u32 \<Rightarrow> canonical_transcript" where
  "reconnect_transcript a bits =
       \<lparr>ct_purpose = TranscriptPurpose_SessionReconnect, ct_fields =
         [transcript_field_of 1 (sra_controller_device_id a),
          transcript_field_of 2 (sra_host_device_id a),
          transcript_field_of 8 (sra_session_id a),
          transcript_field_of 9 (sra_nonce a),
          transcript_field_of 10 (u64_to_be (sra_issued_at_unix_ms a)),
          transcript_field_of 11 (u64_to_be (sra_expires_at_unix_ms a)),
          transcript_field_of 12 (u32_to_be bits),
          transcript_field_of 13 (sra_offer_sha256 a),
          transcript_field_of 14 (sra_controller_dtls_fingerprint_sha256 a),
          transcript_field_of 15 (sra_answer_sha256 a),
          transcript_field_of 16 (sra_host_dtls_fingerprint_sha256 a),
          transcript_field_of 17 (u32_to_be (sra_reconnect_generation a))]\<rparr>"

definition encode_session_reconnect_transcript ::
  "session_reconnect_authentication \<Rightarrow> session_authentication_error + bytes" where
  "encode_session_reconnect_transcript a =
     bind_res (permission_bits (sra_requested_permissions a)) (\<lambda>bits.
     map_err map_transcript_error (transcript_encode (reconnect_transcript a bits)))"

section \<open>Verification\<close>

text \<open>Everything \<^verbatim>\<open>verify\<close> checks before it touches the replay cache.\<close>

definition verify_bindings ::
  "crypto \<Rightarrow> bytes \<Rightarrow> session_offer_authentication \<Rightarrow> string \<Rightarrow> bytes \<Rightarrow> 's authorization_registry \<Rightarrow> u64
    \<Rightarrow> session_authentication_error + device_identity \<times> session_permission list" where
  "verify_bindings c own_host_device_id a offer_sdp controller_dtls_fingerprint_sha256 authorization now_unix_ms =
     bind_res (validate_fixed_fields a) (\<lambda>_.
     if soa_host_device_id a \<noteq> own_host_device_id then Inl SessionAuthenticationError_HostMismatch
     else bind_res (validate_time a now_unix_ms) (\<lambda>_.
     bind_res (normalize_session_permissions (soa_requested_permissions a)) (\<lambda>permissions.
     if soa_offer_sha256 a \<noteq> sha256 c (as_bytes offer_sdp)
       then Inl SessionAuthenticationError_OfferHashMismatch
     else if soa_controller_dtls_fingerprint_sha256 a \<noteq> controller_dtls_fingerprint_sha256
       then Inl SessionAuthenticationError_FingerprintMismatch
     else bind_res (ok_or SessionAuthenticationError_ControllerNotAuthorized
       (controller_grant_of authorization (soa_controller_device_id a))) (\<lambda>grant_view.
     bind_res (ok_or SessionAuthenticationError_ControllerNotAuthorized (cgv_grant grant_view)) (\<lambda>grant.
     bind_res (ok_or SessionAuthenticationError_ControllerNotAuthorized (cg_controller grant)) (\<lambda>controller.
     if list_ex (\<lambda>permission. session_permission_code permission \<notin> set (cg_permissions grant)) permissions
       then Inl SessionAuthenticationError_PermissionDenied
     else bind_res (encode_session_offer_transcript a) (\<lambda>transcript.
     bind_res (verify_signature c controller transcript (soa_signature a)) (\<lambda>_.
       Inr (controller, permissions)))))))))"

definition offer_verify ::
  "crypto \<Rightarrow> offer_verifier \<Rightarrow> session_offer_authentication \<Rightarrow> string \<Rightarrow> bytes \<Rightarrow> 's authorization_registry
    \<Rightarrow> u64 \<Rightarrow> offer_verifier \<times> (session_authentication_error + verified_session_offer)" where
  "offer_verify c v a offer_sdp controller_dtls_fingerprint_sha256 authorization now_unix_ms =
     (case verify_bindings c (ov_host_device_id v) a offer_sdp controller_dtls_fingerprint_sha256
             authorization now_unix_ms of
        Inl e \<Rightarrow> (v, Inl e)
      | Inr (controller, permissions) \<Rightarrow>
          let v' = v\<lparr>ov_used_nonces := bt_retain (\<lambda>_ expires_at. expires_at \<ge> now_unix_ms) (ov_used_nonces v)\<rparr>
          in if bt_get (ov_used_nonces v') (nonce_key a) \<noteq> None
               then (v', Inl SessionAuthenticationError_Replay)
             else if length (ov_used_nonces v') \<ge> MAX_REPLAY_CACHE_ENTRIES
               then (v', Inl SessionAuthenticationError_ReplayCacheFull)
             else (v'\<lparr>ov_used_nonces := bt_insert (nonce_key a) (soa_expires_at_unix_ms a) (ov_used_nonces v')\<rparr>,
                   Inr \<lparr>vso_controller = controller, vso_session_id = soa_session_id a,
                        vso_permissions = permissions\<rparr>))"

section \<open>Permissions\<close>

lemma session_permission_loop_iff:
  "session_permission_loop prev vs = Inr ps \<longleftrightarrow>
     set vs \<subseteq> {1, 2} \<and> sorted_wrt (<) (case_option [] (\<lambda>p. [p]) prev @ vs) \<and> map session_permission_code ps = vs"
proof (induction vs arbitrary: prev ps)
  case Nil
  then show ?case by (cases prev) auto
next
  case (Cons v vs)
  have known: "session_permission_of v = Some p \<and> p \<noteq> SessionPermission_Unspecified \<longleftrightarrow>
      v \<in> {1, 2} \<and> session_permission_code p = v" for p
    by (cases p) auto
  have "session_permission_loop prev (v # vs) = Inr ps \<longleftrightarrow>
      (\<exists>p qs. session_permission_of v = Some p \<and> p \<noteq> SessionPermission_Unspecified
         \<and> (case prev of None \<Rightarrow> True | Some q \<Rightarrow> q < v)
         \<and> session_permission_loop (Some v) vs = Inr qs \<and> ps = p # qs)"
    by (cases "session_permission_of v")
      (auto simp: bind_res_Inr not_le simp del: session_permission.of_eq_Some split: option.splits)
  also have "\<dots> \<longleftrightarrow> (\<exists>p qs. v \<in> {1, 2} \<and> session_permission_code p = v
         \<and> (case prev of None \<Rightarrow> True | Some q \<Rightarrow> q < v)
         \<and> set vs \<subseteq> {1, 2} \<and> sorted_wrt (<) (v # vs) \<and> map session_permission_code qs = vs \<and> ps = p # qs)"
    using known Cons.IH by (metis (no_types, lifting) append_Cons append_Nil option.simps(5))
  also have "\<dots> \<longleftrightarrow> set (v # vs) \<subseteq> {1, 2} \<and> sorted_wrt (<) (case_option [] (\<lambda>p. [p]) prev @ v # vs)
      \<and> map session_permission_code ps = v # vs"
    by (cases prev; cases ps) (auto intro: less_trans)
  finally show ?case .
qed

lemma ascending_permissions:
  "set vs \<subseteq> {1, 2} \<and> sorted_wrt (<) vs \<longleftrightarrow> vs = [] \<or> vs = [1] \<or> vs = [2] \<or> vs = [1, 2]" for vs :: "i32 list"
proof (cases vs)
  case (Cons a xs)
  then show ?thesis
  proof (cases xs)
    case Cons2: (Cons b ys)
    then show ?thesis using Cons by (cases ys) auto
  qed auto
qed simp

lemma permission_code_eq:
  "session_permission_code p = 1 \<longleftrightarrow> p = SessionPermission_ViewScreen"
  "session_permission_code p = 2 \<longleftrightarrow> p = SessionPermission_ControlInput"
  by (cases p; simp)+

text \<open>Only two requests exist: to view, and to view and control.\<close>

lemma normalize_session_iff:
  "normalize_session_permissions vs = Inr ps \<longleftrightarrow>
     vs = [1] \<and> ps = [SessionPermission_ViewScreen]
     \<or> vs = [1, 2] \<and> ps = [SessionPermission_ViewScreen, SessionPermission_ControlInput]"
proof -
  have "normalize_session_permissions vs = Inr ps \<longleftrightarrow> vs \<noteq> [] \<and> session_permission_loop None vs = Inr ps
      \<and> \<not> (SessionPermission_ControlInput \<in> set ps \<and> SessionPermission_ViewScreen \<notin> set ps)"
    by (auto simp: normalize_session_permissions_def bind_res_Inr)
  also have "\<dots> \<longleftrightarrow> vs \<noteq> [] \<and> (vs = [] \<or> vs = [1] \<or> vs = [2] \<or> vs = [1, 2]) \<and> map session_permission_code ps = vs
      \<and> \<not> (SessionPermission_ControlInput \<in> set ps \<and> SessionPermission_ViewScreen \<notin> set ps)"
    using ascending_permissions [of vs] by (simp add: session_permission_loop_iff) blast
  also have "\<dots> \<longleftrightarrow> vs = [1] \<and> ps = [SessionPermission_ViewScreen]
     \<or> vs = [1, 2] \<and> ps = [SessionPermission_ViewScreen, SessionPermission_ControlInput]"
    by (auto simp: permission_code_eq map_eq_Cons_conv)
  finally show ?thesis .
qed

lemma permission_bits_iff: "permission_bits vs = Inr b \<longleftrightarrow> vs = [1] \<and> b = 1 \<or> vs = [1, 2] \<and> b = 3"
  by (auto simp: permission_bits_def bind_res_Inr normalize_session_iff)

section \<open>What a verified offer is bound to\<close>

lemma validate_fixed_fields_iff:
  "validate_fixed_fields a = Inr u \<longleftrightarrow> length (soa_controller_device_id a) = 32 \<and> length (soa_host_device_id a) = 32
     \<and> length (soa_session_id a) = 16 \<and> length (soa_nonce a) = 32 \<and> length (soa_offer_sha256 a) = 32
     \<and> length (soa_controller_dtls_fingerprint_sha256 a) = 32 \<and> length (soa_signature a) = 64"
  by (auto simp: validate_fixed_fields_def limits)

lemma validate_time_iff:
  "validate_time a now = Inr u \<longleftrightarrow> soa_issued_at_unix_ms a \<le> soa_expires_at_unix_ms a
     \<and> unat (soa_expires_at_unix_ms a) \<le> unat (soa_issued_at_unix_ms a) + 30000
     \<and> unat (soa_issued_at_unix_ms a) \<le> unat now + 10000 \<and> now \<le> soa_expires_at_unix_ms a"
proof -
  have skew: "soa_issued_at_unix_ms a \<le> saturating_add now SESSION_AUTH_FUTURE_SKEW_MS \<longleftrightarrow>
      unat (soa_issued_at_unix_ms a) \<le> unat now + 10000"
    using unat_lt2p [of "soa_issued_at_unix_ms a"]
    by (simp add: word_le_nat_alt unat_saturating_add limits min_def)
  show ?thesis
  proof (cases "soa_issued_at_unix_ms a \<le> soa_expires_at_unix_ms a")
    case True
    then have life: "soa_expires_at_unix_ms a - soa_issued_at_unix_ms a > SESSION_AUTH_MAX_LIFETIME_MS \<longleftrightarrow>
        \<not> unat (soa_expires_at_unix_ms a) \<le> unat (soa_issued_at_unix_ms a) + 30000"
      by (simp add: word_less_nat_alt unat_sub limits) (auto simp: word_le_nat_alt)
    from True have "validate_time a now = Inr u \<longleftrightarrow>
        \<not> soa_expires_at_unix_ms a - soa_issued_at_unix_ms a > SESSION_AUTH_MAX_LIFETIME_MS
        \<and> soa_issued_at_unix_ms a \<le> saturating_add now SESSION_AUTH_FUTURE_SKEW_MS
        \<and> now \<le> soa_expires_at_unix_ms a"
      by (auto simp: validate_time_def checked_sub_def not_less)
    then show ?thesis unfolding life skew using True by auto
  next
    case False
    then show ?thesis by (simp add: validate_time_def checked_sub_def)
  qed
qed

lemma verify_signature_iff:
  "verify_signature c d t sig = Inr u \<longleftrightarrow> length (di_public_key d) = 32 \<and> verifying_key_ok c (di_public_key d)
     \<and> length sig = 64 \<and> ed25519_verify c (di_public_key d) t sig"
  by (auto simp: verify_signature_def)

lemma verify_bindings_iff:
  "verify_bindings c host a sdp fp reg now = Inr (d, ps) \<longleftrightarrow>
     validate_fixed_fields a = Inr () \<and> soa_host_device_id a = host \<and> validate_time a now = Inr ()
     \<and> normalize_session_permissions (soa_requested_permissions a) = Inr ps
     \<and> soa_offer_sha256 a = sha256 c (as_bytes sdp) \<and> soa_controller_dtls_fingerprint_sha256 a = fp
     \<and> (\<exists>view g t. controller_grant_of reg (soa_controller_device_id a) = Some view \<and> cgv_grant view = Some g
          \<and> cg_controller g = Some d \<and> session_permission_code ` set ps \<subseteq> set (cg_permissions g)
          \<and> encode_session_offer_transcript a = Inr t \<and> verify_signature c d t (soa_signature a) = Inr ())"
  by (auto simp: verify_bindings_def bind_res_Inr list_ex_iff split: if_splits) blast+

lemma offer_verify_ok:
  "offer_verify c v a sdp fp reg now = (v', Inr offer) \<Longrightarrow>
     verify_bindings c (ov_host_device_id v) a sdp fp reg now = Inr (vso_controller offer, vso_permissions offer)
     \<and> vso_session_id offer = soa_session_id a
     \<and> bt_get (bt_retain (\<lambda>_ e. e \<ge> now) (ov_used_nonces v)) (nonce_key a) = None
     \<and> v' = v\<lparr>ov_used_nonces := bt_insert (nonce_key a) (soa_expires_at_unix_ms a)
          (bt_retain (\<lambda>_ e. e \<ge> now) (ov_used_nonces v))\<rparr>"
  by (auto simp: offer_verify_def Let_def split: sum.splits prod.splits if_splits)

section \<open>The replay cache\<close>

record 's verify_request =
  vr_auth :: session_offer_authentication
  vr_sdp :: string
  vr_fingerprint :: bytes
  vr_registry :: "'s authorization_registry"
  vr_now :: u64

definition verify_step ::
  "crypto \<Rightarrow> offer_verifier \<Rightarrow> 's verify_request
    \<Rightarrow> offer_verifier \<times> (session_authentication_error + verified_session_offer)" where
  "verify_step c v q = offer_verify c v (vr_auth q) (vr_sdp q) (vr_fingerprint q) (vr_registry q) (vr_now q)"

definition verifier_inv :: "offer_verifier \<Rightarrow> bool" where
  "verifier_inv v \<longleftrightarrow> bt_ok (ov_used_nonces v) \<and> length (ov_used_nonces v) \<le> MAX_REPLAY_CACHE_ENTRIES"

lemma verifier_inv_new: "offer_verifier_new host = Inr v \<Longrightarrow> verifier_inv v"
  by (auto simp: offer_verifier_new_def verifier_inv_def bt_empty_def bt_ok_def split: if_splits)

lemma verifier_inv_retain:
  "verifier_inv v \<Longrightarrow> verifier_inv (v\<lparr>ov_used_nonces := bt_retain p (ov_used_nonces v)\<rparr>)"
  using length_bt_retain [of p "ov_used_nonces v"] by (simp add: verifier_inv_def)

interpretation verifier: machine "verify_step c" verifier_inv for c
proof
  fix v q
  assume inv: "verifier_inv v"
  then have ok: "bt_ok (bt_retain p (ov_used_nonces v))" for p by (simp add: verifier_inv_def)
  show "verifier_inv (fst (verify_step c v q))"
    using inv verifier_inv_retain [OF inv]
    by (auto simp: verify_step_def offer_verify_def Let_def split: sum.splits prod.splits)
      (auto simp: verifier_inv_def length_bt_insert ok)
qed

lemma nonce_remembered_step:
  assumes "verifier_inv v" "bt_get (ov_used_nonces v) k = Some e" "vr_now q \<le> e"
  shows "bt_get (ov_used_nonces (fst (verify_step c v q))) k = Some e"
proof -
  have ok: "bt_ok (ov_used_nonces v)" using assms(1) by (simp add: verifier_inv_def)
  have kept: "bt_get (bt_retain (\<lambda>_ x. x \<ge> vr_now q) (ov_used_nonces v)) k = Some e"
    using assms by (simp add: bt_get_retain [OF ok])
  then show ?thesis
    using assms(2) ok
    by (auto simp: verify_step_def offer_verify_def Let_def bt_get_insert split: sum.splits prod.splits)
qed

lemma nonce_remembered_run:
  "verifier_inv v \<Longrightarrow> bt_get (ov_used_nonces v) k = Some e \<Longrightarrow> \<forall>q \<in> set qs. vr_now q \<le> e
    \<Longrightarrow> bt_get (ov_used_nonces (fst (run_steps (verify_step c) v qs))) k = Some e"
proof (induction qs arbitrary: v)
  case Nil
  then show ?case by simp
next
  case (Cons q qs)
  have "verifier_inv (fst (verify_step c v q))" using Cons.prems(1) by (rule verifier.step_inv)
  then show ?case
    using Cons nonce_remembered_step [OF Cons.prems(1,2), of q c] by (simp add: fst_run_steps_Cons del: run_steps.simps)
qed

lemma known_nonce_refused:
  assumes "verifier_inv v" "bt_get (ov_used_nonces v) (nonce_key (vr_auth q)) = Some e" "vr_now q \<le> e"
  shows "\<not> is_ok (snd (verify_step c v q))"
proof
  assume "is_ok (snd (verify_step c v q))"
  then obtain v' offer where "offer_verify c v (vr_auth q) (vr_sdp q) (vr_fingerprint q) (vr_registry q) (vr_now q)
      = (v', Inr offer)"
    by (auto simp: verify_step_def is_ok_def split: sum.splits) (metis prod.collapse)
  from offer_verify_ok [OF this]
  have "bt_get (bt_retain (\<lambda>_ e. e \<ge> vr_now q) (ov_used_nonces v)) (nonce_key (vr_auth q)) = None" by simp
  with assms show False by (simp add: bt_get_retain verifier_inv_def)
qed

section \<open>Signed bytes\<close>

lemma offer_transcript_iff:
  "encode_session_offer_transcript a = Inr bs \<longleftrightarrow> (\<exists>bits. permission_bits (soa_requested_permissions a) = Inr bits
     \<and> transcript_encode (offer_transcript a bits) = Inr bs)"
  by (simp add: encode_session_offer_transcript_def bind_res_Inr)

lemma answer_transcript_iff:
  "encode_session_answer_transcript a = Inr bs \<longleftrightarrow> (\<exists>bits. permission_bits (saa_requested_permissions a) = Inr bits
     \<and> transcript_encode (answer_transcript a bits) = Inr bs)"
  by (simp add: encode_session_answer_transcript_def bind_res_Inr)

lemma reconnect_transcript_iff:
  "encode_session_reconnect_transcript a = Inr bs \<longleftrightarrow> (\<exists>bits. permission_bits (sra_requested_permissions a) = Inr bits
     \<and> transcript_encode (reconnect_transcript a bits) = Inr bs)"
  by (simp add: encode_session_reconnect_transcript_def bind_res_Inr)

lemma same_bits_same_permissions:
  "permission_bits vs = Inr b \<Longrightarrow> permission_bits ws = Inr b \<Longrightarrow> ws = vs"
  by (auto simp: permission_bits_iff)

lemma offer_transcript_inject:
  assumes "encode_session_offer_transcript a = Inr bs" "encode_session_offer_transcript b = Inr bs"
  shows "b\<lparr>soa_signature := soa_signature a\<rparr> = a"
proof -
  from assms obtain x y where bits: "permission_bits (soa_requested_permissions a) = Inr x"
    "permission_bits (soa_requested_permissions b) = Inr y"
    and e: "transcript_encode (offer_transcript a x) = Inr bs" "transcript_encode (offer_transcript b y) = Inr bs"
    unfolding offer_transcript_iff by blast
  from transcript.enc_inject [OF e] have "y = x"
    "soa_controller_device_id b = soa_controller_device_id a" "soa_host_device_id b = soa_host_device_id a"
    "soa_session_id b = soa_session_id a" "soa_nonce b = soa_nonce a"
    "soa_issued_at_unix_ms b = soa_issued_at_unix_ms a" "soa_expires_at_unix_ms b = soa_expires_at_unix_ms a"
    "soa_offer_sha256 b = soa_offer_sha256 a"
    "soa_controller_dtls_fingerprint_sha256 b = soa_controller_dtls_fingerprint_sha256 a"
    by (simp_all add: offer_transcript_def transcript_field_of_def)
  moreover from this have "soa_requested_permissions b = soa_requested_permissions a"
    using bits same_bits_same_permissions by blast
  ultimately show ?thesis by (cases a; cases b) simp
qed

lemma answer_transcript_inject:
  assumes "encode_session_answer_transcript a = Inr bs" "encode_session_answer_transcript b = Inr bs"
  shows "b\<lparr>saa_signature := saa_signature a\<rparr> = a"
proof -
  from assms obtain x y where bits: "permission_bits (saa_requested_permissions a) = Inr x"
    "permission_bits (saa_requested_permissions b) = Inr y"
    and e: "transcript_encode (answer_transcript a x) = Inr bs" "transcript_encode (answer_transcript b y) = Inr bs"
    unfolding answer_transcript_iff by blast
  from transcript.enc_inject [OF e] have "y = x"
    "saa_controller_device_id b = saa_controller_device_id a" "saa_host_device_id b = saa_host_device_id a"
    "saa_session_id b = saa_session_id a" "saa_nonce b = saa_nonce a"
    "saa_issued_at_unix_ms b = saa_issued_at_unix_ms a" "saa_expires_at_unix_ms b = saa_expires_at_unix_ms a"
    "saa_offer_sha256 b = saa_offer_sha256 a"
    "saa_controller_dtls_fingerprint_sha256 b = saa_controller_dtls_fingerprint_sha256 a"
    "saa_answer_sha256 b = saa_answer_sha256 a"
    "saa_host_dtls_fingerprint_sha256 b = saa_host_dtls_fingerprint_sha256 a"
    by (simp_all add: answer_transcript_def transcript_field_of_def)
  moreover from this have "saa_requested_permissions b = saa_requested_permissions a"
    using bits same_bits_same_permissions by blast
  ultimately show ?thesis by (cases a; cases b) simp
qed

lemma reconnect_transcript_inject:
  assumes "encode_session_reconnect_transcript a = Inr bs" "encode_session_reconnect_transcript b = Inr bs"
  shows "b\<lparr>sra_signature := sra_signature a\<rparr> = a"
proof -
  from assms obtain x y where bits: "permission_bits (sra_requested_permissions a) = Inr x"
    "permission_bits (sra_requested_permissions b) = Inr y"
    and e: "transcript_encode (reconnect_transcript a x) = Inr bs" "transcript_encode (reconnect_transcript b y) = Inr bs"
    unfolding reconnect_transcript_iff by blast
  from transcript.enc_inject [OF e] have "y = x"
    "sra_controller_device_id b = sra_controller_device_id a" "sra_host_device_id b = sra_host_device_id a"
    "sra_session_id b = sra_session_id a" "sra_nonce b = sra_nonce a"
    "sra_issued_at_unix_ms b = sra_issued_at_unix_ms a" "sra_expires_at_unix_ms b = sra_expires_at_unix_ms a"
    "sra_offer_sha256 b = sra_offer_sha256 a"
    "sra_controller_dtls_fingerprint_sha256 b = sra_controller_dtls_fingerprint_sha256 a"
    "sra_answer_sha256 b = sra_answer_sha256 a"
    "sra_host_dtls_fingerprint_sha256 b = sra_host_dtls_fingerprint_sha256 a"
    "sra_reconnect_generation b = sra_reconnect_generation a"
    by (simp_all add: reconnect_transcript_def transcript_field_of_def)
  moreover from this have "sra_requested_permissions b = sra_requested_permissions a"
    using bits same_bits_same_permissions by blast
  ultimately show ?thesis by (cases a; cases b) simp
qed

lemma transcript_purpose_of_bytes:
  "transcript_encode t = Inr bs \<Longrightarrow> transcript_encode t' = Inr bs \<Longrightarrow> ct_purpose t' = ct_purpose t"
  using transcript.enc_inject by blast

lemma offer_transcript_exists:
  assumes "validate_fixed_fields a = Inr ()" "normalize_session_permissions (soa_requested_permissions a) = Inr ps"
  shows "\<exists>bs. encode_session_offer_transcript a = Inr bs"
  using assms
  by (auto simp: offer_transcript_iff offer_transcript_def transcript_encode_iff fields_ok_def transcript_field_of_def field_length_def
      validate_fixed_fields_iff normalize_session_iff permission_bits_iff)

section \<open>Examples\<close>

definition example_auth :: session_offer_authentication where
  "example_auth = \<lparr>soa_controller_device_id = replicate 32 7, soa_host_device_id = example_host,
     soa_session_id = replicate 16 3, soa_nonce = replicate 32 4, soa_issued_at_unix_ms = 1000,
     soa_expires_at_unix_ms = 21000, soa_requested_permissions = [1, 2],
     soa_offer_sha256 = replicate 32 7, soa_controller_dtls_fingerprint_sha256 = replicate 32 6,
     soa_signature = replicate 64 7\<rparr>"

definition example_verifier :: offer_verifier where
  "example_verifier = \<lparr>ov_host_device_id = example_host, ov_used_nonces = []\<rparr>"

definition example_verified :: verified_session_offer where
  "example_verified = \<lparr>vso_controller = example_controller, vso_session_id = replicate 16 3,
     vso_permissions = [SessionPermission_ViewScreen, SessionPermission_ControlInput]\<rparr>"

lemma example_verify:
  "offer_verify example_crypto example_verifier example_auth ''sdp'' (replicate 32 6) example_registry 2000
     = (\<lparr>ov_host_device_id = example_host, ov_used_nonces = [(nonce_key example_auth, 21000)]\<rparr>, Inr example_verified)"
proof -
  have f: "validate_fixed_fields example_auth = Inr ()"
    by (simp add: validate_fixed_fields_iff example_auth_def example_host_def)
  have n: "normalize_session_permissions (soa_requested_permissions example_auth)
      = Inr [SessionPermission_ViewScreen, SessionPermission_ControlInput]"
    by (simp add: normalize_session_iff example_auth_def)
  obtain t where t: "encode_session_offer_transcript example_auth = Inr t"
    using offer_transcript_exists [OF f n] by blast
  have "verify_bindings example_crypto example_host example_auth ''sdp'' (replicate 32 6) example_registry 2000
      = Inr (example_controller, [SessionPermission_ViewScreen, SessionPermission_ControlInput])"
    unfolding verify_bindings_iff using f n t
    by (simp add: validate_time_iff verify_signature_iff)
      (simp add: example_auth_def example_crypto_def example_registry_def controller_grant_of_def bt_get_def
        example_view_def example_controller_def)
  then show ?thesis
    by (simp add: offer_verify_def example_verifier_def bt_retain_def bt_get_def bt_insert_def bt_remove_def limits
        example_verified_def) (simp add: example_auth_def)
qed

lemma example_verifier_inv: "verifier_inv example_verifier"
  by (simp add: verifier_inv_def example_verifier_def bt_ok_def)

section \<open>Properties\<close>

text \<open>
  C3. No session without proof of every binding.  An offer that verifies was signed by the key of a
  Controller that holds a grant right now, over the canonical transcript of exactly these fields;
  it names this Host, this SDP (by hash) and this DTLS fingerprint; the clock lies within its lifetime of at
  most 30 seconds, with 10 seconds of skew; it asks to view, or to view and control, and the grant
  allows all of it.
\<close>

theorem verified_offer_bound:
  assumes "offer_verify c v a sdp fp reg now = (v', Inr offer)"
  shows "(\<exists>view g t. controller_grant_of reg (soa_controller_device_id a) = Some view \<and> cgv_grant view = Some g
      \<and> cg_controller g = Some (vso_controller offer)
      \<and> session_permission_code ` set (vso_permissions offer) \<subseteq> set (cg_permissions g)
      \<and> transcript_decode t = Inr (offer_transcript a
          (if SessionPermission_ControlInput \<in> set (vso_permissions offer) then 3 else 1))
      \<and> ed25519_verify c (di_public_key (vso_controller offer)) t (soa_signature a))
    \<and> soa_host_device_id a = ov_host_device_id v
    \<and> soa_offer_sha256 a = sha256 c (as_bytes sdp)
    \<and> soa_controller_dtls_fingerprint_sha256 a = fp
    \<and> now \<le> soa_expires_at_unix_ms a \<and> unat (soa_issued_at_unix_ms a) \<le> unat now + 10000
    \<and> unat (soa_expires_at_unix_ms a) \<le> unat (soa_issued_at_unix_ms a) + 30000
    \<and> vso_session_id offer = soa_session_id a
    \<and> map session_permission_code (vso_permissions offer) = soa_requested_permissions a
    \<and> soa_requested_permissions a \<in> {[1], [1, 2]}"
proof -
  note ok = offer_verify_ok [OF assms]
  then have b: "verify_bindings c (ov_host_device_id v) a sdp fp reg now
      = Inr (vso_controller offer, vso_permissions offer)" by simp
  from b [unfolded verify_bindings_iff] obtain view g t where
    g: "controller_grant_of reg (soa_controller_device_id a) = Some view" "cgv_grant view = Some g"
      "cg_controller g = Some (vso_controller offer)"
      "session_permission_code ` set (vso_permissions offer) \<subseteq> set (cg_permissions g)"
      "encode_session_offer_transcript a = Inr t"
      "verify_signature c (vso_controller offer) t (soa_signature a) = Inr ()"
    and n: "normalize_session_permissions (soa_requested_permissions a) = Inr (vso_permissions offer)"
    by auto
  have "transcript_decode t = Inr (offer_transcript a
      (if SessionPermission_ControlInput \<in> set (vso_permissions offer) then 3 else 1))"
    using g(5) n
    by (auto simp: offer_transcript_iff permission_bits_iff normalize_session_iff transcript.accepts_iff)
  moreover have "ed25519_verify c (di_public_key (vso_controller offer)) t (soa_signature a)"
    using g(6) by (simp add: verify_signature_iff)
  moreover have "map session_permission_code (vso_permissions offer) = soa_requested_permissions a
      \<and> soa_requested_permissions a \<in> {[1], [1, 2]}"
    using n by (auto simp: normalize_session_iff)
  ultimately show ?thesis
    using g b ok unfolding verify_bindings_iff by (auto simp: validate_time_iff)
qed

theorem verified_offer_bound_witness:
  "soa_host_device_id example_auth = ov_host_device_id example_verifier
   \<and> soa_requested_permissions example_auth \<in> {[1], [1, 2]}"
  using verified_offer_bound [OF example_verify] by simp

text \<open>
  C6. An accepted offer is never accepted again.  On a clock that does not go back, whatever else was verified in between, a
  later offer with the same Controller and nonce is refused until the first one has expired, and
  the very same offer is refused for ever; the cache of nonces never holds more than 1024 entries.
\<close>

theorem offer_never_replayed:
  assumes "verifier_inv v"
    and "offer_verify c v a sdp fp reg now = (v1, Inr offer)"
    and "sorted (map vr_now (qs @ [q]))"
    and "nonce_key (vr_auth q) = nonce_key a"
    and "v2 = fst (run_steps (verify_step c) v1 qs)"
    and "is_ok (snd (verify_step c v2 q))"
  shows "soa_expires_at_unix_ms a < vr_now q \<and> vr_auth q \<noteq> a \<and> length (ov_used_nonces v2) \<le> 1024"
proof -
  have inv1: "verifier_inv v1"
    using verifier.step_inv [OF assms(1), of c "\<lparr>vr_auth = a, vr_sdp = sdp, vr_fingerprint = fp, vr_registry = reg, vr_now = now\<rparr>"]
      assms(2) by (simp add: verify_step_def)
  have inv2: "verifier_inv v2" unfolding assms(5) by (rule verifier.run_inv [OF inv1])
  have remembered: "bt_get (ov_used_nonces v1) (nonce_key a) = Some (soa_expires_at_unix_ms a)"
    using offer_verify_ok [OF assms(2)] assms(1) by (simp add: bt_get_insert verifier_inv_def)
  have late: "soa_expires_at_unix_ms a < vr_now q"
  proof (rule ccontr)
    assume "\<not> soa_expires_at_unix_ms a < vr_now q"
    then have early: "vr_now q \<le> soa_expires_at_unix_ms a" by simp
    then have "\<forall>x \<in> set qs. vr_now x \<le> soa_expires_at_unix_ms a"
      using assms(3) by (auto simp: sorted_append)
    then have "bt_get (ov_used_nonces v2) (nonce_key (vr_auth q)) = Some (soa_expires_at_unix_ms a)"
      unfolding assms(4,5) by (rule nonce_remembered_run [OF inv1 remembered])
    from known_nonce_refused [OF inv2 this early] assms(6) show False by simp
  qed
  moreover have "vr_auth q \<noteq> a"
  proof
    assume "vr_auth q = a"
    moreover obtain w where "snd (verify_step c v2 q) = Inr w"
      using assms(6) by (cases "snd (verify_step c v2 q)") auto
    ultimately have "offer_verify c v2 a (vr_sdp q) (vr_fingerprint q) (vr_registry q) (vr_now q)
        = (fst (verify_step c v2 q), Inr w)"
      by (simp add: verify_step_def prod_eq_iff)
    from offer_verify_ok [OF this] have "vr_now q \<le> soa_expires_at_unix_ms a"
      by (auto simp: verify_bindings_iff validate_time_iff)
    with late show False by simp
  qed
  ultimately show ?thesis using inv2 by (simp add: verifier_inv_def limits)
qed

definition later_auth :: session_offer_authentication where
  "later_auth = example_auth\<lparr>soa_issued_at_unix_ms := 30000, soa_expires_at_unix_ms := 40000\<rparr>"

definition later_request :: "memory_grant_store verify_request" where
  "later_request = \<lparr>vr_auth = later_auth, vr_sdp = ''sdp'', vr_fingerprint = replicate 32 6,
     vr_registry = example_registry, vr_now = 31000\<rparr>"

lemma later_accepted:
  "is_ok (snd (verify_step example_crypto
     \<lparr>ov_host_device_id = example_host, ov_used_nonces = [(nonce_key example_auth, 21000)]\<rparr> later_request))"
proof -
  have f: "validate_fixed_fields later_auth = Inr ()"
    by (simp add: validate_fixed_fields_iff later_auth_def example_auth_def example_host_def)
  have n: "normalize_session_permissions (soa_requested_permissions later_auth)
      = Inr [SessionPermission_ViewScreen, SessionPermission_ControlInput]"
    by (simp add: normalize_session_iff later_auth_def example_auth_def)
  obtain t where t: "encode_session_offer_transcript later_auth = Inr t"
    using offer_transcript_exists [OF f n] by blast
  have "verify_bindings example_crypto example_host later_auth ''sdp'' (replicate 32 6) example_registry 31000
      = Inr (example_controller, [SessionPermission_ViewScreen, SessionPermission_ControlInput])"
    unfolding verify_bindings_iff using f n t
    by (simp add: validate_time_iff verify_signature_iff)
      (simp add: later_auth_def example_auth_def example_crypto_def example_registry_def controller_grant_of_def bt_get_def
        example_view_def example_controller_def)
  then show ?thesis
    by (simp add: verify_step_def later_request_def offer_verify_def bt_retain_def bt_get_def limits)
qed

theorem offer_never_replayed_witness:
  "soa_expires_at_unix_ms example_auth < vr_now later_request \<and> vr_auth later_request \<noteq> example_auth"
  using offer_never_replayed [OF example_verifier_inv example_verify, of "[]" later_request,
      OF _ _ refl] later_accepted
  by (simp add: later_request_def nonce_key_def later_auth_def)

text \<open>
  What is signed cannot be mistaken for anything else.  Two offers with the same transcript bytes agree on
  every field but the signature itself, and the same holds for answers and for reconnects; and no bytes
  are the transcript of two different kinds of message.
\<close>

theorem signed_transcripts_unambiguous:
  "(encode_session_offer_transcript a = Inr bs \<and> encode_session_offer_transcript a' = Inr bs
      \<longrightarrow> a'\<lparr>soa_signature := soa_signature a\<rparr> = a)
   \<and> (encode_session_answer_transcript b = Inr bs \<and> encode_session_answer_transcript b' = Inr bs
      \<longrightarrow> b'\<lparr>saa_signature := saa_signature b\<rparr> = b)
   \<and> (encode_session_reconnect_transcript r = Inr bs \<and> encode_session_reconnect_transcript r' = Inr bs
      \<longrightarrow> r'\<lparr>sra_signature := sra_signature r\<rparr> = r)
   \<and> \<not> (encode_session_offer_transcript a = Inr bs \<and> encode_session_answer_transcript b = Inr bs)
   \<and> \<not> (encode_session_offer_transcript a = Inr bs \<and> encode_session_reconnect_transcript r = Inr bs)
   \<and> \<not> (encode_session_answer_transcript b = Inr bs \<and> encode_session_reconnect_transcript r = Inr bs)"
proof -
  have p: "ct_purpose (offer_transcript a x) = TranscriptPurpose_SessionOffer"
    "ct_purpose (answer_transcript b x) = TranscriptPurpose_SessionAnswer"
    "ct_purpose (reconnect_transcript r x) = TranscriptPurpose_SessionReconnect" for x
    by (simp_all add: offer_transcript_def answer_transcript_def reconnect_transcript_def)
  have "\<not> (encode_session_offer_transcript a = Inr bs \<and> encode_session_answer_transcript b = Inr bs)"
    "\<not> (encode_session_offer_transcript a = Inr bs \<and> encode_session_reconnect_transcript r = Inr bs)"
    "\<not> (encode_session_answer_transcript b = Inr bs \<and> encode_session_reconnect_transcript r = Inr bs)"
    unfolding offer_transcript_iff answer_transcript_iff reconnect_transcript_iff
    by (metis p transcript_purpose_of_bytes transcript_purpose.distinct)+
  then show ?thesis
    using offer_transcript_inject answer_transcript_inject reconnect_transcript_inject by blast
qed

theorem signed_transcripts_unambiguous_witness:
  "\<exists>bs. encode_session_offer_transcript example_auth = Inr bs \<and>
     (\<forall>b. encode_session_answer_transcript b \<noteq> Inr bs)"
proof -
  obtain bs where bs: "encode_session_offer_transcript example_auth = Inr bs"
    using offer_transcript_exists [of example_auth "[SessionPermission_ViewScreen, SessionPermission_ControlInput]"]
    by (auto simp: validate_fixed_fields_iff normalize_session_iff example_auth_def example_host_def)
  then show ?thesis
    using signed_transcripts_unambiguous [of example_auth bs example_auth] by blast
qed

end
