(* ===== verification/Host_Identity.thy ===== *)
theory Host_Identity
  imports Session_Auth
begin

text \<open>
  The long-term identity of a Host, \<^verbatim>\<open>crates/host-agent/src/identity.rs\<close>, and the protected store its seed
  lives in, \<^verbatim>\<open>crates/host-platform/src/secret_store.rs\<close>.  The identity signs canonical transcripts and nothing else,
  and only those that name this device in the role it signs for.  Ed25519 key derivation and signing are outside the
  repository and come in through the record \<open>signer\<close>; the seed stands for the signing key.
\<close>

section \<open>Protected secrets\<close>

definition PROTECTED_SECRET_BYTES :: nat where
  [limits]: "PROTECTED_SECRET_BYTES = 32"

datatype secret_store_error =
    SecretStoreError_InvalidSecretLength
  | SecretStoreError_Unavailable
  | SecretStoreError_AccessDenied
  | SecretStoreError_Corrupt
  | SecretStoreError_UnsupportedPlatform

record 's secret_store_ops =
  secret_load :: "'s \<Rightarrow> secret_store_error + bytes option"
  secret_store :: "'s \<Rightarrow> bytes \<Rightarrow> 's \<times> (secret_store_error + unit)"
  secret_delete :: "'s \<Rightarrow> 's \<times> (secret_store_error + unit)"

record memory_secret_store =
  mss_value :: "bytes option mutex"

definition memory_secret_store_new :: memory_secret_store where
  "memory_secret_store_new = \<lparr>mss_value = Healthy None\<rparr>"

definition memory_secret_load :: "memory_secret_store \<Rightarrow> secret_store_error + bytes option" where
  "memory_secret_load s = lock_or SecretStoreError_Unavailable (mss_value s)"

definition memory_secret_put ::
  "memory_secret_store \<Rightarrow> bytes \<Rightarrow> memory_secret_store \<times> (secret_store_error + unit)" where
  "memory_secret_put s secret =
     (if length secret \<noteq> PROTECTED_SECRET_BYTES then (s, Inl SecretStoreError_InvalidSecretLength)
      else case mss_value s of
        Poisoned _ \<Rightarrow> (s, Inl SecretStoreError_Unavailable)
      | Healthy _ \<Rightarrow> (s\<lparr>mss_value := Healthy (Some secret)\<rparr>, Inr ()))"

definition memory_secret_delete ::
  "memory_secret_store \<Rightarrow> memory_secret_store \<times> (secret_store_error + unit)" where
  "memory_secret_delete s =
     (case mss_value s of
        Poisoned _ \<Rightarrow> (s, Inl SecretStoreError_Unavailable)
      | Healthy _ \<Rightarrow> (s\<lparr>mss_value := Healthy None\<rparr>, Inr ()))"

definition memory_secret_ops :: "memory_secret_store secret_store_ops" where
  "memory_secret_ops = \<lparr>secret_load = memory_secret_load, secret_store = memory_secret_put,
     secret_delete = memory_secret_delete\<rparr>"

section \<open>The identity\<close>

datatype identity_error =
    IdentityError_SecretStore secret_store_error
  | IdentityError_RandomGeneration
  | IdentityError_InvalidSeed
  | IdentityError_InvalidPlatform
  | IdentityError_InvalidDisplayName
  | IdentityError_InvalidTranscript transcript_error
  | IdentityError_UnsupportedTranscriptPurpose
  | IdentityError_HostDeviceIdMismatch
  | IdentityError_ControllerDeviceIdMismatch
  | IdentityError_InvalidPairingRole

record signer =
  ed25519_public_key :: "bytes \<Rightarrow> bytes"
  ed25519_sign :: "bytes \<Rightarrow> bytes \<Rightarrow> bytes"

record host_identity =
  hi_signing_key :: bytes
  hi_device_identity :: device_identity

definition signing_key_from_seed :: "bytes \<Rightarrow> identity_error + bytes" where
  "signing_key_from_seed seed =
     (if length seed \<noteq> PROTECTED_SECRET_BYTES then Inl IdentityError_InvalidSeed else Inr seed)"

definition validate_identity_metadata :: "string \<Rightarrow> device_platform \<Rightarrow> identity_error + unit" where
  "validate_identity_metadata display_name platform =
     (if display_name = [] \<or> length display_name > MAX_DEVICE_NAME_UTF8_BYTES
      then Inl IdentityError_InvalidDisplayName
      else if platform \<noteq> DevicePlatform_Windows \<and> platform \<noteq> DevicePlatform_Macos
      then Inl IdentityError_InvalidPlatform
      else Inr ())"

text \<open>The part of \<^verbatim>\<open>load_or_create\<close> that yields the key; \<open>draw\<close> is what the generator fills the 32-byte array with.\<close>

definition load_or_draw_key ::
  "'s secret_store_ops \<Rightarrow> 256 word option \<Rightarrow> 's \<Rightarrow> 's \<times> (identity_error + bytes)" where
  "load_or_draw_key ops draw store =
     (case secret_load ops store of
        Inl e \<Rightarrow> (store, Inl (IdentityError_SecretStore e))
      | Inr (Some seed) \<Rightarrow> (store, signing_key_from_seed seed)
      | Inr None \<Rightarrow>
          (case draw of
             None \<Rightarrow> (store, Inl IdentityError_RandomGeneration)
           | Some filled \<Rightarrow>
               let seed = be_bytes PROTECTED_SECRET_BYTES (unat filled)
               in sbind (smap_err IdentityError_SecretStore (secret_store ops store seed))
                    (\<lambda>store' _. (store', Inr seed))))"

definition load_or_create ::
  "crypto \<Rightarrow> signer \<Rightarrow> 's secret_store_ops \<Rightarrow> 256 word option \<Rightarrow> 's \<Rightarrow> string \<Rightarrow> device_platform
    \<Rightarrow> 's \<times> (identity_error + host_identity)" where
  "load_or_create c sg ops draw store display_name platform =
     (case validate_identity_metadata display_name platform of
        Inl e \<Rightarrow> (store, Inl e)
      | Inr _ \<Rightarrow>
          sbind (load_or_draw_key ops draw store) (\<lambda>store' signing_key.
            let public_key = ed25519_public_key sg signing_key
            in (store', bind_res (map_err (\<lambda>_. IdentityError_InvalidSeed)
                  (derive_device_id_v1 (sha256 c) public_key)) (\<lambda>device_id.
                Inr \<lparr>hi_signing_key = signing_key, hi_device_identity =
                  \<lparr>di_device_id = device_id,
                   di_public_key_algorithm = public_key_algorithm_code PublicKeyAlgorithm_Ed25519,
                   di_public_key = public_key, di_display_name = display_name,
                   di_platform = device_platform_code platform\<rparr>\<rparr>))))"

definition find_field :: "u16 \<Rightarrow> canonical_transcript \<Rightarrow> transcript_field option" where
  "find_field tag t = find (\<lambda>field. tf_tag field = tag) (ct_fields t)"

definition sign_canonical_transcript ::
  "crypto \<Rightarrow> signer \<Rightarrow> host_identity \<Rightarrow> bytes \<Rightarrow> identity_error + canonical_transcript_signature" where
  "sign_canonical_transcript c sg self canonical_transcript =
     bind_res (map_err IdentityError_InvalidTranscript (transcript_decode canonical_transcript)) (\<lambda>decoded.
     if ct_purpose decoded \<noteq> TranscriptPurpose_SessionAnswer
        \<and> ct_purpose decoded \<noteq> TranscriptPurpose_SessionReconnect
     then Inl IdentityError_UnsupportedTranscriptPurpose
     else bind_res (ok_or IdentityError_HostDeviceIdMismatch (find_field 2 decoded)) (\<lambda>transcript_host.
     if tf_value transcript_host \<noteq> di_device_id (hi_device_identity self)
     then Inl IdentityError_HostDeviceIdMismatch
     else Inr \<lparr>cts_host_device_id = di_device_id (hi_device_identity self),
            cts_host_public_key = di_public_key (hi_device_identity self),
            cts_signature = ed25519_sign sg (hi_signing_key self) canonical_transcript,
            cts_transcript_sha256 = sha256 c canonical_transcript\<rparr>))"

definition sign_session_offer ::
  "crypto \<Rightarrow> signer \<Rightarrow> host_identity \<Rightarrow> bytes \<Rightarrow> identity_error + session_offer_signature" where
  "sign_session_offer c sg self canonical_transcript =
     bind_res (map_err IdentityError_InvalidTranscript (transcript_decode canonical_transcript)) (\<lambda>decoded.
     if ct_purpose decoded \<noteq> TranscriptPurpose_SessionOffer
     then Inl IdentityError_UnsupportedTranscriptPurpose
     else bind_res (ok_or IdentityError_ControllerDeviceIdMismatch (find_field 1 decoded)) (\<lambda>transcript_controller.
     if tf_value transcript_controller \<noteq> di_device_id (hi_device_identity self)
     then Inl IdentityError_ControllerDeviceIdMismatch
     else Inr \<lparr>sosig_controller_device_id = di_device_id (hi_device_identity self),
            sosig_controller_public_key = di_public_key (hi_device_identity self),
            sosig_signature = ed25519_sign sg (hi_signing_key self) canonical_transcript,
            sosig_transcript_sha256 = sha256 c canonical_transcript\<rparr>))"

primrec pairing_identity_mismatch :: "pairing_identity_role \<Rightarrow> identity_error" where
  "pairing_identity_mismatch PairingIdentityRole_Controller = IdentityError_ControllerDeviceIdMismatch"
| "pairing_identity_mismatch PairingIdentityRole_Host = IdentityError_HostDeviceIdMismatch"
| "pairing_identity_mismatch PairingIdentityRole_Unspecified = IdentityError_InvalidPairingRole"

primrec device_id_tag :: "pairing_identity_role \<Rightarrow> identity_error + u16" where
  "device_id_tag PairingIdentityRole_Controller = Inr 1"
| "device_id_tag PairingIdentityRole_Host = Inr 2"
| "device_id_tag PairingIdentityRole_Unspecified = Inl IdentityError_InvalidPairingRole"

definition sign_pairing_transcript ::
  "crypto \<Rightarrow> signer \<Rightarrow> host_identity \<Rightarrow> bytes \<Rightarrow> pairing_identity_role
    \<Rightarrow> identity_error + pairing_transcript_signature" where
  "sign_pairing_transcript c sg self canonical_transcript role =
     bind_res (map_err IdentityError_InvalidTranscript (transcript_decode canonical_transcript)) (\<lambda>decoded.
     if ct_purpose decoded \<noteq> TranscriptPurpose_PairingSas
     then Inl IdentityError_UnsupportedTranscriptPurpose
     else bind_res (device_id_tag role) (\<lambda>tag.
     bind_res (ok_or (pairing_identity_mismatch role) (find_field tag decoded)) (\<lambda>transcript_identity.
     if tf_value transcript_identity \<noteq> di_device_id (hi_device_identity self)
     then Inl (pairing_identity_mismatch role)
     else Inr \<lparr>pts_role = pairing_identity_role_code role,
            pts_signer_device_id = di_device_id (hi_device_identity self),
            pts_signer_public_key = di_public_key (hi_device_identity self),
            pts_signature = ed25519_sign sg (hi_signing_key self) canonical_transcript,
            pts_transcript_sha256 = sha256 c canonical_transcript\<rparr>)))"

section \<open>The store interface\<close>

lemma load_or_draw_key_iff:
  "load_or_draw_key ops draw s = (s', Inr key) \<longleftrightarrow> length key = 32 \<and>
     (secret_load ops s = Inr (Some key) \<and> s' = s
      \<or> secret_load ops s = Inr None \<and> (\<exists>w. draw = Some w \<and> key = be_bytes 32 (unat w))
        \<and> secret_store ops s key = (s', Inr ()))"
proof (cases "secret_load ops s")
  case (Inr found)
  have smap: "smap_err IdentityError_SecretStore m = (t, Inr u) \<longleftrightarrow> m = (t, Inr u)" for m :: "'a \<times> (secret_store_error + unit)" and t u
    by (cases m) simp
  show ?thesis
    using Inr by (cases found; cases draw)
      (auto simp: load_or_draw_key_def signing_key_from_seed_def Let_def sbind_Inr smap limits)
qed (simp add: load_or_draw_key_def)

text \<open>What creating an identity relies on: a secret that was stored is the one that loads.\<close>

locale protected_store =
  fixes ops :: "'s secret_store_ops"
  assumes store_ok: "secret_store ops s secret = (s', Inr u) \<Longrightarrow> secret_load ops s' = Inr (Some secret)"
begin

lemma key_reloads:
  assumes "load_or_draw_key ops draw s = (s', Inr key)"
  shows "load_or_draw_key ops draw' s' = (s', Inr key)"
  using assms store_ok by (auto simp: load_or_draw_key_iff)

lemma identity_reloads:
  assumes "load_or_create c sg ops draw s name platform = (s', Inr ident)"
    and "validate_identity_metadata name' platform' = Inr ()"
  shows "load_or_create c sg ops draw' s' name' platform' = (s', Inr (ident\<lparr>hi_device_identity :=
      (hi_device_identity ident)\<lparr>di_display_name := name', di_platform := device_platform_code platform'\<rparr>\<rparr>))"
proof -
  obtain key where key: "load_or_draw_key ops draw s = (s', Inr key)"
    "validate_identity_metadata name platform = Inr ()"
    using assms(1) by (auto simp: load_or_create_def sbind_Inr Let_def split: sum.splits)
  then show ?thesis
    using assms key_reloads [OF key(1)] by (auto simp: load_or_create_def Let_def bind_res_Inr)
qed

end

interpretation memory_secret: protected_store memory_secret_ops
  by unfold_locales
    (auto simp: memory_secret_ops_def memory_secret_put_def memory_secret_load_def
      split: if_splits mutex.splits)

section \<open>What an identity signs\<close>

lemma find_field_iff:
  assumes "transcript_decode bs = Inr t" "tag \<in> set (required_tags (ct_purpose t))"
  shows "\<exists>f. find_field tag t = Some f \<and> f \<in> set (ct_fields t) \<and> tf_tag f = tag"
proof -
  have "map tf_tag (ct_fields t) = required_tags (ct_purpose t)"
    using assms(1) by (simp add: transcript.accepts_iff transcript_encode_iff fields_ok_def)
  then have "\<exists>f \<in> set (ct_fields t). tf_tag f = tag" using assms(2) by (metis image_iff list.set_map)
  then obtain f where "find_field tag t = Some f"
    unfolding find_field_def by (metis (mono_tags) find_None_iff not_Some_eq)
  then show ?thesis by (auto simp: find_field_def find_Some_iff)
qed

definition names_device :: "u16 \<Rightarrow> host_identity \<Rightarrow> canonical_transcript \<Rightarrow> bool" where
  "names_device tag self t \<longleftrightarrow> map_option tf_value (find_field tag t) = Some (di_device_id (hi_device_identity self))"

lemma sign_canonical_iff:
  "sign_canonical_transcript c sg self bs = Inr s \<longleftrightarrow>
     (\<exists>t. transcript_decode bs = Inr t
        \<and> ct_purpose t \<in> {TranscriptPurpose_SessionAnswer, TranscriptPurpose_SessionReconnect} \<and> names_device 2 self t)
     \<and> s = \<lparr>cts_host_device_id = di_device_id (hi_device_identity self),
            cts_host_public_key = di_public_key (hi_device_identity self),
            cts_signature = ed25519_sign sg (hi_signing_key self) bs, cts_transcript_sha256 = sha256 c bs\<rparr>"
  by (cases "transcript_decode bs") (auto simp: sign_canonical_transcript_def bind_res_Inr names_device_def)

lemma sign_offer_iff:
  "sign_session_offer c sg self bs = Inr s \<longleftrightarrow>
     (\<exists>t. transcript_decode bs = Inr t \<and> ct_purpose t = TranscriptPurpose_SessionOffer \<and> names_device 1 self t)
     \<and> s = \<lparr>sosig_controller_device_id = di_device_id (hi_device_identity self),
            sosig_controller_public_key = di_public_key (hi_device_identity self),
            sosig_signature = ed25519_sign sg (hi_signing_key self) bs, sosig_transcript_sha256 = sha256 c bs\<rparr>"
  by (cases "transcript_decode bs") (auto simp: sign_session_offer_def bind_res_Inr names_device_def)

lemma sign_pairing_iff:
  "sign_pairing_transcript c sg self bs role = Inr s \<longleftrightarrow>
     (\<exists>t tag. transcript_decode bs = Inr t \<and> ct_purpose t = TranscriptPurpose_PairingSas
        \<and> device_id_tag role = Inr tag \<and> names_device tag self t)
     \<and> s = \<lparr>pts_role = pairing_identity_role_code role,
            pts_signer_device_id = di_device_id (hi_device_identity self),
            pts_signer_public_key = di_public_key (hi_device_identity self),
            pts_signature = ed25519_sign sg (hi_signing_key self) bs, pts_transcript_sha256 = sha256 c bs\<rparr>"
  by (cases "transcript_decode bs"; cases role)
    (auto simp: sign_pairing_transcript_def bind_res_Inr names_device_def simp del: pairing_identity_role_code.simps)

section \<open>Examples\<close>

definition example_signer :: signer where
  "example_signer = \<lparr>ed25519_public_key = (\<lambda>seed. seed), ed25519_sign = (\<lambda>_ _. replicate 64 7)\<rparr>"

definition example_seed :: bytes where
  "example_seed = be_bytes 32 5"

definition example_identity :: host_identity where
  "example_identity = \<lparr>hi_signing_key = example_seed, hi_device_identity =
     \<lparr>di_device_id = replicate 32 7, di_public_key_algorithm = 1, di_public_key = example_seed,
      di_display_name = ''host'', di_platform = 3\<rparr>\<rparr>"

lemma example_created:
  "load_or_create example_crypto example_signer memory_secret_ops (Some 5) memory_secret_store_new
      ''host'' DevicePlatform_Windows
    = (\<lparr>mss_value = Healthy (Some example_seed)\<rparr>, Inr example_identity)"
  by (simp add: load_or_create_def validate_identity_metadata_def load_or_draw_key_def memory_secret_ops_def
      memory_secret_load_def memory_secret_put_def memory_secret_store_new_def derive_device_id_v1_def limits Let_def
      example_crypto_def example_signer_def example_identity_def example_seed_def)

section \<open>Properties\<close>

text \<open>
  A Host keeps its identity.  Once \<^verbatim>\<open>load_or_create\<close> has succeeded on a store that returns what was stored,
  every later start finds the same key and the same device identifier without drawing randomness, whatever name it is started under;
  and the identity it made is bound to its key: the identifier is derived from the public key of the signing key.
\<close>

theorem identity_stable:
  assumes "protected_store ops"
    and "load_or_create c sg ops draw s name platform = (s', Inr ident)"
    and "validate_identity_metadata name' platform' = Inr ()"
  shows "load_or_create c sg ops draw' s' name' platform' = (s', Inr (ident\<lparr>hi_device_identity :=
      (hi_device_identity ident)\<lparr>di_display_name := name', di_platform := device_platform_code platform'\<rparr>\<rparr>))
    \<and> di_public_key (hi_device_identity ident) = ed25519_public_key sg (hi_signing_key ident)
    \<and> derive_device_id_v1 (sha256 c) (di_public_key (hi_device_identity ident))
        = Inr (di_device_id (hi_device_identity ident))
    \<and> length (hi_signing_key ident) = 32"
proof -
  have key: "load_or_draw_key ops draw s = (s', Inr key) \<Longrightarrow> length key = 32" for key
    by (simp add: load_or_draw_key_iff)
  show ?thesis
    using protected_store.identity_reloads [OF assms] assms(2) key
    by (auto simp: load_or_create_def Let_def sbind_Inr bind_res_Inr split: sum.splits)
qed

theorem identity_stable_witness:
  "load_or_create example_crypto example_signer memory_secret_ops None \<lparr>mss_value = Healthy (Some example_seed)\<rparr>
      ''renamed'' DevicePlatform_Macos
    = (\<lparr>mss_value = Healthy (Some example_seed)\<rparr>, Inr (example_identity\<lparr>hi_device_identity :=
      (hi_device_identity example_identity)\<lparr>di_display_name := ''renamed'',
        di_platform := device_platform_code DevicePlatform_Macos\<rparr>\<rparr>))"
  using identity_stable [OF memory_secret.protected_store_axioms example_created, of "''renamed''" DevicePlatform_Macos None]
  by (simp add: validate_identity_metadata_def limits)

text \<open>
  The key signs only what it may.  The three signing entry points accept three disjoint sets of byte strings:
  answers and reconnects that name this device as the Host, offers that name it as the Controller, pairing
  transcripts that name it in the role it signs for.  Everything they sign is a canonical transcript, the signature is over
  exactly those bytes, and no byte string is accepted by two of them.
\<close>

theorem signing_key_separation:
  "(sign_canonical_transcript c sg self bs = Inr s1 \<longrightarrow> cts_signature s1 = ed25519_sign sg (hi_signing_key self) bs
      \<and> (\<exists>t. transcript_encode t = Inr bs \<and> names_device 2 self t
          \<and> ct_purpose t \<in> {TranscriptPurpose_SessionAnswer, TranscriptPurpose_SessionReconnect})
      \<and> \<not> is_ok (sign_session_offer c sg self bs) \<and> \<not> is_ok (sign_pairing_transcript c sg self bs role))
   \<and> (sign_session_offer c sg self bs = Inr s2 \<longrightarrow> sosig_signature s2 = ed25519_sign sg (hi_signing_key self) bs
      \<and> (\<exists>t. transcript_encode t = Inr bs \<and> names_device 1 self t \<and> ct_purpose t = TranscriptPurpose_SessionOffer)
      \<and> \<not> is_ok (sign_pairing_transcript c sg self bs role))
   \<and> (sign_pairing_transcript c sg self bs role = Inr s3 \<longrightarrow> pts_signature s3 = ed25519_sign sg (hi_signing_key self) bs
      \<and> role \<noteq> PairingIdentityRole_Unspecified
      \<and> (\<exists>t. transcript_encode t = Inr bs \<and> ct_purpose t = TranscriptPurpose_PairingSas
          \<and> names_device (if role = PairingIdentityRole_Controller then 1 else 2) self t))"
proof -
  have ok: "is_ok r \<longleftrightarrow> (\<exists>x. r = Inr x)" for r :: "identity_error + 'x" by (cases r) auto
  show ?thesis
    by (cases role) (auto simp: ok sign_canonical_iff sign_offer_iff sign_pairing_iff transcript.accepts_iff
        simp del: pairing_identity_role_code.simps dest: transcript_purpose_of_bytes)
qed

definition example_answer :: session_answer_authentication where
  "example_answer = \<lparr>saa_controller_device_id = replicate 32 1, saa_host_device_id = replicate 32 7,
     saa_session_id = replicate 16 3, saa_nonce = replicate 32 4, saa_issued_at_unix_ms = 1000,
     saa_expires_at_unix_ms = 21000, saa_requested_permissions = [1, 2], saa_offer_sha256 = replicate 32 7,
     saa_controller_dtls_fingerprint_sha256 = replicate 32 6, saa_answer_sha256 = replicate 32 7,
     saa_host_dtls_fingerprint_sha256 = replicate 32 5, saa_signature = []\<rparr>"

lemma example_answer_signed:
  "\<exists>bs s. encode_session_answer_transcript example_answer = Inr bs
     \<and> sign_canonical_transcript example_crypto example_signer example_identity bs = Inr s"
proof -
  let ?t = "answer_transcript example_answer 3"
  have ok: "fields_ok (ct_purpose ?t) (ct_fields ?t)"
    by (auto simp: fields_ok_def answer_transcript_def transcript_field_of_def field_length_def example_answer_def)
  then obtain bs where bs: "transcript_encode ?t = Inr bs" by (auto simp: transcript_encode_iff)
  then have "encode_session_answer_transcript example_answer = Inr bs"
    by (simp add: encode_session_answer_transcript_def bind_res_Inr permission_bits_iff example_answer_def)
  moreover have "names_device 2 example_identity ?t"
    by (simp add: names_device_def find_field_def answer_transcript_def transcript_field_of_def example_answer_def
        example_identity_def)
  ultimately show ?thesis
    using bs by (auto simp: sign_canonical_iff transcript.accepts_iff answer_transcript_def)
qed

theorem signing_key_separation_witness:
  "\<exists>bs. encode_session_answer_transcript example_answer = Inr bs
     \<and> \<not> is_ok (sign_session_offer example_crypto example_signer example_identity bs)
     \<and> \<not> is_ok (sign_pairing_transcript example_crypto example_signer example_identity bs PairingIdentityRole_Host)"
proof -
  obtain bs s where "encode_session_answer_transcript example_answer = Inr bs"
    "sign_canonical_transcript example_crypto example_signer example_identity bs = Inr s"
    using example_answer_signed by blast
  then show ?thesis using signing_key_separation [of example_crypto example_signer example_identity bs s] by blast
qed

end
