(* ===== verification/Pairing_Crypto.thy ===== *)
theory Pairing_Crypto
  imports Host_Identity
begin

text \<open>
  The cryptographic layer of pairing: \<^verbatim>\<open>gen/rust/src/pairing_crypto.rs\<close> (sequence numbers, short authentication
  strings, nonces and associated data) and \<^verbatim>\<open>crates/host-agent/src/pairing_crypto.rs\<close> (the Controller's hello and the
  sealed messages).  X25519, HKDF, AES-GCM, prost and the word list are parameters, collected in the record
  \<open>pairing_ops\<close>.
\<close>

unbundle bit_operations_syntax

section \<open>Primitives\<close>

definition AAD_MAGIC :: bytes where
  "AAD_MAGIC = as_bytes ''PRDP''"

definition CRYPTO_VERSION :: u16 where
  "CRYPTO_VERSION = 1"

definition AES_GCM_TAG_BYTES :: nat where
  [limits]: "AES_GCM_TAG_BYTES = 16"

definition MAX_PAIRING_SEQUENCE :: u64 where
  [limits]: "MAX_PAIRING_SEQUENCE = 0x7FFFFFFFFFFFFFFF"

definition CONTROLLER_TO_HOST_INFO :: bytes where
  "CONTROLLER_TO_HOST_INFO = as_bytes ''personal-remote-desktop/pairing/v1/controller-to-host''"

definition HOST_TO_CONTROLLER_INFO :: bytes where
  "HOST_TO_CONTROLLER_INFO = as_bytes ''personal-remote-desktop/pairing/v1/host-to-controller''"

datatype crypto_direction = CryptoDirection_ControllerToHost | CryptoDirection_HostToController

primrec direction_code :: "crypto_direction \<Rightarrow> u8" where
  "direction_code CryptoDirection_ControllerToHost = 1"
| "direction_code CryptoDirection_HostToController = 2"

primrec nonce_prefix :: "crypto_direction \<Rightarrow> bytes" where
  "nonce_prefix CryptoDirection_ControllerToHost = [0x43, 0x32, 0x48, 0x01]"
| "nonce_prefix CryptoDirection_HostToController = [0x48, 0x32, 0x43, 0x01]"

datatype pairing_crypto_error =
    PairingCryptoError_InvalidLength
  | PairingCryptoError_InvalidSequence
  | PairingCryptoError_InvalidPublicKey
  | PairingCryptoError_InvalidWordList
  | PairingCryptoError_KeyDerivation
  | PairingCryptoError_AuthenticationFailed

record pairing_key_schedule =
  pks_controller_to_host :: bytes
  pks_host_to_controller :: bytes

record pairing_sequence_validator =
  psv_next :: u64
  psv_exhausted :: bool

record pairing_ops =
  x25519_public :: "bytes \<Rightarrow> bytes"
  x25519_dh :: "bytes \<Rightarrow> bytes \<Rightarrow> bytes"
  hkdf_expand :: "bytes \<Rightarrow> bytes \<Rightarrow> bytes \<Rightarrow> bytes option"
  aes_encrypt :: "bytes \<Rightarrow> bytes \<Rightarrow> bytes \<Rightarrow> bytes \<Rightarrow> bytes option"
  aes_decrypt :: "bytes \<Rightarrow> bytes \<Rightarrow> bytes \<Rightarrow> bytes \<Rightarrow> bytes option"
  message_encode :: "pairing_message \<Rightarrow> bytes"
  message_decode :: "bytes \<Rightarrow> pairing_message option"
  plaintext_encode :: "pairing_plaintext \<Rightarrow> bytes"
  plaintext_decode :: "bytes \<Rightarrow> pairing_plaintext option"
  bip39_english :: "string list"

definition sequence_validator_new :: pairing_sequence_validator where
  "sequence_validator_new = \<lparr>psv_next = 1, psv_exhausted = False\<rparr>"

definition sequence_accept ::
  "pairing_sequence_validator \<Rightarrow> u64 \<Rightarrow> pairing_sequence_validator \<times> (pairing_crypto_error + unit)" where
  "sequence_accept v sequence =
     (if psv_exhausted v \<or> sequence \<noteq> psv_next v \<or> sequence > MAX_PAIRING_SEQUENCE
      then (v, Inl PairingCryptoError_InvalidSequence)
      else if sequence = MAX_PAIRING_SEQUENCE then (v\<lparr>psv_exhausted := True\<rparr>, Inr ())
      else (v\<lparr>psv_next := psv_next v + 1\<rparr>, Inr ()))"

definition require_length :: "bytes \<Rightarrow> nat \<Rightarrow> pairing_crypto_error + unit" where
  "require_length value expected =
     (if length value \<noteq> expected then Inl PairingCryptoError_InvalidLength else Inr ())"

definition x25519_public_key :: "pairing_ops \<Rightarrow> bytes \<Rightarrow> pairing_crypto_error + bytes" where
  "x25519_public_key po private_key =
     bind_res (require_length private_key 32) (\<lambda>_. Inr (x25519_public po private_key))"

definition x25519_shared_secret :: "pairing_ops \<Rightarrow> bytes \<Rightarrow> bytes \<Rightarrow> pairing_crypto_error + bytes" where
  "x25519_shared_secret po private_key remote_public_key =
     bind_res (require_length private_key 32) (\<lambda>_.
     bind_res (require_length remote_public_key 32) (\<lambda>_.
     let shared = x25519_dh po private_key remote_public_key
     in if list_all (\<lambda>byte. byte = 0) shared then Inl PairingCryptoError_InvalidPublicKey else Inr shared))"

definition sas_indexes :: "bytes \<Rightarrow> pairing_crypto_error + u16 list" where
  "sas_indexes d =
     bind_res (require_length d NONCE_OR_HASH_BYTES) (\<lambda>_.
     Inr [push_bit 3 (ucast (d ! 0)) OR ucast (drop_bit 5 (d ! 1)),
          push_bit 6 (ucast ((d ! 1) AND 0x1f)) OR ucast (drop_bit 2 (d ! 2)),
          push_bit 9 (ucast ((d ! 2) AND 0x03)) OR push_bit 1 (ucast (d ! 3)) OR ucast (drop_bit 7 (d ! 4)),
          push_bit 4 (ucast ((d ! 4) AND 0x7f)) OR ucast (drop_bit 4 (d ! 5))])"

definition is_ascii_lowercase :: "char \<Rightarrow> bool" where
  "is_ascii_lowercase b \<longleftrightarrow> 97 \<le> (of_char b :: nat) \<and> (of_char b :: nat) \<le> 122"

definition sas_words :: "bytes \<Rightarrow> string list \<Rightarrow> pairing_crypto_error + string list" where
  "sas_words transcript_sha256 word_list =
     (if length word_list \<noteq> 2048
        \<or> list_ex (\<lambda>word. word = [] \<or> length word > 8 \<or> \<not> list_all is_ascii_lowercase word) word_list
      then Inl PairingCryptoError_InvalidWordList
      else bind_res (sas_indexes transcript_sha256) (\<lambda>indexes.
        Inr (map (\<lambda>i. word_list ! unat i) indexes)))"

definition derive_pairing_keys :: "pairing_ops \<Rightarrow> bytes \<Rightarrow> bytes \<Rightarrow> pairing_crypto_error + pairing_key_schedule" where
  "derive_pairing_keys po shared_secret transcript_sha256 =
     bind_res (require_length shared_secret PUBLIC_KEY_BYTES) (\<lambda>_.
     bind_res (require_length transcript_sha256 NONCE_OR_HASH_BYTES) (\<lambda>_.
     if list_all (\<lambda>byte. byte = 0) shared_secret then Inl PairingCryptoError_InvalidPublicKey
     else bind_res (ok_or PairingCryptoError_KeyDerivation
         (hkdf_expand po transcript_sha256 shared_secret CONTROLLER_TO_HOST_INFO)) (\<lambda>controller_to_host.
       bind_res (ok_or PairingCryptoError_KeyDerivation
         (hkdf_expand po transcript_sha256 shared_secret HOST_TO_CONTROLLER_INFO)) (\<lambda>host_to_controller.
       Inr \<lparr>pks_controller_to_host = controller_to_host, pks_host_to_controller = host_to_controller\<rparr>))))"

definition pairing_nonce :: "crypto_direction \<Rightarrow> u64 \<Rightarrow> pairing_crypto_error + bytes" where
  "pairing_nonce direction sequence =
     (if sequence = 0 \<or> sequence > MAX_PAIRING_SEQUENCE then Inl PairingCryptoError_InvalidSequence
      else Inr (nonce_prefix direction @ u64_to_be sequence))"

definition pairing_aad ::
  "crypto_direction \<Rightarrow> u64 \<Rightarrow> bytes \<Rightarrow> bytes \<Rightarrow> bytes \<Rightarrow> pairing_crypto_error + bytes" where
  "pairing_aad direction sequence rendezvous_id controller_device_id host_device_id =
     bind_res (require_length rendezvous_id RENDEZVOUS_ID_BYTES) (\<lambda>_.
     bind_res (require_length controller_device_id DEVICE_ID_BYTES) (\<lambda>_.
     bind_res (require_length host_device_id DEVICE_ID_BYTES) (\<lambda>_.
     bind_res (pairing_nonce direction sequence) (\<lambda>_.
     Inr (AAD_MAGIC @ u16_to_be CRYPTO_VERSION @ [direction_code direction] @ u64_to_be sequence
       @ rendezvous_id @ controller_device_id @ host_device_id)))))"

definition seal_pairing_payload ::
  "pairing_ops \<Rightarrow> bytes \<Rightarrow> crypto_direction \<Rightarrow> u64 \<Rightarrow> bytes \<Rightarrow> bytes \<Rightarrow> pairing_crypto_error + bytes" where
  "seal_pairing_payload po key direction sequence aad plaintext =
     bind_res (require_length key 32) (\<lambda>_.
     if length plaintext > MAX_PAIRING_CIPHERTEXT_BYTES - AES_GCM_TAG_BYTES
     then Inl PairingCryptoError_InvalidLength
     else bind_res (pairing_nonce direction sequence) (\<lambda>nonce.
       ok_or PairingCryptoError_AuthenticationFailed (aes_encrypt po key nonce aad plaintext)))"

definition open_pairing_payload ::
  "pairing_ops \<Rightarrow> bytes \<Rightarrow> crypto_direction \<Rightarrow> u64 \<Rightarrow> bytes \<Rightarrow> bytes \<Rightarrow> pairing_crypto_error + bytes" where
  "open_pairing_payload po key direction sequence aad ciphertext_and_tag =
     bind_res (require_length key 32) (\<lambda>_.
     if length ciphertext_and_tag < AES_GCM_TAG_BYTES \<or> length ciphertext_and_tag > MAX_PAIRING_CIPHERTEXT_BYTES
     then Inl PairingCryptoError_InvalidLength
     else bind_res (pairing_nonce direction sequence) (\<lambda>nonce.
       ok_or PairingCryptoError_AuthenticationFailed (aes_decrypt po key nonce aad ciphertext_and_tag)))"

section \<open>The Host side\<close>

datatype host_pairing_crypto_error =
    HostPairingCryptoError_InvalidMessage
  | HostPairingCryptoError_InvalidIdentity
  | HostPairingCryptoError_TranscriptMismatch
  | HostPairingCryptoError_InvalidSignature
  | HostPairingCryptoError_Cryptography

record verified_controller_hello =
  vch_controller :: device_identity
  vch_controller_ephemeral_public_key :: bytes
  vch_transcript :: bytes
  vch_transcript_sha256 :: bytes
  vch_keys :: pairing_key_schedule

definition strict_decode :: "(bytes \<Rightarrow> 'm option) \<Rightarrow> ('m \<Rightarrow> bytes) \<Rightarrow> bytes \<Rightarrow> host_pairing_crypto_error + 'm" where
  "strict_decode dec enc encoded =
     bind_res (ok_or HostPairingCryptoError_InvalidMessage (dec encoded)) (\<lambda>value.
     if enc value \<noteq> encoded then Inl HostPairingCryptoError_InvalidMessage else Inr value)"

definition decode_pairing_message :: "pairing_ops \<Rightarrow> bytes \<Rightarrow> host_pairing_crypto_error + pairing_message" where
  "decode_pairing_message po encoded = strict_decode (message_decode po) (message_encode po) encoded"

definition encode_pairing_payload :: "pairing_ops \<Rightarrow> pairing_message_payload \<Rightarrow> bytes" where
  "encode_pairing_payload po payload = message_encode po \<lparr>pm_payload = Some payload\<rparr>"

definition pairing_transcript ::
  "device_identity \<Rightarrow> device_identity \<Rightarrow> bytes \<Rightarrow> bytes \<Rightarrow> bytes \<Rightarrow> canonical_transcript" where
  "pairing_transcript controller host rendezvous_id controller_ephemeral_public_key host_ephemeral_public_key =
     \<lparr>ct_purpose = TranscriptPurpose_PairingSas, ct_fields =
        [transcript_field_of 1 (di_device_id controller),
         transcript_field_of 2 (di_device_id host),
         transcript_field_of 3 rendezvous_id,
         transcript_field_of 4 (di_public_key controller),
         transcript_field_of 5 (di_public_key host),
         transcript_field_of 6 controller_ephemeral_public_key,
         transcript_field_of 7 host_ephemeral_public_key]\<rparr>"

definition encode_pairing_transcript ::
  "device_identity \<Rightarrow> device_identity \<Rightarrow> bytes \<Rightarrow> bytes \<Rightarrow> bytes \<Rightarrow> host_pairing_crypto_error + bytes" where
  "encode_pairing_transcript controller host rendezvous_id controller_ephemeral_public_key host_ephemeral_public_key =
     (if length (di_device_id controller) \<noteq> DEVICE_ID_BYTES \<or> length (di_device_id host) \<noteq> DEVICE_ID_BYTES
        \<or> length rendezvous_id \<noteq> RENDEZVOUS_ID_BYTES
      then Inl HostPairingCryptoError_InvalidMessage
      else map_err (\<lambda>_. HostPairingCryptoError_InvalidMessage) (transcript_encode
        (pairing_transcript controller host rendezvous_id controller_ephemeral_public_key host_ephemeral_public_key)))"

text \<open>The identity checks of \<^verbatim>\<open>verify_controller_hello\<close>, up to the transcript.\<close>

definition hello_controller ::
  "crypto \<Rightarrow> controller_pairing_hello \<Rightarrow> bytes \<Rightarrow> bytes \<Rightarrow> device_identity
    \<Rightarrow> host_pairing_crypto_error + device_identity" where
  "hello_controller c hello sender_device_id expected_rendezvous_id host_identity =
     (if cph_rendezvous_id hello \<noteq> expected_rendezvous_id
        \<or> length (cph_rendezvous_id hello) \<noteq> RENDEZVOUS_ID_BYTES
        \<or> length (cph_ephemeral_public_key hello) \<noteq> PUBLIC_KEY_BYTES
        \<or> length (cph_transcript_sha256 hello) \<noteq> NONCE_OR_HASH_BYTES
        \<or> length (cph_signature hello) \<noteq> SIGNATURE_BYTES
      then Inl HostPairingCryptoError_InvalidMessage
      else bind_res (ok_or HostPairingCryptoError_InvalidIdentity (cph_identity hello)) (\<lambda>controller.
        bind_res (map_err (\<lambda>_. HostPairingCryptoError_InvalidIdentity) (validate_device_identity controller)) (\<lambda>_.
        if di_display_name controller = [] \<or> di_device_id controller \<noteq> sender_device_id
          \<or> di_device_id controller = di_device_id host_identity
        then Inl HostPairingCryptoError_InvalidIdentity
        else if length (di_public_key controller) \<noteq> PUBLIC_KEY_BYTES
        then Inl HostPairingCryptoError_InvalidIdentity
        else bind_res (map_err (\<lambda>_. HostPairingCryptoError_InvalidIdentity)
            (derive_device_id_v1 (sha256 c) (di_public_key controller))) (\<lambda>derived.
          if derived \<noteq> di_device_id controller then Inl HostPairingCryptoError_InvalidIdentity
          else Inr controller))))"

definition verify_controller_hello ::
  "crypto \<Rightarrow> pairing_ops \<Rightarrow> controller_pairing_hello \<Rightarrow> bytes \<Rightarrow> bytes \<Rightarrow> device_identity \<Rightarrow> bytes \<Rightarrow> bytes
    \<Rightarrow> host_pairing_crypto_error + verified_controller_hello" where
  "verify_controller_hello c po hello sender_device_id expected_rendezvous_id host_identity
       host_ephemeral_private_key host_ephemeral_public_key =
     bind_res (hello_controller c hello sender_device_id expected_rendezvous_id host_identity) (\<lambda>controller.
     bind_res (encode_pairing_transcript controller host_identity expected_rendezvous_id
         (cph_ephemeral_public_key hello) host_ephemeral_public_key) (\<lambda>transcript.
     let transcript_digest = sha256 c transcript in
     if cph_transcript_sha256 hello \<noteq> transcript_digest then Inl HostPairingCryptoError_TranscriptMismatch
     else if \<not> verifying_key_ok c (di_public_key controller) then Inl HostPairingCryptoError_InvalidIdentity
     else if \<not> ed25519_verify c (di_public_key controller) transcript (cph_signature hello)
     then Inl HostPairingCryptoError_InvalidSignature
     else bind_res (map_err (\<lambda>_. HostPairingCryptoError_Cryptography)
         (x25519_shared_secret po host_ephemeral_private_key (cph_ephemeral_public_key hello))) (\<lambda>shared_secret.
       bind_res (map_err (\<lambda>_. HostPairingCryptoError_Cryptography)
         (derive_pairing_keys po shared_secret transcript_digest)) (\<lambda>keys.
       Inr \<lparr>vch_controller = controller, vch_controller_ephemeral_public_key = cph_ephemeral_public_key hello,
            vch_transcript = transcript, vch_transcript_sha256 = transcript_digest, vch_keys = keys\<rparr>))))"

definition seal_host_plaintext ::
  "pairing_ops \<Rightarrow> bytes \<Rightarrow> u64 \<Rightarrow> bytes \<Rightarrow> bytes \<Rightarrow> bytes \<Rightarrow> pairing_plaintext
    \<Rightarrow> host_pairing_crypto_error + bytes" where
  "seal_host_plaintext po key sequence rendezvous_id controller_device_id host_device_id plaintext =
     bind_res (map_err (\<lambda>_. HostPairingCryptoError_Cryptography)
       (pairing_aad CryptoDirection_HostToController sequence rendezvous_id controller_device_id host_device_id)) (\<lambda>aad.
     bind_res (map_err (\<lambda>_. HostPairingCryptoError_Cryptography)
       (seal_pairing_payload po key CryptoDirection_HostToController sequence aad (plaintext_encode po plaintext))) (\<lambda>ciphertext.
     Inr (encode_pairing_payload po (PairingMessage_EncryptedEnvelope
       \<lparr>epe_protocol_version = Some \<lparr>pv_major = PROTOCOL_MAJOR_VERSION, pv_minor = 0\<rparr>,
        epe_rendezvous_id = rendezvous_id,
        epe_direction = pairing_direction_code PairingDirection_HostToController,
        epe_sequence = sequence, epe_ciphertext = ciphertext\<rparr>))))"

definition open_controller_plaintext ::
  "pairing_ops \<Rightarrow> bytes \<Rightarrow> u64 \<Rightarrow> bytes \<Rightarrow> bytes \<Rightarrow> bytes \<Rightarrow> bytes
    \<Rightarrow> host_pairing_crypto_error + pairing_plaintext" where
  "open_controller_plaintext po key expected_sequence rendezvous_id controller_device_id host_device_id encoded =
     bind_res (decode_pairing_message po encoded) (\<lambda>message.
     (case pm_payload message of
        Some (PairingMessage_EncryptedEnvelope envelope) \<Rightarrow>
          bind_res (ok_or HostPairingCryptoError_InvalidMessage (epe_protocol_version envelope)) (\<lambda>version.
          if pv_major version \<noteq> PROTOCOL_MAJOR_VERSION
            \<or> epe_rendezvous_id envelope \<noteq> rendezvous_id
            \<or> epe_direction envelope \<noteq> pairing_direction_code PairingDirection_ControllerToHost
            \<or> epe_sequence envelope \<noteq> expected_sequence
          then Inl HostPairingCryptoError_InvalidMessage
          else bind_res (map_err (\<lambda>_. HostPairingCryptoError_Cryptography)
              (pairing_aad CryptoDirection_ControllerToHost expected_sequence rendezvous_id
                controller_device_id host_device_id)) (\<lambda>aad.
            bind_res (map_err (\<lambda>_. HostPairingCryptoError_Cryptography)
              (open_pairing_payload po key CryptoDirection_ControllerToHost expected_sequence aad
                (epe_ciphertext envelope))) (\<lambda>plaintext.
            strict_decode (plaintext_decode po) (plaintext_encode po) plaintext)))
      | _ \<Rightarrow> Inl HostPairingCryptoError_InvalidMessage))"

definition pairing_sas_words :: "pairing_ops \<Rightarrow> bytes \<Rightarrow> host_pairing_crypto_error + string list" where
  "pairing_sas_words po transcript_sha256 =
     map_err (\<lambda>_. HostPairingCryptoError_Cryptography) (sas_words transcript_sha256 (bip39_english po))"

definition public_key_fingerprint :: "crypto \<Rightarrow> bytes \<Rightarrow> bytes" where
  "public_key_fingerprint c public_key = sha256 c public_key"

section \<open>Short authentication strings\<close>

lemma bit_below: "unat y < 2 ^ n \<Longrightarrow> bit y m \<Longrightarrow> m < n" for y :: "'a::len word"
  by (metis bit_take_bit_iff take_bit_nat_eq_self_iff unsigned_take_bit_eq unsigned_word_eqI)

lemma unat_shift_or:
  fixes x y :: u16
  assumes "unat x * 2 ^ n < 65536" "unat y < 2 ^ n" "n \<le> 16"
  shows "unat (push_bit n x OR y) = unat x * 2 ^ n + unat y"
proof -
  have "push_bit n x OR y = push_bit n x + y"
    using bit_below [OF assms(2)] by (intro disjunctive_add_eq_or [symmetric] bit_eqI)
      (auto simp: bit_push_bit_iff bit_and_iff dest: leD)
  moreover have push: "unat (push_bit n x) = unat x * 2 ^ n"
    using assms(1) by (subst unsigned_push_bit_eq) (simp add: push_bit_eq_mult take_bit_eq_mod)
  moreover have "unat x * 2 ^ n + unat y < 65536"
  proof -
    have split: "(65536::nat) = 2 ^ (16 - n) * 2 ^ n" using assms(3) by (simp flip: power_add)
    with assms(1) have "unat x < 2 ^ (16 - n)" by simp
    then have "Suc (unat x) * 2 ^ n \<le> 2 ^ (16 - n) * 2 ^ n"
      by (intro mult_le_mono1) (simp add: Suc_le_eq)
    then show ?thesis using assms(2) unfolding split by simp
  qed
  ultimately show ?thesis by (simp add: unat_add_no_overflow)
qed

lemma byte_lt: "unat (b::u8) < 256"
  using unat_lt2p [of b] by simp

lemma ucast_byte: "unat (ucast (b::u8) :: u16) = unat b"
  by (simp add: unsigned_ucast_eq take_bit_nat_eq_self byte_lt less_trans [OF byte_lt])

lemma unat_drop_byte: "unat (drop_bit n (b::u8)) = unat b div 2 ^ n"
  by (subst unsigned_drop_bit_eq) (simp add: drop_bit_eq_div take_bit_eq_mod byte_lt)

lemma unat_mask_byte: "n \<le> 8 \<Longrightarrow> unat ((b::u8) AND mask n) = unat b mod 2 ^ n"
  by (subst take_bit_eq_mask [symmetric], subst unsigned_take_bit_eq) (simp add: take_bit_eq_mod)

lemma byte_masks: "(0x1f::u8) = mask 5" "(0x03::u8) = mask 2" "(0x7f::u8) = mask 7"
  by (simp_all add: mask_eq_exp_minus_1)

lemma sas_index_values:
  assumes "sas_indexes d = Inr is"
  shows "map unat is = [unat (d ! 0) * 8 + unat (d ! 1) div 32, unat (d ! 1) mod 32 * 64 + unat (d ! 2) div 4,
    unat (d ! 2) mod 4 * 512 + unat (d ! 3) * 2 + unat (d ! 4) div 128, unat (d ! 4) mod 128 * 16 + unat (d ! 5) div 16]"
proof -
  have third: "unat (push_bit 9 (ucast (x AND 0x03)) OR (push_bit 1 (ucast y) OR ucast (drop_bit 7 z)) :: u16)
      = unat x mod 4 * 512 + unat y * 2 + unat z div 128" for x y z :: u8
  proof -
    have inner: "unat (push_bit 1 (ucast y) OR ucast (drop_bit 7 z) :: u16) = unat y * 2 + unat z div 128"
      using unat_shift_or [of "ucast y" 1 "ucast (drop_bit 7 z)"] byte_lt [of y] byte_lt [of z]
      by (simp add: ucast_byte unat_drop_byte)
    moreover have "unat y * 2 + unat z div 128 < 512" using byte_lt [of y] byte_lt [of z] by simp
    ultimately show ?thesis
      using unat_shift_or [of "ucast (x AND 0x03)" 9 "push_bit 1 (ucast y) OR ucast (drop_bit 7 z)"]
      by (simp add: ucast_byte byte_masks unat_mask_byte)
  qed
  have pair: "unat (push_bit n (ucast x) OR ucast y :: u16) = unat x * 2 ^ n + unat y"
    if "unat x * 2 ^ n < 65536" "unat y < 2 ^ n" "n \<le> 16" for x y :: u8 and n
    using unat_shift_or [of "ucast x" n "ucast y"] that by (simp add: ucast_byte)
  have i0: "unat (push_bit 3 (ucast x) OR ucast (drop_bit 5 y) :: u16) = unat x * 8 + unat y div 32" for x y :: u8
    using pair [of x 3 "drop_bit 5 y"] byte_lt [of x] byte_lt [of y] by (simp add: unat_drop_byte)
  have i1: "unat (push_bit 6 (ucast (x AND 0x1f)) OR ucast (drop_bit 2 y) :: u16) = unat x mod 32 * 64 + unat y div 4"
    for x y :: u8
    using pair [of "x AND 0x1f" 6 "drop_bit 2 y"] byte_lt [of y] by (simp add: unat_drop_byte byte_masks unat_mask_byte)
  have i3: "unat (push_bit 4 (ucast (x AND 0x7f)) OR ucast (drop_bit 4 y) :: u16) = unat x mod 128 * 16 + unat y div 16"
    for x y :: u8
    using pair [of "x AND 0x7f" 4 "drop_bit 4 y"] byte_lt [of y] by (simp add: unat_drop_byte byte_masks unat_mask_byte)
  have "is = [push_bit 3 (ucast (d ! 0)) OR ucast (drop_bit 5 (d ! 1)),
          push_bit 6 (ucast ((d ! 1) AND 0x1f)) OR ucast (drop_bit 2 (d ! 2)),
          push_bit 9 (ucast ((d ! 2) AND 0x03)) OR (push_bit 1 (ucast (d ! 3)) OR ucast (drop_bit 7 (d ! 4))),
          push_bit 4 (ucast ((d ! 4) AND 0x7f)) OR ucast (drop_bit 4 (d ! 5))]"
    using assms by (auto simp: sas_indexes_def bind_res_Inr or.assoc)
  then show ?thesis by (simp only: list.map i0 i1 third i3)
qed

lemma sas_value:
  fixes a b c d e f :: nat
  shows "((((a * 256 + b) * 256 + c) * 256 + d) * 256 + e) * 256 + f = 16 * ((a * 8 + b div 32) * 2 ^ 33
      + (b mod 32 * 64 + c div 4) * 2 ^ 22 + (c mod 4 * 512 + d * 2 + e div 128) * 2 ^ 11
      + (e mod 128 * 16 + f div 16)) + f mod 16"
proof -
  have "((((a * 256 + (32 * bq + br)) * 256 + (4 * cq + cr)) * 256 + d) * 256 + (128 * eq + er)) * 256 + (16 * fq + fr)
      = 16 * ((a * 8 + bq) * 2 ^ 33 + (br * 64 + cq) * 2 ^ 22 + (cr * 512 + d * 2 + eq) * 2 ^ 11 + (er * 16 + fq)) + fr"
    for bq br cq cr eq er fq fr :: nat
    by (simp add: algebra_simps)
  from this [of "b div 32" "b mod 32" "c div 4" "c mod 4" "e div 128" "e mod 128" "f div 16" "f mod 16"]
  show ?thesis by (simp only: mult_div_mod_eq)
qed

section \<open>Nonces, associated data and sequence numbers\<close>

lemma nonce_prefix_facts: "length (nonce_prefix d) = 4" "nonce_prefix d = nonce_prefix d' \<longleftrightarrow> d = d'"
  by (cases d; cases d'; simp)+

lemma direction_code_inject: "direction_code d = direction_code d' \<longleftrightarrow> d = d'"
  by (cases d; cases d'; simp)

lemma pairing_aad_iff:
  "pairing_aad dir q r c h = Inr aad \<longleftrightarrow> length r = 16 \<and> length c = 32 \<and> length h = 32 \<and> 0 < q
     \<and> q \<le> MAX_PAIRING_SEQUENCE \<and> aad = AAD_MAGIC @ u16_to_be CRYPTO_VERSION @ [direction_code dir] @ u64_to_be q @ r @ c @ h"
  by (auto simp: pairing_aad_def require_length_def pairing_nonce_def bind_res_Inr not_less word_neq_0_conv
      RENDEZVOUS_ID_BYTES_def DEVICE_ID_BYTES_def)

definition accepted_sequences :: "u64 list \<Rightarrow> (pairing_crypto_error + unit) list \<Rightarrow> u64 list" where
  "accepted_sequences qs rs = map fst (filter (\<lambda>(_, r). is_ok r) (zip qs rs))"

definition sequence_inv :: "pairing_sequence_validator \<Rightarrow> bool" where
  "sequence_inv v \<longleftrightarrow> 0 < psv_next v \<and> psv_next v \<le> MAX_PAIRING_SEQUENCE
     \<and> (psv_exhausted v \<longrightarrow> psv_next v = MAX_PAIRING_SEQUENCE)"

lemma sequence_next:
  "0 < q \<Longrightarrow> q < MAX_PAIRING_SEQUENCE \<Longrightarrow> unat (q + 1) = Suc (unat q) \<and> 0 < q + 1 \<and> q + 1 \<le> MAX_PAIRING_SEQUENCE"
proof -
  assume q: "0 < q" "q < MAX_PAIRING_SEQUENCE"
  have max: "unat MAX_PAIRING_SEQUENCE = 2 ^ 63 - 1" by (simp add: limits)
  have "unat q < unat MAX_PAIRING_SEQUENCE" using q(2) by (simp add: word_less_nat_alt)
  then have "unat (q + 1) = Suc (unat q)" unfolding max by (simp add: unat_add_no_overflow)
  then show ?thesis using \<open>unat q < unat MAX_PAIRING_SEQUENCE\<close>
    by (simp add: word_less_nat_alt word_le_nat_alt)
qed

interpretation sequence: machine sequence_accept sequence_inv
proof
  fix v q
  assume "sequence_inv v"
  then show "sequence_inv (fst (sequence_accept v q))"
    using sequence_next [of q] by (auto simp: sequence_accept_def sequence_inv_def not_less)
qed

lemma accepted_consecutive:
  "sequence_inv v \<Longrightarrow> map unat (accepted_sequences qs (snd (run_steps sequence_accept v qs)))
     = [unat (psv_next v)..<unat (psv_next v) + length (accepted_sequences qs (snd (run_steps sequence_accept v qs)))]
   \<and> (psv_exhausted v \<longrightarrow> accepted_sequences qs (snd (run_steps sequence_accept v qs)) = [])
   \<and> unat (psv_next v) + length (accepted_sequences qs (snd (run_steps sequence_accept v qs))) \<le> 2 ^ 63"
proof (induction qs arbitrary: v)
  case Nil
  then show ?case by (simp add: accepted_sequences_def sequence_inv_def word_le_nat_alt limits)
next
  case (Cons q qs)
  let ?v = "fst (sequence_accept v q)" and ?rest = "accepted_sequences qs (snd (run_steps sequence_accept (fst (sequence_accept v q)) qs))"
  note inv = sequence.step_inv [OF Cons.prems, of q]
  note IH = Cons.IH [OF inv]
  have unfold: "accepted_sequences (q # qs) (snd (run_steps sequence_accept v (q # qs)))
      = (if is_ok (snd (sequence_accept v q)) then [q] else []) @ ?rest"
    by (simp add: accepted_sequences_def split_def Let_def)
  consider (refused) "\<not> is_ok (snd (sequence_accept v q))" "?v = v"
    | (last) "is_ok (snd (sequence_accept v q))" "q = psv_next v" "\<not> psv_exhausted v" "q = MAX_PAIRING_SEQUENCE" "psv_exhausted ?v"
    | (step) "is_ok (snd (sequence_accept v q))" "q = psv_next v" "\<not> psv_exhausted v" "q < MAX_PAIRING_SEQUENCE" "psv_next ?v = q + 1"
    by (force simp: sequence_accept_def split: if_splits)
  then show ?case
  proof cases
    case refused
    then show ?thesis using IH unfold by simp
  next
    case last
    then show ?thesis using IH unfold by (simp add: limits)
  next
    case step
    then have "unat (psv_next ?v) = Suc (unat q)"
      using sequence_next [of q] Cons.prems by (simp add: sequence_inv_def)
    then show ?thesis using IH unfold step by (simp add: upt_rec)
  qed
qed

section \<open>Transcripts and sealed messages\<close>

lemma pairing_transcript_iff:
  "encode_pairing_transcript c h r ce he = Inr bs \<longleftrightarrow>
     length r = 16 \<and> transcript_encode (pairing_transcript c h r ce he) = Inr bs"
  by (auto simp: encode_pairing_transcript_def transcript_encode_iff fields_ok_def pairing_transcript_def
      transcript_field_of_def field_length_def DEVICE_ID_BYTES_def RENDEZVOUS_ID_BYTES_def)

lemma pairing_transcript_inject:
  assumes "encode_pairing_transcript c h r ce he = Inr bs" "encode_pairing_transcript c' h' r' ce' he' = Inr bs"
  shows "di_device_id c' = di_device_id c \<and> di_device_id h' = di_device_id h \<and> r' = r
    \<and> di_public_key c' = di_public_key c \<and> di_public_key h' = di_public_key h \<and> ce' = ce \<and> he' = he"
proof -
  have "pairing_transcript c' h' r' ce' he' = pairing_transcript c h r ce he"
    using assms transcript.enc_inject unfolding pairing_transcript_iff by blast
  then show ?thesis by (simp add: pairing_transcript_def transcript_field_of_def)
qed

text \<open>What prost promises of its encoding: a message decodes from the bytes it encodes to.\<close>

definition decodes_own :: "pairing_ops \<Rightarrow> bytes \<Rightarrow> bool" where
  "decodes_own po bs \<longleftrightarrow> (\<forall>m. message_encode po m = bs \<longrightarrow> message_decode po bs = Some m)"

lemma hello_controller_ok:
  "hello_controller c hello sender r host = Inr d \<Longrightarrow>
     cph_identity hello = Some d \<and> di_device_id d = sender \<and> di_device_id d \<noteq> di_device_id host
     \<and> derive_device_id_v1 (sha256 c) (di_public_key d) = Inr (di_device_id d)
     \<and> identity_ok d \<and> di_display_name d \<noteq> [] \<and> cph_rendezvous_id hello = r"
  by (auto simp: hello_controller_def bind_res_Inr validate_device_identity_iff split: if_splits)

section \<open>Examples\<close>

definition example_host_identity :: device_identity where
  "example_host_identity = \<lparr>di_device_id = example_host, di_public_key_algorithm = 1,
     di_public_key = replicate 32 3, di_display_name = ''host'', di_platform = 3\<rparr>"

definition example_hello :: controller_pairing_hello where
  "example_hello = \<lparr>cph_rendezvous_id = replicate 16 5, cph_identity = Some example_controller,
     cph_ephemeral_public_key = replicate 32 6, cph_transcript_sha256 = replicate 32 7,
     cph_signature = replicate 64 7\<rparr>"

definition example_sealed :: pairing_message where
  "example_sealed = \<lparr>pm_payload = Some (PairingMessage_EncryptedEnvelope
     \<lparr>epe_protocol_version = Some \<lparr>pv_major = 1, pv_minor = 0\<rparr>, epe_rendezvous_id = replicate 16 5,
      epe_direction = 2, epe_sequence = 1, epe_ciphertext = replicate 17 0\<rparr>)\<rparr>"

definition example_pairing_ops :: pairing_ops where
  "example_pairing_ops = \<lparr>x25519_public = (\<lambda>_. replicate 32 9), x25519_dh = (\<lambda>_ _. replicate 32 8),
     hkdf_expand = (\<lambda>_ _ _. Some (replicate 32 11)), aes_encrypt = (\<lambda>_ _ _ msg. Some (msg @ replicate 16 0)),
     aes_decrypt = (\<lambda>_ _ _ ct. Some (take (length ct - 16) ct)),
     message_encode = (\<lambda>m. if m = example_sealed then [1] else [2]),
     message_decode = (\<lambda>bs. if bs = [1] then Some example_sealed else None),
     plaintext_encode = (\<lambda>_. [0]), plaintext_decode = (\<lambda>_. Some \<lparr>pp_payload = None\<rparr>),
     bip39_english = replicate 2048 ''zoo''\<rparr>"

lemma example_hello_verified:
  "\<exists>v. verify_controller_hello example_crypto example_pairing_ops example_hello (replicate 32 7) (replicate 16 5)
     example_host_identity (replicate 32 4) (replicate 32 9) = Inr v"
proof -
  have id: "identity_ok example_controller"
    by (simp add: identity_ok_def example_controller_def range_eqI [of _ _ DevicePlatform_Ios])
  have "hello_controller example_crypto example_hello (replicate 32 7) (replicate 16 5) example_host_identity
      = Inr example_controller"
    using validate_device_identity_iff [THEN iffD2, OF id]
    by (simp add: hello_controller_def example_hello_def example_host_identity_def limits example_host_def)
      (simp add: example_controller_def derive_device_id_v1_def example_crypto_def limits)
  moreover obtain t where "encode_pairing_transcript example_controller example_host_identity (replicate 16 5)
      (replicate 32 6) (replicate 32 9) = Inr t"
    by (auto simp: pairing_transcript_iff transcript_encode_iff fields_ok_def pairing_transcript_def
        transcript_field_of_def field_length_def example_controller_def example_host_identity_def example_host_def)
  moreover have "x25519_shared_secret example_pairing_ops (replicate 32 4) (replicate 32 6) = Inr (replicate 32 8)"
    "\<exists>keys. derive_pairing_keys example_pairing_ops (replicate 32 8) (replicate 32 7) = Inr keys"
    by (simp_all add: x25519_shared_secret_def derive_pairing_keys_def require_length_def limits example_pairing_ops_def
        list_all_iff)
  moreover have "cph_ephemeral_public_key example_hello = replicate 32 6" "cph_transcript_sha256 example_hello = replicate 32 7"
    "sha256 example_crypto x = replicate 32 7" "verifying_key_ok example_crypto k" "ed25519_verify example_crypto k m sig" for x k m sig
    by (simp_all add: example_hello_def example_crypto_def)
  ultimately show ?thesis by (auto simp: verify_controller_hello_def Let_def)
qed

lemma seventeen_zeros: "(0::u8) # replicate 16 0 = replicate 17 0"
  by (simp flip: replicate_Suc)

lemma example_sealed_bytes:
  "seal_host_plaintext example_pairing_ops (replicate 32 1) 1 (replicate 16 5) (replicate 32 7) example_host
     \<lparr>pp_payload = None\<rparr> = Inr [1]"
  by (simp add: seal_host_plaintext_def pairing_aad_def pairing_nonce_def require_length_def seal_pairing_payload_def
      limits encode_pairing_payload_def example_pairing_ops_def example_sealed_def example_host_def seventeen_zeros)

section \<open>Properties\<close>

text \<open>
  The words that are compared by eye are the digest.  The four indexes are the first 44 bits of the transcript
  digest, eleven at a time, so each of them lies inside the list of 2048 words and no bit of the 44 is lost or used
  twice; and with a well-formed list four words are always produced.
\<close>

theorem sas_first_44_bits:
  assumes "length d = 32" and "length ws = 2048"
    and "\<forall>w \<in> set ws. w \<noteq> [] \<and> length w \<le> 8 \<and> list_all is_ascii_lowercase w"
  shows "\<exists>i0 i1 i2 i3. sas_indexes d = Inr [i0, i1, i2, i3]
    \<and> unat i0 < 2048 \<and> unat i1 < 2048 \<and> unat i2 < 2048 \<and> unat i3 < 2048
    \<and> unat i0 * 2 ^ 33 + unat i1 * 2 ^ 22 + unat i2 * 2 ^ 11 + unat i3 = be_value (take 6 d) div 16
    \<and> sas_words d ws = Inr [ws ! unat i0, ws ! unat i1, ws ! unat i2, ws ! unat i3]"
proof -
  obtain i0 i1 i2 i3 where i: "sas_indexes d = Inr [i0, i1, i2, i3]"
    using assms(1) by (simp add: sas_indexes_def require_length_def limits)
  note v = sas_index_values [OF i, simplified]
  have six: "[0..<6] = [0::nat, 1, 2, 3, 4, 5]" by (simp add: upt_rec)
  have "take 6 d = map ((!) d) [0..<6]"
    using assms(1) by (intro nth_equalityI) auto
  then have be: "be_value (take 6 d) = ((((unat (d ! 0) * 256 + unat (d ! 1)) * 256 + unat (d ! 2)) * 256 + unat (d ! 3)) * 256
      + unat (d ! 4)) * 256 + unat (d ! 5)"
    unfolding six by (simp add: be_value_def algebra_simps)
  have bits: "unat i0 * 2 ^ 33 + unat i1 * 2 ^ 22 + unat i2 * 2 ^ 11 + unat i3 = be_value (take 6 d) div 16"
  proof -
    have div16: "(16 * x + y mod 16) div 16 = x" for x y :: nat by simp
    show ?thesis unfolding be sas_value div16 using v by (simp only: One_nat_def)
  qed
  have small: "unat i0 < 2048" "unat i1 < 2048" "unat i2 < 2048" "unat i3 < 2048"
    using v byte_lt [of "d ! 0"] byte_lt [of "d ! 1"] byte_lt [of "d ! 2"] byte_lt [of "d ! 3"] byte_lt [of "d ! 4"]
      byte_lt [of "d ! 5"] by auto
  have "sas_words d ws = Inr [ws ! unat i0, ws ! unat i1, ws ! unat i2, ws ! unat i3]"
    using assms(2,3) i by (auto simp: sas_words_def list_ex_iff not_le)
  with i bits small show ?thesis by blast
qed

theorem sas_first_44_bits_witness:
  "\<exists>i0 i1 i2 i3. sas_words (replicate 32 7) (replicate 2048 ''zoo'')
     = Inr [replicate 2048 ''zoo'' ! i0, replicate 2048 ''zoo'' ! i1, replicate 2048 ''zoo'' ! i2, replicate 2048 ''zoo'' ! i3]"
proof -
  have "\<forall>w \<in> set (replicate 2048 ''zoo''). w \<noteq> [] \<and> length w \<le> 8 \<and> list_all is_ascii_lowercase w"
    by (auto simp: is_ascii_lowercase_def)
  then show ?thesis using sas_first_44_bits [of "replicate 32 7" "replicate 2048 ''zoo''"] by auto
qed

text \<open>
  Nothing is encrypted twice under one nonce.  The nonce determines direction and sequence number, the
  associated data determine those and all three identifiers, and a sequence validator started afresh accepts exactly 1, 2, 3, ... up to at most the
  largest positive signed 64-bit number, whatever it is offered.
\<close>

theorem pairing_aead_inputs_unique:
  "(pairing_nonce d q = Inr n \<and> pairing_nonce d' q' = Inr n \<longrightarrow> d' = d \<and> q' = q \<and> length n = 12)
   \<and> (pairing_aad d q r c h = Inr a \<and> pairing_aad d' q' r' c' h' = Inr a
        \<longrightarrow> d' = d \<and> q' = q \<and> r' = r \<and> c' = c \<and> h' = h \<and> length a = 95)
   \<and> (\<exists>k < 2 ^ 63. map unat (accepted_sequences qs (snd (run_steps sequence_accept sequence_validator_new qs))) = [1..<Suc k])"
proof (intro conjI impI)
  assume a: "pairing_nonce d q = Inr n \<and> pairing_nonce d' q' = Inr n"
  then show "d' = d" "q' = q" "length n = 12"
    by (auto simp: pairing_nonce_def nonce_prefix_facts split: if_splits)
next
  assume a: "pairing_aad d q r c h = Inr a \<and> pairing_aad d' q' r' c' h' = Inr a"
  then show "d' = d" "q' = q" "r' = r" "c' = c" "h' = h" "length a = 95"
    by (auto simp: pairing_aad_iff direction_code_inject AAD_MAGIC_def)
next
  have "sequence_inv sequence_validator_new" by (simp add: sequence_inv_def sequence_validator_new_def limits)
  from accepted_consecutive [OF this, of qs]
  show "\<exists>k < 2 ^ 63. map unat (accepted_sequences qs (snd (run_steps sequence_accept sequence_validator_new qs))) = [1..<Suc k]"
    by (intro exI [of _ "length (accepted_sequences qs (snd (run_steps sequence_accept sequence_validator_new qs)))"])
      (simp add: sequence_validator_new_def)
qed

theorem pairing_aead_inputs_unique_witness:
  "pairing_nonce CryptoDirection_HostToController 2 \<noteq> pairing_nonce CryptoDirection_ControllerToHost 2"
  using pairing_aead_inputs_unique [of CryptoDirection_HostToController 2 _ CryptoDirection_ControllerToHost 2]
  by (auto simp: pairing_nonce_def limits)

text \<open>
  A Controller enters a pairing only with proof of its identity.  A hello that verifies comes from the device that
  joined, its identifier is derived from its public key, it is not the Host itself, and that key signed the
  canonical transcript of exactly these two identities, this rendezvous and these two ephemeral keys; the session keys come from the
  Diffie-Hellman secret and that transcript.  Another transcript with the same bytes would have the same seven values.
\<close>

theorem controller_hello_bound:
  assumes "verify_controller_hello c po hello sender r host priv pub = Inr v"
  shows "let d = vch_controller v; t = pairing_transcript d host r (cph_ephemeral_public_key hello) pub in
    cph_identity hello = Some d \<and> di_device_id d = sender \<and> di_device_id d \<noteq> di_device_id host
    \<and> derive_device_id_v1 (sha256 c) (di_public_key d) = Inr (di_device_id d)
    \<and> transcript_decode (vch_transcript v) = Inr t
    \<and> vch_transcript_sha256 v = sha256 c (vch_transcript v)
    \<and> ed25519_verify c (di_public_key d) (vch_transcript v) (cph_signature hello)
    \<and> derive_pairing_keys po (x25519_dh po priv (cph_ephemeral_public_key hello)) (vch_transcript_sha256 v) = Inr (vch_keys v)
    \<and> (\<forall>d' host' r' ce' he'. encode_pairing_transcript d' host' r' ce' he' = Inr (vch_transcript v) \<longrightarrow>
         di_device_id d' = di_device_id d \<and> di_public_key d' = di_public_key d \<and> di_device_id host' = di_device_id host
         \<and> di_public_key host' = di_public_key host \<and> r' = r \<and> ce' = cph_ephemeral_public_key hello \<and> he' = pub)"
proof -
  from assms obtain d t secret keys where
    s: "hello_controller c hello sender r host = Inr d"
      "encode_pairing_transcript d host r (cph_ephemeral_public_key hello) pub = Inr t"
      "ed25519_verify c (di_public_key d) t (cph_signature hello)"
      "x25519_shared_secret po priv (cph_ephemeral_public_key hello) = Inr secret"
      "derive_pairing_keys po secret (sha256 c t) = Inr keys"
      "v = \<lparr>vch_controller = d, vch_controller_ephemeral_public_key = cph_ephemeral_public_key hello,
            vch_transcript = t, vch_transcript_sha256 = sha256 c t, vch_keys = keys\<rparr>"
    by (auto simp: verify_controller_hello_def bind_res_Inr Let_def split: if_splits)
  have "secret = x25519_dh po priv (cph_ephemeral_public_key hello)"
    using s(4) by (auto simp: x25519_shared_secret_def bind_res_Inr Let_def split: if_splits)
  moreover have "transcript_decode t = Inr (pairing_transcript d host r (cph_ephemeral_public_key hello) pub)"
    using s(2) by (simp add: pairing_transcript_iff transcript.accepts_iff)
  moreover note hello_controller_ok [OF s(1)] s(3,5)
  moreover have "di_device_id d' = di_device_id d \<and> di_public_key d' = di_public_key d \<and> di_device_id host' = di_device_id host
      \<and> di_public_key host' = di_public_key host \<and> r' = r \<and> ce' = cph_ephemeral_public_key hello \<and> he' = pub"
    if "encode_pairing_transcript d' host' r' ce' he' = Inr t" for d' host' r' ce' he'
    using pairing_transcript_inject [OF s(2) that] by blast
  ultimately show ?thesis
    unfolding s(6) Let_def verified_controller_hello.simps by (intro conjI allI impI) (elim conjE, assumption | simp only:)+
qed

theorem controller_hello_bound_witness:
  "\<exists>v. verify_controller_hello example_crypto example_pairing_ops example_hello (replicate 32 7) (replicate 16 5)
     example_host_identity (replicate 32 4) (replicate 32 9) = Inr v \<and> di_device_id (vch_controller v) = replicate 32 7"
proof -
  obtain v where v: "verify_controller_hello example_crypto example_pairing_ops example_hello (replicate 32 7) (replicate 16 5)
      example_host_identity (replicate 32 4) (replicate 32 9) = Inr v"
    using example_hello_verified by blast
  from controller_hello_bound [OF v] have "di_device_id (vch_controller v) = replicate 32 7" unfolding Let_def by (elim conjE)
  with v show ?thesis by blast
qed

text \<open>
  Only a message from the Controller opens.  A message that opens was in canonical encoding, marked as coming from the Controller for this
  rendezvous with the expected sequence number, and its ciphertext was accepted under the key with the nonce of
  that direction and number and with associated data that name the rendezvous and both devices.  A message the Host sealed
  itself, sent back to it, is refused whatever keys are used.
\<close>

theorem sealed_messages_bound:
  "(open_controller_plaintext po key q r c h bs = Inr p \<longrightarrow>
     (\<exists>e nonce aad plain. message_encode po \<lparr>pm_payload = Some (PairingMessage_EncryptedEnvelope e)\<rparr> = bs
        \<and> epe_rendezvous_id e = r \<and> epe_sequence e = q \<and> epe_direction e = pairing_direction_code PairingDirection_ControllerToHost
        \<and> pairing_nonce CryptoDirection_ControllerToHost q = Inr nonce
        \<and> pairing_aad CryptoDirection_ControllerToHost q r c h = Inr aad
        \<and> aes_decrypt po key nonce aad (epe_ciphertext e) = Some plain \<and> plaintext_encode po p = plain))
   \<and> (seal_host_plaintext po key' q' r' c' h' p' = Inr bs \<and> decodes_own po bs
      \<longrightarrow> open_controller_plaintext po key q r c h bs = Inl HostPairingCryptoError_InvalidMessage)"
proof (intro conjI impI)
  assume opened: "open_controller_plaintext po key q r c h bs = Inr p"
  then obtain m where m1: "decode_pairing_message po bs = Inr m"
    by (cases "decode_pairing_message po bs") (simp_all add: open_controller_plaintext_def)
  obtain e where m2: "pm_payload m = Some (PairingMessage_EncryptedEnvelope e)"
  proof (cases "pm_payload m")
    case (Some payload)
    then show ?thesis
      using opened m1 that by (cases payload) (simp_all add: open_controller_plaintext_def)
  qed (use opened m1 in \<open>simp add: open_controller_plaintext_def\<close>)
  obtain aad plain where
    m: "decode_pairing_message po bs = Inr m" "pm_payload m = Some (PairingMessage_EncryptedEnvelope e)"
      "epe_rendezvous_id e = r" "epe_sequence e = q"
      "epe_direction e = pairing_direction_code PairingDirection_ControllerToHost"
      "pairing_aad CryptoDirection_ControllerToHost q r c h = Inr aad"
      "open_pairing_payload po key CryptoDirection_ControllerToHost q aad (epe_ciphertext e) = Inr plain"
      "strict_decode (plaintext_decode po) (plaintext_encode po) plain = Inr p"
    using opened m1 m2
    by (auto simp: open_controller_plaintext_def bind_res_Inr simp del: pairing_direction_code.simps split: if_splits)
  have "m = \<lparr>pm_payload = Some (PairingMessage_EncryptedEnvelope e)\<rparr>" using m(2) by (cases m) simp
  then have "message_encode po \<lparr>pm_payload = Some (PairingMessage_EncryptedEnvelope e)\<rparr> = bs"
    using m(1) by (auto simp: decode_pairing_message_def strict_decode_def bind_res_Inr split: if_splits)
  moreover obtain nonce where "pairing_nonce CryptoDirection_ControllerToHost q = Inr nonce"
    "aes_decrypt po key nonce aad (epe_ciphertext e) = Some plain"
    using m(7) by (auto simp: open_pairing_payload_def bind_res_Inr split: if_splits)
  moreover have "plaintext_encode po p = plain"
    using m(8) by (auto simp: strict_decode_def bind_res_Inr split: if_splits)
  ultimately show "\<exists>e nonce aad plain. message_encode po \<lparr>pm_payload = Some (PairingMessage_EncryptedEnvelope e)\<rparr> = bs
        \<and> epe_rendezvous_id e = r \<and> epe_sequence e = q \<and> epe_direction e = pairing_direction_code PairingDirection_ControllerToHost
        \<and> pairing_nonce CryptoDirection_ControllerToHost q = Inr nonce
        \<and> pairing_aad CryptoDirection_ControllerToHost q r c h = Inr aad
        \<and> aes_decrypt po key nonce aad (epe_ciphertext e) = Some plain \<and> plaintext_encode po p = plain"
    using m(3-6) by blast
next
  assume a: "seal_host_plaintext po key' q' r' c' h' p' = Inr bs \<and> decodes_own po bs"
  then obtain e where e: "bs = message_encode po \<lparr>pm_payload = Some (PairingMessage_EncryptedEnvelope e)\<rparr>"
    "epe_direction e = pairing_direction_code PairingDirection_HostToController"
    "epe_protocol_version e = Some \<lparr>pv_major = PROTOCOL_MAJOR_VERSION, pv_minor = 0\<rparr>"
    by (auto simp: seal_host_plaintext_def bind_res_Inr encode_pairing_payload_def
        simp del: pairing_direction_code.simps)
  then have "decode_pairing_message po bs = Inr \<lparr>pm_payload = Some (PairingMessage_EncryptedEnvelope e)\<rparr>"
    using a by (simp add: decode_pairing_message_def strict_decode_def decodes_own_def)
  then show "open_controller_plaintext po key q r c h bs = Inl HostPairingCryptoError_InvalidMessage"
    using e by (simp add: open_controller_plaintext_def)
qed

theorem sealed_messages_bound_witness:
  "open_controller_plaintext example_pairing_ops (replicate 32 1) 1 (replicate 16 5) (replicate 32 7) example_host [1]
     = Inl HostPairingCryptoError_InvalidMessage"
proof -
  have "decodes_own example_pairing_ops [1]"
    by (auto simp: decodes_own_def example_pairing_ops_def split: if_splits)
  then show ?thesis using sealed_messages_bound example_sealed_bytes by blast
qed

end
