(* ===== verification/Signaling_Client.thy ===== *)
theory Signaling_Client
  imports Validation
begin

text \<open>
  The client side of the signaling service, \<^verbatim>\<open>crates/host-agent/src/signaling.rs\<close>: the protocol state of one
  WebSocket connection (registration, heartbeat, one pairing rendezvous), the bounded outbox, and the endpoint policy of
  \<^verbatim>\<open>signaling/transport.rs\<close>.  Decoding of a server frame is prost's and the parsing of a URL is the \<^verbatim>\<open>url\<close> crate's; both are parameters.
\<close>

section \<open>Data\<close>

datatype signaling_client_error =
    SignalingClientError_InvalidDeviceId
  | SignalingClientError_InvalidRequestId
  | SignalingClientError_InvalidRendezvousId
  | SignalingClientError_InvalidPairingKind
  | SignalingClientError_InvalidPairingCode
  | SignalingClientError_InvalidPairingCompletion
  | SignalingClientError_UnexpectedPairingPeer
  | SignalingClientError_InvalidState
  | SignalingClientError_CorrelationMismatch
  | SignalingClientError_FrameTooLarge
  | SignalingClientError_OpaqueEnvelopeTooLarge
  | SignalingClientError_InvalidFrame
  | SignalingClientError_ProtocolUnsupported
  | SignalingClientError_UnexpectedPayload
  | SignalingClientError_InvalidErrorCode
  | SignalingClientError_InvalidQueueCapacity
  | SignalingClientError_QueueFull
  | SignalingClientError_InvalidEndpoint
  | SignalingClientError_InsecureEndpoint
  | SignalingClientError_EndpointCredentials
  | SignalingClientError_Transport
  | SignalingClientError_SubprotocolRequired
  | SignalingClientError_Closed

datatype signaling_event =
    SignalingEvent_Registered u64
  | SignalingEvent_HeartbeatAcknowledged u64 u64
  | SignalingEvent_RoutedSession bytes bytes
  | SignalingEvent_PairingCreated bytes pairing_rendezvous_kind u64
  | SignalingEvent_PairingJoined bytes bytes u64
  | SignalingEvent_RoutedPairing bytes bytes bytes
  | SignalingEvent_PairingClosed bytes pairing_rendezvous_completion
  | SignalingEvent_RemoteError error_code bool

datatype signaling_state =
    SignalingState_Disconnected
  | SignalingState_Registering string
  | SignalingState_Ready

datatype pairing_phase =
    PairingPhase_Creating string
  | PairingPhase_Inviting
  | PairingPhase_Joined bytes
  | PairingPhase_Completing string pairing_rendezvous_completion

record signaling_pairing =
  sp_rendezvous_id :: bytes
  sp_kind :: pairing_rendezvous_kind
  sp_expires_at_unix_ms :: u64
  sp_phase :: pairing_phase

record signaling_protocol =
  sg_device_id :: bytes
  sg_state :: signaling_state
  sg_pairing :: "signaling_pairing option"
  sg_pending_heartbeat_request_id :: "string option"

type_synonym 'a signaling_result = "signaling_protocol \<times> (signaling_client_error + 'a)"

section \<open>Requests\<close>

definition client_frame :: "string \<Rightarrow> signaling_client_frame_payload \<Rightarrow> signaling_client_frame" where
  "client_frame request_id payload =
     \<lparr>scf_protocol_version = Some \<lparr>pv_major = PROTOCOL_MAJOR_VERSION, pv_minor = MINIMUM_PROTOCOL_MINOR_VERSION\<rparr>,
      scf_request_id = request_id, scf_payload = Some payload\<rparr>"

definition validate_request_id_client :: "string \<Rightarrow> signaling_client_error + unit" where
  "validate_request_id_client request_id =
     (if request_id = [] \<or> length request_id > MAX_REQUEST_ID_UTF8_BYTES
      then Inl SignalingClientError_InvalidRequestId else Inr ())"

definition validate_rendezvous_id :: "bytes \<Rightarrow> signaling_client_error + unit" where
  "validate_rendezvous_id rendezvous_id =
     (if length rendezvous_id \<noteq> RENDEZVOUS_ID_BYTES then Inl SignalingClientError_InvalidRendezvousId else Inr ())"

fun validate_pairing_code :: "pairing_rendezvous_kind \<Rightarrow> string \<Rightarrow> signaling_client_error + unit" where
  "validate_pairing_code PairingRendezvousKind_Qr pairing_code =
     (if pairing_code = [] then Inr () else Inl SignalingClientError_InvalidPairingCode)"
| "validate_pairing_code PairingRendezvousKind_DesktopCode pairing_code =
     (if length pairing_code = DESKTOP_PAIRING_CODE_BYTES \<and> list_all is_pairing_code_byte pairing_code
      then Inr () else Inl SignalingClientError_InvalidPairingCode)"
| "validate_pairing_code PairingRendezvousKind_Unspecified pairing_code = Inl SignalingClientError_InvalidPairingKind"

definition signaling_protocol_new :: "bytes \<Rightarrow> signaling_client_error + signaling_protocol" where
  "signaling_protocol_new device_id =
     (if length device_id \<noteq> DEVICE_ID_BYTES then Inl SignalingClientError_InvalidDeviceId
      else Inr \<lparr>sg_device_id = device_id, sg_state = SignalingState_Disconnected, sg_pairing = None,
                sg_pending_heartbeat_request_id = None\<rparr>)"

definition registration :: "signaling_protocol \<Rightarrow> string \<Rightarrow> signaling_client_frame signaling_result" where
  "registration s request_id =
     (if sg_state s \<noteq> SignalingState_Disconnected then (s, Inl SignalingClientError_InvalidState)
      else case validate_request_id_client request_id of
        Inl e \<Rightarrow> (s, Inl e)
      | Inr _ \<Rightarrow>
          (s\<lparr>sg_state := SignalingState_Registering request_id\<rparr>,
           Inr (client_frame request_id (SignalingClientFrame_Register \<lparr>rd_device_id = sg_device_id s\<rparr>))))"

definition relay_session ::
  "signaling_protocol \<Rightarrow> bytes \<Rightarrow> bytes \<Rightarrow> string \<Rightarrow> signaling_client_error + signaling_client_frame" where
  "relay_session s recipient_device_id opaque_envelope request_id =
     (if length opaque_envelope > MAX_OPAQUE_SIGNALING_ENVELOPE_BYTES
      then Inl SignalingClientError_OpaqueEnvelopeTooLarge
      else if sg_state s \<noteq> SignalingState_Ready then Inl SignalingClientError_InvalidState
      else if length recipient_device_id \<noteq> DEVICE_ID_BYTES then Inl SignalingClientError_InvalidDeviceId
      else bind_res (validate_request_id_client request_id) (\<lambda>_.
        Inr (client_frame request_id (SignalingClientFrame_RelaySession
          \<lparr>rse_recipient_device_id = recipient_device_id, rse_opaque_envelope = opaque_envelope\<rparr>))))"

definition create_pairing ::
  "signaling_protocol \<Rightarrow> bytes \<Rightarrow> pairing_rendezvous_kind \<Rightarrow> string \<Rightarrow> string
    \<Rightarrow> signaling_client_frame signaling_result" where
  "create_pairing s rendezvous_id kind pairing_code request_id =
     (if sg_state s \<noteq> SignalingState_Ready \<or> sg_pairing s \<noteq> None then (s, Inl SignalingClientError_InvalidState)
      else case all_ok [validate_rendezvous_id rendezvous_id, validate_pairing_code kind pairing_code,
                        validate_request_id_client request_id] of
        Inl e \<Rightarrow> (s, Inl e)
      | Inr _ \<Rightarrow>
          (s\<lparr>sg_pairing := Some \<lparr>sp_rendezvous_id = rendezvous_id, sp_kind = kind, sp_expires_at_unix_ms = 0,
               sp_phase = PairingPhase_Creating request_id\<rparr>\<rparr>,
           Inr (client_frame request_id (SignalingClientFrame_CreateRendezvous
             \<lparr>cpr2_rendezvous_id = rendezvous_id, cpr2_kind = pairing_rendezvous_kind_code kind,
              cpr2_pairing_code = pairing_code\<rparr>))))"

definition is_joined :: "pairing_phase \<Rightarrow> bool" where
  "is_joined phase = (case phase of PairingPhase_Joined _ \<Rightarrow> True | _ \<Rightarrow> False)"

definition relay_pairing ::
  "signaling_protocol \<Rightarrow> bytes \<Rightarrow> bytes \<Rightarrow> string \<Rightarrow> signaling_client_error + signaling_client_frame" where
  "relay_pairing s rendezvous_id opaque_envelope request_id =
     (if length opaque_envelope > MAX_OPAQUE_SIGNALING_ENVELOPE_BYTES
      then Inl SignalingClientError_OpaqueEnvelopeTooLarge
      else bind_res (all_ok [validate_rendezvous_id rendezvous_id, validate_request_id_client request_id]) (\<lambda>_.
        case sg_pairing s of
          None \<Rightarrow> Inl SignalingClientError_InvalidState
        | Some active \<Rightarrow>
            if sg_state s \<noteq> SignalingState_Ready \<or> sp_rendezvous_id active \<noteq> rendezvous_id
              \<or> \<not> is_joined (sp_phase active)
            then Inl SignalingClientError_InvalidState
            else Inr (client_frame request_id (SignalingClientFrame_RelayPairing
              \<lparr>rpe_rendezvous_id = rendezvous_id, rpe_opaque_envelope = opaque_envelope\<rparr>))))"

definition complete_pairing ::
  "signaling_protocol \<Rightarrow> bytes \<Rightarrow> pairing_rendezvous_completion \<Rightarrow> string
    \<Rightarrow> signaling_client_frame signaling_result" where
  "complete_pairing s rendezvous_id completion request_id =
     (case all_ok [validate_rendezvous_id rendezvous_id,
                   ensure SignalingClientError_InvalidPairingCompletion
                     (completion = PairingRendezvousCompletion_Succeeded
                      \<or> completion = PairingRendezvousCompletion_Rejected),
                   validate_request_id_client request_id] of
        Inl e \<Rightarrow> (s, Inl e)
      | Inr _ \<Rightarrow>
          (case sg_pairing s of
             None \<Rightarrow> (s, Inl SignalingClientError_InvalidState)
           | Some active \<Rightarrow>
               if sg_state s \<noteq> SignalingState_Ready \<or> sp_rendezvous_id active \<noteq> rendezvous_id
                 \<or> \<not> (sp_phase active = PairingPhase_Inviting \<or> is_joined (sp_phase active))
               then (s, Inl SignalingClientError_InvalidState)
               else (s\<lparr>sg_pairing := Some (active\<lparr>sp_phase := PairingPhase_Completing request_id completion\<rparr>)\<rparr>,
                     Inr (client_frame request_id (SignalingClientFrame_CompleteRendezvous
                       \<lparr>cpr3_rendezvous_id = rendezvous_id,
                        cpr3_completion = pairing_rendezvous_completion_code completion\<rparr>)))))"

definition disconnected :: "signaling_protocol \<Rightarrow> signaling_protocol" where
  "disconnected s = s\<lparr>sg_state := SignalingState_Disconnected, sg_pairing := None,
     sg_pending_heartbeat_request_id := None\<rparr>"

definition heartbeat_request :: "signaling_protocol \<Rightarrow> string \<Rightarrow> signaling_client_frame signaling_result" where
  "heartbeat_request s request_id =
     (if sg_state s \<noteq> SignalingState_Ready \<or> sg_pending_heartbeat_request_id s \<noteq> None
      then (s, Inl SignalingClientError_InvalidState)
      else case validate_request_id_client request_id of
        Inl e \<Rightarrow> (s, Inl e)
      | Inr _ \<Rightarrow> (s\<lparr>sg_pending_heartbeat_request_id := Some request_id\<rparr>,
                  Inr (client_frame request_id (SignalingClientFrame_Heartbeat Heartbeat))))"

section \<open>Responses\<close>

definition handle_heartbeat_acknowledged ::
  "signaling_protocol \<Rightarrow> string \<Rightarrow> heartbeat_acknowledged \<Rightarrow> signaling_event signaling_result" where
  "handle_heartbeat_acknowledged s request_id acknowledged =
     (if sg_state s \<noteq> SignalingState_Ready then (s, Inl SignalingClientError_InvalidState)
      else case sg_pending_heartbeat_request_id s of
        None \<Rightarrow> (s, Inl SignalingClientError_InvalidState)
      | Some expected_request_id \<Rightarrow>
          if request_id \<noteq> expected_request_id then (s, Inl SignalingClientError_CorrelationMismatch)
          else if ha_server_time_unix_ms acknowledged = 0
            \<or> ha_presence_expires_at_unix_ms acknowledged \<le> ha_server_time_unix_ms acknowledged
          then (s, Inl SignalingClientError_InvalidFrame)
          else (s\<lparr>sg_pending_heartbeat_request_id := None\<rparr>,
                Inr (SignalingEvent_HeartbeatAcknowledged (ha_server_time_unix_ms acknowledged)
                  (ha_presence_expires_at_unix_ms acknowledged))))"

definition handle_pairing_created ::
  "signaling_protocol \<Rightarrow> string \<Rightarrow> pairing_rendezvous_created \<Rightarrow> signaling_event signaling_result" where
  "handle_pairing_created s request_id created =
     (case pairing_rendezvous_kind_of (prc_kind created) of
        None \<Rightarrow> (s, Inl SignalingClientError_InvalidPairingKind)
      | Some kind \<Rightarrow>
          if kind = PairingRendezvousKind_Unspecified \<or> prc_expires_at_unix_ms created = 0
          then (s, Inl SignalingClientError_InvalidFrame)
          else case sg_pairing s of
            None \<Rightarrow> (s, Inl SignalingClientError_InvalidState)
          | Some active \<Rightarrow>
              (case sp_phase active of
                 PairingPhase_Creating expected_request_id \<Rightarrow>
                   if request_id \<noteq> expected_request_id then (s, Inl SignalingClientError_CorrelationMismatch)
                   else if prc_rendezvous_id created \<noteq> sp_rendezvous_id active \<or> kind \<noteq> sp_kind active
                   then (s, Inl SignalingClientError_CorrelationMismatch)
                   else (s\<lparr>sg_pairing := Some (active\<lparr>sp_expires_at_unix_ms := prc_expires_at_unix_ms created,
                             sp_phase := PairingPhase_Inviting\<rparr>)\<rparr>,
                         Inr (SignalingEvent_PairingCreated (prc_rendezvous_id created) kind
                           (prc_expires_at_unix_ms created)))
               | _ \<Rightarrow> (s, Inl SignalingClientError_InvalidState)))"

definition handle_pairing_joined ::
  "signaling_protocol \<Rightarrow> string \<Rightarrow> pairing_rendezvous_joined \<Rightarrow> signaling_event signaling_result" where
  "handle_pairing_joined s request_id joined =
     (if request_id \<noteq> [] then (s, Inl SignalingClientError_CorrelationMismatch)
      else case sg_pairing s of
        None \<Rightarrow> (s, Inl SignalingClientError_InvalidState)
      | Some active \<Rightarrow>
          if sp_phase active \<noteq> PairingPhase_Inviting then (s, Inl SignalingClientError_InvalidState)
          else if prj_rendezvous_id joined \<noteq> sp_rendezvous_id active
            \<or> prj_expires_at_unix_ms joined \<noteq> sp_expires_at_unix_ms active
          then (s, Inl SignalingClientError_CorrelationMismatch)
          else if length (prj_peer_device_id joined) \<noteq> DEVICE_ID_BYTES \<or> prj_peer_device_id joined = sg_device_id s
          then (s, Inl SignalingClientError_UnexpectedPairingPeer)
          else (s\<lparr>sg_pairing := Some (active\<lparr>sp_phase := PairingPhase_Joined (prj_peer_device_id joined)\<rparr>)\<rparr>,
                Inr (SignalingEvent_PairingJoined (prj_rendezvous_id joined) (prj_peer_device_id joined)
                  (prj_expires_at_unix_ms joined))))"

definition handle_routed_pairing ::
  "signaling_protocol \<Rightarrow> string \<Rightarrow> routed_pairing_envelope \<Rightarrow> signaling_client_error + signaling_event" where
  "handle_routed_pairing s request_id routed =
     (if request_id \<noteq> [] then Inl SignalingClientError_CorrelationMismatch
      else if length (rpe2_opaque_envelope routed) > MAX_OPAQUE_SIGNALING_ENVELOPE_BYTES
      then Inl SignalingClientError_OpaqueEnvelopeTooLarge
      else case sg_pairing s of
        None \<Rightarrow> Inl SignalingClientError_InvalidState
      | Some active \<Rightarrow>
          (case sp_phase active of
             PairingPhase_Joined peer_device_id \<Rightarrow>
               if rpe2_rendezvous_id routed \<noteq> sp_rendezvous_id active
               then Inl SignalingClientError_CorrelationMismatch
               else if rpe2_sender_device_id routed \<noteq> peer_device_id
               then Inl SignalingClientError_UnexpectedPairingPeer
               else Inr (SignalingEvent_RoutedPairing (rpe2_rendezvous_id routed) (rpe2_sender_device_id routed)
                 (rpe2_opaque_envelope routed))
           | _ \<Rightarrow> Inl SignalingClientError_InvalidState))"

text \<open>The match of \<^verbatim>\<open>handle_pairing_closed\<close> on the phase.\<close>

fun closed_allowed ::
  "pairing_phase \<Rightarrow> string \<Rightarrow> pairing_rendezvous_completion \<Rightarrow> signaling_client_error + unit" where
  "closed_allowed (PairingPhase_Completing expected_request_id expected_completion) request_id completion =
     (if request_id = expected_request_id \<and> completion = expected_completion then Inr ()
      else Inl SignalingClientError_CorrelationMismatch)"
| "closed_allowed (PairingPhase_Creating expected_request_id) request_id completion =
     Inl SignalingClientError_InvalidState"
| "closed_allowed phase request_id completion =
     (if request_id = [] \<and> (completion = PairingRendezvousCompletion_Expired
          \<or> completion = PairingRendezvousCompletion_Disconnected)
      then Inr () else Inl SignalingClientError_InvalidState)"

definition handle_pairing_closed ::
  "signaling_protocol \<Rightarrow> string \<Rightarrow> pairing_rendezvous_closed \<Rightarrow> signaling_event signaling_result" where
  "handle_pairing_closed s request_id closed =
     (case pairing_rendezvous_completion_of (prc2_completion closed) of
        None \<Rightarrow> (s, Inl SignalingClientError_InvalidPairingCompletion)
      | Some completion \<Rightarrow>
          if completion = PairingRendezvousCompletion_Unspecified
          then (s, Inl SignalingClientError_InvalidPairingCompletion)
          else case sg_pairing s of
            None \<Rightarrow> (s, Inl SignalingClientError_InvalidState)
          | Some active \<Rightarrow>
              if prc2_rendezvous_id closed \<noteq> sp_rendezvous_id active
              then (s, Inl SignalingClientError_CorrelationMismatch)
              else case closed_allowed (sp_phase active) request_id completion of
                Inl e \<Rightarrow> (s, Inl e)
              | Inr _ \<Rightarrow> (s\<lparr>sg_pairing := None\<rparr>,
                          Inr (SignalingEvent_PairingClosed (prc2_rendezvous_id closed) completion)))"

definition awaits_request :: "string \<Rightarrow> pairing_phase \<Rightarrow> bool" where
  "awaits_request request_id phase =
     (case phase of
        PairingPhase_Creating expected \<Rightarrow> expected = request_id
      | PairingPhase_Completing expected _ \<Rightarrow> expected = request_id
      | _ \<Rightarrow> False)"

definition handle_signaling_error ::
  "signaling_protocol \<Rightarrow> string \<Rightarrow> unified_error \<Rightarrow> signaling_event signaling_result" where
  "handle_signaling_error s request_id error =
     (if request_id = [] \<or> ue_request_id error \<noteq> request_id
      then (s, Inl SignalingClientError_CorrelationMismatch)
      else case validate_request_id_client request_id of
        Inl e \<Rightarrow> (s, Inl e)
      | Inr _ \<Rightarrow>
          (case error_code_of (ue_code error) of
             None \<Rightarrow> (s, Inl SignalingClientError_InvalidErrorCode)
           | Some code \<Rightarrow>
               if code = ErrorCode_Unspecified then (s, Inl SignalingClientError_InvalidErrorCode)
               else
                 let clears_pairing = (case sg_pairing s of
                       None \<Rightarrow> False | Some active \<Rightarrow> awaits_request request_id (sp_phase active))
                 in (if clears_pairing then s\<lparr>sg_pairing := None\<rparr> else s,
                     Inr (SignalingEvent_RemoteError code (ue_retryable error)))))"

fun handle_server_payload ::
  "signaling_protocol \<Rightarrow> string \<Rightarrow> signaling_server_frame_payload \<Rightarrow> signaling_event signaling_result" where
  "handle_server_payload s frame_request_id (SignalingServerFrame_Registered registered) =
     (case sg_state s of
        SignalingState_Registering request_id \<Rightarrow>
          if frame_request_id \<noteq> request_id then (s, Inl SignalingClientError_CorrelationMismatch)
          else if ra_device_id registered \<noteq> sg_device_id s then (s, Inl SignalingClientError_InvalidDeviceId)
          else (s\<lparr>sg_state := SignalingState_Ready\<rparr>,
                Inr (SignalingEvent_Registered (ra_presence_expires_at_unix_ms registered)))
      | _ \<Rightarrow> (s, Inl SignalingClientError_InvalidState))"
| "handle_server_payload s frame_request_id (SignalingServerFrame_HeartbeatAcknowledged acknowledged) =
     handle_heartbeat_acknowledged s frame_request_id acknowledged"
| "handle_server_payload s frame_request_id (SignalingServerFrame_RoutedSession routed) =
     (if sg_state s \<noteq> SignalingState_Ready then (s, Inl SignalingClientError_InvalidState)
      else if frame_request_id \<noteq> [] \<or> length (rse2_sender_device_id routed) \<noteq> DEVICE_ID_BYTES
      then (s, Inl SignalingClientError_InvalidFrame)
      else if length (rse2_opaque_envelope routed) > MAX_OPAQUE_SIGNALING_ENVELOPE_BYTES
      then (s, Inl SignalingClientError_OpaqueEnvelopeTooLarge)
      else (s, Inr (SignalingEvent_RoutedSession (rse2_sender_device_id routed) (rse2_opaque_envelope routed))))"
| "handle_server_payload s frame_request_id (SignalingServerFrame_RendezvousCreated created) =
     handle_pairing_created s frame_request_id created"
| "handle_server_payload s frame_request_id (SignalingServerFrame_RendezvousJoined joined) =
     handle_pairing_joined s frame_request_id joined"
| "handle_server_payload s frame_request_id (SignalingServerFrame_RoutedPairing routed) =
     (s, handle_routed_pairing s frame_request_id routed)"
| "handle_server_payload s frame_request_id (SignalingServerFrame_RendezvousClosed closed) =
     handle_pairing_closed s frame_request_id closed"
| "handle_server_payload s frame_request_id (SignalingServerFrame_Error error) =
     handle_signaling_error s frame_request_id error"
| "handle_server_payload s frame_request_id (SignalingServerFrame_PresenceResult _) =
     (s, Inl SignalingClientError_UnexpectedPayload)"

definition handle_binary ::
  "(bytes \<Rightarrow> signaling_server_frame option) \<Rightarrow> signaling_protocol \<Rightarrow> bytes \<Rightarrow> signaling_event signaling_result" where
  "handle_binary decode s encoded =
     (if length encoded > MAX_SIGNALING_SERVICE_FRAME_BYTES then (s, Inl SignalingClientError_FrameTooLarge)
      else case decode encoded of
        None \<Rightarrow> (s, Inl SignalingClientError_InvalidFrame)
      | Some frame \<Rightarrow>
          (case ssf_protocol_version frame of
             None \<Rightarrow> (s, Inl SignalingClientError_ProtocolUnsupported)
           | Some version \<Rightarrow>
               if pv_major version \<noteq> PROTOCOL_MAJOR_VERSION then (s, Inl SignalingClientError_ProtocolUnsupported)
               else case ssf_payload frame of
                 None \<Rightarrow> (s, Inl SignalingClientError_UnexpectedPayload)
               | Some payload \<Rightarrow> handle_server_payload s (ssf_request_id frame) payload))"

section \<open>Outbox\<close>

record signaling_outbox =
  so_capacity :: nat
  so_frames :: "bytes list"

definition signaling_outbox_new :: "nat \<Rightarrow> signaling_client_error + signaling_outbox" where
  "signaling_outbox_new capacity =
     (if capacity = 0 then Inl SignalingClientError_InvalidQueueCapacity
      else Inr \<lparr>so_capacity = capacity, so_frames = []\<rparr>)"

definition outbox_try_push ::
  "signaling_outbox \<Rightarrow> bytes \<Rightarrow> signaling_outbox \<times> (signaling_client_error + unit)" where
  "outbox_try_push q frame =
     (if length frame > MAX_SIGNALING_SERVICE_FRAME_BYTES then (q, Inl SignalingClientError_FrameTooLarge)
      else if length (so_frames q) \<ge> so_capacity q then (q, Inl SignalingClientError_QueueFull)
      else (q\<lparr>so_frames := so_frames q @ [frame]\<rparr>, Inr ()))"

definition outbox_pop :: "signaling_outbox \<Rightarrow> signaling_outbox \<times> bytes option" where
  "outbox_pop q = (case so_frames q of
     [] \<Rightarrow> (q, None) | frame # rest \<Rightarrow> (q\<lparr>so_frames := rest\<rparr>, Some frame))"

section \<open>Endpoint policy\<close>

datatype url_host = Host_Domain string | Host_Ipv4 u32 | Host_Ipv6 "128 word"

record url =
  url_scheme :: string
  url_username :: string
  url_password :: "string option"
  url_host :: "url_host option"

definition insecure_lan_signaling_enabled :: "bool \<Rightarrow> string option \<Rightarrow> bool" where
  "insecure_lan_signaling_enabled debug_build requested \<longleftrightarrow> debug_build \<and> requested = Some ''true''"

text \<open>The address predicates of the standard library, on the octets in network order.\<close>

definition ipv4_is_private :: "u32 \<Rightarrow> bool" where
  "ipv4_is_private a \<longleftrightarrow> drop_bit 24 a = 10 \<or> drop_bit 20 a = 0xAC1 \<or> drop_bit 16 a = 0xC0A8"

definition ipv4_is_loopback :: "u32 \<Rightarrow> bool" where
  "ipv4_is_loopback a \<longleftrightarrow> drop_bit 24 a = 127"

definition ipv6_is_unique_local :: "128 word \<Rightarrow> bool" where
  "ipv6_is_unique_local a \<longleftrightarrow> drop_bit 121 a = 0x7E"

definition ascii_lowercase :: "char \<Rightarrow> char" where
  "ascii_lowercase b = (if 65 \<le> (of_char b :: nat) \<and> (of_char b :: nat) \<le> 90 then char_of (of_char b + 32 :: nat) else b)"

definition is_private_network_address :: "url \<Rightarrow> bool" where
  "is_private_network_address u =
     (case url_host u of
        Some (Host_Ipv4 address) \<Rightarrow> ipv4_is_private address
      | Some (Host_Ipv6 address) \<Rightarrow> ipv6_is_unique_local address
      | _ \<Rightarrow> False)"

definition is_loopback :: "url \<Rightarrow> bool" where
  "is_loopback u =
     (case url_host u of
        Some (Host_Domain domain) \<Rightarrow> map ascii_lowercase domain = ''localhost''
      | Some (Host_Ipv4 address) \<Rightarrow> ipv4_is_loopback address
      | Some (Host_Ipv6 address) \<Rightarrow> address = 1
      | None \<Rightarrow> False)"

definition validate_signaling_endpoint_with_policy ::
  "(string \<Rightarrow> url option) \<Rightarrow> string \<Rightarrow> bool \<Rightarrow> signaling_client_error + unit" where
  "validate_signaling_endpoint_with_policy parse endpoint allow_insecure_lan =
     (if length endpoint > MAX_SIGNALING_ENDPOINT_UTF8_BYTES then Inl SignalingClientError_InvalidEndpoint
      else bind_res (ok_or SignalingClientError_InvalidEndpoint (parse endpoint)) (\<lambda>u.
        if url_username u \<noteq> [] \<or> url_password u \<noteq> None then Inl SignalingClientError_EndpointCredentials
        else if url_scheme u = ''wss'' then Inr ()
        else if url_scheme u = ''ws'' then
          (if is_loopback u then Inr ()
           else if allow_insecure_lan \<and> is_private_network_address u then Inr ()
           else Inl SignalingClientError_InsecureEndpoint)
        else Inl SignalingClientError_InvalidEndpoint))"

definition validate_signaling_endpoint ::
  "(string \<Rightarrow> url option) \<Rightarrow> bool \<Rightarrow> string option \<Rightarrow> string \<Rightarrow> signaling_client_error + unit" where
  "validate_signaling_endpoint parse debug_build requested endpoint =
     validate_signaling_endpoint_with_policy parse endpoint (insecure_lan_signaling_enabled debug_build requested)"

section \<open>The connection as a machine\<close>

datatype signaling_op =
    Register string
  | CreatePairing bytes pairing_rendezvous_kind string string
  | CompletePairing bytes pairing_rendezvous_completion string
  | SendHeartbeat string
  | Receive bytes
  | ConnectionLost

datatype signaling_out =
    Sent "signaling_client_error + signaling_client_frame"
  | Received "signaling_client_error + signaling_event"
  | WasReset

fun signaling_step ::
  "(bytes \<Rightarrow> signaling_server_frame option) \<Rightarrow> signaling_protocol \<Rightarrow> signaling_op \<Rightarrow> signaling_protocol \<times> signaling_out" where
  "signaling_step dec s (Register i) = map_prod id Sent (registration s i)"
| "signaling_step dec s (CreatePairing r k c i) = map_prod id Sent (create_pairing s r k c i)"
| "signaling_step dec s (CompletePairing r c i) = map_prod id Sent (complete_pairing s r c i)"
| "signaling_step dec s (SendHeartbeat i) = map_prod id Sent (heartbeat_request s i)"
| "signaling_step dec s (Receive bs) = map_prod id Received (handle_binary dec s bs)"
| "signaling_step dec s ConnectionLost = (disconnected s, WasReset)"

text \<open>
  A rendezvous or an outstanding heartbeat exists only on a registered connection, and a joined peer is a device other
  than this one.
\<close>

definition phase_ok :: "bytes \<Rightarrow> pairing_phase \<Rightarrow> bool" where
  "phase_ok own phase \<longleftrightarrow> (case phase of PairingPhase_Joined peer \<Rightarrow> length peer = 32 \<and> peer \<noteq> own | _ \<Rightarrow> True)"

definition signaling_inv :: "signaling_protocol \<Rightarrow> bool" where
  "signaling_inv s \<longleftrightarrow> length (sg_device_id s) = 32
     \<and> (sg_state s \<noteq> SignalingState_Ready \<longrightarrow> sg_pairing s = None \<and> sg_pending_heartbeat_request_id s = None)
     \<and> (\<forall>p. sg_pairing s = Some p \<longrightarrow> length (sp_rendezvous_id p) = 16 \<and> phase_ok (sg_device_id s) (sp_phase p))"

lemma signaling_inv_new: "signaling_protocol_new d = Inr s \<Longrightarrow> signaling_inv s"
  by (auto simp: signaling_protocol_new_def signaling_inv_def DEVICE_ID_BYTES_def split: if_splits)

lemma rendezvous_id_ok: "validate_rendezvous_id r = Inr u \<longleftrightarrow> length r = 16"
  by (simp add: validate_rendezvous_id_def limits)

lemma signaling_inv_pairing:
  "signaling_inv s \<Longrightarrow> sg_pairing s = Some p \<Longrightarrow> sg_state s = SignalingState_Ready \<and> length (sp_rendezvous_id p) = 16"
  by (auto simp: signaling_inv_def)

lemma signaling_inv_change:
  "signaling_inv s \<Longrightarrow> sg_pairing s = Some p \<Longrightarrow> phase_ok (sg_device_id s) ph \<Longrightarrow>
     signaling_inv (s\<lparr>sg_pairing := Some (p\<lparr>sp_phase := ph\<rparr>)\<rparr>)
     \<and> signaling_inv (s\<lparr>sg_pairing := Some (p\<lparr>sp_expires_at_unix_ms := t, sp_phase := ph\<rparr>)\<rparr>)"
  by (auto simp: signaling_inv_def)

lemma signaling_inv_clear: "signaling_inv s \<Longrightarrow> signaling_inv (s\<lparr>sg_pairing := None\<rparr>)"
  by (auto simp: signaling_inv_def)

lemma phase_ok_simps [simp]:
  "phase_ok own (PairingPhase_Creating i)" "phase_ok own PairingPhase_Inviting" "phase_ok own (PairingPhase_Completing i c)"
  "phase_ok own (PairingPhase_Joined peer) \<longleftrightarrow> length peer = 32 \<and> peer \<noteq> own"
  by (simp_all add: phase_ok_def)

lemma signaling_inv_payload:
  assumes "signaling_inv s"
  shows "signaling_inv (fst (handle_server_payload s i pl))"
proof (cases pl)
  case (SignalingServerFrame_Registered x)
  then show ?thesis using assms by (auto simp: signaling_inv_def split: signaling_state.splits)
next
  case (SignalingServerFrame_HeartbeatAcknowledged x)
  then show ?thesis
    using assms by (auto simp: handle_heartbeat_acknowledged_def signaling_inv_def split: option.splits)
next
  case (SignalingServerFrame_RendezvousCreated x)
  then show ?thesis
    using assms by (auto simp: handle_pairing_created_def signaling_inv_change split: option.splits pairing_phase.splits)
next
  case (SignalingServerFrame_RendezvousJoined x)
  then show ?thesis
    using assms by (auto simp: handle_pairing_joined_def signaling_inv_change DEVICE_ID_BYTES_def split: option.splits)
next
  case (SignalingServerFrame_RendezvousClosed x)
  then show ?thesis
    using assms by (auto simp: handle_pairing_closed_def signaling_inv_clear split: option.splits sum.splits)
next
  case (SignalingServerFrame_Error x)
  then show ?thesis
    using assms by (auto simp: handle_signaling_error_def signaling_inv_clear Let_def split: option.splits sum.splits)
qed (use assms in auto)

lemma fst_handle_binary:
  "fst (handle_binary dec s bs) = s \<or>
     (\<exists>f pl. dec bs = Some f \<and> ssf_payload f = Some pl \<and> handle_binary dec s bs = handle_server_payload s (ssf_request_id f) pl)"
  by (auto simp: handle_binary_def split: option.splits)

lemma signaling_inv_step:
  assumes "signaling_inv s"
  shows "signaling_inv (fst (signaling_step dec s a))"
proof (cases a)
  case (Register i)
  then show ?thesis using assms by (auto simp: registration_def signaling_inv_def split: sum.splits)
next
  case (CreatePairing r k c i)
  then show ?thesis
    using assms by (auto simp: create_pairing_def signaling_inv_def rendezvous_id_ok all_ok_Inr split: sum.splits)
next
  case (CompletePairing r c i)
  then show ?thesis
    using assms by (auto simp: complete_pairing_def signaling_inv_change split: sum.splits option.splits)
next
  case (SendHeartbeat i)
  then show ?thesis using assms by (auto simp: heartbeat_request_def signaling_inv_def split: sum.splits)
next
  case (Receive bs)
  then show ?thesis using assms fst_handle_binary [of dec s bs] by (auto simp: signaling_inv_payload)
next
  case ConnectionLost
  then show ?thesis using assms by (simp add: disconnected_def signaling_inv_def)
qed

interpretation signaling: machine "signaling_step dec" signaling_inv for dec
  by unfold_locales (rule signaling_inv_step)

lemma payload_error_frame: "handle_server_payload s i pl = (s', Inl e) \<Longrightarrow> s' = s"
  by (cases pl)
    (auto simp: handle_heartbeat_acknowledged_def handle_pairing_created_def handle_pairing_joined_def
      handle_pairing_closed_def handle_signaling_error_def Let_def
      split: if_splits option.splits pairing_phase.splits signaling_state.splits sum.splits)

lemma binary_error_frame: "handle_binary dec s bs = (s', Inl e) \<Longrightarrow> s' = s"
  using fst_handle_binary [of dec s bs] payload_error_frame by (metis fst_conv)

section \<open>Examples\<close>

definition example_connection :: signaling_protocol where
  "example_connection = \<lparr>sg_device_id = replicate 32 2, sg_state = SignalingState_Ready,
     sg_pairing = Some \<lparr>sp_rendezvous_id = replicate 16 5, sp_kind = PairingRendezvousKind_Qr,
       sp_expires_at_unix_ms = 900, sp_phase = PairingPhase_Joined (replicate 32 7)\<rparr>,
     sg_pending_heartbeat_request_id = None\<rparr>"

definition example_payload :: "bytes \<Rightarrow> string \<times> signaling_server_frame_payload" where
  "example_payload bs =
     (if bs = [0] then (''r'', SignalingServerFrame_Registered
        \<lparr>ra_device_id = replicate 32 2, ra_presence_expires_at_unix_ms = 800\<rparr>)
      else if bs = [1] then (''c'', SignalingServerFrame_RendezvousCreated
        \<lparr>prc_rendezvous_id = replicate 16 5, prc_kind = 1, prc_expires_at_unix_ms = 900\<rparr>)
      else if bs = [2] then ([], SignalingServerFrame_RendezvousJoined
        \<lparr>prj_rendezvous_id = replicate 16 5, prj_peer_device_id = replicate 32 7, prj_expires_at_unix_ms = 900\<rparr>)
      else ([], SignalingServerFrame_RoutedPairing
        \<lparr>rpe2_rendezvous_id = replicate 16 5, rpe2_sender_device_id = replicate 32 7, rpe2_opaque_envelope = bs\<rparr>))"

definition example_decode :: "bytes \<Rightarrow> signaling_server_frame option" where
  "example_decode bs = Some \<lparr>ssf_protocol_version = Some \<lparr>pv_major = 1, pv_minor = 0\<rparr>,
     ssf_request_id = fst (example_payload bs), ssf_payload = Some (snd (example_payload bs))\<rparr>"

definition example_signaling_ops :: "signaling_op list" where
  "example_signaling_ops = [Register ''r'', Receive [0], CreatePairing (replicate 16 5) PairingRendezvousKind_Qr [] ''c'',
     Receive [1], Receive [2]]"

lemma example_decoded:
  "handle_binary example_decode s [0] = handle_server_payload s ''r'' (SignalingServerFrame_Registered
     \<lparr>ra_device_id = replicate 32 2, ra_presence_expires_at_unix_ms = 800\<rparr>)"
  "handle_binary example_decode s [1] = handle_server_payload s ''c'' (SignalingServerFrame_RendezvousCreated
     \<lparr>prc_rendezvous_id = replicate 16 5, prc_kind = 1, prc_expires_at_unix_ms = 900\<rparr>)"
  "handle_binary example_decode s [2] = handle_server_payload s [] (SignalingServerFrame_RendezvousJoined
     \<lparr>prj_rendezvous_id = replicate 16 5, prj_peer_device_id = replicate 32 7, prj_expires_at_unix_ms = 900\<rparr>)"
  "handle_binary example_decode s [3] = handle_server_payload s [] (SignalingServerFrame_RoutedPairing
     \<lparr>rpe2_rendezvous_id = replicate 16 5, rpe2_sender_device_id = replicate 32 7, rpe2_opaque_envelope = [3]\<rparr>)"
  by (simp_all add: handle_binary_def example_decode_def example_payload_def limits)

lemma example_signaling_run:
  "signaling_protocol_new (replicate 32 2) = Inr (disconnected example_connection)"
  "fst (run_steps (signaling_step example_decode) (disconnected example_connection) example_signaling_ops) = example_connection"
  by (simp_all add: example_signaling_ops_def example_decoded signaling_protocol_new_def disconnected_def
      registration_def validate_request_id_client_def create_pairing_def validate_rendezvous_id_def limits fst_run_steps_Cons all_ok.simps
      handle_pairing_created_def handle_pairing_joined_def example_connection_def pairing_rendezvous_kind_of_def del: run_steps.simps(2))

lemma example_routed:
  "handle_binary example_decode example_connection [3]
     = (example_connection, Inr (SignalingEvent_RoutedPairing (replicate 16 5) (replicate 32 7) [3]))"
  by (simp add: example_decoded handle_routed_pairing_def limits example_connection_def)

section \<open>Properties\<close>

text \<open>
  C25. The signaling service cannot change who is being paired.  On any connection, after any sequence of requests, received frames
  and disconnections, a pairing message is delivered only for the one rendezvous the Host has open, from the one peer that
  joined it, which is another device; a rendezvous is open only while registered; and a frame that is refused, for whatever reason, changes
  nothing.
\<close>

theorem signaling_peer_bound:
  assumes "signaling_protocol_new d = Inr s0"
    and "s = fst (run_steps (signaling_step dec) s0 ops)"
  shows "(handle_binary dec s bs = (s', Inr (SignalingEvent_RoutedPairing r sender env)) \<longrightarrow>
       (\<exists>p. sg_pairing s = Some p \<and> sp_rendezvous_id p = r \<and> sp_phase p = PairingPhase_Joined sender)
       \<and> s' = s \<and> sg_state s = SignalingState_Ready \<and> length r = 16 \<and> length sender = 32 \<and> sender \<noteq> sg_device_id s)
    \<and> (sg_pairing s \<noteq> None \<longrightarrow> sg_state s = SignalingState_Ready)
    \<and> (handle_binary dec s bs = (s', Inl e) \<longrightarrow> s' = s)"
proof -
  have inv: "signaling_inv s"
    unfolding assms(2) by (rule signaling.run_inv [OF signaling_inv_new [OF assms(1)]])
  have "\<exists>p. sg_pairing s = Some p \<and> sp_rendezvous_id p = r \<and> sp_phase p = PairingPhase_Joined sender \<and> s' = s"
    if "handle_server_payload s i pl = (s', Inr (SignalingEvent_RoutedPairing r sender env))" for i pl
    using that
    by (cases pl) (auto simp: handle_heartbeat_acknowledged_def handle_pairing_created_def handle_pairing_joined_def
      handle_pairing_closed_def handle_signaling_error_def handle_routed_pairing_def Let_def
      split: if_splits option.splits pairing_phase.splits signaling_state.splits sum.splits)
  then have "\<exists>p. sg_pairing s = Some p \<and> sp_rendezvous_id p = r \<and> sp_phase p = PairingPhase_Joined sender \<and> s' = s"
    if "handle_binary dec s bs = (s', Inr (SignalingEvent_RoutedPairing r sender env))"
    using that by (auto simp: handle_binary_def split: if_splits option.splits)
  then show ?thesis
    using inv binary_error_frame [of dec s bs s' e] by (auto simp: signaling_inv_def)
qed

theorem signaling_peer_bound_witness:
  "sg_state example_connection = SignalingState_Ready \<and> replicate 32 7 \<noteq> sg_device_id example_connection"
  using signaling_peer_bound [OF example_signaling_run(1) refl, of example_decode example_signaling_ops "[3]"]
    example_routed unfolding example_signaling_run(2) by blast

text \<open>
  Plaintext signaling stays local.  An endpoint is accepted only without credentials, and only over TLS, or to a
  loopback address, or, in a debug build whose environment asks for it in so many words, to a private address literal.
\<close>

theorem endpoint_policy_exact:
  "validate_signaling_endpoint parse debug_build requested endpoint = Inr u \<longleftrightarrow>
     length endpoint \<le> MAX_SIGNALING_ENDPOINT_UTF8_BYTES \<and>
     (\<exists>x. parse endpoint = Some x \<and> url_username x = [] \<and> url_password x = None
       \<and> (url_scheme x = ''wss'' \<or> url_scheme x = ''ws'' \<and>
           (is_loopback x \<or> debug_build \<and> requested = Some ''true'' \<and>
             (\<exists>a. url_host x = Some (Host_Ipv4 a) \<and> ipv4_is_private a
                \<or> (\<exists>b. url_host x = Some (Host_Ipv6 b) \<and> ipv6_is_unique_local b)))))"
  by (cases "parse endpoint")
    (auto simp: validate_signaling_endpoint_def validate_signaling_endpoint_with_policy_def
      insecure_lan_signaling_enabled_def is_private_network_address_def split: option.splits url_host.splits)

end
