(* ===== verification/Host_Pairing.thy ===== *)
theory Host_Pairing
  imports Pairing_Crypto Signaling_Client
begin

text \<open>
  The Host side of pairing, \<^verbatim>\<open>crates/host-agent/src/pairing.rs\<close>: one rendezvous at a time, from the invitation over the
  Controller's signed hello and its encrypted confirmation to the decision of the local user, which is the only thing that turns into a
  grant.  The random source is an argument of \<open>pairing_start\<close>; everything from outside the repository sits in
  \<open>pairing_env\<close>.  The two \<^verbatim>\<open>expect\<close> calls of the code (an active pairing while its status is published, a Host identity in the invitation)
  are unreachable by \<open>coordinator_inv\<close>; the model leaves the state alone there.
\<close>

section \<open>Data\<close>

definition RENDEZVOUS_BYTES :: nat where
  [limits]: "RENDEZVOUS_BYTES = 16"

definition EPHEMERAL_PRIVATE_KEY_BYTES :: nat where
  [limits]: "EPHEMERAL_PRIVATE_KEY_BYTES = 32"

definition BASE32_ALPHABET :: string where
  "BASE32_ALPHABET = ''ABCDEFGHIJKLMNOPQRSTUVWXYZ234567''"

definition VIEW_AND_CONTROL_PERMISSIONS :: "session_permission list" where
  "VIEW_AND_CONTROL_PERMISSIONS = [SessionPermission_ViewScreen, SessionPermission_ControlInput]"

datatype pairing_random_error = PairingRandomError_Unavailable

datatype pairing_coordinator_error =
    PairingCoordinatorError_InvalidState
  | PairingCoordinatorError_InvalidInput
  | PairingCoordinatorError_Expired
  | PairingCoordinatorError_Authentication
  | PairingCoordinatorError_Authorization authorization_error
  | PairingCoordinatorError_Random pairing_random_error

datatype pairing_outbound =
    PairingOutbound_Create bytes pairing_rendezvous_kind string
  | PairingOutbound_Relay bytes bytes
  | PairingOutbound_Complete bytes pairing_rendezvous_completion

datatype active_phase =
    ActivePhase_Creating
  | ActivePhase_Inviting
  | ActivePhase_WaitingHello
  | ActivePhase_WaitingReady
  | ActivePhase_WaitingDecision

record host_pairing_keys =
  hpk_controller_to_host :: bytes
  hpk_host_to_controller :: bytes

record active_pairing =
  ap_phase :: active_phase
  ap_invitation :: host_pairing_invitation
  ap_server_expires_at_unix_ms :: u64
  ap_host_ephemeral_private_key :: bytes
  ap_peer_device_id :: "bytes option"
  ap_controller :: "device_identity option"
  ap_controller_ephemeral_public_key :: bytes
  ap_transcript_sha256 :: bytes
  ap_keys :: "host_pairing_keys option"
  ap_sas_words :: "string list"

record pairing_coordinator =
  pc_host_identity :: device_identity
  pc_signaling_connected :: bool
  pc_revision :: u64
  pc_status :: host_pairing_status_snapshot
  pc_active :: "active_pairing option"
  pc_terminal_rendezvous_id :: "bytes option"
  pc_pending_cancelled_create :: "bytes option"
  pc_outbound :: "pairing_outbound list"

record pairing_env =
  pe_crypto :: crypto
  pe_ops :: pairing_ops
  pe_signer :: signer
  pe_url_parse :: "string \<Rightarrow> url option"
  pe_debug_build :: bool
  pe_lan_requested :: "string option"

text \<open>What the three calls of \<^verbatim>\<open>fill\<close> put into their arrays, or that the source is unavailable.\<close>

record pairing_draws =
  pdr_rendezvous :: "128 word option"
  pdr_private_key :: "256 word option"
  pdr_code :: "40 word option"

type_synonym 'a pairing_result = "pairing_coordinator \<times> (pairing_coordinator_error + 'a)"

section \<open>Helpers\<close>

definition idle_snapshot :: "u64 \<Rightarrow> host_pairing_status_snapshot" where
  "idle_snapshot revision =
     \<lparr>hpss_state = host_pairing_state_code HostPairingState_Idle, hpss_revision = revision, hpss_invitation = None,
      hpss_pending_controller = None, hpss_pending_controller_fingerprint_sha256 = [], hpss_sas_words = [],
      hpss_expires_at_unix_ms = 0, hpss_error = None\<rparr>"

definition pairing_failed_error :: unified_error where
  "pairing_failed_error = \<lparr>ue_code = error_code_code ErrorCode_AuthInvalid, ue_message_key = ''pairing.failed'',
     ue_retryable = False, ue_request_id = [], ue_details = None\<rparr>"

primrec signaling_kind :: "pairing_invitation_kind \<Rightarrow> pairing_rendezvous_kind" where
  "signaling_kind PairingInvitationKind_Qr = PairingRendezvousKind_Qr"
| "signaling_kind PairingInvitationKind_DesktopCode = PairingRendezvousKind_DesktopCode"
| "signaling_kind PairingInvitationKind_Unspecified = PairingRendezvousKind_Unspecified"

definition map_crypto_error :: "host_pairing_crypto_error \<Rightarrow> pairing_coordinator_error" where
  "map_crypto_error e = PairingCoordinatorError_Authentication"

definition push_outbound :: "pairing_outbound \<Rightarrow> pairing_coordinator \<Rightarrow> pairing_coordinator" where
  "push_outbound x s = s\<lparr>pc_outbound := pc_outbound s @ [x]\<rparr>"

definition confirmation_data ::
  "verified_controller_hello \<Rightarrow> active_pairing \<Rightarrow> device_identity \<Rightarrow> pairing_confirmation_data" where
  "confirmation_data verified active host =
     \<lparr>pcd_controller_device_id = di_device_id (vch_controller verified),
      pcd_host_device_id = di_device_id host,
      pcd_rendezvous_id = hpi_rendezvous_id (ap_invitation active),
      pcd_controller_identity_public_key = di_public_key (vch_controller verified),
      pcd_host_identity_public_key = di_public_key host,
      pcd_controller_ephemeral_public_key = vch_controller_ephemeral_public_key verified,
      pcd_host_ephemeral_public_key = hpi_host_ephemeral_public_key (ap_invitation active),
      pcd_transcript_sha256 = vch_transcript_sha256 verified\<rparr>"

definition finish ::
  "host_pairing_state \<Rightarrow> unified_error option \<Rightarrow> pairing_coordinator \<Rightarrow> pairing_coordinator" where
  "finish state error s =
     (let rendezvous_id = map_option (\<lambda>active. hpi_rendezvous_id (ap_invitation active)) (pc_active s);
          revision = saturating_add (pc_revision s) 1
      in s\<lparr>pc_active := None,
           pc_terminal_rendezvous_id :=
             (if rendezvous_id \<noteq> None then rendezvous_id else pc_terminal_rendezvous_id s),
           pc_revision := revision,
           pc_status := \<lparr>hpss_state = host_pairing_state_code state, hpss_revision = revision,
             hpss_invitation = None, hpss_pending_controller = None,
             hpss_pending_controller_fingerprint_sha256 = [], hpss_sas_words = [],
             hpss_expires_at_unix_ms = 0, hpss_error = error\<rparr>\<rparr>)"

definition fail_active :: "pairing_coordinator \<Rightarrow> pairing_coordinator" where
  "fail_active s =
     finish HostPairingState_Failed (Some pairing_failed_error)
       (case pc_active s of
          Some active \<Rightarrow>
            if ap_phase active \<noteq> ActivePhase_Creating
            then push_outbound (PairingOutbound_Complete (hpi_rendezvous_id (ap_invitation active))
                   PairingRendezvousCompletion_Rejected) s
            else s
        | None \<Rightarrow> s)"

definition publish_active :: "crypto \<Rightarrow> host_pairing_state \<Rightarrow> pairing_coordinator \<Rightarrow> pairing_coordinator" where
  "publish_active c state s =
     (let revision = saturating_add (pc_revision s) 1
      in case pc_active s of
           None \<Rightarrow> s\<lparr>pc_revision := revision\<rparr>
         | Some active \<Rightarrow>
             let waiting = (state = HostPairingState_WaitingLocalDecision)
             in s\<lparr>pc_revision := revision,
                  pc_status := \<lparr>hpss_state = host_pairing_state_code state, hpss_revision = revision,
                    hpss_invitation = Some (ap_invitation active),
                    hpss_pending_controller = (if waiting then ap_controller active else None),
                    hpss_pending_controller_fingerprint_sha256 =
                      (if waiting then (case ap_controller active of
                         None \<Rightarrow> [] | Some controller \<Rightarrow> public_key_fingerprint c (di_public_key controller))
                       else []),
                    hpss_sas_words = (if waiting then ap_sas_words active else []),
                    hpss_expires_at_unix_ms = hpi_expires_at_unix_ms (ap_invitation active),
                    hpss_error = None\<rparr>\<rparr>)"

section \<open>Lifecycle\<close>

definition pairing_coordinator_new :: "crypto \<Rightarrow> device_identity \<Rightarrow> pairing_coordinator_error + pairing_coordinator" where
  "pairing_coordinator_new c host_identity =
     bind_res (map_err (\<lambda>_. PairingCoordinatorError_InvalidInput) (validate_device_identity host_identity)) (\<lambda>_.
     if length (di_public_key host_identity) \<noteq> 32 then Inl PairingCoordinatorError_InvalidInput
     else if di_display_name host_identity = [] then Inl PairingCoordinatorError_InvalidInput
     else bind_res (map_err (\<lambda>_. PairingCoordinatorError_InvalidInput)
         (derive_device_id_v1 (sha256 c) (di_public_key host_identity))) (\<lambda>derived.
       if derived \<noteq> di_device_id host_identity then Inl PairingCoordinatorError_InvalidInput
       else bind_res (ok_or PairingCoordinatorError_InvalidInput (device_platform_of (di_platform host_identity))) (\<lambda>platform.
         if platform \<noteq> DevicePlatform_Macos \<and> platform \<noteq> DevicePlatform_Windows
         then Inl PairingCoordinatorError_InvalidInput
         else Inr \<lparr>pc_host_identity = host_identity, pc_signaling_connected = False, pc_revision = 0,
                   pc_status = idle_snapshot 0, pc_active = None, pc_terminal_rendezvous_id = None,
                   pc_pending_cancelled_create = None, pc_outbound = []\<rparr>)))"

definition pairing_signaling_connected :: "pairing_coordinator \<Rightarrow> pairing_coordinator" where
  "pairing_signaling_connected s = s\<lparr>pc_signaling_connected := True\<rparr>"

definition pairing_deadline :: "pairing_coordinator \<Rightarrow> u64 option" where
  "pairing_deadline s = map_option (\<lambda>active. hpi_expires_at_unix_ms (ap_invitation active)) (pc_active s)"

definition has_outbound :: "pairing_coordinator \<Rightarrow> bool" where
  "has_outbound s \<longleftrightarrow> pc_outbound s \<noteq> []"

definition take_outbound :: "pairing_coordinator \<Rightarrow> pairing_coordinator \<times> pairing_outbound list" where
  "take_outbound s = (s\<lparr>pc_outbound := []\<rparr>, pc_outbound s)"

text \<open>Withdrawing an invitation: the common part of \<^verbatim>\<open>tick\<close> and \<^verbatim>\<open>cancel\<close>.\<close>

definition withdraw :: "active_pairing \<Rightarrow> pairing_coordinator \<Rightarrow> pairing_coordinator" where
  "withdraw active s =
     (if ap_phase active = ActivePhase_Creating
      then s\<lparr>pc_pending_cancelled_create := Some (hpi_rendezvous_id (ap_invitation active))\<rparr>
      else push_outbound (PairingOutbound_Complete (hpi_rendezvous_id (ap_invitation active))
             PairingRendezvousCompletion_Rejected) s)"

definition pairing_tick :: "pairing_coordinator \<Rightarrow> u64 \<Rightarrow> pairing_coordinator" where
  "pairing_tick s now_unix_ms =
     (case pc_active s of
        None \<Rightarrow> s
      | Some active \<Rightarrow>
          if now_unix_ms < hpi_expires_at_unix_ms (ap_invitation active) then s
          else finish HostPairingState_Expired None (withdraw active s))"

definition pairing_cancel :: "pairing_coordinator \<Rightarrow> bytes \<Rightarrow> unit pairing_result" where
  "pairing_cancel s rendezvous_id =
     (case pc_active s of
        None \<Rightarrow> (s, Inl PairingCoordinatorError_InvalidState)
      | Some active \<Rightarrow>
          if hpi_rendezvous_id (ap_invitation active) \<noteq> rendezvous_id
          then (s, Inl PairingCoordinatorError_InvalidState)
          else (finish HostPairingState_Cancelled None (withdraw active s), Inr ()))"

definition pairing_signaling_lost :: "pairing_coordinator \<Rightarrow> pairing_coordinator" where
  "pairing_signaling_lost s =
     (let s' = s\<lparr>pc_signaling_connected := False, pc_pending_cancelled_create := None\<rparr>
      in if pc_active s' \<noteq> None then finish HostPairingState_Failed (Some pairing_failed_error) s' else s')"

definition pairing_shutdown :: "pairing_coordinator \<Rightarrow> pairing_coordinator" where
  "pairing_shutdown s =
     (let s' = s\<lparr>pc_signaling_connected := False, pc_pending_cancelled_create := None, pc_outbound := []\<rparr>
      in if pc_active s' \<noteq> None then finish HostPairingState_Cancelled None s' else s')"

definition return_to_idle :: "pairing_coordinator \<Rightarrow> unit pairing_result" where
  "return_to_idle s =
     (case host_pairing_state_of (hpss_state (pc_status s)) of
        None \<Rightarrow> (s, Inl PairingCoordinatorError_InvalidState)
      | Some state \<Rightarrow>
          if pc_active s \<noteq> None \<or> state \<in> {HostPairingState_Idle, HostPairingState_Creating, HostPairingState_Inviting,
               HostPairingState_VerifyingController, HostPairingState_WaitingLocalDecision, HostPairingState_Unspecified}
          then (s, Inl PairingCoordinatorError_InvalidState)
          else
            let revision = saturating_add (pc_revision s) 1
            in (s\<lparr>pc_terminal_rendezvous_id := None, pc_revision := revision, pc_status := idle_snapshot revision\<rparr>, Inr ()))"

definition generate_desktop_code :: "40 word \<Rightarrow> string" where
  "generate_desktop_code random =
     (let bits = (ucast random :: u64)
      in map (\<lambda>index. BASE32_ALPHABET ! unat (drop_bit ((7 - index) * 5) bits AND 0x1f)) [0..<8])"

text \<open>\<^verbatim>\<open>start\<close> after its state checks: the draws, the invitation and the new active pairing.\<close>

definition begin_invitation ::
  "pairing_env \<Rightarrow> pairing_draws \<Rightarrow> pairing_coordinator \<Rightarrow> pairing_invitation_kind \<Rightarrow> string \<Rightarrow> u64
    \<Rightarrow> pairing_coordinator_error + pairing_coordinator" where
  "begin_invitation env dr s kind signaling_endpoint now_unix_ms =
     (if (kind \<noteq> PairingInvitationKind_Qr \<and> kind \<noteq> PairingInvitationKind_DesktopCode)
        \<or> \<not> is_ok (validate_signaling_endpoint (pe_url_parse env) (pe_debug_build env) (pe_lan_requested env) signaling_endpoint)
      then Inl PairingCoordinatorError_InvalidInput
      else bind_res (ok_or PairingCoordinatorError_InvalidInput
          (checked_add now_unix_ms PAIRING_RENDEZVOUS_LIFETIME_MS)) (\<lambda>expires_at_unix_ms.
        bind_res (ok_or (PairingCoordinatorError_Random PairingRandomError_Unavailable) (pdr_rendezvous dr)) (\<lambda>r.
        bind_res (ok_or (PairingCoordinatorError_Random PairingRandomError_Unavailable) (pdr_private_key dr)) (\<lambda>k.
        let rendezvous_id = be_bytes RENDEZVOUS_BYTES (unat r);
            private_key = be_bytes EPHEMERAL_PRIVATE_KEY_BYTES (unat k)
        in bind_res (map_err (\<lambda>_. PairingCoordinatorError_Authentication) (x25519_public_key (pe_ops env) private_key)) (\<lambda>ephemeral_public_key.
        bind_res (if kind = PairingInvitationKind_DesktopCode
            then map_err PairingCoordinatorError_Random
              (bind_res (ok_or PairingRandomError_Unavailable (pdr_code dr)) (\<lambda>random. Inr (generate_desktop_code random)))
            else Inr []) (\<lambda>pairing_code.
        let invitation = \<lparr>hpi_protocol_version = Some \<lparr>pv_major = PROTOCOL_MAJOR_VERSION, pv_minor = 0\<rparr>,
              hpi_kind = pairing_invitation_kind_code kind, hpi_rendezvous_id = rendezvous_id,
              hpi_host_identity = Some (pc_host_identity s),
              hpi_host_public_key_fingerprint_sha256 =
                public_key_fingerprint (pe_crypto env) (di_public_key (pc_host_identity s)),
              hpi_host_ephemeral_public_key = ephemeral_public_key,
              hpi_signaling_endpoint = signaling_endpoint, hpi_pairing_code = pairing_code,
              hpi_issued_at_unix_ms = now_unix_ms, hpi_expires_at_unix_ms = expires_at_unix_ms\<rparr>;
            s' = s\<lparr>pc_active := Some \<lparr>ap_phase = ActivePhase_Creating, ap_invitation = invitation,
                      ap_server_expires_at_unix_ms = 0, ap_host_ephemeral_private_key = private_key,
                      ap_peer_device_id = None, ap_controller = None, ap_controller_ephemeral_public_key = [],
                      ap_transcript_sha256 = [], ap_keys = None, ap_sas_words = []\<rparr>,
                   pc_terminal_rendezvous_id := None\<rparr>
        in Inr (publish_active (pe_crypto env) HostPairingState_Creating
             (push_outbound (PairingOutbound_Create rendezvous_id (signaling_kind kind) pairing_code) s'))))))))"

definition pairing_start ::
  "pairing_env \<Rightarrow> pairing_draws \<Rightarrow> pairing_coordinator \<Rightarrow> pairing_invitation_kind \<Rightarrow> string \<Rightarrow> u64
    \<Rightarrow> host_pairing_status_snapshot pairing_result" where
  "pairing_start env dr s kind signaling_endpoint now_unix_ms =
     (if \<not> pc_signaling_connected s \<or> pc_active s \<noteq> None then (s, Inl PairingCoordinatorError_InvalidState)
      else sbind (if hpss_state (pc_status s) \<noteq> host_pairing_state_code HostPairingState_Idle
                  then return_to_idle s else (s, Inr ())) (\<lambda>s1 _.
        case begin_invitation env dr s1 kind signaling_endpoint now_unix_ms of
          Inl e \<Rightarrow> (s1, Inl e)
        | Inr s2 \<Rightarrow> (s2, Inr (pc_status s2))))"

section \<open>Signaling events\<close>

definition handle_created ::
  "crypto \<Rightarrow> pairing_coordinator \<Rightarrow> bytes \<Rightarrow> pairing_rendezvous_kind \<Rightarrow> u64 \<Rightarrow> u64 \<Rightarrow> unit pairing_result" where
  "handle_created c s rendezvous_id kind server_expires_at_unix_ms now_unix_ms =
     (if pc_active s = None \<and> pc_pending_cancelled_create s = Some rendezvous_id
      then (push_outbound (PairingOutbound_Complete rendezvous_id PairingRendezvousCompletion_Rejected)
              (s\<lparr>pc_pending_cancelled_create := None\<rparr>), Inr ())
      else case pc_active s of
        None \<Rightarrow> (s, Inl PairingCoordinatorError_InvalidState)
      | Some active \<Rightarrow>
          if ap_phase active \<noteq> ActivePhase_Creating \<or> hpi_rendezvous_id (ap_invitation active) \<noteq> rendezvous_id
            \<or> map_option signaling_kind (pairing_invitation_kind_of (hpi_kind (ap_invitation active))) \<noteq> Some kind
            \<or> server_expires_at_unix_ms \<le> now_unix_ms
          then (s, Inl PairingCoordinatorError_InvalidState)
          else (publish_active c HostPairingState_Inviting (s\<lparr>pc_active := Some (active\<lparr>
                  ap_server_expires_at_unix_ms := server_expires_at_unix_ms,
                  ap_invitation := (ap_invitation active)\<lparr>hpi_expires_at_unix_ms :=
                    min (hpi_expires_at_unix_ms (ap_invitation active)) server_expires_at_unix_ms\<rparr>,
                  ap_phase := ActivePhase_Inviting\<rparr>)\<rparr>), Inr ()))"

definition handle_joined ::
  "pairing_env \<Rightarrow> pairing_coordinator \<Rightarrow> bytes \<Rightarrow> bytes \<Rightarrow> u64 \<Rightarrow> u64 \<Rightarrow> unit pairing_result" where
  "handle_joined env s rendezvous_id peer_device_id expires_at_unix_ms now_unix_ms =
     (case pc_active s of
        None \<Rightarrow> (s, Inl PairingCoordinatorError_InvalidState)
      | Some active \<Rightarrow>
          if ap_phase active \<noteq> ActivePhase_Inviting \<or> hpi_rendezvous_id (ap_invitation active) \<noteq> rendezvous_id
            \<or> ap_server_expires_at_unix_ms active \<noteq> expires_at_unix_ms
            \<or> hpi_expires_at_unix_ms (ap_invitation active) \<le> now_unix_ms
            \<or> peer_device_id = di_device_id (pc_host_identity s)
          then (s, Inl PairingCoordinatorError_InvalidState)
          else
            let s1 = s\<lparr>pc_active := Some (active\<lparr>ap_peer_device_id := Some peer_device_id,
                         ap_phase := ActivePhase_WaitingHello\<rparr>)\<rparr>;
                s2 = (if hpi_kind (ap_invitation active) = pairing_invitation_kind_code PairingInvitationKind_DesktopCode
                      then push_outbound (PairingOutbound_Relay rendezvous_id
                             (encode_pairing_payload (pe_ops env) (PairingMessage_HostInvitation (ap_invitation active)))) s1
                      else s1)
            in (publish_active (pe_crypto env) HostPairingState_VerifyingController s2, Inr ()))"

definition hello_proof :: "verified_controller_hello \<Rightarrow> active_pairing \<Rightarrow> device_identity \<Rightarrow> bytes \<Rightarrow> pairing_plaintext" where
  "hello_proof verified active host signature =
     \<lparr>pp_payload = Some (PairingPlaintext_HostProof \<lparr>hpp_confirmation = Some (confirmation_data verified active host),
        hpp_host_signature = signature,
        hpp_expires_at_unix_ms = hpi_expires_at_unix_ms (ap_invitation active)\<rparr>)\<rparr>"

text \<open>\<open>handle_controller_hello\<close> is given the active pairing that its caller has just checked.\<close>

definition handle_controller_hello ::
  "pairing_env \<Rightarrow> pairing_coordinator \<Rightarrow> active_pairing \<Rightarrow> controller_pairing_hello \<Rightarrow> bytes \<Rightarrow> host_identity
    \<Rightarrow> unit pairing_result" where
  "handle_controller_hello env s active hello sender_device_id signing_identity =
     (let invitation = ap_invitation active;
          outcome =
            bind_res (map_err map_crypto_error (verify_controller_hello (pe_crypto env) (pe_ops env) hello sender_device_id
              (hpi_rendezvous_id invitation) (pc_host_identity s) (ap_host_ephemeral_private_key active)
              (hpi_host_ephemeral_public_key invitation))) (\<lambda>verified.
            bind_res (map_err (\<lambda>_. PairingCoordinatorError_Authentication) (sign_pairing_transcript (pe_crypto env)
              (pe_signer env) signing_identity (vch_transcript verified) PairingIdentityRole_Host)) (\<lambda>signature.
            bind_res (ok_or PairingCoordinatorError_InvalidState (hpi_host_identity invitation)) (\<lambda>host.
            bind_res (map_err map_crypto_error (seal_host_plaintext (pe_ops env)
              (pks_host_to_controller (vch_keys verified)) 1 (hpi_rendezvous_id invitation)
              (di_device_id (vch_controller verified)) (di_device_id (pc_host_identity s))
              (hello_proof verified active host (pts_signature signature)))) (\<lambda>encrypted.
            bind_res (if hpi_kind invitation = pairing_invitation_kind_code PairingInvitationKind_DesktopCode
              then map_err map_crypto_error (pairing_sas_words (pe_ops env) (vch_transcript_sha256 verified))
              else Inr []) (\<lambda>words. Inr (verified, encrypted, words))))))
      in case outcome of
           Inl e \<Rightarrow> (s, Inl e)
         | Inr (verified, encrypted, words) \<Rightarrow>
             (push_outbound (PairingOutbound_Relay (hpi_rendezvous_id invitation) encrypted)
                (s\<lparr>pc_active := Some (active\<lparr>ap_controller := Some (vch_controller verified),
                    ap_controller_ephemeral_public_key := vch_controller_ephemeral_public_key verified,
                    ap_transcript_sha256 := vch_transcript_sha256 verified,
                    ap_keys := Some \<lparr>hpk_controller_to_host = pks_controller_to_host (vch_keys verified),
                                    hpk_host_to_controller = pks_host_to_controller (vch_keys verified)\<rparr>,
                    ap_sas_words := words,
                    ap_phase := ActivePhase_WaitingReady\<rparr>)\<rparr>), Inr ()))"

text \<open>What a message must be for \<^verbatim>\<open>handle_controller_ready\<close> to accept it.\<close>

definition ready_outcome ::
  "pairing_env \<Rightarrow> device_identity \<Rightarrow> active_pairing \<Rightarrow> bytes \<Rightarrow> pairing_coordinator_error + unit" where
  "ready_outcome env host active opaque_envelope =
     bind_res (ok_or PairingCoordinatorError_Authentication (ap_controller active)) (\<lambda>controller.
     bind_res (ok_or PairingCoordinatorError_Authentication (ap_keys active)) (\<lambda>keys.
     bind_res (map_err map_crypto_error (open_controller_plaintext (pe_ops env) (hpk_controller_to_host keys) 1
       (hpi_rendezvous_id (ap_invitation active)) (di_device_id controller) (di_device_id host) opaque_envelope)) (\<lambda>plaintext.
     case pp_payload plaintext of
       Some (PairingPlaintext_ControllerReady ready) \<Rightarrow>
         if cpr_transcript_sha256 ready \<noteq> ap_transcript_sha256 active
         then Inl PairingCoordinatorError_Authentication else Inr ()
     | _ \<Rightarrow> Inl PairingCoordinatorError_Authentication)))"

definition handle_controller_ready ::
  "pairing_env \<Rightarrow> pairing_coordinator \<Rightarrow> active_pairing \<Rightarrow> bytes \<Rightarrow> unit pairing_result" where
  "handle_controller_ready env s active opaque_envelope =
     (case ready_outcome env (pc_host_identity s) active opaque_envelope of
        Inl e \<Rightarrow> (s, Inl e)
      | Inr _ \<Rightarrow>
          (publish_active (pe_crypto env) HostPairingState_WaitingLocalDecision
             (s\<lparr>pc_active := Some (active\<lparr>ap_phase := ActivePhase_WaitingDecision\<rparr>)\<rparr>), Inr ()))"

definition handle_routed_inner ::
  "pairing_env \<Rightarrow> pairing_coordinator \<Rightarrow> bytes \<Rightarrow> bytes \<Rightarrow> bytes \<Rightarrow> host_identity \<Rightarrow> unit pairing_result" where
  "handle_routed_inner env s rendezvous_id sender_device_id opaque_envelope signing_identity =
     (case pc_active s of
        None \<Rightarrow> (s, Inl PairingCoordinatorError_InvalidState)
      | Some active \<Rightarrow>
          if hpi_rendezvous_id (ap_invitation active) \<noteq> rendezvous_id
            \<or> ap_peer_device_id active \<noteq> Some sender_device_id
          then (s, Inl PairingCoordinatorError_Authentication)
          else case ap_phase active of
            ActivePhase_WaitingHello \<Rightarrow>
              (case map_err map_crypto_error (decode_pairing_message (pe_ops env) opaque_envelope) of
                 Inl e \<Rightarrow> (s, Inl e)
               | Inr message \<Rightarrow>
                   (case pm_payload message of
                      Some (PairingMessage_ControllerHello hello) \<Rightarrow>
                        handle_controller_hello env s active hello sender_device_id signing_identity
                    | _ \<Rightarrow> (s, Inl PairingCoordinatorError_Authentication)))
          | ActivePhase_WaitingReady \<Rightarrow> handle_controller_ready env s active opaque_envelope
          | _ \<Rightarrow> (s, Inl PairingCoordinatorError_Authentication))"

definition handle_routed ::
  "pairing_env \<Rightarrow> pairing_coordinator \<Rightarrow> bytes \<Rightarrow> bytes \<Rightarrow> bytes \<Rightarrow> host_identity \<Rightarrow> unit pairing_result" where
  "handle_routed env s rendezvous_id sender_device_id opaque_envelope signing_identity =
     (let (s', result) = handle_routed_inner env s rendezvous_id sender_device_id opaque_envelope signing_identity
      in (if \<not> is_ok result \<and> pc_active s' \<noteq> None then fail_active s' else s', result))"

definition closed_state :: "pairing_rendezvous_completion \<Rightarrow> host_pairing_state" where
  "closed_state completion =
     (case completion of
        PairingRendezvousCompletion_Rejected \<Rightarrow> HostPairingState_Rejected
      | PairingRendezvousCompletion_Expired \<Rightarrow> HostPairingState_Expired
      | _ \<Rightarrow> HostPairingState_Failed)"

definition handle_closed ::
  "pairing_coordinator \<Rightarrow> bytes \<Rightarrow> pairing_rendezvous_completion \<Rightarrow> unit pairing_result" where
  "handle_closed s rendezvous_id completion =
     (if pc_terminal_rendezvous_id s = Some rendezvous_id then (s, Inr ())
      else case pc_active s of
        None \<Rightarrow> (s, Inl PairingCoordinatorError_InvalidState)
      | Some active \<Rightarrow>
          if hpi_rendezvous_id (ap_invitation active) \<noteq> rendezvous_id
          then (s, Inl PairingCoordinatorError_InvalidState)
          else
            let state = closed_state completion;
                error = (if state = HostPairingState_Failed then Some pairing_failed_error else None)
            in (finish state error s, Inr ()))"

definition handle_signaling_event ::
  "pairing_env \<Rightarrow> pairing_coordinator \<Rightarrow> signaling_event \<Rightarrow> host_identity \<Rightarrow> u64 \<Rightarrow> unit pairing_result" where
  "handle_signaling_event env s0 event signing_identity now_unix_ms =
     (let s = pairing_tick s0 now_unix_ms
      in case event of
           SignalingEvent_PairingCreated rendezvous_id kind expires_at_unix_ms \<Rightarrow>
             handle_created (pe_crypto env) s rendezvous_id kind expires_at_unix_ms now_unix_ms
         | SignalingEvent_PairingJoined rendezvous_id peer_device_id expires_at_unix_ms \<Rightarrow>
             handle_joined env s rendezvous_id peer_device_id expires_at_unix_ms now_unix_ms
         | SignalingEvent_RoutedPairing rendezvous_id sender_device_id opaque_envelope \<Rightarrow>
             handle_routed env s rendezvous_id sender_device_id opaque_envelope signing_identity
         | SignalingEvent_PairingClosed rendezvous_id completion \<Rightarrow> handle_closed s rendezvous_id completion
         | SignalingEvent_RemoteError _ _ \<Rightarrow>
             if pc_active s \<noteq> None then (fail_active s, Inr ()) else (s, Inl PairingCoordinatorError_InvalidState)
         | _ \<Rightarrow> (s, Inl PairingCoordinatorError_InvalidState))"

section \<open>Decisions\<close>

definition ensure_waiting_decision ::
  "pairing_coordinator \<Rightarrow> bytes \<Rightarrow> bytes \<Rightarrow> u64 \<Rightarrow> unit pairing_result" where
  "ensure_waiting_decision s0 rendezvous_id controller_device_id now_unix_ms =
     (let s = pairing_tick s0 now_unix_ms
      in case pc_active s of
           None \<Rightarrow> (s, Inl (if hpss_state (pc_status s) = host_pairing_state_code HostPairingState_Expired
                           then PairingCoordinatorError_Expired else PairingCoordinatorError_InvalidState))
         | Some active \<Rightarrow>
             if ap_phase active \<noteq> ActivePhase_WaitingDecision
               \<or> hpi_rendezvous_id (ap_invitation active) \<noteq> rendezvous_id
               \<or> map_option di_device_id (ap_controller active) \<noteq> Some controller_device_id
             then (s, Inl PairingCoordinatorError_InvalidState) else (s, Inr ()))"

definition encrypt_final_decision ::
  "pairing_env \<Rightarrow> pairing_coordinator \<Rightarrow> pairing_decision_status \<Rightarrow> controller_grant option
    \<Rightarrow> pairing_coordinator_error + bytes" where
  "encrypt_final_decision env s status grant =
     bind_res (ok_or PairingCoordinatorError_InvalidState (pc_active s)) (\<lambda>active.
     bind_res (ok_or PairingCoordinatorError_InvalidState (ap_controller active)) (\<lambda>controller.
     bind_res (ok_or PairingCoordinatorError_InvalidState (ap_keys active)) (\<lambda>keys.
     map_err map_crypto_error (seal_host_plaintext (pe_ops env) (hpk_host_to_controller keys) 2
       (hpi_rendezvous_id (ap_invitation active)) (di_device_id controller) (di_device_id (pc_host_identity s))
       \<lparr>pp_payload = Some (PairingPlaintext_FinalDecision \<lparr>pfd_status = pairing_decision_status_code status,
          pfd_transcript_sha256 = ap_transcript_sha256 active, pfd_grant = grant\<rparr>)\<rparr>))))"

definition pairing_accept ::
  "pairing_env \<Rightarrow> 's grant_store_ops \<Rightarrow> (nat \<Rightarrow> 128 word option) \<Rightarrow> pairing_coordinator \<Rightarrow> 's authorization_registry
    \<Rightarrow> bytes \<Rightarrow> bytes \<Rightarrow> u64
    \<Rightarrow> pairing_coordinator \<times> 's authorization_registry \<times> (pairing_coordinator_error + unit)" where
  "pairing_accept env ops draw s0 authorization rendezvous_id controller_device_id now_unix_ms =
     (case ensure_waiting_decision s0 rendezvous_id controller_device_id now_unix_ms of
        (s, Inl e) \<Rightarrow> (s, authorization, Inl e)
      | (s, Inr _) \<Rightarrow>
          (case Option.bind (pc_active s) ap_controller of
             None \<Rightarrow> (s, authorization, Inl PairingCoordinatorError_InvalidState)
           | Some controller \<Rightarrow>
               (case create_controller_grant (pe_crypto env) ops draw authorization controller
                       VIEW_AND_CONTROL_PERMISSIONS now_unix_ms of
                  (authorization', Inl e) \<Rightarrow> (fail_active s, authorization', Inl (PairingCoordinatorError_Authorization e))
                | (authorization', Inr view) \<Rightarrow>
                    (case bind_res (ok_or PairingCoordinatorError_InvalidState (cgv_grant view)) (\<lambda>grant.
                            encrypt_final_decision env s PairingDecisionStatus_Accepted (Some grant)) of
                       Inl e \<Rightarrow> (s, authorization', Inl e)
                     | Inr encrypted \<Rightarrow>
                         (finish HostPairingState_Accepted None
                            (push_outbound (PairingOutbound_Complete rendezvous_id PairingRendezvousCompletion_Succeeded)
                              (push_outbound (PairingOutbound_Relay rendezvous_id encrypted) s)),
                          authorization', Inr ())))))"

definition pairing_reject ::
  "pairing_env \<Rightarrow> pairing_coordinator \<Rightarrow> bytes \<Rightarrow> bytes \<Rightarrow> u64 \<Rightarrow> unit pairing_result" where
  "pairing_reject env s0 rendezvous_id controller_device_id now_unix_ms =
     sbind (ensure_waiting_decision s0 rendezvous_id controller_device_id now_unix_ms) (\<lambda>s _.
       case encrypt_final_decision env s PairingDecisionStatus_Rejected None of
         Inl e \<Rightarrow> (s, Inl e)
       | Inr encrypted \<Rightarrow>
           (finish HostPairingState_Rejected None
              (push_outbound (PairingOutbound_Complete rendezvous_id PairingRendezvousCompletion_Rejected)
                (push_outbound (PairingOutbound_Relay rendezvous_id encrypted) s)), Inr ()))"

section \<open>Invariant\<close>

text \<open>
  What the coordinator has seen when it reaches a phase.  The evidence is about the messages themselves: a hello that verifies against the
  keys of this invitation, and a confirmation that opens under the keys that came out of it.
\<close>

definition hello_evidence :: "pairing_env \<Rightarrow> device_identity \<Rightarrow> active_pairing \<Rightarrow> bool" where
  "hello_evidence env host a \<longleftrightarrow> (\<exists>hello peer v. ap_peer_device_id a = Some peer
     \<and> verify_controller_hello (pe_crypto env) (pe_ops env) hello peer (hpi_rendezvous_id (ap_invitation a)) host
         (ap_host_ephemeral_private_key a) (hpi_host_ephemeral_public_key (ap_invitation a)) = Inr v
     \<and> ap_controller a = Some (vch_controller v) \<and> ap_transcript_sha256 a = vch_transcript_sha256 v
     \<and> ap_keys a = Some \<lparr>hpk_controller_to_host = pks_controller_to_host (vch_keys v),
                          hpk_host_to_controller = pks_host_to_controller (vch_keys v)\<rparr>)"

definition active_inv :: "pairing_env \<Rightarrow> device_identity \<Rightarrow> active_pairing \<Rightarrow> bool" where
  "active_inv env host a \<longleftrightarrow> hpi_host_identity (ap_invitation a) = Some host
     \<and> (ap_phase a \<in> {ActivePhase_WaitingHello, ActivePhase_WaitingReady, ActivePhase_WaitingDecision} \<longrightarrow>
          (\<exists>peer. ap_peer_device_id a = Some peer \<and> peer \<noteq> di_device_id host))
     \<and> (ap_phase a \<in> {ActivePhase_WaitingReady, ActivePhase_WaitingDecision} \<longrightarrow> hello_evidence env host a)
     \<and> (ap_phase a = ActivePhase_WaitingDecision \<longrightarrow> (\<exists>bs. ready_outcome env host a bs = Inr ()))"

primrec phase_state :: "active_phase \<Rightarrow> host_pairing_state" where
  "phase_state ActivePhase_Creating = HostPairingState_Creating"
| "phase_state ActivePhase_Inviting = HostPairingState_Inviting"
| "phase_state ActivePhase_WaitingHello = HostPairingState_VerifyingController"
| "phase_state ActivePhase_WaitingReady = HostPairingState_VerifyingController"
| "phase_state ActivePhase_WaitingDecision = HostPairingState_WaitingLocalDecision"

definition resting_state :: "host_pairing_state \<Rightarrow> bool" where
  "resting_state st \<longleftrightarrow> st \<notin> range phase_state \<and> st \<noteq> HostPairingState_Unspecified"

definition status_inv :: "pairing_coordinator \<Rightarrow> bool" where
  "status_inv s \<longleftrightarrow> hpss_revision (pc_status s) = pc_revision s \<and>
     (case pc_active s of
        None \<Rightarrow> (\<exists>st. resting_state st \<and> hpss_state (pc_status s) = host_pairing_state_code st)
          \<and> hpss_invitation (pc_status s) = None \<and> hpss_pending_controller (pc_status s) = None
          \<and> hpss_sas_words (pc_status s) = []
      | Some a \<Rightarrow> hpss_state (pc_status s) = host_pairing_state_code (phase_state (ap_phase a))
          \<and> hpss_invitation (pc_status s) = Some (ap_invitation a)
          \<and> (if ap_phase a = ActivePhase_WaitingDecision
             then hpss_pending_controller (pc_status s) = ap_controller a \<and> hpss_sas_words (pc_status s) = ap_sas_words a
             else hpss_pending_controller (pc_status s) = None \<and> hpss_sas_words (pc_status s) = []))"

definition coordinator_inv :: "pairing_env \<Rightarrow> device_identity \<Rightarrow> pairing_coordinator \<Rightarrow> bool" where
  "coordinator_inv env host s \<longleftrightarrow> pc_host_identity s = host \<and> status_inv s
     \<and> (\<forall>a. pc_active s = Some a \<longrightarrow> active_inv env host a)"

lemma resting_states [simp]:
  "resting_state HostPairingState_Idle" "resting_state HostPairingState_Accepted" "resting_state HostPairingState_Rejected"
  "resting_state HostPairingState_Expired" "resting_state HostPairingState_Failed" "resting_state HostPairingState_Cancelled"
  "resting_state (closed_state completion)"
proof -
  have r: "resting_state st \<longleftrightarrow> st \<in> {HostPairingState_Idle, HostPairingState_Accepted, HostPairingState_Rejected,
      HostPairingState_Expired, HostPairingState_Failed, HostPairingState_Cancelled}" for st
  proof -
    have "range phase_state = {HostPairingState_Creating, HostPairingState_Inviting, HostPairingState_VerifyingController,
        HostPairingState_WaitingLocalDecision}"
      by (auto simp: image_iff) (metis active_phase.exhaust phase_state.simps, (metis phase_state.simps)+)
    then show ?thesis by (cases st) (auto simp: resting_state_def)
  qed
  show "resting_state HostPairingState_Idle" "resting_state HostPairingState_Accepted" "resting_state HostPairingState_Rejected"
    "resting_state HostPairingState_Expired" "resting_state HostPairingState_Failed" "resting_state HostPairingState_Cancelled"
    "resting_state (closed_state completion)"
    by (simp_all add: r closed_state_def split: pairing_rendezvous_completion.splits)
qed

lemma resting_code [simp]:
  "resting_state st \<Longrightarrow> \<exists>st'. resting_state st' \<and> host_pairing_state_code st = host_pairing_state_code st'"
  by blast

lemma finish_simps [simp]:
  "pc_active (finish st e s) = None" "pc_host_identity (finish st e s) = pc_host_identity s"
  "pc_outbound (finish st e s) = pc_outbound s" "hpss_state (pc_status (finish st e s)) = host_pairing_state_code st"
  by (simp_all add: finish_def Let_def)

lemma push_outbound_simps [simp]:
  "pc_active (push_outbound x s) = pc_active s" "pc_host_identity (push_outbound x s) = pc_host_identity s"
  "pc_status (push_outbound x s) = pc_status s" "pc_revision (push_outbound x s) = pc_revision s"
  by (simp_all add: push_outbound_def)

lemma withdraw_host [simp]: "pc_host_identity (withdraw a s) = pc_host_identity s"
  by (simp add: withdraw_def)

lemma inv_finish: "pc_host_identity s = host \<Longrightarrow> resting_state st \<Longrightarrow> coordinator_inv env host (finish st e s)"
  by (auto simp: coordinator_inv_def status_inv_def) (simp_all add: finish_def Let_def)

lemma inv_push [simp]: "coordinator_inv env host (push_outbound x s) = coordinator_inv env host s"
  by (cases "pc_active s") (simp_all add: coordinator_inv_def status_inv_def)

lemma inv_publish:
  "pc_host_identity s = host \<Longrightarrow> pc_active s = Some a \<Longrightarrow> active_inv env host a \<Longrightarrow> phase_state (ap_phase a) = st
    \<Longrightarrow> coordinator_inv env host (publish_active c st s)"
  by (cases "ap_phase a") (auto simp: coordinator_inv_def status_inv_def publish_active_def Let_def
      simp del: host_pairing_state_code.simps)

lemma inv_host: "coordinator_inv env host s \<Longrightarrow> pc_host_identity s = host"
  by (simp add: coordinator_inv_def)

lemma inv_active: "coordinator_inv env host s \<Longrightarrow> pc_active s = Some a \<Longrightarrow> active_inv env host a"
  by (simp add: coordinator_inv_def)

lemma inv_fail: "coordinator_inv env host s \<Longrightarrow> coordinator_inv env host (fail_active s)"
  unfolding fail_active_def by (rule inv_finish) (auto simp: inv_host split: option.splits)

lemma inv_tick: "coordinator_inv env host s \<Longrightarrow> coordinator_inv env host (pairing_tick s now)"
  by (auto simp: pairing_tick_def inv_host intro!: inv_finish split: option.splits)

lemma inv_misc:
  "coordinator_inv env host (s\<lparr>pc_signaling_connected := b\<rparr>) = coordinator_inv env host s"
  "coordinator_inv env host (s\<lparr>pc_pending_cancelled_create := x\<rparr>) = coordinator_inv env host s"
  "coordinator_inv env host (s\<lparr>pc_outbound := y\<rparr>) = coordinator_inv env host s"
  by (cases "pc_active s"; simp add: coordinator_inv_def status_inv_def)+

lemma inv_new: "pairing_coordinator_new c host = Inr s \<Longrightarrow> coordinator_inv env host s"
  by (auto simp: pairing_coordinator_new_def bind_res_Inr coordinator_inv_def status_inv_def idle_snapshot_def
      simp del: host_pairing_state_code.simps split: if_splits)

section \<open>Preservation\<close>

lemma inv_return_to_idle: "coordinator_inv env host s \<Longrightarrow> coordinator_inv env host (fst (return_to_idle s))"
  by (auto simp: return_to_idle_def coordinator_inv_def status_inv_def idle_snapshot_def Let_def
      simp del: host_pairing_state_code.simps host_pairing_state.of_eq_Some split: option.splits)

lemma inv_begin:
  assumes "coordinator_inv env host s" "begin_invitation env dr s kind ep now = Inr s'"
  shows "coordinator_inv env host s'"
proof -
  from assms(2) obtain s1 a x where "s' = publish_active (pe_crypto env) HostPairingState_Creating (push_outbound x s1)"
    "pc_active s1 = Some a" "ap_phase a = ActivePhase_Creating" "hpi_host_identity (ap_invitation a) = Some (pc_host_identity s)"
    "pc_host_identity s1 = pc_host_identity s"
    by (auto simp: begin_invitation_def bind_res_Inr Let_def split: if_splits)
  then show ?thesis
    using inv_host [OF assms(1)] by (auto intro!: inv_publish [of _ _ a] simp: active_inv_def)
qed

lemma inv_start:
  assumes inv: "coordinator_inv env host s"
  shows "coordinator_inv env host (fst (pairing_start env dr s kind ep now))"
proof (cases "\<not> pc_signaling_connected s \<or> pc_active s \<noteq> None")
  case False
  have "coordinator_inv env host (fst (if hpss_state (pc_status s) \<noteq> host_pairing_state_code HostPairingState_Idle
      then return_to_idle s else (s, Inr ())))"
    using inv inv_return_to_idle [OF inv] by (simp del: host_pairing_state_code.simps)
  then have "coordinator_inv env host (fst (sbind (if hpss_state (pc_status s) \<noteq> host_pairing_state_code HostPairingState_Idle
      then return_to_idle s else (s, Inr ())) (\<lambda>s1 _. case begin_invitation env dr s1 kind ep now of
          Inl e \<Rightarrow> (s1, Inl e) | Inr s2 \<Rightarrow> (s2, Inr (pc_status s2)))))"
  proof (rule fst_sbind_preserved)
    fix s1 x
    assume "coordinator_inv env host s1"
    then show "coordinator_inv env host (fst (case begin_invitation env dr s1 kind ep now of
        Inl e \<Rightarrow> (s1, Inl e) | Inr s2 \<Rightarrow> (s2, Inr (pc_status s2))))"
      using inv_begin by (cases "begin_invitation env dr s1 kind ep now") auto
  qed
  with False show ?thesis by (simp only: pairing_start_def if_False)
qed (simp add: pairing_start_def inv)

lemma inv_created: "coordinator_inv env host s \<Longrightarrow> coordinator_inv env host (fst (handle_created c s r k e now))"
  by (auto simp: handle_created_def inv_misc inv_host active_inv_def dest: inv_active split: option.splits
      intro!: inv_publish)

lemma inv_joined: "coordinator_inv env host s \<Longrightarrow> coordinator_inv env host (fst (handle_joined env s r p e now))"
  by (auto simp: handle_joined_def Let_def inv_host active_inv_def dest: inv_active split: option.splits
      intro!: inv_publish)

lemma ready_outcome_phase [simp]: "ready_outcome env host (a\<lparr>ap_phase := ph\<rparr>) bs = ready_outcome env host a bs"
  by (simp add: ready_outcome_def cong: option.case_cong pairing_plaintext_payload.case_cong)

lemma inv_ready:
  assumes "coordinator_inv env host s" "pc_active s = Some a" "ap_phase a = ActivePhase_WaitingReady"
  shows "coordinator_inv env host (fst (handle_controller_ready env s a bs))"
proof (cases "ready_outcome env (pc_host_identity s) a bs")
  case (Inr u)
  have "active_inv env host (a\<lparr>ap_phase := ActivePhase_WaitingDecision\<rparr>)"
    using inv_active [OF assms(1,2)] assms(3) Inr inv_host [OF assms(1)]
    by (auto simp: active_inv_def hello_evidence_def)
  then show ?thesis
    using Inr inv_host [OF assms(1)] by (auto simp: handle_controller_ready_def intro!: inv_publish)
qed (use assms in \<open>simp add: handle_controller_ready_def\<close>)

lemma inv_hello:
  assumes "coordinator_inv env host s" "pc_active s = Some a" "ap_phase a = ActivePhase_WaitingHello"
    and "ap_peer_device_id a = Some sender"
  shows "coordinator_inv env host (fst (handle_controller_hello env s a hello sender ident))"
proof (cases "snd (handle_controller_hello env s a hello sender ident)")
  case (Inl e)
  then have "fst (handle_controller_hello env s a hello sender ident) = s"
    by (auto simp: handle_controller_hello_def Let_def split: sum.splits)
  then show ?thesis using assms(1) by simp
next
  case (Inr u)
  then obtain v encrypted ws where
    v: "verify_controller_hello (pe_crypto env) (pe_ops env) hello sender (hpi_rendezvous_id (ap_invitation a))
        (pc_host_identity s) (ap_host_ephemeral_private_key a) (hpi_host_ephemeral_public_key (ap_invitation a)) = Inr v"
    and s': "fst (handle_controller_hello env s a hello sender ident)
      = push_outbound (PairingOutbound_Relay (hpi_rendezvous_id (ap_invitation a)) encrypted)
        (s\<lparr>pc_active := Some (a\<lparr>ap_controller := Some (vch_controller v),
            ap_controller_ephemeral_public_key := vch_controller_ephemeral_public_key v,
            ap_transcript_sha256 := vch_transcript_sha256 v,
            ap_keys := Some \<lparr>hpk_controller_to_host = pks_controller_to_host (vch_keys v),
                            hpk_host_to_controller = pks_host_to_controller (vch_keys v)\<rparr>,
            ap_sas_words := ws, ap_phase := ActivePhase_WaitingReady\<rparr>)\<rparr>)"
    by (auto simp: handle_controller_hello_def Let_def bind_res_Inr split: sum.splits)
  show ?thesis
    unfolding s' using assms v
    by (auto simp: coordinator_inv_def status_inv_def active_inv_def hello_evidence_def
        simp del: host_pairing_state_code.simps)
qed

lemma inv_waiting_hello:
  assumes "coordinator_inv env host s" "pc_active s = Some a" "ap_phase a = ActivePhase_WaitingHello"
    and "ap_peer_device_id a = Some sender"
  shows "coordinator_inv env host (fst (case pm_payload message of
      Some (PairingMessage_ControllerHello hello) \<Rightarrow> handle_controller_hello env s a hello sender ident
    | _ \<Rightarrow> (s, Inl PairingCoordinatorError_Authentication)))"
proof (cases "pm_payload message")
  case (Some payload)
  then show ?thesis using assms inv_hello [OF assms] by (cases payload) simp_all
qed (simp add: assms(1))

lemma inv_routed_inner:
  assumes inv: "coordinator_inv env host s"
  shows "coordinator_inv env host (fst (handle_routed_inner env s r sender bs ident))"
proof (cases "pc_active s")
  case (Some a)
  show ?thesis
  proof (cases "hpi_rendezvous_id (ap_invitation a) = r \<and> ap_peer_device_id a = Some sender")
    case True
    then show ?thesis
      using Some inv inv_ready [OF inv Some] inv_waiting_hello [OF inv Some, where sender = sender and ident = ident]
      by (cases "ap_phase a"; cases "decode_pairing_message (pe_ops env) bs") (simp_all add: handle_routed_inner_def)
  qed (use Some inv in \<open>auto simp: handle_routed_inner_def\<close>)
qed (simp add: handle_routed_inner_def inv)

lemma inv_routed: "coordinator_inv env host s \<Longrightarrow> coordinator_inv env host (fst (handle_routed env s r sender bs ident))"
  using inv_routed_inner [of env host s r sender bs ident]
  by (auto simp: handle_routed_def split_def Let_def inv_fail)

lemma inv_closed: "coordinator_inv env host s \<Longrightarrow> coordinator_inv env host (fst (handle_closed s r completion))"
  by (auto simp: handle_closed_def Let_def inv_host intro!: inv_finish split: option.splits)

lemma inv_event:
  assumes "coordinator_inv env host s"
  shows "coordinator_inv env host (fst (handle_signaling_event env s ev ident now))"
  using inv_tick [OF assms, of now]
  by (cases ev) (auto simp: handle_signaling_event_def Let_def inv_created inv_joined inv_routed inv_closed inv_fail)

lemma inv_ensure: "coordinator_inv env host s \<Longrightarrow> coordinator_inv env host (fst (ensure_waiting_decision s r d now))"
  by (auto simp: ensure_waiting_decision_def Let_def inv_tick split: option.splits)

lemma inv_accept:
  assumes "coordinator_inv env host s"
  shows "coordinator_inv env host (fst (pairing_accept env ops draw s reg r d now))"
proof -
  obtain s1 res where e: "ensure_waiting_decision s r d now = (s1, res)" by fastforce
  then have "coordinator_inv env host s1" using inv_ensure [OF assms, of r d now] by simp
  then show ?thesis
    using e by (auto simp: pairing_accept_def inv_fail inv_host intro!: inv_finish
        split: sum.splits option.splits prod.splits)
qed

lemma inv_reject: "coordinator_inv env host s \<Longrightarrow> coordinator_inv env host (fst (pairing_reject env s r d now))"
  unfolding pairing_reject_def
  by (rule fst_sbind_preserved) (auto simp: inv_ensure inv_host intro!: inv_finish split: sum.splits)

lemma inv_endings:
  assumes "coordinator_inv env host s"
  shows "coordinator_inv env host (fst (pairing_cancel s r))" "coordinator_inv env host (pairing_signaling_lost s)"
    "coordinator_inv env host (pairing_shutdown s)"
  using assms
  by (auto simp: pairing_cancel_def pairing_signaling_lost_def pairing_shutdown_def Let_def inv_misc inv_host
      intro!: inv_finish split: option.splits)

section \<open>The coordinator as a machine\<close>

text \<open>The coordinator runs next to the registry its acceptances write to.\<close>

datatype pairing_op =
    StartPairing pairing_draws pairing_invitation_kind string u64
  | PairingEvent signaling_event host_identity u64
  | AcceptPairing "nat \<Rightarrow> 128 word option" bytes bytes u64
  | RejectPairing bytes bytes u64
  | CancelPairing bytes
  | PairingTick u64
  | PairingConnected
  | PairingLost
  | PairingShutdown
  | TakeOutbound

definition unit_result :: "'e + 'a \<Rightarrow> 'e + unit" where
  "unit_result r = bind_res r (\<lambda>_. Inr ())"

fun pairing_step ::
  "pairing_env \<Rightarrow> 's grant_store_ops \<Rightarrow> pairing_coordinator \<times> 's authorization_registry \<Rightarrow> pairing_op
    \<Rightarrow> (pairing_coordinator \<times> 's authorization_registry) \<times> (pairing_coordinator_error + unit)" where
  "pairing_step env ops (s, reg) (StartPairing dr k ep now) =
     (let (s', r) = pairing_start env dr s k ep now in ((s', reg), unit_result r))"
| "pairing_step env ops (s, reg) (PairingEvent ev ident now) =
     (let (s', r) = handle_signaling_event env s ev ident now in ((s', reg), r))"
| "pairing_step env ops (s, reg) (AcceptPairing draw r d now) =
     (let (s', reg', res) = pairing_accept env ops draw s reg r d now in ((s', reg'), res))"
| "pairing_step env ops (s, reg) (RejectPairing r d now) =
     (let (s', res) = pairing_reject env s r d now in ((s', reg), res))"
| "pairing_step env ops (s, reg) (CancelPairing r) = (let (s', res) = pairing_cancel s r in ((s', reg), res))"
| "pairing_step env ops (s, reg) (PairingTick now) = ((pairing_tick s now, reg), Inr ())"
| "pairing_step env ops (s, reg) PairingConnected = ((pairing_signaling_connected s, reg), Inr ())"
| "pairing_step env ops (s, reg) PairingLost = ((pairing_signaling_lost s, reg), Inr ())"
| "pairing_step env ops (s, reg) PairingShutdown = ((pairing_shutdown s, reg), Inr ())"
| "pairing_step env ops (s, reg) TakeOutbound = ((fst (take_outbound s), reg), Inr ())"

lemma fst_pairing_accept_step:
  "fst (fst (let (s', reg', res) = pairing_accept env ops draw s reg r d now in ((s', reg'), res)))
     = fst (pairing_accept env ops draw s reg r d now)"
  by (simp add: split_def Let_def)

lemma inv_pairing_step:
  assumes "coordinator_inv env host (fst sr)"
  shows "coordinator_inv env host (fst (fst (pairing_step env ops sr x)))"
proof -
  obtain s reg where sr: "sr = (s, reg)" by fastforce
  have inv: "coordinator_inv env host s" using assms sr by simp
  show ?thesis
    unfolding sr using inv
    by (cases x) (simp_all add: split_def Let_def inv_start inv_event inv_accept inv_reject inv_endings inv_tick
        pairing_signaling_connected_def take_outbound_def inv_misc)
qed

interpretation pairing: machine "pairing_step env ops" "\<lambda>sr. coordinator_inv env host (fst sr)" for env ops host
  by unfold_locales (rule inv_pairing_step)

subsection \<open>Received proof\<close>

text \<open>
  The invariant above says what was verified; this one says that it was received.  A hello and a confirmation count only if the signaling
  service delivered their bytes for this rendezvous and from the joined peer in a step of the run.
\<close>

fun routed_in :: "pairing_op \<Rightarrow> (bytes \<times> bytes \<times> bytes) set" where
  "routed_in (PairingEvent (SignalingEvent_RoutedPairing r sender bs) ident now) = {(r, sender, bs)}"
| "routed_in _ = {}"

definition hello_received ::
  "pairing_env \<Rightarrow> device_identity \<Rightarrow> (bytes \<times> bytes \<times> bytes) set \<Rightarrow> active_pairing \<Rightarrow> bool" where
  "hello_received env host H a \<longleftrightarrow> (\<exists>hello peer v bs. ap_peer_device_id a = Some peer
     \<and> (hpi_rendezvous_id (ap_invitation a), peer, bs) \<in> H
     \<and> decode_pairing_message (pe_ops env) bs = Inr \<lparr>pm_payload = Some (PairingMessage_ControllerHello hello)\<rparr>
     \<and> verify_controller_hello (pe_crypto env) (pe_ops env) hello peer (hpi_rendezvous_id (ap_invitation a)) host
         (ap_host_ephemeral_private_key a) (hpi_host_ephemeral_public_key (ap_invitation a)) = Inr v
     \<and> ap_controller a = Some (vch_controller v) \<and> ap_transcript_sha256 a = vch_transcript_sha256 v
     \<and> ap_keys a = Some \<lparr>hpk_controller_to_host = pks_controller_to_host (vch_keys v),
                          hpk_host_to_controller = pks_host_to_controller (vch_keys v)\<rparr>)"

definition ready_received ::
  "pairing_env \<Rightarrow> device_identity \<Rightarrow> (bytes \<times> bytes \<times> bytes) set \<Rightarrow> active_pairing \<Rightarrow> bool" where
  "ready_received env host H a \<longleftrightarrow> (\<exists>peer bs. ap_peer_device_id a = Some peer
     \<and> (hpi_rendezvous_id (ap_invitation a), peer, bs) \<in> H \<and> ready_outcome env host a bs = Inr ())"

definition received_inv ::
  "pairing_env \<Rightarrow> device_identity \<Rightarrow> (bytes \<times> bytes \<times> bytes) set \<Rightarrow> pairing_coordinator \<Rightarrow> bool" where
  "received_inv env host H s \<longleftrightarrow> pc_host_identity s = host \<and> (\<forall>a. pc_active s = Some a \<longrightarrow>
     (ap_phase a \<in> {ActivePhase_WaitingReady, ActivePhase_WaitingDecision} \<longrightarrow> hello_received env host H a)
     \<and> (ap_phase a = ActivePhase_WaitingDecision \<longrightarrow> ready_received env host H a))"

lemma received_mono: "received_inv env host H s \<Longrightarrow> H \<subseteq> H' \<Longrightarrow> received_inv env host H' s"
  unfolding received_inv_def hello_received_def ready_received_def by blast

text \<open>Whatever a step does to the active pairing, it keeps it, restarts or ends it, unless it accepts a message.\<close>

lemma received_same:
  assumes "received_inv env host H s" "pc_host_identity s' = pc_host_identity s"
    and "\<And>a. pc_active s' = Some a \<Longrightarrow> pc_active s = Some a
      \<or> ap_phase a \<notin> {ActivePhase_WaitingReady, ActivePhase_WaitingDecision}"
  shows "received_inv env host H s'"
  using assms unfolding received_inv_def by blast

lemma publish_active_simps [simp]:
  "pc_active (publish_active c st s) = pc_active s" "pc_host_identity (publish_active c st s) = pc_host_identity s"
  by (simp_all add: publish_active_def Let_def split: option.splits)

lemma tick_active: "pc_active (pairing_tick s now) = Some a \<Longrightarrow> pc_active s = Some a"
  "pc_host_identity (pairing_tick s now) = pc_host_identity s"
  by (auto simp: pairing_tick_def split: option.splits if_splits)

lemma received_tick: "received_inv env host H s \<Longrightarrow> received_inv env host H (pairing_tick s now)"
  by (erule received_same) (auto simp: tick_active(2) dest: tick_active(1))

lemma received_hello:
  assumes "received_inv env host H s" "pc_active s = Some a"
    and "ap_peer_device_id a = Some sender" "hpi_rendezvous_id (ap_invitation a) = r" "(r, sender, bs) \<in> H"
    and "decode_pairing_message (pe_ops env) bs = Inr \<lparr>pm_payload = Some (PairingMessage_ControllerHello hello)\<rparr>"
  shows "received_inv env host H (fst (handle_controller_hello env s a hello sender ident))"
proof (cases "snd (handle_controller_hello env s a hello sender ident)")
  case (Inl e)
  then have "fst (handle_controller_hello env s a hello sender ident) = s"
    by (auto simp: handle_controller_hello_def Let_def split: sum.splits)
  then show ?thesis using assms(1) by simp
next
  case (Inr u)
  then obtain v encrypted ws where
    v: "verify_controller_hello (pe_crypto env) (pe_ops env) hello sender (hpi_rendezvous_id (ap_invitation a))
        (pc_host_identity s) (ap_host_ephemeral_private_key a) (hpi_host_ephemeral_public_key (ap_invitation a)) = Inr v"
    and s': "fst (handle_controller_hello env s a hello sender ident)
      = push_outbound (PairingOutbound_Relay (hpi_rendezvous_id (ap_invitation a)) encrypted)
        (s\<lparr>pc_active := Some (a\<lparr>ap_controller := Some (vch_controller v),
            ap_controller_ephemeral_public_key := vch_controller_ephemeral_public_key v,
            ap_transcript_sha256 := vch_transcript_sha256 v,
            ap_keys := Some \<lparr>hpk_controller_to_host = pks_controller_to_host (vch_keys v),
                            hpk_host_to_controller = pks_host_to_controller (vch_keys v)\<rparr>,
            ap_sas_words := ws, ap_phase := ActivePhase_WaitingReady\<rparr>)\<rparr>)"
    by (auto simp: handle_controller_hello_def Let_def bind_res_Inr split: sum.splits)
  have "pc_host_identity s = host" using assms(1) by (simp add: received_inv_def)
  then show ?thesis
    unfolding s' using assms(3-6) v by (auto simp: received_inv_def hello_received_def)
qed

lemma received_ready:
  assumes "received_inv env host H s" "pc_active s = Some a" "ap_phase a = ActivePhase_WaitingReady"
    and "ap_peer_device_id a = Some sender" "hpi_rendezvous_id (ap_invitation a) = r" "(r, sender, bs) \<in> H"
  shows "received_inv env host H (fst (handle_controller_ready env s a bs))"
proof (cases "ready_outcome env (pc_host_identity s) a bs")
  case (Inr u)
  have "pc_host_identity s = host" "hello_received env host H a"
    using assms(1-3) by (simp_all add: received_inv_def)
  then show ?thesis
    using Inr assms(4-6)
    by (auto simp: handle_controller_ready_def received_inv_def hello_received_def ready_received_def)
qed (use assms in \<open>simp add: handle_controller_ready_def\<close>)

lemma received_waiting_hello:
  assumes "received_inv env host H s" "pc_active s = Some a"
    and "ap_peer_device_id a = Some sender" "hpi_rendezvous_id (ap_invitation a) = r" "(r, sender, bs) \<in> H"
  shows "received_inv env host H (fst (case map_err map_crypto_error (decode_pairing_message (pe_ops env) bs) of
      Inl e \<Rightarrow> (s, Inl e)
    | Inr message \<Rightarrow> (case pm_payload message of
        Some (PairingMessage_ControllerHello hello) \<Rightarrow> handle_controller_hello env s a hello sender ident
      | _ \<Rightarrow> (s, Inl PairingCoordinatorError_Authentication))))"
proof (cases "decode_pairing_message (pe_ops env) bs")
  case (Inr m)
  show ?thesis
  proof (cases "pm_payload m")
    case (Some payload)
    show ?thesis
    proof (cases payload)
      case (PairingMessage_ControllerHello hello)
      then have "decode_pairing_message (pe_ops env) bs = Inr \<lparr>pm_payload = Some (PairingMessage_ControllerHello hello)\<rparr>"
        using Inr Some by (cases m) simp
      from received_hello [OF assms this] show ?thesis
        using Inr Some PairingMessage_ControllerHello by simp
    qed (use assms(1) Inr Some in simp_all)
  qed (use assms(1) Inr in simp)
qed (use assms(1) in simp)

lemma received_routed:
  assumes inv: "received_inv env host H s" and "(r, sender, bs) \<in> H"
  shows "received_inv env host H (fst (handle_routed env s r sender bs ident))"
proof -
  have "received_inv env host H (fst (handle_routed_inner env s r sender bs ident))"
  proof (cases "pc_active s")
    case (Some a)
    show ?thesis
    proof (cases "hpi_rendezvous_id (ap_invitation a) = r \<and> ap_peer_device_id a = Some sender")
      case True
      then show ?thesis
        using Some inv assms(2) received_ready [OF inv Some] received_waiting_hello [OF inv Some, of sender r bs ident]
        by (cases "ap_phase a") (simp_all add: handle_routed_inner_def)
    qed (use Some inv in \<open>auto simp: handle_routed_inner_def\<close>)
  qed (simp add: handle_routed_inner_def inv)
  moreover have "received_inv env host H (fail_active t)" if "received_inv env host H t" for t
    using that by (rule received_same) (auto simp: fail_active_def split: option.splits)
  ultimately show ?thesis by (auto simp: handle_routed_def split_def Let_def)
qed

lemma received_event:
  assumes "received_inv env host H s" "routed_in (PairingEvent ev ident now) \<subseteq> H"
  shows "received_inv env host H (fst (handle_signaling_event env s ev ident now))"
proof -
  note inv = received_tick [OF assms(1), of now]
  have "received_inv env host H (fst (handle_created c t r k e now))" if "received_inv env host H t" for c t r k e
    using that by (rule received_same) (auto simp: handle_created_def split: option.splits if_splits)
  moreover have "received_inv env host H (fst (handle_joined env t r p e now))" if "received_inv env host H t" for t r p e
    using that by (rule received_same) (auto simp: handle_joined_def Let_def split: option.splits if_splits)
  moreover have "received_inv env host H (fst (handle_closed t r completion))" if "received_inv env host H t" for t r completion
    using that by (rule received_same) (auto simp: handle_closed_def Let_def split: option.splits if_splits)
  moreover have "received_inv env host H (fail_active t)" if "received_inv env host H t" for t
    using that by (rule received_same) (auto simp: fail_active_def split: option.splits)
  ultimately show ?thesis
    using inv received_routed [OF inv] assms(2) by (cases ev) (auto simp: handle_signaling_event_def Let_def)
qed

lemma ensure_active:
  "pc_active (fst (ensure_waiting_decision s r d now)) = Some a \<Longrightarrow> pc_active s = Some a"
  "pc_host_identity (fst (ensure_waiting_decision s r d now)) = pc_host_identity s"
  by (auto simp: ensure_waiting_decision_def Let_def tick_active(2) dest: tick_active(1) split: option.splits if_splits)

lemma received_accept:
  assumes "received_inv env host H s"
  shows "received_inv env host H (fst (pairing_accept env ops draw s reg r d now))"
proof -
  obtain s1 res where e: "ensure_waiting_decision s r d now = (s1, res)" by fastforce
  note same = ensure_active [where s = s and r = r and d = d and now = now, unfolded e fst_conv]
  show ?thesis
    using assms
    by (rule received_same) (use e same in \<open>auto simp: pairing_accept_def fail_active_def
        split: sum.splits option.splits prod.splits if_splits\<close>)
qed

lemma received_reject:
  assumes "received_inv env host H s"
  shows "received_inv env host H (fst (pairing_reject env s r d now))"
proof -
  obtain s1 res where e: "ensure_waiting_decision s r d now = (s1, res)" by fastforce
  note same = ensure_active [where s = s and r = r and d = d and now = now, unfolded e fst_conv]
  show ?thesis
    using assms
    by (rule received_same) (use e same in \<open>auto simp: pairing_reject_def sbind_def split: sum.splits\<close>)
qed

lemma received_start:
  assumes "received_inv env host H s"
  shows "received_inv env host H (fst (pairing_start env dr s kind ep now))"
proof -
  have begun: "pc_host_identity t = pc_host_identity u \<and> (\<exists>a. pc_active t = Some a \<and> ap_phase a = ActivePhase_Creating)"
    if "begin_invitation env dr u kind ep now = Inr t" for t u
    using that by (auto simp: begin_invitation_def bind_res_Inr Let_def split: if_splits)
  have idle: "pc_host_identity (fst (return_to_idle s)) = pc_host_identity s" "pc_active (fst (return_to_idle s)) = pc_active s"
    by (auto simp: return_to_idle_def Let_def split: option.splits)
  show ?thesis
    using assms
    by (rule received_same) (use idle begun in \<open>force simp: pairing_start_def sbind_def split_def
        simp del: host_pairing_state_code.simps split: sum.splits if_splits\<close>)+
qed

lemma received_step:
  assumes "received_inv env host H (fst sr)" "routed_in x \<subseteq> H"
  shows "received_inv env host H (fst (fst (pairing_step env ops sr x)))"
proof -
  obtain s reg where sr: "sr = (s, reg)" by fastforce
  have inv: "received_inv env host H s" using assms sr by simp
  have ends: "received_inv env host H (fst (pairing_cancel s r))" "received_inv env host H (pairing_signaling_lost s)"
    "received_inv env host H (pairing_shutdown s)" "received_inv env host H (fst (take_outbound s))"
    "received_inv env host H (pairing_signaling_connected s)" for r
    by (rule received_same [OF inv]; auto simp: pairing_cancel_def pairing_signaling_lost_def pairing_shutdown_def
        take_outbound_def pairing_signaling_connected_def Let_def split: option.splits if_splits)+
  show ?thesis
    unfolding sr using inv ends assms(2)
    by (cases x) (simp_all add: split_def Let_def received_start received_event received_accept received_reject received_tick
        del: routed_in.simps)
qed

lemma received_run:
  assumes "received_inv env host H (fst sr)" "\<forall>x \<in> set xs. routed_in x \<subseteq> H"
  shows "received_inv env host H (fst (fst (run_steps (pairing_step env ops) sr xs)))"
  using assms
proof (induction xs arbitrary: sr)
  case (Cons x xs)
  then show ?case using received_step [of env host H sr x ops] by (simp add: fst_run_steps_Cons del: run_steps.simps)
qed simp

text \<open>The revision never goes back, so a reader can order the snapshots it sees.\<close>

lemma revision_finish: "pc_revision s = pc_revision t \<Longrightarrow> pc_revision t \<le> pc_revision (finish st e s)"
  by (simp add: finish_def Let_def saturating_add_ge)

lemma revision_publish: "pc_revision s = pc_revision t \<Longrightarrow> pc_revision t \<le> pc_revision (publish_active c st s)"
  by (simp add: publish_active_def Let_def saturating_add_ge split: option.splits)

lemma revision_withdraw [simp]: "pc_revision (withdraw a s) = pc_revision s"
  by (simp add: withdraw_def)

lemma revision_fail: "pc_revision s = pc_revision t \<Longrightarrow> pc_revision t \<le> pc_revision (fail_active s)"
  by (auto simp: fail_active_def intro!: revision_finish split: option.splits)

lemma revision_tick: "pc_revision s \<le> pc_revision (pairing_tick s now)"
  by (auto simp: pairing_tick_def intro!: revision_finish split: option.splits)

lemma revision_start: "pc_revision s \<le> pc_revision (fst (pairing_start env dr s k ep now))"
proof -
  have started: "pc_revision t \<le> pc_revision t'" if "begin_invitation env dr t k ep now = Inr t'" for t t'
    using that by (auto simp: begin_invitation_def bind_res_Inr Let_def intro!: revision_publish split: if_splits)
  have idle: "pc_revision s \<le> pc_revision (fst (return_to_idle s))"
    by (simp add: return_to_idle_def Let_def saturating_add_ge split: option.splits)
  show ?thesis
    using idle started
    by (cases "return_to_idle s"; cases "snd (return_to_idle s)")
      (auto simp: pairing_start_def simp del: host_pairing_state_code.simps split: sum.splits intro: order_trans)
qed

lemma revision_routed: "pc_revision s \<le> pc_revision (fst (handle_routed env s r sender bs ident))"
proof -
  have hello: "pc_revision (fst (handle_controller_hello env s a hello sender ident)) = pc_revision s" for a hello
    by (auto simp: handle_controller_hello_def Let_def split: sum.splits)
  have ready: "pc_revision s \<le> pc_revision (fst (handle_controller_ready env s a bs))" for a
    by (auto simp: handle_controller_ready_def intro!: revision_publish split: sum.splits)
  have payload: "pc_revision s \<le> pc_revision (fst (case pm_payload m of
      Some (PairingMessage_ControllerHello hello) \<Rightarrow> handle_controller_hello env s a hello sender ident
    | _ \<Rightarrow> (s, Inl PairingCoordinatorError_Authentication)))" for a m
  proof (cases "pm_payload m")
    case (Some pl)
    then show ?thesis by (cases pl) (simp_all add: hello)
  qed simp
  have inner: "pc_revision s \<le> pc_revision (fst (handle_routed_inner env s r sender bs ident))"
  proof (cases "pc_active s")
    case (Some a)
    then show ?thesis
      by (cases "ap_phase a"; cases "decode_pairing_message (pe_ops env) bs")
        (simp_all add: handle_routed_inner_def ready payload)
  qed (simp add: handle_routed_inner_def)
  have "pc_revision t \<le> pc_revision (fail_active t)" for t by (rule revision_fail) simp
  then show ?thesis using inner by (auto simp: handle_routed_def split_def Let_def intro: order_trans)
qed

lemma revision_event: "pc_revision s \<le> pc_revision (fst (handle_signaling_event env s ev ident now))"
proof -
  let ?t = "pairing_tick s now"
  have "pc_revision ?t \<le> pc_revision (fst (handle_signaling_event env s ev ident now))"
    by (cases ev) (auto simp: handle_signaling_event_def Let_def handle_created_def handle_joined_def handle_closed_def
        revision_routed intro!: revision_publish revision_finish revision_fail split: option.splits)
  with revision_tick [of s now] show ?thesis by (rule order_trans)
qed

lemma revision_decisions:
  "pc_revision s \<le> pc_revision (fst (pairing_accept env ops draw s reg r d now))"
  "pc_revision s \<le> pc_revision (fst (pairing_reject env s r d now))"
proof -
  obtain t res where e: "ensure_waiting_decision s r d now = (t, res)" by fastforce
  then have t: "pc_revision s \<le> pc_revision t"
    using revision_tick [of s now] by (auto simp: ensure_waiting_decision_def Let_def split: option.splits if_splits)
  have "pc_revision t \<le> pc_revision (fst (pairing_accept env ops draw s reg r d now))"
    using e by (auto simp: pairing_accept_def intro!: revision_finish revision_fail split: sum.splits option.splits prod.splits)
  with t show "pc_revision s \<le> pc_revision (fst (pairing_accept env ops draw s reg r d now))" by (rule order_trans)
  have "pc_revision t \<le> pc_revision (fst (pairing_reject env s r d now))"
    using e by (cases res) (auto simp: pairing_reject_def intro!: revision_finish split: sum.splits)
  with t show "pc_revision s \<le> pc_revision (fst (pairing_reject env s r d now))" by (rule order_trans)
qed

lemma revision_endings:
  "pc_revision s \<le> pc_revision (fst (pairing_cancel s r))" "pc_revision s \<le> pc_revision (pairing_signaling_lost s)"
  "pc_revision s \<le> pc_revision (pairing_shutdown s)"
  by (auto simp: pairing_cancel_def pairing_signaling_lost_def pairing_shutdown_def Let_def intro!: revision_finish
      split: option.splits)

interpretation pairing: monotone_machine "pairing_step env ops" "\<lambda>sr. coordinator_inv env host (fst sr)"
    "\<lambda>sr. pc_revision (fst sr)" for env ops host
proof
  fix sr :: "pairing_coordinator \<times> 'a authorization_registry" and x
  obtain s reg where sr: "sr = (s, reg)" by fastforce
  show "pc_revision (fst sr) \<le> pc_revision (fst (fst (pairing_step env ops sr x)))"
    unfolding sr
    by (cases x) (simp_all add: split_def Let_def revision_start revision_event revision_decisions revision_endings
        revision_tick pairing_signaling_connected_def take_outbound_def)
qed

section \<open>Desktop codes\<close>

lemma base32_distinct: "distinct BASE32_ALPHABET" "length BASE32_ALPHABET = 32" "list_all is_pairing_code_byte BASE32_ALPHABET"
  by (simp_all add: BASE32_ALPHABET_def is_pairing_code_byte_def)

lemma five_bits: "unat (x AND (0x1f :: u64)) < 32"
proof -
  have m: "(0x1f :: u64) = mask 5" by (simp add: mask_eq_exp_minus_1)
  have "unat (take_bit 5 x) < 2 ^ 5" by (simp only: unsigned_take_bit_eq take_bit_nat_less_exp)
  then show ?thesis by (simp only: m take_bit_eq_mask [symmetric]) simp
qed

lemma bit_of_group: "i < 40 \<Longrightarrow> bit (w :: 40 word) i \<longleftrightarrow>
    bit (drop_bit ((i div 5) * 5) (ucast w :: u64) AND 0x1f) (i mod 5)"
proof -
  assume i: "i < 40"
  have m: "(0x1f :: u64) = mask 5" by (simp add: mask_eq_exp_minus_1)
  have "i div 5 * 5 + i mod 5 = i" "i mod 5 < 64" using mod_less_divisor [of 5 i] by simp_all
  with i show ?thesis
    by (simp add: m bit_simps bit_and_iff bit_drop_bit_eq bit_unsigned_iff bit_mask_iff)
qed

lemma desktop_code_inject:
  assumes "generate_desktop_code w = generate_desktop_code w'"
  shows "w = w'"
proof (rule bit_word_eqI)
  fix i
  assume "i < LENGTH(40)"
  then have i: "i < 40" by simp
  have group: "drop_bit (k * 5) (ucast w :: u64) AND 0x1f = drop_bit (k * 5) (ucast w' :: u64) AND 0x1f" if "k < 8" for k
  proof -
    have "generate_desktop_code w ! (7 - k) = generate_desktop_code w' ! (7 - k)" using assms by simp
    then have "BASE32_ALPHABET ! unat (drop_bit (k * 5) (ucast w :: u64) AND 0x1f)
        = BASE32_ALPHABET ! unat (drop_bit (k * 5) (ucast w' :: u64) AND 0x1f)"
      using that nth_upt [of 0 "7 - k" 8] by (simp add: generate_desktop_code_def Let_def del: upt_Suc)
    then have "unat (drop_bit (k * 5) (ucast w :: u64) AND 0x1f) = unat (drop_bit (k * 5) (ucast w' :: u64) AND 0x1f)"
      using base32_distinct(1) five_bits by (simp add: nth_eq_iff_index_eq base32_distinct(2))
    then show ?thesis by (simp only: unat_inject)
  qed
  have "i div 5 < 8" using i by simp
  then show "bit w i \<longleftrightarrow> bit w' i" unfolding bit_of_group [OF i] by (simp only: group)
qed

section \<open>A complete pairing\<close>

text \<open>
  A pairing on concrete values, from the invitation to the acceptance, with stand-ins for the primitives: a digest that
  looks at the last byte only, a cipher that ignores its key.
\<close>

definition demo_crypto :: crypto where
  "demo_crypto = \<lparr>sha256 = (\<lambda>bs. if last bs = 4 then replicate 32 4 else replicate 32 3),
     verifying_key_ok = (\<lambda>_. True), ed25519_verify = (\<lambda>_ _ _. True)\<rparr>"

definition demo_host :: device_identity where
  "demo_host = \<lparr>di_device_id = replicate 32 3, di_public_key_algorithm = 1, di_public_key = replicate 32 3,
     di_display_name = ''host'', di_platform = 3\<rparr>"

definition demo_controller :: device_identity where
  "demo_controller = \<lparr>di_device_id = replicate 32 4, di_public_key_algorithm = 1, di_public_key = replicate 32 4,
     di_display_name = ''phone'', di_platform = 1\<rparr>"

definition demo_rendezvous :: bytes where
  "demo_rendezvous = be_bytes 16 5"

definition demo_private :: bytes where
  "demo_private = be_bytes 32 6"

definition demo_fields :: "transcript_field list" where
  "demo_fields = ct_fields (pairing_transcript demo_controller demo_host demo_rendezvous (replicate 32 6) (replicate 32 9))"

definition demo_transcript :: bytes where
  "demo_transcript = transcript_bytes TranscriptPurpose_PairingSas demo_fields"

definition demo_digest :: bytes where
  "demo_digest = sha256 demo_crypto demo_transcript"

definition demo_hello :: controller_pairing_hello where
  "demo_hello = \<lparr>cph_rendezvous_id = demo_rendezvous, cph_identity = Some demo_controller,
     cph_ephemeral_public_key = replicate 32 6, cph_transcript_sha256 = demo_digest, cph_signature = replicate 64 0\<rparr>"

definition demo_ready_envelope :: encrypted_pairing_envelope where
  "demo_ready_envelope = \<lparr>epe_protocol_version = Some \<lparr>pv_major = 1, pv_minor = 0\<rparr>, epe_rendezvous_id = demo_rendezvous,
     epe_direction = 1, epe_sequence = 1, epe_ciphertext = replicate 16 0\<rparr>"

definition demo_ready :: pairing_plaintext where
  "demo_ready = \<lparr>pp_payload = Some (PairingPlaintext_ControllerReady \<lparr>cpr_transcript_sha256 = demo_digest\<rparr>)\<rparr>"

definition demo_message_encode :: "pairing_message \<Rightarrow> bytes" where
  "demo_message_encode m =
     (if m = \<lparr>pm_payload = Some (PairingMessage_ControllerHello demo_hello)\<rparr> then [1]
      else if m = \<lparr>pm_payload = Some (PairingMessage_EncryptedEnvelope demo_ready_envelope)\<rparr> then [2] else [3])"

definition demo_message_decode :: "bytes \<Rightarrow> pairing_message option" where
  "demo_message_decode bs =
     (if bs = [1] then Some \<lparr>pm_payload = Some (PairingMessage_ControllerHello demo_hello)\<rparr>
      else if bs = [2] then Some \<lparr>pm_payload = Some (PairingMessage_EncryptedEnvelope demo_ready_envelope)\<rparr> else None)"

definition demo_ops :: pairing_ops where
  "demo_ops = \<lparr>x25519_public = (\<lambda>_. replicate 32 9), x25519_dh = (\<lambda>_ _. replicate 32 8),
     hkdf_expand = (\<lambda>_ _ _. Some (replicate 32 11)), aes_encrypt = (\<lambda>_ _ _ _. Some (replicate 16 0)),
     aes_decrypt = (\<lambda>_ _ _ _. Some [9]), message_encode = demo_message_encode, message_decode = demo_message_decode,
     plaintext_encode = (\<lambda>_. [9]), plaintext_decode = (\<lambda>_. Some demo_ready), bip39_english = []\<rparr>"

definition demo_url :: url where
  "demo_url = \<lparr>url_scheme = ''wss'', url_username = [], url_password = None, url_host = Some (Host_Domain ''example.org'')\<rparr>"

definition demo_env :: pairing_env where
  "demo_env = \<lparr>pe_crypto = demo_crypto, pe_ops = demo_ops, pe_signer = example_signer,
     pe_url_parse = (\<lambda>_. Some demo_url), pe_debug_build = False, pe_lan_requested = None\<rparr>"

definition demo_identity :: host_identity where
  "demo_identity = \<lparr>hi_signing_key = replicate 32 1, hi_device_identity = demo_host\<rparr>"

definition demo_registry :: "memory_grant_store authorization_registry" where
  "demo_registry = \<lparr>ar_host_device_id = replicate 32 3, ar_store = memory_grant_store_new, ar_grants = []\<rparr>"

definition demo_invitation :: host_pairing_invitation where
  "demo_invitation = \<lparr>hpi_protocol_version = Some \<lparr>pv_major = 1, pv_minor = 0\<rparr>, hpi_kind = 1,
     hpi_rendezvous_id = demo_rendezvous, hpi_host_identity = Some demo_host,
     hpi_host_public_key_fingerprint_sha256 = replicate 32 3, hpi_host_ephemeral_public_key = replicate 32 9,
     hpi_signaling_endpoint = ''wss://example.org'', hpi_pairing_code = [],
     hpi_issued_at_unix_ms = 1000, hpi_expires_at_unix_ms = 121000\<rparr>"

definition demo_new :: pairing_coordinator where
  "demo_new = \<lparr>pc_host_identity = demo_host, pc_signaling_connected = False, pc_revision = 0,
     pc_status = idle_snapshot 0, pc_active = None, pc_terminal_rendezvous_id = None,
     pc_pending_cancelled_create = None, pc_outbound = []\<rparr>"

definition demo_creating :: active_pairing where
  "demo_creating = \<lparr>ap_phase = ActivePhase_Creating, ap_invitation = demo_invitation, ap_server_expires_at_unix_ms = 0,
     ap_host_ephemeral_private_key = demo_private, ap_peer_device_id = None, ap_controller = None,
     ap_controller_ephemeral_public_key = [], ap_transcript_sha256 = [], ap_keys = None, ap_sas_words = []\<rparr>"

definition demo_inviting :: active_pairing where
  "demo_inviting = demo_creating\<lparr>ap_server_expires_at_unix_ms := 200000, ap_phase := ActivePhase_Inviting\<rparr>"

definition demo_joined :: active_pairing where
  "demo_joined = demo_inviting\<lparr>ap_peer_device_id := Some (replicate 32 4), ap_phase := ActivePhase_WaitingHello\<rparr>"

definition demo_verified :: active_pairing where
  "demo_verified = demo_joined\<lparr>ap_controller := Some demo_controller, ap_controller_ephemeral_public_key := replicate 32 6,
     ap_transcript_sha256 := demo_digest,
     ap_keys := Some \<lparr>hpk_controller_to_host = replicate 32 11, hpk_host_to_controller = replicate 32 11\<rparr>,
     ap_sas_words := [], ap_phase := ActivePhase_WaitingReady\<rparr>"

definition demo_pending :: active_pairing where
  "demo_pending = demo_verified\<lparr>ap_phase := ActivePhase_WaitingDecision\<rparr>"

definition demo_ops_list :: "pairing_op list" where
  "demo_ops_list = [PairingConnected,
     StartPairing \<lparr>pdr_rendezvous = Some 5, pdr_private_key = Some 6, pdr_code = None\<rparr> PairingInvitationKind_Qr
       ''wss://example.org'' 1000,
     PairingEvent (SignalingEvent_PairingCreated demo_rendezvous PairingRendezvousKind_Qr 200000) demo_identity 1001,
     PairingEvent (SignalingEvent_PairingJoined demo_rendezvous (replicate 32 4) 200000) demo_identity 1002,
     PairingEvent (SignalingEvent_RoutedPairing demo_rendezvous (replicate 32 4) [1]) demo_identity 1003,
     PairingEvent (SignalingEvent_RoutedPairing demo_rendezvous (replicate 32 4) [2]) demo_identity 1004]"

lemma demo_env_simps [simp]:
  "pe_crypto demo_env = demo_crypto" "pe_ops demo_env = demo_ops" "pe_signer demo_env = example_signer"
  by (simp_all add: demo_env_def)

lemma demo_lengths:
  "length demo_rendezvous = 16" "length demo_private = 32" "length demo_digest = 32"
  "length (di_device_id demo_controller) = 32" "length (di_device_id demo_host) = 32"
  by (simp_all add: demo_rendezvous_def demo_private_def demo_digest_def demo_crypto_def demo_controller_def demo_host_def)

lemma demo_identities:
  "validate_device_identity demo_host = Inr ()" "validate_device_identity demo_controller = Inr ()"
  "derive_device_id_v1 (sha256 demo_crypto) (replicate 32 3) = Inr (replicate 32 3)"
  "derive_device_id_v1 (sha256 demo_crypto) (replicate 32 4) = Inr (replicate 32 4)"
proof -
  have "identity_ok demo_host" "identity_ok demo_controller"
    by (simp_all add: identity_ok_def demo_host_def demo_controller_def range_eqI [of _ _ DevicePlatform_Ios]
        range_eqI [of _ _ DevicePlatform_Windows])
  then show "validate_device_identity demo_host = Inr ()" "validate_device_identity demo_controller = Inr ()"
    by (simp_all add: validate_device_identity_iff)
qed (simp_all add: derive_device_id_v1_def demo_crypto_def limits)

lemma demo_coordinator_new: "pairing_coordinator_new demo_crypto demo_host = Inr demo_new"
  using demo_identities
  by (simp add: pairing_coordinator_new_def demo_new_def) (simp add: demo_host_def device_platform_of_def)

lemma demo_step_start:
  "\<exists>s. fst (pairing_start demo_env \<lparr>pdr_rendezvous = Some 5, pdr_private_key = Some 6, pdr_code = None\<rparr>
       (pairing_signaling_connected demo_new) PairingInvitationKind_Qr ''wss://example.org'' 1000) = s
     \<and> pc_host_identity s = demo_host \<and> pc_active s = Some demo_creating"
  by (simp add: pairing_start_def pairing_signaling_connected_def demo_new_def idle_snapshot_def begin_invitation_def
      validate_signaling_endpoint_def validate_signaling_endpoint_with_policy_def demo_env_def demo_url_def limits
      checked_add_def x25519_public_key_def require_length_def Let_def demo_ops_def publish_active_def
      demo_creating_def demo_invitation_def demo_rendezvous_def demo_private_def public_key_fingerprint_def)
    (simp add: demo_host_def demo_crypto_def)

lemma demo_step_created:
  assumes "pc_host_identity s = demo_host" "pc_active s = Some demo_creating"
  shows "pc_host_identity (fst (handle_signaling_event demo_env s
      (SignalingEvent_PairingCreated demo_rendezvous PairingRendezvousKind_Qr 200000) ident 1001)) = demo_host
    \<and> pc_active (fst (handle_signaling_event demo_env s
      (SignalingEvent_PairingCreated demo_rendezvous PairingRendezvousKind_Qr 200000) ident 1001)) = Some demo_inviting"
  using assms
  by (simp add: handle_signaling_event_def pairing_tick_def handle_created_def publish_active_def Let_def
      demo_creating_def demo_inviting_def demo_invitation_def pairing_invitation_kind_of_def)

lemma demo_step_joined:
  assumes "pc_host_identity s = demo_host" "pc_active s = Some demo_inviting"
  shows "pc_host_identity (fst (handle_signaling_event demo_env s
      (SignalingEvent_PairingJoined demo_rendezvous (replicate 32 4) 200000) ident 1002)) = demo_host
    \<and> pc_active (fst (handle_signaling_event demo_env s
      (SignalingEvent_PairingJoined demo_rendezvous (replicate 32 4) 200000) ident 1002)) = Some demo_joined"
  using assms
  by (simp add: handle_signaling_event_def pairing_tick_def handle_joined_def publish_active_def Let_def
      demo_creating_def demo_inviting_def demo_joined_def demo_invitation_def) (simp add: demo_host_def)

lemma demo_transcript_encoded:
  "encode_pairing_transcript demo_controller demo_host demo_rendezvous (replicate 32 6) (replicate 32 9) = Inr demo_transcript"
  using demo_lengths
  by (auto simp: pairing_transcript_iff transcript_encode_iff demo_transcript_def demo_fields_def fields_ok_def
      pairing_transcript_def transcript_field_of_def field_length_def)
    (auto simp: demo_controller_def demo_host_def)

definition demo_hello_result :: verified_controller_hello where
  "demo_hello_result = \<lparr>vch_controller = demo_controller, vch_controller_ephemeral_public_key = replicate 32 6,
     vch_transcript = demo_transcript, vch_transcript_sha256 = demo_digest,
     vch_keys = \<lparr>pks_controller_to_host = replicate 32 11, pks_host_to_controller = replicate 32 11\<rparr>\<rparr>"

lemma demo_hello_verified:
  "verify_controller_hello demo_crypto demo_ops demo_hello (replicate 32 4) demo_rendezvous demo_host demo_private (replicate 32 9)
     = Inr demo_hello_result"
proof -
  have "hello_controller demo_crypto demo_hello (replicate 32 4) demo_rendezvous demo_host = Inr demo_controller"
    using demo_lengths demo_identities
    by (simp add: hello_controller_def demo_hello_def limits) (simp add: demo_controller_def demo_host_def)
  moreover have "x25519_shared_secret demo_ops demo_private (replicate 32 6) = Inr (replicate 32 8)"
    "derive_pairing_keys demo_ops (replicate 32 8) demo_digest
       = Inr \<lparr>pks_controller_to_host = replicate 32 11, pks_host_to_controller = replicate 32 11\<rparr>"
    using demo_lengths
    by (simp_all add: x25519_shared_secret_def derive_pairing_keys_def require_length_def limits demo_ops_def list_all_iff)
  moreover have "cph_ephemeral_public_key demo_hello = replicate 32 6" "cph_transcript_sha256 demo_hello = demo_digest"
    "verifying_key_ok demo_crypto k" "ed25519_verify demo_crypto k m sig" for k m sig
    by (simp_all add: demo_hello_def demo_crypto_def)
  ultimately show ?thesis
    by (simp add: verify_controller_hello_def demo_transcript_encoded Let_def demo_digest_def [symmetric] demo_hello_result_def)
qed

lemma demo_signed:
  "\<exists>sig. sign_pairing_transcript demo_crypto example_signer demo_identity demo_transcript PairingIdentityRole_Host = Inr sig"
proof -
  have "transcript_decode demo_transcript
      = Inr (pairing_transcript demo_controller demo_host demo_rendezvous (replicate 32 6) (replicate 32 9))"
    using demo_transcript_encoded by (simp add: pairing_transcript_iff transcript.accepts_iff)
  moreover have "names_device 2 demo_identity
      (pairing_transcript demo_controller demo_host demo_rendezvous (replicate 32 6) (replicate 32 9))"
    by (simp add: names_device_def find_field_def pairing_transcript_def transcript_field_of_def demo_identity_def)
  ultimately show ?thesis by (auto simp: sign_pairing_iff pairing_transcript_def simp del: pairing_identity_role_code.simps)
qed

lemma demo_sealed:
  assumes "q \<in> {1, 2}" "length k = 32"
  shows "\<exists>bs. seal_host_plaintext demo_ops k q demo_rendezvous (di_device_id demo_controller) (di_device_id demo_host) p = Inr bs"
proof -
  have "length (plaintext_encode demo_ops p) = 1" by (simp add: demo_ops_def)
  moreover have "aes_encrypt demo_ops a b c d = Some (replicate 16 0)" for a b c d by (simp add: demo_ops_def)
  ultimately show ?thesis
    using assms demo_lengths
    by (auto simp: seal_host_plaintext_def pairing_aad_def pairing_nonce_def require_length_def seal_pairing_payload_def limits)
qed

lemma demo_step_hello:
  assumes "pc_host_identity s = demo_host" "pc_active s = Some demo_joined"
  shows "pc_host_identity (fst (handle_signaling_event demo_env s
      (SignalingEvent_RoutedPairing demo_rendezvous (replicate 32 4) [1]) demo_identity 1003)) = demo_host
    \<and> pc_active (fst (handle_signaling_event demo_env s
      (SignalingEvent_RoutedPairing demo_rendezvous (replicate 32 4) [1]) demo_identity 1003)) = Some demo_verified"
proof -
  have j: "ap_phase demo_joined = ActivePhase_WaitingHello" "ap_invitation demo_joined = demo_invitation"
    "ap_peer_device_id demo_joined = Some (replicate 32 4)" "ap_host_ephemeral_private_key demo_joined = demo_private"
    by (simp_all add: demo_joined_def demo_inviting_def demo_creating_def)
  have i: "hpi_rendezvous_id demo_invitation = demo_rendezvous" "hpi_host_ephemeral_public_key demo_invitation = replicate 32 9"
    "hpi_host_identity demo_invitation = Some demo_host" "hpi_kind demo_invitation = 1" "1003 < hpi_expires_at_unix_ms demo_invitation"
    by (simp_all add: demo_invitation_def)
  have dec: "decode_pairing_message demo_ops [1] = Inr \<lparr>pm_payload = Some (PairingMessage_ControllerHello demo_hello)\<rparr>"
    by (simp add: decode_pairing_message_def strict_decode_def demo_ops_def demo_message_decode_def demo_message_encode_def)
  obtain sig where sig: "sign_pairing_transcript demo_crypto example_signer demo_identity demo_transcript PairingIdentityRole_Host = Inr sig"
    using demo_signed by blast
  obtain bs where seal: "seal_host_plaintext demo_ops (replicate 32 11) 1 demo_rendezvous (di_device_id demo_controller)
      (di_device_id demo_host) (hello_proof demo_hello_result demo_joined demo_host (pts_signature sig)) = Inr bs"
    using demo_sealed by fastforce
  have r: "vch_transcript demo_hello_result = demo_transcript" "vch_controller demo_hello_result = demo_controller"
    "pks_host_to_controller (vch_keys demo_hello_result) = replicate 32 11"
    by (simp_all add: demo_hello_result_def)
  have "handle_controller_hello demo_env s demo_joined demo_hello (replicate 32 4) demo_identity
      = (push_outbound (PairingOutbound_Relay demo_rendezvous bs) (s\<lparr>pc_active := Some demo_verified\<rparr>), Inr ())"
    using assms demo_hello_verified sig seal
    by (simp add: handle_controller_hello_def Let_def j i r) (simp add: demo_verified_def demo_hello_result_def)
  then show ?thesis
    using assms
    by (simp add: handle_signaling_event_def pairing_tick_def handle_routed_def handle_routed_inner_def Let_def j i dec)
qed

lemma demo_step_ready:
  assumes "pc_host_identity s = demo_host" "pc_active s = Some demo_verified"
  shows "pc_host_identity (fst (handle_signaling_event demo_env s
      (SignalingEvent_RoutedPairing demo_rendezvous (replicate 32 4) [2]) demo_identity 1004)) = demo_host
    \<and> pc_active (fst (handle_signaling_event demo_env s
      (SignalingEvent_RoutedPairing demo_rendezvous (replicate 32 4) [2]) demo_identity 1004)) = Some demo_pending"
proof -
  have j: "ap_phase demo_verified = ActivePhase_WaitingReady" "ap_invitation demo_verified = demo_invitation"
    "ap_peer_device_id demo_verified = Some (replicate 32 4)" "ap_controller demo_verified = Some demo_controller"
    "ap_keys demo_verified = Some \<lparr>hpk_controller_to_host = replicate 32 11, hpk_host_to_controller = replicate 32 11\<rparr>"
    "ap_transcript_sha256 demo_verified = demo_digest"
    by (simp_all add: demo_verified_def demo_joined_def demo_inviting_def demo_creating_def)
  have i: "hpi_rendezvous_id demo_invitation = demo_rendezvous" "1004 < hpi_expires_at_unix_ms demo_invitation"
    by (simp_all add: demo_invitation_def)
  have dec: "decode_pairing_message demo_ops [2] = Inr \<lparr>pm_payload = Some (PairingMessage_EncryptedEnvelope demo_ready_envelope)\<rparr>"
    by (simp add: decode_pairing_message_def strict_decode_def demo_ops_def demo_message_decode_def demo_message_encode_def)
  have aes: "aes_decrypt demo_ops a b c d = Some [9]" "plaintext_decode demo_ops x = Some demo_ready" "plaintext_encode demo_ops p = [9]"
    for a b c d x p by (simp_all add: demo_ops_def)
  have "open_controller_plaintext demo_ops (replicate 32 11) 1 demo_rendezvous (di_device_id demo_controller) (di_device_id demo_host) [2]
      = Inr demo_ready"
    using demo_lengths
    by (simp add: open_controller_plaintext_def dec demo_ready_envelope_def open_pairing_payload_def pairing_aad_def
        pairing_nonce_def require_length_def strict_decode_def aes limits)
  then have "ready_outcome demo_env demo_host demo_verified [2] = Inr ()"
    by (simp add: ready_outcome_def j i demo_ready_def)
  then show ?thesis
    using assms
    by (simp add: handle_signaling_event_def pairing_tick_def handle_routed_def handle_routed_inner_def Let_def j i
        handle_controller_ready_def publish_active_def demo_pending_def)
qed

lemma demo_run:
  "\<exists>s. fst (run_steps (pairing_step demo_env gops) (demo_new, reg) demo_ops_list) = (s, reg)
     \<and> pc_host_identity s = demo_host \<and> pc_active s = Some demo_pending"
proof -
  have ev: "fst (pairing_step demo_env gops (s, reg) (PairingEvent ev demo_identity now))
      = (fst (handle_signaling_event demo_env s ev demo_identity now), reg)" for s ev now
    by (simp add: split_def Let_def)
  have st: "fst (pairing_step demo_env gops (s, reg) (StartPairing dr k ep now))
      = (fst (pairing_start demo_env dr s k ep now), reg)" for s dr k ep now
    by (simp add: split_def Let_def)
  have co: "fst (pairing_step demo_env gops (s, reg) PairingConnected) = (pairing_signaling_connected s, reg)" for s by simp
  obtain s1 where s1: "fst (pairing_start demo_env \<lparr>pdr_rendezvous = Some 5, pdr_private_key = Some 6, pdr_code = None\<rparr>
       (pairing_signaling_connected demo_new) PairingInvitationKind_Qr ''wss://example.org'' 1000) = s1"
    "pc_host_identity s1 = demo_host" "pc_active s1 = Some demo_creating" using demo_step_start by blast
  note s2 = demo_step_created [OF s1(2,3), of demo_identity]
  note s3 = demo_step_joined [OF s2 [THEN conjunct1] s2 [THEN conjunct2], of demo_identity]
  note s4 = demo_step_hello [OF s3 [THEN conjunct1] s3 [THEN conjunct2]]
  note s5 = demo_step_ready [OF s4 [THEN conjunct1] s4 [THEN conjunct2]]
  show ?thesis
    unfolding demo_ops_list_def
    using s5 by (simp only: fst_run_steps_Cons ev st co s1(1)) simp
qed

lemma demo_grant:
  "\<exists>reg' view. create_controller_grant demo_crypto (memory_store (\<lambda>_. 0)) (\<lambda>_. Some 1) demo_registry demo_controller
     VIEW_AND_CONTROL_PERMISSIONS 2000 = (reg', Inr view) \<and> cgv_grant view \<noteq> None"
proof -
  have "validate_controller demo_crypto demo_controller = Inr ()"
    using demo_identities by (simp add: validate_controller_def)
      (simp add: demo_controller_def demo_crypto_def)
  moreover have "normalize_permissions VIEW_AND_CONTROL_PERMISSIONS = Inr [1, 2]"
    by (auto simp: normalize_permissions_def VIEW_AND_CONTROL_PERMISSIONS_def normalize_stored_iff)
  moreover have "generate_grant_id demo_registry (\<lambda>_. Some 1) = Inr (be_bytes 16 1)"
    using grant_id_loop.simps(2) [of "[]" "\<lambda>_. Some 1" 0 15]
    by (simp add: generate_grant_id_def GRANT_ID_GENERATION_ATTEMPTS_def GRANT_ID_BYTES_def demo_registry_def bt_values_def)
  moreover have "di_device_id demo_controller \<noteq> ar_host_device_id demo_registry"
    "bt_get (ar_grants demo_registry) (di_device_id demo_controller) = None" "ar_grants demo_registry = []"
    by (simp_all add: demo_controller_def demo_registry_def bt_get_def)
  ultimately show ?thesis
    by (simp add: create_controller_grant_def persist_then_def memory_store_def memory_persist_def Let_def limits
        demo_registry_def memory_grant_store_new_def)
qed

lemma demo_accept:
  assumes "pc_host_identity s = demo_host" "pc_active s = Some demo_pending"
  shows "\<exists>s' reg'. pairing_accept demo_env (memory_store (\<lambda>_. 0)) (\<lambda>_. Some 1) s demo_registry demo_rendezvous
      (replicate 32 4) 2000 = (s', reg', Inr ())"
proof -
  have j: "ap_phase demo_pending = ActivePhase_WaitingDecision" "ap_invitation demo_pending = demo_invitation"
    "ap_controller demo_pending = Some demo_controller"
    "ap_keys demo_pending = Some \<lparr>hpk_controller_to_host = replicate 32 11, hpk_host_to_controller = replicate 32 11\<rparr>"
    by (simp_all add: demo_pending_def demo_verified_def demo_joined_def demo_inviting_def demo_creating_def)
  have i: "hpi_rendezvous_id demo_invitation = demo_rendezvous" "2000 < hpi_expires_at_unix_ms demo_invitation"
    "di_device_id demo_controller = replicate 32 4"
    by (simp_all add: demo_invitation_def demo_controller_def)
  have "ensure_waiting_decision s demo_rendezvous (replicate 32 4) 2000 = (s, Inr ())"
    using assms j i by (simp add: ensure_waiting_decision_def pairing_tick_def Let_def)
  moreover obtain reg' view g where "create_controller_grant demo_crypto (memory_store (\<lambda>_. 0)) (\<lambda>_. Some 1) demo_registry
      demo_controller VIEW_AND_CONTROL_PERMISSIONS 2000 = (reg', Inr view)" "cgv_grant view = Some g"
    using demo_grant by blast
  moreover obtain bs where "encrypt_final_decision demo_env s PairingDecisionStatus_Accepted (Some g) = Inr bs"
    using demo_sealed [of 2 "replicate 32 11"] assms j i
    by (auto simp: encrypt_final_decision_def simp del: pairing_decision_status_code.simps)
  ultimately show ?thesis using assms j by (simp add: pairing_accept_def)
qed

section \<open>Properties\<close>

lemma ready_outcome_ok:
  assumes "ready_outcome env host a bs = Inr ()" "ap_controller a = Some ctl"
    and "ap_keys a = Some \<lparr>hpk_controller_to_host = key, hpk_host_to_controller = key'\<rparr>"
  shows "\<exists>ready. open_controller_plaintext (pe_ops env) key 1 (hpi_rendezvous_id (ap_invitation a)) (di_device_id ctl)
      (di_device_id host) bs = Inr \<lparr>pp_payload = Some (PairingPlaintext_ControllerReady ready)\<rparr>
    \<and> cpr_transcript_sha256 ready = ap_transcript_sha256 a"
proof -
  from assms obtain pt where pt: "open_controller_plaintext (pe_ops env) key 1 (hpi_rendezvous_id (ap_invitation a))
      (di_device_id ctl) (di_device_id host) bs = Inr pt"
    by (auto simp: ready_outcome_def bind_res_Inr)
  with assms show ?thesis
    by (cases pt; cases "pp_payload pt")
      (auto simp: ready_outcome_def split: pairing_plaintext_payload.splits if_splits)
qed

lemma ensure_ok:
  assumes "ensure_waiting_decision s r d now = (s', Inr u)"
  shows "s' = s \<and> (\<exists>a ctl. pc_active s = Some a \<and> ap_phase a = ActivePhase_WaitingDecision \<and> hpi_rendezvous_id (ap_invitation a) = r
    \<and> ap_controller a = Some ctl \<and> di_device_id ctl = d \<and> now < hpi_expires_at_unix_ms (ap_invitation a))"
  using assms
  by (auto simp: ensure_waiting_decision_def pairing_tick_def Let_def not_less split: option.splits if_splits)

lemma verified_hello:
  assumes "verify_controller_hello c po hello sender r host priv pub = Inr v"
  shows "cph_identity hello = Some (vch_controller v) \<and> di_device_id (vch_controller v) = sender
    \<and> derive_device_id_v1 (sha256 c) (di_public_key (vch_controller v)) = Inr sender
    \<and> encode_pairing_transcript (vch_controller v) host r (cph_ephemeral_public_key hello) pub = Inr (vch_transcript v)
    \<and> vch_transcript_sha256 v = sha256 c (vch_transcript v)
    \<and> ed25519_verify c (di_public_key (vch_controller v)) (vch_transcript v) (cph_signature hello)
    \<and> derive_pairing_keys po (x25519_dh po priv (cph_ephemeral_public_key hello)) (sha256 c (vch_transcript v)) = Inr (vch_keys v)"
proof -
  from assms obtain d t secret keys where
    s: "hello_controller c hello sender r host = Inr d"
      "encode_pairing_transcript d host r (cph_ephemeral_public_key hello) pub = Inr t"
      "ed25519_verify c (di_public_key d) t (cph_signature hello)"
      "x25519_shared_secret po priv (cph_ephemeral_public_key hello) = Inr secret"
      "derive_pairing_keys po secret (sha256 c t) = Inr keys"
      "v = \<lparr>vch_controller = d, vch_controller_ephemeral_public_key = cph_ephemeral_public_key hello,
            vch_transcript = t, vch_transcript_sha256 = sha256 c t, vch_keys = keys\<rparr>"
    by (auto simp: verify_controller_hello_def bind_res_Inr Let_def split: if_splits)
  have "secret = x25519_dh po priv (cph_ephemeral_public_key hello)"
    using s(4) by (auto simp: x25519_shared_secret_def bind_res_Inr Let_def split: if_splits)
  then show ?thesis using hello_controller_ok [OF s(1)] s by auto
qed

text \<open>Only an acceptance of the pending decision reaches the registry, and then through exactly one creation of a grant.\<close>

lemma accept_cases:
  assumes "pairing_accept env ops draw s reg r d now = (s', reg', res)"
  obtains (refused) e where "reg' = reg" "res = Inl e"
  | (failed) ctl e where "create_controller_grant (pe_crypto env) ops draw reg ctl VIEW_AND_CONTROL_PERMISSIONS now = (reg', Inl e)"
      "res = Inl (PairingCoordinatorError_Authorization e)"
  | (granted) a ctl view where "pc_active s = Some a" "ap_phase a = ActivePhase_WaitingDecision"
      "hpi_rendezvous_id (ap_invitation a) = r" "ap_controller a = Some ctl" "di_device_id ctl = d"
      "now < hpi_expires_at_unix_ms (ap_invitation a)"
      "create_controller_grant (pe_crypto env) ops draw reg ctl VIEW_AND_CONTROL_PERMISSIONS now = (reg', Inr view)"
      "case res of Inl e \<Rightarrow> s' = s
        | Inr _ \<Rightarrow> \<exists>enc. s' = finish HostPairingState_Accepted None
            (push_outbound (PairingOutbound_Complete r PairingRendezvousCompletion_Succeeded)
              (push_outbound (PairingOutbound_Relay r enc) s))"
proof (cases "ensure_waiting_decision s r d now")
  case (Pair s1 wait)
  show thesis
  proof (cases wait)
    case (Inl e)
    then show thesis using assms Pair refused [of e] by (simp add: pairing_accept_def)
  next
    case (Inr u)
    from ensure_ok [OF Pair [unfolded Inr]] obtain a ctl where
      a: "s1 = s" "pc_active s = Some a" "ap_phase a = ActivePhase_WaitingDecision" "hpi_rendezvous_id (ap_invitation a) = r"
        "ap_controller a = Some ctl" "di_device_id ctl = d" "now < hpi_expires_at_unix_ms (ap_invitation a)" by blast
    obtain reg1 out where c: "create_controller_grant (pe_crypto env) ops draw reg ctl VIEW_AND_CONTROL_PERMISSIONS now = (reg1, out)"
      by fastforce
    show thesis
    proof (cases out)
      case (Inl e)
      then show thesis using assms Pair Inr a c failed by (auto simp: pairing_accept_def)
    next
      case (Inr view)
      then have "reg' = reg1 \<and> (case res of Inl e \<Rightarrow> s' = s
          | Inr _ \<Rightarrow> \<exists>enc. s' = finish HostPairingState_Accepted None
              (push_outbound (PairingOutbound_Complete r PairingRendezvousCompletion_Succeeded)
                (push_outbound (PairingOutbound_Relay r enc) s)))"
        using assms Pair \<open>wait = Inr u\<close> a c by (auto simp: pairing_accept_def split: sum.splits)
      then show thesis using granted [OF a(2-7)] c Inr by blast
    qed
  qed
qed

lemma create_failed:
  assumes "grants_ok c (ar_host_device_id reg) (ar_grants reg)" "create_controller_grant c ops draw reg d ps t = (reg', res)"
  shows "ar_host_device_id reg' = ar_host_device_id reg \<and> grants_ok c (ar_host_device_id reg) (ar_grants reg')
    \<and> (\<forall>e. res = Inl e \<longrightarrow> ar_grants reg' = ar_grants reg)"
proof (cases "reg' = reg")
  case False
  with change_create [OF assms(1), of ops draw d ps t] assms(2) obtain m x where
    m: "grants_ok c (ar_host_device_id reg) m"
      "persist_then ops reg (bt_values m) (\<lambda>r'. (r'\<lparr>ar_grants := m\<rparr>, Inr x)) = (reg', res)"
    by (auto simp: registry_change_def)
  from persist_then_grants [OF m(2)] m(1) assms(1) show ?thesis by (cases res) auto
qed (simp add: assms(1))

lemma registry_step:
  assumes "grants_ok (pe_crypto env) (ar_host_device_id reg) (ar_grants reg)"
    and "pairing_step env ops (s, reg) x = ((s', reg'), res)"
  shows "grants_ok (pe_crypto env) (ar_host_device_id reg') (ar_grants reg')"
    and "ar_grants reg' \<noteq> ar_grants reg \<Longrightarrow> \<exists>draw r d now. x = AcceptPairing draw r d now"
proof -
  have "grants_ok (pe_crypto env) (ar_host_device_id reg') (ar_grants reg')"
    if "pairing_accept env ops draw s reg r d now = (s', reg', res)" for draw r d now
    using that
  proof (cases rule: accept_cases)
    case (failed ctl e)
    then show ?thesis using create_failed [OF assms(1) failed(1)] by metis
  next
    case (granted a ctl view)
    then show ?thesis using create_failed [OF assms(1) granted(7)] by metis
  qed (use assms(1) in simp)
  with assms show "grants_ok (pe_crypto env) (ar_host_device_id reg') (ar_grants reg')"
    by (cases x) (auto simp: split_def Let_def prod_eq_iff)
  show "ar_grants reg' \<noteq> ar_grants reg \<Longrightarrow> \<exists>draw r d now. x = AcceptPairing draw r d now"
    using assms(2) by (cases x) (auto simp: split_def Let_def)
qed

interpretation pairing_registry: machine "pairing_step env ops"
  "\<lambda>sr. grants_ok (pe_crypto env) (ar_host_device_id (snd sr)) (ar_grants (snd sr))" for env ops
proof
  fix sr :: "pairing_coordinator \<times> 'a authorization_registry" and x
  assume "grants_ok (pe_crypto env) (ar_host_device_id (snd sr)) (ar_grants (snd sr))"
  then show "grants_ok (pe_crypto env) (ar_host_device_id (snd (fst (pairing_step env ops sr x))))
      (ar_grants (snd (fst (pairing_step env ops sr x))))"
    by (cases sr; cases "pairing_step env ops sr x") (auto dest: registry_step(1))
qed

lemma routed_in_iff:
  "(r, d, bs) \<in> routed_in x \<longleftrightarrow> (\<exists>ident at. x = PairingEvent (SignalingEvent_RoutedPairing r d bs) ident at)"
  by (cases x rule: routed_in.cases) auto

text \<open>A pending decision rests on a signed hello and on a confirmation under its keys, both received.\<close>

lemma received_proof:
  assumes "received_inv env host H s" "pc_active s = Some a" "ap_phase a = ActivePhase_WaitingDecision"
    and "hpi_rendezvous_id (ap_invitation a) = r" "ap_controller a = Some ctl" "di_device_id ctl = d"
  shows "\<exists>hello_bs hello t keys ready_bs ready. ap_peer_device_id a = Some d \<and> (r, d, hello_bs) \<in> H
    \<and> decode_pairing_message (pe_ops env) hello_bs = Inr \<lparr>pm_payload = Some (PairingMessage_ControllerHello hello)\<rparr>
    \<and> cph_identity hello = Some ctl \<and> derive_device_id_v1 (sha256 (pe_crypto env)) (di_public_key ctl) = Inr d
    \<and> encode_pairing_transcript ctl host r (cph_ephemeral_public_key hello)
        (hpi_host_ephemeral_public_key (ap_invitation a)) = Inr t
    \<and> ed25519_verify (pe_crypto env) (di_public_key ctl) t (cph_signature hello)
    \<and> derive_pairing_keys (pe_ops env) (x25519_dh (pe_ops env) (ap_host_ephemeral_private_key a)
        (cph_ephemeral_public_key hello)) (sha256 (pe_crypto env) t) = Inr keys
    \<and> (r, d, ready_bs) \<in> H
    \<and> open_controller_plaintext (pe_ops env) (pks_controller_to_host keys) 1 r d (di_device_id host) ready_bs
        = Inr \<lparr>pp_payload = Some (PairingPlaintext_ControllerReady ready)\<rparr>
    \<and> cpr_transcript_sha256 ready = sha256 (pe_crypto env) t"
proof -
  from assms(1-3) have "hello_received env host H a" "ready_received env host H a"
    by (simp_all add: received_inv_def)
  then obtain hello peer v hb rb where
    h: "ap_peer_device_id a = Some peer" "(r, peer, hb) \<in> H"
      "decode_pairing_message (pe_ops env) hb = Inr \<lparr>pm_payload = Some (PairingMessage_ControllerHello hello)\<rparr>"
      "verify_controller_hello (pe_crypto env) (pe_ops env) hello peer r host
         (ap_host_ephemeral_private_key a) (hpi_host_ephemeral_public_key (ap_invitation a)) = Inr v"
      "ctl = vch_controller v" "ap_transcript_sha256 a = vch_transcript_sha256 v"
    and keys: "ap_keys a = Some \<lparr>hpk_controller_to_host = pks_controller_to_host (vch_keys v),
        hpk_host_to_controller = pks_host_to_controller (vch_keys v)\<rparr>"
    and ready: "(r, peer, rb) \<in> H" "ready_outcome env host a rb = Inr ()"
    using assms(4,5) by (auto simp: hello_received_def ready_received_def)
  note hello = verified_hello [OF h(4)]
  have "peer = d" using hello assms(6) h(5) by simp
  moreover from ready_outcome_ok [OF ready(2) assms(5) keys] obtain rd where
    "open_controller_plaintext (pe_ops env) (pks_controller_to_host (vch_keys v)) 1 r d (di_device_id host) rb
        = Inr \<lparr>pp_payload = Some (PairingPlaintext_ControllerReady rd)\<rparr>"
    "cpr_transcript_sha256 rd = sha256 (pe_crypto env) (vch_transcript v)" using assms(4,6) h(6) hello by auto
  ultimately show ?thesis
    using h hello ready(1)
    by (intro exI [of _ hb] exI [of _ hello] exI [of _ "vch_transcript v"] exI [of _ "vch_keys v"] exI [of _ rb] exI [of _ rd])
      simp
qed

text \<open>
  C1. A pairing grants access only at the end of the whole protocol.  After any sequence of invitations, signaling events, decisions,
  timeouts and disconnections, take a step that changes the grants, whether or not it then reports an error, or an acceptance
  that succeeds.  The step is an acceptance of the pending decision before the invitation expired, and the Controller it names
  has proved its key: the signaling service delivered from it, for this rendezvous, a hello whose Ed25519 signature under the key that its
  device identifier is derived from covers the canonical transcript of exactly both identities, this rendezvous and both ephemeral keys, and a
  confirmation that opens under the keys derived from the shared secret and that transcript and repeats its digest.  The registry then
  holds a grant for exactly that identity, to view and to control, and every other grant is as before.  When the step succeeds the
  Controller is told and nothing of the pairing stays active; when the answer could not be encrypted the coordinator is as before.
\<close>

theorem pairing_grant_requires_proof:
  assumes "pairing_coordinator_new (pe_crypto env) host = Inr s0"
    and "grants_ok (pe_crypto env) (ar_host_device_id reg0) (ar_grants reg0)"
    and "fst (run_steps (pairing_step env ops) (s0, reg0) xs) = (s, reg)"
    and "pairing_step env ops (s, reg) x = ((s', reg'), res)"
    and "ar_grants reg' \<noteq> ar_grants reg \<or> (\<exists>draw r d now. x = AcceptPairing draw r d now \<and> res = Inr ())"
  shows "\<exists>draw r d now a hello_bs hello ctl t keys ready_bs ready view g. x = AcceptPairing draw r d now
    \<and> pc_active s = Some a \<and> hpi_rendezvous_id (ap_invitation a) = r \<and> now < hpi_expires_at_unix_ms (ap_invitation a)
    \<and> (\<exists>ident at. PairingEvent (SignalingEvent_RoutedPairing r d hello_bs) ident at \<in> set xs)
    \<and> decode_pairing_message (pe_ops env) hello_bs = Inr \<lparr>pm_payload = Some (PairingMessage_ControllerHello hello)\<rparr>
    \<and> cph_identity hello = Some ctl \<and> di_device_id ctl = d \<and> d \<noteq> di_device_id host
    \<and> derive_device_id_v1 (sha256 (pe_crypto env)) (di_public_key ctl) = Inr d
    \<and> encode_pairing_transcript ctl host r (cph_ephemeral_public_key hello)
        (hpi_host_ephemeral_public_key (ap_invitation a)) = Inr t
    \<and> ed25519_verify (pe_crypto env) (di_public_key ctl) t (cph_signature hello)
    \<and> derive_pairing_keys (pe_ops env) (x25519_dh (pe_ops env) (ap_host_ephemeral_private_key a)
        (cph_ephemeral_public_key hello)) (sha256 (pe_crypto env) t) = Inr keys
    \<and> (\<exists>ident at. PairingEvent (SignalingEvent_RoutedPairing r d ready_bs) ident at \<in> set xs)
    \<and> open_controller_plaintext (pe_ops env) (pks_controller_to_host keys) 1 r d (di_device_id host) ready_bs
        = Inr \<lparr>pp_payload = Some (PairingPlaintext_ControllerReady ready)\<rparr>
    \<and> cpr_transcript_sha256 ready = sha256 (pe_crypto env) t
    \<and> cgv_grant view = Some g \<and> cg_controller g = Some ctl \<and> cg_permissions g = [1, 2]
    \<and> (\<forall>k. controller_grant_of reg' k = (if k = d then Some view else controller_grant_of reg k))
    \<and> (case res of
         Inl _ \<Rightarrow> s' = s
       | Inr _ \<Rightarrow> pc_active s' = None \<and> (\<exists>enc. pc_outbound s' = pc_outbound s @
           [PairingOutbound_Relay r enc, PairingOutbound_Complete r PairingRendezvousCompletion_Succeeded]))"
proof -
  define H where "H = \<Union>(routed_in ` set xs)"
  have reg: "grants_ok (pe_crypto env) (ar_host_device_id reg) (ar_grants reg)"
    using pairing_registry.run_inv [of env "(s0, reg0)" ops xs] assms(2,3) by simp
  have inv: "coordinator_inv env host s"
    using pairing.run_inv [of env host "(s0, reg0)" ops xs] inv_new [OF assms(1)] assms(3) by simp
  have "pc_host_identity s0 = host \<and> pc_active s0 = None"
    using assms(1) by (auto simp: pairing_coordinator_new_def bind_res_Inr split: if_splits)
  then have "received_inv env host H s0" by (simp add: received_inv_def)
  then have rec: "received_inv env host H s"
    using received_run [of env host H "(s0, reg0)" xs ops] assms(3) by (auto simp: H_def)
  have heard: "(r, d, bs) \<in> H \<Longrightarrow> \<exists>ident at. PairingEvent (SignalingEvent_RoutedPairing r d bs) ident at \<in> set xs" for r d bs
    by (auto simp: H_def routed_in_iff)
  obtain draw r d now where x: "x = AcceptPairing draw r d now"
    using assms(5) registry_step(2) [OF reg assms(4)] by blast
  have "pairing_accept env ops draw s reg r d now = (s', reg', res)"
    using assms(4) unfolding x by (auto simp: split_def Let_def prod_eq_iff)
  then show ?thesis
  proof (cases rule: accept_cases)
    case (refused e)
    then show ?thesis using assms(5) by simp
  next
    case (failed ctl e)
    then show ?thesis using assms(5) create_failed [OF reg failed(1)] by simp
  next
    case (granted a ctl view)
    from received_proof [OF rec granted(1-5)] obtain hb hello t keys rb ready where
      peer: "ap_peer_device_id a = Some d" and h: "(r, d, hb) \<in> H"
      "decode_pairing_message (pe_ops env) hb = Inr \<lparr>pm_payload = Some (PairingMessage_ControllerHello hello)\<rparr>"
      "cph_identity hello = Some ctl" "derive_device_id_v1 (sha256 (pe_crypto env)) (di_public_key ctl) = Inr d"
      "encode_pairing_transcript ctl host r (cph_ephemeral_public_key hello)
         (hpi_host_ephemeral_public_key (ap_invitation a)) = Inr t"
      "ed25519_verify (pe_crypto env) (di_public_key ctl) t (cph_signature hello)"
      "derive_pairing_keys (pe_ops env) (x25519_dh (pe_ops env) (ap_host_ephemeral_private_key a)
        (cph_ephemeral_public_key hello)) (sha256 (pe_crypto env) t) = Inr keys" "(r, d, rb) \<in> H"
      "open_controller_plaintext (pe_ops env) (pks_controller_to_host keys) 1 r d (di_device_id host) rb
        = Inr \<lparr>pp_payload = Some (PairingPlaintext_ControllerReady ready)\<rparr>"
      "cpr_transcript_sha256 ready = sha256 (pe_crypto env) t" by blast
    have "d \<noteq> di_device_id host"
      using inv_active [OF inv granted(1)] granted(2) peer by (auto simp: active_inv_def)
    moreover have "normalize_permissions VIEW_AND_CONTROL_PERMISSIONS = Inr n \<longleftrightarrow> n = [1, 2]" for n
      by (auto simp: normalize_permissions_def VIEW_AND_CONTROL_PERMISSIONS_def normalize_stored_iff)
    with create_effect [OF reg granted(7)] obtain g where
      g: "cgv_grant view = Some g" "cg_controller g = Some ctl" "cg_permissions g = [1, 2]"
        "\<And>k. controller_grant_of reg' k = (if k = d then Some view else controller_grant_of reg k)"
      using granted(5) by auto
    moreover have "case res of Inl _ \<Rightarrow> s' = s
       | Inr _ \<Rightarrow> pc_active s' = None \<and> (\<exists>enc. pc_outbound s' = pc_outbound s @
           [PairingOutbound_Relay r enc, PairingOutbound_Complete r PairingRendezvousCompletion_Succeeded])"
      using granted(8) by (auto simp: push_outbound_def split: sum.splits)
    ultimately show ?thesis
      using x granted h heard [OF h(1)] heard [OF h(8)]
      by (intro exI [of _ draw] exI [of _ r] exI [of _ d] exI [of _ now] exI [of _ a] exI [of _ hb] exI [of _ hello]
          exI [of _ ctl] exI [of _ t] exI [of _ keys] exI [of _ rb] exI [of _ ready] exI [of _ view] exI [of _ g]) simp
  qed
qed

theorem pairing_grant_requires_proof_witness:
  "\<exists>s s' reg' d view g. pairing_step demo_env (memory_store (\<lambda>_. 0)) (s, demo_registry)
       (AcceptPairing (\<lambda>_. Some 1) demo_rendezvous (replicate 32 4) 2000) = ((s', reg'), Inr ())
     \<and> controller_grant_of reg' d = Some view \<and> cgv_grant view = Some g \<and> cg_permissions g = [1, 2]"
proof -
  obtain s where s: "fst (run_steps (pairing_step demo_env (memory_store (\<lambda>_. 0))) (demo_new, demo_registry) demo_ops_list)
      = (s, demo_registry)" "pc_host_identity s = demo_host" "pc_active s = Some demo_pending"
    using demo_run by blast
  obtain s' reg' where acc: "pairing_accept demo_env (memory_store (\<lambda>_. 0)) (\<lambda>_. Some 1) s demo_registry demo_rendezvous
      (replicate 32 4) 2000 = (s', reg', Inr ())" using demo_accept [OF s(2,3)] by blast
  then have step: "pairing_step demo_env (memory_store (\<lambda>_. 0)) (s, demo_registry)
      (AcceptPairing (\<lambda>_. Some 1) demo_rendezvous (replicate 32 4) 2000) = ((s', reg'), Inr ())" by simp
  have new: "pairing_coordinator_new (pe_crypto demo_env) demo_host = Inr demo_new" using demo_coordinator_new by simp
  have ok: "grants_ok (pe_crypto demo_env) (ar_host_device_id demo_registry) (ar_grants demo_registry)"
    by (simp add: grants_ok_def demo_registry_def bt_ok_def bt_get_def)
  from pairing_grant_requires_proof [OF new ok s(1) step] obtain d view g where
    "\<forall>k. controller_grant_of reg' k = (if k = d then Some view else controller_grant_of demo_registry k)"
    "cgv_grant view = Some g" "cg_permissions g = [1, 2]" by blast
  then have "controller_grant_of reg' d = Some view \<and> cgv_grant view = Some g \<and> cg_permissions g = [1, 2]" by simp
  with step show ?thesis by blast
qed

text \<open>
  C32. What the local user sees is what is going on.  At every reachable state the published snapshot names the current
  phase and the current invitation; a Controller and its words to compare are shown exactly while a decision is pending, and
  then they are those of the verified hello; its revision is the coordinator's, which no step ever decreases.
\<close>

theorem pairing_status_truthful:
  assumes "pairing_coordinator_new (pe_crypto env) host = Inr s0"
    and "fst (run_steps (pairing_step env ops) (s0, reg0) xs) = (s, reg)"
    and "fst (run_steps (pairing_step env ops) (s, reg) ys) = (t, reg')"
  shows "hpss_revision (pc_status s) = pc_revision s \<and> pc_revision s \<le> pc_revision t
    \<and> (case pc_active s of
        None \<Rightarrow> hpss_invitation (pc_status s) = None \<and> hpss_pending_controller (pc_status s) = None
          \<and> hpss_state (pc_status s) \<notin> range (\<lambda>ph. host_pairing_state_code (phase_state ph))
      | Some a \<Rightarrow> hpss_state (pc_status s) = host_pairing_state_code (phase_state (ap_phase a))
          \<and> hpss_invitation (pc_status s) = Some (ap_invitation a)
          \<and> (hpss_pending_controller (pc_status s) \<noteq> None \<longleftrightarrow> ap_phase a = ActivePhase_WaitingDecision)
          \<and> (\<forall>ctl. hpss_pending_controller (pc_status s) = Some ctl \<longrightarrow>
               hello_evidence env host a \<and> ap_controller a = Some ctl \<and> hpss_sas_words (pc_status s) = ap_sas_words a))"
proof -
  have inv: "coordinator_inv env host s"
    using pairing.run_inv [of env host "(s0, reg0)" ops xs] inv_new [OF assms(1)] assms(2) by simp
  have "pc_revision s \<le> pc_revision t"
    using pairing.run_rank [of env host "(s, reg)" ops ys] inv assms(3) by simp
  moreover have "status_inv s" using inv by (simp add: coordinator_inv_def)
  moreover have "host_pairing_state_code (phase_state ph) \<noteq> host_pairing_state_code st" if "resting_state st" for st ph
    using that by (auto simp: resting_state_def host_pairing_state.code_inject simp del: host_pairing_state_code.simps)
  moreover have "\<exists>ctl. ap_controller a = Some ctl" "hello_evidence env host a"
    if "pc_active s = Some a" "ap_phase a = ActivePhase_WaitingDecision" for a
    using inv_active [OF inv that(1)] that(2) by (auto simp: active_inv_def hello_evidence_def)
  ultimately show ?thesis
    by (auto simp: status_inv_def simp del: host_pairing_state_code.simps split: option.splits if_splits)
qed

theorem pairing_status_truthful_witness:
  "\<exists>s. fst (run_steps (pairing_step demo_env (memory_store (\<lambda>_. 0))) (demo_new, demo_registry) demo_ops_list) = (s, demo_registry)
     \<and> hpss_pending_controller (pc_status s) \<noteq> None"
proof -
  obtain s where s: "fst (run_steps (pairing_step demo_env (memory_store (\<lambda>_. 0))) (demo_new, demo_registry) demo_ops_list)
      = (s, demo_registry)" "pc_active s = Some demo_pending"
    using demo_run by blast
  have new: "pairing_coordinator_new (pe_crypto demo_env) demo_host = Inr demo_new" using demo_coordinator_new by simp
  have ph: "ap_phase demo_pending = ActivePhase_WaitingDecision" by (simp add: demo_pending_def)
  have "fst (run_steps (pairing_step demo_env (memory_store (\<lambda>_. 0))) (s, demo_registry) []) = (s, demo_registry)" by simp
  from pairing_status_truthful [OF new s(1) this] s ph show ?thesis by auto
qed

text \<open>
  Desktop codes carry all their randomness.  The code drawn from 40 random bits is eight characters that both the
  message validator and the signaling client accept, and different bits give different codes.
\<close>

theorem desktop_code_exact:
  "length (generate_desktop_code w) = 8 \<and> validate_desktop_pairing_code (generate_desktop_code w) = Inr ()
   \<and> validate_pairing_code PairingRendezvousKind_DesktopCode (generate_desktop_code w) = Inr ()
   \<and> (generate_desktop_code w = generate_desktop_code w' \<longleftrightarrow> w = w')"
proof -
  have "list_all is_pairing_code_byte (generate_desktop_code w)"
    using base32_distinct(2,3) five_bits
    by (simp add: generate_desktop_code_def Let_def list_all_length list_all_iff del: upt_Suc upt_rec_numeral)
  moreover have len: "length (generate_desktop_code w) = 8"
    by (simp add: generate_desktop_code_def Let_def del: upt_rec_numeral)
  ultimately show ?thesis
    using desktop_code_inject [of w w'] by (auto simp: validate_desktop_pairing_code_def limits)
qed

end
