(* ===== verification/Session_Registry.thy ===== *)
theory Session_Registry
  imports Wire_Messages Ordered_Map
begin

text \<open>
  The registry of active sessions, \<^verbatim>\<open>crates/host-agent/src/sessions.rs\<close>.  The termination channel is
  the list of events sent on it; sending to a channel without receivers fails and the code
  ignores that.
\<close>

section \<open>Operations\<close>

datatype session_registry_error =
    SessionRegistryError_InvalidIdentity
  | SessionRegistryError_DuplicateSession
  | SessionRegistryError_Unavailable

record session_registry =
  sr_sessions :: "(bytes, bytes) btree mutex"
  sr_terminations :: "session_terminated_event list"

definition session_registry_new :: session_registry where
  "session_registry_new = \<lparr>sr_sessions = Healthy bt_empty, sr_terminations = []\<rparr>"

definition session_register ::
  "session_registry \<Rightarrow> bytes \<Rightarrow> bytes \<Rightarrow> session_registry \<times> (session_registry_error + unit)" where
  "session_register s session_id controller_device_id =
     (if length session_id \<noteq> SESSION_ID_BYTES \<or> length controller_device_id \<noteq> DEVICE_ID_BYTES
      then (s, Inl SessionRegistryError_InvalidIdentity)
      else case sr_sessions s of
        Poisoned _ \<Rightarrow> (s, Inl SessionRegistryError_Unavailable)
      | Healthy sessions \<Rightarrow>
          if bt_get sessions session_id \<noteq> None then (s, Inl SessionRegistryError_DuplicateSession)
          else (s\<lparr>sr_sessions := Healthy (bt_insert session_id controller_device_id sessions)\<rparr>, Inr ()))"

definition terminate_controller ::
  "session_registry \<Rightarrow> bytes
    \<Rightarrow> session_registry \<times> (session_registry_error + session_terminated_event list)" where
  "terminate_controller s controller_device_id =
     (case sr_sessions s of
        Poisoned _ \<Rightarrow> (s, Inl SessionRegistryError_Unavailable)
      | Healthy sessions \<Rightarrow>
          let session_ids = map fst (filter (\<lambda>(_, controller). controller = controller_device_id) sessions);
              remaining = fold bt_remove session_ids sessions;
              events = map (\<lambda>session_id. \<lparr>ste_session_id = session_id,
                  ste_controller_device_id = controller_device_id,
                  ste_reason = error_code_code ErrorCode_AuthRevoked\<rparr>) session_ids
          in (s\<lparr>sr_sessions := Healthy remaining, sr_terminations := sr_terminations s @ events\<rparr>, Inr events))"

definition terminate_all ::
  "session_registry \<Rightarrow> error_code
    \<Rightarrow> session_registry \<times> (session_registry_error + session_terminated_event list)" where
  "terminate_all s reason =
     (case sr_sessions s of
        Poisoned _ \<Rightarrow> (s, Inl SessionRegistryError_Unavailable)
      | Healthy sessions \<Rightarrow>
          let events = map (\<lambda>(session_id, controller_device_id). \<lparr>ste_session_id = session_id,
                ste_controller_device_id = controller_device_id, ste_reason = error_code_code reason\<rparr>) sessions
          in (s\<lparr>sr_sessions := Healthy bt_empty, sr_terminations := sr_terminations s @ events\<rparr>, Inr events))"

definition session_unregister ::
  "session_registry \<Rightarrow> bytes \<Rightarrow> session_registry \<times> (session_registry_error + bool)" where
  "session_unregister s session_id =
     (if length session_id \<noteq> SESSION_ID_BYTES then (s, Inl SessionRegistryError_InvalidIdentity)
      else case sr_sessions s of
        Poisoned _ \<Rightarrow> (s, Inl SessionRegistryError_Unavailable)
      | Healthy sessions \<Rightarrow>
          (s\<lparr>sr_sessions := Healthy (bt_remove session_id sessions)\<rparr>, Inr (bt_get sessions session_id \<noteq> None)))"

definition session_count :: "session_registry \<Rightarrow> session_registry_error + nat" where
  "session_count s = bind_res (lock_or SessionRegistryError_Unavailable (sr_sessions s))
     (\<lambda>sessions. Inr (length sessions))"

section \<open>Lookups\<close>

definition session_owner :: "session_registry \<Rightarrow> bytes \<Rightarrow> bytes option" where
  "session_owner s i = bt_get (locked_value (sr_sessions s)) i"

definition sessions_inv :: "session_registry \<Rightarrow> bool" where
  "sessions_inv s \<longleftrightarrow> bt_ok (locked_value (sr_sessions s))
     \<and> (\<forall>i d. session_owner s i = Some d \<longrightarrow> length i = 16 \<and> length d = 32)"

lemma sessions_inv_new: "sessions_inv session_registry_new"
  by (simp add: sessions_inv_def session_registry_new_def session_owner_def)

lemma fold_bt_remove: "bt_get (fold bt_remove ks m) k = (if k \<in> set ks then None else bt_get m k)"
  by (induction ks arbitrary: m) (auto simp: bt_get_remove)

lemma bt_ok_fold_remove: "bt_ok m \<Longrightarrow> bt_ok (fold bt_remove ks m)"
  by (induction ks arbitrary: m) auto

lemma register_effect:
  assumes "sessions_inv s"
  shows "case snd (session_register s i d) of
      Inl _ \<Rightarrow> fst (session_register s i d) = s
    | Inr _ \<Rightarrow> session_owner s i = None \<and> length i = 16 \<and> length d = 32
        \<and> session_owner (fst (session_register s i d)) = (session_owner s)(i \<mapsto> d)
        \<and> sr_terminations (fst (session_register s i d)) = sr_terminations s"
  using assms
  by (auto simp: session_register_def session_owner_def sessions_inv_def bt_get_insert limits fun_eq_iff
      split: mutex.splits)

lemma terminate_controller_effect:
  assumes "sessions_inv s" and "terminate_controller s d = (s', Inr events)"
  shows "session_owner s' = (\<lambda>i. if session_owner s i = Some d then None else session_owner s i)
    \<and> sr_terminations s' = sr_terminations s @ events
    \<and> ste_session_id ` set events = {i. session_owner s i = Some d}
    \<and> (\<forall>e \<in> set events. ste_controller_device_id e = d \<and> ste_reason e = error_code_code ErrorCode_AuthRevoked)"
proof (cases "sr_sessions s")
  case (Healthy m)
  then have ok: "bt_ok m" using assms(1) by (simp add: sessions_inv_def)
  define ids where "ids = map fst (filter (\<lambda>(_, c). c = d) m)"
  have ids: "set ids = {i. bt_get m i = Some d}"
    by (force simp: ids_def bt_get_Some_iff [OF ok])
  have s': "s' = s\<lparr>sr_sessions := Healthy (fold bt_remove ids m), sr_terminations := sr_terminations s @ events\<rparr>"
    and ev: "events = map (\<lambda>i. \<lparr>ste_session_id = i, ste_controller_device_id = d,
        ste_reason = error_code_code ErrorCode_AuthRevoked\<rparr>) ids"
    using assms(2) by (auto simp: terminate_controller_def Let_def Healthy ids_def simp del: error_code_code.simps)
  have "session_owner s = bt_get m" by (simp add: session_owner_def fun_eq_iff Healthy)
  moreover have "session_owner s' i = (if bt_get m i = Some d then None else bt_get m i)" for i
    by (simp add: s' session_owner_def fold_bt_remove ids)
  moreover have "ste_session_id ` set events = {i. bt_get m i = Some d}"
    by (simp add: ev image_image ids)
  moreover have "\<forall>e \<in> set events. ste_controller_device_id e = d \<and> ste_reason e = error_code_code ErrorCode_AuthRevoked"
    by (simp add: ev del: error_code_code.simps)
  ultimately show ?thesis by (simp add: s' fun_eq_iff)
next
  case (Poisoned m)
  then show ?thesis using assms(2) by (simp add: terminate_controller_def)
qed

lemma terminate_all_effect:
  assumes "sessions_inv s" and "terminate_all s reason = (s', Inr events)"
  shows "session_owner s' = Map.empty \<and> sr_terminations s' = sr_terminations s @ events
    \<and> {(ste_session_id e, ste_controller_device_id e) |e. e \<in> set events} = {(i, d). session_owner s i = Some d}"
proof (cases "sr_sessions s")
  case (Healthy m)
  then have ok: "bt_ok m" using assms(1) by (simp add: sessions_inv_def)
  show ?thesis
    using assms(2) Healthy
    by (force simp: terminate_all_def Let_def session_owner_def bt_get_Some_iff [OF ok])
next
  case (Poisoned m)
  then show ?thesis using assms(2) by (simp add: terminate_all_def)
qed

lemma unregister_effect:
  "session_unregister s i = (s', Inr b) \<Longrightarrow>
     session_owner s' = (session_owner s)(i := None) \<and> b = (session_owner s i \<noteq> None)
     \<and> sr_terminations s' = sr_terminations s"
  by (auto simp: session_unregister_def session_owner_def bt_get_remove fun_eq_iff split: if_splits mutex.splits)

section \<open>The registry as a machine\<close>

datatype session_op =
    RegisterSession bytes bytes
  | TerminateController bytes
  | TerminateAll error_code
  | UnregisterSession bytes

datatype session_out =
    Registered "session_registry_error + unit"
  | Terminated "session_registry_error + session_terminated_event list"
  | Unregistered "session_registry_error + bool"

fun session_step :: "session_registry \<Rightarrow> session_op \<Rightarrow> session_registry \<times> session_out" where
  "session_step s (RegisterSession i d) = map_prod id Registered (session_register s i d)"
| "session_step s (TerminateController d) = map_prod id Terminated (terminate_controller s d)"
| "session_step s (TerminateAll reason) = map_prod id Terminated (terminate_all s reason)"
| "session_step s (UnregisterSession i) = map_prod id Unregistered (session_unregister s i)"

interpretation sessions: machine session_step sessions_inv
proof
  fix s a
  assume inv: "sessions_inv s"
  show "sessions_inv (fst (session_step s a))"
  proof (cases a)
    case (RegisterSession i d)
    then show ?thesis
      using inv by (auto simp: session_register_def sessions_inv_def session_owner_def bt_get_insert limits
          split: mutex.splits if_splits)
  next
    case (TerminateController d)
    then show ?thesis
      using inv by (auto simp: terminate_controller_def Let_def sessions_inv_def session_owner_def fold_bt_remove
          bt_ok_fold_remove split: mutex.splits)
  next
    case (TerminateAll reason)
    then show ?thesis
      using inv by (auto simp: terminate_all_def Let_def sessions_inv_def session_owner_def split: mutex.splits)
  next
    case (UnregisterSession i)
    then show ?thesis
      using inv by (auto simp: session_unregister_def sessions_inv_def session_owner_def bt_get_remove
          split: mutex.splits if_splits)
  qed
qed

end
