(* ===== verification/Host_Service.thy ===== *)
theory Host_Service
  imports Host_Pairing Session_Registry
begin

text \<open>
  The Host service, \<^verbatim>\<open>crates/host-agent/src/service.rs\<close>: the object behind the local IPC socket that owns the
  identity, the authorization registry, the active sessions, the published statuses and the pairing coordinator,
  each behind its own mutex.  The broadcast channel of pairing snapshots is the list of snapshots sent on it, and the
  \<^verbatim>\<open>Notify\<close> that wakes the pairing loop is the permit it stores.  Randomness, cryptography and the grant store
  are the parameters of the components below.
\<close>

section \<open>State\<close>

definition SERVICE_PROTOCOL_MAJOR_VERSION :: u32 where
  [limits]: "SERVICE_PROTOCOL_MAJOR_VERSION = 1"

definition SERVICE_PROTOCOL_MINOR_VERSION :: u32 where
  [limits]: "SERVICE_PROTOCOL_MINOR_VERSION = 0"

datatype bridge_status_error =
    BridgeStatusError_InvalidStatus
  | BridgeStatusError_StaleGeneration
  | BridgeStatusError_Unavailable

record 's host_service =
  sv_identity :: host_identity
  sv_authorization :: "'s authorization_registry mutex"
  sv_sessions :: session_registry
  sv_remote_status :: "remote_session_status_snapshot mutex"
  sv_bridge_status :: "privileged_bridge_status_snapshot mutex"
  sv_bridge_generation :: "u64 mutex"
  sv_pairing :: "pairing_coordinator mutex"
  sv_pairing_events :: "host_pairing_status_snapshot list"
  sv_pairing_activity :: bool
  sv_instance_id :: bytes
  sv_started_at_unix_ms :: u64

datatype remote_service_error =
    RemoteServiceError_Authentication session_authentication_error
  | RemoteServiceError_Authorization
  | RemoteServiceError_Identity
  | RemoteServiceError_Session
  | RemoteServiceError_InvalidStatus
  | RemoteServiceError_Unavailable

datatype service_error =
    ServiceError_InvalidRequest
  | ServiceError_Authorization authorization_error
  | ServiceError_Identity
  | ServiceError_Pairing pairing_coordinator_error
  | ServiceError_Session
  | ServiceError_Internal

text \<open>The table of \<^verbatim>\<open>to_unified_error\<close>: code, message key, retryable.\<close>

fun error_row :: "service_error \<Rightarrow> error_code \<times> string \<times> bool" where
  "error_row ServiceError_InvalidRequest = (ErrorCode_InvalidRequest, ''local_ipc.invalid_request'', False)"
| "error_row (ServiceError_Authorization AuthorizationError_GrantNotFound) =
     (ErrorCode_AuthRevoked, ''local_ipc.grant_not_found'', False)"
| "error_row (ServiceError_Authorization (AuthorizationError_Store _)) =
     (ErrorCode_ServerUnavailable, ''local_ipc.temporarily_unavailable'', True)"
| "error_row ServiceError_Internal = (ErrorCode_ServerUnavailable, ''local_ipc.temporarily_unavailable'', True)"
| "error_row (ServiceError_Pairing (PairingCoordinatorError_Authorization (AuthorizationError_Store _))) =
     (ErrorCode_ServerUnavailable, ''local_ipc.temporarily_unavailable'', True)"
| "error_row (ServiceError_Pairing (PairingCoordinatorError_Random _)) =
     (ErrorCode_ServerUnavailable, ''local_ipc.temporarily_unavailable'', True)"
| "error_row (ServiceError_Authorization _) = (ErrorCode_InvalidRequest, ''local_ipc.invalid_grant'', False)"
| "error_row ServiceError_Identity = (ErrorCode_AuthInvalid, ''local_ipc.invalid_transcript'', False)"
| "error_row (ServiceError_Pairing PairingCoordinatorError_Expired) =
     (ErrorCode_PairingCodeExpired, ''local_ipc.pairing_expired'', False)"
| "error_row (ServiceError_Pairing PairingCoordinatorError_Authentication) =
     (ErrorCode_AuthInvalid, ''local_ipc.pairing_authentication_failed'', False)"
| "error_row (ServiceError_Pairing _) = (ErrorCode_InvalidRequest, ''local_ipc.invalid_pairing_state'', False)"
| "error_row ServiceError_Session = (ErrorCode_InvalidRequest, ''local_ipc.invalid_session'', False)"

definition to_unified_error :: "service_error \<Rightarrow> string \<Rightarrow> unified_error" where
  "to_unified_error e request_id =
     (let (code, message_key, retryable) = error_row e
      in \<lparr>ue_code = error_code_code code, ue_message_key = message_key, ue_retryable = retryable,
          ue_request_id = request_id, ue_details = None\<rparr>)"

definition service_protocol_version :: protocol_version where
  "service_protocol_version = \<lparr>pv_major = SERVICE_PROTOCOL_MAJOR_VERSION, pv_minor = SERVICE_PROTOCOL_MINOR_VERSION\<rparr>"

definition idle_remote_status :: remote_session_status_snapshot where
  "idle_remote_status = \<lparr>rsss_session_status = Some \<lparr>sst_session_id = [],
     sst_state = session_state_code SessionState_Idle, sst_error = None\<rparr>, rsss_controller_device_id = []\<rparr>"

definition user_session_only_bridge_status :: privileged_bridge_status_snapshot where
  "user_session_only_bridge_status = \<lparr>pbss_state = privileged_bridge_state_code PrivilegedBridgeState_UserSessionOnly,
     pbss_interactive_session = None, pbss_helper_connected = False, pbss_active_controller_display_name = [],
     pbss_error = None\<rparr>"

text \<open>\<^verbatim>\<open>from_validated_host\<close> panics when the coordinator refuses the identity; that is \<open>None\<close>.\<close>

definition from_validated_host :: "crypto \<Rightarrow> device_identity \<Rightarrow> pairing_coordinator option" where
  "from_validated_host c host =
     (case pairing_coordinator_new c host of Inr coordinator \<Rightarrow> Some coordinator | Inl _ \<Rightarrow> None)"

definition host_service_new ::
  "crypto \<Rightarrow> host_identity \<Rightarrow> 's authorization_registry \<Rightarrow> 128 word \<Rightarrow> u64 \<Rightarrow> 's host_service option" where
  "host_service_new c identity authorization instance_id started_at_unix_ms =
     map_option (\<lambda>pairing. \<lparr>sv_identity = identity, sv_authorization = Healthy authorization,
         sv_sessions = session_registry_new, sv_remote_status = Healthy idle_remote_status,
         sv_bridge_status = Healthy user_session_only_bridge_status, sv_bridge_generation = Healthy 0,
         sv_pairing = Healthy pairing, sv_pairing_events = [], sv_pairing_activity = False,
         sv_instance_id = be_bytes 16 (unat instance_id), sv_started_at_unix_ms = started_at_unix_ms\<rparr>)
       (from_validated_host c (hi_device_identity identity))"

section \<open>Sessions and statuses\<close>

definition register_active_session ::
  "'s host_service \<Rightarrow> bytes \<Rightarrow> bytes \<Rightarrow> 's host_service \<times> (session_registry_error + unit)" where
  "register_active_session sv session_id controller_device_id =
     (let (sessions, r) = session_register (sv_sessions sv) session_id controller_device_id
      in (sv\<lparr>sv_sessions := sessions\<rparr>, r))"

definition unregister_active_session ::
  "'s host_service \<Rightarrow> bytes \<Rightarrow> 's host_service \<times> (remote_service_error + unit)" where
  "unregister_active_session sv session_id =
     (let (sessions, r) = session_unregister (sv_sessions sv) session_id
      in (sv\<lparr>sv_sessions := sessions\<rparr>, map_err (\<lambda>_. RemoteServiceError_Session) (unit_result r)))"

definition active_session_count :: "'s host_service \<Rightarrow> nat" where
  "active_session_count sv = (case session_count (sv_sessions sv) of Inl _ \<Rightarrow> 0 | Inr n \<Rightarrow> n)"

text \<open>The display name of a controlled snapshot comes from the permanent grant, never from the bridge.\<close>

definition resolve_controller_name ::
  "'s host_service \<Rightarrow> privileged_bridge_state \<Rightarrow> privileged_bridge_status_snapshot \<Rightarrow> bytes option
    \<Rightarrow> bridge_status_error + privileged_bridge_status_snapshot" where
  "resolve_controller_name sv state snapshot controller_device_id =
     (if state = PrivilegedBridgeState_Controlled then
        bind_res (ok_or BridgeStatusError_InvalidStatus controller_device_id) (\<lambda>controller_device_id.
        bind_res (lock_or BridgeStatusError_Unavailable (sv_authorization sv)) (\<lambda>authorization.
        bind_res (ok_or BridgeStatusError_InvalidStatus
            (map_option di_display_name (find (\<lambda>controller. di_device_id controller = controller_device_id)
              (List.map_filter cg_controller (List.map_filter cgv_grant (list_controller_grants authorization))))))
          (\<lambda>name. Inr (snapshot\<lparr>pbss_active_controller_display_name := name\<rparr>))))
      else if controller_device_id \<noteq> None then Inl BridgeStatusError_InvalidStatus
      else Inr snapshot)"

definition snapshot_generation :: "privileged_bridge_status_snapshot \<Rightarrow> u64" where
  "snapshot_generation snapshot =
     (case pbss_interactive_session snapshot of None \<Rightarrow> 0 | Some session \<Rightarrow> psd_generation session)"

definition update_privileged_bridge_status ::
  "'s host_service \<Rightarrow> privileged_bridge_status_snapshot \<Rightarrow> bytes option
    \<Rightarrow> 's host_service \<times> (bridge_status_error + unit)" where
  "update_privileged_bridge_status sv snapshot controller_device_id =
     (if pbss_active_controller_display_name snapshot \<noteq> [] then (sv, Inl BridgeStatusError_InvalidStatus)
      else case bind_res (ok_or BridgeStatusError_InvalidStatus (privileged_bridge_state_of (pbss_state snapshot)))
                  (\<lambda>state. resolve_controller_name sv state snapshot controller_device_id) of
        Inl e \<Rightarrow> (sv, Inl e)
      | Inr resolved \<Rightarrow>
          if validate_privileged_bridge_status_snapshot resolved \<noteq> Inr () then (sv, Inl BridgeStatusError_InvalidStatus)
          else case sv_bridge_generation sv of
            Poisoned _ \<Rightarrow> (sv, Inl BridgeStatusError_Unavailable)
          | Healthy generation \<Rightarrow>
              if snapshot_generation resolved \<noteq> 0 \<and> snapshot_generation resolved < generation
              then (sv, Inl BridgeStatusError_StaleGeneration)
              else case sv_bridge_status sv of
                Poisoned _ \<Rightarrow> (sv, Inl BridgeStatusError_Unavailable)
              | Healthy _ \<Rightarrow>
                  (sv\<lparr>sv_bridge_generation := Healthy (if snapshot_generation resolved \<noteq> 0
                        then snapshot_generation resolved else generation),
                      sv_bridge_status := Healthy resolved\<rparr>, Inr ()))"

definition update_remote_status ::
  "'s host_service \<Rightarrow> bytes \<Rightarrow> bytes \<Rightarrow> session_state \<Rightarrow> unified_error option
    \<Rightarrow> 's host_service \<times> (remote_service_error + unit)" where
  "update_remote_status sv session_id controller_device_id state error =
     (let snapshot = \<lparr>rsss_session_status = Some \<lparr>sst_session_id = session_id,
            sst_state = session_state_code state, sst_error = error\<rparr>,
            rsss_controller_device_id = controller_device_id\<rparr>
      in if validate_remote_session_status_snapshot snapshot \<noteq> Inr () then (sv, Inl RemoteServiceError_InvalidStatus)
         else case sv_remote_status sv of
           Poisoned _ \<Rightarrow> (sv, Inl RemoteServiceError_Unavailable)
         | Healthy _ \<Rightarrow> (sv\<lparr>sv_remote_status := Healthy snapshot\<rparr>, Inr ()))"

section \<open>Pairing\<close>

definition publish_pairing_snapshot :: "u64 \<Rightarrow> pairing_coordinator \<Rightarrow> 's host_service \<Rightarrow> 's host_service" where
  "publish_pairing_snapshot previous_revision pairing sv =
     (if pc_revision pairing \<noteq> previous_revision
      then sv\<lparr>sv_pairing_events := sv_pairing_events sv @ [pc_status pairing], sv_pairing_activity := True\<rparr>
      else if has_outbound pairing then sv\<lparr>sv_pairing_activity := True\<rparr> else sv)"

text \<open>The shape shared by the pairing operations: lock, remember the revision, run the coordinator, publish.\<close>

definition with_pairing ::
  "'s host_service \<Rightarrow> (pairing_coordinator \<Rightarrow> 'a pairing_result)
    \<Rightarrow> 's host_service \<times> (pairing_coordinator_error + 'a)" where
  "with_pairing sv f =
     (case sv_pairing sv of
        Poisoned _ \<Rightarrow> (sv, Inl PairingCoordinatorError_InvalidState)
      | Healthy pairing \<Rightarrow>
          let (pairing', r) = f pairing
          in (publish_pairing_snapshot (pc_revision pairing) pairing' (sv\<lparr>sv_pairing := Healthy pairing'\<rparr>), r))"

definition service_signaling_connected ::
  "'s host_service \<Rightarrow> 's host_service \<times> (pairing_coordinator_error + unit)" where
  "service_signaling_connected sv =
     (case sv_pairing sv of
        Poisoned _ \<Rightarrow> (sv, Inl PairingCoordinatorError_InvalidState)
      | Healthy pairing \<Rightarrow> (sv\<lparr>sv_pairing := Healthy (pairing_signaling_connected pairing)\<rparr>, Inr ()))"

definition service_signaling_lost ::
  "'s host_service \<Rightarrow> 's host_service \<times> (pairing_coordinator_error + unit)" where
  "service_signaling_lost sv = with_pairing sv (\<lambda>pairing. (pairing_signaling_lost pairing, Inr ()))"

definition service_pairing_shutdown ::
  "'s host_service \<Rightarrow> 's host_service \<times> (pairing_coordinator_error + unit)" where
  "service_pairing_shutdown sv = with_pairing sv (\<lambda>pairing. (pairing_shutdown pairing, Inr ()))"

definition handle_pairing_signaling_event ::
  "pairing_env \<Rightarrow> 's host_service \<Rightarrow> signaling_event \<Rightarrow> u64
    \<Rightarrow> 's host_service \<times> (pairing_coordinator_error + unit)" where
  "handle_pairing_signaling_event env sv event now_unix_ms =
     with_pairing sv (\<lambda>pairing. handle_signaling_event env pairing event (sv_identity sv) now_unix_ms)"

text \<open>The outbound queue is taken after the publication, so publishing still sees what is queued.\<close>

definition poll_pairing_outbound ::
  "'s host_service \<Rightarrow> u64 \<Rightarrow> 's host_service \<times> (pairing_coordinator_error + pairing_outbound list)" where
  "poll_pairing_outbound sv now_unix_ms =
     (case sv_pairing sv of
        Poisoned _ \<Rightarrow> (sv, Inl PairingCoordinatorError_InvalidState)
      | Healthy pairing \<Rightarrow>
          let ticked = pairing_tick pairing now_unix_ms;
              (drained, out) = take_outbound ticked
          in ((publish_pairing_snapshot (pc_revision pairing) ticked sv)\<lparr>sv_pairing := Healthy drained\<rparr>, Inr out))"

definition host_pairing_status ::
  "'s host_service \<Rightarrow> pairing_coordinator_error + host_pairing_status_snapshot" where
  "host_pairing_status sv = bind_res (lock_or PairingCoordinatorError_InvalidState (sv_pairing sv))
     (\<lambda>pairing. Inr (pc_status pairing))"

definition start_host_pairing ::
  "pairing_env \<Rightarrow> pairing_draws \<Rightarrow> 's host_service \<Rightarrow> pairing_invitation_kind \<Rightarrow> string \<Rightarrow> u64
    \<Rightarrow> 's host_service \<times> (pairing_coordinator_error + host_pairing_status_snapshot)" where
  "start_host_pairing env dr sv kind signaling_endpoint now_unix_ms =
     with_pairing sv (\<lambda>pairing. pairing_start env dr pairing kind signaling_endpoint now_unix_ms)"

definition accept_host_pairing ::
  "pairing_env \<Rightarrow> 's grant_store_ops \<Rightarrow> (nat \<Rightarrow> 128 word option) \<Rightarrow> 's host_service \<Rightarrow> bytes \<Rightarrow> bytes \<Rightarrow> u64
    \<Rightarrow> 's host_service \<times> (pairing_coordinator_error + unit)" where
  "accept_host_pairing env ops draw sv rendezvous_id controller_device_id now_unix_ms =
     (case (sv_pairing sv, sv_authorization sv) of
        (Healthy pairing, Healthy authorization) \<Rightarrow>
          let (pairing', authorization', r) =
                pairing_accept env ops draw pairing authorization rendezvous_id controller_device_id now_unix_ms
          in (publish_pairing_snapshot (pc_revision pairing) pairing'
                (sv\<lparr>sv_pairing := Healthy pairing', sv_authorization := Healthy authorization'\<rparr>), r)
      | _ \<Rightarrow> (sv, Inl PairingCoordinatorError_InvalidState))"

definition reject_host_pairing ::
  "pairing_env \<Rightarrow> 's host_service \<Rightarrow> bytes \<Rightarrow> bytes \<Rightarrow> u64
    \<Rightarrow> 's host_service \<times> (pairing_coordinator_error + unit)" where
  "reject_host_pairing env sv rendezvous_id controller_device_id now_unix_ms =
     with_pairing sv (\<lambda>pairing. pairing_reject env pairing rendezvous_id controller_device_id now_unix_ms)"

definition cancel_host_pairing ::
  "'s host_service \<Rightarrow> bytes \<Rightarrow> 's host_service \<times> (pairing_coordinator_error + unit)" where
  "cancel_host_pairing sv rendezvous_id = with_pairing sv (\<lambda>pairing. pairing_cancel pairing rendezvous_id)"

text \<open>\<^verbatim>\<open>notified().await\<close>: pending until there is a permit, which it consumes.\<close>

definition pairing_activity :: "'s host_service \<Rightarrow> 's host_service option" where
  "pairing_activity sv = (if sv_pairing_activity sv then Some (sv\<lparr>sv_pairing_activity := False\<rparr>) else None)"

definition pairing_deadline_unix_ms :: "'s host_service \<Rightarrow> pairing_coordinator_error + u64 option" where
  "pairing_deadline_unix_ms sv = bind_res (lock_or PairingCoordinatorError_InvalidState (sv_pairing sv))
     (\<lambda>pairing. Inr (pairing_deadline pairing))"

section \<open>Authorization and signatures\<close>

text \<open>Running one operation of the registry under its mutex; \<open>e\<close> is what a poisoned lock is mapped to.\<close>

definition with_authorization ::
  "'e \<Rightarrow> 's host_service \<Rightarrow> ('s authorization_registry \<Rightarrow> 's authorization_registry \<times> ('e + 'a))
    \<Rightarrow> 's host_service \<times> ('e + 'a)" where
  "with_authorization e sv f =
     (case sv_authorization sv of
        Poisoned _ \<Rightarrow> (sv, Inl e)
      | Healthy authorization \<Rightarrow>
          let (authorization', r) = f authorization in (sv\<lparr>sv_authorization := Healthy authorization'\<rparr>, r))"

definition create_controller_grant_for_maintenance ::
  "pairing_env \<Rightarrow> 's grant_store_ops \<Rightarrow> (nat \<Rightarrow> 128 word option) \<Rightarrow> 's host_service \<Rightarrow> device_identity
    \<Rightarrow> session_permission list \<Rightarrow> u64 \<Rightarrow> 's host_service \<times> (authorization_error + controller_grant_view)" where
  "create_controller_grant_for_maintenance env ops draw sv controller permissions now_unix_ms =
     with_authorization (AuthorizationError_Store GrantStoreError_Io) sv (\<lambda>authorization.
       create_controller_grant (pe_crypto env) ops draw authorization controller permissions now_unix_ms)"

definition verify_remote_offer ::
  "crypto \<Rightarrow> 's host_service \<Rightarrow> offer_verifier \<Rightarrow> session_offer_authentication \<Rightarrow> string \<Rightarrow> bytes \<Rightarrow> u64
    \<Rightarrow> offer_verifier \<times> (remote_service_error + verified_session_offer)" where
  "verify_remote_offer c sv verifier authentication offer_sdp controller_fingerprint now_unix_ms =
     (case sv_authorization sv of
        Poisoned _ \<Rightarrow> (verifier, Inl RemoteServiceError_Unavailable)
      | Healthy authorization \<Rightarrow>
          smap_err RemoteServiceError_Authentication
            (offer_verify c verifier authentication offer_sdp controller_fingerprint authorization now_unix_ms))"

text \<open>The struct literals of \<^verbatim>\<open>sign_remote_answer\<close> and \<^verbatim>\<open>sign_remote_reconnect\<close>, before they are signed.\<close>

definition unsigned_answer ::
  "crypto \<Rightarrow> session_offer_authentication \<Rightarrow> string \<Rightarrow> bytes \<Rightarrow> session_answer_authentication" where
  "unsigned_answer c offer answer_sdp host_fingerprint =
     \<lparr>saa_controller_device_id = soa_controller_device_id offer,
      saa_host_device_id = soa_host_device_id offer, saa_session_id = soa_session_id offer,
      saa_nonce = soa_nonce offer, saa_issued_at_unix_ms = soa_issued_at_unix_ms offer,
      saa_expires_at_unix_ms = soa_expires_at_unix_ms offer,
      saa_requested_permissions = soa_requested_permissions offer,
      saa_offer_sha256 = soa_offer_sha256 offer,
      saa_controller_dtls_fingerprint_sha256 = soa_controller_dtls_fingerprint_sha256 offer,
      saa_answer_sha256 = sha256 c (as_bytes answer_sdp),
      saa_host_dtls_fingerprint_sha256 = host_fingerprint, saa_signature = []\<rparr>"

definition unsigned_reconnect ::
  "crypto \<Rightarrow> session_offer_authentication \<Rightarrow> string \<Rightarrow> bytes \<Rightarrow> u32 \<Rightarrow> session_reconnect_authentication" where
  "unsigned_reconnect c offer answer_sdp host_fingerprint reconnect_generation =
     \<lparr>sra_controller_device_id = soa_controller_device_id offer,
      sra_host_device_id = soa_host_device_id offer, sra_session_id = soa_session_id offer,
      sra_nonce = soa_nonce offer, sra_issued_at_unix_ms = soa_issued_at_unix_ms offer,
      sra_expires_at_unix_ms = soa_expires_at_unix_ms offer,
      sra_requested_permissions = soa_requested_permissions offer,
      sra_offer_sha256 = soa_offer_sha256 offer,
      sra_controller_dtls_fingerprint_sha256 = soa_controller_dtls_fingerprint_sha256 offer,
      sra_answer_sha256 = sha256 c (as_bytes answer_sdp),
      sra_host_dtls_fingerprint_sha256 = host_fingerprint,
      sra_reconnect_generation = reconnect_generation, sra_signature = []\<rparr>"

definition sign_remote_answer ::
  "pairing_env \<Rightarrow> 's host_service \<Rightarrow> session_offer_authentication \<Rightarrow> string \<Rightarrow> bytes
    \<Rightarrow> remote_service_error + session_answer_authentication" where
  "sign_remote_answer env sv offer answer_sdp host_fingerprint =
     (let answer = unsigned_answer (pe_crypto env) offer answer_sdp host_fingerprint
      in bind_res (map_err RemoteServiceError_Authentication (encode_session_answer_transcript answer)) (\<lambda>transcript.
         bind_res (map_err (\<lambda>_. RemoteServiceError_Identity)
           (sign_canonical_transcript (pe_crypto env) (pe_signer env) (sv_identity sv) transcript)) (\<lambda>signature.
         Inr (answer\<lparr>saa_signature := cts_signature signature\<rparr>))))"

definition sign_remote_reconnect ::
  "pairing_env \<Rightarrow> 's host_service \<Rightarrow> session_offer_authentication \<Rightarrow> string \<Rightarrow> bytes \<Rightarrow> u32
    \<Rightarrow> remote_service_error + session_reconnect_authentication" where
  "sign_remote_reconnect env sv offer answer_sdp host_fingerprint reconnect_generation =
     (let reconnect = unsigned_reconnect (pe_crypto env) offer answer_sdp host_fingerprint reconnect_generation
      in bind_res (map_err RemoteServiceError_Authentication (encode_session_reconnect_transcript reconnect)) (\<lambda>transcript.
         bind_res (map_err (\<lambda>_. RemoteServiceError_Identity)
           (sign_canonical_transcript (pe_crypto env) (pe_signer env) (sv_identity sv) transcript)) (\<lambda>signature.
         Inr (reconnect\<lparr>sra_signature := cts_signature signature\<rparr>))))"

definition record_authenticated_remote_session ::
  "'s grant_store_ops \<Rightarrow> 's host_service \<Rightarrow> bytes \<Rightarrow> u64 \<Rightarrow> 's host_service \<times> (remote_service_error + unit)" where
  "record_authenticated_remote_session ops sv controller_device_id now_unix_ms =
     with_authorization RemoteServiceError_Unavailable sv (\<lambda>authorization.
       let (authorization', r) = record_authenticated_session ops authorization controller_device_id now_unix_ms
       in (authorization', map_err (\<lambda>_. RemoteServiceError_Authorization) (unit_result r)))"

section \<open>Requests of the local client\<close>

definition u32_try_from :: "nat \<Rightarrow> u32 option" where
  "u32_try_from n = (if n < 2 ^ 32 then Some (word_of_nat n) else None)"

definition host_status_payload :: "'s host_service \<Rightarrow> service_error + local_ipc_server_frame_payload" where
  "host_status_payload sv =
     bind_res (lock_or ServiceError_Internal (sv_authorization sv)) (\<lambda>authorization.
     bind_res (ok_or ServiceError_Internal (u32_try_from (length (list_controller_grants authorization)))) (\<lambda>grant_count.
     bind_res (lock_or ServiceError_Internal (sv_bridge_status sv)) (\<lambda>bridge.
     Inr (LocalIpcServerFrame_HostStatus \<lparr>hs_identity = Some (hi_device_identity (sv_identity sv)),
       hs_agent_instance_id = sv_instance_id sv, hs_agent_started_at_unix_ms = sv_started_at_unix_ms sv,
       hs_controller_grant_count = grant_count, hs_privileged_bridge = Some bridge\<rparr>))))"

definition stopped_bridge_status :: "privileged_bridge_status_snapshot \<Rightarrow> privileged_bridge_status_snapshot" where
  "stopped_bridge_status bridge =
     (if pbss_interactive_session bridge \<noteq> None \<and> pbss_helper_connected bridge
      then bridge\<lparr>pbss_state := privileged_bridge_state_code PrivilegedBridgeState_Ready,
             pbss_active_controller_display_name := [], pbss_error := None\<rparr>
      else user_session_only_bridge_status)"

definition emergency_stop ::
  "'s host_service \<Rightarrow> 's host_service \<times> (service_error + local_ipc_server_frame_payload)" where
  "emergency_stop sv =
     (case terminate_all (sv_sessions sv) ErrorCode_LocalEmergencyStop of
        (sessions, Inl _) \<Rightarrow> (sv\<lparr>sv_sessions := sessions\<rparr>, Inl ServiceError_Session)
      | (sessions, Inr terminated) \<Rightarrow>
          let sv1 = sv\<lparr>sv_sessions := sessions\<rparr>
          in case sv_remote_status sv1 of
               Poisoned _ \<Rightarrow> (sv1, Inl ServiceError_Internal)
             | Healthy _ \<Rightarrow>
                 let sv2 = sv1\<lparr>sv_remote_status := Healthy idle_remote_status\<rparr>
                 in case sv_bridge_status sv2 of
                      Poisoned _ \<Rightarrow> (sv2, Inl ServiceError_Internal)
                    | Healthy bridge \<Rightarrow>
                        (sv2\<lparr>sv_bridge_status := Healthy (stopped_bridge_status bridge)\<rparr>,
                         bind_res (ok_or ServiceError_Internal (u32_try_from (length terminated))) (\<lambda>n.
                           Inr (LocalIpcServerFrame_EmergencyStopRemoteSessionResult
                             \<lparr>esrsr2_terminated_session_count = n\<rparr>))))"

definition revoke ::
  "'s grant_store_ops \<Rightarrow> 's host_service \<Rightarrow> bytes
    \<Rightarrow> 's host_service \<times> (service_error + local_ipc_server_frame_payload)" where
  "revoke ops sv grant_id =
     sbind (with_authorization ServiceError_Internal sv (\<lambda>authorization.
         smap_err ServiceError_Authorization (revoke_controller_grant ops authorization grant_id))) (\<lambda>sv1 revoked.
     case controller_device_id_for revoked of
       None \<Rightarrow> (sv1, Inl ServiceError_Internal)
     | Some controller_device_id \<Rightarrow>
         (case terminate_controller (sv_sessions sv1) controller_device_id of
            (sessions, Inl _) \<Rightarrow> (sv1\<lparr>sv_sessions := sessions\<rparr>, Inl ServiceError_Session)
          | (sessions, Inr terminated) \<Rightarrow>
              (sv1\<lparr>sv_sessions := sessions\<rparr>,
               bind_res (ok_or ServiceError_Internal (u32_try_from (length terminated))) (\<lambda>n.
                 Inr (LocalIpcServerFrame_ControllerGrantRevoked
                   \<lparr>cgr_grant_id = grant_id, cgr_terminated_session_count = n\<rparr>)))))"

definition pairing_status_payload :: "'s host_service \<Rightarrow> service_error + local_ipc_server_frame_payload" where
  "pairing_status_payload sv = bind_res (map_err ServiceError_Pairing (host_pairing_status sv))
     (\<lambda>status. Inr (LocalIpcServerFrame_HostPairingStatus status))"

text \<open>What the parameters of one request are: the random draws it may make.\<close>

record request_draws =
  rd_pairing :: pairing_draws
  rd_grant_id :: "nat \<Rightarrow> 128 word option"

definition then_pairing_status ::
  "'s host_service \<times> (pairing_coordinator_error + unit)
    \<Rightarrow> 's host_service \<times> (service_error + local_ipc_server_frame_payload)" where
  "then_pairing_status m = sbind (smap_err ServiceError_Pairing m) (\<lambda>sv _. (sv, pairing_status_payload sv))"

definition handle_pairing_payload ::
  "pairing_env \<Rightarrow> 's grant_store_ops \<Rightarrow> request_draws \<Rightarrow> 's host_service \<Rightarrow> local_ipc_client_frame_payload \<Rightarrow> u64
    \<Rightarrow> 's host_service \<times> (service_error + local_ipc_server_frame_payload)" where
  "handle_pairing_payload env ops dr sv payload now_unix_ms =
     (case payload of
        LocalIpcClientFrame_StartHostQrPairing request \<Rightarrow>
          sbind (smap_err ServiceError_Pairing (start_host_pairing env (rd_pairing dr) sv PairingInvitationKind_Qr
              (shqpr_signaling_endpoint request) now_unix_ms))
            (\<lambda>sv' status. (sv', Inr (LocalIpcServerFrame_HostPairingStatus status)))
      | LocalIpcClientFrame_StartHostDesktopCodePairing request \<Rightarrow>
          sbind (smap_err ServiceError_Pairing (start_host_pairing env (rd_pairing dr) sv
              PairingInvitationKind_DesktopCode (shdcpr_signaling_endpoint request) now_unix_ms))
            (\<lambda>sv' status. (sv', Inr (LocalIpcServerFrame_HostPairingStatus status)))
      | LocalIpcClientFrame_CancelHostPairing request \<Rightarrow>
          then_pairing_status (cancel_host_pairing sv (chpr_rendezvous_id request))
      | LocalIpcClientFrame_GetHostPairingStatus _ \<Rightarrow>
          smap_err (\<lambda>_. ServiceError_Internal) (with_pairing sv (\<lambda>pairing.
            let ticked = pairing_tick pairing now_unix_ms
            in (ticked, Inr (LocalIpcServerFrame_HostPairingStatus (pc_status ticked)))))
      | LocalIpcClientFrame_AcceptHostPairing request \<Rightarrow>
          then_pairing_status (accept_host_pairing env ops (rd_grant_id dr) sv (ahpr_rendezvous_id request)
            (ahpr_controller_device_id request) now_unix_ms)
      | LocalIpcClientFrame_RejectHostPairing request \<Rightarrow>
          then_pairing_status (reject_host_pairing env sv (rhpr_rendezvous_id request)
            (rhpr_controller_device_id request) now_unix_ms)
      | _ \<Rightarrow> (sv, Inl ServiceError_InvalidRequest))"

definition parse_permissions :: "i32 list \<Rightarrow> service_error + session_permission list" where
  "parse_permissions values =
     (if list_ex (\<lambda>value. session_permission_of value = None) values then Inl ServiceError_InvalidRequest
      else Inr (List.map_filter session_permission_of values))"

definition create_grant_payload ::
  "pairing_env \<Rightarrow> 's grant_store_ops \<Rightarrow> request_draws \<Rightarrow> 's host_service \<Rightarrow> create_controller_grant_request \<Rightarrow> u64
    \<Rightarrow> 's host_service \<times> (service_error + local_ipc_server_frame_payload)" where
  "create_grant_payload env ops dr sv request now_unix_ms =
     (case ccgr_controller request of
        None \<Rightarrow> (sv, Inl ServiceError_InvalidRequest)
      | Some controller \<Rightarrow>
          (case parse_permissions (ccgr_permissions request) of
             Inl e \<Rightarrow> (sv, Inl e)
           | Inr permissions \<Rightarrow>
               sbind (with_authorization ServiceError_Internal sv (\<lambda>authorization.
                   smap_err ServiceError_Authorization (create_controller_grant (pe_crypto env) ops (rd_grant_id dr)
                     authorization controller permissions now_unix_ms)))
                 (\<lambda>sv' grant. (sv', Inr (LocalIpcServerFrame_ControllerGrantCreated \<lparr>cgc_grant = Some grant\<rparr>)))))"

definition handle_payload ::
  "pairing_env \<Rightarrow> 's grant_store_ops \<Rightarrow> request_draws \<Rightarrow> 's host_service \<Rightarrow> local_ipc_client_frame_payload \<Rightarrow> u64
    \<Rightarrow> 's host_service \<times> (service_error + local_ipc_server_frame_payload)" where
  "handle_payload env ops dr sv payload now_unix_ms =
     (case payload of
        LocalIpcClientFrame_Authenticate _ \<Rightarrow> (sv, Inl ServiceError_InvalidRequest)
      | LocalIpcClientFrame_GetHostStatus _ \<Rightarrow> (sv, host_status_payload sv)
      | LocalIpcClientFrame_ListControllerGrants _ \<Rightarrow>
          (sv, bind_res (lock_or ServiceError_Internal (sv_authorization sv)) (\<lambda>authorization.
             Inr (LocalIpcServerFrame_ControllerGrantList \<lparr>cgl_grants = list_controller_grants authorization\<rparr>)))
      | LocalIpcClientFrame_CreateControllerGrant request \<Rightarrow> create_grant_payload env ops dr sv request now_unix_ms
      | LocalIpcClientFrame_SignCanonicalTranscript request \<Rightarrow>
          (sv, bind_res (map_err (\<lambda>_. ServiceError_Identity) (sign_canonical_transcript (pe_crypto env) (pe_signer env)
               (sv_identity sv) (sctr_canonical_transcript request)))
             (\<lambda>signature. Inr (LocalIpcServerFrame_CanonicalTranscriptSignature signature)))
      | LocalIpcClientFrame_RevokeControllerGrant request \<Rightarrow> revoke ops sv (rcgr_grant_id request)
      | LocalIpcClientFrame_SignSessionOffer request \<Rightarrow>
          (sv, bind_res (map_err (\<lambda>_. ServiceError_Identity) (sign_session_offer (pe_crypto env) (pe_signer env)
               (sv_identity sv) (ssor_canonical_transcript request)))
             (\<lambda>signature. Inr (LocalIpcServerFrame_SessionOfferSignature signature)))
      | LocalIpcClientFrame_GetRemoteSessionStatus _ \<Rightarrow>
          (sv, bind_res (lock_or ServiceError_Internal (sv_remote_status sv))
             (\<lambda>snapshot. Inr (LocalIpcServerFrame_RemoteSessionStatus snapshot)))
      | LocalIpcClientFrame_SignPairingTranscript request \<Rightarrow>
          (sv, bind_res (ok_or ServiceError_InvalidRequest (pairing_identity_role_of (sptr_role request))) (\<lambda>role.
             bind_res (map_err (\<lambda>_. ServiceError_Identity) (sign_pairing_transcript (pe_crypto env) (pe_signer env)
               (sv_identity sv) (sptr_canonical_transcript request) role))
             (\<lambda>signature. Inr (LocalIpcServerFrame_PairingTranscriptSignature signature))))
      | LocalIpcClientFrame_EmergencyStopRemoteSession _ \<Rightarrow> emergency_stop sv
      | _ \<Rightarrow> handle_pairing_payload env ops dr sv payload now_unix_ms)"

definition handle_frame ::
  "pairing_env \<Rightarrow> 's grant_store_ops \<Rightarrow> request_draws \<Rightarrow> 's host_service \<Rightarrow> local_ipc_client_frame \<Rightarrow> u64
    \<Rightarrow> 's host_service \<times> local_ipc_server_frame" where
  "handle_frame env ops dr sv frame now_unix_ms =
     (let (sv', r) = (case licf_payload frame of
             None \<Rightarrow> (sv, Inl ServiceError_InvalidRequest)
           | Some payload \<Rightarrow> handle_payload env ops dr sv payload now_unix_ms);
          payload = (case r of Inr payload \<Rightarrow> payload
                     | Inl e \<Rightarrow> LocalIpcServerFrame_Error (to_unified_error e (licf_request_id frame)))
      in (sv', \<lparr>lisf_protocol_version = Some service_protocol_version, lisf_request_id = licf_request_id frame,
               lisf_payload = Some payload\<rparr>))"

section \<open>Statuses stay well formed\<close>

lemma idle_remote_valid: "validate_remote_session_status_snapshot idle_remote_status = Inr ()"
  by (simp add: validate_remote_session_status_snapshot_def validate_session_status_def idle_remote_status_def
      session_state_of_def ensure_def)

lemma user_session_only_valid: "validate_privileged_bridge_status_snapshot user_session_only_bridge_status = Inr ()"
  by (simp add: validate_privileged_bridge_status_snapshot_def user_session_only_bridge_status_def
      privileged_bridge_state_of_def validate_utf8_length_def)

lemma user_session_only_generation: "snapshot_generation user_session_only_bridge_status = 0"
  by (simp add: snapshot_generation_def user_session_only_bridge_status_def)

lemma connected_session_ok:
  assumes "validate_privileged_bridge_status_snapshot b = Inr ()" "pbss_helper_connected b"
    "pbss_interactive_session b = Some d"
  shows "descriptor_ok d"
proof (cases "privileged_bridge_state_of (pbss_state b)")
  case (Some st)
  then show ?thesis
    using assms by (cases st)
      (auto simp: validate_privileged_bridge_status_snapshot_def bind_res_Inr accepted all_ok_Inr
        simp del: privileged_bridge_state.of_eq_Some all_ok.simps)
qed (use assms in \<open>simp add: validate_privileged_bridge_status_snapshot_def\<close>)

lemma stopped_bridge_valid:
  assumes "validate_privileged_bridge_status_snapshot b = Inr ()"
  shows "validate_privileged_bridge_status_snapshot (stopped_bridge_status b) = Inr ()"
proof (cases "\<exists>d. pbss_interactive_session b = Some d \<and> pbss_helper_connected b")
  case True
  then obtain d where d: "pbss_interactive_session b = Some d" "pbss_helper_connected b" by blast
  then show ?thesis
    using connected_session_ok [OF assms d(2,1)]
    by (simp add: stopped_bridge_status_def validate_privileged_bridge_status_snapshot_def validate_utf8_length_def
        privileged_bridge_state_of_def accepted all_ok_Inr limits del: all_ok.simps)
next
  case False
  then have "stopped_bridge_status b = user_session_only_bridge_status" by (auto simp: stopped_bridge_status_def)
  then show ?thesis by (simp add: user_session_only_valid)
qed

lemma stopped_bridge_session:
  "pbss_interactive_session (stopped_bridge_status b) \<in> {None, pbss_interactive_session b}"
  by (simp add: stopped_bridge_status_def user_session_only_bridge_status_def)

definition bridge_view_ok :: "privileged_bridge_status_snapshot \<Rightarrow> u64 \<Rightarrow> bool" where
  "bridge_view_ok b g \<longleftrightarrow> validate_privileged_bridge_status_snapshot b = Inr () \<and> snapshot_generation b \<in> {0, g}"

lemma bridge_view_stopped: "bridge_view_ok b g \<Longrightarrow> bridge_view_ok (stopped_bridge_status b) g"
  using stopped_bridge_session [of b]
  by (auto simp: bridge_view_ok_def stopped_bridge_valid snapshot_generation_def)

section \<open>Invariant\<close>

definition registry_ok :: "crypto \<Rightarrow> 's authorization_registry \<Rightarrow> bool" where
  "registry_ok c r \<longleftrightarrow> grants_ok c (ar_host_device_id r) (ar_grants r)"

definition service_inv :: "pairing_env \<Rightarrow> 's host_service \<Rightarrow> bool" where
  "service_inv env sv \<longleftrightarrow> sessions_inv (sv_sessions sv)
     \<and> registry_ok (pe_crypto env) (locked_value (sv_authorization sv))
     \<and> validate_remote_session_status_snapshot (locked_value (sv_remote_status sv)) = Inr ()
     \<and> bridge_view_ok (locked_value (sv_bridge_status sv)) (locked_value (sv_bridge_generation sv))
     \<and> coordinator_inv env (hi_device_identity (sv_identity sv)) (locked_value (sv_pairing sv))"

lemma registry_ok_change:
  assumes "registry_ok c r" "registry_change c ops r out"
  shows "registry_ok c (fst out)"
proof (cases "fst out = r")
  case False
  then obtain m x where mx: "grants_ok c (ar_host_device_id r) m"
    "out = persist_then ops r (bt_values m) (\<lambda>r'. (r'\<lparr>ar_grants := m\<rparr>, Inr x))"
    using assms(2) by (auto simp: registry_change_def)
  obtain r' res where out: "out = (r', res)" by fastforce
  with mx(2) have "persist_then ops r (bt_values m) (\<lambda>r'. (r'\<lparr>ar_grants := m\<rparr>, Inr x)) = (r', res)" by simp
  from persist_then_grants [OF this] mx(1) assms(1) out show ?thesis
    by (cases res) (simp_all add: registry_ok_def)
qed (use assms in simp)

lemma registry_ok_ops:
  assumes "registry_ok c r"
  shows "registry_ok c (fst (create_controller_grant c ops draw r d ps t))"
    "registry_ok c (fst (record_authenticated_session ops r k t))"
    "registry_ok c (fst (revoke_controller_grant ops r i))"
  by (rule registry_ok_change [OF assms], rule change_create change_record change_revoke,
      use assms in \<open>simp add: registry_ok_def\<close>)+

lemma registry_ok_accept:
  assumes "registry_ok (pe_crypto env) reg"
  shows "registry_ok (pe_crypto env) (fst (snd (pairing_accept env ops draw s reg r d now)))"
proof (cases "ensure_waiting_decision s r d now")
  case (Pair s1 res)
  show ?thesis
  proof (cases "Option.bind (pc_active s1) ap_controller")
    case (Some ctl)
    show ?thesis
      using registry_ok_ops(1) [OF assms, of ops draw ctl VIEW_AND_CONTROL_PERMISSIONS now] assms Pair Some
      by (auto simp: pairing_accept_def split: sum.splits prod.splits)
  qed (use Pair assms in \<open>simp add: pairing_accept_def split: sum.splits\<close>)
qed

lemma publish_simps [simp]:
  "sv_identity (publish_pairing_snapshot r p sv) = sv_identity sv"
  "sv_authorization (publish_pairing_snapshot r p sv) = sv_authorization sv"
  "sv_sessions (publish_pairing_snapshot r p sv) = sv_sessions sv"
  "sv_remote_status (publish_pairing_snapshot r p sv) = sv_remote_status sv"
  "sv_bridge_status (publish_pairing_snapshot r p sv) = sv_bridge_status sv"
  "sv_bridge_generation (publish_pairing_snapshot r p sv) = sv_bridge_generation sv"
  "sv_pairing (publish_pairing_snapshot r p sv) = sv_pairing sv"
  by (simp_all add: publish_pairing_snapshot_def)

lemma inv_with_pairing:
  assumes "service_inv env sv"
    and "\<And>p. coordinator_inv env (hi_device_identity (sv_identity sv)) p
      \<Longrightarrow> coordinator_inv env (hi_device_identity (sv_identity sv)) (fst (f p))"
  shows "service_inv env (fst (with_pairing sv f))"
  using assms by (auto simp: with_pairing_def service_inv_def split_def Let_def split: mutex.splits)

lemma inv_with_authorization:
  assumes "service_inv env sv"
    and "\<And>r. registry_ok (pe_crypto env) r \<Longrightarrow> registry_ok (pe_crypto env) (fst (f r))"
  shows "service_inv env (fst (with_authorization e sv f))"
  using assms by (auto simp: with_authorization_def service_inv_def split_def Let_def split: mutex.splits)

lemma inv_sessions:
  assumes "service_inv env sv" "sessions_inv t"
  shows "service_inv env (sv\<lparr>sv_sessions := t\<rparr>)"
  using assms by (simp add: service_inv_def)

lemma sessions_inv_ops:
  assumes "sessions_inv s"
  shows "sessions_inv (fst (session_register s i d))" "sessions_inv (fst (session_unregister s i))"
    "sessions_inv (fst (terminate_all s reason))" "sessions_inv (fst (terminate_controller s d))"
  using sessions.step_inv [OF assms, of "RegisterSession i d"] sessions.step_inv [OF assms, of "UnregisterSession i"]
    sessions.step_inv [OF assms, of "TerminateAll reason"] sessions.step_inv [OF assms, of "TerminateController d"]
  by simp_all

lemma inv_bridge_update:
  assumes "service_inv env sv"
  shows "service_inv env (fst (update_privileged_bridge_status sv b d))"
  using assms
  by (auto simp: update_privileged_bridge_status_def service_inv_def bridge_view_ok_def Let_def
      split: sum.splits mutex.splits)

lemma inv_remote_update:
  "service_inv env sv \<Longrightarrow> service_inv env (fst (update_remote_status sv i d st e))"
  by (auto simp: update_remote_status_def service_inv_def Let_def simp del: session_state_code.simps split: mutex.splits)

lemma inv_emergency:
  assumes "service_inv env sv"
  shows "service_inv env (fst (emergency_stop sv))"
proof -
  obtain t res where t: "terminate_all (sv_sessions sv) ErrorCode_LocalEmergencyStop = (t, res)" by fastforce
  have ti: "sessions_inv t"
    using sessions_inv_ops(3) [of "sv_sessions sv" ErrorCode_LocalEmergencyStop] assms t by (simp add: service_inv_def)
  show ?thesis
    using inv_sessions [OF assms ti]
    by (cases res; cases "sv_remote_status sv"; cases "sv_bridge_status sv")
      (auto simp: emergency_stop_def t Let_def service_inv_def idle_remote_valid bridge_view_stopped)
qed

lemma inv_revoke:
  assumes "service_inv env sv"
  shows "service_inv env (fst (revoke ops sv i))"
  unfolding revoke_def
proof (rule fst_sbind_preserved)
  show "service_inv env (fst (with_authorization ServiceError_Internal sv
      (\<lambda>a. smap_err ServiceError_Authorization (revoke_controller_grant ops a i))))"
    by (rule inv_with_authorization [OF assms]) (simp add: registry_ok_ops)
next
  fix sv1 view
  assume inv: "service_inv env sv1"
  have ti: "sessions_inv (fst (terminate_controller (sv_sessions sv1) d))" for d
    using inv sessions_inv_ops(4) by (simp add: service_inv_def)
  show "service_inv env (fst (case controller_device_id_for view of
       None \<Rightarrow> (sv1, Inl ServiceError_Internal)
     | Some controller_device_id \<Rightarrow>
         (case terminate_controller (sv_sessions sv1) controller_device_id of
            (sessions, Inl _) \<Rightarrow> (sv1\<lparr>sv_sessions := sessions\<rparr>, Inl ServiceError_Session)
          | (sessions, Inr terminated) \<Rightarrow>
              (sv1\<lparr>sv_sessions := sessions\<rparr>,
               bind_res (ok_or ServiceError_Internal (u32_try_from (length terminated))) (\<lambda>n.
                 Inr (LocalIpcServerFrame_ControllerGrantRevoked
                   \<lparr>cgr_grant_id = i, cgr_terminated_session_count = n\<rparr>))))))"
    using ti inv by (auto simp: inv_sessions split: option.splits sum.splits prod.splits)
      (metis fst_conv inv_sessions)+
qed

lemma inv_accept_host:
  assumes "service_inv env sv"
  shows "service_inv env (fst (accept_host_pairing env ops draw sv r d now))"
proof (cases "sv_pairing sv"; cases "sv_authorization sv")
  fix p a
  assume p: "sv_pairing sv = Healthy p" and a: "sv_authorization sv = Healthy a"
  then show ?thesis
    using assms inv_accept [of env "hi_device_identity (sv_identity sv)" p ops draw a r d now]
      registry_ok_accept [of env a ops draw p r d now]
    by (simp add: accept_host_pairing_def service_inv_def split_def Let_def)
qed (use assms in \<open>simp_all add: accept_host_pairing_def\<close>)

lemma inv_poll: "service_inv env sv \<Longrightarrow> service_inv env (fst (poll_pairing_outbound sv now))"
  by (auto simp: poll_pairing_outbound_def take_outbound_def service_inv_def inv_misc inv_tick Let_def
      split: mutex.splits)

lemma inv_service_pairing:
  assumes "service_inv env sv"
  shows "service_inv env (fst (start_host_pairing env dr sv k ep now))"
    "service_inv env (fst (reject_host_pairing env sv r d now))"
    "service_inv env (fst (cancel_host_pairing sv r))"
    "service_inv env (fst (service_signaling_lost sv))"
    "service_inv env (fst (service_pairing_shutdown sv))"
    "service_inv env (fst (handle_pairing_signaling_event env sv ev now))"
    "service_inv env (fst (service_signaling_connected sv))"
  unfolding start_host_pairing_def reject_host_pairing_def cancel_host_pairing_def service_signaling_lost_def
    service_pairing_shutdown_def handle_pairing_signaling_event_def
proof -
  show "service_inv env (fst (service_signaling_connected sv))"
    using assms by (auto simp: service_signaling_connected_def service_inv_def pairing_signaling_connected_def inv_misc
        split: mutex.splits)
qed (rule inv_with_pairing [OF assms], simp add: inv_start inv_reject inv_endings inv_event)+

lemma fst_then_pairing_status [simp]: "fst (then_pairing_status m) = fst m"
  by (cases m; cases "snd m") (simp_all add: then_pairing_status_def)

lemma inv_pairing_payload:
  assumes "service_inv env sv"
  shows "service_inv env (fst (handle_pairing_payload env ops dr sv payload now))"
proof -
  have start: "service_inv env (fst (sbind (smap_err ServiceError_Pairing (start_host_pairing env (rd_pairing dr) sv k ep now))
      (\<lambda>sv' status. (sv', Inr (LocalIpcServerFrame_HostPairingStatus status)))))" for k ep
    by (rule fst_sbind_preserved) (simp_all add: inv_service_pairing assms)
  have "service_inv env (fst (with_pairing sv (\<lambda>pairing. let ticked = pairing_tick pairing now
      in (ticked, Inr (LocalIpcServerFrame_HostPairingStatus (pc_status ticked))))))"
    by (rule inv_with_pairing [OF assms]) (simp add: Let_def inv_tick)
  then show ?thesis
    using start assms by (cases payload) (simp_all add: handle_pairing_payload_def inv_service_pairing inv_accept_host)
qed

lemma inv_create_payload:
  assumes "service_inv env sv"
  shows "service_inv env (fst (create_grant_payload env ops dr sv request now))"
proof (cases "ccgr_controller request"; cases "parse_permissions (ccgr_permissions request)")
  fix ctl ps
  assume "ccgr_controller request = Some ctl" "parse_permissions (ccgr_permissions request) = Inr ps"
  moreover have "service_inv env (fst (sbind (with_authorization ServiceError_Internal sv (\<lambda>a.
      smap_err ServiceError_Authorization (create_controller_grant (pe_crypto env) ops (rd_grant_id dr) a ctl ps now)))
      (\<lambda>sv' grant. (sv', Inr (LocalIpcServerFrame_ControllerGrantCreated \<lparr>cgc_grant = Some grant\<rparr>)))))"
    by (rule fst_sbind_preserved, rule inv_with_authorization [OF assms]) (simp_all add: registry_ok_ops)
  ultimately show ?thesis by (simp add: create_grant_payload_def)
qed (use assms in \<open>simp_all add: create_grant_payload_def\<close>)

lemma inv_payload: "service_inv env sv \<Longrightarrow> service_inv env (fst (handle_payload env ops dr sv payload now))"
  by (cases payload) (simp_all add: handle_payload_def inv_create_payload inv_revoke inv_emergency inv_pairing_payload)

lemma fst_handle_frame:
  "fst (handle_frame env ops dr sv frame now) =
     (case licf_payload frame of None \<Rightarrow> sv | Some payload \<Rightarrow> fst (handle_payload env ops dr sv payload now))"
  by (simp add: handle_frame_def split_def Let_def split: option.splits)

section \<open>The service as a machine\<close>

text \<open>Every way the rest of the agent changes the service: requests of the local client, the remote-session
  coordinator, the privileged bridge and the signaling loop, in any interleaving.\<close>

datatype service_op =
    LocalRequest request_draws local_ipc_client_frame u64
  | MaintenanceGrant "nat \<Rightarrow> 128 word option" device_identity "session_permission list" u64
  | RegisterActive bytes bytes
  | UnregisterActive bytes
  | RecordAuthenticated bytes u64
  | RemoteStatus bytes bytes session_state "unified_error option"
  | BridgeStatus privileged_bridge_status_snapshot "bytes option"
  | SignalingUp
  | SignalingDown
  | SignalingEvent signaling_event u64
  | PollOutbound u64
  | StopPairing

fun service_step :: "pairing_env \<Rightarrow> 's grant_store_ops \<Rightarrow> 's host_service \<Rightarrow> service_op
    \<Rightarrow> 's host_service \<times> local_ipc_server_frame option" where
  "service_step env ops sv (LocalRequest dr frame now) = map_prod id Some (handle_frame env ops dr sv frame now)"
| "service_step env ops sv (MaintenanceGrant draw d ps now) =
     (fst (create_controller_grant_for_maintenance env ops draw sv d ps now), None)"
| "service_step env ops sv (RegisterActive i d) = (fst (register_active_session sv i d), None)"
| "service_step env ops sv (UnregisterActive i) = (fst (unregister_active_session sv i), None)"
| "service_step env ops sv (RecordAuthenticated d now) = (fst (record_authenticated_remote_session ops sv d now), None)"
| "service_step env ops sv (RemoteStatus i d st e) = (fst (update_remote_status sv i d st e), None)"
| "service_step env ops sv (BridgeStatus b d) = (fst (update_privileged_bridge_status sv b d), None)"
| "service_step env ops sv SignalingUp = (fst (service_signaling_connected sv), None)"
| "service_step env ops sv SignalingDown = (fst (service_signaling_lost sv), None)"
| "service_step env ops sv (SignalingEvent ev now) = (fst (handle_pairing_signaling_event env sv ev now), None)"
| "service_step env ops sv (PollOutbound now) = (fst (poll_pairing_outbound sv now), None)"
| "service_step env ops sv StopPairing = (fst (service_pairing_shutdown sv), None)"

lemma inv_authorization_ops:
  assumes "service_inv env sv"
  shows "service_inv env (fst (create_controller_grant_for_maintenance env ops draw sv d ps now))"
    "service_inv env (fst (record_authenticated_remote_session ops sv k now))"
  unfolding create_controller_grant_for_maintenance_def record_authenticated_remote_session_def
  by (rule inv_with_authorization [OF assms], simp add: registry_ok_ops split_def Let_def)+

lemma inv_session_ops:
  assumes "service_inv env sv"
  shows "service_inv env (fst (register_active_session sv i d))" "service_inv env (fst (unregister_active_session sv i))"
  using assms
  by (simp_all add: register_active_session_def unregister_active_session_def split_def Let_def inv_sessions
      sessions_inv_ops service_inv_def)

lemma inv_service_step: "service_inv env sv \<Longrightarrow> service_inv env (fst (service_step env ops sv x))"
  by (cases x) (simp_all add: fst_handle_frame inv_payload inv_authorization_ops inv_session_ops inv_remote_update
      inv_bridge_update inv_service_pairing inv_poll split: option.splits)

interpretation service: machine "service_step env ops" "service_inv env" for env ops
  by unfold_locales (rule inv_service_step)

lemma inv_service_new:
  assumes "host_service_new (pe_crypto env) ident reg inst started = Some sv"
    and "registry_ok (pe_crypto env) reg"
  shows "service_inv env sv"
proof -
  obtain p where p: "pairing_coordinator_new (pe_crypto env) (hi_device_identity ident) = Inr p"
    using assms(1) by (auto simp: host_service_new_def from_validated_host_def split: sum.splits)
  then show ?thesis
    using assms inv_new [OF p, of env]
    by (auto simp: host_service_new_def from_validated_host_def service_inv_def sessions_inv_new idle_remote_valid
        bridge_view_ok_def user_session_only_valid user_session_only_generation)
qed

text \<open>The identity never changes, and only bridge updates touch the generation, which they never lower.\<close>

lemma locked_kept [simp]:
  "sv_identity (fst (with_pairing sv f)) = sv_identity sv"
  "sv_bridge_generation (fst (with_pairing sv f)) = sv_bridge_generation sv"
  "sv_authorization (fst (with_pairing sv f)) = sv_authorization sv"
  "sv_identity (fst (with_authorization e sv g)) = sv_identity sv"
  "sv_bridge_generation (fst (with_authorization e sv g)) = sv_bridge_generation sv"
  "sv_sessions (fst (with_authorization e sv g)) = sv_sessions sv"
  by (simp_all add: with_pairing_def with_authorization_def split_def Let_def split: mutex.splits)

lemma fst_sbind_same: "(\<And>t x. fst (k t x) = t) \<Longrightarrow> fst (sbind m k) = fst m"
  by (cases m; cases "snd m") simp_all

lemma revoke_kept [simp]:
  "sv_identity (fst (revoke ops sv i)) = sv_identity sv"
  "sv_bridge_generation (fst (revoke ops sv i)) = sv_bridge_generation sv"
  "sv_authorization (fst (revoke ops sv i)) = sv_authorization (fst (with_authorization ServiceError_Internal sv
     (\<lambda>a. smap_err ServiceError_Authorization (revoke_controller_grant ops a i))))"
proof -
  let ?m = "with_authorization ServiceError_Internal sv
    (\<lambda>a. smap_err ServiceError_Authorization (revoke_controller_grant ops a i))"
  obtain t r where m: "?m = (t, r)" by fastforce
  have "sv_identity t = sv_identity sv" "sv_bridge_generation t = sv_bridge_generation sv"
    using locked_kept(4,5) [of ServiceError_Internal sv
        "\<lambda>a. smap_err ServiceError_Authorization (revoke_controller_grant ops a i)"] m by simp_all
  then show "sv_identity (fst (revoke ops sv i)) = sv_identity sv"
    "sv_bridge_generation (fst (revoke ops sv i)) = sv_bridge_generation sv"
    "sv_authorization (fst (revoke ops sv i)) = sv_authorization (fst ?m)"
    unfolding revoke_def m by (cases r; simp split: option.splits prod.splits sum.splits)+
qed

lemma emergency_kept [simp]:
  "sv_identity (fst (emergency_stop sv)) = sv_identity sv"
  "sv_bridge_generation (fst (emergency_stop sv)) = sv_bridge_generation sv"
  "sv_authorization (fst (emergency_stop sv)) = sv_authorization sv"
  by (simp_all add: emergency_stop_def Let_def split: prod.splits sum.splits mutex.splits)

lemma accept_host_kept [simp]:
  "sv_identity (fst (accept_host_pairing env ops draw sv r d now)) = sv_identity sv"
  "sv_bridge_generation (fst (accept_host_pairing env ops draw sv r d now)) = sv_bridge_generation sv"
  by (simp_all add: accept_host_pairing_def split_def Let_def split: mutex.splits)

lemma create_payload_kept [simp]:
  "sv_identity (fst (create_grant_payload env ops dr sv request now)) = sv_identity sv"
  "sv_bridge_generation (fst (create_grant_payload env ops dr sv request now)) = sv_bridge_generation sv"
  by (simp_all add: create_grant_payload_def fst_sbind_same split: option.splits sum.splits)

lemmas pairing_wrappers = start_host_pairing_def reject_host_pairing_def cancel_host_pairing_def
  service_signaling_lost_def service_pairing_shutdown_def handle_pairing_signaling_event_def

lemma pairing_payload_kept [simp]:
  "sv_identity (fst (handle_pairing_payload env ops dr sv payload now)) = sv_identity sv"
  "sv_bridge_generation (fst (handle_pairing_payload env ops dr sv payload now)) = sv_bridge_generation sv"
  by (cases payload; simp add: handle_pairing_payload_def pairing_wrappers fst_sbind_same)+

lemma payload_kept [simp]:
  "sv_identity (fst (handle_payload env ops dr sv payload now)) = sv_identity sv"
  "sv_bridge_generation (fst (handle_payload env ops dr sv payload now)) = sv_bridge_generation sv"
  by (cases payload; simp add: handle_payload_def)+

lemma misc_kept [simp]:
  "sv_identity (fst (register_active_session sv i d)) = sv_identity sv"
  "sv_bridge_generation (fst (register_active_session sv i d)) = sv_bridge_generation sv"
  "sv_authorization (fst (register_active_session sv i d)) = sv_authorization sv"
  "sv_identity (fst (unregister_active_session sv i)) = sv_identity sv"
  "sv_bridge_generation (fst (unregister_active_session sv i)) = sv_bridge_generation sv"
  "sv_authorization (fst (unregister_active_session sv i)) = sv_authorization sv"
  "sv_identity (fst (update_remote_status sv i d st e)) = sv_identity sv"
  "sv_bridge_generation (fst (update_remote_status sv i d st e)) = sv_bridge_generation sv"
  "sv_authorization (fst (update_remote_status sv i d st e)) = sv_authorization sv"
  "sv_identity (fst (service_signaling_connected sv)) = sv_identity sv"
  "sv_bridge_generation (fst (service_signaling_connected sv)) = sv_bridge_generation sv"
  "sv_authorization (fst (service_signaling_connected sv)) = sv_authorization sv"
  "sv_identity (fst (poll_pairing_outbound sv now)) = sv_identity sv"
  "sv_bridge_generation (fst (poll_pairing_outbound sv now)) = sv_bridge_generation sv"
  "sv_authorization (fst (poll_pairing_outbound sv now)) = sv_authorization sv"
  "sv_identity (fst (update_privileged_bridge_status sv b k)) = sv_identity sv"
  "sv_authorization (fst (update_privileged_bridge_status sv b k)) = sv_authorization sv"
  by (simp_all add: register_active_session_def unregister_active_session_def update_remote_status_def
      service_signaling_connected_def poll_pairing_outbound_def update_privileged_bridge_status_def take_outbound_def
      split_def Let_def split: mutex.splits sum.splits)

lemma bridge_generation_rises:
  "locked_value (sv_bridge_generation sv)
     \<le> locked_value (sv_bridge_generation (fst (update_privileged_bridge_status sv b k)))"
  by (auto simp: update_privileged_bridge_status_def not_less split: mutex.splits sum.splits)

lemma identity_kept_step [simp]: "sv_identity (fst (service_step env ops sv x)) = sv_identity sv"
  by (cases x) (simp_all add: fst_handle_frame pairing_wrappers create_controller_grant_for_maintenance_def
      record_authenticated_remote_session_def split: option.splits)

interpretation service: monotone_machine "service_step env ops" "service_inv env"
  "\<lambda>sv. locked_value (sv_bridge_generation sv)" for env ops
proof
  fix sv :: "'a host_service" and x
  assume "service_inv env sv"
  show "locked_value (sv_bridge_generation sv) \<le> locked_value (sv_bridge_generation (fst (service_step env ops sv x)))"
    by (cases x) (simp_all add: fst_handle_frame bridge_generation_rises pairing_wrappers
        create_controller_grant_for_maintenance_def record_authenticated_remote_session_def split: option.splits)
qed

interpretation service_identity: machine "service_step env ops" "\<lambda>sv. sv_identity sv = ident" for env ops ident
  by unfold_locales simp

section \<open>Who holds a grant\<close>

definition service_grant :: "'s host_service \<Rightarrow> bytes \<Rightarrow> controller_grant_view option" where
  "service_grant sv d = controller_grant_of (locked_value (sv_authorization sv)) d"

definition creates_grant :: "service_op \<Rightarrow> bool" where
  "creates_grant x = (case x of
       LocalRequest _ frame _ \<Rightarrow>
         (case licf_payload frame of
            Some (LocalIpcClientFrame_CreateControllerGrant _) \<Rightarrow> True
          | Some (LocalIpcClientFrame_AcceptHostPairing _) \<Rightarrow> True
          | _ \<Rightarrow> False)
     | MaintenanceGrant _ _ _ _ \<Rightarrow> True
     | _ \<Rightarrow> False)"

lemma record_keeps_ungranted:
  assumes "registry_ok c r" "controller_grant_of r d = None"
  shows "controller_grant_of (fst (record_authenticated_session ops r k t)) d = None"
  using assms
  by (auto simp: registry_ok_def grants_ok_def record_authenticated_session_def controller_grant_of_def persist_then_def Let_def bt_get_insert
      split: option.splits prod.splits sum.splits)

lemma revoke_keeps_ungranted:
  assumes "controller_grant_of r d = None"
  shows "controller_grant_of (fst (revoke_controller_grant ops r i)) d = None"
  using assms
  by (auto simp: revoke_controller_grant_def controller_grant_of_def persist_then_def Let_def bt_get_remove
      split: option.splits prod.splits sum.splits)

lemma with_authorization_grant:
  "service_grant (fst (with_authorization e sv f)) d = (case sv_authorization sv of
     Poisoned _ \<Rightarrow> service_grant sv d | Healthy a \<Rightarrow> controller_grant_of (fst (f a)) d)"
  by (simp add: with_authorization_def service_grant_def split_def Let_def split: mutex.splits)

lemma revoke_payload_ungranted:
  "service_grant sv d = None \<Longrightarrow> service_grant (fst (revoke ops sv i)) d = None"
  using with_authorization_grant [of ServiceError_Internal sv
      "\<lambda>a. smap_err ServiceError_Authorization (revoke_controller_grant ops a i)" d]
  by (auto simp: service_grant_def revoke_keeps_ungranted split: mutex.splits)

lemma ungranted_payload:
  assumes "service_grant sv d = None" "\<nexists>q. payload = LocalIpcClientFrame_CreateControllerGrant q"
    "\<nexists>q. payload = LocalIpcClientFrame_AcceptHostPairing q"
  shows "service_grant (fst (handle_payload env ops dr sv payload now)) d = None"
  using assms
  by (cases payload) (simp_all add: handle_payload_def handle_pairing_payload_def revoke_payload_ungranted
      pairing_wrappers fst_sbind_same, simp_all add: service_grant_def)

lemma ungranted_step:
  assumes "service_grant sv d = None" "\<not> creates_grant x" "service_inv env sv"
  shows "service_grant (fst (service_step env ops sv x)) d = None"
proof (cases x)
  case (LocalRequest dr frame now)
  show ?thesis
  proof (cases "licf_payload frame")
    case (Some payload)
    have "\<nexists>q. payload = LocalIpcClientFrame_CreateControllerGrant q"
      "\<nexists>q. payload = LocalIpcClientFrame_AcceptHostPairing q"
      using assms(2) by (auto simp: creates_grant_def LocalRequest Some)
    from ungranted_payload [OF assms(1) this] show ?thesis by (simp add: LocalRequest fst_handle_frame Some)
  qed (use assms in \<open>simp add: LocalRequest fst_handle_frame\<close>)
next
  case (RecordAuthenticated k now)
  then show ?thesis
    using assms by (cases "sv_authorization sv") (auto simp: record_authenticated_remote_session_def
        with_authorization_def split_def Let_def service_grant_def service_inv_def intro: record_keeps_ungranted)
qed (use assms in \<open>simp_all add: creates_grant_def pairing_wrappers, simp_all add: service_grant_def\<close>)

lemma ungranted_run:
  "service_inv env sv \<Longrightarrow> service_grant sv d = None \<Longrightarrow> \<forall>x \<in> set xs. \<not> creates_grant x
    \<Longrightarrow> service_grant (fst (run_steps (service_step env ops) sv xs)) d = None"
proof (induction xs arbitrary: sv)
  case (Cons x xs)
  then show ?case
    by (simp only: fst_run_steps_Cons, intro Cons.IH) (simp_all add: inv_service_step ungranted_step)
qed simp

lemma ungranted_refused:
  assumes "service_grant sv d = None" "soa_controller_device_id a = d"
  shows "\<not> is_ok (snd (verify_remote_offer c sv v a sdp fp now))"
proof (cases "sv_authorization sv")
  case (Healthy reg)
  obtain v' r where r: "offer_verify c v a sdp fp reg now = (v', r)" by fastforce
  have "r \<noteq> Inr offer" for offer
  proof
    assume "r = Inr offer"
    then have "verify_bindings c (ov_host_device_id v) a sdp fp reg now = Inr (vso_controller offer, vso_permissions offer)"
      using offer_verify_ok [of c v a sdp fp reg now v' offer] r by simp
    then show False using assms Healthy by (auto simp: verify_bindings_iff service_grant_def)
  qed
  then show ?thesis using Healthy r by (cases r) (auto simp: verify_remote_offer_def)
qed (simp add: verify_remote_offer_def)

lemma ungranted_not_recorded:
  "service_grant sv d = None \<Longrightarrow> \<not> is_ok (snd (record_authenticated_remote_session ops sv d now))"
  by (auto simp: record_authenticated_remote_session_def with_authorization_def record_authenticated_session_def
      service_grant_def controller_grant_of_def unit_result_def split: mutex.splits)

section \<open>Revocation\<close>

lemma revoke_ok:
  assumes inv: "service_inv env sv" and ok: "revoke ops sv i = (sv', Inr p)"
  obtains d view terminated where
    "service_grant sv d = Some view" "has_grant_id i view"
    "\<And>k. service_grant sv' k = (if k = d then None else service_grant sv k)"
    "session_owner (sv_sessions sv') = (\<lambda>j. if session_owner (sv_sessions sv) j = Some d then None
       else session_owner (sv_sessions sv) j)"
    "sr_terminations (sv_sessions sv') = sr_terminations (sv_sessions sv) @ terminated"
    "ste_session_id ` set terminated = {j. session_owner (sv_sessions sv) j = Some d}"
    "\<forall>e \<in> set terminated. ste_controller_device_id e = d \<and> ste_reason e = error_code_code ErrorCode_AuthRevoked"
    "p = LocalIpcServerFrame_ControllerGrantRevoked \<lparr>cgr_grant_id = i,
       cgr_terminated_session_count = word_of_nat (length terminated)\<rparr>" "length terminated < 2 ^ 32"
proof -
  obtain sv1 view where m: "with_authorization ServiceError_Internal sv
      (\<lambda>a. smap_err ServiceError_Authorization (revoke_controller_grant ops a i)) = (sv1, Inr view)"
    using ok unfolding revoke_def sbind_Inr by blast
  then obtain reg reg' where reg: "sv_authorization sv = Healthy reg"
    "revoke_controller_grant ops reg i = (reg', Inr view)" "sv1 = sv\<lparr>sv_authorization := Healthy reg'\<rparr>"
    by (cases "sv_authorization sv") (auto simp: with_authorization_def smap_err_def split_def Let_def prod_eq_iff)
  have "grants_ok (pe_crypto env) (ar_host_device_id reg) (ar_grants reg)"
    using inv reg(1) by (simp add: service_inv_def registry_ok_def)
  from revoke_effect [OF this reg(2)] obtain d where d: "controller_device_id_for view = Some d" "has_grant_id i view"
    "controller_grant_of reg d = Some view"
    "\<And>k. controller_grant_of reg' k = (if k = d then None else controller_grant_of reg k)" by blast
  obtain t r where t: "terminate_controller (sv_sessions sv) d = (t, r)" by fastforce
  have rest: "revoke ops sv i = (case (t, r) of
            (sessions, Inl _) \<Rightarrow> (sv1\<lparr>sv_sessions := sessions\<rparr>, Inl ServiceError_Session)
          | (sessions, Inr terminated) \<Rightarrow>
              (sv1\<lparr>sv_sessions := sessions\<rparr>,
               bind_res (ok_or ServiceError_Internal (u32_try_from (length terminated))) (\<lambda>n.
                 Inr (LocalIpcServerFrame_ControllerGrantRevoked
                   \<lparr>cgr_grant_id = i, cgr_terminated_session_count = n\<rparr>))))"
    unfolding revoke_def m sbind_simps d(1) using t reg(3) by simp
  then obtain terminated where e: "r = Inr terminated" using ok by (cases r) auto
  have sv': "sv' = sv1\<lparr>sv_sessions := t\<rparr>" and p: "p = LocalIpcServerFrame_ControllerGrantRevoked \<lparr>cgr_grant_id = i,
      cgr_terminated_session_count = word_of_nat (length terminated)\<rparr>" "length terminated < 2 ^ 32"
    using rest ok e by (auto simp: bind_res_Inr u32_try_from_def split: if_splits)
  have "sessions_inv (sv_sessions sv)" using inv by (simp add: service_inv_def)
  from terminate_controller_effect [OF this t [unfolded e]] d p show ?thesis
    by (intro that [of d view terminated]) (simp_all add: sv' reg service_grant_def)
qed

section \<open>Signed answers\<close>

lemma signed_own_transcript:
  assumes "sign_canonical_transcript c sg ident bs = Inr sig" "transcript_encode t = Inr bs"
  shows "names_device 2 ident t \<and> cts_signature sig = ed25519_sign sg (hi_signing_key ident) bs"
proof -
  obtain t' where "transcript_decode bs = Inr t'" "names_device 2 ident t'"
    using assms(1) unfolding sign_canonical_iff by blast
  moreover from this(1) have "t' = t" using assms(2) transcript.accepts_iff transcript.enc_inject by blast
  ultimately show ?thesis using assms(1) unfolding sign_canonical_iff by auto
qed

lemma answer_signature_irrelevant [simp]:
  "encode_session_answer_transcript (a\<lparr>saa_signature := x\<rparr>) = encode_session_answer_transcript a"
  "encode_session_reconnect_transcript (b\<lparr>sra_signature := x\<rparr>) = encode_session_reconnect_transcript b"
  by (simp_all add: encode_session_answer_transcript_def answer_transcript_def encode_session_reconnect_transcript_def
      reconnect_transcript_def)

lemma answer_names_host:
  "names_device 2 ident (answer_transcript a bits) \<longleftrightarrow> saa_host_device_id a = di_device_id (hi_device_identity ident)"
  "names_device 2 ident (reconnect_transcript b bits) \<longleftrightarrow> sra_host_device_id b = di_device_id (hi_device_identity ident)"
  by (simp_all add: names_device_def find_field_def answer_transcript_def reconnect_transcript_def transcript_field_of_def)

definition signs_for :: "crypto \<Rightarrow> signer \<Rightarrow> host_identity \<Rightarrow> bool" where
  "signs_for c sg ident \<longleftrightarrow> (\<forall>m. ed25519_verify c (di_public_key (hi_device_identity ident)) m
     (ed25519_sign sg (hi_signing_key ident) m))"

lemma sign_answer_ok:
  assumes "sign_remote_answer env sv offer sdp fp = Inr answer" "signs_for c (pe_signer env) (sv_identity sv)"
  shows "(\<exists>sig. answer = (unsigned_answer (pe_crypto env) offer sdp fp)\<lparr>saa_signature := sig\<rparr>)
    \<and> soa_host_device_id offer = di_device_id (hi_device_identity (sv_identity sv))
    \<and> (\<exists>t. encode_session_answer_transcript answer = Inr t
         \<and> ed25519_verify c (di_public_key (hi_device_identity (sv_identity sv))) t (saa_signature answer))"
proof -
  define a where "a = unsigned_answer (pe_crypto env) offer sdp fp"
  obtain t sig where e: "encode_session_answer_transcript a = Inr t"
    "sign_canonical_transcript (pe_crypto env) (pe_signer env) (sv_identity sv) t = Inr sig"
    "answer = a\<lparr>saa_signature := cts_signature sig\<rparr>"
    using assms(1) by (auto simp: sign_remote_answer_def Let_def bind_res_Inr a_def)
  obtain bits where "transcript_encode (answer_transcript a bits) = Inr t" using e(1) by (auto simp: answer_transcript_iff)
  from signed_own_transcript [OF e(2) this] have "saa_host_device_id a = di_device_id (hi_device_identity (sv_identity sv))"
    "ed25519_verify c (di_public_key (hi_device_identity (sv_identity sv))) t (cts_signature sig)"
    using assms(2) by (simp_all add: answer_names_host signs_for_def)
  moreover have "saa_host_device_id a = soa_host_device_id offer" by (simp add: a_def unsigned_answer_def)
  ultimately show ?thesis using e unfolding a_def [symmetric] by auto
qed

lemma sign_reconnect_ok:
  assumes "sign_remote_reconnect env sv offer sdp fp g = Inr answer" "signs_for c (pe_signer env) (sv_identity sv)"
  shows "(\<exists>sig. answer = (unsigned_reconnect (pe_crypto env) offer sdp fp g)\<lparr>sra_signature := sig\<rparr>)
    \<and> soa_host_device_id offer = di_device_id (hi_device_identity (sv_identity sv))
    \<and> (\<exists>t. encode_session_reconnect_transcript answer = Inr t
         \<and> ed25519_verify c (di_public_key (hi_device_identity (sv_identity sv))) t (sra_signature answer))"
proof -
  define a where "a = unsigned_reconnect (pe_crypto env) offer sdp fp g"
  obtain t sig where e: "encode_session_reconnect_transcript a = Inr t"
    "sign_canonical_transcript (pe_crypto env) (pe_signer env) (sv_identity sv) t = Inr sig"
    "answer = a\<lparr>sra_signature := cts_signature sig\<rparr>"
    using assms(1) by (auto simp: sign_remote_reconnect_def Let_def bind_res_Inr a_def)
  obtain bits where "transcript_encode (reconnect_transcript a bits) = Inr t" using e(1) by (auto simp: reconnect_transcript_iff)
  from signed_own_transcript [OF e(2) this] have "sra_host_device_id a = di_device_id (hi_device_identity (sv_identity sv))"
    "ed25519_verify c (di_public_key (hi_device_identity (sv_identity sv))) t (cts_signature sig)"
    using assms(2) by (simp_all add: answer_names_host signs_for_def)
  moreover have "sra_host_device_id a = soa_host_device_id offer" by (simp add: a_def unsigned_reconnect_def)
  ultimately show ?thesis using e unfolding a_def [symmetric] by auto
qed

lemma sign_own_total:
  assumes "transcript_encode t = Inr bs" "names_device 2 ident t"
    "ct_purpose t \<in> {TranscriptPurpose_SessionAnswer, TranscriptPurpose_SessionReconnect}"
  shows "\<exists>sig. sign_canonical_transcript c sg ident bs = Inr sig"
  using assms unfolding sign_canonical_iff by (auto simp: transcript.accepts_iff)

lemma sign_answer_total:
  assumes "validate_fixed_fields offer = Inr ()" "soa_requested_permissions offer \<in> {[1], [1, 2]}"
    and "soa_host_device_id offer = di_device_id (hi_device_identity (sv_identity sv))"
    and "length fp = 32" "length (sha256 (pe_crypto env) (as_bytes sdp)) = 32"
  shows "\<exists>answer. sign_remote_answer env sv offer sdp fp = Inr answer"
proof -
  define a where "a = unsigned_answer (pe_crypto env) offer sdp fp"
  obtain bits where b: "permission_bits (saa_requested_permissions a) = Inr bits"
    using assms(2) by (auto simp: permission_bits_iff a_def unsigned_answer_def)
  have host: "saa_host_device_id a = di_device_id (hi_device_identity (sv_identity sv))"
    using assms(3) by (simp add: a_def unsigned_answer_def)
  have "fields_ok TranscriptPurpose_SessionAnswer (ct_fields (answer_transcript a bits))"
    using assms by (simp add: answer_transcript_def fields_ok_def transcript_field_of_def field_length_def
        validate_fixed_fields_iff a_def unsigned_answer_def)
  then obtain bs where bs: "transcript_encode (answer_transcript a bits) = Inr bs"
    by (auto simp: transcript_encode_iff answer_transcript_def)
  have purpose: "ct_purpose (answer_transcript a bits) = TranscriptPurpose_SessionAnswer"
    by (simp add: answer_transcript_def)
  obtain sig where "sign_canonical_transcript (pe_crypto env) (pe_signer env) (sv_identity sv) bs = Inr sig"
    using sign_own_total [OF bs, of "sv_identity sv" "pe_crypto env" "pe_signer env"] host purpose
    by (auto simp: answer_names_host)
  moreover have "encode_session_answer_transcript a = Inr bs" using b bs by (auto simp: answer_transcript_iff)
  ultimately show ?thesis by (simp add: sign_remote_answer_def Let_def a_def)
qed

section \<open>Example\<close>

definition demo_view :: controller_grant_view where
  "demo_view = \<lparr>cgv_grant = Some \<lparr>cg_grant_id = replicate 16 9, cg_host_device_id = replicate 32 3,
       cg_controller = Some demo_controller, cg_created_at_unix_ms = 5, cg_permissions = [1, 2]\<rparr>,
     cgv_last_successful_connection_at_unix_ms = 0\<rparr>"

definition demo_granted :: "memory_grant_store authorization_registry" where
  "demo_granted = demo_registry\<lparr>ar_grants := [(replicate 32 4, demo_view)]\<rparr>"

definition demo_descriptor :: privileged_session_descriptor where
  "demo_descriptor = \<lparr>psd_platform = device_platform_code DevicePlatform_Windows, psd_os_session_id = 1,
     psd_desktop_kind = 1, psd_generation = 4\<rparr>"

definition demo_service :: "memory_grant_store host_service" where
  "demo_service = \<lparr>sv_identity = demo_identity, sv_authorization = Healthy demo_granted,
     sv_sessions = \<lparr>sr_sessions = Healthy [(replicate 16 1, replicate 32 4)], sr_terminations = []\<rparr>,
     sv_remote_status = Healthy idle_remote_status, sv_bridge_status = Healthy user_session_only_bridge_status,
     sv_bridge_generation = Healthy 0, sv_pairing = Healthy demo_new, sv_pairing_events = [],
     sv_pairing_activity = False, sv_instance_id = be_bytes 16 1, sv_started_at_unix_ms = 1000\<rparr>"

abbreviation demo_store :: "memory_grant_store grant_store_ops" where
  "demo_store \<equiv> memory_store (\<lambda>_. 0)"

lemma demo_granted_ok: "registry_ok demo_crypto demo_granted"
proof -
  have "validate_controller demo_crypto demo_controller = Inr ()"
    using demo_identities by (simp add: validate_controller_def) (simp add: demo_controller_def demo_crypto_def)
  then have "validate_stored_grant demo_crypto demo_view (replicate 32 3) = Inr (replicate 32 4)"
    by (auto simp: validate_stored_grant_iff demo_view_def normalize_stored_iff) (simp_all add: demo_controller_def)
  then show ?thesis
    by (simp add: registry_ok_def grants_ok_def demo_granted_def demo_registry_def bt_ok_def bt_get_def limits)
qed

lemma demo_new_service:
  "host_service_new demo_crypto demo_identity demo_granted 1 1000
     = Some (demo_service\<lparr>sv_sessions := session_registry_new\<rparr>)"
  by (simp add: host_service_new_def from_validated_host_def demo_identity_def demo_coordinator_new demo_service_def)

lemma demo_service_inv: "service_inv demo_env demo_service"
proof -
  have "service_inv demo_env (demo_service\<lparr>sv_sessions := session_registry_new\<rparr>)"
    using inv_service_new [of demo_env demo_identity demo_granted 1 1000] demo_new_service demo_granted_ok by simp
  from inv_sessions [OF this, of "sv_sessions demo_service"] show ?thesis
    by (simp add: demo_service_def sessions_inv_def session_owner_def bt_ok_def bt_get_def)
qed

lemma demo_revoke: "\<exists>sv p. revoke demo_store demo_service (replicate 16 9) = (sv, Inr p)"
  by (simp add: revoke_def with_authorization_def demo_service_def revoke_controller_grant_def demo_granted_def
      has_grant_id_def demo_view_def persist_then_def memory_store_def memory_persist_def memory_grant_store_new_def
      demo_registry_def limits bt_get_def controller_device_id_for_def terminate_controller_def u32_try_from_def
      Let_def smap_err_def)

section \<open>Properties\<close>

text \<open>
  C4. Revoking a grant cuts its Controller off.  When the request succeeds, the grant is gone and
  every other grant is untouched; exactly the sessions of that Controller have ended, each announced once with reason
  \<^verbatim>\<open>AUTH_REVOKED\<close> and counted in the reply, and no other session is touched.  And for as long as nobody
  creates a grant or accepts a pairing, whatever else the agent does in whatever order, no offer of that
  Controller verifies any more, with any verifier, and a session that was being set up during the
  revocation cannot be recorded as authenticated.
\<close>

theorem revocation_cuts_access:
  assumes "service_inv env sv" and "revoke ops sv grant_id = (sv', Inr reply)"
  shows "\<exists>d view terminated. service_grant sv d = Some view \<and> has_grant_id grant_id view
    \<and> (\<forall>k. service_grant sv' k = (if k = d then None else service_grant sv k))
    \<and> session_owner (sv_sessions sv') = (\<lambda>j. if session_owner (sv_sessions sv) j = Some d then None
         else session_owner (sv_sessions sv) j)
    \<and> sr_terminations (sv_sessions sv') = sr_terminations (sv_sessions sv) @ terminated
    \<and> ste_session_id ` set terminated = {j. session_owner (sv_sessions sv) j = Some d}
    \<and> (\<forall>e \<in> set terminated. ste_controller_device_id e = d \<and> ste_reason e = error_code_code ErrorCode_AuthRevoked)
    \<and> reply = LocalIpcServerFrame_ControllerGrantRevoked \<lparr>cgr_grant_id = grant_id,
         cgr_terminated_session_count = word_of_nat (length terminated)\<rparr> \<and> length terminated < 2 ^ 32
    \<and> (\<forall>xs. (\<forall>x \<in> set xs. \<not> creates_grant x) \<longrightarrow>
         (let later = fst (run_steps (service_step env ops) sv' xs)
          in (\<forall>c v a sdp fp now. soa_controller_device_id a = d \<longrightarrow> \<not> is_ok (snd (verify_remote_offer c later v a sdp fp now)))
             \<and> (\<forall>now. \<not> is_ok (snd (record_authenticated_remote_session ops later d now)))))"
proof -
  obtain d view terminated where e: "service_grant sv d = Some view" "has_grant_id grant_id view"
    "\<And>k. service_grant sv' k = (if k = d then None else service_grant sv k)"
    "session_owner (sv_sessions sv') = (\<lambda>j. if session_owner (sv_sessions sv) j = Some d then None
       else session_owner (sv_sessions sv) j)"
    "sr_terminations (sv_sessions sv') = sr_terminations (sv_sessions sv) @ terminated"
    "ste_session_id ` set terminated = {j. session_owner (sv_sessions sv) j = Some d}"
    "\<forall>e \<in> set terminated. ste_controller_device_id e = d \<and> ste_reason e = error_code_code ErrorCode_AuthRevoked"
    "reply = LocalIpcServerFrame_ControllerGrantRevoked \<lparr>cgr_grant_id = grant_id,
       cgr_terminated_session_count = word_of_nat (length terminated)\<rparr>" "length terminated < 2 ^ 32"
    by (rule revoke_ok [OF assms]) (rule that)
  have inv: "service_inv env sv'" using inv_revoke [OF assms(1), of ops grant_id] assms(2) by simp
  have "service_grant (fst (run_steps (service_step env ops) sv' xs)) d = None"
    if "\<forall>x \<in> set xs. \<not> creates_grant x" for xs
    using ungranted_run [OF inv _ that] e(3) by simp
  then have "\<forall>xs. (\<forall>x \<in> set xs. \<not> creates_grant x) \<longrightarrow>
         (let later = fst (run_steps (service_step env ops) sv' xs)
          in (\<forall>c v a sdp fp now. soa_controller_device_id a = d \<longrightarrow> \<not> is_ok (snd (verify_remote_offer c later v a sdp fp now)))
             \<and> (\<forall>now. \<not> is_ok (snd (record_authenticated_remote_session ops later d now))))"
    unfolding Let_def using ungranted_refused ungranted_not_recorded by blast
  with e show ?thesis by (intro exI [of _ d] exI [of _ view] exI [of _ terminated]) simp
qed

theorem revocation_cuts_access_witness:
  "\<exists>sv reply d. revoke demo_store demo_service (replicate 16 9) = (sv, Inr reply)
     \<and> service_grant demo_service d = Some demo_view \<and> service_grant sv d = None
     \<and> session_owner (sv_sessions sv) (replicate 16 1) = None"
proof -
  obtain sv reply where r: "revoke demo_store demo_service (replicate 16 9) = (sv, Inr reply)"
    using demo_revoke by blast
  have only: "service_grant demo_service d = Some v \<longleftrightarrow> d = replicate 32 4 \<and> v = demo_view" for d v
    by (auto simp: service_grant_def demo_service_def demo_granted_def controller_grant_of_def bt_get_def)
  have own: "session_owner (sv_sessions demo_service) (replicate 16 1) = Some (replicate 32 4)"
    by (simp add: demo_service_def session_owner_def bt_get_def)
  from revocation_cuts_access [OF demo_service_inv r] obtain d where
    "service_grant demo_service d = Some demo_view" "service_grant sv d = None"
    "session_owner (sv_sessions sv) = (\<lambda>j. if session_owner (sv_sessions demo_service) j = Some d then None
         else session_owner (sv_sessions demo_service) j)" using only by auto
  with r own only show ?thesis by auto
qed

text \<open>
  C9. The local emergency stop leaves no remote session behind.  Unless the session mutex itself is
  poisoned, no session is active afterwards, whatever the reply; each one that was active is announced with reason
  \<^verbatim>\<open>LOCAL_EMERGENCY_STOP\<close>; grants are not touched.  When no mutex is poisoned the reply counts the ended
  sessions, the remote status is idle, and the bridge status is well formed and no longer shows a Controller.
\<close>

theorem emergency_stop_complete:
  assumes "service_inv env sv" and "sr_sessions (sv_sessions sv) = Healthy m"
    and "emergency_stop sv = (sv', reply)"
  shows "session_owner (sv_sessions sv') = Map.empty \<and> service_grant sv' = service_grant sv
    \<and> (\<exists>terminated. sr_terminations (sv_sessions sv') = sr_terminations (sv_sessions sv) @ terminated
        \<and> {(ste_session_id e, ste_controller_device_id e) |e. e \<in> set terminated}
            = {(i, d). session_owner (sv_sessions sv) i = Some d}
        \<and> (\<forall>e \<in> set terminated. ste_reason e = error_code_code ErrorCode_LocalEmergencyStop))
    \<and> (\<forall>r b. sv_remote_status sv = Healthy r \<and> sv_bridge_status sv = Healthy b \<and> length m < 2 ^ 32 \<longrightarrow>
        reply = Inr (LocalIpcServerFrame_EmergencyStopRemoteSessionResult
          \<lparr>esrsr2_terminated_session_count = word_of_nat (length m)\<rparr>)
        \<and> sv_remote_status sv' = Healthy idle_remote_status
        \<and> (\<exists>b'. sv_bridge_status sv' = Healthy b' \<and> validate_privileged_bridge_status_snapshot b' = Inr ()
             \<and> pbss_active_controller_display_name b' = []
             \<and> pbss_state b' \<in> {privileged_bridge_state_code PrivilegedBridgeState_Ready,
                 privileged_bridge_state_code PrivilegedBridgeState_UserSessionOnly}))"
proof -
  let ?ev = "map (\<lambda>(session_id, controller_device_id). \<lparr>ste_session_id = session_id,
                ste_controller_device_id = controller_device_id,
                ste_reason = error_code_code ErrorCode_LocalEmergencyStop\<rparr>) m"
  let ?t = "(sv_sessions sv)\<lparr>sr_sessions := Healthy bt_empty, sr_terminations := sr_terminations (sv_sessions sv) @ ?ev\<rparr>"
  have t: "terminate_all (sv_sessions sv) ErrorCode_LocalEmergencyStop = (?t, Inr ?ev)"
    using assms(2) by (simp add: terminate_all_def Let_def del: error_code_code.simps)
  have inv: "sessions_inv (sv_sessions sv)" using assms(1) by (simp add: service_inv_def)
  have s': "sv_sessions sv' = ?t"
    using assms(3) by (auto simp: emergency_stop_def t Let_def simp del: error_code_code.simps split: mutex.splits)
  have g: "service_grant sv' = service_grant sv"
    using emergency_kept(3) [of sv] assms(3) by (simp add: service_grant_def fun_eq_iff)
  have reasons: "\<forall>e \<in> set ?ev. ste_reason e = error_code_code ErrorCode_LocalEmergencyStop"
    by (auto simp del: error_code_code.simps)
  have full: "reply = Inr (LocalIpcServerFrame_EmergencyStopRemoteSessionResult
        \<lparr>esrsr2_terminated_session_count = word_of_nat (length m)\<rparr>)
      \<and> sv_remote_status sv' = Healthy idle_remote_status \<and> sv_bridge_status sv' = Healthy (stopped_bridge_status b)"
    if "sv_remote_status sv = Healthy r \<and> sv_bridge_status sv = Healthy b \<and> length m < 2 ^ 32" for r b
    using assms(3) that by (auto simp: emergency_stop_def t Let_def u32_try_from_def simp del: error_code_code.simps)
  have shown: "validate_privileged_bridge_status_snapshot (stopped_bridge_status b) = Inr ()"
    if "sv_bridge_status sv = Healthy b" for b
    using assms(1) that by (simp add: service_inv_def bridge_view_ok_def stopped_bridge_valid)
  have state: "pbss_active_controller_display_name (stopped_bridge_status b) = []
      \<and> pbss_state (stopped_bridge_status b) \<in> {privileged_bridge_state_code PrivilegedBridgeState_Ready,
                 privileged_bridge_state_code PrivilegedBridgeState_UserSessionOnly}" for b
    by (simp add: stopped_bridge_status_def user_session_only_bridge_status_def)
  have last: "reply = Inr (LocalIpcServerFrame_EmergencyStopRemoteSessionResult
          \<lparr>esrsr2_terminated_session_count = word_of_nat (length m)\<rparr>)
        \<and> sv_remote_status sv' = Healthy idle_remote_status
        \<and> (\<exists>b'. sv_bridge_status sv' = Healthy b' \<and> validate_privileged_bridge_status_snapshot b' = Inr ()
             \<and> pbss_active_controller_display_name b' = []
             \<and> pbss_state b' \<in> {privileged_bridge_state_code PrivilegedBridgeState_Ready,
                 privileged_bridge_state_code PrivilegedBridgeState_UserSessionOnly})"
    if h: "sv_remote_status sv = Healthy r \<and> sv_bridge_status sv = Healthy b \<and> length m < 2 ^ 32" for r b
    using full [OF h] shown [of b] state [of b] h by blast
  have ended: "\<exists>terminated. sr_terminations (sv_sessions sv') = sr_terminations (sv_sessions sv) @ terminated
        \<and> {(ste_session_id e, ste_controller_device_id e) |e. e \<in> set terminated}
            = {(i, d). session_owner (sv_sessions sv) i = Some d}
        \<and> (\<forall>e \<in> set terminated. ste_reason e = error_code_code ErrorCode_LocalEmergencyStop)"
    unfolding s' using terminate_all_effect [OF inv t] reasons by (intro exI [of _ ?ev]) (simp only: simp_thms)
  have "session_owner (sv_sessions sv') = Map.empty"
    unfolding s' using terminate_all_effect [OF inv t] by (simp only: simp_thms)
  then show ?thesis using g ended last by blast
qed

theorem emergency_stop_complete_witness:
  "session_owner (sv_sessions (fst (emergency_stop demo_service))) = Map.empty
   \<and> snd (emergency_stop demo_service) = Inr (LocalIpcServerFrame_EmergencyStopRemoteSessionResult
       \<lparr>esrsr2_terminated_session_count = 1\<rparr>)"
proof -
  have m: "sr_sessions (sv_sessions demo_service) = Healthy [(replicate 16 1, replicate 32 4)]"
    "sv_remote_status demo_service = Healthy idle_remote_status"
    "sv_bridge_status demo_service = Healthy user_session_only_bridge_status"
    by (simp_all add: demo_service_def)
  show ?thesis
    using emergency_stop_complete [OF demo_service_inv m(1) prod.collapse [symmetric]] m(2,3) by simp
qed

text \<open>
  C23. What the agent publishes is always consistent.  From a fresh service, whatever requests, bridge
  updates, session events and signaling events arrive in whatever order: the bridge status and the remote status
  pass their own validators; the interactive session the bridge status shows is of the newest generation
  ever accepted, and that generation never goes back; the identity stays the one the service started
  with; there are never more than 256 grants and every one of them is valid for its Controller.
\<close>

theorem published_state_consistent:
  assumes "host_service_new (pe_crypto env) ident reg inst started = Some sv0"
    and "authorization_load (pe_crypto env) ops host store = Inr reg"
    and "sv = fst (run_steps (service_step env ops) sv0 xs)"
  shows "validate_privileged_bridge_status_snapshot (locked_value (sv_bridge_status sv)) = Inr ()
    \<and> validate_remote_session_status_snapshot (locked_value (sv_remote_status sv)) = Inr ()
    \<and> (\<forall>d. pbss_interactive_session (locked_value (sv_bridge_status sv)) = Some d \<and> psd_generation d \<noteq> 0
         \<longrightarrow> psd_generation d = locked_value (sv_bridge_generation sv))
    \<and> (\<forall>ys. locked_value (sv_bridge_generation sv)
         \<le> locked_value (sv_bridge_generation (fst (run_steps (service_step env ops) sv ys))))
    \<and> sv_identity sv = ident
    \<and> length (list_controller_grants (locked_value (sv_authorization sv))) \<le> 256
    \<and> (\<forall>k v. service_grant sv k = Some v \<longrightarrow> controller_device_id_for v = Some k)"
proof -
  have "registry_ok (pe_crypto env) reg"
    using authorization_load_ok [OF assms(2)] by (simp add: registry_ok_def)
  from inv_service_new [OF assms(1) this] have inv: "service_inv env sv"
    unfolding assms(3) by (rule service.run_inv)
  have "sv_identity sv0 = ident" using assms(1) by (auto simp: host_service_new_def)
  then have ident: "sv_identity sv = ident" unfolding assms(3) by (rule service_identity.run_inv)
  have "length (list_controller_grants (locked_value (sv_authorization sv))) \<le> 256"
    "\<forall>k v. service_grant sv k = Some v \<longrightarrow> controller_device_id_for v = Some k"
    using inv by (auto simp: service_inv_def registry_ok_def grants_ok_def limits list_controller_grants_def
        bt_values_def service_grant_def controller_grant_of_def dest: stored_controller_id)
  then show ?thesis
    using inv ident service.run_rank [OF inv, of ops]
    by (auto simp: service_inv_def bridge_view_ok_def snapshot_generation_def)
qed

theorem published_state_consistent_witness:
  "sv_identity (fst (run_steps (service_step demo_env demo_store)
       (the (host_service_new demo_crypto demo_identity demo_registry 1 1000))
       [SignalingUp, BridgeStatus user_session_only_bridge_status None, RegisterActive [1] [2]])) = demo_identity"
proof -
  have l: "authorization_load demo_crypto demo_store (replicate 32 3) memory_grant_store_new = Inr demo_registry"
    by (simp add: authorization_load_def memory_store_def memory_load_def memory_grant_store_new_def demo_registry_def
        bt_empty_def limits)
  obtain sv where sv: "host_service_new demo_crypto demo_identity demo_registry 1 1000 = Some sv"
    by (simp add: host_service_new_def from_validated_host_def demo_identity_def demo_coordinator_new)
  from published_state_consistent [of demo_env demo_identity demo_registry 1 1000 sv demo_store "replicate 32 3"
      memory_grant_store_new "fst (run_steps (service_step demo_env demo_store) sv
       [SignalingUp, BridgeStatus user_session_only_bridge_status None, RegisterActive [1] [2]])"] l sv
  show ?thesis by (simp only: demo_env_simps option.sel)
qed

lemma payload_not_error: "snd (handle_payload env ops dr sv payload now) \<noteq> Inr (LocalIpcServerFrame_Error e)"
proof -
  have sb: "snd (sbind m (\<lambda>sv' x. (sv', Inr (f x)))) \<noteq> Inr (LocalIpcServerFrame_Error e)"
    if "\<And>x. f x \<noteq> LocalIpcServerFrame_Error e" for m :: "'a host_service \<times> (service_error + 'b)" and f
    using that by (cases m; cases "snd m") auto
  have st: "snd (then_pairing_status m) \<noteq> Inr (LocalIpcServerFrame_Error e)" for m :: "'a host_service \<times> _"
    by (cases m; cases "snd m") (auto simp: then_pairing_status_def pairing_status_payload_def bind_res_Inr)
  have rv: "snd (revoke ops sv i) \<noteq> Inr (LocalIpcServerFrame_Error e)" for i
    by (auto simp: revoke_def sbind_def bind_res_Inr split: prod.splits sum.splits option.splits)
  have em: "snd (emergency_stop sv) \<noteq> Inr (LocalIpcServerFrame_Error e)"
    by (auto simp: emergency_stop_def Let_def bind_res_Inr split: prod.splits sum.splits mutex.splits)
  have cr: "snd (create_grant_payload env ops dr sv q now) \<noteq> Inr (LocalIpcServerFrame_Error e)" for q
    by (auto simp: create_grant_payload_def sb split: option.splits sum.splits)
  have pa: "snd (handle_pairing_payload env ops dr sv payload now) \<noteq> Inr (LocalIpcServerFrame_Error e)"
    by (cases payload) (auto simp: handle_pairing_payload_def sb st smap_err_def with_pairing_def Let_def
        split: mutex.splits)
  show ?thesis
    using rv em cr pa
    by (cases payload) (auto simp: handle_payload_def host_status_payload_def bind_res_Inr)
qed

lemma error_row_facts:
  assumes "error_row e = (code, key, retryable)"
  shows "code \<noteq> ErrorCode_Unspecified \<and> length key \<le> 64 \<and> (retryable \<longleftrightarrow> code = ErrorCode_ServerUnavailable)"
  using assms by (cases e rule: error_row.cases) auto

text \<open>
  Every request is answered, and an error is never misleading.  The reply repeats the request
  identifier and carries protocol version 1.0 and a payload; an error payload passes the error validator whenever
  the identifier fits its limit, names the request, is retryable exactly when the service is unavailable, and is the only
  answer to a frame without payload or to a second authentication, neither of which changes anything.
\<close>

theorem request_answered:
  assumes "handle_frame env ops dr sv frame now = (sv', reply)"
  shows "lisf_request_id reply = licf_request_id frame
    \<and> lisf_protocol_version reply = Some \<lparr>pv_major = 1, pv_minor = 0\<rparr>
    \<and> lisf_payload reply \<noteq> None
    \<and> (\<forall>e. lisf_payload reply = Some (LocalIpcServerFrame_Error e) \<longrightarrow>
         ue_request_id e = licf_request_id frame
         \<and> (ue_retryable e \<longleftrightarrow> ue_code e = error_code_code ErrorCode_ServerUnavailable)
         \<and> (length (licf_request_id frame) \<le> MAX_REQUEST_ID_UTF8_BYTES \<longrightarrow> validate_unified_error e = Inr ()))
    \<and> (licf_payload frame = None \<or> (\<exists>q. licf_payload frame = Some (LocalIpcClientFrame_Authenticate q)) \<longrightarrow>
         sv' = sv \<and> lisf_payload reply = Some (LocalIpcServerFrame_Error
           (to_unified_error ServiceError_InvalidRequest (licf_request_id frame))))"
proof -
  define out where "out = (case licf_payload frame of None \<Rightarrow> (sv, Inl ServiceError_InvalidRequest)
      | Some payload \<Rightarrow> handle_payload env ops dr sv payload now)"
  have reply: "reply = \<lparr>lisf_protocol_version = Some service_protocol_version, lisf_request_id = licf_request_id frame,
      lisf_payload = Some (case snd out of Inr payload \<Rightarrow> payload
        | Inl e \<Rightarrow> LocalIpcServerFrame_Error (to_unified_error e (licf_request_id frame)))\<rparr>" and sv': "sv' = fst out"
    using assms by (auto simp: handle_frame_def out_def split_def Let_def)
  have ok: "snd out \<noteq> Inr (LocalIpcServerFrame_Error e)" for e
    using payload_not_error [of env ops dr sv _ now e] by (simp add: out_def split: option.splits)
  have err: "ue_request_id (to_unified_error x r) = r
      \<and> (ue_retryable (to_unified_error x r) \<longleftrightarrow> ue_code (to_unified_error x r) = error_code_code ErrorCode_ServerUnavailable)
      \<and> (length r \<le> MAX_REQUEST_ID_UTF8_BYTES \<longrightarrow> validate_unified_error (to_unified_error x r) = Inr ())" for x r
  proof -
    obtain code key retryable where row: "error_row x = (code, key, retryable)" by (metis prod_cases3)
    have "error_code_code code \<noteq> 0"
      using error_row_facts [OF row] error_code.code_inject [of code ErrorCode_Unspecified] by simp
    then show ?thesis
      using error_row_facts [OF row] error_code.code_inject [of code ErrorCode_ServerUnavailable]
      by (simp add: to_unified_error_def row validate_unified_error_def all_ok_Inr accepted limits
          del: error_code_code.simps all_ok.simps)
  qed
  have first: "licf_payload frame = None \<or> (\<exists>q. licf_payload frame = Some (LocalIpcClientFrame_Authenticate q))
      \<Longrightarrow> out = (sv, Inl ServiceError_InvalidRequest)"
    by (auto simp: out_def handle_payload_def)
  show ?thesis
  proof (intro conjI allI impI)
    fix e assume "lisf_payload reply = Some (LocalIpcServerFrame_Error e)"
    then obtain x where "e = to_unified_error x (licf_request_id frame)" using ok by (cases "snd out") (auto simp: reply)
    with err [of x "licf_request_id frame"] show "ue_request_id e = licf_request_id frame"
      "ue_retryable e \<longleftrightarrow> ue_code e = error_code_code ErrorCode_ServerUnavailable"
      "length (licf_request_id frame) \<le> MAX_REQUEST_ID_UTF8_BYTES \<Longrightarrow> validate_unified_error e = Inr ()" by blast+
  qed (simp_all add: reply sv' first service_protocol_version_def limits)
qed

theorem request_answered_witness:
  "\<exists>reply. handle_frame demo_env demo_store \<lparr>rd_pairing = \<lparr>pdr_rendezvous = None, pdr_private_key = None, pdr_code = None\<rparr>,
       rd_grant_id = (\<lambda>_. None)\<rparr> demo_service
       \<lparr>licf_protocol_version = None, licf_request_id = ''r1'', licf_payload = None\<rparr> 5 = (demo_service, reply)
     \<and> lisf_request_id reply = ''r1''"
  using request_answered [OF prod.collapse [symmetric], of demo_env demo_store
      "\<lparr>rd_pairing = \<lparr>pdr_rendezvous = None, pdr_private_key = None, pdr_code = None\<rparr>, rd_grant_id = (\<lambda>_. None)\<rparr>" demo_service
      "\<lparr>licf_protocol_version = None, licf_request_id = ''r1'', licf_payload = None\<rparr>" 5]
  by (auto simp: prod_eq_iff)

definition demo_offer :: session_offer_authentication where
  "demo_offer = \<lparr>soa_controller_device_id = replicate 32 4, soa_host_device_id = replicate 32 3,
     soa_session_id = replicate 16 1, soa_nonce = replicate 32 4, soa_issued_at_unix_ms = 1000,
     soa_expires_at_unix_ms = 21000, soa_requested_permissions = [1, 2],
     soa_offer_sha256 = replicate 32 5, soa_controller_dtls_fingerprint_sha256 = replicate 32 6,
     soa_signature = replicate 64 7\<rparr>"

text \<open>
  An answer proves who answers which offer.  What the Host signs in reply is the offer field for field,
  with the hash of its own SDP, its own fingerprint and, for a reconnect, the generation; it is
  only signed when the offer names this very Host, and for an offer with well-formed fields and permissions that does, it always
  is.  With a signature scheme that accepts its own signatures, the Controller's check of the answer
  under the Host's public key succeeds.
\<close>

theorem answer_verifies:
  fixes c :: crypto
  assumes "\<forall>m. ed25519_verify c (di_public_key (hi_device_identity (sv_identity sv))) m
      (ed25519_sign (pe_signer env) (hi_signing_key (sv_identity sv)) m)"
    and "\<forall>m. length (sha256 (pe_crypto env) m) = 32"
  shows "(validate_fixed_fields offer = Inr () \<and> soa_requested_permissions offer \<in> {[1], [1, 2]} \<and> length fp = 32
        \<and> soa_host_device_id offer = di_device_id (hi_device_identity (sv_identity sv))
        \<longrightarrow> (\<exists>answer. sign_remote_answer env sv offer sdp fp = Inr answer))
    \<and> (sign_remote_answer env sv offer sdp fp = Inr answer \<longrightarrow>
      (\<exists>sig. answer = (unsigned_answer (pe_crypto env) offer sdp fp)\<lparr>saa_signature := sig\<rparr>)
      \<and> soa_host_device_id offer = di_device_id (hi_device_identity (sv_identity sv))
      \<and> (\<exists>t. encode_session_answer_transcript answer = Inr t
           \<and> ed25519_verify c (di_public_key (hi_device_identity (sv_identity sv))) t (saa_signature answer)))
    \<and> (sign_remote_reconnect env sv offer sdp fp generation = Inr reconnect \<longrightarrow>
      (\<exists>sig. reconnect = (unsigned_reconnect (pe_crypto env) offer sdp fp generation)\<lparr>sra_signature := sig\<rparr>)
      \<and> soa_host_device_id offer = di_device_id (hi_device_identity (sv_identity sv))
      \<and> (\<exists>t. encode_session_reconnect_transcript reconnect = Inr t
           \<and> ed25519_verify c (di_public_key (hi_device_identity (sv_identity sv))) t (sra_signature reconnect)))"
  using assms sign_answer_total [of offer sv fp env sdp] sign_answer_ok [of env sv offer sdp fp answer c]
    sign_reconnect_ok [of env sv offer sdp fp generation reconnect c]
  by (simp add: signs_for_def)

theorem answer_verifies_witness:
  "\<exists>answer t. sign_remote_answer demo_env demo_service demo_offer ''sdp'' (replicate 32 8) = Inr answer
     \<and> encode_session_answer_transcript answer = Inr t
     \<and> ed25519_verify demo_crypto (di_public_key demo_host) t (saa_signature answer)"
proof -
  have h: "\<forall>m. ed25519_verify demo_crypto (di_public_key (hi_device_identity (sv_identity demo_service))) m
      (ed25519_sign (pe_signer demo_env) (hi_signing_key (sv_identity demo_service)) m)"
    "\<forall>m. length (sha256 (pe_crypto demo_env) m) = 32"
    by (simp_all add: demo_crypto_def)
  have off: "validate_fixed_fields demo_offer = Inr ()" "soa_requested_permissions demo_offer = [1, 2]"
    "soa_host_device_id demo_offer = di_device_id (hi_device_identity (sv_identity demo_service))"
    "hi_device_identity (sv_identity demo_service) = demo_host"
    by (simp_all add: validate_fixed_fields_iff demo_offer_def demo_service_def demo_identity_def demo_host_def)
  note all = answer_verifies [OF h, of demo_offer "replicate 32 8" "''sdp''"]
  obtain answer where a: "sign_remote_answer demo_env demo_service demo_offer ''sdp'' (replicate 32 8) = Inr answer"
    using all [THEN conjunct1] off by auto
  then show ?thesis using all [of answer, THEN conjunct2, THEN conjunct1] off(4) by auto
qed

text \<open>
  Starting the service never hits the \<^verbatim>\<open>unreachable!\<close> of \<^verbatim>\<open>from_validated_host\<close>: for every identity that
  \<^verbatim>\<open>load_or_create\<close> returns, with digests and public keys of 32 bytes, the service starts, with nobody connected
  and everything idle.
\<close>

theorem service_starts:
  assumes "load_or_create c sg ops draw store name platform = (store', Inr ident)"
    and "\<forall>m. length (sha256 c m) = 32" and "\<forall>key. length (ed25519_public_key sg key) = 32"
  shows "\<exists>sv. host_service_new c ident reg inst started = Some sv \<and> active_session_count sv = 0
    \<and> sv_remote_status sv = Healthy idle_remote_status \<and> sv_bridge_status sv = Healthy user_session_only_bridge_status
    \<and> host_pairing_status sv = Inr (idle_snapshot 0)"
proof -
  obtain key where i: "validate_identity_metadata name platform = Inr ()"
    "derive_device_id_v1 (sha256 c) (ed25519_public_key sg key) = Inr (di_device_id (hi_device_identity ident))"
    "di_public_key (hi_device_identity ident) = ed25519_public_key sg key"
    "di_public_key_algorithm (hi_device_identity ident) = public_key_algorithm_code PublicKeyAlgorithm_Ed25519"
    "di_display_name (hi_device_identity ident) = name"
    "di_platform (hi_device_identity ident) = device_platform_code platform"
    using assms(1) by (auto simp: load_or_create_def sbind_Inr Let_def bind_res_Inr split: sum.splits)
  have n: "name \<noteq> []" "length name \<le> 128" "platform = DevicePlatform_Windows \<or> platform = DevicePlatform_Macos"
    using i(1) by (auto simp: validate_identity_metadata_def limits split: if_splits)
  have "length (di_device_id (hi_device_identity ident)) = 32"
    using i(2) assms(2) by (auto simp: derive_device_id_v1_def split: if_splits) metis
  then have "identity_ok (hi_device_identity ident)"
    using i n assms(3) by (auto simp: identity_ok_def)
  then have "validate_device_identity (hi_device_identity ident) = Inr ()" by (simp add: validate_device_identity_iff)
  then have "\<exists>p. pairing_coordinator_new c (hi_device_identity ident) = Inr p \<and> pc_status p = idle_snapshot 0"
    using i n assms(3) by (auto simp: pairing_coordinator_new_def device_platform_of_def)
  then show ?thesis
    by (auto simp: host_service_new_def from_validated_host_def active_session_count_def session_count_def
        session_registry_new_def host_pairing_status_def bt_empty_def)
qed

theorem service_starts_witness:
  "\<exists>sv. host_service_new example_crypto example_identity (demo_registry :: memory_grant_store authorization_registry) 1 1000 = Some sv
     \<and> active_session_count sv = 0"
proof -
  define sg :: signer where "sg = example_signer\<lparr>ed25519_public_key := (\<lambda>_. example_seed)\<rparr>"
  have "load_or_create example_crypto sg memory_secret_ops (Some 5) memory_secret_store_new ''host'' DevicePlatform_Windows
      = (\<lparr>mss_value = Healthy (Some example_seed)\<rparr>, Inr example_identity)"
    using example_created by (simp add: load_or_create_def sg_def example_signer_def load_or_draw_key_def
        memory_secret_ops_def memory_secret_load_def memory_secret_put_def memory_secret_store_new_def Let_def limits
        validate_identity_metadata_def example_seed_def)
  moreover have "\<forall>m. length (sha256 example_crypto m) = 32" "\<forall>key. length (ed25519_public_key sg key) = 32"
    by (simp_all add: example_crypto_def sg_def example_seed_def)
  ultimately show ?thesis
    using service_starts [of example_crypto sg memory_secret_ops "Some 5" memory_secret_store_new "''host''"
        DevicePlatform_Windows _ example_identity demo_registry 1 1000] by blast
qed

end
