(* ===== verification/Ipc_Auth.thy ===== *)
theory Ipc_Auth
  imports Wire_Messages
begin

text \<open>
  Who may speak on a local connection.  \<^verbatim>\<open>crates/ipc/src/auth.rs\<close>: the two proofs of a challenge-response
  handshake, separated by channel and direction; \<^verbatim>\<open>crates/ipc/src/protocol.rs\<close>: the server side of
  the Flutter-to-Host connection, which admits requests only after the handshake; and
  \<^verbatim>\<open>crates/privileged-bridge/src/auth.rs\<close>: the handshake of the privileged bridge with its bounded replay cache.
  HMAC-SHA256 is the parameter \<open>hmac\<close>, a function of the key and of the concatenation of what was
  passed to \<^verbatim>\<open>update\<close>; \<^verbatim>\<open>verify_slice\<close> accepts exactly the full tag.
\<close>

section \<open>Proofs\<close>

definition CLIENT_PROOF_DOMAIN :: bytes where
  "CLIENT_PROOF_DOMAIN = as_bytes ''PRD-IPC-CLIENT-V1''"

definition SERVER_PROOF_DOMAIN :: bytes where
  "SERVER_PROOF_DOMAIN = as_bytes ''PRD-IPC-SERVER-V1''"

definition PRIVILEGED_HOST_CLIENT_DOMAIN :: bytes where
  "PRIVILEGED_HOST_CLIENT_DOMAIN = as_bytes ''PRD-BRIDGE-HOST-CLIENT-V1''"

definition PRIVILEGED_HOST_SERVER_DOMAIN :: bytes where
  "PRIVILEGED_HOST_SERVER_DOMAIN = as_bytes ''PRD-BRIDGE-HOST-SERVER-V1''"

definition PRIVILEGED_HELPER_CLIENT_DOMAIN :: bytes where
  "PRIVILEGED_HELPER_CLIENT_DOMAIN = as_bytes ''PRD-BRIDGE-HELPER-CLIENT-V1''"

definition PRIVILEGED_HELPER_SERVER_DOMAIN :: bytes where
  "PRIVILEGED_HELPER_SERVER_DOMAIN = as_bytes ''PRD-BRIDGE-HELPER-SERVER-V1''"

datatype auth_channel =
    AuthChannel_FlutterHost
  | AuthChannel_PrivilegedHost
  | AuthChannel_PrivilegedHelper

fun client_domain :: "auth_channel \<Rightarrow> bytes" where
  "client_domain AuthChannel_FlutterHost = CLIENT_PROOF_DOMAIN"
| "client_domain AuthChannel_PrivilegedHost = PRIVILEGED_HOST_CLIENT_DOMAIN"
| "client_domain AuthChannel_PrivilegedHelper = PRIVILEGED_HELPER_CLIENT_DOMAIN"

fun server_domain :: "auth_channel \<Rightarrow> bytes" where
  "server_domain AuthChannel_FlutterHost = SERVER_PROOF_DOMAIN"
| "server_domain AuthChannel_PrivilegedHost = PRIVILEGED_HOST_SERVER_DOMAIN"
| "server_domain AuthChannel_PrivilegedHelper = PRIVILEGED_HELPER_SERVER_DOMAIN"

type_synonym mac_function = "bytes \<Rightarrow> bytes \<Rightarrow> bytes"

text \<open>What the four calls of \<^verbatim>\<open>update\<close> feed to the MAC.\<close>

definition proof_input :: "bytes \<Rightarrow> bytes \<Rightarrow> bytes \<Rightarrow> bytes \<Rightarrow> bytes" where
  "proof_input domain instance_id server_nonce client_nonce =
     domain @ instance_id @ server_nonce @ client_nonce"

definition proof_mac :: "mac_function \<Rightarrow> bytes \<Rightarrow> bytes \<Rightarrow> bytes \<Rightarrow> bytes \<Rightarrow> bytes \<Rightarrow> bytes" where
  "proof_mac hmac token domain instance_id server_nonce client_nonce =
     hmac token (proof_input domain instance_id server_nonce client_nonce)"

definition domain_proof :: "mac_function \<Rightarrow> bytes \<Rightarrow> bytes \<Rightarrow> bytes \<Rightarrow> bytes \<Rightarrow> bytes \<Rightarrow> bytes" where
  "domain_proof hmac token domain instance_id server_nonce client_nonce =
     proof_mac hmac token domain instance_id server_nonce client_nonce"

definition channel_client_proof ::
  "mac_function \<Rightarrow> bytes \<Rightarrow> auth_channel \<Rightarrow> bytes \<Rightarrow> bytes \<Rightarrow> bytes \<Rightarrow> bytes" where
  "channel_client_proof hmac token channel instance_id server_nonce client_nonce =
     domain_proof hmac token (client_domain channel) instance_id server_nonce client_nonce"

definition channel_server_proof ::
  "mac_function \<Rightarrow> bytes \<Rightarrow> auth_channel \<Rightarrow> bytes \<Rightarrow> bytes \<Rightarrow> bytes \<Rightarrow> bytes" where
  "channel_server_proof hmac token channel instance_id server_nonce client_nonce =
     domain_proof hmac token (server_domain channel) instance_id server_nonce client_nonce"

definition client_proof :: "mac_function \<Rightarrow> bytes \<Rightarrow> bytes \<Rightarrow> bytes \<Rightarrow> bytes \<Rightarrow> bytes" where
  "client_proof hmac token = channel_client_proof hmac token AuthChannel_FlutterHost"

definition server_proof :: "mac_function \<Rightarrow> bytes \<Rightarrow> bytes \<Rightarrow> bytes \<Rightarrow> bytes \<Rightarrow> bytes" where
  "server_proof hmac token = channel_server_proof hmac token AuthChannel_FlutterHost"

definition verify_channel_client_proof ::
  "mac_function \<Rightarrow> bytes \<Rightarrow> auth_channel \<Rightarrow> bytes \<Rightarrow> bytes \<Rightarrow> bytes \<Rightarrow> bytes \<Rightarrow> bool" where
  "verify_channel_client_proof hmac token channel instance_id server_nonce client_nonce candidate =
     (proof_mac hmac token (client_domain channel) instance_id server_nonce client_nonce = candidate)"

definition verify_channel_server_proof ::
  "mac_function \<Rightarrow> bytes \<Rightarrow> auth_channel \<Rightarrow> bytes \<Rightarrow> bytes \<Rightarrow> bytes \<Rightarrow> bytes \<Rightarrow> bool" where
  "verify_channel_server_proof hmac token channel instance_id server_nonce client_nonce candidate =
     (proof_mac hmac token (server_domain channel) instance_id server_nonce client_nonce = candidate)"

definition verify_client_proof ::
  "mac_function \<Rightarrow> bytes \<Rightarrow> bytes \<Rightarrow> bytes \<Rightarrow> bytes \<Rightarrow> bytes \<Rightarrow> bool" where
  "verify_client_proof hmac token = verify_channel_client_proof hmac token AuthChannel_FlutterHost"

section \<open>The server side of the local connection\<close>

definition NONCE_BYTES :: nat where
  [limits]: "NONCE_BYTES = 32"

definition IPC_MAX_PENDING_REQUESTS :: nat where
  [limits]: "IPC_MAX_PENDING_REQUESTS = 32"

datatype protocol_error =
    ProtocolError_AuthenticationRequired
  | ProtocolError_AlreadyAuthenticated
  | ProtocolError_AuthenticationFailed
  | ProtocolError_InvalidAuthenticationLength
  | ProtocolError_UnsupportedVersion
  | ProtocolError_InvalidRequestId
  | ProtocolError_DuplicateRequestId
  | ProtocolError_MissingPayload
  | ProtocolError_PendingRequestLimit

record server_protocol =
  sp_token :: bytes
  sp_instance_id :: bytes
  sp_server_nonce :: bytes
  sp_authenticated :: bool
  sp_pending_request_ids :: "string set"

definition server_protocol_new :: "bytes \<Rightarrow> bytes \<Rightarrow> bytes \<Rightarrow> server_protocol" where
  "server_protocol_new token instance_id server_nonce =
     \<lparr>sp_token = token, sp_instance_id = instance_id, sp_server_nonce = server_nonce,
      sp_authenticated = False, sp_pending_request_ids = {}\<rparr>"

definition server_challenge :: "server_protocol \<Rightarrow> local_ipc_challenge" where
  "server_challenge s = \<lparr>lic_agent_instance_id = sp_instance_id s, lic_server_nonce = sp_server_nonce s\<rparr>"

definition supported_version :: "protocol_version \<Rightarrow> bool" where
  "supported_version version \<longleftrightarrow>
     pv_major version = PROTOCOL_MAJOR_VERSION \<and> pv_minor version = MINIMUM_PROTOCOL_MINOR_VERSION"

definition validate_common_frame :: "local_ipc_client_frame \<Rightarrow> protocol_error + unit" where
  "validate_common_frame frame =
     bind_res (ok_or ProtocolError_UnsupportedVersion (licf_protocol_version frame)) (\<lambda>version.
       if \<not> supported_version version then Inl ProtocolError_UnsupportedVersion
       else if licf_request_id frame = [] \<or> length (licf_request_id frame) > MAX_REQUEST_ID_UTF8_BYTES
         then Inl ProtocolError_InvalidRequestId
       else if licf_payload frame = None then Inl ProtocolError_MissingPayload
       else Inr ())"

definition server_authenticate ::
  "mac_function \<Rightarrow> server_protocol \<Rightarrow> local_ipc_client_frame
    \<Rightarrow> server_protocol \<times> (protocol_error + local_ipc_authenticated)" where
  "server_authenticate hmac s frame =
     (if sp_authenticated s then (s, Inl ProtocolError_AlreadyAuthenticated)
      else case validate_common_frame frame of
        Inl e \<Rightarrow> (s, Inl e)
      | Inr _ \<Rightarrow>
      (case licf_payload frame of
         None \<Rightarrow> (s, Inl ProtocolError_MissingPayload)
       | Some (LocalIpcClientFrame_Authenticate authentication) \<Rightarrow>
           let client_nonce = lia_client_nonce authentication in
           if length client_nonce \<noteq> NONCE_BYTES then (s, Inl ProtocolError_InvalidAuthenticationLength)
           else if length (lia_client_proof authentication) \<noteq> NONCE_BYTES
             then (s, Inl ProtocolError_InvalidAuthenticationLength)
           else if \<not> verify_client_proof hmac (sp_token s) (sp_instance_id s) (sp_server_nonce s)
                     client_nonce (lia_client_proof authentication)
             then (s, Inl ProtocolError_AuthenticationFailed)
           else (s\<lparr>sp_authenticated := True\<rparr>,
             Inr \<lparr>liad_server_proof =
               server_proof hmac (sp_token s) (sp_instance_id s) (sp_server_nonce s) client_nonce\<rparr>)
       | Some _ \<Rightarrow> (s, Inl ProtocolError_AuthenticationRequired)))"

definition begin_request ::
  "server_protocol \<Rightarrow> local_ipc_client_frame \<Rightarrow> server_protocol \<times> (protocol_error + unit)" where
  "begin_request s frame =
     (if \<not> sp_authenticated s then (s, Inl ProtocolError_AuthenticationRequired)
      else case validate_common_frame frame of
        Inl e \<Rightarrow> (s, Inl e)
      | Inr _ \<Rightarrow>
          if (case licf_payload frame of Some (LocalIpcClientFrame_Authenticate _) \<Rightarrow> True | _ \<Rightarrow> False)
            then (s, Inl ProtocolError_AlreadyAuthenticated)
          else if licf_request_id frame \<in> sp_pending_request_ids s
            then (s, Inl ProtocolError_DuplicateRequestId)
          else if card (sp_pending_request_ids s) \<ge> IPC_MAX_PENDING_REQUESTS
            then (s, Inl ProtocolError_PendingRequestLimit)
          else (s\<lparr>sp_pending_request_ids := insert (licf_request_id frame) (sp_pending_request_ids s)\<rparr>, Inr ()))"

definition complete_request :: "server_protocol \<Rightarrow> string \<Rightarrow> server_protocol" where
  "complete_request s request_id = s\<lparr>sp_pending_request_ids := sp_pending_request_ids s - {request_id}\<rparr>"

section \<open>The handshake of the privileged bridge\<close>

datatype bridge_role = BridgeRole_HostAgent | BridgeRole_SessionHelper

fun role_auth_channel :: "bridge_role \<Rightarrow> auth_channel" where
  "role_auth_channel BridgeRole_HostAgent = AuthChannel_PrivilegedHost"
| "role_auth_channel BridgeRole_SessionHelper = AuthChannel_PrivilegedHelper"

datatype authentication_error =
    AuthenticationError_InvalidLength
  | AuthenticationError_ReflectedNonce
  | AuthenticationError_AuthenticationFailed
  | AuthenticationError_NonceReused
  | AuthenticationError_AlreadyAuthenticated
  | AuthenticationError_InvalidReplayCapacity

text \<open>The set and the queue of \<^verbatim>\<open>NonceReplayGuard\<close>, both kept.\<close>

record nonce_replay_guard =
  rg_used :: "bytes set"
  rg_insertion_order :: "bytes list"
  rg_capacity :: nat

definition nonce_replay_guard_new :: "nat \<Rightarrow> authentication_error + nonce_replay_guard" where
  "nonce_replay_guard_new capacity =
     (if capacity = 0 then Inl AuthenticationError_InvalidReplayCapacity
      else Inr \<lparr>rg_used = {}, rg_insertion_order = [], rg_capacity = capacity\<rparr>)"

definition nonce_claim ::
  "nonce_replay_guard \<Rightarrow> bytes \<Rightarrow> nonce_replay_guard \<times> (authentication_error + unit)" where
  "nonce_claim g nonce =
     (if nonce \<in> rg_used g then (g, Inl AuthenticationError_NonceReused)
      else
        let g' = (if card (rg_used g) = rg_capacity g
                  then case rg_insertion_order g of
                         [] \<Rightarrow> g
                       | expired # rest \<Rightarrow> g\<lparr>rg_insertion_order := rest, rg_used := rg_used g - {expired}\<rparr>
                  else g)
        in (g'\<lparr>rg_used := insert nonce (rg_used g'), rg_insertion_order := rg_insertion_order g' @ [nonce]\<rparr>,
            Inr ()))"

record bridge_authenticator =
  ba_role :: bridge_role
  ba_secret :: bytes
  ba_instance_id :: bytes
  ba_server_nonce :: bytes
  ba_authenticated :: bool

definition bridge_authenticator_new ::
  "bridge_role \<Rightarrow> bytes \<Rightarrow> bytes \<Rightarrow> bytes \<Rightarrow> bridge_authenticator" where
  "bridge_authenticator_new role secret instance_id server_nonce =
     \<lparr>ba_role = role, ba_secret = secret, ba_instance_id = instance_id, ba_server_nonce = server_nonce,
      ba_authenticated = False\<rparr>"

definition bridge_challenge :: "bridge_authenticator \<Rightarrow> bytes \<times> bytes" where
  "bridge_challenge a = (ba_instance_id a, ba_server_nonce a)"

text \<open>The authenticator and the shared guard are both \<^verbatim>\<open>&mut\<close>: both are returned.\<close>

definition bridge_authenticate ::
  "mac_function \<Rightarrow> bridge_authenticator \<Rightarrow> bytes \<Rightarrow> bytes \<Rightarrow> nonce_replay_guard
    \<Rightarrow> (bridge_authenticator \<times> nonce_replay_guard) \<times> (authentication_error + bytes)" where
  "bridge_authenticate hmac a client_nonce presented replay_guard =
     (let refuse = (\<lambda>e. ((a, replay_guard), Inl e)) in
      if ba_authenticated a then refuse AuthenticationError_AlreadyAuthenticated
      else if length client_nonce \<noteq> NONCE_BYTES then refuse AuthenticationError_InvalidLength
      else if length presented \<noteq> NONCE_BYTES then refuse AuthenticationError_InvalidLength
      else if client_nonce = ba_server_nonce a then refuse AuthenticationError_ReflectedNonce
      else if \<not> verify_channel_client_proof hmac (ba_secret a) (role_auth_channel (ba_role a))
                (ba_instance_id a) (ba_server_nonce a) client_nonce presented
        then refuse AuthenticationError_AuthenticationFailed
      else case nonce_claim replay_guard client_nonce of
        (g, Inl e) \<Rightarrow> ((a, g), Inl e)
      | (g, Inr _) \<Rightarrow>
          ((a\<lparr>ba_authenticated := True\<rparr>, g),
           Inr (channel_server_proof hmac (ba_secret a) (role_auth_channel (ba_role a))
                  (ba_instance_id a) (ba_server_nonce a) client_nonce)))"

section \<open>What a proof speaks about\<close>

lemmas domain_defs = CLIENT_PROOF_DOMAIN_def SERVER_PROOF_DOMAIN_def PRIVILEGED_HOST_CLIENT_DOMAIN_def
  PRIVILEGED_HOST_SERVER_DOMAIN_def PRIVILEGED_HELPER_CLIENT_DOMAIN_def PRIVILEGED_HELPER_SERVER_DOMAIN_def

text \<open>
  The six domains are pairwise different, and the parts behind them have fixed lengths: the input of the MAC
  can be read in one way only.
\<close>

lemma domains_distinct:
  "client_domain c = client_domain c' \<longleftrightarrow> c = c'"
  "server_domain c = server_domain c' \<longleftrightarrow> c = c'"
  "client_domain c \<noteq> server_domain c'"
  by (cases c; cases c'; simp add: domain_defs as_bytes_def)+

lemma proof_input_inject:
  assumes "length i = 16" "length i' = 16" "length s = 32" "length s' = 32" "length n = 32" "length n' = 32"
  shows "proof_input d i s n = proof_input d' i' s' n' \<longleftrightarrow> d = d' \<and> i = i' \<and> s = s' \<and> n = n'"
proof
  assume eq: "proof_input d i s n = proof_input d' i' s' n'"
  then have "length (proof_input d i s n) = length (proof_input d' i' s' n')" by simp
  then have "length d = length d'" using assms by (simp add: proof_input_def)
  with eq assms show "d = d' \<and> i = i' \<and> s = s' \<and> n = n'" by (simp add: proof_input_def)
qed simp

section \<open>The local connection as a machine\<close>

datatype ipc_op =
    IpcAuthenticate local_ipc_client_frame
  | IpcBegin local_ipc_client_frame
  | IpcComplete string

datatype ipc_out =
    IpcAuthenticated "protocol_error + local_ipc_authenticated"
  | IpcBegun "protocol_error + unit"
  | IpcCompleted

fun ipc_step :: "mac_function \<Rightarrow> server_protocol \<Rightarrow> ipc_op \<Rightarrow> server_protocol \<times> ipc_out" where
  "ipc_step hmac s (IpcAuthenticate f) = map_prod (\<lambda>t. t) IpcAuthenticated (server_authenticate hmac s f)"
| "ipc_step hmac s (IpcBegin f) = map_prod (\<lambda>t. t) IpcBegun (begin_request s f)"
| "ipc_step hmac s (IpcComplete i) = (complete_request s i, IpcCompleted)"

text \<open>A frame that answers the challenge of a connection.\<close>

definition answers_challenge :: "mac_function \<Rightarrow> bytes \<Rightarrow> bytes \<Rightarrow> bytes \<Rightarrow> local_ipc_client_frame \<Rightarrow> bool" where
  "answers_challenge hmac token instance_id server_nonce f \<longleftrightarrow> validate_common_frame f = Inr ()
     \<and> (\<exists>a. licf_payload f = Some (LocalIpcClientFrame_Authenticate a)
          \<and> length (lia_client_nonce a) = 32 \<and> length (lia_client_proof a) = 32
          \<and> lia_client_proof a = client_proof hmac token instance_id server_nonce (lia_client_nonce a))"

lemma server_authenticate_iff:
  "(\<exists>s' r. server_authenticate hmac s f = (s', Inr r)) \<longleftrightarrow>
     \<not> sp_authenticated s \<and> answers_challenge hmac (sp_token s) (sp_instance_id s) (sp_server_nonce s) f"
  by (cases "validate_common_frame f")
    (auto simp: server_authenticate_def answers_challenge_def client_proof_def channel_client_proof_def
      domain_proof_def verify_client_proof_def verify_channel_client_proof_def Let_def limits
      split: option.splits local_ipc_client_frame_payload.splits)

lemma server_authenticate_state:
  "fst (server_authenticate hmac s f) =
     (if is_ok (snd (server_authenticate hmac s f)) then s\<lparr>sp_authenticated := True\<rparr> else s)"
  by (cases "validate_common_frame f")
    (auto simp: server_authenticate_def Let_def split: option.splits local_ipc_client_frame_payload.splits)

lemma begin_request_iff:
  "snd (begin_request s f) = Inr u \<longleftrightarrow> sp_authenticated s \<and> validate_common_frame f = Inr ()
     \<and> (\<forall>a. licf_payload f \<noteq> Some (LocalIpcClientFrame_Authenticate a))
     \<and> licf_request_id f \<notin> sp_pending_request_ids s \<and> card (sp_pending_request_ids s) < 32"
  by (cases "validate_common_frame f")
    (auto simp: begin_request_def limits split: option.splits local_ipc_client_frame_payload.splits)

lemma begin_request_state:
  "fst (begin_request s f) =
     (if is_ok (snd (begin_request s f))
      then s\<lparr>sp_pending_request_ids := insert (licf_request_id f) (sp_pending_request_ids s)\<rparr> else s)"
  by (cases "validate_common_frame f") (auto simp: begin_request_def)

lemma validate_common_frame_id:
  "validate_common_frame f = Inr () \<Longrightarrow> licf_request_id f \<noteq> [] \<and> length (licf_request_id f) \<le> MAX_REQUEST_ID_UTF8_BYTES"
  by (auto simp: validate_common_frame_def bind_res_Inr split: if_splits)

definition ipc_inv :: "bytes \<Rightarrow> bytes \<Rightarrow> bytes \<Rightarrow> server_protocol \<Rightarrow> bool" where
  "ipc_inv token instance_id server_nonce s \<longleftrightarrow>
     sp_token s = token \<and> sp_instance_id s = instance_id \<and> sp_server_nonce s = server_nonce
     \<and> finite (sp_pending_request_ids s) \<and> card (sp_pending_request_ids s) \<le> 32
     \<and> (sp_authenticated s \<or> sp_pending_request_ids s = {})
     \<and> (\<forall>i \<in> sp_pending_request_ids s. i \<noteq> [] \<and> length i \<le> MAX_REQUEST_ID_UTF8_BYTES)"

interpretation ipc: machine "ipc_step hmac" "ipc_inv token instance_id server_nonce"
  for hmac token instance_id server_nonce
proof
  fix s a
  assume inv: "ipc_inv token instance_id server_nonce s"
  show "ipc_inv token instance_id server_nonce (fst (ipc_step hmac s a))"
  proof (cases a)
    case (IpcAuthenticate f)
    with inv show ?thesis by (simp add: server_authenticate_state ipc_inv_def)
  next
    case (IpcBegin f)
    show ?thesis
    proof (cases "snd (begin_request s f)")
      case (Inr u)
      with IpcBegin inv show ?thesis
        using begin_request_iff [of s f u] validate_common_frame_id [of f]
        by (simp add: begin_request_state ipc_inv_def card_insert_if)
    qed (use IpcBegin inv in \<open>simp add: begin_request_state\<close>)
  next
    case (IpcComplete i)
    with inv show ?thesis
      by (auto simp: ipc_inv_def complete_request_def card_Diff_singleton_if)
  qed
qed

lemma ipc_authenticated_by:
  assumes "ipc_inv token instance_id server_nonce s" "\<not> sp_authenticated s"
    "sp_authenticated (fst (run_steps (ipc_step hmac) s ops))"
  shows "\<exists>f. IpcAuthenticate f \<in> set ops \<and> answers_challenge hmac token instance_id server_nonce f"
  using assms
proof (induction ops arbitrary: s)
  case Nil
  then show ?case by simp
next
  case (Cons a ops)
  let ?t = "fst (ipc_step hmac s a)"
  have inv: "ipc_inv token instance_id server_nonce ?t" using Cons.prems(1) by (rule ipc.step_inv)
  show ?case
  proof (cases "sp_authenticated ?t")
    case True
    then obtain f where f: "a = IpcAuthenticate f" "is_ok (snd (server_authenticate hmac s f))"
      using Cons.prems(2)
      by (cases a) (auto simp: server_authenticate_state begin_request_state complete_request_def split: if_splits)
    then have "answers_challenge hmac token instance_id server_nonce f"
      using server_authenticate_iff [of hmac s f] Cons.prems(1)
      by (cases "server_authenticate hmac s f"; cases "snd (server_authenticate hmac s f)")
        (auto simp: ipc_inv_def)
    with f show ?thesis by auto
  next
    case False
    have "sp_authenticated (fst (run_steps (ipc_step hmac) ?t ops))"
      using Cons.prems(3) by (simp only: fst_run_steps_Cons)
    with Cons.IH [OF inv False] show ?thesis by auto
  qed
qed

lemma ipc_stays_pending:
  assumes "i \<in> sp_pending_request_ids s" "IpcComplete i \<notin> set ops"
  shows "i \<in> sp_pending_request_ids (fst (run_steps (ipc_step hmac) s ops))"
  using assms
proof (induction ops arbitrary: s)
  case Nil
  then show ?case by simp
next
  case (Cons a ops)
  have "i \<in> sp_pending_request_ids (fst (ipc_step hmac s a))"
    using Cons.prems by (cases a) (auto simp: server_authenticate_state begin_request_state complete_request_def)
  with Cons show ?case by (simp only: fst_run_steps_Cons) simp
qed

lemma ipc_stays_authenticated:
  assumes "sp_authenticated s"
  shows "sp_authenticated (fst (run_steps (ipc_step hmac) s ops))"
  using assms
proof (induction ops arbitrary: s)
  case Nil
  then show ?case by simp
next
  case (Cons a ops)
  have "sp_authenticated (fst (ipc_step hmac s a))"
    using Cons.prems by (cases a) (auto simp: server_authenticate_state begin_request_state complete_request_def)
  with Cons show ?case by (simp only: fst_run_steps_Cons)
qed

section \<open>The replay window\<close>

type_synonym bridge_attempt = "bridge_authenticator \<times> bytes \<times> bytes"

text \<open>Connections arrive one after the other, each with its own authenticator; the guard is shared.\<close>

fun guard_step ::
  "mac_function \<Rightarrow> nonce_replay_guard \<Rightarrow> bridge_attempt \<Rightarrow> nonce_replay_guard \<times> (authentication_error + bytes)" where
  "guard_step hmac g (a, nonce, presented) = map_prod snd (\<lambda>r. r) (bridge_authenticate hmac a nonce presented g)"

fun accepted_nonces :: "mac_function \<Rightarrow> nonce_replay_guard \<Rightarrow> bridge_attempt list \<Rightarrow> bytes list" where
  "accepted_nonces hmac g [] = []"
| "accepted_nonces hmac g (x # xs) =
     (if is_ok (snd (guard_step hmac g x)) then [fst (snd x)] else [])
     @ accepted_nonces hmac (fst (guard_step hmac g x)) xs"

text \<open>The guard is the last \<open>c\<close> accepted nonces, in order, and repetitions are more than \<open>c\<close> apart.\<close>

definition window :: "nat \<Rightarrow> 'a list \<Rightarrow> 'a list" where
  "window c xs = drop (length xs - c) xs"

definition spaced :: "nat \<Rightarrow> 'a list \<Rightarrow> bool" where
  "spaced c xs \<longleftrightarrow> (\<forall>i j. i < j \<longrightarrow> j < length xs \<longrightarrow> xs ! i = xs ! j \<longrightarrow> i + c < j)"

lemma in_window: "x \<in> set (window c xs) \<longleftrightarrow> (\<exists>i < length xs. xs ! i = x \<and> length xs \<le> i + c)"
proof
  assume "x \<in> set (window c xs)"
  then obtain k where "k < length xs - (length xs - c)" "xs ! (length xs - c + k) = x"
    by (auto simp: window_def in_set_conv_nth)
  then show "\<exists>i < length xs. xs ! i = x \<and> length xs \<le> i + c"
    by (intro exI [of _ "length xs - c + k"]) auto
next
  assume "\<exists>i < length xs. xs ! i = x \<and> length xs \<le> i + c"
  then obtain i where "i < length xs" "xs ! i = x" "length xs \<le> i + c" by blast
  then show "x \<in> set (window c xs)"
    by (auto simp: window_def in_set_conv_nth intro!: exI [of _ "i - (length xs - c)"])
qed

lemma window_snoc:
  "c > 0 \<Longrightarrow> window c (xs @ [x]) = (if length xs < c then xs else tl (window c xs)) @ [x]"
  by (cases "length xs < c") (auto simp: window_def Suc_diff_le tl_drop drop_Suc not_less)

lemma window_short: "length xs < c \<Longrightarrow> window c xs = xs"
  by (simp add: window_def)

lemma length_window: "length (window c xs) = min c (length xs)"
  by (simp add: window_def)

lemma spaced_distinct: "spaced c xs \<Longrightarrow> distinct (window c xs)"
proof -
  assume spaced: "spaced c xs"
  let ?k = "length xs - c"
  have "window c xs ! i \<noteq> window c xs ! j" if "i < j" "j < length (window c xs)" for i j
  proof
    assume "window c xs ! i = window c xs ! j"
    then have "xs ! (?k + i) = xs ! (?k + j)" using that by (simp add: window_def)
    then have "?k + i + c < ?k + j" using spaced that by (simp add: spaced_def window_def)
    with that show False by (simp add: length_window)
  qed
  then show ?thesis by (metis distinct_conv_nth linorder_neqE_nat)
qed

lemma spaced_snoc: "spaced c xs \<Longrightarrow> x \<notin> set (window c xs) \<Longrightarrow> spaced c (xs @ [x])"
  unfolding spaced_def in_window by (auto simp: nth_append less_Suc_eq not_le split: if_splits)

definition guard_inv :: "nat \<Rightarrow> bytes list \<Rightarrow> nonce_replay_guard \<Rightarrow> bool" where
  "guard_inv c acc g \<longleftrightarrow> c > 0 \<and> rg_capacity g = c \<and> rg_insertion_order g = window c acc
     \<and> rg_used g = set (window c acc) \<and> spaced c acc"

lemma guard_inv_new: "nonce_replay_guard_new c = Inr g \<Longrightarrow> guard_inv c [] g"
  by (auto simp: nonce_replay_guard_new_def guard_inv_def window_def spaced_def split: if_splits)

lemma nonce_claim_iff: "snd (nonce_claim g n) = Inr u \<longleftrightarrow> n \<notin> rg_used g"
  by (simp add: nonce_claim_def Let_def)

lemma nonce_claim_inv:
  assumes "guard_inv c acc g"
  shows "guard_inv c (if n \<in> rg_used g then acc else acc @ [n]) (fst (nonce_claim g n))"
proof (cases "n \<in> rg_used g")
  case True
  with assms show ?thesis by (simp add: nonce_claim_def)
next
  case False
  have d: "distinct (window c acc)" and c: "c > 0" and used: "rg_used g = set (window c acc)"
    and order: "rg_insertion_order g = window c acc" and cap: "rg_capacity g = c"
    using assms by (simp_all add: guard_inv_def spaced_distinct)
  have full: "card (rg_used g) = c \<longleftrightarrow> c \<le> length acc"
    using d by (simp add: used distinct_card length_window min_def)
  have spaced: "spaced c (acc @ [n])"
    using assms False by (simp add: guard_inv_def spaced_snoc)
  show ?thesis
  proof (cases "window c acc")
    case Nil
    then have "acc = []" using c length_window [of c acc] by (simp add: min_def split: if_splits)
    with Nil False full c show ?thesis
      by (simp add: nonce_claim_def Let_def guard_inv_def cap used order spaced [simplified] window_def spaced_def)
  next
    case (Cons e rest)
    then have "e \<notin> set rest" using d by simp
    with Cons False full c spaced show ?thesis
      by (auto simp: nonce_claim_def Let_def guard_inv_def cap used order window_snoc window_short not_less)
  qed
qed

lemma bridge_authenticate_iff:
  "snd (bridge_authenticate hmac a n p g) = Inr q \<longleftrightarrow>
     \<not> ba_authenticated a \<and> length n = 32 \<and> length p = 32 \<and> n \<noteq> ba_server_nonce a
     \<and> p = channel_client_proof hmac (ba_secret a) (role_auth_channel (ba_role a)) (ba_instance_id a) (ba_server_nonce a) n
     \<and> n \<notin> rg_used g
     \<and> q = channel_server_proof hmac (ba_secret a) (role_auth_channel (ba_role a)) (ba_instance_id a) (ba_server_nonce a) n"
  using nonce_claim_iff [of g n]
  by (cases "nonce_claim g n"; cases "snd (nonce_claim g n)")
    (auto simp: bridge_authenticate_def Let_def verify_channel_client_proof_def channel_client_proof_def
      domain_proof_def limits)

lemma bridge_authenticate_guard:
  "snd (fst (bridge_authenticate hmac a n p g)) =
     (if is_ok (snd (bridge_authenticate hmac a n p g)) then fst (nonce_claim g n) else g)"
  by (cases "nonce_claim g n"; cases "snd (nonce_claim g n)")
    (auto simp: bridge_authenticate_def Let_def nonce_claim_def split: if_splits)

lemma guard_step_inv:
  "guard_inv c acc g \<Longrightarrow>
     guard_inv c (acc @ (if is_ok (snd (guard_step hmac g x)) then [fst (snd x)] else [])) (fst (guard_step hmac g x))"
proof -
  assume inv: "guard_inv c acc g"
  obtain a n p where x: "x = (a, n, p)" by (cases x)
  show ?thesis
  proof (cases "snd (bridge_authenticate hmac a n p g)")
    case (Inl e)
    with inv show ?thesis by (simp add: x bridge_authenticate_guard)
  next
    case (Inr q)
    then have "n \<notin> rg_used g" by (simp add: bridge_authenticate_iff)
    with Inr nonce_claim_inv [OF inv, of n] show ?thesis by (simp add: x bridge_authenticate_guard)
  qed
qed

lemma guard_run_inv:
  "guard_inv c acc g \<Longrightarrow>
     guard_inv c (acc @ accepted_nonces hmac g xs) (fst (run_steps (guard_step hmac) g xs))"
proof (induction xs arbitrary: acc g)
  case Nil
  then show ?case by simp
next
  case (Cons x xs)
  from Cons.IH [OF guard_step_inv [OF Cons.prems, of hmac x]]
  show ?case by (simp only: fst_run_steps_Cons accepted_nonces.simps append_assoc)
qed

section \<open>Concrete connections\<close>

text \<open>A MAC that keeps the first 32 bytes of its input stands for HMAC in the examples.\<close>

definition demo_hmac :: mac_function where
  "demo_hmac k m = take 32 m"

definition demo_ipc :: server_protocol where
  "demo_ipc = server_protocol_new [7] (replicate 16 1) (replicate 32 2)"

definition demo_ipc_frame :: "string \<Rightarrow> local_ipc_client_frame_payload \<Rightarrow> local_ipc_client_frame" where
  "demo_ipc_frame i p = \<lparr>licf_protocol_version = Some \<lparr>pv_major = 1, pv_minor = 0\<rparr>, licf_request_id = i,
     licf_payload = Some p\<rparr>"

definition demo_handshake :: local_ipc_client_frame where
  "demo_handshake = demo_ipc_frame ''a'' (LocalIpcClientFrame_Authenticate
     \<lparr>lia_client_nonce = replicate 32 3,
      lia_client_proof = client_proof demo_hmac [7] (replicate 16 1) (replicate 32 2) (replicate 32 3)\<rparr>)"

definition demo_query :: local_ipc_client_frame where
  "demo_query = demo_ipc_frame ''b'' (LocalIpcClientFrame_GetHostStatus GetHostStatusRequest)"

lemma demo_frames_valid: "validate_common_frame demo_handshake = Inr ()" "validate_common_frame demo_query = Inr ()"
  by (simp_all add: validate_common_frame_def demo_handshake_def demo_query_def demo_ipc_frame_def
      supported_version_def limits)

lemma length_demo_proof:
  "length (domain_proof demo_hmac k d i (replicate 32 2) n) = 32"
  by (simp add: domain_proof_def proof_mac_def demo_hmac_def proof_input_def)

lemma demo_ipc_authenticated:
  "fst (ipc_step demo_hmac demo_ipc (IpcAuthenticate demo_handshake)) = demo_ipc\<lparr>sp_authenticated := True\<rparr>"
proof -
  have "answers_challenge demo_hmac [7] (replicate 16 1) (replicate 32 2) demo_handshake"
    by (simp add: answers_challenge_def demo_frames_valid)
      (simp add: demo_handshake_def demo_ipc_frame_def client_proof_def channel_client_proof_def length_demo_proof)
  then have "is_ok (snd (server_authenticate demo_hmac demo_ipc demo_handshake))"
    using server_authenticate_iff [of demo_hmac demo_ipc demo_handshake]
    by (auto simp: demo_ipc_def server_protocol_new_def)
  then show ?thesis by (simp add: server_authenticate_state)
qed

section \<open>Properties\<close>

text \<open>
  A handshake proof is worth one connection, one channel and one direction.  Whatever MAC is used: if the same bytes are accepted
  as the client proof of a connection and as the client proof of another channel, instance, server nonce or
  client nonce, or as a server proof at all, then two different inputs of the MAC under the shared token have the same tag.
\<close>

theorem handshake_proof_bound:
  assumes "length i = 16" "length i' = 16" "length s = 32" "length s' = 32" "length n = 32" "length n' = 32"
    and "verify_channel_client_proof hmac token ch i s n candidate"
  shows "(verify_channel_client_proof hmac token ch' i' s' n' candidate \<and> (ch', i', s', n') \<noteq> (ch, i, s, n) \<longrightarrow>
      proof_input (client_domain ch) i s n \<noteq> proof_input (client_domain ch') i' s' n'
      \<and> hmac token (proof_input (client_domain ch) i s n) = hmac token (proof_input (client_domain ch') i' s' n'))
    \<and> (verify_channel_server_proof hmac token ch' i' s' n' candidate \<longrightarrow>
      proof_input (client_domain ch) i s n \<noteq> proof_input (server_domain ch') i' s' n'
      \<and> hmac token (proof_input (client_domain ch) i s n) = hmac token (proof_input (server_domain ch') i' s' n'))"
  using assms
  by (auto simp: proof_input_inject domains_distinct verify_channel_client_proof_def
      verify_channel_server_proof_def proof_mac_def)

theorem handshake_proof_bound_witness:
  "let hmac = (\<lambda>k m. m); i = replicate 16 1; s = replicate 32 2; n = replicate 32 3;
       p = channel_client_proof hmac [9] AuthChannel_PrivilegedHost i s n
   in verify_channel_client_proof hmac [9] AuthChannel_PrivilegedHost i s n p
      \<and> \<not> verify_channel_server_proof hmac [9] AuthChannel_PrivilegedHost i s n p
      \<and> \<not> verify_channel_client_proof hmac [9] AuthChannel_PrivilegedHelper i s n p"
proof -
  let ?hmac = "\<lambda>k m :: bytes. m" and ?i = "replicate 16 1 :: bytes" and ?s = "replicate 32 2 :: bytes"
    and ?n = "replicate 32 3 :: bytes"
  let ?p = "channel_client_proof ?hmac [9] AuthChannel_PrivilegedHost ?i ?s ?n"
  have p: "verify_channel_client_proof ?hmac [9] AuthChannel_PrivilegedHost ?i ?s ?n ?p"
    by (simp add: verify_channel_client_proof_def channel_client_proof_def domain_proof_def)
  note bound = handshake_proof_bound [of ?i ?i ?s ?s ?n ?n, OF _ _ _ _ _ _ p]
  have "\<not> verify_channel_server_proof ?hmac [9] AuthChannel_PrivilegedHost ?i ?s ?n ?p"
    using bound [of AuthChannel_PrivilegedHost] by auto
  moreover have "\<not> verify_channel_client_proof ?hmac [9] AuthChannel_PrivilegedHelper ?i ?s ?n ?p"
    using bound [of AuthChannel_PrivilegedHelper] by auto
  ultimately show ?thesis using p by (simp add: Let_def)
qed

text \<open>
  C24. No request before the handshake.  On a fresh local connection, after any sequence of frames: a request is admitted only if
  an earlier frame answered this connection's challenge with the right proof, and then exactly when it is well
  formed, is not another handshake, its identifier is not pending, and fewer than 32 are; the
  handshake succeeds at most once; and an admitted identifier is refused again until it completes.
\<close>

theorem ipc_request_admission:
  assumes "s = fst (run_steps (ipc_step hmac) (server_protocol_new token instance_id server_nonce) ops)"
  shows "(snd (begin_request s f) = Inr () \<longleftrightarrow> sp_authenticated s \<and> validate_common_frame f = Inr ()
        \<and> (\<forall>a. licf_payload f \<noteq> Some (LocalIpcClientFrame_Authenticate a))
        \<and> licf_request_id f \<notin> sp_pending_request_ids s \<and> card (sp_pending_request_ids s) < 32)
    \<and> (sp_authenticated s \<longrightarrow>
        (\<exists>g. IpcAuthenticate g \<in> set ops \<and> answers_challenge hmac token instance_id server_nonce g)
        \<and> snd (server_authenticate hmac (fst (run_steps (ipc_step hmac) s ops')) g)
           = Inl ProtocolError_AlreadyAuthenticated)
    \<and> (snd (begin_request s f) = Inr () \<and> IpcComplete (licf_request_id f) \<notin> set ops'
        \<and> licf_request_id g = licf_request_id f \<longrightarrow>
        \<not> is_ok (snd (begin_request (fst (run_steps (ipc_step hmac) (fst (begin_request s f)) ops')) g)))
    \<and> finite (sp_pending_request_ids s) \<and> card (sp_pending_request_ids s) \<le> 32"
proof -
  have new: "ipc_inv token instance_id server_nonce (server_protocol_new token instance_id server_nonce)"
    "\<not> sp_authenticated (server_protocol_new token instance_id server_nonce)"
    by (simp_all add: ipc_inv_def server_protocol_new_def)
  have bounded: "finite (sp_pending_request_ids s) \<and> card (sp_pending_request_ids s) \<le> 32"
    using ipc.run_inv [OF new(1)] by (simp add: assms ipc_inv_def)
  have once: "sp_authenticated s \<longrightarrow>
      (\<exists>g. IpcAuthenticate g \<in> set ops \<and> answers_challenge hmac token instance_id server_nonce g)
      \<and> snd (server_authenticate hmac (fst (run_steps (ipc_step hmac) s ops')) g)
           = Inl ProtocolError_AlreadyAuthenticated"
    using ipc_authenticated_by [OF new] ipc_stays_authenticated [of s hmac] assms
    by (simp add: server_authenticate_def)
  have "\<not> is_ok (snd (begin_request (fst (run_steps (ipc_step hmac) (fst (begin_request s f)) ops')) g))"
    if ok: "snd (begin_request s f) = Inr ()" and open_id: "IpcComplete (licf_request_id f) \<notin> set ops'"
      and same: "licf_request_id g = licf_request_id f"
  proof -
    let ?t = "fst (run_steps (ipc_step hmac) (fst (begin_request s f)) ops')"
    have "licf_request_id g \<in> sp_pending_request_ids ?t"
      using ipc_stays_pending [OF _ open_id, of "fst (begin_request s f)"] ok same
      by (simp add: begin_request_state)
    then show ?thesis
      using begin_request_iff [of ?t g] by (cases "snd (begin_request ?t g)") auto
  qed
  with bounded once begin_request_iff show ?thesis by blast
qed

theorem ipc_request_admission_witness:
  "snd (begin_request demo_ipc demo_query) \<noteq> Inr ()
   \<and> snd (begin_request (fst (run_steps (ipc_step demo_hmac) demo_ipc [IpcAuthenticate demo_handshake])) demo_query) = Inr ()"
proof -
  let ?s = "fst (run_steps (ipc_step demo_hmac) demo_ipc [IpcAuthenticate demo_handshake])"
  have s: "?s = demo_ipc\<lparr>sp_authenticated := True\<rparr>"
    by (simp only: fst_run_steps_Cons demo_ipc_authenticated) simp
  have "snd (begin_request ?s demo_query) = Inr () \<longleftrightarrow> sp_authenticated ?s \<and> validate_common_frame demo_query = Inr ()
        \<and> (\<forall>a. licf_payload demo_query \<noteq> Some (LocalIpcClientFrame_Authenticate a))
        \<and> licf_request_id demo_query \<notin> sp_pending_request_ids ?s \<and> card (sp_pending_request_ids ?s) < 32"
    unfolding demo_ipc_def by (rule ipc_request_admission [OF refl, THEN conjunct1])
  then have "snd (begin_request ?s demo_query) = Inr ()"
    unfolding s using demo_frames_valid(2)
    by (simp add: demo_ipc_def server_protocol_new_def demo_query_def demo_ipc_frame_def)
  moreover have "snd (begin_request demo_ipc demo_query) \<noteq> Inr ()"
    using ipc_request_admission [of demo_ipc demo_hmac "[7]" "replicate 16 1" "replicate 32 2" "[]" demo_query]
    by (simp add: demo_ipc_def server_protocol_new_def)
  ultimately show ?thesis by simp
qed

text \<open>
  C31. The bridge's replay cache is an exact window.  Take any sequence of handshakes, each on its own connection, against one guard of
  capacity \<open>c\<close>.  An attempt succeeds exactly when its connection is fresh, its fields have their lengths,
  its nonce is not the server's own, its proof is the MAC of this role, instance and both nonces, and the nonce is
  not among the last \<open>c\<close> accepted ones; the answer is then the server's proof.  So equal accepted
  nonces lie more than \<open>c\<close> handshakes apart, and the cache never holds more than \<open>c\<close> of them.
\<close>

theorem bridge_replay_window:
  assumes "nonce_replay_guard_new c = Inr g0"
    and "g = fst (run_steps (guard_step hmac) g0 xs)" and "acc = accepted_nonces hmac g0 xs"
  shows "(snd (bridge_authenticate hmac a n p g) = Inr q \<longleftrightarrow>
       \<not> ba_authenticated a \<and> length n = 32 \<and> length p = 32 \<and> n \<noteq> ba_server_nonce a
       \<and> p = channel_client_proof hmac (ba_secret a) (role_auth_channel (ba_role a)) (ba_instance_id a) (ba_server_nonce a) n
       \<and> n \<notin> set (drop (length acc - c) acc)
       \<and> q = channel_server_proof hmac (ba_secret a) (role_auth_channel (ba_role a)) (ba_instance_id a) (ba_server_nonce a) n)
    \<and> (\<forall>i j. i < j \<and> j < length acc \<and> acc ! i = acc ! j \<longrightarrow> i + c < j)
    \<and> card (rg_used g) \<le> c \<and> length (rg_insertion_order g) \<le> c"
proof -
  have inv: "guard_inv c acc g"
    using guard_run_inv [OF guard_inv_new [OF assms(1)], of hmac xs] assms(2,3) by simp
  then have "rg_used g = set (drop (length acc - c) acc)" "rg_insertion_order g = window c acc" "spaced c acc"
    by (simp_all add: guard_inv_def window_def)
  moreover have "card (set (window c acc)) \<le> c"
    using card_length [of "window c acc"] by (simp add: length_window)
  ultimately show ?thesis
    by (simp add: bridge_authenticate_iff spaced_def length_window window_def)
qed

theorem bridge_replay_window_witness:
  "let a = bridge_authenticator_new BridgeRole_HostAgent [5] (replicate 16 1) (replicate 32 2);
       n = replicate 32 3;
       p = channel_client_proof demo_hmac [5] AuthChannel_PrivilegedHost (replicate 16 1) (replicate 32 2) n;
       g0 = \<lparr>rg_used = {}, rg_insertion_order = [], rg_capacity = 1\<rparr>
   in is_ok (snd (bridge_authenticate demo_hmac a n p g0))
      \<and> \<not> is_ok (snd (bridge_authenticate demo_hmac a n p (fst (guard_step demo_hmac g0 (a, n, p)))))"
proof -
  let ?a = "bridge_authenticator_new BridgeRole_HostAgent [5] (replicate 16 1) (replicate 32 2)"
  let ?n = "replicate 32 3 :: bytes" and ?g0 = "\<lparr>rg_used = {}, rg_insertion_order = [], rg_capacity = 1\<rparr>"
  let ?p = "channel_client_proof demo_hmac [5] AuthChannel_PrivilegedHost (replicate 16 1) (replicate 32 2) ?n"
  let ?q = "channel_server_proof demo_hmac [5] AuthChannel_PrivilegedHost (replicate 16 1) (replicate 32 2) ?n"
  have g0: "nonce_replay_guard_new 1 = Inr ?g0" by (simp add: nonce_replay_guard_new_def)
  have len: "length ?p = 32" by (simp add: channel_client_proof_def length_demo_proof)
  have first: "snd (bridge_authenticate demo_hmac ?a ?n ?p ?g0) = Inr ?q"
    using bridge_replay_window [OF g0, of ?g0 demo_hmac "[]" "[]" ?a ?n ?p ?q] len
    by (simp add: bridge_authenticator_new_def)
  have acc: "accepted_nonces demo_hmac ?g0 [(?a, ?n, ?p)] = [?n]" using first by simp
  have "snd (bridge_authenticate demo_hmac ?a ?n ?p (fst (guard_step demo_hmac ?g0 (?a, ?n, ?p)))) \<noteq> Inr q" for q
    using bridge_replay_window [OF g0, of "fst (guard_step demo_hmac ?g0 (?a, ?n, ?p))" demo_hmac
        "[(?a, ?n, ?p)]" "[?n]" ?a ?n ?p q] acc
    by (simp del: guard_step.simps accepted_nonces.simps run_steps.simps add: fst_run_steps_Cons)
      (simp del: guard_step.simps accepted_nonces.simps)
  then have "\<not> is_ok (snd (bridge_authenticate demo_hmac ?a ?n ?p (fst (guard_step demo_hmac ?g0 (?a, ?n, ?p)))))"
    by (cases "snd (bridge_authenticate demo_hmac ?a ?n ?p (fst (guard_step demo_hmac ?g0 (?a, ?n, ?p))))") auto
  with first show ?thesis by (simp add: Let_def)
qed

end
