(* ===== verification/Frame_Codec.thy ===== *)
theory Frame_Codec
  imports Wire_Enums
begin

text \<open>
  The length-prefixed framing of the local transports, \<^verbatim>\<open>crates/ipc/src/framing.rs\<close>.  The
  incremental decoder copies as much of a chunk as fits at each turn of its loop; the loop is a
  \<^theory_text>\<open>partial_function\<close>, because a decoder whose buffers are inconsistent would make no
  progress.  A byte-at-a-time reference decoder gives its meaning: on every well-formed decoder
  the loop returns, and returns what the reference returns.  The independence of the result from
  how the stream is cut into chunks, the round trip and the memory bound follow.
\<close>

section \<open>Encoder\<close>

datatype frame_error =
    FrameError_InvalidLimit
  | FrameError_ZeroLength
  | FrameError_FrameTooLarge
  | FrameError_Truncated
  | FrameError_Failed

definition LENGTH_PREFIX_BYTES :: nat where
  [limits]: "LENGTH_PREFIX_BYTES = 4"

definition validate_limit :: "nat \<Rightarrow> frame_error + unit" where
  "validate_limit maximum =
     (if maximum = 0 \<or> maximum > 4294967295 then Inl FrameError_InvalidLimit else Inr ())"

definition validate_frame_length :: "nat \<Rightarrow> nat \<Rightarrow> frame_error + unit" where
  "validate_frame_length len maximum =
     (if len = 0 then Inl FrameError_ZeroLength
      else if len > maximum then Inl FrameError_FrameTooLarge
      else Inr ())"

definition encode_frame_with_limit :: "bytes \<Rightarrow> nat \<Rightarrow> frame_error + bytes" where
  "encode_frame_with_limit payload maximum =
     bind_res (validate_limit maximum) (\<lambda>_.
     bind_res (validate_frame_length (length payload) maximum) (\<lambda>_.
     if length payload > 4294967295 then Inl FrameError_FrameTooLarge
     else Inr (u32_to_be (word_of_nat (length payload)) @ payload)))"

definition encode_frame :: "bytes \<Rightarrow> frame_error + bytes" where
  "encode_frame payload = encode_frame_with_limit payload MAX_LOCAL_IPC_FRAME_BYTES"

section \<open>Decoder\<close>

record frame_decoder =
  fd_header :: bytes
  fd_header_length :: nat
  fd_expected_payload_length :: "nat option"
  fd_payload :: bytes
  fd_failed :: bool
  fd_maximum :: nat

definition frame_decoder_new :: frame_decoder where
  "frame_decoder_new = \<lparr>fd_header = replicate LENGTH_PREFIX_BYTES 0, fd_header_length = 0,
     fd_expected_payload_length = None, fd_payload = [], fd_failed = False,
     fd_maximum = MAX_LOCAL_IPC_FRAME_BYTES\<rparr>"

definition frame_decoder_with_limit :: "nat \<Rightarrow> frame_error + frame_decoder" where
  "frame_decoder_with_limit maximum =
     (case validate_limit maximum of
        Inr _ \<Rightarrow> Inr (frame_decoder_new\<lparr>fd_maximum := maximum\<rparr>)
      | Inl e \<Rightarrow> Inl e)"

text \<open>
  The loop of \<^verbatim>\<open>push_valid\<close>; the third argument is the part of the chunk behind \<^verbatim>\<open>offset\<close>.
\<close>

partial_function (option) push_loop ::
  "frame_decoder \<Rightarrow> bytes list \<Rightarrow> bytes \<Rightarrow> (frame_decoder \<times> (frame_error + bytes list)) option" where
  "push_loop d frames rest =
     (if rest = [] then Some (d, Inr frames)
      else case fd_expected_payload_length d of
        Some expected \<Rightarrow>
          (let copied = min (expected - length (fd_payload d)) (length rest);
               payload = fd_payload d @ take copied rest
           in if length payload = expected
              then push_loop (d\<lparr>fd_payload := [], fd_expected_payload_length := None\<rparr>)
                     (frames @ [payload]) (drop copied rest)
              else push_loop (d\<lparr>fd_payload := payload\<rparr>) frames (drop copied rest))
      | None \<Rightarrow>
          (let copied = min (LENGTH_PREFIX_BYTES - fd_header_length d) (length rest);
               header = take (fd_header_length d) (fd_header d) @ take copied rest
                 @ drop (fd_header_length d + copied) (fd_header d);
               header_length = fd_header_length d + copied;
               d' = d\<lparr>fd_header := header, fd_header_length := header_length\<rparr>
           in if header_length = LENGTH_PREFIX_BYTES
              then (case validate_frame_length (be_value header) (fd_maximum d) of
                      Inl e \<Rightarrow> Some (d', Inl e)
                    | Inr _ \<Rightarrow>
                        push_loop (d'\<lparr>fd_header_length := 0,
                            fd_expected_payload_length := Some (be_value header)\<rparr>)
                          frames (drop copied rest))
              else push_loop d' frames (drop copied rest)))"

definition push_valid ::
  "frame_decoder \<Rightarrow> bytes \<Rightarrow> (frame_decoder \<times> (frame_error + bytes list)) option" where
  "push_valid d chunk = push_loop d [] chunk"

definition frame_push ::
  "frame_decoder \<Rightarrow> bytes \<Rightarrow> (frame_decoder \<times> (frame_error + bytes list)) option" where
  "frame_push d chunk =
     (if fd_failed d then Some (d, Inl FrameError_Failed)
      else case push_valid d chunk of
        None \<Rightarrow> None
      | Some (d', Inr frames) \<Rightarrow> Some (d', Inr frames)
      | Some (d', Inl e) \<Rightarrow> Some (d'\<lparr>fd_failed := True\<rparr>, Inl e))"

definition frame_finish :: "frame_decoder \<Rightarrow> frame_error + unit" where
  "frame_finish d =
     (if fd_failed d then Inl FrameError_Failed
      else if fd_header_length d \<noteq> 0 \<or> fd_expected_payload_length d \<noteq> None
        then Inl FrameError_Truncated
      else Inr ())"

definition buffered_bytes :: "frame_decoder \<Rightarrow> nat" where
  "buffered_bytes d = fd_header_length d + length (fd_payload d)"

section \<open>Well-formed decoders and the byte-at-a-time reference\<close>

definition decoder_ok :: "frame_decoder \<Rightarrow> bool" where
  "decoder_ok d \<longleftrightarrow> length (fd_header d) = LENGTH_PREFIX_BYTES
     \<and> fd_header_length d < LENGTH_PREFIX_BYTES
     \<and> (case fd_expected_payload_length d of
          None \<Rightarrow> fd_payload d = []
        | Some n \<Rightarrow> fd_header_length d = 0 \<and> length (fd_payload d) < n \<and> n \<le> fd_maximum d)"

definition decoder_idle :: "frame_decoder \<Rightarrow> bool" where
  "decoder_idle d \<longleftrightarrow> fd_header_length d = 0 \<and> fd_expected_payload_length d = None"

definition feed_byte :: "frame_decoder \<Rightarrow> u8 \<Rightarrow> frame_decoder \<times> (frame_error + bytes list)" where
  "feed_byte d b =
     (case fd_expected_payload_length d of
        Some n \<Rightarrow>
          (let payload = fd_payload d @ [b]
           in if length payload = n
              then (d\<lparr>fd_payload := [], fd_expected_payload_length := None\<rparr>, Inr [payload])
              else (d\<lparr>fd_payload := payload\<rparr>, Inr []))
      | None \<Rightarrow>
          (let header = (fd_header d)[fd_header_length d := b];
               d' = d\<lparr>fd_header := header, fd_header_length := Suc (fd_header_length d)\<rparr>
           in if Suc (fd_header_length d) = LENGTH_PREFIX_BYTES
              then (case validate_frame_length (be_value header) (fd_maximum d) of
                      Inl e \<Rightarrow> (d', Inl e)
                    | Inr _ \<Rightarrow> (d'\<lparr>fd_header_length := 0,
                        fd_expected_payload_length := Some (be_value header)\<rparr>, Inr []))
              else (d', Inr [])))"

fun feed_all ::
  "frame_decoder \<Rightarrow> bytes list \<Rightarrow> bytes \<Rightarrow> frame_decoder \<times> (frame_error + bytes list)" where
  "feed_all d frames [] = (d, Inr frames)"
| "feed_all d frames (b # bs) =
     (case feed_byte d b of
        (d', Inl e) \<Rightarrow> (d', Inl e)
      | (d', Inr new) \<Rightarrow> feed_all d' (frames @ new) bs)"

lemma feed_all_append:
  "feed_all d frames (bs @ cs) =
     (case feed_all d frames bs of
        (d', Inl e) \<Rightarrow> (d', Inl e)
      | (d', Inr frames') \<Rightarrow> feed_all d' frames' cs)"
  by (induction d frames bs rule: feed_all.induct) (auto split: prod.splits sum.splits)

lemma feed_all_frames:
  "feed_all d frames bs =
     (case feed_all d [] bs of
        (d', Inl e) \<Rightarrow> (d', Inl e)
      | (d', Inr new) \<Rightarrow> (d', Inr (frames @ new)))"
proof (induction bs arbitrary: d frames)
  case Nil
  then show ?case by simp
next
  case (Cons b bs)
  obtain d' r where fb: "feed_byte d b = (d', r)" by (cases "feed_byte d b")
  obtain d'' q where rest: "feed_all d' [] bs = (d'', q)" by (cases "feed_all d' [] bs")
  show ?case
  proof (cases r)
    case (Inl e)
    with fb show ?thesis by simp
  next
    case (Inr new)
    have "feed_all d' (frames @ new) bs
        = (case q of Inl e \<Rightarrow> (d'', Inl e) | Inr new' \<Rightarrow> (d'', Inr ((frames @ new) @ new')))"
      by (subst Cons) (simp add: rest split: sum.splits)
    moreover have "feed_all d' new bs
        = (case q of Inl e \<Rightarrow> (d'', Inl e) | Inr new' \<Rightarrow> (d'', Inr (new @ new')))"
      by (subst Cons) (simp add: rest)
    ultimately show ?thesis using fb Inr by (cases q) simp_all
  qed
qed

lemma feed_byte_ok:
  assumes "decoder_ok d" "feed_byte d b = (d', Inr new)"
  shows "decoder_ok d'"
  using assms
  by (auto simp: decoder_ok_def feed_byte_def Let_def validate_frame_length_def limits
      split: option.splits if_splits)

lemma feed_all_ok: "decoder_ok d \<Longrightarrow> feed_all d frames bs = (d', Inr out) \<Longrightarrow> decoder_ok d'"
  by (induction d frames bs rule: feed_all.induct)
    (auto split: prod.splits sum.splits dest: feed_byte_ok)

section \<open>The loop computes the reference\<close>

lemma feed_payload_part:
  assumes "fd_expected_payload_length d = Some n" "length (fd_payload d) + length bs < n"
  shows "feed_all d frames (bs @ cs) = feed_all (d\<lparr>fd_payload := fd_payload d @ bs\<rparr>) frames cs"
  using assms
proof (induction bs arbitrary: d)
  case Nil
  then show ?case by simp
next
  case (Cons b bs)
  then have "feed_byte d b = (d\<lparr>fd_payload := fd_payload d @ [b]\<rparr>, Inr [])"
    by (simp add: feed_byte_def)
  with Cons.prems show ?case
    by (simp add: Cons.IH [of "d\<lparr>fd_payload := fd_payload d @ [b]\<rparr>"])
qed

lemma feed_payload_full:
  assumes "fd_expected_payload_length d = Some n" "length (fd_payload d) + length bs = n" "bs \<noteq> []"
  shows "feed_all d frames (bs @ cs) =
    feed_all (d\<lparr>fd_payload := [], fd_expected_payload_length := None\<rparr>)
      (frames @ [fd_payload d @ bs]) cs"
proof -
  obtain bs' b where bs: "bs = bs' @ [b]" using assms(3) by (cases bs rule: rev_cases) auto
  let ?d = "d\<lparr>fd_payload := fd_payload d @ bs'\<rparr>"
  have "feed_all d frames (bs @ cs) = feed_all ?d frames (b # cs)"
    using assms bs by (simp add: feed_payload_part)
  also have "feed_byte ?d b =
      (d\<lparr>fd_payload := [], fd_expected_payload_length := None\<rparr>, Inr [fd_payload d @ bs])"
    using assms bs by (simp add: feed_byte_def)
  then have "feed_all ?d frames (b # cs) =
      feed_all (d\<lparr>fd_payload := [], fd_expected_payload_length := None\<rparr>)
        (frames @ [fd_payload d @ bs]) cs" by simp
  finally show ?thesis .
qed

definition header_splice :: "frame_decoder \<Rightarrow> bytes \<Rightarrow> bytes" where
  "header_splice d bs = take (fd_header_length d) (fd_header d) @ bs
     @ drop (fd_header_length d + length bs) (fd_header d)"

definition header_step :: "frame_decoder \<Rightarrow> bytes \<Rightarrow> frame_decoder" where
  "header_step d bs = d\<lparr>fd_header := header_splice d bs,
     fd_header_length := fd_header_length d + length bs\<rparr>"

lemma splice_Cons:
  "i < length h \<Longrightarrow> take i h @ b # bs @ drop (Suc (i + length bs)) h =
    take (Suc i) (h[i := b]) @ bs @ drop (Suc (i + length bs)) (h[i := b])"
  by (simp add: take_Suc_conv_app_nth drop_update_cancel)

lemma splice_snoc:
  assumes "i + length bs < length h"
  shows "(take i h @ bs @ drop (i + length bs) h)[i + length bs := b] =
    take i h @ bs @ b # drop (Suc (i + length bs)) h"
proof -
  have "drop (i + length bs) h = h ! (i + length bs) # drop (Suc (i + length bs)) h"
    using assms by (simp add: Cons_nth_drop_Suc)
  then show ?thesis using assms by (simp add: list_update_append)
qed

lemma header_step_Cons:
  assumes "fd_header_length d < length (fd_header d)"
  shows "header_step d (b # bs) =
    header_step (d\<lparr>fd_header := (fd_header d)[fd_header_length d := b],
      fd_header_length := Suc (fd_header_length d)\<rparr>) bs"
  using splice_Cons [OF assms] by (simp add: header_step_def header_splice_def)

lemma feed_header_part:
  assumes "fd_expected_payload_length d = None" "length (fd_header d) = LENGTH_PREFIX_BYTES"
    "fd_header_length d + length bs < LENGTH_PREFIX_BYTES"
  shows "feed_all d frames (bs @ cs) = feed_all (header_step d bs) frames cs"
  using assms
proof (induction bs arbitrary: d)
  case Nil
  then show ?case by (simp add: header_step_def header_splice_def)
next
  case (Cons b bs)
  let ?d = "d\<lparr>fd_header := (fd_header d)[fd_header_length d := b],
      fd_header_length := Suc (fd_header_length d)\<rparr>"
  have "feed_byte d b = (?d, Inr [])"
    using Cons.prems by (simp add: feed_byte_def)
  moreover have "header_step d (b # bs) = header_step ?d bs"
    using Cons.prems by (intro header_step_Cons) simp
  ultimately show ?case using Cons.prems by (simp add: Cons.IH [of ?d])
qed

lemma feed_header_full:
  assumes "fd_expected_payload_length d = None" "length (fd_header d) = LENGTH_PREFIX_BYTES"
    "fd_header_length d + length bs = LENGTH_PREFIX_BYTES" "bs \<noteq> []"
  shows "feed_all d frames (bs @ cs) =
    (case validate_frame_length (be_value (header_splice d bs)) (fd_maximum d) of
       Inl e \<Rightarrow> (header_step d bs, Inl e)
     | Inr _ \<Rightarrow> feed_all ((header_step d bs)\<lparr>fd_header_length := 0,
         fd_expected_payload_length := Some (be_value (header_splice d bs))\<rparr>) frames cs)"
proof -
  obtain bs' b where bs: "bs = bs' @ [b]" using assms(4) by (cases bs rule: rev_cases) auto
  let ?d = "header_step d bs'"
  have len: "fd_header_length ?d < length (fd_header ?d)"
    "fd_header_length ?d = fd_header_length d + length bs'"
    "fd_expected_payload_length ?d = None" "fd_maximum ?d = fd_maximum d"
    using assms bs by (simp_all add: header_step_def header_splice_def limits)
  have hs: "(fd_header ?d)[fd_header_length ?d := b] = header_splice d bs"
    using assms bs splice_snoc [of "fd_header_length d" bs' "fd_header d" b]
    by (simp add: header_step_def header_splice_def)
  have st: "?d\<lparr>fd_header := header_splice d bs, fd_header_length := Suc (fd_header_length ?d)\<rparr>
      = header_step d bs"
    using bs len by (simp add: header_step_def)
  have "feed_all d frames (bs @ cs) = feed_all ?d frames (b # cs)"
    using assms bs by (simp add: feed_header_part)
  moreover have "Suc (fd_header_length ?d) = LENGTH_PREFIX_BYTES"
    using assms bs len by simp
  ultimately show ?thesis
    using len hs st by (simp add: feed_byte_def Let_def split: sum.splits)
qed

text \<open>One turn of the loop, in each of its two modes.\<close>

lemma push_loop_payload:
  assumes "rest \<noteq> []" "fd_expected_payload_length d = Some n"
    and "k = min (n - length (fd_payload d)) (length rest)"
  shows "push_loop d frames rest =
    (if length (fd_payload d) + k = n
     then push_loop (d\<lparr>fd_payload := [], fd_expected_payload_length := None\<rparr>)
            (frames @ [fd_payload d @ take k rest]) (drop k rest)
     else push_loop (d\<lparr>fd_payload := fd_payload d @ take k rest\<rparr>) frames (drop k rest))"
  using assms by (subst push_loop.simps) (simp add: Let_def)

lemma push_loop_header:
  assumes "rest \<noteq> []" "fd_expected_payload_length d = None"
    and "k = min (LENGTH_PREFIX_BYTES - fd_header_length d) (length rest)"
  shows "push_loop d frames rest =
    (if fd_header_length d + k = LENGTH_PREFIX_BYTES
     then (case validate_frame_length (be_value (header_splice d (take k rest))) (fd_maximum d) of
             Inl e \<Rightarrow> Some (header_step d (take k rest), Inl e)
           | Inr _ \<Rightarrow> push_loop ((header_step d (take k rest))\<lparr>fd_header_length := 0,
               fd_expected_payload_length := Some (be_value (header_splice d (take k rest)))\<rparr>)
               frames (drop k rest))
     else push_loop (header_step d (take k rest)) frames (drop k rest))"
proof -
  have len: "length (take k rest) = k" using assms(3) by simp
  show ?thesis
    using assms(1,2) len assms(3) [symmetric]
    unfolding header_step_def header_splice_def
    by (subst push_loop.simps) (simp add: Let_def cong: sum.case_cong)
qed

lemma decoder_ok_after_payload:
  assumes "decoder_ok d" "fd_expected_payload_length d = Some n"
  shows "decoder_ok (d\<lparr>fd_payload := [], fd_expected_payload_length := None\<rparr>)"
    and "length (fd_payload d) + length bs < n \<Longrightarrow> decoder_ok (d\<lparr>fd_payload := fd_payload d @ bs\<rparr>)"
  using assms by (simp_all add: decoder_ok_def limits)

lemma decoder_ok_after_header:
  assumes "decoder_ok d" "fd_expected_payload_length d = None"
  shows "fd_header_length d + length bs < LENGTH_PREFIX_BYTES \<Longrightarrow> decoder_ok (header_step d bs)"
    and "fd_header_length d + length bs = LENGTH_PREFIX_BYTES
      \<Longrightarrow> validate_frame_length v (fd_maximum d) = Inr ()
      \<Longrightarrow> decoder_ok ((header_step d bs)\<lparr>fd_header_length := 0, fd_expected_payload_length := Some v\<rparr>)"
  using assms
  by (auto simp: decoder_ok_def header_step_def header_splice_def validate_frame_length_def limits
      split: if_splits)

theorem push_loop_feed_all: "decoder_ok d \<Longrightarrow> push_loop d frames rest = Some (feed_all d frames rest)"
proof (induction "length rest" arbitrary: d frames rest rule: less_induct)
  case less
  note ok = less.prems
  consider (finished) "rest = []" | (payload) n where "rest \<noteq> []" "fd_expected_payload_length d = Some n"
    | (header) "rest \<noteq> []" "fd_expected_payload_length d = None"
    by (cases "fd_expected_payload_length d") auto
  then show ?case
  proof cases
    case finished
    then show ?thesis by (simp add: push_loop.simps)
  next
    case payload
    define k where "k = min (n - length (fd_payload d)) (length rest)"
    have k: "0 < k" "length (fd_payload d) + k \<le> n" "length (take k rest) = k" "take k rest \<noteq> []"
      using ok payload by (auto simp: k_def decoder_ok_def)
    have shorter: "length (drop k rest) < length rest" using k payload(1) by simp
    note ih = less.hyps [OF shorter] and ok' = decoder_ok_after_payload [OF ok payload(2)]
    show ?thesis
      using k ih [OF ok'(1)] ih [OF ok'(2), of "take k rest"]
        feed_payload_full [OF payload(2), of "take k rest" frames "drop k rest"]
        feed_payload_part [OF payload(2), of "take k rest" frames "drop k rest"]
      by (cases "length (fd_payload d) + k = n")
        (simp_all add: push_loop_payload [OF payload k_def])
  next
    case header
    define k where "k = min (LENGTH_PREFIX_BYTES - fd_header_length d) (length rest)"
    have k: "0 < k" "fd_header_length d + k \<le> LENGTH_PREFIX_BYTES" "length (take k rest) = k"
      "take k rest \<noteq> []" and hdr: "length (fd_header d) = LENGTH_PREFIX_BYTES"
      using ok header by (auto simp: k_def decoder_ok_def)
    have shorter: "length (drop k rest) < length rest" using k header(1) by simp
    note ih = less.hyps [OF shorter] and ok' = decoder_ok_after_header [OF ok header(2)]
    show ?thesis
      using k ih [OF ok'(1), of "take k rest"] ih [OF ok'(2), of "take k rest"]
        feed_header_full [OF header(2) hdr, of "take k rest" frames "drop k rest"]
        feed_header_part [OF header(2) hdr, of "take k rest" frames "drop k rest"]
      by (cases "fd_header_length d + k = LENGTH_PREFIX_BYTES")
        (simp_all add: push_loop_header [OF header k_def] split: sum.splits)
  qed
qed

section \<open>Chunks\<close>

text \<open>
  Feeding a stream chunk by chunk, as the transports do, stopping at the first error.  The
  contract of an incremental decoder is that cutting the stream differently changes nothing.
\<close>

primrec push_chunks ::
  "('d \<Rightarrow> 'x list \<Rightarrow> ('d \<times> ('e + 'f list)) option) \<Rightarrow> 'd \<Rightarrow> 'x list list
    \<Rightarrow> ('d \<times> ('e + 'f list)) option" where
  "push_chunks push d [] = Some (d, Inr [])"
| "push_chunks push d (c # cs) =
     (case push d c of
        None \<Rightarrow> None
      | Some (d', Inl e) \<Rightarrow> Some (d', Inl e)
      | Some (d', Inr fs) \<Rightarrow>
          (case push_chunks push d' cs of
             Some (d'', Inr gs) \<Rightarrow> Some (d'', Inr (fs @ gs))
           | other \<Rightarrow> other))"

locale chunked_decoder =
  fixes push :: "'d \<Rightarrow> 'x list \<Rightarrow> ('d \<times> ('e + 'f list)) option"
    and live :: "'d \<Rightarrow> bool"
  assumes push_nil: "live d \<Longrightarrow> push d [] = Some (d, Inr [])"
    and push_append: "live d \<Longrightarrow> push d (a @ b) =
      (case push d a of
         None \<Rightarrow> None
       | Some (d', Inl e) \<Rightarrow> Some (d', Inl e)
       | Some (d', Inr fs) \<Rightarrow>
           (case push d' b of
              Some (d'', Inr gs) \<Rightarrow> Some (d'', Inr (fs @ gs))
            | other \<Rightarrow> other))"
    and push_live: "live d \<Longrightarrow> push d a = Some (d', Inr fs) \<Longrightarrow> live d'"
begin

lemma push_chunks_concat: "live d \<Longrightarrow> push_chunks push d cs = push d (concat cs)"
proof (induction cs arbitrary: d)
  case Nil
  then show ?case by (simp add: push_nil)
next
  case (Cons c cs)
  then show ?case
    by (auto simp: push_append push_live split: option.splits prod.splits sum.splits)
qed

lemma chunking_irrelevant:
  "live d \<Longrightarrow> concat cs = concat ds \<Longrightarrow> push_chunks push d cs = push_chunks push d ds"
  by (simp add: push_chunks_concat)

end

definition decoder_live :: "frame_decoder \<Rightarrow> bool" where
  "decoder_live d \<longleftrightarrow> decoder_ok d \<and> \<not> fd_failed d"

lemma feed_byte_frame: "fd_failed (fst (feed_byte d b)) = fd_failed d"
    "fd_maximum (fst (feed_byte d b)) = fd_maximum d"
  by (auto simp: feed_byte_def Let_def split: option.splits sum.splits)

lemma feed_all_frame:
  "feed_all d frames bs = (d', r) \<Longrightarrow> fd_failed d' = fd_failed d \<and> fd_maximum d' = fd_maximum d"
proof (induction d frames bs rule: feed_all.induct)
  case (1 d frames)
  then show ?case by simp
next
  case (2 d frames b bs)
  show ?case
    using "2.prems" "2.IH" feed_byte_frame [of d b] by (auto split: prod.splits sum.splits)
qed

lemma frame_push_feed_all:
  assumes "decoder_live d"
  shows "frame_push d chunk =
    (case feed_all d [] chunk of
       (d', Inr frames) \<Rightarrow> Some (d', Inr frames)
     | (d', Inl e) \<Rightarrow> Some (d'\<lparr>fd_failed := True\<rparr>, Inl e))"
  using assms
  by (simp add: frame_push_def push_valid_def push_loop_feed_all decoder_live_def
      split: prod.splits sum.splits)

lemma frame_push_total: "decoder_live d \<Longrightarrow> \<exists>d' r. frame_push d c = Some (d', r)"
  by (cases "feed_all d [] c"; cases "snd (feed_all d [] c)") (auto simp: frame_push_feed_all)

lemma frame_push_live: "decoder_live d \<Longrightarrow> frame_push d c = Some (d', Inr fs) \<Longrightarrow> decoder_live d'"
  by (auto simp: frame_push_feed_all decoder_live_def split: prod.splits sum.splits
      intro: feed_all_ok dest: feed_all_frame)

lemma frame_push_append:
  assumes "decoder_live d"
  shows "frame_push d (a @ b) =
    (case frame_push d a of
       None \<Rightarrow> None
     | Some (d', Inl e) \<Rightarrow> Some (d', Inl e)
     | Some (d', Inr fs) \<Rightarrow>
         (case frame_push d' b of
            Some (d'', Inr gs) \<Rightarrow> Some (d'', Inr (fs @ gs))
          | other \<Rightarrow> other))"
proof (cases "feed_all d [] a")
  case (Pair d' r)
  show ?thesis
  proof (cases r)
    case (Inl e)
    with Pair assms show ?thesis by (simp add: frame_push_feed_all feed_all_append)
  next
    case (Inr fs)
    then have live: "decoder_live d'"
      using assms Pair by (intro frame_push_live [of d a d' fs]) (simp_all add: frame_push_feed_all)
    have "feed_all d' fs b = (case feed_all d' [] b of
        (d'', Inl e) \<Rightarrow> (d'', Inl e) | (d'', Inr new) \<Rightarrow> (d'', Inr (fs @ new)))"
      by (rule feed_all_frames)
    with Pair Inr assms live show ?thesis
      by (simp add: frame_push_feed_all feed_all_append split: prod.splits sum.splits)
  qed
qed

interpretation frame: chunked_decoder frame_push decoder_live
  by unfold_locales
    (simp add: frame_push_feed_all, rule frame_push_append, assumption, rule frame_push_live)

section \<open>What the bytes mean\<close>

definition frame_bytes :: "bytes \<Rightarrow> bytes" where
  "frame_bytes payload = be_bytes 4 (length payload) @ payload"

definition pending_bytes :: "frame_decoder \<Rightarrow> bytes" where
  "pending_bytes d = (case fd_expected_payload_length d of
     None \<Rightarrow> take (fd_header_length d) (fd_header d)
   | Some n \<Rightarrow> be_bytes 4 n @ fd_payload d)"

lemma encode_frame_bytes:
  "encode_frame_with_limit p m = Inr e \<longleftrightarrow>
     e = frame_bytes p \<and> p \<noteq> [] \<and> length p \<le> m \<and> 0 < m \<and> m \<le> 4294967295"
  by (auto simp: encode_frame_with_limit_def validate_limit_def validate_frame_length_def
      bind_res_Inr frame_bytes_def u32_to_be_def take_bit_eq_mod unsigned_of_nat)

lemma feed_byte_pending:
  assumes "decoder_ok d" "feed_byte d b = (d', Inr new)"
  shows "pending_bytes d @ [b] = concat (map frame_bytes new) @ pending_bytes d'"
proof (cases "fd_expected_payload_length d")
  case (Some n)
  then show ?thesis
    using assms
    by (auto simp: feed_byte_def Let_def pending_bytes_def frame_bytes_def decoder_ok_def
        split: if_splits)
next
  case None
  let ?h = "(fd_header d)[fd_header_length d := b]"
  have len: "length ?h = 4" "fd_header_length d < 4" "fd_payload d = []"
    using assms(1) None by (auto simp: decoder_ok_def limits)
  have snoc: "take (Suc (fd_header_length d)) ?h = take (fd_header_length d) (fd_header d) @ [b]"
    using len by (simp add: take_Suc_conv_app_nth)
  have full: "Suc (fd_header_length d) = 4 \<Longrightarrow> be_bytes 4 (be_value ?h) = take (fd_header_length d) (fd_header d) @ [b]"
    using be_bytes_be_value [of ?h] len snoc by (metis order_refl take_all)
  show ?thesis
    using assms(2) None len snoc full
    by (auto simp: feed_byte_def Let_def pending_bytes_def limits split: if_splits sum.splits)
qed

lemma feed_all_pending:
  assumes "decoder_ok d" "feed_all d frames bs = (d', Inr out)"
  shows "\<exists>new. out = frames @ new \<and> pending_bytes d @ bs = concat (map frame_bytes new) @ pending_bytes d'"
  using assms
proof (induction d frames bs rule: feed_all.induct)
  case (1 d frames)
  then show ?case by simp
next
  case (2 d frames b bs)
  from "2.prems" obtain d1 new1 where b: "feed_byte d b = (d1, Inr new1)"
    and rest: "feed_all d1 (frames @ new1) bs = (d', Inr out)"
    by (auto split: prod.splits sum.splits)
  have ok1: "decoder_ok d1" using feed_byte_ok "2.prems"(1) b by blast
  from "2.IH" [OF b [symmetric] refl ok1 rest] obtain new where
    new: "out = (frames @ new1) @ new"
      "pending_bytes d1 @ bs = concat (map frame_bytes new) @ pending_bytes d'" by blast
  have "pending_bytes d @ b # bs = (pending_bytes d @ [b]) @ bs" by simp
  also have "\<dots> = concat (map frame_bytes new1) @ pending_bytes d1 @ bs"
    using feed_byte_pending [OF "2.prems"(1) b] by simp
  finally show ?case using new by (intro exI [of _ "new1 @ new"]) simp
qed

lemma feed_frame:
  assumes "decoder_ok d" "decoder_idle d" "p \<noteq> []" "length p \<le> fd_maximum d"
    "fd_maximum d \<le> 4294967295"
  shows "\<exists>d'. decoder_ok d' \<and> decoder_idle d' \<and> fd_maximum d' = fd_maximum d
    \<and> feed_all d frames (frame_bytes p @ cs) = feed_all d' (frames @ [p]) cs"
proof -
  let ?hb = "be_bytes 4 (length p)"
  have idle: "fd_expected_payload_length d = None" "fd_header_length d = 0"
    "length (fd_header d) = LENGTH_PREFIX_BYTES" "fd_payload d = []"
    using assms by (auto simp: decoder_ok_def decoder_idle_def)
  have v: "be_value (header_splice d ?hb) = length p"
    using assms idle by (simp add: header_splice_def limits be_value_be_bytes)
  let ?d1 = "(header_step d ?hb)\<lparr>fd_header_length := 0, fd_expected_payload_length := Some (length p)\<rparr>"
  let ?d2 = "?d1\<lparr>fd_payload := [], fd_expected_payload_length := None\<rparr>"
  have "validate_frame_length (length p) (fd_maximum d) = Inr ()"
    using assms by (simp add: validate_frame_length_def)
  then have "feed_all d frames (?hb @ p @ cs) = feed_all ?d1 frames (p @ cs)"
    using feed_header_full [OF idle(1,3), of ?hb frames "p @ cs"] idle v
    by (simp add: limits flip: length_greater_0_conv)
  also have "\<dots> = feed_all ?d2 (frames @ [p]) cs"
    using feed_payload_full [of ?d1 "length p" p frames cs] idle assms(3)
    by (simp add: header_step_def)
  finally have "feed_all d frames (frame_bytes p @ cs) = feed_all ?d2 (frames @ [p]) cs"
    by (simp add: frame_bytes_def)
  moreover have "decoder_ok ?d2" "decoder_idle ?d2" "fd_maximum ?d2 = fd_maximum d"
    using idle by (simp_all add: decoder_ok_def decoder_idle_def header_step_def header_splice_def limits)
  ultimately show ?thesis by blast
qed

lemma feed_frames:
  assumes "decoder_ok d" "decoder_idle d" "fd_maximum d \<le> 4294967295"
    "\<forall>p \<in> set ps. p \<noteq> [] \<and> length p \<le> fd_maximum d"
  shows "\<exists>d'. decoder_idle d' \<and> feed_all d frames (concat (map frame_bytes ps)) = (d', Inr (frames @ ps))"
  using assms
proof (induction ps arbitrary: d frames)
  case Nil
  then show ?case by auto
next
  case (Cons p ps)
  from Cons.prems obtain d1 where "decoder_ok d1" "decoder_idle d1" "fd_maximum d1 = fd_maximum d"
    "feed_all d frames (frame_bytes p @ concat (map frame_bytes ps)) =
      feed_all d1 (frames @ [p]) (concat (map frame_bytes ps))"
    using feed_frame [of d p frames "concat (map frame_bytes ps)"] by auto
  then show ?case using Cons.IH [of d1 "frames @ [p]"] Cons.prems by auto
qed

lemma decoder_with_limit_fresh:
  "frame_decoder_with_limit m = Inr d \<Longrightarrow>
    decoder_live d \<and> decoder_idle d \<and> fd_maximum d = m \<and> 0 < m \<and> m \<le> 4294967295 \<and> pending_bytes d = []"
  by (auto simp: frame_decoder_with_limit_def validate_limit_def frame_decoder_new_def limits
      decoder_live_def decoder_ok_def decoder_idle_def pending_bytes_def split: if_splits)

lemma idle_pending: "decoder_idle d \<Longrightarrow> pending_bytes d = []"
  by (simp add: decoder_idle_def pending_bytes_def)

lemma finish_live: "frame_finish d = Inr () \<longleftrightarrow> \<not> fd_failed d \<and> decoder_idle d"
  by (auto simp: frame_finish_def decoder_idle_def)

lemma feed_byte_frames:
  "decoder_ok d \<Longrightarrow> feed_byte d b = (d', Inr new) \<Longrightarrow> p \<in> set new \<Longrightarrow>
    p \<noteq> [] \<and> length p \<le> fd_maximum d"
  by (auto simp: feed_byte_def Let_def decoder_ok_def split: option.splits if_splits sum.splits)

lemma feed_all_frames_bounded:
  "decoder_ok d \<Longrightarrow> feed_all d frames bs = (d', Inr out) \<Longrightarrow>
    (\<forall>p \<in> set frames. p \<noteq> [] \<and> length p \<le> fd_maximum d) \<Longrightarrow>
    \<forall>p \<in> set out. p \<noteq> [] \<and> length p \<le> fd_maximum d"
proof (induction d frames bs rule: feed_all.induct)
  case (1 d frames)
  then show ?case by simp
next
  case (2 d frames b bs)
  from "2.prems"(2) obtain d1 new where b: "feed_byte d b = (d1, Inr new)"
    and rest: "feed_all d1 (frames @ new) bs = (d', Inr out)"
    by (auto split: prod.splits sum.splits)
  have ok1: "decoder_ok d1" and max: "fd_maximum d1 = fd_maximum d"
    using feed_byte_ok [OF "2.prems"(1) b] feed_byte_frame(2) [of d b] b by simp_all
  have "\<forall>p \<in> set (frames @ new). p \<noteq> [] \<and> length p \<le> fd_maximum d1"
    using "2.prems"(3) feed_byte_frames [OF "2.prems"(1) b] max by (simp add: ball_Un)
  with "2.IH" [OF b [symmetric] refl ok1 rest] max show ?case by simp
qed

lemma feed_byte_error:
  assumes "decoder_ok d" "feed_byte d b = (d', Inl e)"
  shows "buffered_bytes d' = LENGTH_PREFIX_BYTES"
proof (cases "fd_expected_payload_length d")
  case None
  then have "fd_payload d = []" using assms(1) by (simp add: decoder_ok_def)
  with None assms(2) show ?thesis
    by (simp add: feed_byte_def Let_def buffered_bytes_def split: if_splits sum.splits) auto
next
  case (Some n)
  with assms(2) show ?thesis by (simp add: feed_byte_def Let_def split: if_splits)
qed

lemma feed_all_error:
  "decoder_ok d \<Longrightarrow> feed_all d frames bs = (d', Inl e) \<Longrightarrow> buffered_bytes d' = LENGTH_PREFIX_BYTES"
proof (induction d frames bs rule: feed_all.induct)
  case (1 d frames)
  then show ?case by simp
next
  case (2 d frames b bs)
  obtain d1 r where b: "feed_byte d b = (d1, r)" by (cases "feed_byte d b")
  show ?case
  proof (cases r)
    case (Inl e')
    then show ?thesis using "2.prems" b feed_byte_error by auto
  next
    case (Inr new)
    then show ?thesis
      using "2.prems" "2.IH" [OF b [symmetric] Inr] feed_byte_ok [OF "2.prems"(1)] b by auto
  qed
qed

lemma decoder_ok_buffered:
  "decoder_ok d \<Longrightarrow> buffered_bytes d \<le> max LENGTH_PREFIX_BYTES (fd_maximum d)"
  by (auto simp: decoder_ok_def buffered_bytes_def limits split: option.splits)

lemma failed_push: "fd_failed d \<Longrightarrow> frame_push d c = Some (d, Inl FrameError_Failed)"
  by (simp add: frame_push_def)

text \<open>What a fresh decoder accepts as a whole stream, and what it then delivers.\<close>

lemma fresh_decoder_accepts_iff:
  assumes "frame_decoder_with_limit m = Inr d"
  shows "(\<exists>d'. frame_push d bs = Some (d', Inr ps) \<and> frame_finish d' = Inr ()) \<longleftrightarrow>
    (\<forall>p \<in> set ps. p \<noteq> [] \<and> length p \<le> m) \<and> bs = concat (map frame_bytes ps)" (is "?L \<longleftrightarrow> ?R")
proof
  note fresh = decoder_with_limit_fresh [OF assms]
  assume ?L
  then obtain d' where pushed: "frame_push d bs = Some (d', Inr ps)" and fin: "frame_finish d' = Inr ()"
    by blast
  have fed: "feed_all d [] bs = (d', Inr ps)"
    using pushed fresh by (auto simp: frame_push_feed_all split: prod.splits sum.splits)
  have "pending_bytes d' = []" using fin by (simp add: finish_live idle_pending)
  with fed fresh have "bs = concat (map frame_bytes ps)"
    using feed_all_pending [of d "[]" bs d' ps] by (auto simp: decoder_live_def)
  then show ?R
    using feed_all_frames_bounded [OF _ fed] fresh by (auto simp: decoder_live_def)
next
  note fresh = decoder_with_limit_fresh [OF assms]
  assume R: ?R
  obtain d' where d': "decoder_idle d'" "feed_all d [] (concat (map frame_bytes ps)) = (d', Inr ps)"
    using feed_frames [of d ps "[]"] fresh R by (auto simp: decoder_live_def)
  have "frame_push d bs = Some (d', Inr ps)"
    using fresh R d' by (simp add: frame_push_feed_all)
  moreover have "frame_finish d' = Inr ()"
    using d' fresh by (auto simp: finish_live decoder_live_def dest: feed_all_frame)
  ultimately show ?L by blast
qed

section \<open>Properties\<close>

text \<open>
  C37. Framing round trip: payloads encoded with the limit a decoder was created with, sent as one
  byte stream and cut into chunks anywhere, come out of the decoder as exactly those payloads in
  order, and the decoder then accepts the end of the stream.
\<close>

theorem frame_stream_roundtrip:
  assumes "frame_decoder_with_limit m = Inr d"
    and "list_all2 (\<lambda>p e. encode_frame_with_limit p m = Inr e) ps es"
    and "concat chunks = concat es"
  shows "\<exists>d'. push_chunks frame_push d chunks = Some (d', Inr ps) \<and> frame_finish d' = Inr ()"
proof -
  have "es = map frame_bytes ps" "\<forall>p \<in> set ps. p \<noteq> [] \<and> length p \<le> m"
    using assms(2) by (induction rule: list_all2_induct) (auto simp: encode_frame_bytes)
  then show ?thesis
    using fresh_decoder_accepts_iff [OF assms(1), of "concat chunks" ps] assms(3)
      decoder_with_limit_fresh [OF assms(1)]
    by (simp add: frame.push_chunks_concat)
qed

theorem frame_stream_roundtrip_witness:
  "\<exists>d'. push_chunks frame_push (frame_decoder_new\<lparr>fd_maximum := 8\<rparr>) [[0, 0], [0, 2, 7], [9, 0, 0, 0, 1, 5]]
      = Some (d', Inr [[7, 9], [5]]) \<and> frame_finish d' = Inr ()"
  by (rule frame_stream_roundtrip [of 8 _ "[[7, 9], [5]]" "[[0, 0, 0, 2, 7, 9], [0, 0, 0, 1, 5]]"])
    (simp_all add: frame_decoder_with_limit_def validate_limit_def encode_frame_bytes frame_bytes_def
      be_bytes_numeral)

text \<open>
  Framing is unambiguous: when a decoder accepts a whole stream, that stream is exactly the
  concatenation of the encodings of the payloads it delivered, so no other bytes can produce them.
\<close>

theorem frame_stream_canonical:
  assumes "frame_decoder_with_limit m = Inr d"
    and "push_chunks frame_push d chunks = Some (d', Inr ps)"
    and "frame_finish d' = Inr ()"
  shows "\<exists>es. list_all2 (\<lambda>p e. encode_frame_with_limit p m = Inr e) ps es \<and> concat chunks = concat es"
proof -
  have "(\<forall>p \<in> set ps. p \<noteq> [] \<and> length p \<le> m) \<and> concat chunks = concat (map frame_bytes ps)"
    using fresh_decoder_accepts_iff [OF assms(1), of "concat chunks" ps] assms(2,3)
      decoder_with_limit_fresh [OF assms(1)]
    by (simp add: frame.push_chunks_concat)
  moreover from this
  have "list_all2 (\<lambda>p e. encode_frame_with_limit p m = Inr e) ps (map frame_bytes ps)"
    using decoder_with_limit_fresh [OF assms(1)]
    by (auto simp: list_all2_conv_all_nth encode_frame_bytes)
  ultimately show ?thesis by blast
qed

theorem frame_stream_canonical_witness:
  "\<exists>es. list_all2 (\<lambda>p e. encode_frame_with_limit p 8 = Inr e) [[7 :: u8]] es
     \<and> concat [[0, 0, 0], [1, 7]] = concat es"
  by (rule frame_stream_canonical [of 8 "frame_decoder_new\<lparr>fd_maximum := 8\<rparr>" _
      "frame_decoder_new\<lparr>fd_maximum := 8, fd_header := [0, 0, 0, 1]\<rparr>"])
    (simp_all add: frame_decoder_with_limit_def validate_limit_def frame_decoder_new_def limits
      frame_push_def push_valid_def push_loop.simps validate_frame_length_def be_value_def
      frame_finish_def)

text \<open>
  C38. The decoder always returns, never holds more than one frame or one length prefix, and fails
  closed: after the first framing error every further push and the end of the stream are refused.
\<close>

theorem frame_push_total_and_fail_closed:
  assumes "decoder_live d"
  shows "\<exists>d' r. frame_push d chunk = Some (d', r)
    \<and> buffered_bytes d' \<le> max LENGTH_PREFIX_BYTES (fd_maximum d)
    \<and> (case r of
         Inr _ \<Rightarrow> decoder_live d'
       | Inl _ \<Rightarrow> frame_finish d' = Inl FrameError_Failed
           \<and> (\<forall>c. frame_push d' c = Some (d', Inl FrameError_Failed)))"
proof -
  obtain d1 r where fed: "feed_all d [] chunk = (d1, r)" by (cases "feed_all d [] chunk")
  have ok: "decoder_ok d" using assms by (simp add: decoder_live_def)
  show ?thesis
  proof (cases r)
    case (Inl e)
    have "buffered_bytes (d1\<lparr>fd_failed := True\<rparr>) = LENGTH_PREFIX_BYTES"
      using feed_all_error [OF ok] fed Inl by (simp add: buffered_bytes_def)
    then show ?thesis
      using fed Inl assms by (simp add: frame_push_feed_all frame_finish_def failed_push)
  next
    case (Inr fs)
    have "decoder_live d1" "fd_maximum d1 = fd_maximum d"
      using fed Inr assms feed_all_frame feed_all_ok by (auto simp: decoder_live_def)
    then show ?thesis
      using fed Inr assms decoder_ok_buffered [of d1]
      by (simp add: frame_push_feed_all decoder_live_def)
  qed
qed

theorem frame_push_total_and_fail_closed_witness:
  "\<exists>d' r. frame_push frame_decoder_new [0, 0, 0, 0] = Some (d', r)
    \<and> buffered_bytes d' \<le> max LENGTH_PREFIX_BYTES (fd_maximum frame_decoder_new)
    \<and> (case r of
         Inr _ \<Rightarrow> decoder_live d'
       | Inl _ \<Rightarrow> frame_finish d' = Inl FrameError_Failed
           \<and> (\<forall>c. frame_push d' c = Some (d', Inl FrameError_Failed)))"
  by (rule frame_push_total_and_fail_closed)
    (simp add: decoder_live_def decoder_ok_def frame_decoder_new_def limits)

end
