(* ===== verification/Agent_Connection.thy ===== *)
theory Agent_Connection
  imports "HOL-Library.Sublist" Host_Service Ipc_Auth Frame_Codec
begin

text \<open>
  The local connections of the Host agent, \<^verbatim>\<open>crates/host-agent/src/runtime.rs\<close>: the listener with its limit of clients, and for each
  client the task that authenticates it, reads its requests, has the service answer them and sends answers and notifications, beside the task
  that writes them to the stream.  The tasks run concurrently: a step is what happens between two points at which a task waits, and
  a run is any interleaving of such steps with the rest of the agent, which calls the same service.
\<close>

section \<open>Errors\<close>

datatype runtime_error =
    RuntimeError_AlreadyRunning
  | RuntimeError_UnsupportedPlatform
  | RuntimeError_PrivatePaths
  | RuntimeError_ProtectedIdentity
  | RuntimeError_AuthorizationData
  | RuntimeError_LocalTransport
  | RuntimeError_RandomGeneration
  | RuntimeError_SystemClock
  | RuntimeError_LocalProtocol
  | RuntimeError_Task
  | RuntimeError_ShutdownSignal
  | RuntimeError_Environment
  | RuntimeError_RemoteConfiguration
  | RuntimeError_TlsCryptoProvider
  | RuntimeError_NativeWebRtcUnavailable
  | RuntimeError_RemoteSession
  | RuntimeError_PrivilegedBridgeUnavailable
  | RuntimeError_ProtectedSessionAgentUnavailable
  | RuntimeError_DesktopPermissionsRequired

fun startup_code :: "runtime_error \<Rightarrow> string" where
  "startup_code RuntimeError_AlreadyRunning = ''already_running''"
| "startup_code RuntimeError_UnsupportedPlatform = ''unsupported_platform''"
| "startup_code RuntimeError_PrivatePaths = ''private_paths_unavailable''"
| "startup_code RuntimeError_ProtectedIdentity = ''protected_identity_unavailable''"
| "startup_code RuntimeError_AuthorizationData = ''authorization_data_unavailable''"
| "startup_code RuntimeError_LocalTransport = ''local_transport_unavailable''"
| "startup_code RuntimeError_RandomGeneration = ''random_generation_failed''"
| "startup_code RuntimeError_SystemClock = ''system_clock_unavailable''"
| "startup_code RuntimeError_LocalProtocol = ''local_protocol_failed''"
| "startup_code RuntimeError_Task = ''runtime_task_failed''"
| "startup_code RuntimeError_ShutdownSignal = ''shutdown_signal_unavailable''"
| "startup_code RuntimeError_Environment = ''environment_unavailable''"
| "startup_code RuntimeError_RemoteConfiguration = ''remote_configuration_invalid''"
| "startup_code RuntimeError_TlsCryptoProvider = ''tls_provider_unavailable''"
| "startup_code RuntimeError_NativeWebRtcUnavailable = ''native_webrtc_unavailable''"
| "startup_code RuntimeError_RemoteSession = ''remote_session_runtime_failed''"
| "startup_code RuntimeError_PrivilegedBridgeUnavailable = ''privileged_bridge_unavailable''"
| "startup_code RuntimeError_ProtectedSessionAgentUnavailable = ''protected_session_agent_unavailable''"
| "startup_code RuntimeError_DesktopPermissionsRequired = ''desktop_permissions_required''"

datatype local_transport_error =
    LocalTransportError_Io
  | LocalTransportError_PeerUserMismatch
  | LocalTransportError_UnsafeStaleEndpoint
  | LocalTransportError_EndpointAlreadyActive
  | LocalTransportError_UnsupportedPlatform

fun map_local_transport_error :: "local_transport_error \<Rightarrow> runtime_error" where
  "map_local_transport_error LocalTransportError_EndpointAlreadyActive = RuntimeError_AlreadyRunning"
| "map_local_transport_error LocalTransportError_UnsupportedPlatform = RuntimeError_UnsupportedPlatform"
| "map_local_transport_error _ = RuntimeError_LocalTransport"

definition MAX_LOCAL_CLIENTS :: nat where [limits]: "MAX_LOCAL_CLIENTS = 4"
definition OUTBOUND_QUEUE_CAPACITY :: nat where [limits]: "OUTBOUND_QUEUE_CAPACITY = 32"
definition TERMINATION_EVENT_CAPACITY :: nat where [limits]: "TERMINATION_EVENT_CAPACITY = 32"
definition PAIRING_EVENT_CAPACITY :: nat where [limits]: "PAIRING_EVENT_CAPACITY = 32"

text \<open>\<^verbatim>\<open>now_unix_ms\<close> on a reading of the system clock, in milliseconds since the epoch.\<close>

definition agent_now_unix_ms :: "int \<Rightarrow> runtime_error + u64" where
  "agent_now_unix_ms elapsed =
     (if 0 \<le> elapsed \<and> elapsed < 2 ^ 64 then Inr (word_of_int elapsed) else Inl RuntimeError_SystemClock)"

section \<open>Frames\<close>

record local_ipc_codec =
  lcd_decode :: "bytes \<Rightarrow> local_ipc_client_frame option"
  lcd_encode :: "local_ipc_server_frame \<Rightarrow> bytes"

definition agent_protocol_version :: protocol_version where
  "agent_protocol_version = \<lparr>pv_major = 1, pv_minor = 0\<rparr>"

definition agent_server_frame :: "string \<Rightarrow> local_ipc_server_frame_payload \<Rightarrow> local_ipc_server_frame" where
  "agent_server_frame request_id payload =
     \<lparr>lisf_protocol_version = Some agent_protocol_version, lisf_request_id = request_id, lisf_payload = Some payload\<rparr>"

definition session_terminated_frame :: "session_terminated_event \<Rightarrow> local_ipc_server_frame" where
  "session_terminated_frame event = agent_server_frame [] (LocalIpcServerFrame_SessionTerminated event)"

definition host_pairing_state_frame :: "host_pairing_status_snapshot \<Rightarrow> local_ipc_server_frame" where
  "host_pairing_state_frame status =
     agent_server_frame [] (LocalIpcServerFrame_HostPairingStateChanged \<lparr>hpsce_status = Some status\<rparr>)"

fun protocol_error_row :: "protocol_error \<Rightarrow> error_code \<times> string" where
  "protocol_error_row ProtocolError_AuthenticationFailed = (ErrorCode_AuthInvalid, ''local_ipc.authentication_failed'')"
| "protocol_error_row ProtocolError_InvalidAuthenticationLength = (ErrorCode_AuthInvalid, ''local_ipc.authentication_failed'')"
| "protocol_error_row ProtocolError_UnsupportedVersion = (ErrorCode_ProtocolUnsupported, ''local_ipc.version_unsupported'')"
| "protocol_error_row _ = (ErrorCode_InvalidRequest, ''local_ipc.invalid_request'')"

definition protocol_error_frame :: "string \<Rightarrow> protocol_error \<Rightarrow> local_ipc_server_frame" where
  "protocol_error_frame request_id error =
     agent_server_frame request_id (LocalIpcServerFrame_Error
       \<lparr>ue_code = error_code_code (fst (protocol_error_row error)), ue_message_key = snd (protocol_error_row error),
        ue_retryable = False, ue_request_id = request_id, ue_details = None\<rparr>)"

section \<open>Reading frames\<close>

record incoming_frame_reader =
  ifr_decoder :: frame_decoder
  ifr_queued :: "bytes list"

definition incoming_frame_reader_new :: incoming_frame_reader where
  "incoming_frame_reader_new = \<lparr>ifr_decoder = frame_decoder_new, ifr_queued = []\<rparr>"

datatype polled_frame =
    FramePending
  | FrameReady "runtime_error + local_ipc_client_frame option"

definition pop_queued :: "local_ipc_codec \<Rightarrow> incoming_frame_reader \<Rightarrow> incoming_frame_reader \<times> polled_frame" where
  "pop_queued c r =
     (case ifr_queued r of
        [] \<Rightarrow> (r, FramePending)
      | payload # queued \<Rightarrow>
          (r\<lparr>ifr_queued := queued\<rparr>,
           FrameReady (map_err (\<lambda>_. RuntimeError_LocalProtocol) (ok_or () (map_option Some (lcd_decode c payload))))))"

text \<open>
  One round of \<^verbatim>\<open>next_frame\<close>.  The outcome of the read is used only when nothing is queued: the bytes read, none of them at the end of
  the stream, \<open>None\<close> for an error.  The future keeps nothing of its own between two reads, so that dropping it when another branch
  of \<^verbatim>\<open>select!\<close> is taken loses nothing.  A push that never returned would leave the task waiting; no push does.
\<close>

definition next_frame ::
  "local_ipc_codec \<Rightarrow> incoming_frame_reader \<Rightarrow> bytes option \<Rightarrow> incoming_frame_reader \<times> polled_frame" where
  "next_frame c r read =
     (if ifr_queued r \<noteq> [] then pop_queued c r
      else case read of
        None \<Rightarrow> (r, FrameReady (Inl RuntimeError_LocalProtocol))
      | Some [] \<Rightarrow>
          (r, FrameReady (bind_res (map_err (\<lambda>_. RuntimeError_LocalProtocol) (frame_finish (ifr_decoder r))) (\<lambda>_. Inr None)))
      | Some chunk \<Rightarrow>
          (case frame_push (ifr_decoder r) chunk of
             None \<Rightarrow> (r, FramePending)
           | Some (d, Inl _) \<Rightarrow> (r\<lparr>ifr_decoder := d\<rparr>, FrameReady (Inl RuntimeError_LocalProtocol))
           | Some (d, Inr frames) \<Rightarrow> pop_queued c (r\<lparr>ifr_decoder := d, ifr_queued := ifr_queued r @ frames\<rparr>)))"

section \<open>A connection\<close>

text \<open>
  Where the task of a connection waits: for the authentication, for the branches of the loop, for the service to answer a
  request, for room in the outbound queue (and what comes after the frame is in it), for the writer, or for nothing.
\<close>

datatype after_send = ThenAuthenticate | ThenSubscribe | ThenServe | ThenReturn

datatype connection_phase =
    AwaitAuthentication
  | Serving
  | Calling local_ipc_client_frame
  | Sending local_ipc_server_frame after_send
  | Returned "runtime_error + unit"
  | Finished "runtime_error + unit"

text \<open>
  The receivers of the broadcast channels are positions in what was sent on them.  \<open>cn_received\<close> and \<open>cn_sent\<close> are not in the code: they
  collect the frames handed out by the reader and the frames put into the outbound queue.
\<close>

record connection =
  cn_reader :: incoming_frame_reader
  cn_protocol :: server_protocol
  cn_queue :: "local_ipc_server_frame list"
  cn_written :: bytes
  cn_writer :: "(runtime_error + unit) option"
  cn_phase :: connection_phase
  cn_terminations :: nat
  cn_pairing_states :: nat
  cn_received :: "local_ipc_client_frame list"
  cn_sent :: "local_ipc_server_frame list"

definition connection_open :: "bytes \<Rightarrow> bytes \<Rightarrow> bytes option \<Rightarrow> connection" where
  "connection_open token instance_id nonce =
     (let protocol = server_protocol_new token instance_id (case nonce of Some n \<Rightarrow> n | None \<Rightarrow> [])
      in \<lparr>cn_reader = incoming_frame_reader_new, cn_protocol = protocol, cn_queue = [], cn_written = [], cn_writer = None,
          cn_phase = (case nonce of
              None \<Rightarrow> Returned (Inl RuntimeError_RandomGeneration)
            | Some _ \<Rightarrow> Sending (agent_server_frame [] (LocalIpcServerFrame_Challenge (server_challenge protocol))) ThenAuthenticate),
          cn_terminations = 0, cn_pairing_states = 0, cn_received = [], cn_sent = []\<rparr>)"

text \<open>The outbound channel: sending fails once the writer is gone, and waits while the queue is full.\<close>

definition subscribe_events :: "'s host_service \<Rightarrow> connection \<Rightarrow> connection" where
  "subscribe_events sv cn = cn\<lparr>cn_terminations := length (sr_terminations (sv_sessions sv)),
     cn_pairing_states := length (sv_pairing_events sv), cn_phase := Serving\<rparr>"

fun resume :: "'s host_service \<Rightarrow> after_send \<Rightarrow> connection \<Rightarrow> connection" where
  "resume sv ThenAuthenticate cn = cn\<lparr>cn_phase := AwaitAuthentication\<rparr>"
| "resume sv ThenSubscribe cn = subscribe_events sv cn"
| "resume sv ThenServe cn = cn\<lparr>cn_phase := Serving\<rparr>"
| "resume sv ThenReturn cn = cn\<lparr>cn_phase := Returned (Inr ())\<rparr>"

definition send_outbound :: "'s host_service \<Rightarrow> connection \<Rightarrow> local_ipc_server_frame \<Rightarrow> after_send \<Rightarrow> connection" where
  "send_outbound sv cn frame next =
     (if cn_writer cn \<noteq> None then cn\<lparr>cn_phase := Returned (Inl RuntimeError_LocalProtocol)\<rparr>
      else if OUTBOUND_QUEUE_CAPACITY \<le> length (cn_queue cn) then cn
      else resume sv next (cn\<lparr>cn_queue := cn_queue cn @ [frame], cn_sent := cn_sent cn @ [frame]\<rparr>))"

definition authenticate_connection :: "mac_function \<Rightarrow> connection \<Rightarrow> local_ipc_client_frame \<Rightarrow> connection" where
  "authenticate_connection hmac cn frame =
     (case server_authenticate hmac (cn_protocol cn) frame of
        (protocol, Inr authenticated) \<Rightarrow>
          cn\<lparr>cn_protocol := protocol, cn_phase :=
            Sending (agent_server_frame (licf_request_id frame) (LocalIpcServerFrame_Authenticated authenticated)) ThenSubscribe\<rparr>
      | (protocol, Inl e) \<Rightarrow>
          cn\<lparr>cn_protocol := protocol, cn_phase := Sending (protocol_error_frame (licf_request_id frame) e) ThenReturn\<rparr>)"

definition admit_request :: "connection \<Rightarrow> local_ipc_client_frame \<Rightarrow> connection" where
  "admit_request cn frame =
     (case begin_request (cn_protocol cn) frame of
        (protocol, Inr _) \<Rightarrow> cn\<lparr>cn_protocol := protocol, cn_phase := Calling frame\<rparr>
      | (protocol, Inl e) \<Rightarrow>
          cn\<lparr>cn_protocol := protocol, cn_phase := Sending (protocol_error_frame (licf_request_id frame) e) ThenServe\<rparr>)"

text \<open>The frame read goes to the handshake or to the loop; what else ends the reading ends the connection.\<close>

definition connection_read :: "mac_function \<Rightarrow> local_ipc_codec \<Rightarrow> connection \<Rightarrow> bytes option \<Rightarrow> connection" where
  "connection_read hmac c cn read =
     (case next_frame c (cn_reader cn) read of
        (reader, FramePending) \<Rightarrow> cn\<lparr>cn_reader := reader\<rparr>
      | (reader, FrameReady (Inl e)) \<Rightarrow> cn\<lparr>cn_reader := reader, cn_phase := Returned (Inl e)\<rparr>
      | (reader, FrameReady (Inr None)) \<Rightarrow>
          cn\<lparr>cn_reader := reader, cn_phase := Returned
            (if cn_phase cn = AwaitAuthentication then Inl RuntimeError_LocalProtocol else Inr ())\<rparr>
      | (reader, FrameReady (Inr (Some frame))) \<Rightarrow>
          (let cn' = cn\<lparr>cn_reader := reader, cn_received := cn_received cn @ [frame]\<rparr>
           in if cn_phase cn = AwaitAuthentication then authenticate_connection hmac cn' frame else admit_request cn' frame))"

text \<open>
  \<^verbatim>\<open>recv\<close> on a broadcast channel: the next thing sent, or that the receiver has fallen behind, after which it goes on with the
  oldest one kept.  The channel is never closed, since the connection itself holds the service that sends on it.
\<close>

datatype 'a received_event = NothingSent | Lagged nat | Received 'a nat

definition broadcast_recv :: "nat \<Rightarrow> 'a list \<Rightarrow> nat \<Rightarrow> 'a received_event" where
  "broadcast_recv capacity sent position =
     (if length sent \<le> position then NothingSent
      else if capacity < length sent - position then Lagged (length sent - capacity)
      else Received (sent ! position) (position + 1))"

datatype connection_event =
    ReadPolled "bytes option"
  | HandshakeTimedOut
  | SendPolled
  | SendTimedOut
  | CancelPolled
  | TerminationPolled
  | PairingStatePolled
  | CallCompleted int request_draws
  | CallTimedOut
  | CallFailed
  | WriterPolled "nat option"
  | WriterClosed bool
  | WriterTimedOut

definition poll_termination :: "'s host_service \<Rightarrow> connection \<Rightarrow> connection" where
  "poll_termination sv cn =
     (case broadcast_recv TERMINATION_EVENT_CAPACITY (sr_terminations (sv_sessions sv)) (cn_terminations cn) of
        NothingSent \<Rightarrow> cn
      | Lagged position \<Rightarrow> cn\<lparr>cn_terminations := position\<rparr>
      | Received event position \<Rightarrow>
          cn\<lparr>cn_terminations := position, cn_phase := Sending (session_terminated_frame event) ThenServe\<rparr>)"

definition poll_pairing_state :: "'s host_service \<Rightarrow> connection \<Rightarrow> connection" where
  "poll_pairing_state sv cn =
     (case broadcast_recv PAIRING_EVENT_CAPACITY (sv_pairing_events sv) (cn_pairing_states cn) of
        NothingSent \<Rightarrow> cn
      | Lagged position \<Rightarrow> cn\<lparr>cn_pairing_states := position\<rparr>
      | Received status position \<Rightarrow>
          cn\<lparr>cn_pairing_states := position, cn_phase := Sending (host_pairing_state_frame status) ThenServe\<rparr>)"

text \<open>The blocking task reads the clock and calls the service.\<close>

definition call_service ::
  "pairing_env \<Rightarrow> 's grant_store_ops \<Rightarrow> int \<Rightarrow> request_draws \<Rightarrow> 's host_service \<Rightarrow> local_ipc_client_frame
    \<Rightarrow> 's host_service \<times> (runtime_error + local_ipc_server_frame)" where
  "call_service env ops clock draws sv frame =
     (case agent_now_unix_ms clock of
        Inl e \<Rightarrow> (sv, Inl e)
      | Inr now \<Rightarrow> map_prod id Inr (handle_frame env ops draws sv frame now))"

definition answer_call ::
  "pairing_env \<Rightarrow> 's grant_store_ops \<Rightarrow> int \<Rightarrow> request_draws \<Rightarrow> 's host_service \<times> connection \<Rightarrow> local_ipc_client_frame
    \<Rightarrow> 's host_service \<times> connection" where
  "answer_call env ops clock draws st frame =
     (case call_service env ops clock draws (fst st) frame of
        (sv, Inl e) \<Rightarrow> (sv, (snd st)\<lparr>cn_phase := Returned (Inl e)\<rparr>)
      | (sv, Inr response) \<Rightarrow>
          (sv, (snd st)\<lparr>cn_protocol := complete_request (cn_protocol (snd st)) (licf_request_id frame),
                        cn_phase := Sending response ThenServe\<rparr>))"

text \<open>
  The writer: the next frame of the queue, encoded and written, of which only some bytes go out when the write fails; after the last frame,
  when the sender is gone, the shutdown of the stream.
\<close>

definition write_frame :: "local_ipc_codec \<Rightarrow> connection \<Rightarrow> nat option \<Rightarrow> connection" where
  "write_frame c cn failed_after =
     (case (cn_writer cn, cn_queue cn) of
        (None, frame # queue) \<Rightarrow>
          (let cn' = cn\<lparr>cn_queue := queue\<rparr>
           in case encode_frame (lcd_encode c frame) of
                Inl _ \<Rightarrow> cn'\<lparr>cn_writer := Some (Inl RuntimeError_LocalProtocol)\<rparr>
              | Inr encoded \<Rightarrow>
                  (case failed_after of
                     None \<Rightarrow> cn'\<lparr>cn_written := cn_written cn @ encoded\<rparr>
                   | Some n \<Rightarrow> cn'\<lparr>cn_written := cn_written cn @ take n encoded,
                                  cn_writer := Some (Inl RuntimeError_LocalProtocol)\<rparr>))
      | _ \<Rightarrow> cn)"

definition close_writer :: "connection \<Rightarrow> bool \<Rightarrow> connection" where
  "close_writer cn ok =
     (case (cn_phase cn, cn_writer cn, cn_queue cn) of
        (Returned _, None, []) \<Rightarrow> cn\<lparr>cn_writer := Some (ensure RuntimeError_LocalProtocol ok)\<rparr>
      | _ \<Rightarrow> cn)"

text \<open>The end of \<^verbatim>\<open>handle_connection\<close>: the result of the session comes before that of the writer.\<close>

definition join_writer :: "connection \<Rightarrow> connection" where
  "join_writer cn =
     (case (cn_phase cn, cn_writer cn) of
        (Returned r, Some w) \<Rightarrow> cn\<lparr>cn_phase := Finished (bind_res r (\<lambda>_. w))\<rparr>
      | _ \<Rightarrow> cn)"

definition abort_writer :: "connection \<Rightarrow> connection" where
  "abort_writer cn =
     (case (cn_phase cn, cn_writer cn) of
        (Returned r, None) \<Rightarrow> cn\<lparr>cn_phase := Finished (Inl RuntimeError_LocalProtocol)\<rparr>
      | _ \<Rightarrow> cn)"

text \<open>
  One step of a connection.  Only the events its phase waits for have an effect.  A call that times out is left to run; it is returned, for
  the agent to finish.
\<close>

definition connection_step ::
  "mac_function \<Rightarrow> local_ipc_codec \<Rightarrow> pairing_env \<Rightarrow> 's grant_store_ops \<Rightarrow> bool \<Rightarrow> 's host_service \<times> connection
    \<Rightarrow> connection_event \<Rightarrow> ('s host_service \<times> connection) \<times> local_ipc_client_frame option" where
  "connection_step hmac c env ops cancelled st ev =
     (let (sv, cn) = st in
      case (cn_phase cn, ev) of
        (AwaitAuthentication, ReadPolled read) \<Rightarrow> ((sv, connection_read hmac c cn read), None)
      | (AwaitAuthentication, HandshakeTimedOut) \<Rightarrow> ((sv, cn\<lparr>cn_phase := Returned (Inl RuntimeError_LocalProtocol)\<rparr>), None)
      | (Serving, ReadPolled read) \<Rightarrow> ((sv, connection_read hmac c cn read), None)
      | (Serving, CancelPolled) \<Rightarrow> ((sv, if cancelled then cn\<lparr>cn_phase := Returned (Inr ())\<rparr> else cn), None)
      | (Serving, TerminationPolled) \<Rightarrow> ((sv, poll_termination sv cn), None)
      | (Serving, PairingStatePolled) \<Rightarrow> ((sv, poll_pairing_state sv cn), None)
      | (Calling frame, CallCompleted clock draws) \<Rightarrow> (answer_call env ops clock draws (sv, cn) frame, None)
      | (Calling frame, CallTimedOut) \<Rightarrow> ((sv, cn\<lparr>cn_phase := Returned (Inl RuntimeError_LocalProtocol)\<rparr>), Some frame)
      | (Calling frame, CallFailed) \<Rightarrow> ((sv, cn\<lparr>cn_phase := Returned (Inl RuntimeError_Task)\<rparr>), None)
      | (Sending frame next, SendPolled) \<Rightarrow> ((sv, send_outbound sv cn frame next), None)
      | (Sending frame next, SendTimedOut) \<Rightarrow> ((sv, cn\<lparr>cn_phase := Returned (Inl RuntimeError_LocalProtocol)\<rparr>), None)
      | (_, WriterPolled failed_after) \<Rightarrow> ((sv, write_frame c cn failed_after), None)
      | (_, WriterClosed ok) \<Rightarrow> ((sv, join_writer (close_writer cn ok)), None)
      | (_, WriterTimedOut) \<Rightarrow> ((sv, abort_writer cn), None)
      | _ \<Rightarrow> ((sv, cn), None))"

section \<open>The listener\<close>

datatype listener_phase = Accepting | Stopping "runtime_error option" | Stopped "runtime_error + unit"

record 's agent =
  ag_service :: "'s host_service"
  ag_listener :: listener_phase
  ag_permits :: nat
  ag_connections :: "connection list"
  ag_detached :: "local_ipc_client_frame list"

definition agent_start :: "'s host_service \<Rightarrow> 's agent" where
  "agent_start sv = \<lparr>ag_service = sv, ag_listener = Accepting, ag_permits = MAX_LOCAL_CLIENTS, ag_connections = [], ag_detached = []\<rparr>"

text \<open>What can happen next; \<open>OtherCall\<close> is a call of the service by the rest of the agent.\<close>

datatype agent_event =
    AcceptedStream "bytes option"
  | AcceptFailed local_transport_error
  | ShutdownRequested
  | ConnectionEvent nat connection_event
  | DetachedCall nat int request_draws
  | AllJoined
  | OtherCall service_op

definition spawn_connection :: "bytes \<Rightarrow> bytes \<Rightarrow> 's agent \<Rightarrow> bytes option \<Rightarrow> 's agent" where
  "spawn_connection token instance_id ag nonce =
     (if ag_permits ag = 0 then ag
      else ag\<lparr>ag_permits := ag_permits ag - 1, ag_connections := ag_connections ag @ [connection_open token instance_id nonce]\<rparr>)"

fun connection_finished :: "connection_phase \<Rightarrow> bool" where
  "connection_finished (Finished _) = True"
| "connection_finished _ = False"

text \<open>A step of one connection; its permit is returned when its task ends.\<close>

definition connection_turn ::
  "mac_function \<Rightarrow> local_ipc_codec \<Rightarrow> pairing_env \<Rightarrow> 's grant_store_ops \<Rightarrow> 's agent \<Rightarrow> nat \<Rightarrow> connection_event \<Rightarrow> 's agent" where
  "connection_turn hmac c env ops ag i ev =
     (if length (ag_connections ag) \<le> i then ag
      else let cn = ag_connections ag ! i;
               ((sv, cn'), detached) = connection_step hmac c env ops (ag_listener ag \<noteq> Accepting) (ag_service ag, cn) ev
           in ag\<lparr>ag_service := sv, ag_connections := (ag_connections ag)[i := cn'],
                 ag_permits := ag_permits ag + (if connection_finished (cn_phase cn') \<and> \<not> connection_finished (cn_phase cn) then 1 else 0),
                 ag_detached := ag_detached ag @ (case detached of Some frame \<Rightarrow> [frame] | None \<Rightarrow> [])\<rparr>)"

definition run_detached ::
  "pairing_env \<Rightarrow> 's grant_store_ops \<Rightarrow> 's agent \<Rightarrow> nat \<Rightarrow> int \<Rightarrow> request_draws \<Rightarrow> 's agent" where
  "run_detached env ops ag i clock draws =
     (if length (ag_detached ag) \<le> i then ag
      else ag\<lparr>ag_service := fst (call_service env ops clock draws (ag_service ag) (ag_detached ag ! i)),
              ag_detached := take i (ag_detached ag) @ drop (i + 1) (ag_detached ag)\<rparr>)"

definition agent_event_step ::
  "mac_function \<Rightarrow> local_ipc_codec \<Rightarrow> pairing_env \<Rightarrow> 's grant_store_ops \<Rightarrow> bytes \<Rightarrow> bytes \<Rightarrow> 's agent \<Rightarrow> agent_event \<Rightarrow> 's agent" where
  "agent_event_step hmac c env ops token instance_id ag ev =
     (case ev of
        AcceptedStream nonce \<Rightarrow> if ag_listener ag = Accepting then spawn_connection token instance_id ag nonce else ag
      | AcceptFailed e \<Rightarrow>
          if ag_listener ag = Accepting \<and> e \<noteq> LocalTransportError_PeerUserMismatch
          then ag\<lparr>ag_listener := Stopping (Some (map_local_transport_error e))\<rparr> else ag
      | ShutdownRequested \<Rightarrow> if ag_listener ag = Accepting then ag\<lparr>ag_listener := Stopping None\<rparr> else ag
      | ConnectionEvent i ev \<Rightarrow> connection_turn hmac c env ops ag i ev
      | DetachedCall i clock draws \<Rightarrow> run_detached env ops ag i clock draws
      | AllJoined \<Rightarrow>
          (case ag_listener ag of
             Stopping e \<Rightarrow>
               if \<forall>cn \<in> set (ag_connections ag). connection_finished (cn_phase cn)
               then ag\<lparr>ag_listener := Stopped (case e of Some e \<Rightarrow> Inl e | None \<Rightarrow> Inr ())\<rparr> else ag
           | _ \<Rightarrow> ag)
      | OtherCall x \<Rightarrow> ag\<lparr>ag_service := fst (service_step env ops (ag_service ag) x)\<rparr>)"


section \<open>The conversation on a connection\<close>

text \<open>Notifications are the frames that answer nothing.\<close>

definition is_notification :: "local_ipc_server_frame \<Rightarrow> bool" where
  "is_notification frame = (case lisf_payload frame of
     Some (LocalIpcServerFrame_SessionTerminated _) \<Rightarrow> True
   | Some (LocalIpcServerFrame_HostPairingStateChanged _) \<Rightarrow> True
   | _ \<Rightarrow> False)"

fun being_sent :: "connection_phase \<Rightarrow> local_ipc_server_frame list" where
  "being_sent (Sending frame _) = [frame]"
| "being_sent _ = []"

definition replies :: "connection \<Rightarrow> string list" where
  "replies cn = map lisf_request_id (filter (\<lambda>f. \<not> is_notification f) (cn_sent cn @ being_sent (cn_phase cn)))"

abbreviation requests :: "connection \<Rightarrow> string list" where
  "requests cn \<equiv> map licf_request_id (cn_received cn)"

definition admitted :: "mac_function \<Rightarrow> connection \<Rightarrow> bool" where
  "admitted hmac cn \<longleftrightarrow> sp_authenticated (cn_protocol cn)
     \<and> (\<exists>g fs. cn_received cn = g # fs \<and> answers_challenge hmac (sp_token (cn_protocol cn)) (sp_instance_id (cn_protocol cn))
          (sp_server_nonce (cn_protocol cn)) g)"

definition request_ok :: "local_ipc_client_frame \<Rightarrow> bool" where
  "request_ok f \<longleftrightarrow> validate_common_frame f = Inr () \<and> (\<forall>a. licf_payload f \<noteq> Some (LocalIpcClientFrame_Authenticate a))"

fun conversation_ok :: "mac_function \<Rightarrow> connection \<Rightarrow> connection_phase \<Rightarrow> bool" where
  "conversation_ok hmac cn AwaitAuthentication \<longleftrightarrow>
     \<not> sp_authenticated (cn_protocol cn) \<and> cn_received cn = [] \<and> replies cn = [[]]"
| "conversation_ok hmac cn Serving \<longleftrightarrow> admitted hmac cn \<and> sp_pending_request_ids (cn_protocol cn) = {} \<and> replies cn = [] # requests cn"
| "conversation_ok hmac cn (Calling f) \<longleftrightarrow> admitted hmac cn \<and> sp_pending_request_ids (cn_protocol cn) = {licf_request_id f}
     \<and> (\<exists>gs. gs \<noteq> [] \<and> cn_received cn = gs @ [f] \<and> replies cn = [] # map licf_request_id gs) \<and> request_ok f"
| "conversation_ok hmac cn (Sending f ThenAuthenticate) \<longleftrightarrow>
     \<not> sp_authenticated (cn_protocol cn) \<and> cn_received cn = [] \<and> replies cn = [[]]"
| "conversation_ok hmac cn (Sending f ThenReturn) \<longleftrightarrow>
     \<not> sp_authenticated (cn_protocol cn) \<and> replies cn = [] # requests cn"
| "conversation_ok hmac cn (Sending f next) \<longleftrightarrow> admitted hmac cn \<and> sp_pending_request_ids (cn_protocol cn) = {} \<and> replies cn = [] # requests cn"
| "conversation_ok hmac cn _ \<longleftrightarrow> prefix (replies cn) ([] # requests cn) \<and> (sp_authenticated (cn_protocol cn) \<longrightarrow> admitted hmac cn)"

definition wire_bytes :: "local_ipc_codec \<Rightarrow> local_ipc_server_frame \<Rightarrow> bytes" where
  "wire_bytes c f = (case encode_frame (lcd_encode c f) of Inr encoded \<Rightarrow> encoded | Inl _ \<Rightarrow> [])"

definition writer_ok :: "local_ipc_codec \<Rightarrow> connection \<Rightarrow> bool" where
  "writer_ok c cn \<longleftrightarrow> length (cn_queue cn) \<le> OUTBOUND_QUEUE_CAPACITY
     \<and> prefix (cn_written cn) (concat (map (wire_bytes c) (cn_sent cn)))
     \<and> (cn_writer cn = None \<longrightarrow> (\<exists>out. cn_sent cn = out @ cn_queue cn \<and> cn_written cn = concat (map (wire_bytes c) out)))"

definition connection_ok :: "mac_function \<Rightarrow> local_ipc_codec \<Rightarrow> bytes \<Rightarrow> bytes \<Rightarrow> connection \<Rightarrow> bool" where
  "connection_ok hmac c token instance_id cn \<longleftrightarrow>
     sp_token (cn_protocol cn) = token \<and> sp_instance_id (cn_protocol cn) = instance_id
     \<and> (sp_authenticated (cn_protocol cn) \<or> sp_pending_request_ids (cn_protocol cn) = {})
     \<and> conversation_ok hmac cn (cn_phase cn) \<and> writer_ok c cn"

text \<open>What the service answers is never a notification, and carries the identifier of the request.\<close>

lemma revoke_answer:
  assumes "revoke ops sv i = (sv', Inr p)"
  shows "\<exists>r. p = LocalIpcServerFrame_ControllerGrantRevoked r"
proof -
  obtain sv1 x where x: "with_authorization ServiceError_Internal sv (\<lambda>authorization.
      smap_err ServiceError_Authorization (revoke_controller_grant ops authorization i)) = (sv1, x)" by fastforce
  show ?thesis
  proof (cases x)
    case (Inl e)
    then show ?thesis using assms x by (simp add: revoke_def)
  next
    case (Inr revoked)
    obtain d where d: "controller_device_id_for revoked = Some d"
      using assms x Inr by (cases "controller_device_id_for revoked") (simp_all add: revoke_def)
    obtain ss t where t: "terminate_controller (sv_sessions sv1) d = (ss, t)" by fastforce
    then show ?thesis using assms x Inr d by (cases t) (auto simp: revoke_def bind_res_Inr)
  qed
qed

lemma pairing_tick_answer:
  assumes "smap_err e (with_pairing sv (\<lambda>pairing. (h pairing, Inr (LocalIpcServerFrame_HostPairingStatus (k pairing))))) = (sv', Inr p)"
  shows "\<exists>status. p = LocalIpcServerFrame_HostPairingStatus status"
  using assms by (cases "sv_pairing sv") (auto simp: with_pairing_def Let_def)

lemma no_notification_payload:
  "handle_payload env ops dr sv q now = (sv', Inr p) \<Longrightarrow>
     \<not> (case p of LocalIpcServerFrame_SessionTerminated _ \<Rightarrow> True | LocalIpcServerFrame_HostPairingStateChanged _ \<Rightarrow> True | _ \<Rightarrow> False)"
  by (cases q) (auto simp: handle_payload_def host_status_payload_def create_grant_payload_def emergency_stop_def
      handle_pairing_payload_def then_pairing_status_def pairing_status_payload_def bind_res_Inr sbind_Inr Let_def ok_or_def
      dest!: revoke_answer pairing_tick_answer split: sum.splits option.splits prod.splits mutex.splits if_splits)

lemma service_reply:
  assumes "handle_frame env ops dr sv f now = (sv', r)"
  shows "lisf_request_id r = licf_request_id f" "\<not> is_notification r"
proof -
  obtain sv1 q where q: "(case licf_payload f of None \<Rightarrow> (sv, Inl ServiceError_InvalidRequest)
      | Some payload \<Rightarrow> handle_payload env ops dr sv payload now) = (sv1, q)" by fastforce
  show "lisf_request_id r = licf_request_id f" using assms by (auto simp: handle_frame_def Let_def split: prod.splits)
  show "\<not> is_notification r"
    using assms q no_notification_payload [of env ops dr sv _ now sv1]
    by (cases q; cases "licf_payload f") (auto simp: handle_frame_def Let_def is_notification_def)
qed


lemma phase_exhaust:
  assumes "p = AwaitAuthentication \<Longrightarrow> P" "p = Serving \<Longrightarrow> P" "\<And>f. p = Calling f \<Longrightarrow> P"
    and "\<And>f. p = Sending f ThenAuthenticate \<Longrightarrow> P" "\<And>f. p = Sending f ThenSubscribe \<Longrightarrow> P"
    and "\<And>f. p = Sending f ThenServe \<Longrightarrow> P" "\<And>f. p = Sending f ThenReturn \<Longrightarrow> P"
    and "\<And>r. p = Returned r \<Longrightarrow> P" "\<And>r. p = Finished r \<Longrightarrow> P"
  shows P
  using assms by (cases p) (metis after_send.exhaust)+

lemma conversation_cong:
  assumes "cn_protocol cn' = cn_protocol cn" "cn_received cn' = cn_received cn" "cn_sent cn' = cn_sent cn" "cn_phase cn' = cn_phase cn"
  shows "conversation_ok hmac cn' p = conversation_ok hmac cn p"
  by (cases p rule: phase_exhaust) (simp_all add: assms replies_def admitted_def)

lemma open_ok: "connection_ok hmac c token instance_id (connection_open token instance_id nonce)"
  by (cases nonce) (simp_all add: connection_ok_def connection_open_def Let_def server_protocol_new_def replies_def writer_ok_def
      is_notification_def agent_server_frame_def limits)

lemma admitted_phase [simp]: "admitted hmac (cn\<lparr>cn_phase := p\<rparr>) = admitted hmac cn"
  by (simp add: admitted_def)

lemma sent_replies: "prefix (map lisf_request_id (filter (\<lambda>f. \<not> is_notification f) (cn_sent cn))) (replies cn)"
  by (simp add: replies_def)

lemma conversation_returned:
  assumes "conversation_ok hmac cn (cn_phase cn)"
  shows "prefix (map lisf_request_id (filter (\<lambda>f. \<not> is_notification f) (cn_sent cn))) ([] # requests cn)"
    and "sp_authenticated (cn_protocol cn) \<Longrightarrow> admitted hmac cn"
proof -
  have "prefix (replies cn) ([] # requests cn)"
    using assms by (cases "cn_phase cn" rule: phase_exhaust) (simp_all, metis map_append prefix_Cons prefixI)
  then show "prefix (map lisf_request_id (filter (\<lambda>f. \<not> is_notification f) (cn_sent cn))) ([] # requests cn)"
    using sent_replies prefix_order.trans by blast
  show "admitted hmac cn" if "sp_authenticated (cn_protocol cn)"
    using assms that by (cases "cn_phase cn" rule: phase_exhaust) simp_all
qed

text \<open>A connection may return at any point.\<close>

lemma return_ok:
  assumes "connection_ok hmac c token instance_id cn"
    and "cn' = cn\<lparr>cn_reader := reader, cn_phase := p\<rparr>" "p = Returned r \<or> p = Finished r"
  shows "connection_ok hmac c token instance_id cn'"
proof -
  note ok = assms(1) [unfolded connection_ok_def]
  have "prefix (replies cn') ([] # requests cn')" "sp_authenticated (cn_protocol cn') \<longrightarrow> admitted hmac cn'"
    using conversation_returned [of hmac cn] ok assms(2,3) by (auto simp: replies_def admitted_def)
  then show ?thesis using ok assms(2,3) by (auto simp: connection_ok_def writer_ok_def)
qed

lemma reader_set_ok: "connection_ok hmac c token instance_id cn \<Longrightarrow> connection_ok hmac c token instance_id (cn\<lparr>cn_reader := reader\<rparr>)"
  using conversation_cong [of "cn\<lparr>cn_reader := reader\<rparr>" cn] by (simp add: connection_ok_def writer_ok_def)

lemma queue_ok:
  assumes "writer_ok c cn" "cn_writer cn = None" "length (cn_queue cn) < OUTBOUND_QUEUE_CAPACITY"
  shows "writer_ok c (cn\<lparr>cn_queue := cn_queue cn @ [f], cn_sent := cn_sent cn @ [f]\<rparr>)"
  using assms by (auto simp: writer_ok_def)

lemma writer_ok_resume [simp]: "writer_ok c (resume sv next cn) = writer_ok c cn"
  by (cases "next") (simp_all add: writer_ok_def subscribe_events_def)

lemma send_ok:
  assumes "connection_ok hmac c token instance_id cn" "cn_phase cn = Sending f next"
  shows "connection_ok hmac c token instance_id (send_outbound sv cn f next)"
proof (cases "cn_writer cn = None \<and> length (cn_queue cn) < OUTBOUND_QUEUE_CAPACITY")
  case True
  then have w: "writer_ok c (send_outbound sv cn f next)"
    using assms(1) queue_ok by (simp add: connection_ok_def send_outbound_def)
  have "conversation_ok hmac (send_outbound sv cn f next) (cn_phase (send_outbound sv cn f next))"
    using assms True by (cases "next") (auto simp: connection_ok_def send_outbound_def subscribe_events_def replies_def admitted_def)
  moreover have "cn_protocol (send_outbound sv cn f next) = cn_protocol cn"
    by (cases "next") (simp_all add: send_outbound_def subscribe_events_def)
  ultimately show ?thesis using assms(1) w by (simp add: connection_ok_def)
next
  case False
  then show ?thesis
    using assms(1) return_ok [OF assms(1), where reader = "cn_reader cn" and p = "Returned (Inl RuntimeError_LocalProtocol)"]
    by (auto simp: send_outbound_def)
qed

lemma write_ok:
  assumes "connection_ok hmac c token instance_id cn"
  shows "connection_ok hmac c token instance_id (write_frame c cn failed_after)"
proof (cases "cn_writer cn = None \<and> cn_queue cn \<noteq> []")
  case True
  then obtain f q where q: "cn_queue cn = f # q" "cn_writer cn = None" by (cases "cn_queue cn") auto
  obtain out where out: "cn_sent cn = out @ cn_queue cn" "cn_written cn = concat (map (wire_bytes c) out)"
    "length (cn_queue cn) \<le> OUTBOUND_QUEUE_CAPACITY"
    using assms q(2) by (auto simp: connection_ok_def writer_ok_def)
  have pre: "prefix (cn_written cn @ take n (wire_bytes c f)) (concat (map (wire_bytes c) (cn_sent cn)))" for n
    by (simp add: out q(1) take_is_prefix prefix_prefix)
  have "writer_ok c (write_frame c cn failed_after)"
  proof (cases "encode_frame (lcd_encode c f)")
    case (Inl e)
    then show ?thesis using out q pre [of 0] by (simp add: write_frame_def writer_ok_def Let_def)
  next
    case (Inr encoded)
    have eq: "concat (map (wire_bytes c) out) @ encoded = concat (map (wire_bytes c) (out @ [f]))"
      using Inr by (simp add: wire_bytes_def)
    have "prefix (concat (map (wire_bytes c) out) @ encoded) (concat (map (wire_bytes c) (cn_sent cn)))"
      unfolding eq by (simp add: out q(1))
    moreover have "\<exists>out'. cn_sent cn = out' @ q \<and> concat (map (wire_bytes c) out) @ encoded = concat (map (wire_bytes c) out')"
      by (rule exI [of _ "out @ [f]"]) (simp add: out q(1) eq)
    ultimately show ?thesis
      using Inr out q pre by (cases failed_after) (auto simp: write_frame_def writer_ok_def Let_def wire_bytes_def)
  qed
  moreover have "cn_protocol (write_frame c cn failed_after) = cn_protocol cn" "cn_phase (write_frame c cn failed_after) = cn_phase cn"
    "cn_received (write_frame c cn failed_after) = cn_received cn" "cn_sent (write_frame c cn failed_after) = cn_sent cn"
    by (auto simp: write_frame_def Let_def split: option.splits list.splits sum.splits)
  ultimately show ?thesis
    using assms conversation_cong [of "write_frame c cn failed_after" cn] by (simp add: connection_ok_def)
next
  case False
  then show ?thesis using assms by (auto simp: write_frame_def split: option.splits list.splits)
qed


lemma notifications [simp]:
  "is_notification (session_terminated_frame e)" "is_notification (host_pairing_state_frame t)"
  "\<not> is_notification (protocol_error_frame i pe)" "lisf_request_id (protocol_error_frame i pe) = i"
  "\<not> is_notification (agent_server_frame i (LocalIpcServerFrame_Authenticated q))" "lisf_request_id (agent_server_frame i p) = i"
  by (simp_all add: is_notification_def session_terminated_frame_def host_pairing_state_frame_def protocol_error_frame_def
      agent_server_frame_def)

lemma authenticate_ok:
  assumes "connection_ok hmac c token instance_id cn" "cn_phase cn = AwaitAuthentication"
    and "cn' = cn\<lparr>cn_reader := reader, cn_received := cn_received cn @ [frame]\<rparr>"
  shows "connection_ok hmac c token instance_id (authenticate_connection hmac cn' frame)"
proof -
  have ok: "\<not> sp_authenticated (cn_protocol cn)" "cn_received cn = []"
    "map lisf_request_id (filter (\<lambda>f. \<not> is_notification f) (cn_sent cn)) = [[]]"
    "sp_pending_request_ids (cn_protocol cn) = {}" "sp_token (cn_protocol cn) = token" "sp_instance_id (cn_protocol cn) = instance_id"
    "writer_ok c cn"
    using assms(1,2) by (auto simp: connection_ok_def replies_def)
  obtain q r where q: "server_authenticate hmac (cn_protocol cn) frame = (q, r)" by fastforce
  have st: "q = (if is_ok r then (cn_protocol cn)\<lparr>sp_authenticated := True\<rparr> else cn_protocol cn)"
    using server_authenticate_state [of hmac "cn_protocol cn" frame] q by simp
  have an: "answers_challenge hmac token instance_id (sp_server_nonce (cn_protocol cn)) frame" if "r = Inr a" for a
    using server_authenticate_iff [of hmac "cn_protocol cn" frame] q that ok by auto
  show ?thesis
    using ok q st an assms(3)
    by (cases r) (auto simp: authenticate_connection_def connection_ok_def writer_ok_def replies_def admitted_def)
qed

lemma admit_ok:
  assumes "connection_ok hmac c token instance_id cn" "cn_phase cn = Serving"
    and "cn' = cn\<lparr>cn_reader := reader, cn_received := cn_received cn @ [frame]\<rparr>"
  shows "connection_ok hmac c token instance_id (admit_request cn' frame)"
proof -
  have ok: "admitted hmac cn" "sp_pending_request_ids (cn_protocol cn) = {}" "cn_received cn \<noteq> []"
    "map lisf_request_id (filter (\<lambda>f. \<not> is_notification f) (cn_sent cn)) = [] # requests cn"
    "sp_token (cn_protocol cn) = token" "sp_instance_id (cn_protocol cn) = instance_id" "writer_ok c cn" "sp_authenticated (cn_protocol cn)"
    using assms(1,2) by (auto simp: connection_ok_def replies_def admitted_def)
  obtain q r where q: "begin_request (cn_protocol cn) frame = (q, r)" by fastforce
  have st: "q = (if is_ok r then (cn_protocol cn)\<lparr>sp_pending_request_ids := {licf_request_id frame}\<rparr> else cn_protocol cn)"
    using begin_request_state [of "cn_protocol cn" frame] q ok(2) by simp
  have "request_ok frame" if "r = Inr u"
    using begin_request_iff [of "cn_protocol cn" frame u] q that by (simp add: request_ok_def)
  then show ?thesis
    using ok q st assms(3)
    by (cases r) (auto simp: admit_request_def connection_ok_def writer_ok_def replies_def admitted_def)
qed

lemma read_ok:
  assumes "connection_ok hmac c token instance_id cn" "cn_phase cn = AwaitAuthentication \<or> cn_phase cn = Serving"
  shows "connection_ok hmac c token instance_id (connection_read hmac c cn read)"
proof -
  obtain reader q where q: "next_frame c (cn_reader cn) read = (reader, q)" by fastforce
  show ?thesis
  proof (cases q)
    case FramePending
    then show ?thesis using q reader_set_ok [OF assms(1)] by (simp add: connection_read_def)
  next
    case (FrameReady r)
    note return_ok [OF assms(1) refl, of "Returned _"]
    then show ?thesis
      using q FrameReady assms authenticate_ok [OF assms(1) _ refl] admit_ok [OF assms(1) _ refl]
      by (cases r; cases "projr r") (auto simp: connection_read_def Let_def)
  qed
qed

lemma answer_ok:
  assumes "connection_ok hmac c token instance_id cn" "cn_phase cn = Calling frame"
  shows "connection_ok hmac c token instance_id (snd (answer_call env ops clock draws (sv, cn) frame))"
proof -
  have ok: "admitted hmac cn" "sp_pending_request_ids (cn_protocol cn) = {licf_request_id frame}"
    "map lisf_request_id (filter (\<lambda>f. \<not> is_notification f) (cn_sent cn)) @ [licf_request_id frame] = [] # requests cn"
    "sp_token (cn_protocol cn) = token" "sp_instance_id (cn_protocol cn) = instance_id" "writer_ok c cn"
  proof -
    have p: "conversation_ok hmac cn (Calling frame)" using assms by (simp add: connection_ok_def)
    then obtain gs where gs: "cn_received cn = gs @ [frame]" "replies cn = [] # map licf_request_id gs" by auto
    show "map lisf_request_id (filter (\<lambda>f. \<not> is_notification f) (cn_sent cn)) @ [licf_request_id frame] = [] # requests cn"
      using gs assms(2) by (simp add: replies_def)
    show "admitted hmac cn" "sp_pending_request_ids (cn_protocol cn) = {licf_request_id frame}" using p by simp_all
    show "sp_token (cn_protocol cn) = token" "sp_instance_id (cn_protocol cn) = instance_id" "writer_ok c cn"
      using assms(1) by (simp_all add: connection_ok_def)
  qed
  show ?thesis
  proof (cases "agent_now_unix_ms clock")
    case (Inl e)
    then show ?thesis
      using return_ok [OF assms(1), where reader = "cn_reader cn" and p = "Returned (Inl e)"]
      by (simp add: answer_call_def call_service_def)
  next
    case (Inr now)
    obtain sv' r where r: "handle_frame env ops draws sv frame now = (sv', r)" by fastforce
    show ?thesis
      using ok Inr r service_reply [OF r]
      by (auto simp: answer_call_def call_service_def connection_ok_def writer_ok_def replies_def admitted_def complete_request_def)
  qed
qed

lemma poll_ok:
  assumes "connection_ok hmac c token instance_id cn" "cn_phase cn = Serving"
  shows "connection_ok hmac c token instance_id (poll_termination sv cn)" "connection_ok hmac c token instance_id (poll_pairing_state sv cn)"
  using assms by (auto simp: poll_termination_def poll_pairing_state_def connection_ok_def writer_ok_def replies_def admitted_def
      split: received_event.split)

lemma close_writer_ok:
  assumes "connection_ok hmac c token instance_id cn"
  shows "connection_ok hmac c token instance_id (close_writer cn ok)"
  using assms conversation_cong [of "close_writer cn ok" cn]
  by (auto simp: close_writer_def connection_ok_def writer_ok_def split: connection_phase.split option.split list.split)

lemma join_ok:
  assumes "connection_ok hmac c token instance_id cn"
  shows "connection_ok hmac c token instance_id (join_writer cn)" "connection_ok hmac c token instance_id (abort_writer cn)"
  using assms return_ok [OF assms, where reader = "cn_reader cn"]
  by (auto simp: join_writer_def abort_writer_def split: connection_phase.split option.split)

lemma connection_step_ok:
  assumes "connection_ok hmac c token instance_id cn"
  shows "connection_ok hmac c token instance_id (snd (fst (connection_step hmac c env ops cancelled (sv, cn) ev)))"
proof -
  have returned: "connection_ok hmac c token instance_id (cn\<lparr>cn_phase := Returned r\<rparr>)" for r
    using return_ok [OF assms, where reader = "cn_reader cn" and p = "Returned r"] by simp
  note facts = returned assms read_ok [OF assms] poll_ok [OF assms] answer_ok [OF assms] send_ok [OF assms] write_ok [OF assms]
    join_ok [OF close_writer_ok [OF assms]] join_ok [OF assms]
  show ?thesis
    by (cases "cn_phase cn"; cases ev) (simp_all add: connection_step_def facts)
qed


section \<open>The agent\<close>

text \<open>What a step never takes back: an admission, and what was read.\<close>

lemma authenticate_kept:
  assumes "q = fst (server_authenticate hmac s f)"
  shows "sp_token q = sp_token s" "sp_instance_id q = sp_instance_id s" "sp_server_nonce q = sp_server_nonce s"
    "sp_authenticated s \<Longrightarrow> sp_authenticated q"
  by (simp_all add: assms server_authenticate_state)

lemma begin_kept:
  assumes "q = fst (begin_request s f)"
  shows "sp_token q = sp_token s" "sp_instance_id q = sp_instance_id s" "sp_server_nonce q = sp_server_nonce s"
    "sp_authenticated q = sp_authenticated s"
  by (simp_all add: assms begin_request_state)

definition kept :: "connection \<Rightarrow> connection \<Rightarrow> bool" where
  "kept cn cn' \<longleftrightarrow> prefix (cn_received cn) (cn_received cn')
     \<and> sp_token (cn_protocol cn') = sp_token (cn_protocol cn) \<and> sp_instance_id (cn_protocol cn') = sp_instance_id (cn_protocol cn)
     \<and> sp_server_nonce (cn_protocol cn') = sp_server_nonce (cn_protocol cn)
     \<and> (sp_authenticated (cn_protocol cn) \<longrightarrow> sp_authenticated (cn_protocol cn'))"

lemma kept_same: "cn_received cn' = cn_received cn \<Longrightarrow> cn_protocol cn' = cn_protocol cn \<Longrightarrow> kept cn cn'"
  by (simp add: kept_def)

lemma read_kept: "kept cn (connection_read hmac c cn read)"
proof -
  obtain reader q where q: "next_frame c (cn_reader cn) read = (reader, q)" by fastforce
  show ?thesis
  proof (cases "\<exists>frame. q = FrameReady (Inr (Some frame))")
    case True
    then obtain frame where frame: "q = FrameReady (Inr (Some frame))" by blast
    obtain s1 r1 where 1: "server_authenticate hmac (cn_protocol cn) frame = (s1, r1)" by fastforce
    obtain s2 r2 where 2: "begin_request (cn_protocol cn) frame = (s2, r2)" by fastforce
    show ?thesis
      using q frame 1 2 authenticate_kept [of s1 hmac "cn_protocol cn" frame] begin_kept [of s2 "cn_protocol cn" frame]
      by (cases r1; cases r2) (simp_all add: kept_def connection_read_def authenticate_connection_def admit_request_def Let_def)
  next
    case False
    then show ?thesis
      using q by (cases q; cases "case q of FrameReady r \<Rightarrow> r") (auto simp: connection_read_def split: sum.split option.split intro!: kept_same)
  qed
qed

lemma answer_kept: "kept cn (snd (answer_call env ops clock draws (sv, cn) frame))"
  by (auto simp: answer_call_def kept_def complete_request_def split: prod.split sum.split)

lemma resume_same [simp]:
  "cn_received (resume sv next cn) = cn_received cn" "cn_protocol (resume sv next cn) = cn_protocol cn"
  by (cases "next"; simp add: subscribe_events_def)+

lemma others_kept:
  "kept cn (poll_termination sv cn)" "kept cn (poll_pairing_state sv cn)" "kept cn (send_outbound sv cn f next)"
  "kept cn (write_frame c cn k)" "kept cn (join_writer (close_writer cn ok))" "kept cn (abort_writer cn)"
  by (auto intro!: kept_same simp: poll_termination_def poll_pairing_state_def send_outbound_def write_frame_def join_writer_def
      close_writer_def abort_writer_def Let_def split: received_event.split option.split list.split sum.split connection_phase.split)

lemma step_kept: "kept cn (snd (fst (connection_step hmac c env ops cancelled (sv, cn) ev)))"
  by (cases "cn_phase cn"; cases ev)
    (simp_all add: connection_step_def read_kept answer_kept others_kept kept_same)

lemma kept_admitted:
  assumes "kept cn cn'" "admitted hmac cn"
  shows "admitted hmac cn'" "set (tl (cn_received cn)) \<subseteq> set (tl (cn_received cn'))"
  using assms by (auto simp: kept_def admitted_def prefix_def)

lemma step_finished:
  assumes "connection_finished (cn_phase cn)"
  shows "connection_finished (cn_phase (snd (fst (connection_step hmac c env ops cancelled (sv, cn) ev))))"
  using assms by (cases "cn_phase cn"; cases ev)
    (auto simp: connection_step_def write_frame_def join_writer_def close_writer_def abort_writer_def Let_def
      split: option.split list.split sum.split)

text \<open>The service changes only by the call of a request that was admitted.\<close>

lemma step_service:
  assumes "connection_ok hmac c token instance_id cn" "connection_step hmac c env ops cancelled (sv, cn) ev = ((sv', cn'), d)"
  shows "sv' = sv \<or> (\<exists>f draws now. admitted hmac cn \<and> request_ok f \<and> f \<in> set (tl (cn_received cn))
      \<and> sv' = fst (handle_frame env ops draws sv f now))"
    and "d = Some f \<Longrightarrow> admitted hmac cn \<and> request_ok f \<and> f \<in> set (tl (cn_received cn))"
proof -
  have calling: "admitted hmac cn \<and> request_ok f \<and> f \<in> set (tl (cn_received cn))" if "cn_phase cn = Calling f" for f
  proof -
    have p: "conversation_ok hmac cn (Calling f)" using assms(1) that by (simp add: connection_ok_def)
    then obtain gs where "gs \<noteq> []" "cn_received cn = gs @ [f]" by auto
    then show ?thesis using p by (cases gs) simp_all
  qed
  show "d = Some f \<Longrightarrow> admitted hmac cn \<and> request_ok f \<and> f \<in> set (tl (cn_received cn))"
    using assms(2) calling by (cases "cn_phase cn"; cases ev) (auto simp: connection_step_def)
  show "sv' = sv \<or> (\<exists>f draws now. admitted hmac cn \<and> request_ok f \<and> f \<in> set (tl (cn_received cn))
      \<and> sv' = fst (handle_frame env ops draws sv f now))"
  proof (cases "\<exists>f clock draws. cn_phase cn = Calling f \<and> ev = CallCompleted clock draws")
    case True
    then obtain f clock draws where f: "cn_phase cn = Calling f" "ev = CallCompleted clock draws" by blast
    have "sv' = fst (call_service env ops clock draws sv f)"
      using assms(2) f by (auto simp: connection_step_def answer_call_def split: prod.splits sum.splits)
    then show ?thesis using calling [OF f(1)] by (auto simp: call_service_def split: sum.splits)
  next
    case False
    then show ?thesis using assms(2) by (cases "cn_phase cn"; cases ev) (auto simp: connection_step_def)
  qed
qed


abbreviation unfinished :: "connection list \<Rightarrow> connection list" where
  "unfinished cns \<equiv> filter (\<lambda>cn. \<not> connection_finished (cn_phase cn)) cns"

definition vouched :: "mac_function \<Rightarrow> connection list \<Rightarrow> local_ipc_client_frame \<Rightarrow> bool" where
  "vouched hmac cns f \<longleftrightarrow> request_ok f \<and> (\<exists>cn \<in> set cns. admitted hmac cn \<and> f \<in> set (tl (cn_received cn)))"

definition agent_inv :: "mac_function \<Rightarrow> local_ipc_codec \<Rightarrow> bytes \<Rightarrow> bytes \<Rightarrow> 's agent \<Rightarrow> bool" where
  "agent_inv hmac c token instance_id ag \<longleftrightarrow>
     (\<forall>cn \<in> set (ag_connections ag). connection_ok hmac c token instance_id cn)
     \<and> ag_permits ag + length (unfinished (ag_connections ag)) = MAX_LOCAL_CLIENTS
     \<and> (\<forall>f \<in> set (ag_detached ag). vouched hmac (ag_connections ag) f)"

definition agent_step ::
  "mac_function \<Rightarrow> local_ipc_codec \<Rightarrow> pairing_env \<Rightarrow> 's grant_store_ops \<Rightarrow> bytes \<Rightarrow> bytes \<Rightarrow> 's agent \<Rightarrow> agent_event \<Rightarrow> 's agent \<times> unit" where
  "agent_step hmac c env ops token instance_id ag ev = (agent_event_step hmac c env ops token instance_id ag ev, ())"

lemma unfinished_update:
  assumes "i < length cns"
  shows "length (unfinished (cns[i := cn])) + (if connection_finished (cn_phase (cns ! i)) then 0 else 1)
    = length (unfinished cns) + (if connection_finished (cn_phase cn) then 0 else 1)"
proof -
  have "cns = take i cns @ cns ! i # drop (Suc i) cns" using assms by (rule id_take_nth_drop)
  then have "length (unfinished cns) = length (unfinished (take i cns @ cns ! i # drop (Suc i) cns))" by simp
  then show ?thesis by (simp add: upd_conv_take_nth_drop [OF assms])
qed

lemma vouched_update:
  assumes "vouched hmac cns f" "i < length cns" "kept (cns ! i) cn"
  shows "vouched hmac (cns[i := cn]) f"
proof -
  obtain x where x: "x \<in> set cns" "admitted hmac x" "f \<in> set (tl (cn_received x))" "request_ok f"
    using assms(1) by (auto simp: vouched_def)
  then obtain j where j: "j < length cns" "cns ! j = x" by (auto simp: in_set_conv_nth)
  show ?thesis
  proof (cases "j = i")
    case True
    have "cn \<in> set (cns[i := cn])" using assms(2) by (rule set_update_memI)
    then show ?thesis using kept_admitted [OF assms(3)] x j True by (auto simp: vouched_def)
  next
    case False
    then have "x \<in> set (cns[i := cn])" using j by (metis length_list_update nth_list_update_neq nth_mem)
    then show ?thesis using x by (auto simp: vouched_def)
  qed
qed

lemma turn_inv:
  assumes "agent_inv hmac c token instance_id ag"
  shows "agent_inv hmac c token instance_id (connection_turn hmac c env ops ag i ev)"
proof (cases "i < length (ag_connections ag)")
  case False
  then show ?thesis using assms by (simp add: connection_turn_def)
next
  case True
  let ?cns = "ag_connections ag" and ?cn = "ag_connections ag ! i"
  obtain sv cn d where st: "connection_step hmac c env ops (ag_listener ag \<noteq> Accepting) (ag_service ag, ?cn) ev = ((sv, cn), d)"
    by (metis prod.collapse)
  have ok: "connection_ok hmac c token instance_id ?cn" using assms True by (simp add: agent_inv_def)
  have cn: "connection_ok hmac c token instance_id cn" using connection_step_ok [OF ok, of env ops _ _ ev] st by (metis fst_conv snd_conv)
  have k: "kept ?cn cn" using step_kept [of ?cn hmac c env ops] st by (metis fst_conv snd_conv)
  have fin: "connection_finished (cn_phase ?cn) \<Longrightarrow> connection_finished (cn_phase cn)" using step_finished [of ?cn hmac c env ops] st by (metis fst_conv snd_conv)
  have conns: "\<forall>x \<in> set (?cns[i := cn]). connection_ok hmac c token instance_id x"
    using assms cn set_update_subset_insert [of ?cns i cn] by (auto simp: agent_inv_def)
  have old: "\<forall>f \<in> set (ag_detached ag). vouched hmac (?cns[i := cn]) f"
    using assms vouched_update [OF _ True k] by (simp add: agent_inv_def)
  have new: "vouched hmac (?cns[i := cn]) f" if "d = Some f" for f
  proof (rule vouched_update [OF _ True k])
    show "vouched hmac ?cns f" using step_service(2) [OF ok st that] nth_mem [OF True] by (auto simp: vouched_def)
  qed
  have count: "ag_permits ag + (if connection_finished (cn_phase cn) \<and> \<not> connection_finished (cn_phase ?cn) then 1 else 0)
      + length (unfinished (?cns[i := cn])) = MAX_LOCAL_CLIENTS"
    using unfinished_update [OF True, of cn] assms fin by (auto simp: agent_inv_def split: if_splits)
  have eq: "connection_turn hmac c env ops ag i ev = ag\<lparr>ag_service := sv, ag_connections := ?cns[i := cn],
      ag_permits := ag_permits ag + (if connection_finished (cn_phase cn) \<and> \<not> connection_finished (cn_phase ?cn) then 1 else 0),
      ag_detached := ag_detached ag @ (case d of Some frame \<Rightarrow> [frame] | None \<Rightarrow> [])\<rparr>"
    using True st by (simp add: connection_turn_def Let_def)
  show ?thesis
    unfolding eq agent_inv_def using conns old new count by (auto split: option.splits)
qed

lemma open_unfinished: "\<not> connection_finished (cn_phase (connection_open token instance_id nonce))"
  by (cases nonce) (simp_all add: connection_open_def Let_def)

lemma spawn_inv:
  "agent_inv hmac c token instance_id ag \<Longrightarrow> agent_inv hmac c token instance_id (spawn_connection token instance_id ag nonce)"
  using open_ok [of hmac c token instance_id nonce] open_unfinished [of token instance_id nonce]
  by (auto simp: agent_inv_def spawn_connection_def vouched_def)

lemma agent_step_inv:
  assumes "agent_inv hmac c token instance_id ag"
  shows "agent_inv hmac c token instance_id (fst (agent_step hmac c env ops token instance_id ag ev))"
  using assms turn_inv [OF assms] spawn_inv [OF assms]
  by (cases ev) (auto simp: agent_step_def agent_event_step_def run_detached_def agent_inv_def
      split: listener_phase.split dest: in_set_takeD in_set_dropD)

interpretation agent: machine "agent_step hmac c env ops token instance_id" "agent_inv hmac c token instance_id"
  for hmac c env ops token instance_id
  by unfold_locales (rule agent_step_inv)

lemma agent_start_inv: "agent_inv hmac c token instance_id (agent_start sv)"
  by (simp add: agent_inv_def agent_start_def)


subsection \<open>Stopping\<close>

text \<open>The timers of a connection, in an order in which one after the other brings it to its end.\<close>

definition timers :: "connection_event list" where
  "timers = [HandshakeTimedOut, SendTimedOut, CallTimedOut, CancelPolled, WriterTimedOut, WriterClosed False]"

abbreviation connection_after ::
  "mac_function \<Rightarrow> local_ipc_codec \<Rightarrow> pairing_env \<Rightarrow> 's grant_store_ops \<Rightarrow> 's host_service \<times> connection \<Rightarrow> connection_event
    \<Rightarrow> 's host_service \<times> connection" where
  "connection_after hmac c env ops st ev \<equiv> fst (connection_step hmac c env ops True st ev)"

lemma timers_finish:
  "fst (fold (\<lambda>ev st. connection_after hmac c env ops st ev) timers (sv, cn)) = sv
   \<and> connection_finished (cn_phase (snd (fold (\<lambda>ev st. connection_after hmac c env ops st ev) timers (sv, cn))))"
  by (cases "cn_phase cn"; cases "cn_writer cn")
    (simp_all add: timers_def connection_step_def join_writer_def close_writer_def abort_writer_def)

lemma turns_of_one:
  assumes "ag_listener ag \<noteq> Accepting" "i < length (ag_connections ag)"
    and "ag' = fold (\<lambda>ev ag. connection_turn hmac c env ops ag i ev) evs ag"
    and "st = fold (\<lambda>ev st. connection_after hmac c env ops st ev) evs (ag_service ag, ag_connections ag ! i)"
  shows "ag_service ag' = fst st \<and> ag_connections ag' = (ag_connections ag)[i := snd st] \<and> ag_listener ag' = ag_listener ag"
  using assms
proof (induction evs arbitrary: ag)
  case Nil
  then show ?case by simp
next
  case (Cons ev evs)
  obtain sv cn d where st: "connection_step hmac c env ops True (ag_service ag, ag_connections ag ! i) ev = ((sv, cn), d)"
    by (metis prod.collapse)
  let ?ag = "connection_turn hmac c env ops ag i ev"
  have t: "ag_service ?ag = sv" "ag_connections ?ag = (ag_connections ag)[i := cn]" "ag_listener ?ag = ag_listener ag"
    using Cons.prems(1,2) st by (simp_all add: connection_turn_def Let_def)
  have "ag_service ag' = fst st \<and> ag_connections ag' = (ag_connections ?ag)[i := snd st] \<and> ag_listener ag' = ag_listener ?ag"
    by (rule Cons.IH) (use Cons.prems st t in simp_all)
  then show ?case by (simp add: t)
qed

lemma turns_of_all:
  assumes "ag_listener ag \<noteq> Accepting" "n \<le> length (ag_connections ag)"
    and "ag' = fold (\<lambda>i ag. fold (\<lambda>ev ag. connection_turn hmac c env ops ag i ev) timers ag) [0..<n] ag"
  shows "ag_service ag' = ag_service ag \<and> ag_listener ag' = ag_listener ag \<and> length (ag_connections ag') = length (ag_connections ag)
    \<and> (\<forall>i < n. connection_finished (cn_phase (ag_connections ag' ! i)))"
  using assms(2,3)
proof (induction n arbitrary: ag')
  case 0
  then show ?case by simp
next
  case (Suc n)
  let ?ag = "fold (\<lambda>i ag. fold (\<lambda>ev ag. connection_turn hmac c env ops ag i ev) timers ag) [0..<n] ag"
  have ih: "ag_service ?ag = ag_service ag \<and> ag_listener ?ag = ag_listener ag \<and> length (ag_connections ?ag) = length (ag_connections ag)
      \<and> (\<forall>i < n. connection_finished (cn_phase (ag_connections ?ag ! i)))" by (rule Suc.IH) (use Suc.prems in simp_all)
  let ?st = "fold (\<lambda>ev st. connection_after hmac c env ops st ev) timers (ag_service ?ag, ag_connections ?ag ! n)"
  have ag': "ag' = fold (\<lambda>ev ag. connection_turn hmac c env ops ag n ev) timers ?ag" using Suc.prems(2) by simp
  have "ag_service ag' = fst ?st \<and> ag_connections ag' = (ag_connections ?ag)[n := snd ?st] \<and> ag_listener ag' = ag_listener ?ag"
    by (rule turns_of_one [OF _ _ ag' refl]) (use ih assms(1) Suc.prems(1) in simp_all)
  moreover note timers_finish [of hmac c env ops "ag_service ?ag" "ag_connections ?ag ! n"]
  ultimately show ?case using ih Suc.prems(1) by (auto simp: less_Suc_eq nth_list_update)
qed


lemma fst_run_steps_fold: "fst (run_steps step s as) = fold (\<lambda>a s. fst (step s a)) as s"
  by (induction as arbitrary: s) (simp, simp only: fst_run_steps_Cons fold_simps)

lemma fold_turns:
  "fold (\<lambda>ev ag. fst (agent_step hmac c env ops token instance_id ag ev)) (concat (map (\<lambda>i. map (ConnectionEvent i) evs) is)) ag
   = fold (\<lambda>i ag. fold (\<lambda>ev ag. connection_turn hmac c env ops ag i ev) evs ag) is ag"
  by (induction "is" arbitrary: ag) (simp_all add: fold_map comp_def agent_step_def agent_event_step_def)

subsection \<open>An example\<close>

definition demo_link_codec :: local_ipc_codec where
  "demo_link_codec = \<lparr>lcd_decode = (\<lambda>bs. if bs = [1] then Some demo_handshake else if bs = [2] then Some demo_query else None),
     lcd_encode = (\<lambda>_. [9])\<rparr>"

definition demo_connecting :: "agent_event list" where
  "demo_connecting = [AcceptedStream (Some (replicate 32 2)), ConnectionEvent 0 SendPolled,
     ConnectionEvent 0 (ReadPolled (Some [0, 0, 0, 1, 1])), ConnectionEvent 0 SendPolled]"

abbreviation demo_agent :: "agent_event list \<Rightarrow> memory_grant_store agent" where
  "demo_agent evs \<equiv> fst (run_steps (agent_step demo_hmac demo_link_codec demo_env demo_store [7] (replicate 16 1)) (agent_start demo_service) evs)"

lemma demo_pushed: "\<exists>d. frame_push frame_decoder_new [0, 0, 0, 1, 1] = Some (d, Inr [[1]])"
proof -
  have "frame_decoder_with_limit MAX_LOCAL_IPC_FRAME_BYTES = Inr frame_decoder_new"
    by (simp add: frame_decoder_with_limit_def frame_decoder_new_def validate_limit_def limits)
  from fresh_decoder_accepts_iff [OF this, of "[0, 0, 0, 1, 1]" "[[1]]"] show ?thesis
    by (auto simp: limits frame_bytes_def be_bytes_numeral)
qed

lemma demo_accepted: "\<exists>w. server_authenticate demo_hmac demo_ipc demo_handshake = (demo_ipc\<lparr>sp_authenticated := True\<rparr>, Inr w)"
proof -
  obtain q where q: "server_authenticate demo_hmac demo_ipc demo_handshake = (demo_ipc\<lparr>sp_authenticated := True\<rparr>, q)"
    using demo_ipc_authenticated by (cases "server_authenticate demo_hmac demo_ipc demo_handshake") simp
  then have "is_ok q"
    using server_authenticate_state [of demo_hmac demo_ipc demo_handshake] by (simp add: demo_ipc_def server_protocol_new_def split: if_splits)
  then show ?thesis using q by (cases q) auto
qed

lemma turn_of_only:
  assumes "ag_connections ag = [cn]" "connection_step hmac c env ops (ag_listener ag \<noteq> Accepting) (ag_service ag, cn) ev = ((sv, cn'), d)"
  shows "ag_connections (connection_turn hmac c env ops ag 0 ev) = [cn']" "ag_service (connection_turn hmac c env ops ag 0 ev) = sv"
    "ag_listener (connection_turn hmac c env ops ag 0 ev) = ag_listener ag"
  using assms by (simp_all add: connection_turn_def Let_def)

lemma demo_connected_client:
  "\<exists>cn. ag_connections (demo_agent demo_connecting) = [cn] \<and> cn_phase cn = Serving \<and> cn_received cn = [demo_handshake]"
proof -
  obtain d where d: "frame_push frame_decoder_new [0, 0, 0, 1, 1] = Some (d, Inr [[1]])" using demo_pushed by blast
  obtain w where w: "server_authenticate demo_hmac demo_ipc demo_handshake = (demo_ipc\<lparr>sp_authenticated := True\<rparr>, Inr w)"
    using demo_accepted by blast
  let ?c = "demo_link_codec" and ?ch = "agent_server_frame [] (LocalIpcServerFrame_Challenge (server_challenge demo_ipc))"
  let ?au = "agent_server_frame (licf_request_id demo_handshake) (LocalIpcServerFrame_Authenticated w)"
  define cn0 where "cn0 = connection_open [7] (replicate 16 1) (Some (replicate 32 2))"
  define cn1 where "cn1 = cn0\<lparr>cn_queue := [?ch], cn_sent := [?ch], cn_phase := AwaitAuthentication\<rparr>"
  define cn2 where "cn2 = cn1\<lparr>cn_reader := \<lparr>ifr_decoder = d, ifr_queued = []\<rparr>, cn_received := [demo_handshake],
    cn_protocol := demo_ipc\<lparr>sp_authenticated := True\<rparr>, cn_phase := Sending ?au ThenSubscribe\<rparr>"
  have 0: "cn_phase cn0 = Sending ?ch ThenAuthenticate" "cn_queue cn0 = []" "cn_sent cn0 = []" "cn_writer cn0 = None" "cn_protocol cn0 = demo_ipc"
    "cn_reader cn0 = incoming_frame_reader_new" "cn_received cn0 = []"
    by (simp_all add: cn0_def connection_open_def demo_ipc_def Let_def)
  have 1: "connection_step demo_hmac ?c demo_env demo_store b (sv, cn0) SendPolled = ((sv, cn1), None)" for b sv
    by (simp add: connection_step_def 0 send_outbound_def cn1_def limits)
  have r: "next_frame ?c incoming_frame_reader_new (Some [0, 0, 0, 1, 1])
      = (\<lparr>ifr_decoder = d, ifr_queued = []\<rparr>, FrameReady (Inr (Some demo_handshake)))"
    using d by (simp add: next_frame_def incoming_frame_reader_new_def pop_queued_def demo_link_codec_def ok_or_def)
  have 2: "connection_step demo_hmac ?c demo_env demo_store b (sv, cn1) (ReadPolled (Some [0, 0, 0, 1, 1])) = ((sv, cn2), None)" for b sv
    by (simp add: connection_step_def cn1_def cn2_def 0 connection_read_def r w authenticate_connection_def)
  have 3: "connection_step demo_hmac ?c demo_env demo_store b (sv, cn2) SendPolled
      = ((sv, subscribe_events sv (cn2\<lparr>cn_queue := [?ch, ?au], cn_sent := [?ch, ?au]\<rparr>)), None)" for b and sv :: "memory_grant_store host_service"
    by (simp add: connection_step_def cn2_def cn1_def 0 send_outbound_def limits)
  let ?step = "agent_event_step demo_hmac ?c demo_env demo_store [7] (replicate 16 1)"
  define ag0 where "ag0 = ?step (agent_start demo_service) (AcceptedStream (Some (replicate 32 2)))"
  define ag1 where "ag1 = ?step ag0 (ConnectionEvent 0 SendPolled)"
  define ag2 where "ag2 = ?step ag1 (ConnectionEvent 0 (ReadPolled (Some [0, 0, 0, 1, 1])))"
  have ag0: "ag_connections ag0 = [cn0]" "ag_listener ag0 = Accepting"
    by (simp_all add: ag0_def agent_event_step_def agent_start_def spawn_connection_def cn0_def limits)
  have ag1: "ag_connections ag1 = [cn1]" "ag_listener ag1 = Accepting"
    using turn_of_only [OF ag0(1) 1] ag0 by (simp_all add: ag1_def agent_event_step_def)
  have ag2: "ag_connections ag2 = [cn2]" "ag_listener ag2 = Accepting"
    using turn_of_only [OF ag1(1) 2] ag1 by (simp_all add: ag2_def agent_event_step_def)
  have "demo_agent demo_connecting = ?step ag2 (ConnectionEvent 0 SendPolled)"
    by (simp add: demo_connecting_def fst_run_steps_fold agent_step_def ag0_def ag1_def ag2_def)
  then show ?thesis
    using turn_of_only [OF ag2(1) 3] by (simp add: agent_event_step_def subscribe_events_def cn2_def)
qed

section \<open>Properties\<close>

text \<open>
  C8. The service listens to authenticated clients only.  However the connections, the rest of the agent and calls left behind by
  a timeout interleave: a step of the agent's local side leaves the service alone or makes exactly one call, for a request that was read on a
  connection after a first frame that answered this connection's own challenge with the agent's token, and that is a well-formed request; and
  never more than four clients are served at a time.
\<close>

theorem local_requests_authenticated:
  "let step = agent_event_step hmac c env ops token instance_id;
       ag = fst (run_steps (agent_step hmac c env ops token instance_id) (agent_start sv) evs)
   in ((\<exists>x. ev = OtherCall x) \<or> ag_service (step ag ev) = ag_service ag
       \<or> (\<exists>cn g fs f draws now. cn \<in> set (ag_connections ag) \<and> cn_received cn = g # fs
            \<and> answers_challenge hmac token instance_id (sp_server_nonce (cn_protocol cn)) g
            \<and> f \<in> set fs \<and> validate_common_frame f = Inr () \<and> (\<forall>a. licf_payload f \<noteq> Some (LocalIpcClientFrame_Authenticate a))
            \<and> ag_service (step ag ev) = fst (handle_frame env ops draws (ag_service ag) f now)))
     \<and> length (filter (\<lambda>cn. \<not> connection_finished (cn_phase cn)) (ag_connections ag)) \<le> 4"
proof -
  define ag where "ag = fst (run_steps (agent_step hmac c env ops token instance_id) (agent_start sv) evs)"
  have inv: "agent_inv hmac c token instance_id ag" unfolding ag_def by (rule agent.run_inv [OF agent_start_inv])
  let ?ag = "agent_event_step hmac c env ops token instance_id ag ev"
  have called: "\<exists>cn g fs f draws now. cn \<in> set (ag_connections ag) \<and> cn_received cn = g # fs
      \<and> answers_challenge hmac token instance_id (sp_server_nonce (cn_protocol cn)) g
      \<and> f \<in> set fs \<and> validate_common_frame f = Inr () \<and> (\<forall>a. licf_payload f \<noteq> Some (LocalIpcClientFrame_Authenticate a))
      \<and> sv' = fst (handle_frame env ops draws (ag_service ag) f now)"
    if cn: "cn \<in> set (ag_connections ag)" "admitted hmac cn" "request_ok f" "f \<in> set (tl (cn_received cn))"
      and sv: "sv' = fst (handle_frame env ops draws (ag_service ag) f now)" for cn f sv' draws now
  proof -
    have "sp_token (cn_protocol cn) = token" "sp_instance_id (cn_protocol cn) = instance_id"
      using inv cn(1) by (auto simp: agent_inv_def connection_ok_def)
    then obtain g fs where "cn_received cn = g # fs" "answers_challenge hmac token instance_id (sp_server_nonce (cn_protocol cn)) g"
      using cn(2) by (auto simp: admitted_def)
    then show ?thesis using cn(1,3,4) sv unfolding request_ok_def by (metis list.sel(3))
  qed
  have main: "(\<exists>x. ev = OtherCall x) \<or> ag_service ?ag = ag_service ag
       \<or> (\<exists>cn g fs f draws now. cn \<in> set (ag_connections ag) \<and> cn_received cn = g # fs
            \<and> answers_challenge hmac token instance_id (sp_server_nonce (cn_protocol cn)) g
            \<and> f \<in> set fs \<and> validate_common_frame f = Inr () \<and> (\<forall>a. licf_payload f \<noteq> Some (LocalIpcClientFrame_Authenticate a))
            \<and> ag_service ?ag = fst (handle_frame env ops draws (ag_service ag) f now))"
  proof (cases ev)
    case (ConnectionEvent i cev)
    show ?thesis
    proof (cases "i < length (ag_connections ag)")
      case True
      obtain sv' cn' d where st: "connection_step hmac c env ops (ag_listener ag \<noteq> Accepting) (ag_service ag, ag_connections ag ! i) cev
          = ((sv', cn'), d)" by (metis prod.collapse)
      have sv': "ag_service ?ag = sv'" using True st ConnectionEvent by (simp add: agent_event_step_def connection_turn_def Let_def)
      have "connection_ok hmac c token instance_id (ag_connections ag ! i)" using inv True by (simp add: agent_inv_def)
      from step_service(1) [OF this st] show ?thesis unfolding sv' using called nth_mem [OF True] by blast
    qed (simp add: ConnectionEvent agent_event_step_def connection_turn_def)
  next
    case (DetachedCall i clock draws)
    show ?thesis
    proof (cases "i < length (ag_detached ag) \<and> is_ok (agent_now_unix_ms clock)")
      case True
      then obtain now where now: "agent_now_unix_ms clock = Inr now" by (cases "agent_now_unix_ms clock") auto
      have sv': "ag_service ?ag = fst (handle_frame env ops draws (ag_service ag) (ag_detached ag ! i) now)"
        using True now DetachedCall by (simp add: agent_event_step_def run_detached_def call_service_def)
      have "vouched hmac (ag_connections ag) (ag_detached ag ! i)" using inv True by (simp add: agent_inv_def)
      then show ?thesis using called [OF _ _ _ _ sv'] unfolding vouched_def by blast
    qed (cases "agent_now_unix_ms clock"; auto simp: DetachedCall agent_event_step_def run_detached_def call_service_def)
  qed (auto simp: agent_event_step_def spawn_connection_def split: listener_phase.split)
  have "length (unfinished (ag_connections ag)) \<le> 4" using inv by (simp add: agent_inv_def limits)
  then show ?thesis using main unfolding Let_def ag_def by blast
qed

text \<open>
  C17. Every request gets its answer, in order.  On each connection the answers put on the way, notifications aside, carry the identifiers of the
  frames read, one each and in their order, after the challenge; all of them whenever the connection waits for the next request, and then
  a well-formed request is never refused as a duplicate or for the number of requests under way.  What was written to the stream is a
  beginning of the encodings of what was sent, nothing lost or reordered, and at most 32 frames wait.
\<close>

theorem local_conversation_in_order:
  assumes "ag = fst (run_steps (agent_step hmac c env ops token instance_id) (agent_start sv) evs)" "cn \<in> set (ag_connections ag)"
    and "answers = map lisf_request_id (filter (\<lambda>f. \<not> is_notification f) (cn_sent cn))"
  shows "prefix answers ([] # map licf_request_id (cn_received cn))
    \<and> (cn_phase cn = Serving \<longrightarrow> answers = [] # map licf_request_id (cn_received cn)
        \<and> (snd (begin_request (cn_protocol cn) f) = Inr () \<longleftrightarrow> validate_common_frame f = Inr ()
            \<and> (\<forall>a. licf_payload f \<noteq> Some (LocalIpcClientFrame_Authenticate a))))
    \<and> prefix (cn_written cn) (concat (map (\<lambda>f. case encode_frame (lcd_encode c f) of Inr encoded \<Rightarrow> encoded | Inl _ \<Rightarrow> []) (cn_sent cn)))
    \<and> length (cn_queue cn) \<le> 32"
proof -
  have "agent_inv hmac c token instance_id ag" unfolding assms(1) by (rule agent.run_inv [OF agent_start_inv])
  then have ok: "conversation_ok hmac cn (cn_phase cn)" "writer_ok c cn" using assms(2) by (auto simp: agent_inv_def connection_ok_def)
  have "prefix answers ([] # map licf_request_id (cn_received cn))" using conversation_returned(1) [OF ok(1)] by (simp add: assms(3))
  moreover have "answers = [] # map licf_request_id (cn_received cn)
      \<and> (snd (begin_request (cn_protocol cn) f) = Inr () \<longleftrightarrow> validate_common_frame f = Inr ()
          \<and> (\<forall>a. licf_payload f \<noteq> Some (LocalIpcClientFrame_Authenticate a)))" if "cn_phase cn = Serving"
    using ok(1) that by (simp add: assms(3) replies_def begin_request_iff admitted_def)
  ultimately show ?thesis using ok(2) by (simp add: writer_ok_def limits wire_bytes_def [abs_def])
qed

theorem local_conversation_in_order_witness:
  "\<exists>cn. cn \<in> set (ag_connections (demo_agent demo_connecting))
     \<and> map lisf_request_id (filter (\<lambda>f. \<not> is_notification f) (cn_sent cn)) = [[], ''a'']
     \<and> snd (begin_request (cn_protocol cn) demo_query) = Inr ()"
proof -
  obtain cn where cn: "ag_connections (demo_agent demo_connecting) = [cn]" "cn_phase cn = Serving" "cn_received cn = [demo_handshake]"
    using demo_connected_client by blast
  have "licf_request_id demo_handshake = ''a''" "\<forall>a. licf_payload demo_query \<noteq> Some (LocalIpcClientFrame_Authenticate a)"
    by (simp_all add: demo_handshake_def demo_query_def demo_ipc_frame_def)
  then show ?thesis
    using local_conversation_in_order [OF refl _ refl, of cn demo_hmac demo_link_codec demo_env demo_store "[7]" "replicate 16 1" demo_service
        demo_connecting demo_query] cn demo_frames_valid(2) by auto
qed

text \<open>
  C21. The agent can always be stopped.  Once the listener has left its loop, nothing a client does or fails to do keeps the agent alive: when each
  connection's own timers have run out and it has seen the cancellation, every task has ended, the listener returns with the error
  that made it leave its loop or with none, and the service was not touched on the way.
\<close>

theorem local_agent_always_stops:
  assumes "ag_listener ag = Stopping e"
    and "evs = concat (map (\<lambda>i. map (ConnectionEvent i) timers) [0..<length (ag_connections ag)])"
    and "ag' = fst (run_steps (agent_step hmac c env ops token instance_id) ag (evs @ [AllJoined]))"
  shows "ag_listener ag' = Stopped (case e of Some e \<Rightarrow> Inl e | None \<Rightarrow> Inr ()) \<and> ag_service ag' = ag_service ag
    \<and> (\<forall>cn \<in> set (ag_connections ag'). connection_finished (cn_phase cn))"
proof -
  let ?ag = "fst (run_steps (agent_step hmac c env ops token instance_id) ag evs)"
  have turns: "?ag = fold (\<lambda>i ag. fold (\<lambda>ev ag. connection_turn hmac c env ops ag i ev) timers ag) [0..<length (ag_connections ag)] ag"
    unfolding assms(2) fst_run_steps_fold fold_turns ..
  have "ag_service ?ag = ag_service ag \<and> ag_listener ?ag = ag_listener ag \<and> length (ag_connections ?ag) = length (ag_connections ag)
      \<and> (\<forall>i < length (ag_connections ag). connection_finished (cn_phase (ag_connections ?ag ! i)))"
    by (rule turns_of_all [OF _ order_refl turns]) (simp add: assms(1))
  then have "ag_service ?ag = ag_service ag" "ag_listener ?ag = Stopping e" "\<forall>cn \<in> set (ag_connections ?ag). connection_finished (cn_phase cn)"
    using assms(1) by (auto simp: in_set_conv_nth)
  moreover have "ag' = agent_event_step hmac c env ops token instance_id ?ag AllJoined"
    unfolding assms(3) fst_run_steps_append by (simp add: agent_step_def)
  ultimately show ?thesis by (simp add: agent_event_step_def)
qed

theorem local_agent_always_stops_witness:
  "\<exists>evs. ag_listener (fst (run_steps (agent_step demo_hmac demo_link_codec demo_env demo_store [7] (replicate 16 1))
     ((demo_agent demo_connecting)\<lparr>ag_listener := Stopping None\<rparr>) evs)) = Stopped (Inr ())"
proof -
  have "ag_listener ((demo_agent demo_connecting)\<lparr>ag_listener := Stopping None\<rparr>) = Stopping None" by simp
  from local_agent_always_stops [OF this refl refl, THEN conjunct1, of demo_hmac demo_link_codec demo_env demo_store "[7]" "replicate 16 1"]
  show ?thesis unfolding option.case by (rule exI)
qed

end
