(* ===== verification/Bridge_Framing.thy ===== *)
theory Bridge_Framing
  imports Frame_Codec
begin

text \<open>
  The transport pieces of the privileged bridge, \<^verbatim>\<open>crates/privileged-bridge/src/framing.rs\<close>: the
  single-frame codec on top of the shared framing, the tracker that correlates responses with
  pending requests, and the event queue that fails closed when a critical event would be lost.
\<close>

section \<open>One frame\<close>

datatype bridge_frame_error =
    BridgeFrameError_Frame frame_error
  | BridgeFrameError_ExpectedSingleFrame

definition encode_bridge_frame :: "bytes \<Rightarrow> frame_error + bytes" where
  "encode_bridge_frame payload = encode_frame_with_limit payload MAX_PRIVILEGED_BRIDGE_FRAME_BYTES"

text \<open>
  \<^verbatim>\<open>BridgeFrameDecoder\<close> wraps \<^verbatim>\<open>FrameDecoder\<close> and delegates \<^verbatim>\<open>push\<close> and \<^verbatim>\<open>finish\<close>; the error
  side of \<open>bridge_frame_decoder_new\<close> is the panic of \<^verbatim>\<open>expect\<close>.
\<close>

definition bridge_frame_decoder_new :: "frame_error + frame_decoder" where
  "bridge_frame_decoder_new = frame_decoder_with_limit MAX_PRIVILEGED_BRIDGE_FRAME_BYTES"

definition single_frame :: "bytes list \<Rightarrow> bridge_frame_error + bytes" where
  "single_frame frames =
     (case frames of
        [] \<Rightarrow> Inl BridgeFrameError_ExpectedSingleFrame
      | frame # rest \<Rightarrow>
          if rest \<noteq> [] then Inl BridgeFrameError_ExpectedSingleFrame else Inr frame)"

definition decode_exact_with :: "frame_decoder \<Rightarrow> bytes \<Rightarrow> (bridge_frame_error + bytes) option" where
  "decode_exact_with decoder encoded =
     (case frame_push decoder encoded of
        None \<Rightarrow> None
      | Some (_, Inl e) \<Rightarrow> Some (Inl (BridgeFrameError_Frame e))
      | Some (d, Inr frames) \<Rightarrow>
          (case frame_finish d of
             Inl e \<Rightarrow> Some (Inl (BridgeFrameError_Frame e))
           | Inr _ \<Rightarrow> Some (single_frame frames)))"

definition decode_exact_bridge_frame :: "bytes \<Rightarrow> (bridge_frame_error + bytes) option" where
  "decode_exact_bridge_frame encoded =
     (case bridge_frame_decoder_new of
        Inl _ \<Rightarrow> None
      | Inr decoder \<Rightarrow> decode_exact_with decoder encoded)"

lemma bridge_frame_decoder_new_total:
  "\<exists>d. bridge_frame_decoder_new = Inr d \<and> frame_decoder_with_limit MAX_PRIVILEGED_BRIDGE_FRAME_BYTES = Inr d
     \<and> decoder_live d"
proof -
  obtain d where "frame_decoder_with_limit MAX_PRIVILEGED_BRIDGE_FRAME_BYTES = Inr d"
    by (simp add: frame_decoder_with_limit_def validate_limit_def limits)
  then show ?thesis
    using decoder_with_limit_fresh by (simp add: bridge_frame_decoder_new_def)
qed

lemma decode_exact_unfold:
  obtains d where "frame_decoder_with_limit MAX_PRIVILEGED_BRIDGE_FRAME_BYTES = Inr d" "decoder_live d"
    "decode_exact_bridge_frame bs = decode_exact_with d bs"
  using bridge_frame_decoder_new_total that by (metis decode_exact_bridge_frame_def sum.simps(6))

lemma decode_exact_total: "\<exists>r. decode_exact_bridge_frame bs = Some r"
proof -
  obtain d where d: "decoder_live d" "decode_exact_bridge_frame bs = decode_exact_with d bs"
    using decode_exact_unfold by metis
  then show ?thesis
    using frame_push_total [OF d(1), of bs]
    by (auto simp: decode_exact_with_def split: sum.split)
qed

lemma decode_exact_iff:
  "decode_exact_bridge_frame bs = Some (Inr p) \<longleftrightarrow> encode_bridge_frame p = Inr bs"
proof -
  obtain d where d: "frame_decoder_with_limit MAX_PRIVILEGED_BRIDGE_FRAME_BYTES = Inr d"
    "decode_exact_bridge_frame bs = decode_exact_with d bs"
    using decode_exact_unfold by metis
  have single: "single_frame fs = Inr p \<longleftrightarrow> fs = [p]" for fs
    by (auto simp: single_frame_def split: list.splits)
  have "decode_exact_bridge_frame bs = Some (Inr p)
      \<longleftrightarrow> (\<exists>d'. frame_push d bs = Some (d', Inr [p]) \<and> frame_finish d' = Inr ())"
    unfolding d(2) by (auto simp: decode_exact_with_def single split: option.splits sum.splits)
  also have "\<dots> \<longleftrightarrow> p \<noteq> [] \<and> length p \<le> MAX_PRIVILEGED_BRIDGE_FRAME_BYTES \<and> bs = frame_bytes p"
    using fresh_decoder_accepts_iff [OF d(1), of bs "[p]"] by auto
  also have "\<dots> \<longleftrightarrow> encode_bridge_frame p = Inr bs"
    by (auto simp: encode_bridge_frame_def encode_frame_bytes limits)
  finally show ?thesis .
qed

interpretation bridge_frame: canonical_codec encode_bridge_frame
  "\<lambda>bs p. decode_exact_bridge_frame bs = Some (Inr p)"
  by unfold_locales (simp_all add: decode_exact_iff [symmetric])

section \<open>Request correlation\<close>

definition MAX_PENDING_REQUESTS :: nat where
  [limits]: "MAX_PENDING_REQUESTS = 32"

datatype request_error =
    RequestError_InvalidRequestId
  | RequestError_DuplicateRequest
  | RequestError_PendingLimit
  | RequestError_StaleResponse

record request_tracker =
  rt_pending :: "string set"

definition request_tracker_new :: request_tracker where
  "request_tracker_new = \<lparr>rt_pending = {}\<rparr>"

definition request_begin :: "request_tracker \<Rightarrow> string \<Rightarrow> request_tracker \<times> (request_error + unit)" where
  "request_begin t request_id =
     (if request_id = [] \<or> length request_id > MAX_REQUEST_ID_UTF8_BYTES
        then (t, Inl RequestError_InvalidRequestId)
      else if request_id \<in> rt_pending t then (t, Inl RequestError_DuplicateRequest)
      else if card (rt_pending t) \<ge> MAX_PENDING_REQUESTS then (t, Inl RequestError_PendingLimit)
      else (t\<lparr>rt_pending := insert request_id (rt_pending t)\<rparr>, Inr ()))"

definition request_complete :: "request_tracker \<Rightarrow> string \<Rightarrow> request_tracker \<times> (request_error + unit)" where
  "request_complete t request_id =
     (if request_id \<notin> rt_pending t then (t, Inl RequestError_StaleResponse)
      else (t\<lparr>rt_pending := rt_pending t - {request_id}\<rparr>, Inr ()))"

definition pending_count :: "request_tracker \<Rightarrow> nat" where
  "pending_count t = card (rt_pending t)"

datatype request_op = Begin string | Complete string

fun request_step :: "request_tracker \<Rightarrow> request_op \<Rightarrow> request_tracker \<times> (request_error + unit)" where
  "request_step t (Begin i) = request_begin t i"
| "request_step t (Complete i) = request_complete t i"

definition tracker_inv :: "request_tracker \<Rightarrow> bool" where
  "tracker_inv t \<longleftrightarrow> finite (rt_pending t) \<and> card (rt_pending t) \<le> MAX_PENDING_REQUESTS
     \<and> (\<forall>i \<in> rt_pending t. i \<noteq> [] \<and> length i \<le> MAX_REQUEST_ID_UTF8_BYTES)"

lemma tracker_inv_new: "tracker_inv request_tracker_new"
  by (simp add: tracker_inv_def request_tracker_new_def)

interpretation tracker: machine request_step tracker_inv
proof
  fix t a
  assume "tracker_inv t"
  then show "tracker_inv (fst (request_step t a))"
    by (cases a) (auto simp: tracker_inv_def request_begin_def request_complete_def card_insert_if
        card_Diff_singleton)
qed

text \<open>How often an operation succeeded in a run.\<close>

definition successes :: "request_op \<Rightarrow> request_tracker \<Rightarrow> request_op list \<Rightarrow> nat" where
  "successes a t ops = length (filter (\<lambda>(b, r). b = a \<and> r = Inr ())
     (zip ops (snd (run_steps request_step t ops))))"

lemma successes_Cons:
  "successes a t (b # ops) = (if b = a \<and> snd (request_step t b) = Inr () then 1 else 0)
     + successes a (fst (request_step t b)) ops"
  by (auto simp: successes_def split_def Let_def)

lemma successes_balance:
  "successes (Begin i) t ops + (if i \<in> rt_pending t then 1 else 0)
     = successes (Complete i) t ops
       + (if i \<in> rt_pending (fst (run_steps request_step t ops)) then 1 else 0)"
proof (induction ops arbitrary: t)
  case Nil
  then show ?case by (simp add: successes_def)
next
  case (Cons a ops)
  have "(if a = Begin i \<and> snd (request_step t a) = Inr () then 1 else 0) + (if i \<in> rt_pending t then 1 else 0)
      = (if a = Complete i \<and> snd (request_step t a) = Inr () then 1 else (0 :: nat))
        + (if i \<in> rt_pending (fst (request_step t a)) then 1 else 0)"
    by (cases a) (auto simp: request_begin_def request_complete_def)
  with Cons.IH [of "fst (request_step t a)"] show ?case
    by (simp add: successes_Cons fst_run_steps_Cons del: request_step.simps run_steps.simps)
qed

section \<open>Event queue\<close>

definition MAX_CRITICAL_EVENTS :: nat where
  [limits]: "MAX_CRITICAL_EVENTS = 256"

datatype event_queue_error = EventQueueError_CriticalOverflow | EventQueueError_Failed

record 'a event_queue =
  eq_critical :: "'a list"
  eq_fast :: "'a option"
  eq_failed :: bool

definition event_queue_new :: "'a event_queue" where
  "event_queue_new = \<lparr>eq_critical = [], eq_fast = None, eq_failed = False\<rparr>"

definition eq_fail_closed :: "'a event_queue \<Rightarrow> 'a event_queue" where
  "eq_fail_closed q = q\<lparr>eq_failed := True, eq_critical := [], eq_fast := None\<rparr>"

definition push_critical :: "'a event_queue \<Rightarrow> 'a \<Rightarrow> 'a event_queue \<times> (event_queue_error + unit)" where
  "push_critical q event =
     (if eq_failed q then (q, Inl EventQueueError_Failed)
      else if length (eq_critical q) \<ge> MAX_CRITICAL_EVENTS
        then (eq_fail_closed q, Inl EventQueueError_CriticalOverflow)
      else (q\<lparr>eq_critical := eq_critical q @ [event]\<rparr>, Inr ()))"

definition push_fast :: "'a event_queue \<Rightarrow> 'a \<Rightarrow> 'a event_queue \<times> (event_queue_error + unit)" where
  "push_fast q event =
     (if eq_failed q then (q, Inl EventQueueError_Failed)
      else (q\<lparr>eq_fast := Some event\<rparr>, Inr ()))"

definition pop_critical :: "'a event_queue \<Rightarrow> 'a event_queue \<times> (event_queue_error + 'a option)" where
  "pop_critical q =
     (if eq_failed q then (q, Inl EventQueueError_Failed)
      else case eq_critical q of
        [] \<Rightarrow> (q, Inr None)
      | e # rest \<Rightarrow> (q\<lparr>eq_critical := rest\<rparr>, Inr (Some e)))"

definition pop_fast :: "'a event_queue \<Rightarrow> 'a event_queue \<times> 'a option" where
  "pop_fast q = (if eq_failed q then (q, None) else (q\<lparr>eq_fast := None\<rparr>, eq_fast q))"

datatype 'a queue_op = PushCritical 'a | PushFast 'a | PopCritical | PopFast

datatype 'a queue_out =
    Pushed "event_queue_error + unit"
  | Popped "event_queue_error + 'a option"
  | PoppedFast "'a option"

fun queue_step :: "'a event_queue \<Rightarrow> 'a queue_op \<Rightarrow> 'a event_queue \<times> 'a queue_out" where
  "queue_step q (PushCritical e) = map_prod id Pushed (push_critical q e)"
| "queue_step q (PushFast e) = map_prod id Pushed (push_fast q e)"
| "queue_step q PopCritical = map_prod id Popped (pop_critical q)"
| "queue_step q PopFast = map_prod id PoppedFast (pop_fast q)"

definition queue_inv :: "'a event_queue \<Rightarrow> bool" where
  "queue_inv q \<longleftrightarrow> length (eq_critical q) \<le> MAX_CRITICAL_EVENTS
     \<and> (eq_failed q \<longrightarrow> eq_critical q = [] \<and> eq_fast q = None)"

lemma event_queue_new_simps [simp]:
  "eq_critical event_queue_new = []" "\<not> eq_failed event_queue_new"
  by (simp_all add: event_queue_new_def)

lemma queue_inv_new: "queue_inv event_queue_new"
  by (simp add: queue_inv_def event_queue_new_def)

lemmas queue_ops = push_critical_def push_fast_def pop_critical_def pop_fast_def eq_fail_closed_def

interpretation equeue: monotone_machine queue_step queue_inv eq_failed
proof
  fix q :: "'a event_queue" and a
  assume "queue_inv q"
  then show "queue_inv (fst (queue_step q a))"
    by (cases a) (auto simp: queue_inv_def queue_ops split: list.splits)
  show "eq_failed q \<le> eq_failed (fst (queue_step q a))"
    by (cases a) (auto simp: queue_ops split: list.splits)
qed

text \<open>The critical events that a run let in and gave out.\<close>

fun event_in :: "'a queue_op \<times> 'a queue_out \<Rightarrow> 'a list" where
  "event_in (PushCritical e, Pushed (Inr _)) = [e]"
| "event_in _ = []"

fun event_out :: "'a queue_op \<times> 'a queue_out \<Rightarrow> 'a list" where
  "event_out (PopCritical, Popped (Inr (Some e))) = [e]"
| "event_out _ = []"

definition critical_in :: "('a queue_op \<times> 'a queue_out) list \<Rightarrow> 'a list" where
  "critical_in tr = concat (map event_in tr)"

definition critical_out :: "('a queue_op \<times> 'a queue_out) list \<Rightarrow> 'a list" where
  "critical_out tr = concat (map event_out tr)"

definition overflows :: "('a queue_op \<times> 'a queue_out) list \<Rightarrow> nat" where
  "overflows tr = length (filter (\<lambda>(_, r). r = Pushed (Inl EventQueueError_CriticalOverflow)) tr)"

definition queue_trace :: "'a event_queue \<Rightarrow> 'a queue_op list \<Rightarrow> ('a queue_op \<times> 'a queue_out) list" where
  "queue_trace q ops = zip ops (snd (run_steps queue_step q ops))"

lemma queue_trace_simps [simp]:
  "queue_trace q [] = []"
  "queue_trace q (a # as) = (a, snd (queue_step q a)) # queue_trace (fst (queue_step q a)) as"
  by (simp_all add: queue_trace_def split_def Let_def)

lemma queue_step_balance:
  "\<not> eq_failed (fst (queue_step q a)) \<Longrightarrow>
     eq_critical q @ event_in (a, snd (queue_step q a))
       = event_out (a, snd (queue_step q a)) @ eq_critical (fst (queue_step q a))"
  by (cases a) (auto simp: queue_ops split: list.splits if_splits)

lemma queue_failed_step: "eq_failed q \<Longrightarrow> fst (queue_step q a) = q"
  by (cases a) (simp_all add: queue_ops)

lemma queue_failed_run: "eq_failed q \<Longrightarrow> fst (run_steps queue_step q ops) = q"
  by (induction ops) (simp_all add: fst_run_steps_Cons queue_failed_step del: run_steps.simps(2) queue_step.simps)

lemma queue_fifo:
  "\<not> eq_failed (fst (run_steps queue_step q ops)) \<Longrightarrow>
     eq_critical q @ critical_in (queue_trace q ops)
       = critical_out (queue_trace q ops) @ eq_critical (fst (run_steps queue_step q ops))"
proof (induction ops arbitrary: q)
  case Nil
  then show ?case by (simp add: critical_in_def critical_out_def)
next
  case (Cons a ops)
  let ?q = "fst (queue_step q a)"
  have "\<not> eq_failed ?q"
    using Cons.prems queue_failed_run [of ?q ops] by (auto simp: fst_run_steps_Cons simp del: run_steps.simps)
  from queue_step_balance [OF this] Cons.IH [of ?q] Cons.prems show ?case
    by (simp add: fst_run_steps_Cons critical_in_def critical_out_def del: run_steps.simps queue_step.simps)
      (metis append.assoc)
qed

lemma overflows_Cons: "overflows ((a, r) # tr) =
    (if r = Pushed (Inl EventQueueError_CriticalOverflow) then 1 else 0) + overflows tr"
  by (simp add: overflows_def)

lemma queue_overflow_count:
  "(if eq_failed q then 1 else 0) + overflows (queue_trace q ops)
     = (if eq_failed (fst (run_steps queue_step q ops)) then 1 else 0)"
proof (induction ops arbitrary: q)
  case Nil
  then show ?case by (simp add: overflows_def)
next
  case (Cons a ops)
  have "(if eq_failed q then 1 else 0)
      + (if snd (queue_step q a) = Pushed (Inl EventQueueError_CriticalOverflow) then 1 else 0)
      = (if eq_failed (fst (queue_step q a)) then 1 else (0 :: nat))"
    by (cases a) (auto simp: queue_ops split: list.splits)
  with Cons.IH [of "fst (queue_step q a)"] show ?case
    by (simp only: fst_run_steps_Cons queue_trace_simps overflows_Cons)
qed

section \<open>Properties\<close>

text \<open>
  The bridge's single-frame codec is exact: decoding always returns, and it returns a payload
  for exactly the bytes that encoding that payload produces; truncated input, trailing bytes, a second
  frame, an empty or an oversized frame are all refused.
\<close>

theorem bridge_frame_exact:
  "(\<exists>r. decode_exact_bridge_frame bs = Some r)
   \<and> (decode_exact_bridge_frame bs = Some (Inr p) \<longleftrightarrow> encode_bridge_frame p = Inr bs)"
  using decode_exact_total bridge_frame.accepts_iff by blast

text \<open>
  Responses are correlated one to one with requests.  In any run of the tracker, and for every
  identifier, the completions that succeeded are exactly the requests that began minus the one
  still pending, so a response is never accepted twice or without a request; and at most
  32 requests with usable identifiers are pending.
\<close>

theorem request_correlation:
  "let t = fst (run_steps request_step request_tracker_new ops) in
     successes (Begin i) request_tracker_new ops
       = successes (Complete i) request_tracker_new ops + (if i \<in> rt_pending t then 1 else 0)
     \<and> pending_count t \<le> 32
     \<and> (i \<in> rt_pending t \<longrightarrow> i \<noteq> [] \<and> length i \<le> MAX_REQUEST_ID_UTF8_BYTES)"
  using successes_balance [of i request_tracker_new ops] tracker.run_inv [OF tracker_inv_new, of ops]
  by (auto simp: Let_def pending_count_def tracker_inv_def MAX_PENDING_REQUESTS_def request_tracker_new_def)

theorem request_correlation_witness:
  "''r1'' \<in> rt_pending (fst (run_steps request_step request_tracker_new [Begin ''r1'', Begin ''r1'']))
   \<and> successes (Begin ''r1'') request_tracker_new [Begin ''r1'', Begin ''r1''] = 1"
  using request_correlation [of "[Begin ''r1'', Begin ''r1'']" "''r1''"]
  by (simp add: request_tracker_new_def request_begin_def limits successes_def)

text \<open>
  The event queue never loses a critical event silently.  As long as it has not failed, the
  critical events that were let in are exactly those already given out, in the same order, followed by
  those still queued, of which there are at most 256.  An overflow is reported exactly once: it empties
  the queue, and from then on nothing is accepted or given out.
\<close>

theorem event_queue_fifo_or_failed:
  "let q = fst (run_steps queue_step event_queue_new ops); tr = queue_trace event_queue_new ops in
     length (eq_critical q) \<le> 256
     \<and> overflows tr = (if eq_failed q then 1 else 0)
     \<and> (if eq_failed q
        then eq_critical q = [] \<and> eq_fast q = None \<and> push_critical q e = (q, Inl EventQueueError_Failed)
          \<and> pop_critical q = (q, Inl EventQueueError_Failed) \<and> pop_fast q = (q, None)
        else critical_in tr = critical_out tr @ eq_critical q)"
proof -
  define q where "q = fst (run_steps queue_step event_queue_new ops)"
  have "queue_inv q" unfolding q_def by (rule equeue.run_inv [OF queue_inv_new])
  then show ?thesis
    using queue_overflow_count [of event_queue_new ops] queue_fifo [of event_queue_new ops]
    by (auto simp: Let_def q_def [symmetric] queue_inv_def limits queue_ops)
qed

end
