(* ===== verification/Bridge_Lease.thy ===== *)
theory Bridge_Lease
  imports Wire_Enums
begin

text \<open>
  The lease manager of the privileged broker, \<^verbatim>\<open>crates/privileged-bridge/src/lease.rs\<close>: one Host
  connection, at most one active lease, exact command sequencing, a fixed renewal cadence, expiry,
  and idempotent release.  The random lease identifier (\<^verbatim>\<open>LeaseIdSource\<close>) is an argument: the
  value, or the error, the source would return.
\<close>

section \<open>State\<close>

definition RENEW_INTERVAL_MS :: u64 where
  [limits]: "RENEW_INTERVAL_MS = 5000"

definition LEASE_DURATION_MS :: u64 where
  [limits]: "LEASE_DURATION_MS = 15000"

definition MAX_CONTROLLER_NAME_BYTES :: nat where
  [limits]: "MAX_CONTROLLER_NAME_BYTES = 128"

datatype lease_id = LeaseId (lease_id_bytes: bytes)

datatype bridge_session_id = SessionId (bridge_session_id_bytes: bytes)

record acquire_lease =
  al_session_id :: bridge_session_id
  al_generation :: u64
  al_controller_display_name :: string
  al_may_control_input :: bool

record lease =
  le_id :: lease_id
  le_session_id :: bridge_session_id
  le_generation :: u64
  le_issued_at_ms :: u64
  le_expires_at_ms :: u64
  le_last_renewed_at_ms :: u64
  le_last_command_sequence :: u64
  le_controller_display_name :: string
  le_may_control_input :: bool

datatype lease_error =
    LeaseError_HostDisconnected
  | LeaseError_HostAlreadyConnected
  | LeaseError_LeaseAlreadyActive
  | LeaseError_LeaseNotActive
  | LeaseError_LeaseExpired
  | LeaseError_StaleGeneration
  | LeaseError_LeaseIdMismatch
  | LeaseError_InvalidLeaseId
  | LeaseError_RandomUnavailable
  | LeaseError_RenewedTooSoon
  | LeaseError_InvalidSequence
  | LeaseError_InvalidControllerName
  | LeaseError_TimestampOverflow

record lease_manager =
  lm_broker_instance_id :: bytes
  lm_host_generation :: "u64 option"
  lm_active :: "lease option"
  lm_last_released :: "(lease_id \<times> u64) option"

definition lease_manager_new :: "bytes \<Rightarrow> lease_manager" where
  "lease_manager_new broker_instance_id = \<lparr>lm_broker_instance_id = broker_instance_id,
     lm_host_generation = None, lm_active = None, lm_last_released = None\<rparr>"

section \<open>Operations\<close>

text \<open>
  \<^verbatim>\<open>char::is_control\<close> holds of U+0000 to U+001F, U+007F and U+0080 to U+009F.  In UTF-8 the first
  two groups are single bytes and the third is the byte C2 followed by 80 to 9F; C2 occurs in
  valid UTF-8 only as a leading byte.
\<close>

fun has_control :: "string \<Rightarrow> bool" where
  "has_control [] = False"
| "has_control (c # cs) =
     ((of_char c :: nat) < 32 \<or> (of_char c :: nat) = 127
      \<or> (of_char c :: nat) = 194 \<and> (case cs of [] \<Rightarrow> False
           | d # _ \<Rightarrow> 128 \<le> (of_char d :: nat) \<and> (of_char d :: nat) < 160)
      \<or> has_control cs)"

definition validate_controller_name :: "string \<Rightarrow> lease_error + unit" where
  "validate_controller_name value =
     (if value = [] \<or> length value > MAX_CONTROLLER_NAME_BYTES \<or> has_control value
      then Inl LeaseError_InvalidControllerName else Inr ())"

definition validate_active_ref :: "lease \<Rightarrow> lease_id \<Rightarrow> u64 \<Rightarrow> lease_error + unit" where
  "validate_active_ref lease lid generation =
     (if generation \<noteq> le_generation lease then Inl LeaseError_StaleGeneration
      else if lid \<noteq> le_id lease then Inl LeaseError_LeaseIdMismatch
      else Inr ())"

definition freeze_active :: "lease_manager \<Rightarrow> lease_manager \<times> bool" where
  "freeze_active m =
     (case lm_active m of
        None \<Rightarrow> (m, False)
      | Some lease \<Rightarrow>
          (m\<lparr>lm_active := None, lm_last_released := Some (le_id lease, le_generation lease)\<rparr>, True))"

definition connect_host :: "lease_manager \<Rightarrow> u64 \<Rightarrow> lease_manager \<times> (lease_error + unit)" where
  "connect_host m generation =
     (if lm_host_generation m \<noteq> None then (m, Inl LeaseError_HostAlreadyConnected)
      else if generation = 0 then (m, Inl LeaseError_StaleGeneration)
      else (m\<lparr>lm_host_generation := Some generation\<rparr>, Inr ()))"

definition disconnect_host :: "lease_manager \<Rightarrow> lease_manager \<times> bool" where
  "disconnect_host m = freeze_active (m\<lparr>lm_host_generation := None\<rparr>)"

definition lease_acquire ::
  "lease_manager \<Rightarrow> acquire_lease \<Rightarrow> u64 \<Rightarrow> lease_error + lease_id
    \<Rightarrow> lease_manager \<times> (lease_error + lease)" where
  "lease_acquire m request now_ms next_lease_id =
     (case lm_host_generation m of
        None \<Rightarrow> (m, Inl LeaseError_HostDisconnected)
      | Some host_generation \<Rightarrow>
          if lm_active m \<noteq> None then (m, Inl LeaseError_LeaseAlreadyActive)
          else if al_generation request \<noteq> host_generation then (m, Inl LeaseError_StaleGeneration)
          else case validate_controller_name (al_controller_display_name request) of
            Inl e \<Rightarrow> (m, Inl e)
          | Inr _ \<Rightarrow>
          (case next_lease_id of
             Inl e \<Rightarrow> (m, Inl e)
           | Inr lid \<Rightarrow>
               if lease_id_bytes lid = replicate 16 0 then (m, Inl LeaseError_InvalidLeaseId)
               else case checked_add now_ms LEASE_DURATION_MS of
                 None \<Rightarrow> (m, Inl LeaseError_TimestampOverflow)
               | Some expires_at_ms \<Rightarrow>
                   (let lease = \<lparr>le_id = lid, le_session_id = al_session_id request,
                          le_generation = al_generation request, le_issued_at_ms = now_ms,
                          le_expires_at_ms = expires_at_ms, le_last_renewed_at_ms = now_ms,
                          le_last_command_sequence = 0,
                          le_controller_display_name = al_controller_display_name request,
                          le_may_control_input = al_may_control_input request\<rparr>
                    in (m\<lparr>lm_active := Some lease, lm_last_released := None\<rparr>, Inr lease))))"

definition lease_renew ::
  "lease_manager \<Rightarrow> lease_id \<Rightarrow> u64 \<Rightarrow> u64 \<Rightarrow> lease_manager \<times> (lease_error + lease)" where
  "lease_renew m lid generation now_ms =
     (case lm_active m of
        None \<Rightarrow> (m, Inl LeaseError_LeaseNotActive)
      | Some lease \<Rightarrow>
          (case validate_active_ref lease lid generation of
             Inl e \<Rightarrow> (m, Inl e)
           | Inr _ \<Rightarrow>
               if now_ms \<ge> le_expires_at_ms lease
               then (fst (freeze_active m), Inl LeaseError_LeaseExpired)
               else case checked_add (le_last_renewed_at_ms lease) RENEW_INTERVAL_MS of
                 None \<Rightarrow> (m, Inl LeaseError_TimestampOverflow)
               | Some next_renewal \<Rightarrow>
                   if now_ms < next_renewal then (m, Inl LeaseError_RenewedTooSoon)
                   else (let lease' = lease\<lparr>le_last_renewed_at_ms := now_ms\<rparr> in
                     case checked_add now_ms LEASE_DURATION_MS of
                       None \<Rightarrow> (m\<lparr>lm_active := Some lease'\<rparr>, Inl LeaseError_TimestampOverflow)
                     | Some expires_at_ms \<Rightarrow>
                         (let lease'' = lease'\<lparr>le_expires_at_ms := expires_at_ms\<rparr>
                          in (m\<lparr>lm_active := Some lease''\<rparr>, Inr lease'')))))"

definition authorize_command ::
  "lease_manager \<Rightarrow> lease_id \<Rightarrow> u64 \<Rightarrow> u64 \<Rightarrow> u64 \<Rightarrow> lease_manager \<times> (lease_error + unit)" where
  "authorize_command m lid generation sequence now_ms =
     (case lm_active m of
        None \<Rightarrow> (m, Inl LeaseError_LeaseNotActive)
      | Some lease \<Rightarrow>
          (case validate_active_ref lease lid generation of
             Inl e \<Rightarrow> (m, Inl e)
           | Inr _ \<Rightarrow>
               if now_ms \<ge> le_expires_at_ms lease
               then (fst (freeze_active m), Inl LeaseError_LeaseExpired)
               else case checked_add (le_last_command_sequence lease) 1 of
                 None \<Rightarrow> (m, Inl LeaseError_InvalidSequence)
               | Some expected \<Rightarrow>
                   if sequence \<noteq> expected then (m, Inl LeaseError_InvalidSequence)
                   else (m\<lparr>lm_active := Some (lease\<lparr>le_last_command_sequence := sequence\<rparr>)\<rparr>, Inr ())))"

definition release_or_close ::
  "lease_manager \<Rightarrow> lease_id \<Rightarrow> u64 \<Rightarrow> lease_manager \<times> (lease_error + bool)" where
  "release_or_close m lid generation =
     (case lm_active m of
        Some lease \<Rightarrow>
          (case validate_active_ref lease lid generation of
             Inl e \<Rightarrow> (m, Inl e)
           | Inr _ \<Rightarrow> (fst (freeze_active m), Inr True))
      | None \<Rightarrow>
          if lm_last_released m = Some (lid, generation) then (m, Inr False)
          else (m, Inl LeaseError_LeaseNotActive))"

definition lease_release ::
  "lease_manager \<Rightarrow> lease_id \<Rightarrow> u64 \<Rightarrow> lease_manager \<times> (lease_error + bool)" where
  "lease_release m lid generation = release_or_close m lid generation"

definition lease_close ::
  "lease_manager \<Rightarrow> lease_id \<Rightarrow> u64 \<Rightarrow> lease_manager \<times> (lease_error + bool)" where
  "lease_close m lid generation = release_or_close m lid generation"

definition lease_expire :: "lease_manager \<Rightarrow> u64 \<Rightarrow> lease_manager \<times> lease_id option" where
  "lease_expire m now_ms =
     (case lm_active m of
        Some lease \<Rightarrow>
          if now_ms \<ge> le_expires_at_ms lease then (fst (freeze_active m), Some (le_id lease))
          else (m, None)
      | None \<Rightarrow> (m, None))"

definition input_may_be_enabled :: "lease_manager \<Rightarrow> bool" where
  "input_may_be_enabled m = (case lm_active m of None \<Rightarrow> False | Some l \<Rightarrow> le_may_control_input l)"

lemmas lease_op_defs = freeze_active_def connect_host_def disconnect_host_def lease_acquire_def
  lease_renew_def authorize_command_def release_or_close_def lease_release_def lease_close_def
  lease_expire_def validate_active_ref_def validate_controller_name_def

section \<open>The manager as a machine\<close>

datatype lease_op =
    ConnectHost u64
  | DisconnectHost
  | Acquire acquire_lease u64 "lease_error + lease_id"
  | Renew lease_id u64 u64
  | AuthorizeCommand lease_id u64 u64 u64
  | Release lease_id u64
  | Close lease_id u64
  | Expire u64

datatype lease_out =
    Done "lease_error + unit"
  | Froze bool
  | Leased "lease_error + lease"
  | Released "lease_error + bool"
  | Expired "lease_id option"

fun lease_step :: "lease_manager \<Rightarrow> lease_op \<Rightarrow> lease_manager \<times> lease_out" where
  "lease_step m (ConnectHost g) = map_prod id Done (connect_host m g)"
| "lease_step m DisconnectHost = map_prod id Froze (disconnect_host m)"
| "lease_step m (Acquire r now i) = map_prod id Leased (lease_acquire m r now i)"
| "lease_step m (Renew i g now) = map_prod id Leased (lease_renew m i g now)"
| "lease_step m (AuthorizeCommand i g n now) = map_prod id Done (authorize_command m i g n now)"
| "lease_step m (Release i g) = map_prod id Released (lease_release m i g)"
| "lease_step m (Close i g) = map_prod id Released (lease_close m i g)"
| "lease_step m (Expire now) = map_prod id Expired (lease_expire m now)"

text \<open>
  The invariant: an active lease belongs to the connected Host and its current generation, carries
  a usable name and a non-zero identifier, and its expiry lies behind its last renewal but never
  further than one lease duration.
\<close>

definition lease_ok :: "u64 option \<Rightarrow> lease \<Rightarrow> bool" where
  "lease_ok host l \<longleftrightarrow> host = Some (le_generation l) \<and> le_generation l \<noteq> 0
     \<and> lease_id_bytes (le_id l) \<noteq> replicate 16 0
     \<and> validate_controller_name (le_controller_display_name l) = Inr ()
     \<and> le_issued_at_ms l \<le> le_last_renewed_at_ms l
     \<and> le_last_renewed_at_ms l < le_expires_at_ms l
     \<and> unat (le_expires_at_ms l) \<le> unat (le_last_renewed_at_ms l) + unat LEASE_DURATION_MS"

definition lease_inv :: "lease_manager \<Rightarrow> bool" where
  "lease_inv m \<longleftrightarrow> (case lm_active m of
       None \<Rightarrow> True
     | Some l \<Rightarrow> lease_ok (lm_host_generation m) l \<and> lm_last_released m = None)
     \<and> lm_host_generation m \<noteq> Some 0"

lemma lease_inv_new: "lease_inv (lease_manager_new b)"
  by (simp add: lease_inv_def lease_manager_new_def)

lemma freeze_active_None: "lm_active (fst (freeze_active m)) = None"
  by (simp add: freeze_active_def split: option.splits)

lemma freeze_active_host: "lm_host_generation (fst (freeze_active m)) = lm_host_generation m"
  by (simp add: freeze_active_def split: option.splits)

lemma lease_inv_freeze: "lm_host_generation m \<noteq> Some 0 \<Longrightarrow> lease_inv (fst (freeze_active m))"
  by (simp add: lease_inv_def freeze_active_None freeze_active_host)

lemma lease_inv_frozen: "lease_inv m \<Longrightarrow> lease_inv (fst (freeze_active m))"
  by (rule lease_inv_freeze) (simp add: lease_inv_def)

lemma lease_inv_connect: "lease_inv m \<Longrightarrow> lease_inv (fst (connect_host m g))"
  by (auto simp: lease_inv_def lease_ok_def connect_host_def split: option.splits)

lemma lease_inv_disconnect: "lease_inv (fst (disconnect_host m))"
  by (simp add: disconnect_host_def lease_inv_freeze)

lemma unat_lease_duration: "unat LEASE_DURATION_MS = 15000"
  by (simp add: limits)

lemma lease_inv_acquire: "lease_inv m \<Longrightarrow> lease_inv (fst (lease_acquire m r now i))"
  using unat_lease_duration
  by (auto simp: lease_inv_def lease_ok_def lease_acquire_def Let_def word_less_nat_alt
      split: option.splits sum.splits dest: checked_add_Some)

lemma lease_inv_renew: "lease_inv m \<Longrightarrow> lease_inv (fst (lease_renew m i g now))"
proof -
  assume inv: "lease_inv m"
  show ?thesis
  proof (cases "lm_active m")
    case None
    then show ?thesis using inv by (simp add: lease_renew_def)
  next
    case (Some l)
    have ok: "lease_ok (lm_host_generation m) l" "lm_last_released m = None"
      "lm_host_generation m \<noteq> Some 0"
      using inv Some by (auto simp: lease_inv_def)
    have later: "le_issued_at_ms l \<le> now"
      if "checked_add (le_last_renewed_at_ms l) RENEW_INTERVAL_MS = Some n" "\<not> now < n" for n
      using ok(1) checked_add_mono [OF that(1)] that(2) by (auto simp: lease_ok_def)
    have short: "unat (le_expires_at_ms l) \<le> unat now + 15000"
      if "checked_add (le_last_renewed_at_ms l) RENEW_INTERVAL_MS = Some n" "\<not> now < n" for n
      using ok(1) checked_add_Some [OF that(1)] that(2) unat_lease_duration
      by (auto simp: lease_ok_def word_less_nat_alt)
    show ?thesis
      using ok later short Some unat_lease_duration
      by (auto simp: lease_renew_def lease_inv_def lease_ok_def Let_def word_less_nat_alt
          word_le_nat_alt freeze_active_None freeze_active_host
          split: option.splits sum.splits dest: checked_add_Some)
  qed
qed

lemma lease_inv_authorize: "lease_inv m \<Longrightarrow> lease_inv (fst (authorize_command m i g n now))"
  by (auto simp: authorize_command_def lease_inv_def lease_ok_def freeze_active_None
      freeze_active_host split: option.splits sum.splits)

lemma lease_inv_release: "lease_inv m \<Longrightarrow> lease_inv (fst (release_or_close m i g))"
  using lease_inv_frozen [of m] by (auto simp: release_or_close_def split: option.splits sum.splits)

lemma lease_inv_expire: "lease_inv m \<Longrightarrow> lease_inv (fst (lease_expire m now))"
  using lease_inv_frozen [of m] by (auto simp: lease_expire_def split: option.splits)

lemmas lease_inv_ops = lease_inv_connect lease_inv_disconnect lease_inv_acquire lease_inv_renew
  lease_inv_authorize lease_inv_release lease_inv_expire

interpretation lease: machine lease_step lease_inv
proof
  fix m a
  assume "lease_inv m"
  then show "lease_inv (fst (lease_step m a))"
    by (cases a) (simp_all add: lease_inv_ops lease_release_def lease_close_def)
qed

section \<open>Commands under one lease\<close>

lemma authorize_command_iff:
  "authorize_command m i g n now = (m', Inr ()) \<longleftrightarrow>
     (\<exists>l. lm_active m = Some l \<and> i = le_id l \<and> g = le_generation l \<and> now < le_expires_at_ms l
        \<and> unat n = Suc (unat (le_last_command_sequence l))
        \<and> m' = m\<lparr>lm_active := Some (l\<lparr>le_last_command_sequence := n\<rparr>)\<rparr>)" (is "?L \<longleftrightarrow> ?R")
proof
  assume ?L
  then show ?R
    by (auto simp: authorize_command_def validate_active_ref_def not_le
        split: option.splits if_splits sum.splits dest: checked_add_Some)
next
  assume ?R
  then obtain l where l: "lm_active m = Some l" "i = le_id l" "g = le_generation l"
    "now < le_expires_at_ms l" "unat n = Suc (unat (le_last_command_sequence l))"
    "m' = m\<lparr>lm_active := Some (l\<lparr>le_last_command_sequence := n\<rparr>)\<rparr>"
    by blast
  from l(5) have "checked_add (le_last_command_sequence l) 1 = Some n"
    using unat_lt2p [of n]
    by (auto simp: checked_add_def unat_inject [symmetric] unat_add_no_overflow)
  with l show ?L by (simp add: authorize_command_def validate_active_ref_def not_le [symmetric])
qed

fun is_acquire :: "lease_op \<Rightarrow> bool" where
  "is_acquire (Acquire _ _ _) = True"
| "is_acquire _ = False"

text \<open>The sequence numbers of the commands that a run let through, in order.\<close>

fun accepted_commands :: "(lease_op \<times> lease_out) list \<Rightarrow> u64 list" where
  "accepted_commands [] = []"
| "accepted_commands ((AuthorizeCommand _ _ n _, Done (Inr _)) # rest) = n # accepted_commands rest"
| "accepted_commands (_ # rest) = accepted_commands rest"

definition run_trace :: "lease_manager \<Rightarrow> lease_op list \<Rightarrow> (lease_op \<times> lease_out) list" where
  "run_trace m ops = zip ops (snd (run_steps lease_step m ops))"

lemma run_trace_simps [simp]:
  "run_trace m [] = []"
  "run_trace m (a # as) = (a, snd (lease_step m a)) # run_trace (fst (lease_step m a)) as"
  by (simp_all add: run_trace_def split_def Let_def)

text \<open>The counter of the active lease; with no lease there is none.\<close>

definition command_counter :: "lease_manager \<Rightarrow> u64 option" where
  "command_counter m = map_option le_last_command_sequence (lm_active m)"

lemma command_counter_freeze [simp]: "command_counter (fst (freeze_active m)) = None"
  by (simp add: command_counter_def freeze_active_None)

lemma command_counter_authorize:
  "command_counter (fst (authorize_command m i g n now)) =
     (if snd (authorize_command m i g n now) = Inr () then Some n
      else if snd (authorize_command m i g n now) = Inl LeaseError_LeaseExpired then None
      else command_counter m)"
  by (simp add: authorize_command_def command_counter_def validate_active_ref_def freeze_active_None
      split: option.splits)

lemma command_counter_step:
  assumes "\<not> is_acquire a" and "\<And>i g n now. a \<noteq> AuthorizeCommand i g n now"
  shows "command_counter (fst (lease_step m a)) \<in> {command_counter m, None}"
proof (cases a)
  case (Renew i g now)
  then show ?thesis
    by (auto simp: lease_renew_def command_counter_def Let_def freeze_active_None
        split: option.splits sum.splits)
qed (use assms in \<open>auto simp: connect_host_def disconnect_host_def lease_release_def lease_close_def
      release_or_close_def lease_expire_def command_counter_def freeze_active_None
      split: option.splits sum.splits\<close>)

lemma accepted_commands_other:
  "(\<And>i g n now. a \<noteq> AuthorizeCommand i g n now) \<Longrightarrow>
     accepted_commands ((a, r) # rest) = accepted_commands rest"
  by (cases a) auto

lemma no_lease_no_command:
  "command_counter m = None \<Longrightarrow> \<not> list_ex is_acquire ops \<Longrightarrow> accepted_commands (run_trace m ops) = []"
proof (induction ops arbitrary: m)
  case Nil
  then show ?case by simp
next
  case (Cons a ops)
  show ?case
  proof (cases "\<exists>i g n now. a = AuthorizeCommand i g n now")
    case True
    then show ?thesis
      using Cons by (auto simp: authorize_command_def command_counter_def)
  next
    case False
    then show ?thesis
      using Cons command_counter_step [of a m] by (simp add: accepted_commands_other)
  qed
qed

text \<open>The numbers in a list follow one another, starting after \<open>c\<close>.\<close>

definition counts_from :: "u64 \<Rightarrow> u64 list \<Rightarrow> bool" where
  "counts_from c ns \<longleftrightarrow> map unat ns = [Suc (unat c) ..< Suc (unat c) + length ns]"

lemma counts_from_Nil [simp]: "counts_from c []"
  by (simp add: counts_from_def)

lemma counts_from_Cons: "counts_from c (n # ns) \<longleftrightarrow> unat n = Suc (unat c) \<and> counts_from n ns"
  by (auto simp: counts_from_def upt_conv_Cons simp del: upt_Suc)

lemma accepted_commands_consecutive:
  "command_counter m = Some c \<Longrightarrow> \<not> list_ex is_acquire ops \<Longrightarrow>
     counts_from c (accepted_commands (run_trace m ops))"
proof (induction ops arbitrary: m c)
  case Nil
  then show ?case by simp
next
  case (Cons a ops)
  have rest: "\<not> list_ex is_acquire ops" "\<not> is_acquire a" using Cons.prems by auto
  have quiet: "counts_from c (accepted_commands (run_trace m' ops))"
    if "command_counter m' \<in> {Some c, None}" for m'
    using that Cons.IH [of m' c] no_lease_no_command [of m'] rest(1) by auto
  show ?case
  proof (cases "\<exists>i g n now. a = AuthorizeCommand i g n now")
    case False
    then show ?thesis
      using quiet [of "fst (lease_step m a)"] command_counter_step [of a m] rest Cons.prems
      by (simp add: accepted_commands_other)
  next
    case True
    then obtain i g n now where a: "a = AuthorizeCommand i g n now" by blast
    define r where "r = authorize_command m i g n now"
    show ?thesis
    proof (cases "snd r")
      case (Inl e)
      then have "command_counter (fst r) \<in> {Some c, None}"
        using command_counter_authorize [of m i g n now] Cons.prems by (simp add: r_def)
      from quiet [OF this] Inl show ?thesis by (simp add: a r_def)
    next
      case (Inr u)
      then have ok: "r = (fst r, Inr ())" by (cases r) simp
      then have n: "unat n = Suc (unat c)" and cc: "command_counter (fst r) = Some n"
        using Cons.prems by (auto simp: r_def authorize_command_iff command_counter_def)
      from Cons.IH [OF cc rest(1)] show ?thesis
        using Inr n by (simp add: a r_def counts_from_Cons)
    qed
  qed
qed

section \<open>Losing a lease\<close>

text \<open>The steps after which the Host no longer holds a lease, told from what they answered.\<close>

definition lease_lost :: "lease_manager \<Rightarrow> lease_op \<Rightarrow> bool" where
  "lease_lost m a = (case (a, snd (lease_step m a)) of
       (DisconnectHost, _) \<Rightarrow> True
     | (Release _ _, Released (Inr _)) \<Rightarrow> True
     | (Close _ _, Released (Inr _)) \<Rightarrow> True
     | (Expire _, Expired (Some _)) \<Rightarrow> True
     | (AuthorizeCommand _ _ _ _, Done (Inl LeaseError_LeaseExpired)) \<Rightarrow> True
     | (Renew _ _ _, Leased (Inl LeaseError_LeaseExpired)) \<Rightarrow> True
     | _ \<Rightarrow> False)"

lemma lease_lost_inactive: "lease_lost m a \<Longrightarrow> lm_active (fst (lease_step m a)) = None"
  by (cases a)
    (auto simp: lease_lost_def disconnect_host_def freeze_active_None lease_renew_def
      authorize_command_def release_or_close_def lease_release_def lease_close_def lease_expire_def
      validate_active_ref_def Let_def
      split: option.splits sum.splits if_splits lease_error.splits)

lemma release_twice:
  "snd (lease_release m i g) = Inr b \<Longrightarrow>
     lease_release (fst (lease_release m i g)) i g = (fst (lease_release m i g), Inr False)"
  by (auto simp: lease_release_def release_or_close_def validate_active_ref_def freeze_active_def
      split: option.splits if_splits)

section \<open>Properties\<close>

text \<open>
  Whatever sequence of operations the broker performs on a new lease manager, the lease that is
  active afterwards belongs to the Host connection that is connected now and to its generation, has
  a usable controller name and a non-zero identifier, and expires at most one lease duration
  after its last renewal.
\<close>

theorem lease_always_bound_to_host:
  "case lm_active (fst (run_steps lease_step (lease_manager_new b) ops)) of
     None \<Rightarrow> True
   | Some l \<Rightarrow>
       lm_host_generation (fst (run_steps lease_step (lease_manager_new b) ops)) = Some (le_generation l)
       \<and> le_generation l \<noteq> 0 \<and> lease_id_bytes (le_id l) \<noteq> replicate 16 0
       \<and> validate_controller_name (le_controller_display_name l) = Inr ()
       \<and> le_last_renewed_at_ms l < le_expires_at_ms l
       \<and> unat (le_expires_at_ms l) \<le> unat (le_last_renewed_at_ms l) + 15000"
  using lease.run_inv [OF lease_inv_new, of b ops] unat_lease_duration
  by (auto simp: lease_inv_def lease_ok_def split: option.splits)

text \<open>
  C5. Commands are let through exactly once and in order.  A command is authorized iff it names the
  active lease and its generation, comes before the expiry and carries the successor of the last
  sequence number; and until a new lease is acquired, the numbers of all commands that any run
  lets through are consecutive, starting after the current one.
\<close>

theorem lease_commands_exactly_once:
  "(snd (authorize_command m i g n now) = Inr () \<longleftrightarrow>
     (\<exists>l. lm_active m = Some l \<and> i = le_id l \<and> g = le_generation l \<and> now < le_expires_at_ms l
        \<and> unat n = Suc (unat (le_last_command_sequence l))))
   \<and> (command_counter m = Some c \<longrightarrow> \<not> list_ex is_acquire ops \<longrightarrow>
       counts_from c (accepted_commands (run_trace m ops)))"
  using authorize_command_iff [of m i g n now] accepted_commands_consecutive [of m c ops]
  by (metis prod.collapse snd_conv)

text \<open>
  Losing a lease is final and reporting it is idempotent.  After a release that succeeded, a
  Host disconnect, an expiry sweep that named a lease, or a command refused as expired, no lease is active,
  input may not be enabled, and no command passes until another lease is acquired; releasing the
  same lease again answers false and changes nothing.
\<close>

theorem lease_loss_is_final:
  assumes "lease_lost m a" and "\<not> list_ex is_acquire ops"
  shows "lm_active (fst (lease_step m a)) = None
    \<and> \<not> input_may_be_enabled (fst (lease_step m a))
    \<and> accepted_commands (run_trace (fst (lease_step m a)) ops) = []
    \<and> (a = Release i g \<longrightarrow>
        lease_release (fst (lease_step m a)) i g = (fst (lease_step m a), Inr False))"
proof -
  have inactive: "lm_active (fst (lease_step m a)) = None"
    using assms(1) by (rule lease_lost_inactive)
  moreover have "\<not> input_may_be_enabled (fst (lease_step m a))"
    by (simp add: input_may_be_enabled_def inactive)
  moreover have "accepted_commands (run_trace (fst (lease_step m a)) ops) = []"
    using assms(2) by (intro no_lease_no_command) (simp_all add: command_counter_def inactive)
  moreover have "lease_release (fst (lease_step m a)) i g = (fst (lease_step m a), Inr False)"
    if "a = Release i g"
    using assms(1) that release_twice [of m i g]
    by (auto simp: lease_lost_def split: sum.splits)
  ultimately show ?thesis by blast
qed

section \<open>Witnesses\<close>

definition example_id :: lease_id where
  "example_id = LeaseId (replicate 16 7)"

definition example_request :: acquire_lease where
  "example_request = \<lparr>al_session_id = SessionId (replicate 16 1), al_generation = 3,
     al_controller_display_name = ''desk'', al_may_control_input = True\<rparr>"

definition example_manager :: lease_manager where
  "example_manager = fst (run_steps lease_step (lease_manager_new (replicate 16 9))
     [ConnectHost 3, Acquire example_request 1000 (Inr example_id)])"

lemmas example_defs = example_manager_def example_request_def example_id_def lease_manager_new_def
  connect_host_def lease_acquire_def validate_controller_name_def validate_active_ref_def
  checked_add_def limits authorize_command_def lease_release_def release_or_close_def
  freeze_active_def

lemma example_active: "lm_active example_manager = Some \<lparr>le_id = example_id,
    le_session_id = SessionId (replicate 16 1), le_generation = 3, le_issued_at_ms = 1000,
    le_expires_at_ms = 16000, le_last_renewed_at_ms = 1000, le_last_command_sequence = 0,
    le_controller_display_name = ''desk'', le_may_control_input = True\<rparr>"
  by (simp add: example_defs Let_def)

theorem lease_commands_exactly_once_witness:
  "snd (authorize_command example_manager example_id 3 1 2000) = Inr ()
   \<and> accepted_commands (run_trace example_manager [AuthorizeCommand example_id 3 1 2000,
       AuthorizeCommand example_id 3 1 2001, AuthorizeCommand example_id 3 2 2002]) = [1, 2]
   \<and> counts_from 0 (accepted_commands (run_trace example_manager [AuthorizeCommand example_id 3 1 2000,
       AuthorizeCommand example_id 3 1 2001, AuthorizeCommand example_id 3 2 2002]))"
  using lease_commands_exactly_once [of example_manager example_id 3 1 2000 0
      "[AuthorizeCommand example_id 3 1 2000, AuthorizeCommand example_id 3 1 2001,
        AuthorizeCommand example_id 3 2 2002]"]
  by (simp add: example_active command_counter_def authorize_command_def validate_active_ref_def
      checked_add_def limits)

theorem lease_loss_is_final_witness:
  "lease_lost example_manager (Release example_id 3)
   \<and> lease_release (fst (lease_step example_manager (Release example_id 3))) example_id 3
     = (fst (lease_step example_manager (Release example_id 3)), Inr False)"
  using lease_loss_is_final [of example_manager "Release example_id 3" "[]" example_id 3]
  by (simp add: lease_lost_def example_active lease_release_def release_or_close_def
      validate_active_ref_def freeze_active_def)

end
