(* ===== verification/Input_Sink.thy ===== *)
theory Input_Sink
  imports Validation
begin

text \<open>
  Injecting remote input on the Host: the interface a session injects through, \<^verbatim>\<open>crates/host-webrtc/src/input.rs\<close>
  (the trait \<^verbatim>\<open>RemoteInputSink\<close>), and the sink the agent uses, \<^verbatim>\<open>crates/host-platform/src/input.rs\<close>.  The trait is
  the record \<open>remote_input_ops\<close> and the locale \<open>remote_input_sink\<close> states what sessions rely on.  The
  operating system behind \<^verbatim>\<open>PlatformInputBackend\<close> is a parameter, the record \<open>platform_input_backend\<close>.  A \<^verbatim>\<open>BTreeSet\<close>
  is an ascending list, so that releasing everything visits it in the order the code does; an \<^verbatim>\<open>i32\<close> of an event is
  an \<open>int\<close>, and where the code narrows an \<^verbatim>\<open>i64\<close> the range check is written out.
\<close>

unbundle bit_operations_syntax

section \<open>The trait\<close>

datatype host_webrtc_error =
    HostWebRtcError_InvalidSession
  | HostWebRtcError_InvalidPermissions
  | HostWebRtcError_InvalidState
  | HostWebRtcError_InvalidSdp
  | HostWebRtcError_InvalidAnswer
  | HostWebRtcError_PeerFailure
  | HostWebRtcError_InputFailure
  | HostWebRtcError_InputPermissionDenied
  | HostWebRtcError_InvalidInputEnvelope
  | HostWebRtcError_SessionMismatch
  | HostWebRtcError_ReliableSequence
  | HostWebRtcError_InvalidCoordinates
  | HostWebRtcError_InvalidKeyboardUsage
  | HostWebRtcError_InvalidModifierBits
  | HostWebRtcError_InvalidPointerButtons
  | HostWebRtcError_InvalidScrollDelta
  | HostWebRtcError_PressedInputState
  | HostWebRtcError_DeviceBusy
  | HostWebRtcError_InvalidLease

definition NORMALIZED_POINTER_MAX :: i32 where
  [limits]: "NORMALIZED_POINTER_MAX = 10000"

type_synonym ('i, 'a) input_result = "'i \<times> (host_webrtc_error + 'a)"

record 'i remote_input_ops =
  ri_keyboard :: "'i \<Rightarrow> keyboard_action \<Rightarrow> u32 \<Rightarrow> u32 \<Rightarrow> ('i, unit) input_result"
  ri_pointer_button :: "'i \<Rightarrow> pointer_button \<Rightarrow> button_action \<Rightarrow> i32 \<Rightarrow> i32 \<Rightarrow> ('i, unit) input_result"
  ri_pointer_move :: "'i \<Rightarrow> i32 \<Rightarrow> i32 \<Rightarrow> u32 \<Rightarrow> ('i, unit) input_result"
  ri_pointer_scroll :: "'i \<Rightarrow> i32 \<Rightarrow> i32 \<Rightarrow> ('i, unit) input_result"
  ri_text :: "'i \<Rightarrow> string \<Rightarrow> ('i, unit) input_result"
  ri_release_all :: "'i \<Rightarrow> ('i, unit) input_result"

text \<open>The bodies the trait provides: everything but releasing fails.\<close>

definition default_remote_input :: "('i \<Rightarrow> ('i, unit) input_result) \<Rightarrow> 'i remote_input_ops" where
  "default_remote_input release =
     \<lparr>ri_keyboard = (\<lambda>i _ _ _. (i, Inl HostWebRtcError_InputFailure)),
      ri_pointer_button = (\<lambda>i _ _ _ _. (i, Inl HostWebRtcError_InputFailure)),
      ri_pointer_move = (\<lambda>i _ _ _. (i, Inl HostWebRtcError_InputFailure)),
      ri_pointer_scroll = (\<lambda>i _ _. (i, Inl HostWebRtcError_InputFailure)),
      ri_text = (\<lambda>i _. (i, Inl HostWebRtcError_InputFailure)),
      ri_release_all = release\<rparr>"

section \<open>The platform sink\<close>

definition PRESSED_LEFT_BUTTON_BIT :: u32 where "PRESSED_LEFT_BUTTON_BIT = 1"

definition PRESSED_RIGHT_BUTTON_BIT :: u32 where "PRESSED_RIGHT_BUTTON_BIT = push_bit 1 1"

definition PRESSED_MIDDLE_BUTTON_BIT :: u32 where "PRESSED_MIDDLE_BUTTON_BIT = push_bit 2 1"

definition FIRST_MODIFIER_USAGE :: u32 where "FIRST_MODIFIER_USAGE = 0xe0"

definition MODIFIER_COUNT :: nat where "MODIFIER_COUNT = 8"

datatype native_direction = NativeDirection_Press | NativeDirection_Release

datatype native_button = NativeButton_Left | NativeButton_Right | NativeButton_Middle

text \<open>The derived order of \<^verbatim>\<open>NativeButton\<close>.\<close>

primrec native_button_rank :: "native_button \<Rightarrow> nat" where
  "native_button_rank NativeButton_Left = 0"
| "native_button_rank NativeButton_Right = 1"
| "native_button_rank NativeButton_Middle = 2"

instantiation native_button :: linorder
begin

definition less_eq_native_button :: "native_button \<Rightarrow> native_button \<Rightarrow> bool" where
  "less_eq_native_button a b \<longleftrightarrow> native_button_rank a \<le> native_button_rank b"

definition less_native_button :: "native_button \<Rightarrow> native_button \<Rightarrow> bool" where
  "less_native_button a b \<longleftrightarrow> native_button_rank a < native_button_rank b"

instance
proof
  fix a b :: native_button
  show "a \<le> b \<Longrightarrow> b \<le> a \<Longrightarrow> a = b" by (cases a; cases b) (simp_all add: less_eq_native_button_def)
qed (auto simp: less_eq_native_button_def less_native_button_def)

end

datatype platform_input_error =
    PlatformInputError_UnsupportedPlatform
  | PlatformInputError_PermissionDenied
  | PlatformInputError_BackendUnavailable
  | PlatformInputError_InvalidMainDisplay
  | PlatformInputError_UnsupportedKeyboardUsage
  | PlatformInputError_InjectionFailed
  | PlatformInputError_PartialInjection

record 'b platform_input_backend =
  pb_main_display_size :: "'b \<Rightarrow> 'b \<times> (platform_input_error + i32 \<times> i32)"
  pb_keyboard :: "'b \<Rightarrow> u32 \<Rightarrow> native_direction \<Rightarrow> 'b \<times> (platform_input_error + unit)"
  pb_pointer_button :: "'b \<Rightarrow> native_button \<Rightarrow> native_direction \<Rightarrow> 'b \<times> (platform_input_error + unit)"
  pb_pointer_move :: "'b \<Rightarrow> i32 \<Rightarrow> i32 \<Rightarrow> 'b \<times> (platform_input_error + unit)"
  pb_pointer_scroll :: "'b \<Rightarrow> i32 \<Rightarrow> i32 \<Rightarrow> 'b \<times> (platform_input_error + unit)"
  pb_text :: "'b \<Rightarrow> string \<Rightarrow> 'b \<times> (platform_input_error + unit)"

record 'b platform_input_sink =
  ps_backend :: 'b
  ps_display_width :: i32
  ps_display_height :: i32
  ps_pressed_keys :: "u32 list"
  ps_pressed_buttons :: "native_button list"

definition btset_insert :: "'a::linorder \<Rightarrow> 'a list \<Rightarrow> 'a list" where
  "btset_insert x xs = (if x \<in> set xs then xs else insort x xs)"

definition btset_remove :: "'a \<Rightarrow> 'a list \<Rightarrow> 'a list" where
  "btset_remove x xs = filter (\<lambda>y. y \<noteq> x) xs"

definition map_input_error :: "platform_input_error \<Rightarrow> host_webrtc_error" where
  "map_input_error e = HostWebRtcError_InputFailure"

definition platform_sink_new ::
  "'b platform_input_backend \<Rightarrow> 'b \<Rightarrow> platform_input_error + 'b platform_input_sink" where
  "platform_sink_new ops backend =
     (case pb_main_display_size ops backend of
        (_, Inl e) \<Rightarrow> Inl e
      | (backend', Inr (display_width, display_height)) \<Rightarrow>
          if display_width \<le> 0 \<or> display_height \<le> 0 then Inl PlatformInputError_InvalidMainDisplay
          else Inr \<lparr>ps_backend = backend', ps_display_width = display_width, ps_display_height = display_height,
                 ps_pressed_keys = [], ps_pressed_buttons = []\<rparr>)"

definition set_key ::
  "'b platform_input_backend \<Rightarrow> 'b platform_input_sink \<Rightarrow> u32 \<Rightarrow> native_direction
    \<Rightarrow> ('b platform_input_sink, unit) input_result" where
  "set_key ops s usage direction =
     (let pressed = usage \<in> set (ps_pressed_keys s)
      in if (direction = NativeDirection_Press) = pressed then (s, Inr ())
         else let (backend, r) = pb_keyboard ops (ps_backend s) usage direction;
                  s' = s\<lparr>ps_backend := backend\<rparr>
              in case r of
                   Inl e \<Rightarrow>
                     (if direction = NativeDirection_Press
                      then s'\<lparr>ps_pressed_keys := btset_insert usage (ps_pressed_keys s')\<rparr> else s',
                      Inl (map_input_error e))
                 | Inr _ \<Rightarrow>
                     (case direction of
                        NativeDirection_Press \<Rightarrow> s'\<lparr>ps_pressed_keys := btset_insert usage (ps_pressed_keys s')\<rparr>
                      | NativeDirection_Release \<Rightarrow> s'\<lparr>ps_pressed_keys := btset_remove usage (ps_pressed_keys s')\<rparr>,
                      Inr ()))"

definition set_button ::
  "'b platform_input_backend \<Rightarrow> 'b platform_input_sink \<Rightarrow> native_button \<Rightarrow> native_direction
    \<Rightarrow> ('b platform_input_sink, unit) input_result" where
  "set_button ops s button direction =
     (let pressed = button \<in> set (ps_pressed_buttons s)
      in if (direction = NativeDirection_Press) = pressed then (s, Inr ())
         else let (backend, r) = pb_pointer_button ops (ps_backend s) button direction;
                  s' = s\<lparr>ps_backend := backend\<rparr>
              in case r of
                   Inl e \<Rightarrow>
                     (if direction = NativeDirection_Press
                      then s'\<lparr>ps_pressed_buttons := btset_insert button (ps_pressed_buttons s')\<rparr> else s',
                      Inl (map_input_error e))
                 | Inr _ \<Rightarrow>
                     (case direction of
                        NativeDirection_Press \<Rightarrow> s'\<lparr>ps_pressed_buttons := btset_insert button (ps_pressed_buttons s')\<rparr>
                      | NativeDirection_Release \<Rightarrow> s'\<lparr>ps_pressed_buttons := btset_remove button (ps_pressed_buttons s')\<rparr>,
                      Inr ()))"

text \<open>The loop over the eight modifier bits, from \<open>bit\<close> on; \<open>n\<close> counts the bits that are left.\<close>

fun reconcile_loop ::
  "'b platform_input_backend \<Rightarrow> u32 \<Rightarrow> u32 \<Rightarrow> nat \<Rightarrow> nat \<Rightarrow> 'b platform_input_sink
    \<Rightarrow> ('b platform_input_sink, unit) input_result" where
  "reconcile_loop ops modifier_bits current_usage b 0 s = (s, Inr ())"
| "reconcile_loop ops modifier_bits current_usage b (Suc n) s =
     (let usage = FIRST_MODIFIER_USAGE + word_of_nat b
      in if usage = current_usage then reconcile_loop ops modifier_bits current_usage (Suc b) n s
         else
           let desired = modifier_bits AND push_bit b 1 \<noteq> 0;
               pressed = usage \<in> set (ps_pressed_keys s)
           in sbind (if desired \<and> \<not> pressed then set_key ops s usage NativeDirection_Press
                     else if \<not> desired \<and> pressed then set_key ops s usage NativeDirection_Release
                     else (s, Inr ()))
                (\<lambda>s' _. reconcile_loop ops modifier_bits current_usage (Suc b) n s'))"

definition reconcile_modifiers ::
  "'b platform_input_backend \<Rightarrow> 'b platform_input_sink \<Rightarrow> u32 \<Rightarrow> u32
    \<Rightarrow> ('b platform_input_sink, unit) input_result" where
  "reconcile_modifiers ops s modifier_bits current_usage =
     reconcile_loop ops modifier_bits current_usage 0 MODIFIER_COUNT s"

fun button_loop ::
  "'b platform_input_backend \<Rightarrow> u32 \<Rightarrow> (native_button \<times> u32) list \<Rightarrow> 'b platform_input_sink
    \<Rightarrow> ('b platform_input_sink, unit) input_result" where
  "button_loop ops bits [] s = (s, Inr ())"
| "button_loop ops bits ((button, b) # rest) s =
     sbind (set_button ops s button (if bits AND b = 0 then NativeDirection_Release else NativeDirection_Press))
       (\<lambda>s' _. button_loop ops bits rest s')"

definition reconcile_pointer_buttons ::
  "'b platform_input_backend \<Rightarrow> 'b platform_input_sink \<Rightarrow> u32 \<Rightarrow> ('b platform_input_sink, unit) input_result" where
  "reconcile_pointer_buttons ops s bits =
     button_loop ops bits [(NativeButton_Left, PRESSED_LEFT_BUTTON_BIT), (NativeButton_Right, PRESSED_RIGHT_BUTTON_BIT),
       (NativeButton_Middle, PRESSED_MIDDLE_BUTTON_BIT)] s"

definition i32_try_from :: "int \<Rightarrow> i32 option" where
  "i32_try_from v = (if - (2 ^ 31) \<le> v \<and> v < 2 ^ 31 then Some v else None)"

definition normalized_to_pixels :: "i32 \<Rightarrow> i32 \<Rightarrow> i32 \<Rightarrow> i32 \<Rightarrow> host_webrtc_error + i32 \<times> i32" where
  "normalized_to_pixels x y display_width display_height =
     (if x < 0 \<or> NORMALIZED_POINTER_MAX < x \<or> y < 0 \<or> NORMALIZED_POINTER_MAX < y
      then Inl HostWebRtcError_InvalidCoordinates
      else
        let maximum = NORMALIZED_POINTER_MAX;
            rounding = maximum div 2;
            pixel_x = (x * (display_width - 1) + rounding) div maximum;
            pixel_y = (y * (display_height - 1) + rounding) div maximum
        in bind_res (ok_or HostWebRtcError_InvalidCoordinates (i32_try_from pixel_x)) (\<lambda>px.
           bind_res (ok_or HostWebRtcError_InvalidCoordinates (i32_try_from pixel_y)) (\<lambda>py.
           Inr (px, py))))"

definition move_normalized ::
  "'b platform_input_backend \<Rightarrow> 'b platform_input_sink \<Rightarrow> i32 \<Rightarrow> i32 \<Rightarrow> ('b platform_input_sink, unit) input_result" where
  "move_normalized ops s x y =
     (case normalized_to_pixels x y (ps_display_width s) (ps_display_height s) of
        Inl e \<Rightarrow> (s, Inl e)
      | Inr (pixel_x, pixel_y) \<Rightarrow>
          let (backend, r) = pb_pointer_move ops (ps_backend s) pixel_x pixel_y
          in (s\<lparr>ps_backend := backend\<rparr>, map_err map_input_error r))"

fun click_loop ::
  "'b platform_input_backend \<Rightarrow> native_button \<Rightarrow> nat \<Rightarrow> 'b platform_input_sink
    \<Rightarrow> ('b platform_input_sink, unit) input_result" where
  "click_loop ops button 0 s = (s, Inr ())"
| "click_loop ops button (Suc n) s =
     sbind (set_button ops s button NativeDirection_Press) (\<lambda>s1 _.
     sbind (set_button ops s1 button NativeDirection_Release) (\<lambda>s2 _.
     click_loop ops button n s2))"

definition click_button ::
  "'b platform_input_backend \<Rightarrow> 'b platform_input_sink \<Rightarrow> native_button \<Rightarrow> nat
    \<Rightarrow> ('b platform_input_sink, unit) input_result" where
  "click_button ops s button click_count =
     (if button \<in> set (ps_pressed_buttons s) then (s, Inl HostWebRtcError_InputFailure)
      else click_loop ops button click_count s)"

primrec native_button_of :: "pointer_button \<Rightarrow> host_webrtc_error + native_button" where
  "native_button_of PointerButton_Left = Inr NativeButton_Left"
| "native_button_of PointerButton_Right = Inr NativeButton_Right"
| "native_button_of PointerButton_Middle = Inr NativeButton_Middle"
| "native_button_of PointerButton_Unspecified = Inl HostWebRtcError_InputFailure"

definition sink_keyboard ::
  "'b platform_input_backend \<Rightarrow> 'b platform_input_sink \<Rightarrow> keyboard_action \<Rightarrow> u32 \<Rightarrow> u32
    \<Rightarrow> ('b platform_input_sink, unit) input_result" where
  "sink_keyboard ops s action usb_hid_usage modifier_bits =
     sbind (reconcile_modifiers ops s modifier_bits usb_hid_usage) (\<lambda>s' _.
       case action of
         KeyboardAction_Down \<Rightarrow> set_key ops s' usb_hid_usage NativeDirection_Press
       | KeyboardAction_Up \<Rightarrow> set_key ops s' usb_hid_usage NativeDirection_Release
       | KeyboardAction_Unspecified \<Rightarrow> (s', Inl HostWebRtcError_InputFailure))"

definition sink_pointer_button ::
  "'b platform_input_backend \<Rightarrow> 'b platform_input_sink \<Rightarrow> pointer_button \<Rightarrow> button_action \<Rightarrow> i32 \<Rightarrow> i32
    \<Rightarrow> ('b platform_input_sink, unit) input_result" where
  "sink_pointer_button ops s button action x y =
     sbind (move_normalized ops s x y) (\<lambda>s' _.
       case native_button_of button of
         Inl e \<Rightarrow> (s', Inl e)
       | Inr native \<Rightarrow>
           (case action of
              ButtonAction_Down \<Rightarrow> set_button ops s' native NativeDirection_Press
            | ButtonAction_Up \<Rightarrow> set_button ops s' native NativeDirection_Release
            | ButtonAction_Click \<Rightarrow> click_button ops s' native 1
            | ButtonAction_DoubleClick \<Rightarrow> click_button ops s' native 2
            | ButtonAction_Unspecified \<Rightarrow> (s', Inl HostWebRtcError_InputFailure)))"

definition sink_pointer_move ::
  "'b platform_input_backend \<Rightarrow> 'b platform_input_sink \<Rightarrow> i32 \<Rightarrow> i32 \<Rightarrow> u32
    \<Rightarrow> ('b platform_input_sink, unit) input_result" where
  "sink_pointer_move ops s x y pressed_button_bits =
     sbind (reconcile_pointer_buttons ops s pressed_button_bits) (\<lambda>s' _. move_normalized ops s' x y)"

definition sink_pointer_scroll ::
  "'b platform_input_backend \<Rightarrow> 'b platform_input_sink \<Rightarrow> i32 \<Rightarrow> i32 \<Rightarrow> ('b platform_input_sink, unit) input_result" where
  "sink_pointer_scroll ops s delta_x delta_y =
     (let (backend, r) = pb_pointer_scroll ops (ps_backend s) delta_x delta_y
      in (s\<lparr>ps_backend := backend\<rparr>, map_err map_input_error r))"

definition sink_text ::
  "'b platform_input_backend \<Rightarrow> 'b platform_input_sink \<Rightarrow> string \<Rightarrow> ('b platform_input_sink, unit) input_result" where
  "sink_text ops s txt =
     (let (backend, r) = pb_text ops (ps_backend s) txt in (s\<lparr>ps_backend := backend\<rparr>, map_err map_input_error r))"

text \<open>\<^verbatim>\<open>retain\<close> with a closure that releases: what stays, and whether a release failed.\<close>

fun release_each ::
  "('b \<Rightarrow> 'a \<Rightarrow> 'b \<times> (platform_input_error + unit)) \<Rightarrow> 'b \<Rightarrow> 'a list \<Rightarrow> 'b \<times> 'a list" where
  "release_each release b [] = (b, [])"
| "release_each release b (x # xs) =
     (let (b1, r) = release b x; (b2, kept) = release_each release b1 xs
      in (b2, if is_ok r then kept else x # kept))"

definition sink_release_all ::
  "'b platform_input_backend \<Rightarrow> 'b platform_input_sink \<Rightarrow> ('b platform_input_sink, unit) input_result" where
  "sink_release_all ops s =
     (let (b1, keys) = release_each (\<lambda>b usage. pb_keyboard ops b usage NativeDirection_Release)
            (ps_backend s) (ps_pressed_keys s);
          (b2, buttons) = release_each (\<lambda>b button. pb_pointer_button ops b button NativeDirection_Release)
            b1 (ps_pressed_buttons s)
      in (s\<lparr>ps_backend := b2, ps_pressed_keys := keys, ps_pressed_buttons := buttons\<rparr>,
          if keys = [] \<and> buttons = [] then Inr () else Inl HostWebRtcError_InputFailure))"

definition platform_input_ops :: "'b platform_input_backend \<Rightarrow> 'b platform_input_sink remote_input_ops" where
  "platform_input_ops ops =
     \<lparr>ri_keyboard = sink_keyboard ops, ri_pointer_button = sink_pointer_button ops,
      ri_pointer_move = sink_pointer_move ops, ri_pointer_scroll = sink_pointer_scroll ops,
      ri_text = sink_text ops, ri_release_all = sink_release_all ops\<rparr>"

section \<open>What a session relies on\<close>

text \<open>A sink that has released everything is idle, and releasing again does nothing.\<close>

locale remote_input_sink =
  fixes ops :: "'i remote_input_ops"
    and idle :: "'i \<Rightarrow> bool"
  assumes release_ok: "ri_release_all ops i = (i', Inr u) \<Longrightarrow> idle i'"
    and release_idle: "idle i \<Longrightarrow> ri_release_all ops i = (i, Inr ())"
begin

lemma release_all_twice: "ri_release_all ops i = (i', Inr u) \<Longrightarrow> ri_release_all ops i' = (i', Inr ())"
  by (blast intro: release_idle release_ok)

end

definition sink_idle :: "'b platform_input_sink \<Rightarrow> bool" where
  "sink_idle s \<longleftrightarrow> ps_pressed_keys s = [] \<and> ps_pressed_buttons s = []"

interpretation platform: remote_input_sink "platform_input_ops ops" sink_idle for ops
proof
  fix i i' u
  assume "ri_release_all (platform_input_ops ops) i = (i', Inr u)"
  then show "sink_idle i'"
    by (auto simp: platform_input_ops_def sink_release_all_def sink_idle_def split_def Let_def split: if_splits)
next
  fix i :: "'a platform_input_sink"
  assume "sink_idle i"
  then show "ri_release_all (platform_input_ops ops) i = (i, Inr ())"
    by (simp add: platform_input_ops_def sink_release_all_def sink_idle_def)
qed

section \<open>The machine behind the sink\<close>

text \<open>
  What the sink needs of the operating system: an injected press or release changes at most the key or button it is
  about, a release that is reported as done is done, and nothing else presses anything.  A failed injection may or may not
  have had its effect.
\<close>

definition backend_law :: "'b platform_input_backend \<Rightarrow> ('b \<Rightarrow> u32 set) \<Rightarrow> ('b \<Rightarrow> native_button set) \<Rightarrow> bool" where
  "backend_law ops keys buttons \<longleftrightarrow>
     (\<forall>b u. let (b', r) = pb_keyboard ops b u NativeDirection_Press
            in keys b' \<subseteq> insert u (keys b) \<and> buttons b' \<subseteq> buttons b)
   \<and> (\<forall>b u. let (b', r) = pb_keyboard ops b u NativeDirection_Release
            in keys b' \<subseteq> keys b - (if is_ok r then {u} else {}) \<and> buttons b' \<subseteq> buttons b)
   \<and> (\<forall>b u. let (b', r) = pb_pointer_button ops b u NativeDirection_Press
            in keys b' \<subseteq> keys b \<and> buttons b' \<subseteq> insert u (buttons b))
   \<and> (\<forall>b u. let (b', r) = pb_pointer_button ops b u NativeDirection_Release
            in keys b' \<subseteq> keys b \<and> buttons b' \<subseteq> buttons b - (if is_ok r then {u} else {}))
   \<and> (\<forall>b x y. let (b', r) = pb_pointer_move ops b x y in keys b' \<subseteq> keys b \<and> buttons b' \<subseteq> buttons b)
   \<and> (\<forall>b x y. let (b', r) = pb_pointer_scroll ops b x y in keys b' \<subseteq> keys b \<and> buttons b' \<subseteq> buttons b)
   \<and> (\<forall>b t. let (b', r) = pb_text ops b t in keys b' \<subseteq> keys b \<and> buttons b' \<subseteq> buttons b)"

text \<open>The invariant: whatever is held down is on one of the sink's lists.\<close>

definition tracked :: "('b \<Rightarrow> u32 set) \<Rightarrow> ('b \<Rightarrow> native_button set) \<Rightarrow> 'b platform_input_sink \<Rightarrow> bool" where
  "tracked keys buttons s \<longleftrightarrow> keys (ps_backend s) \<subseteq> set (ps_pressed_keys s)
     \<and> buttons (ps_backend s) \<subseteq> set (ps_pressed_buttons s)"

lemma set_btset [simp]: "set (btset_insert x xs) = insert x (set xs)" "set (btset_remove x xs) = set xs - {x}"
  by (auto simp: btset_insert_def btset_remove_def set_insort_key)

lemma tracked_set_key:
  assumes "backend_law ops keys buttons" "tracked keys buttons s"
  shows "tracked keys buttons (fst (set_key ops s u d))"
proof -
  obtain b r where b: "pb_keyboard ops (ps_backend s) u d = (b, r)" by fastforce
  have "(case d of NativeDirection_Press \<Rightarrow> keys b \<subseteq> insert u (keys (ps_backend s))
      | NativeDirection_Release \<Rightarrow> keys b \<subseteq> keys (ps_backend s) - (if is_ok r then {u} else {}))
      \<and> buttons b \<subseteq> buttons (ps_backend s)"
    using assms(1) b unfolding backend_law_def by (cases d) (metis (no_types, lifting) case_prod_conv native_direction.simps)+
  then show ?thesis
    using assms(2) b by (cases d; cases r) (auto simp: set_key_def tracked_def Let_def)
qed

lemma tracked_set_button:
  assumes "backend_law ops keys buttons" "tracked keys buttons s"
  shows "tracked keys buttons (fst (set_button ops s u d))"
proof -
  obtain b r where b: "pb_pointer_button ops (ps_backend s) u d = (b, r)" by fastforce
  have "(case d of NativeDirection_Press \<Rightarrow> buttons b \<subseteq> insert u (buttons (ps_backend s))
      | NativeDirection_Release \<Rightarrow> buttons b \<subseteq> buttons (ps_backend s) - (if is_ok r then {u} else {}))
      \<and> keys b \<subseteq> keys (ps_backend s)"
    using assms(1) b unfolding backend_law_def by (cases d) (metis (no_types, lifting) case_prod_conv native_direction.simps)+
  then show ?thesis
    using assms(2) b by (cases d; cases r) (auto simp: set_button_def tracked_def Let_def)
qed

lemma tracked_backend:
  assumes "tracked keys buttons s" "keys b \<subseteq> keys (ps_backend s)" "buttons b \<subseteq> buttons (ps_backend s)"
  shows "tracked keys buttons (s\<lparr>ps_backend := b\<rparr>)"
  using assms by (auto simp: tracked_def)

lemma backend_law_moves:
  assumes "backend_law ops keys buttons"
  shows "keys (fst (pb_pointer_move ops b x y)) \<subseteq> keys b" "buttons (fst (pb_pointer_move ops b x y)) \<subseteq> buttons b"
    "keys (fst (pb_pointer_scroll ops b x y)) \<subseteq> keys b" "buttons (fst (pb_pointer_scroll ops b x y)) \<subseteq> buttons b"
    "keys (fst (pb_text ops b t)) \<subseteq> keys b" "buttons (fst (pb_text ops b t)) \<subseteq> buttons b"
  using assms by (simp_all add: backend_law_def split_def Let_def)

lemma tracked_move:
  assumes "backend_law ops keys buttons" "tracked keys buttons s"
  shows "tracked keys buttons (fst (move_normalized ops s x y))"
proof (cases "normalized_to_pixels x y (ps_display_width s) (ps_display_height s)")
  case (Inr p)
  obtain px py where p: "p = (px, py)" by fastforce
  show ?thesis
    unfolding move_normalized_def Inr p split_def Let_def
    using tracked_backend [OF assms(2) backend_law_moves(1,2) [OF assms(1)]] by simp
qed (use assms in \<open>simp add: move_normalized_def\<close>)

lemma tracked_sbind:
  assumes "tracked keys buttons (fst m)" "\<And>s x. tracked keys buttons s \<Longrightarrow> tracked keys buttons (fst (k s x))"
  shows "tracked keys buttons (fst (sbind m k))"
  using assms by (rule fst_sbind_preserved)

lemma tracked_reconcile_loop:
  assumes "backend_law ops keys buttons"
  shows "tracked keys buttons s \<Longrightarrow> tracked keys buttons (fst (reconcile_loop ops m c b n s))"
proof (induction n arbitrary: b s)
  case (Suc n)
  show ?case
    unfolding reconcile_loop.simps Let_def
    using Suc.prems by (simp add: Suc.IH tracked_sbind tracked_set_key [OF assms])
qed simp

lemma tracked_button_loop:
  assumes "backend_law ops keys buttons"
  shows "tracked keys buttons s \<Longrightarrow> tracked keys buttons (fst (button_loop ops bits bs s))"
proof (induction bs arbitrary: s)
  case (Cons x bs)
  then show ?case by (cases x) (simp add: tracked_sbind tracked_set_button [OF assms])
qed simp

lemma tracked_click_loop:
  assumes "backend_law ops keys buttons"
  shows "tracked keys buttons s \<Longrightarrow> tracked keys buttons (fst (click_loop ops button n s))"
  by (induction n arbitrary: s) (simp_all add: tracked_sbind tracked_set_button [OF assms])

text \<open>Releasing a list: nothing outside what could not be released stays held.\<close>

lemma release_each_held:
  assumes "\<And>b u. let (b', r) = release b u in held b' \<subseteq> held b - (if is_ok r then {u} else {})"
  shows "held (fst (release_each release b xs)) \<subseteq> held b - (set xs - set (snd (release_each release b xs)))"
proof (induction xs arbitrary: b)
  case (Cons x xs)
  obtain b1 r where r: "release b x = (b1, r)" by fastforce
  have "held b1 \<subseteq> held b - (if is_ok r then {x} else {})" using assms [of b x] r by simp
  with Cons [of b1] show ?case using r by (auto simp: split_def Let_def split: if_splits)
qed simp

lemma release_each_other:
  assumes "\<And>b u. other (fst (release b u)) \<subseteq> other b"
  shows "other (fst (release_each release b xs)) \<subseteq> other b"
proof (induction xs arbitrary: b)
  case (Cons x xs)
  show ?case using Cons [of "fst (release b x)"] assms [of b x] by (simp add: split_def Let_def)
qed simp

lemma release_each_kept: "set (snd (release_each release b xs)) \<subseteq> set xs"
  by (induction xs arbitrary: b) (auto simp: split_def Let_def split: if_splits)

lemma tracked_release:
  assumes "backend_law ops keys buttons" "tracked keys buttons s"
  shows "tracked keys buttons (fst (sink_release_all ops s))"
proof -
  let ?rk = "\<lambda>b u. pb_keyboard ops b u NativeDirection_Release"
  let ?rb = "\<lambda>b u. pb_pointer_button ops b u NativeDirection_Release"
  obtain b1 ks where b1: "release_each ?rk (ps_backend s) (ps_pressed_keys s) = (b1, ks)" by fastforce
  obtain b2 bs where b2: "release_each ?rb b1 (ps_pressed_buttons s) = (b2, bs)" by fastforce
  have "keys b1 \<subseteq> keys (ps_backend s) - (set (ps_pressed_keys s) - set ks)"
    using release_each_held [of ?rk keys "ps_backend s" "ps_pressed_keys s"] assms(1) b1
    by (simp add: backend_law_def split_def Let_def)
  moreover have "buttons b1 \<subseteq> buttons (ps_backend s)"
    using release_each_other [of buttons ?rk "ps_backend s" "ps_pressed_keys s"] assms(1) b1
    by (simp add: backend_law_def split_def Let_def)
  moreover have "buttons b2 \<subseteq> buttons b1 - (set (ps_pressed_buttons s) - set bs)"
    using release_each_held [of ?rb buttons b1 "ps_pressed_buttons s"] assms(1) b2
    by (simp add: backend_law_def split_def Let_def)
  moreover have "keys b2 \<subseteq> keys b1"
    using release_each_other [of keys ?rb b1 "ps_pressed_buttons s"] assms(1) b2
    by (simp add: backend_law_def split_def Let_def)
  ultimately show ?thesis
    using assms(2) by (simp add: sink_release_all_def b1 b2 tracked_def) blast
qed

section \<open>The sink as a machine\<close>

datatype sink_op =
    SinkKeyboard keyboard_action u32 u32
  | SinkPointerButton pointer_button button_action i32 i32
  | SinkPointerMove i32 i32 u32
  | SinkPointerScroll i32 i32
  | SinkText string
  | SinkReleaseAll

fun sink_step ::
  "'b platform_input_backend \<Rightarrow> 'b platform_input_sink \<Rightarrow> sink_op \<Rightarrow> ('b platform_input_sink, unit) input_result" where
  "sink_step ops s (SinkKeyboard a u m) = sink_keyboard ops s a u m"
| "sink_step ops s (SinkPointerButton u a x y) = sink_pointer_button ops s u a x y"
| "sink_step ops s (SinkPointerMove x y m) = sink_pointer_move ops s x y m"
| "sink_step ops s (SinkPointerScroll x y) = sink_pointer_scroll ops s x y"
| "sink_step ops s (SinkText t) = sink_text ops s t"
| "sink_step ops s SinkReleaseAll = sink_release_all ops s"

lemma tracked_step:
  assumes law: "backend_law ops keys buttons" and s: "tracked keys buttons s"
  shows "tracked keys buttons (fst (sink_step ops s x))"
proof (cases x)
  case (SinkKeyboard a u m)
  then show ?thesis
    using s by (cases a) (simp_all add: sink_keyboard_def reconcile_modifiers_def tracked_sbind
        tracked_reconcile_loop [OF law] tracked_set_key [OF law])
next
  case (SinkPointerButton u a px py)
  then show ?thesis
    using s by (cases u; cases a) (simp_all add: sink_pointer_button_def click_button_def tracked_sbind tracked_move [OF law]
        tracked_set_button [OF law] tracked_click_loop [OF law])
next
  case (SinkPointerMove px py m)
  show ?thesis
    unfolding SinkPointerMove sink_step.simps sink_pointer_move_def reconcile_pointer_buttons_def
    by (rule tracked_sbind) (simp_all only: s tracked_button_loop [OF law] tracked_move [OF law])
next
  case (SinkPointerScroll px py)
  then show ?thesis
    using tracked_backend [OF s backend_law_moves(3,4) [OF law]] by (simp add: sink_pointer_scroll_def split_def Let_def)
next
  case (SinkText t)
  then show ?thesis
    using tracked_backend [OF s backend_law_moves(5,6) [OF law]] by (simp add: sink_text_def split_def Let_def)
next
  case SinkReleaseAll
  then show ?thesis by (simp add: tracked_release [OF law s])
qed

interpretation sink: machine "sink_step ops" "\<lambda>s. backend_law ops keys buttons \<longrightarrow> tracked keys buttons s"
  for ops keys buttons
  by unfold_locales (simp add: tracked_step)

lemma release_each_all:
  assumes "\<And>b u. is_ok (snd (release b u))"
  shows "snd (release_each release b xs) = []"
  using assms by (induction xs arbitrary: b) (simp_all add: split_def Let_def)

section \<open>Examples\<close>

text \<open>A machine that remembers what is held and refuses to release the keys on its stuck list.\<close>

record demo_desk =
  dd_keys :: "u32 set"
  dd_buttons :: "native_button set"
  dd_stuck :: "u32 set"

definition desk_backend :: "demo_desk platform_input_backend" where
  "desk_backend =
     \<lparr>pb_main_display_size = (\<lambda>b. (b, Inr (1920, 1080))),
      pb_keyboard = (\<lambda>b u d. if d = NativeDirection_Press then (b\<lparr>dd_keys := insert u (dd_keys b)\<rparr>, Inr ())
        else if u \<in> dd_stuck b then (b, Inl PlatformInputError_InjectionFailed)
        else (b\<lparr>dd_keys := dd_keys b - {u}\<rparr>, Inr ())),
      pb_pointer_button = (\<lambda>b u d. if d = NativeDirection_Press then (b\<lparr>dd_buttons := insert u (dd_buttons b)\<rparr>, Inr ())
        else (b\<lparr>dd_buttons := dd_buttons b - {u}\<rparr>, Inr ())),
      pb_pointer_move = (\<lambda>b _ _. (b, Inr ())), pb_pointer_scroll = (\<lambda>b _ _. (b, Inr ())),
      pb_text = (\<lambda>b _. (b, Inr ()))\<rparr>"

definition desk_sink :: "demo_desk platform_input_sink" where
  "desk_sink = \<lparr>ps_backend = \<lparr>dd_keys = {}, dd_buttons = {}, dd_stuck = {4}\<rparr>, ps_display_width = 1920,
     ps_display_height = 1080, ps_pressed_keys = [], ps_pressed_buttons = []\<rparr>"

lemma desk_law: "backend_law desk_backend dd_keys dd_buttons"
  by (auto simp: backend_law_def desk_backend_def Let_def)

lemma desk_new: "platform_sink_new desk_backend \<lparr>dd_keys = {}, dd_buttons = {}, dd_stuck = {4}\<rparr> = Inr desk_sink"
  by (simp add: platform_sink_new_def desk_backend_def desk_sink_def)

section \<open>Properties\<close>

text \<open>
  The Host never loses track of a key it holds down.  Start with nothing held, on a machine that obeys the law
  above; after any sequence of injections and releases, failed ones included, everything that is still held is on the sink's lists.
  So a release that succeeds leaves nothing held, and one that fails keeps on the lists whatever may
  still be down, and nothing else, for the next attempt; and when the machine accepts every release, it does
  succeed.
\<close>

theorem held_input_tracked:
  assumes "backend_law ops keys buttons" and "platform_sink_new ops b0 = Inr s0"
    and "keys (ps_backend s0) = {}" "buttons (ps_backend s0) = {}"
    and "s = fst (run_steps (sink_step ops) s0 xs)" and "sink_release_all ops s = (s', r)"
  shows "keys (ps_backend s) \<subseteq> set (ps_pressed_keys s) \<and> buttons (ps_backend s) \<subseteq> set (ps_pressed_buttons s)
    \<and> keys (ps_backend s') \<subseteq> set (ps_pressed_keys s') \<and> buttons (ps_backend s') \<subseteq> set (ps_pressed_buttons s')
    \<and> set (ps_pressed_keys s') \<subseteq> set (ps_pressed_keys s) \<and> set (ps_pressed_buttons s') \<subseteq> set (ps_pressed_buttons s)
    \<and> (r = Inr () \<longrightarrow> keys (ps_backend s') = {} \<and> buttons (ps_backend s') = {})
    \<and> (r \<noteq> Inr () \<longrightarrow> r = Inl HostWebRtcError_InputFailure \<and> \<not> sink_idle s')
    \<and> ((\<forall>b u. is_ok (snd (pb_keyboard ops b u NativeDirection_Release)))
        \<and> (\<forall>b u. is_ok (snd (pb_pointer_button ops b u NativeDirection_Release))) \<longrightarrow> r = Inr ())"
proof -
  have "tracked keys buttons s0" using assms(3,4) by (simp add: tracked_def)
  then have s: "tracked keys buttons s"
    using sink.run_inv [of ops keys buttons s0 xs] assms(1,5) by simp
  have s': "tracked keys buttons s'" using tracked_release [OF assms(1) s] assms(6) by simp
  have kept: "set (ps_pressed_keys s') \<subseteq> set (ps_pressed_keys s) \<and> set (ps_pressed_buttons s') \<subseteq> set (ps_pressed_buttons s)"
    using assms(6) by (auto simp: sink_release_all_def split_def Let_def dest: release_each_kept [THEN subsetD])
  have r: "r = (if sink_idle s' then Inr () else Inl HostWebRtcError_InputFailure)"
    using assms(6) by (auto simp: sink_release_all_def sink_idle_def split_def Let_def)
  have live: "r = Inr ()" if "\<forall>b u. is_ok (snd (pb_keyboard ops b u NativeDirection_Release))"
    "\<forall>b u. is_ok (snd (pb_pointer_button ops b u NativeDirection_Release))"
    using assms(6) that by (auto simp: sink_release_all_def split_def Let_def release_each_all)
  show ?thesis
    using s s' kept r live by (auto simp: tracked_def sink_idle_def split: if_splits)
qed

theorem held_input_tracked_witness:
  "4 \<in> dd_keys (ps_backend (fst (run_steps (sink_step desk_backend) desk_sink [SinkKeyboard KeyboardAction_Down 4 0])))
   \<and> (let (s, r) = sink_release_all desk_backend (fst (run_steps (sink_step desk_backend) desk_sink
          [SinkKeyboard KeyboardAction_Down 4 0]))
      in dd_keys (ps_backend s) \<subseteq> set (ps_pressed_keys s) \<and> set (ps_pressed_keys s) \<subseteq> {4})"
proof -
  define s where "s = fst (run_steps (sink_step desk_backend) desk_sink [SinkKeyboard KeyboardAction_Down 4 0])"
  have s: "s = desk_sink\<lparr>ps_backend := \<lparr>dd_keys = {4}, dd_buttons = {}, dd_stuck = {4}\<rparr>, ps_pressed_keys := [4]\<rparr>"
    by (simp add: s_def sink_keyboard_def reconcile_modifiers_def MODIFIER_COUNT_def numeral_nat Let_def desk_sink_def
        set_key_def desk_backend_def btset_insert_def FIRST_MODIFIER_USAGE_def)
  obtain s' r where r: "sink_release_all desk_backend s = (s', r)" by fastforce
  have z: "dd_keys (ps_backend desk_sink) = {}" "dd_buttons (ps_backend desk_sink) = {}" by (simp_all add: desk_sink_def)
  show ?thesis
    unfolding s_def [symmetric] using held_input_tracked [OF desk_law desk_new z s_def r] r by (simp add: s)
qed

text \<open>
  The pointer lands on the display.  Coordinates from 0 to 10000 are accepted and no others; the pixel is
  within the main display, the nearest one to the exact position, monotone in the coordinate, with the corners
  on the corners; and the product fits the 64 bits it is computed in, so the narrowing never fails.
\<close>

theorem pointer_on_display:
  assumes "0 < w" "w < 2 ^ 31" "0 < h" "h < 2 ^ 31"
  shows "case normalized_to_pixels x y w h of
      Inl e \<Rightarrow> e = HostWebRtcError_InvalidCoordinates \<and> \<not> (0 \<le> x \<and> x \<le> 10000 \<and> 0 \<le> y \<and> y \<le> 10000)
    | Inr (px, py) \<Rightarrow> 0 \<le> x \<and> x \<le> 10000 \<and> 0 \<le> y \<and> y \<le> 10000
        \<and> 0 \<le> px \<and> px < w \<and> 0 \<le> py \<and> py < h
        \<and> \<bar>10000 * px - x * (w - 1)\<bar> \<le> 5000 \<and> \<bar>10000 * py - y * (h - 1)\<bar> \<le> 5000
        \<and> (x = 0 \<longrightarrow> px = 0) \<and> (x = 10000 \<longrightarrow> px = w - 1) \<and> (y = 0 \<longrightarrow> py = 0) \<and> (y = 10000 \<longrightarrow> py = h - 1)
        \<and> x * (w - 1) + 5000 < 2 ^ 63 \<and> y * (h - 1) + 5000 < 2 ^ 63
        \<and> (\<forall>x' px' py'. x \<le> x' \<and> normalized_to_pixels x' y w h = Inr (px', py') \<longrightarrow> px \<le> px')"
proof -
  have one: "0 \<le> (v * (n - 1) + 5000) div 10000 \<and> (v * (n - 1) + 5000) div 10000 < n
      \<and> \<bar>10000 * ((v * (n - 1) + 5000) div 10000) - v * (n - 1)\<bar> \<le> 5000
      \<and> (v = 0 \<longrightarrow> (v * (n - 1) + 5000) div 10000 = 0) \<and> (v = 10000 \<longrightarrow> (v * (n - 1) + 5000) div 10000 = n - 1)
      \<and> v * (n - 1) + 5000 < 2 ^ 63"
    if v: "0 \<le> v" "v \<le> 10000" and n: "0 < n" "n < 2 ^ 31" for v n :: int
  proof -
    have le: "v * (n - 1) \<le> 10000 * (n - 1)" using v n by (intro mult_right_mono) simp_all
    have ge: "0 \<le> v * (n - 1)" using v n by simp
    have "v = 10000 \<Longrightarrow> (v * (n - 1) + 5000) div 10000 = n - 1" by simp
    then show ?thesis using le ge n by auto
  qed
  have mono: "(x * (w - 1) + 5000) div 10000 \<le> (x' * (w - 1) + 5000) div 10000" if "x \<le> x'" for x'
    using that assms(1) by (intro zdiv_mono1) (simp_all add: mult_right_mono)
  have val: "normalized_to_pixels v y w h = Inr ((v * (w - 1) + 5000) div 10000, (y * (h - 1) + 5000) div 10000)"
    if "0 \<le> v" "v \<le> 10000" "0 \<le> y" "y \<le> 10000" for v
    using one [OF that(1,2) assms(1,2)] one [OF that(3,4) assms(3,4)] that assms
    by (auto simp: normalized_to_pixels_def i32_try_from_def NORMALIZED_POINTER_MAX_def Let_def)
  show ?thesis
  proof (cases "0 \<le> x \<and> x \<le> 10000 \<and> 0 \<le> y \<and> y \<le> 10000")
    case True
    have "\<forall>x' px' py'. x \<le> x' \<and> normalized_to_pixels x' y w h = Inr (px', py') \<longrightarrow> (x * (w - 1) + 5000) div 10000 \<le> px'"
    proof (intro allI impI)
      fix x' px' py'
      assume a: "x \<le> x' \<and> normalized_to_pixels x' y w h = Inr (px', py')"
      then have "0 \<le> x'" "x' \<le> 10000" using True by (auto simp: normalized_to_pixels_def NORMALIZED_POINTER_MAX_def split: if_splits)
      then show "(x * (w - 1) + 5000) div 10000 \<le> px'" using a val [of x'] True mono [of x'] by simp
    qed
    then show ?thesis using True one [of x w] one [of y h] assms by (simp add: val)
  next
    case False
    then show ?thesis by (auto simp: normalized_to_pixels_def NORMALIZED_POINTER_MAX_def)
  qed
qed

theorem pointer_on_display_witness:
  "normalized_to_pixels 10000 5000 1920 1080 = Inr (1919, 540) \<and> (540::int) < 1080"
  using pointer_on_display [of 1920 1080 10000 5000]
  by (simp add: normalized_to_pixels_def i32_try_from_def NORMALIZED_POINTER_MAX_def)

end
