(* ===== verification/Peer_Session.thy ===== *)
theory Peer_Session
  imports Input_Sink
begin

text \<open>
  One inbound WebRTC session on the Host, \<^verbatim>\<open>crates/host-webrtc/src/session.rs\<close> with its configuration (\<^verbatim>\<open>config.rs\<close>)
  and the peer trait (\<^verbatim>\<open>peer.rs\<close>): negotiation, ICE restart, validated input and a close that releases everything
  it may have pressed.  The native peer connection is a parameter, the record \<open>peer_backend_ops\<close>, and so is the input sink; what
  a session needs of a sink is the locale \<open>remote_input_sink\<close>, and what it never breaks for a sink is the locale \<open>sink_invariant\<close>.
  Both are interpreted on the platform sink.
\<close>

section \<open>Configuration\<close>

definition DATA_CHANNEL_INPUT_RELIABLE :: string where "DATA_CHANNEL_INPUT_RELIABLE = ''input.reliable''"

definition DATA_CHANNEL_POINTER_FAST :: string where "DATA_CHANNEL_POINTER_FAST = ''pointer.fast''"

datatype video_codec = VideoCodec_H264 | VideoCodec_Vp8

datatype ice_transport_policy = IceTransportPolicy_All | IceTransportPolicy_Relay

datatype data_channel_reliability =
    DataChannelReliability_OrderedReliable | DataChannelReliability_UnorderedNoRetransmits

record data_channel_config =
  dcc_label :: string
  dcc_reliability :: data_channel_reliability

definition CODEC_PREFERENCES :: "video_codec list" where
  "CODEC_PREFERENCES = [VideoCodec_H264, VideoCodec_Vp8]"

definition DATA_CHANNELS :: "data_channel_config list" where
  "DATA_CHANNELS =
     [\<lparr>dcc_label = DATA_CHANNEL_INPUT_RELIABLE, dcc_reliability = DataChannelReliability_OrderedReliable\<rparr>,
      \<lparr>dcc_label = DATA_CHANNEL_POINTER_FAST, dcc_reliability = DataChannelReliability_UnorderedNoRetransmits\<rparr>]"

record session_config =
  sc_ice_transport_policy :: ice_transport_policy

section \<open>The peer\<close>

record peer_ice_candidate =
  pic2_candidate :: string
  pic2_sdp_mid :: string
  pic2_sdp_m_line_index :: u32

record peer_answer =
  pa_sdp :: string
  pa_dtls_fingerprint_sha256 :: bytes

record 'p peer_backend_ops =
  pbo_start :: "'p \<Rightarrow> session_config \<Rightarrow> string \<Rightarrow> 'p \<times> (host_webrtc_error + peer_answer)"
  pbo_restart :: "'p \<Rightarrow> session_config \<Rightarrow> string \<Rightarrow> 'p \<times> (host_webrtc_error + peer_answer)"
  pbo_add_remote_ice_candidate :: "'p \<Rightarrow> peer_ice_candidate \<Rightarrow> 'p \<times> (host_webrtc_error + unit)"
  pbo_close :: "'p \<Rightarrow> 'p \<times> (host_webrtc_error + unit)"

text \<open>The bodies the trait provides for renegotiation and candidates.\<close>

definition default_peer_backend ::
  "('p \<Rightarrow> session_config \<Rightarrow> string \<Rightarrow> 'p \<times> (host_webrtc_error + peer_answer))
    \<Rightarrow> ('p \<Rightarrow> 'p \<times> (host_webrtc_error + unit)) \<Rightarrow> 'p peer_backend_ops" where
  "default_peer_backend start close_peer =
     \<lparr>pbo_start = start, pbo_restart = (\<lambda>p _ _. (p, Inl HostWebRtcError_InvalidState)),
      pbo_add_remote_ice_candidate = (\<lambda>p _. (p, Inl HostWebRtcError_PeerFailure)), pbo_close = close_peer\<rparr>"

section \<open>The session\<close>

definition MINIMUM_USB_HID_KEYBOARD_USAGE :: u32 where [limits]: "MINIMUM_USB_HID_KEYBOARD_USAGE = 0x04"
definition MAXIMUM_USB_HID_KEYBOARD_USAGE :: u32 where [limits]: "MAXIMUM_USB_HID_KEYBOARD_USAGE = 0xe7"
definition MAXIMUM_MODIFIER_BITS :: u32 where [limits]: "MAXIMUM_MODIFIER_BITS = 0xff"
definition MAXIMUM_POINTER_BUTTON_BITS :: u32 where [limits]: "MAXIMUM_POINTER_BUTTON_BITS = 0x07"
definition MAXIMUM_SCROLL_DELTA :: i32 where [limits]: "MAXIMUM_SCROLL_DELTA = 10000"
definition MAXIMUM_TEXT_INPUT_BYTES :: nat where [limits]: "MAXIMUM_TEXT_INPUT_BYTES = 1024"
definition MAXIMUM_SDP_BYTES :: nat where [limits]: "MAXIMUM_SDP_BYTES = 131072"

datatype host_session_state =
    HostSessionState_New
  | HostSessionState_Negotiating
  | HostSessionState_Connected
  | HostSessionState_Reconnecting
  | HostSessionState_Closing
  | HostSessionState_Closed

datatype input_disposition = InputDisposition_Applied

datatype pointer_disposition = PointerDisposition_Applied | PointerDisposition_DroppedStale

record ('p, 'i) host_peer_session =
  hps_session_id :: bytes
  hps_input_allowed :: bool
  hps_config :: session_config
  hps_peer :: 'p
  hps_input :: 'i
  hps_state :: host_session_state
  hps_last_reliable_sequence :: u64
  hps_last_pointer_sequence :: u64
  hps_pressed_keys :: "u32 set"
  hps_pressed_buttons :: "i32 set"
  hps_input_cleanup_pending :: bool

record ('p, 'i) session_ops =
  so_peer :: "'p peer_backend_ops"
  so_input :: "'i remote_input_ops"
  so_decode_reliable :: "bytes \<Rightarrow> reliable_input_envelope option"
  so_decode_pointer :: "bytes \<Rightarrow> pointer_fast_envelope option"

type_synonym ('p, 'i, 'a) session_result = "('p, 'i) host_peer_session \<times> (host_webrtc_error + 'a)"

definition validate_session_permissions :: "session_permission list \<Rightarrow> host_webrtc_error + unit" where
  "validate_session_permissions permissions =
     (if permissions = [] \<or> SessionPermission_ViewScreen \<notin> set permissions
         \<or> SessionPermission_Unspecified \<in> set permissions
      then Inl HostWebRtcError_InvalidPermissions
      else if card (set permissions) \<noteq> length permissions then Inl HostWebRtcError_InvalidPermissions
      else Inr ())"

definition validate_coordinates :: "i32 \<Rightarrow> i32 \<Rightarrow> host_webrtc_error + unit" where
  "validate_coordinates x y =
     (if x < 0 \<or> NORMALIZED_POINTER_MAX < x \<or> y < 0 \<or> NORMALIZED_POINTER_MAX < y
      then Inl HostWebRtcError_InvalidCoordinates else Inr ())"

definition validate_keyboard :: "u32 \<Rightarrow> u32 \<Rightarrow> host_webrtc_error + unit" where
  "validate_keyboard usage modifier_bits =
     (if usage < MINIMUM_USB_HID_KEYBOARD_USAGE \<or> MAXIMUM_USB_HID_KEYBOARD_USAGE < usage
      then Inl HostWebRtcError_InvalidKeyboardUsage
      else if MAXIMUM_MODIFIER_BITS < modifier_bits then Inl HostWebRtcError_InvalidModifierBits
      else Inr ())"

definition host_peer_session_new ::
  "bytes \<Rightarrow> session_permission list \<Rightarrow> session_config \<Rightarrow> 'p \<Rightarrow> 'i \<Rightarrow> host_webrtc_error + ('p, 'i) host_peer_session" where
  "host_peer_session_new session_id permissions config peer input =
     (if length session_id \<noteq> SESSION_ID_BYTES then Inl HostWebRtcError_InvalidSession
      else bind_res (validate_session_permissions permissions) (\<lambda>_.
        Inr \<lparr>hps_session_id = session_id,
             hps_input_allowed = (SessionPermission_ControlInput \<in> set permissions),
             hps_config = config, hps_peer = peer, hps_input = input, hps_state = HostSessionState_New,
             hps_last_reliable_sequence = 0, hps_last_pointer_sequence = 0, hps_pressed_keys = {},
             hps_pressed_buttons = {}, hps_input_cleanup_pending = False\<rparr>))"

definition session_release_all :: "('p, 'i) session_ops \<Rightarrow> ('p, 'i) host_peer_session \<Rightarrow> ('p, 'i, unit) session_result" where
  "session_release_all ops s =
     (let (input, r) = ri_release_all (so_input ops) (hps_input s)
      in (s\<lparr>hps_input := input, hps_input_cleanup_pending := \<not> is_ok r, hps_pressed_keys := {},
           hps_pressed_buttons := {}\<rparr>, r))"

definition session_close :: "('p, 'i) session_ops \<Rightarrow> ('p, 'i) host_peer_session \<Rightarrow> ('p, 'i, unit) session_result" where
  "session_close ops s =
     (if hps_state s = HostSessionState_Closed
      then if hps_input_cleanup_pending s then session_release_all ops s else (s, Inr ())
      else
        let (s1, input_result) = session_release_all ops (s\<lparr>hps_state := HostSessionState_Closing\<rparr>);
            (peer, peer_result) = pbo_close (so_peer ops) (hps_peer s1)
        in (s1\<lparr>hps_peer := peer, hps_state := HostSessionState_Closed\<rparr>, and_res input_result peer_result))"

definition sdp_ok :: "string \<Rightarrow> bool" where
  "sdp_ok sdp \<longleftrightarrow> sdp \<noteq> [] \<and> length sdp \<le> MAXIMUM_SDP_BYTES"

definition answer_ok :: "peer_answer \<Rightarrow> bool" where
  "answer_ok answer \<longleftrightarrow> pa_sdp answer \<noteq> [] \<and> length (pa_sdp answer) \<le> MAXIMUM_SDP_BYTES
     \<and> length (pa_dtls_fingerprint_sha256 answer) = NONCE_OR_HASH_BYTES"

definition accept_offer ::
  "('p, 'i) session_ops \<Rightarrow> ('p, 'i) host_peer_session \<Rightarrow> string \<Rightarrow> ('p, 'i, peer_answer) session_result" where
  "accept_offer ops s offer_sdp =
     (if hps_state s \<noteq> HostSessionState_New then (s, Inl HostWebRtcError_InvalidState)
      else if \<not> sdp_ok offer_sdp then (s, Inl HostWebRtcError_InvalidSdp)
      else
        let (peer, r) = pbo_start (so_peer ops) (hps_peer s) (hps_config s) offer_sdp;
            s1 = s\<lparr>hps_peer := peer\<rparr>
        in case r of
             Inl e \<Rightarrow> (fst (session_close ops s1), Inl e)
           | Inr answer \<Rightarrow>
               if \<not> answer_ok answer then (fst (session_close ops s1), Inl HostWebRtcError_InvalidAnswer)
               else (s1\<lparr>hps_state := HostSessionState_Negotiating\<rparr>, Inr answer))"

definition mark_connected :: "('p, 'i) host_peer_session \<Rightarrow> ('p, 'i, unit) session_result" where
  "mark_connected s =
     (if hps_state s \<notin> {HostSessionState_Negotiating, HostSessionState_Connected, HostSessionState_Reconnecting}
      then (s, Inl HostWebRtcError_InvalidState)
      else (s\<lparr>hps_state := HostSessionState_Connected\<rparr>, Inr ()))"

definition begin_reconnect :: "('p, 'i) session_ops \<Rightarrow> ('p, 'i) host_peer_session \<Rightarrow> ('p, 'i, unit) session_result" where
  "begin_reconnect ops s =
     (if hps_state s = HostSessionState_Reconnecting then (s, Inr ())
      else if hps_state s \<notin> {HostSessionState_Connected, HostSessionState_Negotiating}
      then (s, Inl HostWebRtcError_InvalidState)
      else sbind (session_release_all ops s) (\<lambda>s1 _. (s1\<lparr>hps_state := HostSessionState_Reconnecting\<rparr>, Inr ())))"

definition accept_reconnect_offer ::
  "('p, 'i) session_ops \<Rightarrow> ('p, 'i) host_peer_session \<Rightarrow> string \<Rightarrow> ('p, 'i, peer_answer) session_result" where
  "accept_reconnect_offer ops s offer_sdp =
     (if hps_state s \<notin> {HostSessionState_Reconnecting, HostSessionState_Negotiating}
      then (s, Inl HostWebRtcError_InvalidState)
      else if \<not> sdp_ok offer_sdp then (s, Inl HostWebRtcError_InvalidSdp)
      else
        let (peer, r) = pbo_restart (so_peer ops) (hps_peer s) (hps_config s) offer_sdp;
            s1 = s\<lparr>hps_state := HostSessionState_Reconnecting, hps_peer := peer\<rparr>
        in case r of
             Inl e \<Rightarrow> (s1, Inl e)
           | Inr answer \<Rightarrow>
               if \<not> answer_ok answer then (s1, Inl HostWebRtcError_InvalidAnswer)
               else (s1\<lparr>hps_state := HostSessionState_Negotiating\<rparr>, Inr answer))"

definition add_remote_ice_candidate ::
  "('p, 'i) session_ops \<Rightarrow> ('p, 'i) host_peer_session \<Rightarrow> peer_ice_candidate \<Rightarrow> ('p, 'i, unit) session_result" where
  "add_remote_ice_candidate ops s candidate =
     (if hps_state s \<notin> {HostSessionState_Negotiating, HostSessionState_Connected}
      then (s, Inl HostWebRtcError_InvalidState)
      else let (peer, r) = pbo_add_remote_ice_candidate (so_peer ops) (hps_peer s) candidate
           in (s\<lparr>hps_peer := peer\<rparr>, r))"

definition require_input_ready :: "('p, 'i) host_peer_session \<Rightarrow> host_webrtc_error + unit" where
  "require_input_ready s =
     (if hps_state s \<noteq> HostSessionState_Connected then Inl HostWebRtcError_InvalidState
      else if \<not> hps_input_allowed s then Inl HostWebRtcError_InputPermissionDenied
      else Inr ())"

text \<open>Calling the sink: its new state is kept whether it fails or not.\<close>

definition inject ::
  "('p, 'i) host_peer_session \<Rightarrow> ('i, unit) input_result \<Rightarrow> ('p, 'i, bool) session_result" where
  "inject s out = (s\<lparr>hps_input := fst out\<rparr>, bind_res (snd out) (\<lambda>_. Inr False))"

definition apply_keyboard ::
  "('p, 'i) session_ops \<Rightarrow> ('p, 'i) host_peer_session \<Rightarrow> keyboard_event \<Rightarrow> ('p, 'i, bool) session_result" where
  "apply_keyboard ops s event =
     (case bind_res (ok_or HostWebRtcError_InvalidInputEnvelope (keyboard_action_of (ke_action event))) (\<lambda>action.
             bind_res (validate_keyboard (ke_usb_hid_usage event) (ke_modifier_bits event)) (\<lambda>_. Inr action)) of
        Inl e \<Rightarrow> (s, Inl e)
      | Inr action \<Rightarrow>
          let usage = ke_usb_hid_usage event;
              call = (\<lambda>s. ri_keyboard (so_input ops) (hps_input s) action usage (ke_modifier_bits event))
          in case action of
               KeyboardAction_Down \<Rightarrow>
                 if usage \<in> hps_pressed_keys s then (s, Inl HostWebRtcError_PressedInputState)
                 else let s1 = s\<lparr>hps_pressed_keys := insert usage (hps_pressed_keys s)\<rparr> in inject s1 (call s1)
             | KeyboardAction_Up \<Rightarrow>
                 if usage \<in> hps_pressed_keys s
                 then let s1 = s\<lparr>hps_pressed_keys := hps_pressed_keys s - {usage}\<rparr> in inject s1 (call s1)
                 else (s, Inr False)
             | KeyboardAction_Unspecified \<Rightarrow> (s, Inl HostWebRtcError_InvalidInputEnvelope))"

definition apply_pointer_button ::
  "('p, 'i) session_ops \<Rightarrow> ('p, 'i) host_peer_session \<Rightarrow> pointer_button_event \<Rightarrow> ('p, 'i, bool) session_result" where
  "apply_pointer_button ops s event =
     (case bind_res (validate_coordinates (pbe_x event) (pbe_y event)) (\<lambda>_.
             bind_res (ok_or HostWebRtcError_InvalidInputEnvelope (pointer_button_of (pbe_button event))) (\<lambda>button.
             bind_res (ok_or HostWebRtcError_InvalidInputEnvelope (button_action_of (pbe_action event))) (\<lambda>action.
             Inr (button, action)))) of
        Inl e \<Rightarrow> (s, Inl e)
      | Inr (button, action) \<Rightarrow>
          let call = (\<lambda>s. ri_pointer_button (so_input ops) (hps_input s) button action (pbe_x event) (pbe_y event))
          in case action of
               ButtonAction_Down \<Rightarrow>
                 if pbe_button event \<in> hps_pressed_buttons s then (s, Inl HostWebRtcError_PressedInputState)
                 else let s1 = s\<lparr>hps_pressed_buttons := insert (pbe_button event) (hps_pressed_buttons s)\<rparr>
                      in inject s1 (call s1)
             | ButtonAction_Up \<Rightarrow>
                 if pbe_button event \<in> hps_pressed_buttons s
                 then let s1 = s\<lparr>hps_pressed_buttons := hps_pressed_buttons s - {pbe_button event}\<rparr>
                      in inject s1 (call s1)
                 else (s, Inr False)
             | ButtonAction_Click \<Rightarrow> inject s (call s)
             | ButtonAction_DoubleClick \<Rightarrow> inject s (call s)
             | ButtonAction_Unspecified \<Rightarrow> (s, Inl HostWebRtcError_InvalidInputEnvelope))"

definition apply_reliable_event ::
  "('p, 'i) session_ops \<Rightarrow> ('p, 'i) host_peer_session \<Rightarrow> reliable_input_envelope_event \<Rightarrow> ('p, 'i, bool) session_result" where
  "apply_reliable_event ops s event =
     (case event of
        ReliableInputEnvelope_Keyboard event \<Rightarrow> apply_keyboard ops s event
      | ReliableInputEnvelope_PointerButton event \<Rightarrow> apply_pointer_button ops s event
      | ReliableInputEnvelope_Text event \<Rightarrow>
          if tie_text event = [] \<or> length (tie_text event) > MAXIMUM_TEXT_INPUT_BYTES
          then (s, Inl HostWebRtcError_InvalidInputEnvelope)
          else inject s (ri_text (so_input ops) (hps_input s) (tie_text event))
      | ReliableInputEnvelope_ReleaseAllInput _ \<Rightarrow>
          sbind (session_release_all ops s) (\<lambda>s1 _. (s1, Inr False))
      | ReliableInputEnvelope_SessionControl event \<Rightarrow>
          (s, bind_res (ok_or HostWebRtcError_InvalidInputEnvelope (session_control_action_of (sce_action event)))
             (\<lambda>action. case action of
                SessionControlAction_Close \<Rightarrow> Inr True
              | SessionControlAction_EmergencyStop \<Rightarrow> Inr True
              | SessionControlAction_Unspecified \<Rightarrow> Inl HostWebRtcError_InvalidInputEnvelope)))"

text \<open>The checks of \<^verbatim>\<open>handle_reliable\<close> before anything is applied.\<close>

definition reliable_envelope ::
  "('p, 'i) session_ops \<Rightarrow> ('p, 'i) host_peer_session \<Rightarrow> bytes
    \<Rightarrow> host_webrtc_error + reliable_input_envelope \<times> reliable_input_envelope_event" where
  "reliable_envelope ops s encoded =
     bind_res (require_input_ready s) (\<lambda>_.
     bind_res (map_err (\<lambda>_. HostWebRtcError_InvalidInputEnvelope)
       (decode_and_validate_reliable_input_envelope (so_decode_reliable ops) encoded)) (\<lambda>envelope.
     if rie_session_id envelope \<noteq> hps_session_id s then Inl HostWebRtcError_SessionMismatch
     else if rie_sequence envelope \<noteq> saturating_add (hps_last_reliable_sequence s) 1
     then Inl HostWebRtcError_ReliableSequence
     else bind_res (ok_or HostWebRtcError_InvalidInputEnvelope (rie_event envelope)) (\<lambda>event. Inr (envelope, event))))"

definition handle_reliable ::
  "('p, 'i) session_ops \<Rightarrow> ('p, 'i) host_peer_session \<Rightarrow> bytes \<Rightarrow> ('p, 'i, input_disposition) session_result" where
  "handle_reliable ops s encoded =
     (case reliable_envelope ops s encoded of
        Inl e \<Rightarrow> (s, Inl e)
      | Inr (envelope, event) \<Rightarrow>
          (case apply_reliable_event ops s event of
             (s1, Inl HostWebRtcError_InputFailure) \<Rightarrow> (fst (session_close ops s1), Inl HostWebRtcError_InputFailure)
           | (s1, Inl e) \<Rightarrow> (s1, Inl e)
           | (s1, Inr should_close) \<Rightarrow>
               let s2 = s1\<lparr>hps_last_reliable_sequence := rie_sequence envelope\<rparr>
               in sbind (if should_close then session_close ops s2 else (s2, Inr ()))
                    (\<lambda>s3 _. (s3, Inr InputDisposition_Applied))))"

definition pointer_envelope ::
  "('p, 'i) session_ops \<Rightarrow> ('p, 'i) host_peer_session \<Rightarrow> bytes \<Rightarrow> host_webrtc_error + pointer_fast_envelope" where
  "pointer_envelope ops s encoded =
     bind_res (require_input_ready s) (\<lambda>_.
     bind_res (map_err (\<lambda>_. HostWebRtcError_InvalidInputEnvelope)
       (decode_and_validate_pointer_fast_envelope (so_decode_pointer ops) encoded)) (\<lambda>envelope.
     if pfe_session_id envelope \<noteq> hps_session_id s then Inl HostWebRtcError_SessionMismatch else Inr envelope))"

definition apply_pointer_event ::
  "('p, 'i) session_ops \<Rightarrow> ('p, 'i) host_peer_session \<Rightarrow> pointer_fast_envelope_event
    \<Rightarrow> host_webrtc_error + ('i, unit) input_result" where
  "apply_pointer_event ops s event =
     (case event of
        PointerFastEnvelope_Move event \<Rightarrow>
          bind_res (validate_coordinates (pme_x event) (pme_y event)) (\<lambda>_.
          if MAXIMUM_POINTER_BUTTON_BITS < pme_pressed_button_bits event then Inl HostWebRtcError_InvalidPointerButtons
          else Inr (ri_pointer_move (so_input ops) (hps_input s) (pme_x event) (pme_y event)
            (pme_pressed_button_bits event)))
      | PointerFastEnvelope_Scroll event \<Rightarrow>
          if MAXIMUM_SCROLL_DELTA < \<bar>pse_delta_x event\<bar> \<or> MAXIMUM_SCROLL_DELTA < \<bar>pse_delta_y event\<bar>
          then Inl HostWebRtcError_InvalidScrollDelta
          else Inr (ri_pointer_scroll (so_input ops) (hps_input s) (pse_delta_x event) (pse_delta_y event)))"

definition handle_pointer_fast ::
  "('p, 'i) session_ops \<Rightarrow> ('p, 'i) host_peer_session \<Rightarrow> bytes \<Rightarrow> ('p, 'i, pointer_disposition) session_result" where
  "handle_pointer_fast ops s encoded =
     (case pointer_envelope ops s encoded of
        Inl e \<Rightarrow> (s, Inl e)
      | Inr envelope \<Rightarrow>
          if pfe_sequence envelope \<le> hps_last_pointer_sequence s then (s, Inr PointerDisposition_DroppedStale)
          else case bind_res (ok_or HostWebRtcError_InvalidInputEnvelope (pfe_event envelope))
                      (apply_pointer_event ops s) of
            Inl e \<Rightarrow> (s, Inl e)
          | Inr (input, r) \<Rightarrow>
              let s1 = s\<lparr>hps_input := input\<rparr>
              in case r of
                   Inl e \<Rightarrow> (if e = HostWebRtcError_InputFailure then fst (session_close ops s1) else s1, Inl e)
                 | Inr _ \<Rightarrow> (s1\<lparr>hps_last_pointer_sequence := pfe_sequence envelope\<rparr>, Inr PointerDisposition_Applied))"

definition session_drop :: "('p, 'i) session_ops \<Rightarrow> ('p, 'i) host_peer_session \<Rightarrow> ('p, 'i) host_peer_session" where
  "session_drop ops s = fst (session_close ops s)"

section \<open>The gate\<close>

record session_lease =
  sl_session_id :: bytes
  sl_generation :: u64

record session_gate =
  sgt_active :: "session_lease option"
  sgt_generation :: u64

definition session_gate_new :: session_gate where
  "session_gate_new = \<lparr>sgt_active = None, sgt_generation = 0\<rparr>"

definition gate_acquire :: "session_gate \<Rightarrow> bytes \<Rightarrow> session_gate \<times> (host_webrtc_error + session_lease)" where
  "gate_acquire g session_id =
     (if length session_id \<noteq> SESSION_ID_BYTES then (g, Inl HostWebRtcError_InvalidSession)
      else if sgt_active g \<noteq> None then (g, Inl HostWebRtcError_DeviceBusy)
      else
        let generation = saturating_add (sgt_generation g) 1;
            lease = \<lparr>sl_session_id = session_id, sl_generation = generation\<rparr>
        in (g\<lparr>sgt_generation := generation, sgt_active := Some lease\<rparr>, Inr lease))"

definition gate_release :: "session_gate \<Rightarrow> session_lease \<Rightarrow> session_gate \<times> (host_webrtc_error + unit)" where
  "gate_release g lease =
     (if sgt_active g \<noteq> Some lease then (g, Inl HostWebRtcError_InvalidLease)
      else (g\<lparr>sgt_active := None\<rparr>, Inr ()))"

section \<open>The session as a machine\<close>

datatype peer_op =
    AcceptOffer string
  | MarkConnected
  | BeginReconnect
  | AcceptReconnectOffer string
  | AddRemoteIceCandidate peer_ice_candidate
  | Reliable bytes
  | PointerFast bytes
  | ClosePeer

datatype peer_out =
    AnswerOut "host_webrtc_error + peer_answer"
  | UnitOut "host_webrtc_error + unit"
  | ReliableOut "host_webrtc_error + input_disposition"
  | PointerOut "host_webrtc_error + pointer_disposition"

fun peer_step :: "('p, 'i) session_ops \<Rightarrow> ('p, 'i) host_peer_session \<Rightarrow> peer_op \<Rightarrow> ('p, 'i) host_peer_session \<times> peer_out" where
  "peer_step ops s (AcceptOffer sdp) = map_prod id AnswerOut (accept_offer ops s sdp)"
| "peer_step ops s MarkConnected = map_prod id UnitOut (mark_connected s)"
| "peer_step ops s BeginReconnect = map_prod id UnitOut (begin_reconnect ops s)"
| "peer_step ops s (AcceptReconnectOffer sdp) = map_prod id AnswerOut (accept_reconnect_offer ops s sdp)"
| "peer_step ops s (AddRemoteIceCandidate c) = map_prod id UnitOut (add_remote_ice_candidate ops s c)"
| "peer_step ops s (Reliable bs) = map_prod id ReliableOut (handle_reliable ops s bs)"
| "peer_step ops s (PointerFast bs) = map_prod id PointerOut (handle_pointer_fast ops s bs)"
| "peer_step ops s ClosePeer = map_prod id UnitOut (session_close ops s)"

subsection \<open>What a session keeps true of its sink\<close>

locale sink_invariant =
  fixes ops :: "'i remote_input_ops"
    and P :: "'i \<Rightarrow> bool"
  assumes keyboard_inv: "P i \<Longrightarrow> P (fst (ri_keyboard ops i ka u m))"
    and pointer_button_inv: "P i \<Longrightarrow> P (fst (ri_pointer_button ops i b ba x y))"
    and pointer_move_inv: "P i \<Longrightarrow> P (fst (ri_pointer_move ops i x y m))"
    and pointer_scroll_inv: "P i \<Longrightarrow> P (fst (ri_pointer_scroll ops i x y))"
    and text_inv: "P i \<Longrightarrow> P (fst (ri_text ops i t))"
    and release_inv: "P i \<Longrightarrow> P (fst (ri_release_all ops i))"
begin

lemma release_session_inv:
  "so_input sops = ops \<Longrightarrow> P (hps_input s) \<Longrightarrow> P (hps_input (fst (session_release_all sops s)))"
  by (simp add: session_release_all_def split_def Let_def release_inv)

lemma close_session_inv:
  "so_input sops = ops \<Longrightarrow> P (hps_input s) \<Longrightarrow> P (hps_input (fst (session_close sops s)))"
  using release_session_inv [of sops "s\<lparr>hps_state := HostSessionState_Closing\<rparr>"] release_session_inv [of sops s]
  by (simp add: session_close_def split_def Let_def)

lemma reliable_event_inv:
  assumes "so_input sops = ops" "P (hps_input s)"
  shows "P (hps_input (fst (apply_reliable_event sops s e)))"
proof (cases e)
  case (ReliableInputEnvelope_PointerButton ev)
  then show ?thesis
    using assms by (auto simp: apply_reliable_event_def apply_pointer_button_def inject_def Let_def pointer_button_inv
        split: sum.splits button_action.splits)
next
  case (ReliableInputEnvelope_Keyboard ev)
  then show ?thesis
    using assms by (auto simp: apply_reliable_event_def apply_keyboard_def inject_def Let_def keyboard_inv
        split: sum.splits keyboard_action.splits)
next
  case (ReliableInputEnvelope_ReleaseAllInput ev)
  then show ?thesis
    using release_session_inv [OF assms] by (cases "session_release_all sops s"; cases "snd (session_release_all sops s)")
      (simp_all add: apply_reliable_event_def)
qed (use assms in \<open>simp_all add: apply_reliable_event_def inject_def text_inv\<close>)

lemma reliable_inv:
  assumes "so_input sops = ops" "P (hps_input s)"
  shows "P (hps_input (fst (handle_reliable sops s bs)))"
proof (cases "reliable_envelope sops s bs")
  case (Inr p)
  obtain env ev where p: "p = (env, ev)" by fastforce
  obtain s1 r where r: "apply_reliable_event sops s ev = (s1, r)" by fastforce
  have s1: "P (hps_input s1)" using reliable_event_inv [OF assms, of ev] r by simp
  have c: "P (hps_input (fst (session_close sops t)))" if "hps_input t = hps_input s1" for t
    using close_session_inv [OF assms(1), of t] s1 that by simp
  show ?thesis
  proof (cases r)
    case (Inl e)
    then show ?thesis using Inr p r s1 c by (cases e) (simp_all add: handle_reliable_def)
  next
    case (Inr close)
    have "P (hps_input (fst (sbind (session_close sops t) (\<lambda>s3 _. (s3, Inr InputDisposition_Applied)))))"
      if "hps_input t = hps_input s1" for t
      using c [OF that] by (cases "session_close sops t"; cases "snd (session_close sops t)") simp_all
    then show ?thesis using \<open>reliable_envelope sops s bs = Inr p\<close> p r s1 Inr by (simp add: handle_reliable_def Let_def)
  qed
qed (use assms in \<open>simp add: handle_reliable_def\<close>)

lemma pointer_inv:
  assumes "so_input sops = ops" "P (hps_input s)"
  shows "P (hps_input (fst (handle_pointer_fast sops s bs)))"
proof (cases "pointer_envelope sops s bs")
  case (Inr env)
  show ?thesis
  proof (cases "bind_res (ok_or HostWebRtcError_InvalidInputEnvelope (pfe_event env)) (apply_pointer_event sops s)")
    case out: (Inr out)
    obtain i r where o: "out = (i, r)" by fastforce
    from out o obtain ev where "apply_pointer_event sops s ev = Inr (i, r)" by (auto simp: bind_res_Inr)
    then have "P i"
      using assms pointer_move_inv pointer_scroll_inv
      by (cases ev) (auto simp: apply_pointer_event_def bind_res_Inr split: if_splits dest!: arg_cong [where f = fst])
    then show ?thesis
      using Inr out o assms close_session_inv [OF assms(1), of "s\<lparr>hps_input := i\<rparr>"]
      by (simp add: handle_pointer_fast_def Let_def split: sum.splits)
  qed (use Inr assms in \<open>simp add: handle_pointer_fast_def\<close>)
qed (use assms in \<open>simp add: handle_pointer_fast_def\<close>)

lemma step_sink_inv:
  assumes "so_input sops = ops" "P (hps_input s)"
  shows "P (hps_input (fst (peer_step sops s x)))"
proof (cases x)
  case (AcceptOffer sdp)
  have "P (hps_input (fst (session_close sops (s\<lparr>hps_peer := p\<rparr>))))" for p
    using close_session_inv [OF assms(1), of "s\<lparr>hps_peer := p\<rparr>"] assms(2) by simp
  then show ?thesis
    using assms(2) AcceptOffer by (simp add: accept_offer_def split_def Let_def split: sum.splits)
next
  case BeginReconnect
  have "P (hps_input (fst (sbind (session_release_all sops s)
      (\<lambda>s1 _. (s1\<lparr>hps_state := HostSessionState_Reconnecting\<rparr>, Inr ())))))"
    using release_session_inv [OF assms] by (cases "session_release_all sops s"; cases "snd (session_release_all sops s)") simp_all
  then show ?thesis using assms(2) BeginReconnect by (simp add: begin_reconnect_def)
qed (use assms in \<open>simp_all add: reliable_inv pointer_inv close_session_inv mark_connected_def accept_reconnect_offer_def
    add_remote_ice_candidate_def split_def Let_def split: sum.splits\<close>)

end

interpretation platform_tracked: sink_invariant "platform_input_ops b"
    "\<lambda>i. backend_law b keys buttons \<longrightarrow> tracked keys buttons i" for b keys buttons
proof
  fix i ka u m bt ba x y t
  assume h: "backend_law b keys buttons \<longrightarrow> tracked keys buttons i"
  have "backend_law b keys buttons \<Longrightarrow> tracked keys buttons (fst (sink_step b i op))" for op
    using tracked_step h by blast
  from this [of "SinkKeyboard ka u m"] this [of "SinkPointerButton bt ba x y"] this [of "SinkPointerMove x y m"]
    this [of "SinkPointerScroll x y"] this [of "SinkText t"] this [of SinkReleaseAll]
  show "backend_law b keys buttons \<longrightarrow> tracked keys buttons (fst (ri_keyboard (platform_input_ops b) i ka u m))"
    "backend_law b keys buttons \<longrightarrow> tracked keys buttons (fst (ri_pointer_button (platform_input_ops b) i bt ba x y))"
    "backend_law b keys buttons \<longrightarrow> tracked keys buttons (fst (ri_pointer_move (platform_input_ops b) i x y m))"
    "backend_law b keys buttons \<longrightarrow> tracked keys buttons (fst (ri_pointer_scroll (platform_input_ops b) i x y))"
    "backend_law b keys buttons \<longrightarrow> tracked keys buttons (fst (ri_text (platform_input_ops b) i t))"
    "backend_law b keys buttons \<longrightarrow> tracked keys buttons (fst (ri_release_all (platform_input_ops b) i))"
    by (simp_all add: platform_input_ops_def)
qed

subsection \<open>When a session may hold input\<close>

text \<open>Input is held only while connected; a closed session holds none, or knows that it still has to release some.\<close>

definition session_ok :: "('i \<Rightarrow> bool) \<Rightarrow> ('p, 'i) host_peer_session \<Rightarrow> bool" where
  "session_ok idle s \<longleftrightarrow> hps_state s \<noteq> HostSessionState_Closing
     \<and> (hps_state s \<in> {HostSessionState_New, HostSessionState_Negotiating, HostSessionState_Reconnecting}
          \<longrightarrow> idle (hps_input s))
     \<and> (hps_state s = HostSessionState_Closed \<longrightarrow> hps_input_cleanup_pending s \<or> idle (hps_input s))"

lemma connected_ok [simp]: "hps_state s = HostSessionState_Connected \<Longrightarrow> session_ok idle s"
  by (simp add: session_ok_def)

lemma require_ready_iff [simp]:
  "require_input_ready s = Inr u \<longleftrightarrow> hps_state s = HostSessionState_Connected \<and> hps_input_allowed s"
  by (auto simp: require_input_ready_def)

lemma reliable_envelope_iff:
  "reliable_envelope ops s bs = Inr (env, ev) \<longleftrightarrow> hps_state s = HostSessionState_Connected \<and> hps_input_allowed s
     \<and> decode_and_validate_reliable_input_envelope (so_decode_reliable ops) bs = Inr env
     \<and> rie_session_id env = hps_session_id s \<and> rie_sequence env = saturating_add (hps_last_reliable_sequence s) 1
     \<and> rie_event env = Some ev"
  by (auto simp: reliable_envelope_def bind_res_Inr)

lemma pointer_envelope_iff:
  "pointer_envelope ops s bs = Inr env \<longleftrightarrow> hps_state s = HostSessionState_Connected \<and> hps_input_allowed s
     \<and> decode_and_validate_pointer_fast_envelope (so_decode_pointer ops) bs = Inr env
     \<and> pfe_session_id env = hps_session_id s"
  by (auto simp: pointer_envelope_def bind_res_Inr)

lemma release_all_kept [simp]:
  "hps_state (fst (session_release_all ops s)) = hps_state s"
  "hps_last_reliable_sequence (fst (session_release_all ops s)) = hps_last_reliable_sequence s"
  "hps_last_pointer_sequence (fst (session_release_all ops s)) = hps_last_pointer_sequence s"
  by (simp_all add: session_release_all_def split_def Let_def)

lemma close_kept [simp]:
  "hps_state (fst (session_close ops s)) = HostSessionState_Closed"
  "hps_last_reliable_sequence (fst (session_close ops s)) = hps_last_reliable_sequence s"
  "hps_last_pointer_sequence (fst (session_close ops s)) = hps_last_pointer_sequence s"
  using release_all_kept [of ops "s\<lparr>hps_state := HostSessionState_Closing\<rparr>"]
  by (auto simp: session_close_def split_def Let_def)

lemma reliable_event_kept:
  "hps_state (fst (apply_reliable_event ops s e)) = hps_state s"
  "hps_last_reliable_sequence (fst (apply_reliable_event ops s e)) = hps_last_reliable_sequence s"
  "hps_last_pointer_sequence (fst (apply_reliable_event ops s e)) = hps_last_pointer_sequence s"
proof -
  have r: "fst (sbind (session_release_all ops s) (\<lambda>s1 _. (s1, Inr False))) = fst (session_release_all ops s)"
    by (cases "session_release_all ops s"; cases "snd (session_release_all ops s)") simp_all
  show "hps_state (fst (apply_reliable_event ops s e)) = hps_state s"
    "hps_last_reliable_sequence (fst (apply_reliable_event ops s e)) = hps_last_reliable_sequence s"
    "hps_last_pointer_sequence (fst (apply_reliable_event ops s e)) = hps_last_pointer_sequence s"
    by (cases e; auto simp: apply_reliable_event_def apply_keyboard_def apply_pointer_button_def inject_def Let_def r
        split: sum.splits keyboard_action.splits button_action.splits)+
qed

lemma reliable_shape:
  obtains (refused) e where "handle_reliable ops s bs = (s, Inl e)"
  | (applied) env ev where "reliable_envelope ops s bs = Inr (env, ev)"
      "hps_last_reliable_sequence (fst (handle_reliable ops s bs)) = rie_sequence env"
      "hps_last_pointer_sequence (fst (handle_reliable ops s bs)) = hps_last_pointer_sequence s"
      "hps_state (fst (handle_reliable ops s bs)) \<in> {HostSessionState_Connected, HostSessionState_Closed}"
      "snd (handle_reliable ops s bs) = Inr InputDisposition_Applied
        \<or> hps_state (fst (handle_reliable ops s bs)) = HostSessionState_Closed"
  | (failed) env ev e where "reliable_envelope ops s bs = Inr (env, ev)" "snd (handle_reliable ops s bs) = Inl e"
      "hps_last_reliable_sequence (fst (handle_reliable ops s bs)) = hps_last_reliable_sequence s"
      "hps_last_pointer_sequence (fst (handle_reliable ops s bs)) = hps_last_pointer_sequence s"
      "hps_state (fst (handle_reliable ops s bs)) \<in> {HostSessionState_Connected, HostSessionState_Closed}"
proof (cases "reliable_envelope ops s bs")
  case (Inl e)
  then show ?thesis using refused [of e] by (simp add: handle_reliable_def)
next
  case (Inr p)
  obtain env ev where p: "p = (env, ev)" by fastforce
  obtain s1 r where r: "apply_reliable_event ops s ev = (s1, r)" by fastforce
  have s1: "hps_state s1 = HostSessionState_Connected" "hps_last_reliable_sequence s1 = hps_last_reliable_sequence s"
    "hps_last_pointer_sequence s1 = hps_last_pointer_sequence s"
    using reliable_event_kept [of ops s ev] r Inr p by (auto simp: reliable_envelope_iff)
  show ?thesis
  proof (cases r)
    case (Inl e)
    then show ?thesis using failed [of env ev e] Inr p r s1 by (cases e) (simp_all add: handle_reliable_def)
  next
    case out: (Inr close)
    let ?s2 = "s1\<lparr>hps_last_reliable_sequence := rie_sequence env\<rparr>"
    show ?thesis
    proof (cases close)
      case True
      obtain s3 cr where c: "session_close ops ?s2 = (s3, cr)" by fastforce
      then have "hps_state s3 = HostSessionState_Closed" "hps_last_reliable_sequence s3 = rie_sequence env"
        "hps_last_pointer_sequence s3 = hps_last_pointer_sequence s"
        using close_kept [of ops ?s2] s1 by simp_all
      then show ?thesis using applied [of env ev] Inr p r out True c by (cases cr) (simp_all add: handle_reliable_def)
    next
      case False
      then show ?thesis using applied [of env ev] Inr p r s1 out by (simp add: handle_reliable_def)
    qed
  qed
qed

lemma pointer_shape:
  obtains (same) r where "handle_pointer_fast ops s bs = (s, r)" "r \<noteq> Inr PointerDisposition_Applied"
  | (applied) env where "pointer_envelope ops s bs = Inr env" "hps_last_pointer_sequence s < pfe_sequence env"
      "hps_last_pointer_sequence (fst (handle_pointer_fast ops s bs)) = pfe_sequence env"
      "hps_last_reliable_sequence (fst (handle_pointer_fast ops s bs)) = hps_last_reliable_sequence s"
      "hps_state (fst (handle_pointer_fast ops s bs)) = HostSessionState_Connected"
      "snd (handle_pointer_fast ops s bs) = Inr PointerDisposition_Applied"
  | (failed) env e where "pointer_envelope ops s bs = Inr env" "snd (handle_pointer_fast ops s bs) = Inl e"
      "hps_last_reliable_sequence (fst (handle_pointer_fast ops s bs)) = hps_last_reliable_sequence s"
      "hps_last_pointer_sequence (fst (handle_pointer_fast ops s bs)) = hps_last_pointer_sequence s"
      "hps_state (fst (handle_pointer_fast ops s bs)) \<in> {HostSessionState_Connected, HostSessionState_Closed}"
proof (cases "pointer_envelope ops s bs")
  case (Inl e)
  then show ?thesis using same [of "Inl e"] by (simp add: handle_pointer_fast_def)
next
  case env: (Inr env)
  then have st: "hps_state s = HostSessionState_Connected" by (simp add: pointer_envelope_iff)
  show ?thesis
  proof (cases "pfe_sequence env \<le> hps_last_pointer_sequence s")
    case True
    then show ?thesis using same [of "Inr PointerDisposition_DroppedStale"] env by (simp add: handle_pointer_fast_def)
  next
    case False
    show ?thesis
    proof (cases "bind_res (ok_or HostWebRtcError_InvalidInputEnvelope (pfe_event env)) (apply_pointer_event ops s)")
      case (Inl e)
      then show ?thesis using same [of "Inl e"] env False by (simp add: handle_pointer_fast_def)
    next
      case (Inr out)
      obtain i r where o: "out = (i, r)" by fastforce
      show ?thesis
      proof (cases r)
        case (Inl e)
        then show ?thesis using failed [of env e] env False Inr o st by (simp add: handle_pointer_fast_def Let_def)
      next
        case r: (Inr u)
        then show ?thesis using applied [of env] env False Inr o st by (simp add: handle_pointer_fast_def Let_def)
      qed
    qed
  qed
qed

text \<open>An input handler closes a session only by \<^verbatim>\<open>close\<close>, from the connected state.\<close>

lemma reliable_closed:
  assumes "hps_state s = HostSessionState_Connected" "hps_state (fst (handle_reliable ops s bs)) = HostSessionState_Closed"
  shows "\<exists>t. hps_state t = HostSessionState_Connected \<and> fst (handle_reliable ops s bs) = fst (session_close ops t)"
proof (cases "reliable_envelope ops s bs")
  case (Inr p)
  obtain env ev where p: "p = (env, ev)" by fastforce
  obtain s1 r where r: "apply_reliable_event ops s ev = (s1, r)" by fastforce
  have s1: "hps_state s1 = HostSessionState_Connected" using reliable_event_kept(1) [of ops s ev] r assms(1) by simp
  show ?thesis
  proof (cases r)
    case (Inl e)
    then show ?thesis using assms Inr p r s1 by (cases e) (auto simp: handle_reliable_def)
  next
    case out: (Inr close)
    let ?s2 = "s1\<lparr>hps_last_reliable_sequence := rie_sequence env\<rparr>"
    have "fst (sbind (session_close ops ?s2) (\<lambda>s3 _. (s3, Inr InputDisposition_Applied))) = fst (session_close ops ?s2)"
      by (cases "session_close ops ?s2"; cases "snd (session_close ops ?s2)") simp_all
    then show ?thesis
      using assms Inr p r s1 out by (cases close) (auto simp: handle_reliable_def intro!: exI [of _ ?s2])
  qed
qed (use assms in \<open>simp add: handle_reliable_def\<close>)

lemma pointer_closed:
  assumes "hps_state s = HostSessionState_Connected" "hps_state (fst (handle_pointer_fast ops s bs)) = HostSessionState_Closed"
  shows "\<exists>t. hps_state t = HostSessionState_Connected \<and> fst (handle_pointer_fast ops s bs) = fst (session_close ops t)"
proof (cases "pointer_envelope ops s bs")
  case (Inr env)
  then show ?thesis
    using assms by (auto simp: handle_pointer_fast_def Let_def split: sum.splits prod.splits if_splits)
      (metis (no_types, lifting) host_peer_session.select_convs(6) host_peer_session.surjective
        host_peer_session.update_convs(5))
qed (use assms in \<open>simp add: handle_pointer_fast_def\<close>)

context remote_input_sink
begin

lemma release_session_ok:
  assumes "so_input sops = ops"
  shows "hps_input_cleanup_pending (fst (session_release_all sops s)) \<or> idle (hps_input (fst (session_release_all sops s)))"
    "snd (session_release_all sops s) = Inr u \<Longrightarrow> idle (hps_input (fst (session_release_all sops s)))"
proof -
  obtain i r where r: "ri_release_all ops (hps_input s) = (i, r)" by fastforce
  then show "hps_input_cleanup_pending (fst (session_release_all sops s)) \<or> idle (hps_input (fst (session_release_all sops s)))"
    "snd (session_release_all sops s) = Inr u \<Longrightarrow> idle (hps_input (fst (session_release_all sops s)))"
    using release_ok [of "hps_input s" i] assms by (cases r; simp add: session_release_all_def)+
qed

lemma close_ok:
  assumes "so_input sops = ops" "session_ok idle s"
  shows "session_ok idle (fst (session_close sops s))"
  using release_session_ok(1) [OF assms(1), of s] release_session_ok(1) [OF assms(1), of "s\<lparr>hps_state := HostSessionState_Closing\<rparr>"]
    assms(2) close_kept(1) [of sops s]
  by (auto simp: session_ok_def session_close_def split_def Let_def)

lemma close_closes:
  assumes "so_input sops = ops"
  shows "hps_input_cleanup_pending (fst (session_close sops s)) \<or> idle (hps_input (fst (session_close sops s)))
    \<or> hps_state s = HostSessionState_Closed"
  using release_session_ok(1) [OF assms, of "s\<lparr>hps_state := HostSessionState_Closing\<rparr>"]
  by (auto simp: session_close_def split_def Let_def)

lemma close_ok_connected:
  assumes "so_input sops = ops" "hps_state s = HostSessionState_Connected"
  shows "session_ok idle (fst (session_close sops s))"
  by (rule close_ok [OF assms(1)]) (simp add: assms(2))

lemma reliable_ok:
  assumes "so_input sops = ops" "session_ok idle s"
  shows "session_ok idle (fst (handle_reliable sops s bs))"
proof (cases rule: reliable_shape [of sops s bs])
  case (refused e)
  then show ?thesis using assms by simp
next
  case (applied env ev)
  then show ?thesis
    using reliable_closed [of s sops bs] close_ok_connected [OF assms(1)] by (auto simp: reliable_envelope_iff)
next
  case (failed env ev e)
  then show ?thesis
    using reliable_closed [of s sops bs] close_ok_connected [OF assms(1)] by (auto simp: reliable_envelope_iff)
qed

lemma pointer_ok:
  assumes "so_input sops = ops" "session_ok idle s"
  shows "session_ok idle (fst (handle_pointer_fast sops s bs))"
proof (cases rule: pointer_shape [of sops s bs])
  case (same r)
  then show ?thesis using assms by simp
next
  case (applied env)
  then show ?thesis by simp
next
  case (failed env e)
  then show ?thesis
    using pointer_closed [of s sops bs] close_ok_connected [OF assms(1)] by (auto simp: pointer_envelope_iff)
qed

lemma step_ok:
  assumes "so_input sops = ops" "session_ok idle s"
  shows "session_ok idle (fst (peer_step sops s x))"
proof (cases x)
  case (AcceptOffer sdp)
  have "session_ok idle (fst (session_close sops (s\<lparr>hps_peer := p\<rparr>)))" for p
    by (rule close_ok [OF assms(1)]) (use assms(2) in \<open>simp add: session_ok_def\<close>)
  then show ?thesis
    using assms(2) AcceptOffer by (auto simp: accept_offer_def split_def Let_def split: sum.splits) (simp add: session_ok_def)
next
  case MarkConnected
  then show ?thesis using assms(2) by (auto simp: mark_connected_def)
next
  case BeginReconnect
  obtain t r where t: "session_release_all sops s = (t, r)" by fastforce
  have "session_ok idle t" if "hps_state s \<in> {HostSessionState_Connected, HostSessionState_Negotiating}"
  proof (cases "hps_state s = HostSessionState_Connected")
    case True
    then show ?thesis using release_all_kept(1) [of sops s] t by simp
  next
    case False
    then have "idle (hps_input s)" using assms(2) that by (simp add: session_ok_def)
    then show ?thesis
      using release_idle [of "hps_input s"] t assms that release_all_kept(1) [of sops s]
      by (auto simp: session_release_all_def session_ok_def)
  qed
  then show ?thesis
    using assms(2) BeginReconnect t release_session_ok(2) [OF assms(1), of s "()"]
    by (cases r) (auto simp: begin_reconnect_def, simp_all add: session_ok_def)
next
  case (AcceptReconnectOffer sdp)
  then show ?thesis
    using assms(2) by (auto simp: accept_reconnect_offer_def split_def Let_def session_ok_def split: sum.splits)
next
  case (AddRemoteIceCandidate c)
  then show ?thesis
    using assms(2) by (simp add: add_remote_ice_candidate_def split_def Let_def session_ok_def)
qed (use assms in \<open>simp_all add: reliable_ok pointer_ok close_ok\<close>)

end

interpretation peer: machine "peer_step sops" "\<lambda>s. so_input sops = platform_input_ops b \<longrightarrow> session_ok sink_idle s" for sops b
  by unfold_locales (simp add: platform.step_ok)

interpretation peer_held: machine "peer_step sops"
    "\<lambda>s. so_input sops = platform_input_ops b \<and> backend_law b keys buttons \<longrightarrow> tracked keys buttons (hps_input s)"
  for sops b keys buttons
  by unfold_locales (use platform_tracked.step_sink_inv in blast)

text \<open>Sequence numbers only rise, and a closed session stays closed.\<close>

lemma peer_step_sequences:
  "hps_last_reliable_sequence s \<le> hps_last_reliable_sequence (fst (peer_step ops s x))
   \<and> hps_last_pointer_sequence s \<le> hps_last_pointer_sequence (fst (peer_step ops s x))"
proof (cases x)
  case (Reliable bs)
  show ?thesis
    unfolding Reliable by (cases rule: reliable_shape [of ops s bs]) (auto simp: reliable_envelope_iff saturating_add_ge)
next
  case (PointerFast bs)
  show ?thesis unfolding PointerFast by (cases rule: pointer_shape [of ops s bs]) auto
next
  case BeginReconnect
  have "fst (sbind (session_release_all ops s) (\<lambda>s1 _. (s1\<lparr>hps_state := HostSessionState_Reconnecting\<rparr>, Inr ())))
      \<in> {fst (session_release_all ops s), (fst (session_release_all ops s))\<lparr>hps_state := HostSessionState_Reconnecting\<rparr>}"
    by (cases "session_release_all ops s"; cases "snd (session_release_all ops s)") simp_all
  then show ?thesis using BeginReconnect by (auto simp: begin_reconnect_def)
qed (auto simp: accept_offer_def mark_connected_def accept_reconnect_offer_def add_remote_ice_candidate_def split_def Let_def
    split: sum.splits)

interpretation reliable_sequence: monotone_machine "peer_step ops" "\<lambda>_. True" hps_last_reliable_sequence for ops
  by unfold_locales (simp_all add: peer_step_sequences)

interpretation pointer_sequence: monotone_machine "peer_step ops" "\<lambda>_. True" hps_last_pointer_sequence for ops
  by unfold_locales (simp_all add: peer_step_sequences)

lemma closed_step:
  assumes "hps_state s = HostSessionState_Closed"
  shows "hps_state (fst (peer_step ops s x)) = HostSessionState_Closed"
  using assms
  by (cases x) (simp_all add: accept_offer_def mark_connected_def begin_reconnect_def accept_reconnect_offer_def
      add_remote_ice_candidate_def handle_reliable_def reliable_envelope_def handle_pointer_fast_def pointer_envelope_def
      require_input_ready_def)

interpretation closed_peer: machine "peer_step ops" "\<lambda>s. hps_state s = HostSessionState_Closed" for ops
  by unfold_locales (rule closed_step)

text \<open>Who the session is for never changes.\<close>

definition session_binding :: "('p, 'i) host_peer_session \<Rightarrow> bytes \<times> bool" where
  "session_binding s = (hps_session_id s, hps_input_allowed s)"

lemma binding_updates [simp]:
  "session_binding (s\<lparr>hps_peer := p\<rparr>) = session_binding s" "session_binding (s\<lparr>hps_input := i\<rparr>) = session_binding s"
  "session_binding (s\<lparr>hps_state := st\<rparr>) = session_binding s"
  "session_binding (s\<lparr>hps_last_reliable_sequence := n\<rparr>) = session_binding s"
  "session_binding (s\<lparr>hps_last_pointer_sequence := n\<rparr>) = session_binding s"
  "session_binding (s\<lparr>hps_pressed_keys := ks\<rparr>) = session_binding s"
  "session_binding (s\<lparr>hps_pressed_buttons := bs\<rparr>) = session_binding s"
  "session_binding (s\<lparr>hps_input_cleanup_pending := b\<rparr>) = session_binding s"
  by (simp_all add: session_binding_def)

lemma binding_release [simp]: "session_binding (fst (session_release_all ops s)) = session_binding s"
  by (simp add: session_release_all_def split_def Let_def)

lemma binding_close [simp]: "session_binding (fst (session_close ops s)) = session_binding s"
  by (simp add: session_close_def split_def Let_def)

lemma binding_sbind:
  assumes "session_binding (fst m) = b" "\<And>t x. session_binding (fst (k t x)) = session_binding t"
  shows "session_binding (fst (sbind m k)) = b"
  using assms by (cases m; cases "snd m") auto

lemma binding_event [simp]: "session_binding (fst (apply_reliable_event ops s e)) = session_binding s"
  by (cases e) (auto simp: apply_reliable_event_def apply_keyboard_def apply_pointer_button_def inject_def Let_def
      intro: binding_sbind split: sum.splits keyboard_action.splits button_action.splits)

lemma binding_reliable [simp]: "session_binding (fst (handle_reliable ops s bs)) = session_binding s"
proof (cases "reliable_envelope ops s bs")
  case (Inr p)
  obtain env ev where p: "p = (env, ev)" by fastforce
  obtain s1 r where r: "apply_reliable_event ops s ev = (s1, r)" by fastforce
  have s1: "session_binding s1 = session_binding s" using binding_event [of ops s ev] r by simp
  show ?thesis
  proof (cases r)
    case (Inl e)
    then show ?thesis using Inr p r s1 by (cases e) (simp_all add: handle_reliable_def)
  next
    case (Inr close)
    then show ?thesis
      using \<open>reliable_envelope ops s bs = Inr p\<close> p r s1 by (auto simp: handle_reliable_def Let_def intro: binding_sbind)
  qed
qed (simp add: handle_reliable_def)

lemma binding_step: "session_binding (fst (peer_step ops s x)) = session_binding s"
  by (cases x) (auto simp: accept_offer_def mark_connected_def begin_reconnect_def accept_reconnect_offer_def
      add_remote_ice_candidate_def handle_pointer_fast_def split_def Let_def intro: binding_sbind split: sum.splits)

interpretation peer_binding: machine "peer_step ops" "\<lambda>s. session_binding s = b" for ops b
  by unfold_locales (simp add: binding_step)

subsection \<open>The order of what is applied\<close>

text \<open>The sequence numbers of the messages a run reports as applied, in the order of the run, for each of the two channels.\<close>

fun applied_reliable_number :: "('p, 'i) session_ops \<Rightarrow> peer_op \<Rightarrow> peer_out \<Rightarrow> u64 list" where
  "applied_reliable_number ops (Reliable bs) (ReliableOut (Inr InputDisposition_Applied)) =
     (case decode_and_validate_reliable_input_envelope (so_decode_reliable ops) bs of
        Inl _ \<Rightarrow> [] | Inr envelope \<Rightarrow> [rie_sequence envelope])"
| "applied_reliable_number ops _ _ = []"

fun applied_pointer_number :: "('p, 'i) session_ops \<Rightarrow> peer_op \<Rightarrow> peer_out \<Rightarrow> u64 list" where
  "applied_pointer_number ops (PointerFast bs) (PointerOut (Inr PointerDisposition_Applied)) =
     (case decode_and_validate_pointer_fast_envelope (so_decode_pointer ops) bs of
        Inl _ \<Rightarrow> [] | Inr envelope \<Rightarrow> [pfe_sequence envelope])"
| "applied_pointer_number ops _ _ = []"

definition applied_reliable :: "('p, 'i) session_ops \<Rightarrow> ('p, 'i) host_peer_session \<Rightarrow> peer_op list \<Rightarrow> u64 list" where
  "applied_reliable ops s xs =
     concat (map2 (applied_reliable_number ops) xs (snd (run_steps (peer_step ops) s xs)))"

definition applied_pointer :: "('p, 'i) session_ops \<Rightarrow> ('p, 'i) host_peer_session \<Rightarrow> peer_op list \<Rightarrow> u64 list" where
  "applied_pointer ops s xs =
     concat (map2 (applied_pointer_number ops) xs (snd (run_steps (peer_step ops) s xs)))"

lemma applied_Cons:
  "applied_reliable ops s (x # xs) = applied_reliable_number ops x (snd (peer_step ops s x))
     @ applied_reliable ops (fst (peer_step ops s x)) xs"
  "applied_pointer ops s (x # xs) = applied_pointer_number ops x (snd (peer_step ops s x))
     @ applied_pointer ops (fst (peer_step ops s x)) xs"
  by (simp_all add: applied_reliable_def applied_pointer_def split_def Let_def del: peer_step.simps)

lemma reliable_number_step:
  "(applied_reliable_number ops x (snd (peer_step ops s x)) = []
      \<and> (hps_last_reliable_sequence (fst (peer_step ops s x)) = hps_last_reliable_sequence s
         \<or> hps_state (fst (peer_step ops s x)) = HostSessionState_Closed))
   \<or> (applied_reliable_number ops x (snd (peer_step ops s x)) = [saturating_add (hps_last_reliable_sequence s) 1]
      \<and> hps_last_reliable_sequence (fst (peer_step ops s x)) = saturating_add (hps_last_reliable_sequence s) 1)"
proof (cases x)
  case (Reliable bs)
  show ?thesis
  proof (cases rule: reliable_shape [of ops s bs])
    case (applied env ev)
    then show ?thesis
      by (cases "snd (handle_reliable ops s bs)"; cases "projr (snd (handle_reliable ops s bs))")
        (auto simp: Reliable reliable_envelope_iff)
  qed (auto simp: Reliable)
next
  case (PointerFast bs)
  show ?thesis unfolding PointerFast by (cases rule: pointer_shape [of ops s bs]) auto
next
  case BeginReconnect
  have "fst (sbind (session_release_all ops s) (\<lambda>s1 _. (s1\<lparr>hps_state := HostSessionState_Reconnecting\<rparr>, Inr ())))
      \<in> {fst (session_release_all ops s), (fst (session_release_all ops s))\<lparr>hps_state := HostSessionState_Reconnecting\<rparr>}"
    by (cases "session_release_all ops s"; cases "snd (session_release_all ops s)") simp_all
  then show ?thesis using BeginReconnect by (auto simp: begin_reconnect_def)
qed (auto simp: accept_offer_def mark_connected_def accept_reconnect_offer_def add_remote_ice_candidate_def split_def Let_def
    split: sum.splits)

lemma pointer_number_step:
  "(applied_pointer_number ops x (snd (peer_step ops s x)) = []
      \<and> hps_last_pointer_sequence s \<le> hps_last_pointer_sequence (fst (peer_step ops s x)))
   \<or> (\<exists>n. applied_pointer_number ops x (snd (peer_step ops s x)) = [n] \<and> hps_last_pointer_sequence s < n
      \<and> hps_last_pointer_sequence (fst (peer_step ops s x)) = n)"
proof (cases x)
  case (PointerFast bs)
  show ?thesis
  proof (cases rule: pointer_shape [of ops s bs])
    case (same r)
    then show ?thesis by (cases r; cases "projr r") (auto simp: PointerFast)
  next
    case (applied env)
    then show ?thesis by (auto simp: PointerFast pointer_envelope_iff)
  next
    case (failed env e)
    then show ?thesis by (auto simp: PointerFast)
  qed
qed (use peer_step_sequences [of s ops x] in \<open>simp_all del: peer_step.simps\<close>)

lemma closed_applies_nothing:
  "hps_state s = HostSessionState_Closed \<Longrightarrow> applied_reliable ops s xs = []"
proof (induction xs arbitrary: s)
  case (Cons x xs)
  have "applied_reliable_number ops x (snd (peer_step ops s x)) = []"
    using Cons.prems by (cases x) (simp_all add: handle_reliable_def reliable_envelope_def require_input_ready_def)
  then show ?case using Cons.IH [OF closed_step [OF Cons.prems]] by (simp add: applied_Cons del: peer_step.simps)
qed (simp add: applied_reliable_def)

text \<open>Reliable messages are applied without gaps, up to the saturation of the counter; pointer messages only forward.\<close>

lemma reliable_in_order:
  "map unat (applied_reliable ops s xs) = map (\<lambda>i. min (unat (hps_last_reliable_sequence s) + Suc i) (2 ^ 64 - 1))
     [0..<length (applied_reliable ops s xs)]"
proof (induction xs arbitrary: s)
  case (Cons x xs)
  let ?t = "fst (peer_step ops s x)"
  from reliable_number_step [of ops x s] show ?case
  proof (elim disjE conjE)
    assume "applied_reliable_number ops x (snd (peer_step ops s x)) = []"
      "hps_last_reliable_sequence ?t = hps_last_reliable_sequence s"
    then show ?thesis using Cons.IH [of ?t] by (simp add: applied_Cons del: peer_step.simps)
  next
    assume "applied_reliable_number ops x (snd (peer_step ops s x)) = []" "hps_state ?t = HostSessionState_Closed"
    then show ?thesis by (simp add: applied_Cons closed_applies_nothing del: peer_step.simps)
  next
    assume n: "applied_reliable_number ops x (snd (peer_step ops s x)) = [saturating_add (hps_last_reliable_sequence s) 1]"
      "hps_last_reliable_sequence ?t = saturating_add (hps_last_reliable_sequence s) 1"
    have "min (min (k + 1) m + Suc i) m = min (k + Suc (Suc i)) m" for k m i :: nat by (simp add: min_def)
    moreover have "unat (saturating_add (hps_last_reliable_sequence s) 1) = min (unat (hps_last_reliable_sequence s) + 1) (2 ^ 64 - 1)"
      by (simp add: unat_saturating_add)
    ultimately show ?thesis
      using Cons.IH [of ?t] n by (simp add: applied_Cons map_upt_Suc del: peer_step.simps upt_Suc) (simp add: min_def)
  qed
qed (simp add: applied_reliable_def)

lemma pointer_in_order: "sorted_wrt (<) (hps_last_pointer_sequence s # applied_pointer ops s xs)"
proof (induction xs arbitrary: s)
  case (Cons x xs)
  from pointer_number_step [of ops x s] Cons.IH [of "fst (peer_step ops s x)"] show ?case
    by (auto simp: applied_Cons simp del: peer_step.simps)
qed (simp add: applied_pointer_def)

subsection \<open>What reaches the sink\<close>

definition event_in_range :: "reliable_input_envelope_event \<Rightarrow> bool" where
  "event_in_range ev = (case ev of
       ReliableInputEnvelope_Keyboard e \<Rightarrow> 4 \<le> ke_usb_hid_usage e \<and> ke_usb_hid_usage e \<le> 0xe7 \<and> ke_modifier_bits e \<le> 0xff
     | ReliableInputEnvelope_PointerButton e \<Rightarrow> 0 \<le> pbe_x e \<and> pbe_x e \<le> 10000 \<and> 0 \<le> pbe_y e \<and> pbe_y e \<le> 10000
     | ReliableInputEnvelope_Text e \<Rightarrow> tie_text e \<noteq> [] \<and> length (tie_text e) \<le> 1024
     | _ \<Rightarrow> True)"

lemma out_of_range_refused:
  assumes "\<not> event_in_range ev"
  shows "\<exists>e. apply_reliable_event ops s ev = (s, Inl e) \<and> e \<noteq> HostWebRtcError_InputFailure"
proof (cases ev)
  case (ReliableInputEnvelope_PointerButton e)
  then have "validate_coordinates (pbe_x e) (pbe_y e) = Inl HostWebRtcError_InvalidCoordinates"
    using assms by (auto simp: event_in_range_def validate_coordinates_def NORMALIZED_POINTER_MAX_def)
  then show ?thesis by (simp add: ReliableInputEnvelope_PointerButton apply_reliable_event_def apply_pointer_button_def)
next
  case (ReliableInputEnvelope_Keyboard e)
  then have "validate_keyboard (ke_usb_hid_usage e) (ke_modifier_bits e)
      \<in> {Inl HostWebRtcError_InvalidKeyboardUsage, Inl HostWebRtcError_InvalidModifierBits}"
    using assms by (auto simp: event_in_range_def validate_keyboard_def limits not_less)
  then show ?thesis
    by (cases "keyboard_action_of (ke_action e)")
      (auto simp: ReliableInputEnvelope_Keyboard apply_reliable_event_def apply_keyboard_def
        simp del: keyboard_action.of_eq_Some)
qed (use assms in \<open>auto simp: event_in_range_def apply_reliable_event_def limits\<close>)

lemma reliable_reaches_sink:
  assumes "handle_reliable ops s bs = (s', r)" "r = Inr InputDisposition_Applied \<or> hps_input s' \<noteq> hps_input s"
  shows "\<exists>env ev. reliable_envelope ops s bs = Inr (env, ev) \<and> event_in_range ev"
proof (cases "reliable_envelope ops s bs")
  case (Inr p)
  obtain env ev where p: "p = (env, ev)" by fastforce
  have "event_in_range ev"
  proof (rule ccontr)
    assume "\<not> event_in_range ev"
    then obtain e where "apply_reliable_event ops s ev = (s, Inl e)" "e \<noteq> HostWebRtcError_InputFailure"
      using out_of_range_refused by blast
    then show False using assms Inr p by (cases e) (auto simp: handle_reliable_def)
  qed
  then show ?thesis using Inr p by blast
qed (use assms in \<open>auto simp: handle_reliable_def\<close>)

definition pointer_in_range :: "pointer_fast_envelope_event \<Rightarrow> bool" where
  "pointer_in_range ev = (case ev of
       PointerFastEnvelope_Move e \<Rightarrow> 0 \<le> pme_x e \<and> pme_x e \<le> 10000 \<and> 0 \<le> pme_y e \<and> pme_y e \<le> 10000
         \<and> pme_pressed_button_bits e \<le> 7
     | PointerFastEnvelope_Scroll e \<Rightarrow> \<bar>pse_delta_x e\<bar> \<le> 10000 \<and> \<bar>pse_delta_y e\<bar> \<le> 10000)"

lemma pointer_event_in_range: "apply_pointer_event ops s ev = Inr r \<Longrightarrow> pointer_in_range ev"
  by (cases ev) (auto simp: apply_pointer_event_def pointer_in_range_def validate_coordinates_def bind_res_Inr limits not_less
      split: if_splits)

lemma pointer_reaches_sink:
  assumes "handle_pointer_fast ops s bs = (s', r)" "r = Inr PointerDisposition_Applied \<or> hps_input s' \<noteq> hps_input s"
  shows "\<exists>env ev. pointer_envelope ops s bs = Inr env \<and> hps_last_pointer_sequence s < pfe_sequence env
    \<and> pfe_event env = Some ev \<and> pointer_in_range ev"
proof (cases "pointer_envelope ops s bs")
  case (Inr env)
  have new: "hps_last_pointer_sequence s < pfe_sequence env" using Inr assms by (auto simp: handle_pointer_fast_def split: if_splits)
  obtain out where "bind_res (ok_or HostWebRtcError_InvalidInputEnvelope (pfe_event env)) (apply_pointer_event ops s) = Inr out"
    using Inr assms new
    by (cases "bind_res (ok_or HostWebRtcError_InvalidInputEnvelope (pfe_event env)) (apply_pointer_event ops s)")
      (auto simp: handle_pointer_fast_def not_le [symmetric])
  then obtain ev where "pfe_event env = Some ev" "apply_pointer_event ops s ev = Inr out" by (auto simp: bind_res_Inr)
  with Inr new show ?thesis using pointer_event_in_range by blast
qed (use assms in \<open>auto simp: handle_pointer_fast_def\<close>)

section \<open>The gate as a machine\<close>

datatype gate_op = Acquire bytes | ReleaseLease session_lease

datatype gate_out = AcquireOut "host_webrtc_error + session_lease" | ReleaseOut "host_webrtc_error + unit"

fun gate_step :: "session_gate \<Rightarrow> gate_op \<Rightarrow> session_gate \<times> gate_out" where
  "gate_step g (Acquire i) = map_prod id AcquireOut (gate_acquire g i)"
| "gate_step g (ReleaseLease l) = map_prod id ReleaseOut (gate_release g l)"

definition gate_inv :: "session_gate \<Rightarrow> bool" where
  "gate_inv g \<longleftrightarrow> (\<forall>l. sgt_active g = Some l \<longrightarrow> length (sl_session_id l) = 16 \<and> sl_generation l = sgt_generation g)"

interpretation gate: monotone_machine gate_step gate_inv sgt_generation
proof
  fix g a
  assume "gate_inv g"
  then show "gate_inv (fst (gate_step g a))"
    by (cases a) (auto simp: gate_inv_def gate_acquire_def gate_release_def Let_def limits)
  show "sgt_generation g \<le> sgt_generation (fst (gate_step g a))"
    by (cases a) (auto simp: gate_acquire_def gate_release_def Let_def saturating_add_ge)
qed

section \<open>Example\<close>

definition demo_peer :: "unit peer_backend_ops" where
  "demo_peer = \<lparr>pbo_start = (\<lambda>p _ _. (p, Inr \<lparr>pa_sdp = ''v=0'', pa_dtls_fingerprint_sha256 = replicate 32 1\<rparr>)),
     pbo_restart = (\<lambda>p _ _. (p, Inr \<lparr>pa_sdp = ''v=0'', pa_dtls_fingerprint_sha256 = replicate 32 1\<rparr>)),
     pbo_add_remote_ice_candidate = (\<lambda>p _. (p, Inr ())), pbo_close = (\<lambda>p. (p, Inr ()))\<rparr>"

definition demo_key_down :: reliable_input_envelope where
  "demo_key_down = \<lparr>rie_protocol_version = Some \<lparr>pv_major = 1, pv_minor = 0\<rparr>, rie_session_id = replicate 16 1,
     rie_sequence = 1, rie_event = Some (ReliableInputEnvelope_Keyboard
       \<lparr>ke_action = keyboard_action_code KeyboardAction_Down, ke_usb_hid_usage = 5, ke_modifier_bits = 0\<rparr>)\<rparr>"

definition demo_session_ops :: "(unit, demo_desk platform_input_sink) session_ops" where
  "demo_session_ops = \<lparr>so_peer = demo_peer, so_input = platform_input_ops desk_backend,
     so_decode_reliable = (\<lambda>_. Some demo_key_down), so_decode_pointer = (\<lambda>_. None)\<rparr>"

definition demo_peer_session :: "(unit, demo_desk platform_input_sink) host_peer_session" where
  "demo_peer_session = \<lparr>hps_session_id = replicate 16 1, hps_input_allowed = True,
     hps_config = \<lparr>sc_ice_transport_policy = IceTransportPolicy_All\<rparr>, hps_peer = (), hps_input = desk_sink,
     hps_state = HostSessionState_New, hps_last_reliable_sequence = 0, hps_last_pointer_sequence = 0,
     hps_pressed_keys = {}, hps_pressed_buttons = {}, hps_input_cleanup_pending = False\<rparr>"

definition demo_connected :: "(unit, demo_desk platform_input_sink) host_peer_session" where
  "demo_connected = demo_peer_session\<lparr>hps_state := HostSessionState_Connected\<rparr>"

lemma demo_session_new:
  "host_peer_session_new (replicate 16 1) [SessionPermission_ViewScreen, SessionPermission_ControlInput]
     \<lparr>sc_ice_transport_policy = IceTransportPolicy_All\<rparr> () desk_sink = Inr demo_peer_session"
  by (simp add: host_peer_session_new_def validate_session_permissions_def demo_peer_session_def limits)

lemma demo_session_run:
  "fst (run_steps (peer_step demo_session_ops) demo_peer_session [AcceptOffer ''v=0'', MarkConnected]) = demo_connected"
  by (simp add: demo_peer_session_def demo_connected_def accept_offer_def mark_connected_def demo_session_ops_def demo_peer_def
      sdp_ok_def answer_ok_def limits)

lemma demo_key_envelope:
  "reliable_envelope demo_session_ops demo_connected [1] = Inr (demo_key_down,
     ReliableInputEnvelope_Keyboard \<lparr>ke_action = keyboard_action_code KeyboardAction_Down, ke_usb_hid_usage = 5, ke_modifier_bits = 0\<rparr>)"
proof -
  have "decode_and_validate_reliable_input_envelope (so_decode_reliable demo_session_ops) [1] = Inr demo_key_down"
    by (simp add: decode_and_validate_reliable_input_envelope_def demo_session_ops_def demo_key_down_def accepted
        version_ok_def bind_res_Inr limits all_ok_Inr range_eqI [of _ _ KeyboardAction_Down])
  then show ?thesis
    unfolding reliable_envelope_iff
    by (simp add: demo_connected_def demo_peer_session_def saturating_add_def del: keyboard_action_code.simps)
      (simp add: demo_key_down_def)
qed

definition demo_pressed :: "demo_desk platform_input_sink" where
  "demo_pressed = desk_sink\<lparr>ps_backend := \<lparr>dd_keys = {5}, dd_buttons = {}, dd_stuck = {4}\<rparr>, ps_pressed_keys := [5]\<rparr>"

lemma demo_key_sink: "sink_keyboard desk_backend desk_sink KeyboardAction_Down 5 0 = (demo_pressed, Inr ())"
  by (simp add: sink_keyboard_def reconcile_modifiers_def MODIFIER_COUNT_def numeral_nat Let_def desk_sink_def demo_pressed_def
        set_key_def desk_backend_def btset_insert_def FIRST_MODIFIER_USAGE_def)

lemma demo_key_applied:
  "handle_reliable demo_session_ops demo_connected [1] = (demo_connected\<lparr>hps_input := demo_pressed,
     hps_last_reliable_sequence := 1, hps_pressed_keys := {5}\<rparr>, Inr InputDisposition_Applied)"
proof -
  have "apply_reliable_event demo_session_ops demo_connected
      (ReliableInputEnvelope_Keyboard \<lparr>ke_action = keyboard_action_code KeyboardAction_Down, ke_usb_hid_usage = 5, ke_modifier_bits = 0\<rparr>)
    = (demo_connected\<lparr>hps_input := demo_pressed, hps_pressed_keys := {5}\<rparr>, Inr False)"
    using demo_key_sink
    by (simp add: apply_reliable_event_def apply_keyboard_def validate_keyboard_def limits Let_def inject_def
        demo_connected_def demo_peer_session_def demo_session_ops_def platform_input_ops_def keyboard_action_of_def)
  then show ?thesis
    by (simp add: handle_reliable_def demo_key_envelope Let_def) (simp add: demo_key_down_def)
qed

lemma demo_applied_once:
  assumes "handle_reliable demo_session_ops demo_connected [1] = (s, Inr InputDisposition_Applied)"
    and "handle_reliable demo_session_ops s [1] = (s, Inl e)"
  shows "length (applied_reliable demo_session_ops demo_peer_session
      [AcceptOffer ''v=0'', MarkConnected, Reliable [1], Reliable [1]]) = 1"
proof -
  have "fst (peer_step demo_session_ops (fst (peer_step demo_session_ops demo_peer_session (AcceptOffer ''v=0''))) MarkConnected)
      = demo_connected"
    using demo_session_run by (simp add: fst_run_steps_Cons del: peer_step.simps run_steps.simps(2))
  moreover obtain env where "decode_and_validate_reliable_input_envelope (so_decode_reliable demo_session_ops) [1] = Inr env"
    using demo_key_envelope by (auto simp: reliable_envelope_iff)
  ultimately show ?thesis
    using assms by (simp add: applied_Cons del: peer_step.simps) (simp add: applied_reliable_def)
qed

section \<open>Properties\<close>

text \<open>
  C26. Remote input reaches the machine only through an authorised, live session.  Whatever happened to the session before,
  when a message changes the input sink or is reported as applied, the session is connected, was created with the permission to
  control, the message names it and is well formed, its values are in range, and it is the next one
  in sequence, respectively, for the pointer channel, newer than all before.
\<close>

theorem input_only_when_permitted:
  assumes "host_peer_session_new sid permissions config peer input = Inr s0"
    and "s = fst (run_steps (peer_step ops) s0 xs)"
    and "handle_reliable ops s bs = (s1, r)" and "handle_pointer_fast ops s bs = (s2, q)"
  shows "(r = Inr InputDisposition_Applied \<or> hps_input s1 \<noteq> hps_input s \<longrightarrow>
      hps_state s = HostSessionState_Connected \<and> SessionPermission_ControlInput \<in> set permissions
      \<and> (\<exists>env ev. decode_and_validate_reliable_input_envelope (so_decode_reliable ops) bs = Inr env
           \<and> rie_session_id env = sid \<and> rie_sequence env = saturating_add (hps_last_reliable_sequence s) 1
           \<and> rie_event env = Some ev \<and> event_in_range ev))
    \<and> (q = Inr PointerDisposition_Applied \<or> hps_input s2 \<noteq> hps_input s \<longrightarrow>
      hps_state s = HostSessionState_Connected \<and> SessionPermission_ControlInput \<in> set permissions
      \<and> (\<exists>env ev. decode_and_validate_pointer_fast_envelope (so_decode_pointer ops) bs = Inr env
           \<and> pfe_session_id env = sid \<and> hps_last_pointer_sequence s < pfe_sequence env
           \<and> pfe_event env = Some ev \<and> pointer_in_range ev))"
proof -
  have "session_binding s0 = (sid, SessionPermission_ControlInput \<in> set permissions)"
    using assms(1) by (auto simp: host_peer_session_new_def session_binding_def bind_res_Inr split: if_splits)
  then have "session_binding s = (sid, SessionPermission_ControlInput \<in> set permissions)"
    unfolding assms(2) by (rule peer_binding.run_inv)
  then show ?thesis
    using reliable_reaches_sink [OF assms(3)] pointer_reaches_sink [OF assms(4)]
    by (auto simp: session_binding_def reliable_envelope_iff pointer_envelope_iff)
qed

theorem input_only_when_permitted_witness:
  "SessionPermission_ControlInput \<in> set [SessionPermission_ViewScreen, SessionPermission_ControlInput]
   \<and> hps_state demo_connected = HostSessionState_Connected"
  using input_only_when_permitted [OF demo_session_new demo_session_run [symmetric] demo_key_applied prod.collapse [symmetric]]
  by blast

text \<open>
  C27. Every message is injected at most once and in order.  In any run of a new session the reliable messages that are applied
  carry, in the order in which they are applied, exactly the sequence numbers 1, 2, 3 and so on without gap or repetition, as long as the
  64-bit counter has not saturated (from then on the last number repeats), and those on the pointer channel carry strictly increasing numbers.
  From any state on, a reliable message that was applied, its number not being the last one of 64 bits, is refused ever after without
  touching the session, and a pointer message that was applied is dropped, whatever the session goes through in between.
\<close>

theorem input_applied_once:
  assumes "host_peer_session_new sid permissions config peer input = Inr s0"
    and "s2 = fst (run_steps (peer_step ops) s1 xs)"
  shows "map unat (applied_reliable ops s0 ws) = map (\<lambda>i. min (Suc i) (2 ^ 64 - 1)) [0..<length (applied_reliable ops s0 ws)]
    \<and> sorted_wrt (<) (applied_pointer ops s0 ws)
    \<and> (handle_reliable ops s bs = (s1, Inr InputDisposition_Applied) \<and> hps_last_reliable_sequence s1 \<noteq> - 1 \<longrightarrow>
      (\<exists>e. handle_reliable ops s2 bs = (s2, Inl e)))
    \<and> (handle_pointer_fast ops s bs = (s1, Inr PointerDisposition_Applied) \<longrightarrow>
      fst (handle_pointer_fast ops s2 bs) = s2 \<and> snd (handle_pointer_fast ops s2 bs) \<noteq> Inr PointerDisposition_Applied)"
proof (intro conjI impI)
  have "hps_last_reliable_sequence s0 = 0"
    using assms(1) by (auto simp: host_peer_session_new_def bind_res_Inr split: if_splits)
  then show "map unat (applied_reliable ops s0 ws) = map (\<lambda>i. min (Suc i) (2 ^ 64 - 1)) [0..<length (applied_reliable ops s0 ws)]"
    using reliable_in_order [of ops s0 ws] by simp
  show "sorted_wrt (<) (applied_pointer ops s0 ws)" using pointer_in_order [of s0 ops ws] by simp
next
  assume h: "handle_reliable ops s bs = (s1, Inr InputDisposition_Applied) \<and> hps_last_reliable_sequence s1 \<noteq> - 1"
  obtain env ev where e: "reliable_envelope ops s bs = Inr (env, ev)" "hps_last_reliable_sequence s1 = rie_sequence env"
    using h by (cases rule: reliable_shape [of ops s bs]) auto
  have le: "rie_sequence env \<le> hps_last_reliable_sequence s2"
    using reliable_sequence.run_rank [of s1 ops xs] assms(2) e(2) by simp
  have "unat (rie_sequence env) < 2 ^ 64 - 1"
    using h e(2) unat_lt2p [of "rie_sequence env"] unat_inject [of "rie_sequence env" "- 1"]
    by (simp add: unsigned_minus_1_eq_mask mask_eq_exp_minus_1)
  then have "rie_sequence env \<noteq> saturating_add (hps_last_reliable_sequence s2) 1"
    using le unat_saturating_add [of "hps_last_reliable_sequence s2" 1] by (auto simp: word_le_nat_alt)
  then have "reliable_envelope ops s2 bs \<noteq> Inr p" for p
    using e(1) by (cases p) (auto simp: reliable_envelope_iff)
  then show "\<exists>e. handle_reliable ops s2 bs = (s2, Inl e)"
    by (cases "reliable_envelope ops s2 bs") (auto simp: handle_reliable_def)
next
  assume h: "handle_pointer_fast ops s bs = (s1, Inr PointerDisposition_Applied)"
  obtain env where e: "pointer_envelope ops s bs = Inr env" "hps_last_pointer_sequence s1 = pfe_sequence env"
    using h by (cases rule: pointer_shape [of ops s bs]) auto
  have le: "pfe_sequence env \<le> hps_last_pointer_sequence s2"
    using pointer_sequence.run_rank [of s1 ops xs] assms(2) e(2) by simp
  have "pointer_envelope ops s2 bs = Inr env'  \<Longrightarrow> env' = env" for env' using e(1) by (auto simp: pointer_envelope_iff)
  then show "fst (handle_pointer_fast ops s2 bs) = s2" "snd (handle_pointer_fast ops s2 bs) \<noteq> Inr PointerDisposition_Applied"
    using le by (cases "pointer_envelope ops s2 bs"; fastforce simp: handle_pointer_fast_def)+
qed

theorem input_applied_once_witness:
  "map unat (applied_reliable demo_session_ops demo_peer_session
       [AcceptOffer ''v=0'', MarkConnected, Reliable [1], Reliable [1]]) = [1]
   \<and> (\<exists>s e. handle_reliable demo_session_ops demo_connected [1] = (s, Inr InputDisposition_Applied)
     \<and> handle_reliable demo_session_ops s [1] = (s, Inl e))"
proof -
  obtain s where s: "handle_reliable demo_session_ops demo_connected [1] = (s, Inr InputDisposition_Applied)"
    "hps_last_reliable_sequence s = 1" using demo_key_applied by simp
  have run: "s = fst (run_steps (peer_step demo_session_ops) s [])" by simp
  note once = input_applied_once [OF demo_session_new run, of "[AcceptOffer ''v=0'', MarkConnected, Reliable [1], Reliable [1]]"
      demo_connected "[1]"]
  obtain e where e: "handle_reliable demo_session_ops s [1] = (s, Inl e)" using once s by auto
  from once demo_applied_once [OF s(1) e] have "map unat (applied_reliable demo_session_ops demo_peer_session
      [AcceptOffer ''v=0'', MarkConnected, Reliable [1], Reliable [1]]) = [1]" by simp
  with s e show ?thesis by blast
qed

text \<open>
  C28. Closing a session lets go of the machine.  On the platform sink, from an idle start: a session that is not
  connected holds no input, or it is closed and knows that a release is still owed; once closed it stays closed; \<^verbatim>\<open>close\<close> on a
  closed session retries a release that is owed, reporting what the sink reports, and otherwise does nothing.  So when a close reports success, no
  key and no button that the session pressed is still held, provided the operating system obeys its law and held
  nothing at the start.
\<close>

theorem close_releases_input:
  assumes "host_peer_session_new sid permissions config peer input = Inr s0" and "sink_idle input"
    and "so_input ops = platform_input_ops b" and "s = fst (run_steps (peer_step ops) s0 xs)"
    and "session_close ops s = (s', r)"
  shows "(hps_state s \<noteq> HostSessionState_Connected \<longrightarrow> sink_idle (hps_input s)
        \<or> hps_state s = HostSessionState_Closed \<and> hps_input_cleanup_pending s)
    \<and> hps_state (fst (run_steps (peer_step ops) s' ys)) = HostSessionState_Closed
    \<and> (\<not> hps_input_cleanup_pending s' \<longrightarrow> sink_idle (hps_input s') \<and> session_close ops s' = (s', Inr ()))
    \<and> (r = Inr () \<longrightarrow> sink_idle (hps_input s'))
    \<and> (r = Inr () \<and> backend_law b keys buttons \<and> keys (ps_backend input) = {} \<and> buttons (ps_backend input) = {} \<longrightarrow>
         keys (ps_backend (hps_input s')) = {} \<and> buttons (ps_backend (hps_input s')) = {})
    \<and> (hps_input_cleanup_pending s' \<and> sink_release_all b (hps_input s') = (i, q) \<longrightarrow>
         hps_input (fst (session_close ops s')) = i \<and> snd (session_close ops s') = q)"
proof -
  have s0: "hps_state s0 = HostSessionState_New" "hps_input s0 = input"
    using assms(1) by (auto simp: host_peer_session_new_def bind_res_Inr split: if_splits)
  then have "session_ok sink_idle s0" using assms(2) by (simp add: session_ok_def)
  then have ok: "session_ok sink_idle s"
    using peer.run_inv [of ops b s0 xs] assms(3,4) by simp
  have ok': "session_ok sink_idle s'" using platform.close_ok [OF assms(3) ok] assms(5) by simp
  have st: "hps_state s' = HostSessionState_Closed" using close_kept(1) [of ops s] assms(5) by simp
  have open_state: "hps_state s \<noteq> HostSessionState_Connected \<longrightarrow> sink_idle (hps_input s)
        \<or> hps_state s = HostSessionState_Closed \<and> hps_input_cleanup_pending s"
    using ok by (cases "hps_state s") (auto simp: session_ok_def)
  have final: "hps_state (fst (run_steps (peer_step ops) s' ys)) = HostSessionState_Closed"
    using st by (rule closed_peer.run_inv)
  have again: "\<not> hps_input_cleanup_pending s' \<longrightarrow> sink_idle (hps_input s') \<and> session_close ops s' = (s', Inr ())"
    using ok' st by (auto simp: session_ok_def session_close_def)
  have "hps_input_cleanup_pending s' = False" if "r = Inr ()"
    using assms(5) that
    by (auto simp: session_close_def session_release_all_def split_def Let_def and_res_def split: if_splits sum.splits)
  then have idle: "r = Inr () \<longrightarrow> sink_idle (hps_input s')" using again by blast
  have "tracked keys buttons (hps_input s')"
    if "backend_law b keys buttons" "keys (ps_backend input) = {}" "buttons (ps_backend input) = {}"
  proof -
    have "tracked keys buttons (hps_input s0)" using s0 that by (simp add: tracked_def)
    then have "tracked keys buttons (hps_input s)"
      using peer_held.run_inv [of ops b keys buttons s0 xs] assms(3,4) that(1) by simp
    then show ?thesis using platform_tracked.close_session_inv [OF assms(3), of keys buttons s] that(1) assms(5) by simp
  qed
  then have held: "r = Inr () \<and> backend_law b keys buttons \<and> keys (ps_backend input) = {} \<and> buttons (ps_backend input) = {} \<longrightarrow>
      keys (ps_backend (hps_input s')) = {} \<and> buttons (ps_backend (hps_input s')) = {}"
    using idle by (auto simp: tracked_def sink_idle_def)
  have retry: "hps_input_cleanup_pending s' \<and> sink_release_all b (hps_input s') = (i, q) \<longrightarrow>
      hps_input (fst (session_close ops s')) = i \<and> snd (session_close ops s') = q"
    using st assms(3) by (simp add: session_close_def session_release_all_def platform_input_ops_def)
  show ?thesis by (intro conjI open_state final again idle held retry)
qed

theorem close_releases_input_witness:
  "let s = fst (run_steps (peer_step demo_session_ops) demo_peer_session [AcceptOffer ''v=0'', MarkConnected, Reliable [1]])
   in dd_keys (ps_backend (hps_input s)) = {5} \<and> dd_keys (ps_backend (hps_input (fst (session_close demo_session_ops s)))) = {}"
proof -
  define s where "s = fst (run_steps (peer_step demo_session_ops) demo_peer_session [AcceptOffer ''v=0'', MarkConnected, Reliable [1]])"
  have run: "s = fst (handle_reliable demo_session_ops demo_connected [1])"
    using demo_session_run fst_run_steps_append [of "peer_step demo_session_ops" demo_peer_session
        "[AcceptOffer ''v=0'', MarkConnected]" "[Reliable [1]]"] by (simp add: s_def split_def Let_def)
  have i: "hps_input s = demo_pressed" "hps_state s = HostSessionState_Connected"
    by (simp_all add: run demo_key_applied) (simp add: demo_connected_def)
  have "snd (session_close demo_session_ops s) = Inr ()"
    using i by (simp add: session_close_def session_release_all_def demo_session_ops_def platform_input_ops_def
        sink_release_all_def demo_pressed_def desk_sink_def desk_backend_def demo_peer_def Let_def split_def)
  then obtain s' where c: "session_close demo_session_ops s = (s', Inr ())" by (metis prod.collapse)
  have ops: "so_input demo_session_ops = platform_input_ops desk_backend" by (simp add: demo_session_ops_def)
  have idle: "sink_idle desk_sink" "dd_keys (ps_backend desk_sink) = {}" "dd_buttons (ps_backend desk_sink) = {}"
    by (simp_all add: sink_idle_def desk_sink_def)
  have "dd_keys (ps_backend (hps_input s')) = {}"
    using close_releases_input [OF demo_session_new idle(1) ops s_def c, of "[]" dd_keys dd_buttons] idle desk_law by simp
  then show ?thesis unfolding s_def [symmetric] using i c by (simp add: demo_pressed_def)
qed

text \<open>
  One inbound session at a time.  After any history of the gate: a session is admitted exactly when its identifier
  is well formed and nobody holds the gate; while it is held, only the very lease that was handed out
  releases it; and a lease that was released never releases a later session, until 64 bits of generations are used up.
\<close>

theorem gate_exclusive:
  assumes "g = fst (run_steps gate_step session_gate_new xs)"
  shows "(is_ok (snd (gate_acquire g i)) \<longleftrightarrow> length i = 16 \<and> sgt_active g = None)
    \<and> (gate_acquire g i = (g', Inr l) \<longrightarrow> sgt_active g' = Some l \<and> sl_session_id l = i
         \<and> (\<forall>j. \<not> is_ok (snd (gate_acquire g' j)))
         \<and> (\<forall>k. is_ok (snd (gate_release g' k)) \<longleftrightarrow> k = l)
         \<and> (\<forall>ys k. let h = fst (run_steps gate_step (fst (gate_release g' l)) ys)
             in sgt_generation g' \<noteq> - 1 \<and> sgt_active h = Some k \<longrightarrow> k \<noteq> l))"
proof -
  have inv: "gate_inv g"
    unfolding assms by (rule gate.run_inv) (simp add: gate_inv_def session_gate_new_def)
  have acquire: "is_ok (snd (gate_acquire g i)) \<longleftrightarrow> length i = 16 \<and> sgt_active g = None"
    by (simp add: gate_acquire_def Let_def limits)
  have later: "sl_generation k > sgt_generation g'"
    if "sgt_active (fst (run_steps gate_step h ys)) = Some k" "sgt_active h = None" "sgt_generation h = sgt_generation g'"
      "sgt_generation g' \<noteq> - 1" "gate_inv h" for h ys k
    using that
  proof (induction ys arbitrary: h)
    case (Cons a ys)
    let ?h = "fst (gate_step h a)"
    have run: "sgt_active (fst (run_steps gate_step ?h ys)) = Some k" using Cons.prems(1) by (simp only: fst_run_steps_Cons)
    have inv': "gate_inv ?h" using Cons.prems(5) by (rule gate.step_inv)
    show ?case
    proof (cases "sgt_active ?h")
      case None
      then have "sgt_generation ?h = sgt_generation g'"
        using Cons.prems by (cases a) (auto simp: gate_acquire_def gate_release_def Let_def split: if_splits)
      then show ?thesis using Cons.IH [OF run None] Cons.prems(4) inv' by blast
    next
      case (Some m)
      then have gen: "sgt_generation ?h = saturating_add (sgt_generation g') 1"
        using Cons.prems by (cases a) (auto simp: gate_acquire_def gate_release_def Let_def split: if_splits)
      have "gate_inv (fst (run_steps gate_step ?h ys))" using inv' by (rule gate.run_inv)
      then have "sl_generation k = sgt_generation (fst (run_steps gate_step ?h ys))" using run by (simp add: gate_inv_def)
      also have "\<dots> \<ge> saturating_add (sgt_generation g') 1" using gate.run_rank [OF inv', of ys] gen by simp
      finally have "saturating_add (sgt_generation g') 1 \<le> sl_generation k" .
      moreover have "sgt_generation g' < saturating_add (sgt_generation g') 1"
        using Cons.prems(4) unat_lt2p [of "sgt_generation g'"] unat_inject [of "sgt_generation g'" "- 1"]
        by (auto simp: word_less_nat_alt unat_saturating_add unsigned_minus_1_eq_mask mask_eq_exp_minus_1)
      ultimately show ?thesis by simp
    qed
  qed simp
  show ?thesis
  proof (intro conjI impI acquire)
    assume a: "gate_acquire g i = (g', Inr l)"
    then have l: "sgt_active g' = Some l" "sl_session_id l = i" "sl_generation l = sgt_generation g'"
      by (auto simp: gate_acquire_def Let_def split: if_splits)
    then show "sgt_active g' = Some l" "sl_session_id l = i" "\<forall>j. \<not> is_ok (snd (gate_acquire g' j))"
      "\<forall>k. is_ok (snd (gate_release g' k)) \<longleftrightarrow> k = l"
      by (simp_all add: gate_acquire_def gate_release_def)
    have h: "sgt_active (fst (gate_release g' l)) = None" "sgt_generation (fst (gate_release g' l)) = sgt_generation g'"
      "gate_inv (fst (gate_release g' l))" using l by (simp_all add: gate_release_def gate_inv_def)
    show "\<forall>ys k. let h = fst (run_steps gate_step (fst (gate_release g' l)) ys)
             in sgt_generation g' \<noteq> - 1 \<and> sgt_active h = Some k \<longrightarrow> k \<noteq> l"
      using later [OF _ h(1,2) _ h(3)] l(3) unfolding Let_def by (metis order.strict_iff_not order_refl)
  qed
qed

theorem gate_exclusive_witness:
  "\<exists>g l. gate_acquire session_gate_new (replicate 16 3) = (g, Inr l) \<and> \<not> is_ok (snd (gate_acquire g (replicate 16 4)))"
proof -
  obtain g l where a: "gate_acquire session_gate_new (replicate 16 3) = (g, Inr l)"
    by (simp add: gate_acquire_def session_gate_new_def limits Let_def)
  have "session_gate_new = fst (run_steps gate_step session_gate_new [])" by simp
  from gate_exclusive [OF this, of "replicate 16 3" g l] a show ?thesis by blast
qed

end
