(* ===== verification/Bridge_Helper.thy ===== *)
theory Bridge_Helper
  imports Bridge_Lease Peer_Session
begin

text \<open>
  The session helper of the privileged bridge, \<^verbatim>\<open>crates/privileged-bridge/src/helper.rs\<close>, with the route and event
  types of \<^verbatim>\<open>proxy.rs\<close> that it shares with the broker and the proxy: the lease gate, the command handler that
  reaches the native peer only under the attached route, and the numbering of native events.  The native backend is a
  parameter, the record \<open>helper_backend_ops\<close>.
\<close>

section \<open>Routes and events\<close>

record proxy_route =
  pr_lease_id :: lease_id
  pr_generation :: u64

definition proxy_route_new :: "lease_id \<Rightarrow> u64 \<Rightarrow> proxy_route" where
  "proxy_route_new lease_id generation = \<lparr>pr_lease_id = lease_id, pr_generation = generation\<rparr>"

datatype proxy_event =
    ProxyEvent_Connected
  | ProxyEvent_Disconnected
  | ProxyEvent_Failed
  | ProxyEvent_LocalStop
  | ProxyEvent_LocalIceCandidate peer_ice_candidate
  | ProxyEvent_ReliableInput bytes
  | ProxyEvent_FastPointer bytes

text \<open>The decimal digits of \<^verbatim>\<open>format!\<close>.\<close>

fun decimal :: "nat \<Rightarrow> string" where
  "decimal n = (if n < 10 then [char_of (48 + n)] else decimal (n div 10) @ [char_of (48 + n mod 10)])"

declare decimal.simps [simp del]

section \<open>The lease gate\<close>

datatype helper_error = HelperError_LeaseRequired | HelperError_StaleRoute

record helper_lease_gate =
  hlg_route :: "proxy_route option"

definition helper_lease_gate_new :: helper_lease_gate where
  "helper_lease_gate_new = \<lparr>hlg_route = None\<rparr>"

definition gate_attach :: "helper_lease_gate \<Rightarrow> proxy_route \<Rightarrow> helper_lease_gate \<times> (helper_error + unit)" where
  "gate_attach g route =
     (if pr_generation route = 0
         \<or> (case hlg_route g of None \<Rightarrow> False | Some current \<Rightarrow> pr_generation route \<le> pr_generation current)
      then (g, Inl HelperError_StaleRoute)
      else (g\<lparr>hlg_route := Some route\<rparr>, Inr ()))"

definition gate_authorize :: "helper_lease_gate \<Rightarrow> lease_id \<Rightarrow> u64 \<Rightarrow> helper_error + unit" where
  "gate_authorize g lease_id generation =
     (case hlg_route g of
        None \<Rightarrow> Inl HelperError_LeaseRequired
      | Some route \<Rightarrow>
          if pr_lease_id route = lease_id \<and> pr_generation route = generation then Inr ()
          else Inl HelperError_StaleRoute)"

definition gate_clear :: "helper_lease_gate \<Rightarrow> helper_lease_gate \<times> bool" where
  "gate_clear g = (g\<lparr>hlg_route := None\<rparr>, hlg_route g \<noteq> None)"

section \<open>Frames\<close>

datatype helper_protocol_error =
    HelperProtocolError_InvalidMessage
  | HelperProtocolError_StaleRoute
  | HelperProtocolError_Backend
  | HelperProtocolError_SequenceOverflow

definition helper_parse_route :: "bytes \<Rightarrow> u64 \<Rightarrow> helper_protocol_error + proxy_route" where
  "helper_parse_route lease_id generation =
     (if length lease_id \<noteq> 16 then Inl HelperProtocolError_InvalidMessage
      else if generation = 0 then Inl HelperProtocolError_InvalidMessage
      else Inr (proxy_route_new (LeaseId lease_id) generation))"

definition helper_response_frame ::
  "privileged_bridge_client_frame \<Rightarrow> privileged_bridge_server_frame_payload \<Rightarrow> privileged_bridge_server_frame" where
  "helper_response_frame request payload =
     \<lparr>pbsf_protocol_version = Some \<lparr>pv_major = 1, pv_minor = 0\<rparr>, pbsf_request_id = pbcf_request_id request,
      pbsf_sequence = pbcf_sequence request, pbsf_payload = Some payload\<rparr>"

definition accepted_response ::
  "privileged_bridge_client_frame \<Rightarrow> proxy_route \<Rightarrow> privileged_bridge_server_frame" where
  "accepted_response request route =
     helper_response_frame request (PrivilegedBridgeServerFrame_CommandAccepted
       \<lparr>pca_lease_id = lease_id_bytes (pr_lease_id route), pca_generation = pr_generation route\<rparr>)"

definition answer_response ::
  "privileged_bridge_client_frame \<Rightarrow> proxy_route \<Rightarrow> peer_answer \<Rightarrow> privileged_bridge_server_frame" where
  "answer_response request route answer =
     helper_response_frame request (PrivilegedBridgeServerFrame_PeerAnswer
       \<lparr>ppa_lease_id = lease_id_bytes (pr_lease_id route), ppa_generation = pr_generation route,
        ppa_answer = Some \<lparr>wrsd_type = session_description_type_code SessionDescriptionType_Answer,
          wrsd_sdp = pa_sdp answer, wrsd_dtls_fingerprint_sha256 = pa_dtls_fingerprint_sha256 answer\<rparr>\<rparr>)"

definition state_event :: "proxy_route \<Rightarrow> privileged_peer_state \<Rightarrow> privileged_bridge_server_frame_payload" where
  "state_event route st = PrivilegedBridgeServerFrame_PeerStateChanged
     \<lparr>ppsc_lease_id = lease_id_bytes (pr_lease_id route), ppsc_generation = pr_generation route,
      ppsc_state = privileged_peer_state_code st\<rparr>"

fun event_payload :: "proxy_route \<Rightarrow> proxy_event \<Rightarrow> privileged_bridge_server_frame_payload" where
  "event_payload route ProxyEvent_Connected = state_event route PrivilegedPeerState_Connected"
| "event_payload route ProxyEvent_Disconnected = state_event route PrivilegedPeerState_Disconnected"
| "event_payload route ProxyEvent_Failed = state_event route PrivilegedPeerState_Failed"
| "event_payload route ProxyEvent_LocalStop = state_event route PrivilegedPeerState_Closed"
| "event_payload route (ProxyEvent_LocalIceCandidate candidate) = PrivilegedBridgeServerFrame_LocalIceCandidate
     \<lparr>plic_lease_id = lease_id_bytes (pr_lease_id route), plic_generation = pr_generation route,
      plic_candidate = Some \<lparr>ic_candidate = pic2_candidate candidate, ic_sdp_mid = pic2_sdp_mid candidate,
        ic_sdp_m_line_index = pic2_sdp_m_line_index candidate\<rparr>\<rparr>"
| "event_payload route (ProxyEvent_ReliableInput encoded_envelope) = PrivilegedBridgeServerFrame_ReliableInput
     \<lparr>prie_lease_id = lease_id_bytes (pr_lease_id route), prie_generation = pr_generation route,
      prie_encoded_envelope = encoded_envelope\<rparr>"
| "event_payload route (ProxyEvent_FastPointer encoded_envelope) = PrivilegedBridgeServerFrame_FastPointer
     \<lparr>pfpe_lease_id = lease_id_bytes (pr_lease_id route), pfpe_generation = pr_generation route,
      pfpe_encoded_envelope = encoded_envelope\<rparr>"

definition event_frame :: "proxy_route \<Rightarrow> u64 \<Rightarrow> proxy_event \<Rightarrow> privileged_bridge_server_frame" where
  "event_frame route sequence event =
     \<lparr>pbsf_protocol_version = Some \<lparr>pv_major = 1, pv_minor = 0\<rparr>,
      pbsf_request_id = ''event-'' @ decimal (unat sequence), pbsf_sequence = sequence,
      pbsf_payload = Some (event_payload route event)\<rparr>"

section \<open>The protocol\<close>

record 'b helper_backend_ops =
  hbo_start :: "'b \<Rightarrow> privileged_peer_configuration \<Rightarrow> web_rtc_session_description \<Rightarrow> string
    \<Rightarrow> 'b \<times> (helper_protocol_error + peer_answer)"
  hbo_restart :: "'b \<Rightarrow> privileged_peer_configuration \<Rightarrow> web_rtc_session_description \<Rightarrow> string
    \<Rightarrow> 'b \<times> (helper_protocol_error + peer_answer)"
  hbo_add_candidate :: "'b \<Rightarrow> ice_candidate \<Rightarrow> 'b \<times> (helper_protocol_error + unit)"
  hbo_input :: "'b \<Rightarrow> privileged_input_command \<Rightarrow> 'b \<times> (helper_protocol_error + unit)"
  hbo_secure_attention :: "'b \<Rightarrow> 'b \<times> (helper_protocol_error + unit)"
  hbo_close :: "'b \<Rightarrow> 'b \<times> (helper_protocol_error + unit)"
  hbo_try_event :: "'b \<Rightarrow> 'b \<times> (helper_protocol_error + proxy_event option)"
  hbo_fail_closed :: "'b \<Rightarrow> 'b"

record 'b helper_protocol =
  hp_gate :: helper_lease_gate
  hp_backend :: 'b
  hp_next_event_sequence :: u64
  hp_failed :: bool

definition helper_protocol_new :: "'b \<Rightarrow> 'b helper_protocol" where
  "helper_protocol_new backend = \<lparr>hp_gate = helper_lease_gate_new, hp_backend = backend,
     hp_next_event_sequence = 1, hp_failed = False\<rparr>"

definition helper_fail_closed :: "'b helper_backend_ops \<Rightarrow> 'b helper_protocol \<Rightarrow> 'b helper_protocol" where
  "helper_fail_closed ops h =
     (if hp_failed h then h
      else h\<lparr>hp_failed := True, hp_gate := fst (gate_clear (hp_gate h)),
             hp_backend := hbo_fail_closed ops (hp_backend h)\<rparr>)"

definition attach_or_authorize ::
  "'b helper_protocol \<Rightarrow> proxy_route \<Rightarrow> 'b helper_protocol \<times> (helper_protocol_error + unit)" where
  "attach_or_authorize h route =
     (if hlg_route (hp_gate h) = Some route then (h, Inr ())
      else let (g, r) = gate_attach (hp_gate h) route
           in (h\<lparr>hp_gate := g\<rparr>, map_err (\<lambda>_. HelperProtocolError_StaleRoute) r))"

definition helper_authorize ::
  "'b helper_protocol \<Rightarrow> bytes \<Rightarrow> u64 \<Rightarrow> helper_protocol_error + proxy_route" where
  "helper_authorize h lease_id generation =
     bind_res (helper_parse_route lease_id generation) (\<lambda>route.
       bind_res (map_err (\<lambda>_. HelperProtocolError_StaleRoute)
         (gate_authorize (hp_gate h) (pr_lease_id route) (pr_generation route))) (\<lambda>_. Inr route))"

text \<open>One call of the backend, and one that is authorised first and acknowledged afterwards.\<close>

definition on_backend ::
  "'b helper_protocol \<Rightarrow> ('b \<Rightarrow> 'b \<times> (helper_protocol_error + 'a)) \<Rightarrow> 'b helper_protocol \<times> (helper_protocol_error + 'a)" where
  "on_backend h call = (let (b, r) = call (hp_backend h) in (h\<lparr>hp_backend := b\<rparr>, r))"

definition start_on ::
  "('b \<Rightarrow> privileged_peer_configuration \<Rightarrow> web_rtc_session_description \<Rightarrow> string \<Rightarrow> 'b \<times> (helper_protocol_error + peer_answer))
    \<Rightarrow> 'b helper_protocol \<Rightarrow> privileged_bridge_client_frame \<Rightarrow> bytes \<Rightarrow> u64
    \<Rightarrow> privileged_peer_configuration option \<Rightarrow> web_rtc_session_description option \<Rightarrow> string
    \<Rightarrow> 'b helper_protocol \<times> (helper_protocol_error + privileged_bridge_server_frame)" where
  "start_on start h request lease_id generation configuration offer name =
     (case helper_parse_route lease_id generation of
        Inl e \<Rightarrow> (h, Inl e)
      | Inr route \<Rightarrow>
          sbind (attach_or_authorize h route) (\<lambda>h _.
            case configuration of
              None \<Rightarrow> (h, Inl HelperProtocolError_InvalidMessage)
            | Some c \<Rightarrow>
            (case offer of
               None \<Rightarrow> (h, Inl HelperProtocolError_InvalidMessage)
             | Some d \<Rightarrow> sbind (on_backend h (\<lambda>b. start b c d name)) (\<lambda>h answer.
                 (h, Inr (answer_response request route answer))))))"

definition accept_on ::
  "('b \<Rightarrow> 'b \<times> (helper_protocol_error + unit)) \<Rightarrow> 'b helper_protocol \<Rightarrow> privileged_bridge_client_frame
    \<Rightarrow> bytes \<Rightarrow> u64 \<Rightarrow> 'b helper_protocol \<times> (helper_protocol_error + privileged_bridge_server_frame)" where
  "accept_on call h request lease_id generation =
     (case helper_authorize h lease_id generation of
        Inl e \<Rightarrow> (h, Inl e)
      | Inr route \<Rightarrow> sbind (on_backend h call) (\<lambda>h _. (h, Inr (accepted_response request route))))"

definition helper_handle_inner ::
  "'b helper_backend_ops \<Rightarrow> 'b helper_protocol \<Rightarrow> privileged_bridge_client_frame
    \<Rightarrow> 'b helper_protocol \<times> (helper_protocol_error + privileged_bridge_server_frame)" where
  "helper_handle_inner ops h request =
     (case pbcf_payload request of
        None \<Rightarrow> (h, Inl HelperProtocolError_InvalidMessage)
      | Some (PrivilegedBridgeClientFrame_StartPeer v) \<Rightarrow>
          start_on (hbo_start ops) h request (sppr_lease_id v) (sppr_generation v) (sppr_configuration v)
            (sppr_offer v) (sppr_controller_display_name v)
      | Some (PrivilegedBridgeClientFrame_RestartPeer v) \<Rightarrow>
          start_on (hbo_restart ops) h request (rppr_lease_id v) (rppr_generation v) (rppr_configuration v)
            (rppr_offer v) (rppr_controller_display_name v)
      | Some (PrivilegedBridgeClientFrame_AddIceCandidate v) \<Rightarrow>
          (case helper_authorize h (apicr_lease_id v) (apicr_generation v) of
             Inl e \<Rightarrow> (h, Inl e)
           | Inr route \<Rightarrow>
               (case apicr_candidate v of
                  None \<Rightarrow> (h, Inl HelperProtocolError_InvalidMessage)
                | Some c \<Rightarrow> sbind (on_backend h (\<lambda>b. hbo_add_candidate ops b c)) (\<lambda>h _.
                    (h, Inr (accepted_response request route)))))
      | Some (PrivilegedBridgeClientFrame_InputCommand v) \<Rightarrow>
          accept_on (\<lambda>b. hbo_input ops b v) h request (pic_lease_id v) (pic_generation v)
      | Some (PrivilegedBridgeClientFrame_SendSecureAttention v) \<Rightarrow>
          accept_on (hbo_secure_attention ops) h request (ssar_lease_id v) (ssar_generation v)
      | Some (PrivilegedBridgeClientFrame_ClosePeer v) \<Rightarrow>
          accept_on (hbo_close ops) h request (cppr_lease_id v) (cppr_generation v)
      | Some (PrivilegedBridgeClientFrame_ReleaseLease v) \<Rightarrow>
          sbind (accept_on (hbo_close ops) h request (rplr2_lease_id v) (rplr2_generation v)) (\<lambda>h response.
            (h\<lparr>hp_gate := fst (gate_clear (hp_gate h))\<rparr>, Inr response))
      | Some (PrivilegedBridgeClientFrame_Authenticate _) \<Rightarrow> (h, Inl HelperProtocolError_InvalidMessage)
      | Some (PrivilegedBridgeClientFrame_RegisterHelper _) \<Rightarrow> (h, Inl HelperProtocolError_InvalidMessage)
      | Some (PrivilegedBridgeClientFrame_AcquireLease _) \<Rightarrow> (h, Inl HelperProtocolError_InvalidMessage)
      | Some (PrivilegedBridgeClientFrame_RenewLease _) \<Rightarrow> (h, Inl HelperProtocolError_InvalidMessage))"

definition helper_handle ::
  "'b helper_backend_ops \<Rightarrow> 'b helper_protocol \<Rightarrow> privileged_bridge_client_frame
    \<Rightarrow> 'b helper_protocol \<times> (helper_protocol_error + privileged_bridge_server_frame)" where
  "helper_handle ops h request =
     (if hp_failed h then (h, Inl HelperProtocolError_Backend)
      else let (h', result) = helper_handle_inner ops h request
           in if result = Inl HelperProtocolError_Backend then (helper_fail_closed ops h', result)
              else (h', result))"

definition helper_try_event ::
  "'b helper_backend_ops \<Rightarrow> 'b helper_protocol
    \<Rightarrow> 'b helper_protocol \<times> (helper_protocol_error + privileged_bridge_server_frame option)" where
  "helper_try_event ops h =
     (if hp_failed h then (h, Inl HelperProtocolError_Backend)
      else case hbo_try_event ops (hp_backend h) of
        (b, Inl e) \<Rightarrow> (helper_fail_closed ops (h\<lparr>hp_backend := b\<rparr>), Inl e)
      | (b, Inr None) \<Rightarrow> (h\<lparr>hp_backend := b\<rparr>, Inr None)
      | (b, Inr (Some event)) \<Rightarrow>
          (let h = h\<lparr>hp_backend := b\<rparr> in
           case hlg_route (hp_gate h) of
             None \<Rightarrow> (h, Inl HelperProtocolError_StaleRoute)
           | Some route \<Rightarrow>
               (let sequence = hp_next_event_sequence h in
                case checked_add sequence 1 of
                  None \<Rightarrow> (h, Inl HelperProtocolError_SequenceOverflow)
                | Some n \<Rightarrow> (h\<lparr>hp_next_event_sequence := n\<rparr>, Inr (Some (event_frame route sequence event))))))"

definition helper_shutdown :: "'b helper_backend_ops \<Rightarrow> 'b helper_protocol \<Rightarrow> 'b helper_protocol" where
  "helper_shutdown ops h = helper_fail_closed ops h"

end
