(* ===== verification/Bridge_Route.thy ===== *)
theory Bridge_Route
  imports Roam_Prelude
begin

text \<open>
  The graphical-session state machine of the privileged broker,
  \<^verbatim>\<open>crates/privileged-bridge/src/session.rs\<close>: it turns observations of the operating system (a session
  became available, was locked, lost, logged out) into an ordered list of effects, under a generation that
  only moves forward one step at a time.
\<close>

section \<open>State and operations\<close>

datatype platform = Platform_Windows | Platform_Macos

datatype desktop_kind = DesktopKind_Normal | DesktopKind_LockedLogin | DesktopKind_Secure

record route_session =
  rs_platform :: platform
  rs_os_session_id :: u64
  rs_desktop :: desktop_kind
  rs_generation :: u64

datatype route_event =
    SessionAvailable route_session
  | RouteLost u64
  | HelperCrashed u64
  | BrokerRestarted u64
  | HostDisconnected u64
  | LoggedOut u64

datatype session_action =
    FreezeInput
  | ReleaseAllInput
  | PeerDisconnected
  | ClearRoute
  | PublishRoute route_session

datatype session_error =
    SessionError_StaleGeneration
  | SessionError_GenerationGap
  | SessionError_ConflictingDuplicate
  | SessionError_UnexpectedOsSession
  | SessionError_RouteUnavailable

record session_state_machine =
  sm_generation :: u64
  sm_current :: "route_session option"
  sm_controlled_lease :: bool
  sm_input_enabled :: bool

definition session_state_machine_new :: session_state_machine where
  "session_state_machine_new = \<lparr>sm_generation = 0, sm_current = None,
     sm_controlled_lease = False, sm_input_enabled = False\<rparr>"

definition freeze_actions ::
  "session_state_machine \<Rightarrow> bool \<Rightarrow> session_state_machine \<times> session_action list" where
  "freeze_actions s clear_route =
     (s\<lparr>sm_input_enabled := False, sm_controlled_lease := False\<rparr>,
      (if sm_controlled_lease s \<or> sm_input_enabled s
       then [FreezeInput, ReleaseAllInput, PeerDisconnected] else [])
      @ (if clear_route \<and> sm_current s \<noteq> None then [ClearRoute] else []))"

definition apply_available ::
  "session_state_machine \<Rightarrow> route_session
    \<Rightarrow> session_state_machine \<times> (session_error + session_action list)" where
  "apply_available s next =
     (if rs_os_session_id next = 0 then (s, Inl SessionError_UnexpectedOsSession)
      else if rs_generation next < sm_generation s then (s, Inl SessionError_StaleGeneration)
      else if rs_generation next = sm_generation s then
        (if sm_current s = Some next then (s, Inr [])
         else (s, Inl SessionError_ConflictingDuplicate))
      else if sm_generation s \<noteq> 0 \<and> rs_generation next \<noteq> sm_generation s + 1
        then (s, Inl SessionError_GenerationGap)
      else if (case sm_current s of None \<Rightarrow> False
               | Some current \<Rightarrow> rs_os_session_id next \<noteq> rs_os_session_id current)
        then (s, Inl SessionError_UnexpectedOsSession)
      else (let (t, actions) = freeze_actions s False
            in (t\<lparr>sm_generation := rs_generation next, sm_current := Some next\<rparr>,
                Inr (actions @ [PublishRoute next]))))"

definition apply_unavailable ::
  "session_state_machine \<Rightarrow> u64 \<Rightarrow> session_state_machine \<times> (session_error + session_action list)" where
  "apply_unavailable s generation =
     (if generation < sm_generation s then (s, Inl SessionError_StaleGeneration)
      else if generation = sm_generation s then
        (if sm_current s = None then (s, Inr []) else (s, Inl SessionError_ConflictingDuplicate))
      else if sm_generation s \<noteq> 0 \<and> generation \<noteq> sm_generation s + 1
        then (s, Inl SessionError_GenerationGap)
      else (let (t, actions) = freeze_actions s True
            in (t\<lparr>sm_generation := generation, sm_current := None\<rparr>, Inr actions)))"

fun route_apply ::
  "session_state_machine \<Rightarrow> route_event \<Rightarrow> session_state_machine \<times> (session_error + session_action list)" where
  "route_apply s (SessionAvailable next) = apply_available s next"
| "route_apply s (RouteLost generation) = apply_unavailable s generation"
| "route_apply s (HelperCrashed generation) = apply_unavailable s generation"
| "route_apply s (BrokerRestarted generation) = apply_unavailable s generation"
| "route_apply s (HostDisconnected generation) = apply_unavailable s generation"
| "route_apply s (LoggedOut generation) = apply_unavailable s generation"

definition begin_control ::
  "session_state_machine \<Rightarrow> u64 \<Rightarrow> session_state_machine \<times> (session_error + unit)" where
  "begin_control s generation =
     (case sm_current s of
        None \<Rightarrow> (s, Inl SessionError_RouteUnavailable)
      | Some route \<Rightarrow>
          if generation \<noteq> sm_generation s \<or> generation \<noteq> rs_generation route
          then (s, Inl SessionError_RouteUnavailable)
          else (s\<lparr>sm_controlled_lease := True, sm_input_enabled := True\<rparr>, Inr ()))"

section \<open>The machine and its invariant\<close>

datatype route_op = ApplyEvent route_event | BeginControl u64

datatype route_out = Applied "session_error + session_action list" | Begun "session_error + unit"

fun route_step :: "session_state_machine \<Rightarrow> route_op \<Rightarrow> session_state_machine \<times> route_out" where
  "route_step s (ApplyEvent e) = map_prod id Applied (route_apply s e)"
| "route_step s (BeginControl g) = map_prod id Begun (begin_control s g)"

definition route_inv :: "session_state_machine \<Rightarrow> bool" where
  "route_inv s \<longleftrightarrow> sm_input_enabled s = sm_controlled_lease s
     \<and> (case sm_current s of
          None \<Rightarrow> \<not> sm_input_enabled s
        | Some r \<Rightarrow> rs_generation r = sm_generation s \<and> rs_os_session_id r \<noteq> 0 \<and> sm_generation s \<noteq> 0)"

lemma route_inv_new: "route_inv session_state_machine_new"
  by (simp add: route_inv_def session_state_machine_new_def)

text \<open>An observation either leaves the machine alone or installs its generation.\<close>

lemma apply_available_cases:
  obtains (same) r where "apply_available s n = (s, r)" "r = Inr [] \<or> \<not> is_ok r"
  | (advance) "apply_available s n = ((fst (freeze_actions s False))\<lparr>sm_generation := rs_generation n,
        sm_current := Some n\<rparr>, Inr (snd (freeze_actions s False) @ [PublishRoute n]))"
      "rs_os_session_id n \<noteq> 0" "sm_generation s < rs_generation n"
      "sm_generation s \<noteq> 0 \<longrightarrow> rs_generation n = sm_generation s + 1"
proof (cases "fst (apply_available s n) = s \<and> (snd (apply_available s n) = Inr [] \<or> \<not> is_ok (snd (apply_available s n)))")
  case True
  then show ?thesis by (metis prod.collapse same)
next
  case False
  then show ?thesis
    by (intro advance) (auto simp: apply_available_def Let_def split_def not_less split: if_splits)
qed

lemma apply_unavailable_cases:
  obtains (same) r where "apply_unavailable s g = (s, r)" "r = Inr [] \<or> \<not> is_ok r"
  | (advance) "apply_unavailable s g = ((fst (freeze_actions s True))\<lparr>sm_generation := g,
        sm_current := None\<rparr>, Inr (snd (freeze_actions s True)))"
      "sm_generation s < g" "sm_generation s \<noteq> 0 \<longrightarrow> g = sm_generation s + 1"
proof (cases "fst (apply_unavailable s g) = s \<and> (snd (apply_unavailable s g) = Inr [] \<or> \<not> is_ok (snd (apply_unavailable s g)))")
  case True
  then show ?thesis by (metis prod.collapse same)
next
  case False
  then show ?thesis
    by (intro advance) (auto simp: apply_unavailable_def Let_def split_def not_less split: if_splits)
qed

lemma freeze_actions_fields [simp]:
  "sm_current (fst (freeze_actions s b)) = sm_current s"
  "sm_generation (fst (freeze_actions s b)) = sm_generation s"
  "\<not> sm_input_enabled (fst (freeze_actions s b))"
  "\<not> sm_controlled_lease (fst (freeze_actions s b))"
  by (simp_all add: freeze_actions_def)

lemma route_inv_available: "route_inv s \<Longrightarrow> route_inv (fst (apply_available s n))"
  by (cases rule: apply_available_cases [of s n]) (auto simp: route_inv_def)

lemma route_inv_unavailable: "route_inv s \<Longrightarrow> route_inv (fst (apply_unavailable s g))"
  by (cases rule: apply_unavailable_cases [of s g]) (auto simp: route_inv_def)

lemma route_inv_begin: "route_inv s \<Longrightarrow> route_inv (fst (begin_control s g))"
  by (auto simp: begin_control_def route_inv_def split: option.splits)

lemma route_inv_apply: "route_inv s \<Longrightarrow> route_inv (fst (route_apply s e))"
  by (cases e) (simp_all add: route_inv_available route_inv_unavailable)

lemma route_generation_apply: "sm_generation s \<le> sm_generation (fst (route_apply s e))"
proof -
  have "sm_generation s \<le> sm_generation (fst (apply_available s n))" for n
    by (cases rule: apply_available_cases [of s n]) auto
  moreover have "sm_generation s \<le> sm_generation (fst (apply_unavailable s g))" for g
    by (cases rule: apply_unavailable_cases [of s g]) auto
  ultimately show ?thesis by (cases e) simp_all
qed

interpretation route: monotone_machine route_step route_inv sm_generation
proof
  fix s a
  assume "route_inv s"
  then show "route_inv (fst (route_step s a))"
    by (cases a) (simp_all add: route_inv_apply route_inv_begin)
  show "sm_generation s \<le> sm_generation (fst (route_step s a))"
    by (cases a) (auto simp: route_generation_apply begin_control_def split: option.splits)
qed

text \<open>The addition \<^verbatim>\<open>self.generation + 1\<close> is reached only below a larger generation: no overflow.\<close>

lemma next_generation_no_overflow: "g < g' \<Longrightarrow> unat (g + 1) = Suc (unat g)" for g g' :: u64
  using unat_lt2p [of g'] by (simp add: word_less_nat_alt unat_word_ariths)

section \<open>What an observer of the effects sees\<close>

text \<open>
  The specification is an observer that only sees the effects.  It remembers the published route
  and whether input is live, and it refuses an effect that comes out of order: a route must not be
  published or cleared while input is live, and input is released only after it was frozen.
\<close>

type_synonym route_view = "route_session option \<times> bool"

fun observe :: "route_view \<Rightarrow> session_action \<Rightarrow> route_view option" where
  "observe (r, live) FreezeInput = Some (r, False)"
| "observe (r, live) ReleaseAllInput = (if live then None else Some (r, live))"
| "observe (r, live) PeerDisconnected = (if live then None else Some (r, live))"
| "observe (r, live) ClearRoute = (if live then None else Some (None, live))"
| "observe (r, live) (PublishRoute n) = (if live then None else Some (Some n, live))"

fun observe_all :: "route_view \<Rightarrow> session_action list \<Rightarrow> route_view option" where
  "observe_all v [] = Some v"
| "observe_all v (a # as) = Option.bind (observe v a) (\<lambda>w. observe_all w as)"

fun observe_out :: "route_view \<Rightarrow> route_out \<Rightarrow> route_view option" where
  "observe_out v (Applied (Inr actions)) = observe_all v actions"
| "observe_out v (Begun (Inr _)) = Some (fst v, True)"
| "observe_out v _ = Some v"

fun observe_run :: "route_view \<Rightarrow> route_out list \<Rightarrow> route_view option" where
  "observe_run v [] = Some v"
| "observe_run v (r # rs) = Option.bind (observe_out v r) (\<lambda>w. observe_run w rs)"

definition route_view_of :: "session_state_machine \<Rightarrow> route_view" where
  "route_view_of s = (sm_current s, sm_input_enabled s)"

lemma observe_available:
  "route_inv s \<Longrightarrow> observe_out (route_view_of s) (Applied (snd (apply_available s n)))
     = Some (route_view_of (fst (apply_available s n)))"
  by (cases rule: apply_available_cases [of s n])
    (auto simp: freeze_actions_def route_view_of_def route_inv_def is_ok_def split: sum.splits)

lemma observe_unavailable:
  "route_inv s \<Longrightarrow> observe_out (route_view_of s) (Applied (snd (apply_unavailable s g)))
     = Some (route_view_of (fst (apply_unavailable s g)))"
  by (cases rule: apply_unavailable_cases [of s g])
    (auto simp: freeze_actions_def route_view_of_def route_inv_def is_ok_def split: sum.splits)

lemma observe_begin:
  "observe_out (route_view_of s) (Begun (snd (begin_control s g)))
     = Some (route_view_of (fst (begin_control s g)))"
  by (auto simp: begin_control_def route_view_of_def split: option.splits)

lemma observe_step:
  assumes "route_inv s"
  shows "observe_out (route_view_of s) (snd (route_step s a)) = Some (route_view_of (fst (route_step s a)))"
proof (cases a)
  case (ApplyEvent e)
  then show ?thesis using assms by (cases e) (simp_all add: observe_available observe_unavailable)
next
  case (BeginControl g)
  then show ?thesis by (simp add: observe_begin)
qed

lemma observe_run_refines:
  "route_inv s \<Longrightarrow> observe_run (route_view_of s) (snd (run_steps route_step s ops))
     = Some (route_view_of (fst (run_steps route_step s ops)))"
proof (induction ops arbitrary: s)
  case Nil
  then show ?case by simp
next
  case (Cons a ops)
  then show ?case
    using observe_step [OF Cons.prems, of a] Cons.IH [OF route.step_inv [OF Cons.prems, of a]]
    by (simp add: split_def Let_def)
qed

section \<open>Properties\<close>

text \<open>
  C22. The effects are complete and well ordered: an observer that only sees the effects of a run
  reconstructs the current route and whether input is live, and never sees a route published or
  cleared, or input released, while input is still live.
\<close>

theorem route_effects_refine_state:
  "observe_run (None, False) (snd (run_steps route_step session_state_machine_new ops))
     = Some (sm_current (fst (run_steps route_step session_state_machine_new ops)),
             sm_input_enabled (fst (run_steps route_step session_state_machine_new ops)))"
  using observe_run_refines [OF route_inv_new, of ops]
  by (simp add: route_view_of_def) (simp add: session_state_machine_new_def)

text \<open>
  Generations move forward one at a time and a refused observation changes nothing.  An
  applied event either leaves the whole state as it was, or sets the generation that the event
  names, which is the successor of the old one unless there was none yet; the successor does not
  wrap; input is then disabled; and a later run never lowers the generation.
\<close>

theorem route_generation_discipline:
  assumes "route_inv s" and "route_apply s e = (s', r)"
  shows "(case r of Inl _ \<Rightarrow> s' = s | Inr actions \<Rightarrow>
           (actions = [] \<and> s' = s)
           \<or> (sm_generation s < sm_generation s'
              \<and> (sm_generation s \<noteq> 0 \<longrightarrow> unat (sm_generation s') = Suc (unat (sm_generation s)))
              \<and> \<not> sm_input_enabled s' \<and> \<not> sm_controlled_lease s'))
         \<and> sm_generation s' \<le> sm_generation (fst (run_steps route_step s' ops))"
proof -
  have mono: "sm_generation s' \<le> sm_generation (fst (run_steps route_step s' ops))"
    using route.run_rank [of s' ops] route_inv_apply [OF assms(1), of e] assms(2) by simp
  define changed where "changed t = (sm_generation s < sm_generation t \<and> \<not> sm_input_enabled t
      \<and> \<not> sm_controlled_lease t \<and> (sm_generation s \<noteq> 0 \<longrightarrow> sm_generation t = sm_generation s + 1))"
    for t :: session_state_machine
  have "fst (apply_available s n) = s \<and> (snd (apply_available s n) = Inr [] \<or> \<not> is_ok (snd (apply_available s n)))
      \<or> is_ok (snd (apply_available s n)) \<and> changed (fst (apply_available s n))" for n
    by (cases rule: apply_available_cases [of s n]) (auto simp: changed_def)
  moreover have "fst (apply_unavailable s g) = s \<and> (snd (apply_unavailable s g) = Inr [] \<or> \<not> is_ok (snd (apply_unavailable s g)))
      \<or> is_ok (snd (apply_unavailable s g)) \<and> changed (fst (apply_unavailable s g))" for g
    by (cases rule: apply_unavailable_cases [of s g]) (auto simp: changed_def)
  ultimately have "s' = s \<and> (r = Inr [] \<or> \<not> is_ok r) \<or> is_ok r \<and> changed s'"
    using assms(2) by (cases e) (metis fst_conv snd_conv route_apply.simps)+
  then show ?thesis
    using mono next_generation_no_overflow [of "sm_generation s" "sm_generation s'"]
    by (auto simp: changed_def split: sum.splits)
qed

definition example_route :: route_session where
  "example_route = \<lparr>rs_platform = Platform_Macos, rs_os_session_id = 7,
     rs_desktop = DesktopKind_Normal, rs_generation = 4\<rparr>"

theorem route_generation_discipline_witness:
  "route_inv (fst (run_steps route_step session_state_machine_new
       [ApplyEvent (SessionAvailable example_route), BeginControl 4]))
   \<and> snd (route_apply (fst (run_steps route_step session_state_machine_new
       [ApplyEvent (SessionAvailable example_route), BeginControl 4])) (RouteLost 5))
     = Inr [FreezeInput, ReleaseAllInput, PeerDisconnected, ClearRoute]
   \<and> unat (sm_generation (fst (route_apply (fst (run_steps route_step session_state_machine_new
       [ApplyEvent (SessionAvailable example_route), BeginControl 4])) (RouteLost 5)))) = Suc 4"
proof -
  define s where "s = fst (run_steps route_step session_state_machine_new
       [ApplyEvent (SessionAvailable example_route), BeginControl 4])"
  have inv: "route_inv s" unfolding s_def by (rule route.run_inv [OF route_inv_new])
  have s: "s = \<lparr>sm_generation = 4, sm_current = Some example_route, sm_controlled_lease = True,
      sm_input_enabled = True\<rparr>"
    by (simp add: s_def session_state_machine_new_def apply_available_def freeze_actions_def
        begin_control_def example_route_def)
  have r: "snd (route_apply s (RouteLost 5)) = Inr [FreezeInput, ReleaseAllInput, PeerDisconnected, ClearRoute]"
    by (simp add: s apply_unavailable_def freeze_actions_def)
  show ?thesis
    unfolding s_def [symmetric]
    using route_generation_discipline [OF inv, of "RouteLost 5" "fst (route_apply s (RouteLost 5))"
        "snd (route_apply s (RouteLost 5))"] inv r
    by (simp add: s)
qed

end
