(* ===== verification/Bridge_Broker.thy ===== *)
theory Bridge_Broker
  imports Bridge_Helper Bridge_Route
begin

text \<open>
  The privileged broker, \<^verbatim>\<open>crates/privileged-bridge/src/broker.rs\<close>: \<^verbatim>\<open>BrokerCore\<close> joins the lease manager and the
  route machine, \<^verbatim>\<open>HostBrokerSession\<close> applies the requests of one Host connection and forwards to the session helper what
  the lease, the permissions and the exact operation sequence allow.  The helper behind \<^verbatim>\<open>BrokerHelper\<close> is a parameter, the record
  \<open>broker_helper_ops\<close>; the random lease identifier is an argument, as in the lease manager.
\<close>

section \<open>The core\<close>

record broker_core =
  bc_leases :: lease_manager
  bc_routes :: session_state_machine

definition broker_core_new :: "bytes \<Rightarrow> broker_core" where
  "broker_core_new instance_id =
     \<lparr>bc_leases = lease_manager_new instance_id, bc_routes = session_state_machine_new\<rparr>"

definition broker_connect_host :: "broker_core \<Rightarrow> u64 \<Rightarrow> broker_core \<times> (lease_error + unit)" where
  "broker_connect_host b generation =
     (let (m, r) = connect_host (bc_leases b) generation in (b\<lparr>bc_leases := m\<rparr>, r))"

definition broker_disconnect_host :: "broker_core \<Rightarrow> broker_core \<times> bool" where
  "broker_disconnect_host b = (let (m, r) = disconnect_host (bc_leases b) in (b\<lparr>bc_leases := m\<rparr>, r))"

definition broker_observe_route ::
  "broker_core \<Rightarrow> route_event \<Rightarrow> broker_core \<times> (session_error + session_action list)" where
  "broker_observe_route b event = (let (s, r) = route_apply (bc_routes b) event in (b\<lparr>bc_routes := s\<rparr>, r))"

definition broker_acquire ::
  "broker_core \<Rightarrow> acquire_lease \<Rightarrow> u64 \<Rightarrow> lease_error + lease_id \<Rightarrow> broker_core \<times> (lease_error + lease)" where
  "broker_acquire b request now_ms next_lease_id =
     (let (m, r) = lease_acquire (bc_leases b) request now_ms next_lease_id in (b\<lparr>bc_leases := m\<rparr>, r))"

definition broker_renew :: "broker_core \<Rightarrow> lease_id \<Rightarrow> u64 \<Rightarrow> u64 \<Rightarrow> broker_core \<times> (lease_error + lease)" where
  "broker_renew b lid generation now_ms =
     (let (m, r) = lease_renew (bc_leases b) lid generation now_ms in (b\<lparr>bc_leases := m\<rparr>, r))"

definition broker_authorize_command ::
  "broker_core \<Rightarrow> lease_id \<Rightarrow> u64 \<Rightarrow> u64 \<Rightarrow> u64 \<Rightarrow> broker_core \<times> (lease_error + unit)" where
  "broker_authorize_command b lid generation sequence now_ms =
     (let (m, r) = authorize_command (bc_leases b) lid generation sequence now_ms in (b\<lparr>bc_leases := m\<rparr>, r))"

definition broker_release :: "broker_core \<Rightarrow> lease_id \<Rightarrow> u64 \<Rightarrow> broker_core \<times> (lease_error + bool)" where
  "broker_release b lid generation =
     (let (m, r) = lease_release (bc_leases b) lid generation in (b\<lparr>bc_leases := m\<rparr>, r))"

definition broker_begin_control :: "broker_core \<Rightarrow> u64 \<Rightarrow> broker_core \<times> (session_error + unit)" where
  "broker_begin_control b generation =
     (let (s, r) = begin_control (bc_routes b) generation in (b\<lparr>bc_routes := s\<rparr>, r))"

lemmas broker_core_defs = broker_connect_host_def broker_disconnect_host_def broker_observe_route_def
  broker_acquire_def broker_renew_def broker_authorize_command_def broker_release_def broker_begin_control_def

section \<open>Routes of frames\<close>

datatype broker_protocol_error =
    BrokerProtocolError_InvalidMessage
  | BrokerProtocolError_Lease
  | BrokerProtocolError_PermissionDenied
  | BrokerProtocolError_Helper
  | BrokerProtocolError_StaleResponse

definition broker_parse_route :: "bytes \<Rightarrow> u64 \<Rightarrow> broker_protocol_error + proxy_route" where
  "broker_parse_route lease_id generation =
     (if length lease_id \<noteq> 16 then Inl BrokerProtocolError_InvalidMessage
      else if generation = 0 then Inl BrokerProtocolError_InvalidMessage
      else Inr (proxy_route_new (LeaseId lease_id) generation))"

definition request_route :: "privileged_bridge_client_frame \<Rightarrow> broker_protocol_error + proxy_route" where
  "request_route request =
     (case pbcf_payload request of
        None \<Rightarrow> Inl BrokerProtocolError_InvalidMessage
      | Some (PrivilegedBridgeClientFrame_StartPeer v) \<Rightarrow> broker_parse_route (sppr_lease_id v) (sppr_generation v)
      | Some (PrivilegedBridgeClientFrame_RestartPeer v) \<Rightarrow> broker_parse_route (rppr_lease_id v) (rppr_generation v)
      | Some (PrivilegedBridgeClientFrame_AddIceCandidate v) \<Rightarrow>
          broker_parse_route (apicr_lease_id v) (apicr_generation v)
      | Some (PrivilegedBridgeClientFrame_SendSecureAttention v) \<Rightarrow>
          broker_parse_route (ssar_lease_id v) (ssar_generation v)
      | Some (PrivilegedBridgeClientFrame_InputCommand v) \<Rightarrow> broker_parse_route (pic_lease_id v) (pic_generation v)
      | Some (PrivilegedBridgeClientFrame_ClosePeer v) \<Rightarrow> broker_parse_route (cppr_lease_id v) (cppr_generation v)
      | Some _ \<Rightarrow> Inl BrokerProtocolError_InvalidMessage)"

definition response_route :: "privileged_bridge_server_frame \<Rightarrow> broker_protocol_error + proxy_route" where
  "response_route response =
     (case pbsf_payload response of
        None \<Rightarrow> Inl BrokerProtocolError_InvalidMessage
      | Some (PrivilegedBridgeServerFrame_CommandAccepted v) \<Rightarrow> broker_parse_route (pca_lease_id v) (pca_generation v)
      | Some (PrivilegedBridgeServerFrame_PeerAnswer v) \<Rightarrow> broker_parse_route (ppa_lease_id v) (ppa_generation v)
      | Some (PrivilegedBridgeServerFrame_LocalIceCandidate v) \<Rightarrow>
          broker_parse_route (plic_lease_id v) (plic_generation v)
      | Some (PrivilegedBridgeServerFrame_PeerStateChanged v) \<Rightarrow>
          broker_parse_route (ppsc_lease_id v) (ppsc_generation v)
      | Some (PrivilegedBridgeServerFrame_ReliableInput v) \<Rightarrow> broker_parse_route (prie_lease_id v) (prie_generation v)
      | Some (PrivilegedBridgeServerFrame_FastPointer v) \<Rightarrow> broker_parse_route (pfpe_lease_id v) (pfpe_generation v)
      | Some _ \<Rightarrow> Inl BrokerProtocolError_InvalidMessage)"

definition request_controller_display_name :: "privileged_bridge_client_frame \<Rightarrow> string option" where
  "request_controller_display_name request =
     (case pbcf_payload request of
        Some (PrivilegedBridgeClientFrame_StartPeer v) \<Rightarrow> Some (sppr_controller_display_name v)
      | Some (PrivilegedBridgeClientFrame_RestartPeer v) \<Rightarrow> Some (rppr_controller_display_name v)
      | _ \<Rightarrow> None)"

definition broker_response_frame ::
  "privileged_bridge_client_frame \<Rightarrow> privileged_bridge_server_frame_payload \<Rightarrow> privileged_bridge_server_frame" where
  "broker_response_frame request payload =
     \<lparr>pbsf_protocol_version = Some \<lparr>pv_major = 1, pv_minor = 0\<rparr>, pbsf_request_id = pbcf_request_id request,
      pbsf_sequence = pbcf_sequence request, pbsf_payload = Some payload\<rparr>"

definition lease_response ::
  "privileged_bridge_client_frame \<Rightarrow> lease \<Rightarrow> i32 list \<Rightarrow> privileged_bridge_server_frame" where
  "lease_response request l permissions =
     broker_response_frame request (PrivilegedBridgeServerFrame_Lease
       \<lparr>please_lease_id = lease_id_bytes (le_id l), please_generation = le_generation l,
        please_issued_at_unix_ms = le_issued_at_ms l, please_expires_at_unix_ms = le_expires_at_ms l,
        please_session_id = bridge_session_id_bytes (le_session_id l), please_permissions = permissions,
        please_controller_display_name = le_controller_display_name l\<rparr>)"

section \<open>One Host connection\<close>

record 'h broker_helper_ops =
  bh_exchange :: "'h \<Rightarrow> privileged_bridge_client_frame \<Rightarrow> 'h \<times> (broker_protocol_error + privileged_bridge_server_frame)"
  bh_try_event :: "'h \<Rightarrow> 'h \<times> (broker_protocol_error + privileged_bridge_server_frame option)"
  bh_fail_closed :: "'h \<Rightarrow> 'h"

text \<open>The body the trait provides for \<^verbatim>\<open>try_event\<close>.\<close>

definition default_helper_try_event :: "'h \<Rightarrow> 'h \<times> (broker_protocol_error + privileged_bridge_server_frame option)" where
  "default_helper_try_event h = (h, Inr None)"

record 'h host_broker_session =
  hbs_broker :: broker_core
  hbs_helper :: 'h
  hbs_permissions :: "i32 list"
  hbs_operation_sequence :: u64
  hbs_secure_attention_allowed :: bool

definition host_broker_session_new :: "broker_core \<Rightarrow> 'h \<Rightarrow> 'h host_broker_session" where
  "host_broker_session_new broker helper = \<lparr>hbs_broker = broker, hbs_helper = helper, hbs_permissions = [],
     hbs_operation_sequence = 0, hbs_secure_attention_allowed = False\<rparr>"

definition with_secure_attention :: "'h host_broker_session \<Rightarrow> bool \<Rightarrow> 'h host_broker_session" where
  "with_secure_attention s allowed = s\<lparr>hbs_secure_attention_allowed := allowed\<rparr>"

definition broker_forward ::
  "'h broker_helper_ops \<Rightarrow> 'h host_broker_session \<Rightarrow> privileged_bridge_client_frame \<Rightarrow> proxy_route
    \<Rightarrow> 'h host_broker_session \<times> (broker_protocol_error + privileged_bridge_server_frame)" where
  "broker_forward ops s request route =
     (case bh_exchange ops (hbs_helper s) request of
        (h, Inl e) \<Rightarrow> (s\<lparr>hbs_helper := h\<rparr>, Inl e)
      | (h, Inr response) \<Rightarrow>
          (let stale = (s\<lparr>hbs_helper := bh_fail_closed ops h\<rparr>, Inl BrokerProtocolError_StaleResponse) in
           if pbsf_request_id response \<noteq> pbcf_request_id request \<or> pbsf_sequence response \<noteq> pbcf_sequence request
             then stale
           else case response_route response of
             Inl e \<Rightarrow> (s\<lparr>hbs_helper := h\<rparr>, Inl e)
           | Inr r \<Rightarrow> if r \<noteq> route then stale else (s\<lparr>hbs_helper := h\<rparr>, Inr response)))"

definition controller_name_check ::
  "'h host_broker_session \<Rightarrow> privileged_bridge_client_frame \<Rightarrow> broker_protocol_error + unit" where
  "controller_name_check s request =
     (case request_controller_display_name request of
        None \<Rightarrow> Inr ()
      | Some name \<Rightarrow>
          bind_res (ok_or BrokerProtocolError_Lease (lm_active (bc_leases (hbs_broker s)))) (\<lambda>l.
            if name \<noteq> le_controller_display_name l then Inl BrokerProtocolError_InvalidMessage else Inr ()))"

definition forward_authorized ::
  "'h broker_helper_ops \<Rightarrow> 'h host_broker_session \<Rightarrow> privileged_bridge_client_frame \<Rightarrow> u64
    \<Rightarrow> 'h host_broker_session \<times> (broker_protocol_error + privileged_bridge_server_frame)" where
  "forward_authorized ops s request now_ms =
     (case bind_res (controller_name_check s request) (\<lambda>_. request_route request) of
        Inl e \<Rightarrow> (s, Inl e)
      | Inr route \<Rightarrow>
      (case checked_add (hbs_operation_sequence s) 1 of
         None \<Rightarrow> (s, Inl BrokerProtocolError_Lease)
       | Some sequence \<Rightarrow>
           (case broker_authorize_command (hbs_broker s) (pr_lease_id route) (pr_generation route) sequence now_ms of
              (b, Inl _) \<Rightarrow> (s\<lparr>hbs_operation_sequence := sequence, hbs_broker := b\<rparr>, Inl BrokerProtocolError_Lease)
            | (b, Inr _) \<Rightarrow>
                broker_forward ops (s\<lparr>hbs_operation_sequence := sequence, hbs_broker := b\<rparr>) request route)))"

definition broker_session_acquire ::
  "'h host_broker_session \<Rightarrow> privileged_bridge_client_frame \<Rightarrow> acquire_privileged_lease_request \<Rightarrow> u64
    \<Rightarrow> lease_error + lease_id \<Rightarrow> 'h host_broker_session \<times> (broker_protocol_error + privileged_bridge_server_frame)" where
  "broker_session_acquire s request v now_ms next_lease_id =
     (if length (aplr_session_id v) \<noteq> 16 then (s, Inl BrokerProtocolError_InvalidMessage)
      else
        (let may_control_input = session_permission_code SessionPermission_ControlInput \<in> set (aplr_permissions v) in
         case broker_acquire (hbs_broker s)
                \<lparr>al_session_id = SessionId (aplr_session_id v), al_generation = aplr_generation v,
                 al_controller_display_name = aplr_controller_display_name v,
                 al_may_control_input = may_control_input\<rparr> now_ms next_lease_id of
           (b, Inl _) \<Rightarrow> (s\<lparr>hbs_broker := b\<rparr>, Inl BrokerProtocolError_Lease)
         | (b, Inr l) \<Rightarrow>
             (case broker_begin_control b (le_generation l) of
                (b', Inl _) \<Rightarrow> (s\<lparr>hbs_broker := b'\<rparr>, Inl BrokerProtocolError_Lease)
              | (b', Inr _) \<Rightarrow>
                  (s\<lparr>hbs_broker := b', hbs_permissions := aplr_permissions v, hbs_operation_sequence := 0\<rparr>,
                   Inr (lease_response request l (aplr_permissions v))))))"

definition may_input :: "'h host_broker_session \<Rightarrow> bool" where
  "may_input s \<longleftrightarrow> session_permission_code SessionPermission_ControlInput \<in> set (hbs_permissions s)"

definition broker_handle ::
  "'h broker_helper_ops \<Rightarrow> 'h host_broker_session \<Rightarrow> privileged_bridge_client_frame \<Rightarrow> u64
    \<Rightarrow> lease_error + lease_id \<Rightarrow> 'h host_broker_session \<times> (broker_protocol_error + privileged_bridge_server_frame)" where
  "broker_handle ops s request now_ms next_lease_id =
     (case pbcf_payload request of
        None \<Rightarrow> (s, Inl BrokerProtocolError_InvalidMessage)
      | Some (PrivilegedBridgeClientFrame_AcquireLease v) \<Rightarrow>
          broker_session_acquire s request v now_ms next_lease_id
      | Some (PrivilegedBridgeClientFrame_RenewLease v) \<Rightarrow>
          (case broker_parse_route (rplr_lease_id v) (rplr_generation v) of
             Inl e \<Rightarrow> (s, Inl e)
           | Inr route \<Rightarrow>
               (case broker_renew (hbs_broker s) (pr_lease_id route) (pr_generation route) now_ms of
                  (b, Inl _) \<Rightarrow> (s\<lparr>hbs_broker := b\<rparr>, Inl BrokerProtocolError_Lease)
                | (b, Inr l) \<Rightarrow> (s\<lparr>hbs_broker := b\<rparr>, Inr (lease_response request l (hbs_permissions s)))))
      | Some (PrivilegedBridgeClientFrame_ReleaseLease v) \<Rightarrow>
          (case broker_parse_route (rplr2_lease_id v) (rplr2_generation v) of
             Inl e \<Rightarrow> (s, Inl e)
           | Inr route \<Rightarrow>
               sbind (broker_forward ops s request route) (\<lambda>s response.
                 case broker_release (hbs_broker s) (pr_lease_id route) (pr_generation route) of
                   (b, Inl _) \<Rightarrow> (s\<lparr>hbs_broker := b\<rparr>, Inl BrokerProtocolError_Lease)
                 | (b, Inr _) \<Rightarrow> (s\<lparr>hbs_broker := b, hbs_permissions := []\<rparr>, Inr response)))
      | Some (PrivilegedBridgeClientFrame_InputCommand _) \<Rightarrow>
          if \<not> may_input s then (s, Inl BrokerProtocolError_PermissionDenied)
          else forward_authorized ops s request now_ms
      | Some (PrivilegedBridgeClientFrame_SendSecureAttention _) \<Rightarrow>
          if \<not> hbs_secure_attention_allowed s \<or> \<not> may_input s then (s, Inl BrokerProtocolError_PermissionDenied)
          else forward_authorized ops s request now_ms
      | Some (PrivilegedBridgeClientFrame_StartPeer _) \<Rightarrow> forward_authorized ops s request now_ms
      | Some (PrivilegedBridgeClientFrame_RestartPeer _) \<Rightarrow> forward_authorized ops s request now_ms
      | Some (PrivilegedBridgeClientFrame_AddIceCandidate _) \<Rightarrow> forward_authorized ops s request now_ms
      | Some (PrivilegedBridgeClientFrame_ClosePeer _) \<Rightarrow> forward_authorized ops s request now_ms
      | Some (PrivilegedBridgeClientFrame_Authenticate _) \<Rightarrow> (s, Inl BrokerProtocolError_InvalidMessage)
      | Some (PrivilegedBridgeClientFrame_RegisterHelper _) \<Rightarrow> (s, Inl BrokerProtocolError_InvalidMessage))"

definition broker_try_event ::
  "'h broker_helper_ops \<Rightarrow> 'h host_broker_session
    \<Rightarrow> 'h host_broker_session \<times> (broker_protocol_error + privileged_bridge_server_frame option)" where
  "broker_try_event ops s =
     (case bh_try_event ops (hbs_helper s) of
        (h, Inl e) \<Rightarrow> (s\<lparr>hbs_helper := h\<rparr>, Inl e)
      | (h, Inr None) \<Rightarrow> (s\<lparr>hbs_helper := h\<rparr>, Inr None)
      | (h, Inr (Some response)) \<Rightarrow>
          (let s = s\<lparr>hbs_helper := h\<rparr> in
           case lm_active (bc_leases (hbs_broker s)) of
             None \<Rightarrow> (s, Inl BrokerProtocolError_Lease)
           | Some active \<Rightarrow>
               (case response_route response of
                  Inl e \<Rightarrow> (s, Inl e)
                | Inr route \<Rightarrow>
                    if route \<noteq> proxy_route_new (le_id active) (le_generation active)
                    then (s\<lparr>hbs_helper := bh_fail_closed ops h\<rparr>, Inl BrokerProtocolError_StaleResponse)
                    else (s, Inr (Some response)))))"

definition broker_expire ::
  "'h broker_helper_ops \<Rightarrow> 'h host_broker_session \<Rightarrow> u64 \<Rightarrow> 'h host_broker_session \<times> bool" where
  "broker_expire ops s now_ms =
     (case lease_expire (bc_leases (hbs_broker s)) now_ms of
        (m, expired) \<Rightarrow>
          (let s = s\<lparr>hbs_broker := (hbs_broker s)\<lparr>bc_leases := m\<rparr>\<rparr> in
           if expired \<noteq> None
           then (s\<lparr>hbs_helper := bh_fail_closed ops (hbs_helper s), hbs_permissions := []\<rparr>, True)
           else (s, False)))"

definition broker_fail_closed :: "'h broker_helper_ops \<Rightarrow> 'h host_broker_session \<Rightarrow> 'h host_broker_session" where
  "broker_fail_closed ops s =
     s\<lparr>hbs_helper := bh_fail_closed ops (hbs_helper s),
       hbs_broker := fst (broker_disconnect_host (hbs_broker s)), hbs_permissions := []\<rparr>"

section \<open>A connection as the runtime drives it\<close>

text \<open>
  The runtime feeds a session until the first error or the first expiry and then closes it.  The predicate collects the states
  of a session that is still served: it starts with the route of the registered helper published and the Host connected under its
  generation.
\<close>

inductive broker_live :: "'h broker_helper_ops \<Rightarrow> 'h host_broker_session \<Rightarrow> bool" for ops where
  live_start: "broker_observe_route (broker_core_new i) (SessionAvailable r) = (b, Inr actions)
    \<Longrightarrow> broker_connect_host b (rs_generation r) = (b', Inr u)
    \<Longrightarrow> broker_live ops (with_secure_attention (host_broker_session_new b' h) allowed)"
| live_handle: "broker_live ops s \<Longrightarrow> broker_handle ops s request now_ms next_lease_id = (s', Inr response)
    \<Longrightarrow> broker_live ops s'"
| live_expire: "broker_live ops s \<Longrightarrow> broker_expire ops s now_ms = (s', False) \<Longrightarrow> broker_live ops s'"
| live_event: "broker_live ops s \<Longrightarrow> broker_try_event ops s = (s', Inr event) \<Longrightarrow> broker_live ops s'"

text \<open>
  In a served session the lease, the permissions, the operation counter and the route agree: without a lease nothing is permitted, and
  with one the counter is the lease's, input is permitted exactly when the lease says so, and the
  lease is for the route that is under control.
\<close>

definition broker_inv :: "'h host_broker_session \<Rightarrow> bool" where
  "broker_inv s \<longleftrightarrow> lease_inv (bc_leases (hbs_broker s)) \<and> route_inv (bc_routes (hbs_broker s))
     \<and> (case lm_active (bc_leases (hbs_broker s)) of
          None \<Rightarrow> hbs_permissions s = []
        | Some l \<Rightarrow> le_last_command_sequence l = hbs_operation_sequence s
            \<and> (le_may_control_input l \<longleftrightarrow> may_input s)
            \<and> sm_input_enabled (bc_routes (hbs_broker s))
            \<and> sm_generation (bc_routes (hbs_broker s)) = le_generation l)"

lemma broker_forward_fields [simp]:
  "hbs_broker (fst (broker_forward ops s q r)) = hbs_broker s"
  "hbs_permissions (fst (broker_forward ops s q r)) = hbs_permissions s"
  "hbs_operation_sequence (fst (broker_forward ops s q r)) = hbs_operation_sequence s"
  by (auto simp: broker_forward_def Let_def split: prod.splits sum.splits)

lemma broker_inv_cong:
  "hbs_broker t = hbs_broker s \<Longrightarrow> hbs_permissions t = hbs_permissions s
    \<Longrightarrow> hbs_operation_sequence t = hbs_operation_sequence s \<Longrightarrow> broker_inv t \<longleftrightarrow> broker_inv s"
  by (simp add: broker_inv_def may_input_def split: option.split)

lemma broker_inv_helper [simp]: "broker_inv (s\<lparr>hbs_helper := h\<rparr>) \<longleftrightarrow> broker_inv s"
  by (rule broker_inv_cong) simp_all

lemma broker_inv_forward [simp]: "broker_inv (fst (broker_forward ops s q r)) \<longleftrightarrow> broker_inv s"
  by (rule broker_inv_cong) simp_all

lemma lease_acquire_Inr:
  assumes "lease_acquire m q now nid = (m', Inr l)"
  shows "m' = m\<lparr>lm_active := Some l, lm_last_released := None\<rparr>" "le_last_command_sequence l = 0"
    "le_may_control_input l = al_may_control_input q" "le_controller_display_name l = al_controller_display_name q"
  using assms by (auto simp: lease_acquire_def Let_def split: option.splits sum.splits if_splits)

lemma lease_renew_Inr:
  assumes "lease_renew m i g now = (m', Inr l)"
  obtains l0 where "lm_active m = Some l0" "m' = m\<lparr>lm_active := Some l\<rparr>"
    "le_last_command_sequence l = le_last_command_sequence l0" "le_may_control_input l = le_may_control_input l0"
    "le_generation l = le_generation l0"
  using assms by (auto simp: lease_renew_def Let_def split: option.splits sum.splits if_splits)

lemma lease_release_Inr: "lease_release m i g = (m', Inr b) \<Longrightarrow> lm_active m' = None"
  by (auto simp: lease_release_def release_or_close_def freeze_active_def split: option.splits sum.splits if_splits)

lemma broker_inv_start:
  assumes "broker_observe_route (broker_core_new i) (SessionAvailable r) = (b, Inr actions)"
    and "broker_connect_host b (rs_generation r) = (b', Inr u)"
  shows "broker_inv (with_secure_attention (host_broker_session_new b' h) allowed)"
proof -
  have routes: "route_inv (fst (route_apply session_state_machine_new (SessionAvailable r)))"
    by (rule route_inv_apply [OF route_inv_new])
  have leases: "lease_inv (fst (connect_host (lease_manager_new i) (rs_generation r)))"
    by (rule lease_inv_connect [OF lease_inv_new])
  have "lm_active (fst (connect_host (lease_manager_new i) (rs_generation r))) = None"
    by (simp add: connect_host_def lease_manager_new_def)
  with assms routes leases show ?thesis
    by (auto simp: broker_inv_def with_secure_attention_def host_broker_session_new_def broker_core_defs
        broker_core_new_def split_def Let_def)
qed

text \<open>
  What it takes for a command to be let through to the helper: a route in the frame that is the active lease's, before its expiry,
  with the lease's Controller name where the frame carries one.
\<close>

definition command_authorized ::
  "'h host_broker_session \<Rightarrow> privileged_bridge_client_frame \<Rightarrow> u64 \<Rightarrow> proxy_route \<Rightarrow> bool" where
  "command_authorized s request now_ms route \<longleftrightarrow>
     (\<exists>l. lm_active (bc_leases (hbs_broker s)) = Some l \<and> request_route request = Inr route
        \<and> route = proxy_route_new (le_id l) (le_generation l) \<and> now_ms < le_expires_at_ms l
        \<and> hbs_operation_sequence s \<noteq> - 1
        \<and> (\<forall>name. request_controller_display_name request = Some name \<longrightarrow> name = le_controller_display_name l))"

lemma proxy_route_parts: "proxy_route_new (pr_lease_id r) (pr_generation r) = r"
  by (simp add: proxy_route_new_def)

lemma controller_name_check_iff:
  "controller_name_check s q = Inr u \<longleftrightarrow> (\<forall>name. request_controller_display_name q = Some name \<longrightarrow>
     (\<exists>l. lm_active (bc_leases (hbs_broker s)) = Some l \<and> name = le_controller_display_name l))"
  by (cases "lm_active (bc_leases (hbs_broker s))") (auto simp: controller_name_check_def split: option.splits)

lemma checked_add_one_Some: "checked_add a 1 = Some b \<longleftrightarrow> a \<noteq> - 1 \<and> b = a + 1" for a :: u64
proof -
  have "unat a + 1 < 2 ^ 64 \<longleftrightarrow> a \<noteq> - 1"
    using unat_lt2p [of a] unat_inject [of a "- 1"]
    by (auto simp: unsigned_minus_1_eq_mask mask_eq_exp_minus_1)
  then show ?thesis by (auto simp: checked_add_def)
qed

lemma unat_succ: "a \<noteq> - 1 \<Longrightarrow> unat (a + 1) = Suc (unat a)" for a :: u64
  using checked_add_one_Some [of a "a + 1"] checked_add_Some [of a 1 "a + 1"] by simp

lemma authorize_command_succ:
  "authorize_command m i g (c + 1) now = (m', Inr ()) \<longleftrightarrow>
     (\<exists>l. lm_active m = Some l \<and> i = le_id l \<and> g = le_generation l \<and> now < le_expires_at_ms l
        \<and> m' = m\<lparr>lm_active := Some (l\<lparr>le_last_command_sequence := c + 1\<rparr>)\<rparr>)"
  if "c \<noteq> - 1" "\<forall>l. lm_active m = Some l \<longrightarrow> le_last_command_sequence l = c"
  using that by (auto simp: authorize_command_iff unat_succ)

lemma forward_authorized_yes:
  assumes "broker_inv s" and "command_authorized s q now route"
  obtains s1 where "forward_authorized ops s q now = broker_forward ops s1 q route"
    "broker_inv s1" "hbs_helper s1 = hbs_helper s"
proof -
  let ?m = "bc_leases (hbs_broker s)" and ?c = "hbs_operation_sequence s"
  obtain l where l: "lm_active ?m = Some l" "request_route q = Inr route"
    "route = proxy_route_new (le_id l) (le_generation l)" "now < le_expires_at_ms l" "?c \<noteq> - 1"
    "\<forall>name. request_controller_display_name q = Some name \<longrightarrow> name = le_controller_display_name l"
    using assms(2) by (auto simp: command_authorized_def)
  have c: "le_last_command_sequence l = ?c" using assms(1) l(1) by (simp add: broker_inv_def)
  let ?m' = "?m\<lparr>lm_active := Some (l\<lparr>le_last_command_sequence := ?c + 1\<rparr>)\<rparr>"
  let ?s1 = "s\<lparr>hbs_operation_sequence := ?c + 1, hbs_broker := (hbs_broker s)\<lparr>bc_leases := ?m'\<rparr>\<rparr>"
  have auth: "authorize_command ?m (le_id l) (le_generation l) (?c + 1) now = (?m', Inr ())"
    using authorize_command_succ [of ?c ?m] l c by simp
  have "lease_inv ?m'"
    using lease_inv_authorize [of ?m "le_id l" "le_generation l" "?c + 1" now] auth assms(1)
    by (simp add: broker_inv_def)
  then have "broker_inv ?s1"
    using assms(1) l(1) by (simp add: broker_inv_def may_input_def)
  moreover have "checked_add ?c 1 = Some (?c + 1)" using l(5) by (simp add: checked_add_one_Some)
  then have "forward_authorized ops s q now = broker_forward ops ?s1 q route"
    using l auth controller_name_check_iff [of s q "()"]
    by (simp add: forward_authorized_def broker_authorize_command_def proxy_route_new_def)
  ultimately show ?thesis using that [of ?s1] by simp
qed

lemma forward_authorized_no:
  assumes "broker_inv s" and "\<forall>route. \<not> command_authorized s q now route"
  shows "hbs_helper (fst (forward_authorized ops s q now)) = hbs_helper s"
    "\<not> is_ok (snd (forward_authorized ops s q now))"
proof -
  let ?m = "bc_leases (hbs_broker s)" and ?c = "hbs_operation_sequence s"
  have c: "\<forall>l. lm_active ?m = Some l \<longrightarrow> le_last_command_sequence l = ?c"
    using assms(1) by (simp add: broker_inv_def split: option.splits)
  have "\<exists>t e. forward_authorized ops s q now = (t, Inl e) \<and> hbs_helper t = hbs_helper s"
  proof (cases "bind_res (controller_name_check s q) (\<lambda>_. request_route q)")
    case (Inl e)
    then show ?thesis by (simp add: forward_authorized_def)
  next
    case (Inr route)
    show ?thesis
    proof (cases "?c = - 1")
      case True
      then have "checked_add ?c 1 = None" using checked_add_one_Some [of ?c] by (cases "checked_add ?c 1") auto
      with Inr show ?thesis by (simp add: forward_authorized_def)
    next
      case False
      obtain m' r where auth: "authorize_command ?m (pr_lease_id route) (pr_generation route) (?c + 1) now = (m', r)"
        by fastforce
      have "r \<noteq> Inr ()"
      proof
        assume "r = Inr ()"
        with auth authorize_command_succ [OF False c, of "pr_lease_id route" "pr_generation route" now m']
        obtain l where l: "lm_active ?m = Some l" "le_id l = pr_lease_id route" "le_generation l = pr_generation route"
          "now < le_expires_at_ms l" by auto
        have "command_authorized s q now route"
          unfolding command_authorized_def
          using Inr False l by (intro exI [of _ l]) (auto simp: bind_res_Inr controller_name_check_iff proxy_route_parts)
        with assms(2) show False by blast
      qed
      moreover have "checked_add ?c 1 = Some (?c + 1)" using False by (simp add: checked_add_one_Some)
      ultimately show ?thesis
        using Inr auth by (cases r) (auto simp: forward_authorized_def broker_authorize_command_def)
    qed
  qed
  then show "hbs_helper (fst (forward_authorized ops s q now)) = hbs_helper s"
    "\<not> is_ok (snd (forward_authorized ops s q now))" by auto
qed

text \<open>The six commands and the release reach the helper; the guards in front of the sequencing.\<close>

definition needs_input :: "privileged_bridge_client_frame \<Rightarrow> bool" where
  "needs_input q \<longleftrightarrow> (\<exists>v. pbcf_payload q = Some (PrivilegedBridgeClientFrame_InputCommand v))
     \<or> (\<exists>v. pbcf_payload q = Some (PrivilegedBridgeClientFrame_SendSecureAttention v))"

definition needs_secure_attention :: "privileged_bridge_client_frame \<Rightarrow> bool" where
  "needs_secure_attention q \<longleftrightarrow> (\<exists>v. pbcf_payload q = Some (PrivilegedBridgeClientFrame_SendSecureAttention v))"

definition is_release :: "privileged_bridge_client_frame \<Rightarrow> bool" where
  "is_release q \<longleftrightarrow> (\<exists>v. pbcf_payload q = Some (PrivilegedBridgeClientFrame_ReleaseLease v))"

definition is_lease_request :: "privileged_bridge_client_frame \<Rightarrow> bool" where
  "is_lease_request q \<longleftrightarrow> (\<exists>v. pbcf_payload q = Some (PrivilegedBridgeClientFrame_AcquireLease v))
     \<or> (\<exists>v. pbcf_payload q = Some (PrivilegedBridgeClientFrame_RenewLease v))"

lemma broker_handle_command:
  assumes "\<not> is_release q" "\<not> is_lease_request q"
  shows "broker_handle ops s q now nid =
    (if (needs_input q \<longrightarrow> may_input s) \<and> (needs_secure_attention q \<longrightarrow> hbs_secure_attention_allowed s)
     then (if is_ok (request_route q) \<or> pbcf_payload q \<noteq> None \<and> (\<forall>v. pbcf_payload q \<noteq> Some (PrivilegedBridgeClientFrame_Authenticate v))
             \<and> (\<forall>v. pbcf_payload q \<noteq> Some (PrivilegedBridgeClientFrame_RegisterHelper v))
           then forward_authorized ops s q now else (s, Inl BrokerProtocolError_InvalidMessage))
     else (s, Inl BrokerProtocolError_PermissionDenied))"
  using assms
  by (cases "pbcf_payload q"; cases "the (pbcf_payload q)")
    (auto simp: broker_handle_def is_release_def is_lease_request_def needs_input_def needs_secure_attention_def
      request_route_def)

lemma command_authorized_route:
  "command_authorized s q now route \<Longrightarrow> is_ok (request_route q)"
  by (auto simp: command_authorized_def)

lemma broker_inv_acquire:
  assumes "broker_inv s" "broker_session_acquire s q v now nid = (s', Inr response)"
  shows "broker_inv s'"
proof -
  let ?b = "hbs_broker s"
  obtain m l where m: "lease_acquire (bc_leases ?b) \<lparr>al_session_id = SessionId (aplr_session_id v),
        al_generation = aplr_generation v, al_controller_display_name = aplr_controller_display_name v,
        al_may_control_input = session_permission_code SessionPermission_ControlInput \<in> set (aplr_permissions v)\<rparr> now nid
      = (m, Inr l)"
    and control: "snd (begin_control (bc_routes ?b) (le_generation l)) = Inr ()"
    and s': "s' = s\<lparr>hbs_broker := ?b\<lparr>bc_leases := m, bc_routes := fst (begin_control (bc_routes ?b) (le_generation l))\<rparr>,
        hbs_permissions := aplr_permissions v, hbs_operation_sequence := 0\<rparr>"
    using assms(2)
    by (auto simp: broker_session_acquire_def broker_acquire_def broker_begin_control_def Let_def split_def
        split: if_splits sum.splits) (metis prod.collapse)
  have "lease_inv m" using lease_inv_acquire [of "bc_leases ?b"] m assms(1) by (metis broker_inv_def fst_conv)
  moreover have "route_inv (fst (begin_control (bc_routes ?b) (le_generation l)))"
    using assms(1) by (simp add: broker_inv_def route_inv_begin)
  moreover have "sm_input_enabled (fst (begin_control (bc_routes ?b) (le_generation l)))
      \<and> sm_generation (fst (begin_control (bc_routes ?b) (le_generation l))) = le_generation l"
    using control by (auto simp: begin_control_def split: option.splits if_splits)
  ultimately show ?thesis
    using lease_acquire_Inr [OF m] by (simp add: s' broker_inv_def may_input_def)
qed

lemma broker_handle_release:
  assumes "pbcf_payload q = Some (PrivilegedBridgeClientFrame_ReleaseLease v)"
    and "broker_handle ops s q now nid = (s', Inr response)"
  obtains route s1 b x where "broker_forward ops s q route = (s1, Inr response)"
    "broker_release (hbs_broker s1) (pr_lease_id route) (pr_generation route) = (b, Inr x)"
    "s' = s1\<lparr>hbs_broker := b, hbs_permissions := []\<rparr>"
    "broker_parse_route (rplr2_lease_id v) (rplr2_generation v) = Inr route"
proof (cases "broker_parse_route (rplr2_lease_id v) (rplr2_generation v)")
  case (Inl e)
  with assms show ?thesis by (simp add: broker_handle_def)
next
  case (Inr route)
  with assms obtain s1 where f: "broker_forward ops s q route = (s1, Inr response)"
    by (cases "broker_forward ops s q route"; cases "snd (broker_forward ops s q route)")
      (auto simp: broker_handle_def split: prod.splits sum.splits)
  obtain b x where "broker_release (hbs_broker s1) (pr_lease_id route) (pr_generation route) = (b, x)" by fastforce
  with Inr assms f that show ?thesis by (cases x) (auto simp: broker_handle_def)
qed

lemma broker_inv_handle:
  assumes "broker_inv s" "broker_handle ops s q now nid = (s', Inr response)"
  shows "broker_inv s'"
proof -
  consider (release) v where "pbcf_payload q = Some (PrivilegedBridgeClientFrame_ReleaseLease v)"
    | (acquire) v where "pbcf_payload q = Some (PrivilegedBridgeClientFrame_AcquireLease v)"
    | (renew) v where "pbcf_payload q = Some (PrivilegedBridgeClientFrame_RenewLease v)"
    | (command) "\<not> is_release q" "\<not> is_lease_request q"
    by (auto simp: is_release_def is_lease_request_def)
  then show ?thesis
  proof cases
    case release
    from broker_handle_release [OF this assms(2)] obtain route s1 b x
      where f: "broker_forward ops s q route = (s1, Inr response)"
        and b: "broker_release (hbs_broker s1) (pr_lease_id route) (pr_generation route) = (b, Inr x)"
          "s' = s1\<lparr>hbs_broker := b, hbs_permissions := []\<rparr>" by metis
    have "broker_inv s1" using broker_inv_forward [of ops s q route] f assms(1) by simp
    moreover obtain m where "lease_release (bc_leases (hbs_broker s1)) (pr_lease_id route) (pr_generation route) = (m, Inr x)"
      "b = (hbs_broker s1)\<lparr>bc_leases := m\<rparr>"
      using b(1) by (auto simp: broker_release_def split_def Let_def) (metis prod.collapse)
    ultimately show ?thesis
      using lease_release_Inr [of "bc_leases (hbs_broker s1)" "pr_lease_id route" "pr_generation route" m x]
        lease_inv_release [of "bc_leases (hbs_broker s1)" "pr_lease_id route" "pr_generation route"]
      by (simp add: b(2) broker_inv_def lease_release_def)
  next
    case acquire
    then show ?thesis using assms broker_inv_acquire by (simp add: broker_handle_def)
  next
    case renew
    then obtain route where route: "broker_parse_route (rplr_lease_id v) (rplr_generation v) = Inr route"
      using assms(2) by (cases "broker_parse_route (rplr_lease_id v) (rplr_generation v)") (auto simp: broker_handle_def)
    obtain m r where m: "lease_renew (bc_leases (hbs_broker s)) (pr_lease_id route) (pr_generation route) now = (m, r)"
      by fastforce
    with renew route assms(2) obtain l where r: "r = Inr l" and s': "s' = s\<lparr>hbs_broker := (hbs_broker s)\<lparr>bc_leases := m\<rparr>\<rparr>"
      by (cases r) (auto simp: broker_handle_def broker_renew_def)
    note m = m [unfolded r]
    obtain l0 where "lm_active (bc_leases (hbs_broker s)) = Some l0" "m = (bc_leases (hbs_broker s))\<lparr>lm_active := Some l\<rparr>"
      "le_last_command_sequence l = le_last_command_sequence l0" "le_may_control_input l = le_may_control_input l0"
      "le_generation l = le_generation l0"
      using lease_renew_Inr [OF m] by metis
    moreover have "lease_inv m"
      using lease_inv_renew [of "bc_leases (hbs_broker s)"] m assms(1) by (metis broker_inv_def fst_conv)
    ultimately show ?thesis using assms(1) by (simp add: s' broker_inv_def may_input_def)
  next
    case command
    then have f: "forward_authorized ops s q now = (s', Inr response)"
      using assms(2) by (simp add: broker_handle_command split: if_splits)
    show ?thesis
    proof (cases "\<exists>route. command_authorized s q now route")
      case True
      then obtain route where "command_authorized s q now route" by blast
      from forward_authorized_yes [OF assms(1) this, of ops] obtain s1 where
        "forward_authorized ops s q now = broker_forward ops s1 q route" "broker_inv s1" by metis
      with f show ?thesis by (metis broker_inv_forward fst_conv)
    next
      case False
      with forward_authorized_no(2) [OF assms(1), of q now ops] f show ?thesis by simp
    qed
  qed
qed

lemma broker_live_inv: "broker_live ops s \<Longrightarrow> broker_inv s"
proof (induction rule: broker_live.induct)
  case (live_start i r b actions b' u h allowed)
  then show ?case by (rule broker_inv_start)
next
  case (live_handle s q now nid s' response)
  then show ?case using broker_inv_handle by blast
next
  case (live_expire s now s')
  then show ?case by (auto simp: broker_expire_def lease_expire_def Let_def split: option.splits if_splits)
next
  case (live_event s s' event)
  then show ?case
    by (auto simp: broker_try_event_def Let_def split: prod.splits sum.splits option.splits if_splits)
qed

lemma broker_forward_Inr:
  assumes "broker_forward ops s q route = (s', Inr response)"
  shows "pbsf_request_id response = pbcf_request_id q" "pbsf_sequence response = pbcf_sequence q"
    "response_route response = Inr route"
  using assms by (auto simp: broker_forward_def Let_def split: prod.splits sum.splits if_splits)

section \<open>The helper behind the broker\<close>

text \<open>The route a frame names, releases included.\<close>

definition frame_route :: "privileged_bridge_client_frame \<Rightarrow> broker_protocol_error + proxy_route" where
  "frame_route q =
     (case pbcf_payload q of
        Some (PrivilegedBridgeClientFrame_ReleaseLease v) \<Rightarrow> broker_parse_route (rplr2_lease_id v) (rplr2_generation v)
      | _ \<Rightarrow> request_route q)"

definition is_start :: "privileged_bridge_client_frame \<Rightarrow> bool" where
  "is_start q \<longleftrightarrow> (\<exists>v. pbcf_payload q = Some (PrivilegedBridgeClientFrame_StartPeer v))
     \<or> (\<exists>v. pbcf_payload q = Some (PrivilegedBridgeClientFrame_RestartPeer v))"

text \<open>A helper may act on a route that is attached, or, for a start, on one that is newer than what is attached.\<close>

definition helper_admits :: "'b helper_protocol \<Rightarrow> privileged_bridge_client_frame \<Rightarrow> proxy_route \<Rightarrow> bool" where
  "helper_admits h q route \<longleftrightarrow> \<not> hp_failed h \<and> frame_route q = Inr route
     \<and> (hlg_route (hp_gate h) = Some route
        \<or> is_start q \<and> (\<forall>r. hlg_route (hp_gate h) = Some r \<longrightarrow> pr_generation r < pr_generation route))"

lemma parse_routes_agree:
  "helper_parse_route l g = Inr r \<longleftrightarrow> broker_parse_route l g = Inr r"
  by (auto simp: helper_parse_route_def broker_parse_route_def)

lemma parse_route_back: "broker_parse_route l g = Inr r \<Longrightarrow> broker_parse_route (lease_id_bytes (pr_lease_id r)) (pr_generation r) = Inr r"
  by (auto simp: broker_parse_route_def proxy_route_new_def split: if_splits)

lemma helper_authorize_Inr:
  "helper_authorize h l g = Inr r \<longleftrightarrow> broker_parse_route l g = Inr r \<and> hlg_route (hp_gate h) = Some r"
  by (auto simp: helper_authorize_def bind_res_Inr parse_routes_agree gate_authorize_def split: option.splits if_splits)

lemma attach_or_authorize_shape:
  "attach_or_authorize h r = (h1, Inr u) \<Longrightarrow>
     hp_backend h1 = hp_backend h \<and> (hlg_route (hp_gate h) = Some r
       \<or> (\<forall>c. hlg_route (hp_gate h) = Some c \<longrightarrow> pr_generation c < pr_generation r))"
  "hp_backend (fst (attach_or_authorize h r)) = hp_backend h"
  by (auto simp: attach_or_authorize_def gate_attach_def Let_def split: if_splits option.splits)

lemma answer_routes:
  "broker_parse_route l g = Inr r \<Longrightarrow> response_route (answer_response q r a) = Inr r"
  "broker_parse_route l g = Inr r \<Longrightarrow> response_route (accepted_response q r) = Inr r"
  by (simp_all add: response_route_def answer_response_def accepted_response_def helper_response_frame_def parse_route_back)

lemma answer_ids:
  "pbsf_request_id (answer_response q r a) = pbcf_request_id q" "pbsf_sequence (answer_response q r a) = pbcf_sequence q"
  "pbsf_request_id (accepted_response q r) = pbcf_request_id q" "pbsf_sequence (accepted_response q r) = pbcf_sequence q"
  by (simp_all add: answer_response_def accepted_response_def helper_response_frame_def)

text \<open>The backend was called: it changed, or its failure or success is the result.\<close>

definition acted :: "'b helper_protocol \<Rightarrow> 'b helper_protocol \<Rightarrow> helper_protocol_error + 'a \<Rightarrow> bool" where
  "acted h h' r \<longleftrightarrow> hp_backend h' \<noteq> hp_backend h \<or> is_ok r \<or> r = Inl HelperProtocolError_Backend"

lemma attach_or_authorize_error: "attach_or_authorize h r = (h1, Inl e) \<Longrightarrow> e = HelperProtocolError_StaleRoute"
  by (auto simp: attach_or_authorize_def gate_attach_def Let_def split: if_splits)

lemma helper_authorize_error: "helper_authorize h l g = Inl e \<Longrightarrow> e \<noteq> HelperProtocolError_Backend"
  by (auto simp: helper_authorize_def helper_parse_route_def bind_res_Inl gate_authorize_def split: if_splits option.splits)

lemma start_on_shape:
  assumes "start_on f h q l g c d n = (h', r)"
  shows "acted h h' r \<Longrightarrow> \<exists>route. broker_parse_route l g = Inr route
      \<and> (hlg_route (hp_gate h) = Some route \<or> (\<forall>c. hlg_route (hp_gate h) = Some c \<longrightarrow> pr_generation c < pr_generation route))"
    and "r = Inr response \<Longrightarrow> pbsf_request_id response = pbcf_request_id q \<and> pbsf_sequence response = pbcf_sequence q
      \<and> response_route response = broker_parse_route l g"
proof -
  show "\<exists>route. broker_parse_route l g = Inr route
      \<and> (hlg_route (hp_gate h) = Some route \<or> (\<forall>c. hlg_route (hp_gate h) = Some c \<longrightarrow> pr_generation c < pr_generation route))"
    if touched: "acted h h' r"
  proof (cases "helper_parse_route l g")
    case (Inl e)
    with assms touched show ?thesis by (auto simp: start_on_def acted_def helper_parse_route_def attach_or_authorize_def Let_def split: if_splits)
  next
    case (Inr route)
    obtain h1 a where a: "attach_or_authorize h route = (h1, a)" by fastforce
    have "is_ok a"
      using assms Inr a touched attach_or_authorize_shape(2) [of h route] by (cases a) (auto simp: start_on_def acted_def dest: attach_or_authorize_error)
    then show ?thesis
      using attach_or_authorize_shape(1) [of h route h1] a Inr parse_routes_agree by (cases a) auto
  qed
  show "pbsf_request_id response = pbcf_request_id q \<and> pbsf_sequence response = pbcf_sequence q
      \<and> response_route response = broker_parse_route l g" if "r = Inr response"
    using assms that answer_routes(1)
    by (cases c; cases d; cases "helper_parse_route l g")
      (auto simp: start_on_def sbind_Inr parse_routes_agree answer_ids)
qed

lemma accept_on_shape:
  assumes "accept_on f h q l g = (h', r)"
  shows "acted h h' r \<Longrightarrow>
      \<exists>route. broker_parse_route l g = Inr route \<and> hlg_route (hp_gate h) = Some route"
    and "r = Inr response \<Longrightarrow> pbsf_request_id response = pbcf_request_id q \<and> pbsf_sequence response = pbcf_sequence q
      \<and> response_route response = broker_parse_route l g"
proof -
  show "\<exists>route. broker_parse_route l g = Inr route \<and> hlg_route (hp_gate h) = Some route"
    if "acted h h' r"
    using assms that by (cases "helper_authorize h l g") (auto simp: accept_on_def acted_def helper_authorize_Inr dest: helper_authorize_error)
  show "pbsf_request_id response = pbcf_request_id q \<and> pbsf_sequence response = pbcf_sequence q
      \<and> response_route response = broker_parse_route l g" if "r = Inr response"
    using assms that answer_routes(2)
    by (cases "helper_authorize h l g") (auto simp: accept_on_def sbind_Inr helper_authorize_Inr answer_ids)
qed

lemma add_candidate_shape:
  assumes "pbcf_payload q = Some (PrivilegedBridgeClientFrame_AddIceCandidate v)"
    and "helper_handle_inner ops h q = (h', r)"
  shows "acted h h' r \<Longrightarrow>
      \<exists>route. broker_parse_route (apicr_lease_id v) (apicr_generation v) = Inr route \<and> hlg_route (hp_gate h) = Some route"
    and "r = Inr response \<Longrightarrow> pbsf_request_id response = pbcf_request_id q \<and> pbsf_sequence response = pbcf_sequence q
      \<and> response_route response = broker_parse_route (apicr_lease_id v) (apicr_generation v)"
  using assms answer_routes(2)
  by (cases "helper_authorize h (apicr_lease_id v) (apicr_generation v)"; cases "apicr_candidate v";
      auto simp: helper_handle_inner_def acted_def helper_authorize_Inr sbind_Inr answer_ids dest: helper_authorize_error)+

lemma release_shape:
  assumes "pbcf_payload q = Some (PrivilegedBridgeClientFrame_ReleaseLease v)"
    and "helper_handle_inner ops h q = (h', r)"
  obtains h1 where "accept_on (hbo_close ops) h q (rplr2_lease_id v) (rplr2_generation v) = (h1, r)"
    "hp_backend h' = hp_backend h1"
  using assms
  by (cases "accept_on (hbo_close ops) h q (rplr2_lease_id v) (rplr2_generation v)";
      cases "snd (accept_on (hbo_close ops) h q (rplr2_lease_id v) (rplr2_generation v))")
    (auto simp: helper_handle_inner_def)

lemma helper_inner_shape:
  assumes "helper_handle_inner ops h q = (h', r)" and "\<not> hp_failed h"
  shows "acted h h' r \<Longrightarrow> \<exists>route. helper_admits h q route"
    and "r = Inr response \<Longrightarrow> pbsf_request_id response = pbcf_request_id q \<and> pbsf_sequence response = pbcf_sequence q
      \<and> response_route response = frame_route q"
proof -
  note shape = helper_handle_inner_def helper_admits_def frame_route_def request_route_def is_start_def
  have both: "(acted h h' r \<longrightarrow> (\<exists>route. helper_admits h q route))
    \<and> (r = Inr response \<longrightarrow> pbsf_request_id response = pbcf_request_id q \<and> pbsf_sequence response = pbcf_sequence q
      \<and> response_route response = frame_route q)"
  proof (cases "pbcf_payload q")
    case None
    with assms show ?thesis by (auto simp: helper_handle_inner_def acted_def)
  next
    case (Some p)
    show ?thesis
    proof (cases p)
      case (PrivilegedBridgeClientFrame_StartPeer v)
      then show ?thesis using assms Some start_on_shape [of "hbo_start ops" h q] by (simp add: shape, blast?)
    next
      case (PrivilegedBridgeClientFrame_RestartPeer v)
      then show ?thesis using assms Some start_on_shape [of "hbo_restart ops" h q] by (simp add: shape, blast?)
    next
      case (PrivilegedBridgeClientFrame_AddIceCandidate v)
      then show ?thesis using assms Some add_candidate_shape [of q v ops h h' r] by (simp add: shape, blast?)
    next
      case (PrivilegedBridgeClientFrame_SendSecureAttention v)
      then show ?thesis using assms Some accept_on_shape [of "hbo_secure_attention ops" h q] by (simp add: shape, blast?)
    next
      case (PrivilegedBridgeClientFrame_InputCommand v)
      then show ?thesis using assms Some accept_on_shape [of "\<lambda>b. hbo_input ops b v" h q] by (simp add: shape, blast?)
    next
      case (PrivilegedBridgeClientFrame_ClosePeer v)
      then show ?thesis using assms Some accept_on_shape [of "hbo_close ops" h q] by (simp add: shape, blast?)
    next
      case (PrivilegedBridgeClientFrame_ReleaseLease v)
      from release_shape [OF Some [unfolded this] assms(1)] obtain h1 where
        "accept_on (hbo_close ops) h q (rplr2_lease_id v) (rplr2_generation v) = (h1, r)" "hp_backend h' = hp_backend h1"
        by metis
      then show ?thesis
        using assms(2) Some PrivilegedBridgeClientFrame_ReleaseLease accept_on_shape [of "hbo_close ops" h q]
        by (simp add: helper_admits_def frame_route_def acted_def, blast?)
    qed (use assms Some in \<open>auto simp: helper_handle_inner_def acted_def\<close>)
  qed
  then show "acted h h' r \<Longrightarrow> \<exists>route. helper_admits h q route"
    "r = Inr response \<Longrightarrow> pbsf_request_id response = pbcf_request_id q \<and> pbsf_sequence response = pbcf_sequence q
      \<and> response_route response = frame_route q" by blast+
qed

text \<open>
  Through \<^verbatim>\<open>handle\<close> the backend is also told to fail closed, and that only after it reported a failure itself: so a change of the
  backend means that a command was admitted.
\<close>

lemma helper_handle_shape:
  assumes "helper_handle ops h q = (h', r)"
  shows "hp_backend h' \<noteq> hp_backend h \<or> is_ok r \<Longrightarrow> \<exists>route. helper_admits h q route"
    and "r = Inr response \<Longrightarrow> pbsf_request_id response = pbcf_request_id q \<and> pbsf_sequence response = pbcf_sequence q
      \<and> response_route response = frame_route q"
proof -
  obtain h1 r1 where i: "helper_handle_inner ops h q = (h1, r1)" by fastforce
  show "\<exists>route. helper_admits h q route" if "hp_backend h' \<noteq> hp_backend h \<or> is_ok r"
    using assms that i helper_inner_shape(1) [OF i]
    by (auto simp: helper_handle_def acted_def split: if_splits)
  show "pbsf_request_id response = pbcf_request_id q \<and> pbsf_sequence response = pbcf_sequence q
      \<and> response_route response = frame_route q" if "r = Inr response"
    using assms that i helper_inner_shape(2) [OF i] by (auto simp: helper_handle_def split: if_splits)
qed

lemma response_route_errors: "response_route f = Inl e \<Longrightarrow> e = BrokerProtocolError_InvalidMessage"
  by (auto simp: response_route_def broker_parse_route_def
      split: option.splits privileged_bridge_server_frame_payload.splits if_splits)

lemma lease_reply:
  assumes "is_lease_request q" "broker_handle ops s q now nid = (s', Inr response)"
  shows "\<exists>l. lm_active (bc_leases (hbs_broker s')) = Some l \<and> response = lease_response q l (hbs_permissions s')"
proof -
  consider (acquire) v where "pbcf_payload q = Some (PrivilegedBridgeClientFrame_AcquireLease v)"
    | (renew) v where "pbcf_payload q = Some (PrivilegedBridgeClientFrame_RenewLease v)"
    using assms(1) by (auto simp: is_lease_request_def)
  then show ?thesis
  proof cases
    case acquire
    then have a: "broker_session_acquire s q v now nid = (s', Inr response)"
      using assms(2) by (simp add: broker_handle_def)
    let ?a = "\<lparr>al_session_id = SessionId (aplr_session_id v), al_generation = aplr_generation v,
        al_controller_display_name = aplr_controller_display_name v,
        al_may_control_input = session_permission_code SessionPermission_ControlInput \<in> set (aplr_permissions v)\<rparr>"
    obtain m x where m: "lease_acquire (bc_leases (hbs_broker s)) ?a now nid = (m, x)" by fastforce
    with a obtain l where x: "x = Inr l"
      by (cases x) (auto simp: broker_session_acquire_def broker_acquire_def Let_def split: if_splits)
    obtain c y where "begin_control (bc_routes (hbs_broker s)) (le_generation l) = (c, y)" by fastforce
    with a m x lease_acquire_Inr(1) [of "bc_leases (hbs_broker s)" ?a now nid m l] show ?thesis
      by (cases y) (auto simp: broker_session_acquire_def broker_acquire_def broker_begin_control_def Let_def split: if_splits)
  next
    case renew
    then obtain route where route: "broker_parse_route (rplr_lease_id v) (rplr_generation v) = Inr route"
      using assms(2) by (cases "broker_parse_route (rplr_lease_id v) (rplr_generation v)") (auto simp: broker_handle_def)
    obtain m x where m: "lease_renew (bc_leases (hbs_broker s)) (pr_lease_id route) (pr_generation route) now = (m, x)"
      by fastforce
    with renew route assms(2) obtain l where x: "x = Inr l" "s' = s\<lparr>hbs_broker := (hbs_broker s)\<lparr>bc_leases := m\<rparr>\<rparr>"
      "response = lease_response q l (hbs_permissions s)"
      by (cases x) (auto simp: broker_handle_def broker_renew_def)
    moreover have "m = (bc_leases (hbs_broker s))\<lparr>lm_active := Some l\<rparr>"
      using lease_renew_Inr [OF m [unfolded x(1)]] by metis
    ultimately show ?thesis by simp
  qed
qed

text \<open>The helper as the broker sees it when nothing is lost on the way.\<close>

definition direct_helper :: "'b helper_backend_ops \<Rightarrow> 'b helper_protocol broker_helper_ops" where
  "direct_helper hops =
     \<lparr>bh_exchange = (\<lambda>h q. map_prod (\<lambda>h. h) (map_err (\<lambda>_. BrokerProtocolError_Helper)) (helper_handle hops h q)),
      bh_try_event = (\<lambda>h. map_prod (\<lambda>h. h) (map_err (\<lambda>_. BrokerProtocolError_Helper)) (helper_try_event hops h)),
      bh_fail_closed = helper_shutdown hops\<rparr>"

lemma direct_forward:
  assumes "frame_route q = Inr route" and "helper_handle hops (hbs_helper s) q = (h', r)"
  shows "broker_forward (direct_helper hops) s q route = (s\<lparr>hbs_helper := h'\<rparr>, map_err (\<lambda>_. BrokerProtocolError_Helper) r)"
  using assms helper_handle_shape(2) [OF assms(2)]
  by (cases r) (auto simp: broker_forward_def direct_helper_def Let_def)

lemma direct_forward_not_stale:
  "frame_route q = Inr route \<Longrightarrow> snd (broker_forward (direct_helper hops) s q route) \<noteq> Inl BrokerProtocolError_StaleResponse"
proof -
  assume route: "frame_route q = Inr route"
  obtain h' x where "helper_handle hops (hbs_helper s) q = (h', x)" by fastforce
  then show ?thesis using direct_forward [OF route, of hops s h' x] by (cases x) auto
qed

lemma broker_route_errors:
  "broker_parse_route l g = Inl e \<Longrightarrow> e = BrokerProtocolError_InvalidMessage"
  "request_route q = Inl e \<Longrightarrow> e = BrokerProtocolError_InvalidMessage"
  "controller_name_check s q = Inl e \<Longrightarrow> e \<noteq> BrokerProtocolError_StaleResponse"
  by (auto simp: broker_parse_route_def request_route_def controller_name_check_def bind_res_Inl
      split: option.splits privileged_bridge_client_frame_payload.splits if_splits)

lemma frame_route_command: "\<not> is_release q \<Longrightarrow> frame_route q = request_route q"
  by (auto simp: frame_route_def is_release_def split: option.splits privileged_bridge_client_frame_payload.splits)

lemma forward_authorized_not_stale:
  assumes "\<not> is_release q"
  shows "snd (forward_authorized (direct_helper hops) s q now) \<noteq> Inl BrokerProtocolError_StaleResponse"
proof (cases "bind_res (controller_name_check s q) (\<lambda>_. request_route q)")
  case (Inl e)
  then have "e \<noteq> BrokerProtocolError_StaleResponse"
    using broker_route_errors(2,3) by (fastforce simp: bind_res_Inl)
  with Inl show ?thesis by (simp add: forward_authorized_def)
next
  case (Inr route)
  then have route: "frame_route q = Inr route" using assms by (auto simp: bind_res_Inr frame_route_command)
  show ?thesis
  proof (cases "checked_add (hbs_operation_sequence s) 1")
    case None
    with Inr show ?thesis by (simp add: forward_authorized_def)
  next
    case (Some n)
    obtain b x where "broker_authorize_command (hbs_broker s) (pr_lease_id route) (pr_generation route) n now = (b, x)"
      by fastforce
    with Inr Some direct_forward_not_stale [OF route] show ?thesis by (cases x) (simp_all add: forward_authorized_def)
  qed
qed

lemma broker_never_stale:
  assumes "broker_handle (direct_helper hops) s q now nid = (s', r)"
  shows "r \<noteq> Inl BrokerProtocolError_StaleResponse"
proof -
  note parse = broker_route_errors(1)
  consider (release) v where "pbcf_payload q = Some (PrivilegedBridgeClientFrame_ReleaseLease v)"
    | (acquire) v where "pbcf_payload q = Some (PrivilegedBridgeClientFrame_AcquireLease v)"
    | (renew) v where "pbcf_payload q = Some (PrivilegedBridgeClientFrame_RenewLease v)"
    | (command) "\<not> is_release q" "\<not> is_lease_request q"
    by (auto simp: is_release_def is_lease_request_def)
  then show ?thesis
  proof cases
    case release
    show ?thesis
    proof (cases "broker_parse_route (rplr2_lease_id v) (rplr2_generation v)")
      case (Inl e)
      with release assms parse show ?thesis by (auto simp: broker_handle_def)
    next
      case (Inr route)
      then have "snd (broker_forward (direct_helper hops) s q route) \<noteq> Inl BrokerProtocolError_StaleResponse"
        using release by (intro direct_forward_not_stale) (simp add: frame_route_def)
      then show ?thesis
        using release Inr assms
        by (cases "broker_forward (direct_helper hops) s q route"; cases "snd (broker_forward (direct_helper hops) s q route)")
          (auto simp: broker_handle_def split: prod.splits sum.splits)
    qed
  next
    case acquire
    then show ?thesis
      using assms by (auto simp: broker_handle_def broker_session_acquire_def Let_def split: if_splits prod.splits sum.splits)
  next
    case renew
    then show ?thesis
      using assms parse by (auto simp: broker_handle_def split: prod.splits sum.splits)
  next
    case command
    have "snd (broker_handle (direct_helper hops) s q now nid) \<in>
        {snd (forward_authorized (direct_helper hops) s q now), Inl BrokerProtocolError_InvalidMessage,
         Inl BrokerProtocolError_PermissionDenied}"
      using command by (simp add: broker_handle_command)
    then show ?thesis
      using assms forward_authorized_not_stale [OF command(1), of hops s now] by auto
  qed
qed

section \<open>After the end\<close>

datatype broker_op =
    BrokerHandle privileged_bridge_client_frame u64 "lease_error + lease_id"
  | BrokerExpire u64
  | BrokerTryEvent
  | BrokerFailClosed

datatype broker_out =
    BrokerHandled "broker_protocol_error + privileged_bridge_server_frame"
  | BrokerExpired bool
  | BrokerPolled "broker_protocol_error + privileged_bridge_server_frame option"
  | BrokerClosed

fun broker_step :: "'h broker_helper_ops \<Rightarrow> 'h host_broker_session \<Rightarrow> broker_op \<Rightarrow> 'h host_broker_session \<times> broker_out" where
  "broker_step ops s (BrokerHandle q now nid) = map_prod (\<lambda>s. s) BrokerHandled (broker_handle ops s q now nid)"
| "broker_step ops s (BrokerExpire now) = map_prod (\<lambda>s. s) BrokerExpired (broker_expire ops s now)"
| "broker_step ops s BrokerTryEvent = map_prod (\<lambda>s. s) BrokerPolled (broker_try_event ops s)"
| "broker_step ops s BrokerFailClosed = (broker_fail_closed ops s, BrokerClosed)"

definition broker_closed :: "'h host_broker_session \<Rightarrow> bool" where
  "broker_closed s \<longleftrightarrow> lm_host_generation (bc_leases (hbs_broker s)) = None
     \<and> lm_active (bc_leases (hbs_broker s)) = None \<and> hbs_permissions s = []"

lemma broker_closed_fail_closed: "broker_closed (broker_fail_closed ops s)"
  by (simp add: broker_closed_def broker_fail_closed_def broker_disconnect_host_def disconnect_host_def
      freeze_active_def split_def Let_def split: option.splits)

lemma closed_leases:
  assumes "lm_host_generation m = None" "lm_active m = None"
  shows "lease_acquire m q now nid = (m, Inl LeaseError_HostDisconnected)"
    "lease_renew m i g now = (m, Inl LeaseError_LeaseNotActive)"
    "authorize_command m i g n now = (m, Inl LeaseError_LeaseNotActive)"
    "fst (lease_release m i g) = m" "lease_expire m now = (m, None)"
  using assms by (simp_all add: lease_op_defs)

lemma closed_forward_authorized:
  assumes "broker_closed s"
  obtains n e where "forward_authorized ops s q now = (s\<lparr>hbs_operation_sequence := n\<rparr>, Inl e)"
proof (cases "bind_res (controller_name_check s q) (\<lambda>_. request_route q)")
  case (Inl e)
  then show ?thesis using that [of "hbs_operation_sequence s" e] by (simp add: forward_authorized_def)
next
  case (Inr route)
  show ?thesis
  proof (cases "checked_add (hbs_operation_sequence s) 1")
    case None
    with Inr show ?thesis
      using that [of "hbs_operation_sequence s" BrokerProtocolError_Lease] by (simp add: forward_authorized_def)
  next
    case (Some n)
    with Inr assms show ?thesis
      using that [of n BrokerProtocolError_Lease]
      by (simp add: forward_authorized_def broker_authorize_command_def closed_leases broker_closed_def)
  qed
qed

lemma closed_acquire:
  "broker_closed s \<Longrightarrow> \<exists>e. broker_session_acquire s q v now nid = (s, Inl e)"
  by (simp add: broker_session_acquire_def broker_acquire_def broker_closed_def closed_leases(1) Let_def)

lemma closed_renew: "broker_closed s \<Longrightarrow> broker_renew (hbs_broker s) i g now = (hbs_broker s, Inl LeaseError_LeaseNotActive)"
  by (simp add: broker_renew_def broker_closed_def closed_leases(2) Let_def)

lemma closed_handle:
  assumes "broker_closed s" "\<not> is_release q"
  obtains n e where "broker_handle ops s q now nid = (s\<lparr>hbs_operation_sequence := n\<rparr>, Inl e)"
proof -
  have same: "s\<lparr>hbs_operation_sequence := hbs_operation_sequence s\<rparr> = s" by simp
  consider (acquire) v where "pbcf_payload q = Some (PrivilegedBridgeClientFrame_AcquireLease v)"
    | (renew) v where "pbcf_payload q = Some (PrivilegedBridgeClientFrame_RenewLease v)"
    | (command) "\<not> is_lease_request q" by (auto simp: is_lease_request_def)
  then have "\<exists>n e. broker_handle ops s q now nid = (s\<lparr>hbs_operation_sequence := n\<rparr>, Inl e)"
  proof cases
    case acquire
    then have "\<exists>e. broker_handle ops s q now nid = (s, Inl e)"
      using closed_acquire [OF assms(1)] by (simp add: broker_handle_def)
    then show ?thesis using same by metis
  next
    case renew
    then have "\<exists>e. broker_handle ops s q now nid = (s, Inl e)"
      using closed_renew [OF assms(1)]
      by (cases "broker_parse_route (rplr_lease_id v) (rplr_generation v)") (simp_all add: broker_handle_def)
    then show ?thesis using same by metis
  next
    case command
    obtain n e where f: "forward_authorized ops s q now = (s\<lparr>hbs_operation_sequence := n\<rparr>, Inl e)"
      using closed_forward_authorized [OF assms(1)] by metis
    have "broker_handle ops s q now nid = (s\<lparr>hbs_operation_sequence := n\<rparr>, Inl e)
        \<or> (\<exists>e. broker_handle ops s q now nid = (s, Inl e))"
      using command assms(2) f by (auto simp: broker_handle_command)
    then show ?thesis using same by metis
  qed
  then show ?thesis using that by blast
qed

lemma closed_release:
  assumes "broker_closed s" "is_release q"
  shows "broker_closed (fst (broker_handle ops s q now nid))"
proof -
  obtain v where v: "pbcf_payload q = Some (PrivilegedBridgeClientFrame_ReleaseLease v)"
    using assms(2) by (auto simp: is_release_def)
  show ?thesis
  proof (cases "broker_parse_route (rplr2_lease_id v) (rplr2_generation v)")
    case (Inl e)
    with v assms(1) show ?thesis by (simp add: broker_handle_def)
  next
    case (Inr route)
    obtain s1 r where f: "broker_forward ops s q route = (s1, r)" by fastforce
    then have c: "broker_closed s1" using broker_forward_fields [of ops s q route] assms(1) by (simp add: broker_closed_def)
    obtain m x where m: "lease_release (bc_leases (hbs_broker s1)) (pr_lease_id route) (pr_generation route) = (m, x)"
      by fastforce
    then have "m = bc_leases (hbs_broker s1)"
      using closed_leases(4) [of "bc_leases (hbs_broker s1)"] c by (metis broker_closed_def fst_conv)
    with v Inr f m c show ?thesis
      by (cases r; cases x) (auto simp: broker_handle_def broker_release_def broker_closed_def)
  qed
qed

interpretation broker_end: machine "broker_step ops" broker_closed for ops
proof
  fix s :: "'a host_broker_session" and a
  assume c: "broker_closed s"
  show "broker_closed (fst (broker_step ops s a))"
  proof (cases a)
    case (BrokerHandle q now nid)
    show ?thesis
    proof (cases "is_release q")
      case True
      with BrokerHandle c show ?thesis by (simp add: closed_release)
    next
      case False
      obtain n e where "broker_handle ops s q now nid = (s\<lparr>hbs_operation_sequence := n\<rparr>, Inl e)"
        using closed_handle [OF c False] by metis
      with c BrokerHandle show ?thesis by (simp add: broker_closed_def)
    qed
  next
    case (BrokerExpire now)
    with c show ?thesis by (simp add: broker_expire_def broker_closed_def closed_leases Let_def)
  next
    case BrokerTryEvent
    with c show ?thesis
      by (auto simp: broker_try_event_def broker_closed_def Let_def split: prod.splits sum.splits option.splits)
  next
    case BrokerFailClosed
    then show ?thesis by (simp add: broker_closed_fail_closed)
  qed
qed

section \<open>A concrete connection\<close>

text \<open>A locked Windows desktop, a Host that may control input, and a helper backend that counts its calls.\<close>

definition demo_route :: route_session where
  "demo_route = \<lparr>rs_platform = Platform_Windows, rs_os_session_id = 7, rs_desktop = DesktopKind_LockedLogin, rs_generation = 3\<rparr>"

definition demo_lease_id :: bytes where "demo_lease_id = replicate 16 9"

definition demo_backend :: "nat helper_backend_ops" where
  "demo_backend =
     (let ok = (\<lambda>n. (Suc n, Inr ())); answer = (\<lambda>n. (Suc n, Inr \<lparr>pa_sdp = ''sdp'', pa_dtls_fingerprint_sha256 = []\<rparr>)) in
      \<lparr>hbo_start = (\<lambda>n _ _ _. answer n), hbo_restart = (\<lambda>n _ _ _. answer n), hbo_add_candidate = (\<lambda>n _. ok n),
       hbo_input = (\<lambda>n _. ok n), hbo_secure_attention = ok, hbo_close = ok,
       hbo_try_event = (\<lambda>n. (n, Inr None)), hbo_fail_closed = (\<lambda>n. n)\<rparr>)"

definition demo_bridge_frame :: "u64 \<Rightarrow> privileged_bridge_client_frame_payload \<Rightarrow> privileged_bridge_client_frame" where
  "demo_bridge_frame n p = \<lparr>pbcf_protocol_version = Some \<lparr>pv_major = 1, pv_minor = 0\<rparr>, pbcf_request_id = ''r'',
     pbcf_sequence = n, pbcf_payload = Some p\<rparr>"

definition demo_acquire_frame :: privileged_bridge_client_frame where
  "demo_acquire_frame = demo_bridge_frame 3 (PrivilegedBridgeClientFrame_AcquireLease
     \<lparr>aplr_session_id = replicate 16 4, aplr_generation = 3, aplr_permissions = [1, 2],
      aplr_controller_display_name = ''desk''\<rparr>)"

definition demo_start_frame :: privileged_bridge_client_frame where
  "demo_start_frame = demo_bridge_frame 4 (PrivilegedBridgeClientFrame_StartPeer
     \<lparr>sppr_lease_id = demo_lease_id, sppr_generation = 3,
      sppr_configuration = Some \<lparr>ppc_ice_transport_policy = 1, ppc_ice_servers = []\<rparr>,
      sppr_offer = Some \<lparr>wrsd_type = 1, wrsd_sdp = ''o'', wrsd_dtls_fingerprint_sha256 = []\<rparr>,
      sppr_controller_display_name = ''desk''\<rparr>)"

definition demo_input_frame :: privileged_bridge_client_frame where
  "demo_input_frame = demo_bridge_frame 5 (PrivilegedBridgeClientFrame_InputCommand
     \<lparr>pic_lease_id = demo_lease_id, pic_generation = 3,
      pic_input = Some (PrivilegedInputCommand_ReleaseAll release_all_input.ReleaseAllInput)\<rparr>)"

abbreviation "demo_helper_ops \<equiv> direct_helper demo_backend"

definition demo_lease :: lease where
  "demo_lease = \<lparr>le_id = LeaseId demo_lease_id, le_session_id = SessionId (replicate 16 4), le_generation = 3,
     le_issued_at_ms = 1000, le_expires_at_ms = 16000, le_last_renewed_at_ms = 1000, le_last_command_sequence = 0,
     le_controller_display_name = ''desk'', le_may_control_input = True\<rparr>"

definition demo_core :: "lease option \<Rightarrow> bool \<Rightarrow> broker_core" where
  "demo_core l live = \<lparr>bc_leases = \<lparr>lm_broker_instance_id = [5], lm_host_generation = Some 3, lm_active = l, lm_last_released = None\<rparr>,
     bc_routes = \<lparr>sm_generation = 3, sm_current = Some demo_route, sm_controlled_lease = live, sm_input_enabled = live\<rparr>\<rparr>"

definition demo_session :: "nat helper_protocol host_broker_session" where
  "demo_session = with_secure_attention (host_broker_session_new (demo_core None False) (helper_protocol_new 0)) True"

definition demo_leased :: "nat helper_protocol host_broker_session" where
  "demo_leased = demo_session\<lparr>hbs_broker := demo_core (Some demo_lease) True, hbs_permissions := [1, 2]\<rparr>"

definition demo_started :: "nat helper_protocol host_broker_session" where
  "demo_started = demo_leased\<lparr>hbs_broker := demo_core (Some (demo_lease\<lparr>le_last_command_sequence := 1\<rparr>)) True,
     hbs_operation_sequence := 1,
     hbs_helper := \<lparr>hp_gate = \<lparr>hlg_route = Some (proxy_route_new (LeaseId demo_lease_id) 3)\<rparr>, hp_backend = 1,
       hp_next_event_sequence = 1, hp_failed = False\<rparr>\<rparr>"

lemmas demo_frame_defs = demo_acquire_frame_def demo_start_frame_def demo_input_frame_def demo_bridge_frame_def

lemmas demo_broker_defs = demo_session_def demo_leased_def demo_started_def demo_core_def demo_lease_def demo_route_def
  with_secure_attention_def host_broker_session_new_def

lemma demo_live_start: "broker_live ops demo_session"
proof -
  have "broker_observe_route (broker_core_new [5]) (SessionAvailable demo_route)
      = ((demo_core None False)\<lparr>bc_leases := lease_manager_new [5]\<rparr>, Inr [PublishRoute demo_route])"
    by (simp add: broker_observe_route_def broker_core_new_def session_state_machine_new_def apply_available_def
        freeze_actions_def demo_core_def demo_route_def)
  moreover have "broker_connect_host ((demo_core None False)\<lparr>bc_leases := lease_manager_new [5]\<rparr>) (rs_generation demo_route)
      = (demo_core None False, Inr ())"
    by (simp add: broker_connect_host_def connect_host_def lease_manager_new_def demo_core_def demo_route_def)
  ultimately show ?thesis unfolding demo_session_def by (rule live_start)
qed

lemma demo_acquired:
  "broker_handle ops demo_session demo_acquire_frame 1000 (Inr (LeaseId demo_lease_id))
    = (demo_leased, Inr (lease_response demo_acquire_frame demo_lease [1, 2]))"
  by (simp add: broker_handle_def demo_frame_defs demo_broker_defs broker_session_acquire_def broker_acquire_def
      lease_acquire_def validate_controller_name_def broker_begin_control_def begin_control_def checked_add_def
      limits demo_lease_id_def Let_def)

lemma demo_live_leased: "broker_live ops demo_leased"
  using live_handle [OF demo_live_start demo_acquired] .

lemma demo_start_authorized:
  "authorize_command (bc_leases (hbs_broker demo_leased)) (LeaseId demo_lease_id) 3 1 2000
    = (bc_leases (demo_core (Some (demo_lease\<lparr>le_last_command_sequence := 1\<rparr>)) True), Inr ())"
  by (simp add: authorize_command_iff demo_broker_defs)

lemma demo_routes:
  "request_route demo_start_frame = Inr (proxy_route_new (LeaseId demo_lease_id) 3)"
  "request_route demo_input_frame = Inr (proxy_route_new (LeaseId demo_lease_id) 3)"
  by (simp_all add: request_route_def demo_frame_defs broker_parse_route_def demo_lease_id_def)

lemma demo_frame_kinds:
  "\<not> is_release demo_start_frame" "\<not> is_lease_request demo_start_frame" "\<not> is_release demo_input_frame"
  "\<not> is_lease_request demo_input_frame" "needs_input demo_input_frame" "\<not> needs_input demo_start_frame"
  "\<not> needs_secure_attention demo_input_frame" "\<not> needs_secure_attention demo_start_frame"
  "request_controller_display_name demo_start_frame = Some ''desk''" "request_controller_display_name demo_input_frame = None"
  by (simp_all add: is_release_def is_lease_request_def needs_input_def needs_secure_attention_def
      request_controller_display_name_def demo_frame_defs)

lemma demo_helper_start:
  "helper_handle demo_backend (hbs_helper demo_leased) demo_start_frame
    = (hbs_helper demo_started, Inr (answer_response demo_start_frame (proxy_route_new (LeaseId demo_lease_id) 3)
        \<lparr>pa_sdp = ''sdp'', pa_dtls_fingerprint_sha256 = []\<rparr>))"
  by (simp add: helper_handle_def helper_handle_inner_def start_on_def helper_parse_route_def attach_or_authorize_def
      gate_attach_def on_backend_def demo_backend_def demo_frame_defs demo_broker_defs helper_protocol_new_def
      helper_lease_gate_new_def demo_lease_id_def proxy_route_new_def Let_def)

lemma demo_started_by:
  "broker_handle demo_helper_ops demo_leased demo_start_frame 2000 nid
    = (demo_started, Inr (answer_response demo_start_frame (proxy_route_new (LeaseId demo_lease_id) 3)
        \<lparr>pa_sdp = ''sdp'', pa_dtls_fingerprint_sha256 = []\<rparr>))"
proof -
  let ?route = "proxy_route_new (LeaseId demo_lease_id) 3"
  let ?s1 = "demo_leased\<lparr>hbs_operation_sequence := 1,
    hbs_broker := demo_core (Some (demo_lease\<lparr>le_last_command_sequence := 1\<rparr>)) True\<rparr>"
  have name: "controller_name_check demo_leased demo_start_frame = Inr ()"
    by (simp add: controller_name_check_iff demo_frame_kinds) (simp add: demo_broker_defs)
  have "hbs_operation_sequence demo_leased = 0" by (simp add: demo_broker_defs)
  then have seq: "checked_add (hbs_operation_sequence demo_leased) 1 = Some 1" by (simp add: checked_add_def)
  have auth: "broker_authorize_command (hbs_broker demo_leased) (pr_lease_id ?route) (pr_generation ?route) 1 2000
      = (demo_core (Some (demo_lease\<lparr>le_last_command_sequence := 1\<rparr>)) True, Inr ())"
    using demo_start_authorized
    by (simp add: broker_authorize_command_def proxy_route_new_def) (simp add: demo_broker_defs)
  have route: "frame_route demo_start_frame = Inr ?route"
    using demo_routes(1) by (simp add: frame_route_def demo_frame_defs)
  have h: "helper_handle demo_backend (hbs_helper ?s1) demo_start_frame
      = (hbs_helper demo_started, Inr (answer_response demo_start_frame ?route \<lparr>pa_sdp = ''sdp'', pa_dtls_fingerprint_sha256 = []\<rparr>))"
    using demo_helper_start by simp
  have "broker_handle demo_helper_ops demo_leased demo_start_frame 2000 nid
      = broker_forward demo_helper_ops ?s1 demo_start_frame ?route"
    using name seq auth by (simp add: broker_handle_command demo_frame_kinds demo_routes forward_authorized_def)
  also have "\<dots> = (?s1\<lparr>hbs_helper := hbs_helper demo_started\<rparr>,
      Inr (answer_response demo_start_frame ?route \<lparr>pa_sdp = ''sdp'', pa_dtls_fingerprint_sha256 = []\<rparr>))"
    using direct_forward [OF route h] by (simp only: map_err_simps)
  finally show ?thesis by (simp add: demo_started_def)
qed

lemma demo_live_started: "broker_live demo_helper_ops demo_started"
  using live_handle [OF demo_live_leased demo_started_by] .

section \<open>Properties\<close>

text \<open>
  C10. The broker forwards exactly what the lease allows.  While a connection is served, a command reaches the helper precisely when a lease
  is active and not expired, the frame names that lease and its generation, the lease includes input control for input and
  secure attention, the route allows secure attention where that is asked for, and a start carries the lease's
  Controller name; the route under control is then the lease's.  Every other command is refused without touching the
  helper.
\<close>

theorem broker_commands_authorized:
  assumes "broker_live ops s" and "\<not> is_release q" "\<not> is_lease_request q"
    and "broker_handle ops s q now nid = (s', r)"
  shows "case lm_active (bc_leases (hbs_broker s)) of
      None \<Rightarrow> hbs_helper s' = hbs_helper s \<and> \<not> is_ok r
    | Some l \<Rightarrow> sm_input_enabled (bc_routes (hbs_broker s)) \<and> sm_generation (bc_routes (hbs_broker s)) = le_generation l
      \<and> (let route = proxy_route_new (le_id l) (le_generation l) in
         if request_route q = Inr route \<and> now < le_expires_at_ms l \<and> hbs_operation_sequence s \<noteq> - 1
            \<and> (needs_input q \<longrightarrow> le_may_control_input l)
            \<and> (needs_secure_attention q \<longrightarrow> hbs_secure_attention_allowed s)
            \<and> (\<forall>name. request_controller_display_name q = Some name \<longrightarrow> name = le_controller_display_name l)
         then \<exists>s1. hbs_helper s1 = hbs_helper s \<and> (s', r) = broker_forward ops s1 q route
         else hbs_helper s' = hbs_helper s \<and> \<not> is_ok r)"
proof -
  have inv: "broker_inv s" using assms(1) by (rule broker_live_inv)
  have refused: "hbs_helper s' = hbs_helper s \<and> \<not> is_ok r"
    if "\<not> ((needs_input q \<longrightarrow> may_input s) \<and> (needs_secure_attention q \<longrightarrow> hbs_secure_attention_allowed s)
      \<and> (\<exists>route. command_authorized s q now route))"
    using that assms(2-4) forward_authorized_no [OF inv, of q now ops]
    by (auto simp: broker_handle_command split: if_splits)
  have forwarded: "\<exists>s1. hbs_helper s1 = hbs_helper s \<and> (s', r) = broker_forward ops s1 q route"
    if "needs_input q \<longrightarrow> may_input s" "needs_secure_attention q \<longrightarrow> hbs_secure_attention_allowed s"
      and c: "command_authorized s q now route" for route
  proof -
    obtain s1 where "forward_authorized ops s q now = broker_forward ops s1 q route" "hbs_helper s1 = hbs_helper s"
      using forward_authorized_yes [OF inv c, of ops] by metis
    then show ?thesis
      using assms(2-4) that command_authorized_route [OF c] by (auto simp: broker_handle_command)
  qed
  show ?thesis
  proof (cases "lm_active (bc_leases (hbs_broker s))")
    case None
    with refused show ?thesis by (auto simp: command_authorized_def)
  next
    case (Some l)
    have "le_may_control_input l \<longleftrightarrow> may_input s" "sm_input_enabled (bc_routes (hbs_broker s))"
      "sm_generation (bc_routes (hbs_broker s)) = le_generation l"
      using inv Some by (simp_all add: broker_inv_def)
    with Some refused forwarded [of "proxy_route_new (le_id l) (le_generation l)"] show ?thesis
      by (auto simp: command_authorized_def Let_def)
  qed
qed

theorem broker_commands_authorized_witness:
  "let q = demo_start_frame; (s', r) = broker_handle demo_helper_ops demo_leased q 2000 (Inl LeaseError_RandomUnavailable)
   in \<exists>s1. hbs_helper s1 = hbs_helper demo_leased
        \<and> (s', r) = broker_forward demo_helper_ops s1 q (proxy_route_new (LeaseId demo_lease_id) 3)"
proof -
  obtain s' r where h: "broker_handle demo_helper_ops demo_leased demo_start_frame 2000 (Inl LeaseError_RandomUnavailable) = (s', r)"
    by fastforce
  have active: "lm_active (bc_leases (hbs_broker demo_leased)) = Some demo_lease"
    "hbs_operation_sequence demo_leased = 0" by (simp_all add: demo_leased_def demo_core_def demo_session_def
        with_secure_attention_def host_broker_session_new_def)
  have l: "le_id demo_lease = LeaseId demo_lease_id" "le_generation demo_lease = 3" "le_expires_at_ms demo_lease = 16000"
    "le_controller_display_name demo_lease = ''desk''" by (simp_all add: demo_lease_def)
  have "\<exists>s1. hbs_helper s1 = hbs_helper demo_leased
        \<and> (s', r) = broker_forward demo_helper_ops s1 demo_start_frame (proxy_route_new (LeaseId demo_lease_id) 3)"
    using broker_commands_authorized [OF demo_live_leased demo_frame_kinds(1,2) h]
    by (simp add: active l demo_routes demo_frame_kinds Let_def)
  with h show ?thesis by (simp add: Let_def)
qed

text \<open>
  Every answer belongs to its question and to the current lease.  A reply the broker hands to the Host carries the request's
  identifier and sequence number; a forwarded one names the route of the request, and a lease reply describes the
  lease that is now active; an event that passes names the active lease.  A helper reply or
  event that does not match is refused, and then the helper is closed.
\<close>

theorem broker_answers_current:
  assumes "broker_live ops s"
  shows "(broker_handle ops s q now nid = (s', Inr response) \<longrightarrow>
      pbsf_request_id response = pbcf_request_id q \<and> pbsf_sequence response = pbcf_sequence q
      \<and> (if is_lease_request q
         then \<exists>l. lm_active (bc_leases (hbs_broker s')) = Some l \<and> response = lease_response q l (hbs_permissions s')
         else response_route response = frame_route q))
    \<and> (broker_try_event ops s = (t, Inr (Some event)) \<longrightarrow>
        (\<exists>l. lm_active (bc_leases (hbs_broker s)) = Some l
           \<and> response_route event = Inr (proxy_route_new (le_id l) (le_generation l))))
    \<and> (broker_try_event ops s = (t, Inl BrokerProtocolError_StaleResponse) \<longrightarrow>
        (\<exists>h. hbs_helper t = bh_fail_closed ops h) \<or> snd (bh_try_event ops (hbs_helper s)) = Inl BrokerProtocolError_StaleResponse)"
proof (intro conjI impI)
  assume h: "broker_handle ops s q now nid = (s', Inr response)"
  have inv: "broker_inv s" using assms by (rule broker_live_inv)
  have "pbsf_request_id response = pbcf_request_id q \<and> pbsf_sequence response = pbcf_sequence q
      \<and> (if is_lease_request q
         then \<exists>l. lm_active (bc_leases (hbs_broker s')) = Some l \<and> response = lease_response q l (hbs_permissions s')
         else response_route response = frame_route q)"
  proof -
    consider (release) v where "pbcf_payload q = Some (PrivilegedBridgeClientFrame_ReleaseLease v)"
      | (lease) "is_lease_request q"
      | (command) "\<not> is_release q" "\<not> is_lease_request q" by (auto simp: is_release_def)
    then show ?thesis
    proof cases
      case release
      from broker_handle_release [OF this h] obtain route s1 where
        "broker_forward ops s q route = (s1, Inr response)"
        "broker_parse_route (rplr2_lease_id v) (rplr2_generation v) = Inr route" by metis
      then show ?thesis
        using release broker_forward_Inr [of ops s q route s1 response]
        by (simp add: frame_route_def is_lease_request_def)
    next
      case lease
      then show ?thesis using lease_reply [OF lease h] by (auto simp: lease_response_def broker_response_frame_def)
    next
      case command
      then have f: "forward_authorized ops s q now = (s', Inr response)"
        using h by (simp add: broker_handle_command split: if_splits)
      then obtain route where c: "command_authorized s q now route"
        using forward_authorized_no(2) [OF inv, of q now ops] by auto
      obtain s1 where "broker_forward ops s1 q route = (s', Inr response)"
        using forward_authorized_yes [OF inv c, of ops] f by metis
      moreover have "frame_route q = Inr route"
        using c command(1) by (auto simp: command_authorized_def frame_route_command)
      ultimately show ?thesis using command broker_forward_Inr [of ops s1 q route s' response] by simp
    qed
  qed
  then show "pbsf_request_id response = pbcf_request_id q" "pbsf_sequence response = pbcf_sequence q"
    "if is_lease_request q
     then \<exists>l. lm_active (bc_leases (hbs_broker s')) = Some l \<and> response = lease_response q l (hbs_permissions s')
     else response_route response = frame_route q" by blast+
next
  assume "broker_try_event ops s = (t, Inr (Some event))"
  then show "\<exists>l. lm_active (bc_leases (hbs_broker s)) = Some l
      \<and> response_route event = Inr (proxy_route_new (le_id l) (le_generation l))"
    by (auto simp: broker_try_event_def Let_def split: prod.splits sum.splits option.splits if_splits)
next
  assume "broker_try_event ops s = (t, Inl BrokerProtocolError_StaleResponse)"
  then show "(\<exists>h. hbs_helper t = bh_fail_closed ops h) \<or> snd (bh_try_event ops (hbs_helper s)) = Inl BrokerProtocolError_StaleResponse"
    by (auto simp: broker_try_event_def Let_def response_route_errors split: prod.splits sum.splits option.splits if_splits
        dest: response_route_errors)
qed

theorem broker_answers_current_witness:
  "response_route (answer_response demo_start_frame (proxy_route_new (LeaseId demo_lease_id) 3)
     \<lparr>pa_sdp = ''sdp'', pa_dtls_fingerprint_sha256 = []\<rparr>) = frame_route demo_start_frame"
  using broker_answers_current [OF demo_live_leased, of demo_helper_ops demo_start_frame 2000
      "Inl LeaseError_RandomUnavailable" demo_started] demo_started_by [of "Inl LeaseError_RandomUnavailable"]
  by (simp add: demo_frame_kinds)

text \<open>
  C33. A closed connection stays closed.  Closing drops the lease, the Host and the permissions and tells the helper to fail closed, and
  so does an expiry that names a lease, except for the Host.  After a close, whatever else is asked, no lease is ever
  active again and every request but a release is refused without touching the helper.
\<close>

theorem broker_close_is_final:
  assumes "s = fst (run_steps (broker_step ops) (broker_fail_closed ops s0) xs)"
  shows "hbs_helper (broker_fail_closed ops s0) = bh_fail_closed ops (hbs_helper s0)
    \<and> lm_active (bc_leases (hbs_broker s)) = None \<and> hbs_permissions s = []
    \<and> (\<not> is_release q \<longrightarrow> (\<exists>n e. broker_handle ops s q now nid = (s\<lparr>hbs_operation_sequence := n\<rparr>, Inl e)))
    \<and> (broker_expire ops s0 now = (t, True) \<longrightarrow> lm_active (bc_leases (hbs_broker t)) = None \<and> hbs_permissions t = []
        \<and> hbs_helper t = bh_fail_closed ops (hbs_helper s0))"
proof -
  have closed: "broker_closed s"
    unfolding assms by (rule broker_end.run_inv [OF broker_closed_fail_closed])
  moreover have "\<exists>n e. broker_handle ops s q now nid = (s\<lparr>hbs_operation_sequence := n\<rparr>, Inl e)" if "\<not> is_release q"
    using closed_handle [OF closed that] by metis
  moreover have "lm_active (bc_leases (hbs_broker t)) = None \<and> hbs_permissions t = []
      \<and> hbs_helper t = bh_fail_closed ops (hbs_helper s0)" if "broker_expire ops s0 now = (t, True)"
    using that by (auto simp: broker_expire_def lease_expire_def freeze_active_None Let_def split: option.splits if_splits)
  ultimately show ?thesis by (simp add: broker_closed_def broker_fail_closed_def)
qed

theorem broker_close_is_final_witness:
  "\<exists>n e. broker_handle demo_helper_ops (broker_fail_closed demo_helper_ops demo_leased) demo_acquire_frame 1000
     (Inr (LeaseId demo_lease_id)) = ((broker_fail_closed demo_helper_ops demo_leased)\<lparr>hbs_operation_sequence := n\<rparr>, Inl e)"
  using broker_close_is_final [of "broker_fail_closed demo_helper_ops demo_leased" demo_helper_ops demo_leased "[]"
      demo_acquire_frame 1000 "Inr (LeaseId demo_lease_id)"]
  by (simp add: is_release_def demo_frame_defs)

text \<open>
  C14. From the Host to the native backend.  Broker and helper joined: an input command changes the native backend, or is reported as
  accepted, only while a lease with input control is active and unexpired, the command names it, and the helper is attached to exactly
  that lease and has not failed.  And the broker never takes an answer of this helper for a stale one.
\<close>

theorem privileged_input_end_to_end:
  assumes "broker_live (direct_helper hops) s"
    and "broker_handle (direct_helper hops) s q now nid = (s', r)"
  shows "(needs_input q \<and> (hp_backend (hbs_helper s') \<noteq> hp_backend (hbs_helper s) \<or> is_ok r) \<longrightarrow>
      (\<exists>l. lm_active (bc_leases (hbs_broker s)) = Some l \<and> le_may_control_input l \<and> now < le_expires_at_ms l
        \<and> frame_route q = Inr (proxy_route_new (le_id l) (le_generation l))
        \<and> hlg_route (hp_gate (hbs_helper s)) = Some (proxy_route_new (le_id l) (le_generation l))
        \<and> \<not> hp_failed (hbs_helper s)))
    \<and> r \<noteq> Inl BrokerProtocolError_StaleResponse"
proof (intro conjI impI)
  assume q: "needs_input q \<and> (hp_backend (hbs_helper s') \<noteq> hp_backend (hbs_helper s) \<or> is_ok r)"
  have inv: "broker_inv s" using assms(1) by (rule broker_live_inv)
  have kind: "\<not> is_release q" "\<not> is_lease_request q" "\<not> is_start q" "frame_route q = request_route q"
    using q by (auto simp: needs_input_def is_release_def is_lease_request_def is_start_def frame_route_def)
  have "may_input s \<and> (\<exists>route. command_authorized s q now route) \<and> forward_authorized (direct_helper hops) s q now = (s', r)"
    using q assms(2) kind(1,2) forward_authorized_no [OF inv, of q now "direct_helper hops"]
    by (auto simp: broker_handle_command split: if_splits)
  then obtain route where c: "command_authorized s q now route" and may: "may_input s"
    and f: "forward_authorized (direct_helper hops) s q now = (s', r)" by blast
  obtain s1 where s1: "broker_forward (direct_helper hops) s1 q route = (s', r)" "hbs_helper s1 = hbs_helper s"
    using forward_authorized_yes [OF inv c, of "direct_helper hops"] f by metis
  obtain h' x where h: "helper_handle hops (hbs_helper s) q = (h', x)" by fastforce
  have route: "frame_route q = Inr route" using c kind(4) by (auto simp: command_authorized_def)
  have "hbs_helper s' = h'" "r = map_err (\<lambda>_. BrokerProtocolError_Helper) x"
    using direct_forward [OF route, of hops s1 h' x] s1 h by auto
  then have "hp_backend h' \<noteq> hp_backend (hbs_helper s) \<or> is_ok x" using q by (cases x) auto
  then obtain route' where "helper_admits (hbs_helper s) q route'" using helper_handle_shape(1) [OF h] by blast
  then show "\<exists>l. lm_active (bc_leases (hbs_broker s)) = Some l \<and> le_may_control_input l \<and> now < le_expires_at_ms l
        \<and> frame_route q = Inr (proxy_route_new (le_id l) (le_generation l))
        \<and> hlg_route (hp_gate (hbs_helper s)) = Some (proxy_route_new (le_id l) (le_generation l))
        \<and> \<not> hp_failed (hbs_helper s)"
    using c route kind(3) may inv by (auto simp: command_authorized_def helper_admits_def broker_inv_def)
next
  show "r \<noteq> Inl BrokerProtocolError_StaleResponse"
    using broker_never_stale [OF assms(2)] .
qed

theorem privileged_input_end_to_end_witness:
  "hlg_route (hp_gate (hbs_helper demo_started)) = Some (proxy_route_new (LeaseId demo_lease_id) 3)"
proof -
  obtain s' r where h: "broker_handle demo_helper_ops demo_started demo_input_frame 2100 (Inl LeaseError_RandomUnavailable) = (s', r)"
    by fastforce
  have "hp_backend (hbs_helper s') = 2"
    using h by (simp add: broker_handle_def demo_frame_defs demo_broker_defs may_input_def forward_authorized_def
        controller_name_check_def request_controller_display_name_def request_route_def broker_parse_route_def
        demo_lease_id_def checked_add_def broker_authorize_command_def authorize_command_def validate_active_ref_def
        broker_forward_def direct_helper_def helper_handle_def helper_handle_inner_def accept_on_def helper_authorize_def
        helper_parse_route_def gate_authorize_def on_backend_def demo_backend_def proxy_route_new_def Let_def
        accepted_response_def helper_response_frame_def response_route_def) auto
  then have touched: "hp_backend (hbs_helper s') \<noteq> hp_backend (hbs_helper demo_started)"
    by (simp add: demo_started_def)
  obtain l where "lm_active (bc_leases (hbs_broker demo_started)) = Some l"
    "hlg_route (hp_gate (hbs_helper demo_started)) = Some (proxy_route_new (le_id l) (le_generation l))"
    using privileged_input_end_to_end [OF demo_live_started h] touched demo_frame_kinds(5) by auto
  then show ?thesis by (auto simp: demo_started_def demo_core_def demo_lease_def)
qed

end
