(* ===== verification/Bridge_Rpc.thy ===== *)
theory Bridge_Rpc
  imports Bridge_Framing Bridge_Broker Validation
begin

text \<open>
  Requests and responses over a local stream, \<^verbatim>\<open>crates/privileged-bridge/src/rpc.rs\<close> and the trait of \<^verbatim>\<open>transport.rs\<close>:
  \<^verbatim>\<open>FramedBridgeRpc\<close> sends one request, queues the events that arrive before the response, and gives up for good on the first
  thing that does not fit.  The stream is a parameter, the record \<open>bridge_transport_ops\<close>, and so is prost, the record
  \<open>bridge_codec\<close>.  The receive loop may run forever against a peer that only sends pointer events; not returning is \<open>None\<close>.
\<close>

section \<open>Transport\<close>

record transport_peer_identity =
  tpi_process_id :: u32
  tpi_os_session_id :: u64
  tpi_unix_uid :: "u32 option"
  tpi_executable_sha256 :: bytes

datatype transport_error =
    TransportError_Disconnected
  | TransportError_PeerRejected
  | TransportError_FailedClosed

record 'x bridge_transport_ops =
  bt_send :: "'x \<Rightarrow> bytes \<Rightarrow> 'x \<times> (transport_error + unit)"
  bt_receive :: "'x \<Rightarrow> 'x \<times> (transport_error + bytes)"
  bt_try_receive :: "'x \<Rightarrow> 'x \<times> (transport_error + bytes option)"
  bt_peer_identity :: "'x \<Rightarrow> transport_peer_identity option"
  bt_fail_closed :: "'x \<Rightarrow> 'x"

record bridge_codec =
  bcd_encode_client :: "privileged_bridge_client_frame \<Rightarrow> bytes"
  bcd_decode_client :: "bytes \<Rightarrow> privileged_bridge_client_frame option"
  bcd_encode_server :: "privileged_bridge_server_frame \<Rightarrow> bytes"
  bcd_decode_server :: "bytes \<Rightarrow> privileged_bridge_server_frame option"

datatype proxy_error =
    ProxyError_Transport
  | ProxyError_StaleRoute
  | ProxyError_StaleResponse
  | ProxyError_FailedClosed
  | ProxyError_InvalidMigration
  | ProxyError_InvalidConfiguration
  | ProxyError_InvalidMessage
  | ProxyError_HelperUnavailable
  | ProxyError_Rejected

definition map_transport_error :: "transport_error \<Rightarrow> proxy_error" where
  "map_transport_error e = ProxyError_Transport"

section \<open>The framed RPC\<close>

record 'x framed_bridge_rpc =
  fr_transport :: 'x
  fr_events :: "privileged_bridge_server_frame event_queue"
  fr_failed :: bool

definition framed_bridge_rpc_new :: "'x \<Rightarrow> 'x framed_bridge_rpc" where
  "framed_bridge_rpc_new transport = \<lparr>fr_transport = transport, fr_events = event_queue_new, fr_failed = False\<rparr>"

definition rpc_decode :: "bridge_codec \<Rightarrow> bytes \<Rightarrow> proxy_error + privileged_bridge_server_frame" where
  "rpc_decode c encoded = map_err (\<lambda>_. ProxyError_InvalidMessage)
     (decode_and_validate_privileged_bridge_server_frame (bcd_decode_server c) encoded)"

text \<open>Which queue a frame belongs to; anything else is a response.\<close>

fun is_fast_event :: "privileged_bridge_server_frame_payload \<Rightarrow> bool" where
  "is_fast_event (PrivilegedBridgeServerFrame_FastPointer _) = True"
| "is_fast_event _ = False"

fun is_critical_event :: "privileged_bridge_server_frame_payload \<Rightarrow> bool" where
  "is_critical_event (PrivilegedBridgeServerFrame_LocalIceCandidate _) = True"
| "is_critical_event (PrivilegedBridgeServerFrame_PeerStateChanged _) = True"
| "is_critical_event (PrivilegedBridgeServerFrame_ReliableInput _) = True"
| "is_critical_event _ = False"

definition enqueue_event ::
  "'x framed_bridge_rpc \<Rightarrow> privileged_bridge_server_frame
    \<Rightarrow> 'x framed_bridge_rpc \<times> (proxy_error + privileged_bridge_server_frame option)" where
  "enqueue_event f frame =
     (case pbsf_payload frame of
        None \<Rightarrow> (f, Inl ProxyError_InvalidMessage)
      | Some payload \<Rightarrow>
          if is_fast_event payload then
            (let (q, r) = push_fast (fr_events f) frame in
             (f\<lparr>fr_events := q\<rparr>, bind_res (map_err (\<lambda>_. ProxyError_FailedClosed) r) (\<lambda>_. Inr None)))
          else if is_critical_event payload then
            (let (q, r) = push_critical (fr_events f) frame in
             (f\<lparr>fr_events := q\<rparr>, bind_res (map_err (\<lambda>_. ProxyError_FailedClosed) r) (\<lambda>_. Inr None)))
          else (f, Inr (Some frame)))"

definition queued_event ::
  "'x framed_bridge_rpc \<Rightarrow> 'x framed_bridge_rpc \<times> (proxy_error + privileged_bridge_server_frame option)" where
  "queued_event f =
     (case pop_critical (fr_events f) of
        (q, Inl _) \<Rightarrow> (f\<lparr>fr_events := q\<rparr>, Inl ProxyError_FailedClosed)
      | (q, Inr (Some event)) \<Rightarrow> (f\<lparr>fr_events := q\<rparr>, Inr (Some event))
      | (q, Inr None) \<Rightarrow> (let (q, event) = pop_fast q in (f\<lparr>fr_events := q\<rparr>, Inr event)))"

definition rpc_fail_closed :: "'x bridge_transport_ops \<Rightarrow> 'x framed_bridge_rpc \<Rightarrow> 'x framed_bridge_rpc" where
  "rpc_fail_closed ops f =
     (if fr_failed f then f
      else f\<lparr>fr_failed := True, fr_transport := bt_fail_closed ops (fr_transport f)\<rparr>)"

definition rpc_reject ::
  "'x bridge_transport_ops \<Rightarrow> 'x framed_bridge_rpc \<Rightarrow> proxy_error \<Rightarrow> 'x framed_bridge_rpc \<times> (proxy_error + 'a)" where
  "rpc_reject ops f e = (rpc_fail_closed ops f, Inl e)"

text \<open>One turn of the loop: either the next state of the loop, or the result of the call.\<close>

definition call_turn ::
  "'x bridge_transport_ops \<Rightarrow> bridge_codec \<Rightarrow> 'x framed_bridge_rpc \<Rightarrow> privileged_bridge_client_frame
    \<Rightarrow> 'x framed_bridge_rpc + ('x framed_bridge_rpc \<times> (proxy_error + privileged_bridge_server_frame))" where
  "call_turn ops c f request =
     (case bt_receive ops (fr_transport f) of
        (x, Inl e) \<Rightarrow> Inr (rpc_reject ops (f\<lparr>fr_transport := x\<rparr>) (map_transport_error e))
      | (x, Inr encoded) \<Rightarrow>
          (let f = f\<lparr>fr_transport := x\<rparr> in
           case rpc_decode c encoded of
             Inl e \<Rightarrow> Inr (rpc_reject ops f e)
           | Inr response \<Rightarrow>
               (case enqueue_event f response of
                  (f, Inl e) \<Rightarrow> Inr (rpc_reject ops f e)
                | (f, Inr None) \<Rightarrow> Inl f
                | (f, Inr (Some response)) \<Rightarrow>
                    if pbsf_request_id response \<noteq> pbcf_request_id request
                       \<or> pbsf_sequence response \<noteq> pbcf_sequence request
                    then Inr (rpc_reject ops f ProxyError_StaleResponse)
                    else Inr (f, Inr response))))"

partial_function (option) call_loop ::
  "'x bridge_transport_ops \<Rightarrow> bridge_codec \<Rightarrow> 'x framed_bridge_rpc \<Rightarrow> privileged_bridge_client_frame
    \<Rightarrow> ('x framed_bridge_rpc \<times> (proxy_error + privileged_bridge_server_frame)) option" where
  "call_loop ops c f request =
     (case call_turn ops c f request of
        Inl f' \<Rightarrow> call_loop ops c f' request
      | Inr result \<Rightarrow> Some result)"

definition rpc_call ::
  "'x bridge_transport_ops \<Rightarrow> bridge_codec \<Rightarrow> 'x framed_bridge_rpc \<Rightarrow> privileged_bridge_client_frame
    \<Rightarrow> ('x framed_bridge_rpc \<times> (proxy_error + privileged_bridge_server_frame)) option" where
  "rpc_call ops c f request =
     (if fr_failed f then Some (f, Inl ProxyError_FailedClosed)
      else case bt_send ops (fr_transport f) (bcd_encode_client c request) of
        (x, Inl e) \<Rightarrow> Some (rpc_reject ops (f\<lparr>fr_transport := x\<rparr>) (map_transport_error e))
      | (x, Inr _) \<Rightarrow> call_loop ops c (f\<lparr>fr_transport := x\<rparr>) request)"

definition rpc_try_event ::
  "'x bridge_transport_ops \<Rightarrow> bridge_codec \<Rightarrow> 'x framed_bridge_rpc
    \<Rightarrow> 'x framed_bridge_rpc \<times> (proxy_error + privileged_bridge_server_frame option)" where
  "rpc_try_event ops c f =
     (if fr_failed f then (f, Inl ProxyError_FailedClosed)
      else case queued_event f of
        (f, Inl e) \<Rightarrow> (f, Inl e)
      | (f, Inr (Some event)) \<Rightarrow> (f, Inr (Some event))
      | (f, Inr None) \<Rightarrow>
          (case bt_try_receive ops (fr_transport f) of
             (x, Inl e) \<Rightarrow> rpc_reject ops (f\<lparr>fr_transport := x\<rparr>) (map_transport_error e)
           | (x, Inr None) \<Rightarrow> (f\<lparr>fr_transport := x\<rparr>, Inr None)
           | (x, Inr (Some encoded)) \<Rightarrow>
               (let f = f\<lparr>fr_transport := x\<rparr> in
                case rpc_decode c encoded of
                  Inl e \<Rightarrow> rpc_reject ops f e
                | Inr frame \<Rightarrow>
                    (case enqueue_event f frame of
                       (f, Inl e) \<Rightarrow> rpc_reject ops f e
                     | (f, Inr None) \<Rightarrow> queued_event f
                     | (f, Inr (Some _)) \<Rightarrow> rpc_reject ops f ProxyError_StaleResponse))))"

section \<open>The loop\<close>

definition is_event :: "privileged_bridge_server_frame \<Rightarrow> bool" where
  "is_event frame \<longleftrightarrow> (\<exists>p. pbsf_payload frame = Some p \<and> (is_fast_event p \<or> is_critical_event p))"

lemma enqueue_event_response: "enqueue_event f frame = (f', Inr (Some g)) \<Longrightarrow> f' = f \<and> g = frame \<and> \<not> is_event frame"
  by (auto simp: enqueue_event_def is_event_def bind_res_Inr Let_def split: option.splits if_splits prod.splits)

lemma enqueue_event_queued: "enqueue_event f frame = (f', Inr None) \<Longrightarrow> is_event frame"
  by (auto simp: enqueue_event_def is_event_def bind_res_Inr Let_def split: option.splits if_splits prod.splits)

lemma enqueue_event_keeps [simp]:
  "fr_failed (fst (enqueue_event f frame)) = fr_failed f" "fr_transport (fst (enqueue_event f frame)) = fr_transport f"
  by (auto simp: enqueue_event_def Let_def split: option.splits prod.splits)

lemma rpc_reject_failed: "rpc_reject ops f e = (f', r) \<Longrightarrow> fr_failed f' \<and> r = Inl e"
  by (auto simp: rpc_reject_def rpc_fail_closed_def split: if_splits)

text \<open>How a turn can end.\<close>

lemma call_turn_cases:
  obtains (again) x bs frame f' where "call_turn ops c f q = Inl f'" "bt_receive ops (fr_transport f) = (x, Inr bs)"
      "rpc_decode c bs = Inr frame" "is_event frame" "fr_transport f' = x" "fr_failed f' = fr_failed f"
  | (answer) x bs frame where "call_turn ops c f q = Inr (f\<lparr>fr_transport := x\<rparr>, Inr frame)"
      "bt_receive ops (fr_transport f) = (x, Inr bs)" "rpc_decode c bs = Inr frame" "\<not> is_event frame"
      "pbsf_request_id frame = pbcf_request_id q" "pbsf_sequence frame = pbcf_sequence q"
  | (reject) f1 e where "call_turn ops c f q = Inr (rpc_reject ops f1 e)"
proof -
  obtain x r where recv: "bt_receive ops (fr_transport f) = (x, r)" by fastforce
  show ?thesis
  proof (cases r)
    case (Inl e)
    with recv reject show ?thesis by (simp add: call_turn_def)
  next
    case (Inr bs)
    let ?f = "f\<lparr>fr_transport := x\<rparr>"
    show ?thesis
    proof (cases "rpc_decode c bs")
      case (Inl e)
      with recv Inr reject show ?thesis by (simp add: call_turn_def)
    next
      case decoded: (Inr frame)
      obtain f1 m where enq: "enqueue_event ?f frame = (f1, m)" by fastforce
      have keeps: "fr_failed f1 = fr_failed f" "fr_transport f1 = x"
        using enqueue_event_keeps [of ?f frame] enq by simp_all
      consider (bad) e where "m = Inl e" | (queued) "m = Inr None" | (resp) g where "m = Inr (Some g)"
        by (metis old.sum.exhaust option.exhaust)
      then show ?thesis
      proof cases
        case bad
        with recv Inr decoded enq reject show ?thesis by (simp add: call_turn_def)
      next
        case queued
        with recv Inr decoded enq again [of f1 x bs frame] keeps enqueue_event_queued [of ?f frame f1]
        show ?thesis by (simp add: call_turn_def)
      next
        case resp
        then have g: "f1 = ?f" "g = frame" "\<not> is_event frame" using enqueue_event_response [of ?f frame f1 g] enq by simp_all
        show ?thesis
        proof (cases "pbsf_request_id frame = pbcf_request_id q \<and> pbsf_sequence frame = pbcf_sequence q")
          case True
          with recv Inr decoded enq resp g answer [of x frame bs] show ?thesis by (simp add: call_turn_def)
        next
          case False
          with recv Inr decoded enq resp g reject [of f1 ProxyError_StaleResponse] show ?thesis
            by (auto simp: call_turn_def)
        qed
      qed
    qed
  qed
qed

definition call_outcome ::
  "'x framed_bridge_rpc \<Rightarrow> privileged_bridge_client_frame
    \<Rightarrow> 'x framed_bridge_rpc \<times> (proxy_error + privileged_bridge_server_frame) \<Rightarrow> bool" where
  "call_outcome f q r \<longleftrightarrow>
     (case r of
        (f', Inr frame) \<Rightarrow> pbsf_request_id frame = pbcf_request_id q \<and> pbsf_sequence frame = pbcf_sequence q
          \<and> \<not> is_event frame \<and> fr_failed f' = fr_failed f
      | (f', Inl e) \<Rightarrow> fr_failed f')"

lemma call_outcome_reject [simp]: "call_outcome f q (rpc_reject ops f1 e)"
  by (simp add: call_outcome_def rpc_reject_def rpc_fail_closed_def)

lemma call_loop_result:
  assumes "call_loop ops c f q = Some r"
  shows "call_outcome f q r"
proof (rule call_loop.raw_induct [OF _ assms])
  fix loop ops c f q r
  assume IH: "\<And>ops c f q r. loop ops c f q = Some r \<Longrightarrow> call_outcome f q r"
    and body: "(case call_turn ops c f q of Inl f' \<Rightarrow> loop ops c f' q | Inr result \<Rightarrow> Some result) = Some r"
  show "call_outcome f q r"
  proof (cases rule: call_turn_cases [of ops c f q])
    case (again x bs frame f')
    then have "call_outcome f' q r" using IH [of ops c f' q r] body by simp
    with again(6) show ?thesis by (simp add: call_outcome_def split: prod.splits sum.splits)
  next
    case (answer x bs frame)
    with body show ?thesis by (auto simp: call_outcome_def)
  next
    case (reject f1 e)
    with body show ?thesis by auto
  qed
qed

text \<open>A stream on which, within \<open>n\<close> frames, something arrives that is not an event: a response, a malformed frame or an error.\<close>

fun stops :: "'x bridge_transport_ops \<Rightarrow> bridge_codec \<Rightarrow> nat \<Rightarrow> 'x \<Rightarrow> bool" where
  "stops ops c 0 x = False"
| "stops ops c (Suc n) x =
     (case bt_receive ops x of
        (y, Inl _) \<Rightarrow> True
      | (y, Inr bs) \<Rightarrow>
          (case rpc_decode c bs of Inl _ \<Rightarrow> True | Inr frame \<Rightarrow> \<not> is_event frame \<or> stops ops c n y))"

lemma call_loop_returns: "stops ops c n (fr_transport f) \<Longrightarrow> \<exists>r. call_loop ops c f q = Some r"
proof (induction n arbitrary: f)
  case 0
  then show ?case by simp
next
  case (Suc n)
  show ?case
  proof (cases rule: call_turn_cases [of ops c f q])
    case (again x bs frame f')
    with Suc show ?thesis by (subst call_loop.simps) simp
  qed (subst call_loop.simps, simp)+
qed

section \<open>A concrete stream\<close>

text \<open>The stream is the list of frames still to come; frames travel as list positions in the examples.\<close>

definition list_transport :: "bytes list bridge_transport_ops" where
  "list_transport =
     \<lparr>bt_send = (\<lambda>x _. (x, Inr ())),
      bt_receive = (\<lambda>x. case x of [] \<Rightarrow> ([], Inl TransportError_Disconnected) | b # bs \<Rightarrow> (bs, Inr b)),
      bt_try_receive = (\<lambda>x. case x of [] \<Rightarrow> ([], Inr None) | b # bs \<Rightarrow> (bs, Inr (Some b))),
      bt_peer_identity = (\<lambda>_. None), bt_fail_closed = (\<lambda>_. [])\<rparr>"

definition table_codec :: "(bytes \<times> privileged_bridge_server_frame) list \<Rightarrow> bridge_codec" where
  "table_codec t = \<lparr>bcd_encode_client = (\<lambda>_. [0]), bcd_decode_client = (\<lambda>_. None),
     bcd_encode_server = (\<lambda>_. [0]), bcd_decode_server = map_of t\<rparr>"

definition demo_proxy_route :: proxy_route where
  "demo_proxy_route = proxy_route_new (LeaseId demo_lease_id) 3"

definition demo_rpc_request :: privileged_bridge_client_frame where
  "demo_rpc_request = demo_bridge_frame 7 (PrivilegedBridgeClientFrame_ClosePeer
     \<lparr>cppr_lease_id = demo_lease_id, cppr_generation = 3\<rparr>)"

text \<open>Two pointer events, numbered by the helper, and the response behind them.\<close>

definition demo_fast :: "u64 \<Rightarrow> privileged_bridge_server_frame" where
  "demo_fast n = event_frame demo_proxy_route n (ProxyEvent_FastPointer [1])"

definition demo_codec :: bridge_codec where
  "demo_codec = table_codec [([1], demo_fast 1), ([2], demo_fast 2), ([3], accepted_response demo_rpc_request demo_proxy_route)]"

lemma decimal_small [simp]: "decimal 1 = ''1''" "decimal 2 = ''2''" "decimal (Suc 0) = ''1''"
  by code_simp+

lemma demo_frames_decode:
  "rpc_decode demo_codec [1] = Inr (demo_fast 1)" "rpc_decode demo_codec [2] = Inr (demo_fast 2)"
  "rpc_decode demo_codec [3] = Inr (accepted_response demo_rpc_request demo_proxy_route)"
  by (simp_all add: rpc_decode_def demo_codec_def table_codec_def decode_and_validate_privileged_bridge_server_frame_def
      validate_encoded_length_def validate_privileged_bridge_frame_header_def validate_privileged_lease_ref_def
      validate_length_def validate_protocol_version_def validate_utf8_length_def validate_generation_def checked_sub_def ensure_def
      demo_fast_def event_frame_def demo_proxy_route_def proxy_route_new_def demo_lease_id_def accepted_response_def
      helper_response_frame_def demo_rpc_request_def demo_bridge_frame_def limits Let_def)

lemma demo_events: "is_event (demo_fast n)" "\<not> is_event (accepted_response demo_rpc_request demo_proxy_route)"
  by (simp_all add: is_event_def demo_fast_def event_frame_def accepted_response_def helper_response_frame_def)

lemma demo_enqueue:
  "\<not> eq_failed (fr_events f) \<Longrightarrow> enqueue_event f (demo_fast n)
     = (f\<lparr>fr_events := (fr_events f)\<lparr>eq_fast := Some (demo_fast n)\<rparr>\<rparr>, Inr None)"
  "enqueue_event f (accepted_response demo_rpc_request demo_proxy_route)
     = (f, Inr (Some (accepted_response demo_rpc_request demo_proxy_route)))"
  by (simp_all add: enqueue_event_def demo_fast_def event_frame_def accepted_response_def helper_response_frame_def
      push_fast_def Let_def)

text \<open>What is left of two pointer events that arrive while a call waits for its answer.\<close>

definition demo_after_call :: "bytes list framed_bridge_rpc" where
  "demo_after_call = \<lparr>fr_transport = [], fr_events = event_queue_new\<lparr>eq_fast := Some (demo_fast 2)\<rparr>, fr_failed = False\<rparr>"

lemma demo_call:
  "rpc_call list_transport demo_codec (framed_bridge_rpc_new [[1], [2], [3]]) demo_rpc_request
    = Some (demo_after_call, Inr (accepted_response demo_rpc_request demo_proxy_route))"
proof -
  let ?f = "\<lambda>x q. \<lparr>fr_transport = x, fr_events = event_queue_new\<lparr>eq_fast := q\<rparr>, fr_failed = False\<rparr>"
  have new: "event_queue_new\<lparr>eq_fast := None\<rparr> = (event_queue_new :: privileged_bridge_server_frame event_queue)"
    by (simp add: event_queue_new_def)
  have live: "\<not> eq_failed (event_queue_new\<lparr>eq_fast := q\<rparr>)" for q :: "privileged_bridge_server_frame option"
    by (simp add: event_queue_new_def)
  have turns: "call_turn list_transport demo_codec (?f [[1], [2], [3]] None) demo_rpc_request = Inl (?f [[2], [3]] (Some (demo_fast 1)))"
    "call_turn list_transport demo_codec (?f [[2], [3]] (Some (demo_fast 1))) demo_rpc_request = Inl (?f [[3]] (Some (demo_fast 2)))"
    "call_turn list_transport demo_codec (?f [[3]] (Some (demo_fast 2))) demo_rpc_request
      = Inr (demo_after_call, Inr (accepted_response demo_rpc_request demo_proxy_route))"
    by (simp_all add: call_turn_def list_transport_def demo_frames_decode demo_enqueue live demo_after_call_def)
      (simp add: accepted_response_def helper_response_frame_def)
  have "call_loop list_transport demo_codec (?f [[1], [2], [3]] None) demo_rpc_request
      = Some (demo_after_call, Inr (accepted_response demo_rpc_request demo_proxy_route))"
    by (subst call_loop.simps, simp only: turns sum.case, subst call_loop.simps, simp only: turns sum.case,
        subst call_loop.simps, simp only: turns sum.case)
  then show ?thesis
    by (simp add: rpc_call_def framed_bridge_rpc_new_def new) (simp add: list_transport_def)
qed

section \<open>Properties\<close>

text \<open>
  C34. A call is answered by its own response, or the connection is closed for good.  Whatever the peer sends: when a call returns a
  frame, it is no event and carries the identifier and the sequence number of the request; when it returns an error, the
  connection has failed, and then every later call and poll fails at once without touching the stream.  A call
  returns as soon as anything but an event arrives.
\<close>

theorem rpc_correlated_or_closed:
  "(rpc_call ops c f q = Some (f', Inr frame) \<longrightarrow>
      pbsf_request_id frame = pbcf_request_id q \<and> pbsf_sequence frame = pbcf_sequence q \<and> \<not> is_event frame \<and> \<not> fr_failed f')
   \<and> (rpc_call ops c f q = Some (f', Inl e) \<longrightarrow> fr_failed f')
   \<and> (fr_failed f \<longrightarrow> rpc_call ops c f q = Some (f, Inl ProxyError_FailedClosed)
        \<and> rpc_try_event ops c f = (f, Inl ProxyError_FailedClosed) \<and> rpc_fail_closed ops f = f)
   \<and> (stops ops c n (fst (bt_send ops (fr_transport f) (bcd_encode_client c q))) \<longrightarrow> (\<exists>r. rpc_call ops c f q = Some r))"
proof -
  obtain x r where send: "bt_send ops (fr_transport f) (bcd_encode_client c q) = (x, r)" by fastforce
  let ?f = "f\<lparr>fr_transport := x\<rparr>"
  have outcome: "call_outcome f q y" if "rpc_call ops c f q = Some y" "\<not> fr_failed f" for y
  proof (cases r)
    case (Inl e)
    then show ?thesis using that send by (auto simp: rpc_call_def)
  next
    case (Inr u)
    then have "call_outcome ?f q y" using that send by (intro call_loop_result) (simp add: rpc_call_def)
    then show ?thesis by (simp add: call_outcome_def split: prod.splits sum.splits)
  qed
  have returns: "\<exists>r. rpc_call ops c f q = Some r" if "stops ops c n x"
    using send call_loop_returns [of ops c n ?f q] that
    by (cases r) (simp_all add: rpc_call_def)
  show ?thesis
  proof (cases "fr_failed f")
    case True
    then show ?thesis by (auto simp: rpc_call_def rpc_try_event_def rpc_fail_closed_def)
  next
    case False
    then show ?thesis
      using outcome [of "(f', Inr frame)"] outcome [of "(f', Inl e)"] returns send by (auto simp: call_outcome_def)
  qed
qed

theorem rpc_correlated_or_closed_witness:
  "\<not> fr_failed demo_after_call \<and> \<not> is_event (accepted_response demo_rpc_request demo_proxy_route)
   \<and> (\<exists>r. rpc_call list_transport demo_codec (framed_bridge_rpc_new [[1], [2], [3]]) demo_rpc_request = Some r)"
proof -
  have "stops list_transport demo_codec 3
      (fst (bt_send list_transport (fr_transport (framed_bridge_rpc_new [[1], [2], [3]])) (bcd_encode_client demo_codec demo_rpc_request)))"
    by (simp add: numeral_nat list_transport_def framed_bridge_rpc_new_def demo_frames_decode demo_events)
  then show ?thesis
    using rpc_correlated_or_closed [of list_transport demo_codec "framed_bridge_rpc_new [[1], [2], [3]]" demo_rpc_request
        demo_after_call "accepted_response demo_rpc_request demo_proxy_route" ProxyError_Transport 3] demo_call by auto
qed

end
