(* ===== verification/Bridge_Wire.thy ===== *)
theory Bridge_Wire
  imports Bridge_Rpc
begin

text \<open>
  The Host's side of the privileged bridge on the wire, \<^verbatim>\<open>crates/privileged-bridge/src/client.rs\<close>: \<^verbatim>\<open>ProtobufBridgeWire\<close> turns
  proxy operations into numbered frames, renews the lease when it is due, and checks every answer.  The
  RPC behind it is a parameter, the record \<open>bridge_rpc_ops\<close>.  The injected clock is the sequence of its readings.
\<close>

section \<open>Requests and responses\<close>

record bridge_request =
  brq_route :: proxy_route
  brq_sequence :: u64

record 'a bridge_response =
  brs_route :: proxy_route
  brs_sequence :: u64
  brs_value :: 'a

datatype validated_input =
    ValidatedInput_Keyboard keyboard_action u32 u32
  | ValidatedInput_PointerButton pointer_button button_action i32 i32
  | ValidatedInput_PointerMove i32 i32 u32
  | ValidatedInput_PointerScroll i32 i32
  | ValidatedInput_Text string
  | ValidatedInput_ReleaseAll

record 'r bridge_rpc_ops =
  brp_call :: "'r \<Rightarrow> privileged_bridge_client_frame \<Rightarrow> 'r \<times> (proxy_error + privileged_bridge_server_frame)"
  brp_try_event :: "'r \<Rightarrow> 'r \<times> (proxy_error + privileged_bridge_server_frame option)"
  brp_fail_closed :: "'r \<Rightarrow> 'r"

definition REQUEST_ID_PREFIX :: string where "REQUEST_ID_PREFIX = ''session''"
definition RENEW_SAFETY_MARGIN_MS :: u64 where [limits]: "RENEW_SAFETY_MARGIN_MS = 250"
definition RENEW_ATTEMPT_INTERVAL_MS :: u64 where
  [limits]: "RENEW_ATTEMPT_INTERVAL_MS = RENEW_INTERVAL_MS + RENEW_SAFETY_MARGIN_MS"

section \<open>Configuration\<close>

record bridge_ice_server =
  bis_urls :: "string list"
  bis_username :: string
  bis_credential :: string

definition bridge_ice_server_new :: "string list \<Rightarrow> string \<Rightarrow> string \<Rightarrow> proxy_error + bridge_ice_server" where
  "bridge_ice_server_new urls username credential =
     (if urls = [] \<or> length urls > MAX_PRIVILEGED_ICE_URLS_PER_SERVER
         \<or> list_ex (\<lambda>url. url = [] \<or> length url > MAX_SIGNALING_ENDPOINT_UTF8_BYTES) urls
         \<or> length username > MAX_ERROR_DETAIL_UTF8_BYTES \<or> length credential > MAX_ERROR_DETAIL_UTF8_BYTES
      then Inl ProxyError_InvalidConfiguration
      else Inr \<lparr>bis_urls = urls, bis_username = username, bis_credential = credential\<rparr>)"

definition ice_server_to_proto :: "bridge_ice_server \<Rightarrow> privileged_ice_server" where
  "ice_server_to_proto s = \<lparr>pis_urls = bis_urls s, pis_username = bis_username s, pis_credential = bis_credential s\<rparr>"

record bridge_peer_options =
  bpo_ice_servers :: "bridge_ice_server list"

definition bridge_peer_options_new :: "bridge_ice_server list \<Rightarrow> proxy_error + bridge_peer_options" where
  "bridge_peer_options_new ice_servers =
     (if length ice_servers > MAX_PRIVILEGED_ICE_SERVERS then Inl ProxyError_InvalidConfiguration
      else Inr \<lparr>bpo_ice_servers = ice_servers\<rparr>)"

definition options_configuration :: "bridge_peer_options \<Rightarrow> session_config \<Rightarrow> privileged_peer_configuration" where
  "options_configuration opts config =
     \<lparr>ppc_ice_transport_policy = privileged_ice_transport_policy_code
        (case sc_ice_transport_policy config of
           IceTransportPolicy_All \<Rightarrow> PrivilegedIceTransportPolicy_All
         | IceTransportPolicy_Relay \<Rightarrow> PrivilegedIceTransportPolicy_Relay),
      ppc_ice_servers = map ice_server_to_proto (bpo_ice_servers opts)\<rparr>"

definition validate_controller_display_name :: "string \<Rightarrow> proxy_error + unit" where
  "validate_controller_display_name value =
     (if value = [] \<or> length value > MAX_DEVICE_NAME_UTF8_BYTES \<or> has_control value
      then Inl ProxyError_InvalidConfiguration else Inr ())"

section \<open>The DTLS fingerprint of an offer\<close>

text \<open>\<^verbatim>\<open>str::split\<close> on one character, and the first half of \<^verbatim>\<open>split_once\<close> with its rest.\<close>

fun split_on :: "char \<Rightarrow> string \<Rightarrow> string list" where
  "split_on d [] = [[]]"
| "split_on d (c # cs) =
     (if c = d then [] # split_on d cs
      else case split_on d cs of [] \<Rightarrow> [[c]] | w # ws \<Rightarrow> (c # w) # ws)"

definition split_once :: "char \<Rightarrow> string \<Rightarrow> (string \<times> string) option" where
  "split_once d s =
     (if d \<in> set s then Some (takeWhile (\<lambda>c. c \<noteq> d) s, tl (dropWhile (\<lambda>c. c \<noteq> d) s)) else None)"

definition trim_end_cr :: "string \<Rightarrow> string" where
  "trim_end_cr s = rev (dropWhile (\<lambda>c. c = CHR 0x0D) (rev s))"

definition strip_prefix :: "string \<Rightarrow> string \<Rightarrow> string option" where
  "strip_prefix p s = (if take (length p) s = p then Some (drop (length p) s) else None)"

definition ascii_lower :: "char \<Rightarrow> nat" where
  "ascii_lower c = (let n = of_char c in if 65 \<le> n \<and> n \<le> 90 then n + 32 else n)"

definition eq_ignore_ascii_case :: "string \<Rightarrow> string \<Rightarrow> bool" where
  "eq_ignore_ascii_case a b \<longleftrightarrow> map ascii_lower a = map ascii_lower b"

text \<open>\<^verbatim>\<open>u8::from_str_radix(_, 16)\<close>: digits of either case, an optional plus sign, and an error on overflow.\<close>

definition hex_digit :: "char \<Rightarrow> nat option" where
  "hex_digit c = (let n = ascii_lower c in
     if 48 \<le> n \<and> n \<le> 57 then Some (n - 48) else if 97 \<le> n \<and> n \<le> 102 then Some (n - 87) else None)"

fun hex_digits :: "nat \<Rightarrow> string \<Rightarrow> nat option" where
  "hex_digits acc [] = Some acc"
| "hex_digits acc (c # cs) = Option.bind (hex_digit c) (\<lambda>d. hex_digits (16 * acc + d) cs)"

definition u8_from_hex :: "string \<Rightarrow> u8 option" where
  "u8_from_hex s =
     (let digits = (case s of CHR ''+'' # rest \<Rightarrow> rest | _ \<Rightarrow> s) in
      if digits = [] then None
      else Option.bind (hex_digits 0 digits) (\<lambda>n. if n < 256 then Some (word_of_nat n) else None))"

fun collect_options :: "'a option list \<Rightarrow> 'a list option" where
  "collect_options [] = Some []"
| "collect_options (x # xs) = Option.bind x (\<lambda>a. Option.bind (collect_options xs) (\<lambda>as. Some (a # as)))"

definition fingerprint_of_line :: "string \<Rightarrow> string option" where
  "fingerprint_of_line line =
     Option.bind (strip_prefix ''a=fingerprint:'' (trim_end_cr line)) (\<lambda>value.
     Option.bind (split_once CHR '' '' value) (\<lambda>(algorithm, fingerprint).
       if eq_ignore_ascii_case algorithm ''sha-256'' then Some fingerprint else None))"

fun find_map :: "('a \<Rightarrow> 'b option) \<Rightarrow> 'a list \<Rightarrow> 'b option" where
  "find_map f [] = None"
| "find_map f (x # xs) = (case f x of Some y \<Rightarrow> Some y | None \<Rightarrow> find_map f xs)"

definition parse_dtls_sha256_fingerprint :: "string \<Rightarrow> bytes option" where
  "parse_dtls_sha256_fingerprint sdp =
     Option.bind (find_map fingerprint_of_line (split_on CHR 0x0A sdp)) (\<lambda>encoded.
       let parts = split_on CHR '':'' encoded in
       if length parts \<noteq> NONCE_OR_HASH_BYTES \<or> list_ex (\<lambda>p. length p \<noteq> 2) parts then None
       else collect_options (map u8_from_hex parts))"

section \<open>The wire\<close>

record 'r protobuf_bridge_wire =
  pw_rpc :: 'r
  pw_options :: bridge_peer_options
  pw_controller_display_name :: string
  pw_route :: "proxy_route option"
  pw_next_frame_sequence :: u64
  pw_last_renewed_at_ms :: u64
  pw_clock :: "nat \<Rightarrow> u64"
  pw_readings :: nat
  pw_failed :: bool

text \<open>One reading of the clock: \<open>pw_clock\<close> gives the readings one after the other.\<close>

definition clock_now_ms :: "'r protobuf_bridge_wire \<Rightarrow> 'r protobuf_bridge_wire \<times> u64" where
  "clock_now_ms w = (w\<lparr>pw_readings := Suc (pw_readings w)\<rparr>, pw_clock w (pw_readings w))"

definition wire_with_clock ::
  "'r \<Rightarrow> bridge_peer_options \<Rightarrow> string \<Rightarrow> proxy_route \<Rightarrow> u64 \<Rightarrow> (nat \<Rightarrow> u64) \<Rightarrow> proxy_error + 'r protobuf_bridge_wire" where
  "wire_with_clock rpc opts controller_display_name route next_frame_sequence clock =
     (if pr_generation route = 0 \<or> next_frame_sequence = 0 then Inl ProxyError_InvalidConfiguration
      else bind_res (validate_controller_display_name controller_display_name) (\<lambda>_.
        let w = \<lparr>pw_rpc = rpc, pw_options = opts, pw_controller_display_name = controller_display_name,
                 pw_route = Some route, pw_next_frame_sequence = next_frame_sequence, pw_last_renewed_at_ms = 0,
                 pw_clock = clock, pw_readings = 0, pw_failed = False\<rparr>;
            (w, t) = clock_now_ms w
        in Inr (w\<lparr>pw_last_renewed_at_ms := t\<rparr>)))"

definition wire_new :: "'r \<Rightarrow> bridge_peer_options \<Rightarrow> string \<Rightarrow> (nat \<Rightarrow> u64) \<Rightarrow> proxy_error + 'r protobuf_bridge_wire" where
  "wire_new rpc opts controller_display_name clock =
     bind_res (validate_controller_display_name controller_display_name) (\<lambda>_.
       let w = \<lparr>pw_rpc = rpc, pw_options = opts, pw_controller_display_name = controller_display_name,
                pw_route = None, pw_next_frame_sequence = 1, pw_last_renewed_at_ms = 0,
                pw_clock = clock, pw_readings = 0, pw_failed = False\<rparr>;
           (w, t) = clock_now_ms w
       in Inr (w\<lparr>pw_last_renewed_at_ms := t\<rparr>))"

definition wire_fail_closed :: "'r bridge_rpc_ops \<Rightarrow> 'r protobuf_bridge_wire \<Rightarrow> 'r protobuf_bridge_wire" where
  "wire_fail_closed ops w =
     (if pw_failed w then w else w\<lparr>pw_failed := True, pw_rpc := brp_fail_closed ops (pw_rpc w)\<rparr>)"

definition wire_reject ::
  "'r bridge_rpc_ops \<Rightarrow> 'r protobuf_bridge_wire \<Rightarrow> proxy_error \<Rightarrow> 'r protobuf_bridge_wire \<times> (proxy_error + 'a)" where
  "wire_reject ops w e = (wire_fail_closed ops w, Inl e)"

definition client_request_id :: "proxy_route \<Rightarrow> u64 \<Rightarrow> string" where
  "client_request_id route frame_sequence =
     REQUEST_ID_PREFIX @ ''-'' @ decimal (unat (pr_generation route)) @ ''-'' @ decimal (unat frame_sequence)"

definition client_version :: protocol_version where
  "client_version = \<lparr>pv_major = PROTOCOL_MAJOR_VERSION, pv_minor = MINIMUM_PROTOCOL_MINOR_VERSION\<rparr>"

definition valid_version :: "protocol_version option \<Rightarrow> bool" where
  "valid_version v \<longleftrightarrow>
     (case v of
        None \<Rightarrow> False
      | Some value \<Rightarrow> pv_major value = PROTOCOL_MAJOR_VERSION
          \<and> checked_sub (pv_minor value) MINIMUM_PROTOCOL_MINOR_VERSION \<noteq> None)"

definition client_route :: "bytes \<Rightarrow> u64 \<Rightarrow> proxy_error + proxy_route" where
  "client_route lease_id generation =
     (if length lease_id \<noteq> 16 then Inl ProxyError_InvalidMessage
      else if generation = 0 then Inl ProxyError_InvalidMessage
      else Inr (proxy_route_new (LeaseId lease_id) generation))"

text \<open>The second half of \<^verbatim>\<open>call\<close>, once the route is settled.\<close>

definition wire_exchange ::
  "'r bridge_rpc_ops \<Rightarrow> 'r protobuf_bridge_wire \<Rightarrow> bridge_request \<Rightarrow> privileged_bridge_client_frame_payload
    \<Rightarrow> 'r protobuf_bridge_wire \<times> (proxy_error + privileged_bridge_server_frame)" where
  "wire_exchange ops w request payload =
     (let frame_sequence = pw_next_frame_sequence w in
      case checked_add frame_sequence 1 of
        None \<Rightarrow> wire_reject ops w ProxyError_FailedClosed
      | Some n \<Rightarrow>
          (let w = w\<lparr>pw_next_frame_sequence := n\<rparr>; rid = client_request_id (brq_route request) frame_sequence in
           case brp_call ops (pw_rpc w)
                  \<lparr>pbcf_protocol_version = Some client_version, pbcf_request_id = rid, pbcf_sequence = frame_sequence,
                   pbcf_payload = Some payload\<rparr> of
             (rpc, Inl e) \<Rightarrow> wire_reject ops (w\<lparr>pw_rpc := rpc\<rparr>) e
           | (rpc, Inr response) \<Rightarrow>
               (let w = w\<lparr>pw_rpc := rpc\<rparr> in
                if \<not> valid_version (pbsf_protocol_version response) \<or> pbsf_request_id response \<noteq> rid
                   \<or> pbsf_sequence response \<noteq> frame_sequence
                then wire_reject ops w ProxyError_StaleResponse
                else (w, Inr response))))"

definition wire_call ::
  "'r bridge_rpc_ops \<Rightarrow> 'r protobuf_bridge_wire \<Rightarrow> bridge_request \<Rightarrow> privileged_bridge_client_frame_payload
    \<Rightarrow> 'r protobuf_bridge_wire \<times> (proxy_error + privileged_bridge_server_frame)" where
  "wire_call ops w request payload =
     (if pw_failed w then (w, Inl ProxyError_FailedClosed)
      else case pw_route w of
        Some route \<Rightarrow>
          if route \<noteq> brq_route request then wire_reject ops w ProxyError_StaleRoute
          else wire_exchange ops w request payload
      | None \<Rightarrow> wire_exchange ops (w\<lparr>pw_route := Some (brq_route request)\<rparr>) request payload)"

definition wire_accepted ::
  "'r bridge_rpc_ops \<Rightarrow> 'r protobuf_bridge_wire \<Rightarrow> bridge_request \<Rightarrow> privileged_bridge_client_frame_payload
    \<Rightarrow> 'r protobuf_bridge_wire \<times> (proxy_error + unit bridge_response)" where
  "wire_accepted ops w request payload =
     sbind (wire_call ops w request payload) (\<lambda>w response.
       case pbsf_payload response of
         Some (PrivilegedBridgeServerFrame_CommandAccepted v) \<Rightarrow>
           (w, bind_res (client_route (pca_lease_id v) (pca_generation v)) (\<lambda>route.
             Inr \<lparr>brs_route = route, brs_sequence = brq_sequence request, brs_value = ()\<rparr>))
       | Some (PrivilegedBridgeServerFrame_Error _) \<Rightarrow> wire_reject ops w ProxyError_Rejected
       | _ \<Rightarrow> wire_reject ops w ProxyError_StaleResponse)"

definition renew_if_due ::
  "'r bridge_rpc_ops \<Rightarrow> 'r protobuf_bridge_wire \<Rightarrow> 'r protobuf_bridge_wire \<times> (proxy_error + unit)" where
  "renew_if_due ops w =
     (let (w, now_ms) = clock_now_ms w in
      if saturating_sub now_ms (pw_last_renewed_at_ms w) < RENEW_ATTEMPT_INTERVAL_MS then (w, Inr ())
      else case pw_route w of
        None \<Rightarrow> (w, Inl ProxyError_InvalidMessage)
      | Some route \<Rightarrow>
          sbind (wire_call ops w \<lparr>brq_route = route, brq_sequence = 0\<rparr>
              (PrivilegedBridgeClientFrame_RenewLease
                \<lparr>rplr_lease_id = lease_id_bytes (pr_lease_id route), rplr_generation = pr_generation route\<rparr>))
            (\<lambda>w response.
              case pbsf_payload response of
                Some (PrivilegedBridgeServerFrame_Lease l) \<Rightarrow>
                  (case client_route (please_lease_id l) (please_generation l) of
                     Inl e \<Rightarrow> (w, Inl e)
                   | Inr r \<Rightarrow>
                       if r \<noteq> route then wire_reject ops w ProxyError_StaleRoute
                       else let (w, t) = clock_now_ms w in (w\<lparr>pw_last_renewed_at_ms := t\<rparr>, Inr ()))
              | _ \<Rightarrow> wire_reject ops w ProxyError_Rejected))"

definition peer_request ::
  "'r protobuf_bridge_wire \<Rightarrow> bridge_request \<Rightarrow> session_config \<Rightarrow> string
    \<Rightarrow> proxy_error + (bytes \<times> u64 \<times> privileged_peer_configuration \<times> web_rtc_session_description)" where
  "peer_request w request config offer_sdp =
     bind_res (ok_or ProxyError_InvalidMessage (parse_dtls_sha256_fingerprint offer_sdp)) (\<lambda>fingerprint.
       Inr (lease_id_bytes (pr_lease_id (brq_route request)), pr_generation (brq_route request),
            options_configuration (pw_options w) config,
            \<lparr>wrsd_type = session_description_type_code SessionDescriptionType_Offer, wrsd_sdp = offer_sdp,
             wrsd_dtls_fingerprint_sha256 = fingerprint\<rparr>))"

definition wire_peer_answer ::
  "'r bridge_rpc_ops \<Rightarrow> 'r protobuf_bridge_wire \<Rightarrow> privileged_bridge_server_frame \<Rightarrow> u64
    \<Rightarrow> 'r protobuf_bridge_wire \<times> (proxy_error + peer_answer bridge_response)" where
  "wire_peer_answer ops w response proxy_sequence =
     (case pbsf_payload response of
        Some (PrivilegedBridgeServerFrame_PeerAnswer v) \<Rightarrow>
          (case ppa_answer v of
             None \<Rightarrow> (w, Inl ProxyError_InvalidMessage)
           | Some answer \<Rightarrow>
               if session_description_type_of (wrsd_type answer) \<noteq> Some SessionDescriptionType_Answer
                  \<or> wrsd_sdp answer = [] \<or> length (wrsd_dtls_fingerprint_sha256 answer) \<noteq> NONCE_OR_HASH_BYTES
               then wire_reject ops w ProxyError_InvalidMessage
               else (w, bind_res (client_route (ppa_lease_id v) (ppa_generation v)) (\<lambda>route.
                 Inr \<lparr>brs_route = route, brs_sequence = proxy_sequence,
                      brs_value = \<lparr>pa_sdp = wrsd_sdp answer,
                        pa_dtls_fingerprint_sha256 = wrsd_dtls_fingerprint_sha256 answer\<rparr>\<rparr>)))
      | Some (PrivilegedBridgeServerFrame_Error _) \<Rightarrow> wire_reject ops w ProxyError_Rejected
      | _ \<Rightarrow> wire_reject ops w ProxyError_StaleResponse)"

definition wire_start ::
  "'r bridge_rpc_ops \<Rightarrow> 'r protobuf_bridge_wire \<Rightarrow> bridge_request \<Rightarrow> session_config \<Rightarrow> string
    \<Rightarrow> 'r protobuf_bridge_wire \<times> (proxy_error + peer_answer bridge_response)" where
  "wire_start ops w request config offer_sdp =
     sbind (renew_if_due ops w) (\<lambda>w _.
     sbind (w, peer_request w request config offer_sdp) (\<lambda>w (lease_id, generation, configuration, offer).
     sbind (wire_call ops w request (PrivilegedBridgeClientFrame_StartPeer
         \<lparr>sppr_lease_id = lease_id, sppr_generation = generation, sppr_configuration = Some configuration,
          sppr_offer = Some offer, sppr_controller_display_name = pw_controller_display_name w\<rparr>)) (\<lambda>w response.
     wire_peer_answer ops w response (brq_sequence request))))"

definition wire_restart ::
  "'r bridge_rpc_ops \<Rightarrow> 'r protobuf_bridge_wire \<Rightarrow> bridge_request \<Rightarrow> session_config \<Rightarrow> string
    \<Rightarrow> 'r protobuf_bridge_wire \<times> (proxy_error + peer_answer bridge_response)" where
  "wire_restart ops w request config offer_sdp =
     sbind (renew_if_due ops w) (\<lambda>w _.
     sbind (w, peer_request w request config offer_sdp) (\<lambda>w (lease_id, generation, configuration, offer).
     sbind (wire_call ops w request (PrivilegedBridgeClientFrame_RestartPeer
         \<lparr>rppr_lease_id = lease_id, rppr_generation = generation, rppr_configuration = Some configuration,
          rppr_offer = Some offer, rppr_controller_display_name = pw_controller_display_name w\<rparr>)) (\<lambda>w response.
     wire_peer_answer ops w response (brq_sequence request))))"

definition to_candidate :: "peer_ice_candidate \<Rightarrow> ice_candidate" where
  "to_candidate c = \<lparr>ic_candidate = pic2_candidate c, ic_sdp_mid = pic2_sdp_mid c,
     ic_sdp_m_line_index = pic2_sdp_m_line_index c\<rparr>"

fun to_input :: "validated_input \<Rightarrow> privileged_input_command_input" where
  "to_input (ValidatedInput_Keyboard action usb_hid_usage modifier_bits) = PrivilegedInputCommand_Keyboard
     \<lparr>ke_action = keyboard_action_code action, ke_usb_hid_usage = usb_hid_usage, ke_modifier_bits = modifier_bits\<rparr>"
| "to_input (ValidatedInput_PointerButton button action x y) = PrivilegedInputCommand_PointerButton
     \<lparr>pbe_button = pointer_button_code button, pbe_action = button_action_code action, pbe_x = x, pbe_y = y\<rparr>"
| "to_input (ValidatedInput_PointerMove x y pressed_button_bits) = PrivilegedInputCommand_PointerMove
     \<lparr>pme_x = x, pme_y = y, pme_pressed_button_bits = pressed_button_bits\<rparr>"
| "to_input (ValidatedInput_PointerScroll delta_x delta_y) = PrivilegedInputCommand_PointerScroll
     \<lparr>pse_delta_x = delta_x, pse_delta_y = delta_y\<rparr>"
| "to_input (ValidatedInput_Text text) = PrivilegedInputCommand_Text \<lparr>tie_text = text\<rparr>"
| "to_input ValidatedInput_ReleaseAll = PrivilegedInputCommand_ReleaseAll release_all_input.ReleaseAllInput"

definition wire_add_candidate ::
  "'r bridge_rpc_ops \<Rightarrow> 'r protobuf_bridge_wire \<Rightarrow> bridge_request \<Rightarrow> peer_ice_candidate
    \<Rightarrow> 'r protobuf_bridge_wire \<times> (proxy_error + unit bridge_response)" where
  "wire_add_candidate ops w request candidate =
     sbind (renew_if_due ops w) (\<lambda>w _.
       wire_accepted ops w request (PrivilegedBridgeClientFrame_AddIceCandidate
         \<lparr>apicr_lease_id = lease_id_bytes (pr_lease_id (brq_route request)),
          apicr_generation = pr_generation (brq_route request), apicr_candidate = Some (to_candidate candidate)\<rparr>))"

definition wire_input ::
  "'r bridge_rpc_ops \<Rightarrow> 'r protobuf_bridge_wire \<Rightarrow> bridge_request \<Rightarrow> validated_input
    \<Rightarrow> 'r protobuf_bridge_wire \<times> (proxy_error + unit bridge_response)" where
  "wire_input ops w request input =
     sbind (renew_if_due ops w) (\<lambda>w _.
       wire_accepted ops w request (PrivilegedBridgeClientFrame_InputCommand
         \<lparr>pic_lease_id = lease_id_bytes (pr_lease_id (brq_route request)),
          pic_generation = pr_generation (brq_route request), pic_input = Some (to_input input)\<rparr>))"

definition wire_close ::
  "'r bridge_rpc_ops \<Rightarrow> 'r protobuf_bridge_wire \<Rightarrow> bridge_request
    \<Rightarrow> 'r protobuf_bridge_wire \<times> (proxy_error + unit bridge_response)" where
  "wire_close ops w request =
     wire_accepted ops w request (PrivilegedBridgeClientFrame_ClosePeer
       \<lparr>cppr_lease_id = lease_id_bytes (pr_lease_id (brq_route request)),
        cppr_generation = pr_generation (brq_route request)\<rparr>)"

definition wire_release ::
  "'r bridge_rpc_ops \<Rightarrow> 'r protobuf_bridge_wire \<Rightarrow> bridge_request
    \<Rightarrow> 'r protobuf_bridge_wire \<times> (proxy_error + unit bridge_response)" where
  "wire_release ops w request =
     wire_accepted ops w request (PrivilegedBridgeClientFrame_ReleaseLease
       \<lparr>rplr2_lease_id = lease_id_bytes (pr_lease_id (brq_route request)),
        rplr2_generation = pr_generation (brq_route request)\<rparr>)"

definition map_candidate_event :: "privileged_local_ice_candidate \<Rightarrow> proxy_error + (bytes \<times> u64 \<times> proxy_event)" where
  "map_candidate_event v =
     bind_res (ok_or ProxyError_InvalidMessage (plic_candidate v)) (\<lambda>c.
       Inr (plic_lease_id v, plic_generation v, ProxyEvent_LocalIceCandidate
         \<lparr>pic2_candidate = ic_candidate c, pic2_sdp_mid = ic_sdp_mid c, pic2_sdp_m_line_index = ic_sdp_m_line_index c\<rparr>))"

definition map_reliable_event :: "privileged_reliable_input_event \<Rightarrow> proxy_error + (bytes \<times> u64 \<times> proxy_event)" where
  "map_reliable_event v =
     (if prie_encoded_envelope v = [] then Inl ProxyError_InvalidMessage
      else Inr (prie_lease_id v, prie_generation v, ProxyEvent_ReliableInput (prie_encoded_envelope v)))"

definition map_fast_event :: "privileged_fast_pointer_event \<Rightarrow> proxy_error + (bytes \<times> u64 \<times> proxy_event)" where
  "map_fast_event v =
     (if pfpe_encoded_envelope v = [] then Inl ProxyError_InvalidMessage
      else Inr (pfpe_lease_id v, pfpe_generation v, ProxyEvent_FastPointer (pfpe_encoded_envelope v)))"

definition peer_state_event :: "i32 \<Rightarrow> proxy_event option" where
  "peer_state_event st =
     (case privileged_peer_state_of st of
        Some PrivilegedPeerState_Connected \<Rightarrow> Some ProxyEvent_Connected
      | Some PrivilegedPeerState_Disconnected \<Rightarrow> Some ProxyEvent_Disconnected
      | Some PrivilegedPeerState_Failed \<Rightarrow> Some ProxyEvent_Failed
      | Some PrivilegedPeerState_Closed \<Rightarrow> Some ProxyEvent_LocalStop
      | _ \<Rightarrow> None)"

text \<open>The match of \<^verbatim>\<open>try_event\<close>: the first error list is rejected, the second is only returned.\<close>

definition decode_event ::
  "privileged_bridge_server_frame_payload option \<Rightarrow> proxy_error + (proxy_error + (bytes \<times> u64 \<times> proxy_event))" where
  "decode_event payload =
     (case payload of
        Some (PrivilegedBridgeServerFrame_LocalIceCandidate v) \<Rightarrow> Inr (map_candidate_event v)
      | Some (PrivilegedBridgeServerFrame_PeerStateChanged v) \<Rightarrow>
          (case peer_state_event (ppsc_state v) of
             None \<Rightarrow> Inl ProxyError_InvalidMessage
           | Some event \<Rightarrow> Inr (Inr (ppsc_lease_id v, ppsc_generation v, event)))
      | Some (PrivilegedBridgeServerFrame_ReliableInput v) \<Rightarrow> Inr (map_reliable_event v)
      | Some (PrivilegedBridgeServerFrame_FastPointer v) \<Rightarrow> Inr (map_fast_event v)
      | Some (PrivilegedBridgeServerFrame_Error _) \<Rightarrow> Inl ProxyError_Rejected
      | _ \<Rightarrow> Inl ProxyError_StaleResponse)"

definition wire_try_event ::
  "'r bridge_rpc_ops \<Rightarrow> 'r protobuf_bridge_wire
    \<Rightarrow> 'r protobuf_bridge_wire \<times> (proxy_error + proxy_event bridge_response option)" where
  "wire_try_event ops w =
     (if pw_failed w then (w, Inl ProxyError_FailedClosed)
      else sbind (renew_if_due ops w) (\<lambda>w _.
        case brp_try_event ops (pw_rpc w) of
          (rpc, Inl e) \<Rightarrow> wire_reject ops (w\<lparr>pw_rpc := rpc\<rparr>) e
        | (rpc, Inr None) \<Rightarrow> (w\<lparr>pw_rpc := rpc\<rparr>, Inr None)
        | (rpc, Inr (Some frame)) \<Rightarrow>
            (let w = w\<lparr>pw_rpc := rpc\<rparr> in
             if \<not> valid_version (pbsf_protocol_version frame) \<or> pbsf_sequence frame = 0
             then wire_reject ops w ProxyError_StaleResponse
             else case decode_event (pbsf_payload frame) of
               Inl e \<Rightarrow> wire_reject ops w e
             | Inr r \<Rightarrow>
                 (w, bind_res r (\<lambda>(lease_id, generation, event).
                   bind_res (client_route lease_id generation) (\<lambda>route.
                     Inr (Some \<lparr>brs_route = route, brs_sequence = pbsf_sequence frame, brs_value = event\<rparr>)))))))"

end
