(* ===== verification/Bridge_Proxy.thy ===== *)
theory Bridge_Proxy
  imports Bridge_Wire
begin

text \<open>
  The proxy a Host session holds instead of a native peer, \<^verbatim>\<open>crates/privileged-bridge/src/proxy.rs\<close>: a peer, an input sink, an
  event source and a route control that share one mutex.  Every operation is numbered, bound to the route, and the first
  answer that does not fit closes the proxy for good.  The wire below is a parameter, the record \<open>bridge_wire_ops\<close>,
  instantiated by the protobuf wire of the previous theory.
\<close>

section \<open>The authority that is passed on\<close>

record proxy_session_context =
  psc_session_id :: bytes
  psc_permissions :: "session_permission list"
  psc_controller_display_name :: string

definition proxy_session_context_new ::
  "bytes \<Rightarrow> session_permission list \<Rightarrow> string \<Rightarrow> proxy_error + proxy_session_context" where
  "proxy_session_context_new session_id permissions controller_display_name =
     (if length session_id \<noteq> SESSION_ID_BYTES \<or> permissions = [] \<or> card (set permissions) \<noteq> length permissions
         \<or> SessionPermission_Unspecified \<in> set permissions \<or> controller_display_name = []
         \<or> length controller_display_name > MAX_DEVICE_NAME_UTF8_BYTES
      then Inl ProxyError_InvalidConfiguration
      else Inr \<lparr>psc_session_id = session_id, psc_permissions = permissions,
                psc_controller_display_name = controller_display_name\<rparr>)"

section \<open>The shared state\<close>

record 'w bridge_wire_ops =
  bw_start :: "'w \<Rightarrow> bridge_request \<Rightarrow> session_config \<Rightarrow> string \<Rightarrow> 'w \<times> (proxy_error + peer_answer bridge_response)"
  bw_restart :: "'w \<Rightarrow> bridge_request \<Rightarrow> session_config \<Rightarrow> string \<Rightarrow> 'w \<times> (proxy_error + peer_answer bridge_response)"
  bw_add_candidate :: "'w \<Rightarrow> bridge_request \<Rightarrow> peer_ice_candidate \<Rightarrow> 'w \<times> (proxy_error + unit bridge_response)"
  bw_input :: "'w \<Rightarrow> bridge_request \<Rightarrow> validated_input \<Rightarrow> 'w \<times> (proxy_error + unit bridge_response)"
  bw_close :: "'w \<Rightarrow> bridge_request \<Rightarrow> 'w \<times> (proxy_error + unit bridge_response)"
  bw_release :: "'w \<Rightarrow> bridge_request \<Rightarrow> 'w \<times> (proxy_error + unit bridge_response)"
  bw_try_event :: "'w \<Rightarrow> 'w \<times> (proxy_error + proxy_event bridge_response option)"
  bw_fail_closed :: "'w \<Rightarrow> 'w"

text \<open>\<^verbatim>\<open>impl BridgeWire for ProtobufBridgeWire\<close>.\<close>

definition protobuf_wire_ops :: "'r bridge_rpc_ops \<Rightarrow> 'r protobuf_bridge_wire bridge_wire_ops" where
  "protobuf_wire_ops ops =
     \<lparr>bw_start = wire_start ops, bw_restart = wire_restart ops, bw_add_candidate = wire_add_candidate ops,
      bw_input = wire_input ops, bw_close = wire_close ops, bw_release = wire_release ops,
      bw_try_event = wire_try_event ops, bw_fail_closed = wire_fail_closed ops\<rparr>"

record 'w proxy_shared =
  px_route :: proxy_route
  px_next_request_sequence :: u64
  px_last_event_sequence :: u64
  px_wire :: 'w
  px_failed :: bool
  px_closed :: bool

text \<open>The four parts are handles on one mutex; the mutex is the state of each.\<close>

definition new_proxy_parts :: "proxy_route \<Rightarrow> 'w \<Rightarrow> 'w proxy_shared mutex" where
  "new_proxy_parts route wire = Healthy \<lparr>px_route = route, px_next_request_sequence = 1, px_last_event_sequence = 0,
     px_wire = wire, px_failed = False, px_closed = False\<rparr>"

definition shared_fail_closed :: "'w bridge_wire_ops \<Rightarrow> 'w proxy_shared \<Rightarrow> 'w proxy_shared" where
  "shared_fail_closed ops s =
     (if px_failed s then s else s\<lparr>px_failed := True, px_wire := bw_fail_closed ops (px_wire s)\<rparr>)"

definition perform ::
  "'w bridge_wire_ops \<Rightarrow> 'w proxy_shared \<Rightarrow> ('w \<Rightarrow> bridge_request \<Rightarrow> 'w \<times> (proxy_error + 'a bridge_response))
    \<Rightarrow> 'w proxy_shared \<times> (proxy_error + 'a)" where
  "perform ops s call =
     (if px_failed s then (s, Inl ProxyError_FailedClosed)
      else
        let request = \<lparr>brq_route = px_route s, brq_sequence = px_next_request_sequence s\<rparr> in
        case checked_add (px_next_request_sequence s) 1 of
          None \<Rightarrow> (s, Inl ProxyError_FailedClosed)
        | Some n \<Rightarrow>
            (let s = s\<lparr>px_next_request_sequence := n\<rparr> in
             case call (px_wire s) request of
               (w, Inl e) \<Rightarrow> (shared_fail_closed ops (s\<lparr>px_wire := w\<rparr>), Inl e)
             | (w, Inr response) \<Rightarrow>
                 (let s = s\<lparr>px_wire := w\<rparr> in
                  if brs_route response \<noteq> brq_route request
                    then (shared_fail_closed ops s, Inl ProxyError_StaleRoute)
                  else if brs_sequence response \<noteq> brq_sequence request
                    then (shared_fail_closed ops s, Inl ProxyError_StaleResponse)
                  else (s, Inr (brs_value response)))))"

text \<open>\<^verbatim>\<open>lock(&self.0).and_then(|mut shared| ...)\<close>.\<close>

definition with_shared ::
  "'s mutex \<Rightarrow> ('s \<Rightarrow> 's \<times> (proxy_error + 'a)) \<Rightarrow> 's mutex \<times> (proxy_error + 'a)" where
  "with_shared m k =
     (case lock_or ProxyError_FailedClosed m of
        Inl e \<Rightarrow> (m, Inl e)
      | Inr s \<Rightarrow> map_prod Healthy (\<lambda>r. r) (k s))"

section \<open>The peer\<close>

definition proxy_start ::
  "'w bridge_wire_ops \<Rightarrow> 'w proxy_shared mutex \<Rightarrow> session_config \<Rightarrow> string
    \<Rightarrow> 'w proxy_shared mutex \<times> (host_webrtc_error + peer_answer)" where
  "proxy_start ops m config offer_sdp = smap_err (\<lambda>_. HostWebRtcError_PeerFailure)
     (with_shared m (\<lambda>s. perform ops s (\<lambda>w request. bw_start ops w request config offer_sdp)))"

definition proxy_restart ::
  "'w bridge_wire_ops \<Rightarrow> 'w proxy_shared mutex \<Rightarrow> session_config \<Rightarrow> string
    \<Rightarrow> 'w proxy_shared mutex \<times> (host_webrtc_error + peer_answer)" where
  "proxy_restart ops m config offer_sdp = smap_err (\<lambda>_. HostWebRtcError_PeerFailure)
     (with_shared m (\<lambda>s. perform ops s (\<lambda>w request. bw_restart ops w request config offer_sdp)))"

definition proxy_add_candidate ::
  "'w bridge_wire_ops \<Rightarrow> 'w proxy_shared mutex \<Rightarrow> peer_ice_candidate
    \<Rightarrow> 'w proxy_shared mutex \<times> (host_webrtc_error + unit)" where
  "proxy_add_candidate ops m candidate = smap_err (\<lambda>_. HostWebRtcError_PeerFailure)
     (with_shared m (\<lambda>s. perform ops s (\<lambda>w request. bw_add_candidate ops w request candidate)))"

definition proxy_close ::
  "'w bridge_wire_ops \<Rightarrow> 'w proxy_shared mutex \<Rightarrow> 'w proxy_shared mutex \<times> (host_webrtc_error + unit)" where
  "proxy_close ops m = smap_err (\<lambda>_. HostWebRtcError_PeerFailure)
     (with_shared m (\<lambda>s.
        if px_closed s then (s, Inr ())
        else
          let (s, close_result) = perform ops s (bw_close ops);
              (s, release_result) = perform ops s (bw_release ops)
          in (s\<lparr>px_closed := True\<rparr>, and_res close_result release_result)))"

definition proxy_peer_ops :: "'w bridge_wire_ops \<Rightarrow> 'w proxy_shared mutex peer_backend_ops" where
  "proxy_peer_ops ops = \<lparr>pbo_start = proxy_start ops, pbo_restart = proxy_restart ops,
     pbo_add_remote_ice_candidate = proxy_add_candidate ops, pbo_close = proxy_close ops\<rparr>"

section \<open>The input sink\<close>

definition proxy_send ::
  "'w bridge_wire_ops \<Rightarrow> 'w proxy_shared mutex \<Rightarrow> validated_input \<Rightarrow> 'w proxy_shared mutex \<times> (host_webrtc_error + unit)" where
  "proxy_send ops m input = smap_err (\<lambda>_. HostWebRtcError_InputFailure)
     (with_shared m (\<lambda>s. perform ops s (\<lambda>w request. bw_input ops w request input)))"

definition proxy_input_ops :: "'w bridge_wire_ops \<Rightarrow> 'w proxy_shared mutex remote_input_ops" where
  "proxy_input_ops ops =
     \<lparr>ri_keyboard = (\<lambda>m action usage bits. proxy_send ops m (ValidatedInput_Keyboard action usage bits)),
      ri_pointer_button = (\<lambda>m button action x y. proxy_send ops m (ValidatedInput_PointerButton button action x y)),
      ri_pointer_move = (\<lambda>m x y bits. proxy_send ops m (ValidatedInput_PointerMove x y bits)),
      ri_pointer_scroll = (\<lambda>m dx dy. proxy_send ops m (ValidatedInput_PointerScroll dx dy)),
      ri_text = (\<lambda>m text. proxy_send ops m (ValidatedInput_Text text)),
      ri_release_all = (\<lambda>m. proxy_send ops m ValidatedInput_ReleaseAll)\<rparr>"

section \<open>Events and route control\<close>

definition shared_try_recv ::
  "'w bridge_wire_ops \<Rightarrow> 'w proxy_shared \<Rightarrow> 'w proxy_shared \<times> (proxy_error + proxy_event option)" where
  "shared_try_recv ops s =
     (if px_failed s then (s, Inl ProxyError_FailedClosed)
      else case bw_try_event ops (px_wire s) of
        (w, Inl e) \<Rightarrow> (shared_fail_closed ops (s\<lparr>px_wire := w\<rparr>), Inl e)
      | (w, Inr None) \<Rightarrow> (s\<lparr>px_wire := w\<rparr>, Inr None)
      | (w, Inr (Some response)) \<Rightarrow>
          (let s = s\<lparr>px_wire := w\<rparr> in
           if brs_route response \<noteq> px_route s then (shared_fail_closed ops s, Inl ProxyError_StaleRoute)
           else case checked_add (px_last_event_sequence s) 1 of
             None \<Rightarrow> (s, Inl ProxyError_StaleResponse)
           | Some expected \<Rightarrow>
               if brs_sequence response \<noteq> expected then (shared_fail_closed ops s, Inl ProxyError_StaleResponse)
               else (s\<lparr>px_last_event_sequence := brs_sequence response\<rparr>, Inr (Some (brs_value response)))))"

definition proxy_try_recv ::
  "'w bridge_wire_ops \<Rightarrow> 'w proxy_shared mutex \<Rightarrow> 'w proxy_shared mutex \<times> (proxy_error + proxy_event option)" where
  "proxy_try_recv ops m = with_shared m (shared_try_recv ops)"

definition shared_migrate :: "'w proxy_shared \<Rightarrow> proxy_route \<Rightarrow> 'w proxy_shared \<times> (proxy_error + unit)" where
  "shared_migrate s route =
     (if pr_generation route \<noteq> saturating_add (pr_generation (px_route s)) 1
         \<or> pr_lease_id route = pr_lease_id (px_route s)
      then (s, Inl ProxyError_InvalidMigration)
      else (s\<lparr>px_route := route, px_next_request_sequence := 1, px_last_event_sequence := 0, px_closed := False\<rparr>, Inr ()))"

definition proxy_migrate ::
  "'w proxy_shared mutex \<Rightarrow> proxy_route \<Rightarrow> 'w proxy_shared mutex \<times> (proxy_error + unit)" where
  "proxy_migrate m route = with_shared m (\<lambda>s. shared_migrate s route)"

section \<open>The proxy as a machine\<close>

datatype proxy_op =
    ProxyStart session_config string
  | ProxyRestart session_config string
  | ProxyAddCandidate peer_ice_candidate
  | ProxyClose
  | ProxyInput validated_input
  | ProxyTryRecv
  | ProxyMigrate proxy_route

datatype proxy_out =
    ProxyAnswered "host_webrtc_error + peer_answer"
  | ProxyDone "host_webrtc_error + unit"
  | ProxyReceived "proxy_error + proxy_event option"
  | ProxyMigrated "proxy_error + unit"

fun proxy_step :: "'w bridge_wire_ops \<Rightarrow> 'w proxy_shared mutex \<Rightarrow> proxy_op \<Rightarrow> 'w proxy_shared mutex \<times> proxy_out" where
  "proxy_step ops m (ProxyStart c d) = map_prod (\<lambda>m. m) ProxyAnswered (proxy_start ops m c d)"
| "proxy_step ops m (ProxyRestart c d) = map_prod (\<lambda>m. m) ProxyAnswered (proxy_restart ops m c d)"
| "proxy_step ops m (ProxyAddCandidate c) = map_prod (\<lambda>m. m) ProxyDone (proxy_add_candidate ops m c)"
| "proxy_step ops m ProxyClose = map_prod (\<lambda>m. m) ProxyDone (proxy_close ops m)"
| "proxy_step ops m (ProxyInput i) = map_prod (\<lambda>m. m) ProxyDone (proxy_send ops m i)"
| "proxy_step ops m ProxyTryRecv = map_prod (\<lambda>m. m) ProxyReceived (proxy_try_recv ops m)"
| "proxy_step ops m (ProxyMigrate r) = map_prod (\<lambda>m. m) ProxyMigrated (proxy_migrate m r)"

lemmas proxy_op_defs = proxy_start_def proxy_restart_def proxy_add_candidate_def proxy_send_def proxy_try_recv_def
  proxy_migrate_def

text \<open>A proxy that failed: its wire is told nothing any more.\<close>

definition proxy_dead :: "'w \<Rightarrow> 'w proxy_shared mutex \<Rightarrow> bool" where
  "proxy_dead w m \<longleftrightarrow> (\<exists>s. m = Healthy s \<and> px_failed s \<and> px_wire s = w)"

lemma perform_dead [simp]: "px_failed s \<Longrightarrow> perform ops s call = (s, Inl ProxyError_FailedClosed)"
  by (simp add: perform_def)

interpretation proxy_end: machine "proxy_step ops" "proxy_dead w" for ops w
proof
  fix m a
  assume "proxy_dead w m"
  then obtain s where "m = Healthy s" "px_failed s" "px_wire s = w" by (auto simp: proxy_dead_def)
  then show "proxy_dead w (fst (proxy_step ops m a))"
    by (cases a) (auto simp: proxy_dead_def proxy_op_defs proxy_close_def with_shared_def shared_try_recv_def shared_migrate_def)
qed

lemma perform_Inr:
  assumes "perform ops s call = (s', Inr v)"
  obtains w response where "call (px_wire s) \<lparr>brq_route = px_route s, brq_sequence = px_next_request_sequence s\<rparr> = (w, Inr response)"
    "brs_route response = px_route s" "brs_sequence response = px_next_request_sequence s" "brs_value response = v"
    "s' = s\<lparr>px_next_request_sequence := px_next_request_sequence s + 1, px_wire := w\<rparr>"
    "\<not> px_failed s" "unat (px_next_request_sequence s') = Suc (unat (px_next_request_sequence s))"
proof -
  let ?q = "\<lparr>brq_route = px_route s, brq_sequence = px_next_request_sequence s\<rparr>"
  have live: "\<not> px_failed s" using assms by (auto simp: perform_def)
  then obtain n where n: "checked_add (px_next_request_sequence s) 1 = Some n"
    using assms by (cases "checked_add (px_next_request_sequence s) 1") (auto simp: perform_def)
  obtain w r where c: "call (px_wire s) ?q = (w, r)" by fastforce
  then obtain response where "r = Inr response" using assms live n by (cases r) (auto simp: perform_def)
  with assms live n c checked_add_one_Some [of "px_next_request_sequence s" n] checked_add_Some [OF n] that [of w response]
  show ?thesis by (auto simp: perform_def Let_def split: if_splits)
qed

lemma perform_Inl:
  "perform ops s call = (s', Inl e) \<Longrightarrow> px_failed s' \<or> s' = s \<and> px_next_request_sequence s = - 1"
  using checked_add_one_Some [of "px_next_request_sequence s"]
  by (cases "checked_add (px_next_request_sequence s) 1")
    (auto simp: perform_def shared_fail_closed_def Let_def split: prod.splits sum.splits if_splits)

lemma try_recv_cases:
  obtains (dead) "px_failed s" "shared_try_recv ops s = (s, Inl ProxyError_FailedClosed)"
  | (closed) s1 e where "shared_try_recv ops s = (shared_fail_closed ops s1, Inl e)"
  | (nothing) w where "shared_try_recv ops s = (s\<lparr>px_wire := w\<rparr>, Inr None)"
  | (overflow) w where "px_last_event_sequence s = - 1" "shared_try_recv ops s = (s\<lparr>px_wire := w\<rparr>, Inl ProxyError_StaleResponse)"
  | (event) w response where "bw_try_event ops (px_wire s) = (w, Inr (Some response))" "brs_route response = px_route s"
      "unat (brs_sequence response) = Suc (unat (px_last_event_sequence s))"
      "shared_try_recv ops s = (s\<lparr>px_wire := w, px_last_event_sequence := brs_sequence response\<rparr>, Inr (Some (brs_value response)))"
proof (cases "px_failed s")
  case True
  with dead show ?thesis by (simp add: shared_try_recv_def)
next
  case False
  obtain w r where ev: "bw_try_event ops (px_wire s) = (w, r)" by fastforce
  consider (bad) e where "r = Inl e" | (none) "r = Inr None" | (some) response where "r = Inr (Some response)"
    by (metis old.sum.exhaust option.exhaust)
  then show ?thesis
  proof cases
    case bad
    with ev False closed show ?thesis by (simp add: shared_try_recv_def)
  next
    case none
    have "shared_try_recv ops s = (s\<lparr>px_wire := w\<rparr>, Inr None)" using ev False none by (simp add: shared_try_recv_def)
    then show ?thesis by (rule nothing)
  next
    case some
    let ?s = "s\<lparr>px_wire := w\<rparr>"
    show ?thesis
    proof (cases "brs_route response = px_route s")
      case False
      with some ev \<open>\<not> px_failed s\<close> closed [of ?s] show ?thesis by (simp add: shared_try_recv_def)
    next
      case route: True
      show ?thesis
      proof (cases "checked_add (px_last_event_sequence s) 1")
        case None
        moreover have "px_last_event_sequence s = - 1"
          using None checked_add_one_Some [of "px_last_event_sequence s"] by fastforce
        ultimately show ?thesis using some ev False route overflow [of w] by (simp add: shared_try_recv_def)
      next
        case (Some n)
        show ?thesis
        proof (cases "brs_sequence response = n")
          case True
          with some ev False route Some event [of w response] checked_add_Some [OF Some] show ?thesis
            by (simp add: shared_try_recv_def)
        next
          case ne: False
          with some ev False route Some closed [of ?s] show ?thesis by (simp add: shared_try_recv_def)
        qed
      qed
    qed
  qed
qed

lemma fail_closed_failed [simp]: "px_failed (shared_fail_closed ops s)"
  by (simp add: shared_fail_closed_def)

lemma try_recv_event:
  assumes "shared_try_recv ops s = (s', Inr (Some event))"
  shows "\<exists>w response. bw_try_event ops (px_wire s) = (w, Inr (Some response)) \<and> brs_route response = px_route s
     \<and> unat (brs_sequence response) = Suc (unat (px_last_event_sequence s)) \<and> brs_value response = event
     \<and> s' = s\<lparr>px_wire := w, px_last_event_sequence := brs_sequence response\<rparr>"
  using assms by (cases rule: try_recv_cases [of s ops]) auto

lemma try_recv_error:
  assumes "shared_try_recv ops s = (s', Inl e)"
  shows "px_failed s' \<or> px_last_event_sequence s = - 1"
  using assms by (cases rule: try_recv_cases [of s ops]) auto

section \<open>Renewals\<close>

text \<open>Whether the wire speaks to the broker to renew.\<close>

lemma renew_not_due:
  "saturating_sub (pw_clock w (pw_readings w)) (pw_last_renewed_at_ms w) < RENEW_ATTEMPT_INTERVAL_MS \<Longrightarrow>
     renew_if_due ops w = (w\<lparr>pw_readings := Suc (pw_readings w)\<rparr>, Inr ())"
  by (simp add: renew_if_due_def clock_now_ms_def)

lemma wire_call_keeps [simp]:
  "pw_clock (fst (wire_call ops w q p)) = pw_clock w" "pw_readings (fst (wire_call ops w q p)) = pw_readings w"
  "pw_last_renewed_at_ms (fst (wire_call ops w q p)) = pw_last_renewed_at_ms w"
  by (auto simp: wire_call_def wire_exchange_def wire_reject_def wire_fail_closed_def Let_def
      split: option.splits prod.splits sum.splits)

text \<open>After a renewal the interval starts at the next reading of the clock.\<close>

lemma renew_restarts_interval:
  assumes "renew_if_due ops w = (w', Inr ())"
    and "\<not> saturating_sub (pw_clock w (pw_readings w)) (pw_last_renewed_at_ms w) < RENEW_ATTEMPT_INTERVAL_MS"
  shows "pw_last_renewed_at_ms w' = pw_clock w (Suc (pw_readings w))"
proof -
  let ?w = "w\<lparr>pw_readings := Suc (pw_readings w)\<rparr>"
  obtain route where route: "pw_route w = Some route"
    using assms by (cases "pw_route w") (auto simp: renew_if_due_def clock_now_ms_def)
  let ?q = "\<lparr>brq_route = route, brq_sequence = 0\<rparr>" and ?p = "PrivilegedBridgeClientFrame_RenewLease
    \<lparr>rplr_lease_id = lease_id_bytes (pr_lease_id route), rplr_generation = pr_generation route\<rparr>"
  obtain w1 r where c: "wire_call ops ?w ?q ?p = (w1, r)" by fastforce
  have kept: "pw_clock w1 = pw_clock w" "pw_readings w1 = Suc (pw_readings w)"
    using wire_call_keeps(1,2) [of ops ?w ?q ?p] by (simp_all add: c)
  obtain response where r: "r = Inr response"
    using assms route c by (cases r) (auto simp: renew_if_due_def clock_now_ms_def)
  obtain l where l: "pbsf_payload response = Some (PrivilegedBridgeServerFrame_Lease l)"
    using assms route c r
    by (auto simp: renew_if_due_def clock_now_ms_def wire_reject_def split: option.splits privileged_bridge_server_frame_payload.splits)
  show ?thesis
    using assms route c r l kept
    by (cases "client_route (please_lease_id l) (please_generation l)")
      (auto simp: renew_if_due_def clock_now_ms_def wire_reject_def split: if_splits)
qed

section \<open>Events on the way from the helper\<close>

text \<open>What the helper puts into a frame is what the wire takes out of it.\<close>

definition deliverable :: "proxy_event \<Rightarrow> bool" where
  "deliverable event \<longleftrightarrow> event \<noteq> ProxyEvent_ReliableInput [] \<and> event \<noteq> ProxyEvent_FastPointer []"

lemma decode_event_payload:
  "deliverable event \<Longrightarrow>
     decode_event (Some (event_payload route event)) = Inr (Inr (lease_id_bytes (pr_lease_id route), pr_generation route, event))"
  by (cases event)
    (auto simp: decode_event_def deliverable_def state_event_def peer_state_event_def map_candidate_event_def
      map_reliable_event_def map_fast_event_def privileged_peer_state_of_def)

lemma valid_version_event: "valid_version (pbsf_protocol_version (event_frame route n event))"
  by (simp add: valid_version_def event_frame_def limits checked_sub_def)

lemma wire_try_event_frame:
  assumes "\<not> pw_failed w" and "renew_if_due ops w = (w1, Inr ())"
    and "brp_try_event ops (pw_rpc w1) = (rpc, Inr (Some (event_frame route n event)))"
    and "n \<noteq> 0" "pr_generation route \<noteq> 0" "length (lease_id_bytes (pr_lease_id route)) = 16" "deliverable event"
  shows "wire_try_event ops w = (w1\<lparr>pw_rpc := rpc\<rparr>,
      Inr (Some \<lparr>brs_route = route, brs_sequence = n, brs_value = event\<rparr>))"
proof -
  have "pbsf_payload (event_frame route n event) = Some (event_payload route event)"
    "pbsf_sequence (event_frame route n event) = n" by (simp_all add: event_frame_def)
  moreover have "proxy_route_new (LeaseId (lease_id_bytes (pr_lease_id route))) (pr_generation route) = route"
    by (simp add: proxy_route_new_def)
  ultimately show ?thesis
    using assms by (simp add: wire_try_event_def valid_version_event decode_event_payload client_route_def)
qed

section \<open>Concrete wires\<close>

definition demo_wire :: "'r \<Rightarrow> 'r protobuf_bridge_wire" where
  "demo_wire rpc = \<lparr>pw_rpc = rpc, pw_options = \<lparr>bpo_ice_servers = []\<rparr>, pw_controller_display_name = ''desk'',
     pw_route = Some demo_proxy_route, pw_next_frame_sequence = 3, pw_last_renewed_at_ms = 0,
     pw_clock = (\<lambda>_. 100), pw_readings = 1, pw_failed = False\<rparr>"

text \<open>The RPC of the proxy: polls are those of the framed RPC, calls are not looked at here.\<close>

definition polling_rpc ::
  "('r \<Rightarrow> privileged_bridge_client_frame \<Rightarrow> 'r \<times> (proxy_error + privileged_bridge_server_frame))
    \<Rightarrow> ('r \<Rightarrow> 'r \<times> (proxy_error + privileged_bridge_server_frame option)) \<Rightarrow> ('r \<Rightarrow> 'r) \<Rightarrow> 'r bridge_rpc_ops" where
  "polling_rpc call poll close_rpc = \<lparr>brp_call = call, brp_try_event = poll, brp_fail_closed = close_rpc\<rparr>"

definition demo_shared :: "'w \<Rightarrow> 'w proxy_shared" where
  "demo_shared w = \<lparr>px_route = demo_proxy_route, px_next_request_sequence = 2, px_last_event_sequence = 0,
     px_wire = w, px_failed = False, px_closed = False\<rparr>"

lemma demo_wire_renew: "renew_if_due ops (demo_wire rpc) = ((demo_wire rpc)\<lparr>pw_readings := 2\<rparr>, Inr ())"
  by (subst renew_not_due) (simp_all add: demo_wire_def saturating_sub_def limits)

lemma demo_route_facts:
  "pr_generation demo_proxy_route \<noteq> 0" "length (lease_id_bytes (pr_lease_id demo_proxy_route)) = 16"
  by (simp_all add: demo_proxy_route_def proxy_route_new_def demo_lease_id_def)

section \<open>Pointer events during a call\<close>

text \<open>What a transport hands out, frame by frame, until a given state of it.\<close>

primrec delivers ::
  "'x bridge_transport_ops \<Rightarrow> bridge_codec \<Rightarrow> 'x \<Rightarrow> privileged_bridge_server_frame list \<Rightarrow> 'x \<Rightarrow> bool" where
  "delivers ops c x [] y \<longleftrightarrow> x = y"
| "delivers ops c x (frame # frames) y \<longleftrightarrow>
     (\<exists>x' bs. bt_receive ops x = (x', Inr bs) \<and> rpc_decode c bs = Inr frame \<and> delivers ops c x' frames y)"

definition pointer_frame :: "privileged_bridge_server_frame \<Rightarrow> bool" where
  "pointer_frame frame \<longleftrightarrow> (\<exists>p. pbsf_payload frame = Some p \<and> is_fast_event p)"

text \<open>While a call waits, every pointer event takes the place of the one before it.\<close>

lemma call_loop_pointers:
  assumes "delivers ops c (fr_transport f) (events @ [response]) y" "\<forall>e \<in> set events. pointer_frame e"
    and "\<not> eq_failed (fr_events f)" "\<not> is_event response" "pbsf_payload response \<noteq> None"
    and "pbsf_request_id response = pbcf_request_id q" "pbsf_sequence response = pbcf_sequence q"
  shows "call_loop ops c f q = Some (f\<lparr>fr_transport := y, fr_events := (fr_events f)\<lparr>eq_fast :=
      (if events = [] then eq_fast (fr_events f) else Some (last events))\<rparr>\<rparr>, Inr response)"
  using assms(1-3)
proof (induction events arbitrary: f)
  case Nil
  then obtain bs where "bt_receive ops (fr_transport f) = (y, Inr bs)" "rpc_decode c bs = Inr response" by auto
  then have "call_turn ops c f q = Inr (f\<lparr>fr_transport := y\<rparr>, Inr response)"
    using assms(4-7) by (auto simp: call_turn_def enqueue_event_def is_event_def)
  then show ?case by (subst call_loop.simps) simp
next
  case (Cons e events)
  then obtain x bs where r: "bt_receive ops (fr_transport f) = (x, Inr bs)" "rpc_decode c bs = Inr e"
    "delivers ops c x (events @ [response]) y" by auto
  let ?f = "f\<lparr>fr_transport := x, fr_events := (fr_events f)\<lparr>eq_fast := Some e\<rparr>\<rparr>"
  have "call_turn ops c f q = Inl ?f"
    using r Cons.prems(2,3) by (auto simp: call_turn_def enqueue_event_def pointer_frame_def push_fast_def)
  moreover have "call_loop ops c ?f q = Some (?f\<lparr>fr_transport := y, fr_events := (fr_events ?f)\<lparr>eq_fast :=
      (if events = [] then eq_fast (fr_events ?f) else Some (last events))\<rparr>\<rparr>, Inr response)"
    using r(3) Cons.prems by (intro Cons.IH) auto
  ultimately show ?case by (subst call_loop.simps) simp
qed

text \<open>Pointer events of one lease as the helper numbers them, after event \<open>n\<close>.\<close>

primrec pointer_frames :: "proxy_route \<Rightarrow> u64 \<Rightarrow> bytes list \<Rightarrow> privileged_bridge_server_frame list" where
  "pointer_frames route n [] = []"
| "pointer_frames route n (p # ps) = event_frame route (n + 1) (ProxyEvent_FastPointer p) # pointer_frames route (n + 1) ps"

lemma pointer_frames_fast: "\<forall>e \<in> set (pointer_frames route n ps). pointer_frame e"
  by (induction ps arbitrary: n) (auto simp: pointer_frame_def event_frame_def)

lemma last_pointer_frame:
  "ps \<noteq> [] \<Longrightarrow> last (pointer_frames route n ps) = event_frame route (n + word_of_nat (length ps)) (ProxyEvent_FastPointer (last ps))"
proof (induction ps arbitrary: n)
  case (Cons p ps)
  then show ?case using Cons.IH [of "n + 1"] by (cases ps) (simp_all add: ac_simps)
qed simp

section \<open>Properties\<close>

text \<open>
  C39. The event queue keeps the newest pointer event only, while the proxy insists on gapless numbers.  Whatever the transport and the codec:
  when pointer events numbered on from the last one delivered arrive while a call waits for its answer, the call
  succeeds, and then, unless a lease renewal is due first, the next poll of the proxy returns the event if it was
  a single one; if there were two or more it reports a stale response and closes the proxy, although helper, stream and broker did nothing wrong.
\<close>

theorem coalesced_pointer_closes_proxy:
  assumes "\<not> fr_failed f" "fr_events f = event_queue_new"
    and "bt_send ops (fr_transport f) (bcd_encode_client c q) = (x, Inr ())"
    and "delivers ops c x (pointer_frames route n ps @ [response]) y"
    and "\<not> is_event response" "pbsf_payload response \<noteq> None"
    and "pbsf_request_id response = pbcf_request_id q" "pbsf_sequence response = pbcf_sequence q"
    and "ps \<noteq> []" "[] \<notin> set ps" "unat n + length ps < 2 ^ 64"
    and "pr_generation route \<noteq> 0" "length (lease_id_bytes (pr_lease_id route)) = 16"
  shows "\<exists>f'. rpc_call ops c f q = Some (f', Inr response)
    \<and> (\<forall>s m r. px_route s = route \<and> px_last_event_sequence s = n \<and> \<not> px_failed s
         \<and> pw_rpc (px_wire s) = f' \<and> \<not> pw_failed (px_wire s)
         \<and> saturating_sub (pw_clock (px_wire s) (pw_readings (px_wire s))) (pw_last_renewed_at_ms (px_wire s))
             < RENEW_ATTEMPT_INTERVAL_MS
         \<and> proxy_try_recv (protobuf_wire_ops (polling_rpc call (rpc_try_event ops c) (rpc_fail_closed ops))) (Healthy s) = (m, r)
       \<longrightarrow> (if length ps = 1 then r = Inr (Some (ProxyEvent_FastPointer (hd ps)))
            else r = Inl ProxyError_StaleResponse \<and> px_failed (locked_value m)))"
proof -
  let ?k = "n + word_of_nat (length ps)" and ?e = "ProxyEvent_FastPointer (last ps)"
  let ?rops = "polling_rpc call (rpc_try_event ops c) (rpc_fail_closed ops)"
  define f' where "f' = f\<lparr>fr_transport := y, fr_events := event_queue_new\<lparr>eq_fast := Some (event_frame route ?k ?e)\<rparr>\<rparr>"
  have live: "\<not> eq_failed (event_queue_new :: privileged_bridge_server_frame event_queue)" by (simp add: event_queue_new_def)
  have "pointer_frames route n ps \<noteq> []" using assms(9) by (cases ps) simp_all
  then have call: "rpc_call ops c f q = Some (f', Inr response)"
    using call_loop_pointers [of ops c "f\<lparr>fr_transport := x\<rparr>" "pointer_frames route n ps" response y q] assms(1-9) live
    by (simp add: rpc_call_def pointer_frames_fast last_pointer_frame f'_def)
  have poll: "rpc_try_event ops c f' = (f'\<lparr>fr_events := event_queue_new\<rparr>, Inr (Some (event_frame route ?k ?e)))"
    using assms(1)
    by (simp add: rpc_try_event_def queued_event_def f'_def event_queue_new_def pop_critical_def pop_fast_def)
  have len: "unat (word_of_nat (length ps) :: u64) = length ps"
    using assms(11) by (simp add: unsigned_of_nat take_bit_eq_mod)
  then have k: "unat ?k = unat n + length ps" using assms(11) by (simp add: unat_add_lem [THEN iffD1])
  have k0: "?k \<noteq> 0" using k assms(9) by (auto simp: unat_eq_zero [symmetric] simp del: unat_eq_zero)
  have n1: "checked_add n 1 = Some (n + 1)" using assms(9,11) by (cases ps) (simp_all add: checked_add_def)
  have next_iff: "?k = n + 1 \<longleftrightarrow> length ps = 1"
    by (metis (no_types, opaque_lifting) add_left_cancel len of_nat_1 unat_1)
  have e: "deliverable ?e" using assms(9,10) by (auto simp: deliverable_def dest: last_in_set)
  show ?thesis
  proof (intro exI [of _ f'] conjI allI impI, rule call, elim conjE)
    fix s m r
    assume s: "px_route s = route" "px_last_event_sequence s = n" "\<not> px_failed s" "pw_rpc (px_wire s) = f'"
      "\<not> pw_failed (px_wire s)"
      "saturating_sub (pw_clock (px_wire s) (pw_readings (px_wire s))) (pw_last_renewed_at_ms (px_wire s)) < RENEW_ATTEMPT_INTERVAL_MS"
      and recv: "proxy_try_recv (protobuf_wire_ops ?rops) (Healthy s) = (m, r)"
    have "\<exists>w. wire_try_event ?rops (px_wire s) = (w, Inr (Some \<lparr>brs_route = route, brs_sequence = ?k, brs_value = ?e\<rparr>))"
      using wire_try_event_frame [OF s(5) renew_not_due [OF s(6)], of ?rops _ route ?k ?e] poll s(4) k0 assms(12,13) e
      by (simp add: polling_rpc_def)
    then obtain w where "wire_try_event ?rops (px_wire s) = (w, Inr (Some \<lparr>brs_route = route, brs_sequence = ?k, brs_value = ?e\<rparr>))"
      by blast
    then show "if length ps = 1 then r = Inr (Some (ProxyEvent_FastPointer (hd ps)))
        else r = Inl ProxyError_StaleResponse \<and> px_failed (locked_value m)"
      using recv s n1 next_iff assms(9)
      by (cases ps; cases "length ps = 1")
        (auto simp: proxy_try_recv_def with_shared_def shared_try_recv_def protobuf_wire_ops_def shared_fail_closed_def Let_def
          split: if_splits)
  qed
qed

theorem coalesced_pointer_closes_proxy_witness:
  "\<exists>m. proxy_try_recv (protobuf_wire_ops (polling_rpc (\<lambda>r _. (r, Inl ProxyError_Transport)) (rpc_try_event list_transport demo_codec)
       (rpc_fail_closed list_transport))) (Healthy (demo_shared (demo_wire demo_after_call))) = (m, Inl ProxyError_StaleResponse)
     \<and> px_failed (locked_value m)"
proof -
  let ?pops = "protobuf_wire_ops (polling_rpc (\<lambda>r _. (r, Inl ProxyError_Transport)) (rpc_try_event list_transport demo_codec)
       (rpc_fail_closed list_transport))"
  let ?f = "framed_bridge_rpc_new [[1], [2], [3]]" and ?resp = "accepted_response demo_rpc_request demo_proxy_route"
  have f: "\<not> fr_failed ?f" "fr_events ?f = event_queue_new" "bt_send list_transport (fr_transport ?f)
      (bcd_encode_client demo_codec demo_rpc_request) = ([[1], [2], [3]], Inr ())"
    by (simp_all add: framed_bridge_rpc_new_def list_transport_def)
  have d: "delivers list_transport demo_codec [[1], [2], [3]] (pointer_frames demo_proxy_route 0 [[1], [1]] @ [?resp]) []"
    using demo_frames_decode by (simp add: list_transport_def demo_fast_def)
  have resp: "pbsf_payload ?resp \<noteq> None" "pbsf_request_id ?resp = pbcf_request_id demo_rpc_request"
    "pbsf_sequence ?resp = pbcf_sequence demo_rpc_request"
    by (simp_all add: accepted_response_def helper_response_frame_def)
  have ps: "[[1], [1]] \<noteq> []" "[] \<notin> set [[1 :: u8], [1]]" "unat (0 :: u64) + length [[1 :: u8], [1]] < 2 ^ 64" by simp_all
  obtain m r where recv: "proxy_try_recv ?pops (Healthy (demo_shared (demo_wire demo_after_call))) = (m, r)" by fastforce
  let ?s = "demo_shared (demo_wire demo_after_call)"
  have s: "px_route ?s = demo_proxy_route \<and> px_last_event_sequence ?s = 0 \<and> \<not> px_failed ?s \<and> pw_rpc (px_wire ?s) = demo_after_call
      \<and> \<not> pw_failed (px_wire ?s) \<and> saturating_sub (pw_clock (px_wire ?s) (pw_readings (px_wire ?s))) (pw_last_renewed_at_ms (px_wire ?s))
        < RENEW_ATTEMPT_INTERVAL_MS"
    by (simp add: demo_shared_def demo_wire_def saturating_sub_def limits)
  from coalesced_pointer_closes_proxy [OF f d demo_events(2) resp ps demo_route_facts, of "\<lambda>r _. (r, Inl ProxyError_Transport)"]
  obtain f' where f': "rpc_call list_transport demo_codec ?f demo_rpc_request = Some (f', Inr ?resp)"
    and all: "\<forall>s m r. px_route s = demo_proxy_route \<and> px_last_event_sequence s = 0 \<and> \<not> px_failed s \<and> pw_rpc (px_wire s) = f'
      \<and> \<not> pw_failed (px_wire s) \<and> saturating_sub (pw_clock (px_wire s) (pw_readings (px_wire s))) (pw_last_renewed_at_ms (px_wire s))
        < RENEW_ATTEMPT_INTERVAL_MS \<and> proxy_try_recv ?pops (Healthy s) = (m, r)
      \<longrightarrow> (if length [[1 :: u8], [1]] = 1 then r = Inr (Some (ProxyEvent_FastPointer (hd [[1], [1]])))
            else r = Inl ProxyError_StaleResponse \<and> px_failed (locked_value m))" by blast
  have "f' = demo_after_call" using f' demo_call by simp
  with spec [OF spec [OF spec [OF all]], of ?s m r] s recv have "r = Inl ProxyError_StaleResponse \<and> px_failed (locked_value m)" by simp
  with recv show ?thesis by blast
qed

text \<open>
  C35. The proxy believes only answers to its own questions.  A result comes from the wire's answer to the request just sent, for the
  current route and under the number of that request, and the numbers go up one at a time; an event is passed on only for
  the current route and with the next number.  Anything else closes the proxy (unless a 64-bit
  counter is exhausted), and a closed proxy stays closed: nothing, not even a migration, reaches its wire again.
\<close>

theorem proxy_binds_or_closes:
  "(perform ops s call = (s', Inr v) \<longrightarrow>
      (\<exists>w response. call (px_wire s) \<lparr>brq_route = px_route s, brq_sequence = px_next_request_sequence s\<rparr> = (w, Inr response)
         \<and> brs_route response = px_route s \<and> brs_sequence response = px_next_request_sequence s \<and> brs_value response = v
         \<and> unat (px_next_request_sequence s') = Suc (unat (px_next_request_sequence s))))
   \<and> (perform ops s call = (s', Inl e) \<longrightarrow> px_failed s' \<or> px_next_request_sequence s = - 1)
   \<and> (shared_try_recv ops s = (t, Inr (Some event)) \<longrightarrow>
      (\<exists>w response. bw_try_event ops (px_wire s) = (w, Inr (Some response)) \<and> brs_route response = px_route s
         \<and> unat (brs_sequence response) = Suc (unat (px_last_event_sequence s)) \<and> brs_value response = event
         \<and> px_last_event_sequence t = brs_sequence response))
   \<and> (shared_try_recv ops s = (t, Inl e) \<longrightarrow> px_failed t \<or> px_last_event_sequence s = - 1)
   \<and> (px_failed s \<longrightarrow> (\<exists>u. fst (run_steps (proxy_step ops) (Healthy s) xs) = Healthy u \<and> px_failed u \<and> px_wire u = px_wire s
        \<and> perform ops u call = (u, Inl ProxyError_FailedClosed) \<and> shared_try_recv ops u = (u, Inl ProxyError_FailedClosed)))"
proof -
  have dead: "\<exists>u. fst (run_steps (proxy_step ops) (Healthy s) xs) = Healthy u \<and> px_failed u \<and> px_wire u = px_wire s
        \<and> perform ops u call = (u, Inl ProxyError_FailedClosed) \<and> shared_try_recv ops u = (u, Inl ProxyError_FailedClosed)"
    if "px_failed s"
    using proxy_end.run_inv [of "px_wire s" "Healthy s" ops xs] that by (auto simp: proxy_dead_def shared_try_recv_def)
  have ok: "\<exists>w response. call (px_wire s) \<lparr>brq_route = px_route s, brq_sequence = px_next_request_sequence s\<rparr> = (w, Inr response)
         \<and> brs_route response = px_route s \<and> brs_sequence response = px_next_request_sequence s \<and> brs_value response = v
         \<and> unat (px_next_request_sequence s') = Suc (unat (px_next_request_sequence s))" if "perform ops s call = (s', Inr v)"
    using perform_Inr [OF that] by metis
  have event: "\<exists>w response. bw_try_event ops (px_wire s) = (w, Inr (Some response)) \<and> brs_route response = px_route s
         \<and> unat (brs_sequence response) = Suc (unat (px_last_event_sequence s)) \<and> brs_value response = event
         \<and> px_last_event_sequence t = brs_sequence response" if "shared_try_recv ops s = (t, Inr (Some event))"
    using try_recv_event [OF that] by auto
  show ?thesis using dead ok event perform_Inl [of ops s call s' e] try_recv_error [of ops s t e] by blast
qed

theorem proxy_binds_or_closes_witness:
  "let wops = protobuf_wire_ops (polling_rpc (\<lambda>r _. (r, Inl ProxyError_Transport)) (\<lambda>r. (r, Inr None)) (\<lambda>r. r));
       s = demo_shared (demo_wire ())
   in px_failed (fst (perform wops s (bw_close wops)))"
proof -
  let ?wops = "protobuf_wire_ops (polling_rpc (\<lambda>r _. (r, Inl ProxyError_Transport)) (\<lambda>r. (r, Inr None)) (\<lambda>r. r))"
  let ?s = "demo_shared (demo_wire ())"
  obtain s' r where p: "perform ?wops ?s (bw_close ?wops) = (s', r)" by fastforce
  have "\<not> is_ok r"
    using p by (auto simp: perform_def demo_shared_def protobuf_wire_ops_def wire_close_def wire_accepted_def wire_call_def
        wire_exchange_def demo_wire_def polling_rpc_def wire_reject_def wire_fail_closed_def checked_add_def Let_def)
  then obtain e where "r = Inl e" by (cases r) auto
  then have "px_failed s'"
    using proxy_binds_or_closes [of ?wops ?s "bw_close ?wops" s' "()" e ?s ProxyEvent_Connected "[]"] p
    by (simp add: demo_shared_def)
  with p show ?thesis by (simp add: Let_def)
qed

text \<open>
  Native events survive the trip.  A frame the helper made of an event (other than an empty input envelope), for a lease
  identifier of 16 bytes, a non-zero generation and a non-zero number, is taken apart by the wire into exactly that event, route and number.
\<close>

theorem bridge_event_roundtrip:
  assumes "\<not> pw_failed w"
    and "saturating_sub (pw_clock w (pw_readings w)) (pw_last_renewed_at_ms w) < RENEW_ATTEMPT_INTERVAL_MS"
    and "brp_try_event ops (pw_rpc w) = (rpc, Inr (Some (event_frame route n event)))"
    and "n \<noteq> 0" "pr_generation route \<noteq> 0" "length (lease_id_bytes (pr_lease_id route)) = 16"
    and "event \<noteq> ProxyEvent_ReliableInput []" "event \<noteq> ProxyEvent_FastPointer []"
  shows "snd (wire_try_event ops w) = Inr (Some \<lparr>brs_route = route, brs_sequence = n, brs_value = event\<rparr>)"
  using wire_try_event_frame [OF assms(1) renew_not_due [OF assms(2)], of ops rpc route n event] assms(3-)
  by (simp add: deliverable_def)

theorem bridge_event_roundtrip_witness:
  "snd (wire_try_event (polling_rpc (\<lambda>r _. (r, Inl ProxyError_Transport)) (\<lambda>r. (r, Inr (Some (demo_fast 1)))) (\<lambda>r. r)) (demo_wire ()))
     = Inr (Some \<lparr>brs_route = demo_proxy_route, brs_sequence = 1, brs_value = ProxyEvent_FastPointer [1]\<rparr>)"
  by (rule bridge_event_roundtrip)
    (simp_all add: demo_wire_def saturating_sub_def limits polling_rpc_def demo_fast_def demo_route_facts)

text \<open>
  A healthy session is not cut off by renewing too early.  The wire asks for a renewal only when its clock shows at least the
  broker's interval plus the margin since the answer to the previous one.  Let the broker have renewed the lease before that answer, and
  let the two clocks drift apart by at most the margin in between: then a renewal that arrives before the expiry
  is granted.
\<close>

theorem renewal_never_too_soon:
  assumes "renew_if_due ops w = (w', Inr ())"
    and "saturating_sub (pw_clock w (pw_readings w)) (pw_last_renewed_at_ms w) \<ge> RENEW_ATTEMPT_INTERVAL_MS"
    and h2: "saturating_sub h2 (pw_last_renewed_at_ms w') \<ge> RENEW_ATTEMPT_INTERVAL_MS"
    and "lm_active m = Some l" and "now < le_expires_at_ms l" and "unat now + 15000 < 2 ^ 64"
    and drift: "unat h2 - unat (pw_clock w (Suc (pw_readings w))) \<le> unat now - unat (le_last_renewed_at_ms l) + unat RENEW_SAFETY_MARGIN_MS"
  shows "is_ok (snd (lease_renew m (le_id l) (le_generation l) now))"
proof -
  have after: "pw_last_renewed_at_ms w' = pw_clock w (Suc (pw_readings w))"
    using renew_restarts_interval [OF assms(1)] assms(2) by simp
  have "5250 \<le> unat h2 - unat (pw_clock w (Suc (pw_readings w)))"
    using h2 by (simp add: after word_le_nat_alt unat_saturating_sub limits)
  then have due: "unat (le_last_renewed_at_ms l) + 5000 \<le> unat now"
    using drift by (simp add: limits)
  then have r: "checked_add (le_last_renewed_at_ms l) RENEW_INTERVAL_MS = Some (le_last_renewed_at_ms l + RENEW_INTERVAL_MS)"
    using unat_lt2p [of now] by (simp add: checked_add_def limits)
  from due checked_add_Some [OF r] have "le_last_renewed_at_ms l + RENEW_INTERVAL_MS \<le> now"
    by (simp add: word_le_nat_alt limits)
  moreover have "checked_add now LEASE_DURATION_MS = Some (now + LEASE_DURATION_MS)"
    using assms(6) by (simp add: checked_add_def limits)
  ultimately show ?thesis
    using assms(4,5) r by (simp add: lease_renew_def validate_active_ref_def Let_def not_less not_le)
qed

theorem renewal_never_too_soon_witness:
  "let m = \<lparr>lm_broker_instance_id = [5], lm_host_generation = Some 3,
             lm_active = Some (demo_lease\<lparr>le_last_renewed_at_ms := 6005, le_expires_at_ms := 21005\<rparr>), lm_last_released = None\<rparr>
   in is_ok (snd (lease_renew m (LeaseId demo_lease_id) 3 11300))"
proof -
  let ?l = "demo_lease\<lparr>le_last_renewed_at_ms := 6005, le_expires_at_ms := 21005\<rparr>"
  let ?m = "\<lparr>lm_broker_instance_id = [5], lm_host_generation = Some 3, lm_active = Some ?l, lm_last_released = None\<rparr>"
  let ?ops = "polling_rpc (\<lambda>r q. (r, Inr (lease_response q demo_lease [1, 2]))) (\<lambda>r. (r, Inr None)) (\<lambda>r. r)"
  let ?w = "(demo_wire ())\<lparr>pw_clock := (\<lambda>k. if k = 1 then 6000 else 6010)\<rparr>"
  have renewed: "renew_if_due ?ops ?w
      = (?w\<lparr>pw_readings := 3, pw_next_frame_sequence := 4, pw_last_renewed_at_ms := 6010\<rparr>, Inr ())"
    by (simp add: renew_if_due_def clock_now_ms_def demo_wire_def saturating_sub_def limits wire_call_def wire_exchange_def
        polling_rpc_def checked_add_def lease_response_def broker_response_frame_def valid_version_def checked_sub_def
        client_route_def demo_lease_def demo_lease_id_def demo_proxy_route_def proxy_route_new_def Let_def)
  have "is_ok (snd (lease_renew ?m (le_id ?l) (le_generation ?l) 11300))"
    by (rule renewal_never_too_soon [OF renewed, of 11300])
      (simp_all add: demo_wire_def demo_lease_def saturating_sub_def limits)
  then show ?thesis by (simp add: demo_lease_def Let_def)
qed

end
