(* ===== verification/Bridge_Runtime.thy ===== *)
theory Bridge_Runtime
  imports Bridge_Rpc Bridge_Wire Ipc_Auth
begin

text \<open>
  The processes of the privileged bridge, \<^verbatim>\<open>crates/privileged-bridge/src/runtime.rs\<close>: how the broker admits a peer, registers the
  helper and serves the Host, and how the helper joins and runs.  Opening and accepting local streams is the operating system's;
  a stream is the record \<open>bridge_transport_ops\<close> over a state of its own.  A loop that polls until the shutdown flag is set is a
  recursion over a list: one element for every time the flag is read as not set, with what that turn draws from the
  clock and the random source; the end of the list is the turn that finds the flag set.
\<close>

section \<open>Configuration\<close>

definition REPLAY_CAPACITY :: nat where [limits]: "REPLAY_CAPACITY = 256"
definition CHALLENGE_REQUEST_ID :: string where "CHALLENGE_REQUEST_ID = ''challenge-1''"
definition STATUS_REQUEST_ID :: string where "STATUS_REQUEST_ID = ''status-2''"
definition HELPER_REGISTER_REQUEST_ID :: string where "HELPER_REGISTER_REQUEST_ID = ''register-helper-2''"

datatype runtime_bridge_error =
    RuntimeBridgeError_Configuration
  | RuntimeBridgeError_Transport
  | RuntimeBridgeError_Authentication
  | RuntimeBridgeError_InvalidMessage
  | RuntimeBridgeError_RouteUnavailable
  | RuntimeBridgeError_Broker
  | RuntimeBridgeError_Clock

record broker_runtime_config =
  brc_token :: bytes
  brc_instance_id :: bytes
  brc_host_executable_sha256 :: bytes
  brc_helper_executable_sha256 :: bytes
  brc_owner_os_session_id :: u64

definition broker_runtime_config_new ::
  "bytes \<Rightarrow> bytes \<Rightarrow> bytes \<Rightarrow> bytes \<Rightarrow> u64 \<Rightarrow> runtime_bridge_error + broker_runtime_config" where
  "broker_runtime_config_new token instance_id host_sha256 helper_sha256 owner_os_session_id =
     (if token = replicate 32 0 \<or> instance_id = replicate 16 0 \<or> host_sha256 = replicate 32 0
         \<or> helper_sha256 = replicate 32 0 \<or> owner_os_session_id = 0
      then Inl RuntimeBridgeError_Configuration
      else Inr \<lparr>brc_token = token, brc_instance_id = instance_id, brc_host_executable_sha256 = host_sha256,
                brc_helper_executable_sha256 = helper_sha256, brc_owner_os_session_id = owner_os_session_id\<rparr>)"

record helper_client_config =
  hcc_token :: bytes
  hcc_executable_sha256 :: bytes
  hcc_session :: privileged_session_descriptor

definition ready_status :: "privileged_session_descriptor \<Rightarrow> privileged_bridge_status_snapshot" where
  "ready_status session = \<lparr>pbss_state = privileged_bridge_state_code PrivilegedBridgeState_Ready,
     pbss_interactive_session = Some session, pbss_helper_connected = True,
     pbss_active_controller_display_name = [], pbss_error = None\<rparr>"

definition helper_client_config_new ::
  "bytes \<Rightarrow> bytes \<Rightarrow> privileged_session_descriptor \<Rightarrow> runtime_bridge_error + helper_client_config" where
  "helper_client_config_new token executable_sha256 session =
     (if token = replicate 32 0 \<or> executable_sha256 = replicate 32 0
         \<or> \<not> is_ok (validate_privileged_bridge_status_snapshot (ready_status session))
      then Inl RuntimeBridgeError_Configuration
      else Inr \<lparr>hcc_token = token, hcc_executable_sha256 = executable_sha256, hcc_session = session\<rparr>)"

record authenticated_peer =
  ap_role :: bridge_role
  ap_os_session_id :: u64

record 'x registered_helper =
  rgh_session :: privileged_session_descriptor
  rgh_transport :: 'x

text \<open>\<^verbatim>\<open>now_unix_ms\<close> on a reading of the system clock, in milliseconds since the epoch.\<close>

definition runtime_now_unix_ms :: "int \<Rightarrow> runtime_bridge_error + u64" where
  "runtime_now_unix_ms elapsed =
     (if 0 \<le> elapsed \<and> elapsed < 2 ^ 64 then Inr (word_of_int elapsed) else Inl RuntimeBridgeError_Clock)"

section \<open>Frames\<close>

definition runtime_server_frame ::
  "string \<Rightarrow> u64 \<Rightarrow> privileged_bridge_server_frame_payload \<Rightarrow> privileged_bridge_server_frame" where
  "runtime_server_frame request_id sequence payload =
     \<lparr>pbsf_protocol_version = Some client_version, pbsf_request_id = request_id, pbsf_sequence = sequence,
      pbsf_payload = Some payload\<rparr>"

definition runtime_client_frame ::
  "string \<Rightarrow> u64 \<Rightarrow> privileged_bridge_client_frame_payload \<Rightarrow> privileged_bridge_client_frame" where
  "runtime_client_frame request_id sequence payload =
     \<lparr>pbcf_protocol_version = Some client_version, pbcf_request_id = request_id, pbcf_sequence = sequence,
      pbcf_payload = Some payload\<rparr>"

definition status_frame :: "privileged_bridge_status_snapshot \<Rightarrow> privileged_bridge_server_frame" where
  "status_frame status = runtime_server_frame STATUS_REQUEST_ID 2 (PrivilegedBridgeServerFrame_Status status)"

definition unavailable_status_frame :: privileged_bridge_server_frame where
  "unavailable_status_frame = status_frame
     \<lparr>pbss_state = privileged_bridge_state_code PrivilegedBridgeState_UserSessionOnly, pbss_interactive_session = None,
      pbss_helper_connected = False, pbss_active_controller_display_name = [], pbss_error = None\<rparr>"

definition error_frame :: "privileged_bridge_client_frame \<Rightarrow> privileged_bridge_server_frame" where
  "error_frame request = runtime_server_frame (pbcf_request_id request) (pbcf_sequence request)
     (PrivilegedBridgeServerFrame_Error
       \<lparr>ue_code = error_code_code ErrorCode_InvalidRequest, ue_message_key = ''privileged_bridge_rejected'',
        ue_retryable = False, ue_request_id = pbcf_request_id request, ue_details = None\<rparr>)"

definition receive_client_frame ::
  "'x bridge_transport_ops \<Rightarrow> bridge_codec \<Rightarrow> 'x \<Rightarrow> 'x \<times> (runtime_bridge_error + privileged_bridge_client_frame)" where
  "receive_client_frame bt c x =
     sbind (smap_err (\<lambda>_. RuntimeBridgeError_Transport) (bt_receive bt x)) (\<lambda>x encoded.
       (x, map_err (\<lambda>_. RuntimeBridgeError_InvalidMessage)
             (decode_and_validate_privileged_bridge_client_frame (bcd_decode_client c) encoded)))"

definition receive_server_frame ::
  "'x bridge_transport_ops \<Rightarrow> bridge_codec \<Rightarrow> 'x \<Rightarrow> 'x \<times> (runtime_bridge_error + privileged_bridge_server_frame)" where
  "receive_server_frame bt c x =
     sbind (smap_err (\<lambda>_. RuntimeBridgeError_Transport) (bt_receive bt x)) (\<lambda>x encoded.
       (x, map_err (\<lambda>_. RuntimeBridgeError_InvalidMessage)
             (decode_and_validate_privileged_bridge_server_frame (bcd_decode_server c) encoded)))"

definition send_client_frame ::
  "'x bridge_transport_ops \<Rightarrow> bridge_codec \<Rightarrow> 'x \<Rightarrow> privileged_bridge_client_frame \<Rightarrow> 'x \<times> (runtime_bridge_error + unit)" where
  "send_client_frame bt c x frame = smap_err (\<lambda>_. RuntimeBridgeError_Transport) (bt_send bt x (bcd_encode_client c frame))"

definition send_server_frame ::
  "'x bridge_transport_ops \<Rightarrow> bridge_codec \<Rightarrow> 'x \<Rightarrow> privileged_bridge_server_frame \<Rightarrow> 'x \<times> (runtime_bridge_error + unit)" where
  "send_server_frame bt c x frame = smap_err (\<lambda>_. RuntimeBridgeError_Transport) (bt_send bt x (bcd_encode_server c frame))"

section \<open>Admission of a peer\<close>

definition role_of_authenticate :: "privileged_bridge_authenticate \<Rightarrow> runtime_bridge_error + bridge_role" where
  "role_of_authenticate a =
     (case privileged_bridge_role_of (pba_role a) of
        Some PrivilegedBridgeRole_HostAgent \<Rightarrow> Inr BridgeRole_HostAgent
      | Some PrivilegedBridgeRole_SessionHelper \<Rightarrow> Inr BridgeRole_SessionHelper
      | _ \<Rightarrow> Inl RuntimeBridgeError_Authentication)"

fun expected_hash :: "broker_runtime_config \<Rightarrow> bridge_role \<Rightarrow> bytes" where
  "expected_hash config BridgeRole_HostAgent = brc_host_executable_sha256 config"
| "expected_hash config BridgeRole_SessionHelper = brc_helper_executable_sha256 config"

text \<open>What the operating system says about the process at the other end, where it says anything.\<close>

definition peer_process_matches ::
  "transport_peer_identity option \<Rightarrow> privileged_bridge_authenticate \<Rightarrow> bytes \<Rightarrow> bool" where
  "peer_process_matches identity a hash =
     (case identity of
        None \<Rightarrow> True
      | Some peer \<Rightarrow> \<not> (tpi_process_id peer = 0
          \<or> (tpi_os_session_id peer \<noteq> 0 \<and> tpi_os_session_id peer \<noteq> pba_os_session_id a)
          \<or> tpi_executable_sha256 peer \<noteq> hash))"

definition peer_principal_matches ::
  "transport_peer_identity option \<Rightarrow> broker_runtime_config \<Rightarrow> bridge_role \<Rightarrow> bool" where
  "peer_principal_matches identity config role =
     (case Option.bind identity tpi_unix_uid of
        None \<Rightarrow> True
      | Some uid \<Rightarrow>
          unat (brc_owner_os_session_id config) < 2 ^ 32
          \<and> (let owner = (ucast (brc_owner_os_session_id config) :: u32)
             in case role of
                  BridgeRole_HostAgent \<Rightarrow> uid = owner
                | BridgeRole_SessionHelper \<Rightarrow> uid = 0 \<or> uid = owner))"

text \<open>The decision between the request of a peer and the answer it gets, with the proof for the answer.\<close>

definition admit_peer ::
  "mac_function \<Rightarrow> transport_peer_identity option \<Rightarrow> broker_runtime_config \<Rightarrow> bytes \<Rightarrow> nonce_replay_guard
    \<Rightarrow> privileged_bridge_client_frame \<Rightarrow> nonce_replay_guard \<times> (runtime_bridge_error + authenticated_peer \<times> bytes)" where
  "admit_peer hmac identity config server_nonce replay request =
     (case pbcf_payload request of
        Some (PrivilegedBridgeClientFrame_Authenticate a) \<Rightarrow>
          (case role_of_authenticate a of
             Inl e \<Rightarrow> (replay, Inl e)
           | Inr role \<Rightarrow>
               if pba_executable_sha256 a \<noteq> expected_hash config role
                  \<or> pba_os_session_id a \<noteq> brc_owner_os_session_id config
                  \<or> \<not> peer_process_matches identity a (expected_hash config role)
                  \<or> \<not> peer_principal_matches identity config role
               then (replay, Inl RuntimeBridgeError_Authentication)
               else (case bridge_authenticate hmac
                       (bridge_authenticator_new role (brc_token config) (brc_instance_id config) server_nonce)
                       (pba_client_nonce a) (pba_client_proof a) replay of
                     ((_, replay), Inl _) \<Rightarrow> (replay, Inl RuntimeBridgeError_Authentication)
                   | ((_, replay), Inr proof) \<Rightarrow>
                       (replay, Inr (\<lparr>ap_role = role, ap_os_session_id = pba_os_session_id a\<rparr>, proof))))
      | _ \<Rightarrow> (replay, Inl RuntimeBridgeError_Authentication))"

definition challenge_frame :: "broker_runtime_config \<Rightarrow> bytes \<Rightarrow> privileged_bridge_server_frame" where
  "challenge_frame config server_nonce = runtime_server_frame CHALLENGE_REQUEST_ID 1
     (PrivilegedBridgeServerFrame_Challenge
       \<lparr>pbc_broker_instance_id = brc_instance_id config, pbc_server_nonce = server_nonce\<rparr>)"

definition authenticated_frame :: "privileged_bridge_client_frame \<Rightarrow> bytes \<Rightarrow> privileged_bridge_server_frame" where
  "authenticated_frame request proof = runtime_server_frame (pbcf_request_id request) (pbcf_sequence request)
     (PrivilegedBridgeServerFrame_Authenticated \<lparr>pbad_server_proof = proof\<rparr>)"

text \<open>The nonce is the outcome of the random source, \<open>None\<close> when it fails.\<close>

definition authenticate_server ::
  "mac_function \<Rightarrow> 'x bridge_transport_ops \<Rightarrow> bridge_codec \<Rightarrow> broker_runtime_config \<Rightarrow> bytes option
    \<Rightarrow> 'x \<times> nonce_replay_guard \<Rightarrow> ('x \<times> nonce_replay_guard) \<times> (runtime_bridge_error + authenticated_peer)" where
  "authenticate_server hmac bt c config nonce st =
     (case (nonce, st) of
        (None, _) \<Rightarrow> (st, Inl RuntimeBridgeError_Authentication)
      | (Some server_nonce, (x, replay)) \<Rightarrow>
          (case sbind (send_server_frame bt c x (challenge_frame config server_nonce)) (\<lambda>x _. receive_client_frame bt c x) of
             (x, Inl e) \<Rightarrow> ((x, replay), Inl e)
           | (x, Inr request) \<Rightarrow>
               (case admit_peer hmac (bt_peer_identity bt x) config server_nonce replay request of
                  (replay, Inl e) \<Rightarrow> ((x, replay), Inl e)
                | (replay, Inr (peer, proof)) \<Rightarrow>
                    (case send_server_frame bt c x (authenticated_frame request proof) of
                       (x, Inl e) \<Rightarrow> ((x, replay), Inl e)
                     | (x, Inr _) \<Rightarrow> ((x, replay), Inr peer)))))"

definition registered_frame :: "privileged_bridge_client_frame \<Rightarrow> privileged_session_descriptor \<Rightarrow> privileged_bridge_server_frame" where
  "registered_frame request session = runtime_server_frame (pbcf_request_id request) (pbcf_sequence request)
     (PrivilegedBridgeServerFrame_HelperRegistered \<lparr>phr_session = Some session\<rparr>)"

definition register_helper ::
  "'x bridge_transport_ops \<Rightarrow> bridge_codec \<Rightarrow> 'x \<Rightarrow> u64 \<Rightarrow> 'x \<times> (runtime_bridge_error + 'x registered_helper)" where
  "register_helper bt c x os_session_id =
     sbind (receive_client_frame bt c x) (\<lambda>x request.
       case pbcf_payload request of
         Some (PrivilegedBridgeClientFrame_RegisterHelper register) \<Rightarrow>
           (case rphr_session register of
              None \<Rightarrow> (x, Inl RuntimeBridgeError_InvalidMessage)
            | Some session \<Rightarrow>
                if psd_os_session_id session \<noteq> os_session_id
                   \<or> \<not> is_ok (validate_privileged_bridge_status_snapshot (ready_status session))
                then (x, Inl RuntimeBridgeError_InvalidMessage)
                else sbind (send_server_frame bt c x (registered_frame request session)) (\<lambda>x _.
                  (x, Inr \<lparr>rgh_session = session, rgh_transport = x\<rparr>)))
       | _ \<Rightarrow> (x, Inl RuntimeBridgeError_InvalidMessage))"

section \<open>Serving the Host\<close>

text \<open>
  The helper as the broker sees it, \<^verbatim>\<open>TransportBrokerHelper\<close>.  A call that never returns has no result; what the model puts in its
  place is the argument \<open>hang\<close>, about which nothing is assumed.
\<close>

definition transport_helper_ops ::
  "('x framed_bridge_rpc \<Rightarrow> 'x framed_bridge_rpc \<times> (broker_protocol_error + privileged_bridge_server_frame))
    \<Rightarrow> 'x bridge_transport_ops \<Rightarrow> bridge_codec \<Rightarrow> 'x framed_bridge_rpc broker_helper_ops" where
  "transport_helper_ops hang bt c =
     \<lparr>bh_exchange = (\<lambda>rpc request. case rpc_call bt c rpc request of
        Some result \<Rightarrow> smap_err (\<lambda>_. BrokerProtocolError_Helper) result
      | None \<Rightarrow> hang rpc),
      bh_try_event = (\<lambda>rpc. smap_err (\<lambda>_. BrokerProtocolError_Helper) (rpc_try_event bt c rpc)),
      bh_fail_closed = rpc_fail_closed bt\<rparr>"

definition route_session_of :: "privileged_session_descriptor \<Rightarrow> runtime_bridge_error + route_session" where
  "route_session_of d =
     bind_res (case device_platform_of (psd_platform d) of
         Some DevicePlatform_Windows \<Rightarrow> Inr Platform_Windows
       | Some DevicePlatform_Macos \<Rightarrow> Inr Platform_Macos
       | _ \<Rightarrow> Inl RuntimeBridgeError_InvalidMessage) (\<lambda>platform.
     bind_res (case interactive_desktop_kind_of (psd_desktop_kind d) of
         Some InteractiveDesktopKind_Normal \<Rightarrow> Inr DesktopKind_Normal
       | Some InteractiveDesktopKind_LockedLogin \<Rightarrow> Inr DesktopKind_LockedLogin
       | Some InteractiveDesktopKind_Secure \<Rightarrow> Inr DesktopKind_Secure
       | _ \<Rightarrow> Inl RuntimeBridgeError_InvalidMessage) (\<lambda>desktop.
     Inr \<lparr>rs_platform = platform, rs_os_session_id = psd_os_session_id d, rs_desktop = desktop,
          rs_generation = psd_generation d\<rparr>))"

text \<open>What one turn of a loop draws: two readings of the clock and the random lease identifier.\<close>

record runtime_tick =
  rt_request_clock :: int
  rt_expire_clock :: int
  rt_next_lease_id :: "lease_error + lease_id"

definition is_acquire_request :: "privileged_bridge_client_frame \<Rightarrow> bool" where
  "is_acquire_request request = (case pbcf_payload request of
     Some (PrivilegedBridgeClientFrame_AcquireLease _) \<Rightarrow> True | _ \<Rightarrow> False)"

datatype awaited =
    AwaitedNothing
  | AwaitedFailure runtime_bridge_error
  | AwaitedRequest privileged_bridge_client_frame runtime_tick "runtime_tick list"

definition refuse_first_request ::
  "'x bridge_transport_ops \<Rightarrow> bridge_codec \<Rightarrow> 'x \<Rightarrow> privileged_bridge_client_frame \<Rightarrow> 'x \<times> awaited" where
  "refuse_first_request bt c host request =
     (case send_server_frame bt c host (error_frame request) of
        (host, Inl e) \<Rightarrow> (host, AwaitedFailure e)
      | (host, Inr _) \<Rightarrow> (bt_fail_closed bt host, AwaitedNothing))"

primrec await_request ::
  "'x bridge_transport_ops \<Rightarrow> bridge_codec \<Rightarrow> 'x \<Rightarrow> runtime_tick list \<Rightarrow> 'x \<times> awaited" where
  "await_request bt c host [] = (bt_fail_closed bt host, AwaitedNothing)"
| "await_request bt c host (tick # ticks) =
     (case bt_try_receive bt host of
        (host, Inl _) \<Rightarrow> (bt_fail_closed bt host, AwaitedNothing)
      | (host, Inr None) \<Rightarrow> await_request bt c host ticks
      | (host, Inr (Some encoded)) \<Rightarrow>
          (case decode_and_validate_privileged_bridge_client_frame (bcd_decode_client c) encoded of
             Inl _ \<Rightarrow> (host, AwaitedFailure RuntimeBridgeError_InvalidMessage)
           | Inr request \<Rightarrow>
               if is_acquire_request request then (host, AwaitedRequest request tick ticks)
               else refuse_first_request bt c host request))"

text \<open>One request to the session; the result says whether the connection goes on.\<close>

definition answer_request ::
  "'x bridge_transport_ops \<Rightarrow> bridge_codec \<Rightarrow> 'h broker_helper_ops \<Rightarrow> 'x \<times> 'h host_broker_session
    \<Rightarrow> privileged_bridge_client_frame \<Rightarrow> runtime_tick
    \<Rightarrow> ('x \<times> 'h host_broker_session) \<times> (runtime_bridge_error + bool)" where
  "answer_request bt c hops st request tick =
     (case (st, runtime_now_unix_ms (rt_request_clock tick)) of
        (_, Inl e) \<Rightarrow> (st, Inl e)
      | ((host, session), Inr now) \<Rightarrow>
          (case broker_handle hops session request now (rt_next_lease_id tick) of
             (session, Inr response) \<Rightarrow>
               (case send_server_frame bt c host response of
                  (host, r) \<Rightarrow> ((host, session), bind_res r (\<lambda>_. Inr True)))
           | (session, Inl _) \<Rightarrow>
               (case send_server_frame bt c host (error_frame request) of
                  (host, r) \<Rightarrow> ((host, session), bind_res r (\<lambda>_. Inr False)))))"

definition serve_received ::
  "'x bridge_transport_ops \<Rightarrow> bridge_codec \<Rightarrow> 'h broker_helper_ops \<Rightarrow> 'x \<times> 'h host_broker_session
    \<Rightarrow> runtime_tick \<Rightarrow> ('x \<times> 'h host_broker_session) \<times> (runtime_bridge_error + bool)" where
  "serve_received bt c hops st tick =
     (case st of (host, session) \<Rightarrow>
       (case bt_try_receive bt host of
          (host, Inr (Some encoded)) \<Rightarrow>
            (case decode_and_validate_privileged_bridge_client_frame (bcd_decode_client c) encoded of
               Inl _ \<Rightarrow> ((host, session), Inl RuntimeBridgeError_InvalidMessage)
             | Inr request \<Rightarrow> answer_request bt c hops (host, session) request tick)
        | (host, Inr None) \<Rightarrow> ((host, session), Inr True)
        | (host, Inl TransportError_Disconnected) \<Rightarrow> ((host, session), Inr False)
        | (host, Inl _) \<Rightarrow> ((host, session), Inl RuntimeBridgeError_Transport)))"

definition serve_expiry ::
  "'h broker_helper_ops \<Rightarrow> 'x \<times> 'h host_broker_session \<Rightarrow> runtime_tick
    \<Rightarrow> ('x \<times> 'h host_broker_session) \<times> (runtime_bridge_error + bool)" where
  "serve_expiry hops st tick =
     (case (st, runtime_now_unix_ms (rt_expire_clock tick)) of
        (_, Inl e) \<Rightarrow> (st, Inl e)
      | ((host, session), Inr now) \<Rightarrow>
          (case broker_expire hops session now of (session, expired) \<Rightarrow> ((host, session), Inr (\<not> expired))))"

definition serve_event ::
  "'x bridge_transport_ops \<Rightarrow> bridge_codec \<Rightarrow> 'h broker_helper_ops \<Rightarrow> 'x \<times> 'h host_broker_session
    \<Rightarrow> ('x \<times> 'h host_broker_session) \<times> (runtime_bridge_error + bool)" where
  "serve_event bt c hops st =
     (case st of (host, session) \<Rightarrow>
       (case broker_try_event hops session of
          (session, Inl _) \<Rightarrow> ((host, session), Inl RuntimeBridgeError_Broker)
        | (session, Inr None) \<Rightarrow> ((host, session), Inr True)
        | (session, Inr (Some event)) \<Rightarrow>
            (case send_server_frame bt c host event of
               (host, r) \<Rightarrow> ((host, session), bind_res r (\<lambda>_. Inr True)))))"

text \<open>Go on with \<open>k\<close> unless there was an error or the connection ends.\<close>

definition proceed :: "'s \<times> ('e + bool) \<Rightarrow> ('s \<Rightarrow> 's \<times> ('e + bool)) \<Rightarrow> 's \<times> ('e + bool)" where
  "proceed m k = sbind m (\<lambda>s go. if go then k s else (s, Inr False))"

definition serve_turn ::
  "'x bridge_transport_ops \<Rightarrow> bridge_codec \<Rightarrow> 'h broker_helper_ops \<Rightarrow> 'x \<times> 'h host_broker_session
    \<Rightarrow> runtime_tick \<Rightarrow> ('x \<times> 'h host_broker_session) \<times> (runtime_bridge_error + bool)" where
  "serve_turn bt c hops st tick =
     proceed (serve_received bt c hops st tick) (\<lambda>st.
     proceed (serve_expiry hops st tick) (\<lambda>st. serve_event bt c hops st))"

primrec serve_loop ::
  "'x bridge_transport_ops \<Rightarrow> bridge_codec \<Rightarrow> 'h broker_helper_ops \<Rightarrow> 'x \<times> 'h host_broker_session
    \<Rightarrow> runtime_tick list \<Rightarrow> ('x \<times> 'h host_broker_session) \<times> (runtime_bridge_error + bool)" where
  "serve_loop bt c hops st [] = (st, Inr True)"
| "serve_loop bt c hops st (tick # ticks) =
     proceed (serve_turn bt c hops st tick) (\<lambda>st. serve_loop bt c hops st ticks)"

text \<open>The end of a connection without an error: session and stream are closed.\<close>

definition serve_session ::
  "'x bridge_transport_ops \<Rightarrow> bridge_codec \<Rightarrow> 'h broker_helper_ops \<Rightarrow> 'x \<times> 'h host_broker_session
    \<Rightarrow> privileged_bridge_client_frame \<Rightarrow> runtime_tick \<Rightarrow> runtime_tick list
    \<Rightarrow> ('x \<times> 'h host_broker_session) \<times> (runtime_bridge_error + unit)" where
  "serve_session bt c hops st request tick ticks =
     sbind (proceed (answer_request bt c hops st request tick) (\<lambda>st. serve_loop bt c hops st ticks)) (\<lambda>(host, session) _.
       ((bt_fail_closed bt host, broker_fail_closed hops session), Inr ()))"

definition secure_attention_route :: "route_session \<Rightarrow> bool" where
  "secure_attention_route route \<longleftrightarrow>
     rs_platform route = Platform_Windows \<and> rs_desktop route \<in> {DesktopKind_LockedLogin, DesktopKind_Secure}"

definition open_broker :: "broker_runtime_config \<Rightarrow> route_session \<Rightarrow> runtime_bridge_error + broker_core" where
  "open_broker config route =
     (case broker_observe_route (broker_core_new (brc_instance_id config)) (SessionAvailable route) of
        (_, Inl _) \<Rightarrow> Inl RuntimeBridgeError_Broker
      | (broker, Inr _) \<Rightarrow>
          (case broker_connect_host broker (rs_generation route) of
             (_, Inl _) \<Rightarrow> Inl RuntimeBridgeError_Broker
           | (broker, Inr _) \<Rightarrow> Inr broker))"

text \<open>
  The result of a connection, with the stream of the Host and the session as they are when the function returns and
  drops them.
\<close>

record 'x host_run =
  hr_host :: 'x
  hr_session :: "'x framed_bridge_rpc host_broker_session option"
  hr_result :: "runtime_bridge_error + 'x registered_helper option"

definition start_host_session ::
  "('x framed_bridge_rpc \<Rightarrow> 'x framed_bridge_rpc \<times> (broker_protocol_error + privileged_bridge_server_frame))
    \<Rightarrow> 'x bridge_transport_ops \<Rightarrow> bridge_codec \<Rightarrow> 'x \<Rightarrow> 'x registered_helper \<Rightarrow> broker_runtime_config
    \<Rightarrow> privileged_bridge_client_frame \<Rightarrow> runtime_tick \<Rightarrow> runtime_tick list \<Rightarrow> 'x host_run" where
  "start_host_session hang bt c host registered config request tick ticks =
     (case bind_res (route_session_of (rgh_session registered)) (\<lambda>route.
             bind_res (open_broker config route) (\<lambda>broker. Inr (route, broker))) of
        Inl e \<Rightarrow> \<lparr>hr_host = host, hr_session = None, hr_result = Inl e\<rparr>
      | Inr (route, broker) \<Rightarrow>
          (let session = with_secure_attention (host_broker_session_new broker (framed_bridge_rpc_new (rgh_transport registered)))
                 (secure_attention_route route)
           in case serve_session bt c (transport_helper_ops hang bt c) (host, session) request tick ticks of
                ((host, session), r) \<Rightarrow>
                  \<lparr>hr_host = host, hr_session = Some session, hr_result = bind_res r (\<lambda>_. Inr None)\<rparr>))"

definition run_host_connection ::
  "('x framed_bridge_rpc \<Rightarrow> 'x framed_bridge_rpc \<times> (broker_protocol_error + privileged_bridge_server_frame))
    \<Rightarrow> 'x bridge_transport_ops \<Rightarrow> bridge_codec \<Rightarrow> 'x \<Rightarrow> 'x registered_helper \<Rightarrow> broker_runtime_config
    \<Rightarrow> runtime_tick list \<Rightarrow> 'x host_run" where
  "run_host_connection hang bt c host registered config ticks =
     (case send_server_frame bt c host (status_frame (ready_status (rgh_session registered))) of
        (host, Inl _) \<Rightarrow> \<lparr>hr_host = bt_fail_closed bt host, hr_session = None, hr_result = Inr (Some registered)\<rparr>
      | (host, Inr _) \<Rightarrow>
          (case await_request bt c host ticks of
             (host, AwaitedNothing) \<Rightarrow> \<lparr>hr_host = host, hr_session = None, hr_result = Inr (Some registered)\<rparr>
           | (host, AwaitedFailure e) \<Rightarrow> \<lparr>hr_host = host, hr_session = None, hr_result = Inl e\<rparr>
           | (host, AwaitedRequest request tick ticks) \<Rightarrow>
               start_host_session hang bt c host registered config request tick ticks))"

section \<open>The helper process\<close>

definition authenticate_helper_frame ::
  "mac_function \<Rightarrow> helper_client_config \<Rightarrow> bytes \<Rightarrow> bytes \<Rightarrow> bytes \<Rightarrow> privileged_bridge_client_frame" where
  "authenticate_helper_frame hmac config instance_id server_nonce client_nonce =
     runtime_client_frame ''authenticate-helper-1'' 1 (PrivilegedBridgeClientFrame_Authenticate
       \<lparr>pba_role = privileged_bridge_role_code PrivilegedBridgeRole_SessionHelper, pba_client_nonce = client_nonce,
        pba_client_proof = channel_client_proof hmac (hcc_token config) AuthChannel_PrivilegedHelper instance_id server_nonce client_nonce,
        pba_executable_sha256 = hcc_executable_sha256 config, pba_os_session_id = psd_os_session_id (hcc_session config)\<rparr>)"

definition register_helper_frame :: "helper_client_config \<Rightarrow> privileged_bridge_client_frame" where
  "register_helper_frame config = runtime_client_frame HELPER_REGISTER_REQUEST_ID 2
     (PrivilegedBridgeClientFrame_RegisterHelper \<lparr>rphr_session = Some (hcc_session config)\<rparr>)"

definition accept_challenge :: "privileged_bridge_server_frame \<Rightarrow> runtime_bridge_error + bytes \<times> bytes" where
  "accept_challenge frame =
     (case pbsf_payload frame of
        Some (PrivilegedBridgeServerFrame_Challenge challenge) \<Rightarrow>
          if length (pbc_broker_instance_id challenge) \<noteq> 16 \<or> length (pbc_server_nonce challenge) \<noteq> 32
          then Inl RuntimeBridgeError_Authentication
          else Inr (pbc_broker_instance_id challenge, pbc_server_nonce challenge)
      | _ \<Rightarrow> Inl RuntimeBridgeError_Authentication)"

definition helper_accepts_proof ::
  "mac_function \<Rightarrow> helper_client_config \<Rightarrow> bytes \<Rightarrow> bytes \<Rightarrow> bytes \<Rightarrow> privileged_bridge_client_frame
    \<Rightarrow> privileged_bridge_server_frame \<Rightarrow> bool" where
  "helper_accepts_proof hmac config instance_id server_nonce client_nonce request answer =
     (case pbsf_payload answer of
        Some (PrivilegedBridgeServerFrame_Authenticated value) \<Rightarrow>
          pbsf_request_id answer = pbcf_request_id request \<and> pbsf_sequence answer = pbcf_sequence request
          \<and> verify_channel_server_proof hmac (hcc_token config) AuthChannel_PrivilegedHelper instance_id server_nonce client_nonce
              (pbad_server_proof value)
      | _ \<Rightarrow> False)"

definition helper_accepts_registration :: "privileged_bridge_client_frame \<Rightarrow> privileged_bridge_server_frame \<Rightarrow> bool" where
  "helper_accepts_registration request answer \<longleftrightarrow>
     pbsf_request_id answer = pbcf_request_id request \<and> pbsf_sequence answer = pbcf_sequence request
     \<and> (case pbsf_payload answer of Some (PrivilegedBridgeServerFrame_HelperRegistered _) \<Rightarrow> True | _ \<Rightarrow> False)"

definition authenticate_helper ::
  "mac_function \<Rightarrow> 'x bridge_transport_ops \<Rightarrow> bridge_codec \<Rightarrow> helper_client_config \<Rightarrow> bytes option \<Rightarrow> 'x
    \<Rightarrow> 'x \<times> (runtime_bridge_error + unit)" where
  "authenticate_helper hmac bt c config nonce x =
     sbind (receive_server_frame bt c x) (\<lambda>x challenge.
     case bind_res (accept_challenge challenge) (\<lambda>(instance_id, server_nonce).
            bind_res (ok_or RuntimeBridgeError_Authentication nonce) (\<lambda>client_nonce. Inr (instance_id, server_nonce, client_nonce))) of
       Inl e \<Rightarrow> (x, Inl e)
     | Inr (instance_id, server_nonce, client_nonce) \<Rightarrow>
         (let request = authenticate_helper_frame hmac config instance_id server_nonce client_nonce in
          sbind (send_client_frame bt c x request) (\<lambda>x _.
          sbind (receive_server_frame bt c x) (\<lambda>x authenticated.
            if \<not> helper_accepts_proof hmac config instance_id server_nonce client_nonce request authenticated
            then (x, Inl RuntimeBridgeError_Authentication)
            else sbind (send_client_frame bt c x (register_helper_frame config)) (\<lambda>x _.
                 sbind (receive_server_frame bt c x) (\<lambda>x registered.
                   (x, ensure RuntimeBridgeError_Authentication
                         (helper_accepts_registration (register_helper_frame config) registered))))))))"

text \<open>
  The loop of the helper.  Each element stands for a turn; its flag is the second reading of the shutdown flag, taken
  only when the stream is disconnected.
\<close>

definition helper_answer ::
  "'x bridge_transport_ops \<Rightarrow> bridge_codec \<Rightarrow> 'b helper_backend_ops \<Rightarrow> 'x \<times> 'b helper_protocol \<Rightarrow> bytes
    \<Rightarrow> ('x \<times> 'b helper_protocol) \<times> (runtime_bridge_error + bool)" where
  "helper_answer bt c bops st encoded =
     (case (st, decode_and_validate_privileged_bridge_client_frame (bcd_decode_client c) encoded) of
        (_, Inl _) \<Rightarrow> (st, Inl RuntimeBridgeError_InvalidMessage)
      | ((x, h), Inr request) \<Rightarrow>
          (case helper_handle bops h request of
             (h, Inl _) \<Rightarrow> ((x, h), Inl RuntimeBridgeError_Broker)
           | (h, Inr response) \<Rightarrow>
               (case send_server_frame bt c x response of (x, r) \<Rightarrow> ((x, h), bind_res r (\<lambda>_. Inr True)))))"

definition helper_received ::
  "'x bridge_transport_ops \<Rightarrow> bridge_codec \<Rightarrow> 'b helper_backend_ops \<Rightarrow> 'x \<times> 'b helper_protocol \<Rightarrow> bool
    \<Rightarrow> ('x \<times> 'b helper_protocol) \<times> (runtime_bridge_error + bool)" where
  "helper_received bt c bops st shutdown =
     (case st of (x, h) \<Rightarrow>
       (case bt_try_receive bt x of
          (x, Inr (Some encoded)) \<Rightarrow> helper_answer bt c bops (x, h) encoded
        | (x, Inr None) \<Rightarrow> ((x, h), Inr True)
        | (x, Inl e) \<Rightarrow>
            if e = TransportError_Disconnected \<and> shutdown then ((x, h), Inr False)
            else ((x, h), Inl RuntimeBridgeError_Transport)))"

definition helper_event ::
  "'x bridge_transport_ops \<Rightarrow> bridge_codec \<Rightarrow> 'b helper_backend_ops \<Rightarrow> 'x \<times> 'b helper_protocol
    \<Rightarrow> ('x \<times> 'b helper_protocol) \<times> (runtime_bridge_error + bool)" where
  "helper_event bt c bops st =
     (case st of (x, h) \<Rightarrow>
       (case helper_try_event bops h of
          (h, Inl _) \<Rightarrow> ((x, h), Inl RuntimeBridgeError_Broker)
        | (h, Inr None) \<Rightarrow> ((x, h), Inr True)
        | (h, Inr (Some event)) \<Rightarrow>
            (case send_server_frame bt c x event of (x, r) \<Rightarrow> ((x, h), bind_res r (\<lambda>_. Inr True)))))"

primrec helper_loop ::
  "'x bridge_transport_ops \<Rightarrow> bridge_codec \<Rightarrow> 'b helper_backend_ops \<Rightarrow> 'x \<times> 'b helper_protocol \<Rightarrow> bool list
    \<Rightarrow> ('x \<times> 'b helper_protocol) \<times> (runtime_bridge_error + bool)" where
  "helper_loop bt c bops st [] = (st, Inr True)"
| "helper_loop bt c bops st (shutdown # turns) =
     proceed (proceed (helper_received bt c bops st shutdown) (\<lambda>st. helper_event bt c bops st))
       (\<lambda>st. helper_loop bt c bops st turns)"

text \<open>The protocol exists only after the handshake; it is returned as it is when the function drops it.\<close>

definition run_helper_transport ::
  "mac_function \<Rightarrow> 'x bridge_transport_ops \<Rightarrow> bridge_codec \<Rightarrow> 'b helper_backend_ops \<Rightarrow> helper_client_config \<Rightarrow> bytes option
    \<Rightarrow> 'x \<Rightarrow> 'b \<Rightarrow> bool list \<Rightarrow> ('x \<times> 'b helper_protocol option) \<times> (runtime_bridge_error + unit)" where
  "run_helper_transport hmac bt c bops config nonce x backend turns =
     (case authenticate_helper hmac bt c config nonce x of
        (x, Inl e) \<Rightarrow> ((x, None), Inl e)
      | (x, Inr _) \<Rightarrow>
          (case helper_loop bt c bops (x, helper_protocol_new backend) turns of
             ((x, h), r) \<Rightarrow> ((bt_fail_closed bt x, Some (helper_shutdown bops h)), bind_res r (\<lambda>_. Inr ()))))"

section \<open>The broker process\<close>

text \<open>
  What the file system says about the place of the socket, and the checks on it.  The parent is missing where the path has none, and
  its metadata where they cannot be read; \<^verbatim>\<open>connectable\<close> says whether somebody already
  listens there, \<^verbatim>\<open>removed\<close> whether removing a stale socket succeeds.
\<close>

record socket_metadata =
  smd_is_dir :: bool
  smd_is_socket :: bool
  smd_is_symlink :: bool
  smd_mode :: u32
  smd_uid :: u32

definition prepare_socket_path ::
  "socket_metadata option option \<Rightarrow> socket_metadata option \<Rightarrow> bool \<Rightarrow> bool \<Rightarrow> u64 \<Rightarrow> runtime_bridge_error + unit" where
  "prepare_socket_path parent path connectable removed owner_os_session_id =
     (case parent of
        None \<Rightarrow> Inl RuntimeBridgeError_Configuration
      | Some None \<Rightarrow> Inl RuntimeBridgeError_Transport
      | Some (Some pm) \<Rightarrow>
          if \<not> smd_is_dir pm \<or> smd_is_symlink pm \<or> and (smd_mode pm) 18 \<noteq> 0 then Inl RuntimeBridgeError_Transport
          else (case path of
                  None \<Rightarrow> Inr ()
                | Some m \<Rightarrow>
                    if \<not> smd_is_socket m \<or> smd_is_symlink m
                       \<or> (ucast (smd_uid m) \<noteq> owner_os_session_id \<and> smd_uid m \<noteq> 0)
                       \<or> (ucast (smd_uid pm) \<noteq> owner_os_session_id \<and> smd_uid pm \<noteq> 0)
                    then Inl RuntimeBridgeError_Transport
                    else if connectable then Inl RuntimeBridgeError_Transport
                    else if removed then Inr () else Inl RuntimeBridgeError_Transport))"

text \<open>
  The state of the accept loop.  \<open>bl_released\<close> is not in the code: it collects the streams the loop has let go of, as they were then.
\<close>

record 'x broker_loop =
  bl_replay :: nonce_replay_guard
  bl_helper :: "'x registered_helper option"
  bl_released :: "'x list"

definition broker_loop_new :: "runtime_bridge_error + 'x broker_loop" where
  "broker_loop_new = bind_res (map_err (\<lambda>_. RuntimeBridgeError_Configuration) (nonce_replay_guard_new REPLAY_CAPACITY))
     (\<lambda>replay. Inr \<lparr>bl_replay = replay, bl_helper = None, bl_released = []\<rparr>)"

definition release :: "'x broker_loop \<Rightarrow> 'x list \<Rightarrow> 'x broker_loop" where
  "release bl xs = bl\<lparr>bl_released := bl_released bl @ xs\<rparr>"

definition accept_helper ::
  "'x bridge_transport_ops \<Rightarrow> bridge_codec \<Rightarrow> 'x broker_loop \<Rightarrow> 'x \<Rightarrow> u64 \<Rightarrow> 'x broker_loop" where
  "accept_helper bt c bl x os_session_id =
     (case register_helper bt c x os_session_id of
        (x, Inl _) \<Rightarrow> release bl [x]
      | (_, Inr registered) \<Rightarrow>
          (case bl_helper bl of
             None \<Rightarrow> bl\<lparr>bl_helper := Some registered\<rparr>
           | Some previous \<Rightarrow>
               release (bl\<lparr>bl_helper := Some registered\<rparr>) [bt_fail_closed bt (rgh_transport previous)]))"

definition accept_host ::
  "('x framed_bridge_rpc \<Rightarrow> 'x framed_bridge_rpc \<times> (broker_protocol_error + privileged_bridge_server_frame))
    \<Rightarrow> 'x bridge_transport_ops \<Rightarrow> bridge_codec \<Rightarrow> broker_runtime_config \<Rightarrow> 'x broker_loop \<Rightarrow> 'x \<Rightarrow> runtime_tick list
    \<Rightarrow> 'x broker_loop" where
  "accept_host hang bt c config bl x ticks =
     (case bl_helper bl of
        None \<Rightarrow> release bl [bt_fail_closed bt (fst (send_server_frame bt c x unavailable_status_frame))]
      | Some registered \<Rightarrow>
          (let run = run_host_connection hang bt c x registered config ticks;
               dropped = (case hr_session run of
                   Some session \<Rightarrow> [fr_transport (hbs_helper session)]
                 | None \<Rightarrow> if is_ok (hr_result run) then [] else [rgh_transport registered])
           in release (bl\<lparr>bl_helper := (case hr_result run of Inr kept \<Rightarrow> kept | Inl _ \<Rightarrow> None)\<rparr>) (hr_host run # dropped)))"

text \<open>One accepted stream: the nonce for its challenge and the turns until it is over.\<close>

definition accept_peer ::
  "('x framed_bridge_rpc \<Rightarrow> 'x framed_bridge_rpc \<times> (broker_protocol_error + privileged_bridge_server_frame))
    \<Rightarrow> mac_function \<Rightarrow> 'x bridge_transport_ops \<Rightarrow> bridge_codec \<Rightarrow> broker_runtime_config \<Rightarrow> 'x broker_loop
    \<Rightarrow> 'x \<Rightarrow> bytes option \<Rightarrow> runtime_tick list \<Rightarrow> 'x broker_loop" where
  "accept_peer hang hmac bt c config bl x nonce ticks =
     (case authenticate_server hmac bt c config nonce (x, bl_replay bl) of
        ((x, replay), Inl _) \<Rightarrow> release (bl\<lparr>bl_replay := replay\<rparr>) [bt_fail_closed bt x]
      | ((x, replay), Inr peer) \<Rightarrow>
          (let bl = bl\<lparr>bl_replay := replay\<rparr>
           in case ap_role peer of
                BridgeRole_SessionHelper \<Rightarrow> accept_helper bt c bl x (ap_os_session_id peer)
              | BridgeRole_HostAgent \<Rightarrow> accept_host hang bt c config bl x ticks))"

text \<open>
  The loop itself: what the listener returns, turn by turn.  \<open>Refused\<close> is a stream that could not be set up, \<open>WouldBlock\<close> that nobody
  connects, \<open>ListenerFailed\<close> the error that ends the loop.
\<close>

datatype 'x accepted_stream =
    Accepted 'x "bytes option" "runtime_tick list"
  | Refused
  | WouldBlock
  | ListenerFailed

primrec broker_accept_loop ::
  "('x framed_bridge_rpc \<Rightarrow> 'x framed_bridge_rpc \<times> (broker_protocol_error + privileged_bridge_server_frame))
    \<Rightarrow> mac_function \<Rightarrow> 'x bridge_transport_ops \<Rightarrow> bridge_codec \<Rightarrow> broker_runtime_config \<Rightarrow> 'x broker_loop
    \<Rightarrow> 'x accepted_stream list \<Rightarrow> 'x broker_loop \<times> (runtime_bridge_error + unit)" where
  "broker_accept_loop hang hmac bt c config bl [] =
     (case bl_helper bl of
        None \<Rightarrow> (bl, Inr ())
      | Some registered \<Rightarrow> (release (bl\<lparr>bl_helper := None\<rparr>) [bt_fail_closed bt (rgh_transport registered)], Inr ()))"
| "broker_accept_loop hang hmac bt c config bl (a # as) =
     (case a of
        Accepted x nonce ticks \<Rightarrow>
          broker_accept_loop hang hmac bt c config (accept_peer hang hmac bt c config bl x nonce ticks) as
      | ListenerFailed \<Rightarrow> (bl, Inl RuntimeBridgeError_Transport)
      | _ \<Rightarrow> broker_accept_loop hang hmac bt c config bl as)"

text \<open>The steps of the operating system around the loop, each with whether it succeeds.\<close>

record unix_setup =
  us_absolute :: bool
  us_timeout_is_zero :: bool
  us_parent :: "socket_metadata option option"
  us_path :: "socket_metadata option"
  us_connectable :: bool
  us_stale_removed :: bool
  us_bound :: bool
  us_permissions_set :: bool
  us_root :: bool
  us_chowned :: bool
  us_nonblocking :: bool
  us_socket_removed :: bool

text \<open>On macOS the socket is given to the owner; elsewhere nothing happens.\<close>

definition assign_socket_owner :: "bool \<Rightarrow> unix_setup \<Rightarrow> u64 \<Rightarrow> runtime_bridge_error + unit" where
  "assign_socket_owner macos us owner_os_session_id =
     (if \<not> macos \<or> \<not> us_root us then Inr ()
      else if 2 ^ 32 \<le> unat owner_os_session_id then Inl RuntimeBridgeError_Configuration
      else ensure RuntimeBridgeError_Transport (us_chowned us))"

definition run_unix_broker ::
  "('x framed_bridge_rpc \<Rightarrow> 'x framed_bridge_rpc \<times> (broker_protocol_error + privileged_bridge_server_frame))
    \<Rightarrow> mac_function \<Rightarrow> 'x bridge_transport_ops \<Rightarrow> bridge_codec \<Rightarrow> bool \<Rightarrow> unix_setup \<Rightarrow> broker_runtime_config
    \<Rightarrow> 'x accepted_stream list \<Rightarrow> 'x broker_loop option \<times> (runtime_bridge_error + unit)" where
  "run_unix_broker hang hmac bt c macos us config accepts =
     (case bind_res (ensure RuntimeBridgeError_Configuration (us_absolute us \<and> \<not> us_timeout_is_zero us)) (\<lambda>_.
           bind_res (prepare_socket_path (us_parent us) (us_path us) (us_connectable us) (us_stale_removed us)
             (brc_owner_os_session_id config)) (\<lambda>_.
           bind_res (ensure RuntimeBridgeError_Transport (us_bound us)) (\<lambda>_.
           bind_res (ensure RuntimeBridgeError_Transport (us_permissions_set us)) (\<lambda>_.
           bind_res (assign_socket_owner macos us (brc_owner_os_session_id config)) (\<lambda>_.
           bind_res (ensure RuntimeBridgeError_Transport (us_nonblocking us)) (\<lambda>_. broker_loop_new)))))) of
        Inl e \<Rightarrow> (None, Inl e)
      | Inr bl \<Rightarrow>
          (case broker_accept_loop hang hmac bt c config bl accepts of
             (bl, Inl e) \<Rightarrow> (Some bl, Inl e)
           | (bl, Inr _) \<Rightarrow> (Some bl, ensure RuntimeBridgeError_Transport (us_socket_removed us))))"

definition run_windows_broker ::
  "('x framed_bridge_rpc \<Rightarrow> 'x framed_bridge_rpc \<times> (broker_protocol_error + privileged_bridge_server_frame))
    \<Rightarrow> mac_function \<Rightarrow> 'x bridge_transport_ops \<Rightarrow> bridge_codec \<Rightarrow> bool \<Rightarrow> broker_runtime_config
    \<Rightarrow> 'x accepted_stream list \<Rightarrow> 'x broker_loop option \<times> (runtime_bridge_error + unit)" where
  "run_windows_broker hang hmac bt c listening config accepts =
     (case bind_res (ensure RuntimeBridgeError_Transport listening) (\<lambda>_. broker_loop_new) of
        Inl e \<Rightarrow> (None, Inl e)
      | Inr bl \<Rightarrow> (case broker_accept_loop hang hmac bt c config bl accepts of (bl, r) \<Rightarrow> (Some bl, r)))"

section \<open>Admission\<close>

lemma ready_status_ok: "is_ok (validate_privileged_bridge_status_snapshot (ready_status d)) \<longleftrightarrow> descriptor_ok d"
proof -
  have "validate_privileged_bridge_status_snapshot (ready_status d) = Inr () \<longleftrightarrow> descriptor_ok d"
    using validate_descriptor_iff [of d "()"]
    by (cases "validate_privileged_session_descriptor d")
      (auto simp: validate_privileged_bridge_status_snapshot_def ready_status_def validate_utf8_length_def limits ensure_def
        privileged_bridge_state_of_def)
  then show ?thesis by (cases "validate_privileged_bridge_status_snapshot (ready_status d)") auto
qed

lemma admit_peer_Inr:
  assumes "admit_peer hmac identity config n replay request = (replay', Inr (peer, pf))"
  obtains a where "pbcf_payload request = Some (PrivilegedBridgeClientFrame_Authenticate a)"
    "role_of_authenticate a = Inr (ap_role peer)" "ap_os_session_id peer = brc_owner_os_session_id config"
    "pba_os_session_id a = brc_owner_os_session_id config" "pba_executable_sha256 a = expected_hash config (ap_role peer)"
    "peer_process_matches identity a (expected_hash config (ap_role peer))" "peer_principal_matches identity config (ap_role peer)"
    "length (pba_client_nonce a) = 32" "pba_client_nonce a \<noteq> n" "pba_client_nonce a \<notin> rg_used replay"
    "pba_client_proof a = channel_client_proof hmac (brc_token config) (role_auth_channel (ap_role peer)) (brc_instance_id config) n
       (pba_client_nonce a)"
    "pf = channel_server_proof hmac (brc_token config) (role_auth_channel (ap_role peer)) (brc_instance_id config) n
       (pba_client_nonce a)"
    "replay' = fst (nonce_claim replay (pba_client_nonce a))"
proof -
  obtain a where a: "pbcf_payload request = Some (PrivilegedBridgeClientFrame_Authenticate a)"
    using assms by (auto simp: admit_peer_def split: option.splits privileged_bridge_client_frame_payload.splits)
  obtain role where role: "role_of_authenticate a = Inr role"
    using assms a by (cases "role_of_authenticate a") (auto simp: admit_peer_def)
  let ?auth = "bridge_authenticator_new role (brc_token config) (brc_instance_id config) n"
  obtain b g r where b: "bridge_authenticate hmac ?auth (pba_client_nonce a) (pba_client_proof a) replay = ((b, g), r)"
    by (metis prod.collapse)
  have r: "r = Inr pf" "replay' = g" "ap_role peer = role" "ap_os_session_id peer = pba_os_session_id a"
    and c: "pba_executable_sha256 a = expected_hash config role" "pba_os_session_id a = brc_owner_os_session_id config"
      "peer_process_matches identity a (expected_hash config role)" "peer_principal_matches identity config role"
    using assms a role b by (cases r; auto simp: admit_peer_def split: if_splits)+
  have q: "snd (bridge_authenticate hmac ?auth (pba_client_nonce a) (pba_client_proof a) replay) = Inr pf" using b r by simp
  show ?thesis
    using that [of a] a role r c q bridge_authenticate_guard [of hmac ?auth "pba_client_nonce a" "pba_client_proof a" replay] b
    unfolding bridge_authenticate_iff by (simp add: bridge_authenticator_new_def)
qed

lemma authenticate_server_Inr:
  assumes "authenticate_server hmac bt c config nonce (x, replay) = ((x', replay'), Inr peer)"
  obtains n x1 request x2 pf where "nonce = Some n"
    "sbind (send_server_frame bt c x (challenge_frame config n)) (\<lambda>x _. receive_client_frame bt c x) = (x1, Inr request)"
    "admit_peer hmac (bt_peer_identity bt x1) config n replay request = (replay', Inr (peer, pf))"
    "send_server_frame bt c x1 (authenticated_frame request pf) = (x', Inr ())"
proof -
  obtain n where n: "nonce = Some n" using assms by (cases nonce) (auto simp: authenticate_server_def)
  obtain x1 q where q: "sbind (send_server_frame bt c x (challenge_frame config n)) (\<lambda>x _. receive_client_frame bt c x) = (x1, q)"
    by fastforce
  obtain request where r: "q = Inr request" using assms n q by (cases q) (auto simp: authenticate_server_def)
  obtain g p where p: "admit_peer hmac (bt_peer_identity bt x1) config n replay request = (g, p)" by fastforce
  obtain pe pf where pp: "p = Inr (pe, pf)" using assms n q r p by (cases p) (auto simp: authenticate_server_def)
  obtain x2 z where z: "send_server_frame bt c x1 (authenticated_frame request pf) = (x2, z)" by fastforce
  have "z = Inr ()" "x2 = x'" "pe = peer" "g = replay'"
    using assms n q r p pp z by (cases z; auto simp: authenticate_server_def)+
  then show ?thesis using that n q r p pp z by blast
qed

section \<open>A pair of connected streams\<close>

text \<open>
  A stream as the list of frames that arrive on it and the list of frames sent.  Two programs on two such streams are connected when
  each reads what the other sent.
\<close>

definition pipe_ops :: "(bytes list \<times> bytes list) bridge_transport_ops" where
  "pipe_ops = \<lparr>bt_send = (\<lambda>(inbox, outbox) frame. ((inbox, outbox @ [frame]), Inr ())),
     bt_receive = (\<lambda>(inbox, outbox). case inbox of
        [] \<Rightarrow> (([], outbox), Inl TransportError_Disconnected) | frame # rest \<Rightarrow> ((rest, outbox), Inr frame)),
     bt_try_receive = (\<lambda>(inbox, outbox). case inbox of
        [] \<Rightarrow> (([], outbox), Inr None) | frame # rest \<Rightarrow> ((rest, outbox), Inr (Some frame))),
     bt_peer_identity = (\<lambda>_. None), bt_fail_closed = (\<lambda>(inbox, outbox). ([], outbox))\<rparr>"

text \<open>prost gives back what it encoded, and the encoding is not too long.\<close>

definition client_carried :: "bridge_codec \<Rightarrow> privileged_bridge_client_frame \<Rightarrow> bool" where
  "client_carried c f \<longleftrightarrow> bcd_decode_client c (bcd_encode_client c f) = Some f
     \<and> length (bcd_encode_client c f) \<le> MAX_PRIVILEGED_BRIDGE_FRAME_BYTES"

definition server_carried :: "bridge_codec \<Rightarrow> privileged_bridge_server_frame \<Rightarrow> bool" where
  "server_carried c f \<longleftrightarrow> bcd_decode_server c (bcd_encode_server c f) = Some f
     \<and> length (bcd_encode_server c f) \<le> MAX_PRIVILEGED_BRIDGE_FRAME_BYTES"

lemma pipe_send [simp]:
  "send_client_frame pipe_ops c (i, out) f = ((i, out @ [bcd_encode_client c f]), Inr ())"
  "send_server_frame pipe_ops c (i, out) g = ((i, out @ [bcd_encode_server c g]), Inr ())"
  by (simp_all add: send_client_frame_def send_server_frame_def pipe_ops_def)

lemma pipe_identity [simp]: "bt_peer_identity pipe_ops x = None"
  by (simp add: pipe_ops_def)

lemma frame_header_ok:
  "length request_id \<le> 64 \<Longrightarrow> sequence \<noteq> 0 \<Longrightarrow>
     validate_privileged_bridge_frame_header (Some client_version) request_id sequence = Inr ()"
  by (simp add: validate_privileged_bridge_frame_header_def validate_protocol_version_def validate_utf8_length_def client_version_def
      checked_sub_def ensure_def limits)

lemma pipe_receive_client:
  assumes "client_carried c (runtime_client_frame i n p)" "length i \<le> 64" "n \<noteq> 0"
    and "validate_privileged_bridge_client_payload p = Inr ()"
  shows "receive_client_frame pipe_ops c (bcd_encode_client c (runtime_client_frame i n p) # rest, out)
    = ((rest, out), Inr (runtime_client_frame i n p))"
  using assms frame_header_ok [OF assms(2,3)]
  by (simp add: receive_client_frame_def pipe_ops_def decode_and_validate_privileged_bridge_client_frame_def
      validate_encoded_length_def client_carried_def ensure_def) (simp add: runtime_client_frame_def)

lemma pipe_receive_server:
  assumes "server_carried c (runtime_server_frame i n p)" "length i \<le> 64" "n \<noteq> 0"
    and "validate_privileged_bridge_server_payload p = Inr ()"
  shows "receive_server_frame pipe_ops c (bcd_encode_server c (runtime_server_frame i n p) # rest, out)
    = ((rest, out), Inr (runtime_server_frame i n p))"
  using assms frame_header_ok [OF assms(2,3)]
  by (simp add: receive_server_frame_def pipe_ops_def decode_and_validate_privileged_bridge_server_frame_def
      validate_encoded_length_def server_carried_def ensure_def) (simp add: runtime_server_frame_def)

section \<open>The helper joins\<close>

definition helper_proof_frame ::
  "mac_function \<Rightarrow> broker_runtime_config \<Rightarrow> helper_client_config \<Rightarrow> bytes \<Rightarrow> bytes \<Rightarrow> privileged_bridge_server_frame" where
  "helper_proof_frame hmac config helper server_nonce client_nonce =
     authenticated_frame (authenticate_helper_frame hmac helper (brc_instance_id config) server_nonce client_nonce)
       (channel_server_proof hmac (brc_token config) AuthChannel_PrivilegedHelper (brc_instance_id config) server_nonce client_nonce)"

definition helper_done_frame :: "helper_client_config \<Rightarrow> privileged_bridge_server_frame" where
  "helper_done_frame helper = registered_frame (register_helper_frame helper) (hcc_session helper)"

text \<open>Broker and helper belong to one installation.\<close>

definition installed_together :: "broker_runtime_config \<Rightarrow> helper_client_config \<Rightarrow> bool" where
  "installed_together config helper \<longleftrightarrow> hcc_token helper = brc_token config
     \<and> hcc_executable_sha256 helper = brc_helper_executable_sha256 config
     \<and> psd_os_session_id (hcc_session helper) = brc_owner_os_session_id config \<and> descriptor_ok (hcc_session helper)
     \<and> length (brc_instance_id config) = 16 \<and> length (brc_helper_executable_sha256 config) = 32"

lemma length_channel_proofs:
  assumes "\<forall>k m. length (hmac k m) = 32"
  shows "length (channel_client_proof hmac t ch i s n) = 32" "length (channel_server_proof hmac t ch i s n) = 32"
  using assms by (simp_all add: channel_client_proof_def channel_server_proof_def domain_proof_def proof_mac_def)

lemma nonce_claim_fresh: "n \<notin> rg_used g \<Longrightarrow> \<exists>g'. nonce_claim g n = (g', Inr ()) \<and> n \<in> rg_used g'"
  by (simp add: nonce_claim_def Let_def)

lemma helper_side_accepts:
  assumes "installed_together config helper" "\<forall>k m. length (hmac k m) = 32"
    and "length sn = 32" "length cn = 32"
    and "server_carried c (challenge_frame config sn)" "server_carried c (helper_proof_frame hmac config helper sn cn)"
      "server_carried c (helper_done_frame helper)"
  shows "authenticate_helper hmac pipe_ops c helper (Some cn)
      (map (bcd_encode_server c) [challenge_frame config sn, helper_proof_frame hmac config helper sn cn, helper_done_frame helper], [])
    = (([], map (bcd_encode_client c)
        [authenticate_helper_frame hmac helper (brc_instance_id config) sn cn, register_helper_frame helper]), Inr ())"
proof -
  have token: "hcc_token helper = brc_token config" "descriptor_ok (hcc_session helper)" "length (brc_instance_id config) = 16"
    using assms(1) by (simp_all add: installed_together_def)
  have ch: "receive_server_frame pipe_ops c (bcd_encode_server c (challenge_frame config sn) # rest, out)
      = ((rest, out), Inr (challenge_frame config sn))" for rest out
    using assms(3,5) token unfolding challenge_frame_def
    by (intro pipe_receive_server) (simp_all add: CHALLENGE_REQUEST_ID_def validate_length_def limits)
  have ad: "receive_server_frame pipe_ops c (bcd_encode_server c (helper_proof_frame hmac config helper sn cn) # rest, out)
      = ((rest, out), Inr (helper_proof_frame hmac config helper sn cn))" for rest out
    using assms(6) length_channel_proofs [OF assms(2)] unfolding helper_proof_frame_def authenticated_frame_def
    by (intro pipe_receive_server)
      (simp_all add: authenticate_helper_frame_def runtime_client_frame_def validate_length_def limits)
  have rd: "receive_server_frame pipe_ops c (bcd_encode_server c (helper_done_frame helper) # rest, out)
      = ((rest, out), Inr (helper_done_frame helper))" for rest out
    using assms(7) token(2) validate_descriptor_iff [of "hcc_session helper" "()"] unfolding helper_done_frame_def registered_frame_def
    by (intro pipe_receive_server) (simp_all add: register_helper_frame_def runtime_client_frame_def HELPER_REGISTER_REQUEST_ID_def)
  have "accept_challenge (challenge_frame config sn) = Inr (brc_instance_id config, sn)"
    using token assms(3) by (simp add: accept_challenge_def challenge_frame_def runtime_server_frame_def)
  moreover have "helper_accepts_proof hmac helper (brc_instance_id config) sn cn
      (authenticate_helper_frame hmac helper (brc_instance_id config) sn cn) (helper_proof_frame hmac config helper sn cn)"
    using token by (simp add: helper_accepts_proof_def helper_proof_frame_def authenticated_frame_def runtime_server_frame_def
        verify_channel_server_proof_def channel_server_proof_def domain_proof_def)
  moreover have "helper_accepts_registration (register_helper_frame helper) (helper_done_frame helper)"
    by (simp add: helper_accepts_registration_def helper_done_frame_def registered_frame_def runtime_server_frame_def)
  ultimately show ?thesis
    by (simp add: authenticate_helper_def ch ad rd ensure_def Let_def)
qed

lemma broker_side_admits:
  assumes "installed_together config helper" "\<forall>k m. length (hmac k m) = 32"
    and "length cn = 32" "cn \<noteq> sn" "cn \<notin> rg_used replay"
    and "client_carried c (authenticate_helper_frame hmac helper (brc_instance_id config) sn cn)"
  shows "\<exists>replay'. cn \<in> rg_used replay' \<and> authenticate_server hmac pipe_ops c config (Some sn)
      ((bcd_encode_client c (authenticate_helper_frame hmac helper (brc_instance_id config) sn cn) # rest, []), replay)
    = (((rest, map (bcd_encode_server c) [challenge_frame config sn, helper_proof_frame hmac config helper sn cn]), replay'),
       Inr \<lparr>ap_role = BridgeRole_SessionHelper, ap_os_session_id = brc_owner_os_session_id config\<rparr>)"
proof -
  let ?request = "authenticate_helper_frame hmac helper (brc_instance_id config) sn cn"
  have same: "hcc_token helper = brc_token config" "hcc_executable_sha256 helper = brc_helper_executable_sha256 config"
    "psd_os_session_id (hcc_session helper) = brc_owner_os_session_id config" "brc_owner_os_session_id config \<noteq> 0"
    "length (brc_helper_executable_sha256 config) = 32"
    using assms(1) by (auto simp: installed_together_def descriptor_ok_def)
  have rc: "receive_client_frame pipe_ops c (bcd_encode_client c ?request # rest, out) = ((rest, out), Inr ?request)" for out
    using assms(3,6) same length_channel_proofs [OF assms(2)] unfolding authenticate_helper_frame_def
    by (intro pipe_receive_client)
      (simp_all add: validate_length_def validate_nonzero_enum_def privileged_bridge_role_of_def ensure_def limits)
  have mac: "length (proof_mac hmac t d i s n) = 32" for t d i s n using assms(2) by (simp add: proof_mac_def)
  obtain g where g: "nonce_claim replay cn = (g, Inr ())" "cn \<in> rg_used g" using nonce_claim_fresh [OF assms(5)] by blast
  have "admit_peer hmac None config sn replay ?request = (g, Inr (\<lparr>ap_role = BridgeRole_SessionHelper,
      ap_os_session_id = brc_owner_os_session_id config\<rparr>,
      channel_server_proof hmac (brc_token config) AuthChannel_PrivilegedHelper (brc_instance_id config) sn cn))"
    using same assms(3,4) g mac
    by (simp add: admit_peer_def authenticate_helper_frame_def runtime_client_frame_def role_of_authenticate_def
        privileged_bridge_role_of_def peer_process_matches_def peer_principal_matches_def bridge_authenticate_def
        bridge_authenticator_new_def verify_channel_client_proof_def channel_client_proof_def domain_proof_def limits)
  then show ?thesis
    using g(2) by (auto simp: authenticate_server_def rc helper_proof_frame_def)
qed

lemma broker_side_registers:
  assumes "installed_together config helper" "client_carried c (register_helper_frame helper)"
  shows "register_helper pipe_ops c (bcd_encode_client c (register_helper_frame helper) # rest, out) (brc_owner_os_session_id config)
    = ((rest, out @ [bcd_encode_server c (helper_done_frame helper)]),
       Inr \<lparr>rgh_session = hcc_session helper, rgh_transport = (rest, out @ [bcd_encode_server c (helper_done_frame helper)])\<rparr>)"
proof -
  have ok: "descriptor_ok (hcc_session helper)" "psd_os_session_id (hcc_session helper) = brc_owner_os_session_id config"
    using assms(1) by (simp_all add: installed_together_def)
  have "receive_client_frame pipe_ops c (bcd_encode_client c (register_helper_frame helper) # rest, out)
      = ((rest, out), Inr (register_helper_frame helper))"
    using assms(2) ok(1) validate_descriptor_iff [of "hcc_session helper" "()"] unfolding register_helper_frame_def
    by (intro pipe_receive_client) (simp_all add: HELPER_REGISTER_REQUEST_ID_def)
  then show ?thesis
    using ok ready_status_ok [of "hcc_session helper"]
    by (simp add: register_helper_def helper_done_frame_def) (simp add: register_helper_frame_def runtime_client_frame_def)
qed

section \<open>The runtime drives live sessions\<close>

definition live_run :: "'h broker_helper_ops \<Rightarrow> 'h host_broker_session \<Rightarrow> broker_op list \<Rightarrow> bool" where
  "live_run ops s xs \<longleftrightarrow> (\<forall>i < length xs. broker_live ops (fst (run_steps (broker_step ops) s (take i xs))))"

lemma live_run_Nil [simp]: "live_run ops s []"
  by (simp add: live_run_def)

lemma live_run_single [simp]: "live_run ops s [x] \<longleftrightarrow> broker_live ops s"
  by (simp add: live_run_def)

lemma live_run_append:
  assumes "live_run ops s xs" "live_run ops (fst (run_steps (broker_step ops) s xs)) ys"
  shows "live_run ops s (xs @ ys)"
proof (unfold live_run_def, intro allI impI)
  fix i assume i: "i < length (xs @ ys)"
  show "broker_live ops (fst (run_steps (broker_step ops) s (take i (xs @ ys))))"
  proof (cases "i < length xs")
    case True
    then show ?thesis using assms(1) by (simp add: live_run_def)
  next
    case False
    then have "i - length xs < length ys" using i by simp
    then show ?thesis using assms(2) False by (simp add: live_run_def fst_run_steps_append)
  qed
qed

text \<open>
  A step of the runtime is a run of the broker in which every operation meets a live session, and when the connection goes
  on the session is live.
\<close>

definition serves ::
  "'h broker_helper_ops \<Rightarrow> 'h host_broker_session \<Rightarrow> ('x \<times> 'h host_broker_session) \<times> (runtime_bridge_error + bool) \<Rightarrow> bool" where
  "serves ops s m \<longleftrightarrow> (\<exists>xs. live_run ops s xs \<and> snd (fst m) = fst (run_steps (broker_step ops) s xs))
     \<and> (snd m = Inr True \<longrightarrow> broker_live ops (snd (fst m)))"

lemma serves_same: "broker_live ops s \<Longrightarrow> snd (fst m) = s \<Longrightarrow> serves ops s m"
  unfolding serves_def by (intro conjI exI [of _ "[]"]) simp_all

lemma serves_one:
  assumes "broker_live ops s" "snd (fst m) = fst (broker_step ops s x)" "snd m = Inr True \<Longrightarrow> broker_live ops (snd (fst m))"
  shows "serves ops s m"
  unfolding serves_def using assms by (intro conjI exI [of _ "[x]"]) (auto simp: split_def Let_def)

lemma serves_proceed:
  assumes "serves ops s m" "\<And>st. broker_live ops (snd st) \<Longrightarrow> serves ops (snd st) (k st)"
  shows "serves ops s (proceed m k)"
proof -
  obtain st r where m: "m = (st, r)" by fastforce
  obtain xs where xs: "live_run ops s xs" "snd st = fst (run_steps (broker_step ops) s xs)"
    using assms(1) m by (auto simp: serves_def)
  show ?thesis
  proof (cases "r = Inr True")
    case True
    then have live: "broker_live ops (snd st)" using assms(1) m by (simp add: serves_def)
    then obtain ys where ys: "live_run ops (snd st) ys" "snd (fst (k st)) = fst (run_steps (broker_step ops) (snd st) ys)"
      and l: "snd (k st) = Inr True \<longrightarrow> broker_live ops (snd (fst (k st)))"
      using assms(2) [OF live] by (auto simp: serves_def)
    have "live_run ops s (xs @ ys)" "snd (fst (k st)) = fst (run_steps (broker_step ops) s (xs @ ys))"
      using live_run_append [OF xs(1)] ys xs(2) by (simp_all add: fst_run_steps_append)
    then show ?thesis using True m l by (auto simp: serves_def proceed_def)
  next
    case False
    then have "fst (proceed m k) = st" "snd (proceed m k) \<noteq> Inr True"
      using m by (cases r; simp add: proceed_def)+
    then show ?thesis using xs by (auto simp: serves_def)
  qed
qed

lemma answer_request_serves:
  assumes "broker_live ops s"
  shows "serves ops s (answer_request bt c ops (host, s) request tick)"
proof (cases "runtime_now_unix_ms (rt_request_clock tick)")
  case (Inl e)
  then show ?thesis using assms by (intro serves_same) (simp_all add: answer_request_def)
next
  case (Inr now)
  obtain s' r where h: "broker_handle ops s request now (rt_next_lease_id tick) = (s', r)" by fastforce
  show ?thesis
  proof (rule serves_one [OF assms, of _ "BrokerHandle request now (rt_next_lease_id tick)"])
    show "snd (fst (answer_request bt c ops (host, s) request tick)) = fst (broker_step ops s (BrokerHandle request now (rt_next_lease_id tick)))"
      using Inr h by (cases r) (auto simp: answer_request_def split: prod.splits)
    show "broker_live ops (snd (fst (answer_request bt c ops (host, s) request tick)))"
      if "snd (answer_request bt c ops (host, s) request tick) = Inr True"
      using that Inr h live_handle [OF assms]
      by (cases r) (auto simp: answer_request_def bind_res_Inr split: prod.splits)
  qed
qed

lemma serve_received_serves: "broker_live ops s \<Longrightarrow> serves ops s (serve_received bt c ops (host, s) tick)"
  by (auto simp: serve_received_def intro: serves_same answer_request_serves
      split: prod.split sum.split option.split transport_error.split)

lemma serve_expiry_serves:
  assumes "broker_live ops s"
  shows "serves ops s (serve_expiry ops (host, s) tick)"
proof (cases "runtime_now_unix_ms (rt_expire_clock tick)")
  case (Inl e)
  then show ?thesis using assms by (intro serves_same) (simp_all add: serve_expiry_def)
next
  case (Inr now)
  obtain s' b where e: "broker_expire ops s now = (s', b)" by fastforce
  show ?thesis
    using Inr e live_expire [OF assms, of now] by (intro serves_one [OF assms, of _ "BrokerExpire now"]) (auto simp: serve_expiry_def)
qed

lemma serve_event_serves:
  assumes "broker_live ops s"
  shows "serves ops s (serve_event bt c ops (host, s))"
proof -
  obtain s' r where e: "broker_try_event ops s = (s', r)" by fastforce
  show ?thesis
    using e live_event [OF assms]
    by (intro serves_one [OF assms, of _ BrokerTryEvent])
      (cases r; auto simp: serve_event_def bind_res_Inr split: prod.splits option.splits)+
qed

lemma serve_loop_serves: "broker_live ops s \<Longrightarrow> serves ops s (serve_loop bt c ops (host, s) ticks)"
proof (induction ticks arbitrary: host s)
  case Nil
  then show ?case by (intro serves_same) simp_all
next
  case (Cons tick ticks)
  have turn: "serves ops s (serve_turn bt c ops (host, s) tick)"
    unfolding serve_turn_def
    by (intro serves_proceed serve_received_serves Cons.prems)
      (metis serve_expiry_serves serve_event_serves prod.collapse)+
  show ?case
    unfolding serve_loop.simps by (rule serves_proceed [OF turn]) (metis Cons.IH prod.collapse)
qed

text \<open>A whole session: it ends closed unless the function returns an error.\<close>

lemma serve_session_run:
  assumes "broker_live ops s" "serve_session bt c ops (host, s) request tick ticks = ((host', s'), r)"
  obtains xs where "live_run ops s xs"
    "s' = (if is_ok r then broker_fail_closed ops (fst (run_steps (broker_step ops) s xs)) else fst (run_steps (broker_step ops) s xs))"
    "is_ok r \<Longrightarrow> \<exists>x. host' = bt_fail_closed bt x"
proof -
  define m where "m = proceed (answer_request bt c ops (host, s) request tick) (\<lambda>st. serve_loop bt c ops st ticks)"
  have "serves ops s m"
    unfolding m_def by (rule serves_proceed [OF answer_request_serves [OF assms(1)]]) (metis serve_loop_serves prod.collapse)
  then obtain xs where xs: "live_run ops s xs" "snd (fst m) = fst (run_steps (broker_step ops) s xs)"
    by (auto simp: serves_def)
  have "sbind m (\<lambda>(host, session) _. ((bt_fail_closed bt host, broker_fail_closed ops session), Inr ())) = ((host', s'), r)"
    using assms(2) by (simp add: serve_session_def m_def)
  then have "s' = (if is_ok r then broker_fail_closed ops (snd (fst m)) else snd (fst m))"
    "is_ok r \<Longrightarrow> host' = bt_fail_closed bt (fst (fst m))"
    by (cases m; cases "snd m"; auto)+
  then show ?thesis using that xs by metis
qed

lemma open_broker_live:
  "open_broker config route = Inr broker \<Longrightarrow> broker_live ops (with_secure_attention (host_broker_session_new broker h) allowed)"
  by (auto simp: open_broker_def split: prod.splits sum.splits intro: live_start)

section \<open>The registered helper\<close>

text \<open>
  A desktop kind that a descriptor may carry but a route may not: \<^verbatim>\<open>UNAVAILABLE\<close>.
\<close>

lemma route_of_descriptor:
  assumes "descriptor_ok d" "psd_desktop_kind d \<noteq> interactive_desktop_kind_code InteractiveDesktopKind_Unavailable"
  obtains route where "route_session_of d = Inr route" "rs_os_session_id route = psd_os_session_id d"
    "rs_generation route = psd_generation d" "psd_os_session_id d \<noteq> 0" "psd_generation d \<noteq> 0"
proof -
  obtain k where k: "psd_desktop_kind d = interactive_desktop_kind_code k" "interactive_desktop_kind_code k \<noteq> 0"
    using assms by (auto simp: descriptor_ok_def)
  have "device_platform_of (psd_platform d) \<in> {Some DevicePlatform_Windows, Some DevicePlatform_Macos}"
    using assms unfolding descriptor_ok_def by (auto simp: device_platform_of_def)
  moreover have "interactive_desktop_kind_of (psd_desktop_kind d) = Some k" unfolding k(1) by (rule interactive_desktop_kind.of_to)
  ultimately have "\<exists>route. route_session_of d = Inr route \<and> rs_os_session_id route = psd_os_session_id d
      \<and> rs_generation route = psd_generation d"
    using k assms(2) by (cases k) (auto simp: route_session_of_def simp del: interactive_desktop_kind.of_eq_Some device_platform.of_eq_Some)
  then show ?thesis using that assms by (auto simp: descriptor_ok_def)
qed

lemma unavailable_has_no_route:
  "psd_desktop_kind d = interactive_desktop_kind_code InteractiveDesktopKind_Unavailable
     \<Longrightarrow> route_session_of d = Inl RuntimeBridgeError_InvalidMessage"
  by (simp add: route_session_of_def interactive_desktop_kind_of_def bind_res_def split: option.split device_platform.split)

lemma open_broker_total:
  assumes "rs_os_session_id route \<noteq> 0" "rs_generation route \<noteq> 0"
  shows "\<exists>broker. open_broker config route = Inr broker"
proof -
  have "\<exists>b actions. broker_observe_route (broker_core_new (brc_instance_id config)) (SessionAvailable route) = (b, Inr actions)
      \<and> bc_leases b = lease_manager_new (brc_instance_id config)"
    using assms by (auto simp: broker_observe_route_def broker_core_new_def session_state_machine_new_def apply_available_def
        freeze_actions_def Let_def word_less_nat_alt)
  then obtain b actions where b: "broker_observe_route (broker_core_new (brc_instance_id config)) (SessionAvailable route) = (b, Inr actions)"
    "bc_leases b = lease_manager_new (brc_instance_id config)" by blast
  obtain b2 r where r: "broker_connect_host b (rs_generation route) = (b2, r)" by fastforce
  have "is_ok r" using r b(2) assms(2) by (auto simp: broker_connect_host_def connect_host_def lease_manager_new_def Let_def)
  then show ?thesis using b r by (cases r) (auto simp: open_broker_def)
qed

definition helper_owned :: "broker_runtime_config \<Rightarrow> 'x broker_loop \<Rightarrow> bool" where
  "helper_owned config bl \<longleftrightarrow> (\<forall>r. bl_helper bl = Some r \<longrightarrow> descriptor_ok (rgh_session r)
     \<and> psd_os_session_id (rgh_session r) = brc_owner_os_session_id config)"

lemma release_fields [simp]: "bl_helper (release bl xs) = bl_helper bl" "bl_replay (release bl xs) = bl_replay bl"
  by (simp_all add: release_def)

lemma register_helper_Inr:
  assumes "register_helper bt c x i = (x', Inr r)"
  shows "descriptor_ok (rgh_session r) \<and> psd_os_session_id (rgh_session r) = i"
proof -
  obtain x1 q where q: "receive_client_frame bt c x = (x1, q)" by fastforce
  obtain request where q1: "q = Inr request" using assms q by (cases q) (simp_all add: register_helper_def)
  obtain v where v: "pbcf_payload request = Some (PrivilegedBridgeClientFrame_RegisterHelper v)"
    using assms q q1 by (cases "pbcf_payload request"; cases "the (pbcf_payload request)") (simp_all add: register_helper_def)
  obtain d where d: "rphr_session v = Some d" using assms q q1 v by (cases "rphr_session v") (simp_all add: register_helper_def)
  have ok: "psd_os_session_id d = i" "descriptor_ok d"
    using assms q q1 v d by (simp_all add: register_helper_def ready_status_ok split: if_splits)
  then have "sbind (send_server_frame bt c x1 (registered_frame request d)) (\<lambda>x _. (x, Inr \<lparr>rgh_session = d, rgh_transport = x\<rparr>)) = (x', Inr r)"
    using assms q q1 v d by (simp add: register_helper_def ready_status_ok)
  then have "rgh_session r = d" by (auto simp: sbind_Inr)
  then show ?thesis using ok by simp
qed

lemma run_host_keeps:
  "hr_result (run_host_connection hang bt c x r config ticks) = Inr (Some r') \<Longrightarrow> r' = r"
  by (auto simp: run_host_connection_def start_host_session_def Let_def bind_res_Inr
      split: prod.splits sum.splits awaited.splits)

lemma accept_peer_owned:
  assumes "helper_owned config bl"
  shows "helper_owned config (accept_peer hang hmac bt c config bl x nonce ticks)"
proof -
  obtain x' g r where a: "authenticate_server hmac bt c config nonce (x, bl_replay bl) = ((x', g), r)" by (metis prod.collapse)
  show ?thesis
  proof (cases r)
    case (Inl e)
    then show ?thesis using assms a by (simp add: accept_peer_def helper_owned_def)
  next
    case (Inr peer)
    have os: "ap_os_session_id peer = brc_owner_os_session_id config"
      using a Inr by (auto elim!: authenticate_server_Inr admit_peer_Inr)
    have owned: "helper_owned config (bl\<lparr>bl_replay := g\<rparr>)" using assms by (simp add: helper_owned_def)
    have hlp: "helper_owned config (accept_helper bt c b x' (brc_owner_os_session_id config))" if "helper_owned config b" for b
      using that register_helper_Inr [of bt c x' "brc_owner_os_session_id config"]
      by (auto simp: accept_helper_def helper_owned_def split: prod.splits sum.splits option.splits)
    have hst: "helper_owned config (accept_host hang bt c config b x' ticks)" if "helper_owned config b" for b
      using that run_host_keeps [of hang bt c x' _ config ticks]
      by (auto simp: accept_host_def helper_owned_def Let_def split: sum.splits option.splits)
    show ?thesis
      using a Inr hlp [OF owned] hst [OF owned] by (cases "ap_role peer") (simp_all add: accept_peer_def os)
  qed
qed

definition accept_step ::
  "('x framed_bridge_rpc \<Rightarrow> 'x framed_bridge_rpc \<times> (broker_protocol_error + privileged_bridge_server_frame))
    \<Rightarrow> mac_function \<Rightarrow> 'x bridge_transport_ops \<Rightarrow> bridge_codec \<Rightarrow> broker_runtime_config \<Rightarrow> 'x broker_loop
    \<Rightarrow> 'x \<times> bytes option \<times> runtime_tick list \<Rightarrow> 'x broker_loop \<times> unit" where
  "accept_step hang hmac bt c config bl a = (case a of (x, nonce, ticks) \<Rightarrow> (accept_peer hang hmac bt c config bl x nonce ticks, ()))"

interpretation broker_process: machine "accept_step hang hmac bt c config" "helper_owned config" for hang hmac bt c config
  by unfold_locales (auto simp: accept_step_def accept_peer_owned split: prod.split)

text \<open>Until the listener fails, the loop is a run of that machine.\<close>

lemma accept_loop_run:
  assumes "ListenerFailed \<notin> set as"
  obtains conns where "broker_accept_loop hang hmac bt c config bl as
    = broker_accept_loop hang hmac bt c config (fst (run_steps (accept_step hang hmac bt c config) bl conns)) []"
  using assms
proof (induction as arbitrary: bl thesis)
  case Nil
  show ?case by (rule Nil(1) [of "[]"]) simp
next
  case (Cons a as)
  show ?case
  proof (cases a)
    case (Accepted x nonce ticks)
    obtain conns where c: "broker_accept_loop hang hmac bt c config (accept_peer hang hmac bt c config bl x nonce ticks) as
        = broker_accept_loop hang hmac bt c config (fst (run_steps (accept_step hang hmac bt c config)
            (accept_peer hang hmac bt c config bl x nonce ticks) conns)) []"
      using Cons.IH Cons.prems(2) by (metis list.set_intros(2))
    show ?thesis
      by (rule Cons.prems(1) [of "(x, nonce, ticks) # conns"])
        (simp only: Accepted fst_run_steps_Cons broker_accept_loop.simps(2) accepted_stream.case c, simp add: accept_step_def)
  next
    case Refused
    then show ?thesis using Cons.IH [of bl] Cons.prems by auto
  next
    case WouldBlock
    then show ?thesis using Cons.IH [of bl] Cons.prems by auto
  next
    case ListenerFailed
    then show ?thesis using Cons.prems(2) by simp
  qed
qed

section \<open>An installation\<close>

definition demo_session_descriptor :: privileged_session_descriptor where
  "demo_session_descriptor = \<lparr>psd_platform = device_platform_code DevicePlatform_Windows, psd_os_session_id = 7,
     psd_desktop_kind = interactive_desktop_kind_code InteractiveDesktopKind_LockedLogin, psd_generation = 3\<rparr>"

definition demo_config :: broker_runtime_config where
  "demo_config = \<lparr>brc_token = replicate 32 1, brc_instance_id = replicate 16 2, brc_host_executable_sha256 = replicate 32 3,
     brc_helper_executable_sha256 = replicate 32 4, brc_owner_os_session_id = 7\<rparr>"

definition demo_helper_config :: helper_client_config where
  "demo_helper_config = \<lparr>hcc_token = replicate 32 1, hcc_executable_sha256 = replicate 32 4, hcc_session = demo_session_descriptor\<rparr>"

definition demo_mac :: mac_function where
  "demo_mac k m = take 32 (m @ replicate 32 0)"

definition demo_server_frames :: "privileged_bridge_server_frame list" where
  "demo_server_frames = [challenge_frame demo_config (replicate 32 5),
     helper_proof_frame demo_mac demo_config demo_helper_config (replicate 32 5) (replicate 32 6), helper_done_frame demo_helper_config]"

definition demo_client_frames :: "privileged_bridge_client_frame list" where
  "demo_client_frames = [authenticate_helper_frame demo_mac demo_helper_config (replicate 16 2) (replicate 32 5) (replicate 32 6),
     register_helper_frame demo_helper_config, demo_acquire_frame]"

text \<open>An encoding of the frames of the example by their number.\<close>

definition number_of :: "'a list \<Rightarrow> 'a \<Rightarrow> bytes" where
  "number_of fs f = [of_nat (length (takeWhile (\<lambda>g. g \<noteq> f) fs))]"

definition of_number :: "'a list \<Rightarrow> bytes \<Rightarrow> 'a option" where
  "of_number fs bs = (if bs \<noteq> [] \<and> unat (hd bs) < length fs then Some (fs ! unat (hd bs)) else None)"

definition numbered_codec :: "privileged_bridge_client_frame list \<Rightarrow> privileged_bridge_server_frame list \<Rightarrow> bridge_codec" where
  "numbered_codec cs ss = \<lparr>bcd_encode_client = number_of cs, bcd_decode_client = of_number cs,
     bcd_encode_server = number_of ss, bcd_decode_server = of_number ss\<rparr>"

definition demo_link :: bridge_codec where
  "demo_link = numbered_codec demo_client_frames demo_server_frames"

lemma numbered:
  assumes "f \<in> set fs" "length fs < 256"
  shows "of_number fs (number_of fs f) = Some f" "length (number_of fs f) = 1"
proof -
  let ?n = "length (takeWhile (\<lambda>g. g \<noteq> f) fs)"
  have n: "?n < length fs"
    using assms(1) by (induction fs) auto
  then have "fs ! ?n = f" using nth_length_takeWhile [of "\<lambda>g. g \<noteq> f" fs] by simp
  moreover have "unat (of_nat ?n :: u8) = ?n" using n assms(2) by (simp add: unat_of_nat)
  ultimately show "of_number fs (number_of fs f) = Some f" "length (number_of fs f) = 1"
    using n by (simp_all add: of_number_def number_of_def)
qed

lemma numbered_carried:
  "f \<in> set cs \<Longrightarrow> length cs < 256 \<Longrightarrow> client_carried (numbered_codec cs ss) f"
  "g \<in> set ss \<Longrightarrow> length ss < 256 \<Longrightarrow> server_carried (numbered_codec cs ss) g"
  by (simp_all add: numbered client_carried_def server_carried_def numbered_codec_def limits)

lemma demo_carried:
  "f \<in> set demo_client_frames \<Longrightarrow> client_carried demo_link f" "g \<in> set demo_server_frames \<Longrightarrow> server_carried demo_link g"
  unfolding demo_link_def by (erule numbered_carried, simp add: demo_client_frames_def demo_server_frames_def)+

lemma demo_session_descriptor_ok: "descriptor_ok demo_session_descriptor"
  by (simp add: descriptor_ok_def demo_session_descriptor_def image_iff) (metis interactive_desktop_kind_code.simps rangeI)

lemma demo_installed: "installed_together demo_config demo_helper_config"
  using demo_session_descriptor_ok by (simp add: installed_together_def demo_config_def demo_helper_config_def) (simp add: demo_session_descriptor_def)

lemma demo_mac_length: "\<forall>k m. length (demo_mac k m) = 32"
  by (auto simp: demo_mac_def min_def)

section \<open>Properties\<close>

text \<open>
  C11. Only the installed peers of the owner get past the broker.  When the broker accepts a stream, it had sent a challenge with a
  fresh nonce, and the answer proves knowledge of the installation token for that nonce, this broker and the claimed role; the
  executable's hash is the one installed for the role and the session is the owner's; whatever the operating system reports about the process agrees with it,
  down to the user; and the peer's nonce was not used before and cannot be used again while it is remembered.
\<close>

theorem peer_admission_verified:
  assumes "authenticate_server hmac bt c config nonce (x, replay) = ((x', replay'), Inr peer)"
  shows "\<exists>n x1 x2 request a. nonce = Some n
    \<and> bt_send bt x (bcd_encode_server c (challenge_frame config n)) = (x1, Inr ())
    \<and> receive_client_frame bt c x1 = (x2, Inr request)
    \<and> pbcf_payload request = Some (PrivilegedBridgeClientFrame_Authenticate a)
    \<and> pba_role a = privileged_bridge_role_code (case ap_role peer of
        BridgeRole_HostAgent \<Rightarrow> PrivilegedBridgeRole_HostAgent | BridgeRole_SessionHelper \<Rightarrow> PrivilegedBridgeRole_SessionHelper)
    \<and> pba_executable_sha256 a = expected_hash config (ap_role peer)
    \<and> pba_os_session_id a = brc_owner_os_session_id config \<and> ap_os_session_id peer = brc_owner_os_session_id config
    \<and> pba_client_proof a = channel_client_proof hmac (brc_token config) (role_auth_channel (ap_role peer)) (brc_instance_id config) n
        (pba_client_nonce a)
    \<and> pba_client_nonce a \<noteq> n \<and> pba_client_nonce a \<notin> rg_used replay \<and> pba_client_nonce a \<in> rg_used replay'
    \<and> (\<forall>identity. bt_peer_identity bt x2 = Some identity \<longrightarrow>
        tpi_process_id identity \<noteq> 0 \<and> tpi_executable_sha256 identity = expected_hash config (ap_role peer)
        \<and> (tpi_os_session_id identity = 0 \<or> tpi_os_session_id identity = brc_owner_os_session_id config)
        \<and> (\<forall>uid. tpi_unix_uid identity = Some uid \<longrightarrow> unat uid = unat (brc_owner_os_session_id config)
             \<or> ap_role peer = BridgeRole_SessionHelper \<and> uid = 0))"
proof -
  obtain n x2 request pf where n: "nonce = Some n"
    "sbind (send_server_frame bt c x (challenge_frame config n)) (\<lambda>x _. receive_client_frame bt c x) = (x2, Inr request)"
    "admit_peer hmac (bt_peer_identity bt x2) config n replay request = (replay', Inr (peer, pf))"
    by (rule authenticate_server_Inr [OF assms]) blast
  obtain x1 where x1: "bt_send bt x (bcd_encode_server c (challenge_frame config n)) = (x1, Inr ())"
    "receive_client_frame bt c x1 = (x2, Inr request)"
    using n(2) by (cases "bt_send bt x (bcd_encode_server c (challenge_frame config n))";
        cases "snd (bt_send bt x (bcd_encode_server c (challenge_frame config n)))") (auto simp: send_server_frame_def)
  obtain a where a: "pbcf_payload request = Some (PrivilegedBridgeClientFrame_Authenticate a)"
    "role_of_authenticate a = Inr (ap_role peer)" "ap_os_session_id peer = brc_owner_os_session_id config"
    "pba_os_session_id a = brc_owner_os_session_id config" "pba_executable_sha256 a = expected_hash config (ap_role peer)"
    "peer_process_matches (bt_peer_identity bt x2) a (expected_hash config (ap_role peer))"
    "peer_principal_matches (bt_peer_identity bt x2) config (ap_role peer)"
    "pba_client_nonce a \<noteq> n" "pba_client_nonce a \<notin> rg_used replay"
    "pba_client_proof a = channel_client_proof hmac (brc_token config) (role_auth_channel (ap_role peer)) (brc_instance_id config) n
       (pba_client_nonce a)"
    "replay' = fst (nonce_claim replay (pba_client_nonce a))"
    by (rule admit_peer_Inr [OF n(3)]) blast
  have role: "pba_role a = privileged_bridge_role_code (case ap_role peer of
      BridgeRole_HostAgent \<Rightarrow> PrivilegedBridgeRole_HostAgent | BridgeRole_SessionHelper \<Rightarrow> PrivilegedBridgeRole_SessionHelper)"
    using a(2) by (auto simp: role_of_authenticate_def split: option.splits privileged_bridge_role.splits)
  have used: "pba_client_nonce a \<in> rg_used replay'" using nonce_claim_fresh [OF a(9)] a(11) by auto
  have owner: "unat (ucast i :: u32) = unat i" if "unat i < 2 ^ 32" for i :: u64
    using that by (simp add: unsigned_ucast_eq take_bit_nat_eq_self)
  have os: "tpi_process_id p \<noteq> 0 \<and> tpi_executable_sha256 p = expected_hash config (ap_role peer)
      \<and> (tpi_os_session_id p = 0 \<or> tpi_os_session_id p = brc_owner_os_session_id config)
      \<and> (\<forall>uid. tpi_unix_uid p = Some uid \<longrightarrow> unat uid = unat (brc_owner_os_session_id config)
           \<or> ap_role peer = BridgeRole_SessionHelper \<and> uid = 0)" if "bt_peer_identity bt x2 = Some p" for p
    using that a(4,6,7) owner [of "brc_owner_os_session_id config"]
    by (cases "ap_role peer") (auto simp: peer_process_matches_def peer_principal_matches_def Let_def)
  show ?thesis using n(1) x1 a role used os by blast
qed

theorem peer_admission_verified_witness:
  "\<exists>replay' n. n \<in> rg_used replay' \<and> authenticate_server demo_mac pipe_ops demo_link demo_config (Some (replicate 32 5))
      (([bcd_encode_client demo_link (demo_client_frames ! 0)], []), \<lparr>rg_used = {}, rg_insertion_order = [], rg_capacity = 256\<rparr>)
    = ((([], map (bcd_encode_server demo_link) (take 2 demo_server_frames)), replay'),
       Inr \<lparr>ap_role = BridgeRole_SessionHelper, ap_os_session_id = 7\<rparr>)"
proof -
  let ?g = "\<lparr>rg_used = {}, rg_insertion_order = [], rg_capacity = 256\<rparr>"
  have "demo_client_frames ! 0 \<in> set demo_client_frames" by (simp add: demo_client_frames_def)
  note c = demo_carried(1) [OF this]
  obtain g where g: "authenticate_server demo_mac pipe_ops demo_link demo_config (Some (replicate 32 5))
      (([bcd_encode_client demo_link (demo_client_frames ! 0)], []), ?g)
    = ((([], map (bcd_encode_server demo_link) (take 2 demo_server_frames)), g),
       Inr \<lparr>ap_role = BridgeRole_SessionHelper, ap_os_session_id = 7\<rparr>)"
    using broker_side_admits [OF demo_installed demo_mac_length, of "replicate 32 6" "replicate 32 5" ?g demo_link "[]"] c
    by (auto simp: demo_client_frames_def demo_server_frames_def demo_config_def)
  from peer_admission_verified [OF g] g show ?thesis by blast
qed

text \<open>
  An installed helper always gets in.  With the token, the executable and the session of one installation and two different fresh nonces, the handshake
  goes through on both sides: broker and helper each read exactly what the other sends, the helper accepts the broker's
  proof, and the broker ends with the helper registered under the session it runs in.  (prost returns the frames
  it encoded, and a MAC has 32 bytes.)
\<close>

theorem helper_joins_broker:
  assumes "installed_together config helper" "\<forall>k m. length (hmac k m) = 32"
    and "length sn = 32" "length cn = 32" "cn \<noteq> sn" "cn \<notin> rg_used replay"
    and "au = authenticate_helper_frame hmac helper (brc_instance_id config) sn cn" "rg = register_helper_frame helper"
    and "client_carried c au" "client_carried c rg"
    and "ch = challenge_frame config sn" "ad = helper_proof_frame hmac config helper sn cn" "dn = helper_done_frame helper"
    and "server_carried c ch" "server_carried c ad" "server_carried c dn"
  shows "authenticate_helper hmac pipe_ops c helper (Some cn) (map (bcd_encode_server c) [ch, ad, dn], [])
      = (([], map (bcd_encode_client c) [au, rg]), Inr ())
    \<and> (\<exists>x replay'. cn \<in> rg_used replay' \<and> authenticate_server hmac pipe_ops c config (Some sn) ((map (bcd_encode_client c) [au, rg], []), replay)
          = ((x, replay'), Inr \<lparr>ap_role = BridgeRole_SessionHelper, ap_os_session_id = brc_owner_os_session_id config\<rparr>)
        \<and> register_helper pipe_ops c x (brc_owner_os_session_id config) = (([], map (bcd_encode_server c) [ch, ad, dn]),
            Inr \<lparr>rgh_session = hcc_session helper, rgh_transport = ([], map (bcd_encode_server c) [ch, ad, dn])\<rparr>))"
proof -
  note eqs = assms(7,8,11-13)
  have h: "authenticate_helper hmac pipe_ops c helper (Some cn) (map (bcd_encode_server c) [ch, ad, dn], [])
      = (([], map (bcd_encode_client c) [au, rg]), Inr ())"
    using helper_side_accepts [OF assms(1-4)] assms(14-16) by (simp add: eqs)
  obtain g where "cn \<in> rg_used g" "authenticate_server hmac pipe_ops c config (Some sn) ((map (bcd_encode_client c) [au, rg], []), replay)
      = ((([bcd_encode_client c rg], map (bcd_encode_server c) [ch, ad]), g),
         Inr \<lparr>ap_role = BridgeRole_SessionHelper, ap_os_session_id = brc_owner_os_session_id config\<rparr>)"
    using broker_side_admits [OF assms(1,2,4,5,6), of c "[bcd_encode_client c rg]"] assms(9) by (auto simp: eqs)
  moreover have "register_helper pipe_ops c ([bcd_encode_client c rg], map (bcd_encode_server c) [ch, ad]) (brc_owner_os_session_id config)
      = (([], map (bcd_encode_server c) [ch, ad, dn]),
         Inr \<lparr>rgh_session = hcc_session helper, rgh_transport = ([], map (bcd_encode_server c) [ch, ad, dn])\<rparr>)"
    using broker_side_registers [OF assms(1), of c "[]" "map (bcd_encode_server c) [ch, ad]"] assms(10) by (simp add: eqs)
  ultimately show ?thesis using h by blast
qed

theorem helper_joins_broker_witness:
  "authenticate_helper demo_mac pipe_ops demo_link demo_helper_config (Some (replicate 32 6))
     (map (bcd_encode_server demo_link) demo_server_frames, [])
   = (([], map (bcd_encode_client demo_link) (take 2 demo_client_frames)), Inr ())"
proof -
  have c: "client_carried demo_link (demo_client_frames ! 0)" "client_carried demo_link (demo_client_frames ! 1)"
    "server_carried demo_link (demo_server_frames ! 0)" "server_carried demo_link (demo_server_frames ! 1)"
    "server_carried demo_link (demo_server_frames ! 2)"
    by (rule demo_carried, simp add: demo_client_frames_def demo_server_frames_def)+
  have i: "brc_instance_id demo_config = replicate 16 2" by (simp add: demo_config_def)
  have "(replicate 32 6 :: bytes) \<noteq> replicate 32 5" "replicate 32 6 \<notin> rg_used \<lparr>rg_used = {}, rg_insertion_order = [], rg_capacity = 256\<rparr>"
    by simp_all
  note w = helper_joins_broker [OF demo_installed demo_mac_length _ _ this refl refl _ _ refl refl refl]
  show ?thesis
    using w [of demo_link] c by (simp add: demo_client_frames_def demo_server_frames_def i)
qed

text \<open>
  C15. The broker process is the broker.  Whatever a Host sends and whatever the helper does: a connection that got as far as a session starts
  from the route of the registered helper, with secure attention only on a locked or secure Windows desktop, and is a run of the broker's operations in which each
  one meets a live session, so that the guarantees about live sessions hold for every command; and when the function returns
  without an error, the session and both streams are closed and no lease is left.
\<close>

theorem runtime_serves_live_sessions:
  assumes "run = run_host_connection hang bt c host registered config ticks" "hr_session run = Some s"
    and "ops = transport_helper_ops hang bt c"
  shows "\<exists>route broker s0 xs s1. route_session_of (rgh_session registered) = Inr route \<and> open_broker config route = Inr broker
    \<and> s0 = host_broker_session_new broker (framed_bridge_rpc_new (rgh_transport registered))
    \<and> s1 = s0\<lparr>hbs_secure_attention_allowed :=
        (rs_platform route = Platform_Windows \<and> rs_desktop route \<in> {DesktopKind_LockedLogin, DesktopKind_Secure})\<rparr>
    \<and> (\<forall>i < length xs. broker_live ops (fst (run_steps (broker_step ops) s1 (take i xs))))
    \<and> (if is_ok (hr_result run)
       then s = fst (run_steps (broker_step ops) s1 (xs @ [BrokerFailClosed])) \<and> hr_result run = Inr None
         \<and> broker_closed s \<and> fr_failed (hbs_helper s) \<and> (\<exists>x. hr_host run = bt_fail_closed bt x)
       else s = fst (run_steps (broker_step ops) s1 xs))"
proof -
  obtain h0 r0 where snd0: "send_server_frame bt c host (status_frame (ready_status (rgh_session registered))) = (h0, r0)" by fastforce
  obtain h1 aw where aw: "await_request bt c h0 ticks = (h1, aw)" by fastforce
  obtain request tick ts where rq: "aw = AwaitedRequest request tick ts"
    using assms(1,2) snd0 aw by (cases r0; cases aw) (simp_all add: run_host_connection_def)
  have run: "run = start_host_session hang bt c h1 registered config request tick ts"
    using assms(1,2) snd0 aw rq by (cases r0) (simp_all add: run_host_connection_def)
  obtain route where route: "route_session_of (rgh_session registered) = Inr route"
    using run assms(2) by (cases "route_session_of (rgh_session registered)") (simp_all add: start_host_session_def)
  obtain broker where broker: "open_broker config route = Inr broker"
    using run assms(2) route by (cases "open_broker config route") (simp_all add: start_host_session_def)
  define s1 where "s1 = with_secure_attention (host_broker_session_new broker (framed_bridge_rpc_new (rgh_transport registered)))
    (secure_attention_route route)"
  obtain h2 s2 r where sv: "serve_session bt c ops (h1, s1) request tick ts = ((h2, s2), r)" by (metis prod.collapse)
  have res: "hr_host run = h2" "s = s2" "hr_result run = bind_res r (\<lambda>_. Inr None)"
    using run assms(2,3) route broker sv by (simp_all add: start_host_session_def s1_def)
  have ok: "is_ok (hr_result run) = is_ok r" "is_ok r \<Longrightarrow> hr_result run = Inr None" unfolding res by (cases r; simp)+
  have live: "broker_live ops s1" unfolding s1_def using broker by (rule open_broker_live)
  obtain xs where xs: "live_run ops s1 xs"
    "s = (if is_ok r then broker_fail_closed ops (fst (run_steps (broker_step ops) s1 xs)) else fst (run_steps (broker_step ops) s1 xs))"
    "is_ok r \<Longrightarrow> \<exists>x. hr_host run = bt_fail_closed bt x"
    using serve_session_run [OF live sv] res by metis
  have closed: "broker_closed (broker_fail_closed ops t)" "fr_failed (hbs_helper (broker_fail_closed ops t))" for t
    by (rule broker_closed_fail_closed) (simp add: assms(3) broker_fail_closed_def transport_helper_ops_def rpc_fail_closed_def)
  have s1: "s1 = (host_broker_session_new broker (framed_bridge_rpc_new (rgh_transport registered)))\<lparr>hbs_secure_attention_allowed :=
      (rs_platform route = Platform_Windows \<and> rs_desktop route \<in> {DesktopKind_LockedLogin, DesktopKind_Secure})\<rparr>"
    by (simp add: s1_def with_secure_attention_def secure_attention_route_def)
  have fin: "if is_ok (hr_result run)
       then s = fst (run_steps (broker_step ops) s1 (xs @ [BrokerFailClosed])) \<and> hr_result run = Inr None
         \<and> broker_closed s \<and> fr_failed (hbs_helper s) \<and> (\<exists>x. hr_host run = bt_fail_closed bt x)
       else s = fst (run_steps (broker_step ops) s1 xs)"
    using xs(2,3) closed ok by (simp add: fst_run_steps_append)
  show ?thesis
    using route broker s1 xs(1) [unfolded live_run_def] fin by blast
qed

lemma demo_runs:
  "\<exists>s. hr_session (run_host_connection hang pipe_ops demo_link ([bcd_encode_client demo_link demo_acquire_frame], [])
     \<lparr>rgh_session = demo_session_descriptor, rgh_transport = ([], [])\<rparr> demo_config
     [\<lparr>rt_request_clock = 1000, rt_expire_clock = 1000, rt_next_lease_id = Inr (LeaseId demo_lease_id)\<rparr>]) = Some s"
proof -
  let ?tick = "\<lparr>rt_request_clock = 1000, rt_expire_clock = 1000, rt_next_lease_id = Inr (LeaseId demo_lease_id)\<rparr>"
  have "demo_acquire_frame \<in> set demo_client_frames" by (simp add: demo_client_frames_def)
  then have c: "client_carried demo_link demo_acquire_frame" by (rule demo_carried)
  have f: "pbcf_protocol_version demo_acquire_frame = Some client_version" "pbcf_request_id demo_acquire_frame = ''r''"
    "pbcf_sequence demo_acquire_frame = 3" "pbcf_payload demo_acquire_frame = Some (PrivilegedBridgeClientFrame_AcquireLease
      \<lparr>aplr_session_id = replicate 16 4, aplr_generation = 3, aplr_permissions = [1, 2], aplr_controller_display_name = ''desk''\<rparr>)"
    by (simp_all add: demo_acquire_frame_def demo_bridge_frame_def client_version_def limits)
  have "validate_privileged_bridge_client_payload (the (pbcf_payload demo_acquire_frame)) = Inr ()"
    by (simp add: f accepted limits del: all_ok.simps)
  then have "decode_and_validate_privileged_bridge_client_frame (bcd_decode_client demo_link) (bcd_encode_client demo_link demo_acquire_frame)
      = Inr demo_acquire_frame"
    using c frame_header_ok [of "''r''" 3]
    by (simp add: decode_and_validate_privileged_bridge_client_frame_def validate_encoded_length_def client_carried_def bind_res_Inr f
        del: validate_privileged_bridge_client_payload.simps)
  then have aw: "await_request pipe_ops demo_link ([bcd_encode_client demo_link demo_acquire_frame], out) [?tick]
      = (([], out), AwaitedRequest demo_acquire_frame ?tick [])" for out
    by (simp add: pipe_ops_def is_acquire_request_def f)
  have "psd_desktop_kind demo_session_descriptor \<noteq> interactive_desktop_kind_code InteractiveDesktopKind_Unavailable"
    by (simp add: demo_session_descriptor_def)
  then obtain route where "route_session_of demo_session_descriptor = Inr route" "rs_os_session_id route \<noteq> 0" "rs_generation route \<noteq> 0"
    using route_of_descriptor [OF demo_session_descriptor_ok] by metis
  moreover obtain broker where "open_broker demo_config route = Inr broker" using open_broker_total calculation by blast
  ultimately show ?thesis
    by (simp add: run_host_connection_def aw start_host_session_def Let_def split: prod.split del: await_request.simps)
qed

theorem runtime_serves_live_sessions_witness:
  "\<exists>route broker. route_session_of demo_session_descriptor = Inr route \<and> open_broker demo_config route = Inr broker"
proof -
  obtain s where s: "hr_session (run_host_connection (\<lambda>r. (r, Inl BrokerProtocolError_Helper)) pipe_ops demo_link
      ([bcd_encode_client demo_link demo_acquire_frame], []) \<lparr>rgh_session = demo_session_descriptor, rgh_transport = ([], [])\<rparr> demo_config
      [\<lparr>rt_request_clock = 1000, rt_expire_clock = 1000, rt_next_lease_id = Inr (LeaseId demo_lease_id)\<rparr>]) = Some s"
    using demo_runs by blast
  from runtime_serves_live_sessions [OF refl s refl] show ?thesis by auto
qed

text \<open>
  C20. The broker only ever keeps a helper of the owner's session.  After any sequence of connections, a registered helper has a valid descriptor
  for the owner's session; a Host that asks for a lease then always gets a broker for it, unless the helper registered a desktop of the
  kind \<^verbatim>\<open>UNAVAILABLE\<close>, for which the request ends the connection and the helper is lost.  A Host that asks for nothing
  leaves the helper as it was.  On shutdown the helper's stream is closed.
\<close>

theorem registered_helper_owned:
  assumes "broker_loop_new = Inr bl0" "bl = fst (run_steps (accept_step hang hmac bt c config) bl0 conns)"
    and "bl_helper bl = Some r"
  shows "descriptor_ok (rgh_session r) \<and> psd_os_session_id (rgh_session r) = brc_owner_os_session_id config
    \<and> (if psd_desktop_kind (rgh_session r) = interactive_desktop_kind_code InteractiveDesktopKind_Unavailable
       then hr_result (start_host_session hang bt c host r config request tick ticks) = Inl RuntimeBridgeError_InvalidMessage
       else \<exists>route broker. route_session_of (rgh_session r) = Inr route \<and> rs_os_session_id route = brc_owner_os_session_id config
         \<and> open_broker config route = Inr broker)
    \<and> (hr_session (run_host_connection hang bt c host r config ticks) = None
        \<and> is_ok (hr_result (run_host_connection hang bt c host r config ticks)) \<longrightarrow>
        bl_helper (accept_host hang bt c config bl host ticks) = Some r)
    \<and> broker_accept_loop hang hmac bt c config bl []
       = (bl\<lparr>bl_helper := None, bl_released := bl_released bl @ [bt_fail_closed bt (rgh_transport r)]\<rparr>, Inr ())"
proof -
  have "bl_helper bl0 = None" using assms(1) by (auto simp: broker_loop_new_def bind_res_Inr)
  then have "helper_owned config bl0" by (simp add: helper_owned_def)
  then have "helper_owned config bl" unfolding assms(2) by (rule broker_process.run_inv)
  then have ok: "descriptor_ok (rgh_session r)" "psd_os_session_id (rgh_session r) = brc_owner_os_session_id config"
    using assms(3) by (simp_all add: helper_owned_def)
  have none: "hr_result (start_host_session hang bt c host r config request tick ticks) = Inl RuntimeBridgeError_InvalidMessage"
    if "psd_desktop_kind (rgh_session r) = interactive_desktop_kind_code InteractiveDesktopKind_Unavailable"
    using unavailable_has_no_route [OF that] by (simp add: start_host_session_def)
  have some: "\<exists>route broker. route_session_of (rgh_session r) = Inr route \<and> rs_os_session_id route = brc_owner_os_session_id config
      \<and> open_broker config route = Inr broker"
    if u: "psd_desktop_kind (rgh_session r) \<noteq> interactive_desktop_kind_code InteractiveDesktopKind_Unavailable"
    using route_of_descriptor [OF ok(1) u] open_broker_total [of _ config] ok(2) by metis
  have kept: "bl_helper (accept_host hang bt c config bl host ticks) = Some r"
    if "hr_session (run_host_connection hang bt c host r config ticks) = None"
      "is_ok (hr_result (run_host_connection hang bt c host r config ticks))"
  proof -
    have "hr_result (run_host_connection hang bt c host r config ticks) = Inr (Some r)"
      using that by (auto simp: run_host_connection_def start_host_session_def Let_def
          split: prod.splits sum.splits awaited.splits)
    then show ?thesis using assms(3) by (simp add: accept_host_def Let_def)
  qed
  show ?thesis using ok none some kept assms(3) by (simp add: release_def)
qed

lemma demo_broker_joined:
  "\<exists>bl0 bl. broker_loop_new = Inr bl0 \<and> bl = fst (run_steps (accept_step hang demo_mac pipe_ops demo_link demo_config) bl0
      [((map (bcd_encode_client demo_link) (take 2 demo_client_frames), []), Some (replicate 32 5), [])])
    \<and> (\<exists>r. bl_helper bl = Some r \<and> rgh_session r = demo_session_descriptor)"
proof -
  let ?g = "\<lparr>rg_used = {}, rg_insertion_order = [], rg_capacity = 256\<rparr>"
  let ?au = "authenticate_helper_frame demo_mac demo_helper_config (replicate 16 2) (replicate 32 5) (replicate 32 6)"
  let ?rg = "register_helper_frame demo_helper_config"
  have new: "broker_loop_new = Inr \<lparr>bl_replay = ?g, bl_helper = None, bl_released = []\<rparr>"
    by (simp add: broker_loop_new_def nonce_replay_guard_new_def limits)
  have c: "client_carried demo_link ?au" "client_carried demo_link ?rg" by (rule demo_carried, simp add: demo_client_frames_def)+
  have i: "brc_instance_id demo_config = replicate 16 2" by (simp add: demo_config_def)
  obtain x g where g: "authenticate_server demo_mac pipe_ops demo_link demo_config (Some (replicate 32 5))
      ((map (bcd_encode_client demo_link) (take 2 demo_client_frames), []), ?g)
    = ((([bcd_encode_client demo_link ?rg], x), g),
       Inr \<lparr>ap_role = BridgeRole_SessionHelper, ap_os_session_id = brc_owner_os_session_id demo_config\<rparr>)"
    using broker_side_admits [OF demo_installed demo_mac_length, of "replicate 32 6" "replicate 32 5" ?g demo_link
        "[bcd_encode_client demo_link ?rg]"] c(1)
    by (auto simp: demo_client_frames_def i)
  have "rgh_session (projr (snd (register_helper pipe_ops demo_link ([bcd_encode_client demo_link ?rg], x) (brc_owner_os_session_id demo_config))))
      = demo_session_descriptor"
    using broker_side_registers [OF demo_installed c(2), of "[]" x] by (simp add: demo_helper_config_def)
  then show ?thesis
    using broker_side_registers [OF demo_installed c(2), of "[]" x] g
    by (simp add: new accept_step_def accept_peer_def accept_helper_def)
qed

theorem registered_helper_owned_witness:
  "descriptor_ok demo_session_descriptor \<and> (\<exists>route broker. route_session_of demo_session_descriptor = Inr route \<and> open_broker demo_config route = Inr broker)"
proof -
  obtain bl0 bl r where bl: "broker_loop_new = Inr bl0"
    "bl = fst (run_steps (accept_step (\<lambda>r. (r, Inl BrokerProtocolError_Helper)) demo_mac pipe_ops demo_link demo_config) bl0
      [((map (bcd_encode_client demo_link) (take 2 demo_client_frames), []), Some (replicate 32 5), [])])"
    "bl_helper bl = Some r" and r: "rgh_session r = demo_session_descriptor"
    using demo_broker_joined by blast
  have "psd_desktop_kind demo_session_descriptor \<noteq> interactive_desktop_kind_code InteractiveDesktopKind_Unavailable"
    by (simp add: demo_session_descriptor_def)
  then show ?thesis using registered_helper_owned [OF bl, where host = "([], [])" and ticks = "[]"] r by auto
qed

end
