(* ===== verification/Remote_Session.thy ===== *)
theory Remote_Session
  imports Host_Service Peer_Session
begin

text \<open>
  The coordinator of inbound remote sessions, \<^verbatim>\<open>crates/host-agent/src/remote_session.rs\<close>, with its state
  (\<^verbatim>\<open>remote_session_state.rs\<close>) and the authenticated ICE restart (\<^verbatim>\<open>remote_reconnect.rs\<close>).  It is built on the host
  service, the offer verifier and the peer session as they are modelled; the platform's session factory, the native event queue
  and the protobuf codec are parameters, the record \<open>remote_env\<close>.

  The service is shared with the rest of the agent; a step of anybody else is a step of the machine below.  A session
  the coordinator gives up is dropped by the code; the model keeps it, in the state its destructor leaves it in, in the list
  \<open>rc_retired\<close> that no operation reads.
\<close>

section \<open>Types\<close>

definition LOCAL_TERMINATION_REQUEST_ID :: string where
  "LOCAL_TERMINATION_REQUEST_ID = ''host-termination''"

definition MAX_PENDING_ICE_CANDIDATES :: nat where [limits]: "MAX_PENDING_ICE_CANDIDATES = 64"
definition MAX_PENDING_ICE_BYTES :: nat where [limits]: "MAX_PENDING_ICE_BYTES = 65536"
definition PENDING_SESSION_LIFETIME_MS :: u64 where [limits]: "PENDING_SESSION_LIFETIME_MS = 30000"
definition ACTIVE_RECONNECT_LIFETIME_MS :: u64 where [limits]: "ACTIVE_RECONNECT_LIFETIME_MS = 45000"

datatype remote_peer_event =
    RemotePeerEvent_Connected
  | RemotePeerEvent_Disconnected
  | RemotePeerEvent_Failed
  | RemotePeerEvent_LocalStop
  | RemotePeerEvent_LocalIceCandidate peer_ice_candidate
  | RemotePeerEvent_ReliableInput bytes
  | RemotePeerEvent_FastPointer bytes

datatype remote_session_error =
    RemoteSessionError_InvalidEnvelope
  | RemoteSessionError_DeviceBusy
  | RemoteSessionError_Authentication
  | RemoteSessionError_Authorization
  | RemoteSessionError_Replay
  | RemoteSessionError_PendingIceLimit
  | RemoteSessionError_Peer
  | RemoteSessionError_Input
  | RemoteSessionError_InputPermission
  | RemoteSessionError_Service
  | RemoteSessionError_Closed

record remote_session_context =
  rsc_session_id :: bytes
  rsc_permissions :: "session_permission list"
  rsc_controller_display_name :: string

definition from_verified :: "verified_session_offer \<Rightarrow> remote_session_context" where
  "from_verified verified = \<lparr>rsc_session_id = vso_session_id verified, rsc_permissions = vso_permissions verified,
     rsc_controller_display_name = di_display_name (vso_controller verified)\<rparr>"

record ('p, 'i, 'e) remote_session_parts =
  rsp_peer :: 'p
  rsp_input :: 'i
  rsp_events :: 'e

record remote_session_outbound =
  rso_recipient_device_id :: bytes
  rso_opaque_envelope :: bytes

record ('s, 'p, 'i, 'e, 'f) remote_env =
  re_pairing :: pairing_env
  re_store :: "'s grant_store_ops"
  re_session :: "('p, 'i) session_ops"
  re_try_recv :: "'e \<Rightarrow> 'e \<times> (remote_session_error + remote_peer_event option)"
  re_create :: "'f \<Rightarrow> session_config \<Rightarrow> remote_session_context
    \<Rightarrow> 'f \<times> (remote_session_error + ('p, 'i, 'e) remote_session_parts)"
  re_decode :: "bytes \<Rightarrow> signaling_envelope option"
  re_encode :: "signaling_envelope \<Rightarrow> bytes"

section \<open>Pending and active sessions\<close>

record pending_session =
  psn_controller_device_id :: bytes
  psn_session_id :: bytes
  psn_request_id :: string
  psn_created_at_unix_ms :: u64
  psn_authentication :: "session_offer_authentication option"
  psn_description :: "web_rtc_session_description option"
  psn_candidates :: "peer_ice_candidate list"
  psn_candidate_bytes :: nat

definition pending_session_new :: "bytes \<Rightarrow> bytes \<Rightarrow> string \<Rightarrow> u64 \<Rightarrow> pending_session" where
  "pending_session_new controller_device_id session_id request_id created_at_unix_ms =
     \<lparr>psn_controller_device_id = controller_device_id, psn_session_id = session_id, psn_request_id = request_id,
      psn_created_at_unix_ms = created_at_unix_ms, psn_authentication = None, psn_description = None,
      psn_candidates = [], psn_candidate_bytes = 0\<rparr>"

definition push_candidate ::
  "pending_session \<Rightarrow> peer_ice_candidate \<Rightarrow> pending_session \<times> (remote_session_error + unit)" where
  "push_candidate pending candidate =
     (case Option.bind (checked_add_usize (length (pic2_candidate candidate)) (length (pic2_sdp_mid candidate)))
             (\<lambda>v. checked_add_usize v (psn_candidate_bytes pending)) of
        None \<Rightarrow> (pending, Inl RemoteSessionError_PendingIceLimit)
      | Some candidate_bytes \<Rightarrow>
          if MAX_PENDING_ICE_CANDIDATES \<le> length (psn_candidates pending) \<or> MAX_PENDING_ICE_BYTES < candidate_bytes
          then (pending, Inl RemoteSessionError_PendingIceLimit)
          else (pending\<lparr>psn_candidates := psn_candidates pending @ [candidate],
                  psn_candidate_bytes := candidate_bytes\<rparr>, Inr ()))"

definition is_ready :: "pending_session \<Rightarrow> bool" where
  "is_ready pending \<longleftrightarrow> psn_authentication pending \<noteq> None \<and> psn_description pending \<noteq> None"

record failed_session_attempt =
  fsa_controller_device_id :: bytes
  fsa_session_id :: bytes
  fsa_failed_at_unix_ms :: u64

definition attempt_matches :: "failed_session_attempt \<Rightarrow> bytes \<Rightarrow> bytes \<Rightarrow> bool" where
  "attempt_matches attempt controller_device_id session_id \<longleftrightarrow>
     fsa_controller_device_id attempt = controller_device_id \<and> fsa_session_id attempt = session_id"

definition attempt_is_expired :: "failed_session_attempt \<Rightarrow> u64 \<Rightarrow> bool" where
  "attempt_is_expired attempt now_unix_ms \<longleftrightarrow>
     PENDING_SESSION_LIFETIME_MS < saturating_sub now_unix_ms (fsa_failed_at_unix_ms attempt)"

record ('p, 'i, 'e) active_session =
  acs_controller_device_id :: bytes
  acs_session_id :: bytes
  acs_session :: "('p, 'i) host_peer_session"
  acs_events :: 'e
  acs_reconnect :: "pending_session option"
  acs_reconnect_generation :: u32
  acs_reconnect_deadline_unix_ms :: "u64 option"

record started_session =
  sts_controller_device_id :: bytes
  sts_session_id :: bytes
  sts_answer :: peer_answer
  sts_answer_authentication :: session_answer_authentication

record restarted_session =
  rst_controller_device_id :: bytes
  rst_session_id :: bytes
  rst_answer :: peer_answer
  rst_authentication :: session_reconnect_authentication

record ('s, 'p, 'i, 'e, 'f) remote_coordinator =
  rc_service :: "'s host_service"
  rc_verifier :: offer_verifier
  rc_factory :: 'f
  rc_config :: session_config
  rc_pending :: "pending_session option"
  rc_failed_attempt :: "failed_session_attempt option"
  rc_active :: "('p, 'i, 'e) active_session option"
  rc_closed :: bool
  rc_retired :: "('p, 'i) host_peer_session list"

type_synonym ('s, 'p, 'i, 'e, 'f, 'a) remote_result =
  "('s, 'p, 'i, 'e, 'f) remote_coordinator \<times> (remote_session_error + 'a)"

definition coordinator_with_config ::
  "'s host_service \<Rightarrow> 'f \<Rightarrow> session_config \<Rightarrow> remote_session_error + ('s, 'p, 'i, 'e, 'f) remote_coordinator" where
  "coordinator_with_config service factory config =
     bind_res (map_err (\<lambda>_. RemoteSessionError_Authentication)
       (offer_verifier_new (di_device_id (hi_device_identity (sv_identity service))))) (\<lambda>verifier.
     Inr \<lparr>rc_service = service, rc_verifier = verifier, rc_factory = factory, rc_config = config, rc_pending = None,
          rc_failed_attempt = None, rc_active = None, rc_closed = False, rc_retired = []\<rparr>)"

definition coordinator_new ::
  "'s host_service \<Rightarrow> 'f \<Rightarrow> remote_session_error + ('s, 'p, 'i, 'e, 'f) remote_coordinator" where
  "coordinator_new service factory =
     coordinator_with_config service factory \<lparr>sc_ice_transport_policy = IceTransportPolicy_All\<rparr>"

definition host_device_id :: "('s, 'p, 'i, 'e, 'f) remote_coordinator \<Rightarrow> bytes" where
  "host_device_id rc = di_device_id (hi_device_identity (sv_identity (rc_service rc)))"

definition has_active_session :: "('s, 'p, 'i, 'e, 'f) remote_coordinator \<Rightarrow> bool" where
  "has_active_session rc \<longleftrightarrow> rc_active rc \<noteq> None"

definition reconnect_deadline_unix_ms :: "('s, 'p, 'i, 'e, 'f) remote_coordinator \<Rightarrow> u64 option" where
  "reconnect_deadline_unix_ms rc = Option.bind (rc_active rc) acs_reconnect_deadline_unix_ms"

section \<open>Errors\<close>

fun message_key :: "error_code \<Rightarrow> string" where
  "message_key ErrorCode_DeviceBusy = ''remote_session.device_busy''"
| "message_key ErrorCode_AuthInvalid = ''remote_session.authentication_failed''"
| "message_key ErrorCode_AuthRevoked = ''remote_session.authorization_revoked''"
| "message_key ErrorCode_SessionReplayed = ''remote_session.replayed''"
| "message_key ErrorCode_IceFailed = ''remote_session.ice_failed''"
| "message_key ErrorCode_InputInjectionFailed = ''remote_session.input_failed''"
| "message_key ErrorCode_ServerUnavailable = ''remote_session.temporarily_unavailable''"
| "message_key _ = ''remote_session.failed''"

definition remote_unified_error :: "error_code \<Rightarrow> unified_error" where
  "remote_unified_error code = \<lparr>ue_code = error_code_code code, ue_message_key = message_key code,
     ue_retryable = (code \<in> {ErrorCode_DeviceBusy, ErrorCode_ServerUnavailable}), ue_request_id = [], ue_details = None\<rparr>"

fun protocol_error_for :: "remote_session_error \<Rightarrow> error_code" where
  "protocol_error_for RemoteSessionError_DeviceBusy = ErrorCode_DeviceBusy"
| "protocol_error_for RemoteSessionError_Authentication = ErrorCode_AuthInvalid"
| "protocol_error_for RemoteSessionError_Authorization = ErrorCode_AuthRevoked"
| "protocol_error_for RemoteSessionError_Replay = ErrorCode_SessionReplayed"
| "protocol_error_for RemoteSessionError_PendingIceLimit = ErrorCode_InvalidRequest"
| "protocol_error_for RemoteSessionError_InvalidEnvelope = ErrorCode_InvalidRequest"
| "protocol_error_for RemoteSessionError_Input = ErrorCode_InputInjectionFailed"
| "protocol_error_for RemoteSessionError_InputPermission = ErrorCode_InputPermissionRequired"
| "protocol_error_for RemoteSessionError_Peer = ErrorCode_CaptureFailed"
| "protocol_error_for RemoteSessionError_Service = ErrorCode_ServerUnavailable"
| "protocol_error_for RemoteSessionError_Closed = ErrorCode_ServerUnavailable"

fun map_service_error :: "remote_service_error \<Rightarrow> remote_session_error" where
  "map_service_error (RemoteServiceError_Authentication e) =
     (case e of
        SessionAuthenticationError_Replay \<Rightarrow> RemoteSessionError_Replay
      | SessionAuthenticationError_ControllerNotAuthorized \<Rightarrow> RemoteSessionError_Authorization
      | SessionAuthenticationError_PermissionDenied \<Rightarrow> RemoteSessionError_Authorization
      | _ \<Rightarrow> RemoteSessionError_Authentication)"
| "map_service_error _ = RemoteSessionError_Service"

definition map_peer_error :: "host_webrtc_error \<Rightarrow> remote_session_error" where
  "map_peer_error e =
     (case e of
        HostWebRtcError_InputPermissionDenied \<Rightarrow> RemoteSessionError_InputPermission
      | HostWebRtcError_InputFailure \<Rightarrow> RemoteSessionError_Input
      | _ \<Rightarrow> RemoteSessionError_Peer)"

section \<open>Outbound messages\<close>

definition remote_protocol_version :: protocol_version where
  "remote_protocol_version = \<lparr>pv_major = 1, pv_minor = MINIMUM_PROTOCOL_MINOR_VERSION\<rparr>"

definition remote_outbound ::
  "('s, 'p, 'i, 'e, 'f) remote_env \<Rightarrow> ('s, 'p, 'i, 'e, 'f) remote_coordinator \<Rightarrow> bytes \<Rightarrow> string \<Rightarrow> u64
    \<Rightarrow> signaling_envelope_payload \<Rightarrow> remote_session_error + remote_session_outbound" where
  "remote_outbound env rc recipient_device_id request_id now_unix_ms payload =
     (let envelope = \<lparr>se_protocol_version = Some remote_protocol_version, se_sender_device_id = host_device_id rc,
            se_recipient_device_id = recipient_device_id, se_request_id = request_id, se_sent_at_unix_ms = now_unix_ms,
            se_payload = Some payload\<rparr>;
          opaque_envelope = re_encode env envelope
      in if MAX_OPAQUE_SIGNALING_ENVELOPE_BYTES < length opaque_envelope then Inl RemoteSessionError_InvalidEnvelope
         else Inr \<lparr>rso_recipient_device_id = recipient_device_id, rso_opaque_envelope = opaque_envelope\<rparr>)"

definition error_outbound ::
  "('s, 'p, 'i, 'e, 'f) remote_env \<Rightarrow> ('s, 'p, 'i, 'e, 'f) remote_coordinator \<Rightarrow> bytes \<Rightarrow> string \<Rightarrow> error_code \<Rightarrow> u64
    \<Rightarrow> remote_session_error + remote_session_outbound" where
  "error_outbound env rc recipient_device_id request_id code now_unix_ms =
     remote_outbound env rc recipient_device_id request_id now_unix_ms
       (SignalingEnvelope_Error ((remote_unified_error code)\<lparr>ue_request_id := request_id\<rparr>))"

text \<open>\<^verbatim>\<open>Ok(vec![... ?])\<close>.\<close>

definition one_outbound :: "remote_session_error + remote_session_outbound \<Rightarrow> remote_session_error + remote_session_outbound list" where
  "one_outbound r = bind_res r (\<lambda>m. Inr [m])"

definition two_outbound ::
  "remote_session_error + remote_session_outbound \<Rightarrow> remote_session_error + remote_session_outbound
    \<Rightarrow> remote_session_error + remote_session_outbound list" where
  "two_outbound r q = bind_res r (\<lambda>m. bind_res q (\<lambda>n. Inr [m, n]))"

section \<open>Closing\<close>

definition set_service ::
  "('s, 'p, 'i, 'e, 'f) remote_coordinator \<Rightarrow> 's host_service \<times> (remote_service_error + 'a) \<Rightarrow> ('s, 'p, 'i, 'e, 'f, 'a) remote_result" where
  "set_service rc out = (rc\<lparr>rc_service := fst out\<rparr>, map_err (\<lambda>_. RemoteSessionError_Service) (snd out))"

definition close_active ::
  "('s, 'p, 'i, 'e, 'f) remote_env \<Rightarrow> ('s, 'p, 'i, 'e, 'f) remote_coordinator \<Rightarrow> unified_error option
    \<Rightarrow> ('s, 'p, 'i, 'e, 'f, unit) remote_result" where
  "close_active env rc final_error =
     (case rc_active rc of
        None \<Rightarrow>
          if final_error = None
          then set_service rc (update_remote_status (rc_service rc) [] [] SessionState_Idle None)
          else (rc, Inr ())
      | Some active \<Rightarrow>
          let (service, _) = update_remote_status (rc_service rc) (acs_session_id active) (acs_controller_device_id active)
                SessionState_Closing None;
              (session, close_result) = session_close (re_session env) (acs_session active);
              (service, unregister_result) = unregister_active_session service (acs_session_id active);
              (service, status_result) =
                (case final_error of
                   Some error \<Rightarrow> update_remote_status service (acs_session_id active) (acs_controller_device_id active)
                     SessionState_Failed (Some error)
                 | None \<Rightarrow> update_remote_status service [] [] SessionState_Idle None)
          in (rc\<lparr>rc_service := service, rc_active := None,
                rc_retired := rc_retired rc @ [session_drop (re_session env) session]\<rparr>,
              and_res (and_res (map_err map_peer_error close_result)
                  (map_err (\<lambda>_. RemoteSessionError_Service) unregister_result))
                (map_err (\<lambda>_. RemoteSessionError_Service) status_result)))"

definition closing_payload :: "bytes \<Rightarrow> signaling_envelope_payload" where
  "closing_payload session_id = SignalingEnvelope_SessionStatus \<lparr>sst_session_id = session_id,
     sst_state = session_state_code SessionState_Closing, sst_error = None\<rparr>"

definition close_active_with_remote_notification ::
  "('s, 'p, 'i, 'e, 'f) remote_env \<Rightarrow> ('s, 'p, 'i, 'e, 'f) remote_coordinator \<Rightarrow> u64 \<Rightarrow> unified_error option
    \<Rightarrow> ('s, 'p, 'i, 'e, 'f, remote_session_outbound list) remote_result" where
  "close_active_with_remote_notification env rc now_unix_ms final_error =
     (case rc_active rc of
        None \<Rightarrow> (rc, Inr [])
      | Some active \<Rightarrow>
          (case remote_outbound env rc (acs_controller_device_id active) LOCAL_TERMINATION_REQUEST_ID now_unix_ms
                  (closing_payload (acs_session_id active)) of
             Inl e \<Rightarrow> (rc, Inl e)
           | Inr message \<Rightarrow> sbind (close_active env rc final_error) (\<lambda>rc _. (rc, Inr [message]))))"

definition handle_termination ::
  "('s, 'p, 'i, 'e, 'f) remote_env \<Rightarrow> ('s, 'p, 'i, 'e, 'f) remote_coordinator \<Rightarrow> session_terminated_event \<Rightarrow> u64
    \<Rightarrow> ('s, 'p, 'i, 'e, 'f, remote_session_outbound list) remote_result" where
  "handle_termination env rc event now_unix_ms =
     (if \<not> (case rc_active rc of None \<Rightarrow> False | Some active \<Rightarrow>
            acs_session_id active = ste_session_id event
            \<and> acs_controller_device_id active = ste_controller_device_id event)
      then (rc, Inr [])
      else close_active_with_remote_notification env rc now_unix_ms
        (case error_code_of (ste_reason event) of
           Some ErrorCode_LocalEmergencyStop \<Rightarrow> None
         | Some ErrorCode_Unspecified \<Rightarrow> Some (remote_unified_error ErrorCode_AuthRevoked)
         | None \<Rightarrow> Some (remote_unified_error ErrorCode_AuthRevoked)
         | Some reason \<Rightarrow> Some (remote_unified_error reason)))"

section \<open>Authenticated ICE restart\<close>

definition begin_active_reconnect ::
  "('s, 'p, 'i, 'e, 'f) remote_env \<Rightarrow> ('s, 'p, 'i, 'e, 'f) remote_coordinator \<Rightarrow> u64 \<Rightarrow> ('s, 'p, 'i, 'e, 'f, unit) remote_result" where
  "begin_active_reconnect env rc now_unix_ms =
     (case rc_active rc of
        None \<Rightarrow> (rc, Inl RemoteSessionError_Peer)
      | Some active \<Rightarrow>
          (case begin_reconnect (re_session env) (acs_session active) of
             (session, Inl e) \<Rightarrow> (rc\<lparr>rc_active := Some (active\<lparr>acs_session := session\<rparr>)\<rparr>, Inl (map_peer_error e))
           | (session, Inr _) \<Rightarrow>
               let deadline = (case acs_reconnect_deadline_unix_ms active of
                     Some deadline \<Rightarrow> deadline
                   | None \<Rightarrow> saturating_add now_unix_ms ACTIVE_RECONNECT_LIFETIME_MS);
                   rc = rc\<lparr>rc_active := Some (active\<lparr>acs_session := session,
                     acs_reconnect_deadline_unix_ms := Some deadline\<rparr>)\<rparr>
               in set_service rc (update_remote_status (rc_service rc) (acs_session_id active)
                    (acs_controller_device_id active) SessionState_Reconnecting None)))"

definition expire_active_reconnect ::
  "('s, 'p, 'i, 'e, 'f) remote_env \<Rightarrow> ('s, 'p, 'i, 'e, 'f) remote_coordinator \<Rightarrow> u64 \<Rightarrow> ('s, 'p, 'i, 'e, 'f, bool) remote_result" where
  "expire_active_reconnect env rc now_unix_ms =
     (let expired = (case reconnect_deadline_unix_ms rc of None \<Rightarrow> False | Some deadline \<Rightarrow> deadline \<le> now_unix_ms)
      in if expired
         then sbind (close_active env rc (Some (remote_unified_error ErrorCode_IceFailed))) (\<lambda>rc _. (rc, Inr True))
         else (rc, Inr False))"

text \<open>\<^verbatim>\<open>prepare_active_reconnect\<close> hands out a mutable reference; the callers write back through \<open>set_reconnect\<close>.\<close>

definition set_reconnect ::
  "('s, 'p, 'i, 'e, 'f) remote_coordinator \<Rightarrow> pending_session \<Rightarrow> ('s, 'p, 'i, 'e, 'f) remote_coordinator" where
  "set_reconnect rc pending = rc\<lparr>rc_active := map_option (\<lambda>active. active\<lparr>acs_reconnect := Some pending\<rparr>) (rc_active rc)\<rparr>"

definition prepare_active_reconnect ::
  "('s, 'p, 'i, 'e, 'f) remote_coordinator \<Rightarrow> string \<Rightarrow> u64 \<Rightarrow> ('s, 'p, 'i, 'e, 'f, pending_session) remote_result" where
  "prepare_active_reconnect rc request_id now_unix_ms =
     (case rc_active rc of
        None \<Rightarrow> (rc, Inl RemoteSessionError_Peer)
      | Some active \<Rightarrow>
          let pending = (case acs_reconnect active of
                Some pending \<Rightarrow> pending
              | None \<Rightarrow> pending_session_new (acs_controller_device_id active) (acs_session_id active) request_id now_unix_ms);
              pending = pending\<lparr>psn_request_id := request_id\<rparr>
          in (set_reconnect rc pending, Inr pending))"

definition peer_candidate :: "ice_candidate \<Rightarrow> peer_ice_candidate" where
  "peer_candidate candidate = \<lparr>pic2_candidate = ic_candidate candidate, pic2_sdp_mid = ic_sdp_mid candidate,
     pic2_sdp_m_line_index = ic_sdp_m_line_index candidate\<rparr>"

definition handle_active_negotiation ::
  "('s, 'p, 'i, 'e, 'f) remote_env \<Rightarrow> ('s, 'p, 'i, 'e, 'f) remote_coordinator \<Rightarrow> web_rtc_negotiation \<Rightarrow> string \<Rightarrow> u64
    \<Rightarrow> ('s, 'p, 'i, 'e, 'f, unit) remote_result" where
  "handle_active_negotiation env rc negotiation request_id now_unix_ms =
     (case rc_active rc of
        None \<Rightarrow> (rc, Inl RemoteSessionError_Peer)
      | Some active \<Rightarrow>
          if wrn_session_id negotiation \<noteq> acs_session_id active then (rc, Inl RemoteSessionError_InvalidEnvelope)
          else (case wrn_payload negotiation of
            None \<Rightarrow> (rc, Inl RemoteSessionError_InvalidEnvelope)
          | Some (WebRtcNegotiation_IceCandidate candidate) \<Rightarrow>
              if acs_reconnect active = None
                 \<and> hps_state (acs_session active) \<in> {HostSessionState_Negotiating, HostSessionState_Connected}
              then let (session, r) = add_remote_ice_candidate (re_session env) (acs_session active) (peer_candidate candidate)
                   in (rc\<lparr>rc_active := Some (active\<lparr>acs_session := session\<rparr>)\<rparr>, map_err (\<lambda>_. RemoteSessionError_Peer) r)
              else sbind (prepare_active_reconnect rc request_id now_unix_ms) (\<lambda>rc pending.
                     let (pending, r) = push_candidate pending (peer_candidate candidate)
                     in (set_reconnect rc pending, r))
          | Some (WebRtcNegotiation_Description description) \<Rightarrow>
              if session_description_type_of (wrsd_type description) \<noteq> Some SessionDescriptionType_Offer
              then (rc, Inl RemoteSessionError_InvalidEnvelope)
              else sbind (begin_active_reconnect env rc now_unix_ms) (\<lambda>rc _.
                   sbind (prepare_active_reconnect rc request_id now_unix_ms) (\<lambda>rc pending.
                     (set_reconnect rc (pending\<lparr>psn_description := Some description\<rparr>),
                      ensure RemoteSessionError_InvalidEnvelope (psn_description pending = None))))
          | Some (WebRtcNegotiation_EndOfCandidates _) \<Rightarrow> (rc, Inr ())))"

text \<open>The loop over the candidates that arrived before the description.\<close>

primrec add_candidates ::
  "('p, 'i) session_ops \<Rightarrow> ('p, 'i) host_peer_session \<Rightarrow> peer_ice_candidate list \<Rightarrow> ('p, 'i, unit) session_result" where
  "add_candidates ops s [] = (s, Inr ())"
| "add_candidates ops s (candidate # candidates) =
     sbind (add_remote_ice_candidate ops s candidate) (\<lambda>s _. add_candidates ops s candidates)"

definition restart_active ::
  "('s, 'p, 'i, 'e, 'f) remote_env \<Rightarrow> ('s, 'p, 'i, 'e, 'f) remote_coordinator \<Rightarrow> pending_session \<Rightarrow> u64
    \<Rightarrow> ('s, 'p, 'i, 'e, 'f, restarted_session) remote_result" where
  "restart_active env rc pending now_unix_ms =
     (case (psn_authentication pending, psn_description pending) of
        (Some authentication, Some description) \<Rightarrow>
          let (verifier, v) = verify_remote_offer (pe_crypto (re_pairing env)) (rc_service rc) (rc_verifier rc) authentication
                (wrsd_sdp description) (wrsd_dtls_fingerprint_sha256 description) now_unix_ms;
              rc = rc\<lparr>rc_verifier := verifier\<rparr>
          in (case map_err map_service_error v of
               Inl e \<Rightarrow> (rc, Inl e)
             | Inr verified \<Rightarrow>
                 (case rc_active rc of
                    None \<Rightarrow> (rc, Inl RemoteSessionError_Peer)
                  | Some active \<Rightarrow>
                      if di_device_id (vso_controller verified) \<noteq> acs_controller_device_id active
                         \<or> vso_session_id verified \<noteq> acs_session_id active
                      then (rc, Inl RemoteSessionError_Authentication)
                      else (case checked_add (acs_reconnect_generation active) 1 of
                        None \<Rightarrow> (rc, Inl RemoteSessionError_Service)
                      | Some generation \<Rightarrow>
                          let (session, a) = accept_reconnect_offer (re_session env) (acs_session active) (wrsd_sdp description);
                              put = (\<lambda>session generation. rc\<lparr>rc_active := Some (active\<lparr>acs_session := session,
                                acs_reconnect_generation := generation\<rparr>)\<rparr>)
                          in (case a of
                               Inl _ \<Rightarrow> (put session (acs_reconnect_generation active), Inl RemoteSessionError_Peer)
                             | Inr answer \<Rightarrow>
                                 (case map_err map_service_error (sign_remote_reconnect (re_pairing env) (rc_service rc)
                                         authentication (pa_sdp answer) (pa_dtls_fingerprint_sha256 answer) generation) of
                                    Inl e \<Rightarrow> (put session (acs_reconnect_generation active), Inl e)
                                  | Inr reconnect_authentication \<Rightarrow>
                                      (case add_candidates (re_session env) session (psn_candidates pending) of
                                         (session, Inl _) \<Rightarrow>
                                           (put session (acs_reconnect_generation active), Inl RemoteSessionError_Peer)
                                       | (session, Inr _) \<Rightarrow>
                                           (put session generation,
                                            Inr \<lparr>rst_controller_device_id = acs_controller_device_id active,
                                                 rst_session_id = acs_session_id active, rst_answer = answer,
                                                 rst_authentication = reconnect_authentication\<rparr>)))))))
      | _ \<Rightarrow> (rc, Inl RemoteSessionError_InvalidEnvelope))"

definition answer_description :: "bytes \<Rightarrow> peer_answer \<Rightarrow> signaling_envelope_payload" where
  "answer_description session_id answer = SignalingEnvelope_WebrtcNegotiation \<lparr>wrn_session_id = session_id,
     wrn_payload = Some (WebRtcNegotiation_Description
       \<lparr>wrsd_type = session_description_type_code SessionDescriptionType_Answer, wrsd_sdp = pa_sdp answer,
        wrsd_dtls_fingerprint_sha256 = pa_dtls_fingerprint_sha256 answer\<rparr>)\<rparr>"

definition reconnect_outbound ::
  "('s, 'p, 'i, 'e, 'f) remote_env \<Rightarrow> ('s, 'p, 'i, 'e, 'f) remote_coordinator \<Rightarrow> restarted_session \<Rightarrow> string \<Rightarrow> u64
    \<Rightarrow> remote_session_error + remote_session_outbound list" where
  "reconnect_outbound env rc restarted request_id now_unix_ms =
     two_outbound
       (remote_outbound env rc (rst_controller_device_id restarted) request_id now_unix_ms
         (SignalingEnvelope_SessionAuthentication
           \<lparr>sau_payload = Some (SessionAuthentication_Reconnect (rst_authentication restarted))\<rparr>))
       (remote_outbound env rc (rst_controller_device_id restarted) request_id now_unix_ms
         (answer_description (rst_session_id restarted) (rst_answer restarted)))"

definition try_restart_active ::
  "('s, 'p, 'i, 'e, 'f) remote_env \<Rightarrow> ('s, 'p, 'i, 'e, 'f) remote_coordinator \<Rightarrow> u64
    \<Rightarrow> ('s, 'p, 'i, 'e, 'f, remote_session_outbound list) remote_result" where
  "try_restart_active env rc now_unix_ms =
     (case Option.bind (rc_active rc) acs_reconnect of
        None \<Rightarrow> (rc, Inr [])
      | Some pending \<Rightarrow>
          if \<not> is_ready pending then (rc, Inr [])
          else
            let rc = rc\<lparr>rc_active := map_option (\<lambda>active. active\<lparr>acs_reconnect := None\<rparr>) (rc_active rc)\<rparr>
            in (case restart_active env rc pending now_unix_ms of
                 (rc, Inr restarted) \<Rightarrow> (rc, reconnect_outbound env rc restarted (psn_request_id pending) now_unix_ms)
               | (rc, Inl error) \<Rightarrow>
                   (rc, one_outbound (error_outbound env rc (psn_controller_device_id pending) (psn_request_id pending)
                     (if error = RemoteSessionError_Peer then ErrorCode_IceFailed else protocol_error_for error) now_unix_ms))))"

definition store_reconnect_offer ::
  "('s, 'p, 'i, 'e, 'f) remote_env \<Rightarrow> ('s, 'p, 'i, 'e, 'f) remote_coordinator \<Rightarrow> session_offer_authentication \<Rightarrow> string \<Rightarrow> u64
    \<Rightarrow> ('s, 'p, 'i, 'e, 'f, unit) remote_result" where
  "store_reconnect_offer env rc offer request_id now_unix_ms =
     sbind (begin_active_reconnect env rc now_unix_ms) (\<lambda>rc _.
     sbind (prepare_active_reconnect rc request_id now_unix_ms) (\<lambda>rc pending.
       if soa_controller_device_id offer \<noteq> psn_controller_device_id pending
          \<or> soa_session_id offer \<noteq> psn_session_id pending
       then (rc, Inl RemoteSessionError_InvalidEnvelope)
       else (set_reconnect rc (pending\<lparr>psn_authentication := Some offer\<rparr>),
             ensure RemoteSessionError_InvalidEnvelope (psn_authentication pending = None))))"

definition store_reconnect_payload ::
  "('s, 'p, 'i, 'e, 'f) remote_env \<Rightarrow> ('s, 'p, 'i, 'e, 'f) remote_coordinator \<Rightarrow> signaling_envelope \<Rightarrow> u64
    \<Rightarrow> ('s, 'p, 'i, 'e, 'f, unit) remote_result" where
  "store_reconnect_payload env rc envelope now_unix_ms =
     (case se_payload envelope of
        None \<Rightarrow> (rc, Inl RemoteSessionError_InvalidEnvelope)
      | Some (SignalingEnvelope_SessionAuthentication authentication) \<Rightarrow>
          (case sau_payload authentication of
             Some (SessionAuthentication_Offer offer) \<Rightarrow>
               store_reconnect_offer env rc offer (se_request_id envelope) now_unix_ms
           | _ \<Rightarrow> (rc, Inl RemoteSessionError_InvalidEnvelope))
      | Some (SignalingEnvelope_WebrtcNegotiation negotiation) \<Rightarrow>
          handle_active_negotiation env rc negotiation (se_request_id envelope) now_unix_ms
      | Some _ \<Rightarrow> (rc, Inl RemoteSessionError_InvalidEnvelope))"

definition handle_active_reconnect_envelope ::
  "('s, 'p, 'i, 'e, 'f) remote_env \<Rightarrow> ('s, 'p, 'i, 'e, 'f) remote_coordinator \<Rightarrow> signaling_envelope \<Rightarrow> u64
    \<Rightarrow> ('s, 'p, 'i, 'e, 'f, remote_session_outbound list) remote_result" where
  "handle_active_reconnect_envelope env rc envelope now_unix_ms =
     sbind (store_reconnect_payload env rc envelope now_unix_ms) (\<lambda>rc _. try_restart_active env rc now_unix_ms)"

section \<open>Starting a session\<close>

text \<open>\<^verbatim>\<open>let _ = session.close(); return Err(error)\<close>, after which the session is dropped.\<close>

definition give_up ::
  "('s, 'p, 'i, 'e, 'f) remote_env \<Rightarrow> ('s, 'p, 'i, 'e, 'f) remote_coordinator \<Rightarrow> ('p, 'i) host_peer_session
    \<Rightarrow> remote_session_error \<Rightarrow> ('s, 'p, 'i, 'e, 'f, 'a) remote_result" where
  "give_up env rc session error =
     (rc\<lparr>rc_retired := rc_retired rc @ [session_drop (re_session env) (fst (session_close (re_session env) session))]\<rparr>,
      Inl error)"

definition unregister_and_give_up ::
  "('s, 'p, 'i, 'e, 'f) remote_env \<Rightarrow> ('s, 'p, 'i, 'e, 'f) remote_coordinator \<Rightarrow> bytes \<Rightarrow> ('p, 'i) host_peer_session
    \<Rightarrow> remote_session_error \<Rightarrow> ('s, 'p, 'i, 'e, 'f, 'a) remote_result" where
  "unregister_and_give_up env rc session_id session error =
     give_up env (rc\<lparr>rc_service := fst (unregister_active_session (rc_service rc) session_id)\<rparr>) session error"

text \<open>The part of \<^verbatim>\<open>activate_verified_session\<close> after the session is registered, in the order of the source.\<close>

definition finish_activation ::
  "('s, 'p, 'i, 'e, 'f) remote_env \<Rightarrow> ('s, 'p, 'i, 'e, 'f) remote_coordinator \<Rightarrow> ('p, 'i) host_peer_session \<Rightarrow> 'e
    \<Rightarrow> peer_ice_candidate list \<Rightarrow> verified_session_offer \<Rightarrow> peer_answer \<Rightarrow> session_answer_authentication \<Rightarrow> u64
    \<Rightarrow> ('s, 'p, 'i, 'e, 'f, started_session) remote_result" where
  "finish_activation env rc session events candidates verified answer answer_authentication now_unix_ms =
     (let session_id = vso_session_id verified;
          controller_device_id = di_device_id (vso_controller verified);
          (service, recorded) = record_authenticated_remote_session (re_store env) (rc_service rc) controller_device_id now_unix_ms;
          rc = rc\<lparr>rc_service := service\<rparr>
      in case recorded of
           Inl error \<Rightarrow> unregister_and_give_up env rc session_id session (map_service_error error)
         | Inr _ \<Rightarrow>
             (case add_candidates (re_session env) session candidates of
                (session, Inl _) \<Rightarrow> unregister_and_give_up env rc session_id session RemoteSessionError_Peer
              | (session, Inr _) \<Rightarrow>
                  let (service, status) = update_remote_status (rc_service rc) session_id controller_device_id
                        SessionState_Connecting None;
                      rc = rc\<lparr>rc_service := service\<rparr>
                  in (case status of
                       Inl _ \<Rightarrow> unregister_and_give_up env rc session_id session RemoteSessionError_Service
                     | Inr _ \<Rightarrow>
                         (rc\<lparr>rc_active := Some \<lparr>acs_controller_device_id = controller_device_id,
                            acs_session_id = session_id, acs_session = session, acs_events = events, acs_reconnect = None,
                            acs_reconnect_generation = 0, acs_reconnect_deadline_unix_ms = None\<rparr>\<rparr>,
                          Inr \<lparr>sts_controller_device_id = controller_device_id, sts_session_id = session_id,
                               sts_answer = answer, sts_answer_authentication = answer_authentication\<rparr>))))"

definition activate_verified_session ::
  "('s, 'p, 'i, 'e, 'f) remote_env \<Rightarrow> ('s, 'p, 'i, 'e, 'f) remote_coordinator \<Rightarrow> session_offer_authentication
    \<Rightarrow> web_rtc_session_description \<Rightarrow> peer_ice_candidate list \<Rightarrow> verified_session_offer \<Rightarrow> u64
    \<Rightarrow> ('s, 'p, 'i, 'e, 'f, started_session) remote_result" where
  "activate_verified_session env rc authentication description candidates verified now_unix_ms =
     (let (factory, created) = re_create env (rc_factory rc) (rc_config rc) (from_verified verified);
          rc = rc\<lparr>rc_factory := factory\<rparr>
      in case created of
           Inl e \<Rightarrow> (rc, Inl e)
         | Inr parts \<Rightarrow>
             (case host_peer_session_new (vso_session_id verified) (vso_permissions verified) (rc_config rc)
                     (rsp_peer parts) (rsp_input parts) of
                Inl e \<Rightarrow> (rc, Inl (map_peer_error e))
              | Inr session \<Rightarrow>
                  (case accept_offer (re_session env) session (wrsd_sdp description) of
                     (session, Inl e) \<Rightarrow> give_up env rc session (map_peer_error e)
                   | (session, Inr answer) \<Rightarrow>
                       (case sign_remote_answer (re_pairing env) (rc_service rc) authentication (pa_sdp answer)
                               (pa_dtls_fingerprint_sha256 answer) of
                          Inl e \<Rightarrow> give_up env rc session (map_service_error e)
                        | Inr answer_authentication \<Rightarrow>
                            let (service, registered) = register_active_session (rc_service rc) (vso_session_id verified)
                                  (di_device_id (vso_controller verified));
                                rc = rc\<lparr>rc_service := service\<rparr>
                            in if \<not> is_ok registered then give_up env rc session RemoteSessionError_Service
                               else finish_activation env rc session (rsp_events parts) candidates verified answer
                                 answer_authentication now_unix_ms))))"

definition start_pending ::
  "('s, 'p, 'i, 'e, 'f) remote_env \<Rightarrow> ('s, 'p, 'i, 'e, 'f) remote_coordinator \<Rightarrow> pending_session \<Rightarrow> u64
    \<Rightarrow> ('s, 'p, 'i, 'e, 'f, remote_session_outbound list) remote_result" where
  "start_pending env rc pending now_unix_ms =
     (case (psn_authentication pending, psn_description pending) of
        (Some authentication, Some description) \<Rightarrow>
          sbind (set_service rc (update_remote_status (rc_service rc) (psn_session_id pending)
              (psn_controller_device_id pending) SessionState_Authenticating None)) (\<lambda>rc _.
          let (verifier, v) = verify_remote_offer (pe_crypto (re_pairing env)) (rc_service rc) (rc_verifier rc) authentication
                (wrsd_sdp description) (wrsd_dtls_fingerprint_sha256 description) now_unix_ms;
              rc = rc\<lparr>rc_verifier := verifier\<rparr>
          in case map_err map_service_error v of
               Inl e \<Rightarrow> (rc, Inl e)
             | Inr verified \<Rightarrow>
                 if di_device_id (vso_controller verified) \<noteq> psn_controller_device_id pending
                    \<or> vso_session_id verified \<noteq> psn_session_id pending
                 then (rc, Inl RemoteSessionError_Authentication)
                 else sbind (activate_verified_session env rc authentication description (psn_candidates pending) verified now_unix_ms)
                   (\<lambda>rc started. (rc, two_outbound
                      (remote_outbound env rc (sts_controller_device_id started) (psn_request_id pending) now_unix_ms
                        (SignalingEnvelope_SessionAuthentication
                          \<lparr>sau_payload = Some (SessionAuthentication_Answer (sts_answer_authentication started))\<rparr>))
                      (remote_outbound env rc (sts_controller_device_id started) (psn_request_id pending) now_unix_ms
                        (answer_description (sts_session_id started) (sts_answer started))))))
      | _ \<Rightarrow> (rc, Inl RemoteSessionError_InvalidEnvelope))"

definition try_start_pending ::
  "('s, 'p, 'i, 'e, 'f) remote_env \<Rightarrow> ('s, 'p, 'i, 'e, 'f) remote_coordinator \<Rightarrow> u64
    \<Rightarrow> ('s, 'p, 'i, 'e, 'f, remote_session_outbound list) remote_result" where
  "try_start_pending env rc now_unix_ms =
     (case rc_pending rc of
        None \<Rightarrow> (rc, Inr [])
      | Some pending \<Rightarrow>
          if \<not> is_ready pending then (rc, Inr [])
          else (case start_pending env (rc\<lparr>rc_pending := None\<rparr>) pending now_unix_ms of
            (rc, Inr messages) \<Rightarrow> (rc, Inr messages)
          | (rc, Inl error) \<Rightarrow>
              let code = protocol_error_for error;
                  rc = rc\<lparr>rc_failed_attempt := Some \<lparr>fsa_controller_device_id = psn_controller_device_id pending,
                         fsa_session_id = psn_session_id pending, fsa_failed_at_unix_ms = now_unix_ms\<rparr>,
                       rc_service := fst (update_remote_status (rc_service rc) (psn_session_id pending)
                         (psn_controller_device_id pending) SessionState_Failed (Some (remote_unified_error code)))\<rparr>
              in (rc, one_outbound (error_outbound env rc (psn_controller_device_id pending) (psn_request_id pending) code
                        now_unix_ms))))"

definition prepare_pending ::
  "('s, 'p, 'i, 'e, 'f) remote_coordinator \<Rightarrow> bytes \<Rightarrow> bytes \<Rightarrow> string \<Rightarrow> u64 \<Rightarrow> ('s, 'p, 'i, 'e, 'f) remote_coordinator \<times> bool" where
  "prepare_pending rc controller_device_id session_id request_id now_unix_ms =
     (case rc_pending rc of
        Some pending \<Rightarrow>
          if psn_controller_device_id pending = controller_device_id \<and> psn_session_id pending = session_id
          then (rc\<lparr>rc_pending := Some (pending\<lparr>psn_request_id := request_id\<rparr>)\<rparr>, True)
          else (rc, False)
      | None \<Rightarrow>
          (rc\<lparr>rc_pending := Some (pending_session_new controller_device_id session_id request_id now_unix_ms)\<rparr>, True))"

definition expire_pending ::
  "('s, 'p, 'i, 'e, 'f) remote_coordinator \<Rightarrow> u64 \<Rightarrow> ('s, 'p, 'i, 'e, 'f) remote_coordinator" where
  "expire_pending rc now_unix_ms =
     (let rc = (case rc_pending rc of
            Some pending \<Rightarrow>
              if PENDING_SESSION_LIFETIME_MS < saturating_sub now_unix_ms (psn_created_at_unix_ms pending)
              then rc\<lparr>rc_pending := None\<rparr> else rc
          | None \<Rightarrow> rc)
      in case rc_failed_attempt rc of
           Some attempt \<Rightarrow> if attempt_is_expired attempt now_unix_ms then rc\<lparr>rc_failed_attempt := None\<rparr> else rc
         | None \<Rightarrow> rc)"

section \<open>Envelopes\<close>

text \<open>The session an envelope belongs to: that of its offer or of its negotiation.\<close>

definition payload_session_id :: "signaling_envelope_payload \<Rightarrow> bytes option" where
  "payload_session_id payload =
     (case payload of
        SignalingEnvelope_SessionAuthentication authentication \<Rightarrow>
          (case sau_payload authentication of
             Some (SessionAuthentication_Offer offer) \<Rightarrow> Some (soa_session_id offer)
           | _ \<Rightarrow> None)
      | SignalingEnvelope_WebrtcNegotiation negotiation \<Rightarrow> Some (wrn_session_id negotiation)
      | _ \<Rightarrow> None)"

text \<open>What \<^verbatim>\<open>handle_pending_envelope\<close> does with the pending session it prepared.\<close>

definition update_pending ::
  "pending_session \<Rightarrow> signaling_envelope_payload \<Rightarrow> pending_session \<times> (remote_session_error + unit)" where
  "update_pending pending payload =
     (case payload of
        SignalingEnvelope_SessionAuthentication authentication \<Rightarrow>
          (case sau_payload authentication of
             Some (SessionAuthentication_Offer offer) \<Rightarrow>
               (pending\<lparr>psn_authentication := Some offer\<rparr>,
                ensure RemoteSessionError_InvalidEnvelope (psn_authentication pending = None))
           | _ \<Rightarrow> (pending, Inl RemoteSessionError_InvalidEnvelope))
      | SignalingEnvelope_WebrtcNegotiation negotiation \<Rightarrow>
          (case wrn_payload negotiation of
             None \<Rightarrow> (pending, Inl RemoteSessionError_InvalidEnvelope)
           | Some (WebRtcNegotiation_Description description) \<Rightarrow>
               if session_description_type_of (wrsd_type description) \<noteq> Some SessionDescriptionType_Offer
               then (pending, Inl RemoteSessionError_InvalidEnvelope)
               else (pending\<lparr>psn_description := Some description\<rparr>,
                     ensure RemoteSessionError_InvalidEnvelope (psn_description pending = None))
           | Some (WebRtcNegotiation_IceCandidate candidate) \<Rightarrow> push_candidate pending (peer_candidate candidate)
           | Some (WebRtcNegotiation_EndOfCandidates _) \<Rightarrow> (pending, Inr ()))
      | _ \<Rightarrow> (pending, Inl RemoteSessionError_InvalidEnvelope))"

definition advance_pending ::
  "('s, 'p, 'i, 'e, 'f) remote_env \<Rightarrow> ('s, 'p, 'i, 'e, 'f) remote_coordinator \<Rightarrow> signaling_envelope \<Rightarrow> signaling_envelope_payload
    \<Rightarrow> bytes \<Rightarrow> u64 \<Rightarrow> ('s, 'p, 'i, 'e, 'f, remote_session_outbound list) remote_result" where
  "advance_pending env rc envelope payload session_id now_unix_ms =
     (let (rc, prepared) = prepare_pending rc (se_sender_device_id envelope) session_id (se_request_id envelope) now_unix_ms
      in if \<not> prepared
         then (rc, one_outbound (error_outbound env rc (se_sender_device_id envelope) (se_request_id envelope)
                 ErrorCode_DeviceBusy now_unix_ms))
         else case rc_pending rc of
           None \<Rightarrow> (rc, Inl RemoteSessionError_Service)
         | Some pending \<Rightarrow>
             (case update_pending pending payload of
                (pending, Inl e) \<Rightarrow> (rc\<lparr>rc_pending := Some pending\<rparr>, Inl e)
              | (pending, Inr _) \<Rightarrow> try_start_pending env (rc\<lparr>rc_pending := Some pending\<rparr>) now_unix_ms))"

definition handle_pending_envelope ::
  "('s, 'p, 'i, 'e, 'f) remote_env \<Rightarrow> ('s, 'p, 'i, 'e, 'f) remote_coordinator \<Rightarrow> signaling_envelope \<Rightarrow> u64
    \<Rightarrow> ('s, 'p, 'i, 'e, 'f, remote_session_outbound list) remote_result" where
  "handle_pending_envelope env rc envelope now_unix_ms =
     (case se_payload envelope of
        None \<Rightarrow> (rc, Inl RemoteSessionError_InvalidEnvelope)
      | Some (SignalingEnvelope_SessionStatus status) \<Rightarrow>
          if session_state_of (sst_state status) \<noteq> Some SessionState_Closing then (rc, Inl RemoteSessionError_InvalidEnvelope)
          else (case rc_pending rc of
                  Some pending \<Rightarrow>
                    if psn_controller_device_id pending = se_sender_device_id envelope
                       \<and> psn_session_id pending = sst_session_id status
                    then rc\<lparr>rc_pending := None\<rparr> else rc
                | None \<Rightarrow> rc, Inr [])
      | Some payload \<Rightarrow>
          (case payload_session_id payload of
             None \<Rightarrow> (rc, Inl RemoteSessionError_InvalidEnvelope)
           | Some session_id \<Rightarrow> advance_pending env rc envelope payload session_id now_unix_ms))"

definition handle_active_envelope ::
  "('s, 'p, 'i, 'e, 'f) remote_env \<Rightarrow> ('s, 'p, 'i, 'e, 'f) remote_coordinator \<Rightarrow> signaling_envelope \<Rightarrow> u64
    \<Rightarrow> ('s, 'p, 'i, 'e, 'f, remote_session_outbound list) remote_result" where
  "handle_active_envelope env rc envelope now_unix_ms =
     (case se_payload envelope of
        Some (SignalingEnvelope_SessionAuthentication _) \<Rightarrow> handle_active_reconnect_envelope env rc envelope now_unix_ms
      | Some (SignalingEnvelope_WebrtcNegotiation _) \<Rightarrow> handle_active_reconnect_envelope env rc envelope now_unix_ms
      | Some (SignalingEnvelope_SessionStatus status) \<Rightarrow>
          if session_state_of (sst_state status) \<noteq> Some SessionState_Closing then (rc, Inl RemoteSessionError_InvalidEnvelope)
          else (case rc_active rc of
                  None \<Rightarrow> (rc, Inl RemoteSessionError_Peer)
                | Some active \<Rightarrow>
                    if sst_session_id status \<noteq> acs_session_id active then (rc, Inl RemoteSessionError_InvalidEnvelope)
                    else sbind (close_active env rc None) (\<lambda>rc _. (rc, Inr [])))
      | _ \<Rightarrow> (rc, Inl RemoteSessionError_InvalidEnvelope))"

definition attempt_failed_before :: "('s, 'p, 'i, 'e, 'f) remote_coordinator \<Rightarrow> signaling_envelope \<Rightarrow> bool" where
  "attempt_failed_before rc envelope =
     (case (Option.bind (se_payload envelope) payload_session_id, rc_failed_attempt rc) of
        (Some session_id, Some attempt) \<Rightarrow> attempt_matches attempt (se_sender_device_id envelope) session_id
      | _ \<Rightarrow> False)"

definition dispatch_envelope ::
  "('s, 'p, 'i, 'e, 'f) remote_env \<Rightarrow> ('s, 'p, 'i, 'e, 'f) remote_coordinator \<Rightarrow> signaling_envelope \<Rightarrow> u64
    \<Rightarrow> ('s, 'p, 'i, 'e, 'f, remote_session_outbound list) remote_result" where
  "dispatch_envelope env rc envelope now_unix_ms =
     (if attempt_failed_before rc envelope then (rc, Inr [])
      else case rc_active rc of
        Some active \<Rightarrow>
          if acs_controller_device_id active \<noteq> se_sender_device_id envelope
          then (rc, one_outbound (error_outbound env rc (se_sender_device_id envelope) (se_request_id envelope)
                  ErrorCode_DeviceBusy now_unix_ms))
          else handle_active_envelope env rc envelope now_unix_ms
      | None \<Rightarrow> handle_pending_envelope env rc envelope now_unix_ms)"

definition handle_routed_session ::
  "('s, 'p, 'i, 'e, 'f) remote_env \<Rightarrow> ('s, 'p, 'i, 'e, 'f) remote_coordinator \<Rightarrow> bytes \<Rightarrow> bytes \<Rightarrow> u64
    \<Rightarrow> ('s, 'p, 'i, 'e, 'f, remote_session_outbound list) remote_result" where
  "handle_routed_session env rc routed_sender_device_id encoded now_unix_ms =
     (if rc_closed rc then (rc, Inl RemoteSessionError_Closed)
      else case decode_and_validate_signaling_envelope (re_decode env) encoded of
        Inl _ \<Rightarrow> (rc, Inl RemoteSessionError_InvalidEnvelope)
      | Inr envelope \<Rightarrow>
          if se_sender_device_id envelope \<noteq> routed_sender_device_id \<or> se_recipient_device_id envelope \<noteq> host_device_id rc
          then (rc, Inl RemoteSessionError_InvalidEnvelope)
          else sbind (expire_active_reconnect env (expire_pending rc now_unix_ms) now_unix_ms)
                 (\<lambda>rc _. dispatch_envelope env rc envelope now_unix_ms))"

section \<open>Peer events\<close>

definition input_suspended :: "('s, 'p, 'i, 'e, 'f) remote_coordinator \<Rightarrow> bool" where
  "input_suspended rc \<longleftrightarrow> reconnect_deadline_unix_ms rc \<noteq> None"

definition close_after_input_failure ::
  "('s, 'p, 'i, 'e, 'f) remote_env \<Rightarrow> ('s, 'p, 'i, 'e, 'f) remote_coordinator
    \<Rightarrow> ('s, 'p, 'i, 'e, 'f, remote_session_outbound list) remote_result" where
  "close_after_input_failure env rc =
     sbind (close_active env rc (Some (remote_unified_error ErrorCode_InputInjectionFailed)))
       (\<lambda>rc _. (rc, Inl RemoteSessionError_Input))"

definition peer_connected ::
  "('s, 'p, 'i, 'e, 'f) remote_env \<Rightarrow> ('s, 'p, 'i, 'e, 'f) remote_coordinator \<Rightarrow> ('s, 'p, 'i, 'e, 'f, remote_session_outbound list) remote_result" where
  "peer_connected env rc =
     (case rc_active rc of
        None \<Rightarrow> (rc, Inl RemoteSessionError_Peer)
      | Some active \<Rightarrow>
          (case mark_connected (acs_session active) of
             (session, Inl _) \<Rightarrow> (rc\<lparr>rc_active := Some (active\<lparr>acs_session := session\<rparr>)\<rparr>, Inl RemoteSessionError_Peer)
           | (session, Inr _) \<Rightarrow>
               let rc = rc\<lparr>rc_active := Some (active\<lparr>acs_session := session, acs_reconnect := None,
                     acs_reconnect_deadline_unix_ms := None\<rparr>)\<rparr>
               in sbind (set_service rc (update_remote_status (rc_service rc) (acs_session_id active)
                    (acs_controller_device_id active) SessionState_Connected None)) (\<lambda>rc _. (rc, Inr []))))"

definition peer_local_candidate ::
  "('s, 'p, 'i, 'e, 'f) remote_env \<Rightarrow> ('s, 'p, 'i, 'e, 'f) remote_coordinator \<Rightarrow> peer_ice_candidate \<Rightarrow> u64
    \<Rightarrow> ('s, 'p, 'i, 'e, 'f, remote_session_outbound list) remote_result" where
  "peer_local_candidate env rc candidate now_unix_ms =
     (case rc_active rc of
        None \<Rightarrow> (rc, Inl RemoteSessionError_Peer)
      | Some active \<Rightarrow>
          (rc, one_outbound (remote_outbound env rc (acs_controller_device_id active) ''host-ice'' now_unix_ms
            (SignalingEnvelope_WebrtcNegotiation \<lparr>wrn_session_id = acs_session_id active,
               wrn_payload = Some (WebRtcNegotiation_IceCandidate \<lparr>ic_candidate = pic2_candidate candidate,
                 ic_sdp_mid = pic2_sdp_mid candidate, ic_sdp_m_line_index = pic2_sdp_m_line_index candidate\<rparr>)\<rparr>))))"

definition peer_reliable_input ::
  "('s, 'p, 'i, 'e, 'f) remote_env \<Rightarrow> ('s, 'p, 'i, 'e, 'f) remote_coordinator \<Rightarrow> bytes \<Rightarrow> ('s, 'p, 'i, 'e, 'f, remote_session_outbound list) remote_result" where
  "peer_reliable_input env rc encoded =
     (if input_suspended rc then (rc, Inr [])
      else case rc_active rc of
        None \<Rightarrow> (rc, Inl RemoteSessionError_Input)
      | Some active \<Rightarrow>
          (case handle_reliable (re_session env) (acs_session active) encoded of
             (session, Inl _) \<Rightarrow>
               close_after_input_failure env (rc\<lparr>rc_active := Some (active\<lparr>acs_session := session\<rparr>)\<rparr>)
           | (session, Inr _) \<Rightarrow>
               let rc = rc\<lparr>rc_active := Some (active\<lparr>acs_session := session\<rparr>)\<rparr>
               in if hps_state session = HostSessionState_Closed
                  then sbind (close_active env rc None) (\<lambda>rc _. (rc, Inr []))
                  else (rc, Inr [])))"

definition peer_fast_pointer ::
  "('s, 'p, 'i, 'e, 'f) remote_env \<Rightarrow> ('s, 'p, 'i, 'e, 'f) remote_coordinator \<Rightarrow> bytes \<Rightarrow> ('s, 'p, 'i, 'e, 'f, remote_session_outbound list) remote_result" where
  "peer_fast_pointer env rc encoded =
     (if input_suspended rc then (rc, Inr [])
      else case rc_active rc of
        None \<Rightarrow> (rc, Inl RemoteSessionError_Input)
      | Some active \<Rightarrow>
          (case handle_pointer_fast (re_session env) (acs_session active) encoded of
             (session, Inl _) \<Rightarrow>
               close_after_input_failure env (rc\<lparr>rc_active := Some (active\<lparr>acs_session := session\<rparr>)\<rparr>)
           | (session, Inr _) \<Rightarrow> (rc\<lparr>rc_active := Some (active\<lparr>acs_session := session\<rparr>)\<rparr>, Inr [])))"

definition peer_interrupted ::
  "('s, 'p, 'i, 'e, 'f) remote_env \<Rightarrow> ('s, 'p, 'i, 'e, 'f) remote_coordinator \<Rightarrow> u64 \<Rightarrow> ('s, 'p, 'i, 'e, 'f, remote_session_outbound list) remote_result" where
  "peer_interrupted env rc now_unix_ms = sbind (begin_active_reconnect env rc now_unix_ms) (\<lambda>rc _. (rc, Inr []))"

fun apply_peer_event ::
  "('s, 'p, 'i, 'e, 'f) remote_env \<Rightarrow> ('s, 'p, 'i, 'e, 'f) remote_coordinator \<Rightarrow> remote_peer_event \<Rightarrow> u64
    \<Rightarrow> ('s, 'p, 'i, 'e, 'f, remote_session_outbound list) remote_result" where
  "apply_peer_event env rc RemotePeerEvent_Connected now_unix_ms = peer_connected env rc"
| "apply_peer_event env rc (RemotePeerEvent_LocalIceCandidate candidate) now_unix_ms =
     peer_local_candidate env rc candidate now_unix_ms"
| "apply_peer_event env rc (RemotePeerEvent_ReliableInput encoded) now_unix_ms = peer_reliable_input env rc encoded"
| "apply_peer_event env rc (RemotePeerEvent_FastPointer encoded) now_unix_ms = peer_fast_pointer env rc encoded"
| "apply_peer_event env rc RemotePeerEvent_Disconnected now_unix_ms = peer_interrupted env rc now_unix_ms"
| "apply_peer_event env rc RemotePeerEvent_Failed now_unix_ms = peer_interrupted env rc now_unix_ms"
| "apply_peer_event env rc RemotePeerEvent_LocalStop now_unix_ms = close_active_with_remote_notification env rc now_unix_ms None"

definition handle_peer_event ::
  "('s, 'p, 'i, 'e, 'f) remote_env \<Rightarrow> ('s, 'p, 'i, 'e, 'f) remote_coordinator \<Rightarrow> remote_peer_event \<Rightarrow> u64
    \<Rightarrow> ('s, 'p, 'i, 'e, 'f, remote_session_outbound list) remote_result" where
  "handle_peer_event env rc event now_unix_ms =
     (if rc_closed rc then (rc, Inl RemoteSessionError_Closed)
      else sbind (expire_active_reconnect env rc now_unix_ms) (\<lambda>rc expired.
        if expired then (rc, Inr []) else apply_peer_event env rc event now_unix_ms))"

definition next_peer_event ::
  "('s, 'p, 'i, 'e, 'f) remote_env \<Rightarrow> ('s, 'p, 'i, 'e, 'f) remote_coordinator
    \<Rightarrow> ('s, 'p, 'i, 'e, 'f, remote_peer_event option) remote_result" where
  "next_peer_event env rc =
     (case rc_active rc of
        None \<Rightarrow> (rc, Inr None)
      | Some active \<Rightarrow>
          (case re_try_recv env (acs_events active) of
             (events, Inr event) \<Rightarrow> (rc\<lparr>rc_active := Some (active\<lparr>acs_events := events\<rparr>)\<rparr>, Inr event)
           | (events, Inl error) \<Rightarrow>
               sbind (close_active env (rc\<lparr>rc_active := Some (active\<lparr>acs_events := events\<rparr>)\<rparr>)
                   (Some (remote_unified_error (protocol_error_for error))))
                 (\<lambda>rc _. (rc, Inl error))))"

definition poll_peer_event ::
  "('s, 'p, 'i, 'e, 'f) remote_env \<Rightarrow> ('s, 'p, 'i, 'e, 'f) remote_coordinator \<Rightarrow> u64
    \<Rightarrow> ('s, 'p, 'i, 'e, 'f, remote_session_outbound list) remote_result" where
  "poll_peer_event env rc now_unix_ms =
     sbind (expire_active_reconnect env rc now_unix_ms) (\<lambda>rc expired.
       if expired then (rc, Inr [])
       else sbind (next_peer_event env rc) (\<lambda>rc event.
         case event of None \<Rightarrow> (rc, Inr []) | Some event \<Rightarrow> handle_peer_event env rc event now_unix_ms))"

definition MAX_EVENTS :: nat where [limits]: "MAX_EVENTS = 64"

text \<open>The drain loop; \<open>elapsed k\<close> says whether the time budget is used up with \<open>k\<close> iterations left.\<close>

primrec drain_peer_events ::
  "('s, 'p, 'i, 'e, 'f) remote_env \<Rightarrow> (nat \<Rightarrow> bool) \<Rightarrow> u64 \<Rightarrow> nat \<Rightarrow> ('s, 'p, 'i, 'e, 'f) remote_coordinator
    \<Rightarrow> ('s, 'p, 'i, 'e, 'f, remote_session_outbound list) remote_result" where
  "drain_peer_events env elapsed now_unix_ms 0 rc = (rc, Inr [])"
| "drain_peer_events env elapsed now_unix_ms (Suc k) rc =
     sbind (next_peer_event env rc) (\<lambda>rc event.
       case event of
         None \<Rightarrow> (rc, Inr [])
       | Some event \<Rightarrow>
           sbind (handle_peer_event env rc event now_unix_ms) (\<lambda>rc messages.
             if messages \<noteq> [] \<or> elapsed k then (rc, Inr messages)
             else drain_peer_events env elapsed now_unix_ms k rc))"

definition poll_peer_events_with_budget ::
  "('s, 'p, 'i, 'e, 'f) remote_env \<Rightarrow> ('s, 'p, 'i, 'e, 'f) remote_coordinator \<Rightarrow> u64 \<Rightarrow> (nat \<Rightarrow> bool)
    \<Rightarrow> ('s, 'p, 'i, 'e, 'f, remote_session_outbound list) remote_result" where
  "poll_peer_events_with_budget env rc now_unix_ms elapsed =
     sbind (expire_active_reconnect env rc now_unix_ms) (\<lambda>rc expired.
       if expired then (rc, Inr []) else drain_peer_events env elapsed now_unix_ms MAX_EVENTS rc)"

section \<open>Losing the transport, and the end\<close>

definition signaling_lost_session ::
  "('s, 'p, 'i, 'e, 'f) remote_env \<Rightarrow> ('s, 'p, 'i, 'e, 'f) remote_coordinator \<Rightarrow> u64 \<Rightarrow> ('s, 'p, 'i, 'e, 'f, unit) remote_result" where
  "signaling_lost_session env rc now_unix_ms =
     (let rc = rc\<lparr>rc_pending := None\<rparr>
      in if rc_active rc = None then (rc, Inr ())
         else case begin_active_reconnect env rc now_unix_ms of
           (rc, Inr _) \<Rightarrow> (rc, Inr ())
         | (rc, Inl reconnect_error) \<Rightarrow>
             sbind (close_active env rc (Some (remote_unified_error ErrorCode_IceFailed))) (\<lambda>rc _. (rc, Inl reconnect_error)))"

definition privileged_route_changed ::
  "('s, 'p, 'i, 'e, 'f) remote_env \<Rightarrow> ('s, 'p, 'i, 'e, 'f) remote_coordinator \<Rightarrow> u64 \<Rightarrow> ('s, 'p, 'i, 'e, 'f, unit) remote_result" where
  "privileged_route_changed env rc now_unix_ms =
     (if rc_active rc \<noteq> None then begin_active_reconnect env rc now_unix_ms else (rc, Inr ()))"

definition coordinator_shutdown ::
  "('s, 'p, 'i, 'e, 'f) remote_env \<Rightarrow> ('s, 'p, 'i, 'e, 'f) remote_coordinator \<Rightarrow> ('s, 'p, 'i, 'e, 'f, unit) remote_result" where
  "coordinator_shutdown env rc =
     sbind (close_active env (rc\<lparr>rc_pending := None, rc_failed_attempt := None\<rparr>) None)
       (\<lambda>rc _. (rc\<lparr>rc_closed := True\<rparr>, Inr ()))"

definition coordinator_drop ::
  "('s, 'p, 'i, 'e, 'f) remote_env \<Rightarrow> ('s, 'p, 'i, 'e, 'f) remote_coordinator \<Rightarrow> ('s, 'p, 'i, 'e, 'f) remote_coordinator" where
  "coordinator_drop env rc = fst (close_active env (rc\<lparr>rc_pending := None, rc_failed_attempt := None\<rparr>) None)"

section \<open>Invariant\<close>

text \<open>A peer session that was created for a session id and a set of permissions and then only driven through its operations.
  Every theorem about runs of a peer session speaks about such a session.\<close>

definition driven :: "('p, 'i) session_ops \<Rightarrow> bytes \<Rightarrow> session_permission list \<Rightarrow> ('p, 'i) host_peer_session \<Rightarrow> bool" where
  "driven ops sid permissions s \<longleftrightarrow> (\<exists>config peer input s0 xs.
     host_peer_session_new sid permissions config peer input = Inr s0 \<and> s = fst (run_steps (peer_step ops) s0 xs))"

lemma driven_new: "host_peer_session_new sid ps config peer input = Inr s \<Longrightarrow> driven ops sid ps s"
  unfolding driven_def by (intro exI [of _ config] exI [of _ peer] exI [of _ input] exI [of _ s] exI [of _ "[]"]) simp

lemma driven_step: "driven ops sid ps s \<Longrightarrow> driven ops sid ps (fst (peer_step ops s x))"
  unfolding driven_def
proof (elim exE conjE)
  fix config peer input s0 xs
  assume "host_peer_session_new sid ps config peer input = Inr s0" "s = fst (run_steps (peer_step ops) s0 xs)"
  then show "\<exists>config peer input s0 xs. host_peer_session_new sid ps config peer input = Inr s0
      \<and> fst (peer_step ops s x) = fst (run_steps (peer_step ops) s0 xs)"
    by (intro exI [of _ config] exI [of _ peer] exI [of _ input] exI [of _ s0] exI [of _ "xs @ [x]"])
      (simp add: fst_run_steps_append split_def Let_def)
qed

lemma driven_ops:
  assumes "driven ops sid ps s"
  shows "driven ops sid ps (fst (accept_offer ops s sdp))" "driven ops sid ps (fst (mark_connected s))"
    "driven ops sid ps (fst (begin_reconnect ops s))" "driven ops sid ps (fst (accept_reconnect_offer ops s sdp))"
    "driven ops sid ps (fst (add_remote_ice_candidate ops s c))" "driven ops sid ps (fst (handle_reliable ops s bs))"
    "driven ops sid ps (fst (handle_pointer_fast ops s bs))" "driven ops sid ps (fst (session_close ops s))"
    "driven ops sid ps (session_drop ops s)"
  using driven_step [OF assms, of "AcceptOffer sdp"] driven_step [OF assms, of MarkConnected]
    driven_step [OF assms, of BeginReconnect] driven_step [OF assms, of "AcceptReconnectOffer sdp"]
    driven_step [OF assms, of "AddRemoteIceCandidate c"] driven_step [OF assms, of "Reliable bs"]
    driven_step [OF assms, of "PointerFast bs"] driven_step [OF assms, of ClosePeer]
  by (simp_all add: session_drop_def)

lemma driven_candidates: "driven ops sid ps s \<Longrightarrow> driven ops sid ps (fst (add_candidates ops s cs))"
proof (induction cs arbitrary: s)
  case (Cons c cs)
  obtain t r where t: "add_remote_ice_candidate ops s c = (t, r)" by fastforce
  have "driven ops sid ps t" using driven_ops(5) [OF Cons.prems, of c] t by simp
  then show ?case using Cons.IH t by (cases r) simp_all
qed simp

lemma driven_binding:
  assumes "driven ops sid ps s"
  shows "hps_session_id s = sid" "hps_input_allowed s \<longleftrightarrow> SessionPermission_ControlInput \<in> set ps" "length sid = 16"
proof -
  obtain config peer input s0 xs where s: "host_peer_session_new sid ps config peer input = Inr s0"
    "s = fst (run_steps (peer_step ops) s0 xs)"
    using assms by (auto simp: driven_def)
  have "session_binding s0 = (sid, SessionPermission_ControlInput \<in> set ps)"
    using s(1) by (auto simp: host_peer_session_new_def session_binding_def bind_res_Inr split: if_splits)
  then have "session_binding s = (sid, SessionPermission_ControlInput \<in> set ps)"
    unfolding s(2) by (rule peer_binding.run_inv)
  then show "hps_session_id s = sid" "hps_input_allowed s \<longleftrightarrow> SessionPermission_ControlInput \<in> set ps" "length sid = 16"
    using s(1) by (auto simp: session_binding_def host_peer_session_new_def limits split: if_splits)
qed

lemma candidate_state: "hps_state (fst (add_remote_ice_candidate ops s c)) = hps_state s"
  by (simp add: add_remote_ice_candidate_def split_def Let_def)

lemma candidates_state: "hps_state (fst (add_candidates ops s cs)) = hps_state s"
proof (induction cs arbitrary: s)
  case (Cons c cs)
  obtain t r where t: "add_remote_ice_candidate ops s c = (t, r)" by fastforce
  then show ?case using Cons.IH [of t] candidate_state [of ops s c] by (cases r) simp_all
qed simp

lemma begin_reconnect_state:
  "begin_reconnect ops s = (t, Inr u) \<Longrightarrow> hps_state t = HostSessionState_Reconnecting"
  "begin_reconnect ops s = (t, Inl e) \<Longrightarrow> hps_state t = hps_state s"
  using release_all_kept(1) [of ops s]
  by (cases "session_release_all ops s"; cases "snd (session_release_all ops s)";
      auto simp: begin_reconnect_def split: if_splits)+

lemma accept_reconnect_state:
  "accept_reconnect_offer ops s sdp = (t, Inr a) \<Longrightarrow> hps_state t = HostSessionState_Negotiating"
  "accept_reconnect_offer ops s sdp = (t, Inl e) \<Longrightarrow> hps_state t \<in> {hps_state s, HostSessionState_Reconnecting}"
  by (auto simp: accept_reconnect_offer_def Let_def split: if_splits prod.splits sum.splits)

lemma accept_offer_state:
  "accept_offer ops s sdp = (t, Inr a) \<Longrightarrow> hps_state t = HostSessionState_Negotiating"
  by (auto simp: accept_offer_def Let_def split: if_splits prod.splits sum.splits)

lemma drop_state [simp]: "hps_state (session_drop ops s) = HostSessionState_Closed"
  by (simp add: session_drop_def)

text \<open>What is kept of candidates is bounded, and the byte count is the number of bytes kept.\<close>

definition pending_ok :: "pending_session \<Rightarrow> bool" where
  "pending_ok p \<longleftrightarrow> length (psn_candidates p) \<le> 64 \<and> psn_candidate_bytes p \<le> 65536
     \<and> psn_candidate_bytes p = (\<Sum>c \<leftarrow> psn_candidates p. length (pic2_candidate c) + length (pic2_sdp_mid c))"

lemma pending_ok_new [simp]: "pending_ok (pending_session_new d i r t)"
  by (simp add: pending_ok_def pending_session_new_def)

lemma pending_ok_updates [simp]:
  "pending_ok (p\<lparr>psn_request_id := r\<rparr>) = pending_ok p" "pending_ok (p\<lparr>psn_authentication := a\<rparr>) = pending_ok p"
  "pending_ok (p\<lparr>psn_description := d\<rparr>) = pending_ok p"
  by (simp_all add: pending_ok_def)

lemma pending_ok_push: "pending_ok p \<Longrightarrow> pending_ok (fst (push_candidate p c))"
  by (auto simp: push_candidate_def pending_ok_def limits checked_add_usize_def Option.bind_eq_Some_conv split: option.splits)

lemma push_kept [simp]:
  "psn_controller_device_id (fst (push_candidate p c)) = psn_controller_device_id p"
  "psn_session_id (fst (push_candidate p c)) = psn_session_id p"
  "psn_authentication (fst (push_candidate p c)) = psn_authentication p"
  "psn_description (fst (push_candidate p c)) = psn_description p"
  by (simp_all add: push_candidate_def split: option.splits)

definition reconnect_ok :: "('p, 'i, 'e) active_session \<Rightarrow> pending_session \<Rightarrow> bool" where
  "reconnect_ok a p \<longleftrightarrow> pending_ok p \<and> psn_controller_device_id p = acs_controller_device_id a
     \<and> psn_session_id p = acs_session_id a
     \<and> (psn_authentication p \<noteq> None \<or> psn_description p \<noteq> None \<longrightarrow> acs_reconnect_deadline_unix_ms a \<noteq> None)"

definition active_ok :: "('p, 'i) session_ops \<Rightarrow> ('p, 'i, 'e) active_session \<Rightarrow> bool" where
  "active_ok ops a \<longleftrightarrow> (\<exists>ps. driven ops (acs_session_id a) ps (acs_session a))
     \<and> length (acs_controller_device_id a) = 32
     \<and> hps_state (acs_session a) \<in> {HostSessionState_Negotiating, HostSessionState_Connected, HostSessionState_Reconnecting}
     \<and> (hps_state (acs_session a) = HostSessionState_Connected \<longrightarrow> acs_reconnect_deadline_unix_ms a = None)
     \<and> (hps_state (acs_session a) = HostSessionState_Reconnecting \<longrightarrow> acs_reconnect_deadline_unix_ms a \<noteq> None)
     \<and> (\<forall>p. acs_reconnect a = Some p \<longrightarrow> reconnect_ok a p)"

definition retired_ok :: "('p, 'i) session_ops \<Rightarrow> ('p, 'i) host_peer_session \<Rightarrow> bool" where
  "retired_ok ops s \<longleftrightarrow> hps_state s = HostSessionState_Closed \<and> (\<exists>sid ps. driven ops sid ps s)"

definition verifier_ok :: "('s, 'p, 'i, 'e, 'f) remote_coordinator \<Rightarrow> bool" where
  "verifier_ok rc \<longleftrightarrow> verifier_inv (rc_verifier rc) \<and> ov_host_device_id (rc_verifier rc) = host_device_id rc"

definition remote_inv :: "('s, 'p, 'i, 'e, 'f) remote_env \<Rightarrow> ('s, 'p, 'i, 'e, 'f) remote_coordinator \<Rightarrow> bool" where
  "remote_inv env rc \<longleftrightarrow> service_inv (re_pairing env) (rc_service rc) \<and> verifier_ok rc
     \<and> (\<forall>p. rc_pending rc = Some p \<longrightarrow> pending_ok p)
     \<and> (\<forall>a. rc_active rc = Some a \<longrightarrow> active_ok (re_session env) a \<and> rc_pending rc = None)
     \<and> (\<forall>s \<in> set (rc_retired rc). retired_ok (re_session env) s)
     \<and> (rc_closed rc \<longrightarrow> rc_active rc = None)"

lemma inv_service:
  assumes "remote_inv env rc" "service_inv (re_pairing env) sv" "sv_identity sv = sv_identity (rc_service rc)"
  shows "remote_inv env (rc\<lparr>rc_service := sv\<rparr>)"
  using assms by (simp add: remote_inv_def verifier_ok_def host_device_id_def)

lemma inv_remote_status:
  assumes "remote_inv env rc"
  shows "remote_inv env (rc\<lparr>rc_service := fst (update_remote_status (rc_service rc) i d st e)\<rparr>)"
  using assms by (intro inv_service) (simp_all add: remote_inv_def inv_remote_update)

lemma inv_set_status:
  "remote_inv env rc \<Longrightarrow> remote_inv env (fst (set_service rc (update_remote_status (rc_service rc) i d st e)))"
  by (simp add: set_service_def inv_remote_status)

lemma inv_set_active:
  assumes "remote_inv env rc" "rc_active rc = Some a" "active_ok (re_session env) b"
  shows "remote_inv env (rc\<lparr>rc_active := Some b\<rparr>)"
  using assms by (auto simp: remote_inv_def verifier_ok_def host_device_id_def)

lemma inv_activeD:
  assumes "remote_inv env rc" "rc_active rc = Some a"
  shows "active_ok (re_session env) a" "rc_pending rc = None" "\<not> rc_closed rc"
  using assms by (auto simp: remote_inv_def)

lemma inv_verifier:
  assumes "remote_inv env rc" "verifier_inv v" "ov_host_device_id v = ov_host_device_id (rc_verifier rc)"
  shows "remote_inv env (rc\<lparr>rc_verifier := v\<rparr>)"
  using assms by (simp add: remote_inv_def verifier_ok_def host_device_id_def)

lemma inv_reset:
  assumes "remote_inv env rc"
  shows "remote_inv env (rc\<lparr>rc_pending := None\<rparr>)" "remote_inv env (rc\<lparr>rc_failed_attempt := f\<rparr>)"
    "remote_inv env (rc\<lparr>rc_factory := g\<rparr>)"
  using assms by (auto simp: remote_inv_def verifier_ok_def host_device_id_def)

lemma inv_pending:
  assumes "remote_inv env rc" "rc_active rc = None" "pending_ok p"
  shows "remote_inv env (rc\<lparr>rc_pending := Some p\<rparr>)"
  using assms by (auto simp: remote_inv_def verifier_ok_def host_device_id_def)

lemma inv_retire:
  assumes "remote_inv env rc" "driven (re_session env) sid ps s"
  shows "remote_inv env (rc\<lparr>rc_retired := rc_retired rc @ [session_drop (re_session env) s]\<rparr>)"
proof -
  have "retired_ok (re_session env) (session_drop (re_session env) s)"
    using driven_ops(9) [OF assms(2)] by (auto simp: retired_ok_def)
  then show ?thesis using assms(1) by (auto simp: remote_inv_def verifier_ok_def host_device_id_def)
qed

lemma verify_remote_kept:
  assumes "verifier_inv v"
  shows "verifier_inv (fst (verify_remote_offer c sv v a sdp fp now))"
    "ov_host_device_id (fst (verify_remote_offer c sv v a sdp fp now)) = ov_host_device_id v"
proof -
  show "ov_host_device_id (fst (verify_remote_offer c sv v a sdp fp now)) = ov_host_device_id v"
    by (simp add: verify_remote_offer_def offer_verify_def Let_def split: mutex.splits sum.splits prod.splits)
  show "verifier_inv (fst (verify_remote_offer c sv v a sdp fp now))"
  proof (cases "sv_authorization sv")
    case (Healthy reg)
    then show ?thesis
      using verifier.step_inv [OF assms, of c "\<lparr>vr_auth = a, vr_sdp = sdp, vr_fingerprint = fp, vr_registry = reg, vr_now = now\<rparr>"]
      by (simp add: verify_remote_offer_def verify_step_def)
  qed (simp add: verify_remote_offer_def assms)
qed

lemma inv_verify:
  assumes "remote_inv env rc"
  shows "remote_inv env (rc\<lparr>rc_verifier := fst (verify_remote_offer c sv (rc_verifier rc) a sdp fp now)\<rparr>)"
proof -
  have "verifier_inv (rc_verifier rc)" using assms by (simp add: remote_inv_def verifier_ok_def)
  then show ?thesis by (intro inv_verifier [OF assms] verify_remote_kept)
qed

text \<open>Closing: the session is gone from the coordinator and closed, whatever else failed on the way.\<close>

lemma close_active_effect:
  assumes "rc_active rc = Some a"
  shows "rc_active (fst (close_active env rc e)) = None"
    "rc_retired (fst (close_active env rc e))
       = rc_retired rc @ [session_drop (re_session env) (fst (session_close (re_session env) (acs_session a)))]"
    "rc_service (fst (close_active env rc e)) =
       fst (case e of Some u \<Rightarrow> update_remote_status (fst (unregister_active_session (fst (update_remote_status (rc_service rc)
             (acs_session_id a) (acs_controller_device_id a) SessionState_Closing None)) (acs_session_id a)))
             (acs_session_id a) (acs_controller_device_id a) SessionState_Failed (Some u)
         | None \<Rightarrow> update_remote_status (fst (unregister_active_session (fst (update_remote_status (rc_service rc)
             (acs_session_id a) (acs_controller_device_id a) SessionState_Closing None)) (acs_session_id a))) [] [] SessionState_Idle None)"
  using assms by (simp_all add: close_active_def split_def Let_def)

lemma close_active_kept [simp]:
  "rc_pending (fst (close_active env rc e)) = rc_pending rc" "rc_closed (fst (close_active env rc e)) = rc_closed rc"
  "rc_verifier (fst (close_active env rc e)) = rc_verifier rc" "rc_failed_attempt (fst (close_active env rc e)) = rc_failed_attempt rc"
  "rc_active (fst (close_active env rc e)) = None"
  by (simp_all add: close_active_def set_service_def split_def Let_def split: option.splits)

lemma inv_close_any:
  assumes "remote_inv env (rc\<lparr>rc_active := None\<rparr>)" "rc_active rc = Some a" "driven (re_session env) sid ps (acs_session a)"
  shows "remote_inv env (fst (close_active env rc e))"
proof -
  define sv where "sv = rc_service (fst (close_active env rc e))"
  have sv: "service_inv (re_pairing env) sv" "sv_identity sv = sv_identity (rc_service rc)"
    using assms(1) unfolding sv_def close_active_effect(3) [OF assms(2)]
    by (auto simp: remote_inv_def inv_remote_update inv_session_ops split: option.splits)
  have "fst (close_active env rc e) = rc\<lparr>rc_active := None, rc_retired := rc_retired rc @ [session_drop (re_session env)
      (fst (session_close (re_session env) (acs_session a)))], rc_service := sv\<rparr>"
    using assms(2) unfolding sv_def by (simp add: close_active_def split_def Let_def)
  moreover have "remote_inv env (rc\<lparr>rc_active := None, rc_retired := rc_retired rc @ [session_drop (re_session env)
      (fst (session_close (re_session env) (acs_session a)))]\<rparr>)"
    using inv_retire [OF assms(1) driven_ops(8) [OF assms(3)]] by simp
  ultimately show ?thesis using inv_service [of env _ sv] sv by fastforce
qed

lemma inv_close_active:
  assumes "remote_inv env rc"
  shows "remote_inv env (fst (close_active env rc e))"
proof (cases "rc_active rc")
  case None
  then show ?thesis using inv_set_status [OF assms] by (simp add: close_active_def assms)
next
  case (Some a)
  obtain ps where "driven (re_session env) (acs_session_id a) ps (acs_session a)"
    using inv_activeD(1) [OF assms Some] by (auto simp: active_ok_def)
  moreover have "remote_inv env (rc\<lparr>rc_active := None\<rparr>)"
    using assms Some by (auto simp: remote_inv_def verifier_ok_def host_device_id_def)
  ultimately show ?thesis using Some by (intro inv_close_any)
qed

text \<open>Closing after a call that left the peer session in whatever state.\<close>

lemma inv_close_changed:
  assumes "remote_inv env rc" "rc_active rc = Some a" "driven (re_session env) sid ps s"
  shows "remote_inv env (fst (close_active env (rc\<lparr>rc_active := Some (a\<lparr>acs_session := s\<rparr>)\<rparr>) e))"
proof (rule inv_close_any)
  show "remote_inv env (rc\<lparr>rc_active := Some (a\<lparr>acs_session := s\<rparr>), rc_active := None\<rparr>)"
    using assms(1,2) by (auto simp: remote_inv_def verifier_ok_def host_device_id_def)
  show "driven (re_session env) sid ps (acs_session (a\<lparr>acs_session := s\<rparr>))" using assms(3) by simp
qed simp

lemma inv_notify:
  "remote_inv env rc \<Longrightarrow> remote_inv env (fst (close_active_with_remote_notification env rc now e))"
  unfolding close_active_with_remote_notification_def
  by (auto split: option.splits sum.splits intro!: fst_sbind_preserved [of "remote_inv env"] inv_close_active)

lemma inv_termination: "remote_inv env rc \<Longrightarrow> remote_inv env (fst (handle_termination env rc ev now))"
  unfolding handle_termination_def by (simp add: inv_notify)

subsection \<open>Reconnecting\<close>

lemma inv_begin_reconnect:
  assumes "remote_inv env rc"
  shows "remote_inv env (fst (begin_active_reconnect env rc now))"
proof (cases "rc_active rc")
  case (Some a)
  have ok: "active_ok (re_session env) a" by (rule inv_activeD(1) [OF assms Some])
  obtain ps where d: "driven (re_session env) (acs_session_id a) ps (acs_session a)" using ok by (auto simp: active_ok_def)
  obtain s r where s: "begin_reconnect (re_session env) (acs_session a) = (s, r)" by fastforce
  have ds: "driven (re_session env) (acs_session_id a) ps s" using driven_ops(3) [OF d] s by simp
  show ?thesis
  proof (cases r)
    case (Inl e)
    have "active_ok (re_session env) (a\<lparr>acs_session := s\<rparr>)"
      using ok ds begin_reconnect_state(2) [OF s [unfolded Inl]] by (auto simp: active_ok_def reconnect_ok_def)
    then show ?thesis using inv_set_active [OF assms Some] s Inl Some by (simp add: begin_active_reconnect_def)
  next
    case (Inr u)
    have "active_ok (re_session env) (a\<lparr>acs_session := s, acs_reconnect_deadline_unix_ms := Some t\<rparr>)" for t
      using ok ds begin_reconnect_state(1) [OF s [unfolded Inr]] by (auto simp: active_ok_def reconnect_ok_def)
    then have "remote_inv env (rc\<lparr>rc_active := Some (a\<lparr>acs_session := s, acs_reconnect_deadline_unix_ms := Some t\<rparr>)\<rparr>)" for t
      by (rule inv_set_active [OF assms Some])
    from inv_set_status [OF this] show ?thesis using s Inr Some by (simp add: begin_active_reconnect_def Let_def)
  qed
qed (simp add: begin_active_reconnect_def assms)

text \<open>After a successful start of a reconnect there is a session, and its deadline is set.\<close>

lemma begin_reconnect_active:
  assumes "begin_active_reconnect env rc now = (rc', r)"
  shows "(rc_active rc' = None \<longleftrightarrow> rc_active rc = None)"
    "rc_active rc = Some a \<Longrightarrow> \<exists>s dl. rc_active rc' = Some (a\<lparr>acs_session := s, acs_reconnect_deadline_unix_ms := dl\<rparr>)
       \<and> (case acs_reconnect_deadline_unix_ms a of Some t \<Rightarrow> dl = Some t
          | None \<Rightarrow> dl \<in> {None, Some (saturating_add now ACTIVE_RECONNECT_LIFETIME_MS)})
       \<and> (r = Inr u \<longrightarrow> dl \<noteq> None)"
  using assms
  by (auto simp: begin_active_reconnect_def set_service_def Let_def split: option.splits prod.splits sum.splits)
    (metis active_session.surjective active_session.update_convs(3) active_session.update_convs(7))+

lemma inv_expire_reconnect: "remote_inv env rc \<Longrightarrow> remote_inv env (fst (expire_active_reconnect env rc now))"
  unfolding expire_active_reconnect_def Let_def
  by (auto intro!: fst_sbind_preserved [of "remote_inv env"] inv_close_active)

lemma inv_set_reconnect:
  assumes "remote_inv env rc" "\<And>a. rc_active rc = Some a \<Longrightarrow> reconnect_ok a p"
  shows "remote_inv env (set_reconnect rc p)"
proof (cases "rc_active rc")
  case (Some a)
  have "active_ok (re_session env) (a\<lparr>acs_reconnect := Some p\<rparr>)"
    using inv_activeD(1) [OF assms(1) Some] assms(2) [OF Some] by (auto simp: active_ok_def reconnect_ok_def)
  then show ?thesis using inv_set_active [OF assms(1) Some] by (simp add: set_reconnect_def Some)
next
  case None
  then have "set_reconnect rc p = rc" by (cases rc) (simp add: set_reconnect_def)
  then show ?thesis using assms(1) by simp
qed

text \<open>The pending offer handed out is that of the active session, already stored.\<close>

lemma prepare_reconnect_ok:
  assumes "remote_inv env rc" "prepare_active_reconnect rc req now = (rc', r)"
  shows "remote_inv env rc'"
    "r = Inr p \<Longrightarrow> \<exists>a. rc_active rc = Some a \<and> rc_active rc' = Some (a\<lparr>acs_reconnect := Some p\<rparr>) \<and> reconnect_ok a p"
proof -
  have ok: "reconnect_ok a ((case acs_reconnect a of None \<Rightarrow> pending_session_new (acs_controller_device_id a)
      (acs_session_id a) req now | Some p \<Rightarrow> p)\<lparr>psn_request_id := req\<rparr>)" if "rc_active rc = Some a" for a
  proof (cases "acs_reconnect a")
    case None
    have "pending_ok (pending_session_new (acs_controller_device_id a) (acs_session_id a) req now)" by simp
    then show ?thesis using None by (simp add: reconnect_ok_def) (simp add: pending_session_new_def)
  next
    case (Some p)
    then have "reconnect_ok a p" using inv_activeD(1) [OF assms(1) that] by (simp add: active_ok_def)
    then show ?thesis using Some by (simp add: reconnect_ok_def)
  qed
  show "remote_inv env rc'"
  proof (cases "rc_active rc")
    case (Some a)
    have "remote_inv env (set_reconnect rc ((case acs_reconnect a of None \<Rightarrow> pending_session_new (acs_controller_device_id a)
        (acs_session_id a) req now | Some p \<Rightarrow> p)\<lparr>psn_request_id := req\<rparr>))"
      by (rule inv_set_reconnect [OF assms(1)]) (use ok [OF Some] Some in simp)
    then show ?thesis using assms(2) Some by (simp add: prepare_active_reconnect_def Let_def)
  qed (use assms in \<open>simp add: prepare_active_reconnect_def\<close>)
  show "\<exists>a. rc_active rc = Some a \<and> rc_active rc' = Some (a\<lparr>acs_reconnect := Some p\<rparr>) \<and> reconnect_ok a p" if "r = Inr p"
    using assms(2) ok that
    by (auto simp: prepare_active_reconnect_def Let_def set_reconnect_def split: option.splits)
qed

lemma reconnect_ok_stored [simp]: "reconnect_ok (a\<lparr>acs_reconnect := q\<rparr>) p = reconnect_ok a p"
  by (simp add: reconnect_ok_def)

text \<open>An offer or a description is only stored once the reconnect window is open.\<close>

lemma inv_store_reconnect:
  fixes rc :: "('s, 'p, 'i, 'e, 'f) remote_coordinator"
  assumes "remote_inv env rc"
    and "\<And>p (a :: ('p, 'i, 'e) active_session). reconnect_ok a p \<Longrightarrow> acs_reconnect_deadline_unix_ms a \<noteq> None \<Longrightarrow> reconnect_ok a (f p)"
  shows "remote_inv env (fst (sbind (begin_active_reconnect env rc now) (\<lambda>rc _.
      sbind (prepare_active_reconnect rc req now) (\<lambda>rc p. if bad p then (rc, Inl e) else (set_reconnect rc (f p), g p)))))"
proof -
  obtain rc1 r1 where b: "begin_active_reconnect env rc now = (rc1, r1)" by fastforce
  have i1: "remote_inv env rc1" using inv_begin_reconnect [OF assms(1), of now] b by simp
  show ?thesis
  proof (cases r1)
    case (Inr u)
    obtain rc2 r2 where p: "prepare_active_reconnect rc1 req now = (rc2, r2)" by fastforce
    note prep = prepare_reconnect_ok [OF i1 p]
    show ?thesis
    proof (cases r2)
      case out: (Inr q)
      then obtain a where a: "rc_active rc1 = Some a" "rc_active rc2 = Some (a\<lparr>acs_reconnect := Some q\<rparr>)" "reconnect_ok a q"
        using prep(2) [of q] by blast
      obtain a0 where "rc_active rc = Some a0" using begin_reconnect_active(1) [OF b] a(1) by auto
      then have "acs_reconnect_deadline_unix_ms a \<noteq> None"
        using begin_reconnect_active(2) [OF b, of a0 u] a(1) Inr by auto
      then have "remote_inv env (set_reconnect rc2 (f q))"
        using assms(2) [OF a(3)] a(2) by (intro inv_set_reconnect [OF prep(1)]) simp
      then show ?thesis using b p Inr out prep(1) by simp
    qed (use b p Inr prep(1) in simp)
  qed (use b i1 in simp)
qed

lemma inv_active_negotiation:
  assumes "remote_inv env rc"
  shows "remote_inv env (fst (handle_active_negotiation env rc neg req now))"
proof (cases "rc_active rc")
  case (Some a)
  show ?thesis
  proof (cases "wrn_payload neg")
    case payload: (Some payload)
    show ?thesis
    proof (cases payload)
      case (WebRtcNegotiation_Description d)
      have "remote_inv env (fst (sbind (begin_active_reconnect env rc now) (\<lambda>rc _.
          sbind (prepare_active_reconnect rc req now) (\<lambda>rc p. if False then (rc, Inl RemoteSessionError_Peer)
            else (set_reconnect rc (p\<lparr>psn_description := Some d\<rparr>),
              ensure RemoteSessionError_InvalidEnvelope (psn_description p = None))))))"
        by (rule inv_store_reconnect [OF assms]) (auto simp: reconnect_ok_def)
      then show ?thesis
        using Some payload WebRtcNegotiation_Description assms by (simp add: handle_active_negotiation_def)
    next
      case (WebRtcNegotiation_IceCandidate c)
      obtain s r where s: "add_remote_ice_candidate (re_session env) (acs_session a) (peer_candidate c) = (s, r)" by fastforce
      obtain rc' q where p: "prepare_active_reconnect rc req now = (rc', q)" by fastforce
      have ok: "active_ok (re_session env) (a\<lparr>acs_session := s\<rparr>)"
        using inv_activeD(1) [OF assms Some] driven_ops(5) [of "re_session env" "acs_session_id a" _ "acs_session a" "peer_candidate c"]
          candidate_state [of "re_session env" "acs_session a" "peer_candidate c"] s
        by (auto simp: active_ok_def reconnect_ok_def)
      note prep = prepare_reconnect_ok [OF assms p]
      have stored: "remote_inv env (set_reconnect rc' (fst (push_candidate t (peer_candidate c))))" if "q = Inr t" for t
        using prep(2) [OF that] by (auto intro!: inv_set_reconnect [OF prep(1)] simp: reconnect_ok_def pending_ok_push)
      show ?thesis
        using Some payload WebRtcNegotiation_IceCandidate assms s p prep(1) stored inv_set_active [OF assms Some ok]
        by (cases q) (simp_all add: handle_active_negotiation_def split_def Let_def)
    qed (use Some payload assms in \<open>simp add: handle_active_negotiation_def\<close>)
  qed (use Some assms in \<open>simp add: handle_active_negotiation_def\<close>)
qed (simp add: handle_active_negotiation_def assms)

lemma inv_take_reconnect:
  assumes "remote_inv env rc"
  shows "remote_inv env (rc\<lparr>rc_active := map_option (\<lambda>a. a\<lparr>acs_reconnect := None\<rparr>) (rc_active rc)\<rparr>)"
  using assms by (auto simp: remote_inv_def verifier_ok_def host_device_id_def active_ok_def)

lemma inv_restart:
  assumes "remote_inv env rc" "\<And>a. rc_active rc = Some a \<Longrightarrow> acs_reconnect_deadline_unix_ms a \<noteq> None"
  shows "remote_inv env (fst (restart_active env rc p now))"
proof (cases "psn_authentication p = None \<or> psn_description p = None \<or> rc_active rc = None")
  case True
  then show ?thesis
    using assms(1) inv_verify [OF assms(1)]
    by (auto simp: restart_active_def Let_def split_def split: option.splits sum.splits)
next
  case False
  then obtain auth d a where p: "psn_authentication p = Some auth" "psn_description p = Some d" "rc_active rc = Some a" by auto
  obtain v r where v: "verify_remote_offer (pe_crypto (re_pairing env)) (rc_service rc) (rc_verifier rc) auth
      (wrsd_sdp d) (wrsd_dtls_fingerprint_sha256 d) now = (v, r)" by fastforce
  let ?rc = "rc\<lparr>rc_verifier := v\<rparr>"
  have i: "remote_inv env ?rc"
    using inv_verify [OF assms(1), of "pe_crypto (re_pairing env)" "rc_service rc" auth "wrsd_sdp d"
        "wrsd_dtls_fingerprint_sha256 d" now] v by simp
  obtain s ans where s: "accept_reconnect_offer (re_session env) (acs_session a) (wrsd_sdp d) = (s, ans)" by fastforce
  obtain t q where t: "add_candidates (re_session env) s (psn_candidates p) = (t, q)" by fastforce
  have ok: "active_ok (re_session env) a" and dl: "acs_reconnect_deadline_unix_ms a \<noteq> None"
    using inv_activeD(1) [OF assms(1) p(3)] assms(2) [OF p(3)] .
  then have st: "hps_state (acs_session a) \<in> {HostSessionState_Negotiating, HostSessionState_Reconnecting}"
    by (auto simp: active_ok_def)
  have "hps_state s \<in> {HostSessionState_Negotiating, HostSessionState_Reconnecting}"
    using accept_reconnect_state [of "re_session env" "acs_session a" "wrsd_sdp d" s] s st by (cases ans) auto
  moreover have "hps_state t = hps_state s" using candidates_state [of "re_session env" s "psn_candidates p"] t by simp
  moreover obtain ps where "driven (re_session env) (acs_session_id a) ps (acs_session a)" using ok by (auto simp: active_ok_def)
  then have "driven (re_session env) (acs_session_id a) ps s" using driven_ops(4) [of _ _ _ _ "wrsd_sdp d"] s by (metis fst_conv)
  moreover from this have "driven (re_session env) (acs_session_id a) ps t"
    using driven_candidates [of "re_session env" _ _ s "psn_candidates p"] t by (metis fst_conv)
  ultimately have "active_ok (re_session env) (a\<lparr>acs_session := s, acs_reconnect_generation := g\<rparr>)"
    "active_ok (re_session env) (a\<lparr>acs_session := t, acs_reconnect_generation := g\<rparr>)" for g
    using ok dl by (auto simp: active_ok_def reconnect_ok_def)
  then have put: "remote_inv env (?rc\<lparr>rc_active := Some (a\<lparr>acs_session := s, acs_reconnect_generation := g\<rparr>)\<rparr>)"
    "remote_inv env (?rc\<lparr>rc_active := Some (a\<lparr>acs_session := t, acs_reconnect_generation := g\<rparr>)\<rparr>)" for g
    using inv_set_active [OF i, of a] p(3) by simp_all
  show ?thesis
    using p v s t i put put [of "acs_reconnect_generation a"] by (cases r; cases ans; cases q)
      (auto simp: restart_active_def Let_def split: option.splits sum.splits)
qed

lemma inv_try_restart:
  assumes "remote_inv env rc"
  shows "remote_inv env (fst (try_restart_active env rc now))"
proof (cases "Option.bind (rc_active rc) acs_reconnect")
  case (Some p)
  then obtain a where a: "rc_active rc = Some a" "acs_reconnect a = Some p" by (auto simp: Option.bind_eq_Some_conv)
  let ?rc = "rc\<lparr>rc_active := map_option (\<lambda>a. a\<lparr>acs_reconnect := None\<rparr>) (rc_active rc)\<rparr>"
  have "remote_inv env (fst (restart_active env ?rc p now))" if "is_ready p"
    using inv_activeD(1) [OF assms a(1)] a that
    by (intro inv_restart inv_take_reconnect [OF assms]) (auto simp: active_ok_def reconnect_ok_def is_ready_def)
  then show ?thesis
    using Some assms by (auto simp: try_restart_active_def Let_def split: prod.splits sum.splits)
qed (simp add: try_restart_active_def assms)

lemma inv_store_offer:
  assumes "remote_inv env rc"
  shows "remote_inv env (fst (store_reconnect_offer env rc offer req now))"
  unfolding store_reconnect_offer_def by (rule inv_store_reconnect [OF assms]) (auto simp: reconnect_ok_def)

lemma inv_reconnect_envelope:
  assumes "remote_inv env rc"
  shows "remote_inv env (fst (handle_active_reconnect_envelope env rc e now))"
  unfolding handle_active_reconnect_envelope_def
proof (rule fst_sbind_preserved)
  show "remote_inv env (fst (store_reconnect_payload env rc e now))"
    using assms inv_active_negotiation [OF assms] inv_store_offer [OF assms]
    by (simp add: store_reconnect_payload_def split: option.split signaling_envelope_payload.split session_authentication_payload.split)
qed (simp add: inv_try_restart)

subsection \<open>Starting\<close>

lemma inv_give_up:
  assumes "remote_inv env rc" "driven (re_session env) sid ps s"
  shows "remote_inv env (fst (give_up env rc s e))"
  using inv_retire [OF assms(1) driven_ops(8) [OF assms(2)]] by (simp add: give_up_def)

lemma inv_unregister_give_up:
  assumes "remote_inv env rc" "driven (re_session env) sid ps s"
  shows "remote_inv env (fst (unregister_and_give_up env rc i s e))"
proof -
  have "service_inv (re_pairing env) (rc_service rc)" using assms(1) by (simp add: remote_inv_def)
  then have "remote_inv env (rc\<lparr>rc_service := fst (unregister_active_session (rc_service rc) i)\<rparr>)"
    by (intro inv_service [OF assms(1)]) (simp_all add: inv_session_ops)
  then show ?thesis unfolding unregister_and_give_up_def by (rule inv_give_up [OF _ assms(2)])
qed

lemma record_authenticated_identity [simp]:
  "sv_identity (fst (record_authenticated_remote_session ops sv d now)) = sv_identity sv"
  by (simp add: record_authenticated_remote_session_def)

lemma inv_finish_activation:
  assumes "remote_inv env rc" "rc_pending rc = None" "\<not> rc_closed rc"
    and "driven (re_session env) (vso_session_id v) ps s" "hps_state s = HostSessionState_Negotiating"
    and "length (di_device_id (vso_controller v)) = 32"
  shows "remote_inv env (fst (finish_activation env rc s ev cs v ans auth now))"
proof -
  let ?d = "di_device_id (vso_controller v)"
  obtain sv r where sv: "record_authenticated_remote_session (re_store env) (rc_service rc) ?d now = (sv, r)" by fastforce
  obtain t q where t: "add_candidates (re_session env) s cs = (t, q)" by fastforce
  obtain sv2 st where sv2: "update_remote_status sv (vso_session_id v) ?d SessionState_Connecting None = (sv2, st)" by fastforce
  have dt: "driven (re_session env) (vso_session_id v) ps t" "hps_state t = HostSessionState_Negotiating"
    using driven_candidates [OF assms(4), of cs] candidates_state [of "re_session env" s cs] assms(5) t by simp_all
  have "service_inv (re_pairing env) (rc_service rc)" using assms(1) by (simp add: remote_inv_def)
  then have i1: "remote_inv env (rc\<lparr>rc_service := sv\<rparr>)"
    using inv_authorization_ops(2) [of "re_pairing env" "rc_service rc" "re_store env" ?d now]
      record_authenticated_identity [of "re_store env" "rc_service rc" ?d now] sv
    by (intro inv_service [OF assms(1)]) simp_all
  have i2: "remote_inv env (rc\<lparr>rc_service := sv2\<rparr>)"
    using inv_remote_status [OF i1, of "vso_session_id v" ?d SessionState_Connecting None] sv2 by simp
  have "remote_inv env (rc\<lparr>rc_service := sv2, rc_active := Some \<lparr>acs_controller_device_id = ?d,
      acs_session_id = vso_session_id v, acs_session = t, acs_events = ev, acs_reconnect = None,
      acs_reconnect_generation = 0, acs_reconnect_deadline_unix_ms = None\<rparr>\<rparr>)"
    using i2 assms(2,3,6) dt by (auto simp: remote_inv_def verifier_ok_def host_device_id_def active_ok_def)
  then show ?thesis
    using sv t sv2 inv_unregister_give_up [OF i1 assms(4)] inv_unregister_give_up [OF i1 dt(1)]
      inv_unregister_give_up [OF i2 dt(1)]
    by (cases r; cases q; cases st) (simp_all add: finish_activation_def Let_def)
qed

lemma inv_activate:
  assumes "remote_inv env rc" "rc_pending rc = None" "\<not> rc_closed rc"
  shows "remote_inv env (fst (activate_verified_session env rc auth d cs v now))"
proof -
  obtain f c where c: "re_create env (rc_factory rc) (rc_config rc) (from_verified v) = (f, c)" by fastforce
  let ?rc = "rc\<lparr>rc_factory := f\<rparr>"
  have i1: "remote_inv env ?rc" by (rule inv_reset(3) [OF assms(1)])
  show ?thesis
  proof (cases "bind_res c (\<lambda>parts. map_err map_peer_error (host_peer_session_new (vso_session_id v) (vso_permissions v) (rc_config rc)
      (rsp_peer parts) (rsp_input parts)))")
    case (Inl e)
    then show ?thesis
      using c i1 by (cases c; cases "host_peer_session_new (vso_session_id v) (vso_permissions v) (rc_config rc)
        (rsp_peer (projr c)) (rsp_input (projr c))") (simp_all add: activate_verified_session_def Let_def)
  next
    case (Inr s0)
    then obtain parts where p: "c = Inr parts" "host_peer_session_new (vso_session_id v) (vso_permissions v) (rc_config rc)
        (rsp_peer parts) (rsp_input parts) = Inr s0" by (auto simp: bind_res_Inr)
    obtain s r where s: "accept_offer (re_session env) s0 (wrsd_sdp d) = (s, r)" by fastforce
    have d0: "driven (re_session env) (vso_session_id v) (vso_permissions v) s"
      using driven_ops(1) [OF driven_new [OF p(2)], of "re_session env" "wrsd_sdp d"] s by simp
    obtain sv q where sv: "register_active_session (rc_service rc) (vso_session_id v) (di_device_id (vso_controller v)) = (sv, q)"
      by fastforce
    have "service_inv (re_pairing env) (rc_service rc)" using assms(1) by (simp add: remote_inv_def)
    then have i2: "remote_inv env (?rc\<lparr>rc_service := sv\<rparr>)"
      using inv_session_ops(1) [of "re_pairing env" "rc_service rc" "vso_session_id v" "di_device_id (vso_controller v)"]
        misc_kept(1) [of "rc_service rc" "vso_session_id v" "di_device_id (vso_controller v)"] sv
      by (intro inv_service [OF i1]) simp_all
    have len: "length (di_device_id (vso_controller v)) = 32" if "is_ok q"
      using sv that by (auto simp: register_active_session_def session_register_def limits split: if_splits)
    show ?thesis
    proof (cases r)
      case (Inl e)
      then show ?thesis using c p s inv_give_up [OF i1 d0] by (simp add: activate_verified_session_def)
    next
      case out: (Inr ans)
      have "hps_state s = HostSessionState_Negotiating" using accept_offer_state s out by metis
      then have "remote_inv env (fst (finish_activation env (?rc\<lparr>rc_service := sv\<rparr>) s (rsp_events parts) cs v ans aa now))"
        if "is_ok q" for aa
        using assms(2,3) len [OF that] by (intro inv_finish_activation [OF i2 _ _ d0]) simp_all
      then show ?thesis
        using c p s sv out inv_give_up [OF i1 d0] inv_give_up [OF i2 d0]
        by (auto simp: activate_verified_session_def Let_def split: sum.splits)
    qed
  qed
qed

lemma inv_start_pending:
  assumes "remote_inv env rc" "rc_pending rc = None" "\<not> rc_closed rc"
  shows "remote_inv env (fst (start_pending env rc p now))"
proof (cases "psn_authentication p = None \<or> psn_description p = None")
  case True
  then show ?thesis using assms(1) by (auto simp: start_pending_def split: option.splits)
next
  case False
  then obtain auth d where p: "psn_authentication p = Some auth" "psn_description p = Some d" by auto
  obtain sv q where sv: "update_remote_status (rc_service rc) (psn_session_id p) (psn_controller_device_id p)
      SessionState_Authenticating None = (sv, q)" by fastforce
  have i1: "remote_inv env (rc\<lparr>rc_service := sv\<rparr>)"
    using inv_remote_status [OF assms(1), of "psn_session_id p" "psn_controller_device_id p" SessionState_Authenticating None] sv
    by simp
  obtain v r where v: "verify_remote_offer (pe_crypto (re_pairing env)) sv (rc_verifier rc) auth
      (wrsd_sdp d) (wrsd_dtls_fingerprint_sha256 d) now = (v, r)" by fastforce
  let ?rc = "rc\<lparr>rc_service := sv, rc_verifier := v\<rparr>"
  have i2: "remote_inv env ?rc"
    using inv_verify [OF i1, of "pe_crypto (re_pairing env)" sv auth "wrsd_sdp d" "wrsd_dtls_fingerprint_sha256 d" now] v by simp
  have act: "remote_inv env (fst (activate_verified_session env ?rc auth d (psn_candidates p) w now))" for w
    by (rule inv_activate [OF i2]) (use assms(2,3) in simp_all)
  show ?thesis
  proof (cases q)
    case (Inl e)
    then show ?thesis using p sv i1 by (simp add: start_pending_def set_service_def)
  next
    case q: (Inr u)
    show ?thesis
    proof (cases r)
      case (Inl e)
      then show ?thesis using p sv v q i2 by (simp add: start_pending_def set_service_def)
    next
      case (Inr w)
      then show ?thesis
        using p sv v q i2 by (simp add: start_pending_def set_service_def Let_def fst_sbind_same act)
    qed
  qed
qed

lemma inv_try_start:
  assumes "remote_inv env rc" "\<not> rc_closed rc"
  shows "remote_inv env (fst (try_start_pending env rc now))"
proof (cases "rc_pending rc")
  case (Some p)
  obtain rc1 r where r: "start_pending env (rc\<lparr>rc_pending := None\<rparr>) p now = (rc1, r)" by fastforce
  have "remote_inv env rc1"
    using inv_start_pending [OF inv_reset(1) [OF assms(1)], of p now] r assms(2) by simp
  then have "remote_inv env (rc1\<lparr>rc_failed_attempt := f, rc_service := fst (update_remote_status (rc_service rc1) i d st e)\<rparr>)"
    for f i d st e using inv_remote_status [OF inv_reset(2), of env rc1 f i d st e] by simp
  then show ?thesis
    using Some r assms(1) \<open>remote_inv env rc1\<close> by (cases r) (simp_all add: try_start_pending_def Let_def)
qed (simp add: try_start_pending_def assms)

subsection \<open>Envelopes and events\<close>

lemma expire_pending_shape: "rc_pending (expire_pending rc now) \<in> {None, rc_pending rc}"
  by (auto simp: expire_pending_def Let_def split: option.splits)

lemma expire_pending_kept [simp]:
  "rc_active (expire_pending rc now) = rc_active rc" "rc_service (expire_pending rc now) = rc_service rc"
  "rc_verifier (expire_pending rc now) = rc_verifier rc" "rc_closed (expire_pending rc now) = rc_closed rc"
  "rc_retired (expire_pending rc now) = rc_retired rc"
  "reconnect_deadline_unix_ms (expire_pending rc now) = reconnect_deadline_unix_ms rc"
  by (simp_all add: expire_pending_def Let_def reconnect_deadline_unix_ms_def split: option.splits)

lemma inv_expire_pending: "remote_inv env rc \<Longrightarrow> remote_inv env (expire_pending rc now)"
  using expire_pending_shape [of rc now] by (auto simp: remote_inv_def verifier_ok_def host_device_id_def)

lemma pending_ok_update: "pending_ok p \<Longrightarrow> pending_ok (fst (update_pending p payload))"
  by (auto simp: update_pending_def pending_ok_push split: signaling_envelope_payload.splits option.splits
      session_authentication_payload.splits web_rtc_negotiation_payload.splits)

lemma prepare_pending_shape:
  assumes "prepare_pending rc d i req now = (rc', b)"
  shows "b \<Longrightarrow> \<exists>p. rc' = rc\<lparr>rc_pending := Some p\<rparr> \<and> psn_controller_device_id p = d \<and> psn_session_id p = i
      \<and> (case rc_pending rc of Some q \<Rightarrow> p = q\<lparr>psn_request_id := req\<rparr> | None \<Rightarrow> p = pending_session_new d i req now)"
    "\<not> b \<Longrightarrow> rc' = rc"
  using assms by (auto simp: prepare_pending_def pending_session_new_def split: option.splits if_splits)

lemma inv_advance_pending:
  assumes "remote_inv env rc" "rc_active rc = None" "\<not> rc_closed rc"
  shows "remote_inv env (fst (advance_pending env rc e payload i now))"
proof -
  obtain rc1 b where b: "prepare_pending rc (se_sender_device_id e) i (se_request_id e) now = (rc1, b)" by fastforce
  show ?thesis
  proof (cases b)
    case True
    then obtain p where p: "rc1 = rc\<lparr>rc_pending := Some p\<rparr>"
      "case rc_pending rc of Some q \<Rightarrow> p = q\<lparr>psn_request_id := se_request_id e\<rparr>
        | None \<Rightarrow> p = pending_session_new (se_sender_device_id e) i (se_request_id e) now"
      using prepare_pending_shape(1) [OF b] by blast
    obtain q r where q: "update_pending p payload = (q, r)" by fastforce
    have "pending_ok p" using p(2) assms(1) by (auto simp: remote_inv_def split: option.splits)
    then have "pending_ok q" using pending_ok_update [of p payload] q by simp
    then have "remote_inv env (rc\<lparr>rc_pending := Some q\<rparr>)" by (rule inv_pending [OF assms(1,2)])
    then show ?thesis
      using b True p(1) q inv_try_start [of env "rc\<lparr>rc_pending := Some q\<rparr>"] assms(3)
      by (cases r) (simp_all add: advance_pending_def)
  next
    case False
    then show ?thesis using prepare_pending_shape(2) [OF b] b assms(1) by (simp add: advance_pending_def)
  qed
qed

lemma inv_pending_envelope:
  assumes "remote_inv env rc" "rc_active rc = None" "\<not> rc_closed rc"
  shows "remote_inv env (fst (handle_pending_envelope env rc e now))"
  using assms(1) inv_advance_pending [OF assms] inv_reset(1) [OF assms(1)]
  by (auto simp: handle_pending_envelope_def simp del: session_state.of_eq_Some
      split: option.splits signaling_envelope_payload.splits)

lemma inv_active_envelope:
  "remote_inv env rc \<Longrightarrow> remote_inv env (fst (handle_active_envelope env rc e now))"
  by (simp add: handle_active_envelope_def fst_sbind_same inv_close_active inv_reconnect_envelope
      split: option.split signaling_envelope_payload.split)

lemma expire_reconnect_kept [simp]:
  "rc_closed (fst (expire_active_reconnect env rc now)) = rc_closed rc"
  "rc_pending (fst (expire_active_reconnect env rc now)) = rc_pending rc"
  by (cases "close_active env rc (Some (remote_unified_error ErrorCode_IceFailed))";
      cases "snd (close_active env rc (Some (remote_unified_error ErrorCode_IceFailed)))";
      use close_active_kept [of env rc "Some (remote_unified_error ErrorCode_IceFailed)"] in
        \<open>simp add: expire_active_reconnect_def Let_def\<close>)+

lemma inv_dispatch:
  assumes "remote_inv env rc" "\<not> rc_closed rc"
  shows "remote_inv env (fst (dispatch_envelope env rc e now))"
  using assms by (simp add: dispatch_envelope_def inv_active_envelope inv_pending_envelope split: option.splits)

lemma inv_handle_routed:
  assumes "remote_inv env rc"
  shows "remote_inv env (fst (handle_routed_session env rc sender bs now))"
proof (cases "rc_closed rc")
  case False
  have "remote_inv env (fst (sbind (expire_active_reconnect env (expire_pending rc now) now) (\<lambda>rc _. dispatch_envelope env rc e now)))" for e
  proof (rule fst_sbind_preserved)
    show "remote_inv env (fst (expire_active_reconnect env (expire_pending rc now) now))"
      by (intro inv_expire_reconnect inv_expire_pending assms)
  next
    fix rc1 x
    assume m: "expire_active_reconnect env (expire_pending rc now) now = (rc1, Inr x)" "remote_inv env rc1"
    have "\<not> rc_closed rc1" using m False expire_reconnect_kept(1) [of env "expire_pending rc now" now] by simp
    then show "remote_inv env (fst (dispatch_envelope env rc1 e now))" using m(2) by (simp add: inv_dispatch)
  qed
  then show ?thesis using assms False by (simp add: handle_routed_session_def split: sum.split)
qed (simp add: handle_routed_session_def assms)

lemma inv_peer_connected:
  assumes "remote_inv env rc"
  shows "remote_inv env (fst (peer_connected env rc))"
proof (cases "rc_active rc")
  case (Some a)
  obtain s r where s: "mark_connected (acs_session a) = (s, r)" by fastforce
  have ok: "active_ok (re_session env) a" by (rule inv_activeD(1) [OF assms Some])
  then obtain ps where "driven (re_session env) (acs_session_id a) ps (acs_session a)" by (auto simp: active_ok_def)
  from driven_ops(2) [OF this] s have d: "driven (re_session env) (acs_session_id a) ps s" by simp
  have "hps_state s = HostSessionState_Connected" "r = Inr ()"
    using s ok by (auto simp: mark_connected_def active_ok_def split: if_splits)
  then have "active_ok (re_session env) (a\<lparr>acs_session := s, acs_reconnect := None, acs_reconnect_deadline_unix_ms := None\<rparr>)"
    using ok d by (auto simp: active_ok_def)
  from inv_set_status [OF inv_set_active [OF assms Some this], of "acs_session_id a" "acs_controller_device_id a"
      SessionState_Connected None]
  show ?thesis using Some s \<open>r = Inr ()\<close> by (simp add: peer_connected_def fst_sbind_same)
qed (simp add: peer_connected_def assms)

lemma inv_reliable_input:
  assumes "remote_inv env rc"
  shows "remote_inv env (fst (peer_reliable_input env rc bs))"
proof (cases "input_suspended rc \<or> rc_active rc = None")
  case False
  then obtain a where a: "rc_active rc = Some a" "acs_reconnect_deadline_unix_ms a = None"
    by (auto simp: input_suspended_def reconnect_deadline_unix_ms_def)
  obtain s r where s: "handle_reliable (re_session env) (acs_session a) bs = (s, r)" by fastforce
  have ok: "active_ok (re_session env) a" by (rule inv_activeD(1) [OF assms a(1)])
  then obtain ps where "driven (re_session env) (acs_session_id a) ps (acs_session a)" by (auto simp: active_ok_def)
  from driven_ops(6) [OF this, of bs] s have d: "driven (re_session env) (acs_session_id a) ps s" by simp
  have "hps_state s \<in> {HostSessionState_Connected, HostSessionState_Closed} \<or> s = acs_session a"
    using s by (cases rule: reliable_shape [of "re_session env" "acs_session a" bs]) auto
  then have "active_ok (re_session env) (a\<lparr>acs_session := s\<rparr>)" if "hps_state s \<noteq> HostSessionState_Closed"
    using ok d a(2) that by (auto simp: active_ok_def reconnect_ok_def)
  then show ?thesis
    using s a False inv_set_active [OF assms a(1)] inv_close_changed [OF assms a(1) d]
    by (cases r) (auto simp: peer_reliable_input_def close_after_input_failure_def Let_def fst_sbind_same)
qed (auto simp: peer_reliable_input_def assms split: option.splits)

lemma inv_pointer_input:
  assumes "remote_inv env rc"
  shows "remote_inv env (fst (peer_fast_pointer env rc bs))"
proof (cases "input_suspended rc \<or> rc_active rc = None")
  case False
  then obtain a where a: "rc_active rc = Some a" "acs_reconnect_deadline_unix_ms a = None"
    by (auto simp: input_suspended_def reconnect_deadline_unix_ms_def)
  obtain s r where s: "handle_pointer_fast (re_session env) (acs_session a) bs = (s, r)" by fastforce
  have ok: "active_ok (re_session env) a" by (rule inv_activeD(1) [OF assms a(1)])
  then obtain ps where "driven (re_session env) (acs_session_id a) ps (acs_session a)" by (auto simp: active_ok_def)
  from driven_ops(7) [OF this, of bs] s have d: "driven (re_session env) (acs_session_id a) ps s" by simp
  have "hps_state s = HostSessionState_Connected \<or> s = acs_session a" if "r = Inr x" for x
    using s that by (cases rule: pointer_shape [of "re_session env" "acs_session a" bs]) auto
  then have "active_ok (re_session env) (a\<lparr>acs_session := s\<rparr>)" if "r = Inr x" for x
    using ok d a(2) that by (auto simp: active_ok_def reconnect_ok_def)
  then show ?thesis
    using s a False inv_set_active [OF assms a(1)] inv_close_changed [OF assms a(1) d]
    by (cases r) (auto simp: peer_fast_pointer_def close_after_input_failure_def Let_def fst_sbind_same)
qed (auto simp: peer_fast_pointer_def assms split: option.splits)

lemma inv_interrupted:
  assumes "remote_inv env rc"
  shows "remote_inv env (fst (peer_interrupted env rc now))"
  by (simp add: peer_interrupted_def fst_sbind_same inv_begin_reconnect assms)

lemma inv_apply_event: "remote_inv env rc \<Longrightarrow> remote_inv env (fst (apply_peer_event env rc ev now))"
  by (cases ev) (simp_all add: inv_peer_connected inv_reliable_input inv_pointer_input inv_interrupted inv_notify
      peer_local_candidate_def split: option.split)

lemma inv_peer_event:
  assumes "remote_inv env rc"
  shows "remote_inv env (fst (handle_peer_event env rc ev now))"
proof -
  have "remote_inv env (fst (sbind (expire_active_reconnect env rc now) (\<lambda>rc expired.
        if expired then (rc, Inr []) else apply_peer_event env rc ev now)))"
    by (rule fst_sbind_preserved [where P = "remote_inv env"]) (simp_all add: inv_expire_reconnect assms inv_apply_event)
  then show ?thesis using assms by (simp add: handle_peer_event_def)
qed

lemma inv_next_event:
  assumes "remote_inv env rc"
  shows "remote_inv env (fst (next_peer_event env rc))"
proof (cases "rc_active rc")
  case (Some a)
  have "active_ok (re_session env) (a\<lparr>acs_events := ev\<rparr>)" for ev
    using inv_activeD(1) [OF assms Some] by (auto simp: active_ok_def reconnect_ok_def)
  from inv_set_active [OF assms Some this] show ?thesis
    using Some by (auto simp: next_peer_event_def fst_sbind_same inv_close_active split: prod.splits sum.splits)
qed (simp add: next_peer_event_def assms)

lemma inv_poll_event:
  assumes "remote_inv env rc"
  shows "remote_inv env (fst (poll_peer_event env rc now))"
proof -
  have "remote_inv env (fst (sbind (next_peer_event env rc) (\<lambda>rc event.
      case event of None \<Rightarrow> (rc, Inr []) | Some event \<Rightarrow> handle_peer_event env rc event now)))" if "remote_inv env rc" for rc
    by (rule fst_sbind_preserved [where P = "remote_inv env"])
      (simp_all add: inv_next_event that inv_peer_event split: option.split)
  then show ?thesis
    unfolding poll_peer_event_def
    by (intro fst_sbind_preserved [where P = "remote_inv env"]) (simp_all add: inv_expire_reconnect assms)
qed

lemma inv_drain: "remote_inv env rc \<Longrightarrow> remote_inv env (fst (drain_peer_events env elapsed now k rc))"
proof (induction k arbitrary: rc)
  case (Suc k)
  have rest: "remote_inv env (fst (sbind (handle_peer_event env rc ev now) (\<lambda>rc ms.
      if ms \<noteq> [] \<or> elapsed k then (rc, Inr ms) else drain_peer_events env elapsed now k rc)))" if "remote_inv env rc" for rc ev
    by (rule fst_sbind_preserved [where P = "remote_inv env"]) (simp_all add: inv_peer_event that Suc.IH)
  show ?case
    unfolding drain_peer_events.simps
    by (rule fst_sbind_preserved [where P = "remote_inv env"])
      (simp_all add: inv_next_event Suc.prems rest [simplified] split: option.split)
qed simp

lemma inv_poll_events:
  assumes "remote_inv env rc"
  shows "remote_inv env (fst (poll_peer_events_with_budget env rc now elapsed))"
  unfolding poll_peer_events_with_budget_def
  by (rule fst_sbind_preserved [where P = "remote_inv env"]) (simp_all add: inv_expire_reconnect assms inv_drain)

lemma inv_signaling_lost:
  assumes "remote_inv env rc"
  shows "remote_inv env (fst (signaling_lost_session env rc now))"
proof -
  have i: "remote_inv env (rc\<lparr>rc_pending := None\<rparr>)" by (rule inv_reset(1) [OF assms])
  obtain rc1 r where b: "begin_active_reconnect env (rc\<lparr>rc_pending := None\<rparr>) now = (rc1, r)" by fastforce
  have "remote_inv env rc1" using inv_begin_reconnect [OF i, of now] b by simp
  then show ?thesis
    using i b by (cases r) (simp_all add: signaling_lost_session_def Let_def fst_sbind_same inv_close_active)
qed

lemma inv_route_changed: "remote_inv env rc \<Longrightarrow> remote_inv env (fst (privileged_route_changed env rc now))"
  by (simp add: privileged_route_changed_def inv_begin_reconnect)

lemma inv_clear:
  assumes "remote_inv env rc"
  shows "remote_inv env (rc\<lparr>rc_pending := None, rc_failed_attempt := None\<rparr>)"
  using inv_reset(2) [OF inv_reset(1) [OF assms], of None] by simp

lemma inv_shutdown:
  assumes "remote_inv env rc"
  shows "remote_inv env (fst (coordinator_shutdown env rc))"
proof -
  obtain rc1 r where c: "close_active env (rc\<lparr>rc_pending := None, rc_failed_attempt := None\<rparr>) None = (rc1, r)" by fastforce
  have "remote_inv env rc1" "rc_active rc1 = None"
    using inv_close_active [OF inv_clear [OF assms], of None] close_active_kept(5) [of env "rc\<lparr>rc_pending := None, rc_failed_attempt := None\<rparr>" None] c
    by simp_all
  then show ?thesis
    using c by (cases r) (auto simp: coordinator_shutdown_def remote_inv_def verifier_ok_def host_device_id_def)
qed

section \<open>The coordinator as a machine\<close>

text \<open>Everything that can happen to the coordinator and to the service it shares, in any order.\<close>

datatype remote_op =
    Routed bytes bytes u64
  | PeerEvent remote_peer_event u64
  | PollOne u64
  | PollBatch "nat \<Rightarrow> bool" u64
  | Termination session_terminated_event u64
  | SignalingLost u64
  | RouteChanged u64
  | ShutdownSessions
  | ServiceStep service_op

datatype remote_out =
    Messages "remote_session_error + remote_session_outbound list"
  | Completion "remote_session_error + unit"
  | ServiceReply "local_ipc_server_frame option"

fun remote_step ::
  "('s, 'p, 'i, 'e, 'f) remote_env \<Rightarrow> ('s, 'p, 'i, 'e, 'f) remote_coordinator \<Rightarrow> remote_op
    \<Rightarrow> ('s, 'p, 'i, 'e, 'f) remote_coordinator \<times> remote_out" where
  "remote_step env rc (Routed sender bs now) = map_prod id Messages (handle_routed_session env rc sender bs now)"
| "remote_step env rc (PeerEvent ev now) = map_prod id Messages (handle_peer_event env rc ev now)"
| "remote_step env rc (PollOne now) = map_prod id Messages (poll_peer_event env rc now)"
| "remote_step env rc (PollBatch elapsed now) = map_prod id Messages (poll_peer_events_with_budget env rc now elapsed)"
| "remote_step env rc (Termination ev now) = map_prod id Messages (handle_termination env rc ev now)"
| "remote_step env rc (SignalingLost now) = map_prod id Completion (signaling_lost_session env rc now)"
| "remote_step env rc (RouteChanged now) = map_prod id Completion (privileged_route_changed env rc now)"
| "remote_step env rc ShutdownSessions = map_prod id Completion (coordinator_shutdown env rc)"
| "remote_step env rc (ServiceStep x) =
     (let (sv, reply) = service_step (re_pairing env) (re_store env) (rc_service rc) x in (rc\<lparr>rc_service := sv\<rparr>, ServiceReply reply))"

lemma inv_shared_step:
  assumes "remote_inv env rc"
  shows "remote_inv env (rc\<lparr>rc_service := fst (service_step (re_pairing env) (re_store env) (rc_service rc) x)\<rparr>)"
  using assms by (intro inv_service) (simp_all add: remote_inv_def service.step_inv)

interpretation remote: machine "remote_step env" "remote_inv env" for env
proof
  fix rc x
  assume "remote_inv env rc"
  then show "remote_inv env (fst (remote_step env rc x))"
    by (cases x) (simp_all add: inv_handle_routed inv_peer_event inv_poll_event inv_poll_events inv_termination inv_signaling_lost
        inv_route_changed inv_shutdown inv_shared_step split_def Let_def)
qed

lemma remote_inv_new:
  assumes "coordinator_with_config sv f config = Inr rc" "service_inv (re_pairing env) sv"
  shows "remote_inv env rc"
proof -
  obtain v where v: "offer_verifier_new (di_device_id (hi_device_identity (sv_identity sv))) = Inr v"
    using assms(1) by (auto simp: coordinator_with_config_def bind_res_Inr)
  then have "ov_host_device_id v = di_device_id (hi_device_identity (sv_identity sv))"
    by (auto simp: offer_verifier_new_def split: if_splits)
  then show ?thesis
    using assms v verifier_inv_new [OF v]
    by (auto simp: coordinator_with_config_def remote_inv_def verifier_ok_def host_device_id_def)
qed

end
