(* ===== verification/Bridge_Connector.thy ===== *)
theory Bridge_Connector
  imports Bridge_Proxy Bridge_Runtime Remote_Session
begin

text \<open>
  The Host's way into the privileged bridge: the authenticating connector (\<^verbatim>\<open>crates/privileged-bridge/src/connector.rs\<close>), the
  factory that turns its connection into a wire (\<^verbatim>\<open>client.rs\<close>), and the adapter that gives the wire to a remote session
  (\<^verbatim>\<open>crates/host-agent/src/remote_session_bridge.rs\<close>).  Opening the local stream is a parameter.
\<close>

section \<open>The connector\<close>

definition AUTH_REQUEST_ID :: string where "AUTH_REQUEST_ID = ''authenticate-1''"
definition ACQUIRE_REQUEST_ID :: string where "ACQUIRE_REQUEST_ID = ''acquire-2''"
definition AUTH_SEQUENCE :: u64 where [limits]: "AUTH_SEQUENCE = 1"
definition ACQUIRE_SEQUENCE :: u64 where [limits]: "ACQUIRE_SEQUENCE = 2"

record 'k authenticated_bridge_connector =
  abc_connector :: 'k
  abc_token :: bytes
  abc_executable_sha256 :: bytes
  abc_os_session_id :: u64

definition bridge_connector_new ::
  "'k \<Rightarrow> bytes \<Rightarrow> bytes \<Rightarrow> u64 \<Rightarrow> proxy_error + 'k authenticated_bridge_connector" where
  "bridge_connector_new connector token executable_sha256 os_session_id =
     (if os_session_id = 0 \<or> executable_sha256 = replicate 32 0 then Inl ProxyError_InvalidConfiguration
      else Inr \<lparr>abc_connector = connector, abc_token = token, abc_executable_sha256 = executable_sha256,
                abc_os_session_id = os_session_id\<rparr>)"

definition connector_receive ::
  "'x bridge_transport_ops \<Rightarrow> bridge_codec \<Rightarrow> 'x \<Rightarrow> 'x \<times> (proxy_error + privileged_bridge_server_frame)" where
  "connector_receive bt c x =
     sbind (smap_err (\<lambda>_. ProxyError_Transport) (bt_receive bt x)) (\<lambda>x encoded. (x, rpc_decode c encoded))"

definition connector_send ::
  "'x bridge_transport_ops \<Rightarrow> bridge_codec \<Rightarrow> 'x \<Rightarrow> privileged_bridge_client_frame \<Rightarrow> 'x \<times> (proxy_error + unit)" where
  "connector_send bt c x frame = smap_err (\<lambda>_. ProxyError_Transport) (bt_send bt x (bcd_encode_client c frame))"

definition authenticate_host_frame ::
  "mac_function \<Rightarrow> 'k authenticated_bridge_connector \<Rightarrow> bytes \<Rightarrow> bytes \<Rightarrow> bytes \<Rightarrow> privileged_bridge_client_frame" where
  "authenticate_host_frame hmac conn instance_id server_nonce client_nonce =
     runtime_client_frame AUTH_REQUEST_ID AUTH_SEQUENCE (PrivilegedBridgeClientFrame_Authenticate
       \<lparr>pba_role = privileged_bridge_role_code PrivilegedBridgeRole_HostAgent, pba_client_nonce = client_nonce,
        pba_client_proof = channel_client_proof hmac (abc_token conn) AuthChannel_PrivilegedHost instance_id server_nonce client_nonce,
        pba_executable_sha256 = abc_executable_sha256 conn, pba_os_session_id = abc_os_session_id conn\<rparr>)"

definition host_challenge :: "privileged_bridge_server_frame \<Rightarrow> proxy_error + bytes \<times> bytes" where
  "host_challenge frame =
     (case pbsf_payload frame of
        Some (PrivilegedBridgeServerFrame_Challenge challenge) \<Rightarrow>
          if length (pbc_broker_instance_id challenge) \<noteq> 16 \<or> length (pbc_server_nonce challenge) \<noteq> 32
          then Inl ProxyError_Rejected
          else Inr (pbc_broker_instance_id challenge, pbc_server_nonce challenge)
      | _ \<Rightarrow> Inl ProxyError_Rejected)"

definition host_accepts_proof ::
  "mac_function \<Rightarrow> 'k authenticated_bridge_connector \<Rightarrow> bytes \<Rightarrow> bytes \<Rightarrow> bytes \<Rightarrow> privileged_bridge_server_frame
    \<Rightarrow> proxy_error + unit" where
  "host_accepts_proof hmac conn instance_id server_nonce client_nonce answer =
     (if pbsf_request_id answer \<noteq> AUTH_REQUEST_ID \<or> pbsf_sequence answer \<noteq> AUTH_SEQUENCE then Inl ProxyError_StaleResponse
      else case pbsf_payload answer of
        Some (PrivilegedBridgeServerFrame_Authenticated value) \<Rightarrow>
          ensure ProxyError_Rejected (verify_channel_server_proof hmac (abc_token conn) AuthChannel_PrivilegedHost instance_id
            server_nonce client_nonce (pbad_server_proof value))
      | _ \<Rightarrow> Inl ProxyError_Rejected)"

definition host_accepts_status ::
  "'k authenticated_bridge_connector \<Rightarrow> privileged_bridge_server_frame \<Rightarrow> proxy_error + privileged_bridge_status_snapshot" where
  "host_accepts_status conn frame =
     (case pbsf_payload frame of
        Some (PrivilegedBridgeServerFrame_Status status) \<Rightarrow>
          (case privileged_bridge_state_of (pbss_state status) of
             None \<Rightarrow> Inl ProxyError_Rejected
           | Some state \<Rightarrow>
               if state = PrivilegedBridgeState_UserSessionOnly \<and> \<not> pbss_helper_connected status
               then Inl ProxyError_HelperUnavailable
               else if state \<noteq> PrivilegedBridgeState_Ready then Inl ProxyError_Rejected
               else if \<not> pbss_helper_connected status then Inl ProxyError_HelperUnavailable
               else (case pbss_interactive_session status of
                       None \<Rightarrow> Inl ProxyError_HelperUnavailable
                     | Some session \<Rightarrow>
                         if psd_os_session_id session \<noteq> abc_os_session_id conn \<or> psd_generation session = 0
                         then Inl ProxyError_Rejected else Inr status))
      | _ \<Rightarrow> Inl ProxyError_Rejected)"

text \<open>The nonce is the outcome of the random source.\<close>

definition connector_authenticate ::
  "mac_function \<Rightarrow> 'x bridge_transport_ops \<Rightarrow> bridge_codec \<Rightarrow> 'k authenticated_bridge_connector \<Rightarrow> bytes option \<Rightarrow> 'x
    \<Rightarrow> 'x \<times> (proxy_error + privileged_bridge_status_snapshot)" where
  "connector_authenticate hmac bt c conn nonce x =
     sbind (connector_receive bt c x) (\<lambda>x challenge.
     case bind_res (host_challenge challenge) (\<lambda>(instance_id, server_nonce).
            bind_res (ok_or ProxyError_Transport nonce) (\<lambda>client_nonce. Inr (instance_id, server_nonce, client_nonce))) of
       Inl e \<Rightarrow> (x, Inl e)
     | Inr (instance_id, server_nonce, client_nonce) \<Rightarrow>
         sbind (connector_send bt c x (authenticate_host_frame hmac conn instance_id server_nonce client_nonce)) (\<lambda>x _.
         sbind (connector_receive bt c x) (\<lambda>x authenticated.
         sbind (x, host_accepts_proof hmac conn instance_id server_nonce client_nonce authenticated) (\<lambda>x _.
         sbind (connector_receive bt c x) (\<lambda>x status. (x, host_accepts_status conn status))))))"

text \<open>
  \<open>kconnect\<close> opens the local stream.  The results carry the stream as it is when the function returns and drops it.
\<close>

definition probe_status ::
  "('k \<Rightarrow> 'k \<times> (proxy_error + 'x)) \<Rightarrow> mac_function \<Rightarrow> 'x bridge_transport_ops \<Rightarrow> bridge_codec
    \<Rightarrow> 'k authenticated_bridge_connector \<Rightarrow> bytes option
    \<Rightarrow> ('k authenticated_bridge_connector \<times> 'x option) \<times> (proxy_error + privileged_bridge_status_snapshot)" where
  "probe_status kconnect hmac bt c conn nonce =
     (case kconnect (abc_connector conn) of
        (k, Inl e) \<Rightarrow> ((conn\<lparr>abc_connector := k\<rparr>, None), Inl e)
      | (k, Inr x) \<Rightarrow>
          (let conn = conn\<lparr>abc_connector := k\<rparr>; (x, status) = connector_authenticate hmac bt c conn nonce x
           in ((conn, Some (bt_fail_closed bt x)), status)))"

record 'r bridge_connection =
  bcn_route :: proxy_route
  bcn_rpc :: 'r
  bcn_next_frame_sequence :: u64

definition permission_codes :: "proxy_session_context \<Rightarrow> i32 list" where
  "permission_codes context = map session_permission_code (psc_permissions context)"

definition acquire_frame :: "proxy_session_context \<Rightarrow> u64 \<Rightarrow> privileged_bridge_client_frame" where
  "acquire_frame context generation = runtime_client_frame ACQUIRE_REQUEST_ID ACQUIRE_SEQUENCE
     (PrivilegedBridgeClientFrame_AcquireLease
       \<lparr>aplr_session_id = psc_session_id context, aplr_generation = generation,
        aplr_permissions = permission_codes context,
        aplr_controller_display_name = psc_controller_display_name context\<rparr>)"

definition accept_lease ::
  "'x bridge_transport_ops \<Rightarrow> proxy_session_context \<Rightarrow> u64 \<Rightarrow> 'x framed_bridge_rpc \<Rightarrow> privileged_bridge_server_frame
    \<Rightarrow> 'x framed_bridge_rpc \<times> (proxy_error + 'x framed_bridge_rpc bridge_connection)" where
  "accept_lease bt context generation rpc response =
     (case pbsf_payload response of
        Some (PrivilegedBridgeServerFrame_Lease lease) \<Rightarrow>
          if length (please_lease_id lease) \<noteq> 16 then (rpc_fail_closed bt rpc, Inl ProxyError_InvalidMessage)
          else if please_generation lease \<noteq> generation \<or> please_session_id lease \<noteq> psc_session_id context
            \<or> please_permissions lease \<noteq> permission_codes context
            \<or> please_controller_display_name lease \<noteq> psc_controller_display_name context
          then (rpc_fail_closed bt rpc, Inl ProxyError_Rejected)
          else (rpc, Inr \<lparr>bcn_route = proxy_route_new (LeaseId (please_lease_id lease)) (please_generation lease), bcn_rpc = rpc,
                          bcn_next_frame_sequence = ACQUIRE_SEQUENCE + 1\<rparr>)
      | _ \<Rightarrow> (rpc_fail_closed bt rpc, Inl ProxyError_Rejected))"

text \<open>\<open>None\<close> where the call for the lease never returns.\<close>

definition connector_connect ::
  "('k \<Rightarrow> 'k \<times> (proxy_error + 'x)) \<Rightarrow> mac_function \<Rightarrow> 'x bridge_transport_ops \<Rightarrow> bridge_codec
    \<Rightarrow> 'k authenticated_bridge_connector \<Rightarrow> proxy_session_context \<Rightarrow> bytes option
    \<Rightarrow> (('k authenticated_bridge_connector \<times> 'x option) \<times> (proxy_error + 'x framed_bridge_rpc bridge_connection)) option" where
  "connector_connect kconnect hmac bt c conn context nonce =
     (case kconnect (abc_connector conn) of
        (k, Inl e) \<Rightarrow> Some ((conn\<lparr>abc_connector := k\<rparr>, None), Inl e)
      | (k, Inr x) \<Rightarrow>
          (let conn = conn\<lparr>abc_connector := k\<rparr> in
           case connector_authenticate hmac bt c conn nonce x of
             (x, Inl e) \<Rightarrow> Some ((conn, Some (bt_fail_closed bt x)), Inl e)
           | (x, Inr status) \<Rightarrow>
               (case pbss_interactive_session status of
                  None \<Rightarrow> Some ((conn, Some x), Inl ProxyError_Rejected)
                | Some session \<Rightarrow>
                    (case rpc_call bt c (framed_bridge_rpc_new x) (acquire_frame context (psd_generation session)) of
                       None \<Rightarrow> None
                     | Some (rpc, Inl e) \<Rightarrow> Some ((conn, Some (fr_transport rpc)), Inl e)
                     | Some (rpc, Inr response) \<Rightarrow>
                         (case accept_lease bt context (psd_generation session) rpc response of
                            (rpc, r) \<Rightarrow> Some ((conn, Some (fr_transport rpc)), r))))))"

section \<open>Parts for a session\<close>

text \<open>
  The rpc behind the wire; a call that never returns stands as the argument \<open>hang\<close>, about which nothing is assumed.
\<close>

definition framed_rpc_ops ::
  "('x framed_bridge_rpc \<Rightarrow> 'x framed_bridge_rpc \<times> (proxy_error + privileged_bridge_server_frame))
    \<Rightarrow> 'x bridge_transport_ops \<Rightarrow> bridge_codec \<Rightarrow> 'x framed_bridge_rpc bridge_rpc_ops" where
  "framed_rpc_ops hang bt c =
     \<lparr>brp_call = (\<lambda>rpc request. case rpc_call bt c rpc request of Some result \<Rightarrow> result | None \<Rightarrow> hang rpc),
      brp_try_event = rpc_try_event bt c, brp_fail_closed = rpc_fail_closed bt\<rparr>"

definition wire_with_connection ::
  "'r bridge_connection \<Rightarrow> bridge_peer_options \<Rightarrow> string \<Rightarrow> (nat \<Rightarrow> u64) \<Rightarrow> proxy_error + 'r protobuf_bridge_wire" where
  "wire_with_connection connection opts controller_display_name clock =
     wire_with_clock (bcn_rpc connection) opts controller_display_name (bcn_route connection)
       (bcn_next_frame_sequence connection) clock"

definition parts_create ::
  "('k \<Rightarrow> 'k \<times> (proxy_error + 'x)) \<Rightarrow> mac_function \<Rightarrow> 'x bridge_transport_ops \<Rightarrow> bridge_codec
    \<Rightarrow> 'k authenticated_bridge_connector \<Rightarrow> bridge_peer_options \<Rightarrow> proxy_session_context \<Rightarrow> bytes option \<Rightarrow> (nat \<Rightarrow> u64)
    \<Rightarrow> (('k authenticated_bridge_connector \<times> 'x option)
        \<times> (proxy_error + 'x framed_bridge_rpc protobuf_bridge_wire proxy_shared mutex)) option" where
  "parts_create kconnect hmac bt c conn opts context nonce clock =
     map_option (\<lambda>(st, r). (st, bind_res r (\<lambda>connection.
         bind_res (wire_with_connection connection opts (psc_controller_display_name context) clock) (\<lambda>wire.
           Inr (new_proxy_parts (bcn_route connection) wire)))))
       (connector_connect kconnect hmac bt c conn context nonce)"

text \<open>
  The adapter for remote sessions.  Peer, input sink and events of the session are handles on the one shared state that
  is returned.
\<close>

definition bridge_session_create ::
  "('k \<Rightarrow> 'k \<times> (proxy_error + 'x)) \<Rightarrow> mac_function \<Rightarrow> 'x bridge_transport_ops \<Rightarrow> bridge_codec
    \<Rightarrow> 'k authenticated_bridge_connector \<Rightarrow> bridge_peer_options \<Rightarrow> remote_session_context \<Rightarrow> bytes option \<Rightarrow> (nat \<Rightarrow> u64)
    \<Rightarrow> (('k authenticated_bridge_connector \<times> 'x option)
        \<times> (remote_session_error + 'x framed_bridge_rpc protobuf_bridge_wire proxy_shared mutex)) option" where
  "bridge_session_create kconnect hmac bt c conn opts context nonce clock =
     (case proxy_session_context_new (rsc_session_id context) (rsc_permissions context) (rsc_controller_display_name context) of
        Inl _ \<Rightarrow> Some ((conn, None), Inl RemoteSessionError_Peer)
      | Inr context \<Rightarrow>
          map_option (\<lambda>(st, r). (st, map_err (\<lambda>_. RemoteSessionError_Peer) r))
            (parts_create kconnect hmac bt c conn opts context nonce clock))"

fun map_event :: "proxy_event \<Rightarrow> remote_peer_event" where
  "map_event ProxyEvent_Connected = RemotePeerEvent_Connected"
| "map_event ProxyEvent_Disconnected = RemotePeerEvent_Disconnected"
| "map_event ProxyEvent_Failed = RemotePeerEvent_Failed"
| "map_event ProxyEvent_LocalStop = RemotePeerEvent_LocalStop"
| "map_event (ProxyEvent_LocalIceCandidate value) = RemotePeerEvent_LocalIceCandidate value"
| "map_event (ProxyEvent_ReliableInput value) = RemotePeerEvent_ReliableInput value"
| "map_event (ProxyEvent_FastPointer value) = RemotePeerEvent_FastPointer value"

definition bridge_try_recv ::
  "'w bridge_wire_ops \<Rightarrow> 'w proxy_shared mutex \<Rightarrow> 'w proxy_shared mutex \<times> (remote_session_error + remote_peer_event option)" where
  "bridge_try_recv ops m =
     (case proxy_try_recv ops m of
        (m, Inl _) \<Rightarrow> (m, Inl RemoteSessionError_Peer)
      | (m, Inr event) \<Rightarrow> (m, Inr (map_option map_event event)))"

section \<open>What a connection stands for\<close>

lemma connector_authenticate_Inr:
  assumes "connector_authenticate hmac bt c conn nonce x = (x', Inr status)"
  obtains challenge authenticated status_answer i sn cn x1 x2 x3 x4 where
    "connector_receive bt c x = (x1, Inr challenge)" "host_challenge challenge = Inr (i, sn)" "nonce = Some cn"
    "connector_send bt c x1 (authenticate_host_frame hmac conn i sn cn) = (x2, Inr ())"
    "connector_receive bt c x2 = (x3, Inr authenticated)" "host_accepts_proof hmac conn i sn cn authenticated = Inr ()"
    "connector_receive bt c x3 = (x', Inr status_answer)" "host_accepts_status conn status_answer = Inr status"
proof -
  obtain x1 q where q: "connector_receive bt c x = (x1, q)" by fastforce
  obtain ch where ch: "q = Inr ch" using assms q by (cases q) (simp_all add: connector_authenticate_def)
  obtain i sn where hc: "host_challenge ch = Inr (i, sn)"
    using assms q ch by (cases "host_challenge ch") (auto simp: connector_authenticate_def)
  obtain cn where cn: "nonce = Some cn" using assms q ch hc by (cases nonce) (auto simp: connector_authenticate_def)
  obtain x2 y where y: "connector_send bt c x1 (authenticate_host_frame hmac conn i sn cn) = (x2, y)" by fastforce
  have y': "y = Inr ()" using assms q ch hc cn y by (cases y) (auto simp: connector_authenticate_def)
  obtain x3 z where z: "connector_receive bt c x2 = (x3, z)" by fastforce
  obtain au where au: "z = Inr au" using assms q ch hc cn y y' z by (cases z) (auto simp: connector_authenticate_def)
  have pf: "host_accepts_proof hmac conn i sn cn au = Inr ()"
    using assms q ch hc cn y y' z au by (cases "host_accepts_proof hmac conn i sn cn au") (auto simp: connector_authenticate_def)
  obtain x4 w where w: "connector_receive bt c x3 = (x4, w)" by fastforce
  obtain st where st: "w = Inr st" using assms q ch hc cn y y' z au pf w by (cases w) (auto simp: connector_authenticate_def)
  have "x4 = x'" "host_accepts_status conn st = Inr status"
    using assms q ch hc cn y y' z au pf w st by (simp_all add: connector_authenticate_def)
  then show ?thesis using that q ch hc cn y y' z au pf w st by blast
qed

lemma host_accepts_proof_Inr:
  "host_accepts_proof hmac conn i sn cn answer = Inr () \<longleftrightarrow>
     pbsf_request_id answer = ''authenticate-1'' \<and> pbsf_sequence answer = 1
     \<and> pbsf_payload answer = Some (PrivilegedBridgeServerFrame_Authenticated
         \<lparr>pbad_server_proof = channel_server_proof hmac (abc_token conn) AuthChannel_PrivilegedHost i sn cn\<rparr>)"
  by (auto simp: host_accepts_proof_def AUTH_REQUEST_ID_def limits ensure_def verify_channel_server_proof_def channel_server_proof_def
      domain_proof_def split: option.splits privileged_bridge_server_frame_payload.splits if_splits)

lemma host_accepts_status_Inr:
  "host_accepts_status conn frame = Inr status \<longleftrightarrow>
     pbsf_payload frame = Some (PrivilegedBridgeServerFrame_Status status)
     \<and> pbss_state status = privileged_bridge_state_code PrivilegedBridgeState_Ready \<and> pbss_helper_connected status
     \<and> (\<exists>d. pbss_interactive_session status = Some d \<and> psd_os_session_id d = abc_os_session_id conn \<and> psd_generation d \<noteq> 0)"
proof -
  have key: "pbss_state status = privileged_bridge_state_code PrivilegedBridgeState_Ready
      \<longleftrightarrow> privileged_bridge_state_of (pbss_state status) = Some PrivilegedBridgeState_Ready" by simp
  show ?thesis
    unfolding key
    by (auto simp: host_accepts_status_def simp del: privileged_bridge_state.of_eq_Some
        split: option.splits privileged_bridge_server_frame_payload.splits if_splits)
qed

lemma accept_lease_Inr:
  "snd (accept_lease bt context g rpc response) = Inr cn \<longleftrightarrow>
     (\<exists>l. pbsf_payload response = Some (PrivilegedBridgeServerFrame_Lease l) \<and> length (please_lease_id l) = 16
        \<and> please_generation l = g \<and> please_session_id l = psc_session_id context \<and> please_permissions l = permission_codes context
        \<and> please_controller_display_name l = psc_controller_display_name context
        \<and> cn = \<lparr>bcn_route = proxy_route_new (LeaseId (please_lease_id l)) g, bcn_rpc = rpc, bcn_next_frame_sequence = 3\<rparr>)"
  by (auto simp: accept_lease_def limits split: option.splits privileged_bridge_server_frame_payload.splits if_splits)

lemma accept_lease_closes:
  assumes "accept_lease bt context g rpc response = (rpc', Inl e)" "\<not> fr_failed rpc"
  shows "fr_transport rpc' = bt_fail_closed bt (fr_transport rpc)"
proof -
  have "rpc' = rpc_fail_closed bt rpc"
    using assms(1) by (auto simp: accept_lease_def split: option.splits privileged_bridge_server_frame_payload.splits if_splits)
  then show ?thesis using assms(2) by (simp add: rpc_fail_closed_def)
qed

lemma reject_closes: "\<not> fr_failed f \<Longrightarrow> fr_transport (rpc_fail_closed ops f) = bt_fail_closed ops (fr_transport f)"
  by (simp add: rpc_fail_closed_def)

lemma turn_closes:
  assumes "call_turn ops c f q = Inr (f', Inl e)" "\<not> fr_failed f"
  shows "\<exists>y. fr_transport f' = bt_fail_closed ops y"
proof -
  obtain x r where x: "bt_receive ops (fr_transport f) = (x, r)" by fastforce
  let ?f = "f\<lparr>fr_transport := x\<rparr>"
  have nf: "\<not> fr_failed ?f" using assms(2) by simp
  show ?thesis
  proof (cases "\<exists>bs frame. r = Inr bs \<and> rpc_decode c bs = Inr frame")
    case False
    then have "f' = rpc_fail_closed ops ?f"
      using assms(1) x by (cases r; cases "rpc_decode c (projr r)") (auto simp: call_turn_def rpc_reject_def)
    then show ?thesis using reject_closes [OF nf] by auto
  next
    case True
    then obtain bs frame where r: "r = Inr bs" "rpc_decode c bs = Inr frame" by blast
    obtain g y where y: "enqueue_event ?f frame = (g, y)" by fastforce
    have "fr_failed g = fr_failed ?f"
      using y by (auto simp: enqueue_event_def Let_def split: option.splits if_splits prod.splits)
    then have "\<not> fr_failed g" using assms(2) by simp
    moreover have "f' = rpc_fail_closed ops g"
      using assms(1) x r y by (auto simp: call_turn_def rpc_reject_def split: sum.splits option.splits if_splits)
    ultimately show ?thesis using reject_closes by blast
  qed
qed

lemma call_closes:
  assumes "call_loop ops c f q = Some r"
  shows "fr_failed f \<or> (\<forall>f' e. r = (f', Inl e) \<longrightarrow> (\<exists>y. fr_transport f' = bt_fail_closed ops y))"
proof (rule call_loop.raw_induct [OF _ assms])
  fix loop ops c f q r
  assume IH: "\<And>ops c f q r. loop ops c f q = Some r \<Longrightarrow>
      fr_failed f \<or> (\<forall>f' e. r = (f', Inl e) \<longrightarrow> (\<exists>y. fr_transport f' = bt_fail_closed ops y))"
    and body: "(case call_turn ops c f q of Inl f' \<Rightarrow> loop ops c f' q | Inr result \<Rightarrow> Some result) = Some r"
  show "fr_failed f \<or> (\<forall>f' e. r = (f', Inl e) \<longrightarrow> (\<exists>y. fr_transport f' = bt_fail_closed ops y))"
  proof (cases rule: call_turn_cases [of ops c f q])
    case (again x bs frame f')
    then have "fr_failed f' \<or> (\<forall>f' e. r = (f', Inl e) \<longrightarrow> (\<exists>y. fr_transport f' = bt_fail_closed ops y))" using IH [of ops c f' q r] body by simp
    with again(6) show ?thesis by simp
  next
    case (answer x bs frame)
    with body show ?thesis by auto
  next
    case (reject f1 e)
    then have "r = rpc_reject ops f1 e" using body by simp
    then show ?thesis using turn_closes [of ops c f q] reject by (auto simp: rpc_reject_def)
  qed
qed

lemma new_rpc_call_closes:
  assumes "rpc_call bt c (framed_bridge_rpc_new x) q = Some (rpc, r)"
  shows "case r of Inl _ \<Rightarrow> \<exists>y. fr_transport rpc = bt_fail_closed bt y | Inr _ \<Rightarrow> \<not> fr_failed rpc"
proof -
  let ?f = "\<lambda>x. \<lparr>fr_transport = x, fr_events = event_queue_new, fr_failed = False\<rparr>"
  obtain y z where y: "bt_send bt x (bcd_encode_client c q) = (y, z)" by fastforce
  show ?thesis
  proof (cases z)
    case (Inl e)
    then show ?thesis using assms y
      by (auto simp: rpc_call_def framed_bridge_rpc_new_def rpc_reject_def rpc_fail_closed_def)
  next
    case (Inr u)
    then have l: "call_loop bt c (?f y) q = Some (rpc, r)" using assms y by (simp add: rpc_call_def framed_bridge_rpc_new_def)
    from call_closes [OF l] call_loop_result [OF l] show ?thesis by (cases r) (auto simp: call_outcome_def)
  qed
qed

section \<open>A Host gets its lease\<close>

lemma open_broker_state:
  assumes "open_broker config route = Inr broker"
  shows "lm_host_generation (bc_leases broker) = Some (rs_generation route)" "lm_active (bc_leases broker) = None"
    "sm_current (bc_routes broker) = Some route" "sm_generation (bc_routes broker) = rs_generation route"
  using assms
  by (auto simp: open_broker_def broker_observe_route_def broker_connect_host_def connect_host_def apply_available_def
      broker_core_new_def lease_manager_new_def session_state_machine_new_def freeze_actions_def Let_def
      split: prod.splits sum.splits if_splits)

definition granted_lease :: "proxy_session_context \<Rightarrow> u64 \<Rightarrow> bytes \<Rightarrow> u64 \<Rightarrow> lease" where
  "granted_lease context generation lid now =
     \<lparr>le_id = LeaseId lid, le_session_id = SessionId (psc_session_id context), le_generation = generation, le_issued_at_ms = now,
      le_expires_at_ms = now + LEASE_DURATION_MS, le_last_renewed_at_ms = now, le_last_command_sequence = 0,
      le_controller_display_name = psc_controller_display_name context,
      le_may_control_input = (SessionPermission_ControlInput \<in> set (psc_permissions context))\<rparr>"

definition granted_frame :: "proxy_session_context \<Rightarrow> u64 \<Rightarrow> bytes \<Rightarrow> u64 \<Rightarrow> privileged_bridge_server_frame" where
  "granted_frame context generation lid now =
     lease_response (acquire_frame context generation) (granted_lease context generation lid now) (permission_codes context)"

lemma context_fields:
  assumes "proxy_session_context_new i ps name = Inr context"
  shows "length (psc_session_id context) = 16" "psc_controller_display_name context \<noteq> []"
    "length (psc_controller_display_name context) \<le> 128" "distinct (psc_permissions context)"
    "SessionPermission_Unspecified \<notin> set (psc_permissions context)"
  using assms by (auto simp: proxy_session_context_new_def limits card_distinct split: if_splits)

lemma acquire_answered:
  assumes "open_broker config route = Inr broker" "proxy_session_context_new i ps name = Inr context"
    and "\<not> has_control (psc_controller_display_name context)" "length lid = 16" "lid \<noteq> replicate 16 0"
    and "checked_add now LEASE_DURATION_MS \<noteq> None"
  shows "\<exists>s. broker_handle ops (with_secure_attention (host_broker_session_new broker h) b) (acquire_frame context (rs_generation route))
    now (Inr (LeaseId lid)) = (s, Inr (granted_frame context (rs_generation route) lid now))"
proof -
  note ctx = context_fields [OF assms(2)] and st = open_broker_state [OF assms(1)]
  have exp: "checked_add now LEASE_DURATION_MS = Some (now + LEASE_DURATION_MS)"
    using assms(6) by (auto simp: checked_add_def split: if_splits)
  have ctl: "session_permission_code SessionPermission_ControlInput \<in> set (permission_codes context)
      \<longleftrightarrow> SessionPermission_ControlInput \<in> set (psc_permissions context)"
    by (auto simp: permission_codes_def image_iff simp del: session_permission_code.simps) (metis session_permission.code_inject)
  have acq: "broker_acquire broker \<lparr>al_session_id = SessionId (psc_session_id context), al_generation = rs_generation route,
      al_controller_display_name = psc_controller_display_name context,
      al_may_control_input = (SessionPermission_ControlInput \<in> set (psc_permissions context))\<rparr> now (Inr (LeaseId lid))
    = (broker\<lparr>bc_leases := (bc_leases broker)\<lparr>lm_active := Some (granted_lease context (rs_generation route) lid now),
        lm_last_released := None\<rparr>\<rparr>, Inr (granted_lease context (rs_generation route) lid now))"
    using st ctx assms(3,4,5) exp
    by (simp add: broker_acquire_def lease_acquire_def validate_controller_name_def granted_lease_def Let_def limits)
  show ?thesis
    using ctx st acq ctl
    by (simp add: broker_handle_def acquire_frame_def runtime_client_frame_def broker_session_acquire_def host_broker_session_new_def
        with_secure_attention_def broker_begin_control_def begin_control_def granted_frame_def Let_def granted_lease_def
        del: session_permission_code.simps)
qed

lemma connector_receive_frame:
  "receive_server_frame bt c x = (x', Inr f) \<Longrightarrow> connector_receive bt c x = (x', Inr f)"
  by (cases "bt_receive bt x"; cases "snd (bt_receive bt x)")
    (auto simp: receive_server_frame_def connector_receive_def rpc_decode_def)

lemma pipe_connector_send [simp]: "connector_send pipe_ops c (i, out) f = ((i, out @ [bcd_encode_client c f]), Inr ())"
  by (simp add: connector_send_def pipe_ops_def)

lemma pipe_rpc_call:
  assumes "connector_receive pipe_ops c ([bcd_encode_server c f], out @ [bcd_encode_client c q]) = (([], out @ [bcd_encode_client c q]), Inr f)"
    and "pbsf_payload f = Some (PrivilegedBridgeServerFrame_Lease l)" "pbsf_request_id f = pbcf_request_id q" "pbsf_sequence f = pbcf_sequence q"
  shows "rpc_call pipe_ops c (framed_bridge_rpc_new ([bcd_encode_server c f], out)) q
    = Some (framed_bridge_rpc_new ([], out @ [bcd_encode_client c q]), Inr f)"
proof -
  have "rpc_decode c (bcd_encode_server c f) = Inr f" using assms(1) by (simp add: connector_receive_def pipe_ops_def)
  then have "call_turn pipe_ops c (framed_bridge_rpc_new ([bcd_encode_server c f], out @ [bcd_encode_client c q])) q
      = Inr (framed_bridge_rpc_new ([], out @ [bcd_encode_client c q]), Inr f)"
    using assms(2-4) by (simp add: call_turn_def framed_bridge_rpc_new_def pipe_ops_def enqueue_event_def)
  then have "call_loop pipe_ops c (framed_bridge_rpc_new ([bcd_encode_server c f], out @ [bcd_encode_client c q])) q
      = Some (framed_bridge_rpc_new ([], out @ [bcd_encode_client c q]), Inr f)"
    by (subst call_loop.simps) simp
  then show ?thesis by (simp add: rpc_call_def framed_bridge_rpc_new_def) (simp add: pipe_ops_def)
qed

text \<open>Broker and Host belong to one installation, and a helper for the owner's session is registered.\<close>

definition host_installed ::
  "broker_runtime_config \<Rightarrow> 'k authenticated_bridge_connector \<Rightarrow> privileged_session_descriptor \<Rightarrow> bool" where
  "host_installed config conn d \<longleftrightarrow> abc_token conn = brc_token config
     \<and> abc_executable_sha256 conn = brc_host_executable_sha256 config \<and> abc_os_session_id conn = brc_owner_os_session_id config
     \<and> length (brc_instance_id config) = 16 \<and> length (brc_host_executable_sha256 config) = 32
     \<and> descriptor_ok d \<and> psd_os_session_id d = brc_owner_os_session_id config
     \<and> psd_desktop_kind d \<noteq> interactive_desktop_kind_code InteractiveDesktopKind_Unavailable"

definition host_proof_frame ::
  "mac_function \<Rightarrow> broker_runtime_config \<Rightarrow> 'k authenticated_bridge_connector \<Rightarrow> bytes \<Rightarrow> bytes \<Rightarrow> privileged_bridge_server_frame" where
  "host_proof_frame hmac config conn server_nonce client_nonce =
     authenticated_frame (authenticate_host_frame hmac conn (brc_instance_id config) server_nonce client_nonce)
       (channel_server_proof hmac (brc_token config) AuthChannel_PrivilegedHost (brc_instance_id config) server_nonce client_nonce)"

lemma status_frame_received:
  assumes "descriptor_ok d" "server_carried c (status_frame (ready_status d))"
  shows "receive_server_frame pipe_ops c (bcd_encode_server c (status_frame (ready_status d)) # rest, out)
    = ((rest, out), Inr (status_frame (ready_status d)))"
proof -
  have "validate_privileged_bridge_status_snapshot (ready_status d) = Inr ()"
    using ready_status_ok [of d] assms(1) by (cases "validate_privileged_bridge_status_snapshot (ready_status d)") auto
  then show ?thesis
    using assms(2) unfolding status_frame_def by (intro pipe_receive_server) (simp_all add: STATUS_REQUEST_ID_def)
qed

lemma host_side_authenticates:
  assumes "host_installed config conn d" "\<forall>k m. length (hmac k m) = 32" "length sn = 32" "length cn = 32"
    and "server_carried c (challenge_frame config sn)" "server_carried c (host_proof_frame hmac config conn sn cn)"
      "server_carried c (status_frame (ready_status d))"
  shows "connector_authenticate hmac pipe_ops c conn (Some cn)
      (map (bcd_encode_server c) [challenge_frame config sn, host_proof_frame hmac config conn sn cn, status_frame (ready_status d)] @ rest, [])
    = ((rest, [bcd_encode_client c (authenticate_host_frame hmac conn (brc_instance_id config) sn cn)]), Inr (ready_status d))"
proof -
  have same: "abc_token conn = brc_token config" "length (brc_instance_id config) = 16" "descriptor_ok d"
    "psd_os_session_id d = abc_os_session_id conn" "psd_generation d \<noteq> 0"
    using assms(1) by (auto simp: host_installed_def descriptor_ok_def)
  have ch: "receive_server_frame pipe_ops c (bcd_encode_server c (challenge_frame config sn) # rest, out)
      = ((rest, out), Inr (challenge_frame config sn))" for rest out
    using assms(3,5) same unfolding challenge_frame_def
    by (intro pipe_receive_server) (simp_all add: CHALLENGE_REQUEST_ID_def validate_length_def limits)
  have ad: "receive_server_frame pipe_ops c (bcd_encode_server c (host_proof_frame hmac config conn sn cn) # rest, out)
      = ((rest, out), Inr (host_proof_frame hmac config conn sn cn))" for rest out
    using assms(6) length_channel_proofs [OF assms(2)] unfolding host_proof_frame_def authenticated_frame_def
    by (intro pipe_receive_server)
      (simp_all add: authenticate_host_frame_def runtime_client_frame_def AUTH_REQUEST_ID_def validate_length_def limits)
  note recv = connector_receive_frame [OF ch] connector_receive_frame [OF ad]
    connector_receive_frame [OF status_frame_received [OF same(3) assms(7)]]
  have "host_challenge (challenge_frame config sn) = Inr (brc_instance_id config, sn)"
    using same assms(3) by (simp add: host_challenge_def challenge_frame_def runtime_server_frame_def)
  moreover have "host_accepts_proof hmac conn (brc_instance_id config) sn cn (host_proof_frame hmac config conn sn cn) = Inr ()"
    unfolding host_accepts_proof_Inr using same
    by (simp add: host_proof_frame_def authenticated_frame_def runtime_server_frame_def authenticate_host_frame_def runtime_client_frame_def
        AUTH_REQUEST_ID_def limits)
  moreover have "host_accepts_status conn (status_frame (ready_status d)) = Inr (ready_status d)"
    unfolding host_accepts_status_Inr using same by (simp add: status_frame_def runtime_server_frame_def) (simp add: ready_status_def)
  ultimately show ?thesis by (simp add: connector_authenticate_def recv)
qed

lemma broker_side_admits_host:
  assumes "host_installed config conn d" "\<forall>k m. length (hmac k m) = 32"
    and "length cn = 32" "cn \<noteq> sn" "cn \<notin> rg_used replay"
    and "client_carried c (authenticate_host_frame hmac conn (brc_instance_id config) sn cn)"
  shows "\<exists>replay'. cn \<in> rg_used replay' \<and> authenticate_server hmac pipe_ops c config (Some sn)
      ((bcd_encode_client c (authenticate_host_frame hmac conn (brc_instance_id config) sn cn) # rest, []), replay)
    = (((rest, map (bcd_encode_server c) [challenge_frame config sn, host_proof_frame hmac config conn sn cn]), replay'),
       Inr \<lparr>ap_role = BridgeRole_HostAgent, ap_os_session_id = brc_owner_os_session_id config\<rparr>)"
proof -
  let ?request = "authenticate_host_frame hmac conn (brc_instance_id config) sn cn"
  have same: "abc_token conn = brc_token config" "abc_executable_sha256 conn = brc_host_executable_sha256 config"
    "abc_os_session_id conn = brc_owner_os_session_id config" "brc_owner_os_session_id config \<noteq> 0"
    "length (brc_host_executable_sha256 config) = 32"
    using assms(1) by (auto simp: host_installed_def descriptor_ok_def)
  have rc: "receive_client_frame pipe_ops c (bcd_encode_client c ?request # rest, out) = ((rest, out), Inr ?request)" for out
    using assms(3,6) same length_channel_proofs [OF assms(2)] unfolding authenticate_host_frame_def
    by (intro pipe_receive_client)
      (simp_all add: validate_length_def validate_nonzero_enum_def privileged_bridge_role_of_def ensure_def AUTH_REQUEST_ID_def limits)
  have mac: "length (proof_mac hmac t d i s n) = 32" for t d i s n using assms(2) by (simp add: proof_mac_def)
  obtain g where g: "nonce_claim replay cn = (g, Inr ())" "cn \<in> rg_used g" using nonce_claim_fresh [OF assms(5)] by blast
  have "admit_peer hmac None config sn replay ?request = (g, Inr (\<lparr>ap_role = BridgeRole_HostAgent,
      ap_os_session_id = brc_owner_os_session_id config\<rparr>,
      channel_server_proof hmac (brc_token config) AuthChannel_PrivilegedHost (brc_instance_id config) sn cn))"
    using same assms(3,4) g mac
    by (simp add: admit_peer_def authenticate_host_frame_def runtime_client_frame_def role_of_authenticate_def
        privileged_bridge_role_of_def peer_process_matches_def peer_principal_matches_def bridge_authenticate_def
        bridge_authenticator_new_def verify_channel_client_proof_def channel_client_proof_def domain_proof_def limits)
  then show ?thesis
    using g(2) by (auto simp: authenticate_server_def rc host_proof_frame_def)
qed

lemma permission_codes_valid:
  assumes "proxy_session_context_new i ps name = Inr context"
  shows "validate_permissions (permission_codes context) = Inr ()"
proof -
  note ctx = context_fields(4,5) [OF assms]
  have inj: "inj session_permission_code" by (rule injI) (metis session_permission.code_inject)
  have "distinct (permission_codes context)" using ctx(1) inj_on_subset [OF inj] by (simp add: permission_codes_def distinct_map)
  moreover have "p \<in> {SessionPermission_ViewScreen, SessionPermission_ControlInput}" if "p \<in> set (psc_permissions context)" for p
    using that ctx(2) session_permission.exhaust [of p] by blast
  then have "set (permission_codes context) \<subseteq> {1, 2}" by (fastforce simp: permission_codes_def)
  ultimately show ?thesis by (simp add: accepted)
qed

lemma granted_frame_received:
  assumes "proxy_session_context_new i ps name = Inr context" "length lid = 16" "g \<noteq> 0"
    and "checked_add now LEASE_DURATION_MS \<noteq> None" "server_carried c (granted_frame context g lid now)"
  shows "receive_server_frame pipe_ops c (bcd_encode_server c (granted_frame context g lid now) # rest, out)
    = ((rest, out), Inr (granted_frame context g lid now))"
proof -
  note ctx = context_fields [OF assms(1)] and perms = permission_codes_valid [OF assms(1)]
  have exp: "\<not> now + LEASE_DURATION_MS \<le> now"
    using assms(4) by (auto simp: checked_add_def word_le_nat_alt limits unat_word_ariths split: if_splits)
  have f: "granted_frame context g lid now = runtime_server_frame ACQUIRE_REQUEST_ID ACQUIRE_SEQUENCE
      (the (pbsf_payload (granted_frame context g lid now)))"
    by (simp add: granted_frame_def lease_response_def broker_response_frame_def runtime_server_frame_def client_version_def limits
        acquire_frame_def runtime_client_frame_def)
  have "validate_privileged_bridge_server_payload (the (pbsf_payload (granted_frame context g lid now))) = Inr ()"
    using ctx perms exp assms(2,3)
    by (simp add: granted_frame_def lease_response_def broker_response_frame_def granted_lease_def validate_privileged_lease_def
        validate_privileged_lease_ref_def validate_length_def validate_generation_def validate_nonempty_utf8_length_def
        validate_utf8_length_def ensure_def limits)
  then show ?thesis
    using pipe_receive_server [of c ACQUIRE_REQUEST_ID ACQUIRE_SEQUENCE "the (pbsf_payload (granted_frame context g lid now))" rest out]
      assms(5) f by (simp add: ACQUIRE_REQUEST_ID_def limits)
qed

lemma acquire_frame_received:
  assumes "proxy_session_context_new i ps name = Inr context" "g \<noteq> 0" "client_carried c (acquire_frame context g)"
  shows "await_request pipe_ops c ([bcd_encode_client c (acquire_frame context g)], out) [tick]
    = (([], out), AwaitedRequest (acquire_frame context g) tick [])"
proof -
  note ctx = context_fields [OF assms(1)] and perms = permission_codes_valid [OF assms(1)]
  have "receive_client_frame pipe_ops c ([bcd_encode_client c (acquire_frame context g)], out)
      = (([], out), Inr (acquire_frame context g))"
    using assms(2,3) ctx perms unfolding acquire_frame_def
    by (intro pipe_receive_client)
      (simp_all add: ACQUIRE_REQUEST_ID_def validate_length_def validate_generation_def validate_nonempty_utf8_length_def
        validate_utf8_length_def ensure_def limits)
  then have "decode_and_validate_privileged_bridge_client_frame (bcd_decode_client c) (bcd_encode_client c (acquire_frame context g))
      = Inr (acquire_frame context g)" by (simp add: receive_client_frame_def pipe_ops_def)
  then show ?thesis
    by (simp add: pipe_ops_def is_acquire_request_def) (simp add: acquire_frame_def runtime_client_frame_def)
qed

lemma connect_succeeds:
  assumes "host_installed config conn d" "\<forall>k m. length (hmac k m) = 32" "length sn = 32" "length cn = 32"
    and "proxy_session_context_new i ps name = Inr context" "length lid = 16" "checked_add now LEASE_DURATION_MS \<noteq> None"
    and "server_carried c (challenge_frame config sn)" "server_carried c (host_proof_frame hmac config conn sn cn)"
      "server_carried c (status_frame (ready_status d))" "server_carried c (granted_frame context (psd_generation d) lid now)"
    and "frames = map (bcd_encode_server c) [challenge_frame config sn, host_proof_frame hmac config conn sn cn,
      status_frame (ready_status d), granted_frame context (psd_generation d) lid now]"
    and "kconnect (abc_connector conn) = (abc_connector conn, Inr (frames, []))"
    and "sent = map (bcd_encode_client c) [authenticate_host_frame hmac conn (brc_instance_id config) sn cn,
      acquire_frame context (psd_generation d)]"
  shows "connector_connect kconnect hmac pipe_ops c conn context (Some cn) = Some ((conn, Some ([], sent)),
    Inr \<lparr>bcn_route = proxy_route_new (LeaseId lid) (psd_generation d), bcn_rpc = framed_bridge_rpc_new ([], sent),
         bcn_next_frame_sequence = 3\<rparr>)"
proof -
  let ?granted = "granted_frame context (psd_generation d) lid now" and ?acquire = "acquire_frame context (psd_generation d)"
  let ?au = "bcd_encode_client c (authenticate_host_frame hmac conn (brc_instance_id config) sn cn)"
  have g: "psd_generation d \<noteq> 0" using assms(1) by (auto simp: host_installed_def descriptor_ok_def)
  have auth: "connector_authenticate hmac pipe_ops c conn (Some cn) (frames, [])
      = (([bcd_encode_server c ?granted], [?au]), Inr (ready_status d))"
    using host_side_authenticates [OF assms(1-4,8-10), of "[bcd_encode_server c ?granted]"] by (simp add: assms(12))
  obtain l where l: "pbsf_payload ?granted = Some (PrivilegedBridgeServerFrame_Lease l)" "length (please_lease_id l) = 16"
    "please_generation l = psd_generation d" "please_session_id l = psc_session_id context" "please_permissions l = permission_codes context"
    "please_controller_display_name l = psc_controller_display_name context" "please_lease_id l = lid"
    using assms(6) by (simp add: granted_frame_def lease_response_def broker_response_frame_def granted_lease_def)
  have "pbsf_request_id ?granted = pbcf_request_id ?acquire" "pbsf_sequence ?granted = pbcf_sequence ?acquire"
    by (simp_all add: granted_frame_def lease_response_def broker_response_frame_def)
  note rpc = pipe_rpc_call [OF connector_receive_frame [OF granted_frame_received [OF assms(5,6) g assms(7,11)]] l(1) this]
  have lease: "accept_lease pipe_ops context (psd_generation d) rpc ?granted = (rpc, Inr \<lparr>bcn_route = proxy_route_new (LeaseId lid)
      (psd_generation d), bcn_rpc = rpc, bcn_next_frame_sequence = 3\<rparr>)" for rpc
    using l by (simp add: accept_lease_def limits)
  have sent: "sent = [?au, bcd_encode_client c ?acquire]" by (simp add: assms(14))
  have "pbss_interactive_session (ready_status d) = Some d" by (simp add: ready_status_def)
  then show ?thesis
    by (simp add: connector_connect_def assms(13) auth rpc lease Let_def sent) (simp add: framed_bridge_rpc_new_def)
qed

lemma broker_grants:
  assumes "host_installed config conn d" "proxy_session_context_new i ps name = Inr context"
    and "\<not> has_control (psc_controller_display_name context)" "length lid = 16" "lid \<noteq> replicate 16 0"
    and "runtime_now_unix_ms t = Inr now" "checked_add now LEASE_DURATION_MS \<noteq> None"
    and "client_carried c (acquire_frame context (psd_generation d))"
    and "run = run_host_connection hang pipe_ops c ([bcd_encode_client c (acquire_frame context (psd_generation d))], out)
      \<lparr>rgh_session = d, rgh_transport = helper\<rparr> config
      [\<lparr>rt_request_clock = t, rt_expire_clock = e, rt_next_lease_id = Inr (LeaseId lid)\<rparr>]"
  shows "hr_host run = ([], out @ map (bcd_encode_server c) [status_frame (ready_status d), granted_frame context (psd_generation d) lid now])
    \<and> hr_result run = Inr None"
proof -
  let ?tick = "\<lparr>rt_request_clock = t, rt_expire_clock = e, rt_next_lease_id = Inr (LeaseId lid)\<rparr>"
  have d: "descriptor_ok d" "psd_desktop_kind d \<noteq> interactive_desktop_kind_code InteractiveDesktopKind_Unavailable" "psd_generation d \<noteq> 0"
    using assms(1) by (auto simp: host_installed_def descriptor_ok_def)
  obtain route where route: "route_session_of d = Inr route" "rs_generation route = psd_generation d" "rs_os_session_id route \<noteq> 0"
    "rs_generation route \<noteq> 0"
    by (rule route_of_descriptor [OF d(1,2)]) simp
  obtain broker where broker: "open_broker config route = Inr broker" using open_broker_total [OF route(3,4)] by blast
  define s0 where "s0 = with_secure_attention (host_broker_session_new broker (framed_bridge_rpc_new helper)) (secure_attention_route route)"
  obtain s where s: "broker_handle (transport_helper_ops hang pipe_ops c) s0 (acquire_frame context (psd_generation d)) now (Inr (LeaseId lid))
      = (s, Inr (granted_frame context (psd_generation d) lid now))"
    using acquire_answered [OF broker assms(2-5,7), of "transport_helper_ops hang pipe_ops c" "framed_bridge_rpc_new helper"
        "secure_attention_route route"] unfolding s0_def route(2) by blast
  have aw: "await_request pipe_ops c ([bcd_encode_client c (acquire_frame context (psd_generation d))], out') [?tick]
      = (([], out'), AwaitedRequest (acquire_frame context (psd_generation d)) ?tick [])" for out'
    by (rule acquire_frame_received [OF assms(2) d(3) assms(8)])
  have "serve_session pipe_ops c (transport_helper_ops hang pipe_ops c) (([], out'), s0) (acquire_frame context (psd_generation d)) ?tick []
      = ((([], out' @ [bcd_encode_server c (granted_frame context (psd_generation d) lid now)]),
          broker_fail_closed (transport_helper_ops hang pipe_ops c) s), Inr ())" for out'
    using s assms(6) by (simp add: serve_session_def answer_request_def proceed_def) (simp add: pipe_ops_def)
  then show ?thesis
    unfolding assms(9) by (simp add: run_host_connection_def aw start_host_session_def route(1) broker s0_def Let_def del: await_request.simps)
qed

section \<open>Properties\<close>

text \<open>
  C12. A connection to the bridge is what the session asked for, or it is closed.  When the Host gets a connection, the broker has proved that it
  knows the installation token for this handshake, the helper it reports is ready in the Host's own session, and the lease that the
  connection is bound to carries exactly the session, the permissions and the Controller name that were asked for, and its own route.
  When it gets an error after the stream was opened, the stream is closed.
\<close>

theorem connection_bound_to_lease:
  assumes "connector_connect kconnect hmac bt c conn context nonce = Some ((conn', x'), r)"
    and "kconnect (abc_connector conn) = (k, Inr x)"
  shows "case r of
      Inl e \<Rightarrow> \<exists>y. x' = Some (bt_fail_closed bt y)
    | Inr connection \<Rightarrow> \<exists>challenge authenticated status snap response i sn cn d l y1 y2 y3 y4.
        connector_receive bt c x = (y1, Inr challenge) \<and> host_challenge challenge = Inr (i, sn) \<and> nonce = Some cn
        \<and> connector_send bt c y1 (authenticate_host_frame hmac conn i sn cn) = (y2, Inr ())
        \<and> connector_receive bt c y2 = (y3, Inr authenticated)
        \<and> pbsf_payload authenticated = Some (PrivilegedBridgeServerFrame_Authenticated
            \<lparr>pbad_server_proof = channel_server_proof hmac (abc_token conn) AuthChannel_PrivilegedHost i sn cn\<rparr>)
        \<and> connector_receive bt c y3 = (y4, Inr status) \<and> pbsf_payload status = Some (PrivilegedBridgeServerFrame_Status snap)
        \<and> pbss_state snap = privileged_bridge_state_code PrivilegedBridgeState_Ready \<and> pbss_helper_connected snap
        \<and> pbss_interactive_session snap = Some d
        \<and> psd_os_session_id d = abc_os_session_id conn \<and> psd_generation d \<noteq> 0
        \<and> rpc_call bt c (framed_bridge_rpc_new y4) (acquire_frame context (psd_generation d)) = Some (bcn_rpc connection, Inr response)
        \<and> pbsf_payload response = Some (PrivilegedBridgeServerFrame_Lease l)
        \<and> please_session_id l = psc_session_id context \<and> please_permissions l = map session_permission_code (psc_permissions context)
        \<and> please_controller_display_name l = psc_controller_display_name context \<and> please_generation l = psd_generation d
        \<and> bcn_route connection = proxy_route_new (LeaseId (please_lease_id l)) (please_generation l)
        \<and> bcn_next_frame_sequence connection = 3"
proof -
  let ?conn = "conn\<lparr>abc_connector := k\<rparr>"
  obtain y4 q where a: "connector_authenticate hmac bt c ?conn nonce x = (y4, q)" by fastforce
  show ?thesis
  proof (cases q)
    case (Inl e)
    then show ?thesis using assms a by (auto simp: connector_connect_def Let_def)
  next
    case (Inr snap)
    obtain challenge authenticated status i sn cn y1 y2 y3 where h: "connector_receive bt c x = (y1, Inr challenge)"
      "host_challenge challenge = Inr (i, sn)" "nonce = Some cn"
      "connector_send bt c y1 (authenticate_host_frame hmac ?conn i sn cn) = (y2, Inr ())"
      "connector_receive bt c y2 = (y3, Inr authenticated)"
      "host_accepts_proof hmac ?conn i sn cn authenticated = Inr ()" "connector_receive bt c y3 = (y4, Inr status)"
      "host_accepts_status ?conn status = Inr snap"
      by (rule connector_authenticate_Inr [OF a [unfolded Inr]]) blast
    have fr: "authenticate_host_frame hmac ?conn i sn cn = authenticate_host_frame hmac conn i sn cn"
      by (simp add: authenticate_host_frame_def)
    have hs: "host_accepts_status conn status = Inr snap" using h(8) unfolding host_accepts_status_Inr by simp
    obtain d where d: "pbss_interactive_session snap = Some d" "psd_os_session_id d = abc_os_session_id conn" "psd_generation d \<noteq> 0"
      "pbsf_payload status = Some (PrivilegedBridgeServerFrame_Status snap)"
      "pbss_state snap = privileged_bridge_state_code PrivilegedBridgeState_Ready" "pbss_helper_connected snap"
      using hs unfolding host_accepts_status_Inr by blast
    have pf: "pbsf_payload authenticated = Some (PrivilegedBridgeServerFrame_Authenticated
        \<lparr>pbad_server_proof = channel_server_proof hmac (abc_token conn) AuthChannel_PrivilegedHost i sn cn\<rparr>)"
      using h(6) unfolding host_accepts_proof_Inr by simp
    let ?q = "acquire_frame context (psd_generation d)"
    obtain rpc z where z: "rpc_call bt c (framed_bridge_rpc_new y4) ?q = Some (rpc, z)"
      using assms a Inr d(1) by (cases "rpc_call bt c (framed_bridge_rpc_new y4) ?q") (auto simp: connector_connect_def Let_def)
    note closes = new_rpc_call_closes [OF z]
    show ?thesis
    proof (cases z)
      case (Inl e)
      then show ?thesis using assms a Inr d(1) z closes by (auto simp: connector_connect_def Let_def)
    next
      case resp: (Inr response)
      obtain rpc' r' where l: "accept_lease bt context (psd_generation d) rpc response = (rpc', r')" by fastforce
      have r: "r = r'" "x' = Some (fr_transport rpc')" using assms a Inr d(1) z resp l by (simp_all add: connector_connect_def Let_def)
      show ?thesis
      proof (cases r)
        case (Inl e)
        then show ?thesis using accept_lease_closes [of bt "context" _ rpc response rpc' e] l r closes resp by auto
      next
        case con: (Inr connection)
        then obtain le where le: "pbsf_payload response = Some (PrivilegedBridgeServerFrame_Lease le)"
          "please_generation le = psd_generation d" "please_session_id le = psc_session_id context"
          "please_permissions le = permission_codes context" "please_controller_display_name le = psc_controller_display_name context"
          "connection = \<lparr>bcn_route = proxy_route_new (LeaseId (please_lease_id le)) (psd_generation d), bcn_rpc = rpc,
            bcn_next_frame_sequence = 3\<rparr>"
          using accept_lease_Inr [of bt "context" "psd_generation d" rpc response connection] l r(1) by auto
        show ?thesis
          unfolding con sum.case
        proof (intro exI conjI)
          show "connector_receive bt c x = (y1, Inr challenge)" "host_challenge challenge = Inr (i, sn)" "nonce = Some cn"
            "connector_send bt c y1 (authenticate_host_frame hmac conn i sn cn) = (y2, Inr ())"
            "connector_receive bt c y2 = (y3, Inr authenticated)" using h(1-5) fr by simp_all
          show "pbsf_payload authenticated = Some (PrivilegedBridgeServerFrame_Authenticated
              \<lparr>pbad_server_proof = channel_server_proof hmac (abc_token conn) AuthChannel_PrivilegedHost i sn cn\<rparr>)" by (rule pf)
          show "connector_receive bt c y3 = (y4, Inr status)" "pbsf_payload status = Some (PrivilegedBridgeServerFrame_Status snap)"
            "pbss_state snap = privileged_bridge_state_code PrivilegedBridgeState_Ready" "pbss_helper_connected snap"
            "pbss_interactive_session snap = Some d" "psd_os_session_id d = abc_os_session_id conn" "psd_generation d \<noteq> 0"
            by (fact h(7) d)+
          show "rpc_call bt c (framed_bridge_rpc_new y4) ?q = Some (bcn_rpc connection, Inr response)" using z resp le(6) by simp
          show "pbsf_payload response = Some (PrivilegedBridgeServerFrame_Lease le)" by (rule le(1))
          show "please_session_id le = psc_session_id context" by (rule le(3))
          show "please_permissions le = map session_permission_code (psc_permissions context)" using le(4) by (simp only: permission_codes_def)
          show "please_controller_display_name le = psc_controller_display_name context" by (rule le(5))
          show "please_generation le = psd_generation d" by (rule le(2))
          show "bcn_route connection = proxy_route_new (LeaseId (please_lease_id le)) (please_generation le)"
            "bcn_next_frame_sequence connection = 3" using le(2,6) by simp_all
        qed
      qed
    qed
  qed
qed

subsection \<open>An example\<close>

definition demo_connector :: "unit authenticated_bridge_connector" where
  "demo_connector = \<lparr>abc_connector = (), abc_token = replicate 32 1, abc_executable_sha256 = replicate 32 3, abc_os_session_id = 7\<rparr>"

definition demo_context :: proxy_session_context where
  "demo_context = \<lparr>psc_session_id = replicate 16 4, psc_permissions = [SessionPermission_ViewScreen, SessionPermission_ControlInput],
     psc_controller_display_name = ''desk''\<rparr>"

definition demo_host_sent :: "privileged_bridge_client_frame list" where
  "demo_host_sent = [authenticate_host_frame demo_mac demo_connector (replicate 16 2) (replicate 32 5) (replicate 32 6),
     acquire_frame demo_context 3]"

definition demo_host_read :: "privileged_bridge_server_frame list" where
  "demo_host_read = [challenge_frame demo_config (replicate 32 5),
     host_proof_frame demo_mac demo_config demo_connector (replicate 32 5) (replicate 32 6),
     status_frame (ready_status demo_session_descriptor), granted_frame demo_context 3 demo_lease_id 1000]"

abbreviation "demo_host_link \<equiv> numbered_codec demo_host_sent demo_host_read"

lemma demo_host_installed: "host_installed demo_config demo_connector demo_session_descriptor"
  using demo_session_descriptor_ok by (simp add: host_installed_def demo_config_def demo_connector_def) (simp add: demo_session_descriptor_def)

lemma demo_context_new:
  "proxy_session_context_new (replicate 16 4) [SessionPermission_ViewScreen, SessionPermission_ControlInput] ''desk'' = Inr demo_context"
  by (simp add: proxy_session_context_new_def demo_context_def limits)

lemma demo_host_carried:
  "f \<in> set demo_host_sent \<Longrightarrow> client_carried demo_host_link f" "g \<in> set demo_host_read \<Longrightarrow> server_carried demo_host_link g"
  by (erule numbered_carried, simp add: demo_host_sent_def demo_host_read_def)+

lemma demo_name: "\<not> has_control (psc_controller_display_name demo_context)"
  by (simp add: demo_context_def)

lemma demo_lease_time: "checked_add (1000 :: u64) LEASE_DURATION_MS \<noteq> None" "runtime_now_unix_ms 1000 = Inr 1000"
  by (simp_all add: checked_add_def limits runtime_now_unix_ms_def)

lemma demo_connected:
  "connector_connect (\<lambda>k. (k, Inr (map (bcd_encode_server demo_host_link) demo_host_read, []))) demo_mac pipe_ops demo_host_link demo_connector
     demo_context (Some (replicate 32 6))
   = Some ((demo_connector, Some ([], map (bcd_encode_client demo_host_link) demo_host_sent)),
      Inr \<lparr>bcn_route = proxy_route_new (LeaseId demo_lease_id) 3,
           bcn_rpc = framed_bridge_rpc_new ([], map (bcd_encode_client demo_host_link) demo_host_sent), bcn_next_frame_sequence = 3\<rparr>)"
proof -
  have i: "brc_instance_id demo_config = replicate 16 2" "psd_generation demo_session_descriptor = 3" "length demo_lease_id = 16"
    by (simp_all add: demo_config_def demo_session_descriptor_def demo_lease_id_def)
  have "\<And>g. g \<in> set demo_host_read \<Longrightarrow> server_carried demo_host_link g" by (rule demo_host_carried)
  then show ?thesis
    using connect_succeeds [OF demo_host_installed demo_mac_length _ _ demo_context_new i(3) demo_lease_time(1),
        of "replicate 32 5" "replicate 32 6" demo_host_link _ "\<lambda>k. (k, Inr (map (bcd_encode_server demo_host_link) demo_host_read, []))"]
    by (simp add: i demo_host_read_def demo_host_sent_def)
qed

theorem connection_bound_to_lease_witness:
  "\<exists>l :: privileged_lease. please_session_id l = replicate 16 4 \<and> please_permissions l = [1, 2]
     \<and> proxy_route_new (LeaseId demo_lease_id) 3 = proxy_route_new (LeaseId (please_lease_id l)) (please_generation l)"
proof -
  have f: "psc_session_id demo_context = replicate 16 4"
    "map session_permission_code (psc_permissions demo_context) = [1, 2]" by (simp_all add: demo_context_def)
  from connection_bound_to_lease [OF demo_connected refl] show ?thesis
    unfolding sum.case bridge_connection.simps f by (elim exE conjE) (rule exI, intro conjI, assumption+)
qed

text \<open>
  C16. A Host of the installation gets the lease it asks for.  With the token, executable and session of the installation, a registered helper with
  a routable desktop, two different fresh nonces, a valid session context and a printable Controller name, connector and broker understand each
  other from the first byte to the lease: each reads exactly what the other sends, the broker takes the Host for what it
  is, grants a lease for the session, and the Host's connection is bound to that lease.
\<close>

theorem host_acquires_lease:
  assumes "host_installed config conn d" "\<forall>k m. length (hmac k m) = 32"
    and "length sn = 32" "length cn = 32" "cn \<noteq> sn" "cn \<notin> rg_used replay"
    and "proxy_session_context_new i ps name = Inr context" "\<not> has_control (psc_controller_display_name context)"
    and "length lid = 16" "lid \<noteq> replicate 16 0" "runtime_now_unix_ms t = Inr now" "checked_add now LEASE_DURATION_MS \<noteq> None"
    and "au = authenticate_host_frame hmac conn (brc_instance_id config) sn cn" "aq = acquire_frame context (psd_generation d)"
    and "ch = challenge_frame config sn" "ad = host_proof_frame hmac config conn sn cn" "st = status_frame (ready_status d)"
      "gr = granted_frame context (psd_generation d) lid now"
    and "client_carried c au" "client_carried c aq" "server_carried c ch" "server_carried c ad" "server_carried c st" "server_carried c gr"
    and "kconnect (abc_connector conn) = (abc_connector conn, Inr (map (bcd_encode_server c) [ch, ad, st, gr], []))"
    and "tick = \<lparr>rt_request_clock = t, rt_expire_clock = e, rt_next_lease_id = Inr (LeaseId lid)\<rparr>"
  shows "(\<exists>connection. connector_connect kconnect hmac pipe_ops c conn context (Some cn)
        = Some ((conn, Some ([], map (bcd_encode_client c) [au, aq])), Inr connection)
        \<and> bcn_route connection = proxy_route_new (LeaseId lid) (psd_generation d))
    \<and> (\<exists>x replay'. authenticate_server hmac pipe_ops c config (Some sn) ((map (bcd_encode_client c) [au, aq], []), replay)
          = ((x, replay'), Inr \<lparr>ap_role = BridgeRole_HostAgent, ap_os_session_id = brc_owner_os_session_id config\<rparr>)
        \<and> hr_host (run_host_connection hang pipe_ops c x \<lparr>rgh_session = d, rgh_transport = helper\<rparr> config [tick])
          = ([], map (bcd_encode_server c) [ch, ad, st, gr]))"
proof -
  note eqs = assms(13-18)
  have "connector_connect kconnect hmac pipe_ops c conn context (Some cn) = Some ((conn, Some ([], map (bcd_encode_client c) [au, aq])),
      Inr \<lparr>bcn_route = proxy_route_new (LeaseId lid) (psd_generation d),
           bcn_rpc = framed_bridge_rpc_new ([], map (bcd_encode_client c) [au, aq]), bcn_next_frame_sequence = 3\<rparr>)"
    using connect_succeeds [OF assms(1-4,7,9,12), of c "map (bcd_encode_server c) [ch, ad, st, gr]" kconnect] assms(21-25) unfolding eqs by blast
  moreover obtain g where "authenticate_server hmac pipe_ops c config (Some sn) ((map (bcd_encode_client c) [au, aq], []), replay)
      = ((([bcd_encode_client c aq], map (bcd_encode_server c) [ch, ad]), g),
         Inr \<lparr>ap_role = BridgeRole_HostAgent, ap_os_session_id = brc_owner_os_session_id config\<rparr>)"
    using broker_side_admits_host [OF assms(1,2,4,5,6), of c "[bcd_encode_client c aq]"] assms(19) by (auto simp: eqs)
  moreover have "hr_host (run_host_connection hang pipe_ops c ([bcd_encode_client c aq], map (bcd_encode_server c) [ch, ad])
      \<lparr>rgh_session = d, rgh_transport = helper\<rparr> config [tick]) = ([], map (bcd_encode_server c) [ch, ad, st, gr])"
    using broker_grants [OF assms(1,7-12) assms(20)[unfolded eqs] refl, of hang "map (bcd_encode_server c) [ch, ad]" helper e] by (simp add: eqs assms(26))
  ultimately show ?thesis by auto
qed

theorem host_acquires_lease_witness:
  "\<exists>x replay'. authenticate_server demo_mac pipe_ops demo_host_link demo_config (Some (replicate 32 5))
      ((map (bcd_encode_client demo_host_link) demo_host_sent, []), \<lparr>rg_used = {}, rg_insertion_order = [], rg_capacity = 256\<rparr>)
    = ((x, replay'), Inr \<lparr>ap_role = BridgeRole_HostAgent, ap_os_session_id = 7\<rparr>)
    \<and> hr_host (run_host_connection (\<lambda>r. (r, Inl BrokerProtocolError_Helper)) pipe_ops demo_host_link x
        \<lparr>rgh_session = demo_session_descriptor, rgh_transport = ([], [])\<rparr> demo_config
        [\<lparr>rt_request_clock = 1000, rt_expire_clock = 1000, rt_next_lease_id = Inr (LeaseId demo_lease_id)\<rparr>])
      = ([], map (bcd_encode_server demo_host_link) demo_host_read)"
proof -
  have f: "brc_instance_id demo_config = replicate 16 2" "psd_generation demo_session_descriptor = 3" "brc_owner_os_session_id demo_config = 7"
    "length demo_lease_id = 16" "demo_lease_id \<noteq> replicate 16 0" "abc_connector demo_connector = ()"
    by (simp_all add: demo_config_def demo_session_descriptor_def demo_lease_id_def demo_connector_def)
  have n: "(replicate 32 6 :: bytes) \<noteq> replicate 32 5" "replicate 32 6 \<notin> rg_used \<lparr>rg_used = {}, rg_insertion_order = [], rg_capacity = 256\<rparr>"
    "length (replicate 32 5 :: bytes) = 32" "length (replicate 32 6 :: bytes) = 32" by simp_all
  have c: "client_carried demo_host_link (demo_host_sent ! 0)" "client_carried demo_host_link (demo_host_sent ! 1)"
    "server_carried demo_host_link (demo_host_read ! 0)" "server_carried demo_host_link (demo_host_read ! 1)"
    "server_carried demo_host_link (demo_host_read ! 2)" "server_carried demo_host_link (demo_host_read ! 3)"
    by (rule demo_host_carried, simp add: demo_host_sent_def demo_host_read_def)+
  have list: "demo_host_read = [demo_host_read ! 0, demo_host_read ! 1, demo_host_read ! 2, demo_host_read ! 3]"
    "demo_host_sent = [demo_host_sent ! 0, demo_host_sent ! 1]" by (simp_all add: demo_host_read_def demo_host_sent_def)
  have parts: "demo_host_sent ! 0 = authenticate_host_frame demo_mac demo_connector (brc_instance_id demo_config) (replicate 32 5) (replicate 32 6)"
    "demo_host_sent ! 1 = acquire_frame demo_context (psd_generation demo_session_descriptor)"
    "demo_host_read ! 0 = challenge_frame demo_config (replicate 32 5)"
    "demo_host_read ! 1 = host_proof_frame demo_mac demo_config demo_connector (replicate 32 5) (replicate 32 6)"
    "demo_host_read ! 2 = status_frame (ready_status demo_session_descriptor)"
    "demo_host_read ! 3 = granted_frame demo_context (psd_generation demo_session_descriptor) demo_lease_id 1000"
    by (simp_all add: demo_host_read_def demo_host_sent_def f)
  from host_acquires_lease [OF demo_host_installed demo_mac_length n(3,4,1,2) demo_context_new demo_name f(4,5) demo_lease_time(2,1) parts c,
      where kconnect = "\<lambda>k. (k, Inr (map (bcd_encode_server demo_host_link) demo_host_read, []))" and e = 1000, OF _ refl]
  show ?thesis using list unfolding f by metis
qed

end
