(* ===== verification/Remote_Properties.thy ===== *)
theory Remote_Properties
  imports Remote_Session
begin

text \<open>
  What the remote-session coordinator guarantees: who can have a session, what happens to input while the transport is
  interrupted, how sessions end, and that the ends the host service announces reach the session.
\<close>

section \<open>How a session becomes active\<close>

lemma update_remote_sessions [simp]: "sv_sessions (fst (update_remote_status sv i d st e)) = sv_sessions sv"
  by (simp add: update_remote_status_def Let_def split: mutex.splits)

lemma record_authenticated_sessions [simp]:
  "sv_sessions (fst (record_authenticated_remote_session ops sv d now)) = sv_sessions sv"
  by (simp add: record_authenticated_remote_session_def)

lemma give_up_active [simp]:
  "rc_active (fst (give_up env rc s e)) = rc_active rc" "rc_active (fst (unregister_and_give_up env rc i s e)) = rc_active rc"
  "rc_verifier (fst (give_up env rc s e)) = rc_verifier rc"
  "rc_verifier (fst (unregister_and_give_up env rc i s e)) = rc_verifier rc"
  by (simp_all add: give_up_def unregister_and_give_up_def)

text \<open>What a freshly activated session looks like; its peer has accepted the description that was verified.\<close>

definition negotiated_from ::
  "('p, 'i) session_ops \<Rightarrow> verified_session_offer \<Rightarrow> string \<Rightarrow> ('p, 'i) host_peer_session \<Rightarrow> bool" where
  "negotiated_from ops v sdp session \<longleftrightarrow> (\<exists>config peer input s0 s answer candidates.
     host_peer_session_new (vso_session_id v) (vso_permissions v) config peer input = Inr s0
     \<and> accept_offer ops s0 sdp = (s, Inr answer) \<and> session = fst (add_candidates ops s candidates))"

lemma new_session_state: "host_peer_session_new i ps config peer input = Inr s \<Longrightarrow> hps_state s = HostSessionState_New"
  by (auto simp: host_peer_session_new_def bind_res_Inr split: if_splits)

lemma negotiatedE:
  assumes "negotiated_from ops v sdp session"
  obtains s0 s answer candidates where "hps_state s0 = HostSessionState_New" "accept_offer ops s0 sdp = (s, Inr answer)"
    "session = fst (add_candidates ops s candidates)"
proof -
  obtain config peer input s0 s answer candidates where
    n: "host_peer_session_new (vso_session_id v) (vso_permissions v) config peer input = Inr s0"
      "accept_offer ops s0 sdp = (s, Inr answer)" "session = fst (add_candidates ops s candidates)"
    using assms by (auto simp: negotiated_from_def)
  show ?thesis by (rule that [OF new_session_state [OF n(1)] n(2,3)])
qed

definition fresh_session ::
  "('s, 'p, 'i, 'e, 'f) remote_env \<Rightarrow> ('s, 'p, 'i, 'e, 'f) remote_coordinator \<Rightarrow> verified_session_offer \<Rightarrow> web_rtc_session_description
    \<Rightarrow> ('p, 'i, 'e) active_session \<Rightarrow> bool" where
  "fresh_session env rc v d a \<longleftrightarrow> acs_controller_device_id a = di_device_id (vso_controller v) \<and> acs_session_id a = vso_session_id v
     \<and> driven (re_session env) (vso_session_id v) (vso_permissions v) (acs_session a)
     \<and> negotiated_from (re_session env) v (wrsd_sdp d) (acs_session a)
     \<and> hps_state (acs_session a) = HostSessionState_Negotiating \<and> acs_reconnect_deadline_unix_ms a = None
     \<and> session_owner (sv_sessions (rc_service rc)) (vso_session_id v) = Some (di_device_id (vso_controller v))"

lemma finish_active:
  assumes "finish_activation env rc s ev cs v ans aa now = (rc', r)" "rc_active rc = None" "rc_active rc' = Some a"
    and "driven (re_session env) (vso_session_id v) (vso_permissions v) s" "hps_state s = HostSessionState_Negotiating"
    and "session_owner (sv_sessions (rc_service rc)) (vso_session_id v) = Some (di_device_id (vso_controller v))"
    and "\<forall>candidates. negotiated_from (re_session env) v (wrsd_sdp d) (fst (add_candidates (re_session env) s candidates))"
  shows "fresh_session env rc' v d a \<and> rc_verifier rc' = rc_verifier rc"
proof -
  let ?d = "di_device_id (vso_controller v)"
  obtain sv q where sv: "record_authenticated_remote_session (re_store env) (rc_service rc) ?d now = (sv, q)" by fastforce
  obtain t x where t: "add_candidates (re_session env) s cs = (t, x)" by fastforce
  obtain sv2 st where sv2: "update_remote_status sv (vso_session_id v) ?d SessionState_Connecting None = (sv2, st)" by fastforce
  have dt: "driven (re_session env) (vso_session_id v) (vso_permissions v) t" "hps_state t = HostSessionState_Negotiating"
    using driven_candidates [OF assms(4), of cs] candidates_state [of "re_session env" s cs] assms(5) t by simp_all
  have ses: "sv_sessions sv2 = sv_sessions (rc_service rc)"
    using update_remote_sessions [of sv "vso_session_id v" ?d SessionState_Connecting None]
      record_authenticated_sessions [of "re_store env" "rc_service rc" ?d now] sv sv2 by simp
  show ?thesis
    using assms(1-3,6) sv t sv2 dt ses assms(7) [rule_format, of cs]
    by (cases q; cases x; cases st)
      (auto simp: finish_activation_def Let_def fresh_session_def give_up_def unregister_and_give_up_def)
qed

lemma register_owner:
  assumes "register_active_session sv i d = (sv', r)" "is_ok r" "sessions_inv (sv_sessions sv)"
  shows "session_owner (sv_sessions sv') i = Some d"
  using assms
  by (auto simp: register_active_session_def session_register_def session_owner_def sessions_inv_def bt_get_insert
      split: if_splits mutex.splits)

lemma activate_active:
  assumes "activate_verified_session env rc auth d cs v now = (rc', r)" "rc_active rc = None" "rc_active rc' = Some a"
    and "sessions_inv (sv_sessions (rc_service rc))"
  shows "fresh_session env rc' v d a \<and> rc_verifier rc' = rc_verifier rc"
proof -
  obtain f c where c: "re_create env (rc_factory rc) (rc_config rc) (from_verified v) = (f, c)" by fastforce
  obtain parts where p: "c = Inr parts" using assms c by (cases c) (auto simp: activate_verified_session_def)
  obtain s0 where s0: "host_peer_session_new (vso_session_id v) (vso_permissions v) (rc_config rc) (rsp_peer parts) (rsp_input parts) = Inr s0"
    using assms c p by (cases "host_peer_session_new (vso_session_id v) (vso_permissions v) (rc_config rc) (rsp_peer parts) (rsp_input parts)")
      (auto simp: activate_verified_session_def Let_def)
  obtain s q where s: "accept_offer (re_session env) s0 (wrsd_sdp d) = (s, q)" by fastforce
  obtain ans where q: "q = Inr ans"
    using assms c p s0 s by (cases q) (auto simp: activate_verified_session_def Let_def give_up_def)
  obtain aa where aa: "sign_remote_answer (re_pairing env) (rc_service rc) auth (pa_sdp ans) (pa_dtls_fingerprint_sha256 ans) = Inr aa"
    using assms c p s0 s q by (cases "sign_remote_answer (re_pairing env) (rc_service rc) auth (pa_sdp ans) (pa_dtls_fingerprint_sha256 ans)")
      (auto simp: activate_verified_session_def Let_def give_up_def)
  obtain sv z where sv: "register_active_session (rc_service rc) (vso_session_id v) (di_device_id (vso_controller v)) = (sv, z)" by fastforce
  have z: "is_ok z" using assms c p s0 s q aa sv by (rule_tac ccontr) (auto simp: activate_verified_session_def Let_def give_up_def)
  have fin: "finish_activation env (rc\<lparr>rc_factory := f, rc_service := sv\<rparr>) s (rsp_events parts) cs v ans aa now = (rc', r)"
    using assms(1) c p s0 s q aa sv z by (simp add: activate_verified_session_def Let_def)
  have dr: "driven (re_session env) (vso_session_id v) (vso_permissions v) s" "hps_state s = HostSessionState_Negotiating"
    using driven_ops(1) [OF driven_new [OF s0], of "re_session env" "wrsd_sdp d"] accept_offer_state s q by (simp, metis)
  have "\<forall>cs. negotiated_from (re_session env) v (wrsd_sdp d) (fst (add_candidates (re_session env) s cs))"
    using s0 s q unfolding negotiated_from_def by blast
  from finish_active [OF fin _ assms(3) dr _ this] register_owner [OF sv z assms(4)] assms(2) show ?thesis by simp
qed

lemma start_active:
  assumes "start_pending env rc p now = (rc', r)" "rc_active rc = None" "rc_active rc' = Some a"
    and "sessions_inv (sv_sessions (rc_service rc))"
  obtains auth d v where "psn_authentication p = Some auth" "psn_description p = Some d"
    "verify_remote_offer (pe_crypto (re_pairing env)) (rc_service rc) (rc_verifier rc) auth (wrsd_sdp d)
       (wrsd_dtls_fingerprint_sha256 d) now = (rc_verifier rc', Inr v)"
    "di_device_id (vso_controller v) = psn_controller_device_id p" "vso_session_id v = psn_session_id p"
    "fresh_session env rc' v d a"
proof -
  obtain auth d where p: "psn_authentication p = Some auth" "psn_description p = Some d"
    using assms by (auto simp: start_pending_def split: option.splits)
  obtain sv q where sv: "update_remote_status (rc_service rc) (psn_session_id p) (psn_controller_device_id p)
      SessionState_Authenticating None = (sv, q)" by fastforce
  obtain u where q: "q = Inr u" using assms p sv by (cases q) (auto simp: start_pending_def set_service_def)
  have same: "sv_authorization sv = sv_authorization (rc_service rc)"
    using misc_kept(9) [of "rc_service rc" "psn_session_id p" "psn_controller_device_id p" SessionState_Authenticating None] sv by simp
  obtain w x where w: "verify_remote_offer (pe_crypto (re_pairing env)) (rc_service rc) (rc_verifier rc) auth (wrsd_sdp d)
      (wrsd_dtls_fingerprint_sha256 d) now = (w, x)" by fastforce
  then have w': "verify_remote_offer (pe_crypto (re_pairing env)) sv (rc_verifier rc) auth (wrsd_sdp d)
      (wrsd_dtls_fingerprint_sha256 d) now = (w, x)" using same by (simp add: verify_remote_offer_def)
  obtain v where v: "x = Inr v" using assms p sv q w' by (cases x) (auto simp: start_pending_def set_service_def)
  let ?rc = "rc\<lparr>rc_service := sv, rc_verifier := w\<rparr>"
  have ids: "di_device_id (vso_controller v) = psn_controller_device_id p" "vso_session_id v = psn_session_id p"
    using assms p sv q w' v by (auto simp: start_pending_def set_service_def Let_def split: if_splits)
  obtain rc1 y where y: "activate_verified_session env ?rc auth d (psn_candidates p) v now = (rc1, y)" by fastforce
  have "rc' = rc1" using assms(1) p sv q w' v ids y by (cases y) (auto simp: start_pending_def set_service_def Let_def)
  then show ?thesis using that [OF p, of v] activate_active [OF y, of a] assms(2,3,4) w v ids
      update_remote_sessions [of "rc_service rc" "psn_session_id p" "psn_controller_device_id p" SessionState_Authenticating None] sv by simp
qed

lemma update_pending_ids [simp]:
  "psn_controller_device_id (fst (update_pending p payload)) = psn_controller_device_id p"
  "psn_session_id (fst (update_pending p payload)) = psn_session_id p"
  by (auto simp: update_pending_def split: signaling_envelope_payload.splits option.splits
      session_authentication_payload.splits web_rtc_negotiation_payload.splits)

lemma try_start_active:
  assumes "try_start_pending env rc now = (rc', r)" "rc_active rc = None" "rc_active rc' = Some a" "rc_pending rc = Some p"
    and "sessions_inv (sv_sessions (rc_service rc))"
  obtains auth d v where "psn_authentication p = Some auth" "psn_description p = Some d"
    "verify_remote_offer (pe_crypto (re_pairing env)) (rc_service rc) (rc_verifier rc) auth (wrsd_sdp d)
       (wrsd_dtls_fingerprint_sha256 d) now = (rc_verifier rc', Inr v)"
    "di_device_id (vso_controller v) = psn_controller_device_id p" "vso_session_id v = psn_session_id p"
    "fresh_session env rc' v d a"
proof -
  obtain rc1 q where q: "start_pending env (rc\<lparr>rc_pending := None\<rparr>) p now = (rc1, q)" by fastforce
  have rdy: "is_ready p" using assms by (auto simp: try_start_pending_def split: if_splits)
  have rc': "rc_active rc1 = Some a" "rc_verifier rc' = rc_verifier rc1"
    "sv_sessions (rc_service rc') = sv_sessions (rc_service rc1)"
    using assms(1,3,4) q rdy by (cases q; auto simp: try_start_pending_def Let_def)+
  obtain auth d v where v: "psn_authentication p = Some auth" "psn_description p = Some d"
    "verify_remote_offer (pe_crypto (re_pairing env)) (rc_service rc) (rc_verifier rc) auth (wrsd_sdp d)
       (wrsd_dtls_fingerprint_sha256 d) now = (rc_verifier rc1, Inr v)"
    "di_device_id (vso_controller v) = psn_controller_device_id p" "vso_session_id v = psn_session_id p"
    "fresh_session env rc1 v d a"
    using assms(2,5) by (auto intro: start_active [OF q _ rc'(1)])
  have "fresh_session env rc' v d a" using v(6) rc'(3) by (simp add: fresh_session_def)
  with v(1-5) rc'(2) show ?thesis using that by simp
qed

lemma pending_envelope_active:
  assumes "handle_pending_envelope env rc e now = (rc', r)" "rc_active rc = None" "rc_active rc' = Some a"
    and "sessions_inv (sv_sessions (rc_service rc))"
  obtains auth and d :: web_rtc_session_description and v where
    "verify_remote_offer (pe_crypto (re_pairing env)) (rc_service rc) (rc_verifier rc) auth (wrsd_sdp d)
       (wrsd_dtls_fingerprint_sha256 d) now = (rc_verifier rc', Inr v)"
    "di_device_id (vso_controller v) = se_sender_device_id e" "fresh_session env rc' v d a"
proof -
  obtain payload i where adv: "advance_pending env rc e payload i now = (rc', r)"
    using assms(1-3) by (auto simp: handle_pending_envelope_def simp del: session_state.of_eq_Some
        split: option.splits signaling_envelope_payload.splits if_splits)
  obtain rc1 b where b: "prepare_pending rc (se_sender_device_id e) i (se_request_id e) now = (rc1, b)" by fastforce
  have t: "b" using adv b assms(2,3) prepare_pending_shape(2) [OF b] by (cases b) (auto simp: advance_pending_def)
  then obtain p where p: "rc1 = rc\<lparr>rc_pending := Some p\<rparr>" "psn_controller_device_id p = se_sender_device_id e"
    using prepare_pending_shape(1) [OF b] by blast
  obtain q x where q: "update_pending p payload = (q, x)" by fastforce
  have qid: "psn_controller_device_id q = se_sender_device_id e" using update_pending_ids(1) [of p payload] q p(2) by simp
  have st: "try_start_pending env (rc\<lparr>rc_pending := Some q\<rparr>) now = (rc', r)"
    using adv b t p(1) q assms(2,3) by (cases x) (auto simp: advance_pending_def)
  show ?thesis
    by (rule try_start_active [OF st _ assms(3), of q]) (use that assms(2,4) qid in auto)
qed

lemma routed_active:
  assumes "handle_routed_session env rc sender bs now = (rc', r)" "rc_active rc = None" "rc_active rc' = Some a"
    and "sessions_inv (sv_sessions (rc_service rc))"
  obtains auth and d :: web_rtc_session_description and v where
    "verify_remote_offer (pe_crypto (re_pairing env)) (rc_service rc) (rc_verifier rc) auth (wrsd_sdp d)
       (wrsd_dtls_fingerprint_sha256 d) now = (rc_verifier rc', Inr v)"
    "di_device_id (vso_controller v) = sender" "fresh_session env rc' v d a"
proof -
  have noex: "expire_active_reconnect env (expire_pending rc now) now = (expire_pending rc now, Inr False)"
    using assms(2) by (simp add: expire_active_reconnect_def reconnect_deadline_unix_ms_def)
  obtain e where e: "se_sender_device_id e = sender" "handle_pending_envelope env (expire_pending rc now) e now = (rc', r)"
    using assms(1-3) noex by (auto simp: handle_routed_session_def dispatch_envelope_def split: sum.splits if_splits)
  show ?thesis
    by (rule pending_envelope_active [OF e(2) _ assms(3)]) (use that assms(2,4) e(1) in auto)
qed

section \<open>Example\<close>

lemma status_published:
  assumes "sv_remote_status sv = Healthy x" "length i = 16" "length d = 32"
    and "st \<notin> {SessionState_Unspecified, SessionState_Idle, SessionState_Failed}"
  shows "update_remote_status sv i d st None = (sv\<lparr>sv_remote_status := Healthy \<lparr>rsss_session_status = Some \<lparr>sst_session_id = i,
      sst_state = session_state_code st, sst_error = None\<rparr>, rsss_controller_device_id = d\<rparr>\<rparr>, Inr ())"
proof -
  have "validate_remote_session_status_snapshot \<lparr>rsss_session_status = Some \<lparr>sst_session_id = i,
      sst_state = session_state_code st, sst_error = None\<rparr>, rsss_controller_device_id = d\<rparr> = Inr ()"
    unfolding remote_status_consistent using assms(2-4)
    by (intro exI [of _ "\<lparr>sst_session_id = i, sst_state = session_state_code st, sst_error = None\<rparr>"] exI [of _ st])
      (simp del: session_state_code.simps)
  then show ?thesis using assms(1) by (simp add: update_remote_status_def Let_def del: session_state_code.simps)
qed

lemma idle_published:
  "sv_remote_status sv = Healthy x
    \<Longrightarrow> update_remote_status sv [] [] SessionState_Idle None = (sv\<lparr>sv_remote_status := Healthy idle_remote_status\<rparr>, Inr ())"
  using idle_remote_valid by (simp add: update_remote_status_def Let_def idle_remote_status_def del: session_state_code.simps)

definition demo_connect :: session_offer_authentication where
  "demo_connect = demo_offer\<lparr>soa_offer_sha256 := replicate 32 3\<rparr>"

definition demo_envelope :: "signaling_envelope_payload \<Rightarrow> signaling_envelope" where
  "demo_envelope payload = \<lparr>se_protocol_version = Some \<lparr>pv_major = 1, pv_minor = 0\<rparr>, se_sender_device_id = replicate 32 4,
     se_recipient_device_id = replicate 32 3, se_request_id = ''r'', se_sent_at_unix_ms = 0, se_payload = Some payload\<rparr>"

definition demo_offer_envelope :: signaling_envelope where
  "demo_offer_envelope = demo_envelope (SignalingEnvelope_SessionAuthentication
     \<lparr>sau_payload = Some (SessionAuthentication_Offer demo_connect)\<rparr>)"

definition demo_description :: web_rtc_session_description where
  "demo_description = \<lparr>wrsd_type = 1, wrsd_sdp = ''v=0'', wrsd_dtls_fingerprint_sha256 = replicate 32 6\<rparr>"

definition demo_sdp_envelope :: signaling_envelope where
  "demo_sdp_envelope = demo_envelope (SignalingEnvelope_WebrtcNegotiation
     \<lparr>wrn_session_id = replicate 16 1, wrn_payload = Some (WebRtcNegotiation_Description demo_description)\<rparr>)"

definition demo_stranger_envelope :: signaling_envelope where
  "demo_stranger_envelope = demo_offer_envelope\<lparr>se_sender_device_id := replicate 32 5\<rparr>"

definition demo_remote_env :: "(memory_grant_store, unit, demo_desk platform_input_sink, unit, unit) remote_env" where
  "demo_remote_env = \<lparr>re_pairing = demo_env, re_store = demo_store, re_session = demo_session_ops,
     re_try_recv = (\<lambda>e. (e, Inr None)),
     re_create = (\<lambda>f _ _. (f, Inr \<lparr>rsp_peer = (), rsp_input = desk_sink, rsp_events = ()\<rparr>)),
     re_decode = (\<lambda>bs. if bs = [1] then Some demo_offer_envelope else if bs = [2] then Some demo_sdp_envelope
       else if bs = [4] then Some (demo_envelope (SignalingEnvelope_SessionAuthentication
         \<lparr>sau_payload = Some (SessionAuthentication_Offer (demo_connect\<lparr>soa_nonce := replicate 32 5\<rparr>))\<rparr>))
       else Some demo_stranger_envelope),
     re_encode = (\<lambda>_. [])\<rparr>"

definition demo_idle_service :: "memory_grant_store host_service" where
  "demo_idle_service = demo_service\<lparr>sv_sessions := session_registry_new\<rparr>"

definition demo_coordinator :: "(memory_grant_store, unit, demo_desk platform_input_sink, unit, unit) remote_coordinator" where
  "demo_coordinator = \<lparr>rc_service = demo_idle_service, rc_verifier = \<lparr>ov_host_device_id = replicate 32 3, ov_used_nonces = bt_empty\<rparr>,
     rc_factory = (), rc_config = \<lparr>sc_ice_transport_policy = IceTransportPolicy_All\<rparr>, rc_pending = None,
     rc_failed_attempt = None, rc_active = None, rc_closed = False, rc_retired = []\<rparr>"

definition demo_waiting_session :: pending_session where
  "demo_waiting_session = (pending_session_new (replicate 32 4) (replicate 16 1) ''r'' 0)\<lparr>psn_authentication := Some demo_connect\<rparr>"

definition demo_active :: "(unit, demo_desk platform_input_sink, unit) active_session" where
  "demo_active = \<lparr>acs_controller_device_id = replicate 32 4, acs_session_id = replicate 16 1,
     acs_session = demo_peer_session\<lparr>hps_state := HostSessionState_Negotiating\<rparr>, acs_events = (), acs_reconnect = None,
     acs_reconnect_generation = 0, acs_reconnect_deadline_unix_ms = None\<rparr>"

definition demo_live_service :: "memory_grant_store host_service" where
  "demo_live_service = demo_service\<lparr>sv_remote_status := Healthy \<lparr>rsss_session_status = Some \<lparr>sst_session_id = replicate 16 1,
      sst_state = session_state_code SessionState_Connecting, sst_error = None\<rparr>, rsss_controller_device_id = replicate 32 4\<rparr>\<rparr>"

definition demo_live :: "(memory_grant_store, unit, demo_desk platform_input_sink, unit, unit) remote_coordinator" where
  "demo_live = demo_coordinator\<lparr>rc_service := demo_live_service,
     rc_verifier := \<lparr>ov_host_device_id = replicate 32 3, ov_used_nonces = [(nonce_key demo_connect, 21000)]\<rparr>,
     rc_active := Some demo_active\<rparr>"

lemma demo_remote_new: "coordinator_new demo_idle_service () = Inr demo_coordinator"
  by (simp add: coordinator_new_def coordinator_with_config_def offer_verifier_new_def demo_coordinator_def
      demo_idle_service_def demo_service_def demo_identity_def demo_host_def limits)

lemma demo_idle_service_inv: "service_inv demo_env demo_idle_service"
  using inv_sessions [OF demo_service_inv sessions_inv_new] by (simp add: demo_idle_service_def)

lemma demo_connect_verified:
  "offer_verify demo_crypto \<lparr>ov_host_device_id = replicate 32 3, ov_used_nonces = bt_empty\<rparr> demo_connect ''v=0'' (replicate 32 6)
     demo_granted 0 = (\<lparr>ov_host_device_id = replicate 32 3, ov_used_nonces = [(nonce_key demo_connect, 21000)]\<rparr>,
       Inr \<lparr>vso_controller = demo_controller, vso_session_id = replicate 16 1,
         vso_permissions = [SessionPermission_ViewScreen, SessionPermission_ControlInput]\<rparr>)"
proof -
  have f: "validate_fixed_fields demo_connect = Inr ()"
    by (simp add: validate_fixed_fields_iff demo_connect_def demo_offer_def)
  have n: "normalize_session_permissions (soa_requested_permissions demo_connect)
      = Inr [SessionPermission_ViewScreen, SessionPermission_ControlInput]"
    by (simp add: normalize_session_iff demo_connect_def demo_offer_def)
  obtain t where t: "encode_session_offer_transcript demo_connect = Inr t" using offer_transcript_exists [OF f n] by blast
  have "verify_bindings demo_crypto (replicate 32 3) demo_connect ''v=0'' (replicate 32 6) demo_granted 0
      = Inr (demo_controller, [SessionPermission_ViewScreen, SessionPermission_ControlInput])"
    unfolding verify_bindings_iff using f n t
    by (simp add: validate_time_iff verify_signature_iff)
      (simp add: demo_connect_def demo_offer_def demo_crypto_def demo_granted_def demo_registry_def controller_grant_of_def
        bt_get_def demo_view_def demo_controller_def as_bytes_def)
  then show ?thesis
    by (simp add: offer_verify_def bt_retain_def bt_get_def bt_insert_def bt_remove_def bt_empty_def limits)
      (simp add: demo_connect_def demo_offer_def)
qed

lemma demo_decode:
  "re_decode demo_remote_env [1] = Some demo_offer_envelope" "re_decode demo_remote_env [2] = Some demo_sdp_envelope"
  "re_decode demo_remote_env [3] = Some demo_stranger_envelope"
  by (simp_all add: demo_remote_env_def)

lemma demo_decoded:
  "decode_and_validate_signaling_envelope (re_decode demo_remote_env) [1] = Inr demo_offer_envelope"
  "decode_and_validate_signaling_envelope (re_decode demo_remote_env) [2] = Inr demo_sdp_envelope"
  "decode_and_validate_signaling_envelope (re_decode demo_remote_env) [3] = Inr demo_stranger_envelope"
  by (simp_all add: decode_and_validate_signaling_envelope_def demo_decode validate_signaling_envelope_def bind_res_Inr
      validate_session_authentication_def accepted auth_base_ok_def demo_offer_envelope_def
      demo_stranger_envelope_def demo_sdp_envelope_def demo_envelope_def demo_connect_def demo_offer_def demo_description_def
      version_ok_def validate_webrtc_negotiation_def range_eqI [of _ _ SessionDescriptionType_Offer] limits
      del: all_ok.simps)

lemma demo_host_id [simp]: "host_device_id demo_coordinator = replicate 32 3" "host_device_id demo_live = replicate 32 3"
  by (simp_all add: host_device_id_def demo_coordinator_def demo_live_def demo_idle_service_def demo_live_service_def
      demo_service_def demo_identity_def demo_host_def)

lemma demo_first:
  "handle_routed_session demo_remote_env demo_coordinator (replicate 32 4) [1] 0
     = (demo_coordinator\<lparr>rc_pending := Some demo_waiting_session\<rparr>, Inr [])"
proof -
  have "expire_active_reconnect demo_remote_env (expire_pending demo_coordinator 0) 0 = (demo_coordinator, Inr False)"
    by (simp add: expire_active_reconnect_def expire_pending_def reconnect_deadline_unix_ms_def demo_coordinator_def)
  moreover have "dispatch_envelope demo_remote_env demo_coordinator demo_offer_envelope 0
      = (demo_coordinator\<lparr>rc_pending := Some demo_waiting_session\<rparr>, Inr [])"
    by (simp add: dispatch_envelope_def attempt_failed_before_def demo_coordinator_def handle_pending_envelope_def
        demo_offer_envelope_def demo_envelope_def payload_session_id_def advance_pending_def prepare_pending_def
        update_pending_def pending_session_new_def try_start_pending_def is_ready_def demo_waiting_session_def ensure_def)
      (simp add: demo_connect_def demo_offer_def)
  ultimately show ?thesis
    by (simp add: handle_routed_session_def demo_decoded)
      (simp add: demo_coordinator_def demo_offer_envelope_def demo_envelope_def host_device_id_def demo_idle_service_def
        demo_service_def demo_identity_def demo_host_def)
qed

abbreviation demo_verified :: verified_session_offer where
  "demo_verified \<equiv> \<lparr>vso_controller = demo_controller, vso_session_id = replicate 16 1,
     vso_permissions = [SessionPermission_ViewScreen, SessionPermission_ControlInput]\<rparr>"

lemma demo_peer_accepts:
  "accept_offer demo_session_ops demo_peer_session ''v=0'' = (demo_peer_session\<lparr>hps_state := HostSessionState_Negotiating\<rparr>,
     Inr \<lparr>pa_sdp = ''v=0'', pa_dtls_fingerprint_sha256 = replicate 32 1\<rparr>)"
  by (simp add: accept_offer_def demo_peer_session_def demo_session_ops_def demo_peer_def sdp_ok_def answer_ok_def limits)

lemma demo_answer_signed:
  assumes "sv_identity sv = demo_identity"
  shows "\<exists>aa. sign_remote_answer demo_env sv demo_connect ''v=0'' (replicate 32 1) = Inr aa"
  using assms
  by (intro sign_answer_total) (simp_all add: validate_fixed_fields_iff demo_connect_def demo_offer_def demo_identity_def
      demo_host_def demo_crypto_def)

lemma demo_activated:
  assumes "sv_identity sv = demo_identity" "sv_sessions sv = session_registry_new" "sv_authorization sv = Healthy demo_granted"
    "sv_remote_status sv = Healthy x" "rc_service rc = sv" "rc_config rc = \<lparr>sc_ice_transport_policy = IceTransportPolicy_All\<rparr>"
  shows "\<exists>started. activate_verified_session demo_remote_env rc demo_connect demo_description [] demo_verified 0
    = (rc\<lparr>rc_service := sv\<lparr>sv_sessions := sv_sessions demo_service, sv_remote_status := Healthy \<lparr>rsss_session_status =
        Some \<lparr>sst_session_id = replicate 16 1, sst_state = session_state_code SessionState_Connecting, sst_error = None\<rparr>,
        rsss_controller_device_id = replicate 32 4\<rparr>\<rparr>, rc_active := Some demo_active\<rparr>, Inr started)"
proof -
  obtain aa where aa: "sign_remote_answer demo_env sv demo_connect ''v=0'' (replicate 32 1) = Inr aa"
    using demo_answer_signed [OF assms(1)] by blast
  let ?sv = "sv\<lparr>sv_sessions := sv_sessions demo_service\<rparr>"
  have reg: "register_active_session sv (replicate 16 1) (replicate 32 4) = (?sv, Inr ())"
    using assms(2) by (simp add: register_active_session_def session_register_def session_registry_new_def demo_service_def
        bt_get_def bt_empty_def bt_insert_def bt_remove_def limits)
  have "bt_get (ar_grants demo_granted) (replicate 32 4) = Some demo_view" by (simp add: demo_granted_def bt_get_def)
  then have rec: "record_authenticated_remote_session demo_store ?sv (replicate 32 4) 0 = (?sv, Inr ())"
    using assms(3) by (simp add: record_authenticated_remote_session_def with_authorization_def record_authenticated_session_def
        unit_result_def)
  note st = status_published [of ?sv x "replicate 16 1" "replicate 32 4" SessionState_Connecting]
  have id4: "di_device_id demo_controller = replicate 32 4" by (simp add: demo_controller_def)
  show ?thesis
    using aa reg rec st assms(4-6) demo_session_new demo_peer_accepts
    by (simp add: activate_verified_session_def finish_activation_def demo_remote_env_def demo_description_def id4 Let_def
        demo_active_def del: session_state_code.simps)
qed

lemma demo_second:
  "fst (handle_routed_session demo_remote_env (demo_coordinator\<lparr>rc_pending := Some demo_waiting_session\<rparr>) (replicate 32 4) [2] 0) = demo_live"
proof -
  let ?rc = "demo_coordinator\<lparr>rc_pending := Some demo_waiting_session\<rparr>"
  let ?p = "demo_waiting_session\<lparr>psn_description := Some demo_description\<rparr>"
  let ?sv = "demo_idle_service\<lparr>sv_remote_status := Healthy \<lparr>rsss_session_status = Some \<lparr>sst_session_id = replicate 16 1,
      sst_state = session_state_code SessionState_Authenticating, sst_error = None\<rparr>, rsss_controller_device_id = replicate 32 4\<rparr>\<rparr>"
  let ?rc1 = "demo_coordinator\<lparr>rc_service := ?sv,
      rc_verifier := \<lparr>ov_host_device_id = replicate 32 3, ov_used_nonces = [(nonce_key demo_connect, 21000)]\<rparr>\<rparr>"
  have idle: "sv_remote_status demo_idle_service = Healthy idle_remote_status" "sv_authorization demo_idle_service = Healthy demo_granted"
    "sv_identity demo_idle_service = demo_identity" "sv_sessions demo_idle_service = session_registry_new"
    by (simp_all add: demo_idle_service_def demo_service_def)
  have p: "psn_authentication ?p = Some demo_connect" "psn_description ?p = Some demo_description" "psn_candidates ?p = []"
    "psn_session_id ?p = replicate 16 1" "psn_controller_device_id ?p = replicate 32 4" "is_ready ?p" "psn_request_id ?p = ''r''"
    by (simp_all add: demo_waiting_session_def pending_session_new_def is_ready_def)
  have st: "update_remote_status demo_idle_service (replicate 16 1) (replicate 32 4) SessionState_Authenticating None = (?sv, Inr ())"
    by (rule status_published [OF idle(1)]) simp_all
  have v: "verify_remote_offer demo_crypto ?sv (rc_verifier demo_coordinator) demo_connect ''v=0'' (replicate 32 6) 0
      = (\<lparr>ov_host_device_id = replicate 32 3, ov_used_nonces = [(nonce_key demo_connect, 21000)]\<rparr>, Inr demo_verified)"
    using demo_connect_verified idle(2) by (simp add: verify_remote_offer_def) (simp add: demo_coordinator_def)
  obtain started where act: "activate_verified_session demo_remote_env ?rc1 demo_connect demo_description [] demo_verified 0
      = (demo_live, Inr started)"
    using demo_activated [of ?sv _ ?rc1] idle
    by (simp del: session_state_code.simps)
      (auto simp: demo_coordinator_def demo_live_def demo_live_service_def demo_idle_service_def demo_service_def
        simp del: session_state_code.simps)
  have out: "remote_outbound demo_remote_env rc d req t payload = Inr \<lparr>rso_recipient_device_id = d, rso_opaque_envelope = []\<rparr>"
    for d req t payload and rc :: "(memory_grant_store, unit, demo_desk platform_input_sink, unit, unit) remote_coordinator"
    by (simp add: remote_outbound_def demo_remote_env_def)
  have id4: "di_device_id demo_controller = replicate 32 4" by (simp add: demo_controller_def)
  have env: "pe_crypto (re_pairing demo_remote_env) = demo_crypto" "rc_service demo_coordinator = demo_idle_service"
    by (simp_all add: demo_remote_env_def demo_coordinator_def)
  have "\<exists>ms. start_pending demo_remote_env demo_coordinator ?p 0 = (demo_live, Inr ms)"
    using act st v p
    by (simp add: start_pending_def set_service_def Let_def two_outbound_def out id4 env demo_description_def
        del: session_state_code.simps)
  moreover have rc: "demo_coordinator\<lparr>rc_pending := None\<rparr> = demo_coordinator" "rc_active demo_coordinator = None"
    "rc_failed_attempt demo_coordinator = None" "\<not> rc_closed demo_coordinator" "host_device_id ?rc = replicate 32 3"
    "demo_waiting_session\<lparr>psn_request_id := ''r''\<rparr> = demo_waiting_session"
    using demo_host_id(1) by (simp_all add: demo_coordinator_def host_device_id_def demo_waiting_session_def pending_session_new_def)
  moreover have "update_pending demo_waiting_session (SignalingEnvelope_WebrtcNegotiation
      \<lparr>wrn_session_id = replicate 16 1, wrn_payload = Some (WebRtcNegotiation_Description demo_description)\<rparr>) = (?p, Inr ())"
    by (simp add: update_pending_def demo_description_def demo_waiting_session_def pending_session_new_def ensure_def)
  ultimately have disp: "fst (dispatch_envelope demo_remote_env ?rc demo_sdp_envelope 0) = demo_live"
    using p by (auto simp: dispatch_envelope_def attempt_failed_before_def handle_pending_envelope_def demo_sdp_envelope_def
        demo_envelope_def payload_session_id_def advance_pending_def prepare_pending_def try_start_pending_def rc(1,6))
  have "expire_active_reconnect demo_remote_env (expire_pending ?rc 0) 0 = (?rc, Inr False)"
    by (simp add: expire_active_reconnect_def expire_pending_def reconnect_deadline_unix_ms_def demo_coordinator_def
        demo_waiting_session_def pending_session_new_def saturating_sub_def limits)
  then show ?thesis using disp rc by (simp add: handle_routed_session_def demo_decoded) (simp add: demo_sdp_envelope_def demo_envelope_def)
qed

lemma demo_live_reached:
  "fst (run_steps (remote_step demo_remote_env) demo_coordinator [Routed (replicate 32 4) [1] 0, Routed (replicate 32 4) [2] 0]) = demo_live"
  using demo_first demo_second by (simp add: fst_run_steps_Cons del: run_steps.simps(2))

lemma demo_run_inv: "remote_inv demo_remote_env (fst (run_steps (remote_step demo_remote_env) demo_coordinator xs))"
proof -
  have "remote_inv demo_remote_env demo_coordinator"
    using remote_inv_new [of demo_idle_service "()" _ demo_coordinator demo_remote_env] demo_remote_new demo_idle_service_inv
    by (simp add: coordinator_new_def) (simp add: demo_remote_env_def)
  then show ?thesis by (rule remote.run_inv)
qed

section \<open>Properties\<close>

text \<open>
  C2. Nobody gets a remote session without a verified offer.  Whatever has happened before, when an envelope makes a session
  active, its sender is a Controller that holds a grant at that moment; the offer was signed by its
  key, names this Host, this session and the hash of the session description that the peer session then accepted, is within its
  lifetime, and its nonce was not used before; the session may inject input only if the offer asked for it and the grant
  allows it; and the session is registered under the sender, so that revocation finds it.
\<close>

theorem session_needs_verified_offer:
  assumes "coordinator_with_config sv f config = Inr rc0" "service_inv (re_pairing env) sv"
    and "rc = fst (run_steps (remote_step env) rc0 xs)" "rc_active rc = None"
    and "handle_routed_session env rc sender bs now = (rc', r)" "rc_active rc' = Some a"
  shows "acs_controller_device_id a = sender
    \<and> session_owner (sv_sessions (rc_service rc')) (acs_session_id a) = Some sender
    \<and> (\<exists>reg auth sdp view g controller t s0 s answer. sv_authorization (rc_service rc) = Healthy reg
        \<and> controller_grant_of reg (soa_controller_device_id auth) = Some view \<and> cgv_grant view = Some g
        \<and> cg_controller g = Some controller \<and> di_device_id controller = sender
        \<and> encode_session_offer_transcript auth = Inr t
        \<and> ed25519_verify (pe_crypto (re_pairing env)) (di_public_key controller) t (soa_signature auth)
        \<and> soa_host_device_id auth = host_device_id rc \<and> soa_session_id auth = acs_session_id a
        \<and> soa_offer_sha256 auth = sha256 (pe_crypto (re_pairing env)) (as_bytes sdp)
        \<and> hps_state s0 = HostSessionState_New \<and> accept_offer (re_session env) s0 sdp = (s, Inr answer)
        \<and> (\<exists>candidates. acs_session a = fst (add_candidates (re_session env) s candidates))
        \<and> now \<le> soa_expires_at_unix_ms auth
        \<and> bt_get (bt_retain (\<lambda>_ e. e \<ge> now) (ov_used_nonces (rc_verifier rc))) (nonce_key auth) = None
        \<and> bt_get (ov_used_nonces (rc_verifier rc')) (nonce_key auth) = Some (soa_expires_at_unix_ms auth)
        \<and> (hps_input_allowed (acs_session a) \<longrightarrow>
             2 \<in> set (soa_requested_permissions auth) \<and> 2 \<in> set (cg_permissions g)))"
proof -
  have inv: "remote_inv env rc" unfolding assms(3) by (rule remote.run_inv [OF remote_inv_new [OF assms(1,2)]])
  then have s: "sessions_inv (sv_sessions (rc_service rc))" "verifier_inv (rc_verifier rc)"
    "ov_host_device_id (rc_verifier rc) = host_device_id rc"
    by (simp_all add: remote_inv_def service_inv_def verifier_ok_def)
  obtain auth and d :: web_rtc_session_description and v where
    v: "verify_remote_offer (pe_crypto (re_pairing env)) (rc_service rc) (rc_verifier rc) auth (wrsd_sdp d)
         (wrsd_dtls_fingerprint_sha256 d) now = (rc_verifier rc', Inr v)"
    "di_device_id (vso_controller v) = sender" "fresh_session env rc' v d a"
    by (rule routed_active [OF assms(5,4,6) s(1)])
  obtain reg where reg: "sv_authorization (rc_service rc) = Healthy reg"
    "offer_verify (pe_crypto (re_pairing env)) (rc_verifier rc) auth (wrsd_sdp d) (wrsd_dtls_fingerprint_sha256 d) reg now
       = (rc_verifier rc', Inr v)"
    using v(1) by (cases "sv_authorization (rc_service rc)") (auto simp: verify_remote_offer_def smap_err_def prod_eq_iff)
  note ok = offer_verify_ok [OF reg(2)]
  from ok have vb: "verify_bindings (pe_crypto (re_pairing env)) (host_device_id rc) auth (wrsd_sdp d)
      (wrsd_dtls_fingerprint_sha256 d) reg now = Inr (vso_controller v, vso_permissions v)" by (simp add: s(3))
  note b = vb [unfolded verify_bindings_iff]
  have fresh: "acs_controller_device_id a = sender" "acs_session_id a = vso_session_id v"
    "session_owner (sv_sessions (rc_service rc')) (vso_session_id v) = Some sender"
    "hps_input_allowed (acs_session a) \<longleftrightarrow> SessionPermission_ControlInput \<in> set (vso_permissions v)"
    using v(2,3) driven_binding(2) by (auto simp: fresh_session_def)
  obtain view g t where g: "controller_grant_of reg (soa_controller_device_id auth) = Some view" "cgv_grant view = Some g"
    "cg_controller g = Some (vso_controller v)" "session_permission_code ` set (vso_permissions v) \<subseteq> set (cg_permissions g)"
    "encode_session_offer_transcript auth = Inr t"
    "ed25519_verify (pe_crypto (re_pairing env)) (di_public_key (vso_controller v)) t (soa_signature auth)"
    using b by (auto simp: verify_signature_iff)
  have ctl: "2 \<in> set (soa_requested_permissions auth) \<and> 2 \<in> set (cg_permissions g)" if "hps_input_allowed (acs_session a)"
    using that fresh(4) b g(4) by (auto simp: normalize_session_iff)
  have "bt_ok (bt_retain (\<lambda>_ e. e \<ge> now) (ov_used_nonces (rc_verifier rc)))" using s(2) by (simp add: verifier_inv_def)
  then have used: "bt_get (ov_used_nonces (rc_verifier rc')) (nonce_key auth) = Some (soa_expires_at_unix_ms auth)"
    using ok by (simp add: bt_get_insert)
  have time: "now \<le> soa_expires_at_unix_ms auth" using b by (simp add: validate_time_iff)
  obtain s0 s ans cs where n: "hps_state s0 = HostSessionState_New" "accept_offer (re_session env) s0 (wrsd_sdp d) = (s, Inr ans)"
    "acs_session a = fst (add_candidates (re_session env) s cs)"
    by (rule negotiatedE [of "re_session env" v "wrsd_sdp d" "acs_session a"]) (use v(3) in \<open>simp add: fresh_session_def\<close>)
  show ?thesis
    using fresh(1-3) reg(1) g v(2) b ok used ctl time n
    by (intro conjI exI [of _ reg] exI [of _ auth] exI [of _ "wrsd_sdp d"] exI [of _ view] exI [of _ g]
        exI [of _ "vso_controller v"] exI [of _ t] exI [of _ s0] exI [of _ s] exI [of _ ans] exI [of _ cs]) simp_all
qed

theorem session_needs_verified_offer_witness:
  "acs_controller_device_id demo_active = replicate 32 4
   \<and> session_owner (sv_sessions (rc_service demo_live)) (acs_session_id demo_active) = Some (replicate 32 4)"
proof -
  let ?rc = "demo_coordinator\<lparr>rc_pending := Some demo_waiting_session\<rparr>"
  have rc: "?rc = fst (run_steps (remote_step demo_remote_env) demo_coordinator [Routed (replicate 32 4) [1] 0])"
    using demo_first by simp
  have n: "rc_active ?rc = None" by (simp add: demo_coordinator_def)
  obtain r where r: "handle_routed_session demo_remote_env ?rc (replicate 32 4) [2] 0 = (demo_live, r)"
    using demo_second by (cases "handle_routed_session demo_remote_env ?rc (replicate 32 4) [2] 0") simp
  have env: "service_inv (re_pairing demo_remote_env) demo_idle_service"
    using demo_idle_service_inv by (simp add: demo_remote_env_def)
  have act: "rc_active demo_live = Some demo_active" by (simp add: demo_live_def)
  from session_needs_verified_offer [OF demo_remote_new [unfolded coordinator_new_def] env rc n r act]
  show ?thesis by blast
qed

text \<open>
  C36. What waits for a Controller stays small.  However many envelopes arrive in whatever order, at most 64 candidates of together at most
  65536 bytes are kept for a session that is not started or not restarted yet; and as long as a candidate fits, it is
  kept, in order of arrival.
\<close>

theorem pending_ice_bounded:
  assumes "coordinator_with_config sv f config = Inr rc0" "service_inv (re_pairing env) sv"
    and "rc = fst (run_steps (remote_step env) rc0 xs)"
    and "rc_pending rc = Some p \<or> (\<exists>a. rc_active rc = Some a \<and> acs_reconnect a = Some p)"
  shows "length (psn_candidates p) \<le> 64
    \<and> (\<Sum>c \<leftarrow> psn_candidates p. length (pic2_candidate c) + length (pic2_sdp_mid c)) \<le> 65536
    \<and> (if length (psn_candidates p) < 64 \<and>
          (\<Sum>c \<leftarrow> psn_candidates p @ [c]. length (pic2_candidate c) + length (pic2_sdp_mid c)) \<le> 65536
       then snd (push_candidate p c) = Inr () \<and> psn_candidates (fst (push_candidate p c)) = psn_candidates p @ [c]
       else push_candidate p c = (p, Inl RemoteSessionError_PendingIceLimit))"
proof -
  have "remote_inv env rc" unfolding assms(3) by (rule remote.run_inv [OF remote_inv_new [OF assms(1,2)]])
  then have "pending_ok p" using assms(4) by (auto simp: remote_inv_def active_ok_def reconnect_ok_def)
  then show ?thesis
    by (auto simp: pending_ok_def push_candidate_def checked_add_usize_def limits)
qed

theorem pending_ice_bounded_witness:
  "push_candidate demo_waiting_session \<lparr>pic2_candidate = replicate 65537 (CHR ''a''), pic2_sdp_mid = [], pic2_sdp_m_line_index = 0\<rparr>
     = (demo_waiting_session, Inl RemoteSessionError_PendingIceLimit)"
proof -
  let ?rc = "demo_coordinator\<lparr>rc_pending := Some demo_waiting_session\<rparr>"
  have rc: "?rc = fst (run_steps (remote_step demo_remote_env) demo_coordinator [Routed (replicate 32 4) [1] 0])"
    using demo_first by simp
  have env: "service_inv (re_pairing demo_remote_env) demo_idle_service"
    using demo_idle_service_inv by (simp add: demo_remote_env_def)
  from pending_ice_bounded [OF demo_remote_new [unfolded coordinator_new_def] env rc, of demo_waiting_session
      "\<lparr>pic2_candidate = replicate 65537 (CHR ''a''), pic2_sdp_mid = [], pic2_sdp_m_line_index = 0\<rparr>"]
  show ?thesis by simp
qed

lemma released_close:
  assumes "so_input ops = platform_input_ops b"
    and "hps_state s = HostSessionState_Closed \<longrightarrow> hps_input_cleanup_pending s \<or> sink_idle (hps_input s)"
  shows "hps_input_cleanup_pending (fst (session_close ops s)) \<or> sink_idle (hps_input (fst (session_close ops s)))"
  using platform.close_closes [OF assms(1), of s] platform.release_session_ok(1) [OF assms(1), of s] assms(2)
  by (auto simp: session_close_def)

lemma released_close_connected:
  assumes "so_input ops = platform_input_ops b" "hps_state t = HostSessionState_Connected"
  shows "hps_input_cleanup_pending (fst (session_close ops t)) \<or> sink_idle (hps_input (fst (session_close ops t)))"
  by (rule released_close [OF assms(1)]) (simp add: assms(2))

text \<open>However a peer session came to be closed, it has released the input or knows that it still has to.\<close>

lemma released_step:
  assumes ops: "so_input ops = platform_input_ops b"
    and rel: "hps_state s = HostSessionState_Closed \<longrightarrow> hps_input_cleanup_pending s \<or> sink_idle (hps_input s)"
  shows "hps_state (fst (peer_step ops s x)) = HostSessionState_Closed \<longrightarrow>
    hps_input_cleanup_pending (fst (peer_step ops s x)) \<or> sink_idle (hps_input (fst (peer_step ops s x)))"
proof (cases x)
  case (AcceptOffer sdp)
  have "hps_input_cleanup_pending (fst (session_close ops (s\<lparr>hps_peer := p\<rparr>))) \<or> sink_idle (hps_input (fst (session_close ops (s\<lparr>hps_peer := p\<rparr>))))" for p
    by (rule released_close [OF ops]) (use rel in simp)
  then show ?thesis using AcceptOffer rel by (auto simp: accept_offer_def split_def Let_def split: sum.splits)
next
  case (Reliable bs)
  show ?thesis
  proof (cases "reliable_envelope ops s bs")
    case (Inr p)
    obtain env ev where "p = (env, ev)" by fastforce
    then have "hps_state s = HostSessionState_Connected" using Inr by (simp add: reliable_envelope_iff)
    then show ?thesis using reliable_closed [of s ops bs] released_close_connected [OF ops] Reliable by fastforce
  qed (use rel Reliable in \<open>simp add: handle_reliable_def\<close>)
next
  case (PointerFast bs)
  show ?thesis
  proof (cases "pointer_envelope ops s bs")
    case (Inr env)
    then have "hps_state s = HostSessionState_Connected" by (simp add: pointer_envelope_iff)
    then show ?thesis using pointer_closed [of s ops bs] released_close_connected [OF ops] PointerFast by fastforce
  qed (use rel PointerFast in \<open>simp add: handle_pointer_fast_def\<close>)
next
  case BeginReconnect
  then show ?thesis
    using rel release_all_kept(1) [of ops s] by (cases "session_release_all ops s"; cases "snd (session_release_all ops s)")
      (auto simp: begin_reconnect_def)
next
  case ClosePeer
  then show ?thesis using released_close [OF ops rel] by simp
qed (use rel in \<open>auto simp: mark_connected_def accept_reconnect_offer_def add_remote_ice_candidate_def split_def Let_def
    split: sum.splits\<close>)

interpretation released: machine "peer_step ops"
    "\<lambda>s. so_input ops = platform_input_ops b \<and> hps_state s = HostSessionState_Closed
      \<longrightarrow> hps_input_cleanup_pending s \<or> sink_idle (hps_input s)" for ops b
  by unfold_locales (use released_step in blast)

lemma driven_released:
  assumes "driven ops sid ps s" "so_input ops = platform_input_ops b" "hps_state s = HostSessionState_Closed"
  shows "hps_input_cleanup_pending s \<or> sink_idle (hps_input s)"
proof -
  obtain config peer input s0 xs where s: "host_peer_session_new sid ps config peer input = Inr s0"
    "s = fst (run_steps (peer_step ops) s0 xs)" using assms(1) by (auto simp: driven_def)
  have "hps_state s0 = HostSessionState_New" using s(1) by (rule new_session_state)
  then show ?thesis using released.run_inv [of ops b s0 xs] assms(2,3) s(2) by simp
qed

text \<open>
  C13. One session at a time, and none is forgotten open.  After any history: while a session is active no other is pending, the peer
  session is the one created for its session id, and it is negotiating, connected or reconnecting; a connected session has no reconnect deadline and a
  reconnecting one has; every session the coordinator ever gave up, after a failed start as after a normal end, is closed, and on the platform sink it has released
  all input or still owes the release because the operating system refused it; and a coordinator that was shut down has no session.
\<close>

theorem session_lifecycle:
  assumes "coordinator_with_config sv f config = Inr rc0" "service_inv (re_pairing env) sv"
    and "rc = fst (run_steps (remote_step env) rc0 xs)" and "so_input (re_session env) = platform_input_ops b"
  shows "(\<forall>a. rc_active rc = Some a \<longrightarrow> rc_pending rc = None \<and> hps_session_id (acs_session a) = acs_session_id a
        \<and> hps_state (acs_session a) \<in> {HostSessionState_Negotiating, HostSessionState_Connected, HostSessionState_Reconnecting}
        \<and> (hps_state (acs_session a) = HostSessionState_Connected \<longrightarrow> acs_reconnect_deadline_unix_ms a = None)
        \<and> (hps_state (acs_session a) = HostSessionState_Reconnecting \<longrightarrow> acs_reconnect_deadline_unix_ms a \<noteq> None))
    \<and> (\<forall>s \<in> set (rc_retired rc). hps_state s = HostSessionState_Closed
        \<and> (hps_input_cleanup_pending s \<or> sink_idle (hps_input s)))
    \<and> (rc_closed rc \<longrightarrow> rc_active rc = None)"
proof -
  have inv: "remote_inv env rc" unfolding assms(3) by (rule remote.run_inv [OF remote_inv_new [OF assms(1,2)]])
  have "hps_session_id (acs_session a) = acs_session_id a" if "rc_active rc = Some a" for a
    using inv_activeD(1) [OF inv that] driven_binding(1) by (auto simp: active_ok_def)
  moreover have "hps_state s = HostSessionState_Closed \<and> (hps_input_cleanup_pending s \<or> sink_idle (hps_input s))"
    if "s \<in> set (rc_retired rc)" for s
  proof -
    have "retired_ok (re_session env) s" using inv that by (simp add: remote_inv_def)
    then show ?thesis using driven_released [OF _ assms(4)] by (auto simp: retired_ok_def)
  qed
  ultimately show ?thesis using inv by (auto simp: remote_inv_def active_ok_def)
qed

theorem session_lifecycle_witness:
  "hps_state (acs_session demo_active) = HostSessionState_Negotiating \<and> rc_pending demo_live = None"
proof -
  have env: "service_inv (re_pairing demo_remote_env) demo_idle_service"
    "so_input (re_session demo_remote_env) = platform_input_ops desk_backend"
    using demo_idle_service_inv by (simp_all add: demo_remote_env_def demo_session_ops_def)
  have act: "rc_active demo_live = Some demo_active" by (simp add: demo_live_def)
  from session_lifecycle [OF demo_remote_new [unfolded coordinator_new_def] env(1) demo_live_reached [symmetric] env(2)] act
  show ?thesis by (auto simp: demo_active_def)
qed

section \<open>Which session is active, step by step\<close>

text \<open>An operation keeps the session when what is active afterwards was active before, and the registry did not change.\<close>

definition keeps_session ::
  "('s, 'p, 'i, 'e, 'f) remote_coordinator \<Rightarrow> ('s, 'p, 'i, 'e, 'f) remote_coordinator \<Rightarrow> bool" where
  "keeps_session rc rc' \<longleftrightarrow> (\<forall>a'. rc_active rc' = Some a' \<longrightarrow>
     (\<exists>a. rc_active rc = Some a \<and> acs_session_id a' = acs_session_id a
        \<and> acs_controller_device_id a' = acs_controller_device_id a)
     \<and> sv_sessions (rc_service rc') = sv_sessions (rc_service rc))"

lemma keeps_refl [simp]: "keeps_session rc rc"
  by (simp add: keeps_session_def)

lemma keeps_trans: "keeps_session rc rc' \<Longrightarrow> keeps_session rc' rc'' \<Longrightarrow> keeps_session rc rc''"
  by (fastforce simp: keeps_session_def)

lemma keeps_none: "rc_active rc' = None \<Longrightarrow> keeps_session rc rc'"
  by (simp add: keeps_session_def)

lemma keeps_sbind:
  assumes "keeps_session rc (fst m)" "\<And>rc1 x. m = (rc1, Inr x) \<Longrightarrow> keeps_session rc1 (fst (k rc1 x))"
  shows "keeps_session rc (fst (sbind m k))"
  using assms keeps_trans by (cases m; cases "snd m") fastforce+

lemma keeps_close [simp]: "keeps_session rc (fst (close_active env rc' e))"
  by (rule keeps_none) simp

lemma keeps_begin [simp]: "keeps_session rc (fst (begin_active_reconnect env rc now))"
  by (auto simp: keeps_session_def begin_active_reconnect_def set_service_def Let_def split: option.splits prod.splits sum.splits)

lemma keeps_expire [simp]: "keeps_session rc (fst (expire_active_reconnect env rc now))"
  by (simp add: expire_active_reconnect_def Let_def fst_sbind_same)

lemma keeps_set_reconnect [simp]: "keeps_session rc (set_reconnect rc p)"
  by (auto simp: keeps_session_def set_reconnect_def)

lemma keeps_prepare [simp]: "keeps_session rc (fst (prepare_active_reconnect rc req now))"
  by (simp add: prepare_active_reconnect_def Let_def split: option.splits)

lemma keeps_store_offer [simp]: "keeps_session rc (fst (store_reconnect_offer env rc offer req now))"
proof -
  have "keeps_session rc (fst (sbind (prepare_active_reconnect rc req now) (\<lambda>rc pending.
       if soa_controller_device_id offer \<noteq> psn_controller_device_id pending \<or> soa_session_id offer \<noteq> psn_session_id pending
       then (rc, Inl RemoteSessionError_InvalidEnvelope)
       else (set_reconnect rc (pending\<lparr>psn_authentication := Some offer\<rparr>),
             ensure RemoteSessionError_InvalidEnvelope (psn_authentication pending = None)))))" for rc
    by (rule keeps_sbind) simp_all
  then show ?thesis unfolding store_reconnect_offer_def by (intro keeps_sbind) simp_all
qed

lemma keeps_negotiation [simp]: "keeps_session rc (fst (handle_active_negotiation env rc neg req now))"
proof -
  have d: "keeps_session rc (fst (sbind (begin_active_reconnect env rc now) (\<lambda>rc _.
      sbind (prepare_active_reconnect rc req now) (\<lambda>rc pending.
        (set_reconnect rc (f pending), ensure RemoteSessionError_InvalidEnvelope (b pending))))))" for f b
    by (intro keeps_sbind) simp_all
  have c: "keeps_session rc (fst (sbind (prepare_active_reconnect rc req now) (\<lambda>rc pending.
      let (pending, r) = push_candidate pending x in (set_reconnect rc pending, r))))" for x
    by (intro keeps_sbind) (simp_all add: split_def Let_def)
  have "keeps_session rc (rc\<lparr>rc_active := Some (a\<lparr>acs_session := s\<rparr>)\<rparr>)" if "rc_active rc = Some a" for a s
    using that by (simp add: keeps_session_def)
  then show ?thesis
    using c d by (simp add: handle_active_negotiation_def split_def Let_def split: option.split web_rtc_negotiation_payload.split)
qed

lemma keeps_restart [simp]: "keeps_session rc (fst (restart_active env rc p now))"
  by (auto simp: keeps_session_def restart_active_def Let_def split: option.splits prod.splits sum.splits if_splits)

lemma keeps_try_restart [simp]: "keeps_session rc (fst (try_restart_active env rc now))"
proof (cases "Option.bind (rc_active rc) acs_reconnect")
  case (Some p)
  let ?rc = "rc\<lparr>rc_active := map_option (\<lambda>active. active\<lparr>acs_reconnect := None\<rparr>) (rc_active rc)\<rparr>"
  have "keeps_session rc ?rc" by (auto simp: keeps_session_def)
  from keeps_trans [OF this keeps_restart [of ?rc env p now]] show ?thesis
    using Some by (auto simp: try_restart_active_def Let_def split: prod.splits sum.splits)
qed (simp add: try_restart_active_def)

lemma keeps_active_envelope [simp]: "keeps_session rc (fst (handle_active_envelope env rc e now))"
proof -
  have "keeps_session rc (fst (store_reconnect_payload env rc e now))"
    by (simp add: store_reconnect_payload_def split: option.split signaling_envelope_payload.split session_authentication_payload.split)
  then have "keeps_session rc (fst (handle_active_reconnect_envelope env rc e now))"
    unfolding handle_active_reconnect_envelope_def by (intro keeps_sbind) simp_all
  then show ?thesis
    by (simp add: handle_active_envelope_def fst_sbind_same split: option.split signaling_envelope_payload.split)
qed

lemma keeps_notify [simp]: "keeps_session rc (fst (close_active_with_remote_notification env rc now e))"
  by (simp add: close_active_with_remote_notification_def fst_sbind_same split: option.split sum.split)

lemma keeps_apply_event [simp]: "keeps_session rc (fst (apply_peer_event env rc ev now))"
proof -
  have upd: "keeps_session rc (rc\<lparr>rc_active := Some (a\<lparr>acs_session := s\<rparr>)\<rparr>)" if "rc_active rc = Some a" for a s
    using that by (simp add: keeps_session_def)
  have conn: "keeps_session rc (fst (peer_connected env rc))"
    by (auto simp: keeps_session_def peer_connected_def set_service_def Let_def fst_sbind_same
        split: option.splits prod.splits sum.splits)
  have "keeps_session rc (fst (peer_reliable_input env rc bs))" "keeps_session rc (fst (peer_fast_pointer env rc bs))" for bs
    by (auto simp: peer_reliable_input_def peer_fast_pointer_def close_after_input_failure_def Let_def fst_sbind_same upd
        split: option.splits prod.splits sum.splits)
  then show ?thesis
    using conn by (cases ev) (simp_all add: peer_interrupted_def peer_local_candidate_def fst_sbind_same split: option.split)
qed

lemma keeps_peer_event [simp]: "keeps_session rc (fst (handle_peer_event env rc ev now))"
  unfolding handle_peer_event_def by (simp, intro impI keeps_sbind) simp_all

lemma keeps_next_event [simp]: "keeps_session rc (fst (next_peer_event env rc))"
  by (auto simp: next_peer_event_def fst_sbind_same keeps_session_def split: option.splits prod.splits sum.splits)

lemma keeps_drain [simp]: "keeps_session rc (fst (drain_peer_events env elapsed now k rc))"
proof (induction k arbitrary: rc)
  case (Suc k)
  have rest: "keeps_session rc (fst (sbind (handle_peer_event env rc ev now) (\<lambda>rc ms.
      if ms \<noteq> [] \<or> elapsed k then (rc, Inr ms) else drain_peer_events env elapsed now k rc)))" for rc ev
    by (rule keeps_sbind) (simp_all add: Suc.IH)
  show ?case
    unfolding drain_peer_events.simps by (rule keeps_sbind) (simp_all add: rest [simplified] split: option.split)
qed simp

lemma keeps_polls [simp]:
  "keeps_session rc (fst (poll_peer_event env rc now))" "keeps_session rc (fst (poll_peer_events_with_budget env rc now elapsed))"
proof -
  have "keeps_session rc (fst (sbind (next_peer_event env rc) (\<lambda>rc event.
      case event of None \<Rightarrow> (rc, Inr []) | Some event \<Rightarrow> handle_peer_event env rc event now)))" for rc
    by (rule keeps_sbind) (simp_all split: option.split)
  then show "keeps_session rc (fst (poll_peer_event env rc now))"
    unfolding poll_peer_event_def by (intro keeps_sbind) simp_all
  show "keeps_session rc (fst (poll_peer_events_with_budget env rc now elapsed))"
    unfolding poll_peer_events_with_budget_def by (intro keeps_sbind) simp_all
qed

lemma keeps_ends [simp]:
  "keeps_session rc (fst (handle_termination env rc ev now))" "keeps_session rc (fst (privileged_route_changed env rc now))"
  "keeps_session rc (fst (coordinator_shutdown env rc))"
proof -
  show "keeps_session rc (fst (handle_termination env rc ev now))" by (simp add: handle_termination_def)
  show "keeps_session rc (fst (privileged_route_changed env rc now))" by (simp add: privileged_route_changed_def)
  show "keeps_session rc (fst (coordinator_shutdown env rc))"
    using close_active_kept(5) [of env "rc\<lparr>rc_pending := None, rc_failed_attempt := None\<rparr>" None]
    by (cases "close_active env (rc\<lparr>rc_pending := None, rc_failed_attempt := None\<rparr>) None";
        cases "snd (close_active env (rc\<lparr>rc_pending := None, rc_failed_attempt := None\<rparr>) None)")
      (simp_all add: coordinator_shutdown_def keeps_none)
qed

lemma keeps_lost [simp]: "keeps_session rc (fst (signaling_lost_session env rc now))"
proof -
  let ?rc = "rc\<lparr>rc_pending := None\<rparr>"
  have k: "keeps_session rc ?rc" by (simp add: keeps_session_def)
  obtain rc1 r where b: "begin_active_reconnect env ?rc now = (rc1, r)" by fastforce
  have "keeps_session rc rc1" using keeps_trans [OF k keeps_begin [of ?rc env now]] b by simp
  then show ?thesis
    using k b by (cases r) (simp_all add: signaling_lost_session_def Let_def fst_sbind_same)
qed

section \<open>Announced ends\<close>

text \<open>A session is accounted for while the registry has it, or once its end was announced on the channel.\<close>

definition accounted :: "'s host_service \<Rightarrow> bytes \<Rightarrow> bytes \<Rightarrow> bool" where
  "accounted sv i d \<longleftrightarrow> session_owner (sv_sessions sv) i = Some d
     \<or> (\<exists>ev \<in> set (sr_terminations (sv_sessions sv)). ste_session_id ev = i \<and> ste_controller_device_id ev = d)"

lemma accounted_terminate:
  assumes "sessions_inv s" "session_owner s i = Some d \<or> (\<exists>ev \<in> set (sr_terminations s). ste_session_id ev = i \<and> ste_controller_device_id ev = d)"
    and "t = fst (terminate_all s reason) \<or> t = fst (terminate_controller s c)"
  shows "session_owner t i = Some d \<or> (\<exists>ev \<in> set (sr_terminations t). ste_session_id ev = i \<and> ste_controller_device_id ev = d)"
  using assms(3)
proof
  assume t: "t = fst (terminate_all s reason)"
  obtain s' r where r: "terminate_all s reason = (s', r)" by fastforce
  show ?thesis
  proof (cases r)
    case (Inl e)
    then show ?thesis using r t assms(2) by (auto simp: terminate_all_def Let_def split: mutex.splits)
  next
    case (Inr evs)
    note eff = terminate_all_effect [OF assms(1) r [unfolded Inr]]
    have "(i, d) \<in> {(ste_session_id e, ste_controller_device_id e) |e. e \<in> set evs}" if "session_owner s i = Some d"
      using eff that by simp
    then show ?thesis using eff t r assms(2) by fastforce
  qed
next
  assume t: "t = fst (terminate_controller s c)"
  obtain s' r where r: "terminate_controller s c = (s', r)" by fastforce
  show ?thesis
  proof (cases r)
    case (Inl e)
    then show ?thesis using r t assms(2) by (auto simp: terminate_controller_def Let_def split: mutex.splits)
  next
    case (Inr evs)
    note eff = terminate_controller_effect [OF assms(1) r [unfolded Inr]]
    have "\<exists>ev \<in> set evs. ste_session_id ev = i \<and> ste_controller_device_id ev = d" if "session_owner s i = Some d" "c = d"
    proof -
      have "i \<in> ste_session_id ` set evs" using eff that by simp
      then obtain ev where "ev \<in> set evs" "i = ste_session_id ev" by blast
      then show ?thesis using eff that(2) by blast
    qed
    then show ?thesis using eff t r assms(2) by (cases "c = d") fastforce+
  qed
qed

text \<open>Only a revocation and an emergency stop change the registry, apart from the coordinator itself.\<close>

definition changes_registry :: "service_op \<Rightarrow> bool" where
  "changes_registry x = (case x of RegisterActive _ _ \<Rightarrow> True | UnregisterActive _ \<Rightarrow> True | _ \<Rightarrow> False)"

lemma pairing_sessions [simp]: "sv_sessions (fst (with_pairing sv g)) = sv_sessions sv"
  by (simp add: with_pairing_def split_def Let_def split: mutex.splits)

lemma other_sessions [simp]:
  "sv_sessions (fst (service_signaling_connected sv)) = sv_sessions sv"
  "sv_sessions (fst (poll_pairing_outbound sv now)) = sv_sessions sv"
  "sv_sessions (fst (accept_host_pairing env ops draw sv r d now)) = sv_sessions sv"
  "sv_sessions (fst (create_grant_payload env ops dr sv request now)) = sv_sessions sv"
  "sv_sessions (fst (handle_pairing_payload env ops dr sv payload now)) = sv_sessions sv"
  "sv_sessions (fst (update_privileged_bridge_status sv b k)) = sv_sessions sv"
proof -
  show a: "sv_sessions (fst (accept_host_pairing env ops draw sv r d now)) = sv_sessions sv" for draw r d
    by (simp add: accept_host_pairing_def split_def Let_def split: mutex.splits)
  show "sv_sessions (fst (create_grant_payload env ops dr sv request now)) = sv_sessions sv"
    by (simp add: create_grant_payload_def fst_sbind_same split: option.splits sum.splits)
  show "sv_sessions (fst (handle_pairing_payload env ops dr sv payload now)) = sv_sessions sv"
    by (cases payload) (simp_all add: handle_pairing_payload_def pairing_wrappers fst_sbind_same then_pairing_status_def a)
qed (simp_all add: service_signaling_connected_def poll_pairing_outbound_def update_privileged_bridge_status_def take_outbound_def
      split_def Let_def split: mutex.splits sum.splits)

lemma revoke_sessions:
  "sv_sessions (fst (revoke ops sv i)) = sv_sessions sv
   \<or> (\<exists>d. sv_sessions (fst (revoke ops sv i)) = fst (terminate_controller (sv_sessions sv) d))"
proof -
  let ?m = "with_authorization ServiceError_Internal sv
    (\<lambda>a. smap_err ServiceError_Authorization (revoke_controller_grant ops a i))"
  obtain t r where m: "?m = (t, r)" by fastforce
  have t: "sv_sessions t = sv_sessions sv"
    using locked_kept(6) [of ServiceError_Internal sv "\<lambda>a. smap_err ServiceError_Authorization (revoke_controller_grant ops a i)"] m
    by simp
  show ?thesis
  proof (cases r)
    case (Inr v)
    then show ?thesis
      using t unfolding revoke_def m
      by (cases "controller_device_id_for v")
        (auto split: prod.splits sum.splits, metis fst_conv, metis fst_conv)
  qed (simp add: revoke_def m t)
qed

lemma emergency_sessions:
  "sv_sessions (fst (emergency_stop sv)) = fst (terminate_all (sv_sessions sv) ErrorCode_LocalEmergencyStop)"
  by (simp add: emergency_stop_def Let_def split: prod.splits sum.splits mutex.splits)

lemma payload_sessions:
  "sv_sessions (fst (handle_payload env ops dr sv payload now)) \<in> {sv_sessions sv, fst (terminate_all (sv_sessions sv) ErrorCode_LocalEmergencyStop)}
   \<or> (\<exists>d. sv_sessions (fst (handle_payload env ops dr sv payload now)) = fst (terminate_controller (sv_sessions sv) d))"
  by (cases payload) (use revoke_sessions [of ops sv] in \<open>auto simp: handle_payload_def emergency_sessions\<close>)

lemma accounted_step:
  assumes "service_inv env sv" "accounted sv i d" "\<not> changes_registry x"
  shows "accounted (fst (service_step env ops sv x)) i d"
proof -
  have "sessions_inv (sv_sessions sv)" using assms(1) by (simp add: service_inv_def)
  from accounted_terminate [OF this assms(2) [unfolded accounted_def]]
  have t: "accounted sv' i d" if "sv_sessions sv' \<in> {sv_sessions sv, fst (terminate_all (sv_sessions sv) ErrorCode_LocalEmergencyStop)}
      \<or> (\<exists>c. sv_sessions sv' = fst (terminate_controller (sv_sessions sv) c))" for sv' :: "'a host_service"
    using that assms(2) unfolding accounted_def by auto
  show ?thesis
  proof (cases x)
    case (LocalRequest dr frame now)
    show ?thesis
    proof (cases "licf_payload frame")
      case (Some payload)
      then show ?thesis using t [OF payload_sessions [of env ops dr sv payload now]] LocalRequest by (simp add: fst_handle_frame)
    qed (use LocalRequest assms(2) in \<open>simp add: fst_handle_frame\<close>)
  qed (use assms(3) in \<open>auto intro!: t simp: changes_registry_def pairing_wrappers create_controller_grant_for_maintenance_def\<close>)
qed

text \<open>The registry is written by the coordinator only; everybody else ends sessions through revocation and emergency stop.\<close>

definition agent_op :: "remote_op \<Rightarrow> bool" where
  "agent_op x = (case x of ServiceStep y \<Rightarrow> \<not> changes_registry y | _ \<Rightarrow> True)"

definition active_accounted :: "('s, 'p, 'i, 'e, 'f) remote_coordinator \<Rightarrow> bool" where
  "active_accounted rc \<longleftrightarrow> (\<forall>a. rc_active rc = Some a
     \<longrightarrow> accounted (rc_service rc) (acs_session_id a) (acs_controller_device_id a))"

lemma accounted_kept: "active_accounted rc \<Longrightarrow> keeps_session rc rc' \<Longrightarrow> active_accounted rc'"
  by (fastforce simp: active_accounted_def keeps_session_def accounted_def)

lemma accounted_routed:
  assumes "remote_inv env rc" "active_accounted rc"
  shows "active_accounted (fst (handle_routed_session env rc sender bs now))"
proof -
  have e0: "active_accounted (expire_pending rc now)" using assms(2) by (simp add: active_accounted_def)
  have disp: "active_accounted (fst (dispatch_envelope env rc1 e now))"
    if "expire_active_reconnect env (expire_pending rc now) now = (rc1, Inr x)" for rc1 x e
  proof -
    have acc: "active_accounted rc1"
      using accounted_kept [OF e0 keeps_expire [of "expire_pending rc now" env now]] that by simp
    have inv: "sessions_inv (sv_sessions (rc_service rc1))"
      using inv_expire_reconnect [OF inv_expire_pending [OF assms(1)], of now now] that by (simp add: remote_inv_def service_inv_def)
    show ?thesis
    proof (cases "rc_active rc1")
      case None
      have "accounted (rc_service rc2) (acs_session_id a) (acs_controller_device_id a)"
        if "handle_pending_envelope env rc1 e now = (rc2, r)" "rc_active rc2 = Some a" for rc2 r a
        by (rule pending_envelope_active [OF that(1) None that(2) inv]) (simp add: fresh_session_def accounted_def)
      then have "active_accounted (fst (handle_pending_envelope env rc1 e now))"
        by (cases "handle_pending_envelope env rc1 e now") (simp add: active_accounted_def)
      then show ?thesis using None acc by (simp add: dispatch_envelope_def)
    next
      case (Some a)
      then show ?thesis
        using acc accounted_kept [OF acc keeps_active_envelope [of rc1 env e now]] by (simp add: dispatch_envelope_def)
    qed
  qed
  obtain rc1 r where m: "expire_active_reconnect env (expire_pending rc now) now = (rc1, r)" by fastforce
  have "active_accounted rc1" using accounted_kept [OF e0 keeps_expire [of "expire_pending rc now" env now]] m by simp
  then show ?thesis using assms(2) m disp by (cases r) (auto simp: handle_routed_session_def split: sum.splits)
qed

lemma accounted_remote_step:
  assumes "remote_inv env rc" "active_accounted rc" "agent_op x"
  shows "active_accounted (fst (remote_step env rc x))"
proof (cases x)
  case (Routed sender bs now)
  then show ?thesis using accounted_routed [OF assms(1,2)] by simp
next
  case (ServiceStep y)
  have "service_inv (re_pairing env) (rc_service rc)" using assms(1) by (simp add: remote_inv_def)
  then show ?thesis
    using ServiceStep assms(2,3) accounted_step [of "re_pairing env" "rc_service rc" _ _ y "re_store env"]
    by (auto simp: active_accounted_def agent_op_def split_def Let_def)
qed (auto intro: accounted_kept [OF assms(2)])

lemma accounted_run:
  assumes "remote_inv env rc" "active_accounted rc" "\<forall>x \<in> set xs. agent_op x"
  shows "active_accounted (fst (run_steps (remote_step env) rc xs))"
  using assms
proof (induction xs arbitrary: rc)
  case (Cons x xs)
  have "remote_inv env (fst (remote_step env rc x))" "active_accounted (fst (remote_step env rc x))"
    using Cons.prems by (simp_all add: remote.step_inv accounted_remote_step)
  then show ?case using Cons.IH Cons.prems(3) by (simp add: fst_run_steps_Cons del: run_steps.simps)
qed simp

lemma termination_closes:
  assumes "rc_active rc = Some a" "ste_session_id ev = acs_session_id a" "ste_controller_device_id ev = acs_controller_device_id a"
    and "remote_outbound env rc (acs_controller_device_id a) LOCAL_TERMINATION_REQUEST_ID now (closing_payload (acs_session_id a)) = Inr m"
  shows "rc_active (fst (handle_termination env rc ev now)) = None
    \<and> rc_retired (fst (handle_termination env rc ev now))
        = rc_retired rc @ [session_drop (re_session env) (fst (session_close (re_session env) (acs_session a)))]
    \<and> (\<forall>ms. snd (handle_termination env rc ev now) = Inr ms \<longrightarrow> ms = [m])"
proof -
  define fe where "fe = (case error_code_of (ste_reason ev) of
           Some ErrorCode_LocalEmergencyStop \<Rightarrow> None
         | Some ErrorCode_Unspecified \<Rightarrow> Some (remote_unified_error ErrorCode_AuthRevoked)
         | None \<Rightarrow> Some (remote_unified_error ErrorCode_AuthRevoked)
         | Some reason \<Rightarrow> Some (remote_unified_error reason))"
  have h: "handle_termination env rc ev now = sbind (close_active env rc fe) (\<lambda>rc _. (rc, Inr [m]))"
    using assms by (simp add: handle_termination_def close_active_with_remote_notification_def fe_def)
  show ?thesis
    unfolding h using close_active_effect(1,2) [OF assms(1), of env fe]
    by (cases "close_active env rc fe"; cases "snd (close_active env rc fe)") (auto simp: fst_sbind_same)
qed

text \<open>
  C7. An end decided on the machine reaches the remote session.  Whatever happened in whatever order: when the active
  session is no longer registered, because its grant was revoked or an emergency stop ended all sessions, then its end was
  announced on the termination channel, and handling that announcement, now or later, closes the peer session and forgets it;
  the only message that goes out then tells the Controller that the session is closing.  (The notice must fit into an
  envelope; it is a status with a session id.)
\<close>

theorem announced_end_closes_session:
  assumes "coordinator_with_config sv f config = Inr rc0" "service_inv (re_pairing env) sv"
    and "rc = fst (run_steps (remote_step env) rc0 xs)" "\<forall>x \<in> set xs. agent_op x"
    and "rc_active rc = Some a"
    and "session_owner (sv_sessions (rc_service rc)) (acs_session_id a) \<noteq> Some (acs_controller_device_id a)"
    and "remote_outbound env rc (acs_controller_device_id a) LOCAL_TERMINATION_REQUEST_ID now
           (closing_payload (acs_session_id a)) = Inr m"
  shows "\<exists>ev \<in> set (sr_terminations (sv_sessions (rc_service rc))).
      ste_session_id ev = acs_session_id a \<and> ste_controller_device_id ev = acs_controller_device_id a
      \<and> rc_active (fst (handle_termination env rc ev now)) = None
      \<and> (\<exists>s. rc_retired (fst (handle_termination env rc ev now)) = rc_retired rc @ [s] \<and> hps_state s = HostSessionState_Closed
           \<and> hps_session_id s = acs_session_id a)
      \<and> (\<forall>ms. snd (handle_termination env rc ev now) = Inr ms \<longrightarrow> ms = [m])"
proof -
  have inv0: "remote_inv env rc0" by (rule remote_inv_new [OF assms(1,2)])
  have "active_accounted rc0" using assms(1) by (auto simp: coordinator_with_config_def bind_res_Inr active_accounted_def)
  then have "active_accounted rc" unfolding assms(3) by (rule accounted_run [OF inv0 _ assms(4)])
  then obtain ev where ev: "ev \<in> set (sr_terminations (sv_sessions (rc_service rc)))" "ste_session_id ev = acs_session_id a"
    "ste_controller_device_id ev = acs_controller_device_id a"
    using assms(5,6) by (auto simp: active_accounted_def accounted_def)
  have "remote_inv env rc" unfolding assms(3) by (rule remote.run_inv [OF inv0])
  then obtain ps where "driven (re_session env) (acs_session_id a) ps (acs_session a)"
    using inv_activeD(1) [OF _ assms(5)] by (auto simp: active_ok_def)
  then have "driven (re_session env) (acs_session_id a) ps (session_drop (re_session env) (fst (session_close (re_session env) (acs_session a))))"
    by (intro driven_ops(8,9))
  then show ?thesis
    using ev termination_closes [OF assms(5) ev(2,3) assms(7)] driven_binding(1) by (intro bexI [OF _ ev(1)]) fastforce
qed

theorem announced_end_closes_session_witness:
  "\<exists>rc ev. rc = fst (run_steps (remote_step demo_remote_env) demo_coordinator [Routed (replicate 32 4) [1] 0,
      Routed (replicate 32 4) [2] 0, ServiceStep (LocalRequest \<lparr>rd_pairing = \<lparr>pdr_rendezvous = None, pdr_private_key = None,
        pdr_code = None\<rparr>, rd_grant_id = (\<lambda>_. None)\<rparr> \<lparr>licf_protocol_version = None, licf_request_id = ''stop'',
        licf_payload = Some (LocalIpcClientFrame_EmergencyStopRemoteSession EmergencyStopRemoteSessionRequest)\<rparr> 5)])
    \<and> rc_active rc = Some demo_active \<and> ste_session_id ev = replicate 16 1
    \<and> rc_active (fst (handle_termination demo_remote_env rc ev 6)) = None"
proof -
  let ?ops = "[Routed (replicate 32 4) [1] 0, Routed (replicate 32 4) [2] 0]"
  let ?frame = "\<lparr>licf_protocol_version = None, licf_request_id = ''stop'',
      licf_payload = Some (LocalIpcClientFrame_EmergencyStopRemoteSession EmergencyStopRemoteSessionRequest)\<rparr>"
  let ?stop = "ServiceStep (LocalRequest \<lparr>rd_pairing = \<lparr>pdr_rendezvous = None, pdr_private_key = None, pdr_code = None\<rparr>,
      rd_grant_id = (\<lambda>_. None)\<rparr> ?frame 5)"
  define rc where "rc = fst (run_steps (remote_step demo_remote_env) demo_coordinator (?ops @ [?stop]))"
  have rc: "rc = fst (remote_step demo_remote_env demo_live ?stop)"
    unfolding rc_def fst_run_steps_append demo_live_reached by (simp add: split_def Let_def)
  have ses: "sv_sessions (rc_service rc) = fst (terminate_all (sv_sessions demo_service) ErrorCode_LocalEmergencyStop)"
    and act: "rc_active rc = Some demo_active"
    unfolding rc
    by (simp_all add: split_def Let_def fst_handle_frame handle_payload_def emergency_sessions)
      (simp_all add: demo_live_def demo_live_service_def)
  have own: "session_owner (sv_sessions (rc_service rc)) (acs_session_id demo_active) \<noteq> Some (acs_controller_device_id demo_active)"
    unfolding ses by (simp add: demo_service_def terminate_all_def session_owner_def bt_get_def bt_empty_def Let_def)
  have env: "service_inv (re_pairing demo_remote_env) demo_idle_service"
    using demo_idle_service_inv by (simp add: demo_remote_env_def)
  have out: "remote_outbound demo_remote_env rc (acs_controller_device_id demo_active) LOCAL_TERMINATION_REQUEST_ID 6
      (closing_payload (acs_session_id demo_active)) = Inr \<lparr>rso_recipient_device_id = acs_controller_device_id demo_active,
        rso_opaque_envelope = []\<rparr>"
    by (simp add: remote_outbound_def demo_remote_env_def)
  have "\<forall>x \<in> set (?ops @ [?stop]). agent_op x" by (simp add: agent_op_def changes_registry_def)
  from announced_end_closes_session [OF demo_remote_new [unfolded coordinator_new_def] env rc_def this act own out]
  obtain ev where "ste_session_id ev = acs_session_id demo_active" "rc_active (fst (handle_termination demo_remote_env rc ev 6)) = None"
    by blast
  then show ?thesis using act unfolding rc_def by (auto simp: demo_active_def)
qed

lemma expired_closes:
  assumes "rc_active rc = Some a" "acs_reconnect_deadline_unix_ms a = Some t" "t \<le> now"
  shows "rc_active (fst (expire_active_reconnect env rc now)) = None"
    "rc_retired (fst (expire_active_reconnect env rc now))
       = rc_retired rc @ [session_drop (re_session env) (fst (session_close (re_session env) (acs_session a)))]"
    "snd (expire_active_reconnect env rc now) = Inr b \<Longrightarrow> b"
proof -
  let ?c = "close_active env rc (Some (remote_unified_error ErrorCode_IceFailed))"
  have e: "expire_active_reconnect env rc now = sbind ?c (\<lambda>rc _. (rc, Inr True))"
    using assms by (simp add: expire_active_reconnect_def reconnect_deadline_unix_ms_def)
  show "rc_active (fst (expire_active_reconnect env rc now)) = None"
    "rc_retired (fst (expire_active_reconnect env rc now))
       = rc_retired rc @ [session_drop (re_session env) (fst (session_close (re_session env) (acs_session a)))]"
    unfolding e using close_active_effect(1,2) [OF assms(1)] by (simp_all add: fst_sbind_same)
  show "b" if "snd (expire_active_reconnect env rc now) = Inr b"
    using that unfolding e by (cases ?c; cases "snd ?c") auto
qed

lemma not_expired:
  assumes "rc_active rc = Some a" "\<forall>t. acs_reconnect_deadline_unix_ms a = Some t \<longrightarrow> now < t"
  shows "expire_active_reconnect env rc now = (rc, Inr False)"
  using assms by (auto simp: expire_active_reconnect_def reconnect_deadline_unix_ms_def not_le split: option.splits)

text \<open>
  C19. An interrupted session neither accepts input nor lasts.  When the transport or signaling is lost, the code sets a deadline 45
  seconds ahead, and nothing that interrupts again moves it.  Until the session is connected again, input events are
  dropped without touching the session; and at the first event after the deadline the session is closed, whatever the
  event is, so that the machine is free for another Controller.
\<close>

theorem reconnect_window_enforced:
  assumes "rc_active rc = Some a" "\<not> rc_closed rc"
  shows "(begin_active_reconnect env rc now = (rc1, Inr ()) \<longrightarrow>
        reconnect_deadline_unix_ms rc1 = Some (case acs_reconnect_deadline_unix_ms a of
          None \<Rightarrow> saturating_add now 45000 | Some t \<Rightarrow> t))
    \<and> (case acs_reconnect_deadline_unix_ms a of
         None \<Rightarrow> True
       | Some t \<Rightarrow>
           if now < t
           then handle_peer_event env rc (RemotePeerEvent_ReliableInput bs) now = (rc, Inr [])
             \<and> handle_peer_event env rc (RemotePeerEvent_FastPointer bs) now = (rc, Inr [])
           else rc_active (fst (handle_peer_event env rc ev now)) = None
             \<and> rc_active (fst (poll_peer_events_with_budget env rc now elapsed)) = None
             \<and> (\<exists>s. rc_retired (fst (handle_peer_event env rc ev now)) = rc_retired rc @ [s]
                   \<and> hps_state s = HostSessionState_Closed))"
proof -
  have begun: "reconnect_deadline_unix_ms rc1 = Some (case acs_reconnect_deadline_unix_ms a of
          None \<Rightarrow> saturating_add now 45000 | Some t \<Rightarrow> t)" if "begin_active_reconnect env rc now = (rc1, Inr ())"
    using begin_reconnect_active(2) [OF that assms(1), of "()"]
    by (auto simp: reconnect_deadline_unix_ms_def limits split: option.splits)
  show ?thesis
  proof (cases "acs_reconnect_deadline_unix_ms a")
    case (Some t)
    show ?thesis
    proof (cases "now < t")
      case True
      then have "expire_active_reconnect env rc now = (rc, Inr False)" using not_expired [OF assms(1), of now env] Some by simp
      then show ?thesis
        using begun Some True assms by (simp add: handle_peer_event_def peer_reliable_input_def peer_fast_pointer_def
            input_suspended_def reconnect_deadline_unix_ms_def)
    next
      case False
      note ex = expired_closes [OF assms(1) Some False [unfolded not_less], of env]
      obtain rc2 r where m: "expire_active_reconnect env rc now = (rc2, r)" by fastforce
      have "\<not> is_ok r \<or> r = Inr True"
      proof (cases r)
        case (Inr b)
        then have "b" using ex(3) [of b] m by simp
        then show ?thesis using Inr by simp
      qed simp
      then have "fst (handle_peer_event env rc ev now) = rc2" "fst (poll_peer_events_with_budget env rc now elapsed) = rc2"
        using m assms(2) by (cases r; simp add: handle_peer_event_def poll_peer_events_with_budget_def)+
      then show ?thesis using begun Some False ex(1,2) m by simp
    qed
  qed (use begun in simp)
qed

definition demo_interrupted :: "(memory_grant_store, unit, demo_desk platform_input_sink, unit, unit) remote_coordinator" where
  "demo_interrupted = demo_live\<lparr>rc_active := Some (demo_active\<lparr>acs_reconnect_deadline_unix_ms := Some 45000\<rparr>)\<rparr>"

theorem reconnect_window_enforced_witness:
  "handle_peer_event demo_remote_env demo_interrupted (RemotePeerEvent_ReliableInput [1]) 44999 = (demo_interrupted, Inr [])
   \<and> rc_active (fst (handle_peer_event demo_remote_env demo_interrupted RemotePeerEvent_Connected 45000)) = None"
proof -
  have a: "rc_active demo_interrupted = Some (demo_active\<lparr>acs_reconnect_deadline_unix_ms := Some 45000\<rparr>)"
    "\<not> rc_closed demo_interrupted"
    by (simp_all add: demo_interrupted_def demo_live_def demo_coordinator_def)
  have "(44999 :: u64) < 45000" "\<not> (45000 :: u64) < 45000" by simp_all
  then show ?thesis
    using reconnect_window_enforced [OF a, of demo_remote_env 44999 _ "[1]"]
      reconnect_window_enforced [OF a, of demo_remote_env 45000 _ _ RemotePeerEvent_Connected] by simp
qed

text \<open>
  C30. A second Controller cannot disturb a session.  While a session is active and not expired, any well-formed
  envelope from another device is answered with \<^verbatim>\<open>DEVICE_BUSY\<close>, or not at all, and changes nothing about the session, the
  service or the replay cache.
\<close>

theorem other_controllers_are_busy:
  assumes "rc_active rc = Some a" "\<forall>t. acs_reconnect_deadline_unix_ms a = Some t \<longrightarrow> now < t"
    and "sender \<noteq> acs_controller_device_id a" "handle_routed_session env rc sender bs now = (rc', r)"
  shows "rc_active rc' = rc_active rc \<and> rc_service rc' = rc_service rc \<and> rc_verifier rc' = rc_verifier rc
    \<and> rc_retired rc' = rc_retired rc
    \<and> (\<not> is_ok r \<or> r = Inr [] \<or> (\<exists>req. r = one_outbound (error_outbound env rc' sender req ErrorCode_DeviceBusy now)))"
proof -
  have "expire_active_reconnect env (expire_pending rc now) now = (expire_pending rc now, Inr False)"
    using assms(1,2) by (intro not_expired) simp_all
  then show ?thesis
    using assms(1,3,4) by (auto simp: handle_routed_session_def dispatch_envelope_def split: if_splits sum.splits)
qed

theorem other_controllers_are_busy_witness:
  "\<exists>rc' r. handle_routed_session demo_remote_env demo_live (replicate 32 5) [3] 0 = (rc', r) \<and> rc_active rc' = rc_active demo_live"
proof -
  obtain rc' r where h: "handle_routed_session demo_remote_env demo_live (replicate 32 5) [3] 0 = (rc', r)" by fastforce
  have a: "rc_active demo_live = Some demo_active" "\<forall>t. acs_reconnect_deadline_unix_ms demo_active = Some t \<longrightarrow> 0 < t"
    "replicate 32 5 \<noteq> acs_controller_device_id demo_active"
    by (simp_all add: demo_live_def demo_active_def)
  from other_controllers_are_busy [OF a h] h show ?thesis by blast
qed

section \<open>Restarting\<close>

text \<open>Nothing but a restart touches the verifier and the reconnect generation of a session.\<close>

definition no_restart ::
  "('s, 'p, 'i, 'e, 'f) remote_coordinator \<Rightarrow> ('s, 'p, 'i, 'e, 'f) remote_coordinator \<Rightarrow> bool" where
  "no_restart rc rc' \<longleftrightarrow> rc_verifier rc' = rc_verifier rc
     \<and> sv_authorization (rc_service rc') = sv_authorization (rc_service rc)
     \<and> (\<forall>a'. rc_active rc' = Some a' \<longrightarrow> (\<exists>a. rc_active rc = Some a
          \<and> acs_reconnect_generation a' = acs_reconnect_generation a \<and> acs_session_id a' = acs_session_id a
          \<and> acs_controller_device_id a' = acs_controller_device_id a))"

lemma no_restart_refl [simp]: "no_restart rc rc"
  by (simp add: no_restart_def)

lemma no_restart_trans: "no_restart rc rc' \<Longrightarrow> no_restart rc' rc'' \<Longrightarrow> no_restart rc rc''"
  by (fastforce simp: no_restart_def)

lemma no_restart_sbind:
  assumes "no_restart rc (fst m)" "\<And>rc1 x. m = (rc1, Inr x) \<Longrightarrow> no_restart rc1 (fst (k rc1 x))"
  shows "no_restart rc (fst (sbind m k))"
  using assms no_restart_trans by (cases m; cases "snd m") fastforce+

lemma no_restart_begin [simp]: "no_restart rc (fst (begin_active_reconnect env rc now))"
  by (auto simp: no_restart_def begin_active_reconnect_def set_service_def Let_def split: option.splits prod.splits sum.splits)

lemma no_restart_set [simp]: "no_restart rc (set_reconnect rc p)"
  by (auto simp: no_restart_def set_reconnect_def)

lemma no_restart_prepare [simp]: "no_restart rc (fst (prepare_active_reconnect rc req now))"
  by (simp add: prepare_active_reconnect_def Let_def split: option.splits)

lemma no_restart_store [simp]: "no_restart rc (fst (store_reconnect_payload env rc e now))"
proof -
  have o: "no_restart rc (fst (store_reconnect_offer env rc offer req now))" for offer req
    unfolding store_reconnect_offer_def by (intro no_restart_sbind) simp_all
  have d: "no_restart rc (fst (sbind (begin_active_reconnect env rc now) (\<lambda>rc _.
      sbind (prepare_active_reconnect rc req now) (\<lambda>rc pending.
        (set_reconnect rc (f pending), ensure RemoteSessionError_InvalidEnvelope (b pending))))))" for f b req
    by (intro no_restart_sbind) simp_all
  have c: "no_restart rc (fst (sbind (prepare_active_reconnect rc req now) (\<lambda>rc pending.
      let (pending, r) = push_candidate pending x in (set_reconnect rc pending, r))))" for x req
    by (intro no_restart_sbind) (simp_all add: split_def Let_def)
  have "no_restart rc (rc\<lparr>rc_active := Some (a\<lparr>acs_session := s\<rparr>)\<rparr>)" if "rc_active rc = Some a" for a s
    using that by (simp add: no_restart_def)
  then have "no_restart rc (fst (handle_active_negotiation env rc neg req now))" for neg req
    using c d by (simp add: handle_active_negotiation_def split_def Let_def split: option.split web_rtc_negotiation_payload.split)
  then show ?thesis
    using o by (simp add: store_reconnect_payload_def split: option.split signaling_envelope_payload.split session_authentication_payload.split)
qed

lemma restart_verified:
  assumes "restart_active env rc p now = (rc', r)" "rc_active rc = Some a" "rc_active rc' = Some a'"
    and "acs_reconnect_generation a' \<noteq> acs_reconnect_generation a"
  obtains auth and d :: web_rtc_session_description and v where
    "verify_remote_offer (pe_crypto (re_pairing env)) (rc_service rc) (rc_verifier rc) auth (wrsd_sdp d)
       (wrsd_dtls_fingerprint_sha256 d) now = (rc_verifier rc', Inr v)"
    "di_device_id (vso_controller v) = acs_controller_device_id a" "vso_session_id v = acs_session_id a"
    "checked_add (acs_reconnect_generation a) 1 = Some (acs_reconnect_generation a')"
    "hps_state (acs_session a') = HostSessionState_Negotiating" "acs_controller_device_id a' = acs_controller_device_id a"
    "acs_session_id a' = acs_session_id a"
proof -
  obtain auth d where p: "psn_authentication p = Some auth" "psn_description p = Some d"
    using assms by (auto simp: restart_active_def split: option.splits)
  obtain w x where w: "verify_remote_offer (pe_crypto (re_pairing env)) (rc_service rc) (rc_verifier rc) auth (wrsd_sdp d)
      (wrsd_dtls_fingerprint_sha256 d) now = (w, x)" by fastforce
  obtain v where v: "x = Inr v" using assms p w by (cases x) (auto simp: restart_active_def)
  have ids: "di_device_id (vso_controller v) = acs_controller_device_id a" "vso_session_id v = acs_session_id a"
    using assms p w v by (auto simp: restart_active_def Let_def split: if_splits)
  obtain g where g: "checked_add (acs_reconnect_generation a) 1 = Some g"
    using assms p w v ids by (cases "checked_add (acs_reconnect_generation a) 1") (auto simp: restart_active_def Let_def)
  obtain s y where s: "accept_reconnect_offer (re_session env) (acs_session a) (wrsd_sdp d) = (s, y)" by fastforce
  obtain ans where y: "y = Inr ans" using assms p w v ids g s by (cases y) (auto simp: restart_active_def Let_def)
  obtain aa where aa: "sign_remote_reconnect (re_pairing env) (rc_service rc) auth (pa_sdp ans) (pa_dtls_fingerprint_sha256 ans) g = Inr aa"
    using assms p w v ids g s y by (cases "sign_remote_reconnect (re_pairing env) (rc_service rc) auth (pa_sdp ans) (pa_dtls_fingerprint_sha256 ans) g")
      (auto simp: restart_active_def Let_def)
  obtain t z where t: "add_candidates (re_session env) s (psn_candidates p) = (t, z)" by fastforce
  have st: "hps_state t = HostSessionState_Negotiating"
    using candidates_state [of "re_session env" s "psn_candidates p"] t accept_reconnect_state(1) s y by simp
  have "rc_verifier rc' = w \<and> a' = a\<lparr>acs_session := t, acs_reconnect_generation := g\<rparr>"
    using assms p w v ids g s y aa t by (cases z) (auto simp: restart_active_def Let_def)
  then show ?thesis using that [of auth d v] w v ids g st by simp
qed

lemma single_envelope_starts_nothing:
  assumes "rc_pending rc = None" "rc_active rc = None"
  shows "rc_active (fst (handle_pending_envelope env rc e now)) = None"
proof -
  have "\<not> is_ready (fst (update_pending (pending_session_new d i req now) payload))" for d i req payload
    by (auto simp: update_pending_def is_ready_def pending_session_new_def push_candidate_def split: signaling_envelope_payload.splits
        option.splits session_authentication_payload.splits web_rtc_negotiation_payload.splits)
  then have "rc_active (fst (advance_pending env rc e payload i now)) = None" for payload i
    using assms by (auto simp: advance_pending_def prepare_pending_def try_start_pending_def split: prod.splits sum.splits)
      (metis fst_conv)+
  then show ?thesis
    using assms by (auto simp: handle_pending_envelope_def simp del: session_state.of_eq_Some
        split: option.splits signaling_envelope_payload.splits)
qed

lemma try_restart_verified:
  assumes "try_restart_active env rc now = (rc', r)" "rc_active rc = Some a" "rc_active rc' = Some a'"
    and "acs_reconnect_generation a' \<noteq> acs_reconnect_generation a"
  obtains auth and d :: web_rtc_session_description and v where
    "verify_remote_offer (pe_crypto (re_pairing env)) (rc_service rc) (rc_verifier rc) auth (wrsd_sdp d)
       (wrsd_dtls_fingerprint_sha256 d) now = (rc_verifier rc', Inr v)"
    "di_device_id (vso_controller v) = acs_controller_device_id a" "vso_session_id v = acs_session_id a"
    "checked_add (acs_reconnect_generation a) 1 = Some (acs_reconnect_generation a')"
    "hps_state (acs_session a') = HostSessionState_Negotiating" "acs_controller_device_id a' = acs_controller_device_id a"
    "acs_session_id a' = acs_session_id a"
proof -
  let ?rc = "rc\<lparr>rc_active := map_option (\<lambda>a. a\<lparr>acs_reconnect := None\<rparr>) (rc_active rc)\<rparr>"
  obtain p where p: "acs_reconnect a = Some p" "is_ready p"
    using assms by (cases "acs_reconnect a") (auto simp: try_restart_active_def split: if_splits)
  obtain rc2 q where q: "restart_active env ?rc p now = (rc2, q)" by fastforce
  have rc2: "rc' = rc2" using assms(1,2) p q by (cases q) (auto simp: try_restart_active_def Let_def)
  have a: "rc_active ?rc = Some (a\<lparr>acs_reconnect := None\<rparr>)" using assms(2) by simp
  show ?thesis
    by (rule restart_verified [OF q a, of a']) (use that assms(3,4) rc2 in simp_all)
qed

text \<open>After the deadline, an envelope ends the session and cannot start another.\<close>

lemma expired_routed:
  assumes "rc_active rc = Some a" "rc_pending rc = None" "acs_reconnect_deadline_unix_ms a = Some t" "t \<le> now"
    and "handle_routed_session env rc sender bs now = (rc', r)"
  shows "rc' = rc \<or> rc_active rc' = None"
proof -
  obtain rc1 x where m: "expire_active_reconnect env (expire_pending rc now) now = (rc1, x)" by fastforce
  have gone: "rc_active rc1 = None" using expired_closes(1) [of "expire_pending rc now" a t now env] assms(1,3,4) m by simp
  have "rc_pending rc1 = None"
    using expire_reconnect_kept(2) [of env "expire_pending rc now" now] expire_pending_shape [of rc now] assms(2) m by auto
  then have none: "rc_active rc2 = None" if "handle_pending_envelope env rc1 e now = (rc2, q)" for rc2 q e
    using single_envelope_starts_nothing [of rc1 env e now] gone that by simp
  show ?thesis
    using assms(5) m gone none by (cases x) (auto simp: handle_routed_session_def dispatch_envelope_def split: if_splits sum.splits)
qed

lemma active_envelope_restart:
  assumes "handle_active_envelope env rc e now = (rc', r)" "rc_active rc = Some a" "rc_active rc' = Some a'"
    and "acs_reconnect_generation a' \<noteq> acs_reconnect_generation a"
  obtains rc3 a3 where "no_restart rc rc3" "rc_active rc3 = Some a3" "try_restart_active env rc3 now = (rc', r)"
proof -
  have "handle_active_reconnect_envelope env rc e now = (rc', r)"
    using assms close_active_kept(5) [of env rc None]
    by (cases "close_active env rc None"; cases "snd (close_active env rc None)")
      (auto simp: handle_active_envelope_def simp del: session_state.of_eq_Some split: option.splits signaling_envelope_payload.splits if_splits)
  then obtain rc3 y where st: "store_reconnect_payload env rc e now = (rc3, y)"
    and rs: "sbind (rc3, y) (\<lambda>rc _. try_restart_active env rc now) = (rc', r)"
    by (cases "store_reconnect_payload env rc e now") (auto simp: handle_active_reconnect_envelope_def)
  have nr: "no_restart rc rc3" using no_restart_store [of rc env e now] st by simp
  obtain u where y: "y = Inr u" using rs nr assms(2-4) by (cases y) (auto simp: no_restart_def)
  have tr: "try_restart_active env rc3 now = (rc', r)" using rs y by simp
  obtain a3 where "rc_active rc3 = Some a3"
    using tr assms(3) keeps_try_restart [of rc3 env now] by (auto simp: keeps_session_def)
  with nr tr show ?thesis using that by blast
qed

text \<open>
  A session is only ever resumed by the Controller it belongs to.  When an envelope raises the reconnect generation of
  a session, it came from the session's own Controller, together with a fresh offer that was verified at that moment against
  the present grants for this very session; the generation rises by exactly one and never wraps; and the peer is
  negotiating anew, so that input stays suspended until it is connected.
\<close>

theorem reconnect_needs_verified_offer:
  assumes "coordinator_with_config sv f config = Inr rc0" "service_inv (re_pairing env) sv"
    and "rc = fst (run_steps (remote_step env) rc0 xs)" "rc_active rc = Some a"
    and "handle_routed_session env rc sender bs now = (rc', r)" "rc_active rc' = Some a'"
    and "acs_reconnect_generation a' \<noteq> acs_reconnect_generation a"
  shows "sender = acs_controller_device_id a \<and> acs_controller_device_id a' = acs_controller_device_id a
    \<and> acs_session_id a' = acs_session_id a
    \<and> unat (acs_reconnect_generation a') = unat (acs_reconnect_generation a) + 1
    \<and> hps_state (acs_session a') = HostSessionState_Negotiating
    \<and> (\<exists>reg auth sdp fp v. sv_authorization (rc_service rc) = Healthy reg
        \<and> offer_verify (pe_crypto (re_pairing env)) (rc_verifier rc) auth sdp fp reg now = (rc_verifier rc', Inr v)
        \<and> di_device_id (vso_controller v) = sender \<and> vso_session_id v = acs_session_id a)"
proof -
  have inv: "remote_inv env rc" unfolding assms(3) by (rule remote.run_inv [OF remote_inv_new [OF assms(1,2)]])
  have "now < t" if "acs_reconnect_deadline_unix_ms a = Some t" for t
    using expired_routed [OF assms(4) inv_activeD(2) [OF inv assms(4)] that _ assms(5)] assms(4,6,7) not_less by fastforce
  then have m: "expire_active_reconnect env (expire_pending rc now) now = (expire_pending rc now, Inr False)"
    using assms(4) by (intro not_expired) auto
  obtain e where e: "se_sender_device_id e = sender" "acs_controller_device_id a = se_sender_device_id e"
    "handle_active_envelope env (expire_pending rc now) e now = (rc', r)"
    using assms(4-7) m by (auto simp: handle_routed_session_def dispatch_envelope_def split: if_splits sum.splits)
  obtain rc3 a3 where t: "no_restart (expire_pending rc now) rc3" "rc_active rc3 = Some a3"
    "try_restart_active env rc3 now = (rc', r)"
    by (rule active_envelope_restart [OF e(3) _ assms(6,7)]) (simp add: assms(4))
  then have same: "acs_reconnect_generation a3 = acs_reconnect_generation a" "acs_session_id a3 = acs_session_id a"
    "acs_controller_device_id a3 = acs_controller_device_id a" "rc_verifier rc3 = rc_verifier rc"
    "sv_authorization (rc_service rc3) = sv_authorization (rc_service rc)"
    using assms(4) by (auto simp: no_restart_def)
  obtain auth and d :: web_rtc_session_description and v where
    v: "verify_remote_offer (pe_crypto (re_pairing env)) (rc_service rc3) (rc_verifier rc3) auth (wrsd_sdp d)
       (wrsd_dtls_fingerprint_sha256 d) now = (rc_verifier rc', Inr v)"
    "di_device_id (vso_controller v) = acs_controller_device_id a" "vso_session_id v = acs_session_id a"
    "checked_add (acs_reconnect_generation a) 1 = Some (acs_reconnect_generation a')"
    "hps_state (acs_session a') = HostSessionState_Negotiating" "acs_controller_device_id a' = acs_controller_device_id a"
    "acs_session_id a' = acs_session_id a"
    by (rule try_restart_verified [OF t(3,2) assms(6)]) (use assms(7) same in simp_all)
  obtain reg where reg: "sv_authorization (rc_service rc) = Healthy reg"
    "offer_verify (pe_crypto (re_pairing env)) (rc_verifier rc) auth (wrsd_sdp d) (wrsd_dtls_fingerprint_sha256 d) reg now
       = (rc_verifier rc', Inr v)"
    using v(1) same(4,5) by (cases "sv_authorization (rc_service rc)") (auto simp: verify_remote_offer_def smap_err_def prod_eq_iff)
  have "\<exists>reg auth sdp fp v. sv_authorization (rc_service rc) = Healthy reg
        \<and> offer_verify (pe_crypto (re_pairing env)) (rc_verifier rc) auth sdp fp reg now = (rc_verifier rc', Inr v)
        \<and> di_device_id (vso_controller v) = sender \<and> vso_session_id v = acs_session_id a"
    using reg v(2,3) e(1,2) by auto
  then show ?thesis using checked_add_Some [OF v(4)] v(5-7) e(1,2) by simp
qed

subsection \<open>The example, interrupted and resumed\<close>

lemma sign_reconnect_total:
  assumes "validate_fixed_fields offer = Inr ()" "soa_requested_permissions offer \<in> {[1], [1, 2]}"
    and "soa_host_device_id offer = di_device_id (hi_device_identity (sv_identity sv))"
    and "length fp = 32" "length (sha256 (pe_crypto env) (as_bytes sdp)) = 32"
  shows "\<exists>answer. sign_remote_reconnect env sv offer sdp fp g = Inr answer"
proof -
  define a where "a = unsigned_reconnect (pe_crypto env) offer sdp fp g"
  obtain bits where b: "permission_bits (sra_requested_permissions a) = Inr bits"
    using assms(2) by (auto simp: permission_bits_iff a_def unsigned_reconnect_def)
  have host: "sra_host_device_id a = di_device_id (hi_device_identity (sv_identity sv))"
    using assms(3) by (simp add: a_def unsigned_reconnect_def)
  have "fields_ok TranscriptPurpose_SessionReconnect (ct_fields (reconnect_transcript a bits))"
    using assms by (simp add: reconnect_transcript_def fields_ok_def transcript_field_of_def field_length_def
        validate_fixed_fields_iff a_def unsigned_reconnect_def)
  then obtain bs where bs: "transcript_encode (reconnect_transcript a bits) = Inr bs"
    by (auto simp: transcript_encode_iff reconnect_transcript_def)
  have purpose: "ct_purpose (reconnect_transcript a bits) = TranscriptPurpose_SessionReconnect"
    by (simp add: reconnect_transcript_def)
  obtain sig where "sign_canonical_transcript (pe_crypto env) (pe_signer env) (sv_identity sv) bs = Inr sig"
    using sign_own_total [OF bs, of "sv_identity sv" "pe_crypto env" "pe_signer env"] host purpose
    by (auto simp: answer_names_host)
  moreover have "encode_session_reconnect_transcript a = Inr bs" using b bs by (auto simp: reconnect_transcript_iff)
  ultimately show ?thesis by (simp add: sign_remote_reconnect_def Let_def a_def)
qed

definition demo_again :: session_offer_authentication where
  "demo_again = demo_connect\<lparr>soa_nonce := replicate 32 5\<rparr>"

lemma demo_again_verified:
  "\<exists>v. offer_verify demo_crypto (rc_verifier demo_live) demo_again ''v=0'' (replicate 32 6) demo_granted 0 = (v, Inr demo_verified)"
proof -
  have f: "validate_fixed_fields demo_again = Inr ()"
    by (simp add: validate_fixed_fields_iff demo_again_def demo_connect_def demo_offer_def)
  have n: "normalize_session_permissions (soa_requested_permissions demo_again)
      = Inr [SessionPermission_ViewScreen, SessionPermission_ControlInput]"
    by (simp add: normalize_session_iff demo_again_def demo_connect_def demo_offer_def)
  obtain t where t: "encode_session_offer_transcript demo_again = Inr t" using offer_transcript_exists [OF f n] by blast
  have "verify_bindings demo_crypto (replicate 32 3) demo_again ''v=0'' (replicate 32 6) demo_granted 0
      = Inr (demo_controller, [SessionPermission_ViewScreen, SessionPermission_ControlInput])"
    unfolding verify_bindings_iff using f n t
    by (simp add: validate_time_iff verify_signature_iff)
      (simp add: demo_again_def demo_connect_def demo_offer_def demo_crypto_def demo_granted_def demo_registry_def
        controller_grant_of_def bt_get_def demo_view_def demo_controller_def as_bytes_def)
  then show ?thesis
    by (simp add: offer_verify_def demo_live_def bt_retain_def bt_get_def nonce_key_def demo_again_def demo_connect_def demo_offer_def limits)
qed

definition demo_offered :: "(unit, demo_desk platform_input_sink, unit) active_session" where
  "demo_offered = demo_active\<lparr>acs_session := fst (begin_reconnect demo_session_ops (acs_session demo_active)),
     acs_reconnect := Some ((pending_session_new (replicate 32 4) (replicate 16 1) ''r'' 0)\<lparr>psn_authentication := Some demo_again\<rparr>),
     acs_reconnect_deadline_unix_ms := Some 45000\<rparr>"

lemma demo_begin: "begin_reconnect demo_session_ops (acs_session demo_active) =
    (fst (begin_reconnect demo_session_ops (acs_session demo_active)), Inr ())"
  "hps_state (fst (begin_reconnect demo_session_ops (acs_session demo_active))) = HostSessionState_Reconnecting"
  by (simp_all add: begin_reconnect_def demo_active_def demo_peer_session_def session_release_all_def demo_session_ops_def
      platform_input_ops_def sink_release_all_def desk_sink_def Let_def)

definition demo_again_envelope :: signaling_envelope where
  "demo_again_envelope = demo_envelope (SignalingEnvelope_SessionAuthentication
     \<lparr>sau_payload = Some (SessionAuthentication_Offer demo_again)\<rparr>)"

lemma demo_again_decoded:
  "decode_and_validate_signaling_envelope (re_decode demo_remote_env) [4] = Inr demo_again_envelope"
proof -
  have "re_decode demo_remote_env [4] = Some demo_again_envelope"
    by (simp add: demo_remote_env_def demo_again_envelope_def demo_again_def)
  then show ?thesis
    by (simp add: decode_and_validate_signaling_envelope_def validate_signaling_envelope_def bind_res_Inr
        validate_session_authentication_def accepted auth_base_ok_def demo_again_envelope_def demo_envelope_def demo_again_def
        demo_connect_def demo_offer_def version_ok_def limits del: all_ok.simps)
qed

lemma demo_reconnecting:
  assumes "rc_active rc = Some b" "acs_session_id b = replicate 16 1" "acs_controller_device_id b = replicate 32 4"
    "begin_reconnect demo_session_ops (acs_session b) = (s, Inr ())" "sv_remote_status (rc_service rc) = Healthy x"
  shows "\<exists>y. begin_active_reconnect demo_remote_env rc now = (rc\<lparr>rc_active := Some (b\<lparr>acs_session := s,
      acs_reconnect_deadline_unix_ms := Some (case acs_reconnect_deadline_unix_ms b of
        Some t \<Rightarrow> t | None \<Rightarrow> saturating_add now ACTIVE_RECONNECT_LIFETIME_MS)\<rparr>),
    rc_service := (rc_service rc)\<lparr>sv_remote_status := Healthy y\<rparr>\<rparr>, Inr ())"
proof -
  have "re_session demo_remote_env = demo_session_ops" by (simp add: demo_remote_env_def)
  then show ?thesis
    using assms status_published [OF assms(5), of "replicate 16 1" "replicate 32 4" SessionState_Reconnecting]
    by (auto simp: begin_active_reconnect_def set_service_def Let_def intro!: exI simp del: session_state_code.simps)
qed

lemma demo_third:
  "\<exists>x r. handle_routed_session demo_remote_env demo_live (replicate 32 4) [4] 0
     = (demo_live\<lparr>rc_service := demo_live_service\<lparr>sv_remote_status := Healthy x\<rparr>, rc_active := Some demo_offered\<rparr>, r)"
proof -
  have live: "rc_active demo_live = Some demo_active" "rc_service demo_live = demo_live_service" "\<not> rc_closed demo_live"
    "rc_failed_attempt demo_live = None" "rc_pending demo_live = None"
    by (simp_all add: demo_live_def demo_coordinator_def)
  have act: "acs_session_id demo_active = replicate 16 1" "acs_controller_device_id demo_active = replicate 32 4"
    "acs_reconnect demo_active = None" "acs_reconnect_deadline_unix_ms demo_active = None"
    by (simp_all add: demo_active_def)
  have "\<exists>x. sv_remote_status (rc_service demo_live) = Healthy x" by (simp add: live demo_live_service_def)
  then obtain y where b: "begin_active_reconnect demo_remote_env demo_live 0 = (demo_live\<lparr>rc_active := Some (demo_active\<lparr>acs_session :=
        fst (begin_reconnect demo_session_ops (acs_session demo_active)), acs_reconnect_deadline_unix_ms := Some 45000\<rparr>),
      rc_service := demo_live_service\<lparr>sv_remote_status := Healthy y\<rparr>\<rparr>, Inr ())"
    using demo_reconnecting [OF live(1) act(1,2) demo_begin(1), of _ 0] live(2) act(4) by (auto simp: saturating_add_def limits)
  have again: "soa_controller_device_id demo_again = replicate 32 4" "soa_session_id demo_again = replicate 16 1"
    by (simp_all add: demo_again_def demo_connect_def demo_offer_def)
  have off: "store_reconnect_offer demo_remote_env demo_live demo_again ''r'' 0 = (demo_live\<lparr>rc_service :=
      demo_live_service\<lparr>sv_remote_status := Healthy y\<rparr>, rc_active := Some demo_offered\<rparr>, Inr ())"
    using b again by (simp add: store_reconnect_offer_def prepare_active_reconnect_def set_reconnect_def act Let_def
        pending_session_new_def demo_offered_def ensure_def)
  have "\<not> is_ready (the (acs_reconnect demo_offered))" "acs_reconnect demo_offered \<noteq> None"
    by (simp_all add: demo_offered_def is_ready_def pending_session_new_def)
  then have "try_restart_active demo_remote_env (demo_live\<lparr>rc_service := demo_live_service\<lparr>sv_remote_status := Healthy y\<rparr>,
      rc_active := Some demo_offered\<rparr>) 0 = (demo_live\<lparr>rc_service := demo_live_service\<lparr>sv_remote_status := Healthy y\<rparr>,
      rc_active := Some demo_offered\<rparr>, Inr [])"
    by (auto simp: try_restart_active_def)
  moreover have "expire_active_reconnect demo_remote_env (expire_pending demo_live 0) 0 = (demo_live, Inr False)"
    using live act by (simp add: expire_active_reconnect_def expire_pending_def reconnect_deadline_unix_ms_def)
  ultimately have "handle_routed_session demo_remote_env demo_live (replicate 32 4) [4] 0 =
      (demo_live\<lparr>rc_service := demo_live_service\<lparr>sv_remote_status := Healthy y\<rparr>, rc_active := Some demo_offered\<rparr>, Inr [])"
    using live act off
    by (simp add: handle_routed_session_def demo_again_decoded dispatch_envelope_def attempt_failed_before_def handle_active_envelope_def
        handle_active_reconnect_envelope_def store_reconnect_payload_def demo_again_envelope_def demo_envelope_def
        payload_session_id_def)
  then show ?thesis by blast
qed

definition demo_renewed :: "(unit, demo_desk platform_input_sink, unit) active_session" where
  "demo_renewed = demo_offered\<lparr>acs_session := (acs_session demo_offered)\<lparr>hps_state := HostSessionState_Negotiating\<rparr>,
     acs_reconnect := None, acs_reconnect_generation := 1\<rparr>"

lemma demo_resigned:
  assumes "sv_identity sv = demo_identity"
  shows "\<exists>aa. sign_remote_reconnect demo_env sv demo_again ''v=0'' (replicate 32 1) 1 = Inr aa"
  using assms
  by (intro sign_reconnect_total) (simp_all add: validate_fixed_fields_iff demo_again_def demo_connect_def demo_offer_def
      demo_identity_def demo_host_def demo_crypto_def)

lemma demo_restarted:
  assumes "sv_authorization (rc_service rc) = Healthy demo_granted" "sv_identity (rc_service rc) = demo_identity"
    "rc_verifier rc = rc_verifier demo_live" "rc_active rc = Some (demo_offered\<lparr>acs_reconnect := None\<rparr>)"
    "psn_authentication p = Some demo_again" "psn_description p = Some demo_description" "psn_candidates p = []"
  shows "rc_active (fst (restart_active demo_remote_env rc p 0)) = Some demo_renewed"
proof -
  obtain v where v: "offer_verify demo_crypto (rc_verifier demo_live) demo_again ''v=0'' (replicate 32 6) demo_granted 0 = (v, Inr demo_verified)"
    using demo_again_verified by blast
  have "accept_reconnect_offer demo_session_ops (acs_session demo_offered) ''v=0'' =
      ((acs_session demo_offered)\<lparr>hps_state := HostSessionState_Negotiating\<rparr>,
       Inr \<lparr>pa_sdp = ''v=0'', pa_dtls_fingerprint_sha256 = replicate 32 1\<rparr>)"
    using demo_begin(2)
    by (simp add: accept_reconnect_offer_def demo_offered_def) (simp add: demo_session_ops_def demo_peer_def sdp_ok_def answer_ok_def limits)
  moreover obtain aa where "sign_remote_reconnect demo_env (rc_service rc) demo_again ''v=0'' (replicate 32 1) 1 = Inr aa"
    using demo_resigned [OF assms(2)] by blast
  moreover have "acs_controller_device_id demo_offered = replicate 32 4" "acs_session_id demo_offered = replicate 16 1"
    "acs_reconnect_generation demo_offered = 0" "di_device_id demo_controller = replicate 32 4"
    by (simp_all add: demo_offered_def demo_active_def demo_controller_def)
  ultimately show ?thesis
    using assms v
    by (simp add: restart_active_def verify_remote_offer_def demo_remote_env_def demo_description_def checked_add_def demo_renewed_def)
qed

lemma demo_fourth:
  assumes "rc = demo_live\<lparr>rc_service := demo_live_service\<lparr>sv_remote_status := Healthy x\<rparr>, rc_active := Some demo_offered\<rparr>"
  shows "rc_active (fst (handle_routed_session demo_remote_env rc (replicate 32 4) [2] 0)) = Some demo_renewed"
proof -
  let ?p = "(pending_session_new (replicate 32 4) (replicate 16 1) ''r'' 0)\<lparr>psn_authentication := Some demo_again\<rparr>"
  have off: "acs_session_id demo_offered = replicate 16 1" "acs_controller_device_id demo_offered = replicate 32 4"
    "acs_reconnect demo_offered = Some ?p" "acs_reconnect_deadline_unix_ms demo_offered = Some 45000"
    by (simp_all add: demo_offered_def demo_active_def)
  have b0: "begin_reconnect demo_session_ops (acs_session demo_offered) = (acs_session demo_offered, Inr ())"
    using demo_begin(2) by (simp add: begin_reconnect_def demo_offered_def)
  have rc: "rc_active rc = Some demo_offered" "sv_remote_status (rc_service rc) = Healthy x" "\<not> rc_closed rc"
    "rc_failed_attempt rc = None" "rc_pending rc = None" "host_device_id rc = replicate 32 3" "rc_verifier rc = rc_verifier demo_live"
    "sv_authorization (rc_service rc) = Healthy demo_granted" "sv_identity (rc_service rc) = demo_identity"
    using assms by (simp_all add: demo_live_def demo_coordinator_def host_device_id_def demo_live_service_def demo_service_def
        demo_identity_def demo_host_def)
  have same: "demo_offered\<lparr>acs_reconnect_deadline_unix_ms := Some 45000\<rparr> = demo_offered"
    using off(4) by (cases demo_offered) simp
  obtain y where b: "begin_active_reconnect demo_remote_env rc 0 = (rc\<lparr>rc_active := Some demo_offered,
      rc_service := (rc_service rc)\<lparr>sv_remote_status := Healthy y\<rparr>\<rparr>, Inr ())"
    using demo_reconnecting [OF rc(1) off(1,2) b0 rc(2), of 0] by (auto simp: off(4) same)
  define q where "q = ?p\<lparr>psn_description := Some demo_description\<rparr>"
  define rc2 where "rc2 = rc\<lparr>rc_active := Some (demo_offered\<lparr>acs_reconnect := Some q\<rparr>),
      rc_service := (rc_service rc)\<lparr>sv_remote_status := Healthy y\<rparr>\<rparr>"
  have q: "is_ready q" "psn_authentication q = Some demo_again" "psn_description q = Some demo_description" "psn_candidates q = []"
    by (simp_all add: q_def is_ready_def pending_session_new_def)
  have st: "store_reconnect_payload demo_remote_env rc demo_sdp_envelope 0 = (rc2, Inr ())"
    using rc off b
    by (simp add: store_reconnect_payload_def demo_sdp_envelope_def demo_envelope_def handle_active_negotiation_def
        prepare_active_reconnect_def set_reconnect_def demo_description_def Let_def ensure_def rc2_def q_def pending_session_new_def)
  let ?rc3 = "rc2\<lparr>rc_active := Some (demo_offered\<lparr>acs_reconnect := None\<rparr>)\<rparr>"
  have "rc_active (fst (restart_active demo_remote_env ?rc3 q 0)) = Some demo_renewed"
    by (rule demo_restarted) (use rc q in \<open>simp_all add: rc2_def\<close>)
  then have "rc_active (fst (try_restart_active demo_remote_env rc2 0)) = Some demo_renewed"
    using q(1) by (cases "restart_active demo_remote_env ?rc3 q 0"; cases "snd (restart_active demo_remote_env ?rc3 q 0)")
      (auto simp: try_restart_active_def rc2_def)
  moreover have "expire_active_reconnect demo_remote_env (expire_pending rc 0) 0 = (rc, Inr False)"
    using rc off by (simp add: expire_active_reconnect_def expire_pending_def reconnect_deadline_unix_ms_def)
  moreover have "handle_active_envelope demo_remote_env rc demo_sdp_envelope 0 = handle_active_reconnect_envelope demo_remote_env rc demo_sdp_envelope 0"
    by (simp add: handle_active_envelope_def demo_sdp_envelope_def demo_envelope_def)
  moreover have "\<not> attempt_failed_before rc demo_sdp_envelope" "se_sender_device_id demo_sdp_envelope = replicate 32 4"
    "se_recipient_device_id demo_sdp_envelope = replicate 32 3"
    using rc(4) by (simp_all add: attempt_failed_before_def demo_sdp_envelope_def demo_envelope_def split: option.split)
  ultimately show ?thesis
    using rc off st by (simp add: handle_routed_session_def demo_decoded dispatch_envelope_def handle_active_reconnect_envelope_def)
qed

theorem reconnect_needs_verified_offer_witness:
  "unat (acs_reconnect_generation demo_renewed) = unat (acs_reconnect_generation demo_offered) + 1
   \<and> hps_state (acs_session demo_renewed) = HostSessionState_Negotiating"
proof -
  let ?ops = "[Routed (replicate 32 4) [1] 0, Routed (replicate 32 4) [2] 0]"
  obtain x r where t: "handle_routed_session demo_remote_env demo_live (replicate 32 4) [4] 0
     = (demo_live\<lparr>rc_service := demo_live_service\<lparr>sv_remote_status := Healthy x\<rparr>, rc_active := Some demo_offered\<rparr>, r)"
    using demo_third by blast
  define rc where "rc = fst (run_steps (remote_step demo_remote_env) demo_coordinator (?ops @ [Routed (replicate 32 4) [4] 0]))"
  have rc: "rc = demo_live\<lparr>rc_service := demo_live_service\<lparr>sv_remote_status := Healthy x\<rparr>, rc_active := Some demo_offered\<rparr>"
    unfolding rc_def fst_run_steps_append demo_live_reached by (simp add: t)
  have a: "rc_active rc = Some demo_offered" by (simp add: rc)
  obtain rc' q where h: "handle_routed_session demo_remote_env rc (replicate 32 4) [2] 0 = (rc', q)" by fastforce
  have a': "rc_active rc' = Some demo_renewed" using demo_fourth [OF rc] h by simp
  have env: "service_inv (re_pairing demo_remote_env) demo_idle_service"
    using demo_idle_service_inv by (simp add: demo_remote_env_def)
  have "acs_reconnect_generation demo_renewed \<noteq> acs_reconnect_generation demo_offered"
    by (simp add: demo_renewed_def demo_offered_def demo_active_def)
  from reconnect_needs_verified_offer [OF demo_remote_new [unfolded coordinator_new_def] env rc_def a h a' this]
  show ?thesis by blast
qed

end
