(* ===== verification/Spec2Isabelle.thy ===== *)
theory Spec2Isabelle
  imports Agent_Connection Bridge_Connector Remote_Properties
begin

text \<open>
  A verification development for Roammand, a remote-desktop system.  A Controller (a phone or another desktop) pairs with a Host;
  the Host agent then admits it to sessions, and on locked or secure desktops a privileged bridge carries the session's input.
  The development models the Rust code under \<^verbatim>\<open>src/crates\<close> and \<^verbatim>\<open>src/gen/rust\<close>.

  \<^bold>\<open>The program and its theories.\<close>

  \<^item> Shared vocabulary.  \<open>Roam_Prelude\<close>: Rust's results, mutexes, integers at their width, byte encodings, and runs of a
    component as a sequence of operations (the locales \<open>machine\<close> and \<open>monotone_machine\<close>).  \<open>Ordered_Map\<close>: the ordered maps the
    registries keep.  \<open>Wire_Enums\<close>, \<open>Wire_Messages\<close>: \<^verbatim>\<open>protocol_limits.rs\<close> and the generated protobuf types.

  \<^item> Boundary of the wire.  \<open>Validation\<close> (\<^verbatim>\<open>gen/rust/src/validation.rs\<close>) checks every message; \<open>Transcript\<close>
    (\<^verbatim>\<open>canonical_transcript.rs\<close>, \<^verbatim>\<open>identity_derivation.rs\<close>) is the signed byte format; \<open>Frame_Codec\<close>
    (\<^verbatim>\<open>crates/ipc/src/framing.rs\<close>) cuts local streams into frames; \<open>Ipc_Auth\<close> (\<^verbatim>\<open>crates/ipc/src/auth.rs\<close>, \<^verbatim>\<open>protocol.rs\<close>,
    \<^verbatim>\<open>crates/privileged-bridge/src/auth.rs\<close>) is the handshake in front of every local connection.

  \<^item> The Host agent (\<^verbatim>\<open>crates/host-agent/src\<close>).  \<open>Host_Identity\<close> (\<^verbatim>\<open>identity.rs\<close>) keeps the device key;
    \<open>Grant_Store\<close> and \<open>Authorization\<close> (\<^verbatim>\<open>grant_store.rs\<close>, \<^verbatim>\<open>authorization.rs\<close>) hold who may connect; \<open>Pairing_Crypto\<close>,
    \<open>Signaling_Client\<close> and \<open>Host_Pairing\<close> (\<^verbatim>\<open>pairing_crypto.rs\<close>, \<^verbatim>\<open>signaling.rs\<close>, \<^verbatim>\<open>pairing.rs\<close>) create grants;
    \<open>Session_Auth\<close> and \<open>Session_Registry\<close> (\<^verbatim>\<open>session_auth.rs\<close>, \<^verbatim>\<open>sessions.rs\<close>) verify offers and track sessions; \<open>Host_Service\<close>
    (\<^verbatim>\<open>service.rs\<close>) composes them behind the local requests of the user interface; \<open>Agent_Connection\<close> (\<^verbatim>\<open>runtime.rs\<close>) is the
    listener with the concurrent tasks of its clients: reading, handshake, calls with their timeouts, notifications and writing.

  \<^item> Sessions (\<^verbatim>\<open>crates/host-webrtc/src\<close>, \<^verbatim>\<open>crates/host-platform/src/input.rs\<close>).  \<open>Input_Sink\<close> is the sink that injects input
    and remembers what it holds down; \<open>Peer_Session\<close> is one session with its negotiation, input channels and close.
    \<open>Remote_Session\<close> (\<^verbatim>\<open>crates/host-agent/src/remote_session.rs\<close>, \<^verbatim>\<open>remote_session_state.rs\<close>, \<^verbatim>\<open>remote_reconnect.rs\<close>) is the coordinator
    that takes an offer from the signaling service through verification, negotiation, reconnects and close, with the service, the
    verifier and the peer session under it; \<open>Remote_Properties\<close> holds the theorems about its runs.

  \<^item> The privileged bridge (\<^verbatim>\<open>crates/privileged-bridge/src\<close>).  The broker process: \<open>Bridge_Lease\<close> (\<^verbatim>\<open>lease.rs\<close>),
    \<open>Bridge_Route\<close> (\<^verbatim>\<open>session.rs\<close>) and \<open>Bridge_Broker\<close> (\<^verbatim>\<open>broker.rs\<close>) on top of both.  The helper process: \<open>Bridge_Helper\<close>
    (\<^verbatim>\<open>helper.rs\<close>).  The Host's end: \<open>Bridge_Framing\<close> (\<^verbatim>\<open>framing.rs\<close>), \<open>Bridge_Rpc\<close> (\<^verbatim>\<open>rpc.rs\<close>), \<open>Bridge_Wire\<close>
    (\<^verbatim>\<open>client.rs\<close>) and \<open>Bridge_Proxy\<close> (\<^verbatim>\<open>proxy.rs\<close>), which stands in for the native peer of a session.  The processes:
    \<open>Bridge_Runtime\<close> (\<^verbatim>\<open>runtime.rs\<close>) admits peers, registers the helper, serves the Host and runs the helper; \<open>Bridge_Connector\<close>
    (\<^verbatim>\<open>connector.rs\<close>, the factory of \<^verbatim>\<open>client.rs\<close>, \<^verbatim>\<open>crates/host-agent/src/remote_session_bridge.rs\<close>) is the Host's side of that
    conversation, from the challenge to the parts of a session.

  \<^bold>\<open>How code becomes definitions.\<close>  A struct is a record, an enum a datatype with the source's constructors, a method
  one definition.  A method on \<^verbatim>\<open>&mut self\<close> returns the new state with its result, so that what an early return leaves behind
  is visible.  A trait object is a record of operations over a state type of its own (\<open>bridge_transport_ops\<close>,
  \<open>helper_backend_ops\<close>, \<open>remote_input_ops\<close>, \<open>peer_backend_ops\<close>, \<dots>); where the repository implements the trait, the record is
  instantiated with the model of that implementation.  Randomness and the current time are arguments; a clock object is the
  sequence of its readings.  A mutex is healthy or poisoned.  Words have their width; \<^verbatim>\<open>checked_\<close> and \<^verbatim>\<open>saturating_\<close> operations are
  written out.

  \<^bold>\<open>Parameters.\<close>  Code outside the repository enters as an argument with the documented behaviour as a hypothesis
  where a theorem needs it: prost decoding and encoding, SHA-256, HMAC, HKDF, AES-GCM, X25519, Ed25519, URL parsing, the file
  system's primitive steps, the operating system's input injection.  No theorem assumes that a hash or MAC has no collisions: where a
  property rests on it, the theorem exhibits the two colliding inputs.

  \<^bold>\<open>Loops and fuel.\<close>  Two loops can run forever in principle and are partial functions into \<open>option\<close>: the push loop of the frame
  decoder, shown to return on every decoder that can arise, and the receive loop of the bridge RPC, shown to
  return as soon as anything but an event arrives.  Where a loop waits on that call, the argument \<open>hang\<close> stands for a call that never
  returns, and nothing is assumed of it.  The loops of the processes run until a shutdown flag is set: they recurse over the list of their
  turns, each with the clock readings and random values it draws, so that a theorem for all lists is one for every moment of
  the shutdown.  The asynchronous tasks of \<open>Agent_Connection\<close> are steps from one await to the next, and a run is any list of
  such steps.  All other recursion is structural; there is no fuel.

  \<^bold>\<open>What the theorems show.\<close>  Access: a grant exists only after a proved and locally accepted pairing, survives a restart, and
  revoking it cuts sessions and offers; offers are bound to their transcript and never accepted twice; requests on local connections come
  after the handshake; the broker process admits only the installed executables of its owner, and Host and helper of an installation
  do get in.  Sessions: a remote session starts and resumes only for a verified offer, others are busy meanwhile, an interrupted one ends
  with its window, and an announced end closes everything.  Control: input reaches a machine only through a
  connected session with permission, in order and once; on the privileged path only under the active lease, end to end from the broker to
  the native backend; everything held down is released on close.  Failing closed: broker, RPC and proxy sessions that saw something wrong
  never act again.  Formats: transcripts, frames, stored grants and bridge events are canonical or round-trip.  Status: what the user
  interface is shown (pairing, sessions, bridge) agrees with the state.  The manifest lists the properties in order of
  importance; each stands behind a block that states it in words, and the lemmas before it carry its proof.

  \<^bold>\<open>Not modelled.\<close>  The native WebRTC peer and screen capture (\<^verbatim>\<open>host-webrtc/src/native\<close>), the operating-system
  backends, transports and services (\<^verbatim>\<open>windows*\<close>, \<^verbatim>\<open>macos*\<close>, \<^verbatim>\<open>unix*\<close>), process entry points and the asynchronous loops that only
  move bytes and wake tasks (\<^verbatim>\<open>remote_runtime.rs\<close>, the start of the agent in \<^verbatim>\<open>runtime.rs\<close>) are calls into libraries and the operating
  system.  The
  Dart application and the Go signaling service are
  separate programs in other languages.
\<close>

end
